(* ===== verification/Prelude.thy ===== *)
theory Prelude
  imports Main "HOL-Library.Sublist"
begin

text \<open>
  Shared vocabulary of the development: the types that every component uses (identifiers,
  times, Go byte strings), the pieces of the Go standard library that several components
  call (\<open>strings.TrimSpace\<close>, \<open>strings.EqualFold\<close>, \<open>strings.HasPrefix\<close>,
  \<open>strings.CutPrefix\<close>), and the generic lemmas on lists and sums that carry the component
  proofs.

  Conventions.  A Go \<open>string\<close> is its list of bytes.  Go's \<open>int\<close>, \<open>int64\<close> and
  \<open>time.Time\<close> are \<open>int\<close> wherever the program only compares, adds and subtracts small
  quantities; where a value is allowed to wrap (the request counter) the component keeps it
  at its width.  A Go pointer that may be nil is an \<open>option\<close>.  A function with result
  \<open>(T, error)\<close> returns \<open>error + T\<close>, with \<open>Inl\<close> for the error.
\<close>

type_synonym gostr = string
type_synonym int64 = int
type_synonym time = int

named_theorems step_simps \<open>unfolding rules for single operations\<close>
named_theorems inv_intros \<open>operations preserve their component's invariant\<close>
named_theorems frame_simps \<open>what an operation leaves unchanged\<close>

section \<open>strings\<close>

text \<open>The UTF-8 encodings of the code points that \<open>unicode.IsSpace\<close> accepts.\<close>

definition space_runes :: "gostr list" where
  "space_runes =
     [[CHR 0x09], [CHR 0x0A], [CHR 0x0B], [CHR 0x0C], [CHR 0x0D], [CHR 0x20],
      [CHR 0xC2, CHR 0x85], [CHR 0xC2, CHR 0xA0],
      [CHR 0xE1, CHR 0x9A, CHR 0x80],
      [CHR 0xE2, CHR 0x80, CHR 0x80], [CHR 0xE2, CHR 0x80, CHR 0x81],
      [CHR 0xE2, CHR 0x80, CHR 0x82], [CHR 0xE2, CHR 0x80, CHR 0x83],
      [CHR 0xE2, CHR 0x80, CHR 0x84], [CHR 0xE2, CHR 0x80, CHR 0x85],
      [CHR 0xE2, CHR 0x80, CHR 0x86], [CHR 0xE2, CHR 0x80, CHR 0x87],
      [CHR 0xE2, CHR 0x80, CHR 0x88], [CHR 0xE2, CHR 0x80, CHR 0x89],
      [CHR 0xE2, CHR 0x80, CHR 0x8A], [CHR 0xE2, CHR 0x80, CHR 0xA8],
      [CHR 0xE2, CHR 0x80, CHR 0xA9], [CHR 0xE2, CHR 0x80, CHR 0xAF],
      [CHR 0xE2, CHR 0x81, CHR 0x9F], [CHR 0xE3, CHR 0x80, CHR 0x80]]"

text \<open>Remove the first of the given encodings that starts the string, if one does.\<close>

fun cut_one :: "gostr list \<Rightarrow> gostr \<Rightarrow> gostr option" where
  "cut_one [] s = None"
| "cut_one (r # rs) s = (if r \<noteq> [] \<and> prefix r s then Some (drop (length r) s) else cut_one rs s)"

lemma cut_one_shorter: "cut_one rs s = Some t \<Longrightarrow> length t < length s"
proof (induction rs)
  case (Cons r rs)
  show ?case
  proof (cases "r \<noteq> [] \<and> prefix r s")
    case True
    then have "0 < length r" "length r \<le> length s" by (auto dest: prefix_length_le)
    then have "length s - length r < length s" by (intro diff_less) linarith+
    with True Cons.prems show ?thesis by auto
  qed (use Cons in auto)
qed simp

function cut_all :: "gostr list \<Rightarrow> gostr \<Rightarrow> gostr" where
  "cut_all rs s = (case cut_one rs s of None \<Rightarrow> s | Some t \<Rightarrow> cut_all rs t)"
  by pat_completeness auto
termination
  by (relation "measure (\<lambda>(rs, s). length s)") (auto dest: cut_one_shorter)

declare cut_all.simps [simp del]

lemma cut_all_fix: "cut_one rs s = None \<Longrightarrow> cut_all rs s = s"
  by (simp add: cut_all.simps)

lemma cut_all_done: "cut_one rs (cut_all rs s) = None"
proof (induction rs s rule: cut_all.induct)
  case (1 rs s)
  then show ?case
    by (cases "cut_one rs s") (simp_all add: cut_all.simps [of rs s])
qed

lemma cut_all_idem: "cut_all rs (cut_all rs s) = cut_all rs s"
  by (rule cut_all_fix) (rule cut_all_done)

lemma cut_all_Nil [simp]: "cut_all rs [] = []"
proof -
  have "cut_one rs [] = None" by (induction rs) auto
  then show ?thesis by (rule cut_all_fix)
qed

lemma cut_one_suffix: "cut_one rs s = Some t \<Longrightarrow> suffix t s"
  by (induction rs) (auto split: if_splits simp: suffix_drop)

lemma cut_all_suffix: "suffix (cut_all rs s) s"
proof (induction rs s rule: cut_all.induct)
  case (1 rs s)
  then show ?case
    by (cases "cut_one rs s")
      (auto simp: cut_all.simps [of rs s] dest: cut_one_suffix intro: suffix_order.trans)
qed

lemma cut_one_prefix_None: "cut_one rs s = None \<Longrightarrow> prefix t s \<Longrightarrow> cut_one rs t = None"
  by (induction rs) (auto split: if_splits intro: prefix_order.trans)

definition trim_left :: "gostr \<Rightarrow> gostr" where
  "trim_left s = cut_all space_runes s"

definition trim_right :: "gostr \<Rightarrow> gostr" where
  "trim_right s = rev (cut_all (map rev space_runes) (rev s))"

definition trim_space :: "gostr \<Rightarrow> gostr" where
  "trim_space s = trim_right (trim_left s)"

lemma trim_right_prefix: "prefix (trim_right s) s"
  using cut_all_suffix [of "map rev space_runes" "rev s"]
  by (simp add: trim_right_def suffix_to_prefix)

lemma trim_space_idem [simp]: "trim_space (trim_space s) = trim_space s"
proof -
  let ?l = "trim_left s"
  have "cut_one space_runes ?l = None"
    by (simp add: trim_left_def cut_all_done)
  then have "cut_one space_runes (trim_right ?l) = None"
    by (rule cut_one_prefix_None) (rule trim_right_prefix)
  then have "trim_left (trim_right ?l) = trim_right ?l"
    by (simp add: trim_left_def cut_all_fix)
  moreover have "trim_right (trim_right ?l) = trim_right ?l"
    by (simp add: trim_right_def cut_all_idem)
  ultimately show ?thesis by (simp add: trim_space_def)
qed

lemma trim_space_Nil [simp]: "trim_space [] = []"
  by (simp add: trim_space_def trim_left_def trim_right_def)

text \<open>\<open>strings.HasPrefix\<close> and \<open>strings.CutPrefix\<close>.\<close>

definition has_prefix :: "gostr \<Rightarrow> gostr \<Rightarrow> bool" where
  "has_prefix s p = prefix p s"

definition cut_prefix :: "gostr \<Rightarrow> gostr \<Rightarrow> gostr option" where
  "cut_prefix s p = (if prefix p s then Some (drop (length p) s) else None)"

lemma cut_prefix_append [simp]: "cut_prefix (p @ s) p = Some s"
  by (simp add: cut_prefix_def)

lemma cut_prefix_SomeD: "cut_prefix s p = Some t \<Longrightarrow> s = p @ t"
  by (auto simp: cut_prefix_def prefix_def split: if_splits)

text \<open>
  ASCII case mapping.  \<open>strings.EqualFold\<close> and \<open>strings.ToUpper\<close> are applied by the
  modelled code to account types, statuses and HTTP methods, which are ASCII.
\<close>

definition ascii_lower :: "char \<Rightarrow> char" where
  "ascii_lower c = (if 65 \<le> (of_char c :: nat) \<and> of_char c \<le> (90::nat) then char_of (of_char c + 32 :: nat) else c)"

definition ascii_upper :: "char \<Rightarrow> char" where
  "ascii_upper c = (if 97 \<le> (of_char c :: nat) \<and> of_char c \<le> (122::nat) then char_of (of_char c - 32 :: nat) else c)"

definition equal_fold :: "gostr \<Rightarrow> gostr \<Rightarrow> bool" where
  "equal_fold s t = (map ascii_lower s = map ascii_lower t)"

definition to_upper :: "gostr \<Rightarrow> gostr" where
  "to_upper s = map ascii_upper s"

section \<open>options and sums\<close>

lemma sum_case_Inl [simp]: "(case Inl x of Inl a \<Rightarrow> f a | Inr b \<Rightarrow> g b) = f x"
  by simp

lemma option_caseD:
  "(case x of None \<Rightarrow> False | Some y \<Rightarrow> P y) \<longleftrightarrow> (\<exists>y. x = Some y \<and> P y)"
  by (cases x) auto

definition pos_or :: "int \<Rightarrow> int \<Rightarrow> int" where
  "pos_or x d = (if x \<le> 0 then d else x)"

lemma pos_or_pos: "0 < d \<Longrightarrow> 0 < pos_or x d"
  by (simp add: pos_or_def)

text \<open>Go's integer division truncates towards zero.\<close>

definition trunc_div :: "int \<Rightarrow> int \<Rightarrow> int" where
  "trunc_div a b = (if (a < 0) = (b < 0) then \<bar>a\<bar> div \<bar>b\<bar> else - (\<bar>a\<bar> div \<bar>b\<bar>))"

lemma trunc_div_nonneg [simp]: "0 \<le> a \<Longrightarrow> 0 < b \<Longrightarrow> trunc_div a b = a div b"
  by (simp add: trunc_div_def)

section \<open>strconv\<close>

text \<open>\<open>strconv.FormatUint\<close> and the verb \<open>%d\<close>: positional notation, most significant digit first.\<close>

fun digits :: "nat \<Rightarrow> nat \<Rightarrow> nat list" where
  "digits b n = (if b < 2 \<or> n < b then [n] else digits b (n div b) @ [n mod b])"

declare digits.simps [simp del]

definition digit_char :: "nat \<Rightarrow> char" where
  "digit_char d = ''0123456789abcdefghijklmnopqrstuvwxyz'' ! d"

definition format_uint :: "nat \<Rightarrow> nat \<Rightarrow> gostr" where
  "format_uint b n = map digit_char (digits b n)"

definition format_int :: "int \<Rightarrow> gostr" where
  "format_int i = (if i < 0 then CHR ''-'' # format_uint 10 (nat (- i)) else format_uint 10 (nat i))"

definition digits_value :: "nat \<Rightarrow> nat list \<Rightarrow> nat" where
  "digits_value b ds = foldl (\<lambda>a d. a * b + d) 0 ds"

lemma digits_value_digits: "digits_value b (digits b n) = n"
proof (induction b n rule: digits.induct)
  case (1 b n)
  show ?case
  proof (cases "b < 2 \<or> n < b")
    case True
    then show ?thesis by (simp add: digits.simps [of b n] digits_value_def)
  next
    case False
    with 1 have "digits_value b (digits b (n div b)) = n div b" by simp
    with False show ?thesis
      by (simp add: digits.simps [of b n] digits_value_def)
  qed
qed

lemma digits_less: "2 \<le> b \<Longrightarrow> \<forall>d \<in> set (digits b n). d < b"
proof (induction b n rule: digits.induct)
  case (1 b n)
  show ?case
  proof (cases "n < b")
    case True
    then show ?thesis by (simp add: digits.simps [of b n])
  next
    case False
    with 1 show ?thesis by (auto simp: digits.simps [of b n])
  qed
qed

lemma digits_not_Nil [simp]: "digits b n \<noteq> []"
  by (subst digits.simps) simp

lemma inj_digit_char: "inj_on digit_char {..<36}"
proof -
  have "inj_on (\<lambda>d. ''0123456789abcdefghijklmnopqrstuvwxyz'' ! d) {..<36}"
    by (rule inj_on_nth) auto
  then show ?thesis by (simp add: digit_char_def [abs_def])
qed

lemma digit_char_not_dash: "d < 36 \<Longrightarrow> digit_char d \<noteq> CHR ''-''"
proof -
  assume "d < 36"
  then have "digit_char d \<in> set ''0123456789abcdefghijklmnopqrstuvwxyz''"
    unfolding digit_char_def by (intro nth_mem) simp
  then show ?thesis by auto
qed

lemma format_uint_inject:
  assumes "2 \<le> b" "b \<le> 36" "format_uint b m = format_uint b n"
  shows "m = n"
proof -
  have sub: "set (digits b k) \<subseteq> {..<36}" for k
    using digits_less [OF assms(1), of k] assms(2) by force
  have "digits b m = digits b n"
    by (rule map_inj_on [OF assms(3) [unfolded format_uint_def]])
      (rule inj_on_subset [OF inj_digit_char], use sub in blast)
  then show ?thesis by (metis digits_value_digits)
qed

lemma format_uint_no_dash:
  assumes "2 \<le> b" "b \<le> 36"
  shows "CHR ''-'' \<notin> set (format_uint b n)"
proof
  assume "CHR ''-'' \<in> set (format_uint b n)"
  then obtain d where "d \<in> set (digits b n)" "digit_char d = CHR ''-''"
    by (auto simp: format_uint_def)
  moreover from this digits_less [OF assms(1)] assms(2) have "d < 36" by force
  ultimately show False using digit_char_not_dash by blast
qed

lemma format_uint_not_Nil [simp]: "format_uint b n \<noteq> []"
  by (simp add: format_uint_def)

lemma format_int_inject: "format_int i = format_int j \<longleftrightarrow> i = j"
proof
  assume eq: "format_int i = format_int j"
  have dash: "CHR ''-'' \<notin> set (format_uint 10 n)" for n by (rule format_uint_no_dash) auto
  have mixed: "CHR ''-'' # xs \<noteq> format_uint 10 n" for xs n
    using dash [of n] by (metis list.set_intros(1))
  show "i = j"
  proof (cases "(i < 0) = (j < 0)")
    case True
    with eq have "format_uint 10 (nat \<bar>i\<bar>) = format_uint 10 (nat \<bar>j\<bar>)"
      by (auto simp: format_int_def split: if_splits)
    then have "nat \<bar>i\<bar> = nat \<bar>j\<bar>" by (rule format_uint_inject [rotated 2]) auto
    with True show ?thesis by linarith
  next
    case False
    with eq mixed show ?thesis by (auto simp: format_int_def split: if_splits) metis+
  qed
qed simp

section \<open>finite maps\<close>

lemma card_dom_upd:
  "finite (dom m) \<Longrightarrow> card (dom (m(k \<mapsto> v))) = (if k \<in> dom m then card (dom m) else Suc (card (dom m)))"
  by (simp add: card_insert_if)

end
