(* ===== verification/Redis_Store.thy ===== *)
theory Redis_Store
  imports Prelude "HOL-Library.AList"
begin

text \<open>
  The interface to the Redis server that the caches of \<open>internal/repository\<close> call, most of
  the time from Lua scripts that the server runs atomically.  The server is not part of the
  repository, so its commands are the fields of a record \<open>redis_ops\<close> that every cache
  operation takes as an argument, and the locale \<open>redis\<close> states the documented behaviour
  of the commands that the program relies on, over three observations of the server's
  state: the sorted set under a key, the counter under a key and the key's expiry deadline.
  Every key of the program is used with one type only (its prefix decides which), so the laws
  do not mention the type error of a mixed use.

  A command issued from Go can fail in transit.  \<open>io\<close> says how a call ends: it is answered,
  it is lost before it reaches the server, or it is executed and the answer is lost.

  \<open>op_scan p\<close> is a complete \<open>SCAN\<close> iteration with the pattern \<open>p*\<close>: the batches of
  keys that successive calls with the returned cursor deliver, until the cursor is 0.

  The last section holds an in-memory store that satisfies the laws, on which the operations
  are evaluated.
\<close>

section \<open>Commands\<close>

record 'r redis_ops =
  op_zadd :: "gostr \<Rightarrow> int \<Rightarrow> gostr \<Rightarrow> 'r \<Rightarrow> 'r"
  op_zrem :: "gostr \<Rightarrow> gostr \<Rightarrow> 'r \<Rightarrow> 'r"
  op_zscore :: "gostr \<Rightarrow> gostr \<Rightarrow> 'r \<Rightarrow> int option"
  op_zcard :: "gostr \<Rightarrow> 'r \<Rightarrow> int"
  op_zremrange :: "gostr \<Rightarrow> int \<Rightarrow> 'r \<Rightarrow> 'r"
  op_zrange :: "gostr \<Rightarrow> 'r \<Rightarrow> gostr list"
  op_expire :: "gostr \<Rightarrow> time \<Rightarrow> 'r \<Rightarrow> 'r"
  op_del :: "gostr \<Rightarrow> 'r \<Rightarrow> 'r"
  op_get :: "gostr \<Rightarrow> 'r \<Rightarrow> int option"
  op_incr :: "gostr \<Rightarrow> 'r \<Rightarrow> 'r"
  op_decr :: "gostr \<Rightarrow> 'r \<Rightarrow> 'r"
  op_scan :: "gostr \<Rightarrow> 'r \<Rightarrow> gostr list list"

datatype redis_error = RedisError

datatype io = Answered | Lost | AnswerLost

definition run_io :: "io \<Rightarrow> ('r \<Rightarrow> 'a \<times> 'r) \<Rightarrow> 'r \<Rightarrow> (redis_error + 'a) \<times> 'r" where
  "run_io i f r =
     (case i of
        Answered \<Rightarrow> (let (a, r') = f r in (Inr a, r'))
      | Lost \<Rightarrow> (Inl RedisError, r)
      | AnswerLost \<Rightarrow> (Inl RedisError, snd (f r)))"

lemma run_io_Inr: "run_io i f r = (Inr a, r') \<longleftrightarrow> i = Answered \<and> f r = (a, r')"
  by (auto simp: run_io_def split: io.splits prod.splits)

lemma run_io_snd: "snd (run_io i f r) = (if i = Lost then r else snd (f r))"
  by (auto simp: run_io_def split: io.splits prod.splits)

section \<open>Documented behaviour\<close>

locale redis =
  fixes R :: "'r redis_ops"
    and zset :: "'r \<Rightarrow> gostr \<Rightarrow> gostr \<rightharpoonup> int"
    and cnt :: "'r \<Rightarrow> gostr \<rightharpoonup> int"
    and dl :: "'r \<Rightarrow> gostr \<rightharpoonup> time"
  assumes zset_finite: "finite (dom (zset r k))"
    and zscore: "op_zscore R k m r = zset r k m"
    and zcard: "op_zcard R k r = int (card (dom (zset r k)))"
    and zrange: "set (op_zrange R k r) = dom (zset r k)"
    and zset_zadd: "zset (op_zadd R k s m r) = (zset r)(k := (zset r k)(m \<mapsto> s))"
    and cnt_zadd: "cnt (op_zadd R k s m r) = cnt r"
    and dl_zadd: "dl (op_zadd R k s m r) = dl r"
    and zset_zrem: "zset (op_zrem R k m r) = (zset r)(k := (zset r k)(m := None))"
    and cnt_zrem: "cnt (op_zrem R k m r) = cnt r"
    and dl_zrem: "dl (op_zrem R k m r) k' =
      (if k' = k \<and> (zset r k)(m := None) = Map.empty then None else dl r k')"
    and zset_zremrange: "zset (op_zremrange R k mx r) =
      (zset r)(k := (\<lambda>m. case zset r k m of None \<Rightarrow> None | Some s \<Rightarrow> if s \<le> mx then None else Some s))"
    and cnt_zremrange: "cnt (op_zremrange R k mx r) = cnt r"
    and dl_zremrange: "dl (op_zremrange R k mx r) k' =
      (if k' = k \<and> (\<forall>m s. zset r k m = Some s \<longrightarrow> s \<le> mx) then None else dl r k')"
    and zset_expire: "zset (op_expire R k t r) = zset r"
    and cnt_expire: "cnt (op_expire R k t r) = cnt r"
    and dl_expire: "dl (op_expire R k t r) = (dl r)(k \<mapsto> t)"
    and zset_del: "zset (op_del R k r) = (zset r)(k := Map.empty)"
    and cnt_del: "cnt (op_del R k r) = (cnt r)(k := None)"
    and dl_del: "dl (op_del R k r) = (dl r)(k := None)"
    and get: "op_get R k r = cnt r k"
    and zset_incr: "zset (op_incr R k r) = zset r"
    and cnt_incr: "cnt (op_incr R k r) = (cnt r)(k \<mapsto> (case cnt r k of None \<Rightarrow> 1 | Some c \<Rightarrow> c + 1))"
    and zset_decr: "zset (op_decr R k r) = zset r"
    and cnt_decr: "cnt (op_decr R k r) = (cnt r)(k \<mapsto> (case cnt r k of None \<Rightarrow> -1 | Some c \<Rightarrow> c - 1))"
    and scan: "set (concat (op_scan R p r)) = {k. prefix p k \<and> (zset r k \<noteq> Map.empty \<or> cnt r k \<noteq> None)}"
begin

lemmas zset_laws =
  zscore zcard zrange zset_zadd zset_zrem zset_expire zset_del zset_incr zset_decr

lemmas cnt_laws =
  get cnt_zadd cnt_zrem cnt_zremrange cnt_expire cnt_del cnt_incr cnt_decr

lemmas dl_laws = dl_zadd dl_zrem dl_zremrange dl_expire dl_del

end

section \<open>An in-memory store\<close>

record mem_redis =
  mem_z :: "(gostr \<times> (gostr \<times> int) list) list"
  mem_c :: "(gostr \<times> int) list"
  mem_d :: "(gostr \<times> time) list"

definition mem_zl :: "mem_redis \<Rightarrow> gostr \<Rightarrow> (gostr \<times> int) list" where
  "mem_zl r k = (case map_of (mem_z r) k of None \<Rightarrow> [] | Some l \<Rightarrow> l)"

definition mem_zset :: "mem_redis \<Rightarrow> gostr \<Rightarrow> gostr \<rightharpoonup> int" where
  "mem_zset r k = map_of (mem_zl r k)"

definition mem_cnt :: "mem_redis \<Rightarrow> gostr \<rightharpoonup> int" where
  "mem_cnt r = map_of (mem_c r)"

definition mem_dl :: "mem_redis \<Rightarrow> gostr \<rightharpoonup> time" where
  "mem_dl r = map_of (mem_d r)"

definition mem_put :: "gostr \<Rightarrow> (gostr \<times> int) list \<Rightarrow> mem_redis \<Rightarrow> mem_redis" where
  "mem_put k l r =
     r\<lparr>mem_z := AList.update k l (mem_z r),
       mem_d := (if l = [] then AList.delete k (mem_d r) else mem_d r)\<rparr>"

definition drop_low :: "int \<Rightarrow> (gostr \<times> int) list \<Rightarrow> (gostr \<times> int) list" where
  "drop_low mx l = filter (\<lambda>(m, s). \<not> the (map_of l m) \<le> mx) l"

definition mem_ops :: "mem_redis redis_ops" where
  "mem_ops = \<lparr>
     op_zadd = (\<lambda>k s m r. r\<lparr>mem_z := AList.update k (AList.update m s (mem_zl r k)) (mem_z r)\<rparr>),
     op_zrem = (\<lambda>k m r. mem_put k (AList.delete m (mem_zl r k)) r),
     op_zscore = (\<lambda>k m r. map_of (mem_zl r k) m),
     op_zcard = (\<lambda>k r. int (length (remdups (map fst (mem_zl r k))))),
     op_zremrange = (\<lambda>k mx r. mem_put k (drop_low mx (mem_zl r k)) r),
     op_zrange = (\<lambda>k r. remdups (map fst (mem_zl r k))),
     op_expire = (\<lambda>k t r. r\<lparr>mem_d := AList.update k t (mem_d r)\<rparr>),
     op_del = (\<lambda>k r. r\<lparr>mem_z := AList.delete k (mem_z r), mem_c := AList.delete k (mem_c r),
                      mem_d := AList.delete k (mem_d r)\<rparr>),
     op_get = (\<lambda>k r. map_of (mem_c r) k),
     op_incr = (\<lambda>k r. r\<lparr>mem_c := AList.update k
        (case map_of (mem_c r) k of None \<Rightarrow> 1 | Some c \<Rightarrow> c + 1) (mem_c r)\<rparr>),
     op_decr = (\<lambda>k r. r\<lparr>mem_c := AList.update k
        (case map_of (mem_c r) k of None \<Rightarrow> -1 | Some c \<Rightarrow> c - 1) (mem_c r)\<rparr>),
     op_scan = (\<lambda>p r. [filter (prefix p)
        (remdups (filter (\<lambda>k. mem_zl r k \<noteq> []) (map fst (mem_z r)) @ map fst (mem_c r)))])\<rparr>"

definition mem_empty :: mem_redis where
  "mem_empty = \<lparr>mem_z = [], mem_c = [], mem_d = []\<rparr>"

lemma map_of_filter_keys: "map_of (filter (\<lambda>(k, v). P k) l) = (\<lambda>k. if P k then map_of l k else None)"
  by (induction l) (auto simp: fun_eq_iff)

lemma map_of_drop_low:
  "map_of (drop_low mx l) m =
     (case map_of l m of None \<Rightarrow> None | Some s \<Rightarrow> if s \<le> mx then None else Some s)"
  by (simp add: drop_low_def map_of_filter_keys split: option.splits)

lemma map_of_Nil_iff: "map_of l = Map.empty \<longleftrightarrow> l = []"
  by (cases l) (auto simp: fun_eq_iff)

lemma mem_zl_put: "mem_zl (mem_put k l r) k' = (if k' = k then l else mem_zl r k')"
  by (simp add: mem_zl_def mem_put_def update_conv)

lemma card_dom_map_of: "card (dom (map_of l)) = length (remdups (map fst l))"
  by (simp add: dom_map_of_conv_image_fst flip: length_remdups_card_conv set_map)

interpretation mem: redis mem_ops mem_zset mem_cnt mem_dl
proof unfold_locales
  fix r :: mem_redis and k m p :: gostr and s mx t :: int and k' :: gostr
  show "finite (dom (mem_zset r k))" by (simp add: mem_zset_def finite_dom_map_of)
  show "op_zcard mem_ops k r = int (card (dom (mem_zset r k)))"
    by (simp add: mem_ops_def mem_zset_def card_dom_map_of)
  show "set (op_zrange mem_ops k r) = dom (mem_zset r k)"
    by (simp add: mem_ops_def mem_zset_def dom_map_of_conv_image_fst)
  show "mem_zset (op_zadd mem_ops k s m r) = (mem_zset r)(k := (mem_zset r k)(m \<mapsto> s))"
    by (simp add: mem_ops_def mem_zset_def mem_zl_def fun_eq_iff update_conv)
  show "mem_zset (op_zrem mem_ops k m r) = (mem_zset r)(k := (mem_zset r k)(m := None))"
    by (simp add: mem_ops_def mem_zset_def mem_zl_put fun_eq_iff delete_conv')
  show "mem_dl (op_zrem mem_ops k m r) k' =
      (if k' = k \<and> (mem_zset r k)(m := None) = Map.empty then None else mem_dl r k')"
    using map_of_Nil_iff [of "AList.delete m (mem_zl r k)"]
    by (auto simp: mem_ops_def mem_dl_def mem_zset_def mem_put_def delete_conv')
  show "mem_zset (op_zremrange mem_ops k mx r) = (mem_zset r)(k := (\<lambda>m. case mem_zset r k m of
      None \<Rightarrow> None | Some s \<Rightarrow> if s \<le> mx then None else Some s))"
    by (simp add: mem_ops_def mem_zset_def mem_zl_put fun_eq_iff map_of_drop_low)
  show "mem_dl (op_zremrange mem_ops k mx r) k' =
      (if k' = k \<and> (\<forall>m s. mem_zset r k m = Some s \<longrightarrow> s \<le> mx) then None else mem_dl r k')"
  proof -
    have "drop_low mx l = [] \<longleftrightarrow> (\<forall>m. map_of (drop_low mx l) m = None)" for l
      using map_of_Nil_iff [of "drop_low mx l"] by (simp add: fun_eq_iff)
    then have "drop_low mx l = [] \<longleftrightarrow> (\<forall>m s. map_of l m = Some s \<longrightarrow> s \<le> mx)" for l
      by (auto simp: map_of_drop_low split: option.splits)
    then show ?thesis
      by (auto simp: mem_ops_def mem_dl_def mem_zset_def mem_put_def delete_conv')
  qed
  show "mem_zset (op_del mem_ops k r) = (mem_zset r)(k := Map.empty)"
    by (simp add: mem_ops_def mem_zset_def mem_zl_def fun_eq_iff delete_conv')
  show "set (concat (op_scan mem_ops p r)) =
      {k. prefix p k \<and> (mem_zset r k \<noteq> Map.empty \<or> mem_cnt r k \<noteq> None)}"
  proof -
    have "mem_zl r k \<noteq> [] \<Longrightarrow> k \<in> fst ` set (mem_z r)" for k
      by (auto simp: mem_zl_def simp flip: dom_map_of_conv_image_fst split: option.splits)
    moreover have "mem_cnt r k \<noteq> None \<longleftrightarrow> k \<in> fst ` set (mem_c r)" for k
      by (auto simp: mem_cnt_def simp flip: dom_map_of_conv_image_fst)
    ultimately show ?thesis
      by (auto simp: mem_ops_def mem_zset_def map_of_Nil_iff)
  qed
qed (simp_all add: mem_ops_def mem_zset_def [abs_def] mem_zl_def mem_cnt_def mem_dl_def mem_put_def
  update_conv' delete_conv' update_conv)

end
