(* ===== verification/Slot_Window.thy ===== *)
theory Slot_Window
  imports Redis_Store
begin

text \<open>
  The abstract contract behind the Lua scripts that admit members to a sliding window: the
  concurrency slots of \<open>concurrency_cache.go\<close> and the active sessions of
  \<open>session_limit_cache.go\<close>.  A window is a finite map from members to the second in which
  they were last seen.  Admission first forgets the members that are older than the window,
  then admits a member that is already inside or for which there is room.

  \<open>slot_registry\<close> is the interface: an implementation whose observable window follows the
  specification.  The bound on the number of members and the persistence of a granted
  membership are proved once, here, for every run of operations.
\<close>

definition window_live :: "time \<Rightarrow> int \<Rightarrow> (gostr \<rightharpoonup> int) \<Rightarrow> (gostr \<rightharpoonup> int)" where
  "window_live now ttl w = (\<lambda>m. case w m of None \<Rightarrow> None | Some s \<Rightarrow> if s \<le> now - ttl then None else Some s)"

definition window_admits :: "time \<Rightarrow> int \<Rightarrow> int \<Rightarrow> gostr \<Rightarrow> (gostr \<rightharpoonup> int) \<Rightarrow> bool" where
  "window_admits now ttl mx m w \<longleftrightarrow>
     m \<in> dom (window_live now ttl w) \<or> int (card (dom (window_live now ttl w))) < mx"

definition window_admit :: "time \<Rightarrow> int \<Rightarrow> int \<Rightarrow> gostr \<Rightarrow> (gostr \<rightharpoonup> int) \<Rightarrow> (gostr \<rightharpoonup> int)" where
  "window_admit now ttl mx m w =
     (if window_admits now ttl mx m w then (window_live now ttl w)(m \<mapsto> now) else window_live now ttl w)"

lemma window_live_Some:
  "window_live now ttl w m = Some s \<longleftrightarrow> w m = Some s \<and> now - ttl < s"
  by (auto simp: window_live_def split: option.splits)

lemma dom_window_live: "dom (window_live now ttl w) \<subseteq> dom w"
  by (auto simp: window_live_Some)

lemma card_window_live: "finite (dom w) \<Longrightarrow> card (dom (window_live now ttl w)) \<le> card (dom w)"
  by (rule card_mono) (auto simp: window_live_Some)

lemma card_window_admit:
  assumes "finite (dom w)" "int (card (dom w)) \<le> max 0 mx"
  shows "int (card (dom (window_admit now ttl mx m w))) \<le> max 0 mx"
proof -
  let ?L = "window_live now ttl w"
  have fin: "finite (dom ?L)" by (rule finite_subset [OF dom_window_live assms(1)])
  have le: "int (card (dom ?L)) \<le> max 0 mx"
    using card_window_live [OF assms(1), of now ttl] assms(2) by linarith
  show ?thesis
  proof (cases "m \<in> dom ?L")
    case True
    then show ?thesis using le by (auto simp: window_admit_def insert_absorb)
  next
    case False
    then show ?thesis using le fin by (auto simp: window_admit_def window_admits_def)
  qed
qed

lemma window_admit_keeps:
  "w m = Some s \<Longrightarrow> now < s + ttl \<Longrightarrow>
   \<exists>s'. window_admit now ttl mx m' w m = Some s' \<and> (s' = s \<or> s' = now)"
  by (auto simp: window_admit_def window_live_Some)

text \<open>Runs of the specification.\<close>

datatype window_op = Admit time gostr | Leave gostr | Purge time

fun window_exec :: "int \<Rightarrow> int \<Rightarrow> window_op \<Rightarrow> (gostr \<rightharpoonup> int) \<Rightarrow> (gostr \<rightharpoonup> int)" where
  "window_exec ttl mx (Admit now m) w = window_admit now ttl mx m w"
| "window_exec ttl mx (Leave m) w = w(m := None)"
| "window_exec ttl mx (Purge now) w = window_live now ttl w"

lemma window_exec_finite: "finite (dom w) \<Longrightarrow> finite (dom (window_exec ttl mx oper w))"
proof (cases oper)
  case (Admit now m)
  assume "finite (dom w)"
  then have "finite (dom (window_live now ttl w))" by (rule finite_subset [OF dom_window_live])
  with Admit show ?thesis by (simp add: window_admit_def)
next
  case (Purge now)
  assume "finite (dom w)"
  with Purge show ?thesis by (simp add: finite_subset [OF dom_window_live])
qed simp

lemma window_exec_bound:
  assumes fin: "finite (dom w)" and "int (card (dom w)) \<le> max 0 mx"
  shows "int (card (dom (window_exec ttl mx oper w))) \<le> max 0 mx"
proof (cases oper)
  case (Admit now m)
  with assms show ?thesis by (simp add: card_window_admit)
next
  case (Leave m)
  have "card (dom w - {m}) \<le> card (dom w)" by (rule card_mono [OF fin]) auto
  with Leave assms(2) show ?thesis by simp
next
  case (Purge now)
  with card_window_live [OF fin, of now ttl] assms(2) show ?thesis by simp
qed

lemma window_run_bound:
  "finite (dom w) \<Longrightarrow> int (card (dom w)) \<le> max 0 mx \<Longrightarrow>
   int (card (dom (fold (window_exec ttl mx) ops w))) \<le> max 0 mx"
  by (induction ops arbitrary: w) (simp_all add: window_exec_bound window_exec_finite)

text \<open>
  The operations of a period \<open>[t0, t1]\<close> that do not remove the member \<open>m\<close> on request.
\<close>

fun window_quiet :: "gostr \<Rightarrow> time \<Rightarrow> time \<Rightarrow> window_op \<Rightarrow> bool" where
  "window_quiet m t0 t1 (Admit now m') = (t0 \<le> now \<and> now \<le> t1)"
| "window_quiet m t0 t1 (Leave m') = (m' \<noteq> m)"
| "window_quiet m t0 t1 (Purge now) = (t0 \<le> now \<and> now \<le> t1)"

lemma window_exec_keeps:
  assumes "w m = Some s" "t0 \<le> s" "t1 < t0 + ttl" "window_quiet m t0 t1 oper"
  shows "\<exists>s'. window_exec ttl mx oper w m = Some s' \<and> t0 \<le> s'"
proof (cases oper)
  case (Admit now m')
  with assms have "now < s + ttl" by simp
  with window_admit_keeps [of w m s now ttl mx m'] assms Admit show ?thesis by auto
next
  case (Leave m')
  with assms show ?thesis by simp
next
  case (Purge now)
  with assms show ?thesis by (auto simp: window_live_Some)
qed

lemma window_run_keeps:
  "w m = Some s \<Longrightarrow> t0 \<le> s \<Longrightarrow> t1 < t0 + ttl \<Longrightarrow> \<forall>oper \<in> set ops. window_quiet m t0 t1 oper \<Longrightarrow>
   \<exists>s'. fold (window_exec ttl mx) ops w m = Some s'"
proof (induction ops arbitrary: w s)
  case (Cons oper ops)
  then obtain s' where "window_exec ttl mx oper w m = Some s'" "t0 \<le> s'"
    using window_exec_keeps [of w m s t0 t1 ttl oper mx] by auto
  with Cons show ?case by simp
qed simp

section \<open>The interface of an implementation\<close>

text \<open>
  \<open>window_admission\<close> is what both caches offer, \<open>slot_registry\<close> adds the removal on
  request that only the concurrency slots have.
\<close>

locale window_admission =
  fixes view :: "'r \<Rightarrow> gostr \<rightharpoonup> int"
    and admit :: "time \<Rightarrow> gostr \<Rightarrow> 'r \<Rightarrow> bool \<times> 'r"
    and purge :: "time \<Rightarrow> 'r \<Rightarrow> 'r"
    and ttl :: int
    and mx :: int
  assumes view_finite: "finite (dom (view r))"
    and admit_result: "fst (admit now m r) = window_admits now ttl mx m (view r)"
    and admit_view: "view (snd (admit now m r)) = window_admit now ttl mx m (view r)"
    and purge_view: "view (purge now r) = window_live now ttl (view r)"
begin

lemma admit_bound:
  "int (card (dom (view r))) \<le> max 0 mx \<Longrightarrow>
   int (card (dom (view (snd (admit now m r))))) \<le> max 0 mx"
  by (simp add: admit_view card_window_admit view_finite)

lemma admit_member: "fst (admit now m r) \<Longrightarrow> view (snd (admit now m r)) m = Some now"
  by (simp add: admit_view admit_result window_admit_def)

lemma admit_refuses_only_when_full:
  "\<not> fst (admit now m r) \<longleftrightarrow>
   m \<notin> dom (window_live now ttl (view r)) \<and> mx \<le> int (card (dom (window_live now ttl (view r))))"
  by (auto simp: admit_result window_admits_def)

end

locale slot_registry = window_admission +
  fixes leave :: "gostr \<Rightarrow> 'a \<Rightarrow> 'a"
  assumes leave_view: "view (leave m r) = (view r)(m := None)"
begin

fun exec_op :: "window_op \<Rightarrow> 'a \<Rightarrow> 'a" where
  "exec_op (Admit now m) r = snd (admit now m r)"
| "exec_op (Leave m) r = leave m r"
| "exec_op (Purge now) r = purge now r"

lemma exec_op_view: "view (exec_op oper r) = window_exec ttl mx oper (view r)"
  by (cases oper) (simp_all add: admit_view leave_view purge_view)

lemma run_view: "view (fold exec_op ops r) = fold (window_exec ttl mx) ops (view r)"
  by (induction ops arbitrary: r) (simp_all add: exec_op_view)

lemma run_bound:
  "int (card (dom (view r))) \<le> max 0 mx \<Longrightarrow> int (card (dom (view (fold exec_op ops r)))) \<le> max 0 mx"
  by (simp add: run_view window_run_bound view_finite)

lemma admit_then_keeps:
  assumes "fst (admit t0 m r)" "t1 < t0 + ttl" "\<forall>oper \<in> set ops. window_quiet m t0 t1 oper"
  shows "m \<in> dom (view (fold exec_op ops (snd (admit t0 m r))))"
  using window_run_keeps [of "view (snd (admit t0 m r))" m t0 t0 t1 ttl ops mx] admit_member assms
  by (auto simp: run_view)

lemma leave_undoes_admit:
  assumes "fst (admit t0 m r)" "m \<notin> dom (view r)"
  shows "view (leave m (snd (admit t0 m r))) = window_live t0 ttl (view r)"
proof -
  have "window_live t0 ttl (view r) m = None"
    using assms(2) dom_window_live [of t0 ttl "view r"] by blast
  with assms(1) show ?thesis
    by (auto simp: admit_view admit_result leave_view window_admit_def)
qed

end

end
