(* ===== verification/Concurrency_Cache.thy ===== *)
theory Concurrency_Cache
  imports Slot_Window
begin

text \<open>
  The concurrency cache of \<open>internal/repository/concurrency_cache.go\<close>: the slots that
  running requests hold on an account or a user are the members of a sorted set, scored by
  the second in which they were taken; the requests that wait for a slot are a counter.
  The first section translates the Lua scripts (the server runs each atomically and
  \<open>now\<close> is the server's own clock, read by \<open>TIME\<close>), the second the Go methods around
  them.  The proofs are inside the locale \<open>redis\<close>: they use only the documented laws of the
  commands.
\<close>

section \<open>Lua scripts\<close>

definition acquireScript ::
    "'r redis_ops \<Rightarrow> time \<Rightarrow> gostr \<Rightarrow> int \<Rightarrow> int \<Rightarrow> gostr \<Rightarrow> 'r \<Rightarrow> int \<times> 'r" where
  "acquireScript R now key maxConcurrency ttl requestID r =
     (let expireBefore = now - ttl;
          r1 = op_zremrange R key expireBefore r
      in if op_zscore R key requestID r1 \<noteq> None
         then (1, op_expire R key (now + ttl) (op_zadd R key now requestID r1))
         else if op_zcard R key r1 < maxConcurrency
         then (1, op_expire R key (now + ttl) (op_zadd R key now requestID r1))
         else (0, r1))"

definition getCountScript :: "'r redis_ops \<Rightarrow> time \<Rightarrow> gostr \<Rightarrow> int \<Rightarrow> 'r \<Rightarrow> int \<times> 'r" where
  "getCountScript R now key ttl r =
     (let r1 = op_zremrange R key (now - ttl) r in (op_zcard R key r1, r1))"

definition incrementWaitScript ::
    "'r redis_ops \<Rightarrow> time \<Rightarrow> gostr \<Rightarrow> int \<Rightarrow> int \<Rightarrow> 'r \<Rightarrow> int \<times> 'r" where
  "incrementWaitScript R now key maxWait ttl r =
     (let current = (case op_get R key r of None \<Rightarrow> 0 | Some c \<Rightarrow> c)
      in if current \<ge> maxWait then (0, r)
         else (1, op_expire R key (now + ttl) (op_incr R key r)))"

definition incrementAccountWaitScript ::
    "'r redis_ops \<Rightarrow> time \<Rightarrow> gostr \<Rightarrow> int \<Rightarrow> int \<Rightarrow> 'r \<Rightarrow> int \<times> 'r" where
  "incrementAccountWaitScript R now key maxWait ttl r =
     (let current = (case op_get R key r of None \<Rightarrow> 0 | Some c \<Rightarrow> c)
      in if current \<ge> maxWait then (0, r)
         else (1, op_expire R key (now + ttl) (op_incr R key r)))"

definition decrementWaitScript :: "'r redis_ops \<Rightarrow> gostr \<Rightarrow> 'r \<Rightarrow> int \<times> 'r" where
  "decrementWaitScript R key r =
     (case op_get R key r of
        None \<Rightarrow> (1, r)
      | Some c \<Rightarrow> (1, if c > 0 then op_decr R key r else r))"

definition cleanupExpiredSlotsScript :: "'r redis_ops \<Rightarrow> time \<Rightarrow> gostr \<Rightarrow> int \<Rightarrow> 'r \<Rightarrow> int \<times> 'r" where
  "cleanupExpiredSlotsScript R now key ttl r =
     (let r1 = op_zremrange R key (now - ttl) r
      in (1, if op_zcard R key r1 = 0 then op_del R key r1 else op_expire R key (now + ttl) r1))"

fun startupCleanupMembers ::
    "'r redis_ops \<Rightarrow> gostr \<Rightarrow> gostr \<Rightarrow> gostr list \<Rightarrow> int \<times> 'r \<Rightarrow> int \<times> 'r" where
  "startupCleanupMembers R activePrefix key [] (removed, r) = (removed, r)"
| "startupCleanupMembers R activePrefix key (m # ms) (removed, r) =
     (if \<not> has_prefix m activePrefix
      then startupCleanupMembers R activePrefix key ms
             (removed + (if op_zscore R key m r = None then 0 else 1), op_zrem R key m r)
      else startupCleanupMembers R activePrefix key ms (removed, r))"

fun startupCleanupLoop ::
    "'r redis_ops \<Rightarrow> time \<Rightarrow> gostr \<Rightarrow> int \<Rightarrow> gostr list \<Rightarrow> int \<times> 'r \<Rightarrow> int \<times> 'r" where
  "startupCleanupLoop R now activePrefix slotTTL [] (removed, r) = (removed, r)"
| "startupCleanupLoop R now activePrefix slotTTL (key # keys) (removed, r) =
     (let (removed1, r1) = startupCleanupMembers R activePrefix key (op_zrange R key r) (removed, r);
          r2 = (if op_zcard R key r1 = 0 then op_del R key r1 else op_expire R key (now + slotTTL) r1)
      in startupCleanupLoop R now activePrefix slotTTL keys (removed1, r2))"

definition startupCleanupScript ::
    "'r redis_ops \<Rightarrow> time \<Rightarrow> gostr list \<Rightarrow> gostr \<Rightarrow> int \<Rightarrow> 'r \<Rightarrow> int \<times> 'r" where
  "startupCleanupScript R now keys activePrefix slotTTL r =
     startupCleanupLoop R now activePrefix slotTTL keys (0, r)"

section \<open>Go methods\<close>

definition accountSlotKeyPrefix :: gostr where
  "accountSlotKeyPrefix = ''concurrency:account:''"
definition userSlotKeyPrefix :: gostr where
  "userSlotKeyPrefix = ''concurrency:user:''"
definition waitQueueKeyPrefix :: gostr where
  "waitQueueKeyPrefix = ''concurrency:wait:''"
definition accountWaitKeyPrefix :: gostr where
  "accountWaitKeyPrefix = ''wait:account:''"

lemmas key_prefix_defs =
  accountSlotKeyPrefix_def userSlotKeyPrefix_def waitQueueKeyPrefix_def accountWaitKeyPrefix_def

definition accountSlotKey :: "int64 \<Rightarrow> gostr" where
  "accountSlotKey accountID = accountSlotKeyPrefix @ format_int accountID"
definition userSlotKey :: "int64 \<Rightarrow> gostr" where
  "userSlotKey userID = userSlotKeyPrefix @ format_int userID"
definition waitQueueKey :: "int64 \<Rightarrow> gostr" where
  "waitQueueKey userID = waitQueueKeyPrefix @ format_int userID"
definition accountWaitKey :: "int64 \<Rightarrow> gostr" where
  "accountWaitKey accountID = accountWaitKeyPrefix @ format_int accountID"

lemmas key_defs = accountSlotKey_def userSlotKey_def waitQueueKey_def accountWaitKey_def

record concurrencyCache =
  slotTTLSeconds :: int
  waitQueueTTLSeconds :: int

definition defaultSlotTTLMinutes :: int where
  "defaultSlotTTLMinutes = 15"

definition NewConcurrencyCache :: "int \<Rightarrow> int \<Rightarrow> concurrencyCache" where
  "NewConcurrencyCache slotTTLMinutes waitQueueTTL =
     (let mins = (if slotTTLMinutes \<le> 0 then defaultSlotTTLMinutes else slotTTLMinutes);
          w = (if waitQueueTTL \<le> 0 then mins * 60 else waitQueueTTL)
      in \<lparr>slotTTLSeconds = mins * 60, waitQueueTTLSeconds = w\<rparr>)"

definition AcquireAccountSlot ::
    "'r redis_ops \<Rightarrow> concurrencyCache \<Rightarrow> io \<Rightarrow> time \<Rightarrow> int64 \<Rightarrow> int \<Rightarrow> gostr \<Rightarrow> 'r
     \<Rightarrow> (redis_error + bool) \<times> 'r" where
  "AcquireAccountSlot R c i now accountID maxConcurrency requestID r =
     (let (res, r') = run_io i (acquireScript R now (accountSlotKey accountID) maxConcurrency
                                  (slotTTLSeconds c) requestID) r
      in (case res of Inl e \<Rightarrow> Inl e | Inr n \<Rightarrow> Inr (n = 1), r'))"

definition ReleaseAccountSlot ::
    "'r redis_ops \<Rightarrow> io \<Rightarrow> int64 \<Rightarrow> gostr \<Rightarrow> 'r \<Rightarrow> (redis_error + unit) \<times> 'r" where
  "ReleaseAccountSlot R i accountID requestID r =
     run_io i (\<lambda>r. ((), op_zrem R (accountSlotKey accountID) requestID r)) r"

definition GetAccountConcurrency ::
    "'r redis_ops \<Rightarrow> concurrencyCache \<Rightarrow> io \<Rightarrow> time \<Rightarrow> int64 \<Rightarrow> 'r \<Rightarrow> (redis_error + int) \<times> 'r" where
  "GetAccountConcurrency R c i now accountID r =
     run_io i (getCountScript R now (accountSlotKey accountID) (slotTTLSeconds c)) r"

fun concurrencyPipeline ::
    "'r redis_ops \<Rightarrow> int \<Rightarrow> int64 list \<Rightarrow> (int64 \<rightharpoonup> int) \<times> 'r \<Rightarrow> (int64 \<rightharpoonup> int) \<times> 'r" where
  "concurrencyPipeline R cutoffTime [] (m, r) = (m, r)"
| "concurrencyPipeline R cutoffTime (a # as) (m, r) =
     (let slotKey = accountSlotKeyPrefix @ format_int a;
          r1 = op_zremrange R slotKey cutoffTime r
      in concurrencyPipeline R cutoffTime as (m(a \<mapsto> op_zcard R slotKey r1), r1))"

definition GetAccountConcurrencyBatch ::
    "'r redis_ops \<Rightarrow> concurrencyCache \<Rightarrow> io \<Rightarrow> io \<Rightarrow> time \<Rightarrow> int64 list \<Rightarrow> 'r
     \<Rightarrow> (redis_error + (int64 \<rightharpoonup> int)) \<times> 'r" where
  "GetAccountConcurrencyBatch R c timeIO pipeIO now accountIDs r =
     (if accountIDs = [] then (Inr Map.empty, r)
      else if timeIO \<noteq> Answered then (Inl RedisError, r)
      else run_io pipeIO
             (\<lambda>r. concurrencyPipeline R (now - slotTTLSeconds c) accountIDs (Map.empty, r)) r)"

definition AcquireUserSlot ::
    "'r redis_ops \<Rightarrow> concurrencyCache \<Rightarrow> io \<Rightarrow> time \<Rightarrow> int64 \<Rightarrow> int \<Rightarrow> gostr \<Rightarrow> 'r
     \<Rightarrow> (redis_error + bool) \<times> 'r" where
  "AcquireUserSlot R c i now userID maxConcurrency requestID r =
     (let (res, r') = run_io i (acquireScript R now (userSlotKey userID) maxConcurrency
                                  (slotTTLSeconds c) requestID) r
      in (case res of Inl e \<Rightarrow> Inl e | Inr n \<Rightarrow> Inr (n = 1), r'))"

definition ReleaseUserSlot ::
    "'r redis_ops \<Rightarrow> io \<Rightarrow> int64 \<Rightarrow> gostr \<Rightarrow> 'r \<Rightarrow> (redis_error + unit) \<times> 'r" where
  "ReleaseUserSlot R i userID requestID r =
     run_io i (\<lambda>r. ((), op_zrem R (userSlotKey userID) requestID r)) r"

definition GetUserConcurrency ::
    "'r redis_ops \<Rightarrow> concurrencyCache \<Rightarrow> io \<Rightarrow> time \<Rightarrow> int64 \<Rightarrow> 'r \<Rightarrow> (redis_error + int) \<times> 'r" where
  "GetUserConcurrency R c i now userID r =
     run_io i (getCountScript R now (userSlotKey userID) (slotTTLSeconds c)) r"

definition IncrementWaitCount ::
    "'r redis_ops \<Rightarrow> concurrencyCache \<Rightarrow> io \<Rightarrow> time \<Rightarrow> int64 \<Rightarrow> int \<Rightarrow> 'r \<Rightarrow> (redis_error + bool) \<times> 'r" where
  "IncrementWaitCount R c i now userID maxWait r =
     (let (res, r') = run_io i (incrementWaitScript R now (waitQueueKey userID) maxWait
                                  (waitQueueTTLSeconds c)) r
      in (case res of Inl e \<Rightarrow> Inl e | Inr n \<Rightarrow> Inr (n = 1), r'))"

definition DecrementWaitCount :: "'r redis_ops \<Rightarrow> io \<Rightarrow> int64 \<Rightarrow> 'r \<Rightarrow> (redis_error + unit) \<times> 'r" where
  "DecrementWaitCount R i userID r =
     run_io i (\<lambda>r. ((), snd (decrementWaitScript R (waitQueueKey userID) r))) r"

definition IncrementAccountWaitCount ::
    "'r redis_ops \<Rightarrow> concurrencyCache \<Rightarrow> io \<Rightarrow> time \<Rightarrow> int64 \<Rightarrow> int \<Rightarrow> 'r \<Rightarrow> (redis_error + bool) \<times> 'r" where
  "IncrementAccountWaitCount R c i now accountID maxWait r =
     (let (res, r') = run_io i (incrementAccountWaitScript R now (accountWaitKey accountID) maxWait
                                  (waitQueueTTLSeconds c)) r
      in (case res of Inl e \<Rightarrow> Inl e | Inr n \<Rightarrow> Inr (n = 1), r'))"

definition DecrementAccountWaitCount ::
    "'r redis_ops \<Rightarrow> io \<Rightarrow> int64 \<Rightarrow> 'r \<Rightarrow> (redis_error + unit) \<times> 'r" where
  "DecrementAccountWaitCount R i accountID r =
     run_io i (\<lambda>r. ((), snd (decrementWaitScript R (accountWaitKey accountID) r))) r"

definition GetAccountWaitingCount ::
    "'r redis_ops \<Rightarrow> io \<Rightarrow> int64 \<Rightarrow> 'r \<Rightarrow> (redis_error + int) \<times> 'r" where
  "GetAccountWaitingCount R i accountID r =
     run_io i (\<lambda>r. (case op_get R (accountWaitKey accountID) r of None \<Rightarrow> 0 | Some v \<Rightarrow> v, r)) r"

fun sumPositive :: "'r redis_ops \<Rightarrow> gostr list \<Rightarrow> 'r \<Rightarrow> int \<Rightarrow> int" where
  "sumPositive R [] r acc = acc"
| "sumPositive R (k # ks) r acc =
     sumPositive R ks r (case op_get R k r of None \<Rightarrow> acc | Some n \<Rightarrow> if n > 0 then acc + n else acc)"

fun scanWaiting :: "'r redis_ops \<Rightarrow> (nat \<Rightarrow> io) \<Rightarrow> nat \<Rightarrow> gostr list list \<Rightarrow> 'r \<Rightarrow> int \<Rightarrow> redis_error + int" where
  "scanWaiting R ios n [] r acc = Inr acc"
| "scanWaiting R ios n (b # bs) r acc =
     (if ios n \<noteq> Answered then Inl RedisError
      else if b = [] then scanWaiting R ios (n + 2) bs r acc
      else if ios (n + 1) \<noteq> Answered then Inl RedisError
      else scanWaiting R ios (n + 2) bs r (sumPositive R b r acc))"

definition GetTotalWaitingCount ::
    "'r redis_ops \<Rightarrow> (nat \<Rightarrow> io) \<Rightarrow> (nat \<Rightarrow> io) \<Rightarrow> 'r \<Rightarrow> redis_error + int" where
  "GetTotalWaitingCount R ios1 ios2 r =
     (case scanWaiting R ios1 0 (op_scan R waitQueueKeyPrefix r) r 0 of
        Inl e \<Rightarrow> Inl e
      | Inr acc \<Rightarrow> scanWaiting R ios2 0 (op_scan R accountWaitKeyPrefix r) r acc)"

record AccountWithConcurrency =
  awc_ID :: int64
  awc_MaxConcurrency :: int

record AccountLoadInfo =
  ali_AccountID :: int64
  ali_CurrentConcurrency :: int
  ali_WaitingCount :: int
  ali_LoadRate :: int

definition loadInfo :: "int64 \<Rightarrow> int \<Rightarrow> int \<Rightarrow> int option \<Rightarrow> AccountLoadInfo" where
  "loadInfo ident maxConcurrency currentConcurrency getCmd =
     (let waitingCount = (case getCmd of None \<Rightarrow> 0 | Some v \<Rightarrow> v);
          loadRate = (if maxConcurrency > 0
                      then trunc_div ((currentConcurrency + waitingCount) * 100) maxConcurrency else 0)
      in \<lparr>ali_AccountID = ident, ali_CurrentConcurrency = currentConcurrency,
          ali_WaitingCount = waitingCount, ali_LoadRate = loadRate\<rparr>)"

fun loadPipeline ::
    "'r redis_ops \<Rightarrow> gostr \<Rightarrow> gostr \<Rightarrow> int \<Rightarrow> AccountWithConcurrency list
     \<Rightarrow> (int64 \<rightharpoonup> AccountLoadInfo) \<times> 'r \<Rightarrow> (int64 \<rightharpoonup> AccountLoadInfo) \<times> 'r" where
  "loadPipeline R slotPrefix waitPrefix cutoffTime [] (m, r) = (m, r)"
| "loadPipeline R slotPrefix waitPrefix cutoffTime (a # as) (m, r) =
     (let slotKey = slotPrefix @ format_int (awc_ID a);
          waitKey = waitPrefix @ format_int (awc_ID a);
          r1 = op_zremrange R slotKey cutoffTime r;
          info = loadInfo (awc_ID a) (awc_MaxConcurrency a) (op_zcard R slotKey r1) (op_get R waitKey r1)
      in loadPipeline R slotPrefix waitPrefix cutoffTime as (m(awc_ID a \<mapsto> info), r1))"

definition GetAccountsLoadBatch ::
    "'r redis_ops \<Rightarrow> concurrencyCache \<Rightarrow> io \<Rightarrow> io \<Rightarrow> time \<Rightarrow> AccountWithConcurrency list \<Rightarrow> 'r
     \<Rightarrow> (redis_error + (int64 \<rightharpoonup> AccountLoadInfo)) \<times> 'r" where
  "GetAccountsLoadBatch R c timeIO pipeIO now accounts r =
     (if accounts = [] then (Inr Map.empty, r)
      else if timeIO \<noteq> Answered then (Inl RedisError, r)
      else run_io pipeIO (\<lambda>r. loadPipeline R accountSlotKeyPrefix accountWaitKeyPrefix
                                (now - slotTTLSeconds c) accounts (Map.empty, r)) r)"

definition GetUsersLoadBatch ::
    "'r redis_ops \<Rightarrow> concurrencyCache \<Rightarrow> io \<Rightarrow> io \<Rightarrow> time \<Rightarrow> AccountWithConcurrency list \<Rightarrow> 'r
     \<Rightarrow> (redis_error + (int64 \<rightharpoonup> AccountLoadInfo)) \<times> 'r" where
  "GetUsersLoadBatch R c timeIO pipeIO now users r =
     (if users = [] then (Inr Map.empty, r)
      else if timeIO \<noteq> Answered then (Inl RedisError, r)
      else run_io pipeIO (\<lambda>r. loadPipeline R userSlotKeyPrefix waitQueueKeyPrefix
                                (now - slotTTLSeconds c) users (Map.empty, r)) r)"

definition CleanupExpiredAccountSlots ::
    "'r redis_ops \<Rightarrow> concurrencyCache \<Rightarrow> io \<Rightarrow> time \<Rightarrow> int64 \<Rightarrow> 'r \<Rightarrow> (redis_error + unit) \<times> 'r" where
  "CleanupExpiredAccountSlots R c i now accountID r =
     run_io i (\<lambda>r. ((), snd (cleanupExpiredSlotsScript R now (accountSlotKey accountID)
                                (slotTTLSeconds c) r))) r"

fun cleanupSlotsBatches ::
    "'r redis_ops \<Rightarrow> concurrencyCache \<Rightarrow> (nat \<Rightarrow> io) \<Rightarrow> time \<Rightarrow> gostr \<Rightarrow> nat \<Rightarrow> gostr list list \<Rightarrow> 'r
     \<Rightarrow> (redis_error + unit) \<times> 'r" where
  "cleanupSlotsBatches R c ios now activePrefix n [] r = (Inr (), r)"
| "cleanupSlotsBatches R c ios now activePrefix n (b # bs) r =
     (if ios n \<noteq> Answered then (Inl RedisError, r)
      else if b = [] then cleanupSlotsBatches R c ios now activePrefix (n + 2) bs r
      else (case run_io (ios (n + 1)) (startupCleanupScript R now b activePrefix (slotTTLSeconds c)) r of
              (Inl e, r') \<Rightarrow> (Inl e, r')
            | (Inr _, r') \<Rightarrow> cleanupSlotsBatches R c ios now activePrefix (n + 2) bs r'))"

definition cleanupSlotsByPattern ::
    "'r redis_ops \<Rightarrow> concurrencyCache \<Rightarrow> (nat \<Rightarrow> io) \<Rightarrow> time \<Rightarrow> gostr \<Rightarrow> gostr \<Rightarrow> 'r
     \<Rightarrow> (redis_error + unit) \<times> 'r" where
  "cleanupSlotsByPattern R c ios now keyPrefix activePrefix r =
     cleanupSlotsBatches R c ios now activePrefix 0 (op_scan R keyPrefix r) r"

fun deleteBatches ::
    "'r redis_ops \<Rightarrow> (nat \<Rightarrow> io) \<Rightarrow> nat \<Rightarrow> gostr list list \<Rightarrow> 'r \<Rightarrow> (redis_error + unit) \<times> 'r" where
  "deleteBatches R ios n [] r = (Inr (), r)"
| "deleteBatches R ios n (b # bs) r =
     (if ios n \<noteq> Answered then (Inl RedisError, r)
      else if b = [] then deleteBatches R ios (n + 2) bs r
      else (case run_io (ios (n + 1)) (\<lambda>r. ((), fold (op_del R) b r)) r of
              (Inl e, r') \<Rightarrow> (Inl e, r')
            | (Inr _, r') \<Rightarrow> deleteBatches R ios (n + 2) bs r'))"

definition deleteKeysByPattern ::
    "'r redis_ops \<Rightarrow> (nat \<Rightarrow> io) \<Rightarrow> gostr \<Rightarrow> 'r \<Rightarrow> (redis_error + unit) \<times> 'r" where
  "deleteKeysByPattern R ios keyPrefix r = deleteBatches R ios 0 (op_scan R keyPrefix r) r"

definition andThen ::
    "(redis_error + unit) \<times> 'r \<Rightarrow> ('r \<Rightarrow> (redis_error + unit) \<times> 'r) \<Rightarrow> (redis_error + unit) \<times> 'r" where
  "andThen p f = (case p of (Inl e, r) \<Rightarrow> (Inl e, r) | (Inr _, r) \<Rightarrow> f r)"

definition CleanupStaleProcessSlots ::
    "'r redis_ops \<Rightarrow> concurrencyCache \<Rightarrow> (nat \<Rightarrow> nat \<Rightarrow> io) \<Rightarrow> time \<Rightarrow> gostr \<Rightarrow> 'r
     \<Rightarrow> (redis_error + unit) \<times> 'r" where
  "CleanupStaleProcessSlots R c ios now activeRequestPrefix r =
     (if activeRequestPrefix = [] then (Inr (), r)
      else andThen (cleanupSlotsByPattern R c (ios 0) now accountSlotKeyPrefix activeRequestPrefix r)
        (\<lambda>r. andThen (cleanupSlotsByPattern R c (ios 1) now userSlotKeyPrefix activeRequestPrefix r)
        (\<lambda>r. andThen (deleteKeysByPattern R (ios 2) accountWaitKeyPrefix r)
        (\<lambda>r. deleteKeysByPattern R (ios 3) waitQueueKeyPrefix r))))"

section \<open>Keys\<close>

lemma accountSlotKey_eq [simp]: "accountSlotKey a = accountSlotKey b \<longleftrightarrow> a = b"
  by (simp add: accountSlotKey_def format_int_inject)

lemma userSlotKey_eq [simp]: "userSlotKey a = userSlotKey b \<longleftrightarrow> a = b"
  by (simp add: userSlotKey_def format_int_inject)

lemma waitQueueKey_eq [simp]: "waitQueueKey a = waitQueueKey b \<longleftrightarrow> a = b"
  by (simp add: waitQueueKey_def format_int_inject)

lemma accountWaitKey_eq [simp]: "accountWaitKey a = accountWaitKey b \<longleftrightarrow> a = b"
  by (simp add: accountWaitKey_def format_int_inject)

section \<open>What the scripts do to the sorted sets\<close>

context redis begin

lemma zset_live:
  "zset (op_zremrange R k (now - ttl) r) = (zset r)(k := window_live now ttl (zset r k))"
  by (simp add: zset_zremrange window_live_def)

lemma acquireScript_result:
  "fst (acquireScript R now k mx ttl m r) = (if window_admits now ttl mx m (zset r k) then 1 else 0)"
  by (auto simp: acquireScript_def Let_def zset_live zset_laws window_admits_def)

lemma acquireScript_zset:
  "zset (snd (acquireScript R now k mx ttl m r)) = (zset r)(k := window_admit now ttl mx m (zset r k))"
  by (auto simp: acquireScript_def Let_def zset_live zset_laws window_admit_def window_admits_def)

lemma getCountScript_eq:
  "fst (getCountScript R now k ttl r) = int (card (dom (window_live now ttl (zset r k))))"
  "zset (snd (getCountScript R now k ttl r)) = (zset r)(k := window_live now ttl (zset r k))"
  by (simp_all add: getCountScript_def Let_def zset_live zcard)

lemma cleanupExpiredSlotsScript_zset:
  "zset (snd (cleanupExpiredSlotsScript R now k ttl r)) = (zset r)(k := window_live now ttl (zset r k))"
proof -
  let ?L = "window_live now ttl (zset r k)"
  have "finite (dom ?L)" by (rule finite_subset [OF dom_window_live zset_finite])
  then have "card (dom ?L) = 0 \<Longrightarrow> ?L = Map.empty" by auto
  then show ?thesis
    by (auto simp: cleanupExpiredSlotsScript_def Let_def zset_live zcard zset_del zset_expire)
qed

lemma decrementWaitScript_zset: "zset (snd (decrementWaitScript R k r)) = zset r"
  by (simp add: decrementWaitScript_def zset_laws split: option.splits)

lemma incrementWaitScript_zset:
  "zset (snd (incrementWaitScript R now k mx ttl r)) = zset r"
  "zset (snd (incrementAccountWaitScript R now k mx ttl r)) = zset r"
  by (simp_all add: incrementWaitScript_def incrementAccountWaitScript_def Let_def zset_laws)

lemma window_live_idem: "window_live now ttl (window_live now ttl w) = window_live now ttl w"
  by (auto simp: window_live_def fun_eq_iff split: option.splits)

lemma concurrencyPipeline_zset:
  "zset (snd (concurrencyPipeline R (now - ttl) as (m, r))) k =
     (if k \<in> accountSlotKey ` set as then window_live now ttl (zset r k) else zset r k)"
  by (induction as arbitrary: m r)
    (auto simp: Let_def zset_live window_live_idem simp flip: accountSlotKey_def)

lemma loadPipeline_zset:
  "zset (snd (loadPipeline R sp wp (now - ttl) as (m, r))) k =
     (if k \<in> (\<lambda>a. sp @ format_int (awc_ID a)) ` set as then window_live now ttl (zset r k) else zset r k)"
  by (induction as arbitrary: m r) (auto simp: Let_def zset_live window_live_idem)

end

section \<open>The slots of an account follow the window specification\<close>

text \<open>One call of a Go method on the account slots; \<open>mx\<close> is the limit of each account.\<close>

datatype cache_op =
    CAcquire io time int64 gostr
  | CRelease io int64 gostr
  | CCount io time int64
  | CCleanup io time int64
  | CBatch io io time "int64 list"
  | CLoads io io time "AccountWithConcurrency list"

fun cache_step :: "'r redis_ops \<Rightarrow> concurrencyCache \<Rightarrow> (int64 \<Rightarrow> int) \<Rightarrow> cache_op \<Rightarrow> 'r \<Rightarrow> 'r" where
  "cache_step R c mx (CAcquire i now a m) r = snd (AcquireAccountSlot R c i now a (mx a) m r)"
| "cache_step R c mx (CRelease i a m) r = snd (ReleaseAccountSlot R i a m r)"
| "cache_step R c mx (CCount i now a) r = snd (GetAccountConcurrency R c i now a r)"
| "cache_step R c mx (CCleanup i now a) r = snd (CleanupExpiredAccountSlots R c i now a r)"
| "cache_step R c mx (CBatch i j now as) r = snd (GetAccountConcurrencyBatch R c i j now as r)"
| "cache_step R c mx (CLoads i j now as) r = snd (GetAccountsLoadBatch R c i j now as r)"

text \<open>The window operations that such a call performs on the slots of the account \<open>a\<close>.\<close>

fun window_ops :: "int64 \<Rightarrow> cache_op \<Rightarrow> window_op list" where
  "window_ops a (CAcquire i now b m) = (if a = b \<and> i \<noteq> Lost then [Admit now m] else [])"
| "window_ops a (CRelease i b m) = (if a = b \<and> i \<noteq> Lost then [Leave m] else [])"
| "window_ops a (CCount i now b) = (if a = b \<and> i \<noteq> Lost then [Purge now] else [])"
| "window_ops a (CCleanup i now b) = (if a = b \<and> i \<noteq> Lost then [Purge now] else [])"
| "window_ops a (CBatch i j now bs) = (if a \<in> set bs \<and> i = Answered \<and> j \<noteq> Lost then [Purge now] else [])"
| "window_ops a (CLoads i j now bs) =
     (if a \<in> awc_ID ` set bs \<and> i = Answered \<and> j \<noteq> Lost then [Purge now] else [])"

context redis begin

lemma cache_step_window:
  "zset (cache_step R c mx oper r) (accountSlotKey a) =
     fold (window_exec (slotTTLSeconds c) (mx a)) (window_ops a oper) (zset r (accountSlotKey a))"
proof (cases oper)
  case (CAcquire i now b m)
  then show ?thesis
    by (simp add: AcquireAccountSlot_def Let_def split_beta run_io_snd acquireScript_zset)
next
  case (CRelease i b m)
  then show ?thesis by (simp add: ReleaseAccountSlot_def run_io_snd zset_zrem)
next
  case (CCount i now b)
  then show ?thesis by (simp add: GetAccountConcurrency_def run_io_snd getCountScript_eq)
next
  case (CCleanup i now b)
  then show ?thesis
    by (simp add: CleanupExpiredAccountSlots_def run_io_snd cleanupExpiredSlotsScript_zset)
next
  case (CBatch i j now bs)
  then show ?thesis
    by (auto simp: GetAccountConcurrencyBatch_def run_io_snd concurrencyPipeline_zset)
next
  case (CLoads i j now bs)
  then show ?thesis
    by (auto simp: GetAccountsLoadBatch_def run_io_snd loadPipeline_zset simp flip: accountSlotKey_def)
qed

lemma cache_run_window:
  "zset (fold (cache_step R c mx) ops r) (accountSlotKey a) =
     fold (window_exec (slotTTLSeconds c) (mx a)) (concat (map (window_ops a) ops))
       (zset r (accountSlotKey a))"
  by (induction ops arbitrary: r) (simp_all add: cache_step_window fold_append)

end

sublocale redis \<subseteq> acct: slot_registry
  "\<lambda>r. zset r (accountSlotKey a)"
  "\<lambda>now m r. (fst (AcquireAccountSlot R c Answered now a mx m r) = Inr True,
             snd (AcquireAccountSlot R c Answered now a mx m r))"
  "\<lambda>now r. snd (GetAccountConcurrency R c Answered now a r)"
  "slotTTLSeconds c" mx
  "\<lambda>m r. snd (ReleaseAccountSlot R Answered a m r)"
  for a :: int64 and c :: concurrencyCache and mx :: int
  by unfold_locales
    (auto simp: AcquireAccountSlot_def ReleaseAccountSlot_def GetAccountConcurrency_def Let_def
      split_beta run_io_def zset_finite acquireScript_result acquireScript_zset zset_zrem
      getCountScript_eq)

section \<open>Wait counters\<close>

text \<open>
  One event on the wait counter of accounts: a call of a Go method, or the server dropping
  the counter because its time to live has passed.
\<close>

datatype wait_op = WIncrement io time int64 | WDecrement io int64 | WExpire int64

fun wait_step :: "'r redis_ops \<Rightarrow> concurrencyCache \<Rightarrow> (int64 \<Rightarrow> int) \<Rightarrow> wait_op \<Rightarrow> 'r \<Rightarrow> 'r" where
  "wait_step R c maxWait (WIncrement i now a) r = snd (IncrementAccountWaitCount R c i now a (maxWait a) r)"
| "wait_step R c maxWait (WDecrement i a) r = snd (DecrementAccountWaitCount R i a r)"
| "wait_step R c maxWait (WExpire a) r = op_del R (accountWaitKey a) r"

definition counter_value :: "int option \<Rightarrow> int" where
  "counter_value v = (case v of None \<Rightarrow> 0 | Some c \<Rightarrow> c)"

context redis begin

lemma incrementWaitScript_eq:
  "fst (incrementWaitScript R now k mw ttl r) = (if counter_value (cnt r k) < mw then 1 else 0)"
  "cnt (snd (incrementWaitScript R now k mw ttl r)) =
     (if counter_value (cnt r k) < mw then (cnt r)(k \<mapsto> counter_value (cnt r k) + 1) else cnt r)"
  "incrementAccountWaitScript R now k mw ttl r = incrementWaitScript R now k mw ttl r"
  by (auto simp: incrementWaitScript_def incrementAccountWaitScript_def counter_value_def Let_def
      cnt_laws split: option.splits)

lemma decrementWaitScript_cnt:
  "counter_value (cnt (snd (decrementWaitScript R k r)) k') =
     (if k' = k \<and> counter_value (cnt r k) > 0 then counter_value (cnt r k) - 1 else counter_value (cnt r k'))"
  by (auto simp: decrementWaitScript_def counter_value_def cnt_laws split: option.splits)

lemma wait_step_bounds:
  assumes "\<And>a. 0 \<le> counter_value (cnt r (accountWaitKey a)) \<and>
                counter_value (cnt r (accountWaitKey a)) \<le> max 0 (maxWait a)"
  shows "0 \<le> counter_value (cnt (wait_step R c maxWait oper r) (accountWaitKey a)) \<and>
         counter_value (cnt (wait_step R c maxWait oper r) (accountWaitKey a)) \<le> max 0 (maxWait a)"
proof (cases oper)
  case (WIncrement i now b)
  then show ?thesis using assms [of a]
    by (auto simp: IncrementAccountWaitCount_def Let_def split_beta run_io_snd
        incrementWaitScript_eq counter_value_def)
next
  case (WDecrement i b)
  then show ?thesis using assms [of a]
    by (auto simp: DecrementAccountWaitCount_def run_io_snd decrementWaitScript_cnt)
next
  case (WExpire b)
  then show ?thesis using assms [of a] by (auto simp: cnt_del counter_value_def)
qed

lemma wait_run_bounds:
  "(\<And>a. 0 \<le> counter_value (cnt r (accountWaitKey a)) \<and>
         counter_value (cnt r (accountWaitKey a)) \<le> max 0 (maxWait a)) \<Longrightarrow>
   0 \<le> counter_value (cnt (fold (wait_step R c maxWait) ops r) (accountWaitKey a)) \<and>
   counter_value (cnt (fold (wait_step R c maxWait) ops r) (accountWaitKey a)) \<le> max 0 (maxWait a)"
proof (induction ops arbitrary: r)
  case (Cons oper ops)
  then show ?case using wait_step_bounds [of r maxWait c oper] by simp
qed simp

end

section \<open>Start-up cleanup\<close>

definition keep_prefix :: "gostr \<Rightarrow> (gostr \<rightharpoonup> int) \<Rightarrow> (gostr \<rightharpoonup> int)" where
  "keep_prefix p w = (\<lambda>m. if has_prefix m p then w m else None)"

lemma keep_prefix_idem [simp]: "keep_prefix p (keep_prefix p w) = keep_prefix p w"
  by (auto simp: keep_prefix_def)

lemma slot_prefixes_disjoint:
  assumes "p \<in> {accountSlotKeyPrefix, userSlotKeyPrefix, waitQueueKeyPrefix, accountWaitKeyPrefix}"
    "q \<in> {accountSlotKeyPrefix, userSlotKeyPrefix, waitQueueKeyPrefix, accountWaitKeyPrefix}"
    "p \<noteq> q" "prefix p k"
  shows "\<not> prefix q k"
proof
  assume "prefix q k"
  with assms(4) have "prefix p q \<or> prefix q p" by (rule prefix_same_cases)
  moreover have "\<not> prefix p q \<and> \<not> prefix q p"
    using assms(1-3) by (elim insertE emptyE) (simp_all add: key_prefix_defs)
  ultimately show False by blast
qed

context redis begin

lemma scan_iff:
  "(\<exists>b \<in> set (op_scan R p r). k \<in> set b) \<longleftrightarrow> prefix p k \<and> (zset r k \<noteq> Map.empty \<or> cnt r k \<noteq> None)"
  using scan [of p r] by (auto simp: set_eq_iff)

lemma startupCleanupMembers_eq:
  "zset (snd (startupCleanupMembers R ap key ms (n, r))) =
     (zset r)(key := (\<lambda>m. if m \<in> set ms \<and> \<not> has_prefix m ap then None else zset r key m))"
  "cnt (snd (startupCleanupMembers R ap key ms (n, r))) = cnt r"
  by (induction ms arbitrary: n r) (auto simp: zset_zrem cnt_zrem fun_eq_iff)

lemma startupCleanupMembers_all:
  "zset (snd (startupCleanupMembers R ap key (op_zrange R key r) (n, r))) =
     (zset r)(key := keep_prefix ap (zset r key))"
  by (auto simp: startupCleanupMembers_eq zrange keep_prefix_def fun_eq_iff)

lemma zcard_0: "op_zcard R k r = 0 \<Longrightarrow> zset r k = Map.empty"
  using zset_finite [of r k] by (simp add: zcard)

lemma startupCleanupLoop_zset:
  "zset (snd (startupCleanupLoop R now ap ttl keys (n, r))) k =
     (if k \<in> set keys then keep_prefix ap (zset r k) else zset r k)"
proof (induction keys arbitrary: n r)
  case (Cons key keys)
  obtain n1 r1 where 1: "startupCleanupMembers R ap key (op_zrange R key r) (n, r) = (n1, r1)"
    by fastforce
  then have r1: "zset r1 = (zset r)(key := keep_prefix ap (zset r key))"
    using startupCleanupMembers_all [of ap key r n] by simp
  define r2 where "r2 = (if op_zcard R key r1 = 0 then op_del R key r1 else op_expire R key (now + ttl) r1)"
  have "zset r2 = zset r1"
    using zcard_0 [of key r1] by (auto simp: r2_def zset_del zset_expire fun_eq_iff)
  with Cons [of n1 r2] r1 1 show ?case by (auto simp: r2_def)
qed simp

lemma startupCleanupLoop_cnt:
  "k \<notin> set keys \<Longrightarrow> cnt (snd (startupCleanupLoop R now ap ttl keys (n, r))) k = cnt r k"
proof (induction keys arbitrary: n r)
  case (Cons key keys)
  obtain n1 r1 where 1: "startupCleanupMembers R ap key (op_zrange R key r) (n, r) = (n1, r1)"
    by fastforce
  then have "cnt r1 = cnt r" using startupCleanupMembers_eq(2) [of ap key _ n r] by (metis snd_conv)
  with Cons 1 show ?case by (simp add: cnt_del cnt_expire)
qed simp

lemma cleanupSlotsBatches_zset:
  assumes "\<And>n. ios n = Answered"
  shows "fst (cleanupSlotsBatches R c ios now ap n bs r) = Inr () \<and>
    zset (snd (cleanupSlotsBatches R c ios now ap n bs r)) k =
      (if k \<in> set (concat bs) then keep_prefix ap (zset r k) else zset r k)"
proof (induction bs arbitrary: n r)
  case (Cons b bs)
  obtain m r1 where 1: "startupCleanupScript R now b ap (slotTTLSeconds c) r = (m, r1)" by fastforce
  then have "zset r1 k = (if k \<in> set b then keep_prefix ap (zset r k) else zset r k)"
    using startupCleanupLoop_zset [of now ap "slotTTLSeconds c" b 0 r k]
    by (simp add: startupCleanupScript_def)
  with Cons [of "n + 2" r1] Cons [of "n + 2" r] 1 assms show ?case
    by (auto simp: run_io_def)
qed simp

lemma cleanupSlotsByPattern_zset:
  assumes "\<And>n. ios n = Answered"
  shows "fst (cleanupSlotsByPattern R c ios now p ap r) = Inr ()"
    and "zset (snd (cleanupSlotsByPattern R c ios now p ap r)) k =
      (if prefix p k then keep_prefix ap (zset r k) else zset r k)"
proof -
  note * = cleanupSlotsBatches_zset [where ios = ios and c = c and now = now and ap = ap and n = 0
      and bs = "op_scan R p r" and r = r and k = k, OF assms]
  from * show "fst (cleanupSlotsByPattern R c ios now p ap r) = Inr ()"
    by (simp add: cleanupSlotsByPattern_def)
  have "zset r k = Map.empty \<Longrightarrow> keep_prefix ap (zset r k) = zset r k"
    by (simp add: keep_prefix_def)
  with * show "zset (snd (cleanupSlotsByPattern R c ios now p ap r)) k =
      (if prefix p k then keep_prefix ap (zset r k) else zset r k)"
    by (simp add: cleanupSlotsByPattern_def scan_iff)
qed

lemma fold_del:
  "zset (fold (op_del R) ks r) k = (if k \<in> set ks then Map.empty else zset r k)"
  "cnt (fold (op_del R) ks r) k = (if k \<in> set ks then None else cnt r k)"
  by (induction ks arbitrary: r) (auto simp: zset_del cnt_del)

lemma deleteBatches_eq:
  assumes "\<And>n. ios n = Answered"
  shows "fst (deleteBatches R ios n bs r) = Inr () \<and>
    zset (snd (deleteBatches R ios n bs r)) k = (if k \<in> set (concat bs) then Map.empty else zset r k) \<and>
    cnt (snd (deleteBatches R ios n bs r)) k = (if k \<in> set (concat bs) then None else cnt r k)"
proof (induction bs arbitrary: n r)
  case (Cons b bs)
  show ?case
    using Cons [of "n + 2" "fold (op_del R) b r"] Cons [of "n + 2" r]
    by (cases "b = []") (simp_all add: assms run_io_def fold_del)
qed simp

lemma deleteKeysByPattern_eq:
  assumes "\<And>n. ios n = Answered"
  shows "fst (deleteKeysByPattern R ios p r) = Inr ()"
    and "zset (snd (deleteKeysByPattern R ios p r)) k = (if prefix p k then Map.empty else zset r k)"
    and "cnt (snd (deleteKeysByPattern R ios p r)) k = (if prefix p k then None else cnt r k)"
  using deleteBatches_eq [where ios = ios and n = 0 and bs = "op_scan R p r" and r = r and k = k, OF assms]
  by (simp_all add: deleteKeysByPattern_def scan_iff del: not_None_eq)

end

end
