(* ===== verification/Concurrency_Service.thy ===== *)
theory Concurrency_Service
  imports Concurrency_Cache "HOL-Library.Word"
begin

unbundle bit_operations_syntax

text \<open>
  The concurrency service of \<open>internal/service/concurrency_service.go\<close>: it names each slot
  with a process-unique request identifier, turns the cache's answer into an
  \<open>AcquireResult\<close> whose release function returns the slot, and lets requests through when
  the wait counter cannot be read.  The process-wide counter is an \<open>atomic.Uint64\<close> and
  wraps around.  The gauge of the queue depth (\<open>recordQueueDepth\<close> and its refresh loop) only
  feeds telemetry and is left out, as is the ticker that calls the cleanup.
\<close>

section \<open>Request identifiers\<close>

definition initRequestIDPrefix :: "64 word option \<Rightarrow> 64 word \<Rightarrow> 64 word \<Rightarrow> gostr" where
  "initRequestIDPrefix randomRead unixNano pid =
     (case randomRead of
        Some b \<Rightarrow> CHR ''r'' # format_uint 36 (unat b)
      | None \<Rightarrow> CHR ''r'' # format_uint 36 (unat (unixNano XOR push_bit 16 pid)))"

definition generateRequestID :: "gostr \<Rightarrow> 64 word \<Rightarrow> gostr \<times> 64 word" where
  "generateRequestID requestIDPrefix counter =
     (let seq = counter + 1 in (requestIDPrefix @ ''-'' @ format_uint 36 (unat seq), seq))"

section \<open>Slots\<close>

datatype release_func = NoRelease | NoopRelease | ReleaseAccount int64 gostr | ReleaseUser int64 gostr

record AcquireResult =
  Acquired :: bool
  ReleaseFunc :: release_func

text \<open>A nil cache is not checked before a slot is requested: the call panics.\<close>

datatype svc_error = CacheError redis_error | NilCachePanic

definition svcAcquireAccountSlot ::
    "'r redis_ops \<Rightarrow> concurrencyCache option \<Rightarrow> gostr \<Rightarrow> io \<Rightarrow> time \<Rightarrow> int64 \<Rightarrow> int
     \<Rightarrow> 64 word \<times> 'r \<Rightarrow> (svc_error + AcquireResult) \<times> 64 word \<times> 'r" where
  "svcAcquireAccountSlot R cache requestIDPrefix i now accountID maxConcurrency st =
     (case st of (counter, r) \<Rightarrow>
       if maxConcurrency \<le> 0 then (Inr \<lparr>Acquired = True, ReleaseFunc = NoopRelease\<rparr>, counter, r)
       else let (requestID, counter') = generateRequestID requestIDPrefix counter
            in (case cache of
                  None \<Rightarrow> (Inl NilCachePanic, counter', r)
                | Some c \<Rightarrow>
                    (case AcquireAccountSlot R c i now accountID maxConcurrency requestID r of
                       (Inl e, r') \<Rightarrow> (Inl (CacheError e), counter', r')
                     | (Inr acquired, r') \<Rightarrow>
                         (Inr (if acquired
                               then \<lparr>Acquired = True, ReleaseFunc = ReleaseAccount accountID requestID\<rparr>
                               else \<lparr>Acquired = False, ReleaseFunc = NoRelease\<rparr>), counter', r'))))"

definition svcAcquireUserSlot ::
    "'r redis_ops \<Rightarrow> concurrencyCache option \<Rightarrow> gostr \<Rightarrow> io \<Rightarrow> time \<Rightarrow> int64 \<Rightarrow> int
     \<Rightarrow> 64 word \<times> 'r \<Rightarrow> (svc_error + AcquireResult) \<times> 64 word \<times> 'r" where
  "svcAcquireUserSlot R cache requestIDPrefix i now userID maxConcurrency st =
     (case st of (counter, r) \<Rightarrow>
       if maxConcurrency \<le> 0 then (Inr \<lparr>Acquired = True, ReleaseFunc = NoopRelease\<rparr>, counter, r)
       else let (requestID, counter') = generateRequestID requestIDPrefix counter
            in (case cache of
                  None \<Rightarrow> (Inl NilCachePanic, counter', r)
                | Some c \<Rightarrow>
                    (case AcquireUserSlot R c i now userID maxConcurrency requestID r of
                       (Inl e, r') \<Rightarrow> (Inl (CacheError e), counter', r')
                     | (Inr acquired, r') \<Rightarrow>
                         (Inr (if acquired
                               then \<lparr>Acquired = True, ReleaseFunc = ReleaseUser userID requestID\<rparr>
                               else \<lparr>Acquired = False, ReleaseFunc = NoRelease\<rparr>), counter', r'))))"

text \<open>Calling the release function; an error of the cache is only logged.\<close>

fun callRelease :: "'r redis_ops \<Rightarrow> io \<Rightarrow> release_func \<Rightarrow> 'r \<Rightarrow> 'r" where
  "callRelease R i NoRelease r = r"
| "callRelease R i NoopRelease r = r"
| "callRelease R i (ReleaseAccount accountID requestID) r = snd (ReleaseAccountSlot R i accountID requestID r)"
| "callRelease R i (ReleaseUser userID requestID) r = snd (ReleaseUserSlot R i userID requestID r)"

section \<open>Wait counters, load and cleanup\<close>

definition svcIncrementWaitCount ::
    "'r redis_ops \<Rightarrow> concurrencyCache option \<Rightarrow> io \<Rightarrow> time \<Rightarrow> int64 \<Rightarrow> int \<Rightarrow> 'r \<Rightarrow> bool \<times> 'r" where
  "svcIncrementWaitCount R cache i now userID maxWait r =
     (case cache of None \<Rightarrow> (True, r)
      | Some c \<Rightarrow> (case IncrementWaitCount R c i now userID maxWait r of
                      (Inl _, r') \<Rightarrow> (True, r') | (Inr b, r') \<Rightarrow> (b, r')))"

definition svcDecrementWaitCount ::
    "'r redis_ops \<Rightarrow> concurrencyCache option \<Rightarrow> io \<Rightarrow> int64 \<Rightarrow> 'r \<Rightarrow> 'r" where
  "svcDecrementWaitCount R cache i userID r =
     (case cache of None \<Rightarrow> r | Some c \<Rightarrow> snd (DecrementWaitCount R i userID r))"

definition svcIncrementAccountWaitCount ::
    "'r redis_ops \<Rightarrow> concurrencyCache option \<Rightarrow> io \<Rightarrow> time \<Rightarrow> int64 \<Rightarrow> int \<Rightarrow> 'r \<Rightarrow> bool \<times> 'r" where
  "svcIncrementAccountWaitCount R cache i now accountID maxWait r =
     (case cache of None \<Rightarrow> (True, r)
      | Some c \<Rightarrow> (case IncrementAccountWaitCount R c i now accountID maxWait r of
                      (Inl _, r') \<Rightarrow> (True, r') | (Inr b, r') \<Rightarrow> (b, r')))"

definition svcDecrementAccountWaitCount ::
    "'r redis_ops \<Rightarrow> concurrencyCache option \<Rightarrow> io \<Rightarrow> int64 \<Rightarrow> 'r \<Rightarrow> 'r" where
  "svcDecrementAccountWaitCount R cache i accountID r =
     (case cache of None \<Rightarrow> r | Some c \<Rightarrow> snd (DecrementAccountWaitCount R i accountID r))"

definition svcGetAccountWaitingCount ::
    "'r redis_ops \<Rightarrow> concurrencyCache option \<Rightarrow> io \<Rightarrow> int64 \<Rightarrow> 'r \<Rightarrow> (redis_error + int) \<times> 'r" where
  "svcGetAccountWaitingCount R cache i accountID r =
     (case cache of None \<Rightarrow> (Inr 0, r) | Some c \<Rightarrow> GetAccountWaitingCount R i accountID r)"

definition defaultExtraWaitSlots :: int where
  "defaultExtraWaitSlots = 20"

definition CalculateMaxWait :: "int \<Rightarrow> int" where
  "CalculateMaxWait userConcurrency =
     (let n = (if userConcurrency \<le> 0 then 1 else userConcurrency) in n + defaultExtraWaitSlots)"

definition svcGetAccountsLoadBatch ::
    "'r redis_ops \<Rightarrow> concurrencyCache option \<Rightarrow> io \<Rightarrow> io \<Rightarrow> time \<Rightarrow> AccountWithConcurrency list \<Rightarrow> 'r
     \<Rightarrow> (redis_error + (int64 \<rightharpoonup> AccountLoadInfo)) \<times> 'r" where
  "svcGetAccountsLoadBatch R cache i j now accounts r =
     (case cache of None \<Rightarrow> (Inr Map.empty, r) | Some c \<Rightarrow> GetAccountsLoadBatch R c i j now accounts r)"

definition svcGetUsersLoadBatch ::
    "'r redis_ops \<Rightarrow> concurrencyCache option \<Rightarrow> io \<Rightarrow> io \<Rightarrow> time \<Rightarrow> AccountWithConcurrency list \<Rightarrow> 'r
     \<Rightarrow> (redis_error + (int64 \<rightharpoonup> AccountLoadInfo)) \<times> 'r" where
  "svcGetUsersLoadBatch R cache i j now users r =
     (case cache of None \<Rightarrow> (Inr Map.empty, r) | Some c \<Rightarrow> GetUsersLoadBatch R c i j now users r)"

definition svcCleanupExpiredAccountSlots ::
    "'r redis_ops \<Rightarrow> concurrencyCache option \<Rightarrow> io \<Rightarrow> time \<Rightarrow> int64 \<Rightarrow> 'r \<Rightarrow> (redis_error + unit) \<times> 'r" where
  "svcCleanupExpiredAccountSlots R cache i now accountID r =
     (case cache of None \<Rightarrow> (Inr (), r) | Some c \<Rightarrow> CleanupExpiredAccountSlots R c i now accountID r)"

text \<open>
  One round of \<open>StartSlotCleanupWorker\<close>: the schedulable accounts are listed (or listing
  fails) and each is cleaned; \<open>ios n\<close> is the outcome of the call for the n-th account.
\<close>

fun cleanupAccounts ::
    "'r redis_ops \<Rightarrow> concurrencyCache \<Rightarrow> (nat \<Rightarrow> io) \<Rightarrow> time \<Rightarrow> nat \<Rightarrow> int64 list \<Rightarrow> 'r \<Rightarrow> 'r" where
  "cleanupAccounts R c ios now n [] r = r"
| "cleanupAccounts R c ios now n (a # as) r =
     cleanupAccounts R c ios now (n + 1) as (snd (CleanupExpiredAccountSlots R c (ios n) now a r))"

definition runCleanup ::
    "'r redis_ops \<Rightarrow> concurrencyCache \<Rightarrow> (nat \<Rightarrow> io) \<Rightarrow> time \<Rightarrow> int64 list option \<Rightarrow> 'r \<Rightarrow> 'r" where
  "runCleanup R c ios now accounts r =
     (case accounts of None \<Rightarrow> r | Some as \<Rightarrow> cleanupAccounts R c ios now 0 as r)"

definition svcGetAccountConcurrencyBatch ::
    "'r redis_ops \<Rightarrow> concurrencyCache option \<Rightarrow> io \<Rightarrow> io \<Rightarrow> time \<Rightarrow> int64 list \<Rightarrow> 'r
     \<Rightarrow> (redis_error + (int64 \<rightharpoonup> int)) \<times> 'r" where
  "svcGetAccountConcurrencyBatch R cache i j now accountIDs r =
     (if accountIDs = [] then (Inr Map.empty, r)
      else case cache of
             None \<Rightarrow> (Inr (\<lambda>a. if a \<in> set accountIDs then Some 0 else None), r)
           | Some c \<Rightarrow> GetAccountConcurrencyBatch R c i j now accountIDs r)"

definition svcCleanupStaleProcessSlots ::
    "'r redis_ops \<Rightarrow> concurrencyCache option \<Rightarrow> (nat \<Rightarrow> nat \<Rightarrow> io) \<Rightarrow> time \<Rightarrow> gostr \<Rightarrow> 'r
     \<Rightarrow> (redis_error + unit) \<times> 'r" where
  "svcCleanupStaleProcessSlots R cache ios now requestIDPrefix r =
     (case cache of None \<Rightarrow> (Inr (), r) | Some c \<Rightarrow> CleanupStaleProcessSlots R c ios now requestIDPrefix r)"

section \<open>Library\<close>

text \<open>The identifiers that the first \<open>n\<close> calls after the counter value \<open>c\<close> generate.\<close>

fun requestIDs :: "gostr \<Rightarrow> 64 word \<Rightarrow> nat \<Rightarrow> gostr list" where
  "requestIDs p c 0 = []"
| "requestIDs p c (Suc n) = (let (s, c') = generateRequestID p c in s # requestIDs p c' n)"

lemma nth_requestIDs:
  "i < n \<Longrightarrow> requestIDs p c n ! i = p @ ''-'' @ format_uint 36 (unat (c + of_nat (Suc i)))"
proof (induction n arbitrary: c i)
  case (Suc n)
  show ?case
  proof (cases i)
    case 0
    then show ?thesis by (simp add: generateRequestID_def Let_def)
  next
    case (Suc j)
    with Suc.prems Suc.IH [of j "c + 1"] show ?thesis
      by (simp add: generateRequestID_def Let_def add.assoc)
  qed
qed simp

lemma length_requestIDs [simp]: "length (requestIDs p c n) = n"
  by (induction n arbitrary: c) (simp_all add: generateRequestID_def Let_def)

lemma of_nat_word64_inj:
  assumes "of_nat i = (of_nat j :: 64 word)" "i < 2 ^ 64" "j < 2 ^ 64"
  shows "i = j"
  using assms by (simp add: word_of_nat_eq_iff take_bit_nat_eq_self)

lemma nat_less_2p64: "i < n \<Longrightarrow> n \<le> 2 ^ 64 \<Longrightarrow> i < (2 ^ 64 :: nat)"
  by linarith

lemma generateRequestID_not_prefix: "fst (generateRequestID p c) \<noteq> p"
  by (simp add: generateRequestID_def Let_def)

text \<open>Concrete instances for the witnesses.\<close>

definition exampleCache :: concurrencyCache where
  "exampleCache = NewConcurrencyCache 15 0"

lemmas eval_redis =
  mem_ops_def mem_empty_def mem_zset_def mem_zl_def mem_cnt_def mem_put_def drop_low_def
  exampleCache_def NewConcurrencyCache_def defaultSlotTTLMinutes_def

section \<open>Properties\<close>

text \<open>
  C1. However the Go methods on account slots are interleaved, and whichever calls are lost
  or executed without an answer, the number of slots held on an account never exceeds its
  limit: starting from accounts without slots, after any sequence of acquire, release, count,
  batch-load and cleanup calls the sorted set of account \<open>a\<close> has at most \<open>mx a\<close> members.
\<close>

theorem account_slots_bounded:
  assumes "redis R zset cnt dl" and "zset r (accountSlotKey a) = Map.empty"
  shows "int (card (dom (zset (fold (cache_step R c mx) ops r) (accountSlotKey a)))) \<le> max 0 (mx a)"
  by (simp add: redis.cache_run_window [OF assms(1)] window_run_bound assms(2))

theorem account_slots_bounded_witness:
  "int (card (dom (mem_zset (fold (cache_step mem_ops exampleCache (\<lambda>_. 1))
     [CAcquire Answered 100 7 ''a'', CAcquire Answered 101 7 ''b''] mem_empty) (accountSlotKey 7)))) \<le> 1"
  using account_slots_bounded [of mem_ops mem_zset mem_cnt mem_dl mem_empty 7 exampleCache "\<lambda>_. 1"
      "[CAcquire Answered 100 7 ''a'', CAcquire Answered 101 7 ''b'']"]
    mem.redis_axioms
  by (simp add: mem_zset_def mem_zl_def mem_empty_def)

text \<open>
  C2. The slot calls refine the window specification exactly: the slots of account \<open>a\<close> after
  any sequence of calls are what the specification computes from the window operations those
  calls perform on \<open>a\<close>; calls for other accounts and lost calls contribute nothing.
\<close>

theorem account_slots_refine_window:
  assumes "redis R zset cnt dl"
  shows "zset (fold (cache_step R c mx) ops r) (accountSlotKey a) =
    fold (window_exec (slotTTLSeconds c) (mx a)) (concat (map (window_ops a) ops)) (zset r (accountSlotKey a))"
  by (rule redis.cache_run_window [OF assms])

theorem account_slots_refine_window_witness:
  "mem_zset (fold (cache_step mem_ops exampleCache (\<lambda>_. 2)) [CAcquire Answered 100 7 ''a''] mem_empty)
     (accountSlotKey 7) =
   fold (window_exec (slotTTLSeconds exampleCache) 2) [Admit 100 ''a''] (mem_zset mem_empty (accountSlotKey 7))"
  using account_slots_refine_window [OF mem.redis_axioms, of exampleCache "\<lambda>_. 2"
      "[CAcquire Answered 100 7 ''a'']" mem_empty 7]
  by simp

text \<open>
  A granted slot is held: once \<open>AcquireAccountSlot\<close> has answered true for a request at
  second \<open>t0\<close>, no sequence of calls on the account's slots before \<open>t0\<close> plus the slot's time to
  live removes it, unless the request itself is released.
\<close>

theorem granted_slot_is_held:
  assumes "redis R zset cnt dl"
    and "AcquireAccountSlot R c i t0 a (mx a) m r = (Inr True, r1)"
    and "t1 < t0 + slotTTLSeconds c"
    and "\<forall>oper \<in> set (concat (map (window_ops a) ops)). window_quiet m t0 t1 oper"
  shows "m \<in> dom (zset (fold (cache_step R c mx) ops r1) (accountSlotKey a))"
proof -
  have "fst (acquireScript R t0 (accountSlotKey a) (mx a) (slotTTLSeconds c) m r) = 1"
    and r1: "r1 = snd (acquireScript R t0 (accountSlotKey a) (mx a) (slotTTLSeconds c) m r)"
    using assms(2)
    by (auto simp: AcquireAccountSlot_def Let_def split_beta run_io_def split: io.splits)
  then have "zset r1 (accountSlotKey a) m = Some t0"
    by (simp add: redis.acquireScript_zset [OF assms(1)] redis.acquireScript_result [OF assms(1)]
        window_admit_def split: if_splits)
  from window_run_keeps [of "zset r1 (accountSlotKey a)" m t0 t0 t1, OF this order_refl assms(3,4)]
  show ?thesis by (auto simp: redis.cache_run_window [OF assms(1)])
qed

definition exampleGranted :: mem_redis where
  "exampleGranted = snd (AcquireAccountSlot mem_ops exampleCache Answered 100 7 2 ''a'' mem_empty)"

theorem granted_slot_is_held_witness:
  "''a'' \<in> dom (mem_zset (fold (cache_step mem_ops exampleCache (\<lambda>_. 2))
     [CAcquire Answered 110 7 ''b'', CCleanup Answered 120 7, CRelease Answered 7 ''b''] exampleGranted)
     (accountSlotKey 7))"
proof (rule granted_slot_is_held [OF mem.redis_axioms, where i = Answered and ?t0.0 = 100 and ?t1.0 = 200
      and r = mem_empty])
  show "AcquireAccountSlot mem_ops exampleCache Answered 100 7 2 ''a'' mem_empty = (Inr True, exampleGranted)"
    by (simp add: exampleGranted_def AcquireAccountSlot_def acquireScript_def run_io_def eval_redis)
  show "(200 :: int) < 100 + slotTTLSeconds exampleCache" by (simp add: eval_redis)
qed auto

text \<open>
  C3. The wait counter of an account stays between 0 and its maximum under any interleaving of
  increments, decrements, lost calls and expiries of the counter: a waiter is never counted
  below zero and the queue never grows past \<open>maxWait\<close>.
\<close>

theorem account_wait_count_bounded:
  assumes "redis R zset cnt dl" and "\<forall>a. cnt r (accountWaitKey a) = None"
  shows "0 \<le> counter_value (cnt (fold (wait_step R c maxWait) ops r) (accountWaitKey a)) \<and>
    counter_value (cnt (fold (wait_step R c maxWait) ops r) (accountWaitKey a)) \<le> max 0 (maxWait a)"
  by (rule redis.wait_run_bounds [OF assms(1)]) (simp add: assms(2) counter_value_def)

theorem account_wait_count_bounded_witness:
  "counter_value (mem_cnt (fold (wait_step mem_ops exampleCache (\<lambda>_. 1))
     [WIncrement Answered 5 3, WIncrement Answered 6 3, WDecrement Answered 3, WDecrement Answered 3] mem_empty)
     (accountWaitKey 3)) \<in> {0..1}"
  using account_wait_count_bounded [OF mem.redis_axioms, of mem_empty exampleCache "\<lambda>_. 1"
      "[WIncrement Answered 5 3, WIncrement Answered 6 3, WDecrement Answered 3, WDecrement Answered 3]" 3]
  by (simp add: mem_cnt_def mem_empty_def)

text \<open>
  The start-up cleanup, when every call is answered, removes exactly the slots whose
  request identifier does not start with the prefix of the running process (on accounts and
  on users, keeping the timestamps of the others) and clears every wait counter.
\<close>

theorem stale_slots_cleaned:
  assumes "redis R zset cnt dl" and "ap \<noteq> []" and "\<forall>i n. ios i n = Answered"
    and "CleanupStaleProcessSlots R c ios now ap r = (res, r')"
  shows "res = Inr () \<and>
    zset r' (accountSlotKey a) = keep_prefix ap (zset r (accountSlotKey a)) \<and>
    zset r' (userSlotKey u) = keep_prefix ap (zset r (userSlotKey u)) \<and>
    cnt r' (accountWaitKey a) = None \<and> cnt r' (waitQueueKey u) = None"
proof -
  note slots = redis.cleanupSlotsByPattern_zset [OF assms(1)]
    and dels = redis.deleteKeysByPattern_eq [OF assms(1)]
  let ?r1 = "snd (cleanupSlotsByPattern R c (ios 0) now accountSlotKeyPrefix ap r)"
  let ?r2 = "snd (cleanupSlotsByPattern R c (ios 1) now userSlotKeyPrefix ap ?r1)"
  let ?r3 = "snd (deleteKeysByPattern R (ios 2) accountWaitKeyPrefix ?r2)"
  let ?r4 = "snd (deleteKeysByPattern R (ios 3) waitQueueKeyPrefix ?r3)"
  have ok: "ios i n = Answered" for i n using assms(3) by blast
  have next_call: "fst p = Inr () \<Longrightarrow> andThen p f = f (snd p)" for p :: "(redis_error + unit) \<times> 'a" and f
    by (cases p) (simp add: andThen_def)
  have "CleanupStaleProcessSlots R c ios now ap r = deleteKeysByPattern R (ios 3) waitQueueKeyPrefix ?r3"
    using assms(2) by (simp add: CleanupStaleProcessSlots_def next_call slots(1) dels(1) ok)
  with assms(4) have fin: "res = Inr ()" "r' = ?r4"
    using dels(1) [of "ios 3" waitQueueKeyPrefix ?r3] ok by (metis fst_conv, metis snd_conv)
  have pre: "prefix accountSlotKeyPrefix (accountSlotKey a)" "prefix userSlotKeyPrefix (userSlotKey u)"
      "prefix accountWaitKeyPrefix (accountWaitKey a)" "prefix waitQueueKeyPrefix (waitQueueKey u)"
    by (simp_all add: key_defs)
  have apart: "\<not> prefix q (accountSlotKey a)"
    if "q \<in> {userSlotKeyPrefix, waitQueueKeyPrefix, accountWaitKeyPrefix}" for q
    using that slot_prefixes_disjoint [OF _ _ _ pre(1), of q] by (auto simp: key_prefix_defs)
  have apart': "\<not> prefix q (userSlotKey u)"
    if "q \<in> {accountSlotKeyPrefix, waitQueueKeyPrefix, accountWaitKeyPrefix}" for q
    using that slot_prefixes_disjoint [OF _ _ _ pre(2), of q] by (auto simp: key_prefix_defs)
  have wait: "\<not> prefix waitQueueKeyPrefix (accountWaitKey a)"
    by (simp add: key_defs key_prefix_defs)
  show ?thesis
    by (simp add: fin slots dels ok pre apart apart' wait)
qed

definition exampleStale :: mem_redis where
  "exampleStale = \<lparr>mem_z = [(''concurrency:account:7'', [(''r1-1'', 50), (''r2-1'', 60)])],
     mem_c = [(''wait:account:7'', 3)], mem_d = []\<rparr>"

theorem stale_slots_cleaned_witness:
  "mem_zset (snd (CleanupStaleProcessSlots mem_ops exampleCache (\<lambda>_ _. Answered) 70 ''r2'' exampleStale))
     (accountSlotKey 7) = keep_prefix ''r2'' (mem_zset exampleStale (accountSlotKey 7)) \<and>
   mem_zset exampleStale (accountSlotKey 7) ''r1-1'' = Some 50 \<and>
   keep_prefix ''r2'' (mem_zset exampleStale (accountSlotKey 7)) ''r1-1'' = None"
proof -
  have "accountSlotKey 7 = ''concurrency:account:7''"
    by (simp add: accountSlotKey_def accountSlotKeyPrefix_def format_int_def format_uint_def
        digits.simps digit_char_def)
  then show ?thesis
    using stale_slots_cleaned [OF mem.redis_axioms, of "''r2''" "\<lambda>_ _. Answered" exampleCache 70 exampleStale
        "fst (CleanupStaleProcessSlots mem_ops exampleCache (\<lambda>_ _. Answered) 70 ''r2'' exampleStale)"
        "snd (CleanupStaleProcessSlots mem_ops exampleCache (\<lambda>_ _. Answered) 70 ''r2'' exampleStale)" 7 0]
    by (simp add: mem_zset_def mem_zl_def exampleStale_def keep_prefix_def has_prefix_def)
qed

text \<open>
  Request identifiers are unique within a process: the identifiers of any \<open>2 ^ 64\<close>
  consecutive calls of \<open>generateRequestID\<close> are pairwise different, wherever the 64-bit counter
  starts and although it wraps around.
\<close>

theorem requestIDs_distinct:
  assumes "n \<le> 2 ^ 64"
  shows "distinct (requestIDs p c n)"
proof (subst distinct_conv_nth, intro allI impI)
  fix i j
  assume ij: "i < length (requestIDs p c n)" "j < length (requestIDs p c n)" "i \<noteq> j"
  show "requestIDs p c n ! i \<noteq> requestIDs p c n ! j"
  proof
    assume "requestIDs p c n ! i = requestIDs p c n ! j"
    with ij have "format_uint 36 (unat (c + of_nat (Suc i))) = format_uint 36 (unat (c + of_nat (Suc j)))"
      by (simp add: nth_requestIDs)
    then have "unat (c + of_nat (Suc i)) = unat (c + of_nat (Suc j))"
      by (rule format_uint_inject [rotated 2]) auto
    then have "c + of_nat (Suc i) = c + of_nat (Suc j)" by (rule unsigned_word_eqI)
    then have "(of_nat i :: 64 word) = of_nat j" by simp
    with ij assms have "i = j" by (auto intro: of_nat_word64_inj nat_less_2p64)
    with ij(3) show False by simp
  qed
qed

theorem requestIDs_distinct_witness:
  "distinct (requestIDs ''r1'' (- 1) 2) \<and> requestIDs ''r1'' (- 1) 2 = [''r1-0'', ''r1-1'']"
proof
  show "distinct (requestIDs ''r1'' (- 1) 2)" by (rule requestIDs_distinct) simp
  show "requestIDs ''r1'' (- 1) 2 = [''r1-0'', ''r1-1'']"
    by (simp add: numeral_2_eq_2 generateRequestID_def Let_def format_uint_def digits.simps digit_char_def)
qed

text \<open>
  Acquiring through the service and calling the returned release function is a round
  trip: if the call is granted under an identifier that holds no slot yet, releasing leaves
  exactly the slots that were alive at the moment of the acquisition, on every account.
\<close>

theorem acquire_release_roundtrip:
  assumes "redis R zset cnt dl" and "0 < mx"
    and "svcAcquireAccountSlot R (Some c) p i now a mx (ctr, r) = (Inr res, ctr', r1)"
    and "Acquired res"
    and "fst (generateRequestID p ctr) \<notin> dom (zset r (accountSlotKey a))"
  shows "zset (callRelease R Answered (ReleaseFunc res) r1) =
    (zset r)(accountSlotKey a := window_live now (slotTTLSeconds c) (zset r (accountSlotKey a)))"
proof -
  define m where "m = fst (generateRequestID p ctr)"
  let ?k = "accountSlotKey a" and ?s = "acquireScript R now (accountSlotKey a) mx (slotTTLSeconds c) m r"
  have res: "ReleaseFunc res = ReleaseAccount a m" and r1: "r1 = snd ?s" and "fst ?s = 1"
    using assms(2-4)
    by (auto simp: svcAcquireAccountSlot_def AcquireAccountSlot_def m_def Let_def split_beta run_io_def
        split: sum.splits io.splits if_splits)
  then have "zset r1 = (zset r)(?k := (window_live now (slotTTLSeconds c) (zset r ?k))(m \<mapsto> now))"
    by (simp add: redis.acquireScript_zset [OF assms(1)] redis.acquireScript_result [OF assms(1)]
        window_admit_def split: if_splits)
  moreover have "window_live now (slotTTLSeconds c) (zset r ?k) m = None"
    using assms(5) dom_window_live [of now "slotTTLSeconds c" "zset r ?k"] by (auto simp: m_def)
  ultimately show ?thesis
    by (simp add: res ReleaseAccountSlot_def run_io_def redis.zset_zrem [OF assms(1)] fun_upd_idem)
qed

theorem acquire_release_roundtrip_witness:
  "mem_zset (callRelease mem_ops Answered (ReleaseAccount 7 ''p-1'')
     (snd (snd (svcAcquireAccountSlot mem_ops (Some exampleCache) ''p'' Answered 100 7 2 (0, mem_empty))))) =
   (mem_zset mem_empty)(accountSlotKey 7 := window_live 100 900 (mem_zset mem_empty (accountSlotKey 7)))"
proof -
  have "svcAcquireAccountSlot mem_ops (Some exampleCache) ''p'' Answered 100 7 2 (0, mem_empty) =
      (Inr \<lparr>Acquired = True, ReleaseFunc = ReleaseAccount 7 ''p-1''\<rparr>, 1,
       snd (snd (svcAcquireAccountSlot mem_ops (Some exampleCache) ''p'' Answered 100 7 2 (0, mem_empty))))"
    by (simp add: svcAcquireAccountSlot_def generateRequestID_def AcquireAccountSlot_def acquireScript_def
        run_io_def eval_redis format_uint_def digits.simps digit_char_def)
  from acquire_release_roundtrip [OF mem.redis_axioms _ this] show ?thesis
    by (simp add: mem_zset_def mem_zl_def mem_empty_def eval_redis)
qed

end
