(* ===== verification/Session_Limit.thy ===== *)
theory Session_Limit
  imports Slot_Window
begin

text \<open>
  The session-limit cache of \<open>internal/repository/session_limit_cache.go\<close>: the active
  sessions of an account, with the second of their last activity, are a sorted set; a new
  session is admitted while there is room.  The cached window cost (a float with a 30 second
  time to live in the same file) is not modelled.
\<close>

section \<open>Lua scripts\<close>

definition registerSessionScript ::
    "'r redis_ops \<Rightarrow> time \<Rightarrow> gostr \<Rightarrow> int \<Rightarrow> int \<Rightarrow> gostr \<Rightarrow> 'r \<Rightarrow> int \<times> 'r" where
  "registerSessionScript R now key maxSessions idleTimeout sessionUUID r =
     (let expireBefore = now - idleTimeout;
          r1 = op_zremrange R key expireBefore r
      in if op_zscore R key sessionUUID r1 \<noteq> None
         then (1, op_expire R key (now + (idleTimeout + 60)) (op_zadd R key now sessionUUID r1))
         else if op_zcard R key r1 < maxSessions
         then (1, op_expire R key (now + (idleTimeout + 60)) (op_zadd R key now sessionUUID r1))
         else (0, r1))"

definition refreshSessionScript ::
    "'r redis_ops \<Rightarrow> time \<Rightarrow> gostr \<Rightarrow> int \<Rightarrow> gostr \<Rightarrow> 'r \<Rightarrow> int \<times> 'r" where
  "refreshSessionScript R now key idleTimeout sessionUUID r =
     (1, if op_zscore R key sessionUUID r \<noteq> None
         then op_expire R key (now + (idleTimeout + 60)) (op_zadd R key now sessionUUID r)
         else r)"

definition getActiveSessionCountScript ::
    "'r redis_ops \<Rightarrow> time \<Rightarrow> gostr \<Rightarrow> int \<Rightarrow> 'r \<Rightarrow> int \<times> 'r" where
  "getActiveSessionCountScript R now key idleTimeout r =
     (let r1 = op_zremrange R key (now - idleTimeout) r in (op_zcard R key r1, r1))"

definition isSessionActiveScript ::
    "'r redis_ops \<Rightarrow> time \<Rightarrow> gostr \<Rightarrow> int \<Rightarrow> gostr \<Rightarrow> 'r \<Rightarrow> int \<times> 'r" where
  "isSessionActiveScript R now key idleTimeout sessionUUID r =
     (let expireBefore = now - idleTimeout
      in case op_zscore R key sessionUUID r of
           None \<Rightarrow> (0, r)
         | Some score \<Rightarrow> if score \<le> expireBefore then (0, r) else (1, r))"

section \<open>Go methods\<close>

definition sessionLimitKey :: "int64 \<Rightarrow> gostr" where
  "sessionLimitKey accountID = ''session_limit:account:'' @ format_int accountID"

text \<open>Durations are in nanoseconds; \<open>int(d.Seconds())\<close> truncates to whole seconds.\<close>

definition wholeSeconds :: "int \<Rightarrow> int" where
  "wholeSeconds d = trunc_div d 1000000000"

definition NewSessionLimitCache :: "int \<Rightarrow> int" where
  "NewSessionLimitCache defaultIdleTimeoutMinutes =
     (let m = (if defaultIdleTimeoutMinutes \<le> 0 then 5 else defaultIdleTimeoutMinutes)
      in m * 60 * 1000000000)"

definition idleSeconds :: "int \<Rightarrow> int \<Rightarrow> int" where
  "idleSeconds defaultIdleTimeout idleTimeout =
     (let s = wholeSeconds idleTimeout in if s \<le> 0 then wholeSeconds defaultIdleTimeout else s)"

definition RegisterSession ::
    "'r redis_ops \<Rightarrow> int \<Rightarrow> io \<Rightarrow> time \<Rightarrow> int64 \<Rightarrow> gostr \<Rightarrow> int \<Rightarrow> int \<Rightarrow> 'r
     \<Rightarrow> bool \<times> redis_error option \<times> 'r" where
  "RegisterSession R defaultIdle i now accountID sessionUUID maxSessions idleTimeout r =
     (if sessionUUID = [] \<or> maxSessions \<le> 0 then (True, None, r)
      else case run_io i (registerSessionScript R now (sessionLimitKey accountID) maxSessions
                            (idleSeconds defaultIdle idleTimeout) sessionUUID) r of
             (Inl e, r') \<Rightarrow> (True, Some e, r')
           | (Inr n, r') \<Rightarrow> (n = 1, None, r'))"

definition RefreshSession ::
    "'r redis_ops \<Rightarrow> int \<Rightarrow> io \<Rightarrow> time \<Rightarrow> int64 \<Rightarrow> gostr \<Rightarrow> int \<Rightarrow> 'r \<Rightarrow> (redis_error + unit) \<times> 'r" where
  "RefreshSession R defaultIdle i now accountID sessionUUID idleTimeout r =
     (if sessionUUID = [] then (Inr (), r)
      else run_io i (\<lambda>r. ((), snd (refreshSessionScript R now (sessionLimitKey accountID)
                                    (idleSeconds defaultIdle idleTimeout) sessionUUID r))) r)"

definition GetActiveSessionCount ::
    "'r redis_ops \<Rightarrow> int \<Rightarrow> io \<Rightarrow> time \<Rightarrow> int64 \<Rightarrow> 'r \<Rightarrow> (redis_error + int) \<times> 'r" where
  "GetActiveSessionCount R defaultIdle i now accountID r =
     run_io i (getActiveSessionCountScript R now (sessionLimitKey accountID) (wholeSeconds defaultIdle)) r"

text \<open>
  The batch: \<open>ios\<close> says for each command of the pipeline whether it is answered; the
  accounts whose command failed are left out of the result.
\<close>

fun sessionCountPipeline ::
    "'r redis_ops \<Rightarrow> int \<Rightarrow> (int64 \<rightharpoonup> int) \<Rightarrow> (int64 \<Rightarrow> io) \<Rightarrow> time \<Rightarrow> int64 list
     \<Rightarrow> (int64 \<rightharpoonup> int) \<times> 'r \<Rightarrow> (int64 \<rightharpoonup> int) \<times> 'r" where
  "sessionCountPipeline R defaultIdle idleTimeouts ios now [] (m, r) = (m, r)"
| "sessionCountPipeline R defaultIdle idleTimeouts ios now (a # as) (m, r) =
     (let idle = (case idleTimeouts a of None \<Rightarrow> defaultIdle | Some t \<Rightarrow> if t > 0 then t else defaultIdle)
      in case run_io (ios a) (getActiveSessionCountScript R now (sessionLimitKey a) (wholeSeconds idle)) r of
           (Inl _, r') \<Rightarrow> sessionCountPipeline R defaultIdle idleTimeouts ios now as (m, r')
         | (Inr n, r') \<Rightarrow> sessionCountPipeline R defaultIdle idleTimeouts ios now as (m(a \<mapsto> n), r'))"

definition GetActiveSessionCountBatch ::
    "'r redis_ops \<Rightarrow> int \<Rightarrow> (int64 \<rightharpoonup> int) \<Rightarrow> (int64 \<Rightarrow> io) \<Rightarrow> time \<Rightarrow> int64 list \<Rightarrow> 'r
     \<Rightarrow> (int64 \<rightharpoonup> int) \<times> 'r" where
  "GetActiveSessionCountBatch R defaultIdle idleTimeouts ios now accountIDs r =
     (if accountIDs = [] then (Map.empty, r)
      else sessionCountPipeline R defaultIdle idleTimeouts ios now accountIDs (Map.empty, r))"

definition IsSessionActive ::
    "'r redis_ops \<Rightarrow> int \<Rightarrow> io \<Rightarrow> time \<Rightarrow> int64 \<Rightarrow> gostr \<Rightarrow> 'r \<Rightarrow> (redis_error + bool) \<times> 'r" where
  "IsSessionActive R defaultIdle i now accountID sessionUUID r =
     (if sessionUUID = [] then (Inr False, r)
      else case run_io i (isSessionActiveScript R now (sessionLimitKey accountID)
                            (wholeSeconds defaultIdle) sessionUUID) r of
             (Inl e, r') \<Rightarrow> (Inl e, r')
           | (Inr n, r') \<Rightarrow> (Inr (n = 1), r'))"

section \<open>Library\<close>

lemma sessionLimitKey_eq [simp]: "sessionLimitKey a = sessionLimitKey b \<longleftrightarrow> a = b"
  by (simp add: sessionLimitKey_def format_int_inject)

context redis begin

lemma zset_purged:
  "zset (op_zremrange R k (now - ttl) r) = (zset r)(k := window_live now ttl (zset r k))"
  by (simp add: zset_zremrange window_live_def)

lemma registerSessionScript_result:
  "fst (registerSessionScript R now k mx ttl m r) = (if window_admits now ttl mx m (zset r k) then 1 else 0)"
  by (auto simp: registerSessionScript_def Let_def zset_purged zset_laws window_admits_def)

lemma registerSessionScript_zset:
  "zset (snd (registerSessionScript R now k mx ttl m r)) = (zset r)(k := window_admit now ttl mx m (zset r k))"
  by (auto simp: registerSessionScript_def Let_def zset_purged zset_laws window_admit_def window_admits_def)

lemma getActiveSessionCountScript_eq:
  "fst (getActiveSessionCountScript R now k ttl r) = int (card (dom (window_live now ttl (zset r k))))"
  "zset (snd (getActiveSessionCountScript R now k ttl r)) = (zset r)(k := window_live now ttl (zset r k))"
  by (simp_all add: getActiveSessionCountScript_def Let_def zset_purged zcard)

lemma refreshSessionScript_dom:
  "dom (zset (snd (refreshSessionScript R now k ttl m r)) k') = dom (zset r k')"
  by (auto simp: refreshSessionScript_def zset_laws)

lemma isSessionActiveScript_eq:
  "isSessionActiveScript R now k ttl m r = (if m \<in> dom (window_live now ttl (zset r k)) then 1 else 0, r)"
  by (auto simp: isSessionActiveScript_def Let_def zscore window_live_def split: option.splits)

lemma sessionCountPipeline_bound:
  "int (card (dom (zset r k))) \<le> b \<Longrightarrow>
   int (card (dom (zset (snd (sessionCountPipeline R di its ios now as (m, r))) k))) \<le> b"
proof (induction as arbitrary: m r)
  case (Cons a as)
  let ?idle = "case its a of None \<Rightarrow> di | Some t \<Rightarrow> if t > 0 then t else di"
  obtain x r1 where 1: "run_io (ios a) (getActiveSessionCountScript R now (sessionLimitKey a)
      (wholeSeconds ?idle)) r = (x, r1)" by fastforce
  have "r1 = snd (run_io (ios a) (getActiveSessionCountScript R now (sessionLimitKey a)
      (wholeSeconds ?idle)) r)" by (simp only: 1 snd_conv)
  then have "r1 = r \<or> zset r1 = (zset r)(sessionLimitKey a :=
      window_live now (wholeSeconds ?idle) (zset r (sessionLimitKey a)))"
    by (cases "ios a = Lost") (simp_all add: run_io_snd getActiveSessionCountScript_eq)
  then have "card (dom (zset r1 k)) \<le> card (dom (zset r k))"
    using card_window_live [OF zset_finite] by (auto simp: fun_upd_def)
  with Cons 1 show ?case by (cases x) (auto simp: Let_def)
qed simp

end

sublocale redis \<subseteq> sess: window_admission
  "\<lambda>r. zset r (sessionLimitKey a)"
  "\<lambda>now m r. (fst (registerSessionScript R now (sessionLimitKey a) mx ttl m r) = 1,
             snd (registerSessionScript R now (sessionLimitKey a) mx ttl m r))"
  "\<lambda>now r. snd (getActiveSessionCountScript R now (sessionLimitKey a) ttl r)"
  ttl mx
  for a :: int64 and ttl mx :: int
  by unfold_locales
    (simp_all add: zset_finite registerSessionScript_result registerSessionScript_zset
      getActiveSessionCountScript_eq)

section \<open>Properties\<close>

datatype session_op =
    SRegister io time int64 gostr int
  | SRefresh io time int64 gostr int
  | SCount io time int64
  | SBatch "int64 \<rightharpoonup> int" "int64 \<Rightarrow> io" time "int64 list"
  | SActive io time int64 gostr

fun session_step :: "'r redis_ops \<Rightarrow> int \<Rightarrow> (int64 \<Rightarrow> int) \<Rightarrow> session_op \<Rightarrow> 'r \<Rightarrow> 'r" where
  "session_step R di mx (SRegister i now a u idle) r = snd (snd (RegisterSession R di i now a u (mx a) idle r))"
| "session_step R di mx (SRefresh i now a u idle) r = snd (RefreshSession R di i now a u idle r)"
| "session_step R di mx (SCount i now a) r = snd (GetActiveSessionCount R di i now a r)"
| "session_step R di mx (SBatch its ios now as) r = snd (GetActiveSessionCountBatch R di its ios now as r)"
| "session_step R di mx (SActive i now a u) r = snd (IsSessionActive R di i now a u r)"

context redis begin

lemma RegisterSession_store:
  "snd (snd (RegisterSession R di i now a u mx idle r)) =
     (if u = [] \<or> mx \<le> 0 \<or> i = Lost then r
      else snd (registerSessionScript R now (sessionLimitKey a) mx (idleSeconds di idle) u r))"
  by (cases i) (auto simp: RegisterSession_def run_io_def split: prod.splits)

lemma session_step_bound:
  assumes "int (card (dom (zset r (sessionLimitKey a)))) \<le> max 0 (mx a)"
  shows "int (card (dom (zset (session_step R di mx oper r) (sessionLimitKey a)))) \<le> max 0 (mx a)"
proof (cases oper)
  case (SRegister i now b u idle)
  then show ?thesis
    using assms card_window_admit [OF zset_finite, of r "sessionLimitKey a" "mx a" now "idleSeconds di idle" u]
    by (auto simp: RegisterSession_store registerSessionScript_zset)
next
  case (SRefresh i now b u idle)
  then show ?thesis using assms
    by (simp add: RefreshSession_def run_io_snd refreshSessionScript_dom)
next
  case (SCount i now b)
  then show ?thesis using assms card_window_live [OF zset_finite, of now "wholeSeconds di" r "sessionLimitKey b"]
    by (auto simp: GetActiveSessionCount_def run_io_snd getActiveSessionCountScript_eq)
next
  case (SBatch its ios now as)
  then show ?thesis using assms
    by (simp add: GetActiveSessionCountBatch_def sessionCountPipeline_bound)
next
  case (SActive i now b u)
  then show ?thesis using assms
    by (auto simp: IsSessionActive_def run_io_def isSessionActiveScript_eq split: io.splits)
qed

end

text \<open>
  C4. The number of sessions recorded for an account never exceeds its limit, whatever
  sequence of register, refresh, count, batch and query calls is made, with idle timeouts
  that differ from call to call and with calls that are lost or whose answer is lost.
\<close>

theorem sessions_bounded:
  assumes "redis R zset cnt dl" and "zset r (sessionLimitKey a) = Map.empty"
  shows "int (card (dom (zset (fold (session_step R di mx) ops r) (sessionLimitKey a)))) \<le> max 0 (mx a)"
proof -
  have "int (card (dom (zset r (sessionLimitKey a)))) \<le> max 0 (mx a) \<Longrightarrow>
    int (card (dom (zset (fold (session_step R di mx) ops r) (sessionLimitKey a)))) \<le> max 0 (mx a)"
    by (induction ops arbitrary: r) (simp_all add: redis.session_step_bound [OF assms(1)])
  with assms(2) show ?thesis by simp
qed

theorem sessions_bounded_witness:
  "int (card (dom (mem_zset (fold (session_step mem_ops (NewSessionLimitCache 5) (\<lambda>_. 1))
     [SRegister Answered 10 4 ''s1'' 0, SRegister Answered 11 4 ''s2'' 0] mem_empty) (sessionLimitKey 4)))) \<le> 1"
  using sessions_bounded [OF mem.redis_axioms, of mem_empty 4 "NewSessionLimitCache 5" "\<lambda>_. 1"
      "[SRegister Answered 10 4 ''s1'' 0, SRegister Answered 11 4 ''s2'' 0]"]
  by (simp add: mem_zset_def mem_zl_def mem_empty_def)

text \<open>
  Admission of a session is decided by the live sessions alone: an answered
  \<open>RegisterSession\<close> with a session identifier and a positive limit refuses exactly when the
  session is not active and the account already has \<open>maxSessions\<close> active sessions; it fails
  open when Redis does not answer.
\<close>

theorem register_session_decision:
  assumes "redis R zset cnt dl" and "u \<noteq> []" and "0 < mx"
  shows "fst (RegisterSession R di i now a u mx idle r) \<longleftrightarrow>
    i \<noteq> Answered \<or>
    u \<in> dom (window_live now (idleSeconds di idle) (zset r (sessionLimitKey a))) \<or>
    int (card (dom (window_live now (idleSeconds di idle) (zset r (sessionLimitKey a))))) < mx"
  using assms(2,3)
  by (cases i) (simp_all add: RegisterSession_def run_io_def split_beta window_admits_def
      redis.registerSessionScript_result [OF assms(1)])

theorem register_session_decision_witness:
  "fst (RegisterSession mem_ops (NewSessionLimitCache 5) Answered 10 4 ''s1'' 1 0 mem_empty)"
  using register_session_decision [OF mem.redis_axioms, of "''s1''" 1 "NewSessionLimitCache 5" Answered 10 4 0 mem_empty]
  by (simp add: mem_zset_def mem_zl_def mem_empty_def window_live_def)

end
