(* ===== verification/Failover.thy ===== *)
theory Failover
  imports Prelude
begin

text \<open>
  The failover state of a gateway request, \<open>internal/gatewayruntime/failover/state.go\<close>: which
  accounts have failed, how often the request switched accounts and how often each account
  was retried.  A handler consults it after each upstream failure and each failed account
  selection.  Sleeping is modelled by its outcome: \<open>canceled\<close> says that the context of the
  request is done before the timer fires.  Calls to the environment (marking the account
  temporarily unschedulable, the failover metric) are returned in the order they are made.
  Durations are nanoseconds.
\<close>

datatype Action = Continue | Exhausted | Canceled

definition maxSameAccountRetries :: int where
  "maxSameAccountRetries = 3"

definition SameAccountRetryDelay :: int where
  "SameAccountRetryDelay = 500 * 1000000"

definition singleAccountBackoffDelay :: int where
  "singleAccountBackoffDelay = 2 * 1000000000"

record UpstreamFailoverError =
  StatusCode :: int
  ResponseBody :: gostr
  ResponseHeaders :: "(gostr \<times> gostr list) list"
  ErrForceCacheBilling :: bool
  RetryableOnSameAccount :: bool

record State =
  SwitchCount :: int
  MaxSwitches :: int
  FailedAccountIDs :: "int64 set"
  SameAccountRetryCount :: "int64 \<rightharpoonup> int"
  LastFailoverErr :: "UpstreamFailoverError option"
  ForceCacheBilling :: bool
  hasBoundSession :: bool

datatype failover_call =
    TempUnscheduleRetryableError int64 UpstreamFailoverError
  | RecordAccountFailover gostr
  | Sleep int

definition NewState :: "int \<Rightarrow> bool \<Rightarrow> State" where
  "NewState maxSwitches bound =
     \<lparr>SwitchCount = 0, MaxSwitches = maxSwitches, FailedAccountIDs = {}, SameAccountRetryCount = Map.empty,
      LastFailoverErr = None, ForceCacheBilling = False, hasBoundSession = bound\<rparr>"

text \<open>Reading a Go map at an absent key gives 0.\<close>

definition retryCount :: "State \<Rightarrow> int64 \<Rightarrow> int" where
  "retryCount s a = (case SameAccountRetryCount s a of None \<Rightarrow> 0 | Some n \<Rightarrow> n)"

definition NeedForceCacheBilling :: "bool \<Rightarrow> UpstreamFailoverError option \<Rightarrow> bool" where
  "NeedForceCacheBilling bound err =
     (bound \<or> (case err of None \<Rightarrow> False | Some e \<Rightarrow> ErrForceCacheBilling e))"

definition SleepWithContext :: "bool \<Rightarrow> int \<Rightarrow> bool" where
  "SleepWithContext canceled d = (d \<le> 0 \<or> \<not> canceled)"

definition platformAntigravity :: gostr where
  "platformAntigravity = ''antigravity''"

definition noteFailure :: "UpstreamFailoverError \<Rightarrow> State \<Rightarrow> State" where
  "noteFailure err s =
     (let s1 = s\<lparr>LastFailoverErr := Some err\<rparr>
      in if NeedForceCacheBilling (hasBoundSession s1) (Some err)
         then s1\<lparr>ForceCacheBilling := True\<rparr> else s1)"

definition retrySameAccount :: "bool \<Rightarrow> int64 \<Rightarrow> State \<Rightarrow> Action \<times> failover_call list \<times> State" where
  "retrySameAccount canceled accountID s =
     (let s1 = s\<lparr>SameAccountRetryCount := (SameAccountRetryCount s)(accountID \<mapsto> retryCount s accountID + 1)\<rparr>
      in (if SleepWithContext canceled SameAccountRetryDelay then Continue else Canceled,
          [Sleep SameAccountRetryDelay], s1))"

definition switchAccount ::
    "bool \<Rightarrow> int64 \<Rightarrow> gostr \<Rightarrow> UpstreamFailoverError \<Rightarrow> State \<Rightarrow> Action \<times> failover_call list \<times> State" where
  "switchAccount canceled accountID platform err s =
     (let calls = (if RetryableOnSameAccount err then [TempUnscheduleRetryableError accountID err] else []);
          s1 = s\<lparr>FailedAccountIDs := insert accountID (FailedAccountIDs s)\<rparr>
      in if SwitchCount s1 \<ge> MaxSwitches s1 then (Exhausted, calls, s1)
         else let s2 = s1\<lparr>SwitchCount := SwitchCount s1 + 1\<rparr>;
                  calls2 = calls @ [RecordAccountFailover platform];
                  delay = (SwitchCount s2 - 1) * 1000000000
              in if platform = platformAntigravity
                 then (if SleepWithContext canceled delay then Continue else Canceled, calls2 @ [Sleep delay], s2)
                 else (Continue, calls2, s2))"

definition HandleFailoverError ::
    "bool \<Rightarrow> int64 \<Rightarrow> gostr \<Rightarrow> UpstreamFailoverError \<Rightarrow> State \<Rightarrow> Action \<times> failover_call list \<times> State" where
  "HandleFailoverError canceled accountID platform err s =
     (let s1 = noteFailure err s
      in if RetryableOnSameAccount err \<and> retryCount s1 accountID < maxSameAccountRetries
         then retrySameAccount canceled accountID s1
         else switchAccount canceled accountID platform err s1)"

definition HandleSelectionExhausted :: "bool \<Rightarrow> State \<Rightarrow> Action \<times> failover_call list \<times> State" where
  "HandleSelectionExhausted canceled s =
     (if (case LastFailoverErr s of None \<Rightarrow> False | Some e \<Rightarrow> StatusCode e = 503) \<and> SwitchCount s \<le> MaxSwitches s
      then if SleepWithContext canceled singleAccountBackoffDelay
           then (Continue, [Sleep singleAccountBackoffDelay], s\<lparr>FailedAccountIDs := {}\<rparr>)
           else (Canceled, [Sleep singleAccountBackoffDelay], s)
      else (Exhausted, [], s))"

lemmas failover_defs =
  HandleFailoverError_def noteFailure_def retrySameAccount_def switchAccount_def
  HandleSelectionExhausted_def Let_def

section \<open>Invariant and frame\<close>

definition failover_inv :: "State \<Rightarrow> bool" where
  "failover_inv s \<longleftrightarrow> 0 \<le> SwitchCount s \<and> SwitchCount s \<le> max 0 (MaxSwitches s) \<and>
     (\<forall>a. 0 \<le> retryCount s a \<and> retryCount s a \<le> maxSameAccountRetries)"

lemma failover_inv_NewState [inv_intros]: "failover_inv (NewState m b)"
  by (simp add: failover_inv_def NewState_def retryCount_def maxSameAccountRetries_def)

lemma retryCount_cong [simp]:
  "retryCount (s\<lparr>LastFailoverErr := e\<rparr>) a = retryCount s a"
  "retryCount (s\<lparr>ForceCacheBilling := b\<rparr>) a = retryCount s a"
  "retryCount (s\<lparr>FailedAccountIDs := F\<rparr>) a = retryCount s a"
  "retryCount (s\<lparr>SwitchCount := n\<rparr>) a = retryCount s a"
  "retryCount (s\<lparr>SameAccountRetryCount := m\<rparr>) a = (case m a of None \<Rightarrow> 0 | Some n \<Rightarrow> n)"
  by (simp_all add: retryCount_def)

lemma failover_inv_noteFailure [inv_intros]: "failover_inv s \<Longrightarrow> failover_inv (noteFailure e s)"
  by (simp add: failover_inv_def noteFailure_def Let_def)

lemma failover_inv_retrySameAccount [inv_intros]:
  "failover_inv s \<Longrightarrow> retryCount s a < maxSameAccountRetries \<Longrightarrow> failover_inv (snd (snd (retrySameAccount k a s)))"
  by (auto simp: failover_inv_def retrySameAccount_def Let_def simp flip: retryCount_def)

lemma failover_inv_switchAccount [inv_intros]:
  "failover_inv s \<Longrightarrow> failover_inv (snd (snd (switchAccount k a p e s)))"
  by (simp add: failover_inv_def switchAccount_def Let_def)

lemma retryCount_noteFailure [simp]: "retryCount (noteFailure e s) a = retryCount s a"
  by (simp add: noteFailure_def Let_def)

lemma failover_inv_HandleFailoverError [inv_intros]:
  assumes "failover_inv s" "HandleFailoverError k a p e s = (act, calls, s')"
  shows "failover_inv s'"
proof -
  have "failover_inv (snd (snd (HandleFailoverError k a p e s)))"
    using assms(1) by (simp add: HandleFailoverError_def Let_def inv_intros)
  with assms(2) show ?thesis by simp
qed

lemma failover_inv_HandleSelectionExhausted [inv_intros]:
  assumes "failover_inv s" "HandleSelectionExhausted k s = (act, calls, s')"
  shows "failover_inv s'"
  using assms by (auto simp: failover_inv_def failover_defs split: if_splits)

lemma failover_frame [frame_simps]:
  assumes "HandleFailoverError k a p e s = (act, calls, s')"
  shows "MaxSwitches s' = MaxSwitches s" "hasBoundSession s' = hasBoundSession s" "LastFailoverErr s' = Some e"
  using assms by (auto simp: failover_defs split: if_splits)

lemma selection_frame [frame_simps]:
  assumes "HandleSelectionExhausted k s = (act, calls, s')"
  shows "MaxSwitches s' = MaxSwitches s" "hasBoundSession s' = hasBoundSession s"
    "LastFailoverErr s' = LastFailoverErr s" "SwitchCount s' = SwitchCount s"
    "SameAccountRetryCount s' = SameAccountRetryCount s" "ForceCacheBilling s' = ForceCacheBilling s"
  using assms by (auto simp: failover_defs split: if_splits)

section \<open>The retry budget\<close>

text \<open>
  How many more times the request may go on: every switch costs two units (the switch itself
  and the reset of the failed accounts it may later allow), every same-account retry one.
\<close>

definition failover_budget :: "int64 set \<Rightarrow> State \<Rightarrow> nat" where
  "failover_budget A s =
     2 * nat (MaxSwitches s - SwitchCount s) + (\<Sum>a\<in>A. nat (maxSameAccountRetries - retryCount s a)) +
     (if FailedAccountIDs s = {} then 0 else 1)"

lemma failover_budget_NewState:
  "finite A \<Longrightarrow> failover_budget A (NewState m b) = 2 * nat m + 3 * card A"
  by (simp add: failover_budget_def NewState_def retryCount_def maxSameAccountRetries_def)

lemma sum_nat_decrease:
  fixes f g :: "'a \<Rightarrow> nat"
  assumes "finite A" "a \<in> A" "\<And>x. x \<noteq> a \<Longrightarrow> g x = f x" "g a < f a"
  shows "sum g A < sum f A"
proof (rule sum_strict_mono_ex1 [OF assms(1)])
  show "\<forall>x\<in>A. g x \<le> f x" using assms(3,4) by (metis less_imp_le order_refl)
  show "\<exists>x\<in>A. g x < f x" using assms(2,4) by blast
qed

lemma HandleFailoverError_budget:
  assumes "finite A" "a \<in> A" "HandleFailoverError k a p e s = (Continue, calls, s')"
  shows "failover_budget A s' < failover_budget A s"
proof (cases "RetryableOnSameAccount e \<and> retryCount s a < maxSameAccountRetries")
  case True
  then have s': "s' = (noteFailure e s)\<lparr>SameAccountRetryCount := (SameAccountRetryCount s)(a \<mapsto> retryCount s a + 1)\<rparr>"
    using assms(3) by (auto simp: failover_defs split: if_splits)
  have "(\<Sum>x\<in>A. nat (maxSameAccountRetries - retryCount s' x)) < (\<Sum>x\<in>A. nat (maxSameAccountRetries - retryCount s x))"
    using True by (intro sum_nat_decrease [OF assms(1,2)]) (auto simp: s' retryCount_def)
  then show ?thesis by (auto simp: failover_budget_def s' noteFailure_def Let_def)
next
  case False
  then have "SwitchCount s' = SwitchCount s + 1 \<and> SwitchCount s < MaxSwitches s \<and> MaxSwitches s' = MaxSwitches s \<and>
      (\<forall>x. retryCount s' x = retryCount s x)"
    using assms(3) by (auto simp: failover_defs split: if_splits)
  then show ?thesis by (auto simp: failover_budget_def)
qed

lemma HandleSelectionExhausted_budget:
  assumes "FailedAccountIDs s \<noteq> {}" "HandleSelectionExhausted k s = (Continue, calls, s')"
  shows "failover_budget A s' < failover_budget A s"
  using assms by (auto simp: failover_budget_def failover_defs split: if_splits)

section \<open>Properties\<close>

datatype failover_event =
    Failed bool int64 gostr UpstreamFailoverError
  | SelectionFailed bool

fun failover_step :: "failover_event \<Rightarrow> State \<Rightarrow> State" where
  "failover_step (Failed canceled accountID platform err) s =
     snd (snd (HandleFailoverError canceled accountID platform err s))"
| "failover_step (SelectionFailed canceled) s = snd (snd (HandleSelectionExhausted canceled s))"

text \<open>The event asks for cache billing, given whether the session is bound.\<close>

fun forces_cache_billing :: "bool \<Rightarrow> failover_event \<Rightarrow> bool" where
  "forces_cache_billing bound (Failed canceled accountID platform err) = (bound \<or> ErrForceCacheBilling err)"
| "forces_cache_billing bound (SelectionFailed canceled) = False"

lemma noteFailure_eq:
  "noteFailure e s = s\<lparr>LastFailoverErr := Some e,
     ForceCacheBilling := ForceCacheBilling s \<or> hasBoundSession s \<or> ErrForceCacheBilling e\<rparr>"
  by (cases "hasBoundSession s \<or> ErrForceCacheBilling e")
    (auto simp: noteFailure_def NeedForceCacheBilling_def Let_def)

lemma failover_step_inv [inv_intros]: "failover_inv s \<Longrightarrow> failover_inv (failover_step ev s)"
proof (cases ev)
  case (Failed k a p e)
  obtain act calls s' where "HandleFailoverError k a p e s = (act, calls, s')" by (metis prod_cases3)
  then show "failover_inv s \<Longrightarrow> ?thesis" using Failed failover_inv_HandleFailoverError by simp
next
  case (SelectionFailed k)
  obtain act calls s' where "HandleSelectionExhausted k s = (act, calls, s')" by (metis prod_cases3)
  then show "failover_inv s \<Longrightarrow> ?thesis" using SelectionFailed failover_inv_HandleSelectionExhausted by simp
qed

lemma failover_step_frame:
  "MaxSwitches (failover_step ev s) = MaxSwitches s \<and> hasBoundSession (failover_step ev s) = hasBoundSession s \<and>
   (ForceCacheBilling (failover_step ev s) \<longleftrightarrow> ForceCacheBilling s \<or> forces_cache_billing (hasBoundSession s) ev)"
  by (cases ev) (simp_all add: HandleFailoverError_def noteFailure_eq retrySameAccount_def switchAccount_def
      HandleSelectionExhausted_def Let_def)

text \<open>
  Whatever sequence of upstream failures and failed selections a request goes through,
  the switch counter stays within \<open>0\<close> and \<open>MaxSwitches\<close>, no account is retried on itself more
  than three times, and cache billing is forced exactly when the session was bound and some
  account failed, or some failure asked for it.
\<close>

theorem failover_counters_bounded:
  "(let s = fold failover_step evs (NewState maxSwitches bound)
    in 0 \<le> SwitchCount s \<and> SwitchCount s \<le> max 0 maxSwitches \<and>
       (\<forall>a. 0 \<le> retryCount s a \<and> retryCount s a \<le> 3) \<and>
       (ForceCacheBilling s \<longleftrightarrow> (\<exists>ev. ev \<in> set evs \<and> forces_cache_billing bound ev)))"
proof -
  have run: "failover_inv (fold failover_step evs s) \<and> MaxSwitches (fold failover_step evs s) = MaxSwitches s \<and>
      (ForceCacheBilling (fold failover_step evs s) \<longleftrightarrow> ForceCacheBilling s \<or>
        (\<exists>ev. ev \<in> set evs \<and> forces_cache_billing (hasBoundSession s) ev))"
    if "failover_inv s" for s
    using that by (induction evs arbitrary: s)
      (auto simp: failover_step_frame failover_step_inv)
  let ?s = "fold failover_step evs (NewState maxSwitches bound)"
  have new: "MaxSwitches (NewState maxSwitches bound) = maxSwitches" "\<not> ForceCacheBilling (NewState maxSwitches bound)"
      "hasBoundSession (NewState maxSwitches bound) = bound"
    by (simp_all add: NewState_def)
  from run [OF failover_inv_NewState, of maxSwitches bound] have "failover_inv ?s" "MaxSwitches ?s = maxSwitches"
      "ForceCacheBilling ?s \<longleftrightarrow> (\<exists>ev. ev \<in> set evs \<and> forces_cache_billing bound ev)"
    by (simp_all add: new)
  then show ?thesis unfolding Let_def failover_inv_def maxSameAccountRetries_def by simp
qed

text \<open>
  What one failure does: an account that may be retried is retried on itself while it
  has been retried less than three times, without being marked failed or counted as a switch;
  otherwise it joins the failed accounts, a retryable failure takes it out of scheduling, and
  the request switches accounts if the limit allows it and ends otherwise.
\<close>

theorem failover_decision:
  "HandleFailoverError canceled a p e s =
     (let retry = RetryableOnSameAccount e \<and> retryCount s a < 3;
          unschedule = (if RetryableOnSameAccount e then [TempUnscheduleRetryableError a e] else []);
          s1 = s\<lparr>LastFailoverErr := Some e,
                  ForceCacheBilling := ForceCacheBilling s \<or> hasBoundSession s \<or> ErrForceCacheBilling e\<rparr>;
          failed = s1\<lparr>FailedAccountIDs := insert a (FailedAccountIDs s)\<rparr>
      in if retry
         then (if canceled then Canceled else Continue, [Sleep 500000000],
               s1\<lparr>SameAccountRetryCount := (SameAccountRetryCount s)(a \<mapsto> retryCount s a + 1)\<rparr>)
         else if MaxSwitches s \<le> SwitchCount s then (Exhausted, unschedule, failed)
         else if p = ''antigravity''
         then (if canceled \<and> 0 < SwitchCount s then Canceled else Continue,
               unschedule @ [RecordAccountFailover p, Sleep (SwitchCount s * 1000000000)],
               failed\<lparr>SwitchCount := SwitchCount s + 1\<rparr>)
         else (Continue, unschedule @ [RecordAccountFailover p], failed\<lparr>SwitchCount := SwitchCount s + 1\<rparr>))"
  by (simp add: HandleFailoverError_def noteFailure_eq retrySameAccount_def switchAccount_def Let_def
      maxSameAccountRetries_def SleepWithContext_def SameAccountRetryDelay_def platformAntigravity_def
      zero_less_mult_iff not_le)

end
