(* ===== verification/Response_Capture.thy ===== *)
theory Response_Capture
  imports Prelude
begin

text \<open>
  The two response writers that a handler puts in front of the client while a request is being
  billed.  \<open>bufferedResponseWriter\<close> (\<open>internal/handler/queue_first_billing.go\<close>) holds a whole
  non-streaming response, in memory up to 1 MiB and in a spill file up to 64 MiB, until the
  charge is recorded.  \<open>terminalBufferedResponseWriter\<close>
  (\<open>internal/handler/streaming_billing_v2.go\<close>) passes the frames of an event stream on as
  they complete and holds back everything from the first terminal frame.

  The client's writer is gin's: the calls made on it are recorded in a trace, and
  \<open>wok calls data\<close> says whether a write of \<open>data\<close> after those calls succeeds; a write that
  fails is not recorded.  The results of file operations are part of the environment of each
  call.  \<open>gjson\<close> is a third-party JSON reader and is the parameter \<open>gj\<close>.
\<close>

datatype writer_call =
    SetHeader "(gostr \<times> gostr list) list"
  | WriteHeader int
  | WriteHeaderNow
  | WriteBytes gostr
  | FlushNow

primrec written :: "writer_call list \<Rightarrow> gostr list" where
  "written [] = []"
| "written (c # cs) = (case c of WriteBytes d \<Rightarrow> d # written cs | _ \<Rightarrow> written cs)"

lemma written_append [simp]: "written (xs @ ys) = written xs @ written ys"
  by (induction xs) (auto split: writer_call.splits)

lemma written_WriteBytes [simp]: "written (map WriteBytes fs) = fs"
  by (induction fs) auto

section \<open>Interface of a byte writer\<close>

text \<open>
  What the handlers rely on: as long as the writer is healthy, what it has accepted is the
  concatenation of what was written to it.
\<close>

locale byte_writer =
  fixes put :: "'d \<Rightarrow> 'w \<Rightarrow> 'w"
    and payload :: "'d \<Rightarrow> gostr"
    and accepted :: "'w \<Rightarrow> gostr"
    and wf :: "'w \<Rightarrow> bool"
    and healthy :: "'w \<Rightarrow> bool"
  assumes wf_put: "wf w \<Longrightarrow> wf (put d w)"
    and healthy_put: "wf w \<Longrightarrow> healthy (put d w) \<Longrightarrow> healthy w"
    and accepted_put: "wf w \<Longrightarrow> healthy (put d w) \<Longrightarrow> accepted (put d w) = accepted w @ payload d"
begin

lemma wf_run: "wf w \<Longrightarrow> wf (fold put ds w)"
  by (induction ds arbitrary: w) (auto intro: wf_put)

lemma healthy_run: "wf w \<Longrightarrow> healthy (fold put ds w) \<Longrightarrow> healthy w"
  by (induction ds arbitrary: w) (auto dest: healthy_put intro: wf_put)

lemma accepted_run:
  "wf w \<Longrightarrow> healthy (fold put ds w) \<Longrightarrow> accepted (fold put ds w) = accepted w @ concat (map payload ds)"
proof (induction ds arbitrary: w)
  case (Cons d ds)
  then have "healthy (put d w)" using healthy_run wf_put by simp
  with Cons show ?case by (simp add: accepted_put wf_put)
qed simp

end

section \<open>The buffered writer of queue-first billing\<close>

definition queueFirstBufferedResponseMemoryLimit :: nat where
  "queueFirstBufferedResponseMemoryLimit = 2 ^ 20"

definition queueFirstBufferedResponseMaxTotal :: nat where
  "queueFirstBufferedResponseMaxTotal = 64 * 2 ^ 20"

datatype capture_error = ErrBufferedResponseTooLarge | FileError | ClientError

text \<open>Outcomes of the file operations of one call; \<open>disk_write\<close> is the number of bytes after
  which a write to the spill file fails, if it does.\<close>

record disk =
  disk_create :: bool
  disk_copy :: bool
  disk_seek :: bool
  disk_write :: "nat option"

definition diskOK :: disk where
  "diskOK = \<lparr>disk_create = True, disk_copy = True, disk_seek = True, disk_write = None\<rparr>"

record bufferedResponseWriter =
  bw_header :: "(gostr \<times> gostr list) list"
  bw_body :: gostr
  bw_spill :: "gostr option"
  bw_status :: int
  bw_size :: int
  bw_headerWritten :: bool
  bw_pendingErr :: "capture_error option"

definition newBufferedResponseWriter :: "(gostr \<times> gostr list) list \<Rightarrow> bufferedResponseWriter" where
  "newBufferedResponseWriter header =
     \<lparr>bw_header = header, bw_body = [], bw_spill = None, bw_status = 200, bw_size = - 1,
      bw_headerWritten = False, bw_pendingErr = None\<rparr>"

definition bwWriteHeader :: "int \<Rightarrow> bufferedResponseWriter \<Rightarrow> bufferedResponseWriter" where
  "bwWriteHeader code w =
     (let w1 = (if 0 < code then w\<lparr>bw_status := code\<rparr> else w) in w1\<lparr>bw_headerWritten := True\<rparr>)"

definition bwWritten :: "bufferedResponseWriter \<Rightarrow> bool" where
  "bwWritten w = (0 \<le> bw_size w)"

definition bwWriteHeaderNow :: "bufferedResponseWriter \<Rightarrow> bufferedResponseWriter" where
  "bwWriteHeaderNow w = (if \<not> bwWritten w then w\<lparr>bw_size := 0\<rparr> else w)"

definition ensureSpill ::
    "disk \<Rightarrow> nat \<Rightarrow> bufferedResponseWriter \<Rightarrow> capture_error option \<times> bufferedResponseWriter" where
  "ensureSpill fs extra w =
     (if bw_spill w \<noteq> None then (None, w)
      else if length (bw_body w) + extra \<le> queueFirstBufferedResponseMemoryLimit then (None, w)
      else if \<not> disk_create fs then (Some FileError, w)
      else if bw_body w \<noteq> [] \<and> \<not> disk_copy fs then (Some FileError, w)
      else (None, w\<lparr>bw_body := [], bw_spill := Some (bw_body w)\<rparr>))"

definition bufferedBytes :: "disk \<Rightarrow> bufferedResponseWriter \<Rightarrow> nat" where
  "bufferedBytes fs w =
     (case bw_spill w of
        None \<Rightarrow> length (bw_body w)
      | Some f \<Rightarrow> if disk_seek fs then length f else length (bw_body w))"

definition setPending :: "capture_error \<Rightarrow> bufferedResponseWriter \<Rightarrow> bufferedResponseWriter" where
  "setPending e w = (if bw_pendingErr w = None then w\<lparr>bw_pendingErr := Some e\<rparr> else w)"

definition appendBody ::
    "disk \<Rightarrow> gostr \<Rightarrow> bufferedResponseWriter \<Rightarrow> nat \<times> capture_error option \<times> bufferedResponseWriter" where
  "appendBody fs data w =
     (if data = [] then (0, None, w)
      else if bufferedBytes fs w + length data > queueFirstBufferedResponseMaxTotal
      then (0, Some ErrBufferedResponseTooLarge, w\<lparr>bw_pendingErr := Some ErrBufferedResponseTooLarge\<rparr>)
      else case ensureSpill fs (length data) w of
        (Some e, w1) \<Rightarrow> (0, Some e, setPending e w1)
      | (None, w1) \<Rightarrow>
          (case bw_spill w1 of
             None \<Rightarrow> (length data, None, w1\<lparr>bw_body := bw_body w1 @ data\<rparr>)
           | Some f \<Rightarrow>
               (case disk_write fs of
                  None \<Rightarrow> (length data, None, w1\<lparr>bw_spill := Some (f @ data)\<rparr>)
                | Some k \<Rightarrow> (min k (length data), Some FileError,
                     setPending FileError (w1\<lparr>bw_spill := Some (f @ take k data)\<rparr>)))))"

definition bwWrite ::
    "disk \<Rightarrow> gostr \<Rightarrow> bufferedResponseWriter \<Rightarrow> nat \<times> capture_error option \<times> bufferedResponseWriter" where
  "bwWrite fs data w =
     (let w1 = bwWriteHeaderNow w
      in case appendBody fs data w1 of
           (n, err, w2) \<Rightarrow> (n, err, if 0 < n then w2\<lparr>bw_size := bw_size w2 + int n\<rparr> else w2))"

definition bwCleanup :: "bufferedResponseWriter \<Rightarrow> bufferedResponseWriter" where
  "bwCleanup w = w\<lparr>bw_body := [], bw_spill := None, bw_pendingErr := None\<rparr>"

text \<open>
  \<open>CommitTo\<close>: the error, the calls made on the target and the cleaned writer.  \<open>io.Copy\<close> hands
  the spill file over in pieces, recorded here as one write, and makes no write for an empty file.
\<close>

definition bwCommitTo ::
    "disk \<Rightarrow> (writer_call list \<Rightarrow> gostr \<Rightarrow> bool) \<Rightarrow> writer_call list \<Rightarrow> bufferedResponseWriter
     \<Rightarrow> capture_error option \<times> writer_call list \<times> bufferedResponseWriter" where
  "bwCommitTo fs wok calls w =
     (let (err, calls') =
        (case bw_pendingErr w of
           Some e \<Rightarrow> (Some e, calls)
         | None \<Rightarrow>
             (let c1 = calls @ [SetHeader (bw_header w)]
              in if \<not> bwWritten w \<and> \<not> bw_headerWritten w then (None, c1)
                 else let c2 = c1 @ [WriteHeader (bw_status w)]
                      in case bw_spill w of
                           None \<Rightarrow> if bw_body w = [] then (None, c2 @ [WriteHeaderNow])
                                   else if wok c2 (bw_body w) then (None, c2 @ [WriteBytes (bw_body w)])
                                   else (Some ClientError, c2)
                         | Some f \<Rightarrow> if \<not> disk_seek fs then (Some FileError, c2)
                                     else if f = [] then (None, c2)
                                     else if wok c2 f then (None, c2 @ [WriteBytes f])
                                     else (Some ClientError, c2)))
      in (err, calls', bwCleanup w))"

definition commitBufferedResponseOrWriteError ::
    "disk \<Rightarrow> (writer_call list \<Rightarrow> gostr \<Rightarrow> bool) \<Rightarrow> (writer_call list \<Rightarrow> writer_call list)
     \<Rightarrow> bufferedResponseWriter option \<Rightarrow> writer_call list \<Rightarrow> capture_error option \<times> writer_call list" where
  "commitBufferedResponseOrWriteError fs wok writeError capture calls =
     (case capture of
        None \<Rightarrow> (None, calls)
      | Some w \<Rightarrow>
          (case bwCommitTo fs wok calls w of
             (None, calls', _) \<Rightarrow> (None, calls')
           | (Some e, calls', _) \<Rightarrow>
               if e = ErrBufferedResponseTooLarge then (None, writeError calls') else (Some e, calls')))"

subsection \<open>What the writer holds\<close>

definition bw_contents :: "bufferedResponseWriter \<Rightarrow> gostr" where
  "bw_contents w = (case bw_spill w of None \<Rightarrow> bw_body w | Some f \<Rightarrow> f)"

definition bw_inv :: "bufferedResponseWriter \<Rightarrow> bool" where
  "bw_inv w \<longleftrightarrow> (bw_spill w \<noteq> None \<longrightarrow> bw_body w = []) \<and>
     length (bw_contents w) \<le> queueFirstBufferedResponseMaxTotal \<and>
     length (bw_body w) \<le> queueFirstBufferedResponseMemoryLimit \<and>
     (bwWritten w \<longrightarrow> bw_size w = int (length (bw_contents w))) \<and>
     (\<not> bwWritten w \<longrightarrow> bw_contents w = [] \<and> bw_size w = - 1)"

lemmas bw_defs = bwWrite_def appendBody_def ensureSpill_def bwWriteHeaderNow_def bufferedBytes_def
  bw_contents_def bwWritten_def setPending_def Let_def

lemma bw_inv_new [inv_intros]: "bw_inv (newBufferedResponseWriter h)"
  by (simp add: bw_inv_def newBufferedResponseWriter_def bw_contents_def bwWritten_def)

lemma bw_contents_upd [simp]:
  "bw_contents (w\<lparr>bw_size := n\<rparr>) = bw_contents w"
  "bw_contents (w\<lparr>bw_pendingErr := e\<rparr>) = bw_contents w"
  "bw_contents (bwWriteHeaderNow w) = bw_contents w"
  "bw_contents (bwWriteHeader c w) = bw_contents w"
  "bw_contents (setPending e2 w) = bw_contents w"
  by (simp_all add: bw_contents_def bwWriteHeaderNow_def bwWriteHeader_def setPending_def Let_def
      split: option.splits)

lemma setPending_pending [simp]: "bw_pendingErr (setPending e w) \<noteq> None"
  by (auto simp: setPending_def)

lemma ensureSpill_contents:
  "ensureSpill fs n w = (e, w') \<Longrightarrow> bw_contents w' = bw_contents w \<and> bw_pendingErr w' = bw_pendingErr w \<and>
     bw_size w' = bw_size w"
  by (auto simp: ensureSpill_def bw_contents_def split: if_splits option.splits)

text \<open>Without a file error a write is accepted whole or refused for the size limit.\<close>

lemma appendBody_ok:
  assumes "appendBody fs d w = (n, e, w')" "bw_pendingErr w' = None"
  shows "bw_contents w' = bw_contents w @ d \<and> n = length d \<and> e = None \<and> bw_pendingErr w = None \<and>
    bw_size w' = bw_size w"
proof (cases "ensureSpill fs (length d) w")
  case (Pair e1 w1)
  note f = ensureSpill_contents [OF Pair]
  show ?thesis
  proof (cases "bw_spill w1")
    case None
    then show ?thesis using assms f Pair
      by (auto simp: appendBody_def bw_contents_def split: if_splits option.splits)
  next
    case (Some g)
    then have "bw_contents w = g" using f by (simp add: bw_contents_def)
    with Some show ?thesis using assms f Pair
      by (auto simp: appendBody_def bw_contents_def [of w'] split: if_splits option.splits)
  qed
qed

definition bwPut :: "disk \<Rightarrow> gostr \<Rightarrow> bufferedResponseWriter \<Rightarrow> bufferedResponseWriter" where
  "bwPut fs d w = snd (snd (bwWrite fs d w))"

lemma bwPut_ok:
  assumes "bw_pendingErr (bwPut fs d w) = None"
  shows "bw_contents (bwPut fs d w) = bw_contents w @ d \<and> bw_pendingErr w = None"
proof -
  obtain n e w' where a: "appendBody fs d (bwWriteHeaderNow w) = (n, e, w')" by (metis prod_cases3)
  have "bwPut fs d w = (if 0 < n then w'\<lparr>bw_size := bw_size w' + int n\<rparr> else w')"
    by (simp add: bwPut_def bwWrite_def a)
  moreover have "bw_pendingErr (bwWriteHeaderNow w) = bw_pendingErr w" by (simp add: bwWriteHeaderNow_def)
  ultimately show ?thesis using appendBody_ok [OF a] assms by (auto split: if_splits)
qed

text \<open>The calls a handler makes on the writer.\<close>

datatype bw_op = BWrite disk gostr | BHeader int | BFlush

fun bw_step :: "bw_op \<Rightarrow> bufferedResponseWriter \<Rightarrow> bufferedResponseWriter" where
  "bw_step (BWrite fs d) w = bwPut fs d w"
| "bw_step (BHeader code) w = bwWriteHeader code w"
| "bw_step BFlush w = bwWriteHeaderNow w"

fun bw_payload :: "bw_op \<Rightarrow> gostr" where
  "bw_payload (BWrite fs d) = d"
| "bw_payload _ = []"

lemma bw_pendingErr_upd [simp]:
  "bw_pendingErr (bwWriteHeader c w) = bw_pendingErr w" "bw_pendingErr (bwWriteHeaderNow w) = bw_pendingErr w"
  by (simp_all add: bwWriteHeader_def bwWriteHeaderNow_def Let_def)

interpretation buffered: byte_writer bw_step bw_payload bw_contents "\<lambda>_. True" "\<lambda>w. bw_pendingErr w = None"
proof (unfold_locales, simp)
  show "bw_pendingErr w = None" if "bw_pendingErr (bw_step d w) = None" for d w
    using that by (cases d) (simp_all add: bwPut_ok)
  show "bw_contents (bw_step d w) = bw_contents w @ bw_payload d" if "bw_pendingErr (bw_step d w) = None" for d w
    using that by (cases d) (simp_all add: bwPut_ok)
qed

subsection \<open>The invariant\<close>

lemma bw_inv_bwWriteHeader [inv_intros]: "bw_inv w \<Longrightarrow> bw_inv (bwWriteHeader c w)"
  by (simp add: bw_inv_def bwWriteHeader_def bw_contents_def bwWritten_def Let_def split: option.splits)

lemma bw_inv_bwWriteHeaderNow [inv_intros]: "bw_inv w \<Longrightarrow> bw_inv (bwWriteHeaderNow w)"
  by (auto simp: bw_inv_def bwWriteHeaderNow_def bw_contents_def bwWritten_def split: option.splits)

lemma ensureSpill_body:
  "ensureSpill fs n w = (None, w') \<Longrightarrow>
     (bw_spill w' = None \<longrightarrow> length (bw_body w') + n \<le> queueFirstBufferedResponseMemoryLimit) \<and>
     (bw_spill w' \<noteq> None \<longrightarrow> bw_spill w = None \<longrightarrow> bw_body w' = []) \<and>
     (bw_spill w \<noteq> None \<longrightarrow> w' = w)"
  by (auto simp: ensureSpill_def split: if_splits)

lemma bufferedBytes_contents: "disk_seek fs \<Longrightarrow> bufferedBytes fs w = length (bw_contents w)"
  by (simp add: bufferedBytes_def bw_contents_def split: option.splits)

lemma bw_contents_spill: "bw_spill w = Some f \<Longrightarrow> bw_contents w = f"
  by (simp add: bw_contents_def)

lemma bw_contents_body: "bw_spill w = None \<Longrightarrow> bw_contents w = bw_body w"
  by (simp add: bw_contents_def)

lemma setPending_frame [simp]:
  "bw_spill (setPending e w) = bw_spill w" "bw_body (setPending e w) = bw_body w"
  "bw_size (setPending e w) = bw_size w" "bwWritten (setPending e w) = bwWritten w"
  by (simp_all add: setPending_def bwWritten_def)

lemma bw_inv_setPending [inv_intros]: "bw_inv w \<Longrightarrow> bw_inv (setPending e w)"
  by (simp add: bw_inv_def)

lemma bw_inv_ensureSpill [inv_intros]:
  assumes "bw_inv w" "ensureSpill fs n w = (e, w')"
  shows "bw_inv w'"
  using assms ensureSpill_contents [OF assms(2)]
  by (auto simp: bw_inv_def ensureSpill_def bwWritten_def split: if_splits)

text \<open>Appending to a written writer extends its contents by the bytes it reports.\<close>

lemma appendBody_extends:
  assumes "disk_seek fs" "bw_inv w" "appendBody fs d w = (n, e, w')"
  shows "bw_contents w' = bw_contents w @ take n d \<and> n \<le> length d \<and> bw_size w' = bw_size w \<and>
    (bw_spill w' \<noteq> None \<longrightarrow> bw_body w' = []) \<and> length (bw_contents w') \<le> queueFirstBufferedResponseMaxTotal \<and>
    length (bw_body w') \<le> queueFirstBufferedResponseMemoryLimit"
proof (cases "d = [] \<or> bufferedBytes fs w + length d > queueFirstBufferedResponseMaxTotal")
  case True
  then show ?thesis using assms by (auto simp: appendBody_def bw_inv_def split: if_splits)
next
  case False
  then have room: "length (bw_contents w) + length d \<le> queueFirstBufferedResponseMaxTotal"
    using bufferedBytes_contents [OF assms(1)] by simp
  obtain e1 w1 where es: "ensureSpill fs (length d) w = (e1, w1)" by (metis prod.exhaust)
  note same = ensureSpill_contents [OF es] and inv1 = bw_inv_ensureSpill [OF assms(2) es]
  show ?thesis
  proof (cases e1)
    case (Some x)
    with assms(3) False es have "n = 0" "w' = setPending x w1" by (simp_all add: appendBody_def)
    with same inv1 show ?thesis by (simp add: bw_inv_def)
  next
    case None
    with es have body: "bw_spill w1 = None \<Longrightarrow> length (bw_body w1) + length d \<le> queueFirstBufferedResponseMemoryLimit"
      using ensureSpill_body by blast
    show ?thesis
    proof (cases "bw_spill w1")
      case None
      then show ?thesis using assms(3) False es \<open>e1 = None\<close> same body room
        by (auto simp: appendBody_def bw_contents_body [of w1] bw_contents_body)
    next
      case (Some f)
      with same inv1 have "bw_contents w = f" "bw_body w1 = []" by (auto simp: bw_contents_spill bw_inv_def)
      then show ?thesis using assms(3) False es \<open>e1 = None\<close> same room Some
        by (cases "disk_write fs") (auto simp: appendBody_def bw_contents_spill min_def)
    qed
  qed
qed

lemma bw_inv_bwPut [inv_intros]:
  assumes "disk_seek fs" "bw_inv w"
  shows "bw_inv (bwPut fs d w)"
proof -
  let ?w = "bwWriteHeaderNow w"
  have inv: "bw_inv ?w" by (rule bw_inv_bwWriteHeaderNow [OF assms(2)])
  have written: "bwWritten ?w" by (simp add: bwWriteHeaderNow_def bwWritten_def)
  obtain n e w' where a: "appendBody fs d ?w = (n, e, w')" by (metis prod_cases3)
  have "bwPut fs d w = (if 0 < n then w'\<lparr>bw_size := bw_size w' + int n\<rparr> else w')"
    by (simp add: bwPut_def bwWrite_def a)
  with appendBody_extends [OF assms(1) inv a] inv written show ?thesis
    by (auto simp: bw_inv_def bwWritten_def)
qed

lemma ensureSpill_diskOK: "fst (ensureSpill diskOK n w) = None"
  by (simp add: ensureSpill_def diskOK_def)

lemma appendBody_diskOK:
  "bw_pendingErr (snd (snd (appendBody diskOK d w))) =
     (if d \<noteq> [] \<and> length (bw_contents w) + length d > queueFirstBufferedResponseMaxTotal
      then Some ErrBufferedResponseTooLarge else bw_pendingErr w)"
proof (cases "ensureSpill diskOK (length d) w")
  case (Pair e w1)
  then have "e = None" using ensureSpill_diskOK [of "length d" w] by simp
  moreover have "disk_seek diskOK" "disk_write diskOK = None" by (simp_all add: diskOK_def)
  ultimately show ?thesis using Pair ensureSpill_contents [OF Pair]
    by (simp add: appendBody_def bufferedBytes_contents split: option.split)
qed

lemma bwPut_appendBody:
  "bw_pendingErr (bwPut fs d w) = bw_pendingErr (snd (snd (appendBody fs d (bwWriteHeaderNow w))))"
  "bw_header (bwPut fs d w) = bw_header (snd (snd (appendBody fs d (bwWriteHeaderNow w))))"
  "bw_status (bwPut fs d w) = bw_status (snd (snd (appendBody fs d (bwWriteHeaderNow w))))"
  "bw_headerWritten (bwPut fs d w) = bw_headerWritten (snd (snd (appendBody fs d (bwWriteHeaderNow w))))"
  by (simp_all add: bwPut_def bwWrite_def split_beta Let_def)

lemma bwPut_diskOK:
  "bw_pendingErr (bwPut diskOK d w) =
     (if d \<noteq> [] \<and> length (bw_contents w) + length d > queueFirstBufferedResponseMaxTotal
      then Some ErrBufferedResponseTooLarge else bw_pendingErr w)"
  by (simp add: bwPut_appendBody appendBody_diskOK)

lemma appendBody_frame:
  "bw_header (snd (snd (appendBody fs d w))) = bw_header w \<and> bw_status (snd (snd (appendBody fs d w))) = bw_status w \<and>
   bw_headerWritten (snd (snd (appendBody fs d w))) = bw_headerWritten w \<and>
   bw_size (snd (snd (appendBody fs d w))) = bw_size w"
proof (cases "ensureSpill fs (length d) w")
  case (Pair e w1)
  then have "bw_header w1 = bw_header w \<and> bw_status w1 = bw_status w \<and> bw_headerWritten w1 = bw_headerWritten w \<and>
      bw_size w1 = bw_size w"
    by (auto simp: ensureSpill_def split: if_splits)
  with Pair show ?thesis
    by (auto simp: appendBody_def setPending_def split: option.split)
qed

lemma bwPut_frame [simp]:
  "bw_header (bwPut fs d w) = bw_header w" "bw_status (bwPut fs d w) = bw_status w"
  "bw_headerWritten (bwPut fs d w) = bw_headerWritten w"
  using appendBody_frame [of fs d "bwWriteHeaderNow w"]
  by (simp_all add: bwPut_appendBody) (simp_all add: bwWriteHeaderNow_def)

lemma bwPut_written [simp]: "bwWritten (bwPut fs d w)"
proof -
  have "bw_size (snd (snd (appendBody fs d (bwWriteHeaderNow w)))) = bw_size (bwWriteHeaderNow w)"
    using appendBody_frame by blast
  moreover have "0 \<le> bw_size (bwWriteHeaderNow w)" by (simp add: bwWriteHeaderNow_def bwWritten_def)
  ultimately show ?thesis by (simp add: bwPut_def bwWrite_def bwWritten_def split_beta Let_def)
qed

fun bw_clean :: "bw_op \<Rightarrow> bool" where
  "bw_clean (BWrite fs d) = (fs = diskOK)"
| "bw_clean _ = True"

lemma bw_inv_step [inv_intros]: "bw_clean oper \<Longrightarrow> bw_inv w \<Longrightarrow> bw_inv (bw_step oper w)"
  by (cases oper) (auto intro!: inv_intros simp: diskOK_def)

lemma bw_inv_run [inv_intros]:
  "list_all bw_clean ops \<Longrightarrow> bw_inv w \<Longrightarrow> bw_inv (fold bw_step ops w)"
  by (induction ops arbitrary: w) (auto intro: bw_inv_step)

lemma bw_step_fits:
  assumes "bw_clean oper" "bw_inv w" "bw_pendingErr w = None"
    and "length (bw_contents w) + length (bw_payload oper) \<le> queueFirstBufferedResponseMaxTotal"
  shows "bw_pendingErr (bw_step oper w) = None"
  using assms by (cases oper) (auto simp: bwPut_diskOK)

lemma bw_run_pending:
  assumes "list_all bw_clean ops" "bw_inv w" "bw_pendingErr w = None"
  shows "bw_pendingErr (fold bw_step ops w) = None \<longleftrightarrow>
    length (bw_contents w) + length (concat (map bw_payload ops)) \<le> queueFirstBufferedResponseMaxTotal"
proof
  assume h: "bw_pendingErr (fold bw_step ops w) = None"
  from bw_inv_run [OF assms(1,2)] buffered.accepted_run [OF TrueI h]
  show "length (bw_contents w) + length (concat (map bw_payload ops)) \<le> queueFirstBufferedResponseMaxTotal"
    by (simp add: bw_inv_def)
next
  assume "length (bw_contents w) + length (concat (map bw_payload ops)) \<le> queueFirstBufferedResponseMaxTotal"
  with assms show "bw_pendingErr (fold bw_step ops w) = None"
  proof (induction ops arbitrary: w)
    case (Cons oper ops)
    then have ok: "bw_pendingErr (bw_step oper w) = None" by (intro bw_step_fits) auto
    then have "bw_contents (bw_step oper w) = bw_contents w @ bw_payload oper" by (rule buffered.accepted_put [OF TrueI])
    moreover have "bw_inv (bw_step oper w)" using Cons.prems by (intro bw_inv_step) auto
    ultimately show ?case using Cons.IH [of "bw_step oper w"] Cons.prems ok by simp
  qed simp
qed

lemma bw_clean_error:
  assumes "list_all bw_clean ops" "bw_pendingErr w \<in> {None, Some ErrBufferedResponseTooLarge}"
  shows "bw_pendingErr (fold bw_step ops w) \<in> {None, Some ErrBufferedResponseTooLarge}"
  using assms
proof (induction ops arbitrary: w)
  case (Cons oper ops)
  have "bw_pendingErr (bw_step oper w) \<in> {None, Some ErrBufferedResponseTooLarge}"
    using Cons.prems
    by (cases oper) (auto simp: bwPut_diskOK)
  with Cons show ?case by simp
qed simp

lemma appendBody_spill:
  assumes "bw_spill w \<noteq> Some []"
  shows "bw_spill (snd (snd (appendBody diskOK d w))) \<noteq> Some []"
proof (cases "ensureSpill diskOK (length d) w")
  case (Pair e w1)
  then have "e = None" using ensureSpill_diskOK [of "length d" w] by simp
  with Pair assms show ?thesis by (auto simp: appendBody_def diskOK_def split: option.split)
qed

lemma bw_spill_run:
  assumes "list_all bw_clean ops" "bw_spill w \<noteq> Some []"
  shows "bw_spill (fold bw_step ops w) \<noteq> Some []"
  using assms
proof (induction ops arbitrary: w)
  case (Cons oper ops)
  have now: "bw_spill (bwWriteHeaderNow w) = bw_spill w" by (simp add: bwWriteHeaderNow_def)
  have "bw_spill (bw_step oper w) \<noteq> Some []"
  proof (cases oper)
    case (BWrite fs d)
    then show ?thesis using Cons.prems appendBody_spill [of "bwWriteHeaderNow w" d] now
      by (simp add: bwPut_def bwWrite_def split_beta Let_def)
  qed (use Cons.prems now in \<open>simp_all add: bwWriteHeader_def Let_def\<close>)
  with Cons show ?case by simp
qed simp

text \<open>The status that the sequence of calls leaves, and whether it makes the response written.\<close>

fun bw_status_of :: "int \<Rightarrow> bw_op list \<Rightarrow> int" where
  "bw_status_of st [] = st"
| "bw_status_of st (BHeader code # ops) = bw_status_of (if 0 < code then code else st) ops"
| "bw_status_of st (_ # ops) = bw_status_of st ops"

lemma bw_run_frame:
  "bw_header (fold bw_step ops w) = bw_header w"
  "bw_status (fold bw_step ops w) = bw_status_of (bw_status w) ops"
  "(bwWritten (fold bw_step ops w) \<or> bw_headerWritten (fold bw_step ops w)) =
     (ops \<noteq> [] \<or> bwWritten w \<or> bw_headerWritten w)"
proof (induction ops arbitrary: w)
  case (Cons oper ops)
  { case 1 show ?case using Cons by (cases oper) (simp_all add: bwWriteHeader_def bwWriteHeaderNow_def Let_def) }
  { case 2 show ?case using Cons by (cases oper) (simp_all add: bwWriteHeader_def bwWriteHeaderNow_def Let_def) }
  { case 3 show ?case using Cons bwPut_written [unfolded bwWritten_def]
      by (cases oper) (auto simp: bwWriteHeader_def bwWriteHeaderNow_def bwWritten_def Let_def) }
qed simp_all

section \<open>The terminal writer of streaming billing\<close>

datatype streamingTerminalMode = ModeResponses | ModeAnthropic | ModeChatCompletions | ModeGeminiRaw | ModeOther gostr

datatype gjson_type = JNull | JFalse | JNumber | JTrue | JString | JRaw

datatype gjson_result = JMissing | JValue gjson_type gostr

fun gj_string :: "gjson_result \<Rightarrow> gostr" where
  "gj_string JMissing = []"
| "gj_string (JValue t s) = s"

fun gj_present :: "gjson_result \<Rightarrow> bool" where
  "gj_present JMissing = False"
| "gj_present (JValue t s) = (t \<noteq> JNull)"

type_synonym gjson_get = "gostr \<Rightarrow> gostr \<Rightarrow> gjson_result"

definition terminalCaptureMaxPendingBytes :: nat where
  "terminalCaptureMaxPendingBytes = 4 * 2 ^ 20"

abbreviation "CR \<equiv> CHR 0x0D"
abbreviation "LF \<equiv> CHR 0x0A"

subsection \<open>Frames\<close>

text \<open>The loop of \<open>nextSSEFrame\<close>: the end of the first frame, searching from index \<open>i\<close>.\<close>

function sseScan :: "gostr \<Rightarrow> nat \<Rightarrow> nat option" where
  "sseScan d i =
     (if i + 1 < length d then
        if i + 3 < length d \<and> d ! i = CR \<and> d ! (i + 1) = LF \<and> d ! (i + 2) = CR \<and> d ! (i + 3) = LF then Some (i + 4)
        else if i + 2 < length d \<and> ((d ! i = CR \<and> d ! (i + 1) = LF \<and> d ! (i + 2) = LF) \<or>
                                   (d ! i = LF \<and> d ! (i + 1) = CR \<and> d ! (i + 2) = LF)) then Some (i + 3)
        else if d ! i = LF \<and> d ! (i + 1) = LF then Some (i + 2)
        else sseScan d (i + 1)
      else None)"
  by pat_completeness auto
termination by (relation "measure (\<lambda>(d, i). length d - i)") auto

declare sseScan.simps [simp del]

definition nextSSEFrame :: "gostr \<Rightarrow> bool \<Rightarrow> (gostr \<times> gostr) option" where
  "nextSSEFrame d final =
     (if d = [] then None
      else case sseScan d 0 of
             Some n \<Rightarrow> Some (take n d, drop n d)
           | None \<Rightarrow> if \<not> final then None else Some (d, []))"

fun crlf_to_lf :: "gostr \<Rightarrow> gostr" where
  "crlf_to_lf (a # b # s) = (if a = CR \<and> b = LF then LF # crlf_to_lf s else a # crlf_to_lf (b # s))"
| "crlf_to_lf s = s"

fun split_lines :: "gostr \<Rightarrow> gostr list" where
  "split_lines [] = [[]]"
| "split_lines (c # s) = (if c = LF then [] # split_lines s else (c # hd (split_lines s)) # tl (split_lines s))"

fun join_lines :: "gostr list \<Rightarrow> gostr" where
  "join_lines [] = []"
| "join_lines [l] = l"
| "join_lines (l # ls) = l @ LF # join_lines ls"

fun sseLines :: "gostr list \<Rightarrow> gostr \<Rightarrow> gostr list \<Rightarrow> gostr \<times> gostr list" where
  "sseLines [] eventName dataLines = (eventName, dataLines)"
| "sseLines (l # ls) eventName dataLines =
     (let trimmed = trim_space l
      in case cut_prefix trimmed ''event:'' of
           Some v \<Rightarrow> sseLines ls (trim_space v) dataLines
         | None \<Rightarrow>
             (case cut_prefix trimmed ''data:'' of
                Some v \<Rightarrow> sseLines ls eventName (dataLines @ [trim_space v])
              | None \<Rightarrow> sseLines ls eventName dataLines))"

definition parseSSEFrame :: "gostr \<Rightarrow> gostr \<times> gostr" where
  "parseSSEFrame frame =
     (if frame = [] then ([], [])
      else case sseLines (split_lines (crlf_to_lf frame)) [] [] of (e, ds) \<Rightarrow> (e, join_lines ds))"

definition responsesTerminalFrame :: "gjson_get \<Rightarrow> gostr \<Rightarrow> bool" where
  "responsesTerminalFrame gj data =
     (let trimmed = trim_space data
      in if trimmed = [] then False
         else if trimmed = ''[DONE]'' then True
         else gj_string (gj trimmed ''type'') \<in>
           {''response.completed'', ''response.done'', ''response.failed'', ''response.incomplete'',
            ''response.cancelled'', ''response.canceled''})"

definition anthropicTerminalFrame :: "gjson_get \<Rightarrow> gostr \<Rightarrow> gostr \<Rightarrow> bool" where
  "anthropicTerminalFrame gj eventName data =
     (let trimmed = trim_space data;
          eventType = gj_string (gj trimmed ''type'')
      in if trimmed = ''[DONE]'' then True
         else if equal_fold (trim_space eventName) ''message_stop'' then True
         else if eventType = ''message_stop'' then True
         else if equal_fold (trim_space eventName) ''message_delta'' \<or> eventType = ''message_delta''
         then let stopReason = gj trimmed ''delta.stop_reason''
              in gj_present stopReason \<and> trim_space (gj_string stopReason) \<noteq> []
         else False)"

definition chatCompletionsTerminalFrame :: "gjson_get \<Rightarrow> gostr \<Rightarrow> bool" where
  "chatCompletionsTerminalFrame gj data =
     (let trimmed = trim_space data
      in if trimmed = [] then False
         else if trimmed = ''[DONE]'' then True
         else gj_present (gj trimmed ''choices.0.finish_reason''))"

definition geminiRawTerminalFrame :: "gostr \<Rightarrow> bool" where
  "geminiRawTerminalFrame data = (trim_space data = ''[DONE]'')"

definition sseFrameStartsTerminal :: "gjson_get \<Rightarrow> streamingTerminalMode \<Rightarrow> gostr \<Rightarrow> bool" where
  "sseFrameStartsTerminal gj mode frame =
     (case parseSSEFrame frame of (eventName, data) \<Rightarrow>
        (case mode of
           ModeResponses \<Rightarrow> responsesTerminalFrame gj data
         | ModeAnthropic \<Rightarrow> anthropicTerminalFrame gj eventName data
         | ModeChatCompletions \<Rightarrow> chatCompletionsTerminalFrame gj data
         | ModeGeminiRaw \<Rightarrow> geminiRawTerminalFrame data
         | ModeOther m \<Rightarrow> False))"

subsection \<open>The scan finds the shortest prefix that ends an event\<close>

text \<open>The specification of a frame: an event ends at the first empty line, written LF LF or LF CR LF.\<close>

definition ends_frame :: "gostr \<Rightarrow> nat \<Rightarrow> bool" where
  "ends_frame d n \<longleftrightarrow> 2 \<le> n \<and> n \<le> length d \<and> d ! (n - 1) = LF \<and>
     (d ! (n - 2) = LF \<or> 3 \<le> n \<and> d ! (n - 2) = CR \<and> d ! (n - 3) = LF)"

definition is_frame :: "gostr \<Rightarrow> bool" where
  "is_frame f \<longleftrightarrow> ends_frame f (length f) \<and> (\<forall>n < length f. \<not> ends_frame f n)"

lemma ends_frame_append: "n \<le> length d \<Longrightarrow> ends_frame (d @ e) n = ends_frame d n"
  by (auto simp: ends_frame_def nth_append)

definition lf_lf :: "gostr \<Rightarrow> nat \<Rightarrow> bool" where
  "lf_lf d i \<longleftrightarrow> i + 1 < length d \<and> d ! i = LF \<and> d ! (i + 1) = LF"

definition lf_cr_lf :: "gostr \<Rightarrow> nat \<Rightarrow> bool" where
  "lf_cr_lf d i \<longleftrightarrow> i + 2 < length d \<and> d ! i = LF \<and> d ! (i + 1) = CR \<and> d ! (i + 2) = LF"

lemma ends_frame_iff: "ends_frame d n \<longleftrightarrow> (\<exists>i. n = i + 2 \<and> lf_lf d i) \<or> (\<exists>i. n = i + 3 \<and> lf_cr_lf d i)"
proof
  assume "ends_frame d n"
  then have "lf_lf d (n - 2) \<and> n = n - 2 + 2 \<or> lf_cr_lf d (n - 3) \<and> n = n - 3 + 3"
    by (auto simp: ends_frame_def lf_lf_def lf_cr_lf_def numeral_eq_Suc Suc_diff_Suc)
  then show "(\<exists>i. n = i + 2 \<and> lf_lf d i) \<or> (\<exists>i. n = i + 3 \<and> lf_cr_lf d i)" by blast
qed (auto simp: ends_frame_def lf_lf_def lf_cr_lf_def numeral_eq_Suc)

definition first_end :: "gostr \<Rightarrow> nat \<Rightarrow> bool" where
  "first_end d n \<longleftrightarrow> ends_frame d n \<and> (\<forall>m < n. \<not> ends_frame d m)"

definition none_before :: "gostr \<Rightarrow> nat \<Rightarrow> bool" where
  "none_before d i \<longleftrightarrow> (\<forall>j < i. \<not> lf_lf d j \<and> \<not> lf_cr_lf d j)"

lemma no_end_before:
  assumes "none_before d i" "m < n" "\<forall>j. i \<le> j \<and> j + 2 < n \<longrightarrow> \<not> lf_lf d j" "\<forall>j. i \<le> j \<and> j + 3 < n \<longrightarrow> \<not> lf_cr_lf d j"
  shows "\<not> ends_frame d m"
proof
  assume "ends_frame d m"
  then obtain j where "m = j + 2 \<and> lf_lf d j \<or> m = j + 3 \<and> lf_cr_lf d j" by (auto simp: ends_frame_iff)
  then show False using assms by (cases "j < i") (auto simp: none_before_def)
qed

lemma first_end_crlf_crlf:
  assumes "none_before d i" "lf_cr_lf d (i + 1)" "d ! i = CR"
  shows "first_end d (i + 4)"
proof -
  have "\<not> ends_frame d m" if "m < i + 4" for m
  proof (rule no_end_before [OF assms(1) that]; intro allI impI)
    fix j
    { assume "i \<le> j \<and> j + 2 < i + 4"
      then have "j = i \<or> j = i + 1" by auto
      with assms(2,3) show "\<not> lf_lf d j" by (auto simp: lf_lf_def lf_cr_lf_def) }
    { assume "i \<le> j \<and> j + 3 < i + 4"
      then have "j = i" by auto
      with assms(3) show "\<not> lf_cr_lf d j" by (auto simp: lf_cr_lf_def) }
  qed
  with assms(2) show ?thesis by (auto simp: first_end_def ends_frame_iff)
qed

lemma first_end_three:
  assumes "none_before d i" "lf_lf d (i + 1) \<or> lf_cr_lf d i" "\<not> lf_lf d i"
  shows "first_end d (i + 3)"
proof -
  have "\<not> ends_frame d m" if "m < i + 3" for m
    using assms(3) by (intro no_end_before [OF assms(1) that]) (auto simp: less_Suc_eq numeral_eq_Suc order_le_less)
  with assms(2) show ?thesis by (auto simp: first_end_def ends_frame_iff)
qed

lemma first_end_two:
  assumes "none_before d i" "lf_lf d i"
  shows "first_end d (i + 2)"
proof -
  have "\<not> ends_frame d m" if "m < i + 2" for m
    by (rule no_end_before [OF assms(1) that]) auto
  with assms(2) show ?thesis by (auto simp: first_end_def ends_frame_iff)
qed

lemma sseScan_sound:
  assumes "none_before d i"
  shows "case sseScan d i of Some n \<Rightarrow> first_end d n | None \<Rightarrow> \<forall>m. \<not> ends_frame d m"
  using assms
proof (induction d i rule: sseScan.induct)
  case (1 d i)
  let ?a = "i + 3 < length d \<and> d ! i = CR \<and> d ! (i + 1) = LF \<and> d ! (i + 2) = CR \<and> d ! (i + 3) = LF"
    and ?b = "i + 2 < length d \<and> ((d ! i = CR \<and> d ! (i + 1) = LF \<and> d ! (i + 2) = LF) \<or>
                                   (d ! i = LF \<and> d ! (i + 1) = CR \<and> d ! (i + 2) = LF))"
  consider (stop) "\<not> i + 1 < length d" | (four) "i + 1 < length d" ?a | (three) "i + 1 < length d" "\<not> ?a" ?b
    | (two) "i + 1 < length d" "\<not> ?a" "\<not> ?b" "lf_lf d i" | (skip) "i + 1 < length d" "\<not> ?a" "\<not> ?b" "\<not> lf_lf d i"
    by blast
  then show ?case
  proof cases
    case stop
    then have "\<not> ends_frame d m" for m
      by (intro no_end_before [OF 1(2), of m "Suc m"]) (auto simp: lf_lf_def lf_cr_lf_def)
    with stop show ?thesis by (simp add: sseScan.simps)
  next
    case four
    then have "lf_cr_lf d (i + 1)" by (auto simp: lf_cr_lf_def numeral_eq_Suc)
    moreover from four have "sseScan d i = Some (i + 4)" by (subst sseScan.simps) simp
    ultimately show ?thesis using first_end_crlf_crlf [OF 1(2)] four by simp
  next
    case three
    then have "lf_lf d (i + 1) \<or> lf_cr_lf d i" "\<not> lf_lf d i" by (auto simp: lf_cr_lf_def lf_lf_def numeral_eq_Suc)
    moreover from three have "sseScan d i = Some (i + 3)" by (subst sseScan.simps) (simp add: three(2,3))
    ultimately show ?thesis using first_end_three [OF 1(2)] by simp
  next
    case two
    then have "sseScan d i = Some (i + 2)" by (subst sseScan.simps) (simp add: lf_lf_def)
    with first_end_two [OF 1(2) two(4)] show ?thesis by simp
  next
    case skip
    then have no: "\<not> (d ! i = LF \<and> d ! (i + 1) = LF)" "\<not> lf_cr_lf d i" by (auto simp: lf_lf_def lf_cr_lf_def)
    have "none_before d (i + 1)"
      using 1(2) skip(4) no(2) by (auto simp: none_before_def less_Suc_eq)
    from 1(1) [OF skip(1-3) no(1) this] skip no show ?thesis
      by (subst sseScan.simps) (simp only: if_False if_True)
  qed
qed

lemma first_end_unique: "first_end d m \<Longrightarrow> first_end d n \<Longrightarrow> m = n"
  by (auto simp: first_end_def) (metis nat_neq_iff)

lemma first_end_frame: "first_end (f @ r) (length f) \<longleftrightarrow> is_frame f"
  by (auto simp: first_end_def is_frame_def ends_frame_append)

lemma is_frame_not_Nil: "is_frame f \<Longrightarrow> f \<noteq> []"
  by (auto simp: is_frame_def ends_frame_def)

text \<open>A complete frame is cut off the front, whatever follows it; otherwise nothing is.\<close>

lemma nextSSEFrame_frame: "is_frame f \<Longrightarrow> nextSSEFrame (f @ r) final = Some (f, r)"
proof -
  assume f: "is_frame f"
  then have e: "first_end (f @ r) (length f)" by (simp add: first_end_frame)
  have "sseScan (f @ r) 0 = Some (length f)"
  proof (cases "sseScan (f @ r) 0")
    case None
    with sseScan_sound [of "f @ r" 0] e show ?thesis by (auto simp: none_before_def first_end_def)
  next
    case (Some n)
    with sseScan_sound [of "f @ r" 0] have "first_end (f @ r) n" by (auto simp: none_before_def)
    with first_end_unique [OF e] Some show ?thesis by simp
  qed
  with is_frame_not_Nil [OF f] show ?thesis by (simp add: nextSSEFrame_def)
qed

lemma nextSSEFrame_incomplete:
  assumes "\<forall>m. \<not> ends_frame d m"
  shows "nextSSEFrame d False = None" "d \<noteq> [] \<Longrightarrow> nextSSEFrame d True = Some (d, [])"
  using sseScan_sound [of d 0] assms
  by (auto simp: nextSSEFrame_def none_before_def first_end_def split: option.splits)

lemma nextSSEFrame_shorter: "nextSSEFrame d final = Some (f, r) \<Longrightarrow> length r < length d"
  using sseScan_sound [of d 0]
  by (auto simp: nextSSEFrame_def none_before_def first_end_def ends_frame_def split: option.splits if_splits)

subsection \<open>The writer\<close>

record terminalWriter =
  tw_mode :: streamingTerminalMode
  tw_pending :: gostr
  tw_terminal :: gostr
  tw_terminalStarted :: bool
  tw_calls :: "writer_call list"

type_synonym write_oracle = "writer_call list \<Rightarrow> gostr \<Rightarrow> bool"

definition newTerminalBufferedResponseWriter :: "streamingTerminalMode \<Rightarrow> writer_call list \<Rightarrow> terminalWriter" where
  "newTerminalBufferedResponseWriter mode calls =
     \<lparr>tw_mode = mode, tw_pending = [], tw_terminal = [], tw_terminalStarted = False, tw_calls = calls\<rparr>"

definition originalWrite :: "write_oracle \<Rightarrow> gostr \<Rightarrow> terminalWriter \<Rightarrow> bool \<times> terminalWriter" where
  "originalWrite wok d w =
     (if wok (tw_calls w) d then (True, w\<lparr>tw_calls := tw_calls w @ [WriteBytes d]\<rparr>) else (False, w))"

lemma originalWrite_pending [simp]: "tw_pending (snd (originalWrite wok d w)) = tw_pending w"
  by (simp add: originalWrite_def)

function processPending :: "gjson_get \<Rightarrow> write_oracle \<Rightarrow> bool \<Rightarrow> terminalWriter \<Rightarrow> bool \<times> terminalWriter" where
  "processPending gj wok final w =
     (case nextSSEFrame (tw_pending w) final of
        None \<Rightarrow> (True, w)
      | Some (frame, rest) \<Rightarrow>
          (let w1 = w\<lparr>tw_pending := rest\<rparr>
           in if tw_terminalStarted w1 \<or> sseFrameStartsTerminal gj (tw_mode w1) frame
              then processPending gj wok final
                     (w1\<lparr>tw_terminalStarted := True, tw_terminal := tw_terminal w1 @ frame\<rparr>)
              else if fst (originalWrite wok frame w1)
                   then processPending gj wok final (snd (originalWrite wok frame w1))
                   else originalWrite wok frame w1))"
  by pat_completeness auto
termination
  by (relation "measure (\<lambda>(gj, wok, final, w). length (tw_pending w))") (auto dest: nextSSEFrame_shorter)

declare processPending.simps [simp del]

definition flushAllToOriginal :: "write_oracle \<Rightarrow> terminalWriter \<Rightarrow> bool \<times> terminalWriter" where
  "flushAllToOriginal wok w =
     (let (ok1, w1) =
        (if tw_pending w \<noteq> [] then
           (case originalWrite wok (tw_pending w) w of
              (True, w') \<Rightarrow> (True, w'\<lparr>tw_pending := []\<rparr>) | (False, w') \<Rightarrow> (False, w'))
         else (True, w))
      in if \<not> ok1 then (False, w1)
         else let (ok2, w2) =
                (if tw_terminal w1 \<noteq> [] then
                   (case originalWrite wok (tw_terminal w1) w1 of
                      (True, w') \<Rightarrow> (True, w'\<lparr>tw_terminal := []\<rparr>) | (False, w') \<Rightarrow> (False, w'))
                 else (True, w1))
              in if \<not> ok2 then (False, w2) else (True, w2\<lparr>tw_terminalStarted := False\<rparr>))"

text \<open>\<open>Write\<close>: the number of bytes reported, whether it succeeded, and the writer.\<close>

definition twWrite :: "gjson_get \<Rightarrow> write_oracle \<Rightarrow> gostr \<Rightarrow> terminalWriter \<Rightarrow> nat \<times> bool \<times> terminalWriter" where
  "twWrite gj wok data w =
     (if data = [] then (0, True, w)
      else if tw_terminalStarted w then (length data, True, w\<lparr>tw_terminal := tw_terminal w @ data\<rparr>)
      else let w1 = w\<lparr>tw_pending := tw_pending w @ data\<rparr>
           in if length (tw_pending w1) > terminalCaptureMaxPendingBytes
              then (case flushAllToOriginal wok w1 of
                      (True, w2) \<Rightarrow> (length data, True, w2) | (False, w2) \<Rightarrow> (0, False, w2))
              else (case processPending gj wok False w1 of
                      (True, w2) \<Rightarrow> (length data, True, w2) | (False, w2) \<Rightarrow> (0, False, w2)))"

definition twFlush :: "gjson_get \<Rightarrow> write_oracle \<Rightarrow> terminalWriter \<Rightarrow> terminalWriter" where
  "twFlush gj wok w =
     (let w1 = snd (processPending gj wok False w) in w1\<lparr>tw_calls := tw_calls w1 @ [FlushNow]\<rparr>)"

definition CommitTerminal :: "gjson_get \<Rightarrow> write_oracle \<Rightarrow> terminalWriter \<Rightarrow> bool \<times> terminalWriter" where
  "CommitTerminal gj wok w =
     (case processPending gj wok True w of
        (False, w1) \<Rightarrow> (False, w1)
      | (True, w1) \<Rightarrow>
          if tw_terminal w1 = [] then (True, w1\<lparr>tw_terminalStarted := False\<rparr>)
          else (case originalWrite wok (tw_terminal w1) w1 of
                  (False, w2) \<Rightarrow> (False, w2)
                | (True, w2) \<Rightarrow>
                    (True, w2\<lparr>tw_terminal := [], tw_terminalStarted := False, tw_calls := tw_calls w2 @ [FlushNow]\<rparr>)))"

definition DiscardTerminal :: "terminalWriter \<Rightarrow> terminalWriter" where
  "DiscardTerminal w = w\<lparr>tw_pending := [], tw_terminal := [], tw_terminalStarted := False\<rparr>"

subsection \<open>Frames of a stream\<close>

inductive framed :: "gostr \<Rightarrow> gostr list \<Rightarrow> gostr \<Rightarrow> bool" where
  framed_stop: "\<forall>m. \<not> ends_frame d m \<Longrightarrow> framed d [] d"
| framed_cut: "is_frame f \<Longrightarrow> framed r fs rest \<Longrightarrow> framed (f @ r) (f # fs) rest"

lemma framed_concat: "framed d fs rest \<Longrightarrow> d = concat fs @ rest"
  by (induction rule: framed.induct) auto

lemma framed_incomplete: "framed d fs rest \<Longrightarrow> \<not> ends_frame rest m"
  by (induction rule: framed.induct) auto

lemma framed_chunk: "framed a fs r \<Longrightarrow> framed (r @ b) gs s \<Longrightarrow> framed (a @ b) (fs @ gs) s"
proof (induction rule: framed.induct)
  case (framed_cut f r fs rest)
  then show ?case using framed.framed_cut [of f "r @ b"] by simp
qed simp

lemma framed_total: "\<exists>fs rest. framed d fs rest"
proof (induction d rule: length_induct)
  case (1 d)
  show ?case
  proof (cases "\<exists>n. first_end d n")
    case True
    then obtain n where n: "first_end d n" by blast
    then have "n \<le> length d" "0 < n" by (auto simp: first_end_def ends_frame_def)
    with n have "is_frame (take n d)" using first_end_frame [of "take n d" "drop n d"] by simp
    moreover obtain fs rest where "framed (drop n d) fs rest"
      using 1 [rule_format, of "drop n d"] \<open>0 < n\<close> \<open>n \<le> length d\<close> by (metis diff_less length_drop order_less_le_trans)
    ultimately have "framed (take n d @ drop n d) (take n d # fs) rest" by (rule framed_cut)
    then show ?thesis by auto
  next
    case False
    then have "\<not> ends_frame d m" for m by (induction m rule: less_induct) (auto simp: first_end_def)
    then show ?thesis using framed_stop by blast
  qed
qed

lemma framed_unique: "framed d fs rest \<Longrightarrow> framed d gs rest' \<Longrightarrow> fs = gs \<and> rest = rest'"
proof (induction arbitrary: gs rest' rule: framed.induct)
  case (framed_stop d)
  from framed_stop(2) show ?case
  proof cases
    case (framed_cut f r fs)
    then have "first_end d (length f)" by (simp add: first_end_frame)
    with framed_stop(1) show ?thesis by (simp add: first_end_def)
  qed simp
next
  case (framed_cut f r fs rest)
  note f = nextSSEFrame_frame [OF framed_cut(1), of r False] and IH = framed_cut(3)
  from framed_cut(4) show ?case
  proof cases
    case framed_stop
    then show ?thesis using f nextSSEFrame_incomplete by simp
  next
    case (framed_cut f' r' fs')
    then have "nextSSEFrame (f @ r) False = Some (f', r')" using nextSSEFrame_frame [of f' r' False] by metis
    with f have "f' = f" "r' = r" by simp_all
    then show ?thesis using framed_cut(2,4) IH [of fs' rest'] by simp
  qed
qed

subsection \<open>What processing the pending bytes does\<close>

definition all_ok :: write_oracle where
  "all_ok calls d = True"

lemma originalWrite_all_ok [simp]: "originalWrite all_ok d w = (True, w\<lparr>tw_calls := tw_calls w @ [WriteBytes d]\<rparr>)"
  by (simp add: originalWrite_def all_ok_def)

text \<open>The effect of handing the frames \<open>fs\<close> to the writer.\<close>

definition tw_take :: "gjson_get \<Rightarrow> gostr list \<Rightarrow> gostr \<Rightarrow> terminalWriter \<Rightarrow> terminalWriter" where
  "tw_take gj fs rest w =
     (let passes = (\<lambda>f. \<not> tw_terminalStarted w \<and> \<not> sseFrameStartsTerminal gj (tw_mode w) f)
      in w\<lparr>tw_pending := rest, tw_terminal := tw_terminal w @ concat (dropWhile passes fs),
           tw_terminalStarted := tw_terminalStarted w \<or> (\<exists>f \<in> set fs. sseFrameStartsTerminal gj (tw_mode w) f),
           tw_calls := tw_calls w @ map WriteBytes (takeWhile passes fs)\<rparr>)"

lemma tw_take_Nil [simp]: "tw_take gj [] (tw_pending w) w = w"
  by (simp add: tw_take_def)

definition tw_next :: "gjson_get \<Rightarrow> gostr \<Rightarrow> gostr \<Rightarrow> terminalWriter \<Rightarrow> terminalWriter" where
  "tw_next gj f r w =
     (if tw_terminalStarted w \<or> sseFrameStartsTerminal gj (tw_mode w) f
      then w\<lparr>tw_pending := r, tw_terminalStarted := True, tw_terminal := tw_terminal w @ f\<rparr>
      else w\<lparr>tw_pending := r, tw_calls := tw_calls w @ [WriteBytes f]\<rparr>)"

lemma tw_pending_next [simp]: "tw_pending (tw_next gj f r w) = r"
  by (simp add: tw_next_def)

lemma processPending_next:
  "nextSSEFrame (tw_pending w) final = Some (f, r) \<Longrightarrow>
   processPending gj all_ok final w = processPending gj all_ok final (tw_next gj f r w)"
  by (subst processPending.simps) (simp add: tw_next_def)

lemma processPending_end:
  "nextSSEFrame (tw_pending w) final = None \<Longrightarrow> processPending gj all_ok final w = (True, w)"
  by (subst processPending.simps) simp

lemma tw_take_next: "tw_take gj fs rest (tw_next gj f r w) = tw_take gj (f # fs) rest w"
  by (cases "tw_terminalStarted w"; cases "sseFrameStartsTerminal gj (tw_mode w) f")
    (simp_all add: tw_take_def tw_next_def Let_def takeWhile_eq_Nil_iff)

fun cut_rest :: "bool \<Rightarrow> gostr \<Rightarrow> gostr list \<times> gostr" where
  "cut_rest final rest = (if final \<and> rest \<noteq> [] then ([rest], []) else ([], rest))"

lemma processPending_frames:
  assumes "framed d fs rest" "tw_pending w = d"
  shows "processPending gj all_ok final w =
    (True, tw_take gj (fs @ fst (cut_rest final rest)) (snd (cut_rest final rest)) w)"
  using assms
proof (induction arbitrary: w rule: framed.induct)
  case (framed_stop d)
  show ?case
  proof (cases "final \<and> d \<noteq> []")
    case True
    then have "processPending gj all_ok final w = processPending gj all_ok final (tw_next gj d [] w)"
      using framed_stop nextSSEFrame_incomplete(2) by (intro processPending_next) simp
    also have "\<dots> = (True, tw_next gj d [] w)" by (rule processPending_end) (simp add: nextSSEFrame_def)
    finally show ?thesis using True tw_take_next [of gj "[]" "[]" d "[]" w] tw_take_Nil [of gj "tw_next gj d [] w"] by simp
  next
    case False
    then have "nextSSEFrame (tw_pending w) final = None"
      using framed_stop.prems nextSSEFrame_incomplete(1) [OF framed_stop.hyps]
      by (cases "d = []") (simp_all add: nextSSEFrame_def [of "[]"])
    with False framed_stop.prems show ?thesis using tw_take_Nil [of gj w] by (auto simp: processPending_end)
  qed
next
  case (framed_cut f r fs rest)
  then have "processPending gj all_ok final w = processPending gj all_ok final (tw_next gj f r w)"
    by (intro processPending_next) (simp add: nextSSEFrame_frame)
  also have "\<dots> = (True, tw_take gj (fs @ fst (cut_rest final rest)) (snd (cut_rest final rest)) (tw_next gj f r w))"
    by (rule framed_cut.IH) simp
  finally show ?case by (simp add: tw_take_next)
qed

subsection \<open>The writer as a byte writer\<close>

definition tw_put :: "gjson_get \<Rightarrow> gostr \<Rightarrow> terminalWriter \<Rightarrow> terminalWriter" where
  "tw_put gj d w = snd (snd (twWrite gj all_ok d w))"

definition tw_accepted :: "terminalWriter \<Rightarrow> gostr" where
  "tw_accepted w = concat (written (tw_calls w)) @ tw_terminal w @ tw_pending w"

definition tw_wf :: "terminalWriter \<Rightarrow> bool" where
  "tw_wf w \<longleftrightarrow> (\<not> tw_terminalStarted w \<longrightarrow> tw_terminal w = [])"

definition tw_ordered :: "terminalWriter \<Rightarrow> bool" where
  "tw_ordered w \<longleftrightarrow> (tw_terminalStarted w \<longrightarrow> tw_pending w = [])"

lemma tw_wf_new: "tw_wf (newTerminalBufferedResponseWriter mode calls)"
  by (simp add: tw_wf_def newTerminalBufferedResponseWriter_def)

lemma tw_wf_take:
  assumes "tw_wf w"
  shows "tw_wf (tw_take gj fs rest w)"
proof -
  have "dropWhile P fs = []" if "\<forall>f \<in> set fs. P f" for P using that by simp
  with assms show ?thesis by (auto simp: tw_wf_def tw_take_def Let_def simp del: dropWhile_eq_Nil_conv)
qed

lemma concat_takeWhile_dropWhile: "concat (takeWhile P fs) @ concat (dropWhile P fs) = concat fs"
  by (metis concat_append takeWhile_dropWhile_id)

lemma tw_accepted_take:
  "tw_wf w \<Longrightarrow> tw_pending w = concat fs @ rest \<Longrightarrow> tw_ordered w \<or> tw_terminalStarted w \<Longrightarrow>
   tw_accepted (tw_take gj fs rest w) = tw_accepted w"
  using concat_takeWhile_dropWhile [of "\<lambda>f. \<not> sseFrameStartsTerminal gj (tw_mode w) f" fs]
  by (cases "tw_terminalStarted w") (auto simp: tw_wf_def tw_accepted_def tw_take_def Let_def dest: set_takeWhileD)

lemma flushAllToOriginal_all_ok:
  "tw_wf w \<Longrightarrow> \<not> tw_terminalStarted w \<Longrightarrow>
   flushAllToOriginal all_ok w =
     (True, w\<lparr>tw_pending := [], tw_calls := tw_calls w @ (if tw_pending w = [] then [] else [WriteBytes (tw_pending w)])\<rparr>)"
  by (simp add: flushAllToOriginal_def tw_wf_def)

text \<open>The result of a write, by cases.\<close>

lemma tw_put_cases:
  assumes "tw_wf w" "framed (tw_pending w @ d) fs rest"
  shows "tw_put gj d w =
    (if d = [] then w
     else if tw_terminalStarted w then w\<lparr>tw_terminal := tw_terminal w @ d\<rparr>
     else if length (tw_pending w @ d) > terminalCaptureMaxPendingBytes
     then w\<lparr>tw_pending := [], tw_calls := tw_calls w @ [WriteBytes (tw_pending w @ d)]\<rparr>
     else tw_take gj fs rest (w\<lparr>tw_pending := tw_pending w @ d\<rparr>))"
proof -
  let ?w = "w\<lparr>tw_pending := tw_pending w @ d\<rparr>"
  have wf: "tw_wf ?w" using assms(1) by (simp add: tw_wf_def)
  have p: "processPending gj all_ok False ?w = (True, tw_take gj fs rest ?w)"
    using processPending_frames [OF assms(2), of ?w gj False] by simp
  show ?thesis
    by (auto simp: tw_put_def twWrite_def p flushAllToOriginal_all_ok [OF wf])
qed

interpretation terminal: byte_writer "tw_put gj" "\<lambda>d. d" tw_accepted tw_wf tw_ordered
proof
  fix w d assume wf: "tw_wf w"
  obtain fs rest where fr: "framed (tw_pending w @ d) fs rest" using framed_total by blast
  note put = tw_put_cases [OF wf fr, of gj]
  have w': "tw_wf (w\<lparr>tw_pending := tw_pending w @ d\<rparr>)" using wf by (simp add: tw_wf_def)
  show "tw_wf (tw_put gj d w)"
    using wf tw_wf_take [OF w'] by (auto simp: put) (auto simp: tw_wf_def)
  assume ord: "tw_ordered (tw_put gj d w)"
  show "tw_ordered w"
    using ord put by (cases "tw_terminalStarted w"; cases "d = []") (simp_all add: tw_ordered_def)
  show "tw_accepted (tw_put gj d w) = tw_accepted w @ d"
  proof (cases "tw_terminalStarted w")
    case True
    then show ?thesis using ord put by (cases "d = []") (simp_all add: tw_ordered_def tw_accepted_def)
  next
    case False
    then have "tw_accepted (tw_take gj fs rest (w\<lparr>tw_pending := tw_pending w @ d\<rparr>)) = tw_accepted w @ d"
      using w' framed_concat [OF fr] by (subst tw_accepted_take) (auto simp: tw_ordered_def tw_accepted_def)
    with False wf show ?thesis by (auto simp: put tw_accepted_def tw_wf_def)
  qed
qed

subsection \<open>The writer refines the framing of the whole stream\<close>

definition tw_rel :: "gjson_get \<Rightarrow> streamingTerminalMode \<Rightarrow> gostr \<Rightarrow> terminalWriter \<Rightarrow> bool" where
  "tw_rel gj m data w \<longleftrightarrow> tw_mode w = m \<and> tw_wf w \<and>
     (\<exists>fs rest. framed data fs rest \<and>
        written (tw_calls w) = takeWhile (\<lambda>f. \<not> sseFrameStartsTerminal gj m f) fs \<and>
        tw_terminalStarted w = (\<exists>f \<in> set fs. sseFrameStartsTerminal gj m f) \<and>
        (\<not> tw_terminalStarted w \<longrightarrow> tw_pending w = rest))"

lemma tw_rel_new: "tw_rel gj m [] (newTerminalBufferedResponseWriter m [])"
proof -
  have "framed [] [] []" by (rule framed_stop) (simp add: ends_frame_def)
  then show ?thesis
    using tw_wf_new by (auto simp: tw_rel_def newTerminalBufferedResponseWriter_def intro!: exI)
qed

lemma tw_rel_put:
  assumes rel: "tw_rel gj m data w"
    and small: "\<And>fs rest. framed data fs rest \<Longrightarrow> length rest + length d \<le> terminalCaptureMaxPendingBytes"
  shows "tw_rel gj m (data @ d) (tw_put gj d w)"
proof -
  let ?N = "\<lambda>f. \<not> sseFrameStartsTerminal gj m f"
  from rel obtain fs rest where fr: "framed data fs rest" and w: "tw_mode w = m" "tw_wf w"
      "written (tw_calls w) = takeWhile ?N fs" "tw_terminalStarted w = (\<exists>f \<in> set fs. \<not> ?N f)"
      "\<not> tw_terminalStarted w \<longrightarrow> tw_pending w = rest"
    by (auto simp: tw_rel_def)
  obtain gs s where gs: "framed (rest @ d) gs s" using framed_total by blast
  note whole = framed_chunk [OF fr gs]
  show ?thesis
  proof (cases "tw_terminalStarted w")
    case True
    then have "tw_put gj d w = (if d = [] then w else w\<lparr>tw_terminal := tw_terminal w @ d\<rparr>)"
      by (simp add: tw_put_def twWrite_def)
    moreover have "takeWhile ?N (fs @ gs) = takeWhile ?N fs" using True w(4) by (auto intro: takeWhile_append1)
    ultimately show ?thesis
      using True w whole by (auto simp: tw_rel_def tw_wf_def intro!: exI [of _ "fs @ gs"])
  next
    case False
    then have p: "tw_pending w = rest" and all: "\<forall>f \<in> set fs. ?N f" using w by auto
    show ?thesis
    proof (cases "d = []")
      case True
      then show ?thesis using rel by (simp add: tw_put_def twWrite_def)
    next
      case nonempty: False
      then have put: "tw_put gj d w = tw_take gj gs s (w\<lparr>tw_pending := rest @ d\<rparr>)"
        using tw_put_cases [OF w(2), of d gs s gj] gs p small [OF fr] False by simp
      have "tw_wf (tw_put gj d w)" by (rule terminal.wf_put [OF w(2)])
      moreover have "takeWhile ?N fs = fs" using all by simp
      ultimately show ?thesis
        using whole all w(1,3,4) False
        by (auto simp: tw_rel_def put tw_take_def Let_def intro!: exI [of _ "fs @ gs"] exI [of _ s])
    qed
  qed
qed

text \<open>No write makes the unfinished frame longer than the limit of the pending bytes.\<close>

definition frames_fit :: "gostr list \<Rightarrow> bool" where
  "frames_fit ds \<longleftrightarrow> (\<forall>k < length ds. \<forall>fs rest. framed (concat (take k ds)) fs rest \<longrightarrow>
     length rest + length (ds ! k) \<le> terminalCaptureMaxPendingBytes)"

lemma frames_fit_short:
  assumes "length (concat ds) \<le> terminalCaptureMaxPendingBytes"
  shows "frames_fit ds"
proof (unfold frames_fit_def, intro allI impI)
  fix k fs rest assume k: "k < length ds" and fr: "framed (concat (take k ds)) fs rest"
  have "concat ds = concat (take k ds) @ ds ! k @ concat (drop (Suc k) ds)"
    using k by (metis concat.simps(2) concat_append id_take_nth_drop)
  then have "length (concat (take k ds)) + length (ds ! k) \<le> length (concat ds)" by simp
  moreover have "length rest \<le> length (concat (take k ds))" using framed_concat [OF fr] by simp
  ultimately show "length rest + length (ds ! k) \<le> terminalCaptureMaxPendingBytes" using assms by linarith
qed

lemma tw_rel_run:
  "frames_fit ds \<Longrightarrow> tw_rel gj m (concat ds) (fold (tw_put gj) ds (newTerminalBufferedResponseWriter m []))"
proof (induction ds rule: rev_induct)
  case (snoc d ds)
  have "frames_fit ds" unfolding frames_fit_def
  proof (intro allI impI)
    fix k fs rest assume k: "k < length ds" and "framed (concat (take k ds)) fs rest"
    with snoc.prems [unfolded frames_fit_def, rule_format, of k fs rest]
    show "length rest + length (ds ! k) \<le> terminalCaptureMaxPendingBytes" by (simp add: nth_append)
  qed
  moreover have "length rest + length d \<le> terminalCaptureMaxPendingBytes" if "framed (concat ds) fs rest" for fs rest
    using snoc.prems [unfolded frames_fit_def, rule_format, of "length ds" fs rest] that by simp
  ultimately show ?case using tw_rel_put [OF snoc.IH] by simp
qed (simp add: tw_rel_new)

lemma CommitTerminal_delivers:
  assumes "tw_wf w" "tw_ordered w"
  shows "fst (CommitTerminal gj all_ok w) \<and>
    concat (written (tw_calls (snd (CommitTerminal gj all_ok w)))) = tw_accepted w"
proof -
  obtain fs rest where fr: "framed (tw_pending w) fs rest" using framed_total by blast
  define gs where "gs = fs @ fst (cut_rest True rest)"
  have "tw_pending w = concat gs @ []" using framed_concat [OF fr] by (auto simp: gs_def)
  with assms have acc: "tw_accepted (tw_take gj gs [] w) = tw_accepted w" by (intro tw_accepted_take) auto
  have "processPending gj all_ok True w = (True, tw_take gj gs [] w)"
    using processPending_frames [OF fr refl, of gj True] by (simp add: gs_def split: if_splits)
  moreover have "tw_pending (tw_take gj gs [] w) = []" by (simp add: tw_take_def Let_def)
  ultimately show ?thesis
    using acc by (auto simp: CommitTerminal_def tw_accepted_def [of "tw_take gj gs [] w"])
qed

lemma bwCommitTo_ok:
  assumes "bw_pendingErr w = None" "bw_spill w \<noteq> Some []"
  shows "bwCommitTo diskOK all_ok [] w =
    (None, SetHeader (bw_header w) #
       (if \<not> (bwWritten w \<or> bw_headerWritten w) then []
        else [WriteHeader (bw_status w), if bw_contents w = [] then WriteHeaderNow else WriteBytes (bw_contents w)]),
     bwCleanup w)"
  using assms by (cases "bw_spill w") (auto simp: bwCommitTo_def Let_def all_ok_def bw_contents_def diskOK_def)

section \<open>Properties\<close>


definition exampleDone :: gostr where
  "exampleDone = ''data: [DONE]'' @ [LF, LF]"

definition exampleDelta :: gostr where
  "exampleDelta = ''data: x'' @ [LF, LF]"

abbreviation noJSON :: gjson_get where
  "noJSON \<equiv> \<lambda>_ _. JMissing"

lemma framed_Nil: "framed [] [] []"
  by (rule framed_stop) (simp add: ends_frame_def)

lemma exampleFrames: "is_frame exampleDone" "is_frame exampleDelta"
  by (simp_all add: exampleDone_def exampleDelta_def is_frame_def ends_frame_def less_Suc_eq numeral_eq_Suc)

lemma exampleKinds:
  "sseFrameStartsTerminal noJSON ModeGeminiRaw exampleDone"
  "\<not> sseFrameStartsTerminal noJSON ModeGeminiRaw exampleDelta"
  by code_simp+

lemma exampleLengths [simp]: "length exampleDone = 14" "length exampleDelta = 9"
    "exampleDone \<noteq> []" "exampleDelta \<noteq> []"
  by (simp_all add: exampleDone_def exampleDelta_def)

lemma exampleFramed:
  "framed (exampleDelta @ exampleDone) [exampleDelta, exampleDone] []"
  "framed exampleDelta [exampleDelta] []" "framed exampleDone [exampleDone] []"
  using framed_cut [OF exampleFrames(1) framed_Nil] framed_cut [OF exampleFrames(2) framed_Nil]
    framed_cut [OF exampleFrames(2), of exampleDone "[exampleDone]" "[]"]
  by simp_all


text \<open>
  Committing delivers the response: when no part of a frame is left pending behind the
  terminal part, \<open>CommitTerminal\<close> succeeds and the bytes the client has received in all are
  the bytes that were written, in order.
\<close>

theorem terminal_commit_delivers:
  assumes "tw_ordered (fold (tw_put gj) ds (newTerminalBufferedResponseWriter mode []))"
  shows "fst (CommitTerminal gj all_ok (fold (tw_put gj) ds (newTerminalBufferedResponseWriter mode []))) \<and>
    concat (written (tw_calls (snd (CommitTerminal gj all_ok
      (fold (tw_put gj) ds (newTerminalBufferedResponseWriter mode [])))))) = concat ds"
  using terminal.accepted_run [OF tw_wf_new assms]
    CommitTerminal_delivers [OF terminal.wf_run [OF tw_wf_new] assms]
  by (simp add: tw_accepted_def newTerminalBufferedResponseWriter_def)

theorem terminal_commit_delivers_witness:
  "concat (written (tw_calls (snd (CommitTerminal noJSON all_ok
     (fold (tw_put noJSON) [exampleDelta, exampleDone]
       (newTerminalBufferedResponseWriter ModeGeminiRaw [])))))) = exampleDelta @ exampleDone"
proof -
  let ?w0 = "newTerminalBufferedResponseWriter ModeGeminiRaw []"
  have w1: "tw_put noJSON exampleDelta ?w0 = ?w0\<lparr>tw_calls := [WriteBytes exampleDelta]\<rparr>"
    using tw_put_cases [OF tw_wf_new, of ModeGeminiRaw "[]" exampleDelta "[exampleDelta]" "[]" noJSON]
      exampleFramed(2) exampleKinds(2)
    by (simp add: newTerminalBufferedResponseWriter_def tw_take_def terminalCaptureMaxPendingBytes_def)
  have "tw_wf (?w0\<lparr>tw_calls := [WriteBytes exampleDelta]\<rparr>)"
    by (simp add: tw_wf_def newTerminalBufferedResponseWriter_def)
  from tw_put_cases [OF this, of exampleDone "[exampleDone]" "[]" noJSON] exampleFramed(3) exampleKinds(1)
  have "tw_ordered (fold (tw_put noJSON) [exampleDelta, exampleDone] ?w0)"
    by (simp add: w1 tw_ordered_def) (simp add: newTerminalBufferedResponseWriter_def tw_take_def
        terminalCaptureMaxPendingBytes_def)
  from terminal_commit_delivers [OF this] show ?thesis by simp
qed

text \<open>
  The condition of the previous property is needed: if the write that completes the
  terminal frame also holds the beginning of a further frame, the rest of that frame is
  appended to the terminal part before its beginning, and the client receives the two pieces
  in the wrong order.
\<close>

theorem terminal_commit_reorders:
  "concat (written (tw_calls (snd (CommitTerminal noJSON all_ok
     (fold (tw_put noJSON) [exampleDone @ ''data: he'', ''llo'' @ [LF, LF]]
       (newTerminalBufferedResponseWriter ModeGeminiRaw [])))))) =
   exampleDone @ ''llo'' @ [LF, LF] @ ''data: he''"
proof -
  let ?w0 = "newTerminalBufferedResponseWriter ModeGeminiRaw []"
  let ?w1 = "?w0\<lparr>tw_pending := ''data: he'', tw_terminal := exampleDone, tw_terminalStarted := True\<rparr>"
  let ?w2 = "?w1\<lparr>tw_terminal := exampleDone @ ''llo'' @ [LF, LF]\<rparr>"
  have half: "framed ''data: he'' [] ''data: he''"
    by (rule framed_stop) (auto simp: ends_frame_iff lf_lf_def lf_cr_lf_def nth_Cons' numeral_eq_Suc split: if_splits)
  from framed_cut [OF exampleFrames(1) half] have w1: "tw_put noJSON (exampleDone @ ''data: he'') ?w0 = ?w1"
    using tw_put_cases [OF tw_wf_new, of ModeGeminiRaw "[]" "exampleDone @ ''data: he''" "[exampleDone]" "''data: he''" noJSON]
      exampleKinds(1)
    by (simp add: newTerminalBufferedResponseWriter_def tw_take_def terminalCaptureMaxPendingBytes_def)
  have w2: "tw_put noJSON (''llo'' @ [LF, LF]) ?w1 = ?w2" by (simp add: tw_put_def twWrite_def)
  have "processPending noJSON all_ok True ?w2 = (True, tw_take noJSON [''data: he''] [] ?w2)"
    using processPending_frames [OF half, of ?w2 noJSON True] by simp
  moreover have "fold (tw_put noJSON) [exampleDone @ ''data: he'', ''llo'' @ [LF, LF]] ?w0 = ?w2"
    using w1 w2 by (simp only: fold_simps)
  ultimately show ?thesis
    by (simp only: CommitTerminal_def) (simp add: tw_take_def Let_def newTerminalBufferedResponseWriter_def)
qed

text \<open>
  A buffered response is replayed exactly or not at all: after any sequence of writes,
  header calls and flushes on the buffering writer, with a working disk, \<open>CommitTo\<close> copies the
  headers and issues the last valid status and the concatenation of everything written (from
  memory or from the spill file alike) when the response has at most 64 MiB, and otherwise
  returns \<open>ErrBufferedResponseTooLarge\<close> without touching the client's writer.
\<close>

theorem buffered_commit_exact:
  assumes "list_all bw_clean ops"
  shows "(\<lambda>(err, calls, _). (err, calls)) (bwCommitTo diskOK all_ok [] (fold bw_step ops (newBufferedResponseWriter h))) =
    (if length (concat (map bw_payload ops)) \<le> queueFirstBufferedResponseMaxTotal
     then (None, SetHeader h # (if ops = [] then [] else
            [WriteHeader (bw_status_of 200 ops),
             if concat (map bw_payload ops) = [] then WriteHeaderNow else WriteBytes (concat (map bw_payload ops))]))
     else (Some ErrBufferedResponseTooLarge, []))"
proof -
  let ?start = "newBufferedResponseWriter h" and ?data = "concat (map bw_payload ops)"
  let ?w = "fold bw_step ops ?start"
  have new: "bw_contents ?start = []" "bw_pendingErr ?start = None" "bw_header ?start = h" "bw_status ?start = 200"
      "\<not> bwWritten ?start" "\<not> bw_headerWritten ?start"
    by (simp_all add: newBufferedResponseWriter_def bw_contents_def bwWritten_def)
  note pend = bw_run_pending [OF assms bw_inv_new new(2)] and frame = bw_run_frame [of ops ?start, unfolded new]
  show ?thesis
  proof (cases "length ?data \<le> queueFirstBufferedResponseMaxTotal")
    case True
    then have ok: "bw_pendingErr ?w = None" using pend new(1) by simp
    have "bw_contents ?w = ?data" using buffered.accepted_run [OF TrueI ok] new(1) by simp
    moreover have "bw_spill ?w \<noteq> Some []"
      by (rule bw_spill_run [OF assms]) (simp add: newBufferedResponseWriter_def)
    ultimately show ?thesis using True frame bwCommitTo_ok [OF ok] new(5,6) by (simp del: concat_eq_Nil_conv)
  next
    case False
    then have "bw_pendingErr ?w = Some ErrBufferedResponseTooLarge"
      using pend bw_clean_error [OF assms, of ?start] new(1,2) by auto
    with False show ?thesis by (simp add: bwCommitTo_def)
  qed
qed

theorem buffered_commit_exact_witness:
  "(\<lambda>(err, calls, _). (err, calls)) (bwCommitTo diskOK all_ok []
     (fold bw_step [BHeader 201, BWrite diskOK ''ab'', BFlush, BWrite diskOK ''c''] (newBufferedResponseWriter []))) =
   (None, [SetHeader [], WriteHeader 201, WriteBytes ''abc''])"
  using buffered_commit_exact [of "[BHeader 201, BWrite diskOK ''ab'', BFlush, BWrite diskOK ''c'']" "[]"]
  by (simp add: queueFirstBufferedResponseMaxTotal_def)

end
