(* ===== verification/Gateway_Loop.thy ===== *)
theory Gateway_Loop
  imports Failover Response_Capture
begin

text \<open>
  The request loop of the gateway handlers \<open>ChatCompletions\<close>
  (\<open>internal/handler/gateway_handler_chat_completions.go\<close>) and \<open>Responses\<close>
  (\<open>internal/handler/gateway_handler_responses.go\<close>), which have the same control flow: check the
  request, take a place in the user's wait queue and a user slot, check billing, then select an
  account, take an account slot, reserve (streaming), forward, and fail over or record the usage.

  The handlers are sequences of calls on other services.  The result of each call is part of
  the environment (\<open>gw_env\<close> for the request, \<open>gw_iter\<close> for one pass of the loop), and every
  call with an effect is recorded in a trace.  Deferred calls run when the handler returns.
  Logging, metrics and request fields that only go into the usage record are left out.
\<close>

section \<open>Configuration and environment\<close>

record gw_config =
  cfg_runModeSimple :: bool
  cfg_queueFirstNonStreamEnabled :: bool

definition queueFirstNonStreamEnabled :: "gw_config option \<Rightarrow> bool \<Rightarrow> bool" where
  "queueFirstNonStreamEnabled cfg reqStream =
     (case cfg of None \<Rightarrow> False
      | Some c \<Rightarrow> if reqStream then False else if cfg_runModeSimple c then False else cfg_queueFirstNonStreamEnabled c)"

definition streamingV2Enabled :: "gw_config option \<Rightarrow> bool \<Rightarrow> bool" where
  "streamingV2Enabled cfg reqStream =
     (if \<not> reqStream then False else case cfg of None \<Rightarrow> True | Some c \<Rightarrow> \<not> cfg_runModeSimple c)"

definition streamingBillingRequestID :: "gostr option \<Rightarrow> gostr option \<Rightarrow> gostr \<Rightarrow> gostr" where
  "streamingBillingRequestID clientRequestID requestID uuid =
     (case clientRequestID of
        Some s \<Rightarrow> if trim_space s \<noteq> [] then ''client:'' @ trim_space s
                  else (case requestID of Some r \<Rightarrow> if trim_space r \<noteq> [] then ''local:'' @ trim_space r
                                                    else ''generated:'' @ uuid
                        | None \<Rightarrow> ''generated:'' @ uuid)
      | None \<Rightarrow> (case requestID of Some r \<Rightarrow> if trim_space r \<noteq> [] then ''local:'' @ trim_space r
                                                    else ''generated:'' @ uuid
                        | None \<Rightarrow> ''generated:'' @ uuid))"

record selection =
  sel_account :: int64
  sel_platform :: gostr
  sel_acquired :: bool
  sel_waitPlan :: bool

datatype forward_result =
    ForwardOK
  | ForwardFailover UpstreamFailoverError bool  \<comment> \<open>with: bytes reached the response writer\<close>
  | ForwardFailed

text \<open>One pass of the loop: the answers the handler receives.\<close>

record gw_iter =
  it_select :: "gostr + selection"    \<comment> \<open>\<open>Inl\<close>: the text of the error that selection returned\<close>
  it_slot :: bool                     \<comment> \<open>waiting for the account slot succeeded\<close>
  it_started :: bool                  \<comment> \<open>waiting sent a ping, which starts the stream\<close>
  it_reserve :: bool                  \<comment> \<open>the reservation was published\<close>
  it_forward :: forward_result
  it_written :: bool                  \<comment> \<open>the response writer has been written to when forwarding ends\<close>
  it_canceled :: bool                 \<comment> \<open>the context is done during the failover delay\<close>
  it_record :: bool                   \<comment> \<open>the usage was recorded\<close>

datatype body_read = BodyOK gostr | BodyTooLarge int | BodyUnreadable

record gw_env =
  ge_apiKey :: bool
  ge_subject :: bool
  ge_body :: body_read
  ge_claudeCodeOnly :: bool
  ge_wait :: "bool option"            \<comment> \<open>\<open>None\<close>: the wait counter returned an error\<close>
  ge_userSlot :: bool
  ge_userStarted :: bool
  ge_billing :: "(int \<times> gostr \<times> gostr) option"
  ge_iters :: "nat \<Rightarrow> gw_iter"

datatype gw_event =
    Respond int gostr gostr
  | StreamError gostr gostr
  | WaitIncremented | WaitDecremented
  | UserSlotAcquired | UserSlotReleased
  | AccountSlotAcquired int64 | AccountSlotReleased int64
  | Reserved int64 | ReleasePublished "int64 option"
  | Forwarded int64
  | Finalized int64 bool
  | UsageRecorded int64 bool
  | CaptureCommitted | CaptureDiscarded
  | TerminalBegun | TerminalCommitted | TerminalDiscarded
  | FailoverCall failover_call

record gw_state =
  gs_fs :: State
  gs_published :: bool
  gs_finalized :: bool
  gs_account :: "int64 option"
  gs_terminal :: bool
  gs_started :: bool
  gs_trace :: "gw_event list"

text \<open>How a stage of the loop body ends: the handler returns, the loop starts over, or the body goes on.\<close>

datatype 'a flow = Return | Again | Go 'a

definition emit :: "gw_event list \<Rightarrow> gw_state \<Rightarrow> gw_state" where
  "emit es s = s\<lparr>gs_trace := gs_trace s @ es\<rparr>"

section \<open>Error responses\<close>

definition handleFailoverExhausted :: "UpstreamFailoverError option \<Rightarrow> bool \<Rightarrow> gw_event list" where
  "handleFailoverExhausted lastErr started =
     (if started then []
      else [Respond (case lastErr of Some e \<Rightarrow> if 0 < StatusCode e then StatusCode e else 502 | None \<Rightarrow> 502)
              ''server_error'' ''All available accounts exhausted''])"

definition handleStreamingAwareError :: "int \<Rightarrow> gostr \<Rightarrow> gostr \<Rightarrow> bool \<Rightarrow> gw_event list" where
  "handleStreamingAwareError status errType message started =
     (if started then [StreamError errType message] else [Respond status errType message])"

definition handleConcurrencyError :: "gostr \<Rightarrow> bool \<Rightarrow> gw_event list" where
  "handleConcurrencyError slotType started =
     handleStreamingAwareError 429 ''rate_limit_error''
       (''Concurrency limit exceeded for '' @ slotType @ '', please retry later'') started"

definition ensureForwardErrorResponse :: "bool \<Rightarrow> bool \<Rightarrow> gw_event list" where
  "ensureForwardErrorResponse writerWritten started =
     (if writerWritten then []
      else handleStreamingAwareError 502 ''upstream_error'' ''Upstream request failed'' started)"

definition commitCapture :: "bool \<Rightarrow> gw_event list" where
  "commitCapture queueFirst = (if queueFirst then [CaptureCommitted] else [])"

definition discardCapture :: "bool \<Rightarrow> gw_event list" where
  "discardCapture queueFirst = (if queueFirst then [CaptureDiscarded] else [])"

section \<open>The loop body\<close>

definition releaseStreamReservation :: "bool \<Rightarrow> gw_state \<Rightarrow> gw_state" where
  "releaseStreamReservation v2 s =
     (if \<not> v2 \<or> \<not> gs_published s \<or> gs_finalized s then s
      else let s1 = (if gs_terminal s then (emit [TerminalDiscarded] s)\<lparr>gs_terminal := False\<rparr> else s)
           in (emit [ReleasePublished (gs_account s)] s1)\<lparr>gs_published := False, gs_account := None\<rparr>)"

definition selectAccount :: "gw_iter \<Rightarrow> gw_state \<Rightarrow> selection flow \<times> gw_state" where
  "selectAccount it s =
     (case it_select it of
        Inr sel \<Rightarrow> (Go sel, s)
      | Inl err \<Rightarrow>
          if FailedAccountIDs (gs_fs s) = {}
          then (Return, emit [Respond 503 ''api_error'' (''No available accounts: '' @ err)] s)
          else (case HandleSelectionExhausted (it_canceled it) (gs_fs s) of
                  (act, calls, fs') \<Rightarrow>
                    (let s1 = emit (map FailoverCall calls) (s\<lparr>gs_fs := fs'\<rparr>)
                     in case act of
                          Continue \<Rightarrow> (Again, s1)
                        | Canceled \<Rightarrow> (Return, s1)
                        | Exhausted \<Rightarrow>
                            (Return, emit (if LastFailoverErr fs' \<noteq> None
                                           then handleFailoverExhausted (LastFailoverErr fs') (gs_started s1)
                                           else [Respond 502 ''server_error'' ''All available accounts exhausted'']) s1))))"

definition acquireAccountSlot :: "gw_iter \<Rightarrow> selection \<Rightarrow> gw_state \<Rightarrow> unit flow \<times> gw_state" where
  "acquireAccountSlot it sel s =
     (if sel_acquired sel then (Go (), emit [AccountSlotAcquired (sel_account sel)] s)
      else if \<not> sel_waitPlan sel
      then (Return, emit [Respond 503 ''api_error'' ''No available accounts''] s)
      else let s1 = s\<lparr>gs_started := gs_started s \<or> it_started it\<rparr>
           in if it_slot it then (Go (), emit [AccountSlotAcquired (sel_account sel)] s1)
              else (Return, emit (handleConcurrencyError ''account'' (gs_started s1)) s1))"

definition reserveStreaming :: "bool \<Rightarrow> gw_iter \<Rightarrow> selection \<Rightarrow> gw_state \<Rightarrow> unit flow \<times> gw_state" where
  "reserveStreaming v2 it sel s =
     (if v2 \<and> \<not> gs_published s
      then if \<not> it_reserve it
           then (Return, emit [AccountSlotReleased (sel_account sel),
                   Respond 503 ''billing_unavailable'' ''Billing temporarily unavailable''] s)
           else (Go (), (emit [Reserved (sel_account sel), TerminalBegun] s)
                   \<lparr>gs_published := True, gs_account := Some (sel_account sel), gs_terminal := True\<rparr>)
      else (Go (), s))"

definition forwardFailed ::
    "bool \<Rightarrow> bool \<Rightarrow> gw_iter \<Rightarrow> selection \<Rightarrow> forward_result \<Rightarrow> gw_state \<Rightarrow> unit flow \<times> gw_state" where
  "forwardFailed v2 queueFirst it sel res s =
     (case res of
        ForwardFailover err wrote \<Rightarrow>
          if wrote then (Return, emit (handleFailoverExhausted (Some err) True @ commitCapture queueFirst) s)
          else (case HandleFailoverError (it_canceled it) (sel_account sel) (sel_platform sel) err (gs_fs s) of
                  (act, calls, fs') \<Rightarrow>
                    (let s1 = emit (map FailoverCall calls) (s\<lparr>gs_fs := fs'\<rparr>)
                     in case act of
                          Continue \<Rightarrow> (Again, releaseStreamReservation v2 (emit (discardCapture queueFirst) s1))
                        | Exhausted \<Rightarrow>
                            (Return, emit (handleFailoverExhausted (LastFailoverErr fs') (gs_started s1) @
                                           commitCapture queueFirst) s1)
                        | Canceled \<Rightarrow> (Return, emit (discardCapture queueFirst) s1)))
      | _ \<Rightarrow> (Return, emit (ensureForwardErrorResponse (it_written it) (gs_started s) @ commitCapture queueFirst) s))"

definition recordUsage :: "bool \<Rightarrow> bool \<Rightarrow> gw_iter \<Rightarrow> selection \<Rightarrow> gw_state \<Rightarrow> gw_state" where
  "recordUsage v2 queueFirst it sel s =
     (if v2 then
        let commit = (if gs_terminal s then [TerminalCommitted] else [])
        in if \<not> it_record it then emit ([Finalized (sel_account sel) False] @ commit) s
           else (emit ([Finalized (sel_account sel) True] @ commit) s)\<lparr>gs_finalized := True\<rparr>
      else if queueFirst then
        if \<not> it_record it
        then emit ([UsageRecorded (sel_account sel) False] @ discardCapture queueFirst @
                   [Respond 503 ''billing_unavailable'' ''Billing temporarily unavailable'']) s
        else emit ([UsageRecorded (sel_account sel) True] @ commitCapture queueFirst) s
      else emit (discardCapture queueFirst @ [UsageRecorded (sel_account sel) (it_record it)]) s)"

definition gwIteration :: "bool \<Rightarrow> bool \<Rightarrow> gw_iter \<Rightarrow> gw_state \<Rightarrow> unit flow \<times> gw_state" where
  "gwIteration v2 queueFirst it s =
     (case selectAccount it s of
        (Return, s1) \<Rightarrow> (Return, s1)
      | (Again, s1) \<Rightarrow> (Again, s1)
      | (Go sel, s1) \<Rightarrow>
          (case acquireAccountSlot it sel s1 of
             (Go _, s2) \<Rightarrow>
               (case reserveStreaming v2 it sel s2 of
                  (Go _, s3) \<Rightarrow>
                    (let s4 = emit [Forwarded (sel_account sel), AccountSlotReleased (sel_account sel)] s3
                     in if it_forward it = ForwardOK
                        then (Return, recordUsage v2 queueFirst it sel s4)
                        else forwardFailed v2 queueFirst it sel (it_forward it) s4)
                | (f, s3) \<Rightarrow> (f, s3))
           | (f, s2) \<Rightarrow> (f, s2)))"

text \<open>The loop \<open>for { ... }\<close>: \<open>None\<close> means that it has not returned after \<open>fuel\<close> passes.\<close>

fun gwLoop :: "bool \<Rightarrow> bool \<Rightarrow> (nat \<Rightarrow> gw_iter) \<Rightarrow> nat \<Rightarrow> nat \<Rightarrow> gw_state \<Rightarrow> gw_state option" where
  "gwLoop v2 queueFirst its n 0 s = None"
| "gwLoop v2 queueFirst its n (Suc fuel) s =
     (case gwIteration v2 queueFirst (its n) s of
        (Again, s') \<Rightarrow> gwLoop v2 queueFirst its (n + 1) fuel s'
      | (_, s') \<Rightarrow> Some s')"

section \<open>The handler\<close>

definition newGwState :: "int \<Rightarrow> bool \<Rightarrow> gw_event list \<Rightarrow> gw_state" where
  "newGwState maxAccountSwitches started trace =
     \<lparr>gs_fs = NewState maxAccountSwitches False, gs_published = False, gs_finalized = False, gs_account = None,
      gs_terminal = False, gs_started = started, gs_trace = trace\<rparr>"

definition formatBodyLimit :: "int \<Rightarrow> gostr" where
  "formatBodyLimit limit =
     (let mb = 1024 * 1024 :: int
      in if mb \<le> limit then format_int (trunc_div limit mb) @ ''MB'' else format_int limit @ ''B'')"

definition buildBodyTooLargeMessage :: "int \<Rightarrow> gostr" where
  "buildBodyTooLargeMessage limit = ''Request body too large, limit is '' @ formatBodyLimit limit"

text \<open>The checks before the wait queue: an error response, or the model and the stream flag.\<close>

definition checkRequest ::
    "(gostr \<Rightarrow> bool) \<Rightarrow> gjson_get \<Rightarrow> (gjson_result \<Rightarrow> bool) \<Rightarrow> gw_env \<Rightarrow> gw_event + (gostr \<times> bool)" where
  "checkRequest gj_valid gj gj_bool env =
     (if \<not> ge_apiKey env then Inl (Respond 401 ''authentication_error'' ''Invalid API key'')
      else if \<not> ge_subject env then Inl (Respond 500 ''api_error'' ''User context not found'')
      else case ge_body env of
        BodyTooLarge limit \<Rightarrow> Inl (Respond 413 ''invalid_request_error'' (buildBodyTooLargeMessage limit))
      | BodyUnreadable \<Rightarrow> Inl (Respond 400 ''invalid_request_error'' ''Failed to read request body'')
      | BodyOK body \<Rightarrow>
          if body = [] then Inl (Respond 400 ''invalid_request_error'' ''Request body is empty'')
          else if \<not> gj_valid body then Inl (Respond 400 ''invalid_request_error'' ''Failed to parse request body'')
          else (case gj body ''model'' of
                  JValue JString reqModel \<Rightarrow>
                    if reqModel = [] then Inl (Respond 400 ''invalid_request_error'' ''model is required'')
                    else if ge_claudeCodeOnly env
                    then Inl (Respond 403 ''permission_error''
                           ''This group is restricted to Claude Code clients (/v1/messages only)'')
                    else Inr (reqModel, gj_bool (gj body ''stream''))
                | _ \<Rightarrow> Inl (Respond 400 ''invalid_request_error'' ''model is required'')))"

text \<open>
  Everything from the wait queue on.  \<open>waitCounted\<close> is decremented once: before the loop, or
  by the deferred call when the handler returns early.
\<close>

definition serveRequest :: "bool \<Rightarrow> bool \<Rightarrow> int \<Rightarrow> nat \<Rightarrow> gw_env \<Rightarrow> gw_event list option" where
  "serveRequest v2 queueFirst maxAccountSwitches fuel env =
     (case ge_wait env of
        Some False \<Rightarrow> Some [Respond 429 ''rate_limit_error'' ''Too many pending requests, please retry later'']
      | w \<Rightarrow>
          (let waitCounted = (w \<noteq> None);
               inc = (if waitCounted then [WaitIncremented] else []);
               dec = (if waitCounted then [WaitDecremented] else [])
           in if \<not> ge_userSlot env then Some (inc @ handleConcurrencyError ''user'' (ge_userStarted env) @ dec)
              else let entered = inc @ [UserSlotAcquired] @ dec
                   in (case ge_billing env of
                         Some (status, code, message) \<Rightarrow>
                           Some (entered @ [Respond status code message, UserSlotReleased])
                       | None \<Rightarrow>
                           (case gwLoop v2 queueFirst (ge_iters env) 0 fuel
                                   (newGwState maxAccountSwitches (ge_userStarted env) entered) of
                              None \<Rightarrow> None
                            | Some s \<Rightarrow> Some (gs_trace (releaseStreamReservation v2 s) @ [UserSlotReleased])))))"

definition ChatCompletions ::
    "(gostr \<Rightarrow> bool) \<Rightarrow> gjson_get \<Rightarrow> (gjson_result \<Rightarrow> bool) \<Rightarrow> gw_config option \<Rightarrow> int \<Rightarrow> nat \<Rightarrow> gw_env
     \<Rightarrow> gw_event list option" where
  "ChatCompletions gj_valid gj gj_bool cfg maxAccountSwitches fuel env =
     (case checkRequest gj_valid gj gj_bool env of
        Inl e \<Rightarrow> Some [e]
      | Inr (reqModel, reqStream) \<Rightarrow>
          serveRequest (streamingV2Enabled cfg reqStream) (queueFirstNonStreamEnabled cfg reqStream)
            maxAccountSwitches fuel env)"

text \<open>\<open>Responses\<close> runs the same stages; only the JSON shape of its error bodies differs.\<close>

definition Responses ::
    "(gostr \<Rightarrow> bool) \<Rightarrow> gjson_get \<Rightarrow> (gjson_result \<Rightarrow> bool) \<Rightarrow> gw_config option \<Rightarrow> int \<Rightarrow> nat \<Rightarrow> gw_env
     \<Rightarrow> gw_event list option" where
  "Responses gj_valid gj gj_bool cfg maxAccountSwitches fuel env =
     (case checkRequest gj_valid gj gj_bool env of
        Inl e \<Rightarrow> Some [e]
      | Inr (reqModel, reqStream) \<Rightarrow>
          serveRequest (streamingV2Enabled cfg reqStream) (queueFirstNonStreamEnabled cfg reqStream)
            maxAccountSwitches fuel env)"

section \<open>The loop terminates\<close>

definition selects_within :: "int64 set \<Rightarrow> gw_iter \<Rightarrow> bool" where
  "selects_within A it \<longleftrightarrow> (case it_select it of Inl _ \<Rightarrow> True | Inr sel \<Rightarrow> sel_account sel \<in> A)"

lemma gs_fs_simps [simp]:
  "gs_fs (emit es s) = gs_fs s" "gs_fs (releaseStreamReservation v2 s) = gs_fs s"
  by (simp_all add: emit_def releaseStreamReservation_def Let_def)

lemma acquireAccountSlot_flow:
  "acquireAccountSlot it sel s = (r, s') \<Longrightarrow> r \<noteq> Again \<and> gs_fs s' = gs_fs s"
  by (auto simp: acquireAccountSlot_def Let_def split: if_splits)

lemma reserveStreaming_flow:
  "reserveStreaming v2 it sel s = (r, s') \<Longrightarrow> r \<noteq> Again \<and> gs_fs s' = gs_fs s"
  by (auto simp: reserveStreaming_def split: if_splits)

lemma forwardFailed_again:
  assumes "forwardFailed v2 qf it sel res s = (Again, s')"
  obtains err calls where "HandleFailoverError (it_canceled it) (sel_account sel) (sel_platform sel) err (gs_fs s) =
    (Continue, calls, gs_fs s')"
  using assms that by (auto simp: forwardFailed_def Let_def split: forward_result.splits if_splits prod.splits Action.splits)

lemma selectAccount_again:
  assumes "selectAccount it s = (Again, s')"
  shows "FailedAccountIDs (gs_fs s) \<noteq> {} \<and>
    (\<exists>calls. HandleSelectionExhausted (it_canceled it) (gs_fs s) = (Continue, calls, gs_fs s'))"
  using assms by (auto simp: selectAccount_def Let_def split: sum.splits if_splits prod.splits Action.splits)

lemma gwIteration_again:
  assumes "gwIteration v2 qf it s = (Again, s')"
  shows "(FailedAccountIDs (gs_fs s) \<noteq> {} \<and>
      (\<exists>calls. HandleSelectionExhausted (it_canceled it) (gs_fs s) = (Continue, calls, gs_fs s'))) \<or>
    (\<exists>sel err calls. it_select it = Inr sel \<and>
      HandleFailoverError (it_canceled it) (sel_account sel) (sel_platform sel) err (gs_fs s) = (Continue, calls, gs_fs s'))"
proof (cases "selectAccount it s")
  case (Pair r s1)
  show ?thesis
  proof (cases r)
    case (Go sel)
    with Pair have sel: "it_select it = Inr sel" "s1 = s"
      by (auto simp: selectAccount_def Let_def split: sum.splits if_splits prod.splits Action.splits)
    obtain r2 s2 where 2: "acquireAccountSlot it sel s1 = (r2, s2)" by fastforce
    obtain r3 s3 where 3: "reserveStreaming v2 it sel s2 = (r3, s3)" by fastforce
    note same = acquireAccountSlot_flow [OF 2] reserveStreaming_flow [OF 3]
    have "\<exists>res s4. forwardFailed v2 qf it sel res s4 = (Again, s') \<and> gs_fs s4 = gs_fs s3"
      using assms Pair Go 2 3 same
      by (cases r2; cases r3) (auto simp: gwIteration_def Let_def intro!: exI split: if_splits)
    with same sel show ?thesis by (metis forwardFailed_again)
  qed (use assms Pair selectAccount_again in \<open>auto simp: gwIteration_def\<close>)
qed

lemma gwIteration_budget:
  assumes "finite A" "selects_within A it" "gwIteration v2 qf it s = (Again, s')"
  shows "failover_budget A (gs_fs s') < failover_budget A (gs_fs s)"
  using gwIteration_again [OF assms(3)]
proof (elim disjE conjE exE)
  fix sel err calls
  assume sel: "it_select it = Inr sel"
    and step: "HandleFailoverError (it_canceled it) (sel_account sel) (sel_platform sel) err (gs_fs s) =
      (Continue, calls, gs_fs s')"
  from sel assms(2) have "sel_account sel \<in> A" by (simp add: selects_within_def)
  then show ?thesis using HandleFailoverError_budget [OF assms(1) _ step] by blast
qed (rule HandleSelectionExhausted_budget)

lemma gwLoop_returns:
  assumes "finite A" "\<forall>n. selects_within A (its n)" "failover_budget A (gs_fs s) < fuel"
  shows "\<exists>s'. gwLoop v2 qf its n fuel s = Some s'"
  using assms(3)
proof (induction fuel arbitrary: n s)
  case (Suc fuel)
  obtain r s1 where it: "gwIteration v2 qf (its n) s = (r, s1)" by fastforce
  show ?case
  proof (cases r)
    case Again
    with it gwIteration_budget [OF assms(1)] assms(2) have "failover_budget A (gs_fs s1) < failover_budget A (gs_fs s)" by blast
    with Suc.prems have "failover_budget A (gs_fs s1) < fuel" by linarith
    from Suc.IH [OF this, of "n + 1"] it Again show ?thesis by simp
  qed (simp_all add: it)
qed simp

section \<open>The protocol of slots, reservations and charges\<close>

text \<open>
  A monitor reads the trace of a request: whether it is counted in the user's wait queue and
  holds a user slot, which account slot and which reservation are open,
  which account was forwarded to last, how often the request was charged, and whether every
  event was allowed.  A request may be forwarded only on the account whose slot it holds and,
  with streaming billing, only under a reservation for that account; it may be charged only
  for the account it was last forwarded to; and a slot or reservation is closed exactly once.
\<close>

record monitor =
  mo_waiting :: bool
  mo_user :: bool
  mo_slot :: "int64 option"
  mo_resv :: "int64 option"
  mo_fwd :: "int64 option"
  mo_charges :: nat
  mo_ok :: bool

abbreviation "allow b m \<equiv> m\<lparr>mo_ok := mo_ok m \<and> b\<rparr>"

fun mo_step :: "bool \<Rightarrow> gw_event \<Rightarrow> monitor \<Rightarrow> monitor" where
  "mo_step v2 WaitIncremented m = (allow (\<not> mo_waiting m) m)\<lparr>mo_waiting := True\<rparr>"
| "mo_step v2 WaitDecremented m = (allow (mo_waiting m) m)\<lparr>mo_waiting := False\<rparr>"
| "mo_step v2 UserSlotAcquired m = (allow (\<not> mo_user m) m)\<lparr>mo_user := True\<rparr>"
| "mo_step v2 UserSlotReleased m = (allow (mo_user m \<and> mo_slot m = None \<and> mo_resv m = None) m)\<lparr>mo_user := False\<rparr>"
| "mo_step v2 (AccountSlotAcquired a) m =
     (allow (mo_user m \<and> \<not> mo_waiting m \<and> mo_slot m = None) m)\<lparr>mo_slot := Some a\<rparr>"
| "mo_step v2 (AccountSlotReleased a) m = (allow (mo_slot m = Some a) m)\<lparr>mo_slot := None\<rparr>"
| "mo_step v2 (Reserved a) m = (allow (mo_resv m = None \<and> mo_slot m = Some a) m)\<lparr>mo_resv := Some a\<rparr>"
| "mo_step v2 (ReleasePublished a) m = (allow (mo_resv m = a \<and> a \<noteq> None) m)\<lparr>mo_resv := None\<rparr>"
| "mo_step v2 (Forwarded a) m =
     (allow (mo_slot m = Some a \<and> (v2 \<longrightarrow> mo_resv m = Some a)) m)\<lparr>mo_fwd := Some a\<rparr>"
| "mo_step v2 (Finalized a ok) m =
     (let m1 = allow (mo_fwd m = Some a \<and> mo_resv m = Some a \<and> mo_charges m = 0) m
      in if ok then m1\<lparr>mo_charges := mo_charges m + 1, mo_resv := None\<rparr> else m1)"
| "mo_step v2 (UsageRecorded a ok) m =
     (let m1 = allow (mo_fwd m = Some a \<and> mo_charges m = 0) m
      in if ok then m1\<lparr>mo_charges := mo_charges m + 1\<rparr> else m1)"
| "mo_step v2 _ m = m"

definition mo_start :: monitor where
  "mo_start = \<lparr>mo_waiting = False, mo_user = False, mo_slot = None, mo_resv = None, mo_fwd = None, mo_charges = 0, mo_ok = True\<rparr>"

definition mo_run :: "bool \<Rightarrow> gw_event list \<Rightarrow> monitor" where
  "mo_run v2 es = fold (mo_step v2) es mo_start"

definition neutral :: "gw_event list \<Rightarrow> bool" where
  "neutral es \<longleftrightarrow> (\<forall>v2 m. fold (mo_step v2) es m = m)"

lemma neutral_fold [simp]: "neutral es \<Longrightarrow> fold (mo_step v2) es m = m"
  by (simp add: neutral_def)

lemma neutral_append [simp]: "neutral xs \<Longrightarrow> neutral ys \<Longrightarrow> neutral (xs @ ys)"
  by (subst neutral_def) simp

lemma neutral_events [simp]:
  "neutral (handleFailoverExhausted e b)" "neutral (handleConcurrencyError t b)"
  "neutral (ensureForwardErrorResponse w b)" "neutral (commitCapture q)" "neutral (discardCapture q)"
  "neutral [Respond st ty msg]" "neutral [TerminalDiscarded]" "neutral [TerminalCommitted]" "neutral []"
  by (auto simp: neutral_def handleFailoverExhausted_def handleConcurrencyError_def handleStreamingAwareError_def
      ensureForwardErrorResponse_def commitCapture_def discardCapture_def simp del: neutral_fold)

lemma neutral_calls [simp]: "neutral (map FailoverCall calls)"
  by (induction calls) (auto simp: neutral_def simp del: neutral_fold)

text \<open>The state between two stages: the open slot and reservation agree with the handler's variables.\<close>

definition gw_at :: "bool \<Rightarrow> int64 option \<Rightarrow> int64 option \<Rightarrow> int64 option \<Rightarrow> gw_state \<Rightarrow> bool" where
  "gw_at v2 slot resv fwd s \<longleftrightarrow>
     mo_run v2 (gs_trace s) = \<lparr>mo_waiting = False, mo_user = True, mo_slot = slot, mo_resv = resv, mo_fwd = fwd, mo_charges = 0, mo_ok = True\<rparr> \<and>
     gs_published s = (resv \<noteq> None) \<and> \<not> gs_finalized s \<and> gs_account s = resv \<and> gs_terminal s = (resv \<noteq> None)"

text \<open>The handler may return: after the deferred release nothing is open.\<close>

definition gw_closed :: "bool \<Rightarrow> gw_state \<Rightarrow> bool" where
  "gw_closed v2 s \<longleftrightarrow>
     (let m = mo_run v2 (gs_trace (releaseStreamReservation v2 s))
      in mo_ok m \<and> mo_user m \<and> \<not> mo_waiting m \<and> mo_slot m = None \<and> mo_resv m = None \<and> mo_charges m \<le> 1)"

lemma mo_run_append: "mo_run v2 (xs @ ys) = fold (mo_step v2) ys (mo_run v2 xs)"
  by (simp add: mo_run_def)

lemma gw_at_neutral [simp]: "neutral es \<Longrightarrow> gw_at v2 slot resv fwd (emit es s) = gw_at v2 slot resv fwd s"
  by (simp add: gw_at_def emit_def mo_run_append)

lemma gw_at_frame [simp]:
  "gw_at v2 slot resv fwd (s\<lparr>gs_fs := x\<rparr>) = gw_at v2 slot resv fwd s"
  "gw_at v2 slot resv fwd (s\<lparr>gs_started := b\<rparr>) = gw_at v2 slot resv fwd s"
  by (simp_all add: gw_at_def)

lemmas gw_event_simps = gw_at_def emit_def mo_run_append

lemma gw_at_release:
  "gw_at v2 None resv fwd s \<Longrightarrow> (resv \<noteq> None \<longrightarrow> v2) \<Longrightarrow> gw_at v2 None None fwd (releaseStreamReservation v2 s)"
  by (auto simp: gw_event_simps releaseStreamReservation_def Let_def)

lemma gw_at_closed: "gw_at v2 None resv fwd s \<Longrightarrow> (resv \<noteq> None \<longrightarrow> v2) \<Longrightarrow> gw_closed v2 s"
  using gw_at_release [of v2 resv fwd s] by (simp add: gw_closed_def gw_at_def)

lemma selectAccount_at:
  "gw_at v2 None None fwd s \<Longrightarrow> gw_at v2 None None fwd (snd (selectAccount it s))"
  by (auto simp: selectAccount_def Let_def split: sum.splits prod.splits Action.splits)

lemma acquireAccountSlot_at:
  assumes "gw_at v2 None None fwd s" "acquireAccountSlot it sel s = (r, s')"
  shows "if r = Go () then gw_at v2 (Some (sel_account sel)) None fwd s' else gw_at v2 None None fwd s'"
  using assms
  by (auto simp: acquireAccountSlot_def Let_def split: if_splits) (auto simp: gw_event_simps)

lemma reserveStreaming_at:
  assumes "gw_at v2 (Some (sel_account sel)) None fwd s" "reserveStreaming v2 it sel s = (r, s')"
  shows "if r = Go () then gw_at v2 (Some (sel_account sel)) (if v2 then Some (sel_account sel) else None) fwd s'
    else gw_at v2 None None fwd s'"
  using assms by (auto simp: reserveStreaming_def gw_event_simps split: if_splits)

lemma forward_at:
  "gw_at v2 (Some a) (if v2 then Some a else None) fwd s \<Longrightarrow>
   gw_at v2 None (if v2 then Some a else None) (Some a) (emit [Forwarded a, AccountSlotReleased a] s)"
  by (auto simp: gw_event_simps)

lemma forwardFailed_at:
  assumes "gw_at v2 None (if v2 then Some a else None) (Some a) s" "forwardFailed v2 qf it sel res s = (r, s')"
  shows "if r = Again then gw_at v2 None None (Some a) s'
    else gw_at v2 None (if v2 then Some a else None) (Some a) s'"
  using assms gw_at_release [of v2 "if v2 then Some a else None" "Some a"]
  by (auto simp: forwardFailed_def Let_def split: forward_result.splits prod.splits Action.splits if_splits)

lemma recordUsage_closed:
  assumes "gw_at v2 None (if v2 then Some (sel_account sel) else None) (Some (sel_account sel)) s"
  shows "gw_closed v2 (recordUsage v2 qf it sel s)"
  using assms
  by (auto simp: recordUsage_def gw_closed_def gw_event_simps releaseStreamReservation_def Let_def
      commitCapture_def discardCapture_def)

lemma gwIteration_at:
  assumes "gw_at v2 None None fwd s" "gwIteration v2 qf it s = (r, s')"
  shows "if r = Again then \<exists>fwd'. gw_at v2 None None fwd' s' else gw_closed v2 s'"
proof -
  obtain r1 s1 where 1: "selectAccount it s = (r1, s1)" by fastforce
  then have a1: "gw_at v2 None None fwd s1" using selectAccount_at [OF assms(1), of it] by simp
  show ?thesis
  proof (cases r1)
    case (Go sel)
    let ?a = "sel_account sel"
    obtain r2 s2 where 2: "acquireAccountSlot it sel s1 = (r2, s2)" by fastforce
    obtain r3 s3 where 3: "reserveStreaming v2 it sel s2 = (r3, s3)" by fastforce
    let ?s4 = "emit [Forwarded ?a, AccountSlotReleased ?a] s3"
    note f2 = acquireAccountSlot_flow [OF 2] and f3 = reserveStreaming_flow [OF 3]
    show ?thesis
    proof (cases "r2 = Go () \<and> r3 = Go ()")
      case True
      then have "gw_at v2 (Some ?a) None fwd s2" using acquireAccountSlot_at [OF a1 2] by simp
      from reserveStreaming_at [OF this 3] True
      have "gw_at v2 None (if v2 then Some ?a else None) (Some ?a) ?s4" by (intro forward_at) simp
      note recordUsage_closed [OF this, of qf it] forwardFailed_at [OF this] gw_at_closed
      with assms(2) 1 Go 2 3 True show ?thesis
        by (fastforce simp: gwIteration_def Let_def split: if_splits)
    next
      case False
      with acquireAccountSlot_at [OF a1 2] reserveStreaming_at [of v2 sel fwd s2 it, OF _ 3] f2 f3
      have "gw_at v2 None None fwd s' \<and> r \<noteq> Again"
        using assms(2) 1 Go 2 3 by (cases r2; cases r3) (auto simp: gwIteration_def split: if_splits)
      then show ?thesis using gw_at_closed by auto
    qed
  qed (use assms(2) 1 a1 gw_at_closed in \<open>auto simp: gwIteration_def\<close>)
qed

lemma gwLoop_closed:
  assumes "gw_at v2 None None fwd s" "gwLoop v2 qf its n fuel s = Some s'"
  shows "gw_closed v2 s'"
  using assms
proof (induction fuel arbitrary: n s fwd)
  case (Suc fuel)
  obtain r s1 where it: "gwIteration v2 qf (its n) s = (r, s1)" by fastforce
  note at = gwIteration_at [OF Suc.prems(1) it]
  show ?case using Suc.IH Suc.prems(2) it at by (cases r) auto
qed simp

definition mo_closed :: "monitor \<Rightarrow> bool" where
  "mo_closed m \<longleftrightarrow> mo_ok m \<and> \<not> mo_user m \<and> \<not> mo_waiting m \<and> mo_slot m = None \<and> mo_resv m = None \<and> mo_charges m \<le> 1"

lemma gw_at_new:
  "mo_run v2 entered = mo_start\<lparr>mo_user := True\<rparr> \<Longrightarrow> gw_at v2 None None None (newGwState m b entered)"
  by (simp add: gw_at_def newGwState_def mo_start_def)

lemma serveRequest_closed:
  assumes "serveRequest v2 qf mx fuel env = Some tr"
  shows "mo_closed (mo_run v2 tr)"
proof (cases "ge_wait env = Some False")
  case True
  with assms show ?thesis by (auto simp: serveRequest_def mo_closed_def mo_run_def mo_start_def)
next
  case False
  define inc where "inc = (if ge_wait env \<noteq> None then [WaitIncremented] else [])"
  define dec where "dec = (if ge_wait env \<noteq> None then [WaitDecremented] else [])"
  let ?entered = "inc @ [UserSlotAcquired] @ dec"
  have entered: "mo_run v2 ?entered = mo_start\<lparr>mo_user := True\<rparr>"
    by (simp add: mo_run_def mo_start_def inc_def dec_def)
  have early: "mo_closed (mo_run v2 (inc @ es @ dec))" if "neutral es" for es
    using that by (simp add: mo_run_append) (simp add: mo_run_def mo_start_def inc_def dec_def mo_closed_def)
  have serve: "serveRequest v2 qf mx fuel env =
      (if \<not> ge_userSlot env then Some (inc @ handleConcurrencyError ''user'' (ge_userStarted env) @ dec)
       else case ge_billing env of
         Some (status, code, message) \<Rightarrow> Some (?entered @ [Respond status code message, UserSlotReleased])
       | None \<Rightarrow> (case gwLoop v2 qf (ge_iters env) 0 fuel (newGwState mx (ge_userStarted env) ?entered) of
           None \<Rightarrow> None
         | Some s \<Rightarrow> Some (gs_trace (releaseStreamReservation v2 s) @ [UserSlotReleased])))"
    using False by (auto simp: serveRequest_def inc_def dec_def split: option.splits bool.splits)
  have loop: "mo_closed (mo_run v2 (gs_trace (releaseStreamReservation v2 s) @ [UserSlotReleased]))"
    if "gwLoop v2 qf (ge_iters env) 0 fuel (newGwState mx (ge_userStarted env) ?entered) = Some s" for s
    using gwLoop_closed [OF gw_at_new [OF entered] that]
    by (simp add: gw_closed_def mo_closed_def mo_run_append Let_def)
  show ?thesis
    using assms early loop entered
    by (auto simp: serve split: if_splits option.splits)
      (simp add: mo_run_append mo_closed_def, simp add: mo_start_def)
qed

section \<open>Properties\<close>

text \<open>Streaming billing is on for the request of the environment.\<close>

definition requestV2 :: "gjson_get \<Rightarrow> (gjson_result \<Rightarrow> bool) \<Rightarrow> gw_config option \<Rightarrow> gw_env \<Rightarrow> bool" where
  "requestV2 gj gj_bool cfg env =
     (case ge_body env of BodyOK body \<Rightarrow> streamingV2Enabled cfg (gj_bool (gj body ''stream'')) | _ \<Rightarrow> False)"

lemma checkRequest_Inr:
  "checkRequest gj_valid gj gj_bool env = Inr (mdl, st) \<Longrightarrow> streamingV2Enabled cfg st = requestV2 gj gj_bool cfg env"
  by (auto simp: checkRequest_def requestV2_def split: if_splits body_read.splits gjson_result.splits gjson_type.splits)

lemma checkRequest_Inl:
  "checkRequest gj_valid gj gj_bool env = Inl e \<Longrightarrow> \<exists>st ty msg. e = Respond st ty msg"
  by (auto simp: checkRequest_def split: if_splits body_read.splits gjson_result.splits gjson_type.splits)

text \<open>A request environment for the witnesses: one account that answers on the second attempt.\<close>

definition exampleErr :: UpstreamFailoverError where
  "exampleErr = \<lparr>StatusCode = 503, ResponseBody = [], ResponseHeaders = [], ErrForceCacheBilling = False,
     RetryableOnSameAccount = False\<rparr>"

definition exampleIter :: "int64 \<Rightarrow> forward_result \<Rightarrow> gw_iter" where
  "exampleIter a res = \<lparr>it_select = Inr \<lparr>sel_account = a, sel_platform = ''anthropic'', sel_acquired = True, sel_waitPlan = False\<rparr>,
     it_slot = True, it_started = False, it_reserve = True, it_forward = res, it_written = False,
     it_canceled = False, it_record = True\<rparr>"

definition exampleEnv :: gw_env where
  "exampleEnv = \<lparr>ge_apiKey = True, ge_subject = True, ge_body = BodyOK ''b'', ge_claudeCodeOnly = False,
     ge_wait = Some True, ge_userSlot = True, ge_userStarted = False, ge_billing = None,
     ge_iters = (\<lambda>n. if n = 0 then exampleIter 1 (ForwardFailover exampleErr False) else exampleIter 2 ForwardOK)\<rparr>"

abbreviation exampleChat :: "nat \<Rightarrow> gw_event list option" where
  "exampleChat fuel \<equiv> ChatCompletions (\<lambda>_. True) (\<lambda>_ k. if k = ''model'' then JValue JString ''m'' else JValue JTrue ''true'')
     (\<lambda>r. r = JValue JTrue ''true'') None 3 fuel exampleEnv"

text \<open>
  C11. The failover loop ends: however accounts are selected (among a finite set \<open>A\<close>), fail,
  are retried or run out, the handler \<open>ChatCompletions\<close> returns after at most
  \<open>2 * maxAccountSwitches + 3 * |A| + 1\<close> passes, with every deferred call made.
\<close>

theorem chat_completions_returns:
  assumes "finite A" and "\<forall>n. selects_within A (ge_iters env n)"
    and "2 * nat maxAccountSwitches + 3 * card A < fuel"
  shows "\<exists>tr. ChatCompletions gj_valid gj gj_bool cfg maxAccountSwitches fuel env = Some tr"
proof -
  have loop: "\<exists>s'. gwLoop v2 qf (ge_iters env) 0 fuel (newGwState maxAccountSwitches b tr) = Some s'" for v2 qf b tr
    using assms failover_budget_NewState [OF assms(1), of maxAccountSwitches False]
    by (intro gwLoop_returns [of A]) (simp_all add: newGwState_def)
  have "serveRequest v2 qf maxAccountSwitches fuel env \<noteq> None" for v2 qf
  proof -
    have "gwLoop v2 qf (ge_iters env) 0 fuel (newGwState maxAccountSwitches (ge_userStarted env) tr) \<noteq> None" for tr
      using loop [of v2 qf "ge_userStarted env" tr] by (metis option.distinct(1))
    then show ?thesis
      by (cases "ge_wait env") (auto simp: serveRequest_def Let_def simp del: not_None_eq split: option.split bool.split)
  qed
  then show ?thesis by (auto simp: ChatCompletions_def split: sum.splits)
qed

theorem chat_completions_returns_witness: "\<exists>tr. exampleChat 13 = Some tr"
  by (rule chat_completions_returns [of "{1, 2}"])
    (auto simp: selects_within_def exampleEnv_def exampleIter_def)

text \<open>
  C12. Every finished request follows the protocol of slots, reservations and charges: it is
  forwarded only on an account whose slot it holds and, with streaming billing, only under a
  reservation for that account; each account slot, each reservation, the user slot and the
  place in the wait queue are given back exactly once and none is left open; and the request
  is charged at most once, for the account it was last forwarded to.
\<close>

theorem chat_completions_protocol:
  assumes "ChatCompletions gj_valid gj gj_bool cfg maxAccountSwitches fuel env = Some tr"
  shows "mo_closed (mo_run (requestV2 gj gj_bool cfg env) tr)"
proof (cases "checkRequest gj_valid gj gj_bool env")
  case (Inl e)
  with assms checkRequest_Inl [OF Inl] show ?thesis
    by (auto simp: ChatCompletions_def mo_closed_def mo_run_def mo_start_def)
next
  case (Inr p)
  obtain mdl st where "p = (mdl, st)" by fastforce
  with assms Inr checkRequest_Inr [of gj_valid gj gj_bool env mdl st cfg] show ?thesis
    by (auto simp: ChatCompletions_def dest: serveRequest_closed)
qed

theorem chat_completions_protocol_witness:
  "exampleChat 13 =
     Some [WaitIncremented, UserSlotAcquired, WaitDecremented,
       AccountSlotAcquired 1, Reserved 1, TerminalBegun, Forwarded 1, AccountSlotReleased 1,
       FailoverCall (RecordAccountFailover ''anthropic''), TerminalDiscarded, ReleasePublished (Some 1),
       AccountSlotAcquired 2, Reserved 2, TerminalBegun, Forwarded 2, AccountSlotReleased 2,
       Finalized 2 True, TerminalCommitted, UserSlotReleased] \<and>
   mo_closed (mo_run True (the (exampleChat 13)))"
proof -
  have run: "exampleChat 13 =
     Some [WaitIncremented, UserSlotAcquired, WaitDecremented,
       AccountSlotAcquired 1, Reserved 1, TerminalBegun, Forwarded 1, AccountSlotReleased 1,
       FailoverCall (RecordAccountFailover ''anthropic''), TerminalDiscarded, ReleasePublished (Some 1),
       AccountSlotAcquired 2, Reserved 2, TerminalBegun, Forwarded 2, AccountSlotReleased 2,
       Finalized 2 True, TerminalCommitted, UserSlotReleased]"
    by (simp add: ChatCompletions_def checkRequest_def serveRequest_def exampleEnv_def exampleIter_def exampleErr_def
        streamingV2Enabled_def queueFirstNonStreamEnabled_def numeral_eq_Suc gwIteration_def selectAccount_def
        acquireAccountSlot_def reserveStreaming_def forwardFailed_def recordUsage_def releaseStreamReservation_def
        newGwState_def NewState_def failover_defs emit_def NeedForceCacheBilling_def retryCount_def
        platformAntigravity_def discardCapture_def)
  with chat_completions_protocol [OF run] show ?thesis
    by (simp add: requestV2_def exampleEnv_def streamingV2Enabled_def)
qed

end
