(* ===== verification/Entities.thy ===== *)
theory Entities
  imports Prelude Complex_Main
begin

text \<open>
  The entities that admission to the gateway is decided on: API keys
  (\<open>internal/service/api_key.go\<close>), groups (\<open>group.go\<close>), users (\<open>user.go\<close>) and subscriptions
  (\<open>user_subscription.go\<close>), with their predicates.  \<open>now\<close> is the clock, in seconds; amounts
  are rationals.  Display fields and bookkeeping (descriptions, notes, sort orders, creation times,
  compiled IP rules, two-factor secrets, back references, statistics) are left out.
\<close>

definition statusActive :: gostr where
  "statusActive = ''active''"

section \<open>Groups\<close>

record Group =
  gr_ID :: int64
  gr_Name :: gostr
  gr_Platform :: gostr
  gr_RateMultiplier :: rat
  gr_IsExclusive :: bool
  gr_Status :: gostr
  gr_Hydrated :: bool
  gr_SubscriptionType :: gostr
  gr_DailyLimitUSD :: "rat option"
  gr_WeeklyLimitUSD :: "rat option"
  gr_MonthlyLimitUSD :: "rat option"
  gr_DefaultValidityDays :: int
  gr_ImagePrice1K :: "rat option"
  gr_ImagePrice2K :: "rat option"
  gr_ImagePrice4K :: "rat option"
  gr_ClaudeCodeOnly :: bool
  gr_FallbackGroupID :: "int64 option"
  gr_FallbackGroupIDOnInvalidRequest :: "int64 option"
  gr_ModelRouting :: "(gostr \<times> int64 list) list"
  gr_ModelRoutingEnabled :: bool
  gr_MCPXMLInject :: bool
  gr_SupportedModelScopes :: "gostr list"
  gr_AllowMessagesDispatch :: bool
  gr_RequireOAuthOnly :: bool
  gr_RequirePrivacySet :: bool
  gr_DefaultMappedModel :: gostr

definition groupIsActive :: "Group \<Rightarrow> bool" where
  "groupIsActive g = (gr_Status g = statusActive)"

definition IsSubscriptionType :: "Group \<Rightarrow> bool" where
  "IsSubscriptionType g = (gr_SubscriptionType g = ''subscription'')"

definition IsFreeSubscription :: "Group \<Rightarrow> bool" where
  "IsFreeSubscription g = (IsSubscriptionType g \<and> gr_RateMultiplier g = 0)"

definition positiveLimit :: "rat option \<Rightarrow> bool" where
  "positiveLimit l = (case l of None \<Rightarrow> False | Some x \<Rightarrow> 0 < x)"

definition HasDailyLimit :: "Group \<Rightarrow> bool" where
  "HasDailyLimit g = positiveLimit (gr_DailyLimitUSD g)"

definition HasWeeklyLimit :: "Group \<Rightarrow> bool" where
  "HasWeeklyLimit g = positiveLimit (gr_WeeklyLimitUSD g)"

definition HasMonthlyLimit :: "Group \<Rightarrow> bool" where
  "HasMonthlyLimit g = positiveLimit (gr_MonthlyLimitUSD g)"

definition GetImagePrice :: "Group \<Rightarrow> gostr \<Rightarrow> rat option" where
  "GetImagePrice g imageSize =
     (if imageSize = ''1K'' then gr_ImagePrice1K g else if imageSize = ''2K'' then gr_ImagePrice2K g
      else if imageSize = ''4K'' then gr_ImagePrice4K g else gr_ImagePrice2K g)"

definition IsGroupContextValid :: "Group option \<Rightarrow> bool" where
  "IsGroupContextValid grp =
     (case grp of
        None \<Rightarrow> False
      | Some g \<Rightarrow> \<not> (gr_ID g \<le> 0) \<and> gr_Hydrated g \<and> \<not> (gr_Platform g = [] \<or> gr_Status g = []))"

text \<open>
  A routing table is a Go map; the list is its entries in the order in which one \<open>range\<close> loop
  happens to visit them, with distinct patterns.
\<close>

definition matchModelPattern :: "gostr \<Rightarrow> gostr \<Rightarrow> bool" where
  "matchModelPattern pattern mdl =
     (if pattern = mdl then True
      else if pattern \<noteq> [] \<and> last pattern = CHR ''*'' then has_prefix mdl (butlast pattern)
      else False)"

definition GetRoutingAccountIDs :: "Group \<Rightarrow> gostr \<Rightarrow> int64 list" where
  "GetRoutingAccountIDs g requestedModel =
     (if \<not> gr_ModelRoutingEnabled g \<or> gr_ModelRouting g = [] \<or> requestedModel = [] then []
      else case map_of (gr_ModelRouting g) requestedModel of
             Some (i # is) \<Rightarrow> i # is
           | _ \<Rightarrow> (case find (\<lambda>(pattern, ids). matchModelPattern pattern requestedModel \<and> ids \<noteq> []) (gr_ModelRouting g) of
                     Some (pattern, ids) \<Rightarrow> ids
                   | None \<Rightarrow> []))"

section \<open>API keys\<close>

definition RateLimitWindow5h :: int where "RateLimitWindow5h = 5 * 3600"
definition RateLimitWindow1d :: int where "RateLimitWindow1d = 24 * 3600"
definition RateLimitWindow7d :: int where "RateLimitWindow7d = 7 * 24 * 3600"

definition IsWindowExpired :: "time \<Rightarrow> time option \<Rightarrow> int \<Rightarrow> bool" where
  "IsWindowExpired now windowStart duration =
     (case windowStart of None \<Rightarrow> True | Some t \<Rightarrow> duration \<le> now - t)"

record User =
  us_ID :: int64
  us_Email :: gostr
  us_Role :: gostr
  us_Balance :: rat
  us_Concurrency :: int
  us_Status :: gostr
  us_AllowedGroups :: "int64 list"
  us_GroupRates :: "(int64 \<times> rat) list"

definition userIsAdmin :: "User \<Rightarrow> bool" where
  "userIsAdmin u = (us_Role u = ''admin'')"

definition userIsActive :: "User \<Rightarrow> bool" where
  "userIsActive u = (us_Status u = statusActive)"

definition CanBindGroup :: "User \<Rightarrow> int64 \<Rightarrow> bool \<Rightarrow> bool" where
  "CanBindGroup u groupID isExclusive = (if \<not> isExclusive then True else list_ex (\<lambda>i. i = groupID) (us_AllowedGroups u))"

record APIKey =
  ak_ID :: int64
  ak_UserID :: int64
  ak_Key :: gostr
  ak_Name :: gostr
  ak_GroupID :: "int64 option"
  ak_Status :: gostr
  ak_IPWhitelist :: "gostr list"
  ak_IPBlacklist :: "gostr list"
  ak_User :: "User option"
  ak_Group :: "Group option"
  ak_Quota :: rat
  ak_QuotaUsed :: rat
  ak_ExpiresAt :: "time option"
  ak_RateLimit5h :: rat
  ak_RateLimit1d :: rat
  ak_RateLimit7d :: rat
  ak_Usage5h :: rat
  ak_Usage1d :: rat
  ak_Usage7d :: rat
  ak_Window5hStart :: "time option"
  ak_Window1dStart :: "time option"
  ak_Window7dStart :: "time option"

definition keyIsActive :: "APIKey \<Rightarrow> bool" where
  "keyIsActive k = (ak_Status k = statusActive)"

definition HasRateLimits :: "APIKey \<Rightarrow> bool" where
  "HasRateLimits k = (0 < ak_RateLimit5h k \<or> 0 < ak_RateLimit1d k \<or> 0 < ak_RateLimit7d k)"

definition keyIsExpired :: "time \<Rightarrow> APIKey \<Rightarrow> bool" where
  "keyIsExpired now k = (case ak_ExpiresAt k of None \<Rightarrow> False | Some t \<Rightarrow> t < now)"

definition IsQuotaExhausted :: "APIKey \<Rightarrow> bool" where
  "IsQuotaExhausted k = (if ak_Quota k \<le> 0 then False else ak_Quota k \<le> ak_QuotaUsed k)"

definition GetQuotaRemaining :: "APIKey \<Rightarrow> rat" where
  "GetQuotaRemaining k =
     (if ak_Quota k \<le> 0 then - 1
      else let remaining = ak_Quota k - ak_QuotaUsed k in if remaining < 0 then 0 else remaining)"

definition GetDaysUntilExpiry :: "time \<Rightarrow> APIKey \<Rightarrow> int" where
  "GetDaysUntilExpiry now k =
     (case ak_ExpiresAt k of
        None \<Rightarrow> - 1
      | Some t \<Rightarrow> let duration = t - now in if duration < 0 then 0 else trunc_div duration (24 * 3600))"

definition EffectiveUsage5h :: "time \<Rightarrow> APIKey \<Rightarrow> rat" where
  "EffectiveUsage5h now k = (if IsWindowExpired now (ak_Window5hStart k) RateLimitWindow5h then 0 else ak_Usage5h k)"

definition EffectiveUsage1d :: "time \<Rightarrow> APIKey \<Rightarrow> rat" where
  "EffectiveUsage1d now k = (if IsWindowExpired now (ak_Window1dStart k) RateLimitWindow1d then 0 else ak_Usage1d k)"

definition EffectiveUsage7d :: "time \<Rightarrow> APIKey \<Rightarrow> rat" where
  "EffectiveUsage7d now k = (if IsWindowExpired now (ak_Window7dStart k) RateLimitWindow7d then 0 else ak_Usage7d k)"

section \<open>Subscriptions\<close>

record UserSubscription =
  sb_ID :: int64
  sb_UserID :: int64
  sb_GroupID :: int64
  sb_StartsAt :: time
  sb_ExpiresAt :: time
  sb_Status :: gostr
  sb_DailyWindowStart :: "time option"
  sb_WeeklyWindowStart :: "time option"
  sb_MonthlyWindowStart :: "time option"
  sb_DailyUsageUSD :: rat
  sb_WeeklyUsageUSD :: rat
  sb_MonthlyUsageUSD :: rat

definition subIsActive :: "time \<Rightarrow> UserSubscription \<Rightarrow> bool" where
  "subIsActive now s = (sb_Status s = ''active'' \<and> now < sb_ExpiresAt s)"

definition subIsExpired :: "time \<Rightarrow> UserSubscription \<Rightarrow> bool" where
  "subIsExpired now s = (sb_ExpiresAt s < now)"

definition DaysRemaining :: "time \<Rightarrow> UserSubscription \<Rightarrow> int" where
  "DaysRemaining now s = (if subIsExpired now s then 0 else trunc_div (sb_ExpiresAt s - now) (24 * 3600))"

definition IsWindowActivated :: "UserSubscription \<Rightarrow> bool" where
  "IsWindowActivated s =
     (sb_DailyWindowStart s \<noteq> None \<or> sb_WeeklyWindowStart s \<noteq> None \<or> sb_MonthlyWindowStart s \<noteq> None)"

definition needsReset :: "time \<Rightarrow> int \<Rightarrow> time option \<Rightarrow> bool" where
  "needsReset now duration start = (case start of None \<Rightarrow> False | Some t \<Rightarrow> duration \<le> now - t)"

definition NeedsDailyReset :: "time \<Rightarrow> UserSubscription \<Rightarrow> bool" where
  "NeedsDailyReset now s = needsReset now (24 * 3600) (sb_DailyWindowStart s)"

definition NeedsWeeklyReset :: "time \<Rightarrow> UserSubscription \<Rightarrow> bool" where
  "NeedsWeeklyReset now s = needsReset now (7 * 24 * 3600) (sb_WeeklyWindowStart s)"

definition NeedsMonthlyReset :: "time \<Rightarrow> UserSubscription \<Rightarrow> bool" where
  "NeedsMonthlyReset now s = needsReset now (30 * 24 * 3600) (sb_MonthlyWindowStart s)"

definition DailyResetTime :: "UserSubscription \<Rightarrow> time option" where
  "DailyResetTime s = map_option (\<lambda>t. t + 24 * 3600) (sb_DailyWindowStart s)"

definition WeeklyResetTime :: "UserSubscription \<Rightarrow> time option" where
  "WeeklyResetTime s = map_option (\<lambda>t. t + 7 * 24 * 3600) (sb_WeeklyWindowStart s)"

definition MonthlyResetTime :: "UserSubscription \<Rightarrow> time option" where
  "MonthlyResetTime s = map_option (\<lambda>t. t + 30 * 24 * 3600) (sb_MonthlyWindowStart s)"

definition withinLimit :: "rat option \<Rightarrow> rat \<Rightarrow> bool" where
  "withinLimit limit usage = (case limit of None \<Rightarrow> True | Some l \<Rightarrow> usage \<le> l)"

definition CheckDailyLimit :: "UserSubscription \<Rightarrow> Group \<Rightarrow> rat \<Rightarrow> bool" where
  "CheckDailyLimit s g cost =
     (if \<not> HasDailyLimit g then True else withinLimit (gr_DailyLimitUSD g) (sb_DailyUsageUSD s + cost))"

definition CheckWeeklyLimit :: "UserSubscription \<Rightarrow> Group \<Rightarrow> rat \<Rightarrow> bool" where
  "CheckWeeklyLimit s g cost =
     (if \<not> HasWeeklyLimit g then True else withinLimit (gr_WeeklyLimitUSD g) (sb_WeeklyUsageUSD s + cost))"

definition CheckMonthlyLimit :: "UserSubscription \<Rightarrow> Group \<Rightarrow> rat \<Rightarrow> bool" where
  "CheckMonthlyLimit s g cost =
     (if \<not> HasMonthlyLimit g then True else withinLimit (gr_MonthlyLimitUSD g) (sb_MonthlyUsageUSD s + cost))"

definition CheckAllLimits :: "UserSubscription \<Rightarrow> Group \<Rightarrow> rat \<Rightarrow> bool \<times> bool \<times> bool" where
  "CheckAllLimits s g cost = (CheckDailyLimit s g cost, CheckWeeklyLimit s g cost, CheckMonthlyLimit s g cost)"

section \<open>Routing\<close>

text \<open>
  What a routing table promises: the accounts come from a rule that matches, the exact rule
  if it has accounts, and none are returned exactly when no rule with accounts matches.
\<close>

definition usableRule :: "gostr \<Rightarrow> gostr \<times> int64 list \<Rightarrow> bool" where
  "usableRule requestedModel rule \<longleftrightarrow> matchModelPattern (fst rule) requestedModel \<and> snd rule \<noteq> []"

lemma matchModelPattern_self [simp]: "matchModelPattern m m"
  by (simp add: matchModelPattern_def)

lemma matchModelPattern_iff:
  "matchModelPattern p m \<longleftrightarrow> p = m \<or> (\<exists>q. p = q @ ''*'' \<and> prefix q m)"
  by (cases p rule: rev_cases) (auto simp: matchModelPattern_def has_prefix_def)

lemma routing_off:
  "\<not> (gr_ModelRoutingEnabled g \<and> m \<noteq> []) \<Longrightarrow> GetRoutingAccountIDs g m = []"
  by (auto simp: GetRoutingAccountIDs_def)

lemma routing_on:
  "gr_ModelRoutingEnabled g \<Longrightarrow> m \<noteq> [] \<Longrightarrow> GetRoutingAccountIDs g m =
     (case map_of (gr_ModelRouting g) m of
        Some (i # is) \<Rightarrow> i # is
      | _ \<Rightarrow> (case find (usableRule m) (gr_ModelRouting g) of Some rule \<Rightarrow> snd rule | None \<Rightarrow> []))"
  by (simp add: GetRoutingAccountIDs_def usableRule_def [abs_def] case_prod_unfold
      split: option.split list.split)

text \<open>
  Routing is sound and complete whatever the order in which the table is visited: with
  routing enabled for a named model, a rule for exactly this model that has accounts decides;
  otherwise the accounts of some matching rule are returned, and none exactly when no rule
  with accounts matches.
\<close>

theorem routing_sound_and_complete:
  assumes "distinct (map fst (gr_ModelRouting g))" and "gr_ModelRoutingEnabled g" and "m \<noteq> []"
  shows "if (\<exists>is. (m, is) \<in> set (gr_ModelRouting g) \<and> is \<noteq> [])
    then (m, GetRoutingAccountIDs g m) \<in> set (gr_ModelRouting g) \<and> GetRoutingAccountIDs g m \<noteq> []
    else if (\<exists>rule \<in> set (gr_ModelRouting g). usableRule m rule)
    then (\<exists>rule \<in> set (gr_ModelRouting g). usableRule m rule \<and> GetRoutingAccountIDs g m = snd rule)
    else GetRoutingAccountIDs g m = []"
proof (cases "\<exists>is. (m, is) \<in> set (gr_ModelRouting g) \<and> is \<noteq> []")
  case True
  then obtain i "is" where rule: "(m, i # is) \<in> set (gr_ModelRouting g)" by (metis list.exhaust)
  then have "map_of (gr_ModelRouting g) m = Some (i # is)" using assms(1) by simp
  with rule True assms(2,3) show ?thesis by (simp add: routing_on)
next
  case False
  then have "map_of (gr_ModelRouting g) m \<in> {None, Some []}"
    by (cases "map_of (gr_ModelRouting g) m") (auto dest: map_of_SomeD)
  then have "GetRoutingAccountIDs g m = (case find (usableRule m) (gr_ModelRouting g) of Some rule \<Rightarrow> snd rule | None \<Rightarrow> [])"
    using assms(2,3) by (auto simp: routing_on)
  moreover have "case find (usableRule m) (gr_ModelRouting g) of
      None \<Rightarrow> \<not> (\<exists>rule \<in> set (gr_ModelRouting g). usableRule m rule)
    | Some rule \<Rightarrow> rule \<in> set (gr_ModelRouting g) \<and> usableRule m rule"
    by (auto simp: find_None_iff find_Some_iff split: option.split)
  ultimately show ?thesis using False by (auto split: option.splits)
qed

definition exampleGroup :: "(gostr \<times> int64 list) list \<Rightarrow> Group" where
  "exampleGroup rules = \<lparr>gr_ID = 4, gr_Name = ''g'', gr_Platform = ''anthropic'', gr_RateMultiplier = 1,
     gr_IsExclusive = False, gr_Status = ''active'', gr_Hydrated = True, gr_SubscriptionType = ''subscription'',
     gr_DailyLimitUSD = Some 10, gr_WeeklyLimitUSD = None, gr_MonthlyLimitUSD = Some 0, gr_DefaultValidityDays = 30,
     gr_ImagePrice1K = None, gr_ImagePrice2K = None, gr_ImagePrice4K = None, gr_ClaudeCodeOnly = False,
     gr_FallbackGroupID = None, gr_FallbackGroupIDOnInvalidRequest = None, gr_ModelRouting = rules,
     gr_ModelRoutingEnabled = True, gr_MCPXMLInject = False, gr_SupportedModelScopes = [],
     gr_AllowMessagesDispatch = False, gr_RequireOAuthOnly = False, gr_RequirePrivacySet = False,
     gr_DefaultMappedModel = []\<rparr>"

theorem routing_sound_and_complete_witness:
  "(let g = exampleGroup [(''claude-*'', [1, 2]), (''claude-opus-4'', [3])]
    in GetRoutingAccountIDs g ''claude-opus-4'' = [3])"
  using routing_sound_and_complete [of "exampleGroup [(''claude-*'', [1, 2]), (''claude-opus-4'', [3])]" "''claude-opus-4''"]
  by (auto simp: exampleGroup_def)

text \<open>
  Which of several matching wildcards decides depends on the order in which the Go map is
  visited, which the language leaves open: the same table routes one model to different
  accounts in different runs.
\<close>

theorem routing_depends_on_visit_order:
  "(let rules = [(''claude-*'', [1]), (''claude-opus-*'', [2])]
    in GetRoutingAccountIDs (exampleGroup rules) ''claude-opus-4'' = [1] \<and>
       GetRoutingAccountIDs (exampleGroup (rev rules)) ''claude-opus-4'' = [2])"
  by (simp add: GetRoutingAccountIDs_def exampleGroup_def matchModelPattern_def has_prefix_def)

end
