(* ===== verification/Billing_Cache.thy ===== *)
theory Billing_Cache
  imports Entities
begin

text \<open>
  The billing cache: its Redis side (\<open>internal/repository/billing_cache.go\<close>) and the service
  that fills it, queues updates of it and decides whether a request may be billed
  (\<open>internal/service/billing_cache_service.go\<close>).

  The cache is kept at the level of its typed entries, each with the time at which Redis drops
  it; the Lua scripts are atomic operations on it.  Every call of the cache may fail
  (\<open>ce_up\<close>); amounts are rationals and times are seconds.  The write queue is the list of tasks
  not yet taken by a worker.
\<close>

section \<open>Entries\<close>

record SubscriptionCacheData =
  sc_Status :: gostr
  sc_ExpiresAt :: time
  sc_DailyUsage :: rat
  sc_WeeklyUsage :: rat
  sc_MonthlyUsage :: rat
  sc_Version :: int64

record APIKeyRateLimitCacheData =
  rl_Usage5h :: rat
  rl_Usage1d :: rat
  rl_Usage7d :: rat
  rl_Window5h :: int64
  rl_Window1d :: int64
  rl_Window7d :: int64

record billing_store =
  bc_balance :: "int64 \<rightharpoonup> rat \<times> time"
  bc_sub :: "int64 \<times> int64 \<rightharpoonup> SubscriptionCacheData \<times> time"
  bc_rate :: "int64 \<rightharpoonup> APIKeyRateLimitCacheData \<times> time"

definition billingCacheTTL :: int where "billingCacheTTL = 5 * 60"
definition billingCacheJitter :: int where "billingCacheJitter = 30"
definition rateLimitCacheTTL :: int where "rateLimitCacheTTL = 7 * 24 * 3600"

definition jitteredTTL :: "int \<Rightarrow> int" where
  "jitteredTTL jitter = (if billingCacheJitter \<le> 0 then billingCacheTTL else billingCacheTTL - jitter)"

definition live :: "time \<Rightarrow> ('a \<times> time) option \<Rightarrow> 'a option" where
  "live now e = (case e of None \<Rightarrow> None | Some (v, expiry) \<Rightarrow> if now < expiry then Some v else None)"

section \<open>The scripts\<close>

definition deductBalanceScript :: "time \<Rightarrow> int64 \<Rightarrow> rat \<Rightarrow> int \<Rightarrow> billing_store \<Rightarrow> billing_store" where
  "deductBalanceScript now userID amount ttl s =
     (case live now (bc_balance s userID) of
        None \<Rightarrow> s
      | Some current \<Rightarrow> s\<lparr>bc_balance := (bc_balance s)(userID \<mapsto> (current - amount, now + ttl))\<rparr>)"

definition updateSubUsageScript :: "time \<Rightarrow> int64 \<Rightarrow> int64 \<Rightarrow> rat \<Rightarrow> int \<Rightarrow> billing_store \<Rightarrow> billing_store" where
  "updateSubUsageScript now userID groupID cost ttl s =
     (case live now (bc_sub s (userID, groupID)) of
        None \<Rightarrow> s
      | Some d \<Rightarrow> s\<lparr>bc_sub := (bc_sub s)((userID, groupID) \<mapsto>
          (d\<lparr>sc_DailyUsage := sc_DailyUsage d + cost, sc_WeeklyUsage := sc_WeeklyUsage d + cost,
             sc_MonthlyUsage := sc_MonthlyUsage d + cost\<rparr>, now + ttl))\<rparr>)"

definition update_window :: "time \<Rightarrow> rat \<Rightarrow> int \<Rightarrow> rat \<times> int64 \<Rightarrow> rat \<times> int64" where
  "update_window now cost duration uw =
     (case uw of (u, w) \<Rightarrow> if w = 0 \<or> now - w \<ge> duration then (cost, now) else (u + cost, w))"

definition updateRateLimitUsageScript :: "time \<Rightarrow> int64 \<Rightarrow> rat \<Rightarrow> int \<Rightarrow> billing_store \<Rightarrow> billing_store" where
  "updateRateLimitUsageScript now keyID cost ttl s =
     (case live now (bc_rate s keyID) of
        None \<Rightarrow> s
      | Some d \<Rightarrow>
          let w5 = update_window now cost RateLimitWindow5h (rl_Usage5h d, rl_Window5h d);
              w1 = update_window now cost RateLimitWindow1d (rl_Usage1d d, rl_Window1d d);
              w7 = update_window now cost RateLimitWindow7d (rl_Usage7d d, rl_Window7d d)
          in s\<lparr>bc_rate := (bc_rate s)(keyID \<mapsto>
               (\<lparr>rl_Usage5h = fst w5, rl_Usage1d = fst w1, rl_Usage7d = fst w7,
                 rl_Window5h = snd w5, rl_Window1d = snd w1, rl_Window7d = snd w7\<rparr>, now + ttl))\<rparr>)"

section \<open>The cache\<close>

datatype cache_op =
    OpGetBalance | OpSetBalance | OpDeductBalance | OpDelBalance
  | OpGetSub | OpSetSub | OpUpdateSub | OpDelSub | OpGetRate | OpSetRate | OpUpdateRate | OpDelRate

datatype cache_error = CacheFailed | CacheMiss | CacheInvalid

record cache_env =
  ce_now :: time
  ce_jitter :: int
  ce_up :: "cache_op \<Rightarrow> bool"

definition cacheWrite :: "cache_env \<Rightarrow> cache_op \<Rightarrow> (billing_store \<Rightarrow> billing_store) \<Rightarrow> billing_store \<Rightarrow> bool \<times> billing_store" where
  "cacheWrite env oper f s = (if ce_up env oper then (True, f s) else (False, s))"

definition cacheGetUserBalance :: "cache_env \<Rightarrow> int64 \<Rightarrow> billing_store \<Rightarrow> cache_error + rat" where
  "cacheGetUserBalance env userID s =
     (if \<not> ce_up env OpGetBalance then Inl CacheFailed
      else case live (ce_now env) (bc_balance s userID) of None \<Rightarrow> Inl CacheMiss | Some b \<Rightarrow> Inr b)"

definition cacheSetUserBalance :: "cache_env \<Rightarrow> int64 \<Rightarrow> rat \<Rightarrow> billing_store \<Rightarrow> bool \<times> billing_store" where
  "cacheSetUserBalance env userID balance =
     cacheWrite env OpSetBalance (\<lambda>s. s\<lparr>bc_balance := (bc_balance s)(userID \<mapsto>
       (balance, ce_now env + jitteredTTL (ce_jitter env)))\<rparr>)"

definition cacheDeductUserBalance :: "cache_env \<Rightarrow> int64 \<Rightarrow> rat \<Rightarrow> billing_store \<Rightarrow> bool \<times> billing_store" where
  "cacheDeductUserBalance env userID amount =
     cacheWrite env OpDeductBalance (deductBalanceScript (ce_now env) userID amount (jitteredTTL (ce_jitter env)))"

definition cacheInvalidateUserBalance :: "cache_env \<Rightarrow> int64 \<Rightarrow> billing_store \<Rightarrow> bool \<times> billing_store" where
  "cacheInvalidateUserBalance env userID =
     cacheWrite env OpDelBalance (\<lambda>s. s\<lparr>bc_balance := (bc_balance s)(userID := None)\<rparr>)"

definition cacheGetSubscriptionCache ::
    "cache_env \<Rightarrow> int64 \<Rightarrow> int64 \<Rightarrow> billing_store \<Rightarrow> cache_error + SubscriptionCacheData" where
  "cacheGetSubscriptionCache env userID groupID s =
     (if \<not> ce_up env OpGetSub then Inl CacheFailed
      else case live (ce_now env) (bc_sub s (userID, groupID)) of
        None \<Rightarrow> Inl CacheMiss
      | Some d \<Rightarrow> if sc_Status d = [] then Inl CacheInvalid else Inr d)"

definition cacheSetSubscriptionCache ::
    "cache_env \<Rightarrow> int64 \<Rightarrow> int64 \<Rightarrow> SubscriptionCacheData \<Rightarrow> billing_store \<Rightarrow> bool \<times> billing_store" where
  "cacheSetSubscriptionCache env userID groupID d =
     cacheWrite env OpSetSub (\<lambda>s. s\<lparr>bc_sub := (bc_sub s)((userID, groupID) \<mapsto>
       (d, ce_now env + jitteredTTL (ce_jitter env)))\<rparr>)"

definition cacheUpdateSubscriptionUsage ::
    "cache_env \<Rightarrow> int64 \<Rightarrow> int64 \<Rightarrow> rat \<Rightarrow> billing_store \<Rightarrow> bool \<times> billing_store" where
  "cacheUpdateSubscriptionUsage env userID groupID cost =
     cacheWrite env OpUpdateSub (updateSubUsageScript (ce_now env) userID groupID cost (jitteredTTL (ce_jitter env)))"

definition cacheInvalidateSubscriptionCache :: "cache_env \<Rightarrow> int64 \<Rightarrow> int64 \<Rightarrow> billing_store \<Rightarrow> bool \<times> billing_store" where
  "cacheInvalidateSubscriptionCache env userID groupID =
     cacheWrite env OpDelSub (\<lambda>s. s\<lparr>bc_sub := (bc_sub s)((userID, groupID) := None)\<rparr>)"

definition cacheGetAPIKeyRateLimit :: "cache_env \<Rightarrow> int64 \<Rightarrow> billing_store \<Rightarrow> cache_error + APIKeyRateLimitCacheData" where
  "cacheGetAPIKeyRateLimit env keyID s =
     (if \<not> ce_up env OpGetRate then Inl CacheFailed
      else case live (ce_now env) (bc_rate s keyID) of None \<Rightarrow> Inl CacheMiss | Some d \<Rightarrow> Inr d)"

definition cacheSetAPIKeyRateLimit ::
    "cache_env \<Rightarrow> int64 \<Rightarrow> APIKeyRateLimitCacheData \<Rightarrow> billing_store \<Rightarrow> bool \<times> billing_store" where
  "cacheSetAPIKeyRateLimit env keyID d =
     cacheWrite env OpSetRate (\<lambda>s. s\<lparr>bc_rate := (bc_rate s)(keyID \<mapsto> (d, ce_now env + rateLimitCacheTTL))\<rparr>)"

definition cacheUpdateAPIKeyRateLimitUsage :: "cache_env \<Rightarrow> int64 \<Rightarrow> rat \<Rightarrow> billing_store \<Rightarrow> bool \<times> billing_store" where
  "cacheUpdateAPIKeyRateLimitUsage env keyID cost =
     cacheWrite env OpUpdateRate (updateRateLimitUsageScript (ce_now env) keyID cost rateLimitCacheTTL)"

definition cacheInvalidateAPIKeyRateLimit :: "cache_env \<Rightarrow> int64 \<Rightarrow> billing_store \<Rightarrow> bool \<times> billing_store" where
  "cacheInvalidateAPIKeyRateLimit env keyID =
     cacheWrite env OpDelRate (\<lambda>s. s\<lparr>bc_rate := (bc_rate s)(keyID := None)\<rparr>)"

section \<open>The write queue\<close>

datatype cacheWriteTask =
    TaskSetBalance int64 rat
  | TaskSetSubscription int64 int64 SubscriptionCacheData
  | TaskUpdateSubscriptionUsage int64 int64 rat
  | TaskDeductBalance int64 rat
  | TaskUpdateRateLimitUsage int64 rat

definition cacheWriteBufferSize :: nat where "cacheWriteBufferSize = 1000"

text \<open>\<open>bs_cache\<close> tells whether a cache is configured.\<close>

record billing_service =
  bs_cache :: bool
  bs_store :: billing_store
  bs_queue :: "cacheWriteTask list"
  bs_stopped :: bool
  bs_chanOpen :: bool

definition enqueueCacheWrite :: "cacheWriteTask \<Rightarrow> billing_service \<Rightarrow> bool \<times> billing_service" where
  "enqueueCacheWrite task s =
     (if bs_stopped s then (False, s)
      else if \<not> bs_chanOpen s then (False, s)
      else if length (bs_queue s) < cacheWriteBufferSize then (True, s\<lparr>bs_queue := bs_queue s @ [task]\<rparr>)
      else (False, s))"

fun runTask :: "cache_env \<Rightarrow> cacheWriteTask \<Rightarrow> billing_store \<Rightarrow> billing_store" where
  "runTask env (TaskSetBalance u b) s = snd (cacheSetUserBalance env u b s)"
| "runTask env (TaskSetSubscription u g d) s = snd (cacheSetSubscriptionCache env u g d s)"
| "runTask env (TaskUpdateSubscriptionUsage u g c) s = snd (cacheUpdateSubscriptionUsage env u g c s)"
| "runTask env (TaskDeductBalance u c) s = snd (cacheDeductUserBalance env u c s)"
| "runTask env (TaskUpdateRateLimitUsage k c) s = snd (cacheUpdateAPIKeyRateLimitUsage env k c s)"

text \<open>A worker takes the oldest task; ten workers may finish their tasks in any order.\<close>

definition cacheWriteWorker :: "cache_env \<Rightarrow> nat \<Rightarrow> billing_service \<Rightarrow> billing_service" where
  "cacheWriteWorker env i s =
     (if i < length (bs_queue s)
      then s\<lparr>bs_queue := take i (bs_queue s) @ drop (Suc i) (bs_queue s),
             bs_store := (if bs_cache s then runTask env (bs_queue s ! i) (bs_store s) else bs_store s)\<rparr>
      else s)"

definition upd_store :: "(billing_store \<Rightarrow> bool \<times> billing_store) \<Rightarrow> billing_service \<Rightarrow> billing_service" where
  "upd_store f s = (if bs_cache s then s\<lparr>bs_store := snd (f (bs_store s))\<rparr> else s)"

definition QueueDeductBalance :: "cache_env \<Rightarrow> int64 \<Rightarrow> rat \<Rightarrow> billing_service \<Rightarrow> billing_service" where
  "QueueDeductBalance env userID amount s =
     (if \<not> bs_cache s then s
      else case enqueueCacheWrite (TaskDeductBalance userID amount) s of
        (True, s') \<Rightarrow> s'
      | (False, s') \<Rightarrow> upd_store (cacheDeductUserBalance env userID amount) s')"

definition QueueUpdateSubscriptionUsage :: "cache_env \<Rightarrow> int64 \<Rightarrow> int64 \<Rightarrow> rat \<Rightarrow> billing_service \<Rightarrow> billing_service" where
  "QueueUpdateSubscriptionUsage env userID groupID costUSD s =
     (if \<not> bs_cache s then s
      else case enqueueCacheWrite (TaskUpdateSubscriptionUsage userID groupID costUSD) s of
        (True, s') \<Rightarrow> s'
      | (False, s') \<Rightarrow> upd_store (cacheUpdateSubscriptionUsage env userID groupID costUSD) s')"

definition QueueUpdateAPIKeyRateLimitUsage :: "int64 \<Rightarrow> rat \<Rightarrow> billing_service \<Rightarrow> billing_service" where
  "QueueUpdateAPIKeyRateLimitUsage apiKeyID cost s =
     (if \<not> bs_cache s then s else snd (enqueueCacheWrite (TaskUpdateRateLimitUsage apiKeyID cost) s))"

definition InvalidateUserBalance :: "cache_env \<Rightarrow> int64 \<Rightarrow> billing_service \<Rightarrow> billing_service" where
  "InvalidateUserBalance env userID = upd_store (cacheInvalidateUserBalance env userID)"

definition InvalidateSubscription :: "cache_env \<Rightarrow> int64 \<Rightarrow> int64 \<Rightarrow> billing_service \<Rightarrow> billing_service" where
  "InvalidateSubscription env userID groupID = upd_store (cacheInvalidateSubscriptionCache env userID groupID)"

definition InvalidateAPIKeyRateLimit :: "cache_env \<Rightarrow> int64 \<Rightarrow> billing_service \<Rightarrow> billing_service" where
  "InvalidateAPIKeyRateLimit env apiKeyID = upd_store (cacheInvalidateAPIKeyRateLimit env apiKeyID)"

end
