(* ===== verification/Circuit_Breaker.thy ===== *)
theory Circuit_Breaker
  imports Prelude
begin

text \<open>
  The circuit breaker of the billing checks (\<open>billingCircuitBreaker\<close> of
  \<open>internal/service/billing_cache_service.go\<close>).  The mutex makes every operation one step; the
  clock, in seconds, is an argument of the operations that read it.
\<close>

datatype billingCircuitBreakerState = billingCircuitClosed | billingCircuitOpen | billingCircuitHalfOpen

record billingCircuitBreaker =
  cb_state :: billingCircuitBreakerState
  cb_failures :: int
  cb_openedAt :: time
  cb_failureThreshold :: int
  cb_resetTimeout :: int
  cb_halfOpenRequests :: int
  cb_halfOpenRemaining :: int

record CircuitBreakerConfig =
  cfg_Enabled :: bool
  cfg_FailureThreshold :: int
  cfg_ResetTimeoutSeconds :: int
  cfg_HalfOpenRequests :: int

definition newBillingCircuitBreaker :: "CircuitBreakerConfig \<Rightarrow> billingCircuitBreaker option" where
  "newBillingCircuitBreaker cfg =
     (if \<not> cfg_Enabled cfg then None
      else Some \<lparr>cb_state = billingCircuitClosed, cb_failures = 0, cb_openedAt = 0,
             cb_failureThreshold = pos_or (cfg_FailureThreshold cfg) 5,
             cb_resetTimeout = pos_or (cfg_ResetTimeoutSeconds cfg) 30,
             cb_halfOpenRequests = pos_or (cfg_HalfOpenRequests cfg) 1, cb_halfOpenRemaining = 0\<rparr>)"

definition allowHalfOpen :: "billingCircuitBreaker \<Rightarrow> bool \<times> billingCircuitBreaker" where
  "allowHalfOpen b =
     (if cb_halfOpenRemaining b \<le> 0 then (False, b)
      else (True, b\<lparr>cb_halfOpenRemaining := cb_halfOpenRemaining b - 1\<rparr>))"

definition Allow :: "time \<Rightarrow> billingCircuitBreaker \<Rightarrow> bool \<times> billingCircuitBreaker" where
  "Allow now b =
     (case cb_state b of
        billingCircuitClosed \<Rightarrow> (True, b)
      | billingCircuitOpen \<Rightarrow>
          if now - cb_openedAt b < cb_resetTimeout b then (False, b)
          else allowHalfOpen (b\<lparr>cb_state := billingCircuitHalfOpen, cb_halfOpenRemaining := cb_halfOpenRequests b\<rparr>)
      | billingCircuitHalfOpen \<Rightarrow> allowHalfOpen b)"

definition openBreaker :: "time \<Rightarrow> billingCircuitBreaker \<Rightarrow> billingCircuitBreaker" where
  "openBreaker now b = b\<lparr>cb_state := billingCircuitOpen, cb_openedAt := now, cb_halfOpenRemaining := 0\<rparr>"

definition OnFailure :: "time \<Rightarrow> billingCircuitBreaker \<Rightarrow> billingCircuitBreaker" where
  "OnFailure now b =
     (case cb_state b of
        billingCircuitOpen \<Rightarrow> b
      | billingCircuitHalfOpen \<Rightarrow> openBreaker now b
      | billingCircuitClosed \<Rightarrow>
          let b' = b\<lparr>cb_failures := cb_failures b + 1\<rparr>
          in if cb_failures b' \<ge> cb_failureThreshold b' then openBreaker now b' else b')"

definition OnSuccess :: "billingCircuitBreaker \<Rightarrow> billingCircuitBreaker" where
  "OnSuccess b = b\<lparr>cb_state := billingCircuitClosed, cb_failures := 0, cb_halfOpenRemaining := 0\<rparr>"

section \<open>Steps\<close>

text \<open>One call of the breaker, with the answer of \<open>Allow\<close>.\<close>

datatype breaker_call = CallAllow time | CallFailure time | CallSuccess

inductive breaker_step ::
    "billingCircuitBreaker \<Rightarrow> breaker_call \<Rightarrow> bool option \<Rightarrow> billingCircuitBreaker \<Rightarrow> bool" where
  allow: "Allow now b = (ok, b') \<Longrightarrow> breaker_step b (CallAllow now) (Some ok) b'"
| failure: "breaker_step b (CallFailure now) None (OnFailure now b)"
| success: "breaker_step b CallSuccess None (OnSuccess b)"

inductive_cases breaker_stepE: "breaker_step b c r b'"

inductive_simps breaker_step_simps:
  "breaker_step b (CallAllow now) r b'"
  "breaker_step b (CallFailure now) r b'"
  "breaker_step b CallSuccess r b'"

inductive breaker_run :: "billingCircuitBreaker \<Rightarrow> (breaker_call \<times> bool option) list \<Rightarrow> billingCircuitBreaker \<Rightarrow> bool" where
  none: "breaker_run b [] b"
| step: "breaker_step b c r b' \<Longrightarrow> breaker_run b' tr b'' \<Longrightarrow> breaker_run b ((c, r) # tr) b''"

inductive_simps breaker_run_simps [simp]:
  "breaker_run b [] b'"
  "breaker_run b (cr # tr) b'"

section \<open>The invariant\<close>

definition breakerOK :: "billingCircuitBreaker \<Rightarrow> bool" where
  "breakerOK b \<longleftrightarrow>
     0 < cb_failureThreshold b \<and> 0 < cb_resetTimeout b \<and> 0 < cb_halfOpenRequests b \<and>
     0 \<le> cb_failures b \<and> cb_failures b \<le> cb_failureThreshold b \<and>
     (cb_state b = billingCircuitClosed \<longrightarrow> cb_failures b < cb_failureThreshold b) \<and>
     0 \<le> cb_halfOpenRemaining b \<and> cb_halfOpenRemaining b \<le> cb_halfOpenRequests b \<and>
     (cb_state b = billingCircuitHalfOpen \<longrightarrow> cb_halfOpenRemaining b < cb_halfOpenRequests b) \<and>
     (cb_state b \<noteq> billingCircuitHalfOpen \<longrightarrow> cb_halfOpenRemaining b = 0)"

lemma breakerOK_new: "newBillingCircuitBreaker cfg = Some b \<Longrightarrow> breakerOK b \<and> cb_state b = billingCircuitClosed \<and> cb_failures b = 0"
  by (auto simp: newBillingCircuitBreaker_def breakerOK_def pos_or_pos less_imp_le split: if_splits)

lemma breakerOK_Allow: "breakerOK b \<Longrightarrow> Allow now b = (ok, b') \<Longrightarrow> breakerOK b'"
  by (auto simp: Allow_def allowHalfOpen_def breakerOK_def split: if_splits billingCircuitBreakerState.splits)

lemma breakerOK_OnFailure: "breakerOK b \<Longrightarrow> breakerOK (OnFailure now b)"
  by (auto simp: OnFailure_def openBreaker_def breakerOK_def Let_def split: billingCircuitBreakerState.split)

lemma breakerOK_OnSuccess: "breakerOK b \<Longrightarrow> breakerOK (OnSuccess b)"
  by (simp add: OnSuccess_def breakerOK_def)

lemma breakerOK_step: "breaker_step b c r b' \<Longrightarrow> breakerOK b \<Longrightarrow> breakerOK b'"
  by (erule breaker_stepE) (auto simp: breakerOK_OnFailure breakerOK_OnSuccess breakerOK_Allow)

lemma breakerOK_run: "breaker_run b tr b' \<Longrightarrow> breakerOK b \<Longrightarrow> breakerOK b'"
  by (induction rule: breaker_run.induct) (auto simp: breakerOK_step)

section \<open>Open and half-open\<close>

definition admitted :: "(breaker_call \<times> bool option) list \<Rightarrow> nat" where
  "admitted tr = length (filter (\<lambda>(c, r). r = Some True) tr)"

text \<open>How many more requests a breaker that is not closed can let through before an outcome is reported.\<close>

definition breakerBudget :: "billingCircuitBreaker \<Rightarrow> int" where
  "breakerBudget b = (if cb_state b = billingCircuitHalfOpen then cb_halfOpenRemaining b else cb_halfOpenRequests b)"

text \<open>Runs of requests only, and runs without a success whose requests all come before a time.\<close>

fun onlyAllows :: "(breaker_call \<times> bool option) list \<Rightarrow> bool" where
  "onlyAllows [] = True"
| "onlyAllows ((CallAllow now, r) # tr) = onlyAllows tr"
| "onlyAllows (cr # tr) = False"

fun quietUntil :: "time \<Rightarrow> (breaker_call \<times> bool option) list \<Rightarrow> bool" where
  "quietUntil limit [] = True"
| "quietUntil limit ((CallAllow now, r) # tr) = (now < limit \<and> quietUntil limit tr)"
| "quietUntil limit ((CallFailure now, r) # tr) = (0 \<le> now \<and> quietUntil limit tr)"
| "quietUntil limit ((CallSuccess, r) # tr) = False"

lemma Allow_budget:
  assumes "breakerOK b" "cb_state b \<noteq> billingCircuitClosed" "Allow now b = (ok, b')"
  shows "cb_state b' \<noteq> billingCircuitClosed \<and> breakerBudget b' + (if ok then 1 else 0) = breakerBudget b"
  using assms
  by (auto simp: Allow_def allowHalfOpen_def breakerBudget_def breakerOK_def
      split: if_splits billingCircuitBreakerState.splits)

lemma half_open_bound:
  assumes "breaker_run b tr b'" "breakerOK b" "cb_state b \<noteq> billingCircuitClosed"
    and "onlyAllows tr"
  shows "int (admitted tr) + breakerBudget b' = breakerBudget b \<and> breakerOK b'"
  using assms
proof (induction rule: breaker_run.induct)
  case (step b c r b' tr b'')
  then obtain now ok where c: "c = CallAllow now" and r: "r = Some ok" and a: "Allow now b = (ok, b')"
    by (auto elim: breaker_stepE)
  with step Allow_budget [OF _ _ a] breakerOK_Allow [OF _ a] show ?case
    by (auto simp: admitted_def)
qed (simp add: admitted_def)

lemma open_refuses:
  assumes "breaker_run b tr b'" "cb_state b = billingCircuitOpen"
    and "quietUntil (cb_openedAt b + cb_resetTimeout b) tr"
  shows "b' = b \<and> admitted tr = 0"
  using assms
proof (induction rule: breaker_run.induct)
  case (step b c r b' tr b'')
  then have "b' = b \<and> r \<noteq> Some True"
    by (auto elim!: breaker_stepE simp: Allow_def OnFailure_def)
  moreover have "quietUntil (cb_openedAt b + cb_resetTimeout b) tr" using step.prems(2) by (cases c) auto
  ultimately show ?case using step by (auto simp: admitted_def)
qed (simp add: admitted_def)

text \<open>
  C27. The breaker protects the database: in every reachable state its counters are within
  their bounds; while it is open, no request is admitted before the reset time has passed,
  whatever failures are still reported; and after that at most \<open>halfOpenRequests\<close> requests are
  admitted until an outcome is reported.
\<close>

theorem breaker_protects:
  assumes "newBillingCircuitBreaker cfg = Some b0" and "breaker_run b0 tr0 b" and "breaker_run b tr b'"
  shows "breakerOK b \<and> cb_halfOpenRequests b = cb_halfOpenRequests b0 \<and>
    (if cb_state b = billingCircuitOpen \<and> quietUntil (cb_openedAt b + cb_resetTimeout b) tr
     then admitted tr = 0 \<and> b' = b
     else if cb_state b \<noteq> billingCircuitClosed \<and> onlyAllows tr
     then int (admitted tr) \<le> cb_halfOpenRequests b0
     else True)"
proof -
  have ok: "breakerOK b" using breakerOK_run [OF assms(2)] breakerOK_new [OF assms(1)] by blast
  have const: "cb_halfOpenRequests b = cb_halfOpenRequests b0"
    using assms(2)
    by (induction rule: breaker_run.induct)
      (auto elim!: breaker_stepE simp: Allow_def allowHalfOpen_def OnFailure_def openBreaker_def OnSuccess_def Let_def
        split: if_splits billingCircuitBreakerState.splits)
  have "admitted tr = 0 \<and> b' = b" if "cb_state b = billingCircuitOpen" "quietUntil (cb_openedAt b + cb_resetTimeout b) tr"
    using open_refuses [OF assms(3) that] by simp
  moreover have "int (admitted tr) \<le> cb_halfOpenRequests b0" if "cb_state b \<noteq> billingCircuitClosed" "onlyAllows tr"
    using half_open_bound [OF assms(3) ok that] ok const by (auto simp: breakerBudget_def breakerOK_def split: if_splits)
  ultimately show ?thesis using ok const by auto
qed

definition exampleBreaker :: billingCircuitBreaker where
  "exampleBreaker = \<lparr>cb_state = billingCircuitClosed, cb_failures = 0, cb_openedAt = 0, cb_failureThreshold = 2,
     cb_resetTimeout = 30, cb_halfOpenRequests = 1, cb_halfOpenRemaining = 0\<rparr>"

theorem breaker_protects_witness:
  "\<exists>tr b'. breaker_run (openBreaker 5 (exampleBreaker\<lparr>cb_failures := 2\<rparr>)) tr b' \<and>
     tr = [(CallAllow 35, Some True), (CallAllow 36, Some False)] \<and> int (admitted tr) \<le> 1"
proof -
  let ?b = "openBreaker 5 (exampleBreaker\<lparr>cb_failures := 2\<rparr>)" and ?tr = "[(CallAllow 35, Some True), (CallAllow 36, Some False)]"
  have new: "newBillingCircuitBreaker \<lparr>cfg_Enabled = True, cfg_FailureThreshold = 2, cfg_ResetTimeoutSeconds = 0,
      cfg_HalfOpenRequests = 0\<rparr> = Some exampleBreaker"
    by (simp add: newBillingCircuitBreaker_def pos_or_def exampleBreaker_def)
  have open5: "breaker_run exampleBreaker [(CallFailure 4, None), (CallFailure 5, None)] ?b"
    by (auto simp: breaker_step_simps OnFailure_def exampleBreaker_def openBreaker_def Let_def)
  have run: "breaker_run ?b ?tr (?b\<lparr>cb_state := billingCircuitHalfOpen\<rparr>)"
    by (auto simp: breaker_step_simps Allow_def allowHalfOpen_def exampleBreaker_def openBreaker_def)
  have "int (admitted ?tr) \<le> 1"
    using breaker_protects [OF new open5 run] by (simp add: exampleBreaker_def openBreaker_def)
  with run show ?thesis by blast
qed

definition reportedFailures :: "(breaker_call \<times> bool option) list \<Rightarrow> nat" where
  "reportedFailures tr = length (filter (\<lambda>(c, r). \<exists>now. c = CallFailure now) tr)"

lemma reportedFailures_simps [simp]:
  "reportedFailures [] = 0"
  "reportedFailures ((CallAllow now, r) # tr) = reportedFailures tr"
  "reportedFailures ((CallFailure now, r) # tr) = Suc (reportedFailures tr)"
  by (simp_all add: reportedFailures_def)

fun neverRefused :: "(breaker_call \<times> bool option) list \<Rightarrow> bool" where
  "neverRefused [] = True"
| "neverRefused ((c, r) # tr) = (r \<noteq> Some False \<and> neverRefused tr)"

lemma OnFailure_closed:
  "cb_state b = billingCircuitClosed \<Longrightarrow>
     (if cb_failures b + 1 \<ge> cb_failureThreshold b then cb_state (OnFailure now b) = billingCircuitOpen \<and> cb_openedAt (OnFailure now b) = now
      else cb_state (OnFailure now b) = billingCircuitClosed \<and> cb_failures (OnFailure now b) = cb_failures b + 1) \<and>
     cb_resetTimeout (OnFailure now b) = cb_resetTimeout b \<and> cb_failureThreshold (OnFailure now b) = cb_failureThreshold b"
  by (auto simp: OnFailure_def openBreaker_def Let_def)

lemma quietUntil_mono: "quietUntil l tr \<Longrightarrow> l \<le> l' \<Longrightarrow> quietUntil l' tr"
  by (induction l tr rule: quietUntil.induct) auto

lemma breaker_trips:
  assumes "breaker_run b tr b'" "breakerOK b" "cb_state b = billingCircuitClosed" "quietUntil (cb_resetTimeout b) tr"
  shows "if cb_failureThreshold b \<le> cb_failures b + int (reportedFailures tr) then cb_state b' = billingCircuitOpen
     else cb_state b' = billingCircuitClosed \<and> neverRefused tr"
  using assms
proof (induction rule: breaker_run.induct)
  case (none b)
  then show ?case by (simp add: breakerOK_def)
next
  case (step b c r b' tr b'')
  have ok: "breakerOK b'" using step breakerOK_step by blast
  consider now where "c = CallAllow now" | now where "c = CallFailure now" "0 \<le> now" "quietUntil (cb_resetTimeout b) tr"
    using step.prems(3) by (cases c) auto
  then show ?case
  proof cases
    case 1
    then have "b' = b \<and> r = Some True"
      using step.hyps(1) step.prems(2) by (auto simp: breaker_step_simps Allow_def)
    with 1 step ok show ?thesis by auto
  next
    case 2
    then have b': "b' = OnFailure now b" "r = None" using step.hyps(1) by (auto simp: breaker_step_simps)
    note f = OnFailure_closed [OF step.prems(2), of now, folded b'(1)]
    show ?thesis
    proof (cases "cb_failures b + 1 \<ge> cb_failureThreshold b")
      case True
      with f 2 have "cb_state b'' = billingCircuitOpen"
        using open_refuses [OF step.hyps(2)] quietUntil_mono [OF 2(3)] by auto
      with True 2 show ?thesis by simp
    next
      case False
      with f 2 step.IH [OF ok] b' show ?thesis by (auto split: if_splits)
    qed
  qed
qed

text \<open>
  The breaker opens at the right failure: starting closed, a run without a reported
  success leaves it open exactly when at least the threshold of failures was reported since it
  closed, and until then it admits every request.
\<close>

theorem breaker_opens_at_threshold:
  assumes "newBillingCircuitBreaker cfg = Some b" and "breaker_run b tr b'" and "quietUntil (cb_resetTimeout b) tr"
  shows "if cb_failureThreshold b \<le> int (reportedFailures tr) then cb_state b' = billingCircuitOpen
    else cb_state b' = billingCircuitClosed \<and> neverRefused tr"
  using breaker_trips [OF assms(2) _ _ assms(3)] breakerOK_new [OF assms(1)] by auto

theorem breaker_opens_at_threshold_witness:
  "\<exists>b'. breaker_run exampleBreaker [(CallFailure 4, None), (CallAllow 5, Some True), (CallFailure 6, None)] b' \<and>
     cb_state b' = billingCircuitOpen"
proof -
  let ?tr = "[(CallFailure 4, None), (CallAllow 5, Some True), (CallFailure 6, None)]"
  have new: "newBillingCircuitBreaker \<lparr>cfg_Enabled = True, cfg_FailureThreshold = 2, cfg_ResetTimeoutSeconds = 0,
      cfg_HalfOpenRequests = 0\<rparr> = Some exampleBreaker"
    by (simp add: newBillingCircuitBreaker_def pos_or_def exampleBreaker_def)
  have run: "breaker_run exampleBreaker ?tr (openBreaker 6 (exampleBreaker\<lparr>cb_failures := 2\<rparr>))"
    by (auto simp: breaker_step_simps OnFailure_def Allow_def exampleBreaker_def openBreaker_def Let_def)
  have "cb_state (openBreaker 6 (exampleBreaker\<lparr>cb_failures := 2\<rparr>)) = billingCircuitOpen"
    using breaker_opens_at_threshold [OF new run]
    by (simp add: exampleBreaker_def)
  with run show ?thesis by blast
qed

end
