(* ===== verification/Usage_Billing.thy ===== *)
theory Usage_Billing
  imports Prelude Complex_Main
begin

text \<open>
  The billing transaction of \<open>internal/repository/usage_billing_repo.go\<close> with its command
  (\<open>internal/service/usage_billing.go\<close>) and the archiving of deduplication rows
  (\<open>CleanupUsageBillingDedup\<close> of \<open>internal/repository/dashboard_aggregation_repo.go\<close>).

  The database is a record of tables and each SQL statement is written out as an operation on
  it.  A transaction runs on a copy that becomes the database when it commits; any failing
  statement (\<open>tx_fault\<close>) rolls it back, and a commit may also succeed without the client
  learning of it (\<open>CommitUnknown\<close>).  Transactions are serial: the unique index on
  \<open>(request_id, api_key_id)\<close> makes concurrent claims of one request wait for each other.
  Amounts are rationals; a value stored in a \<open>decimal(20, d)\<close> column is rounded half away from
  zero.  SHA-256 in hexadecimal is the parameter \<open>sha\<close>.  The \<open>raw_event\<close> column and the
  descriptive columns of a usage log are not kept.
\<close>

section \<open>Commands\<close>

record UsageBillingCommand =
  RequestID :: gostr
  APIKeyID :: int64
  RequestFingerprint :: gostr
  RequestPayloadHash :: gostr
  UserID :: int64
  AccountID :: int64
  SubscriptionID :: "int64 option"
  AccountType :: gostr
  Model :: gostr
  ServiceTier :: gostr
  ReasoningEffort :: gostr
  BillingType :: int
  InputTokens :: int
  OutputTokens :: int
  CacheCreationTokens :: int
  CacheReadTokens :: int
  ImageCount :: int
  MediaType :: gostr
  BalanceCost :: rat
  SubscriptionCost :: rat
  APIKeyQuotaCost :: rat
  APIKeyRateLimitCost :: rat
  AccountQuotaCost :: rat

definition valueOrZero :: "int64 option \<Rightarrow> int64" where
  "valueOrZero v = (case v of None \<Rightarrow> 0 | Some n \<Rightarrow> n)"

text \<open>The verb \<open>%0.10f\<close>: ten decimals, ties to even.\<close>

definition round_half_even :: "rat \<Rightarrow> int" where
  "round_half_even x =
     (let n = \<lfloor>x\<rfloor>; d = x - of_int n
      in if d < 1 / 2 then n else if d > 1 / 2 then n + 1 else if even n then n else n + 1)"

definition pad_left :: "nat \<Rightarrow> gostr \<Rightarrow> gostr" where
  "pad_left n s = replicate (n - length s) CHR ''0'' @ s"

definition format_fixed10 :: "rat \<Rightarrow> gostr" where
  "format_fixed10 x =
     (let n = nat (round_half_even (\<bar>x\<bar> * 10 ^ 10))
      in (if x < 0 then ''-'' else []) @ format_uint 10 (n div 10 ^ 10) @ ''.'' @
         pad_left 10 (format_uint 10 (n mod 10 ^ 10)))"

fun join_bar :: "gostr list \<Rightarrow> gostr" where
  "join_bar [] = []"
| "join_bar [s] = s"
| "join_bar (s # ss) = s @ ''|'' @ join_bar ss"

definition fingerprintFields :: "UsageBillingCommand \<Rightarrow> gostr list" where
  "fingerprintFields c =
     [format_int (UserID c), format_int (AccountID c), format_int (APIKeyID c),
      trim_space (AccountType c), trim_space (Model c), trim_space (ServiceTier c), trim_space (ReasoningEffort c),
      format_int (BillingType c), format_int (InputTokens c), format_int (OutputTokens c),
      format_int (CacheCreationTokens c), format_int (CacheReadTokens c), format_int (ImageCount c),
      trim_space (MediaType c), format_int (valueOrZero (SubscriptionID c)),
      format_fixed10 (BalanceCost c), format_fixed10 (SubscriptionCost c), format_fixed10 (APIKeyQuotaCost c),
      format_fixed10 (APIKeyRateLimitCost c), format_fixed10 (AccountQuotaCost c)]"

definition buildUsageBillingFingerprint :: "(gostr \<Rightarrow> gostr) \<Rightarrow> UsageBillingCommand \<Rightarrow> gostr" where
  "buildUsageBillingFingerprint sha c =
     (let raw = join_bar (fingerprintFields c); payloadHash = trim_space (RequestPayloadHash c)
      in sha (if payloadHash \<noteq> [] then raw @ ''|'' @ payloadHash else raw))"

definition HashUsageRequestPayload :: "(gostr \<Rightarrow> gostr) \<Rightarrow> gostr \<Rightarrow> gostr" where
  "HashUsageRequestPayload sha payload = (if payload = [] then [] else sha payload)"

definition Normalize :: "(gostr \<Rightarrow> gostr) \<Rightarrow> UsageBillingCommand \<Rightarrow> UsageBillingCommand" where
  "Normalize sha c =
     (let c1 = c\<lparr>RequestID := trim_space (RequestID c)\<rparr>
      in if trim_space (RequestFingerprint c1) = []
         then c1\<lparr>RequestFingerprint := buildUsageBillingFingerprint sha c1\<rparr> else c1)"

section \<open>Events\<close>

datatype UsageChargeEventKind = KindCharge | KindReserve | KindFinalize | KindRelease

definition kind_of_string :: "gostr \<Rightarrow> UsageChargeEventKind" where
  "kind_of_string s =
     (if s = ''reserve'' then KindReserve else if s = ''finalize'' then KindFinalize
      else if s = ''release'' then KindRelease else KindCharge)"

fun string_of_kind :: "UsageChargeEventKind \<Rightarrow> gostr" where
  "string_of_kind KindCharge = ''charge''"
| "string_of_kind KindReserve = ''reserve''"
| "string_of_kind KindFinalize = ''finalize''"
| "string_of_kind KindRelease = ''release''"

text \<open>
  A usage log, without the fields that no caller sets before it is stored (\<open>ID\<close>, \<open>BillingTier\<close>,
  \<open>MediaType\<close>) and the pointers to loaded entities, which are not part of an event.
\<close>

record UsageLog =
  ul_UserID :: int64
  ul_APIKeyID :: int64
  ul_AccountID :: int64
  ul_RequestID :: gostr
  ul_Model :: gostr
  ul_RequestedModel :: gostr
  ul_UpstreamModel :: "gostr option"
  ul_ChannelID :: "int64 option"
  ul_ModelMappingChain :: "gostr option"
  ul_BillingMode :: "gostr option"
  ul_ServiceTier :: "gostr option"
  ul_ReasoningEffort :: "gostr option"
  ul_InboundEndpoint :: "gostr option"
  ul_UpstreamEndpoint :: "gostr option"
  ul_GroupID :: "int64 option"
  ul_SubscriptionID :: "int64 option"
  ul_InputTokens :: int
  ul_OutputTokens :: int
  ul_CacheCreationTokens :: int
  ul_CacheReadTokens :: int
  ul_CacheCreation5mTokens :: int
  ul_CacheCreation1hTokens :: int
  ul_ImageOutputTokens :: int
  ul_ImageOutputCost :: rat
  ul_InputCost :: rat
  ul_OutputCost :: rat
  ul_CacheCreationCost :: rat
  ul_CacheReadCost :: rat
  ul_TotalCost :: rat
  ul_ActualCost :: rat
  ul_RateMultiplier :: rat
  ul_AccountRateMultiplier :: "rat option"
  ul_BillingType :: int
  ul_RequestType :: int
  ul_Stream :: bool
  ul_OpenAIWSMode :: bool
  ul_DurationMs :: "int option"
  ul_FirstTokenMs :: "int option"
  ul_UserAgent :: "gostr option"
  ul_IPAddress :: "gostr option"
  ul_CacheTTLOverridden :: bool
  ul_ImageCount :: int
  ul_ImageSize :: "gostr option"
  ul_CreatedAt :: "time option"   \<comment> \<open>\<open>None\<close> is the zero time\<close>

text \<open>The zero value of the struct.\<close>

definition emptyLog :: UsageLog where
  "emptyLog = \<lparr>ul_UserID = 0, ul_APIKeyID = 0, ul_AccountID = 0, ul_RequestID = [], ul_Model = [], ul_RequestedModel = [],
     ul_UpstreamModel = None, ul_ChannelID = None, ul_ModelMappingChain = None, ul_BillingMode = None, ul_ServiceTier = None,
     ul_ReasoningEffort = None, ul_InboundEndpoint = None, ul_UpstreamEndpoint = None, ul_GroupID = None,
     ul_SubscriptionID = None, ul_InputTokens = 0, ul_OutputTokens = 0, ul_CacheCreationTokens = 0, ul_CacheReadTokens = 0,
     ul_CacheCreation5mTokens = 0, ul_CacheCreation1hTokens = 0, ul_ImageOutputTokens = 0, ul_ImageOutputCost = 0,
     ul_InputCost = 0, ul_OutputCost = 0, ul_CacheCreationCost = 0, ul_CacheReadCost = 0, ul_TotalCost = 0,
     ul_ActualCost = 0, ul_RateMultiplier = 0, ul_AccountRateMultiplier = None, ul_BillingType = 0, ul_RequestType = 0,
     ul_Stream = False, ul_OpenAIWSMode = False, ul_DurationMs = None, ul_FirstTokenMs = None, ul_UserAgent = None,
     ul_IPAddress = None, ul_CacheTTLOverridden = False, ul_ImageCount = 0, ul_ImageSize = None, ul_CreatedAt = None\<rparr>"

record UsageChargeEvent =
  ev_Version :: int
  ev_Kind :: gostr
  ev_EventID :: gostr
  ev_RequestID :: gostr
  ev_OccurredAt :: "time option"
  ev_Command :: "UsageBillingCommand option"
  ev_UsageLog :: "UsageLog option"
  ev_GroupID :: int64
  ev_HasAPIKeyRateLimitUsage :: bool

text \<open>
  \<open>normalizeUsageChargeEvent\<close> fills in the event; the request identifier is taken from the
  event, the command and the usage log, in this order.
\<close>

definition normalizeUsageLog :: "gostr \<Rightarrow> UsageLog \<Rightarrow> UsageLog" where
  "normalizeUsageLog requestID l =
     (let l1 = l\<lparr>ul_RequestID := trim_space (ul_RequestID l)\<rparr>
      in if ul_RequestID l1 = [] then l1\<lparr>ul_RequestID := requestID\<rparr> else l1)"

definition normalizeUsageChargeEvent :: "(gostr \<Rightarrow> gostr) \<Rightarrow> UsageChargeEvent \<Rightarrow> UsageChargeEvent" where
  "normalizeUsageChargeEvent sha e =
     (let cmd = map_option (Normalize sha) (ev_Command e);
          r0 = trim_space (ev_RequestID e);
          r1 = (if r0 = [] then (case cmd of None \<Rightarrow> [] | Some c \<Rightarrow> RequestID c) else r0);
          ulog = map_option (normalizeUsageLog r1) (ev_UsageLog e);
          r2 = (if r1 = [] then (case ulog of None \<Rightarrow> [] | Some l \<Rightarrow> ul_RequestID l) else r1)
      in e\<lparr>ev_Kind := string_of_kind (kind_of_string (trim_space (ev_Kind e))),
           ev_Version := (if ev_Version e \<le> 0 then 2 else ev_Version e),
           ev_RequestID := r2,
           ev_Command := map_option (\<lambda>c. c\<lparr>RequestID := r2\<rparr>) cmd,
           ev_UsageLog := ulog\<rparr>)"

section \<open>The database\<close>

definition round_away :: "nat \<Rightarrow> rat \<Rightarrow> rat" where
  "round_away k x = sgn x * of_int \<lfloor>\<bar>x\<bar> * 10 ^ k + 1 / 2\<rfloor> / 10 ^ k"

record user_row =
  usr_balance :: rat
  usr_deleted :: bool

record sub_row =
  sub_daily :: rat
  sub_weekly :: rat
  sub_monthly :: rat
  sub_group :: int64
  sub_deleted :: bool

record key_row =
  key_key :: gostr
  key_status :: gostr
  key_quota :: rat
  key_quota_used :: rat
  key_usage_5h :: rat
  key_usage_1d :: rat
  key_usage_7d :: rat
  key_window_5h :: "time option"
  key_window_1d :: "time option"
  key_window_7d :: "time option"
  key_deleted :: bool

record account_row =
  acc_quota_used :: "rat option"
  acc_quota_limit :: "rat option"
  acc_daily_limit :: "rat option"
  acc_daily_used :: "rat option"
  acc_daily_start :: "time option"
  acc_weekly_limit :: "rat option"
  acc_weekly_used :: "rat option"
  acc_weekly_start :: "time option"
  acc_deleted :: bool

record dedup_row =
  dd_request :: gostr
  dd_key :: int64
  dd_fingerprint :: gostr
  dd_created :: time

record ledger_row =
  lg_request :: gostr
  lg_key :: int64
  lg_kind :: gostr
  lg_fingerprint :: gostr
  lg_event :: gostr
  lg_user :: int64
  lg_account :: int64
  lg_subscription :: "int64 option"
  lg_group :: "int64 option"
  lg_billingType :: int
  lg_costs :: "rat list"
  lg_occurred :: time

record money =
  tb_users :: "int64 \<rightharpoonup> user_row"
  tb_subs :: "int64 \<rightharpoonup> sub_row"
  tb_keys :: "int64 \<rightharpoonup> key_row"
  tb_accounts :: "int64 \<rightharpoonup> account_row"
  tb_outbox :: "(int64 \<times> time) list"

record billing_db =
  db_money :: money
  db_groups :: "int64 \<rightharpoonup> bool"   \<comment> \<open>deleted?\<close>
  db_dedup :: "dedup_row list"
  db_archive :: "dedup_row list"
  db_ledger :: "ledger_row list"
  db_logs :: "(gostr \<times> int64) list"
  db_tombstones :: "(gostr \<times> int64) list"

datatype billing_error =
    ErrUsageBillingRequestIDRequired | ErrUsageBillingRequestConflict
  | ErrSubscriptionNotFound | ErrUserNotFound | ErrAPIKeyNotFound | ErrAccountNotFound
  | ErrSQL

datatype sql_step =
    SqlBegin | SqlDedup | SqlArchive | SqlInsertDedup | SqlLedger | SqlSubscription | SqlBalance
  | SqlKeyQuota | SqlKeyRate | SqlAccountQuota | SqlOutbox | SqlTombstone | SqlUsageLog | SqlProjection

datatype commit_outcome = CommitOK | CommitFailed | CommitUnknown

record tx_env =
  tx_now :: time
  tx_day :: time          \<comment> \<open>\<open>date_trunc('day', NOW())\<close>\<close>
  tx_uuid :: gostr
  tx_fault :: "sql_step \<Rightarrow> bool"
  tx_commit :: commit_outcome

section \<open>Statements\<close>

type_synonym 'a tx = "billing_db \<Rightarrow> billing_error + ('a \<times> billing_db)"

definition tx_bind :: "'a tx \<Rightarrow> ('a \<Rightarrow> 'b tx) \<Rightarrow> 'b tx" where
  "tx_bind m f db = (case m db of Inl e \<Rightarrow> Inl e | Inr (x, db') \<Rightarrow> f x db')"

definition tx_return :: "'a \<Rightarrow> 'a tx" where
  "tx_return x db = Inr (x, db)"

definition tx_raise :: "billing_error \<Rightarrow> 'a tx" where
  "tx_raise e db = Inl e"

definition sql :: "tx_env \<Rightarrow> sql_step \<Rightarrow> 'a tx \<Rightarrow> 'a tx" where
  "sql env step m db = (if tx_fault env step then Inl ErrSQL else m db)"

definition dedup_find :: "gostr \<Rightarrow> int64 \<Rightarrow> dedup_row list \<Rightarrow> dedup_row option" where
  "dedup_find r k rows = find (\<lambda>d. dd_request d = r \<and> dd_key d = k) rows"

definition matchExistingUsageBillingFingerprint ::
    "dedup_row option \<Rightarrow> UsageBillingCommand \<Rightarrow> billing_error + bool" where
  "matchExistingUsageBillingFingerprint row cmd =
     (case row of
        None \<Rightarrow> Inr False
      | Some d \<Rightarrow> if trim_space (dd_fingerprint d) \<noteq> trim_space (RequestFingerprint cmd)
                  then Inl ErrUsageBillingRequestConflict else Inr True)"

definition matchDedup :: "tx_env \<Rightarrow> UsageBillingCommand \<Rightarrow> bool tx" where
  "matchDedup env cmd =
     sql env SqlDedup (\<lambda>db. case matchExistingUsageBillingFingerprint
         (dedup_find (RequestID cmd) (APIKeyID cmd) (db_dedup db)) cmd of Inl e \<Rightarrow> Inl e | Inr b \<Rightarrow> Inr (b, db))"

definition matchArchive :: "tx_env \<Rightarrow> UsageBillingCommand \<Rightarrow> bool tx" where
  "matchArchive env cmd =
     sql env SqlArchive (\<lambda>db. case matchExistingUsageBillingFingerprint
         (dedup_find (RequestID cmd) (APIKeyID cmd) (db_archive db)) cmd of Inl e \<Rightarrow> Inl e | Inr b \<Rightarrow> Inr (b, db))"

text \<open>\<open>INSERT ... ON CONFLICT DO NOTHING RETURNING id\<close>: whether a row was inserted.\<close>

definition insertDedup :: "tx_env \<Rightarrow> UsageBillingCommand \<Rightarrow> bool tx" where
  "insertDedup env cmd =
     sql env SqlInsertDedup (\<lambda>db.
       if dedup_find (RequestID cmd) (APIKeyID cmd) (db_dedup db) \<noteq> None then Inr (False, db)
       else Inr (True, db\<lparr>db_dedup := db_dedup db @
              [\<lparr>dd_request = RequestID cmd, dd_key = APIKeyID cmd, dd_fingerprint = RequestFingerprint cmd,
                dd_created = tx_now env\<rparr>]\<rparr>))"

definition claimUsageBillingKey :: "tx_env \<Rightarrow> UsageBillingCommand \<Rightarrow> bool tx" where
  "claimUsageBillingKey env cmd =
     tx_bind (matchDedup env cmd) (\<lambda>ok. if ok then tx_return False else
     tx_bind (matchArchive env cmd) (\<lambda>ok. if ok then tx_return False else
     tx_bind (insertDedup env cmd) (\<lambda>inserted. if inserted then tx_return True else
     tx_bind (matchDedup env cmd) (\<lambda>ok. if ok then tx_return False else
     tx_bind (matchArchive env cmd) (\<lambda>ok. tx_return False)))))"

text \<open>Ledger rows and the conflict clause.\<close>

definition ledgerConflict :: "UsageChargeEventKind \<Rightarrow> ledger_row \<Rightarrow> ledger_row \<Rightarrow> bool" where
  "ledgerConflict kind new old =
     (lg_request old = lg_request new \<and> lg_key old = lg_key new \<and> lg_kind old = lg_kind new \<and>
      (if kind \<in> {KindReserve, KindRelease} then lg_account old = lg_account new else True))"

definition ledgerRow :: "tx_env \<Rightarrow> UsageChargeEvent \<Rightarrow> UsageBillingCommand \<Rightarrow> ledger_row" where
  "ledgerRow env e cmd =
     \<lparr>lg_request = RequestID cmd, lg_key = APIKeyID cmd, lg_kind = trim_space (ev_Kind e),
      lg_fingerprint = RequestFingerprint cmd,
      lg_event = (if trim_space (ev_EventID e) = [] then tx_uuid env else trim_space (ev_EventID e)),
      lg_user = UserID cmd, lg_account = AccountID cmd, lg_subscription = SubscriptionID cmd,
      lg_group = (if ev_GroupID e \<le> 0 then None else Some (ev_GroupID e)),
      lg_billingType = BillingType cmd,
      lg_costs = [BalanceCost cmd, SubscriptionCost cmd, APIKeyQuotaCost cmd, APIKeyRateLimitCost cmd, AccountQuotaCost cmd],
      lg_occurred = (case ev_OccurredAt e of Some t \<Rightarrow> t
        | None \<Rightarrow> (case ev_UsageLog e of
            Some l \<Rightarrow> (case ul_CreatedAt l of Some t \<Rightarrow> t | None \<Rightarrow> tx_now env)
          | None \<Rightarrow> tx_now env))\<rparr>"

definition persistBillingLedger :: "tx_env \<Rightarrow> UsageChargeEvent \<Rightarrow> unit tx" where
  "persistBillingLedger env e =
     (case ev_Command e of
        None \<Rightarrow> tx_return ()
      | Some cmd \<Rightarrow>
          sql env SqlLedger (\<lambda>db.
            let row = ledgerRow env e cmd
            in if list_ex (ledgerConflict (kind_of_string (ev_Kind e)) row) (db_ledger db) then Inr ((), db)
               else Inr ((), db\<lparr>db_ledger := db_ledger db @ [row]\<rparr>)))"

section \<open>Effects\<close>

definition upd_money :: "(money \<Rightarrow> money) \<Rightarrow> billing_db \<Rightarrow> billing_db" where
  "upd_money f db = db\<lparr>db_money := f (db_money db)\<rparr>"

definition incrementUsageBillingSubscription :: "tx_env \<Rightarrow> int64 \<Rightarrow> rat \<Rightarrow> unit tx" where
  "incrementUsageBillingSubscription env sid cost =
     sql env SqlSubscription (\<lambda>db.
       case tb_subs (db_money db) sid of
         None \<Rightarrow> Inl ErrSubscriptionNotFound
       | Some us \<Rightarrow>
           if sub_deleted us \<or> db_groups db (sub_group us) \<noteq> Some False then Inl ErrSubscriptionNotFound
           else Inr ((), upd_money (\<lambda>m. m\<lparr>tb_subs := (tb_subs m)(sid \<mapsto>
                  us\<lparr>sub_daily := round_away 10 (sub_daily us + cost),
                     sub_weekly := round_away 10 (sub_weekly us + cost),
                     sub_monthly := round_away 10 (sub_monthly us + cost)\<rparr>)\<rparr>) db))"

definition deductUsageBillingBalance :: "tx_env \<Rightarrow> int64 \<Rightarrow> rat \<Rightarrow> unit tx" where
  "deductUsageBillingBalance env userID amount =
     sql env SqlBalance (\<lambda>db.
       case tb_users (db_money db) userID of
         None \<Rightarrow> Inl ErrUserNotFound
       | Some u \<Rightarrow>
           if usr_deleted u then Inl ErrUserNotFound
           else Inr ((), upd_money (\<lambda>m. m\<lparr>tb_users := (tb_users m)(userID \<mapsto>
                  u\<lparr>usr_balance := round_away 8 (usr_balance u - amount)\<rparr>)\<rparr>) db))"

definition statusAPIKeyActive :: gostr where
  "statusAPIKeyActive = ''active''"

definition statusAPIKeyQuotaExhausted :: gostr where
  "statusAPIKeyQuotaExhausted = ''quota_exhausted''"

definition chargeKeyQuota :: "rat \<Rightarrow> key_row \<Rightarrow> key_row" where
  "chargeKeyQuota amount k =
     k\<lparr>key_quota_used := round_away 8 (key_quota_used k + amount),
       key_status := (if key_quota k > 0 \<and> key_status k = statusAPIKeyActive \<and> key_quota_used k < key_quota k \<and>
                         key_quota_used k + amount \<ge> key_quota k
                      then statusAPIKeyQuotaExhausted else key_status k)\<rparr>"

definition incrementUsageBillingAPIKeyQuota :: "tx_env \<Rightarrow> int64 \<Rightarrow> rat \<Rightarrow> bool tx" where
  "incrementUsageBillingAPIKeyQuota env apiKeyID amount =
     sql env SqlKeyQuota (\<lambda>db.
       case tb_keys (db_money db) apiKeyID of
         None \<Rightarrow> Inl ErrAPIKeyNotFound
       | Some k \<Rightarrow>
           if key_deleted k then Inl ErrAPIKeyNotFound
           else let k' = chargeKeyQuota amount k
                in Inr (key_quota k' > 0 \<and> key_quota_used k' \<ge> key_quota k' \<and> key_quota_used k' - amount < key_quota k',
                        upd_money (\<lambda>m. m\<lparr>tb_keys := (tb_keys m)(apiKeyID \<mapsto> k')\<rparr>) db))"

definition window_over :: "time \<Rightarrow> int \<Rightarrow> time option \<Rightarrow> bool" where
  "window_over now len start = (case start of None \<Rightarrow> False | Some t \<Rightarrow> t + len \<le> now)"

definition chargeKeyWindows :: "tx_env \<Rightarrow> rat \<Rightarrow> key_row \<Rightarrow> key_row" where
  "chargeKeyWindows env cost k =
     (let now = tx_now env;
          usage = (\<lambda>len start u. round_away 8 (if window_over now len start then cost else u + cost));
          start = (\<lambda>len w fresh. if w = None \<or> window_over now len w then Some fresh else w)
      in k\<lparr>key_usage_5h := usage (5 * 3600) (key_window_5h k) (key_usage_5h k),
           key_usage_1d := usage (24 * 3600) (key_window_1d k) (key_usage_1d k),
           key_usage_7d := usage (7 * 24 * 3600) (key_window_7d k) (key_usage_7d k),
           key_window_5h := start (5 * 3600) (key_window_5h k) now,
           key_window_1d := start (24 * 3600) (key_window_1d k) (tx_day env),
           key_window_7d := start (7 * 24 * 3600) (key_window_7d k) (tx_day env)\<rparr>)"

definition incrementUsageBillingAPIKeyRateLimit :: "tx_env \<Rightarrow> int64 \<Rightarrow> rat \<Rightarrow> unit tx" where
  "incrementUsageBillingAPIKeyRateLimit env apiKeyID cost =
     sql env SqlKeyRate (\<lambda>db.
       case tb_keys (db_money db) apiKeyID of
         None \<Rightarrow> Inl ErrAPIKeyNotFound
       | Some k \<Rightarrow>
           if key_deleted k then Inl ErrAPIKeyNotFound
           else Inr ((), upd_money (\<lambda>m. m\<lparr>tb_keys := (tb_keys m)(apiKeyID \<mapsto> chargeKeyWindows env cost k)\<rparr>) db))"

definition orZero :: "rat option \<Rightarrow> rat" where
  "orZero x = (case x of None \<Rightarrow> 0 | Some v \<Rightarrow> v)"

text \<open>A window of the account's \<open>extra\<close> object, with the epoch as the start of one never used.\<close>

definition chargeWindow ::
    "time \<Rightarrow> int \<Rightarrow> rat \<Rightarrow> rat option \<Rightarrow> rat option \<times> time option \<Rightarrow> rat option \<times> time option" where
  "chargeWindow now len amount limit w =
     (case w of (used, start) \<Rightarrow>
       if orZero limit > 0 then
         if (case start of None \<Rightarrow> 0 | Some t \<Rightarrow> t) + len \<le> now then (Some amount, Some now)
         else (Some (orZero used + amount), (case start of None \<Rightarrow> Some now | Some t \<Rightarrow> Some t))
       else (used, start))"

definition chargeAccountQuota :: "time \<Rightarrow> rat \<Rightarrow> account_row \<Rightarrow> account_row" where
  "chargeAccountQuota now amount a =
     (let daily = chargeWindow now (24 * 3600) amount (acc_daily_limit a) (acc_daily_used a, acc_daily_start a);
          weekly = chargeWindow now (168 * 3600) amount (acc_weekly_limit a) (acc_weekly_used a, acc_weekly_start a)
      in a\<lparr>acc_quota_used := Some (orZero (acc_quota_used a) + amount),
           acc_daily_used := fst daily, acc_daily_start := snd daily,
           acc_weekly_used := fst weekly, acc_weekly_start := snd weekly\<rparr>)"

definition schedulerOutboxDedupWindow :: int where
  "schedulerOutboxDedupWindow = 1"

definition enqueueSchedulerOutbox :: "tx_env \<Rightarrow> int64 \<Rightarrow> unit tx" where
  "enqueueSchedulerOutbox env accountID =
     sql env SqlOutbox (\<lambda>db. Inr ((), upd_money (\<lambda>m.
       if list_ex (\<lambda>(a, t). a = accountID \<and> t \<ge> tx_now env - schedulerOutboxDedupWindow) (tb_outbox m) then m
       else m\<lparr>tb_outbox := tb_outbox m @ [(accountID, tx_now env)]\<rparr>) db))"

definition incrementUsageBillingAccountQuota :: "tx_env \<Rightarrow> int64 \<Rightarrow> rat \<Rightarrow> unit tx" where
  "incrementUsageBillingAccountQuota env accountID amount =
     tx_bind (sql env SqlAccountQuota (\<lambda>db.
       case tb_accounts (db_money db) accountID of
         None \<Rightarrow> Inl ErrAccountNotFound
       | Some a \<Rightarrow>
           if acc_deleted a then Inl ErrAccountNotFound
           else let a' = chargeAccountQuota (tx_now env) amount a
                in Inr ((orZero (acc_quota_used a'), orZero (acc_quota_limit a')),
                        upd_money (\<lambda>m. m\<lparr>tb_accounts := (tb_accounts m)(accountID \<mapsto> a')\<rparr>) db)))
     (\<lambda>(newUsed, limit).
        if limit > 0 \<and> newUsed \<ge> limit \<and> newUsed - amount < limit
        then enqueueSchedulerOutbox env accountID else tx_return ())"

definition tx_when :: "bool \<Rightarrow> unit tx \<Rightarrow> unit tx" where
  "tx_when b m = (if b then m else tx_return ())"

text \<open>The effects of a claimed command; the result tells whether the key's quota was exhausted.\<close>

definition applyUsageBillingEffects :: "tx_env \<Rightarrow> UsageBillingCommand \<Rightarrow> bool tx" where
  "applyUsageBillingEffects env cmd =
     tx_bind (case SubscriptionID cmd of
                Some sid \<Rightarrow> tx_when (SubscriptionCost cmd > 0) (incrementUsageBillingSubscription env sid (SubscriptionCost cmd))
              | None \<Rightarrow> tx_return ()) (\<lambda>_.
     tx_bind (tx_when (BalanceCost cmd > 0) (deductUsageBillingBalance env (UserID cmd) (BalanceCost cmd))) (\<lambda>_.
     tx_bind (if APIKeyQuotaCost cmd > 0 then incrementUsageBillingAPIKeyQuota env (APIKeyID cmd) (APIKeyQuotaCost cmd)
              else tx_return False) (\<lambda>exhausted.
     tx_bind (tx_when (APIKeyRateLimitCost cmd > 0)
                (incrementUsageBillingAPIKeyRateLimit env (APIKeyID cmd) (APIKeyRateLimitCost cmd))) (\<lambda>_.
     tx_bind (tx_when (AccountQuotaCost cmd > 0 \<and>
                (equal_fold (AccountType cmd) ''apikey'' \<or> equal_fold (AccountType cmd) ''bedrock''))
                (incrementUsageBillingAccountQuota env (AccountID cmd) (AccountQuotaCost cmd))) (\<lambda>_.
     tx_return exhausted)))))"

section \<open>The transaction\<close>

record UsageBillingApplyResult =
  Applied :: bool
  UsageLogInserted :: bool
  APIKeyQuotaExhausted :: bool
  APIKeyAuthCacheKey :: gostr
  NeedsAPIKeyAuthCacheInvalidation :: bool

definition emptyResult :: UsageBillingApplyResult where
  "emptyResult = \<lparr>Applied = False, UsageLogInserted = False, APIKeyQuotaExhausted = False,
     APIKeyAuthCacheKey = [], NeedsAPIKeyAuthCacheInvalidation = False\<rparr>"

definition usageLogTombstoned :: "tx_env \<Rightarrow> gostr \<Rightarrow> int64 \<Rightarrow> bool tx" where
  "usageLogTombstoned env r k = sql env SqlTombstone (\<lambda>db. Inr ((r, k) \<in> set (db_tombstones db), db))"

definition persistUsageLog :: "tx_env \<Rightarrow> UsageLog \<Rightarrow> bool tx" where
  "persistUsageLog env l =
     sql env SqlUsageLog (\<lambda>db.
       let row = (trim_space (ul_RequestID l), ul_APIKeyID l)
       in if row \<in> set (db_logs db) then Inr (False, db)
          else Inr (True, db\<lparr>db_logs := db_logs db @ [row]\<rparr>))"

definition resolveAPIKeyAuthProjection :: "tx_env \<Rightarrow> int64 \<Rightarrow> (gostr \<times> bool) tx" where
  "resolveAPIKeyAuthProjection env apiKeyID =
     (if apiKeyID \<le> 0 then tx_return ([], False)
      else sql env SqlProjection (\<lambda>db.
        case tb_keys (db_money db) apiKeyID of
          None \<Rightarrow> Inl ErrAPIKeyNotFound
        | Some k \<Rightarrow>
            if key_deleted k then Inl ErrAPIKeyNotFound
            else Inr ((key_key k, (key_quota k > 0 \<and> key_quota_used k \<ge> key_quota k) \<or>
                        equal_fold (key_status k) statusAPIKeyQuotaExhausted), db)))"

definition chargeable :: "UsageChargeEvent \<Rightarrow> bool" where
  "chargeable e \<longleftrightarrow> kind_of_string (ev_Kind e) \<in> {KindCharge, KindFinalize}"

definition recordUsageLog :: "tx_env \<Rightarrow> UsageChargeEvent \<Rightarrow> bool tx" where
  "recordUsageLog env e =
     (case ev_UsageLog e of
        Some l \<Rightarrow>
          if chargeable e
          then tx_bind (usageLogTombstoned env (ul_RequestID l) (ul_APIKeyID l))
                 (\<lambda>tombstoned. if tombstoned then tx_return False else persistUsageLog env l)
          else tx_return False
      | None \<Rightarrow> tx_return False)"

text \<open>The body of the transaction, for a normalized event and its command.\<close>

definition chargeBody :: "tx_env \<Rightarrow> UsageChargeEvent \<Rightarrow> UsageBillingCommand \<Rightarrow> UsageBillingApplyResult tx" where
  "chargeBody env e cmd =
     tx_bind (if chargeable e then claimUsageBillingKey env cmd else tx_return False) (\<lambda>applied.
     tx_bind (persistBillingLedger env e) (\<lambda>_.
     tx_bind (if applied then applyUsageBillingEffects env cmd else tx_return False) (\<lambda>exhausted.
     tx_bind (recordUsageLog env e) (\<lambda>inserted.
     tx_bind (if APIKeyQuotaCost cmd > 0 then resolveAPIKeyAuthProjection env (APIKeyID cmd) else tx_return ([], False))
       (\<lambda>(key, invalidate).
     tx_return \<lparr>Applied = applied, UsageLogInserted = inserted, APIKeyQuotaExhausted = exhausted,
       APIKeyAuthCacheKey = key, NeedsAPIKeyAuthCacheInvalidation = invalidate\<rparr>)))))"

definition run_tx :: "tx_env \<Rightarrow> 'a tx \<Rightarrow> billing_db \<Rightarrow> (billing_error + 'a) \<times> billing_db" where
  "run_tx env m db =
     (if tx_fault env SqlBegin then (Inl ErrSQL, db)
      else case m db of
        Inl e \<Rightarrow> (Inl e, db)
      | Inr (x, db') \<Rightarrow>
          (case tx_commit env of
             CommitOK \<Rightarrow> (Inr x, db')
           | CommitFailed \<Rightarrow> (Inl ErrSQL, db)
           | CommitUnknown \<Rightarrow> (Inl ErrSQL, db')))"

definition ApplyUsageCharge ::
    "(gostr \<Rightarrow> gostr) \<Rightarrow> tx_env \<Rightarrow> UsageChargeEvent \<Rightarrow> billing_db
     \<Rightarrow> (billing_error + UsageBillingApplyResult) \<times> billing_db" where
  "ApplyUsageCharge sha env event db =
     (let e = normalizeUsageChargeEvent sha event
      in if ev_RequestID e = [] then (Inl ErrUsageBillingRequestIDRequired, db)
         else case ev_Command e of
           None \<Rightarrow> if chargeable e then (Inr emptyResult, db) else (Inl ErrUsageBillingRequestIDRequired, db)
         | Some cmd \<Rightarrow> run_tx env (chargeBody env e cmd) db)"

definition Apply ::
    "(gostr \<Rightarrow> gostr) \<Rightarrow> tx_env \<Rightarrow> UsageBillingCommand option \<Rightarrow> billing_db
     \<Rightarrow> (billing_error + UsageBillingApplyResult) \<times> billing_db" where
  "Apply sha env cmd db =
     (case cmd of
        None \<Rightarrow> (Inr emptyResult, db)
      | Some c \<Rightarrow> ApplyUsageCharge sha env
          \<lparr>ev_Version = 0, ev_Kind = ''charge'', ev_EventID = [], ev_RequestID = [], ev_OccurredAt = None,
           ev_Command = Some c, ev_UsageLog = None, ev_GroupID = 0, ev_HasAPIKeyRateLimitUsage = False\<rparr> db)"

section \<open>Archiving\<close>

definition usageBillingDedupCleanupBatchSize :: nat where
  "usageBillingDedupCleanupBatchSize = 10000"

text \<open>One statement: the first rows older than the cutoff, in the order of the table, move to the archive.\<close>

definition archiveBatch :: "time \<Rightarrow> nat \<Rightarrow> billing_db \<Rightarrow> nat \<times> billing_db" where
  "archiveBatch cutoff batch db =
     (let victims = take batch (filter (\<lambda>d. dd_created d < cutoff) (db_dedup db));
          archived = filter (\<lambda>d. dedup_find (dd_request d) (dd_key d) (db_archive db) = None) victims
      in (length victims, db\<lparr>db_dedup := filter (\<lambda>d. d \<notin> set victims) (db_dedup db),
                             db_archive := db_archive db @ archived\<rparr>))"

text \<open>The loop, with \<open>faults n\<close> saying that the n-th statement fails.\<close>

function archiveLoop :: "(nat \<Rightarrow> bool) \<Rightarrow> time \<Rightarrow> nat \<Rightarrow> nat \<Rightarrow> billing_db \<Rightarrow> (billing_error + unit) \<times> billing_db" where
  "archiveLoop faults cutoff batch n db =
     (if faults n then (Inl ErrSQL, db)
      else let (affected, db') = archiveBatch cutoff (Suc batch) db
           in if affected < Suc batch then (Inr (), db') else archiveLoop faults cutoff batch (n + 1) db')"
  by pat_completeness auto

termination
proof (relation "measure (\<lambda>(faults, cutoff, batch, n, db). length (db_dedup db))", simp)
  fix faults cutoff batch n db x affected db'
  assume "x = archiveBatch cutoff (Suc batch) db" "(affected, db') = x" "\<not> affected < Suc batch"
  then obtain v vs where "take (Suc batch) (filter (\<lambda>d. dd_created d < cutoff) (db_dedup db)) = v # vs"
      and db': "db_dedup db' = filter (\<lambda>d. d \<notin> set (take (Suc batch) (filter (\<lambda>d. dd_created d < cutoff) (db_dedup db)))) (db_dedup db)"
    by (cases "take (Suc batch) (filter (\<lambda>d. dd_created d < cutoff) (db_dedup db))")
      (auto simp: archiveBatch_def Let_def simp del: take_Suc)
  then have "v \<in> set (db_dedup db)" "v \<notin> set (db_dedup db')"
    by (metis filter_is_subset in_set_takeD list.set_intros(1) subset_iff, auto)
  then show "((faults, cutoff, batch, n + 1, db'), (faults, cutoff, batch, n, db)) \<in>
      measure (\<lambda>(faults, cutoff, batch, n, db). length (db_dedup db))"
    by (simp add: db') (auto intro!: length_filter_less)
qed

declare archiveLoop.simps [simp del]

definition CleanupUsageBillingDedup :: "(nat \<Rightarrow> bool) \<Rightarrow> time \<Rightarrow> billing_db \<Rightarrow> (billing_error + unit) \<times> billing_db" where
  "CleanupUsageBillingDedup faults cutoff db =
     archiveLoop faults cutoff (usageBillingDedupCleanupBatchSize - 1) 0 db"

section \<open>What statements keep\<close>

definition keeps :: "(billing_db \<Rightarrow> 'b) \<Rightarrow> 'a tx \<Rightarrow> bool" where
  "keeps f m \<longleftrightarrow> (\<forall>db x db'. m db = Inr (x, db') \<longrightarrow> f db' = f db)"

named_theorems keeps_intros

lemma keepsD: "keeps f m \<Longrightarrow> m db = Inr (x, db') \<Longrightarrow> f db' = f db"
  by (auto simp: keeps_def)

lemma keeps_return [keeps_intros]: "keeps f (tx_return x)"
  by (simp add: keeps_def tx_return_def)

lemma keeps_bind [keeps_intros]: "keeps f m \<Longrightarrow> (\<And>x. keeps f (g x)) \<Longrightarrow> keeps f (tx_bind m g)"
  unfolding keeps_def tx_bind_def by (fastforce split: sum.splits)

lemma keeps_sql [keeps_intros]: "keeps f m \<Longrightarrow> keeps f (sql env step m)"
  by (auto simp: keeps_def sql_def)

lemma keeps_if [keeps_intros]: "keeps f m \<Longrightarrow> keeps f n \<Longrightarrow> keeps f (if b then m else n)"
  by simp

lemma keeps_when [keeps_intros]: "keeps f m \<Longrightarrow> keeps f (tx_when b m)"
  by (simp add: tx_when_def keeps_return)

lemma keeps_match [keeps_intros]: "keeps f (matchDedup env cmd)" "keeps f (matchArchive env cmd)"
  unfolding matchDedup_def matchArchive_def
  by (auto simp: keeps_def sql_def split: sum.splits if_splits)

lemma keeps_insertDedup [keeps_intros]:
  "(\<And>db x. f (db\<lparr>db_dedup := x\<rparr>) = f db) \<Longrightarrow> keeps f (insertDedup env cmd)"
  unfolding insertDedup_def by (rule keeps_sql) (auto simp: keeps_def split: if_splits)

lemma keeps_claim [keeps_intros]:
  "(\<And>db x. f (db\<lparr>db_dedup := x\<rparr>) = f db) \<Longrightarrow> keeps f (claimUsageBillingKey env cmd)"
  unfolding claimUsageBillingKey_def by (intro keeps_intros)

lemma keeps_ledger [keeps_intros]:
  "(\<And>db x. f (db\<lparr>db_ledger := x\<rparr>) = f db) \<Longrightarrow> keeps f (persistBillingLedger env e)"
  unfolding persistBillingLedger_def
  by (auto simp: keeps_def sql_def tx_return_def Let_def split: option.splits if_splits)

lemma keeps_projection [keeps_intros]: "keeps f (resolveAPIKeyAuthProjection env k)"
  unfolding resolveAPIKeyAuthProjection_def
  by (auto simp: keeps_def sql_def tx_return_def split: option.splits if_splits)

lemma keeps_usageLog [keeps_intros]:
  "(\<And>db x. f (db\<lparr>db_logs := x\<rparr>) = f db) \<Longrightarrow> keeps f (recordUsageLog env e)"
  unfolding recordUsageLog_def usageLogTombstoned_def persistUsageLog_def
  by (auto simp: keeps_def sql_def tx_return_def tx_bind_def Let_def split: option.splits sum.splits if_splits)

lemma upd_money_frame [simp]:
  "db_dedup (upd_money g db) = db_dedup db" "db_archive (upd_money g db) = db_archive db"
  "db_groups (upd_money g db) = db_groups db" "db_money (upd_money g db) = g (db_money db)"
  by (simp_all add: upd_money_def)

text \<open>A statement of the effects keeps what no update of the accounts in question changes.\<close>

lemma keeps_subscription [keeps_intros]:
  "(\<And>db x. f (upd_money (\<lambda>m. m\<lparr>tb_subs := x m\<rparr>) db) = f db) \<Longrightarrow> keeps f (incrementUsageBillingSubscription env sid c)"
  unfolding incrementUsageBillingSubscription_def
  by (rule keeps_sql) (auto simp: keeps_def split: option.splits if_splits)

lemma keeps_balance [keeps_intros]:
  "(\<And>db x. f (upd_money (\<lambda>m. m\<lparr>tb_users := x m\<rparr>) db) = f db) \<Longrightarrow> keeps f (deductUsageBillingBalance env u c)"
  unfolding deductUsageBillingBalance_def
  by (rule keeps_sql) (auto simp: keeps_def split: option.splits if_splits)

lemma keeps_keyQuota [keeps_intros]:
  "(\<And>db x. f (upd_money (\<lambda>m. m\<lparr>tb_keys := x m\<rparr>) db) = f db) \<Longrightarrow> keeps f (incrementUsageBillingAPIKeyQuota env k c)"
  unfolding incrementUsageBillingAPIKeyQuota_def
  by (rule keeps_sql) (auto simp: keeps_def Let_def split: option.splits if_splits)

lemma keeps_keyRate [keeps_intros]:
  "(\<And>db x. f (upd_money (\<lambda>m. m\<lparr>tb_keys := x m\<rparr>) db) = f db) \<Longrightarrow> keeps f (incrementUsageBillingAPIKeyRateLimit env k c)"
  unfolding incrementUsageBillingAPIKeyRateLimit_def
  by (rule keeps_sql) (auto simp: keeps_def split: option.splits if_splits)

lemma keeps_outbox [keeps_intros]:
  "(\<And>db x. f (upd_money (\<lambda>m. m\<lparr>tb_outbox := x m\<rparr>) db) = f db) \<Longrightarrow> keeps f (enqueueSchedulerOutbox env a)"
proof -
  assume f: "\<And>db x. f (upd_money (\<lambda>m. m\<lparr>tb_outbox := x m\<rparr>) db) = f db"
  have "f (upd_money (\<lambda>m. if P m then m else m\<lparr>tb_outbox := x m\<rparr>) db) = f db" for P x db
  proof -
    have "upd_money (\<lambda>m. if P m then m else m\<lparr>tb_outbox := x m\<rparr>) db =
        upd_money (\<lambda>m. m\<lparr>tb_outbox := if P m then tb_outbox m else x m\<rparr>) db"
      by (simp add: upd_money_def)
    then show ?thesis using f by simp
  qed
  then show ?thesis unfolding enqueueSchedulerOutbox_def by (intro keeps_sql) (auto simp: keeps_def)
qed

lemma keeps_accountQuota [keeps_intros]:
  assumes "\<And>db x. f (upd_money (\<lambda>m. m\<lparr>tb_accounts := x m\<rparr>) db) = f db"
    and "\<And>db x. f (upd_money (\<lambda>m. m\<lparr>tb_outbox := x m\<rparr>) db) = f db"
  shows "keeps f (incrementUsageBillingAccountQuota env a c)"
proof -
  have "keeps f (sql env SqlAccountQuota (\<lambda>db.
       case tb_accounts (db_money db) a of
         None \<Rightarrow> Inl ErrAccountNotFound
       | Some r \<Rightarrow>
           if acc_deleted r then Inl ErrAccountNotFound
           else let a' = chargeAccountQuota (tx_now env) c r
                in Inr ((orZero (acc_quota_used a'), orZero (acc_quota_limit a')),
                        upd_money (\<lambda>m. m\<lparr>tb_accounts := (tb_accounts m)(a \<mapsto> a')\<rparr>) db)))"
    using assms(1) by (intro keeps_sql) (auto simp: keeps_def Let_def split: option.splits if_splits)
  then show ?thesis
    unfolding incrementUsageBillingAccountQuota_def
    by (rule keeps_bind) (auto intro!: keeps_intros assms(2) split: prod.splits)
qed

section \<open>Claims\<close>

definition claimed :: "gostr \<Rightarrow> int64 \<Rightarrow> billing_db \<Rightarrow> bool" where
  "claimed r k db \<longleftrightarrow> dedup_find r k (db_dedup db) \<noteq> None \<or> dedup_find r k (db_archive db) \<noteq> None"

lemma tx_bind_Inr:
  "tx_bind m g db = Inr (y, db'') \<longleftrightarrow> (\<exists>x db'. m db = Inr (x, db') \<and> g x db' = Inr (y, db''))"
  by (auto simp: tx_bind_def split: sum.splits)

lemma dedup_find_append:
  "dedup_find r k (xs @ ys) = (case dedup_find r k xs of Some d \<Rightarrow> Some d | None \<Rightarrow> dedup_find r k ys)"
  by (induction xs) (auto simp: dedup_find_def)

lemma dedup_find_None: "dedup_find r k xs = None \<longleftrightarrow> (\<forall>d \<in> set xs. \<not> (dd_request d = r \<and> dd_key d = k))"
  by (auto simp: dedup_find_def find_None_iff)

lemma dedup_find_Some: "dedup_find r k xs = Some d \<Longrightarrow> d \<in> set xs \<and> dd_request d = r \<and> dd_key d = k"
  by (auto simp: dedup_find_def find_Some_iff)

lemma matchDedup_Inr:
  "matchDedup env cmd db = Inr (b, db') \<Longrightarrow> db' = db \<and> (b \<longleftrightarrow> dedup_find (RequestID cmd) (APIKeyID cmd) (db_dedup db) \<noteq> None)"
  by (auto simp: matchDedup_def sql_def matchExistingUsageBillingFingerprint_def split: if_splits option.splits)

lemma matchArchive_Inr:
  "matchArchive env cmd db = Inr (b, db') \<Longrightarrow> db' = db \<and> (b \<longleftrightarrow> dedup_find (RequestID cmd) (APIKeyID cmd) (db_archive db) \<noteq> None)"
  by (auto simp: matchArchive_def sql_def matchExistingUsageBillingFingerprint_def split: if_splits option.splits)

text \<open>A claim succeeds exactly for a request that has not been claimed, and records it.\<close>

lemma claim_result:
  assumes "claimUsageBillingKey env cmd db = Inr (b, db')"
  shows "b \<longleftrightarrow> \<not> claimed (RequestID cmd) (APIKeyID cmd) db"
    and "claimed r k db' \<longleftrightarrow> claimed r k db \<or> b \<and> r = RequestID cmd \<and> k = APIKeyID cmd"
proof -
  let ?find = "dedup_find (RequestID cmd) (APIKeyID cmd)"
  let ?row = "\<lparr>dd_request = RequestID cmd, dd_key = APIKeyID cmd, dd_fingerprint = RequestFingerprint cmd,
    dd_created = tx_now env\<rparr>"
  note unfold = claimUsageBillingKey_def tx_bind_def matchDedup_def matchArchive_def insertDedup_def sql_def
    matchExistingUsageBillingFingerprint_def tx_return_def
  have row: "dedup_find r k [?row] \<noteq> None \<longleftrightarrow> r = RequestID cmd \<and> k = APIKeyID cmd"
    by (auto simp: dedup_find_def)
  have "(if claimed (RequestID cmd) (APIKeyID cmd) db then \<not> b \<and> db' = db
      else b \<and> db' = db\<lparr>db_dedup := db_dedup db @ [?row]\<rparr>)"
  proof (cases "?find (db_dedup db)")
    case None
    then show ?thesis using assms
      by (cases "?find (db_archive db)") (simp_all add: unfold claimed_def split: if_splits)
  next
    case (Some d)
    then show ?thesis using assms by (simp add: unfold claimed_def split: if_splits)
  qed
  then show "b \<longleftrightarrow> \<not> claimed (RequestID cmd) (APIKeyID cmd) db"
    and "claimed r k db' \<longleftrightarrow> claimed r k db \<or> b \<and> r = RequestID cmd \<and> k = APIKeyID cmd"
    using row by (auto simp: claimed_def dedup_find_append split: if_splits option.splits)
qed

lemma keeps_claims [keeps_intros]:
  "keeps (\<lambda>db. (db_dedup db, db_archive db)) m \<Longrightarrow> keeps (claimed r k) m"
  by (auto simp: keeps_def claimed_def)

lemma keeps_effects [keeps_intros]:
  "(\<And>db g. f (upd_money g db) = f db) \<Longrightarrow> keeps f (applyUsageBillingEffects env cmd)"
  unfolding applyUsageBillingEffects_def
  by (auto intro!: keeps_bind keeps_when keeps_return keeps_if keeps_subscription keeps_balance keeps_keyQuota
      keeps_keyRate keeps_accountQuota split: option.splits)

text \<open>The part of the transaction after the claim and its effects leaves the money alone.\<close>

lemma chargeBody_result:
  assumes "chargeBody env e cmd db = Inr (res, db')"
  shows "Applied res \<longleftrightarrow> chargeable e \<and> \<not> claimed (RequestID cmd) (APIKeyID cmd) db"
    and "claimed r k db' \<longleftrightarrow> claimed r k db \<or> Applied res \<and> r = RequestID cmd \<and> k = APIKeyID cmd"
    and "\<not> Applied res \<Longrightarrow> db_money db' = db_money db"
    and "Applied res \<Longrightarrow> \<exists>db1 exhausted db2. db_money db1 = db_money db \<and> db_groups db1 = db_groups db \<and>
      applyUsageBillingEffects env cmd db1 = Inr (exhausted, db2) \<and> db_money db' = db_money db2"
    and "db_groups db' = db_groups db"
proof -
  obtain db1 db2 exh db3 ins db4 key inv where
    1: "(if chargeable e then claimUsageBillingKey env cmd else tx_return False) db = Inr (Applied res, db1)" and
    2: "persistBillingLedger env e db1 = Inr ((), db2)" and
    3: "(if Applied res then applyUsageBillingEffects env cmd else tx_return False) db2 = Inr (exh, db3)" and
    4: "recordUsageLog env e db3 = Inr (ins, db4)" and
    5: "(if APIKeyQuotaCost cmd > 0 then resolveAPIKeyAuthProjection env (APIKeyID cmd) else tx_return ([], False)) db4 =
      Inr ((key, inv), db')"
    using assms by (auto simp: chargeBody_def tx_bind_Inr tx_return_def split: prod.splits)
  have c1: "(Applied res \<longleftrightarrow> chargeable e \<and> \<not> claimed (RequestID cmd) (APIKeyID cmd) db) \<and>
      (claimed r k db1 \<longleftrightarrow> claimed r k db \<or> Applied res \<and> r = RequestID cmd \<and> k = APIKeyID cmd)"
    using 1 claim_result by (cases "chargeable e") (auto simp: tx_return_def)
  have k1: "f db1 = f db" if "\<And>db x. f (db\<lparr>db_dedup := x\<rparr>) = f db" for f :: "billing_db \<Rightarrow> 'x"
    using 1 keepsD [OF keeps_claim [of f env cmd, OF that], of db "Applied res" db1]
    by (cases "chargeable e") (simp_all add: tx_return_def)
  have m1: "db_money db1 = db_money db" "db_groups db1 = db_groups db"
    using k1 [of db_money] k1 [of db_groups] by simp_all
  have k2: "f db2 = f db1" if "\<And>db x. f (db\<lparr>db_ledger := x\<rparr>) = f db" for f :: "billing_db \<Rightarrow> 'x"
    using keepsD [OF keeps_ledger 2] that by blast
  have k3: "f db3 = f db2" if "\<And>db g. f (upd_money g db) = f db" for f :: "billing_db \<Rightarrow> 'x"
    using 3 keepsD [OF keeps_effects [of f env cmd, OF that], of db2 exh db3]
    by (cases "Applied res") (simp_all add: tx_return_def)
  have k4: "f db4 = f db3" if "\<And>db x. f (db\<lparr>db_logs := x\<rparr>) = f db" for f :: "billing_db \<Rightarrow> 'x"
    using keepsD [OF keeps_usageLog 4] that by blast
  have k5: "f db' = f db4" for f :: "billing_db \<Rightarrow> 'x"
    using 5 keepsD [OF keeps_projection [of f env "APIKeyID cmd"], of db4 "(key, inv)" db']
    by (cases "APIKeyQuotaCost cmd > 0") (simp_all add: tx_return_def)
  show "Applied res \<longleftrightarrow> chargeable e \<and> \<not> claimed (RequestID cmd) (APIKeyID cmd) db" using c1 by blast
  have "claimed r k db' = claimed r k db1"
    using k2 [of "claimed r k"] k3 [of "claimed r k"] k4 [of "claimed r k"] k5 [of "claimed r k"]
    by (simp add: claimed_def)
  then show "claimed r k db' \<longleftrightarrow> claimed r k db \<or> Applied res \<and> r = RequestID cmd \<and> k = APIKeyID cmd"
    using c1 by simp
  have end_money: "db_money db' = db_money db3" using k4 [of db_money] k5 [of db_money] by simp
  show "db_money db' = db_money db" if "\<not> Applied res"
    using that 3 end_money m1 k2 [of db_money] by (simp add: tx_return_def)
  show "\<exists>db1 exhausted db2. db_money db1 = db_money db \<and> db_groups db1 = db_groups db \<and>
      applyUsageBillingEffects env cmd db1 = Inr (exhausted, db2) \<and> db_money db' = db_money db2" if "Applied res"
    using that 3 end_money m1 k2 [of db_money] k2 [of db_groups] by auto
  show "db_groups db' = db_groups db"
    using m1 k2 [of db_groups] k3 [of db_groups] k4 [of db_groups] k5 [of db_groups] by simp
qed

section \<open>Charges on the balance and the quota\<close>

definition balance_of :: "int64 \<Rightarrow> billing_db \<Rightarrow> rat option" where
  "balance_of u db = map_option usr_balance (tb_users (db_money db) u)"

definition quota_used_of :: "int64 \<Rightarrow> billing_db \<Rightarrow> rat option" where
  "quota_used_of k db = map_option key_quota_used (tb_keys (db_money db) k)"

definition charge_balance :: "int64 \<Rightarrow> UsageBillingCommand \<Rightarrow> rat \<Rightarrow> rat" where
  "charge_balance u cmd b = (if UserID cmd = u \<and> BalanceCost cmd > 0 then round_away 8 (b - BalanceCost cmd) else b)"

definition charge_quota :: "int64 \<Rightarrow> UsageBillingCommand \<Rightarrow> rat \<Rightarrow> rat" where
  "charge_quota k cmd q = (if APIKeyID cmd = k \<and> APIKeyQuotaCost cmd > 0 then round_away 8 (q + APIKeyQuotaCost cmd) else q)"

lemma deductUsageBillingBalance_balance:
  "deductUsageBillingBalance env v c db = Inr (x, db') \<Longrightarrow>
   balance_of u db' = map_option (\<lambda>b. if v = u then round_away 8 (b - c) else b) (balance_of u db)"
  by (auto simp: deductUsageBillingBalance_def sql_def balance_of_def option.map_comp comp_def
      split: if_splits option.splits)

lemma incrementUsageBillingAPIKeyQuota_quota:
  "incrementUsageBillingAPIKeyQuota env v c db = Inr (x, db') \<Longrightarrow>
   quota_used_of k db' = map_option (\<lambda>q. if v = k then round_away 8 (q + c) else q) (quota_used_of k db)"
  by (auto simp: incrementUsageBillingAPIKeyQuota_def sql_def quota_used_of_def chargeKeyQuota_def Let_def
      option.map_comp comp_def split: if_splits option.splits)

lemma keeps_keyRate_quota [keeps_intros]: "keeps (quota_used_of k) (incrementUsageBillingAPIKeyRateLimit env v c)"
  by (auto simp: keeps_def incrementUsageBillingAPIKeyRateLimit_def sql_def quota_used_of_def chargeKeyWindows_def
      Let_def split: if_splits option.splits)

lemma applyUsageBillingEffects_charges:
  assumes "applyUsageBillingEffects env cmd db = Inr (x, db')"
  shows "balance_of u db' = map_option (charge_balance u cmd) (balance_of u db)"
    and "quota_used_of k db' = map_option (charge_quota k cmd) (quota_used_of k db)"
proof -
  obtain db1 db2 db3 db4 x3 where
    1: "(case SubscriptionID cmd of
          Some sid \<Rightarrow> tx_when (SubscriptionCost cmd > 0) (incrementUsageBillingSubscription env sid (SubscriptionCost cmd))
        | None \<Rightarrow> tx_return ()) db = Inr ((), db1)" and
    2: "tx_when (BalanceCost cmd > 0) (deductUsageBillingBalance env (UserID cmd) (BalanceCost cmd)) db1 = Inr ((), db2)" and
    3: "(if APIKeyQuotaCost cmd > 0 then incrementUsageBillingAPIKeyQuota env (APIKeyID cmd) (APIKeyQuotaCost cmd)
         else tx_return False) db2 = Inr (x3, db3)" and
    4: "tx_when (APIKeyRateLimitCost cmd > 0)
          (incrementUsageBillingAPIKeyRateLimit env (APIKeyID cmd) (APIKeyRateLimitCost cmd)) db3 = Inr ((), db4)" and
    5: "tx_when (AccountQuotaCost cmd > 0 \<and> (equal_fold (AccountType cmd) ''apikey'' \<or> equal_fold (AccountType cmd) ''bedrock''))
          (incrementUsageBillingAccountQuota env (AccountID cmd) (AccountQuotaCost cmd)) db4 = Inr ((), db')"
    using assms by (auto simp: applyUsageBillingEffects_def tx_bind_Inr tx_return_def)
  have s1: "keeps f (case SubscriptionID cmd of
          Some sid \<Rightarrow> tx_when (SubscriptionCost cmd > 0) (incrementUsageBillingSubscription env sid (SubscriptionCost cmd))
        | None \<Rightarrow> tx_return ())" if "\<And>db x. f (upd_money (\<lambda>m. m\<lparr>tb_subs := x m\<rparr>) db) = f db" for f :: "billing_db \<Rightarrow> rat option"
    using that by (auto intro!: keeps_when keeps_subscription keeps_return split: option.split)
  have s5: "keeps f (tx_when (AccountQuotaCost cmd > 0 \<and> (equal_fold (AccountType cmd) ''apikey'' \<or> equal_fold (AccountType cmd) ''bedrock''))
          (incrementUsageBillingAccountQuota env (AccountID cmd) (AccountQuotaCost cmd)))"
    if "\<And>db x. f (upd_money (\<lambda>m. m\<lparr>tb_accounts := x m\<rparr>) db) = f db" "\<And>db x. f (upd_money (\<lambda>m. m\<lparr>tb_outbox := x m\<rparr>) db) = f db"
    for f :: "billing_db \<Rightarrow> rat option"
    using that by (intro keeps_when keeps_accountQuota)
  have b1: "balance_of u db1 = balance_of u db" by (rule keepsD [OF s1 1]) (simp add: balance_of_def)
  have b2: "balance_of u db2 = map_option (charge_balance u cmd) (balance_of u db1)"
    using 2 by (cases "BalanceCost cmd > 0")
      (auto simp: tx_when_def tx_return_def charge_balance_def [abs_def] option.map_ident dest!: deductUsageBillingBalance_balance [where u = u])
  have "keeps (balance_of u) (if APIKeyQuotaCost cmd > 0
      then incrementUsageBillingAPIKeyQuota env (APIKeyID cmd) (APIKeyQuotaCost cmd) else tx_return False)"
    by (intro keeps_if keeps_keyQuota keeps_return) (simp add: balance_of_def)
  from keepsD [OF this 3] have b3: "balance_of u db3 = balance_of u db2" .
  have "keeps (balance_of u) (tx_when (APIKeyRateLimitCost cmd > 0)
      (incrementUsageBillingAPIKeyRateLimit env (APIKeyID cmd) (APIKeyRateLimitCost cmd)))"
    by (intro keeps_when keeps_keyRate) (simp add: balance_of_def)
  from keepsD [OF this 4] have b4: "balance_of u db4 = balance_of u db3" .
  have b5: "balance_of u db' = balance_of u db4" by (rule keepsD [OF s5 5]) (simp_all add: balance_of_def)
  show "balance_of u db' = map_option (charge_balance u cmd) (balance_of u db)" using b1 b2 b3 b4 b5 by simp
  have q1: "quota_used_of k db1 = quota_used_of k db" by (rule keepsD [OF s1 1]) (simp add: quota_used_of_def)
  have "keeps (quota_used_of k) (tx_when (BalanceCost cmd > 0) (deductUsageBillingBalance env (UserID cmd) (BalanceCost cmd)))"
    by (intro keeps_when keeps_balance) (simp add: quota_used_of_def)
  from keepsD [OF this 2] have q2: "quota_used_of k db2 = quota_used_of k db1" .
  have q3: "quota_used_of k db3 = map_option (charge_quota k cmd) (quota_used_of k db2)"
    using 3 by (cases "APIKeyQuotaCost cmd > 0")
      (auto simp: tx_return_def charge_quota_def [abs_def] option.map_ident dest!: incrementUsageBillingAPIKeyQuota_quota [where k = k])
  from keepsD [OF keeps_when [OF keeps_keyRate_quota] 4] have q4: "quota_used_of k db4 = quota_used_of k db3" .
  have q5: "quota_used_of k db' = quota_used_of k db4" by (rule keepsD [OF s5 5]) (simp_all add: quota_used_of_def)
  show "quota_used_of k db' = map_option (charge_quota k cmd) (quota_used_of k db)" using q1 q2 q3 q4 q5 by simp
qed

section \<open>Runs of the billing consumer\<close>

datatype billing_op = Deliver tx_env UsageChargeEvent | ArchiveOld "nat \<Rightarrow> bool" time

fun bill_step :: "(gostr \<Rightarrow> gostr) \<Rightarrow> billing_op \<Rightarrow> billing_db \<Rightarrow> billing_db" where
  "bill_step sha (Deliver env ev) db = snd (ApplyUsageCharge sha env ev db)"
| "bill_step sha (ArchiveOld faults cutoff) db = snd (CleanupUsageBillingDedup faults cutoff db)"

text \<open>The commands that an operation charges: those whose request it claims.\<close>

fun charged :: "(gostr \<Rightarrow> gostr) \<Rightarrow> billing_op \<Rightarrow> billing_db \<Rightarrow> UsageBillingCommand list" where
  "charged sha (Deliver env ev) db =
     (case ev_Command (normalizeUsageChargeEvent sha ev) of
        None \<Rightarrow> []
      | Some cmd \<Rightarrow> if claimed (RequestID cmd) (APIKeyID cmd) (bill_step sha (Deliver env ev) db) \<and>
                       \<not> claimed (RequestID cmd) (APIKeyID cmd) db then [cmd] else [])"
| "charged sha (ArchiveOld faults cutoff) db = []"

fun charged_run :: "(gostr \<Rightarrow> gostr) \<Rightarrow> billing_op list \<Rightarrow> billing_db \<Rightarrow> UsageBillingCommand list" where
  "charged_run sha [] db = []"
| "charged_run sha (oper # ops) db = charged sha oper db @ charged_run sha ops (bill_step sha oper db)"

abbreviation "request_key cmd \<equiv> (RequestID cmd, APIKeyID cmd)"

text \<open>Nothing but a committed transaction changes the database.\<close>

lemma ApplyUsageCharge_cases:
  obtains (same) "snd (ApplyUsageCharge sha env ev db) = db"
  | (committed) cmd res db' where "ev_Command (normalizeUsageChargeEvent sha ev) = Some cmd"
      "chargeBody env (normalizeUsageChargeEvent sha ev) cmd db = Inr (res, db')"
      "snd (ApplyUsageCharge sha env ev db) = db'"
      "fst (ApplyUsageCharge sha env ev db) \<in> {Inr res, Inl ErrSQL}"
proof -
  let ?e = "normalizeUsageChargeEvent sha ev"
  show thesis
  proof (cases "ev_RequestID ?e = [] \<or> ev_Command ?e = None")
    case True
    then have "snd (ApplyUsageCharge sha env ev db) = db" by (auto simp: ApplyUsageCharge_def Let_def)
    then show thesis by (rule same)
  next
    case False
    then obtain cmd where cmd: "ev_Command ?e = Some cmd"
      and app: "ApplyUsageCharge sha env ev db = run_tx env (chargeBody env ?e cmd) db"
      by (auto simp: ApplyUsageCharge_def Let_def)
    show thesis
    proof (cases "tx_fault env SqlBegin \<or> tx_commit env = CommitFailed \<or> (\<exists>x. chargeBody env ?e cmd db = Inl x)")
      case True
      then have "snd (ApplyUsageCharge sha env ev db) = db"
        by (auto simp: app run_tx_def split: sum.splits commit_outcome.splits)
      then show thesis by (rule same)
    next
      case False
      then obtain res db' where body: "chargeBody env ?e cmd db = Inr (res, db')"
        by (cases "chargeBody env ?e cmd db") auto
      with False have "snd (ApplyUsageCharge sha env ev db) = db'"
          "fst (ApplyUsageCharge sha env ev db) \<in> {Inr res, Inl ErrSQL}"
        by (auto simp: app run_tx_def split: commit_outcome.splits)
      with cmd body show thesis by (rule committed)
    qed
  qed
qed

lemma Deliver_step:
  fixes sha env ev db
  defines "db' \<equiv> bill_step sha (Deliver env ev) db" and "cs \<equiv> charged sha (Deliver env ev) db"
  shows "(claimed r k db' \<longleftrightarrow> claimed r k db \<or> (r, k) \<in> request_key ` set cs) \<and>
    balance_of u db' = map_option (fold (charge_balance u) cs) (balance_of u db) \<and>
    quota_used_of a db' = map_option (fold (charge_quota a) cs) (quota_used_of a db) \<and>
    (cs = [] \<longrightarrow> db_money db' = db_money db) \<and> length cs \<le> 1 \<and>
    (\<forall>c \<in> set cs. \<not> claimed (RequestID c) (APIKeyID c) db)"
proof (cases rule: ApplyUsageCharge_cases [of sha env ev db])
  case same
  then have "cs = []" "db' = db"
    by (auto simp: db'_def cs_def split: option.splits)
  then show ?thesis by (simp add: option.map_id)
next
  case (committed cmd res db2)
  note body = chargeBody_result [OF committed(2)]
  have db2: "db' = db2" using committed(3) by (simp add: db'_def)
  have ch: "cs = (if Applied res then [cmd] else [])"
    using committed(1,3) body(1) body(2) [of "RequestID cmd" "APIKeyID cmd"] by (auto simp: cs_def)
  show ?thesis
  proof (cases "Applied res")
    case True
    from body(4) [OF True] obtain d1 x d2 where d: "db_money d1 = db_money db"
        "applyUsageBillingEffects env cmd d1 = Inr (x, d2)" "db_money db2 = db_money d2" by blast
    from applyUsageBillingEffects_charges [OF d(2)] d(1,3) body(1,2) True ch db2 show ?thesis
      by (auto simp: balance_of_def quota_used_of_def)
  next
    case False
    with body(2,3) ch db2 show ?thesis
      by (simp add: balance_of_def quota_used_of_def option.map_id)
  qed
qed

text \<open>Archiving moves claims between the two tables and loses none.\<close>

lemma archiveBatch_claimed: "claimed r k (snd (archiveBatch cutoff batch db)) = claimed r k db"
proof -
  let ?vs = "take batch (filter (\<lambda>d. dd_created d < cutoff) (db_dedup db))"
  have sub: "set ?vs \<subseteq> set (db_dedup db)" by (meson filter_is_subset set_take_subset subset_trans)
  have iff: "claimed r k d' \<longleftrightarrow> (\<exists>d \<in> set (db_dedup d') \<union> set (db_archive d'). dd_request d = r \<and> dd_key d = k)" for d'
    by (auto simp: claimed_def dedup_find_None)
  show ?thesis
    using sub by (auto simp: iff archiveBatch_def Let_def dedup_find_None)
qed

lemma archiveBatch_frame: "db_money (snd (archiveBatch cutoff batch db)) = db_money db"
  by (simp add: archiveBatch_def Let_def)

lemma archiveLoop_frame:
  "claimed r k (snd (archiveLoop faults cutoff batch n db)) = claimed r k db \<and>
   db_money (snd (archiveLoop faults cutoff batch n db)) = db_money db"
proof (induction faults cutoff batch n db rule: archiveLoop.induct)
  case (1 faults cutoff batch n db)
  obtain affected db1 where b: "archiveBatch cutoff (Suc batch) db = (affected, db1)" by fastforce
  then have "claimed r k db1 = claimed r k db" "db_money db1 = db_money db"
    using archiveBatch_claimed [of r k cutoff "Suc batch" db] archiveBatch_frame [of cutoff "Suc batch" db] by simp_all
  with 1 [OF _ b [symmetric] refl] b show ?case
    by (subst (1 2) archiveLoop.simps) simp
qed

lemma bill_step_charges:
  fixes sha oper db
  defines "db' \<equiv> bill_step sha oper db" and "cs \<equiv> charged sha oper db"
  shows "(claimed r k db' \<longleftrightarrow> claimed r k db \<or> (r, k) \<in> request_key ` set cs) \<and>
    balance_of u db' = map_option (fold (charge_balance u) cs) (balance_of u db) \<and>
    quota_used_of a db' = map_option (fold (charge_quota a) cs) (quota_used_of a db) \<and>
    (cs = [] \<longrightarrow> db_money db' = db_money db) \<and> length cs \<le> 1 \<and>
    (\<forall>c \<in> set cs. \<not> claimed (RequestID c) (APIKeyID c) db)"
proof (cases oper)
  case (Deliver env ev)
  then show ?thesis using Deliver_step [of r k sha env ev db u a]
    by (simp add: db'_def cs_def del: bill_step.simps charged.simps)
next
  case (ArchiveOld faults cutoff)
  then show ?thesis using archiveLoop_frame
    by (simp add: db'_def cs_def CleanupUsageBillingDedup_def balance_of_def quota_used_of_def option.map_id)
qed

lemma distinct_short: "length cs \<le> 1 \<Longrightarrow> distinct (map f cs)"
  by (cases cs) auto

lemma bill_run_charges:
  "distinct (map request_key (charged_run sha ops db)) \<and>
   (\<forall>c \<in> set (charged_run sha ops db). \<not> claimed (RequestID c) (APIKeyID c) db) \<and>
   (claimed r k (fold (bill_step sha) ops db) \<longleftrightarrow> claimed r k db \<or> (r, k) \<in> request_key ` set (charged_run sha ops db)) \<and>
   balance_of u (fold (bill_step sha) ops db) = map_option (fold (charge_balance u) (charged_run sha ops db)) (balance_of u db) \<and>
   quota_used_of a (fold (bill_step sha) ops db) = map_option (fold (charge_quota a) (charged_run sha ops db)) (quota_used_of a db) \<and>
   (charged_run sha ops db = [] \<longrightarrow> db_money (fold (bill_step sha) ops db) = db_money db)"
proof (induction ops arbitrary: db)
  case Nil
  then show ?case by (simp add: option.map_ident)
next
  case (Cons oper ops)
  let ?db = "bill_step sha oper db" and ?cs = "charged sha oper db"
  note step = bill_step_charges [where sha = sha and oper = oper and db = db]
  note run = Cons.IH [of ?db]
  have fresh: "\<not> claimed (RequestID c) (APIKeyID c) db \<and> request_key c \<notin> request_key ` set ?cs"
    if "c \<in> set (charged_run sha ops ?db)" for c
    using run that step [of "RequestID c" "APIKeyID c"] by blast
  have dist: "distinct (map request_key ?cs)" using step by (intro distinct_short) blast
  have all: "charged_run sha (oper # ops) db = ?cs @ charged_run sha ops ?db" by simp
  show ?case
  proof (intro conjI)
    have "set (map request_key ?cs) \<inter> set (map request_key (charged_run sha ops ?db)) = {}"
    proof (rule equals0I)
      fix x assume x: "x \<in> set (map request_key ?cs) \<inter> set (map request_key (charged_run sha ops ?db))"
      then obtain c where c: "c \<in> set (charged_run sha ops ?db)" "x = request_key c" by auto
      from fresh [OF c(1)] x c(2) show False by simp
    qed
    moreover have "distinct (map request_key (charged_run sha ops ?db))" using run by blast
    ultimately show "distinct (map request_key (charged_run sha (oper # ops) db))"
      using dist unfolding all map_append distinct_append by blast
    show "\<forall>c \<in> set (charged_run sha (oper # ops) db). \<not> claimed (RequestID c) (APIKeyID c) db"
      using step fresh by (auto simp: all)
    show "claimed r k (fold (bill_step sha) (oper # ops) db) \<longleftrightarrow>
        claimed r k db \<or> (r, k) \<in> request_key ` set (charged_run sha (oper # ops) db)"
      using run step [of r k] by (auto simp: all)
    show "balance_of u (fold (bill_step sha) (oper # ops) db) =
        map_option (fold (charge_balance u) (charged_run sha (oper # ops) db)) (balance_of u db)"
      using run step [of r k u] by (simp add: all option.map_comp comp_def)
    show "quota_used_of a (fold (bill_step sha) (oper # ops) db) =
        map_option (fold (charge_quota a) (charged_run sha (oper # ops) db)) (quota_used_of a db)"
      using run step [of r k u a] by (simp add: all option.map_comp comp_def)
    show "charged_run sha (oper # ops) db = [] \<longrightarrow> db_money (fold (bill_step sha) (oper # ops) db) = db_money db"
      using run step by (simp add: all)
  qed
qed

section \<open>Properties\<close>

text \<open>
  C18. Exactly-once billing.  Over any sequence of event deliveries (duplicates, redeliveries,
  failing statements, commits that fail or whose outcome is unknown) and archiving runs, no
  request is charged twice, no request that was claimed before is charged at all, and the
  balance of every user and the used quota of every key are what the charged commands, in
  order, make of them.
\<close>

theorem billing_exactly_once:
  "distinct (map (\<lambda>c. (RequestID c, APIKeyID c)) (charged_run sha ops db)) \<and>
   filter (\<lambda>c. claimed (RequestID c) (APIKeyID c) db) (charged_run sha ops db) = [] \<and>
   balance_of u (fold (bill_step sha) ops db) =
     map_option (fold (charge_balance u) (charged_run sha ops db)) (balance_of u db) \<and>
   quota_used_of k (fold (bill_step sha) ops db) =
     map_option (fold (charge_quota k) (charged_run sha ops db)) (quota_used_of k db)"
  using bill_run_charges [of sha ops db undefined undefined u k] by (simp add: filter_empty_conv)

text \<open>An operation that concerns one request only: deliveries of events for it, and archiving.\<close>

fun concerns :: "(gostr \<Rightarrow> gostr) \<Rightarrow> gostr \<Rightarrow> int64 \<Rightarrow> billing_op \<Rightarrow> bool" where
  "concerns sha r k (Deliver env ev) =
     (case ev_Command (normalizeUsageChargeEvent sha ev) of
        None \<Rightarrow> True | Some cmd \<Rightarrow> RequestID cmd = r \<and> APIKeyID cmd = k)"
| "concerns sha r k (ArchiveOld faults cutoff) = True"

lemma charged_concerns: "concerns sha r k oper \<Longrightarrow> c \<in> set (charged sha oper db) \<Longrightarrow> RequestID c = r \<and> APIKeyID c = k"
  by (cases oper) (auto split: option.splits if_splits)

lemma charged_run_concerns:
  "\<forall>oper \<in> set ops. concerns sha r k oper \<Longrightarrow> c \<in> set (charged_run sha ops db) \<Longrightarrow> RequestID c = r \<and> APIKeyID c = k"
  by (induction ops arbitrary: db) (auto dest: charged_concerns)

text \<open>Concrete data for the witnesses: one user, one key, one charge of 0.25.\<close>

definition exampleKey :: key_row where
  "exampleKey = \<lparr>key_key = ''sk'', key_status = ''active'', key_quota = 1, key_quota_used = 1 / 2, key_usage_5h = 0,
     key_usage_1d = 0, key_usage_7d = 0, key_window_5h = None, key_window_1d = None, key_window_7d = None,
     key_deleted = False\<rparr>"

definition exampleDB :: billing_db where
  "exampleDB = \<lparr>db_money = \<lparr>tb_users = [7 \<mapsto> \<lparr>usr_balance = 10, usr_deleted = False\<rparr>], tb_subs = Map.empty,
       tb_keys = [3 \<mapsto> exampleKey], tb_accounts = Map.empty, tb_outbox = []\<rparr>,
     db_groups = Map.empty, db_dedup = [], db_archive = [], db_ledger = [], db_logs = [], db_tombstones = []\<rparr>"

definition exampleCmd :: UsageBillingCommand where
  "exampleCmd = \<lparr>RequestID = ''r1'', APIKeyID = 3, RequestFingerprint = ''f1'', RequestPayloadHash = [], UserID = 7,
     AccountID = 5, SubscriptionID = None, AccountType = ''oauth'', Model = ''m'', ServiceTier = [],
     ReasoningEffort = [], BillingType = 0, InputTokens = 1, OutputTokens = 1, CacheCreationTokens = 0,
     CacheReadTokens = 0, ImageCount = 0, MediaType = [], BalanceCost = 1 / 4, SubscriptionCost = 0,
     APIKeyQuotaCost = 0, APIKeyRateLimitCost = 0, AccountQuotaCost = 0\<rparr>"

definition exampleEvent :: UsageChargeEvent where
  "exampleEvent = \<lparr>ev_Version = 2, ev_Kind = ''charge'', ev_EventID = ''e1'', ev_RequestID = ''r1'',
     ev_OccurredAt = Some 0, ev_Command = Some exampleCmd, ev_UsageLog = None, ev_GroupID = 0,
     ev_HasAPIKeyRateLimitUsage = False\<rparr>"

definition exampleTx :: "commit_outcome \<Rightarrow> tx_env" where
  "exampleTx c = \<lparr>tx_now = 100, tx_day = 0, tx_uuid = ''u'', tx_fault = (\<lambda>_. False), tx_commit = c\<rparr>"

definition exampleSha :: "gostr \<Rightarrow> gostr" where
  "exampleSha s = s"

lemma example_trim: "trim_space ''r1'' = ''r1''" "trim_space ''f1'' = ''f1''" "trim_space ''charge'' = ''charge''"
    "trim_space ''e1'' = ''e1''"
  by code_simp+

lemma exampleEvent_normal: "normalizeUsageChargeEvent exampleSha exampleEvent = exampleEvent"
  by (simp add: normalizeUsageChargeEvent_def exampleEvent_def exampleCmd_def Normalize_def example_trim
      kind_of_string_def Let_def)

lemma exampleEvent_simps [simp]:
  "ev_Command exampleEvent = Some exampleCmd" "ev_RequestID exampleEvent = ''r1''" "chargeable exampleEvent"
  "RequestID exampleCmd = ''r1''" "APIKeyID exampleCmd = 3" "UserID exampleCmd = 7" "BalanceCost exampleCmd = 1 / 4"
  by (simp_all add: exampleEvent_def exampleCmd_def chargeable_def kind_of_string_def)

lemma exampleDB_unclaimed: "\<not> claimed ''r1'' 3 exampleDB"
  by (simp add: claimed_def exampleDB_def dedup_find_def)

text \<open>
  Once a request is claimed, nothing charges it again: any number of further events for
  the request and of archiving runs, whatever fails in between, leaves every balance,
  subscription, key and account unchanged.
\<close>

theorem claimed_request_never_charged:
  assumes "claimed r k db" and "\<forall>oper \<in> set ops. concerns sha r k oper"
  shows "db_money (fold (bill_step sha) ops db) = db_money db"
proof -
  have "c \<notin> set (charged_run sha ops db)" for c
    using bill_run_charges [of sha ops db] charged_run_concerns [OF assms(2), of c db] assms(1) by blast
  then have "charged_run sha ops db = []" by (cases "charged_run sha ops db") auto
  then show ?thesis using bill_run_charges [of sha ops db] by blast
qed

definition exampleClaimed :: billing_db where
  "exampleClaimed = exampleDB\<lparr>db_dedup := [\<lparr>dd_request = ''r1'', dd_key = 3, dd_fingerprint = ''f1'', dd_created = 0\<rparr>]\<rparr>"

theorem claimed_request_never_charged_witness:
  "db_money (fold (bill_step exampleSha)
     [Deliver (exampleTx CommitOK) exampleEvent, ArchiveOld (\<lambda>_. False) 50, Deliver (exampleTx CommitUnknown) exampleEvent]
     exampleClaimed) = db_money exampleClaimed"
  by (rule claimed_request_never_charged [of "''r1''" 3])
    (simp_all add: claimed_def exampleClaimed_def dedup_find_def exampleEvent_normal)

text \<open>
  C19. Redelivery converges: if a charge event is delivered any number of times with arbitrary
  failures, including commits whose outcome the consumer does not learn, and a last delivery
  reports success, then every balance shows the charge exactly once.
\<close>

theorem redelivered_charge_applied_once:
  assumes "ev_Command (normalizeUsageChargeEvent sha ev) = Some cmd"
    and "chargeable (normalizeUsageChargeEvent sha ev)"
    and "\<not> claimed (RequestID cmd) (APIKeyID cmd) db"
    and "fst (ApplyUsageCharge sha env ev (fold (bill_step sha) (map (\<lambda>x. Deliver x ev) envs) db)) = Inr res"
  shows "balance_of u (fold (bill_step sha) (map (\<lambda>x. Deliver x ev) (envs @ [env])) db) =
    map_option (charge_balance u cmd) (balance_of u db)"
proof -
  let ?ops = "map (\<lambda>x. Deliver x ev) (envs @ [env])" and ?e = "normalizeUsageChargeEvent sha ev"
  let ?db = "fold (bill_step sha) (map (\<lambda>x. Deliver x ev) envs) db"
  note run = bill_run_charges [of sha ?ops db "RequestID cmd" "APIKeyID cmd" u]
  have "claimed (RequestID cmd) (APIKeyID cmd) (bill_step sha (Deliver env ev) ?db)"
  proof (cases rule: ApplyUsageCharge_cases [of sha env ev ?db])
    case same
    with assms(1,2,4) obtain r where r: "chargeBody env ?e cmd ?db = Inr (r, ?db)"
      by (auto simp: ApplyUsageCharge_def run_tx_def Let_def split: if_splits sum.splits commit_outcome.splits)
    from chargeBody_result(1) [OF r] chargeBody_result(2) [OF r, of "RequestID cmd" "APIKeyID cmd"] same assms(2)
    show ?thesis by auto
  next
    case (committed cmd' r db')
    then show ?thesis using assms(1,2) chargeBody_result(1,2) [OF committed(2)] by auto
  qed
  with run assms(3) have charged: "charged_run sha ?ops db \<noteq> []" by auto
  have all: "set (charged_run sha ops db) \<subseteq> {cmd}" if "\<forall>x \<in> set ops. \<exists>n. x = Deliver n ev" for ops db
    using that
  proof (induction ops arbitrary: db)
    case (Cons x ops)
    then obtain n where "x = Deliver n ev" by auto
    then have "set (charged sha x db) \<subseteq> {cmd}" using assms(1) by auto
    with Cons show ?case by auto
  qed simp
  have "set (charged_run sha ?ops db) \<subseteq> {cmd}" by (rule all) auto
  moreover have "distinct (charged_run sha ?ops db)" using run distinct_map by blast
  ultimately have "charged_run sha ?ops db = [cmd]" using charged
    by (cases "charged_run sha ?ops db") (auto simp: subset_singleton_iff)
  with run show ?thesis by simp
qed

definition exampleCharged :: UsageBillingApplyResult where
  "exampleCharged = emptyResult\<lparr>Applied := True\<rparr>"

lemmas eval_billing =
  ApplyUsageCharge_def exampleEvent_normal run_tx_def chargeBody_def claimUsageBillingKey_def tx_bind_def tx_return_def
  tx_when_def matchDedup_def matchArchive_def insertDedup_def matchExistingUsageBillingFingerprint_def sql_def
  persistBillingLedger_def applyUsageBillingEffects_def recordUsageLog_def deductUsageBillingBalance_def
  dedup_find_def exampleTx_def upd_money_def emptyResult_def

lemma exampleCmd_simps:
  "SubscriptionID exampleCmd = None" "APIKeyQuotaCost exampleCmd = 0" "APIKeyRateLimitCost exampleCmd = 0"
  "AccountQuotaCost exampleCmd = 0" "RequestFingerprint exampleCmd = ''f1''" "ev_UsageLog exampleEvent = None"
  by (simp_all add: exampleCmd_def exampleEvent_def)

theorem redelivered_charge_applied_once_witness:
  "balance_of 7 (fold (bill_step exampleSha) (map (\<lambda>x. Deliver x exampleEvent)
     ([exampleTx CommitFailed, exampleTx CommitUnknown] @ [exampleTx CommitOK])) exampleDB) =
   Some (round_away 8 (10 - 1 / 4))"
proof -
  have "\<exists>res. fst (ApplyUsageCharge exampleSha (exampleTx CommitOK) exampleEvent
      (fold (bill_step exampleSha) (map (\<lambda>x. Deliver x exampleEvent)
         [exampleTx CommitFailed, exampleTx CommitUnknown]) exampleDB)) = Inr res"
    by (simp add: eval_billing exampleCmd_simps exampleDB_def Let_def)
  then obtain res where "fst (ApplyUsageCharge exampleSha (exampleTx CommitOK) exampleEvent
      (fold (bill_step exampleSha) (map (\<lambda>x. Deliver x exampleEvent)
         [exampleTx CommitFailed, exampleTx CommitUnknown]) exampleDB)) = Inr res" ..
  from redelivered_charge_applied_once [OF _ _ _ this, of exampleCmd 7] exampleDB_unclaimed show ?thesis
    by (simp add: exampleEvent_normal balance_of_def charge_balance_def exampleDB_def)
qed

text \<open>
  A request identifier that comes back with different contents is refused: if the claim
  of the request, live or archived, has another fingerprint, a charge event fails with
  \<open>ErrUsageBillingRequestConflict\<close> and changes nothing.
\<close>

theorem fingerprint_conflict_refused:
  assumes "ev_Command (normalizeUsageChargeEvent sha ev) = Some cmd"
    and "chargeable (normalizeUsageChargeEvent sha ev)" and "RequestID cmd \<noteq> []"
    and "dedup_find (RequestID cmd) (APIKeyID cmd) (db_dedup db) = Some d \<or>
         dedup_find (RequestID cmd) (APIKeyID cmd) (db_dedup db) = None \<and>
         dedup_find (RequestID cmd) (APIKeyID cmd) (db_archive db) = Some d"
    and "trim_space (dd_fingerprint d) \<noteq> trim_space (RequestFingerprint cmd)"
    and "\<forall>step. \<not> tx_fault env step"
  shows "ApplyUsageCharge sha env ev db = (Inl ErrUsageBillingRequestConflict, db)"
proof -
  let ?e = "normalizeUsageChargeEvent sha ev"
  have "ev_RequestID ?e = RequestID cmd"
    using assms(1) by (auto simp: normalizeUsageChargeEvent_def Let_def)
  moreover have "claimUsageBillingKey env cmd db = Inl ErrUsageBillingRequestConflict"
    using assms(4-6) by (auto simp: claimUsageBillingKey_def tx_bind_def matchDedup_def matchArchive_def sql_def
        matchExistingUsageBillingFingerprint_def)
  ultimately show ?thesis
    using assms(1-3,6) by (simp add: ApplyUsageCharge_def run_tx_def chargeBody_def tx_bind_def Let_def)
qed

definition exampleOther :: billing_db where
  "exampleOther = exampleDB\<lparr>db_archive := [\<lparr>dd_request = ''r1'', dd_key = 3, dd_fingerprint = ''f2'', dd_created = 0\<rparr>]\<rparr>"

theorem fingerprint_conflict_refused_witness:
  "ApplyUsageCharge exampleSha (exampleTx CommitOK) exampleEvent exampleOther =
     (Inl ErrUsageBillingRequestConflict, exampleOther)"
proof (rule fingerprint_conflict_refused [where cmd = exampleCmd and
      d = "\<lparr>dd_request = ''r1'', dd_key = 3, dd_fingerprint = ''f2'', dd_created = 0\<rparr>"])
  have "trim_space ''f2'' = ''f2''" by code_simp
  then show "trim_space (dd_fingerprint \<lparr>dd_request = ''r1'', dd_key = 3, dd_fingerprint = ''f2'', dd_created = 0\<rparr>) \<noteq>
      trim_space (RequestFingerprint exampleCmd)"
    by (simp add: exampleCmd_simps example_trim)
qed (simp_all add: exampleEvent_normal exampleOther_def exampleDB_def dedup_find_def exampleTx_def)

text \<open>
  Amounts with at most eight decimals are stored exactly.
\<close>

definition on_grid :: "nat \<Rightarrow> rat \<Rightarrow> bool" where
  "on_grid k x \<longleftrightarrow> (\<exists>n :: int. x = of_int n / 10 ^ k)"

lemma round_away_on_grid: "on_grid k x \<Longrightarrow> round_away k x = x"
proof -
  assume "on_grid k x"
  then obtain n :: int where x: "x = of_int n / 10 ^ k" by (auto simp: on_grid_def)
  have "\<lfloor>\<bar>x\<bar> * 10 ^ k + 1 / 2\<rfloor> = \<bar>n\<bar>" by (rule floor_unique) (simp_all add: x)
  then show ?thesis
    by (cases n "0 :: int" rule: linorder_cases) (simp_all add: round_away_def x sgn_if field_simps)
qed

lemma on_grid_add: "on_grid k x \<Longrightarrow> on_grid k y \<Longrightarrow> on_grid k (x + y)"
  by (auto simp: on_grid_def simp flip: add_divide_distrib of_int_add)

text \<open>
  A key's quota is exhausted at the right charge: for amounts with at most eight
  decimals, charging a key reports exhaustion exactly when the charge takes the used quota
  from below the limit to the limit or beyond, the status of an active key changes at that
  charge and no other, and the used quota grows by the amount.
\<close>

theorem quota_exhausted_once:
  assumes "tb_keys (db_money db) k = Some row" and "\<not> key_deleted row" and "\<forall>step. \<not> tx_fault env step"
    and "0 < key_quota row" and "on_grid 8 (key_quota_used row)" and "on_grid 8 amount"
    and "incrementUsageBillingAPIKeyQuota env k amount db = Inr (exhausted, db')"
  shows "(exhausted \<longleftrightarrow> key_quota_used row < key_quota row \<and> key_quota row \<le> key_quota_used row + amount) \<and>
    (\<exists>row'. tb_keys (db_money db') k = Some row' \<and> key_quota_used row' = key_quota_used row + amount \<and>
      key_status row' = (if exhausted \<and> key_status row = ''active'' then ''quota_exhausted'' else key_status row))"
proof -
  have "round_away 8 (key_quota_used row + amount) = key_quota_used row + amount"
    using assms(5,6) by (intro round_away_on_grid on_grid_add)
  with assms show ?thesis
    by (auto simp: incrementUsageBillingAPIKeyQuota_def sql_def chargeKeyQuota_def Let_def upd_money_def
        statusAPIKeyActive_def statusAPIKeyQuotaExhausted_def)
qed

theorem quota_exhausted_once_witness:
  "on_grid 8 (1 / 2) \<and> (\<exists>db' row'. incrementUsageBillingAPIKeyQuota (exampleTx CommitOK) 3 (1 / 2) exampleDB = Inr (True, db') \<and>
     tb_keys (db_money db') 3 = Some row' \<and> key_status row' = ''quota_exhausted'')"
proof
  show grid: "on_grid 8 (1 / 2)" unfolding on_grid_def by (rule exI [of _ 50000000]) simp
  obtain x db' where run: "incrementUsageBillingAPIKeyQuota (exampleTx CommitOK) 3 (1 / 2) exampleDB = Inr (x, db')"
    by (simp add: incrementUsageBillingAPIKeyQuota_def sql_def exampleTx_def exampleDB_def exampleKey_def Let_def)
  from quota_exhausted_once [OF _ _ _ _ _ grid run, of exampleKey] grid
  show "\<exists>db' row'. incrementUsageBillingAPIKeyQuota (exampleTx CommitOK) 3 (1 / 2) exampleDB = Inr (True, db') \<and>
     tb_keys (db_money db') 3 = Some row' \<and> key_status row' = ''quota_exhausted''"
    using run by (auto simp: exampleDB_def exampleKey_def exampleTx_def)
qed

text \<open>
  With finer amounts the two conditions of the statement disagree: the status is decided
  on the exact sum and the result on the rounded column, so a charge can fill the quota and be
  reported as exhausting it while the key stays active, and no later charge changes the status.
\<close>

theorem quota_status_missed:
  "(let k0 = exampleKey\<lparr>key_quota_used := 1 - 1 / 10 ^ 8\<rparr>; amount = 6 / 10 ^ 9; k1 = chargeKeyQuota amount k0
    in key_quota_used k1 = key_quota k1 \<and> key_quota_used k1 - amount < key_quota k1 \<and>
       key_status k1 = ''active'' \<and> key_status (chargeKeyQuota 5 k1) = ''active'')"
proof -
  have "\<lfloor>1000000001 / 10 :: rat\<rfloor> = 100000000" by (rule floor_unique) simp_all
  then show ?thesis
    by (simp add: chargeKeyQuota_def exampleKey_def round_away_def Let_def statusAPIKeyActive_def)
qed

end
