(* ===== verification/Admission.thy ===== *)
theory Admission
  imports Entities
begin

text \<open>
  Admission of a request: the API-key middleware of
  \<open>internal/server/middleware/api_key_auth.go\<close> and the subscription check
  \<open>ValidateAndCheckLimits\<close> of \<open>internal/service/subscription_service.go\<close>.  The lookups of the
  key and of the active subscription, and the verdict of the IP rules, are part of the
  request's environment.
\<close>

section \<open>Subscription limits\<close>

datatype sub_error =
    ErrSubscriptionExpired | ErrSubscriptionSuspended
  | ErrDailyLimitExceeded | ErrWeeklyLimitExceeded | ErrMonthlyLimitExceeded

text \<open>The usage of windows that are over is cleared in the copy that is checked.\<close>

definition clearExpiredWindows :: "time \<Rightarrow> UserSubscription \<Rightarrow> UserSubscription" where
  "clearExpiredWindows now s =
     (let s1 = (if NeedsDailyReset now s then s\<lparr>sb_DailyUsageUSD := 0\<rparr> else s);
          s2 = (if NeedsWeeklyReset now s1 then s1\<lparr>sb_WeeklyUsageUSD := 0\<rparr> else s1)
      in if NeedsMonthlyReset now s2 then s2\<lparr>sb_MonthlyUsageUSD := 0\<rparr> else s2)"

definition ValidateAndCheckLimits ::
    "time \<Rightarrow> UserSubscription \<Rightarrow> Group \<Rightarrow> bool \<times> sub_error option \<times> UserSubscription" where
  "ValidateAndCheckLimits now sub grp =
     (if sb_Status sub = ''expired'' then (False, Some ErrSubscriptionExpired, sub)
      else if sb_Status sub = ''suspended'' then (False, Some ErrSubscriptionSuspended, sub)
      else if subIsExpired now sub then (False, Some ErrSubscriptionExpired, sub)
      else let sub' = clearExpiredWindows now sub;
               needsMaintenance = (NeedsDailyReset now sub \<or> NeedsWeeklyReset now sub \<or> NeedsMonthlyReset now sub \<or>
                                   \<not> IsWindowActivated sub)
           in if \<not> CheckDailyLimit sub' grp 0 then (needsMaintenance, Some ErrDailyLimitExceeded, sub')
              else if \<not> CheckWeeklyLimit sub' grp 0 then (needsMaintenance, Some ErrWeeklyLimitExceeded, sub')
              else if \<not> CheckMonthlyLimit sub' grp 0 then (needsMaintenance, Some ErrMonthlyLimitExceeded, sub')
              else (needsMaintenance, None, sub'))"

section \<open>The middleware\<close>

record auth_request =
  rq_queryKey :: gostr
  rq_queryApiKey :: gostr
  rq_authorization :: gostr
  rq_xApiKey :: gostr
  rq_xGoogApiKey :: gostr
  rq_path :: gostr
  rq_ipAllowed :: bool
  rq_ctxGroup :: "Group option"

datatype key_lookup = KeyFound APIKey | KeyNotFound | KeyLookupFailed

record auth_env =
  en_now :: time
  en_simpleMode :: bool
  en_lookup :: "gostr \<Rightarrow> key_lookup"
  en_subscriptions :: "(int64 \<Rightarrow> int64 \<Rightarrow> UserSubscription option) option"  \<comment> \<open>\<open>None\<close>: no subscription service\<close>

record auth_context =
  cx_key :: APIKey
  cx_user :: int64
  cx_concurrency :: int
  cx_role :: gostr
  cx_subscription :: "UserSubscription option"
  cx_group :: "Group option"
  cx_maintenance :: bool

datatype auth_result = Abort int gostr | Admit auth_context

text \<open>\<open>strings.SplitN(authHeader, " ", 2)\<close> at the first space.\<close>

fun split_space :: "gostr \<Rightarrow> (gostr \<times> gostr) option" where
  "split_space [] = None"
| "split_space (c # s) = (if c = CHR '' '' then Some ([], s)
     else map_option (\<lambda>(a, b). (c # a, b)) (split_space s))"

definition bearerToken :: "gostr \<Rightarrow> gostr" where
  "bearerToken authHeader =
     (if authHeader \<noteq> [] then
        (case split_space authHeader of
           Some (scheme, rest) \<Rightarrow> if equal_fold scheme ''Bearer'' then trim_space rest else []
         | None \<Rightarrow> [])
      else [])"

definition extractAPIKey :: "auth_request \<Rightarrow> gostr" where
  "extractAPIKey rq =
     (let k1 = bearerToken (rq_authorization rq);
          k2 = (if k1 = [] then rq_xApiKey rq else k1)
      in if k2 = [] then rq_xGoogApiKey rq else k2)"

definition setGroupContext :: "Group option \<Rightarrow> Group option \<Rightarrow> Group option" where
  "setGroupContext existing grp =
     (if \<not> IsGroupContextValid grp then existing
      else if (case existing of None \<Rightarrow> False
               | Some e \<Rightarrow> Some (gr_ID e) = map_option gr_ID grp \<and> IsGroupContextValid existing) then existing
      else grp)"

definition admit :: "auth_request \<Rightarrow> APIKey \<Rightarrow> User \<Rightarrow> UserSubscription option \<Rightarrow> bool \<Rightarrow> auth_result" where
  "admit rq k u sub maintenance =
     Admit \<lparr>cx_key = k, cx_user = us_ID u, cx_concurrency = us_Concurrency u, cx_role = us_Role u,
            cx_subscription = sub, cx_group = setGroupContext (rq_ctxGroup rq) (ak_Group k), cx_maintenance = maintenance\<rparr>"

text \<open>Steps 5 to 7: the subscription and the enforcement of billing.\<close>

definition loadSubscription :: "auth_env \<Rightarrow> APIKey \<Rightarrow> User \<Rightarrow> bool \<Rightarrow> auth_result + UserSubscription option" where
  "loadSubscription env k u skipBilling =
     (case ak_Group k of
        Some g \<Rightarrow>
          if IsSubscriptionType g then
            (case en_subscriptions env of
               None \<Rightarrow> Inr None
             | Some subs \<Rightarrow>
                 (case subs (us_ID u) (gr_ID g) of
                    None \<Rightarrow> if \<not> skipBilling then Inl (Abort 403 ''SUBSCRIPTION_NOT_FOUND'') else Inr None
                  | Some sub \<Rightarrow> Inr (Some sub)))
          else Inr None
      | None \<Rightarrow> Inr None)"

definition enforceBilling ::
    "auth_env \<Rightarrow> APIKey \<Rightarrow> User \<Rightarrow> UserSubscription option \<Rightarrow> auth_result + (UserSubscription option \<times> bool)" where
  "enforceBilling env k u subscription =
     (if ak_Status k = ''quota_exhausted'' then Inl (Abort 429 ''API_KEY_QUOTA_EXHAUSTED'')
      else if ak_Status k = ''expired'' then Inl (Abort 403 ''API_KEY_EXPIRED'')
      else if keyIsExpired (en_now env) k then Inl (Abort 403 ''API_KEY_EXPIRED'')
      else if IsQuotaExhausted k then Inl (Abort 429 ''API_KEY_QUOTA_EXHAUSTED'')
      else case subscription of
             Some sub \<Rightarrow>
               (case ak_Group k of
                  None \<Rightarrow> Inr (Some sub, False)  \<comment> \<open>not reached: a subscription is only loaded for a group\<close>
                | Some g \<Rightarrow>
                    (case ValidateAndCheckLimits (en_now env) sub g of
                       (maintenance, Some err, sub') \<Rightarrow>
                         if err \<in> {ErrDailyLimitExceeded, ErrWeeklyLimitExceeded, ErrMonthlyLimitExceeded}
                         then Inl (Abort 429 ''USAGE_LIMIT_EXCEEDED'') else Inl (Abort 403 ''SUBSCRIPTION_INVALID'')
                     | (maintenance, None, sub') \<Rightarrow> Inr (Some sub', maintenance)))
           | None \<Rightarrow> if us_Balance u \<le> 0 then Inl (Abort 403 ''INSUFFICIENT_BALANCE'') else Inr (None, False))"

definition authenticate :: "auth_env \<Rightarrow> auth_request \<Rightarrow> auth_result + (APIKey \<times> User)" where
  "authenticate env rq =
     (if trim_space (rq_queryKey rq) \<noteq> [] \<or> trim_space (rq_queryApiKey rq) \<noteq> []
      then Inl (Abort 400 ''api_key_in_query_deprecated'')
      else if extractAPIKey rq = [] then Inl (Abort 401 ''API_KEY_REQUIRED'')
      else case en_lookup env (extractAPIKey rq) of
             KeyNotFound \<Rightarrow> Inl (Abort 401 ''INVALID_API_KEY'')
           | KeyLookupFailed \<Rightarrow> Inl (Abort 500 ''INTERNAL_ERROR'')
           | KeyFound k \<Rightarrow>
               if \<not> keyIsActive k \<and> ak_Status k \<noteq> ''expired'' \<and> ak_Status k \<noteq> ''quota_exhausted''
               then Inl (Abort 401 ''API_KEY_DISABLED'')
               else if (ak_IPWhitelist k \<noteq> [] \<or> ak_IPBlacklist k \<noteq> []) \<and> \<not> rq_ipAllowed rq
               then Inl (Abort 403 ''ACCESS_DENIED'')
               else case ak_User k of
                      None \<Rightarrow> Inl (Abort 401 ''USER_NOT_FOUND'')
                    | Some u \<Rightarrow> if \<not> userIsActive u then Inl (Abort 401 ''USER_INACTIVE'') else Inr (k, u))"

definition apiKeyAuthWithSubscription :: "auth_env \<Rightarrow> auth_request \<Rightarrow> auth_result" where
  "apiKeyAuthWithSubscription env rq =
     (case authenticate env rq of
        Inl r \<Rightarrow> r
      | Inr (k, u) \<Rightarrow>
          if en_simpleMode env then admit rq k u None False
          else let skipBilling = (rq_path rq = ''/v1/usage'')
               in case loadSubscription env k u skipBilling of
                    Inl r \<Rightarrow> r
                  | Inr subscription \<Rightarrow>
                      if skipBilling then admit rq k u subscription False
                      else (case enforceBilling env k u subscription of
                              Inl r \<Rightarrow> r
                            | Inr (sub', maintenance) \<Rightarrow> admit rq k u sub' maintenance))"

section \<open>What a subscription allows\<close>

text \<open>
  The specification: the usage of a window that is over does not count, and a limit that is
  not positive does not bind.
\<close>

definition windowUsage :: "time \<Rightarrow> int \<Rightarrow> time option \<Rightarrow> rat \<Rightarrow> rat" where
  "windowUsage now duration start usage = (if needsReset now duration start then 0 else usage)"

definition withinCap :: "rat option \<Rightarrow> rat \<Rightarrow> bool" where
  "withinCap limit usage \<longleftrightarrow> (\<forall>l. limit = Some l \<and> 0 < l \<longrightarrow> usage \<le> l)"

definition subscriptionUsable :: "time \<Rightarrow> Group \<Rightarrow> UserSubscription \<Rightarrow> bool" where
  "subscriptionUsable now g s \<longleftrightarrow>
     sb_Status s \<noteq> ''expired'' \<and> sb_Status s \<noteq> ''suspended'' \<and> now \<le> sb_ExpiresAt s \<and>
     withinCap (gr_DailyLimitUSD g) (windowUsage now (24 * 3600) (sb_DailyWindowStart s) (sb_DailyUsageUSD s)) \<and>
     withinCap (gr_WeeklyLimitUSD g) (windowUsage now (7 * 24 * 3600) (sb_WeeklyWindowStart s) (sb_WeeklyUsageUSD s)) \<and>
     withinCap (gr_MonthlyLimitUSD g) (windowUsage now (30 * 24 * 3600) (sb_MonthlyWindowStart s) (sb_MonthlyUsageUSD s))"

definition countedUsage :: "time \<Rightarrow> UserSubscription \<Rightarrow> UserSubscription" where
  "countedUsage now s =
     s\<lparr>sb_DailyUsageUSD := windowUsage now (24 * 3600) (sb_DailyWindowStart s) (sb_DailyUsageUSD s),
       sb_WeeklyUsageUSD := windowUsage now (7 * 24 * 3600) (sb_WeeklyWindowStart s) (sb_WeeklyUsageUSD s),
       sb_MonthlyUsageUSD := windowUsage now (30 * 24 * 3600) (sb_MonthlyWindowStart s) (sb_MonthlyUsageUSD s)\<rparr>"

lemma withinCap_check: "(if \<not> positiveLimit l then True else withinLimit l u) \<longleftrightarrow> withinCap l u"
  by (cases l) (auto simp: positiveLimit_def withinLimit_def withinCap_def)

lemma check_limits:
  "CheckDailyLimit s g 0 = withinCap (gr_DailyLimitUSD g) (sb_DailyUsageUSD s)"
  "CheckWeeklyLimit s g 0 = withinCap (gr_WeeklyLimitUSD g) (sb_WeeklyUsageUSD s)"
  "CheckMonthlyLimit s g 0 = withinCap (gr_MonthlyLimitUSD g) (sb_MonthlyUsageUSD s)"
  unfolding CheckDailyLimit_def CheckWeeklyLimit_def CheckMonthlyLimit_def HasDailyLimit_def HasWeeklyLimit_def
    HasMonthlyLimit_def add_0_right by (rule withinCap_check)+

lemma clearExpiredWindows_counted: "clearExpiredWindows now s = countedUsage now s"
  by (cases s) (simp add: clearExpiredWindows_def countedUsage_def windowUsage_def NeedsDailyReset_def
      NeedsWeeklyReset_def NeedsMonthlyReset_def Let_def)

lemma countedUsage_idem: "countedUsage now (countedUsage now s) = countedUsage now s"
  by (cases s) (simp add: countedUsage_def windowUsage_def)

lemma countedUsage_simps [simp]:
  "sb_Status (countedUsage now s) = sb_Status s" "sb_ExpiresAt (countedUsage now s) = sb_ExpiresAt s"
  by (simp_all add: countedUsage_def)

lemma subscriptionUsable_counted:
  "subscriptionUsable now g s \<longleftrightarrow> sb_Status s \<noteq> ''expired'' \<and> sb_Status s \<noteq> ''suspended'' \<and>
     \<not> subIsExpired now s \<and> CheckDailyLimit (countedUsage now s) g 0 \<and> CheckWeeklyLimit (countedUsage now s) g 0 \<and>
     CheckMonthlyLimit (countedUsage now s) g 0"
  by (auto simp: subscriptionUsable_def check_limits subIsExpired_def countedUsage_def)

lemma ValidateAndCheckLimits_None:
  "fst (snd (ValidateAndCheckLimits now s g)) = None \<longleftrightarrow> subscriptionUsable now g s"
  by (simp add: ValidateAndCheckLimits_def subscriptionUsable_counted clearExpiredWindows_counted Let_def)

lemma ValidateAndCheckLimits_sub:
  "subscriptionUsable now g s \<Longrightarrow> snd (snd (ValidateAndCheckLimits now s g)) = countedUsage now s"
  by (simp add: ValidateAndCheckLimits_def subscriptionUsable_counted clearExpiredWindows_counted Let_def)

text \<open>
  The limit check accepts a subscription exactly when it is neither expired nor suspended
  and the usage that counts is within every positive limit; the copy it hands on shows the
  usage that counts, and checking that copy again gives the same verdict.  A limit error is
  given only to a subscription that is otherwise valid.
\<close>

theorem subscription_limits_exact:
  "(case ValidateAndCheckLimits now s g of (maintenance, err, s') \<Rightarrow>
     (err = None \<longleftrightarrow> subscriptionUsable now g s) \<and>
     fst (snd (ValidateAndCheckLimits now s' g)) = err \<and>
     (if err \<in> {Some ErrSubscriptionExpired, Some ErrSubscriptionSuspended} then s' = s \<and> \<not> maintenance
      else s' = countedUsage now s \<and> now \<le> sb_ExpiresAt s \<and>
        (maintenance \<longleftrightarrow> NeedsDailyReset now s \<or> NeedsWeeklyReset now s \<or>
          NeedsMonthlyReset now s \<or> sb_DailyWindowStart s = None \<and> sb_WeeklyWindowStart s = None \<and>
          sb_MonthlyWindowStart s = None)))"
proof -
  have same: "countedUsage now s = s" if "\<not> NeedsDailyReset now s" "\<not> NeedsWeeklyReset now s" "\<not> NeedsMonthlyReset now s"
    using that by (simp add: countedUsage_def windowUsage_def NeedsDailyReset_def NeedsWeeklyReset_def NeedsMonthlyReset_def)
  have again: "subIsExpired now (countedUsage now s) = subIsExpired now s" by (simp add: subIsExpired_def)
  show ?thesis
    using same
    by (auto simp: ValidateAndCheckLimits_def Let_def clearExpiredWindows_counted countedUsage_idem again
        subscriptionUsable_counted IsWindowActivated_def)
      (auto simp: subIsExpired_def)
qed

section \<open>Who is admitted\<close>

definition presentsKey :: "auth_env \<Rightarrow> auth_request \<Rightarrow> APIKey \<Rightarrow> bool" where
  "presentsKey env rq k \<longleftrightarrow>
     trim_space (rq_queryKey rq) = [] \<and> trim_space (rq_queryApiKey rq) = [] \<and> extractAPIKey rq \<noteq> [] \<and>
     en_lookup env (extractAPIKey rq) = KeyFound k"

text \<open>A key that identifies a user from an allowed address.\<close>

definition identifies :: "auth_request \<Rightarrow> APIKey \<Rightarrow> User \<Rightarrow> bool" where
  "identifies rq k u \<longleftrightarrow>
     ak_Status k \<in> {''active'', ''expired'', ''quota_exhausted''} \<and>
     (ak_IPWhitelist k = [] \<and> ak_IPBlacklist k = [] \<or> rq_ipAllowed rq) \<and>
     ak_User k = Some u \<and> us_Status u = ''active''"

text \<open>A key that may spend, and the means to pay: the subscription of its group or the balance.\<close>

definition spendable :: "time \<Rightarrow> APIKey \<Rightarrow> bool" where
  "spendable now k \<longleftrightarrow>
     ak_Status k \<noteq> ''quota_exhausted'' \<and> ak_Status k \<noteq> ''expired'' \<and>
     (\<forall>t. ak_ExpiresAt k = Some t \<longrightarrow> now \<le> t) \<and> (0 < ak_Quota k \<longrightarrow> ak_QuotaUsed k < ak_Quota k)"

definition solvent :: "auth_env \<Rightarrow> APIKey \<Rightarrow> User \<Rightarrow> bool" where
  "solvent env k u \<longleftrightarrow>
     (case (ak_Group k, en_subscriptions env) of
        (Some g, Some subs) \<Rightarrow>
          if gr_SubscriptionType g = ''subscription''
          then (\<exists>s. subs (us_ID u) (gr_ID g) = Some s \<and> subscriptionUsable (en_now env) g s)
          else 0 < us_Balance u
      | _ \<Rightarrow> 0 < us_Balance u)"

definition exemptFromBilling :: "auth_env \<Rightarrow> auth_request \<Rightarrow> bool" where
  "exemptFromBilling env rq \<longleftrightarrow> en_simpleMode env \<or> rq_path rq = ''/v1/usage''"

lemma authenticate_Inr: "authenticate env rq = Inr (k, u) \<longleftrightarrow> presentsKey env rq k \<and> identifies rq k u"
  by (auto simp: authenticate_def presentsKey_def identifies_def keyIsActive_def userIsActive_def statusActive_def
      split: key_lookup.splits option.splits if_splits)

lemma authenticate_not_Admit: "authenticate env rq = Inl r \<Longrightarrow> r \<noteq> Admit ctx"
  by (auto simp: authenticate_def split: key_lookup.splits option.splits if_splits)

lemma loadSubscription_simps:
  "loadSubscription env k u True \<noteq> Inl r"
  "loadSubscription env k u skip = Inl r \<Longrightarrow> r \<noteq> Admit ctx"
  by (auto simp: loadSubscription_def split: option.splits if_splits)

lemma enforceBilling_not_Admit: "enforceBilling env k u sub = Inl r \<Longrightarrow> r \<noteq> Admit ctx"
  by (auto simp: enforceBilling_def split: option.splits prod.splits if_splits)

lemma enforceBilling_Inr:
  "(\<exists>x. enforceBilling env k u sub = Inr x) \<longleftrightarrow> spendable (en_now env) k \<and>
     (case sub of None \<Rightarrow> 0 < us_Balance u
      | Some s \<Rightarrow> (case ak_Group k of None \<Rightarrow> True | Some g \<Rightarrow> subscriptionUsable (en_now env) g s))"
proof -
  have spend: "spendable (en_now env) k \<longleftrightarrow> ak_Status k \<noteq> ''quota_exhausted'' \<and> ak_Status k \<noteq> ''expired'' \<and>
      \<not> keyIsExpired (en_now env) k \<and> \<not> IsQuotaExhausted k"
    by (auto simp: spendable_def keyIsExpired_def IsQuotaExhausted_def split: option.split)
  show ?thesis
    unfolding enforceBilling_def spend
    by (auto simp: ValidateAndCheckLimits_None [symmetric] split: option.splits prod.splits)
qed

lemma billing_exact:
  "(\<exists>sub x. loadSubscription env k u False = Inr sub \<and> enforceBilling env k u sub = Inr x) \<longleftrightarrow>
     spendable (en_now env) k \<and> solvent env k u"
  using enforceBilling_Inr [of env k u]
  by (auto simp: loadSubscription_def solvent_def IsSubscriptionType_def split: option.splits if_splits)

text \<open>
  C25. The middleware admits exactly the requests it should: a key is presented outside the
  query string and known, it is active (or only spent, which billing decides), its address
  rules allow the client, its user is active, and, unless the request is exempt from billing,
  the key may spend and its subscription or balance can pay.
\<close>

theorem admission_exact:
  "(\<exists>ctx. apiKeyAuthWithSubscription env rq = Admit ctx) \<longleftrightarrow>
     (\<exists>k u. presentsKey env rq k \<and> identifies rq k u \<and>
        (exemptFromBilling env rq \<or> spendable (en_now env) k \<and> solvent env k u))"
proof (cases "authenticate env rq")
  case (Inl r)
  then have "\<nexists>k u. presentsKey env rq k \<and> identifies rq k u"
    using authenticate_Inr [of env rq] by auto
  moreover have "apiKeyAuthWithSubscription env rq = r" using Inl by (simp add: apiKeyAuthWithSubscription_def)
  ultimately show ?thesis using authenticate_not_Admit [OF Inl] by auto
next
  case (Inr ku)
  then obtain k u where ku: "authenticate env rq = Inr (k, u)" by (cases ku) auto
  then have only: "presentsKey env rq k' \<and> identifies rq k' u' \<longleftrightarrow> k' = k \<and> u' = u" for k' u'
    unfolding authenticate_Inr [symmetric] ku by auto
  have "(\<exists>ctx. apiKeyAuthWithSubscription env rq = Admit ctx) \<longleftrightarrow>
      exemptFromBilling env rq \<or> (\<exists>sub x. loadSubscription env k u False = Inr sub \<and> enforceBilling env k u sub = Inr x)"
  proof (cases "rq_path rq = ''/v1/usage''")
    case True
    then show ?thesis using ku loadSubscription_simps(1) [of env k u]
      by (cases "loadSubscription env k u True")
        (auto simp: apiKeyAuthWithSubscription_def exemptFromBilling_def admit_def)
  next
    case False
    then show ?thesis using ku loadSubscription_simps(2) [of env k u False]
      by (cases "loadSubscription env k u False")
        (auto simp: apiKeyAuthWithSubscription_def exemptFromBilling_def admit_def
          dest: enforceBilling_not_Admit split: sum.splits)
  qed
  then show ?thesis unfolding billing_exact using only by metis
qed

text \<open>A subscription that was attached.\<close>

definition attached :: "auth_env \<Rightarrow> auth_request \<Rightarrow> APIKey \<Rightarrow> User \<Rightarrow> UserSubscription option \<Rightarrow> bool \<Rightarrow> bool" where
  "attached env rq k u sub maintenance \<longleftrightarrow>
     (case sub of
        None \<Rightarrow> \<not> maintenance
      | Some s' \<Rightarrow> (\<exists>g subs s. ak_Group k = Some g \<and> gr_SubscriptionType g = ''subscription'' \<and>
          en_subscriptions env = Some subs \<and> subs (us_ID u) (gr_ID g) = Some s \<and>
          (if exemptFromBilling env rq then s' = s
           else s' = countedUsage (en_now env) s \<and> subscriptionUsable (en_now env) g s)))"

lemma loadSubscription_Some:
  "loadSubscription env k u skip = Inr (Some s) \<Longrightarrow>
     \<exists>g subs. ak_Group k = Some g \<and> gr_SubscriptionType g = ''subscription'' \<and>
       en_subscriptions env = Some subs \<and> subs (us_ID u) (gr_ID g) = Some s"
  by (auto simp: loadSubscription_def IsSubscriptionType_def split: option.splits if_splits)

lemma enforceBilling_sub:
  "enforceBilling env k u None = Inr (sub, m) \<Longrightarrow> sub = None \<and> \<not> m"
  "enforceBilling env k u (Some s) = Inr (sub, m) \<Longrightarrow> ak_Group k = Some g \<Longrightarrow>
     sub = Some (countedUsage (en_now env) s) \<and> subscriptionUsable (en_now env) g s"
proof -
  show "enforceBilling env k u None = Inr (sub, m) \<Longrightarrow> sub = None \<and> \<not> m"
    by (auto simp: enforceBilling_def split: if_splits)
next
  assume *: "enforceBilling env k u (Some s) = Inr (sub, m)" "ak_Group k = Some g"
  then have usable: "fst (snd (ValidateAndCheckLimits (en_now env) s g)) = None"
    and "sub = Some (snd (snd (ValidateAndCheckLimits (en_now env) s g)))"
    by (auto simp: enforceBilling_def split: if_splits prod.splits option.splits)
  then show "sub = Some (countedUsage (en_now env) s) \<and> subscriptionUsable (en_now env) g s"
    using ValidateAndCheckLimits_sub by (auto simp: ValidateAndCheckLimits_None)
qed

lemma Admit_cases:
  assumes "apiKeyAuthWithSubscription env rq = Admit ctx"
  obtains k u sub m where "authenticate env rq = Inr (k, u)" and "admit rq k u sub m = Admit ctx"
    and "attached env rq k u sub m"
proof -
  obtain k u where ku: "authenticate env rq = Inr (k, u)"
    using assms authenticate_not_Admit
    by (auto simp: apiKeyAuthWithSubscription_def split: sum.splits)
  show thesis
  proof (cases "en_simpleMode env")
    case True
    with assms ku that [of k u None False] show ?thesis by (simp add: apiKeyAuthWithSubscription_def attached_def)
  next
    case False
    define skip where "skip = (rq_path rq = ''/v1/usage'')"
    with False assms ku obtain sub where sub: "loadSubscription env k u skip = Inr sub"
      by (auto simp: apiKeyAuthWithSubscription_def Let_def dest: loadSubscription_simps(2) split: sum.splits)
    show ?thesis
    proof (cases skip)
      case True
      have "attached env rq k u sub False"
        using True sub loadSubscription_Some [of env k u skip]
        by (auto simp: attached_def exemptFromBilling_def skip_def split: option.split)
      with True False assms ku sub that show ?thesis by (auto simp: apiKeyAuthWithSubscription_def skip_def)
    next
      case noskip: False
      with False assms ku sub obtain sub' m where enf: "enforceBilling env k u sub = Inr (sub', m)"
        and adm: "admit rq k u sub' m = Admit ctx"
        by (auto simp: apiKeyAuthWithSubscription_def skip_def dest: enforceBilling_not_Admit split: sum.splits)
      have "attached env rq k u sub' m"
      proof (cases sub)
        case None
        from enforceBilling_sub(1) [OF enf [unfolded None]] have "sub' = None \<and> \<not> m" .
        then show ?thesis by (simp add: attached_def)
      next
        case (Some s)
        with sub loadSubscription_Some obtain g subs where g: "ak_Group k = Some g" "gr_SubscriptionType g = ''subscription''"
          "en_subscriptions env = Some subs" "subs (us_ID u) (gr_ID g) = Some s" by blast
        with enforceBilling_sub(2) [OF enf [unfolded Some] g(1)] False noskip show ?thesis
          by (auto simp: attached_def exemptFromBilling_def skip_def)
      qed
      with that ku adm show ?thesis by blast
    qed
  qed
qed

lemma setGroupContext_simps:
  "\<not> IsGroupContextValid g \<Longrightarrow> setGroupContext e g = e"
  "IsGroupContextValid g \<Longrightarrow> map_option gr_ID (setGroupContext e g) = map_option gr_ID g \<and>
     IsGroupContextValid (setGroupContext e g)"
  by (auto simp: setGroupContext_def split: option.splits)

text \<open>
  What an admitted request carries is what was checked: its key is the one that the
  presented string names, the user, concurrency and role are those of the key's active user,
  the group is the key's own when that is valid and otherwise the one already there, and a
  subscription is attached only for a subscription group: the one of this user for this group,
  showing the usage that counts and within its limits unless the request is exempt.
\<close>

theorem admitted_context:
  assumes "apiKeyAuthWithSubscription env rq = Admit ctx"
  shows "en_lookup env (extractAPIKey rq) = KeyFound (cx_key ctx) \<and>
    (\<exists>u. ak_User (cx_key ctx) = Some u \<and> us_Status u = ''active'' \<and>
       cx_user ctx = us_ID u \<and> cx_concurrency ctx = us_Concurrency u \<and> cx_role ctx = us_Role u \<and>
       attached env rq (cx_key ctx) u (cx_subscription ctx) (cx_maintenance ctx)) \<and>
    (if IsGroupContextValid (ak_Group (cx_key ctx))
     then map_option gr_ID (cx_group ctx) = map_option gr_ID (ak_Group (cx_key ctx)) \<and> IsGroupContextValid (cx_group ctx)
     else cx_group ctx = rq_ctxGroup rq)"
proof -
  obtain k u sub m where ku: "authenticate env rq = Inr (k, u)" and adm: "admit rq k u sub m = Admit ctx"
    and sub: "attached env rq k u sub m" using Admit_cases [OF assms] .
  from ku have "presentsKey env rq k \<and> identifies rq k u" by (simp add: authenticate_Inr)
  moreover from adm have "ctx = \<lparr>cx_key = k, cx_user = us_ID u, cx_concurrency = us_Concurrency u, cx_role = us_Role u,
      cx_subscription = sub, cx_group = setGroupContext (rq_ctxGroup rq) (ak_Group k), cx_maintenance = m\<rparr>"
    by (simp add: admit_def)
  ultimately show ?thesis using sub setGroupContext_simps [of "ak_Group k" "rq_ctxGroup rq"]
    by (auto simp: presentsKey_def identifies_def)
qed

definition sampleSub :: UserSubscription where
  "sampleSub = \<lparr>sb_ID = 8, sb_UserID = 7, sb_GroupID = 4, sb_StartsAt = 0, sb_ExpiresAt = 1000, sb_Status = ''active'',
     sb_DailyWindowStart = Some 0, sb_WeeklyWindowStart = None, sb_MonthlyWindowStart = None,
     sb_DailyUsageUSD = 3, sb_WeeklyUsageUSD = 3, sb_MonthlyUsageUSD = 3\<rparr>"

definition sampleUser :: User where
  "sampleUser = \<lparr>us_ID = 7, us_Email = ''a'', us_Role = ''user'', us_Balance = 0, us_Concurrency = 5, us_Status = ''active'',
     us_AllowedGroups = [], us_GroupRates = []\<rparr>"

definition sampleKey :: APIKey where
  "sampleKey = \<lparr>ak_ID = 3, ak_UserID = 7, ak_Key = ''sk'', ak_Name = ''k'', ak_GroupID = Some 4, ak_Status = ''active'',
     ak_IPWhitelist = [], ak_IPBlacklist = [], ak_User = Some sampleUser, ak_Group = Some (exampleGroup []),
     ak_Quota = 5, ak_QuotaUsed = 1, ak_ExpiresAt = None, ak_RateLimit5h = 0, ak_RateLimit1d = 0, ak_RateLimit7d = 0,
     ak_Usage5h = 0, ak_Usage1d = 0, ak_Usage7d = 0, ak_Window5hStart = None, ak_Window1dStart = None, ak_Window7dStart = None\<rparr>"

definition sampleEnv :: auth_env where
  "sampleEnv = \<lparr>en_now = 500, en_simpleMode = False, en_lookup = (\<lambda>s. if s = ''sk'' then KeyFound sampleKey else KeyNotFound),
     en_subscriptions = Some (\<lambda>u g. if u = 7 \<and> g = 4 then Some sampleSub else None)\<rparr>"

definition sampleRequest :: auth_request where
  "sampleRequest = \<lparr>rq_queryKey = [], rq_queryApiKey = [], rq_authorization = ''bearer sk'', rq_xApiKey = [],
     rq_xGoogApiKey = [], rq_path = ''/v1/messages'', rq_ipAllowed = True, rq_ctxGroup = None\<rparr>"

lemma exampleGroup_simps:
  "gr_SubscriptionType (exampleGroup rules) = ''subscription''" "gr_ID (exampleGroup rules) = 4"
  by (simp_all add: exampleGroup_def)

lemma sampleRequest_key: "extractAPIKey sampleRequest = ''sk''"
  by code_simp

theorem admitted_context_witness:
  "\<exists>ctx. apiKeyAuthWithSubscription sampleEnv sampleRequest = Admit ctx \<and> cx_user ctx = 7 \<and>
     map_option gr_ID (cx_group ctx) = Some 4"
proof -
  have "subscriptionUsable 500 (exampleGroup []) sampleSub"
    by (simp add: subscriptionUsable_def sampleSub_def exampleGroup_def withinCap_def windowUsage_def needsReset_def)
  then have "\<exists>x. ValidateAndCheckLimits 500 sampleSub (exampleGroup []) = (fst x, None, snd x)"
    by (metis ValidateAndCheckLimits_None prod.collapse fst_conv snd_conv)
  then have enf: "\<exists>x. enforceBilling sampleEnv sampleKey sampleUser (Some sampleSub) = Inr x"
    by (auto simp: enforceBilling_def sampleEnv_def sampleKey_def keyIsExpired_def IsQuotaExhausted_def)
  have auth: "authenticate sampleEnv sampleRequest = Inr (sampleKey, sampleUser)"
    by (simp add: authenticate_def sampleRequest_key)
      (simp add: sampleEnv_def sampleRequest_def sampleKey_def sampleUser_def keyIsActive_def userIsActive_def statusActive_def)
  have "loadSubscription sampleEnv sampleKey sampleUser False = Inr (Some sampleSub)"
    by (simp add: loadSubscription_def sampleEnv_def sampleKey_def sampleUser_def IsSubscriptionType_def exampleGroup_simps)
  with enf auth obtain ctx where ctx: "apiKeyAuthWithSubscription sampleEnv sampleRequest = Admit ctx"
    by (auto simp: apiKeyAuthWithSubscription_def admit_def sampleEnv_def sampleRequest_def)
  from admitted_context [OF ctx] have key: "cx_key ctx = sampleKey"
    by (simp add: sampleRequest_key sampleEnv_def)
  have "IsGroupContextValid (ak_Group sampleKey)" "map_option gr_ID (ak_Group sampleKey) = Some 4"
    "ak_User sampleKey = Some sampleUser" "us_ID sampleUser = 7"
    by (simp_all add: sampleKey_def sampleUser_def exampleGroup_def IsGroupContextValid_def)
  with admitted_context [OF ctx] ctx show ?thesis unfolding key by auto
qed

end
