(* ===== verification/Key_Accounting.thy ===== *)
theory Key_Accounting
  imports Usage_Billing Admission
begin

text \<open>
  How charging a key and admitting it fit together: the rows of \<open>api_keys\<close> that the billing
  transaction updates (\<open>Usage_Billing\<close>) are the ones that the middleware reads as entities
  (\<open>Entities\<close>, \<open>Admission\<close>) through \<open>apiKeyEntityToService\<close> of
  \<open>internal/repository/api_key_repo.go\<close>.
\<close>

text \<open>The columns that charging changes, read into an entity; \<open>base\<close> holds the other columns.\<close>

definition apiKeyEntityToService :: "APIKey \<Rightarrow> key_row \<Rightarrow> APIKey" where
  "apiKeyEntityToService base m =
     base\<lparr>ak_Key := key_key m, ak_Status := key_status m, ak_Quota := key_quota m, ak_QuotaUsed := key_quota_used m,
       ak_Usage5h := key_usage_5h m, ak_Usage1d := key_usage_1d m, ak_Usage7d := key_usage_7d m,
       ak_Window5hStart := key_window_5h m, ak_Window1dStart := key_window_1d m, ak_Window7dStart := key_window_7d m\<rparr>"

lemma apiKeyEntityToService_windows [simp]:
  "ak_Usage5h (apiKeyEntityToService base m) = key_usage_5h m"
  "ak_Usage1d (apiKeyEntityToService base m) = key_usage_1d m"
  "ak_Usage7d (apiKeyEntityToService base m) = key_usage_7d m"
  "ak_Window5hStart (apiKeyEntityToService base m) = key_window_5h m"
  "ak_Window1dStart (apiKeyEntityToService base m) = key_window_1d m"
  "ak_Window7dStart (apiKeyEntityToService base m) = key_window_7d m"
  by (simp_all add: apiKeyEntityToService_def)

section \<open>Spent keys\<close>

lemma round_away_mono: "0 \<le> x \<Longrightarrow> x \<le> y \<Longrightarrow> round_away k x \<le> round_away k y"
proof -
  assume xy: "0 \<le> x" "x \<le> y"
  have "\<lfloor>x * 10 ^ k + 1 / 2\<rfloor> \<le> \<lfloor>y * 10 ^ k + 1 / 2\<rfloor>"
    using xy by (intro floor_mono) (simp add: mult_right_mono)
  moreover have "0 \<le> \<lfloor>y * 10 ^ k + 1 / 2\<rfloor>" using xy by simp
  ultimately show ?thesis using xy
    by (cases "x = 0"; cases "y = 0") (auto simp: round_away_def divide_right_mono)
qed

definition spent :: "key_row \<Rightarrow> bool" where
  "spent row \<longleftrightarrow> 0 < key_quota row \<and> key_quota row \<le> key_quota_used row \<and> on_grid 8 (key_quota row)"

lemma spent_charge: "spent row \<Longrightarrow> 0 \<le> amount \<Longrightarrow> spent (chargeKeyQuota amount row)"
proof -
  assume s: "spent row" and "0 \<le> amount"
  then have "round_away 8 (key_quota row) \<le> round_away 8 (key_quota_used row + amount)"
    by (intro round_away_mono) (auto simp: spent_def)
  with s show ?thesis by (simp add: spent_def chargeKeyQuota_def Let_def round_away_on_grid)
qed

lemma spent_charges: "spent row \<Longrightarrow> \<forall>a \<in> set amounts. 0 \<le> a \<Longrightarrow> spent (fold chargeKeyQuota amounts row)"
  by (induction amounts arbitrary: row) (auto simp: spent_charge)

lemma spent_not_spendable: "spent row \<Longrightarrow> \<not> spendable now (apiKeyEntityToService base row)"
  by (auto simp: spent_def spendable_def apiKeyEntityToService_def)

lemma not_spendable_refused:
  assumes "presentsKey env rq k" and "\<not> spendable (en_now env) k" and "\<not> exemptFromBilling env rq"
  shows "\<exists>code reason. apiKeyAuthWithSubscription env rq = Abort code reason"
proof (cases "apiKeyAuthWithSubscription env rq")
  case (Admit ctx)
  then obtain k' u sub m where auth: "authenticate env rq = Inr (k', u)" using Admit_cases by metis
  then have "k' = k" using assms(1) by (auto simp: authenticate_Inr presentsKey_def)
  moreover have path: "rq_path rq \<noteq> ''/v1/usage''" "\<not> en_simpleMode env"
    using assms(3) by (auto simp: exemptFromBilling_def)
  ultimately obtain sub' where "\<exists>x. enforceBilling env k u sub' = Inr x"
    using Admit auth loadSubscription_simps(2) [of env k u False]
    by (auto simp: apiKeyAuthWithSubscription_def dest: enforceBilling_not_Admit split: sum.splits)
  with assms(2) enforceBilling_Inr show ?thesis by blast
qed blast

text \<open>
  C20. Charging a key and admitting it agree.  The quota of the key has at most 8 decimals (the
  column's type), later charges are not negative, and the middleware reads the row as stored (no
  stale entry of the cache of keys).  Once a charge is reported to have exhausted the quota of a
  key, every later request with that key that is not exempt from billing is refused, whatever
  charges follow and even where the status of the row was not changed.
\<close>

theorem exhausted_key_refused:
  assumes "tb_keys (db_money db) i = Some row" and "on_grid 8 (key_quota row)"
    and "incrementUsageBillingAPIKeyQuota tx i amount db = Inr (True, db')"
    and "tb_keys (db_money db') i = Some row'" and "\<forall>a \<in> set amounts. 0 \<le> a"
    and "presentsKey env rq (apiKeyEntityToService base (fold chargeKeyQuota amounts row'))"
    and "\<not> exemptFromBilling env rq"
  shows "\<exists>code reason. apiKeyAuthWithSubscription env rq = Abort code reason"
proof -
  have "spent row'"
    using assms(1-4)
    by (auto simp: incrementUsageBillingAPIKeyQuota_def sql_def Let_def spent_def upd_money_def chargeKeyQuota_def
        split: if_splits)
  then have "\<not> spendable (en_now env) (apiKeyEntityToService base (fold chargeKeyQuota amounts row'))"
    using assms(5) by (intro spent_not_spendable spent_charges)
  then show ?thesis using not_spendable_refused assms(6,7) by blast
qed

theorem exhausted_key_refused_witness:
  "\<exists>row' code reason. apiKeyAuthWithSubscription
     (sampleEnv\<lparr>en_lookup := (\<lambda>_. KeyFound (apiKeyEntityToService sampleKey row'))\<rparr>) sampleRequest = Abort code reason"
proof -
  obtain x db' where run: "incrementUsageBillingAPIKeyQuota (exampleTx CommitOK) 3 1 exampleDB = Inr (x, db')"
    by (simp add: incrementUsageBillingAPIKeyQuota_def sql_def exampleTx_def exampleDB_def exampleKey_def Let_def)
  have r: "round_away 8 (3 / 2) = 3 / 2"
    by (rule round_away_on_grid) (auto simp: on_grid_def intro: exI [of _ 150000000])
  have key: "tb_keys (db_money exampleDB) 3 = Some exampleKey" by (simp add: exampleDB_def)
  from run r have "x" and "\<exists>row'. tb_keys (db_money db') 3 = Some row'"
    by (auto simp: incrementUsageBillingAPIKeyQuota_def sql_def exampleTx_def exampleDB_def exampleKey_def Let_def
        chargeKeyQuota_def)
  then obtain row' where row': "tb_keys (db_money db') 3 = Some row'" and true: "x = True" by auto
  have grid: "on_grid 8 (key_quota exampleKey)"
    by (auto simp: exampleKey_def on_grid_def intro: exI [of _ 100000000])
  have pk: "presentsKey (sampleEnv\<lparr>en_lookup := (\<lambda>_. KeyFound (apiKeyEntityToService sampleKey row'))\<rparr>) sampleRequest
      (apiKeyEntityToService sampleKey (fold chargeKeyQuota [] row'))"
    by (simp add: presentsKey_def sampleRequest_key) (simp add: sampleRequest_def)
  have ex: "\<not> exemptFromBilling (sampleEnv\<lparr>en_lookup := (\<lambda>_. KeyFound (apiKeyEntityToService sampleKey row'))\<rparr>) sampleRequest"
    by (simp add: exemptFromBilling_def sampleEnv_def sampleRequest_def)
  have "\<exists>code reason. apiKeyAuthWithSubscription
      (sampleEnv\<lparr>en_lookup := (\<lambda>_. KeyFound (apiKeyEntityToService sampleKey row'))\<rparr>) sampleRequest = Abort code reason"
    by (rule exhausted_key_refused [OF key grid run [unfolded true] row' _ pk ex]) simp
  then show ?thesis ..
qed

section \<open>Rate-limit windows\<close>

text \<open>A row whose windows are consistent: usage belongs to a window and is stored exactly.\<close>

definition windowsOK :: "key_row \<Rightarrow> bool" where
  "windowsOK row \<longleftrightarrow>
     (key_window_5h row = None \<longrightarrow> key_usage_5h row = 0) \<and> on_grid 8 (key_usage_5h row) \<and>
     (key_window_1d row = None \<longrightarrow> key_usage_1d row = 0) \<and> on_grid 8 (key_usage_1d row) \<and>
     (key_window_7d row = None \<longrightarrow> key_usage_7d row = 0) \<and> on_grid 8 (key_usage_7d row)"

definition effectiveUsages :: "time \<Rightarrow> APIKey \<Rightarrow> rat list" where
  "effectiveUsages now k = [EffectiveUsage5h now k, EffectiveUsage1d now k, EffectiveUsage7d now k]"

lemma on_grid_0 [simp]: "on_grid k 0"
  by (auto simp: on_grid_def)

lemma window_expired: "IsWindowExpired now w len \<longleftrightarrow> w = None \<or> window_over now len w"
  by (cases w) (auto simp: IsWindowExpired_def window_over_def)

text \<open>One window: what is stored after a charge counts for the charge and what counted before.\<close>

lemma window_charge:
  assumes "w = None \<longrightarrow> u = 0" "on_grid 8 u" "on_grid 8 cost" "fresh \<le> now" "now < fresh + len"
  defines "w' \<equiv> if w = None \<or> window_over now len w then Some fresh else w"
    and "u' \<equiv> round_away 8 (if window_over now len w then cost else u + cost)"
  shows "(if IsWindowExpired now w' len then 0 else u') = (if IsWindowExpired now w len then 0 else u) + cost"
    and "w' = None \<longrightarrow> u' = 0" and "on_grid 8 u'"
proof -
  have grid: "u' = (if window_over now len w then cost else u + cost)"
    using assms(2,3) by (simp add: u'_def round_away_on_grid on_grid_add)
  have "\<not> IsWindowExpired now w' len"
    using assms(4,5) by (auto simp: w'_def window_expired window_over_def)
  then show "(if IsWindowExpired now w' len then 0 else u') = (if IsWindowExpired now w len then 0 else u) + cost"
    using grid assms(1) by (auto simp: window_expired window_over_def)
  show "w' = None \<longrightarrow> u' = 0" by (auto simp: w'_def)
  show "on_grid 8 u'" using grid assms(2,3) by (simp add: on_grid_add)
qed

text \<open>
  Charging the rate-limit windows in SQL adds exactly the cost to what the entity counts
  in each of the three windows, over or not, and keeps the windows consistent; \<open>tx_day\<close> is the
  midnight at which the calendar windows start.
\<close>

theorem window_charges_counted:
  assumes "windowsOK row" and "on_grid 8 cost" and "tx_day env \<le> tx_now env" and "tx_now env < tx_day env + 24 * 3600"
  shows "effectiveUsages (tx_now env) (apiKeyEntityToService base (chargeKeyWindows env cost row)) =
      map (\<lambda>u. u + cost) (effectiveUsages (tx_now env) (apiKeyEntityToService base row)) \<and>
    windowsOK (chargeKeyWindows env cost row)"
proof -
  have 1: "tx_now env \<le> tx_now env" "tx_now env < tx_now env + 5 * 3600"
    "tx_now env < tx_day env + 7 * 24 * 3600" using assms(4) by simp_all
  have w: "key_window_5h row = None \<longrightarrow> key_usage_5h row = 0" "on_grid 8 (key_usage_5h row)"
    "key_window_1d row = None \<longrightarrow> key_usage_1d row = 0" "on_grid 8 (key_usage_1d row)"
    "key_window_7d row = None \<longrightarrow> key_usage_7d row = 0" "on_grid 8 (key_usage_7d row)"
    using assms(1) by (simp_all add: windowsOK_def)
  note c5 = window_charge [OF w(1,2) assms(2) 1(1,2)]
    and c1 = window_charge [OF w(3,4) assms(2-4)]
    and c7 = window_charge [OF w(5,6) assms(2,3) 1(3)]
  note defs = chargeKeyWindows_def Let_def RateLimitWindow5h_def RateLimitWindow1d_def
    RateLimitWindow7d_def
  let ?k = "apiKeyEntityToService base row" and ?k' = "apiKeyEntityToService base (chargeKeyWindows env cost row)"
  have "EffectiveUsage5h (tx_now env) ?k' = EffectiveUsage5h (tx_now env) ?k + cost"
    using c5(1) by (simp add: EffectiveUsage5h_def defs split del: if_split cong: if_cong)
  moreover have "EffectiveUsage1d (tx_now env) ?k' = EffectiveUsage1d (tx_now env) ?k + cost"
    using c1(1) by (simp add: EffectiveUsage1d_def defs split del: if_split cong: if_cong)
  moreover have "EffectiveUsage7d (tx_now env) ?k' = EffectiveUsage7d (tx_now env) ?k + cost"
    using c7(1) by (simp add: EffectiveUsage7d_def defs split del: if_split cong: if_cong)
  moreover have "windowsOK (chargeKeyWindows env cost row)"
    unfolding windowsOK_def chargeKeyWindows_def Let_def
    using c5(2,3) c1(2,3) c7(2,3) by (intro conjI) (simp_all split del: if_split)
  ultimately show ?thesis by (simp add: effectiveUsages_def)
qed

definition windowRow :: key_row where
  "windowRow = exampleKey\<lparr>key_usage_5h := 2, key_window_5h := Some 100, key_usage_1d := 3, key_window_1d := Some 0,
     key_usage_7d := 0, key_window_7d := None\<rparr>"

theorem window_charges_counted_witness:
  "effectiveUsages 20000 (apiKeyEntityToService sampleKey
     (chargeKeyWindows ((exampleTx CommitOK)\<lparr>tx_now := 20000\<rparr>) 1 windowRow)) = [1, 4, 1]"
proof -
  have grid: "on_grid 8 1" "on_grid 8 2" "on_grid 8 3"
    unfolding on_grid_def by (rule exI [of _ 100000000] exI [of _ 200000000] exI [of _ 300000000], simp)+
  have "windowsOK windowRow" by (simp add: windowsOK_def windowRow_def grid)
  from window_charges_counted [OF this grid(1), of "(exampleTx CommitOK)\<lparr>tx_now := 20000\<rparr>" sampleKey] show ?thesis
    by (simp add: exampleTx_def windowRow_def effectiveUsages_def apiKeyEntityToService_def EffectiveUsage5h_def
        EffectiveUsage1d_def EffectiveUsage7d_def IsWindowExpired_def RateLimitWindow5h_def RateLimitWindow1d_def
        RateLimitWindow7d_def)
qed

end
