(* ===== verification/Billing_Eligibility.thy ===== *)
theory Billing_Eligibility
  imports Billing_Cache Circuit_Breaker Key_Accounting
begin

text \<open>
  The eligibility check that a handler makes before it forwards a request
  (\<open>CheckBillingEligibility\<close> of \<open>internal/service/billing_cache_service.go\<close>): the circuit
  breaker, the cached balance or subscription, and the rate-limit windows of the key, each read
  through the cache and loaded from the database on a miss.
\<close>

section \<open>Loading\<close>

record APIKeyRateLimitData =
  rd_Usage5h :: rat
  rd_Usage1d :: rat
  rd_Usage7d :: rat
  rd_Window5hStart :: "time option"
  rd_Window1dStart :: "time option"
  rd_Window7dStart :: "time option"

text \<open>
  The repositories: \<open>None\<close> is a failed query.  \<open>lo_rate\<close> is \<open>None\<close> when no loader of rate
  limits is configured.
\<close>

record loaders =
  lo_balance :: "int64 \<Rightarrow> rat option"
  lo_sub :: "int64 \<Rightarrow> int64 \<Rightarrow> SubscriptionCacheData option"
  lo_rate :: "(int64 \<Rightarrow> APIKeyRateLimitData option) option"

definition GetUserBalance :: "cache_env \<Rightarrow> loaders \<Rightarrow> int64 \<Rightarrow> billing_service \<Rightarrow> rat option \<times> billing_service" where
  "GetUserBalance env lo userID s =
     (if \<not> bs_cache s then (lo_balance lo userID, s)
      else case cacheGetUserBalance env userID (bs_store s) of
        Inr b \<Rightarrow> (Some b, s)
      | Inl e \<Rightarrow>
          (case lo_balance lo userID of
             None \<Rightarrow> (None, s)
           | Some b \<Rightarrow> (Some b, snd (enqueueCacheWrite (TaskSetBalance userID b) s))))"

definition GetSubscriptionStatus ::
    "cache_env \<Rightarrow> loaders \<Rightarrow> int64 \<Rightarrow> int64 \<Rightarrow> billing_service \<Rightarrow> SubscriptionCacheData option \<times> billing_service" where
  "GetSubscriptionStatus env lo userID groupID s =
     (if \<not> bs_cache s then (lo_sub lo userID groupID, s)
      else case cacheGetSubscriptionCache env userID groupID (bs_store s) of
        Inr d \<Rightarrow> (Some d, s)
      | Inl e \<Rightarrow>
          (case lo_sub lo userID groupID of
             None \<Rightarrow> (None, s)
           | Some d \<Rightarrow> (Some d, snd (enqueueCacheWrite (TaskSetSubscription userID groupID d) s))))"

section \<open>The checks\<close>

datatype elig_error =
    EligServiceUnavailable | EligInsufficientBalance | EligSubscriptionInvalid
  | EligDailyLimit | EligWeeklyLimit | EligMonthlyLimit | EligRate5h | EligRate1d | EligRate7d

text \<open>The answer, and whether the windows of the key are to be reset in the background.\<close>

definition evaluateRateLimits ::
    "time \<Rightarrow> APIKey \<Rightarrow> rat \<Rightarrow> rat \<Rightarrow> rat \<Rightarrow> time option \<Rightarrow> time option \<Rightarrow> time option \<Rightarrow> elig_error option \<times> bool" where
  "evaluateRateLimits now apiKey usage5h usage1d usage7d w5h w1d w7d =
     (let u5 = (if IsWindowExpired now w5h RateLimitWindow5h then 0 else usage5h);
          u1 = (if IsWindowExpired now w1d RateLimitWindow1d then 0 else usage1d);
          u7 = (if IsWindowExpired now w7d RateLimitWindow7d then 0 else usage7d);
          needsReset = (IsWindowExpired now w5h RateLimitWindow5h \<or> IsWindowExpired now w1d RateLimitWindow1d \<or>
                        IsWindowExpired now w7d RateLimitWindow7d)
      in (if ak_RateLimit5h apiKey > 0 \<and> u5 \<ge> ak_RateLimit5h apiKey then Some EligRate5h
          else if ak_RateLimit1d apiKey > 0 \<and> u1 \<ge> ak_RateLimit1d apiKey then Some EligRate1d
          else if ak_RateLimit7d apiKey > 0 \<and> u7 \<ge> ak_RateLimit7d apiKey then Some EligRate7d
          else None, needsReset))"

definition unixOrZero :: "time option \<Rightarrow> int64" where
  "unixOrZero t = (case t of None \<Rightarrow> 0 | Some x \<Rightarrow> x)"

definition cacheEntryOf :: "APIKeyRateLimitData \<Rightarrow> APIKeyRateLimitCacheData" where
  "cacheEntryOf d =
     \<lparr>rl_Usage5h = rd_Usage5h d, rl_Usage1d = rd_Usage1d d, rl_Usage7d = rd_Usage7d d,
       rl_Window5h = unixOrZero (rd_Window5hStart d), rl_Window1d = unixOrZero (rd_Window1dStart d),
       rl_Window7d = unixOrZero (rd_Window7dStart d)\<rparr>"

definition positiveTime :: "int64 \<Rightarrow> time option" where
  "positiveTime w = (if w > 0 then Some w else None)"

definition evaluateCached :: "time \<Rightarrow> APIKey \<Rightarrow> APIKeyRateLimitCacheData \<Rightarrow> elig_error option \<times> bool" where
  "evaluateCached now apiKey d =
     evaluateRateLimits now apiKey (rl_Usage5h d) (rl_Usage1d d) (rl_Usage7d d)
       (positiveTime (rl_Window5h d)) (positiveTime (rl_Window1d d)) (positiveTime (rl_Window7d d))"

definition checkAPIKeyRateLimits ::
    "cache_env \<Rightarrow> loaders \<Rightarrow> APIKey \<Rightarrow> billing_service \<Rightarrow> (elig_error option \<times> bool) \<times> billing_service" where
  "checkAPIKeyRateLimits env lo apiKey s =
     (if \<not> bs_cache s then
        (case lo_rate lo of
           None \<Rightarrow> ((None, False), s)
         | Some load \<Rightarrow>
             (case load (ak_ID apiKey) of
                None \<Rightarrow> ((None, False), s)
              | Some d \<Rightarrow> (evaluateRateLimits (ce_now env) apiKey (rd_Usage5h d) (rd_Usage1d d) (rd_Usage7d d)
                            (rd_Window5hStart d) (rd_Window1dStart d) (rd_Window7dStart d), s)))
      else case cacheGetAPIKeyRateLimit env (ak_ID apiKey) (bs_store s) of
        Inr d \<Rightarrow> (evaluateCached (ce_now env) apiKey d, s)
      | Inl e \<Rightarrow>
          (case lo_rate lo of
             None \<Rightarrow> ((None, False), s)
           | Some load \<Rightarrow>
               (case load (ak_ID apiKey) of
                  None \<Rightarrow> ((None, False), s)
                | Some d \<Rightarrow> (evaluateCached (ce_now env) apiKey (cacheEntryOf d),
                    upd_store (cacheSetAPIKeyRateLimit env (ak_ID apiKey) (cacheEntryOf d)) s))))"

record elig_state =
  el_service :: billing_service
  el_breaker :: "billingCircuitBreaker option"

definition breakerFailure :: "time \<Rightarrow> elig_state \<Rightarrow> elig_state" where
  "breakerFailure now st = st\<lparr>el_breaker := map_option (OnFailure now) (el_breaker st)\<rparr>"

definition breakerSuccess :: "elig_state \<Rightarrow> elig_state" where
  "breakerSuccess st = st\<lparr>el_breaker := map_option OnSuccess (el_breaker st)\<rparr>"

definition checkBalanceEligibility ::
    "cache_env \<Rightarrow> loaders \<Rightarrow> int64 \<Rightarrow> elig_state \<Rightarrow> elig_error option \<times> elig_state" where
  "checkBalanceEligibility env lo userID st =
     (case GetUserBalance env lo userID (el_service st) of
        (None, sv) \<Rightarrow> (Some EligServiceUnavailable, breakerFailure (ce_now env) (st\<lparr>el_service := sv\<rparr>))
      | (Some balance, sv) \<Rightarrow>
          (if balance \<le> 0 then Some EligInsufficientBalance else None, breakerSuccess (st\<lparr>el_service := sv\<rparr>)))"

definition reachedLimit :: "rat option \<Rightarrow> rat \<Rightarrow> bool" where
  "reachedLimit limit usage = (case limit of None \<Rightarrow> False | Some l \<Rightarrow> usage \<ge> l)"

definition subscriptionVerdict :: "time \<Rightarrow> Group \<Rightarrow> SubscriptionCacheData \<Rightarrow> elig_error option" where
  "subscriptionVerdict now grp d =
     (if sc_Status d \<noteq> ''active'' then Some EligSubscriptionInvalid
      else if now > sc_ExpiresAt d then Some EligSubscriptionInvalid
      else if HasDailyLimit grp \<and> reachedLimit (gr_DailyLimitUSD grp) (sc_DailyUsage d) then Some EligDailyLimit
      else if HasWeeklyLimit grp \<and> reachedLimit (gr_WeeklyLimitUSD grp) (sc_WeeklyUsage d) then Some EligWeeklyLimit
      else if HasMonthlyLimit grp \<and> reachedLimit (gr_MonthlyLimitUSD grp) (sc_MonthlyUsage d) then Some EligMonthlyLimit
      else None)"

definition checkSubscriptionEligibility ::
    "cache_env \<Rightarrow> loaders \<Rightarrow> int64 \<Rightarrow> Group \<Rightarrow> elig_state \<Rightarrow> elig_error option \<times> elig_state" where
  "checkSubscriptionEligibility env lo userID grp st =
     (case GetSubscriptionStatus env lo userID (gr_ID grp) (el_service st) of
        (None, sv) \<Rightarrow> (Some EligServiceUnavailable, breakerFailure (ce_now env) (st\<lparr>el_service := sv\<rparr>))
      | (Some d, sv) \<Rightarrow> (subscriptionVerdict (ce_now env) grp d, breakerSuccess (st\<lparr>el_service := sv\<rparr>)))"

text \<open>The check of the subscription or of the balance.\<close>

definition meansCheck ::
    "cache_env \<Rightarrow> loaders \<Rightarrow> User \<Rightarrow> Group option \<Rightarrow> UserSubscription option \<Rightarrow> elig_state \<Rightarrow> elig_error option \<times> elig_state" where
  "meansCheck env lo user grp subscription st0 =
     (case (grp, subscription) of
        (Some g, Some sub) \<Rightarrow>
          if IsSubscriptionType g then checkSubscriptionEligibility env lo (us_ID user) g st0
          else checkBalanceEligibility env lo (us_ID user) st0
      | _ \<Rightarrow> checkBalanceEligibility env lo (us_ID user) st0)"

text \<open>The whole check; the flag says that the windows of the key are to be reset.\<close>

definition CheckBillingEligibility ::
    "bool \<Rightarrow> cache_env \<Rightarrow> loaders \<Rightarrow> User \<Rightarrow> APIKey option \<Rightarrow> Group option \<Rightarrow> UserSubscription option \<Rightarrow> elig_state
     \<Rightarrow> (elig_error option \<times> bool) \<times> elig_state" where
  "CheckBillingEligibility simpleMode env lo user apiKey grp subscription st =
     (if simpleMode then ((None, False), st)
      else let (ok, br) = (case el_breaker st of
                 None \<Rightarrow> (True, None)
               | Some b \<Rightarrow> (case Allow (ce_now env) b of (ok, b') \<Rightarrow> (ok, Some b')));
               st0 = st\<lparr>el_breaker := br\<rparr>
           in if \<not> ok then ((Some EligServiceUnavailable, False), st0)
              else case meansCheck env lo user grp subscription st0 of
                (Some err, st1) \<Rightarrow> ((Some err, False), st1)
              | (None, st1) \<Rightarrow>
                  (case apiKey of
                     None \<Rightarrow> ((None, False), st1)
                   | Some k \<Rightarrow>
                       if HasRateLimits k then
                         (case checkAPIKeyRateLimits env lo k (el_service st1) of
                            (verdict, sv) \<Rightarrow> (verdict, st1\<lparr>el_service := sv\<rparr>))
                       else ((None, False), st1)))"

section \<open>What the check decides\<close>

lemma enqueue_store [simp]:
  "bs_store (snd (enqueueCacheWrite t s)) = bs_store s" "bs_cache (snd (enqueueCacheWrite t s)) = bs_cache s"
  by (simp_all add: enqueueCacheWrite_def)

lemma GetUserBalance_store:
  "GetUserBalance env lo u s = (r, s') \<Longrightarrow> bs_store s' = bs_store s \<and> bs_cache s' = bs_cache s"
  by (auto simp: GetUserBalance_def split: if_splits sum.splits option.splits)

lemma GetSubscriptionStatus_store:
  "GetSubscriptionStatus env lo u g s = (r, s') \<Longrightarrow> bs_store s' = bs_store s \<and> bs_cache s' = bs_cache s"
  by (auto simp: GetSubscriptionStatus_def split: if_splits sum.splits option.splits)

lemma checkAPIKeyRateLimits_verdict:
  "bs_store s' = bs_store s \<Longrightarrow> bs_cache s' = bs_cache s \<Longrightarrow>
     fst (checkAPIKeyRateLimits env lo k s') = fst (checkAPIKeyRateLimits env lo k s)"
  by (simp add: checkAPIKeyRateLimits_def split: sum.split option.split)

text \<open>The parts of the verdict, on the state in which the check starts.\<close>

definition breakerAdmits :: "time \<Rightarrow> elig_state \<Rightarrow> bool" where
  "breakerAdmits now st = (case el_breaker st of None \<Rightarrow> True | Some b \<Rightarrow> fst (Allow now b))"

definition subscriptionMode :: "Group option \<Rightarrow> UserSubscription option \<Rightarrow> Group option" where
  "subscriptionMode grp subscription =
     (case (grp, subscription) of (Some g, Some sub) \<Rightarrow> if IsSubscriptionType g then Some g else None | _ \<Rightarrow> None)"

text \<open>
  What is read: the entry of the cache where there is one, else the database.  \<open>None\<close> is a failed read.
  A window that the cache knows at time 0 was never started.
\<close>

definition balance_read :: "cache_env \<Rightarrow> loaders \<Rightarrow> int64 \<Rightarrow> billing_service \<Rightarrow> rat option" where
  "balance_read env lo u sv =
     (case cacheGetUserBalance env u (bs_store sv) of
        Inr b \<Rightarrow> if bs_cache sv then Some b else lo_balance lo u
      | Inl e \<Rightarrow> lo_balance lo u)"

definition subscription_read :: "cache_env \<Rightarrow> loaders \<Rightarrow> int64 \<Rightarrow> int64 \<Rightarrow> billing_service \<Rightarrow> SubscriptionCacheData option" where
  "subscription_read env lo u g sv =
     (case cacheGetSubscriptionCache env u g (bs_store sv) of
        Inr d \<Rightarrow> if bs_cache sv then Some d else lo_sub lo u g
      | Inl e \<Rightarrow> lo_sub lo u g)"

definition cached_rates :: "APIKeyRateLimitCacheData \<Rightarrow> APIKeyRateLimitData" where
  "cached_rates d =
     \<lparr>rd_Usage5h = rl_Usage5h d, rd_Usage1d = rl_Usage1d d, rd_Usage7d = rl_Usage7d d,
      rd_Window5hStart = positiveTime (rl_Window5h d), rd_Window1dStart = positiveTime (rl_Window1d d),
      rd_Window7dStart = positiveTime (rl_Window7d d)\<rparr>"

definition rates_read :: "cache_env \<Rightarrow> loaders \<Rightarrow> int64 \<Rightarrow> billing_service \<Rightarrow> APIKeyRateLimitData option" where
  "rates_read env lo k sv =
     (let row = Option.bind (lo_rate lo) (\<lambda>load. load k)
      in if \<not> bs_cache sv then row
         else case cacheGetAPIKeyRateLimit env k (bs_store sv) of
                Inr d \<Rightarrow> Some (cached_rates d)
              | Inl e \<Rightarrow> map_option (cached_rates \<circ> cacheEntryOf) row)"

text \<open>
  What is asked of what was read, in the order in which it is asked, with the error that answers a no.
  A limit that is missing or not positive limits nothing; usage below the limit passes; the usage of a
  window that has not started or is over counts for nothing.
\<close>

definition spares :: "rat option \<Rightarrow> rat \<Rightarrow> bool" where
  "spares limit usage \<longleftrightarrow> (\<forall>l. limit = Some l \<and> 0 < l \<longrightarrow> usage < l)"

definition spent :: "time \<Rightarrow> int \<Rightarrow> time option \<Rightarrow> rat \<Rightarrow> rat" where
  "spent now duration start usage = (if \<exists>t. start = Some t \<and> now < t + duration then usage else 0)"

definition balance_questions :: "rat option \<Rightarrow> (bool \<times> elig_error) list" where
  "balance_questions read =
     (case read of None \<Rightarrow> [(False, EligServiceUnavailable)] | Some b \<Rightarrow> [(0 < b, EligInsufficientBalance)])"

definition subscription_questions :: "time \<Rightarrow> Group \<Rightarrow> SubscriptionCacheData option \<Rightarrow> (bool \<times> elig_error) list" where
  "subscription_questions now g read =
     (case read of
        None \<Rightarrow> [(False, EligServiceUnavailable)]
      | Some d \<Rightarrow>
          [(sc_Status d = ''active'', EligSubscriptionInvalid),
           (now \<le> sc_ExpiresAt d, EligSubscriptionInvalid),
           (spares (gr_DailyLimitUSD g) (sc_DailyUsage d), EligDailyLimit),
           (spares (gr_WeeklyLimitUSD g) (sc_WeeklyUsage d), EligWeeklyLimit),
           (spares (gr_MonthlyLimitUSD g) (sc_MonthlyUsage d), EligMonthlyLimit)])"

definition means_questions ::
    "cache_env \<Rightarrow> loaders \<Rightarrow> User \<Rightarrow> Group option \<Rightarrow> billing_service \<Rightarrow> (bool \<times> elig_error) list" where
  "means_questions env lo user mode sv =
     (case mode of
        Some g \<Rightarrow> subscription_questions (ce_now env) g (subscription_read env lo (us_ID user) (gr_ID g) sv)
      | None \<Rightarrow> balance_questions (balance_read env lo (us_ID user) sv))"

definition means_readable :: "cache_env \<Rightarrow> loaders \<Rightarrow> User \<Rightarrow> Group option \<Rightarrow> billing_service \<Rightarrow> bool" where
  "means_readable env lo user mode sv \<longleftrightarrow>
     (case mode of
        Some g \<Rightarrow> subscription_read env lo (us_ID user) (gr_ID g) sv \<noteq> None
      | None \<Rightarrow> balance_read env lo (us_ID user) sv \<noteq> None)"

definition rate_questions :: "cache_env \<Rightarrow> loaders \<Rightarrow> APIKey option \<Rightarrow> billing_service \<Rightarrow> (bool \<times> elig_error) list" where
  "rate_questions env lo apiKey sv =
     (case apiKey of
        None \<Rightarrow> []
      | Some k \<Rightarrow>
          (case rates_read env lo (ak_ID k) sv of
             None \<Rightarrow> []
           | Some d \<Rightarrow>
               [(spares (Some (ak_RateLimit5h k)) (spent (ce_now env) (5 * 3600) (rd_Window5hStart d) (rd_Usage5h d)), EligRate5h),
                (spares (Some (ak_RateLimit1d k)) (spent (ce_now env) (24 * 3600) (rd_Window1dStart d) (rd_Usage1d d)), EligRate1d),
                (spares (Some (ak_RateLimit7d k)) (spent (ce_now env) (7 * 24 * 3600) (rd_Window7dStart d) (rd_Usage7d d)), EligRate7d)]))"

fun first_no :: "(bool \<times> elig_error) list \<Rightarrow> elig_error option" where
  "first_no [] = None"
| "first_no ((ok, e) # qs) = (if ok then first_no qs else Some e)"

lemma first_no_append [simp]: "first_no (ps @ qs) = (case first_no ps of Some e \<Rightarrow> Some e | None \<Rightarrow> first_no qs)"
  by (induction ps rule: first_no.induct) auto

lemma balance_read_get: "fst (GetUserBalance env lo u sv) = balance_read env lo u sv"
  by (auto simp: GetUserBalance_def balance_read_def split: sum.split option.split)

lemma subscription_read_get: "fst (GetSubscriptionStatus env lo u g sv) = subscription_read env lo u g sv"
  by (auto simp: GetSubscriptionStatus_def subscription_read_def split: sum.split option.split)

lemma spares_reached: "(positiveLimit l \<and> reachedLimit l u) = (\<not> spares l u)"
  by (cases l) (auto simp: positiveLimit_def reachedLimit_def spares_def)

lemma subscription_verdict:
  "subscriptionVerdict now g d = first_no (subscription_questions now g (Some d))"
  by (auto simp: subscriptionVerdict_def subscription_questions_def HasDailyLimit_def HasWeeklyLimit_def HasMonthlyLimit_def
      spares_reached)

lemma spent_expired: "(if IsWindowExpired now w dur then 0 else usage) = spent now dur w usage"
  by (auto simp: IsWindowExpired_def spent_def split: option.splits)

lemma rate_verdict:
  "fst (evaluateRateLimits now k (rd_Usage5h d) (rd_Usage1d d) (rd_Usage7d d)
     (rd_Window5hStart d) (rd_Window1dStart d) (rd_Window7dStart d)) =
   first_no
     [(spares (Some (ak_RateLimit5h k)) (spent now (5 * 3600) (rd_Window5hStart d) (rd_Usage5h d)), EligRate5h),
      (spares (Some (ak_RateLimit1d k)) (spent now (24 * 3600) (rd_Window1dStart d) (rd_Usage1d d)), EligRate1d),
      (spares (Some (ak_RateLimit7d k)) (spent now (7 * 24 * 3600) (rd_Window7dStart d) (rd_Usage7d d)), EligRate7d)]"
  unfolding evaluateRateLimits_def spent_expired Let_def
  by (simp add: spares_def not_le RateLimitWindow5h_def RateLimitWindow1d_def RateLimitWindow7d_def)

lemma cached_verdict: "evaluateCached now k d = evaluateRateLimits now k (rd_Usage5h (cached_rates d)) (rd_Usage1d (cached_rates d))
    (rd_Usage7d (cached_rates d)) (rd_Window5hStart (cached_rates d)) (rd_Window1dStart (cached_rates d)) (rd_Window7dStart (cached_rates d))"
  by (simp add: evaluateCached_def cached_rates_def)

lemma rates_verdict:
  "fst (fst (checkAPIKeyRateLimits env lo k sv)) = first_no (rate_questions env lo (Some k) sv)"
  by (auto simp: checkAPIKeyRateLimits_def rate_questions_def rates_read_def cached_verdict rate_verdict Let_def
      simp del: first_no.simps split: sum.split option.split) simp_all

lemma unlimited_rates: "\<not> HasRateLimits k \<Longrightarrow> first_no (rate_questions env lo (Some k) sv) = None"
  by (auto simp: HasRateLimits_def rate_questions_def spares_def split: option.split)

definition reported :: "time \<Rightarrow> bool \<Rightarrow> elig_state \<Rightarrow> elig_state \<Rightarrow> bool" where
  "reported now loaded st st' \<longleftrightarrow>
     el_breaker st' = map_option (if loaded then OnSuccess else OnFailure now) (el_breaker st)"

lemma meansCheck_result:
  assumes "meansCheck env lo user grp subscription st = (r, st')"
  defines "mode \<equiv> subscriptionMode grp subscription"
  shows "r = first_no (means_questions env lo user mode (el_service st)) \<and>
    reported (ce_now env) (means_readable env lo user mode (el_service st)) st st' \<and>
    bs_store (el_service st') = bs_store (el_service st) \<and> bs_cache (el_service st') = bs_cache (el_service st)"
proof -
  have bal: "r = first_no (balance_questions (balance_read env lo (us_ID user) (el_service st))) \<and>
      reported (ce_now env) (balance_read env lo (us_ID user) (el_service st) \<noteq> None) st st' \<and>
      bs_store (el_service st') = bs_store (el_service st) \<and> bs_cache (el_service st') = bs_cache (el_service st)"
    if "checkBalanceEligibility env lo (us_ID user) st = (r, st')"
    using that GetUserBalance_store [of env lo "us_ID user" "el_service st"] balance_read_get [of env lo "us_ID user" "el_service st"]
    by (auto simp: checkBalanceEligibility_def reported_def breakerFailure_def breakerSuccess_def balance_questions_def
        split: prod.splits option.splits if_splits)
  have sub: "r = first_no (subscription_questions (ce_now env) g (subscription_read env lo (us_ID user) (gr_ID g) (el_service st))) \<and>
      reported (ce_now env) (subscription_read env lo (us_ID user) (gr_ID g) (el_service st) \<noteq> None) st st' \<and>
      bs_store (el_service st') = bs_store (el_service st) \<and> bs_cache (el_service st') = bs_cache (el_service st)"
    if "checkSubscriptionEligibility env lo (us_ID user) g st = (r, st')" for g
  proof -
    obtain s sv where g: "GetSubscriptionStatus env lo (us_ID user) (gr_ID g) (el_service st) = (s, sv)" by fastforce
    have "first_no (subscription_questions (ce_now env) g None) = Some EligServiceUnavailable"
      by (simp add: subscription_questions_def)
    then show ?thesis
      using that GetSubscriptionStatus_store [OF g] subscription_read_get [of env lo "us_ID user" "gr_ID g" "el_service st"]
      by (cases s) (auto simp: g checkSubscriptionEligibility_def reported_def breakerFailure_def breakerSuccess_def subscription_verdict)
  qed
  show ?thesis
    using assms bal sub
    by (auto simp: meansCheck_def means_questions_def means_readable_def subscriptionMode_def split: option.splits if_splits)
qed

text \<open>
  C26. In simple mode the check passes and changes nothing.  Otherwise it refuses when the breaker does,
  and else answers with the first question to which the answer is no, if there is one.  The questions
  are, of a subscription: can it be read, is it active, not expired, and below each of its positive daily,
  weekly and monthly limits; of a balance: can it be read and is it positive; then of the key, if its
  rates can be read: is it below each positive limit with what it spent in a window of five hours, a day
  and seven days that is still running.  Every check that the breaker let through reports to it, success
  exactly when the balance or the subscription could be read, so a half-open breaker is always resolved.
\<close>

theorem eligibility_exact:
  "(case CheckBillingEligibility simple env lo user apiKey grp subscription st of ((err, reset), st') \<Rightarrow>
     let mode = subscriptionMode grp subscription; sv = el_service st
     in if simple then err = None \<and> st' = st
        else if breakerAdmits (ce_now env) st
        then err = first_no (means_questions env lo user mode sv @ rate_questions env lo apiKey sv) \<and>
          el_breaker st' = map_option ((if means_readable env lo user mode sv then OnSuccess else OnFailure (ce_now env)) \<circ>
            snd \<circ> Allow (ce_now env)) (el_breaker st) \<and>
          map_option cb_state (el_breaker st') \<noteq> Some billingCircuitHalfOpen
        else err = Some EligServiceUnavailable)"
proof (cases simple)
  case True
  then show ?thesis by (simp add: CheckBillingEligibility_def)
next
  case nonsimple: False
  let ?mode = "subscriptionMode grp subscription"
  define st0 where "st0 = st\<lparr>el_breaker := map_option (snd \<circ> Allow (ce_now env)) (el_breaker st)\<rparr>"
  obtain r st1 where mc: "meansCheck env lo user grp subscription st0 = (r, st1)" by fastforce
  note res = meansCheck_result [OF mc]
  have st0: "el_service st0 = el_service st" by (simp add: st0_def)
  have rate: "fst (fst (checkAPIKeyRateLimits env lo k (el_service st1))) = first_no (rate_questions env lo (Some k) (el_service st))" for k
    using checkAPIKeyRateLimits_verdict [of "el_service st1" "el_service st" env lo k] res st0 by (simp add: rates_verdict [symmetric])
  have closed: "cb_state (OnSuccess b) \<noteq> billingCircuitHalfOpen" "cb_state (OnFailure now b) \<noteq> billingCircuitHalfOpen" for b now
    by (auto simp: OnSuccess_def OnFailure_def openBreaker_def Let_def split: billingCircuitBreakerState.split)
  have run: "CheckBillingEligibility False env lo user apiKey grp subscription st =
      (if \<not> breakerAdmits (ce_now env) st then ((Some EligServiceUnavailable, False), st0)
       else case (r, st1) of
         (Some err, st1) \<Rightarrow> ((Some err, False), st1)
       | (None, st1) \<Rightarrow>
           (case apiKey of
              None \<Rightarrow> ((None, False), st1)
            | Some k \<Rightarrow>
                if HasRateLimits k then
                  (case checkAPIKeyRateLimits env lo k (el_service st1) of
                     (verdict, sv) \<Rightarrow> (verdict, st1\<lparr>el_service := sv\<rparr>))
                else ((None, False), st1)))"
    using mc
    by (cases "el_breaker st")
      (simp_all add: CheckBillingEligibility_def breakerAdmits_def st0_def Let_def case_prod_unfold split: prod.split)
  have st1: "el_breaker st1 = map_option (if means_readable env lo user ?mode (el_service st)
      then OnSuccess else OnFailure (ce_now env)) (el_breaker st0)"
    using res st0 by (simp add: reported_def)
  have half: "map_option cb_state (el_breaker st1) \<noteq> Some billingCircuitHalfOpen"
    unfolding st1 using closed by auto
  have br: "el_breaker st1 = map_option ((if means_readable env lo user ?mode (el_service st)
      then OnSuccess else OnFailure (ce_now env)) \<circ> snd \<circ> Allow (ce_now env)) (el_breaker st)"
    unfolding st1 st0_def by (simp add: option.map_comp comp_assoc)
  have r: "r = first_no (means_questions env lo user ?mode (el_service st))" using res st0 by simp
  show ?thesis
  proof (cases apiKey)
    case None
    have "rate_questions env lo None (el_service st) = []" by (simp add: rate_questions_def)
    then show ?thesis using nonsimple half br r run None by (auto simp: Let_def split: option.split)
  next
    case (Some k)
    show ?thesis
      using nonsimple half br r run Some rate [of k] unlimited_rates [of k env lo "el_service st"]
      by (auto simp: Let_def case_prod_unfold split: option.split)
  qed
qed

section \<open>Rate limits\<close>

definition keyWithRates :: "APIKey \<Rightarrow> APIKeyRateLimitData \<Rightarrow> APIKey" where
  "keyWithRates k d =
     k\<lparr>ak_Usage5h := rd_Usage5h d, ak_Usage1d := rd_Usage1d d, ak_Usage7d := rd_Usage7d d,
       ak_Window5hStart := rd_Window5hStart d, ak_Window1dStart := rd_Window1dStart d, ak_Window7dStart := rd_Window7dStart d\<rparr>"

definition below :: "rat \<Rightarrow> rat \<Rightarrow> bool" where
  "below usage limit \<longleftrightarrow> (0 < limit \<longrightarrow> usage < limit)"

definition withinRates :: "time \<Rightarrow> APIKey \<Rightarrow> bool" where
  "withinRates now k \<longleftrightarrow> below (EffectiveUsage5h now k) (ak_RateLimit5h k) \<and>
     below (EffectiveUsage1d now k) (ak_RateLimit1d k) \<and> below (EffectiveUsage7d now k) (ak_RateLimit7d k)"

definition positiveStarts :: "APIKeyRateLimitData \<Rightarrow> bool" where
  "positiveStarts d \<longleftrightarrow> (\<forall>w \<in> {rd_Window5hStart d, rd_Window1dStart d, rd_Window7dStart d}. \<forall>t. w = Some t \<longrightarrow> 0 < t)"

lemma positiveTime_unix: "(\<forall>t. w = Some t \<longrightarrow> 0 < t) \<Longrightarrow> positiveTime (unixOrZero w) = w"
  by (cases w) (auto simp: positiveTime_def unixOrZero_def)

lemma evaluateRateLimits_None:
  "fst (evaluateRateLimits now k (rd_Usage5h d) (rd_Usage1d d) (rd_Usage7d d)
     (rd_Window5hStart d) (rd_Window1dStart d) (rd_Window7dStart d)) = None \<longleftrightarrow> withinRates now (keyWithRates k d)"
  by (auto simp: evaluateRateLimits_def withinRates_def below_def EffectiveUsage5h_def EffectiveUsage1d_def
      EffectiveUsage7d_def keyWithRates_def Let_def)

lemma evaluateCached_entry:
  assumes "positiveStarts d"
  shows "evaluateCached now k (cacheEntryOf d) = evaluateRateLimits now k (rd_Usage5h d) (rd_Usage1d d) (rd_Usage7d d)
     (rd_Window5hStart d) (rd_Window1dStart d) (rd_Window7dStart d)"
  using assms by (simp add: evaluateCached_def cacheEntryOf_def positiveTime_unix positiveStarts_def)

text \<open>The cached windows of a key, where there are any, are those of its row.\<close>

definition rateCoherent :: "cache_env \<Rightarrow> int64 \<Rightarrow> APIKeyRateLimitData \<Rightarrow> billing_service \<Rightarrow> bool" where
  "rateCoherent env k d sv \<longleftrightarrow> live (ce_now env) (bc_rate (bs_store sv) k) \<in> {None, Some (cacheEntryOf d)}"

text \<open>
  Rate limits are enforced on the usage that counts: with the windows of the row loaded or
  coherently cached, the check passes exactly when in each of the three windows the usage that
  counts is below the limit or there is no limit; zero in the cache stands for a window that
  was never started.
\<close>

theorem rate_limits_enforced:
  assumes "lo_rate lo = Some load" and "load (ak_ID k) = Some d" and "positiveStarts d"
    and "rateCoherent env (ak_ID k) d sv"
  shows "fst (fst (checkAPIKeyRateLimits env lo k sv)) = None \<longleftrightarrow> withinRates (ce_now env) (keyWithRates k d)"
  using assms
  by (auto simp: checkAPIKeyRateLimits_def cacheGetAPIKeyRateLimit_def rateCoherent_def evaluateCached_entry
      evaluateRateLimits_None split: option.split)

definition emptyStore :: billing_store where
  "emptyStore = \<lparr>bc_balance = Map.empty, bc_sub = Map.empty, bc_rate = Map.empty\<rparr>"

definition emptyService :: billing_service where
  "emptyService = \<lparr>bs_cache = True, bs_store = emptyStore, bs_queue = [], bs_stopped = False, bs_chanOpen = True\<rparr>"

definition upEnv :: "time \<Rightarrow> cache_env" where
  "upEnv now = \<lparr>ce_now = now, ce_jitter = 0, ce_up = (\<lambda>_. True)\<rparr>"

definition sampleRates :: APIKeyRateLimitData where
  "sampleRates = \<lparr>rd_Usage5h = 4, rd_Usage1d = 4, rd_Usage7d = 4, rd_Window5hStart = Some 100, rd_Window1dStart = Some 100,
     rd_Window7dStart = None\<rparr>"

definition limitedKey :: APIKey where
  "limitedKey = sampleKey\<lparr>ak_RateLimit5h := 3, ak_RateLimit1d := 5\<rparr>"

theorem rate_limits_enforced_witness:
  "(let lo = \<lparr>lo_balance = (\<lambda>_. None), lo_sub = (\<lambda>_ _. None), lo_rate = Some (\<lambda>_. Some sampleRates)\<rparr>
    in fst (fst (checkAPIKeyRateLimits (upEnv 200) lo limitedKey emptyService)) \<noteq> None \<and>
       fst (fst (checkAPIKeyRateLimits (upEnv 30000) lo limitedKey emptyService)) = None)"
proof -
  let ?lo = "\<lparr>lo_balance = (\<lambda>_. None), lo_sub = (\<lambda>_ _. None), lo_rate = Some (\<lambda>_. Some sampleRates)\<rparr>"
  have coh: "rateCoherent (upEnv t) (ak_ID limitedKey) sampleRates emptyService" for t
    by (simp add: rateCoherent_def emptyService_def emptyStore_def live_def)
  have pos: "positiveStarts sampleRates" by (simp add: positiveStarts_def sampleRates_def)
  have key: "ak_RateLimit5h limitedKey = 3" "ak_RateLimit1d limitedKey = 5" "ak_RateLimit7d limitedKey = 0"
    by (simp_all add: limitedKey_def sampleKey_def)
  note eval = withinRates_def keyWithRates_def below_def sampleRates_def EffectiveUsage5h_def EffectiveUsage1d_def
    EffectiveUsage7d_def IsWindowExpired_def RateLimitWindow5h_def RateLimitWindow1d_def RateLimitWindow7d_def
  have "\<not> withinRates 200 (keyWithRates limitedKey sampleRates)" "withinRates 30000 (keyWithRates limitedKey sampleRates)"
    using key by (simp_all add: eval)
  moreover have "fst (fst (checkAPIKeyRateLimits (upEnv t) ?lo limitedKey emptyService)) = None \<longleftrightarrow>
      withinRates t (keyWithRates limitedKey sampleRates)" for t
    using rate_limits_enforced [of ?lo "\<lambda>_. Some sampleRates" limitedKey sampleRates "upEnv t" emptyService] pos coh
    by (simp add: upEnv_def)
  ultimately show ?thesis unfolding Let_def by blast
qed

text \<open>
  The cached windows do not follow the row across midnight.  The script starts all three
  windows at the time of the charge, the statement starts the one-day window at midnight: a key
  that charges its whole daily limit in the evening is free again after midnight according to
  its row, and still refused according to the cache.
\<close>

theorem cached_day_window_outlives_row:
  "(let evening = 864000 + 64800; later = 864000 + 86400 + 7200;
        k = sampleKey\<lparr>ak_RateLimit1d := 1\<rparr>;
        row = exampleKey;
        entry = cacheEntryOf \<lparr>rd_Usage5h = key_usage_5h row, rd_Usage1d = key_usage_1d row, rd_Usage7d = key_usage_7d row,
          rd_Window5hStart = key_window_5h row, rd_Window1dStart = key_window_1d row, rd_Window7dStart = key_window_7d row\<rparr>;
        store = updateRateLimitUsageScript evening 3 1 rateLimitCacheTTL (emptyStore\<lparr>bc_rate := [3 \<mapsto> (entry, evening + 100)]\<rparr>);
        row' = chargeKeyWindows ((exampleTx CommitOK)\<lparr>tx_now := evening, tx_day := 864000\<rparr>) 1 row
    in withinRates later (apiKeyEntityToService k row') \<and>
       map_option (\<lambda>d. fst (evaluateCached later k d)) (live later (bc_rate store 3)) = Some (Some EligRate1d))"
proof -
  have r: "round_away 8 1 = 1"
    by (rule round_away_on_grid) (auto simp: on_grid_def intro: exI [of _ 100000000])
  have "ak_RateLimit5h sampleKey = 0" "ak_RateLimit7d sampleKey = 0" by (simp_all add: sampleKey_def)
  then show ?thesis
    by (simp add: r exampleKey_def chargeKeyWindows_def exampleTx_def window_over_def withinRates_def below_def
        apiKeyEntityToService_def EffectiveUsage1d_def EffectiveUsage5h_def EffectiveUsage7d_def IsWindowExpired_def
        cacheEntryOf_def unixOrZero_def updateRateLimitUsageScript_def emptyStore_def live_def update_window_def
        evaluateCached_def evaluateRateLimits_def positiveTime_def rateLimitCacheTTL_def
        RateLimitWindow1d_def RateLimitWindow5h_def RateLimitWindow7d_def Let_def)
qed

section \<open>Subscriptions\<close>

definition subscriptionData :: "UserSubscription \<Rightarrow> SubscriptionCacheData" where
  "subscriptionData sub =
     \<lparr>sc_Status = sb_Status sub, sc_ExpiresAt = sb_ExpiresAt sub, sc_DailyUsage = sb_DailyUsageUSD sub,
       sc_WeeklyUsage = sb_WeeklyUsageUSD sub, sc_MonthlyUsage = sb_MonthlyUsageUSD sub, sc_Version = 0\<rparr>"

lemma limit_strict:
  "\<not> (positiveLimit l \<and> reachedLimit l u) \<Longrightarrow> withinCap l (windowUsage now dur start u)"
  by (cases l) (auto simp: positiveLimit_def reachedLimit_def withinCap_def windowUsage_def)

text \<open>
  The handler's check is at least as strict as the middleware's: a subscription that
  passes it on the stored usage is usable for the middleware.
\<close>

theorem eligible_subscription_usable:
  assumes "subscriptionVerdict now g (subscriptionData sub) = None"
  shows "subscriptionUsable now g sub"
  using assms limit_strict
  by (auto simp: subscriptionVerdict_def subscriptionUsable_def subscriptionData_def HasDailyLimit_def
      HasWeeklyLimit_def HasMonthlyLimit_def split: if_splits)

theorem eligible_subscription_usable_witness:
  "subscriptionUsable 500 (exampleGroup []) sampleSub"
  by (rule eligible_subscription_usable)
    (simp add: subscriptionVerdict_def subscriptionData_def exampleGroup_def sampleSub_def HasDailyLimit_def
      HasWeeklyLimit_def HasMonthlyLimit_def positiveLimit_def reachedLimit_def)

text \<open>
  The converse fails where a window is over: the middleware does not count the usage of
  the day before, the handler's check does until the background maintenance has reset the row,
  so a subscriber who used up a day is admitted by the one and refused by the other on the
  first request of the next day.
\<close>

theorem ended_window_still_refused:
  "(let sub = sampleSub\<lparr>sb_ExpiresAt := 1000000, sb_DailyUsageUSD := 10\<rparr>; now = 90000; g = exampleGroup [];
        lo = \<lparr>lo_balance = (\<lambda>_. None), lo_sub = (\<lambda>_ _. Some (subscriptionData sub)), lo_rate = None\<rparr>
    in fst (snd (ValidateAndCheckLimits now sub g)) = None \<and>
       fst (CheckBillingEligibility False (upEnv now) lo sampleUser None (Some g) (Some sub)
              \<lparr>el_service = emptyService, el_breaker = None\<rparr>) = (Some EligDailyLimit, False))"
proof -
  let ?sub = "sampleSub\<lparr>sb_ExpiresAt := 1000000, sb_DailyUsageUSD := 10\<rparr>"
  have "subscriptionUsable 90000 (exampleGroup []) ?sub"
    by (simp add: subscriptionUsable_def sampleSub_def exampleGroup_def withinCap_def windowUsage_def needsReset_def)
  moreover have "subscriptionVerdict 90000 (exampleGroup []) (subscriptionData ?sub) = Some EligDailyLimit"
    by (simp add: subscriptionVerdict_def subscriptionData_def exampleGroup_def sampleSub_def HasDailyLimit_def
        positiveLimit_def reachedLimit_def)
  ultimately show ?thesis
    by (simp add: ValidateAndCheckLimits_None CheckBillingEligibility_def meansCheck_def checkSubscriptionEligibility_def
        GetSubscriptionStatus_def cacheGetSubscriptionCache_def upEnv_def emptyService_def emptyStore_def live_def
        IsSubscriptionType_def exampleGroup_simps breakerSuccess_def Let_def split: prod.split)
qed

end
