(* ===== verification/Go_Values.thy ===== *)
theory Go_Values
  imports Prelude Complex_Main
begin

text \<open>
  Decoded JSON values as the Go program holds them (\<open>any\<close>, \<open>map[string]any\<close>), and what it
  uses of \<open>strconv\<close> and \<open>time\<close> to read them: \<open>ParseInt\<close> and \<open>Atoi\<close> (with their range), \<open>ParseFloat\<close>
  on decimal literals (not the hexadecimal, infinite and NaN ones), the conversion of a float
  to an integer (towards zero) and \<open>time.Parse\<close> with the layout RFC 3339.  Instants are
  nanoseconds since the Unix epoch.  A \<open>float64\<close> is the rational it denotes.
\<close>

section \<open>Values\<close>

datatype goany =
    GNil
  | GString gostr
  | GBool bool
  | GFloat rat
  | GInt int
  | GNumber gostr
  | GList "goany list"
  | GObject "(gostr \<times> goany) list"

type_synonym gomap = "(gostr \<times> goany) list"

text \<open>Lookup in a map that may be nil, with Go's \<open>v, ok := m[k]\<close>.\<close>

definition get :: "gomap option \<Rightarrow> gostr \<Rightarrow> goany option" where
  "get m k = (case m of None \<Rightarrow> None | Some xs \<Rightarrow> map_of xs k)"

lemma get_None [simp]: "get None k = None"
  by (simp add: get_def)

lemma get_Some [simp]: "get (Some xs) k = map_of xs k"
  by (simp add: get_def)

fun asBool :: "goany option \<Rightarrow> bool" where
  "asBool (Some (GBool b)) = b"
| "asBool _ = False"

fun asString :: "goany option \<Rightarrow> gostr" where
  "asString (Some (GString s)) = s"
| "asString _ = []"

section \<open>Decimal numerals\<close>

definition is_digit :: "char \<Rightarrow> bool" where
  "is_digit c = (48 \<le> (of_char c :: int) \<and> of_char c \<le> (57 :: int))"

definition digit_val :: "char \<Rightarrow> int" where
  "digit_val c = of_char c - 48"

definition dec_value :: "gostr \<Rightarrow> int" where
  "dec_value s = foldl (\<lambda>a c. a * 10 + digit_val c) 0 s"

fun split_sign :: "gostr \<Rightarrow> bool \<times> gostr" where
  "split_sign (c # s) = (if c = CHR ''-'' then (True, s) else if c = CHR ''+'' then (False, s) else (False, c # s))"
| "split_sign [] = (False, [])"

text \<open>\<open>strconv.ParseInt(s, 10, 64)\<close>, and \<open>strconv.Atoi\<close> where \<open>int\<close> has 64 bits.\<close>

definition parse_int :: "gostr \<Rightarrow> int option" where
  "parse_int s =
     (case split_sign s of (neg, ds) \<Rightarrow>
        if ds = [] \<or> \<not> list_all is_digit ds then None
        else let v = (if neg then - dec_value ds else dec_value ds)
             in if - (2 ^ 63) \<le> v \<and> v < 2 ^ 63 then Some v else None)"

fun parse_exponent :: "gostr \<Rightarrow> int option" where
  "parse_exponent [] = Some 0"
| "parse_exponent (c # s) =
     (if c = CHR ''e'' \<or> c = CHR ''E''
      then (case split_sign s of (neg, ds) \<Rightarrow>
              if ds = [] \<or> \<not> list_all is_digit ds then None
              else Some (if neg then - dec_value ds else dec_value ds))
      else None)"

definition scale10 :: "rat \<Rightarrow> int \<Rightarrow> rat" where
  "scale10 x e = (if 0 \<le> e then x * 10 ^ nat e else x / 10 ^ nat (- e))"

definition parse_float :: "gostr \<Rightarrow> rat option" where
  "parse_float s =
     (case split_sign s of (neg, s1) \<Rightarrow>
        let ip = takeWhile is_digit s1;
            r1 = dropWhile is_digit s1;
            (fp, r2) = (case r1 of
                c # t \<Rightarrow> if c = CHR ''.'' then (takeWhile is_digit t, dropWhile is_digit t) else ([], r1)
              | [] \<Rightarrow> ([], []))
        in if ip = [] \<and> fp = [] then None
           else (case parse_exponent r2 of
                   None \<Rightarrow> None
                 | Some e \<Rightarrow>
                     let v = scale10 (of_int (dec_value (ip @ fp))) (e - int (length fp))
                     in Some (if neg then - v else v)))"

text \<open>\<open>int(f)\<close> of a float.\<close>

definition trunc_rat :: "rat \<Rightarrow> int" where
  "trunc_rat x = (if x < 0 then - \<lfloor>- x\<rfloor> else \<lfloor>x\<rfloor>)"

lemma trunc_rat_of_int [simp]: "trunc_rat (of_int i) = i"
  by (simp add: trunc_rat_def flip: of_int_minus)

lemma trunc_rat_nonneg: "0 \<le> x \<Longrightarrow> 0 \<le> trunc_rat x \<and> of_int (trunc_rat x) \<le> x"
  by (simp add: trunc_rat_def)

section \<open>Instants\<close>

definition nanosecond :: int where "nanosecond = 1"
definition second :: int where "second = 1000000000"
definition minute :: int where "minute = 60000000000"
definition hour :: int where "hour = 3600000000000"
definition day :: int where "day = 86400000000000"

lemmas duration_defs = second_def minute_def hour_def day_def

text \<open>Days since 1 January 1970 of a date of the proleptic Gregorian calendar.\<close>

definition days_from_civil :: "int \<Rightarrow> int \<Rightarrow> int \<Rightarrow> int" where
  "days_from_civil y m d =
     (let y' = (if m \<le> 2 then y - 1 else y);
          doy = (153 * (if m > 2 then m - 3 else m + 9) + 2) div 5 + d - 1
      in y' * 365 + y' div 4 - y' div 100 + y' div 400 + doy - 719468)"

definition leap_year :: "int \<Rightarrow> bool" where
  "leap_year y = (y mod 4 = 0 \<and> (y mod 100 \<noteq> 0 \<or> y mod 400 = 0))"

definition days_in_month :: "int \<Rightarrow> int \<Rightarrow> int" where
  "days_in_month y m =
     (if m = 2 then (if leap_year y then 29 else 28)
      else if m \<in> {4, 6, 9, 11} then 30 else 31)"

text \<open>The zero value of \<open>time.Time\<close>: midnight of 1 January of the year 1, UTC.\<close>

definition zero_time :: time where
  "zero_time = -62135596800000000000"

lemma zero_time_civil: "zero_time = days_from_civil 1 1 1 * day"
  by (simp add: zero_time_def days_from_civil_def day_def)

definition num_field :: "nat \<Rightarrow> nat \<Rightarrow> gostr \<Rightarrow> int option" where
  "num_field i n s =
     (let f = take n (drop i s)
      in if length f = n \<and> list_all is_digit f then Some (dec_value f) else None)"

definition char_at :: "nat \<Rightarrow> char \<Rightarrow> gostr \<Rightarrow> bool" where
  "char_at i c s = (i < length s \<and> s ! i = c)"

text \<open>The zone after the seconds: \<open>Z\<close> or a signed offset, in nanoseconds east of UTC.\<close>

definition parse_zone :: "gostr \<Rightarrow> int option" where
  "parse_zone z =
     (if z = ''Z'' then Some 0
      else if length z = 6 \<and> (char_at 0 (CHR ''+'') z \<or> char_at 0 (CHR ''-'') z) \<and> char_at 3 (CHR '':'') z
      then (case (num_field 1 2 z, num_field 4 2 z) of
              (Some h, Some m) \<Rightarrow>
                if h < 24 \<and> m < 60
                then Some ((if char_at 0 (CHR ''-'') z then -1 else 1) * (h * hour + m * minute))
                else None
            | _ \<Rightarrow> None)
      else None)"

text \<open>A fraction of a second: a point and digits, of which the first nine count.\<close>

definition parse_fraction :: "gostr \<Rightarrow> int \<times> gostr" where
  "parse_fraction s =
     (case s of
        c # t \<Rightarrow>
          if c = CHR ''.'' \<and> takeWhile is_digit t \<noteq> []
          then let ds = take 9 (takeWhile is_digit t)
               in (dec_value ds * 10 ^ (9 - length ds), dropWhile is_digit t)
          else (0, s)
      | [] \<Rightarrow> (0, []))"

text \<open>
  \<open>time.Parse(time.RFC3339, s)\<close> (and \<open>RFC3339Nano\<close>, which accepts the same strings), in the
  form the standard prescribes.
\<close>

definition parse_rfc3339 :: "gostr \<Rightarrow> time option" where
  "parse_rfc3339 s =
     (case (num_field 0 4 s, num_field 5 2 s, num_field 8 2 s, num_field 11 2 s, num_field 14 2 s, num_field 17 2 s) of
        (Some y, Some mo, Some d, Some h, Some mi, Some se) \<Rightarrow>
          if char_at 4 (CHR ''-'') s \<and> char_at 7 (CHR ''-'') s \<and> char_at 10 (CHR ''T'') s \<and>
             char_at 13 (CHR '':'') s \<and> char_at 16 (CHR '':'') s \<and>
             1 \<le> mo \<and> mo \<le> 12 \<and> 1 \<le> d \<and> d \<le> days_in_month y mo \<and> h < 24 \<and> mi < 60 \<and> se < 60
          then (case parse_fraction (drop 19 s) of (fr, z) \<Rightarrow>
                  (case parse_zone z of
                     None \<Rightarrow> None
                   | Some off \<Rightarrow>
                       Some (days_from_civil y mo d * day + h * hour + mi * minute + se * second + fr - off)))
          else None
      | _ \<Rightarrow> None)"

section \<open>Civil time in a location\<close>

text \<open>
  A \<open>time.Location\<close> comes from the time zone database.  It is given by the day number and the
  clock that it shows at an instant, and by \<open>time.Date\<close>, the instant of a clock time on a day
  (the day number may be any integer, as \<open>AddDate\<close> normalises).
\<close>

record location =
  loc_day :: "time \<Rightarrow> int"
  loc_clock :: "time \<Rightarrow> int"
  loc_date :: "int \<Rightarrow> int \<Rightarrow> time"

definition UTC :: location where
  "UTC = \<lparr>loc_day = (\<lambda>t. t div day), loc_clock = (\<lambda>t. t mod day), loc_date = (\<lambda>d c. d * day + c)\<rparr>"

definition AddDays :: "location \<Rightarrow> time \<Rightarrow> int \<Rightarrow> time" where
  "AddDays tz t n = loc_date tz (loc_day tz t + n) (loc_clock tz t)"

text \<open>0 is Sunday; day 0 of the epoch was a Thursday.\<close>

definition Weekday :: "location \<Rightarrow> time \<Rightarrow> int" where
  "Weekday tz t = (loc_day tz t + 4) mod 7"

end
