(* ===== verification/Account.thy ===== *)
theory Account
  imports Go_Values
begin

text \<open>
  Upstream accounts (\<open>internal/service/account.go\<close>): the record, what is parsed out of its
  \<open>Credentials\<close> and \<open>Extra\<close>, and the predicates the scheduler decides on: availability, quota,
  the cost of the current window, requests per minute, sessions.  \<open>now\<close> is the clock in
  nanoseconds; a \<open>*Account\<close> that may be nil is an option only where the code tests for it.
  Accessors that only feed request headers, display fields, the proxy and the cache of the
  parsed model mapping (which never changes the result) are left out.
\<close>

section \<open>The record\<close>

definition PlatformAnthropic :: gostr where "PlatformAnthropic = ''anthropic''"
definition PlatformOpenAI :: gostr where "PlatformOpenAI = ''openai''"
definition PlatformGemini :: gostr where "PlatformGemini = ''gemini''"
definition PlatformAntigravity :: gostr where "PlatformAntigravity = ''antigravity''"

definition AccountTypeOAuth :: gostr where "AccountTypeOAuth = ''oauth''"
definition AccountTypeSetupToken :: gostr where "AccountTypeSetupToken = ''setup-token''"
definition AccountTypeAPIKey :: gostr where "AccountTypeAPIKey = ''apikey''"
definition AccountTypeBedrock :: gostr where "AccountTypeBedrock = ''bedrock''"

definition StatusActive :: gostr where "StatusActive = ''active''"
definition StatusDisabled :: gostr where "StatusDisabled = ''disabled''"
definition StatusError :: gostr where "StatusError = ''error''"

lemmas platform_defs =
  PlatformAnthropic_def PlatformOpenAI_def PlatformGemini_def PlatformAntigravity_def
lemmas account_type_defs =
  AccountTypeOAuth_def AccountTypeSetupToken_def AccountTypeAPIKey_def AccountTypeBedrock_def

record Account =
  act_ID :: int64
  act_Platform :: gostr
  act_Type :: gostr
  act_Credentials :: "gomap option"
  act_Extra :: "gomap option"
  act_Concurrency :: int
  act_Priority :: int
  act_RateMultiplier :: "rat option"
  act_LoadFactor :: "int option"
  act_Status :: gostr
  act_LastUsedAt :: "time option"
  act_ExpiresAt :: "time option"
  act_AutoPauseOnExpired :: bool
  act_Schedulable :: bool
  act_RateLimitResetAt :: "time option"
  act_OverloadUntil :: "time option"
  act_TempUnschedulableUntil :: "time option"
  act_SessionWindowStart :: "time option"
  act_SessionWindowEnd :: "time option"
  act_AccountGroups :: "int64 list"

section \<open>Availability\<close>

definition accountIsActive :: "Account \<Rightarrow> bool" where
  "accountIsActive a = (act_Status a = StatusActive)"

definition BillingRateMultiplier :: "Account option \<Rightarrow> rat" where
  "BillingRateMultiplier acc =
     (case acc of
        None \<Rightarrow> 1
      | Some a \<Rightarrow> (case act_RateMultiplier a of None \<Rightarrow> 1 | Some m \<Rightarrow> if m < 0 then 1 else m))"

definition EffectiveLoadFactor :: "Account option \<Rightarrow> int" where
  "EffectiveLoadFactor acc =
     (case acc of
        None \<Rightarrow> 1
      | Some a \<Rightarrow>
          (case act_LoadFactor a of
             Some f \<Rightarrow> if f > 0 then f else if act_Concurrency a > 0 then act_Concurrency a else 1
           | None \<Rightarrow> if act_Concurrency a > 0 then act_Concurrency a else 1))"

text \<open>\<open>t != nil && now.Before(*t)\<close>.\<close>

definition pending :: "time \<Rightarrow> time option \<Rightarrow> bool" where
  "pending now t = (case t of None \<Rightarrow> False | Some u \<Rightarrow> now < u)"

definition IsSchedulable :: "time \<Rightarrow> Account \<Rightarrow> bool" where
  "IsSchedulable now a =
     (if \<not> accountIsActive a \<or> \<not> act_Schedulable a then False
      else if act_AutoPauseOnExpired a \<and> act_ExpiresAt a \<noteq> None \<and> \<not> pending now (act_ExpiresAt a) then False
      else if pending now (act_OverloadUntil a) then False
      else if pending now (act_RateLimitResetAt a) then False
      else if pending now (act_TempUnschedulableUntil a) then False
      else True)"

definition IsRateLimited :: "time \<Rightarrow> Account \<Rightarrow> bool" where
  "IsRateLimited now a = pending now (act_RateLimitResetAt a)"

definition IsOverloaded :: "time \<Rightarrow> Account \<Rightarrow> bool" where
  "IsOverloaded now a = pending now (act_OverloadUntil a)"

definition IsOAuth :: "Account \<Rightarrow> bool" where
  "IsOAuth a = (act_Type a = AccountTypeOAuth \<or> act_Type a = AccountTypeSetupToken)"

definition IsBedrock :: "Account \<Rightarrow> bool" where
  "IsBedrock a = (act_Platform a = PlatformAnthropic \<and> act_Type a = AccountTypeBedrock)"

definition IsAPIKeyOrBedrock :: "Account \<Rightarrow> bool" where
  "IsAPIKeyOrBedrock a = (act_Type a = AccountTypeAPIKey \<or> act_Type a = AccountTypeBedrock)"

definition IsAnthropicOAuthOrSetupToken :: "Account \<Rightarrow> bool" where
  "IsAnthropicOAuthOrSetupToken a =
     (act_Platform a = PlatformAnthropic \<and> (act_Type a = AccountTypeOAuth \<or> act_Type a = AccountTypeSetupToken))"

section \<open>Reading \<open>Credentials\<close> and \<open>Extra\<close>\<close>

fun goany_string :: "goany option \<Rightarrow> gostr" where
  "goany_string (Some (GString s)) = s"
| "goany_string (Some (GNumber s)) = s"
| "goany_string (Some (GFloat x)) = format_int (trunc_rat x)"
| "goany_string (Some (GInt i)) = format_int i"
| "goany_string _ = []"

definition GetCredential :: "Account \<Rightarrow> gostr \<Rightarrow> gostr" where
  "GetCredential a key = goany_string (get (act_Credentials a) key)"

fun parseExtraFloat64 :: "goany \<Rightarrow> rat" where
  "parseExtraFloat64 (GFloat x) = x"
| "parseExtraFloat64 (GInt i) = of_int i"
| "parseExtraFloat64 (GNumber s) = (case parse_float s of Some x \<Rightarrow> x | None \<Rightarrow> 0)"
| "parseExtraFloat64 (GString s) = (case parse_float (trim_space s) of Some x \<Rightarrow> x | None \<Rightarrow> 0)"
| "parseExtraFloat64 _ = 0"

text \<open>The same switch with the value for what cannot be read: 0 in \<open>parseExtraInt\<close> and
  \<open>parseTempUnschedInt\<close>, the default in \<open>parsePoolModeRetryCount\<close>.\<close>

fun any_int :: "int \<Rightarrow> goany \<Rightarrow> int" where
  "any_int d (GInt i) = i"
| "any_int d (GFloat x) = trunc_rat x"
| "any_int d (GNumber s) = (case parse_int s of Some i \<Rightarrow> i | None \<Rightarrow> d)"
| "any_int d (GString s) = (case parse_int (trim_space s) of Some i \<Rightarrow> i | None \<Rightarrow> d)"
| "any_int d _ = d"

definition parseExtraInt :: "goany \<Rightarrow> int" where
  "parseExtraInt v = any_int 0 v"

definition getExtraFloat64 :: "Account \<Rightarrow> gostr \<Rightarrow> rat" where
  "getExtraFloat64 a key = (case get (act_Extra a) key of Some v \<Rightarrow> parseExtraFloat64 v | None \<Rightarrow> 0)"

definition getExtraTime :: "Account \<Rightarrow> gostr \<Rightarrow> time" where
  "getExtraTime a key =
     (case get (act_Extra a) key of
        Some (GString s) \<Rightarrow> (case parse_rfc3339 s of Some t \<Rightarrow> t | None \<Rightarrow> zero_time)
      | _ \<Rightarrow> zero_time)"

definition getExtraString :: "Account \<Rightarrow> gostr \<Rightarrow> gostr" where
  "getExtraString a key = asString (get (act_Extra a) key)"

definition getExtraInt :: "Account \<Rightarrow> gostr \<Rightarrow> int" where
  "getExtraInt a key =
     (case get (act_Extra a) key of Some v \<Rightarrow> trunc_rat (parseExtraFloat64 v) | None \<Rightarrow> 0)"

definition IsPrivacySet :: "Account \<Rightarrow> bool" where
  "IsPrivacySet a =
     (if act_Platform a = PlatformOpenAI then getExtraString a ''privacy_mode'' = ''training_off''
      else if act_Platform a = PlatformAntigravity then getExtraString a ''privacy_mode'' = ''privacy_set''
      else True)"

definition IsMixedSchedulingEnabled :: "Account \<Rightarrow> bool" where
  "IsMixedSchedulingEnabled a =
     (act_Platform a = PlatformAntigravity \<and> asBool (get (act_Extra a) ''mixed_scheduling''))"

definition IsOveragesEnabled :: "Account \<Rightarrow> bool" where
  "IsOveragesEnabled a =
     (act_Platform a = PlatformAntigravity \<and> asBool (get (act_Extra a) ''allow_overages''))"

section \<open>Quota\<close>

definition GetQuotaLimit :: "Account \<Rightarrow> rat" where "GetQuotaLimit a = getExtraFloat64 a ''quota_limit''"
definition GetQuotaUsed :: "Account \<Rightarrow> rat" where "GetQuotaUsed a = getExtraFloat64 a ''quota_used''"
definition GetQuotaDailyLimit :: "Account \<Rightarrow> rat" where "GetQuotaDailyLimit a = getExtraFloat64 a ''quota_daily_limit''"
definition GetQuotaDailyUsed :: "Account \<Rightarrow> rat" where "GetQuotaDailyUsed a = getExtraFloat64 a ''quota_daily_used''"
definition GetQuotaWeeklyLimit :: "Account \<Rightarrow> rat" where "GetQuotaWeeklyLimit a = getExtraFloat64 a ''quota_weekly_limit''"
definition GetQuotaWeeklyUsed :: "Account \<Rightarrow> rat" where "GetQuotaWeeklyUsed a = getExtraFloat64 a ''quota_weekly_used''"

definition HasAnyQuotaLimit :: "Account \<Rightarrow> bool" where
  "HasAnyQuotaLimit a = (GetQuotaLimit a > 0 \<or> GetQuotaDailyLimit a > 0 \<or> GetQuotaWeeklyLimit a > 0)"

definition GetQuotaDailyResetMode :: "Account \<Rightarrow> gostr" where
  "GetQuotaDailyResetMode a = (if getExtraString a ''quota_daily_reset_mode'' = ''fixed'' then ''fixed'' else ''rolling'')"

definition GetQuotaDailyResetHour :: "Account \<Rightarrow> int" where
  "GetQuotaDailyResetHour a = getExtraInt a ''quota_daily_reset_hour''"

definition GetQuotaWeeklyResetMode :: "Account \<Rightarrow> gostr" where
  "GetQuotaWeeklyResetMode a = (if getExtraString a ''quota_weekly_reset_mode'' = ''fixed'' then ''fixed'' else ''rolling'')"

definition GetQuotaWeeklyResetDay :: "Account \<Rightarrow> int" where
  "GetQuotaWeeklyResetDay a =
     (if get (act_Extra a) ''quota_weekly_reset_day'' = None then 1 else getExtraInt a ''quota_weekly_reset_day'')"

definition GetQuotaWeeklyResetHour :: "Account \<Rightarrow> int" where
  "GetQuotaWeeklyResetHour a = getExtraInt a ''quota_weekly_reset_hour''"

definition GetQuotaResetTimezone :: "Account \<Rightarrow> gostr" where
  "GetQuotaResetTimezone a =
     (let tz = getExtraString a ''quota_reset_timezone'' in if tz \<noteq> [] then tz else ''UTC'')"

definition nextFixedDailyReset :: "int \<Rightarrow> location \<Rightarrow> time \<Rightarrow> time" where
  "nextFixedDailyReset h tz after =
     (let today = loc_date tz (loc_day tz after) (h * hour)
      in if \<not> after < today then AddDays tz today 1 else today)"

definition lastFixedDailyReset :: "int \<Rightarrow> location \<Rightarrow> time \<Rightarrow> time" where
  "lastFixedDailyReset h tz now =
     (let today = loc_date tz (loc_day tz now) (h * hour)
      in if now < today then AddDays tz today (-1) else today)"

text \<open>
  Go's \<open>%\<close> takes the sign of the dividend; with a week day between 0 and 6 on both sides the
  dividends here are positive for a configured day up to 7 and may be negative beyond.
\<close>

definition go_mod :: "int \<Rightarrow> int \<Rightarrow> int" where
  "go_mod a b = a - b * trunc_div a b"

definition nextFixedWeeklyReset :: "int \<Rightarrow> int \<Rightarrow> location \<Rightarrow> time \<Rightarrow> time" where
  "nextFixedWeeklyReset d h tz after =
     (let todayReset = loc_date tz (loc_day tz after) (h * hour);
          forward = go_mod (d - Weekday tz todayReset + 7) 7;
          daysForward = (if forward = 0 \<and> \<not> after < todayReset then 7 else forward)
      in AddDays tz todayReset daysForward)"

definition lastFixedWeeklyReset :: "int \<Rightarrow> int \<Rightarrow> location \<Rightarrow> time \<Rightarrow> time" where
  "lastFixedWeeklyReset d h tz now =
     (let todayReset = loc_date tz (loc_day tz now) (h * hour);
          back = go_mod (Weekday tz todayReset - d + 7) 7;
          daysBack = (if back = 0 \<and> now < todayReset then 7 else back)
      in AddDays tz todayReset (- daysBack))"

text \<open>\<open>tzdb\<close> is \<open>time.LoadLocation\<close>.\<close>

definition resetLocation :: "(gostr \<Rightarrow> location option) \<Rightarrow> gostr \<Rightarrow> location" where
  "resetLocation tzdb name = (case tzdb name of Some tz \<Rightarrow> tz | None \<Rightarrow> UTC)"

definition isFixedDailyPeriodExpired :: "(gostr \<Rightarrow> location option) \<Rightarrow> time \<Rightarrow> Account \<Rightarrow> time \<Rightarrow> bool" where
  "isFixedDailyPeriodExpired tzdb now a periodStart =
     (if periodStart = zero_time then True
      else periodStart < lastFixedDailyReset (GetQuotaDailyResetHour a)
                           (resetLocation tzdb (GetQuotaResetTimezone a)) now)"

definition isFixedWeeklyPeriodExpired :: "(gostr \<Rightarrow> location option) \<Rightarrow> time \<Rightarrow> Account \<Rightarrow> time \<Rightarrow> bool" where
  "isFixedWeeklyPeriodExpired tzdb now a periodStart =
     (if periodStart = zero_time then True
      else periodStart < lastFixedWeeklyReset (GetQuotaWeeklyResetDay a) (GetQuotaWeeklyResetHour a)
                           (resetLocation tzdb (GetQuotaResetTimezone a)) now)"

definition isPeriodExpired :: "time \<Rightarrow> time \<Rightarrow> int \<Rightarrow> bool" where
  "isPeriodExpired now periodStart dur = (if periodStart = zero_time then True else now - periodStart \<ge> dur)"

definition IsDailyQuotaPeriodExpired :: "(gostr \<Rightarrow> location option) \<Rightarrow> time \<Rightarrow> Account \<Rightarrow> bool" where
  "IsDailyQuotaPeriodExpired tzdb now a =
     (let start = getExtraTime a ''quota_daily_start''
      in if GetQuotaDailyResetMode a = ''fixed'' then isFixedDailyPeriodExpired tzdb now a start
         else isPeriodExpired now start (24 * hour))"

definition IsWeeklyQuotaPeriodExpired :: "(gostr \<Rightarrow> location option) \<Rightarrow> time \<Rightarrow> Account \<Rightarrow> bool" where
  "IsWeeklyQuotaPeriodExpired tzdb now a =
     (let start = getExtraTime a ''quota_weekly_start''
      in if GetQuotaWeeklyResetMode a = ''fixed'' then isFixedWeeklyPeriodExpired tzdb now a start
         else isPeriodExpired now start (7 * 24 * hour))"

definition IsQuotaExceeded :: "(gostr \<Rightarrow> location option) \<Rightarrow> time \<Rightarrow> Account \<Rightarrow> bool" where
  "IsQuotaExceeded tzdb now a =
     (if GetQuotaLimit a > 0 \<and> GetQuotaUsed a \<ge> GetQuotaLimit a then True
      else if GetQuotaDailyLimit a > 0 \<and> \<not> IsDailyQuotaPeriodExpired tzdb now a \<and>
              GetQuotaDailyUsed a \<ge> GetQuotaDailyLimit a then True
      else if GetQuotaWeeklyLimit a > 0 \<and> \<not> IsWeeklyQuotaPeriodExpired tzdb now a \<and>
              GetQuotaWeeklyUsed a \<ge> GetQuotaWeeklyLimit a then True
      else False)"

text \<open>
  \<open>ComputeQuotaResetAt\<close> and \<open>ValidateQuotaResetConfig\<close>, run when a configuration is saved; the
  stored reset time is the instant itself (\<open>Format\<close> and the JSON column are not modelled).
\<close>

definition extra_float :: "gomap \<Rightarrow> gostr \<Rightarrow> rat" where
  "extra_float m k = (case map_of m k of Some v \<Rightarrow> parseExtraFloat64 v | None \<Rightarrow> 0)"

definition in_range_or :: "int \<Rightarrow> int \<Rightarrow> int \<Rightarrow> int \<Rightarrow> int" where
  "in_range_or lo hi d x = (if x < lo \<or> x > hi then d else x)"

definition dailyResetAt :: "(gostr \<Rightarrow> location option) \<Rightarrow> time \<Rightarrow> gomap \<Rightarrow> time option" where
  "dailyResetAt tzdb now extra =
     (let name = asString (map_of extra ''quota_reset_timezone'');
          tz = resetLocation tzdb (if name = [] then ''UTC'' else name)
      in if asString (map_of extra ''quota_daily_reset_mode'') = ''fixed''
         then Some (nextFixedDailyReset (in_range_or 0 23 0 (trunc_rat (extra_float extra ''quota_daily_reset_hour''))) tz now)
         else None)"

definition weeklyResetAt :: "(gostr \<Rightarrow> location option) \<Rightarrow> time \<Rightarrow> gomap \<Rightarrow> time option" where
  "weeklyResetAt tzdb now extra =
     (let name = asString (map_of extra ''quota_reset_timezone'');
          tz = resetLocation tzdb (if name = [] then ''UTC'' else name);
          d = (case map_of extra ''quota_weekly_reset_day'' of Some v \<Rightarrow> trunc_rat (parseExtraFloat64 v) | None \<Rightarrow> 1)
      in if asString (map_of extra ''quota_weekly_reset_mode'') = ''fixed''
         then Some (nextFixedWeeklyReset (in_range_or 0 6 1 d)
                      (in_range_or 0 23 0 (trunc_rat (extra_float extra ''quota_weekly_reset_hour''))) tz now)
         else None)"

datatype quota_config_error =
  InvalidTimezone | InvalidDailyMode | InvalidDailyHour | InvalidWeeklyMode | InvalidWeeklyDay | InvalidWeeklyHour

definition string_ok :: "goany option \<Rightarrow> (gostr \<Rightarrow> bool) \<Rightarrow> bool" where
  "string_ok v p = (case v of Some (GString s) \<Rightarrow> p s | _ \<Rightarrow> True)"

definition field_in :: "gomap \<Rightarrow> gostr \<Rightarrow> int \<Rightarrow> int \<Rightarrow> bool" where
  "field_in m k lo hi =
     (case map_of m k of
        Some v \<Rightarrow> lo \<le> trunc_rat (parseExtraFloat64 v) \<and> trunc_rat (parseExtraFloat64 v) \<le> hi
      | None \<Rightarrow> True)"

definition ValidateQuotaResetConfig :: "(gostr \<Rightarrow> location option) \<Rightarrow> gomap option \<Rightarrow> quota_config_error option" where
  "ValidateQuotaResetConfig tzdb extra =
     (case extra of
        None \<Rightarrow> None
      | Some m \<Rightarrow>
          if \<not> string_ok (map_of m ''quota_reset_timezone'') (\<lambda>tz. tz = [] \<or> tzdb tz \<noteq> None) then Some InvalidTimezone
          else if \<not> string_ok (map_of m ''quota_daily_reset_mode'') (\<lambda>s. s = ''rolling'' \<or> s = ''fixed'') then Some InvalidDailyMode
          else if \<not> field_in m ''quota_daily_reset_hour'' 0 23 then Some InvalidDailyHour
          else if \<not> string_ok (map_of m ''quota_weekly_reset_mode'') (\<lambda>s. s = ''rolling'' \<or> s = ''fixed'') then Some InvalidWeeklyMode
          else if \<not> field_in m ''quota_weekly_reset_day'' 0 6 then Some InvalidWeeklyDay
          else if \<not> field_in m ''quota_weekly_reset_hour'' 0 23 then Some InvalidWeeklyHour
          else None)"

section \<open>Window cost, requests per minute and sessions\<close>

datatype WindowCostSchedulability = WindowCostSchedulable | WindowCostStickyOnly | WindowCostNotSchedulable

definition extra_positive :: "Account \<Rightarrow> gostr \<Rightarrow> int \<Rightarrow> int" where
  "extra_positive a key d =
     (case get (act_Extra a) key of Some v \<Rightarrow> if parseExtraInt v > 0 then parseExtraInt v else d | None \<Rightarrow> d)"

definition GetWindowCostLimit :: "Account \<Rightarrow> rat" where
  "GetWindowCostLimit a = (case get (act_Extra a) ''window_cost_limit'' of Some v \<Rightarrow> parseExtraFloat64 v | None \<Rightarrow> 0)"

definition GetWindowCostStickyReserve :: "Account \<Rightarrow> rat" where
  "GetWindowCostStickyReserve a =
     (case get (act_Extra a) ''window_cost_sticky_reserve'' of
        Some v \<Rightarrow> if parseExtraFloat64 v > 0 then parseExtraFloat64 v else 10
      | None \<Rightarrow> 10)"

definition GetMaxSessions :: "Account \<Rightarrow> int" where
  "GetMaxSessions a = (case get (act_Extra a) ''max_sessions'' of Some v \<Rightarrow> parseExtraInt v | None \<Rightarrow> 0)"

definition GetSessionIdleTimeoutMinutes :: "Account \<Rightarrow> int" where
  "GetSessionIdleTimeoutMinutes a = extra_positive a ''session_idle_timeout_minutes'' 5"

definition GetBaseRPM :: "Account \<Rightarrow> int" where
  "GetBaseRPM a = extra_positive a ''base_rpm'' 0"

definition GetRPMStrategy :: "Account \<Rightarrow> gostr" where
  "GetRPMStrategy a = (if getExtraString a ''rpm_strategy'' = ''sticky_exempt'' then ''sticky_exempt'' else ''tiered'')"

definition GetRPMStickyBuffer :: "Account \<Rightarrow> int" where
  "GetRPMStickyBuffer a =
     (if act_Extra a = None then 0
      else if extra_positive a ''rpm_sticky_buffer'' 0 > 0 then extra_positive a ''rpm_sticky_buffer'' 0
      else let base = GetBaseRPM a
           in if base \<le> 0 then 0
              else let buffer = max 0 (act_Concurrency a) + max 0 (GetMaxSessions a);
                       fl = (if trunc_div base 5 < 1 then 1 else trunc_div base 5)
                   in if buffer < fl then fl else buffer)"

definition CheckRPMSchedulability :: "Account \<Rightarrow> int \<Rightarrow> WindowCostSchedulability" where
  "CheckRPMSchedulability a currentRPM =
     (let baseRPM = GetBaseRPM a
      in if baseRPM \<le> 0 then WindowCostSchedulable
         else if currentRPM < baseRPM then WindowCostSchedulable
         else if GetRPMStrategy a = ''sticky_exempt'' then WindowCostStickyOnly
         else if currentRPM < baseRPM + GetRPMStickyBuffer a then WindowCostStickyOnly
         else WindowCostNotSchedulable)"

definition CheckWindowCostSchedulability :: "Account \<Rightarrow> rat \<Rightarrow> WindowCostSchedulability" where
  "CheckWindowCostSchedulability a currentWindowCost =
     (let limit = GetWindowCostLimit a
      in if limit \<le> 0 then WindowCostSchedulable
         else if currentWindowCost < limit then WindowCostSchedulable
         else if currentWindowCost < limit + GetWindowCostStickyReserve a then WindowCostStickyOnly
         else WindowCostNotSchedulable)"

text \<open>\<open>loc\<close> is the local zone of the process.\<close>

definition GetCurrentWindowStartTime :: "location \<Rightarrow> time \<Rightarrow> Account \<Rightarrow> time" where
  "GetCurrentWindowStartTime loc now a =
     (case (act_SessionWindowStart a, pending now (act_SessionWindowEnd a)) of
        (Some s, True) \<Rightarrow> s
      | _ \<Rightarrow> loc_date loc (loc_day loc now) (loc_clock loc now div hour * hour))"

section \<open>Errors of the upstream\<close>

definition IsCustomErrorCodesEnabled :: "Account \<Rightarrow> bool" where
  "IsCustomErrorCodesEnabled a =
     (act_Type a = AccountTypeAPIKey \<and> asBool (get (act_Credentials a) ''custom_error_codes_enabled''))"

definition IsPoolMode :: "Account \<Rightarrow> bool" where
  "IsPoolMode a = (IsAPIKeyOrBedrock a \<and> asBool (get (act_Credentials a) ''pool_mode''))"

definition defaultPoolModeRetryCount :: int where "defaultPoolModeRetryCount = 3"
definition maxPoolModeRetryCount :: int where "maxPoolModeRetryCount = 10"

definition GetPoolModeRetryCount :: "Account option \<Rightarrow> int" where
  "GetPoolModeRetryCount acc =
     (case acc of
        None \<Rightarrow> defaultPoolModeRetryCount
      | Some a \<Rightarrow>
          if \<not> IsPoolMode a then defaultPoolModeRetryCount
          else (case get (act_Credentials a) ''pool_mode_retry_count'' of
                  None \<Rightarrow> defaultPoolModeRetryCount
                | Some raw \<Rightarrow>
                    if raw = GNil then defaultPoolModeRetryCount
                    else let count = any_int defaultPoolModeRetryCount raw
                         in if count < 0 then 0
                            else if count > maxPoolModeRetryCount then maxPoolModeRetryCount else count))"

definition isPoolModeRetryableStatus :: "int \<Rightarrow> bool" where
  "isPoolModeRetryableStatus statusCode = (statusCode = 401 \<or> statusCode = 403 \<or> statusCode = 429)"

fun float_of :: "goany \<Rightarrow> int list" where
  "float_of (GFloat x) = [trunc_rat x]"
| "float_of _ = []"

fun float_list :: "goany option \<Rightarrow> int list" where
  "float_list (Some (GList vs)) = concat (map float_of vs)"
| "float_list _ = []"

definition GetCustomErrorCodes :: "Account \<Rightarrow> int list" where
  "GetCustomErrorCodes a = float_list (get (act_Credentials a) ''custom_error_codes'')"

definition ShouldHandleErrorCode :: "Account \<Rightarrow> int \<Rightarrow> bool" where
  "ShouldHandleErrorCode a statusCode =
     (if \<not> IsCustomErrorCodesEnabled a then True
      else if GetCustomErrorCodes a = [] then True
      else statusCode \<in> set (GetCustomErrorCodes a))"

definition IsTempUnschedulableEnabled :: "Account \<Rightarrow> bool" where
  "IsTempUnschedulableEnabled a = asBool (get (act_Credentials a) ''temp_unschedulable_enabled'')"

record TempUnschedulableRule =
  tr_ErrorCode :: int
  tr_Keywords :: "gostr list"
  tr_DurationMinutes :: int
  tr_Description :: gostr

definition parseTempUnschedInt :: "goany option \<Rightarrow> int" where
  "parseTempUnschedInt v = (case v of Some w \<Rightarrow> any_int 0 w | None \<Rightarrow> 0)"

definition parseTempUnschedString :: "goany option \<Rightarrow> gostr" where
  "parseTempUnschedString v = trim_space (asString v)"

fun string_of :: "goany \<Rightarrow> gostr list" where
  "string_of (GString s) = [s]"
| "string_of _ = []"

fun parseTempUnschedStrings :: "goany option \<Rightarrow> gostr list" where
  "parseTempUnschedStrings (Some (GList vs)) =
     filter (\<lambda>s. s \<noteq> []) (map trim_space (concat (map string_of vs)))"
| "parseTempUnschedStrings _ = []"

fun parseTempUnschedRule :: "goany \<Rightarrow> TempUnschedulableRule list" where
  "parseTempUnschedRule (GObject entry) =
     (let rule = \<lparr>tr_ErrorCode = parseTempUnschedInt (map_of entry ''error_code''),
                  tr_Keywords = parseTempUnschedStrings (map_of entry ''keywords''),
                  tr_DurationMinutes = parseTempUnschedInt (map_of entry ''duration_minutes''),
                  tr_Description = parseTempUnschedString (map_of entry ''description'')\<rparr>
      in if tr_ErrorCode rule \<le> 0 \<or> tr_DurationMinutes rule \<le> 0 \<or> tr_Keywords rule = [] then [] else [rule])"
| "parseTempUnschedRule _ = []"

fun temp_rules :: "goany option \<Rightarrow> TempUnschedulableRule list" where
  "temp_rules (Some (GList items)) = concat (map parseTempUnschedRule items)"
| "temp_rules _ = []"

definition GetTempUnschedulableRules :: "Account \<Rightarrow> TempUnschedulableRule list" where
  "GetTempUnschedulableRules a = temp_rules (get (act_Credentials a) ''temp_unschedulable_rules'')"

section \<open>A plain account\<close>

text \<open>An active account without limits, credentials or history, for the examples.\<close>

definition plainAccount :: "int64 \<Rightarrow> gostr \<Rightarrow> gostr \<Rightarrow> Account" where
  "plainAccount i platform typ =
     \<lparr>act_ID = i, act_Platform = platform, act_Type = typ, act_Credentials = None, act_Extra = None,
      act_Concurrency = 1, act_Priority = 1, act_RateMultiplier = None, act_LoadFactor = None,
      act_Status = StatusActive, act_LastUsedAt = None, act_ExpiresAt = None, act_AutoPauseOnExpired = False,
      act_Schedulable = True, act_RateLimitResetAt = None, act_OverloadUntil = None,
      act_TempUnschedulableUntil = None, act_SessionWindowStart = None, act_SessionWindowEnd = None,
      act_AccountGroups = []\<rparr>"

lemma plainAccount_ID [simp]: "act_ID (plainAccount i platform typ) = i"
  by (simp add: plainAccount_def)

end
