(* ===== verification/Go_Strings.thy ===== *)
theory Go_Strings
  imports Prelude
begin

text \<open>
  More of Go's package \<open>strings\<close>: searching, splitting, joining and replacing, as the pricing code uses
  it on model names.  Case mapping is that of ASCII; names of models are ASCII.
\<close>

definition to_lower :: "gostr \<Rightarrow> gostr" where
  "to_lower s = map ascii_lower s"

lemma to_lower_Nil [simp]: "to_lower [] = []"
  by (simp add: to_lower_def)

lemma to_lower_eq_Nil [simp]: "to_lower s = [] \<longleftrightarrow> s = []"
  by (simp add: to_lower_def)

lemma to_lower_append [simp]: "to_lower (s @ t) = to_lower s @ to_lower t"
  by (simp add: to_lower_def)

lemma ascii_lower_idem [simp]: "ascii_lower (ascii_lower c) = ascii_lower c"
proof (cases "65 \<le> (of_char c :: nat) \<and> of_char c \<le> (90::nat)")
  case True
  then have "(of_char (char_of (of_char c + 32 :: nat)) :: nat) = of_char c + 32"
    by simp
  with True show ?thesis
    by (simp add: ascii_lower_def)
qed (auto simp: ascii_lower_def)

lemma to_lower_idem [simp]: "to_lower (to_lower s) = to_lower s"
  by (simp add: to_lower_def)

lemma ascii_lower_star: "ascii_lower c = CHR ''*'' \<longleftrightarrow> c = CHR ''*''"
proof
  assume l: "ascii_lower c = CHR ''*''"
  show "c = CHR ''*''"
  proof (cases "65 \<le> (of_char c :: nat) \<and> of_char c \<le> (90::nat)")
    case True
    then have "(of_char (ascii_lower c) :: nat) = of_char c + 32"
      by (simp add: ascii_lower_def)
    with l True show ?thesis by simp
  next
    case False
    with l show ?thesis by (auto simp: ascii_lower_def split: if_splits)
  qed
next
  assume "c = CHR ''*''"
  then show "ascii_lower c = CHR ''*''" by (simp add: ascii_lower_def)
qed

definition has_suffix :: "gostr \<Rightarrow> gostr \<Rightarrow> bool" where
  "has_suffix s t = suffix t s"

definition trim_prefix :: "gostr \<Rightarrow> gostr \<Rightarrow> gostr" where
  "trim_prefix s p = (if prefix p s then drop (length p) s else s)"

definition trim_suffix :: "gostr \<Rightarrow> gostr \<Rightarrow> gostr" where
  "trim_suffix s t = (if suffix t s then take (length s - length t) s else s)"

fun contains :: "gostr \<Rightarrow> gostr \<Rightarrow> bool" where
  "contains [] p = (p = [])"
| "contains (c # s) p = (prefix p (c # s) \<or> contains s p)"

lemma contains_iff: "contains s p \<longleftrightarrow> (\<exists>u v. s = u @ p @ v)"
proof (induction s)
  case (Cons c s)
  show ?case
  proof
    assume "contains (c # s) p"
    then consider "prefix p (c # s)" | "\<exists>u v. s = u @ p @ v"
      using Cons.IH by auto
    then show "\<exists>u v. c # s = u @ p @ v"
    proof cases
      case 1
      then obtain v where "c # s = [] @ p @ v" by (auto simp: prefix_def)
      then show ?thesis by blast
    next
      case 2
      then obtain u v where "c # s = (c # u) @ p @ v" by auto
      then show ?thesis by blast
    qed
  next
    assume "\<exists>u v. c # s = u @ p @ v"
    then obtain u v where u: "c # s = u @ p @ v" by blast
    show "contains (c # s) p"
    proof (cases u)
      case Nil
      with u have "prefix p (c # s)" by simp
      then show ?thesis by simp
    next
      case (Cons d w)
      then have "s = w @ p @ v" using u by simp
      then show ?thesis using Cons.IH by auto
    qed
  qed
qed auto

text \<open>\<open>strings.Split\<close> with a separator of one character, and \<open>strings.Join\<close>.\<close>

fun split_char :: "char \<Rightarrow> gostr \<Rightarrow> gostr list" where
  "split_char d [] = [[]]"
| "split_char d (c # s) =
     (if c = d then [] # split_char d s
      else (case split_char d s of [] \<Rightarrow> [[c]] | w # ws \<Rightarrow> (c # w) # ws))"

fun join_with :: "gostr \<Rightarrow> gostr list \<Rightarrow> gostr" where
  "join_with sep [] = []"
| "join_with sep [w] = w"
| "join_with sep (w # ws) = w @ sep @ join_with sep ws"

lemma split_char_not_Nil [simp]: "split_char d s \<noteq> []"
  by (induction s) (auto split: list.splits)

lemma join_split_char: "join_with [d] (split_char d s) = s"
proof (induction s)
  case (Cons c s)
  show ?case
  proof (cases "split_char d s")
    case (Cons w ws)
    with \<open>join_with [d] (split_char d s) = s\<close> show ?thesis
      by (cases ws) auto
  qed simp
qed simp

text \<open>\<open>strings.ReplaceAll\<close> of a pattern that is not empty.\<close>

function replace_all :: "gostr \<Rightarrow> gostr \<Rightarrow> gostr \<Rightarrow> gostr" where
  "replace_all [] old new = []"
| "replace_all (c # s) old new =
     (if old \<noteq> [] \<and> prefix old (c # s) then new @ replace_all (drop (length old) (c # s)) old new
      else c # replace_all s old new)"
  by pat_completeness auto
termination by (relation "measure (\<lambda>(s, old, new). length s)") (auto simp: Suc_le_eq neq_Nil_conv)

text \<open>What follows the last occurrence of a pattern (\<open>strings.LastIndex\<close> and a slice).\<close>

fun after_last :: "gostr \<Rightarrow> gostr \<Rightarrow> gostr option" where
  "after_last [] p = (if p = [] then Some [] else None)"
| "after_last (c # s) p =
     (case after_last s p of
        Some r \<Rightarrow> Some r
      | None \<Rightarrow> if prefix p (c # s) then Some (drop (length p) (c # s)) else None)"

lemma after_last_None: "after_last s p = None \<longleftrightarrow> \<not> contains s p"
  by (induction s) (auto split: option.splits)

fun trim_left_char :: "char \<Rightarrow> gostr \<Rightarrow> gostr" where
  "trim_left_char d [] = []"
| "trim_left_char d (c # s) = (if c = d then trim_left_char d s else c # s)"

end
