(* ===== verification/Cost.thy ===== *)
theory Cost
  imports Go_Values Go_Strings
begin

text \<open>
  What a number of tokens costs: the core of \<open>internal/service/billing_service.go\<close> that needs no
  price list (\<open>computeTokenBreakdown\<close> and what it calls).  Prices are rationals per token.  The
  lemmas show that the total is the sum of tokens times unit prices, that nothing is negative when
  prices and counts are not, and that the cost is additive in the tokens as long as the surcharge on
  long sessions does not apply.
\<close>

section \<open>Prices and tokens\<close>

record ModelPricing =
  mp_Input :: rat
  mp_InputPriority :: rat
  mp_Output :: rat
  mp_OutputPriority :: rat
  mp_CacheCreation :: rat
  mp_CacheRead :: rat
  mp_CacheReadPriority :: rat
  mp_CacheCreation5m :: rat
  mp_CacheCreation1h :: rat
  mp_SupportsCacheBreakdown :: bool
  mp_LongContextThreshold :: int
  mp_LongContextInput :: rat
  mp_LongContextOutput :: rat
  mp_ImageOutput :: rat

definition zero_mp :: ModelPricing where
  "zero_mp = \<lparr>mp_Input = 0, mp_InputPriority = 0, mp_Output = 0, mp_OutputPriority = 0, mp_CacheCreation = 0,
     mp_CacheRead = 0, mp_CacheReadPriority = 0, mp_CacheCreation5m = 0, mp_CacheCreation1h = 0,
     mp_SupportsCacheBreakdown = False, mp_LongContextThreshold = 0, mp_LongContextInput = 0, mp_LongContextOutput = 0,
     mp_ImageOutput = 0\<rparr>"

record UsageTokens =
  ut_Input :: int
  ut_Output :: int
  ut_CacheCreation :: int
  ut_CacheRead :: int
  ut_CacheCreation5m :: int
  ut_CacheCreation1h :: int
  ut_ImageOutput :: int

definition zero_tokens :: UsageTokens where
  "zero_tokens = \<lparr>ut_Input = 0, ut_Output = 0, ut_CacheCreation = 0, ut_CacheRead = 0, ut_CacheCreation5m = 0,
     ut_CacheCreation1h = 0, ut_ImageOutput = 0\<rparr>"

record CostBreakdown =
  co_InputCost :: rat
  co_OutputCost :: rat
  co_ImageOutputCost :: rat
  co_CacheCreationCost :: rat
  co_CacheReadCost :: rat
  co_TotalCost :: rat
  co_ActualCost :: rat
  co_BillingMode :: gostr

definition zero_cost :: CostBreakdown where
  "zero_cost = \<lparr>co_InputCost = 0, co_OutputCost = 0, co_ImageOutputCost = 0, co_CacheCreationCost = 0, co_CacheReadCost = 0,
     co_TotalCost = 0, co_ActualCost = 0, co_BillingMode = ''''\<rparr>"

section \<open>Service tiers and surcharges\<close>

definition normalizeBillingServiceTier :: "gostr \<Rightarrow> gostr" where
  "normalizeBillingServiceTier serviceTier = to_lower (trim_space serviceTier)"

definition usePriorityServiceTierPricing :: "gostr \<Rightarrow> ModelPricing \<Rightarrow> bool" where
  "usePriorityServiceTierPricing serviceTier p =
     (normalizeBillingServiceTier serviceTier = ''priority'' \<and>
      (mp_InputPriority p > 0 \<or> mp_OutputPriority p > 0 \<or> mp_CacheReadPriority p > 0))"

definition serviceTierCostMultiplier :: "gostr \<Rightarrow> rat" where
  "serviceTierCostMultiplier serviceTier =
     (let t = normalizeBillingServiceTier serviceTier
      in if t = ''priority'' then 2 else if t = ''flex'' then 1 / 2 else 1)"

definition shouldApplySessionLongContextPricing :: "UsageTokens \<Rightarrow> ModelPricing \<Rightarrow> bool" where
  "shouldApplySessionLongContextPricing tokens p =
     (\<not> mp_LongContextThreshold p \<le> 0 \<and> \<not> (mp_LongContextInput p \<le> 1 \<and> mp_LongContextOutput p \<le> 1) \<and>
      ut_Input tokens + ut_CacheRead tokens > mp_LongContextThreshold p)"

definition computeCacheCreationCost :: "ModelPricing \<Rightarrow> UsageTokens \<Rightarrow> rat" where
  "computeCacheCreationCost p tokens =
     (if mp_SupportsCacheBreakdown p \<and> (mp_CacheCreation5m p > 0 \<or> mp_CacheCreation1h p > 0)
      then if ut_CacheCreation5m tokens = 0 \<and> ut_CacheCreation1h tokens = 0 \<and> ut_CacheCreation tokens > 0
           then of_int (ut_CacheCreation tokens) * mp_CacheCreation5m p
           else of_int (ut_CacheCreation5m tokens) * mp_CacheCreation5m p +
                of_int (ut_CacheCreation1h tokens) * mp_CacheCreation1h p
      else of_int (ut_CacheCreation tokens) * mp_CacheCreation p)"

text \<open>A multiplier that is not positive counts as one.\<close>

definition effectiveRate :: "rat \<Rightarrow> rat" where
  "effectiveRate r = (if r \<le> 0 then 1 else r)"

section \<open>The cost of a request's tokens\<close>

text \<open>The unit prices of input, output and cache reads, and the factor of the service tier.\<close>

definition tierPrices :: "ModelPricing \<Rightarrow> gostr \<Rightarrow> rat \<times> rat \<times> rat \<times> rat" where
  "tierPrices p serviceTier =
     (if usePriorityServiceTierPricing serviceTier p
      then (if mp_InputPriority p > 0 then mp_InputPriority p else mp_Input p,
            if mp_OutputPriority p > 0 then mp_OutputPriority p else mp_Output p,
            if mp_CacheReadPriority p > 0 then mp_CacheReadPriority p else mp_CacheRead p, 1)
      else (mp_Input p, mp_Output p, mp_CacheRead p, serviceTierCostMultiplier serviceTier))"

definition computeTokenBreakdown :: "ModelPricing \<Rightarrow> UsageTokens \<Rightarrow> rat \<Rightarrow> gostr \<Rightarrow> bool \<Rightarrow> CostBreakdown" where
  "computeTokenBreakdown p tokens rateMultiplier serviceTier applyLongCtx =
     (let rate = effectiveRate rateMultiplier;
          (inputPrice, outputPrice, cacheReadPrice, tierMultiplier) = tierPrices p serviceTier;
          long = (applyLongCtx \<and> shouldApplySessionLongContextPricing tokens p);
          inputPrice = (if long then inputPrice * mp_LongContextInput p else inputPrice);
          outputPrice = (if long then outputPrice * mp_LongContextOutput p else outputPrice);
          textOutputTokens = (if ut_Output tokens - ut_ImageOutput tokens < 0 then 0
                              else ut_Output tokens - ut_ImageOutput tokens);
          imgPrice = (if mp_ImageOutput p = 0 then outputPrice else mp_ImageOutput p);
          inputCost = of_int (ut_Input tokens) * inputPrice * tierMultiplier;
          outputCost = of_int textOutputTokens * outputPrice * tierMultiplier;
          imageCost = (if ut_ImageOutput tokens > 0 then of_int (ut_ImageOutput tokens) * imgPrice else 0) * tierMultiplier;
          creationCost = computeCacheCreationCost p tokens * tierMultiplier;
          readCost = of_int (ut_CacheRead tokens) * cacheReadPrice * tierMultiplier;
          total = inputCost + outputCost + imageCost + creationCost + readCost
      in \<lparr>co_InputCost = inputCost, co_OutputCost = outputCost, co_ImageOutputCost = imageCost,
          co_CacheCreationCost = creationCost, co_CacheReadCost = readCost, co_TotalCost = total,
          co_ActualCost = total * rate, co_BillingMode = ''''\<rparr>)"

section \<open>Sums\<close>

definition parts :: "CostBreakdown \<Rightarrow> rat list" where
  "parts c = [co_InputCost c, co_OutputCost c, co_ImageOutputCost c, co_CacheCreationCost c, co_CacheReadCost c]"

lemma breakdown_total:
  "co_TotalCost (computeTokenBreakdown p t r tier l) = sum_list (parts (computeTokenBreakdown p t r tier l))"
  by (simp add: computeTokenBreakdown_def parts_def Let_def split: prod.splits)

lemma breakdown_actual:
  "co_ActualCost (computeTokenBreakdown p t r tier l) = co_TotalCost (computeTokenBreakdown p t r tier l) * effectiveRate r"
  by (simp add: computeTokenBreakdown_def Let_def split: prod.splits)

text \<open>The rate does not change the parts and the total.\<close>

lemma breakdown_rate:
  "parts (computeTokenBreakdown p t r tier l) = parts (computeTokenBreakdown p t r' tier l)"
  "co_TotalCost (computeTokenBreakdown p t r tier l) = co_TotalCost (computeTokenBreakdown p t r' tier l)"
  by (simp_all add: computeTokenBreakdown_def parts_def Let_def split: prod.splits)

lemma breakdown_mode [simp]: "co_BillingMode (computeTokenBreakdown p t r tier l) = ''''"
  by (simp add: computeTokenBreakdown_def Let_def split: prod.splits)

section \<open>Nothing is negative\<close>

definition pricing_ok :: "ModelPricing \<Rightarrow> bool" where
  "pricing_ok p =
     (0 \<le> mp_Input p \<and> 0 \<le> mp_InputPriority p \<and> 0 \<le> mp_Output p \<and> 0 \<le> mp_OutputPriority p \<and> 0 \<le> mp_CacheCreation p \<and>
      0 \<le> mp_CacheRead p \<and> 0 \<le> mp_CacheReadPriority p \<and> 0 \<le> mp_CacheCreation5m p \<and> 0 \<le> mp_CacheCreation1h p \<and>
      0 \<le> mp_LongContextInput p \<and> 0 \<le> mp_LongContextOutput p \<and> 0 \<le> mp_ImageOutput p)"

definition tokens_ok :: "UsageTokens \<Rightarrow> bool" where
  "tokens_ok t =
     (0 \<le> ut_Input t \<and> 0 \<le> ut_Output t \<and> 0 \<le> ut_CacheCreation t \<and> 0 \<le> ut_CacheRead t \<and>
      0 \<le> ut_CacheCreation5m t \<and> 0 \<le> ut_CacheCreation1h t \<and> 0 \<le> ut_ImageOutput t)"

definition cost_ok :: "CostBreakdown \<Rightarrow> bool" where
  "cost_ok c =
     (list_all (\<lambda>x. 0 \<le> x) (parts c) \<and> 0 \<le> co_TotalCost c \<and> 0 \<le> co_ActualCost c \<and>
      (co_TotalCost c = 0 \<longrightarrow> co_ActualCost c = 0))"

lemma zero_cost_ok [simp]: "cost_ok zero_cost"
  by (simp add: cost_ok_def zero_cost_def parts_def)

lemma effectiveRate_pos: "0 < effectiveRate r"
  by (simp add: effectiveRate_def)

lemma tier_multiplier_pos: "0 < serviceTierCostMultiplier tier"
  by (simp add: serviceTierCostMultiplier_def Let_def)

lemma tierPrices_ok:
  "pricing_ok p \<Longrightarrow> tierPrices p tier = (i, out, c, m) \<Longrightarrow> 0 \<le> i \<and> 0 \<le> out \<and> 0 \<le> c \<and> 0 < m"
  using tier_multiplier_pos [of tier] by (auto simp: tierPrices_def pricing_ok_def split: if_splits)

lemma creation_cost_ok: "pricing_ok p \<Longrightarrow> tokens_ok t \<Longrightarrow> 0 \<le> computeCacheCreationCost p t"
  by (auto simp: computeCacheCreationCost_def pricing_ok_def tokens_ok_def)

lemma breakdown_ok:
  assumes "pricing_ok p" and "tokens_ok t"
  shows "cost_ok (computeTokenBreakdown p t r tier l)"
proof -
  obtain i out c m where q: "tierPrices p tier = (i, out, c, m)" by (cases "tierPrices p tier") auto
  have pos: "0 \<le> i" "0 \<le> out" "0 \<le> c" "0 \<le> m" using tierPrices_ok [OF assms(1) q] by auto
  have "0 \<le> mp_LongContextInput p" "0 \<le> mp_LongContextOutput p" "0 \<le> mp_ImageOutput p"
    using assms(1) by (auto simp: pricing_ok_def)
  then have "list_all (\<lambda>x. 0 \<le> x) (parts (computeTokenBreakdown p t r tier l))"
    using pos assms(2) creation_cost_ok [OF assms]
    by (simp add: computeTokenBreakdown_def parts_def q Let_def tokens_ok_def)
  moreover from this have "0 \<le> co_TotalCost (computeTokenBreakdown p t r tier l)"
    by (simp add: breakdown_total sum_list_nonneg list_all_iff)
  ultimately show ?thesis
    using effectiveRate_pos [of r] by (simp add: cost_ok_def breakdown_actual)
qed

section \<open>Additivity\<close>

text \<open>
  Tokens are cut into two parts, the second with input and cache reads only.  Where the surcharge on
  long sessions applies to neither the parts nor the whole, the costs of the parts add up.
\<close>

definition input_part :: "int \<Rightarrow> int \<Rightarrow> UsageTokens" where
  "input_part i c = zero_tokens\<lparr>ut_Input := i, ut_CacheRead := c\<rparr>"

lemma input_part_cost:
  assumes "\<not> shouldApplySessionLongContextPricing (input_part i c) p"
  shows "computeTokenBreakdown p (input_part i c) r '''' True =
    zero_cost\<lparr>co_InputCost := of_int i * mp_Input p, co_CacheReadCost := of_int c * mp_CacheRead p,
      co_TotalCost := of_int i * mp_Input p + of_int c * mp_CacheRead p,
      co_ActualCost := (of_int i * mp_Input p + of_int c * mp_CacheRead p) * effectiveRate r\<rparr>"
  using assms
  by (simp add: computeTokenBreakdown_def tierPrices_def usePriorityServiceTierPricing_def serviceTierCostMultiplier_def
      normalizeBillingServiceTier_def to_lower_def computeCacheCreationCost_def input_part_def zero_tokens_def zero_cost_def Let_def)

lemma creation_cost_input:
  "computeCacheCreationCost p (t\<lparr>ut_Input := a, ut_CacheRead := b\<rparr>) = computeCacheCreationCost p t"
  by (simp add: computeCacheCreationCost_def cong: if_cong split del: if_split)

lemma breakdown_split:
  assumes "\<not> shouldApplySessionLongContextPricing t p"
    and "\<not> shouldApplySessionLongContextPricing (t\<lparr>ut_Input := ut_Input t - i, ut_CacheRead := ut_CacheRead t - c\<rparr>) p"
  shows "co_TotalCost (computeTokenBreakdown p (t\<lparr>ut_Input := ut_Input t - i, ut_CacheRead := ut_CacheRead t - c\<rparr>) r '''' True) +
     (of_int i * mp_Input p + of_int c * mp_CacheRead p) = co_TotalCost (computeTokenBreakdown p t r' '''' True)"
  using assms
  by (simp add: computeTokenBreakdown_def tierPrices_def usePriorityServiceTierPricing_def serviceTierCostMultiplier_def
      normalizeBillingServiceTier_def to_lower_def creation_cost_input Let_def algebra_simps)

end
