(* ===== verification/Billing_Events.thy ===== *)
theory Billing_Events
  imports Usage_Billing Entities Account Cost
begin

text \<open>
  How the gateway builds and publishes billing events: the command of a finished request
  (\<open>buildUsageBillingCommand\<close> and the end of \<open>recordUsageCore\<close> in
  \<open>internal/service/gateway_service.go\<close>), the event around it
  (\<open>internal/service/billing_event.go\<close>) and the reserve and release events of a stream
  (\<open>internal/service/billing_lifecycle.go\<close>).  The clock, fresh identifiers and the publisher
  are arguments.
\<close>

section \<open>Identifiers\<close>

text \<open>The values that the request's context holds, where it holds any.\<close>

record reqctx =
  rc_ClientRequestID :: gostr
  rc_RequestID :: gostr

definition resolveUsageBillingRequestID :: "reqctx option \<Rightarrow> gostr \<Rightarrow> gostr \<Rightarrow> gostr" where
  "resolveUsageBillingRequestID ctx upstreamRequestID generated =
     (let upstream = (if trim_space upstreamRequestID \<noteq> [] then trim_space upstreamRequestID else ''generated:'' @ generated)
      in case ctx of
           None \<Rightarrow> upstream
         | Some c \<Rightarrow>
             if trim_space (rc_ClientRequestID c) \<noteq> [] then ''client:'' @ trim_space (rc_ClientRequestID c)
             else if trim_space (rc_RequestID c) \<noteq> [] then ''local:'' @ trim_space (rc_RequestID c)
             else upstream)"

definition resolveUsageBillingPayloadFingerprint :: "reqctx option \<Rightarrow> gostr \<Rightarrow> gostr" where
  "resolveUsageBillingPayloadFingerprint ctx requestPayloadHash =
     (if trim_space requestPayloadHash \<noteq> [] then trim_space requestPayloadHash
      else case ctx of
             None \<Rightarrow> []
           | Some c \<Rightarrow>
               if trim_space (rc_ClientRequestID c) \<noteq> [] then ''client:'' @ trim_space (rc_ClientRequestID c)
               else if trim_space (rc_RequestID c) \<noteq> [] then ''local:'' @ trim_space (rc_RequestID c)
               else [])"

section \<open>The command of a request\<close>

record postUsageBillingParams =
  pp_Cost :: "CostBreakdown option"
  pp_User :: "User option"
  pp_APIKey :: "APIKey option"
  pp_Account :: "Account option"
  pp_Subscription :: "UserSubscription option"
  pp_RequestPayloadHash :: gostr
  pp_IsSubscriptionBill :: bool
  pp_AccountRateMultiplier :: rat
  pp_HasAPIKeyService :: bool

definition shouldDeductAPIKeyQuota :: "bool \<Rightarrow> CostBreakdown \<Rightarrow> APIKey \<Rightarrow> bool" where
  "shouldDeductAPIKeyQuota service cost k = (co_ActualCost cost > 0 \<and> ak_Quota k > 0 \<and> service)"

definition shouldUpdateRateLimits :: "bool \<Rightarrow> CostBreakdown \<Rightarrow> APIKey \<Rightarrow> bool" where
  "shouldUpdateRateLimits service cost k = (co_ActualCost cost > 0 \<and> HasRateLimits k \<and> service)"

definition shouldUpdateAccountQuota :: "CostBreakdown \<Rightarrow> Account \<Rightarrow> bool" where
  "shouldUpdateAccountQuota cost a = (co_TotalCost cost > 0 \<and> IsAPIKeyOrBedrock a \<and> HasAnyQuotaLimit a)"

definition emptyCommand :: UsageBillingCommand where
  "emptyCommand = \<lparr>RequestID = [], APIKeyID = 0, RequestFingerprint = [], RequestPayloadHash = [], UserID = 0,
     AccountID = 0, SubscriptionID = None, AccountType = [], Model = [], ServiceTier = [], ReasoningEffort = [],
     BillingType = 0, InputTokens = 0, OutputTokens = 0, CacheCreationTokens = 0, CacheReadTokens = 0, ImageCount = 0,
     MediaType = [], BalanceCost = 0, SubscriptionCost = 0, APIKeyQuotaCost = 0, APIKeyRateLimitCost = 0,
     AccountQuotaCost = 0\<rparr>"

definition commandFacts :: "UsageLog \<Rightarrow> UsageBillingCommand \<Rightarrow> UsageBillingCommand" where
  "commandFacts l cmd =
     cmd\<lparr>Model := ul_Model l, BillingType := ul_BillingType l, InputTokens := ul_InputTokens l,
         OutputTokens := ul_OutputTokens l, CacheCreationTokens := ul_CacheCreationTokens l,
         CacheReadTokens := ul_CacheReadTokens l, ImageCount := ul_ImageCount l,
         ServiceTier := (case ul_ServiceTier l of None \<Rightarrow> ServiceTier cmd | Some t \<Rightarrow> t),
         ReasoningEffort := (case ul_ReasoningEffort l of None \<Rightarrow> ReasoningEffort cmd | Some t \<Rightarrow> t),
         SubscriptionID := (case ul_SubscriptionID l of None \<Rightarrow> SubscriptionID cmd | Some i \<Rightarrow> Some i)\<rparr>"

definition commandCosts :: "postUsageBillingParams \<Rightarrow> CostBreakdown \<Rightarrow> APIKey \<Rightarrow> Account \<Rightarrow> UsageBillingCommand \<Rightarrow> UsageBillingCommand" where
  "commandCosts p cost k a cmd =
     (let payer = (case pp_Subscription p of
            Some sub \<Rightarrow>
              if pp_IsSubscriptionBill p \<and> co_TotalCost cost > 0
              then cmd\<lparr>SubscriptionID := Some (sb_ID sub), SubscriptionCost := co_TotalCost cost\<rparr>
              else if co_ActualCost cost > 0 then cmd\<lparr>BalanceCost := co_ActualCost cost\<rparr> else cmd
          | None \<Rightarrow> if co_ActualCost cost > 0 then cmd\<lparr>BalanceCost := co_ActualCost cost\<rparr> else cmd);
          quota = (if shouldDeductAPIKeyQuota (pp_HasAPIKeyService p) cost k
                   then payer\<lparr>APIKeyQuotaCost := co_ActualCost cost\<rparr> else payer);
          rate = (if shouldUpdateRateLimits (pp_HasAPIKeyService p) cost k
                  then quota\<lparr>APIKeyRateLimitCost := co_ActualCost cost\<rparr> else quota)
      in if shouldUpdateAccountQuota cost a
         then rate\<lparr>AccountQuotaCost := co_TotalCost cost * pp_AccountRateMultiplier p\<rparr> else rate)"

definition buildUsageBillingCommand ::
    "(gostr \<Rightarrow> gostr) \<Rightarrow> gostr \<Rightarrow> UsageLog option \<Rightarrow> postUsageBillingParams option \<Rightarrow> UsageBillingCommand option" where
  "buildUsageBillingCommand sha requestID usageLog params =
     (case params of
        None \<Rightarrow> None
      | Some p \<Rightarrow>
          (case (pp_Cost p, pp_APIKey p, pp_User p, pp_Account p) of
             (Some cost, Some k, Some u, Some a) \<Rightarrow>
               let cmd = emptyCommand\<lparr>RequestID := requestID, APIKeyID := ak_ID k, UserID := us_ID u,
                     AccountID := act_ID a, AccountType := act_Type a,
                     RequestPayloadHash := trim_space (pp_RequestPayloadHash p)\<rparr>;
                   facts = (case usageLog of None \<Rightarrow> cmd | Some l \<Rightarrow> commandFacts l cmd)
               in Some (Normalize sha (commandCosts p cost k a facts))
           | _ \<Rightarrow> None))"

section \<open>Events\<close>

definition usageChargeEventVersion :: int where
  "usageChargeEventVersion = 2"

definition NewUsageChargeEventWithKind ::
    "(gostr \<Rightarrow> gostr) \<Rightarrow> time \<Rightarrow> gostr \<Rightarrow> gostr \<Rightarrow> UsageBillingCommand option \<Rightarrow> UsageLog option \<Rightarrow> int64 \<Rightarrow> bool
     \<Rightarrow> UsageChargeEvent" where
  "NewUsageChargeEventWithKind sha now uuid kind cmd usageLog groupID hasRateLimits =
     (let cmd' = map_option (Normalize sha) cmd;
          r0 = (case cmd' of None \<Rightarrow> [] | Some c \<Rightarrow> RequestID c);
          r1 = (case usageLog of Some l \<Rightarrow> if r0 = [] \<and> ul_RequestID l \<noteq> [] then ul_RequestID l else r0 | None \<Rightarrow> r0);
          occurred = (case usageLog of Some l \<Rightarrow> (case ul_CreatedAt l of Some t \<Rightarrow> t | None \<Rightarrow> now) | None \<Rightarrow> now)
      in \<lparr>ev_Version = usageChargeEventVersion, ev_Kind = string_of_kind (kind_of_string kind), ev_EventID = uuid,
          ev_RequestID = r1, ev_OccurredAt = Some occurred, ev_Command = cmd', ev_UsageLog = usageLog,
          ev_GroupID = groupID, ev_HasAPIKeyRateLimitUsage = hasRateLimits\<rparr>)"

datatype publish_error = ErrBillingEventPublisherUnavailable | ErrPublishFailed

text \<open>A publisher appends to the stream; \<open>None\<close> is a missing publisher and \<open>False\<close> a failed call.\<close>

type_synonym publisher = "(UsageChargeEvent \<Rightarrow> bool) option"

definition publishEvent :: "publisher \<Rightarrow> UsageChargeEvent \<Rightarrow> publish_error option \<times> UsageChargeEvent list" where
  "publishEvent publisher ev =
     (case publisher of
        None \<Rightarrow> (Some ErrBillingEventPublisherUnavailable, [])
      | Some publish \<Rightarrow> if publish ev then (None, [ev]) else (Some ErrPublishFailed, []))"

text \<open>The end of \<open>recordUsageCore\<close>: the event of a finished request.\<close>

record RecordUsageInput =
  ri_BillingRequestID :: gostr
  ri_BillingEventKind :: gostr
  ri_RequestPayloadHash :: gostr

definition isSubscriptionBilling :: "APIKey \<Rightarrow> UserSubscription option \<Rightarrow> bool" where
  "isSubscriptionBilling k subscription =
     (subscription \<noteq> None \<and> (case ak_Group k of None \<Rightarrow> False | Some g \<Rightarrow> IsSubscriptionType g))"

definition publishUsageCharge ::
    "(gostr \<Rightarrow> gostr) \<Rightarrow> time \<Rightarrow> gostr \<Rightarrow> publisher \<Rightarrow> reqctx option \<Rightarrow> RecordUsageInput \<Rightarrow> UsageLog
     \<Rightarrow> CostBreakdown option \<Rightarrow> User \<Rightarrow> APIKey \<Rightarrow> Account \<Rightarrow> UserSubscription option \<Rightarrow> bool
     \<Rightarrow> publish_error option \<times> UsageChargeEvent list" where
  "publishUsageCharge sha now uuid publisher ctx input usageLog cost user k a subscription hasService =
     (let r0 = trim_space (ri_BillingRequestID input);
          requestID = (if r0 = [] then ul_RequestID usageLog else r0);
          ulog = (if r0 = [] then usageLog else usageLog\<lparr>ul_RequestID := r0\<rparr>);
          p = \<lparr>pp_Cost = cost, pp_User = Some user, pp_APIKey = Some k, pp_Account = Some a, pp_Subscription = subscription,
               pp_RequestPayloadHash = resolveUsageBillingPayloadFingerprint ctx (ri_RequestPayloadHash input),
               pp_IsSubscriptionBill = isSubscriptionBilling k subscription,
               pp_AccountRateMultiplier = BillingRateMultiplier (Some a), pp_HasAPIKeyService = hasService\<rparr>
      in case buildUsageBillingCommand sha requestID (Some ulog) (Some p) of
           None \<Rightarrow> (None, [])
         | Some cmd \<Rightarrow>
             publishEvent publisher
               (NewUsageChargeEventWithKind sha now uuid
                  (if trim_space (ri_BillingEventKind input) = [] then ''charge'' else ri_BillingEventKind input)
                  (Some cmd) (Some ulog) (valueOrZero (ak_GroupID k)) (HasRateLimits k)))"

section \<open>Reserve and release\<close>

record StreamingBillingLifecycleInput =
  si_RequestID :: gostr
  si_APIKey :: "APIKey option"
  si_User :: "User option"
  si_Account :: "Account option"
  si_Subscription :: "UserSubscription option"
  si_Model :: gostr
  si_ServiceTier :: "gostr option"
  si_ReasoningEffort :: "gostr option"
  si_RequestPayloadHash :: gostr
  si_OccurredAt :: "time option"

definition resolveStreamingBillingType :: "APIKey option \<Rightarrow> UserSubscription option \<Rightarrow> int" where
  "resolveStreamingBillingType apiKey subscription =
     (case apiKey of
        Some k \<Rightarrow> if subscription \<noteq> None \<and> (case ak_Group k of None \<Rightarrow> False | Some g \<Rightarrow> IsSubscriptionType g) then 1 else 0
      | None \<Rightarrow> 0)"

definition trimmedStringValue :: "gostr option \<Rightarrow> gostr" where
  "trimmedStringValue v = (case v of None \<Rightarrow> [] | Some s \<Rightarrow> trim_space s)"

definition buildStreamingLifecycleEvent ::
    "(gostr \<Rightarrow> gostr) \<Rightarrow> time \<Rightarrow> gostr \<Rightarrow> gostr \<Rightarrow> reqctx option \<Rightarrow> gostr \<Rightarrow> StreamingBillingLifecycleInput option
     \<Rightarrow> UsageChargeEvent option" where
  "buildStreamingLifecycleEvent sha now uuid generated ctx kind input =
     (case input of
        None \<Rightarrow> None
      | Some i \<Rightarrow>
          (case (si_APIKey i, si_Account i) of
             (Some k, Some a) \<Rightarrow>
               (case (case si_User i of None \<Rightarrow> ak_User k | Some u \<Rightarrow> Some u) of
                  None \<Rightarrow> None
                | Some u \<Rightarrow>
                    let requestID = (if trim_space (si_RequestID i) = [] then resolveUsageBillingRequestID ctx [] generated
                                     else trim_space (si_RequestID i));
                        cmd = emptyCommand\<lparr>RequestID := requestID, APIKeyID := ak_ID k,
                          RequestPayloadHash := trim_space (si_RequestPayloadHash i), UserID := us_ID u,
                          AccountID := act_ID a, AccountType := trim_space (act_Type a), Model := trim_space (si_Model i),
                          ServiceTier := trimmedStringValue (si_ServiceTier i),
                          ReasoningEffort := trimmedStringValue (si_ReasoningEffort i),
                          BillingType := resolveStreamingBillingType (Some k) (si_Subscription i),
                          SubscriptionID := map_option sb_ID (si_Subscription i)\<rparr>;
                        ev = NewUsageChargeEventWithKind sha now uuid kind (Some (Normalize sha cmd)) None
                          (valueOrZero (ak_GroupID k)) (HasRateLimits k)
                    in Some (case si_OccurredAt i of None \<Rightarrow> ev | Some t \<Rightarrow> ev\<lparr>ev_OccurredAt := Some t\<rparr>))
           | _ \<Rightarrow> None))"

definition publishStreamingLifecycleEvent ::
    "publisher \<Rightarrow> UsageChargeEvent option \<Rightarrow> publish_error option \<times> UsageChargeEvent list" where
  "publishStreamingLifecycleEvent publisher event =
     (case event of None \<Rightarrow> (None, []) | Some ev \<Rightarrow> publishEvent publisher ev)"

definition PublishStreamingReserve ::
    "(gostr \<Rightarrow> gostr) \<Rightarrow> time \<Rightarrow> gostr \<Rightarrow> gostr \<Rightarrow> publisher \<Rightarrow> reqctx option \<Rightarrow> StreamingBillingLifecycleInput option
     \<Rightarrow> publish_error option \<times> UsageChargeEvent list" where
  "PublishStreamingReserve sha now uuid generated publisher ctx input =
     publishStreamingLifecycleEvent publisher (buildStreamingLifecycleEvent sha now uuid generated ctx ''reserve'' input)"

definition PublishStreamingRelease ::
    "(gostr \<Rightarrow> gostr) \<Rightarrow> time \<Rightarrow> gostr \<Rightarrow> gostr \<Rightarrow> publisher \<Rightarrow> reqctx option \<Rightarrow> StreamingBillingLifecycleInput option
     \<Rightarrow> publish_error option \<times> UsageChargeEvent list" where
  "PublishStreamingRelease sha now uuid generated publisher ctx input =
     publishStreamingLifecycleEvent publisher (buildStreamingLifecycleEvent sha now uuid generated ctx ''release'' input)"

section \<open>Properties\<close>

text \<open>One payer: a command charges the subscription or the balance, not both, and no negative amount.\<close>

definition onePayer :: "UsageBillingCommand \<Rightarrow> bool" where
  "onePayer cmd \<longleftrightarrow> \<not> (SubscriptionCost cmd > 0 \<and> BalanceCost cmd > 0)"

lemma Normalize_frame [simp]:
  "RequestID (Normalize sha c) = trim_space (RequestID c)" "APIKeyID (Normalize sha c) = APIKeyID c"
  "UserID (Normalize sha c) = UserID c" "AccountID (Normalize sha c) = AccountID c"
  "BalanceCost (Normalize sha c) = BalanceCost c" "SubscriptionCost (Normalize sha c) = SubscriptionCost c"
  "SubscriptionID (Normalize sha c) = SubscriptionID c" "APIKeyQuotaCost (Normalize sha c) = APIKeyQuotaCost c"
  "APIKeyRateLimitCost (Normalize sha c) = APIKeyRateLimitCost c" "AccountQuotaCost (Normalize sha c) = AccountQuotaCost c"
  by (simp_all add: Normalize_def Let_def)


lemma published_charge:
  assumes "publishUsageCharge sha now uuid publisher ctx input l (Some cost) u k a subscription service = (None, [ev])"
  shows "\<exists>cmd log. ev_Command ev = Some cmd \<and> ev_UsageLog ev = Some log \<and> onePayer cmd \<and>
    APIKeyID cmd = ak_ID k \<and> UserID cmd = us_ID u \<and> AccountID cmd = act_ID a \<and>
    (if isSubscriptionBilling k subscription \<and> co_TotalCost cost > 0
     then SubscriptionID cmd = map_option sb_ID subscription \<and> SubscriptionCost cmd = co_TotalCost cost \<and> BalanceCost cmd = 0
     else SubscriptionCost cmd = 0 \<and> BalanceCost cmd = max 0 (co_ActualCost cost)) \<and>
    RequestID cmd = trim_space (ul_RequestID log) \<and>
    log = (if trim_space (ri_BillingRequestID input) = [] then l
      else l\<lparr>ul_RequestID := trim_space (ri_BillingRequestID input)\<rparr>)"
proof -
  let ?r = "trim_space (ri_BillingRequestID input)"
  let ?log = "if ?r = [] then l else l\<lparr>ul_RequestID := ?r\<rparr>"
  define facts where "facts = commandFacts ?log (emptyCommand\<lparr>RequestID := if ?r = [] then ul_RequestID l else ?r, APIKeyID := ak_ID k,
    UserID := us_ID u, AccountID := act_ID a, AccountType := act_Type a, RequestPayloadHash :=
    trim_space (resolveUsageBillingPayloadFingerprint ctx (ri_RequestPayloadHash input))\<rparr>)"
  define p where "p = \<lparr>pp_Cost = Some cost, pp_User = Some u, pp_APIKey = Some k, pp_Account = Some a, pp_Subscription = subscription,
    pp_RequestPayloadHash = resolveUsageBillingPayloadFingerprint ctx (ri_RequestPayloadHash input),
    pp_IsSubscriptionBill = isSubscriptionBilling k subscription,
    pp_AccountRateMultiplier = BillingRateMultiplier (Some a), pp_HasAPIKeyService = service\<rparr>"
  let ?cmd = "Normalize sha (Normalize sha (commandCosts p cost k a facts))"
  have ev: "ev_Command ev = Some ?cmd \<and> ev_UsageLog ev = Some ?log"
    using assms
    by (auto simp: publishUsageCharge_def buildUsageBillingCommand_def publishEvent_def NewUsageChargeEventWithKind_def
        p_def facts_def Let_def split: option.splits if_splits)
  have frame: "RequestID facts = (if ?r = [] then ul_RequestID l else ?r)" "APIKeyID facts = ak_ID k" "UserID facts = us_ID u"
    "AccountID facts = act_ID a" "SubscriptionCost facts = 0" "BalanceCost facts = 0"
    by (simp_all add: facts_def commandFacts_def emptyCommand_def)
  have ids: "RequestID (commandCosts p cost k a facts) = RequestID facts" "APIKeyID (commandCosts p cost k a facts) = APIKeyID facts"
    "UserID (commandCosts p cost k a facts) = UserID facts" "AccountID (commandCosts p cost k a facts) = AccountID facts"
    by (simp_all add: commandCosts_def Let_def split: option.split)
  have costs: "if isSubscriptionBilling k subscription \<and> co_TotalCost cost > 0
     then SubscriptionID (commandCosts p cost k a facts) = map_option sb_ID subscription \<and>
       SubscriptionCost (commandCosts p cost k a facts) = co_TotalCost cost \<and> BalanceCost (commandCosts p cost k a facts) = 0
     else SubscriptionCost (commandCosts p cost k a facts) = 0 \<and>
       BalanceCost (commandCosts p cost k a facts) = max 0 (co_ActualCost cost)"
    using frame by (cases subscription) (simp_all add: commandCosts_def Let_def p_def isSubscriptionBilling_def)
  have log: "ul_RequestID ?log = (if ?r = [] then ul_RequestID l else ?r)"
    by simp
  show ?thesis
    by (rule exI [of _ ?cmd], rule exI [of _ "?log"])
      (use ev ids frame costs log in \<open>auto simp: onePayer_def split: if_splits\<close>)
qed

text \<open>
  One payer per request: the event that a finished request publishes carries a command that
  charges either the subscription of the request or the user's balance, exactly the cost that
  applies and to the right account, key and user; its request identifier is the reserved one when
  there is one, and event, command and usage log agree on it.
\<close>

theorem charge_event_one_payer:
  assumes "publishUsageCharge sha now uuid publisher ctx input l (Some cost) u k a subscription service = (None, [ev])"
  shows "\<exists>cmd log. ev_Command ev = Some cmd \<and> ev_UsageLog ev = Some log \<and> onePayer cmd \<and>
    APIKeyID cmd = ak_ID k \<and> UserID cmd = us_ID u \<and> AccountID cmd = act_ID a \<and>
    (if isSubscriptionBilling k subscription \<and> co_TotalCost cost > 0
     then SubscriptionID cmd = map_option sb_ID subscription \<and> SubscriptionCost cmd = co_TotalCost cost \<and> BalanceCost cmd = 0
     else SubscriptionCost cmd = 0 \<and> BalanceCost cmd = max 0 (co_ActualCost cost)) \<and>
    RequestID cmd = trim_space (ul_RequestID log) \<and>
    log = (if trim_space (ri_BillingRequestID input) = [] then l
      else l\<lparr>ul_RequestID := trim_space (ri_BillingRequestID input)\<rparr>)"
  by (rule published_charge [OF assms])

definition billedLog :: UsageLog where
  "billedLog = emptyLog\<lparr>ul_RequestID := ''up1'', ul_APIKeyID := 3, ul_Model := ''m'', ul_InputTokens := 1, ul_OutputTokens := 2\<rparr>"

definition billedUser :: User where
  "billedUser = \<lparr>us_ID = 7, us_Email = ''a'', us_Role = ''user'', us_Balance = 1, us_Concurrency = 5, us_Status = ''active'',
     us_AllowedGroups = [], us_GroupRates = []\<rparr>"

definition billedKey :: APIKey where
  "billedKey = \<lparr>ak_ID = 3, ak_UserID = 7, ak_Key = ''sk'', ak_Name = ''k'', ak_GroupID = None, ak_Status = ''active'',
     ak_IPWhitelist = [], ak_IPBlacklist = [], ak_User = Some billedUser, ak_Group = None, ak_Quota = 5, ak_QuotaUsed = 1,
     ak_ExpiresAt = None, ak_RateLimit5h = 0, ak_RateLimit1d = 0, ak_RateLimit7d = 0, ak_Usage5h = 0, ak_Usage1d = 0,
     ak_Usage7d = 0, ak_Window5hStart = None, ak_Window1dStart = None, ak_Window7dStart = None\<rparr>"

definition billedAccount :: Account where
  "billedAccount = plainAccount 5 ''openai'' ''oauth''"

theorem charge_event_one_payer_witness:
  "\<exists>ev cmd. snd (publishUsageCharge (\<lambda>s. s) 0 ''e'' (Some (\<lambda>_. True)) None
      \<lparr>ri_BillingRequestID = ''r9'', ri_BillingEventKind = ''finalize'', ri_RequestPayloadHash = []\<rparr> billedLog
      (Some (zero_cost\<lparr>co_TotalCost := 2, co_ActualCost := 1\<rparr>)) billedUser billedKey billedAccount None True) = [ev] \<and>
    ev_Command ev = Some cmd \<and> BalanceCost cmd = 1 \<and> SubscriptionCost cmd = 0"
proof -
  let ?call = "publishUsageCharge (\<lambda>s. s) 0 ''e'' (Some (\<lambda>_. True)) None
      \<lparr>ri_BillingRequestID = ''r9'', ri_BillingEventKind = ''finalize'', ri_RequestPayloadHash = []\<rparr> billedLog
      (Some (zero_cost\<lparr>co_TotalCost := 2, co_ActualCost := 1\<rparr>)) billedUser billedKey billedAccount None True"
  obtain ev where ev: "?call = (None, [ev])"
    by (simp add: publishUsageCharge_def buildUsageBillingCommand_def publishEvent_def Let_def)
  from charge_event_one_payer [OF ev] obtain cmd where "ev_Command ev = Some cmd" "BalanceCost cmd = 1" "SubscriptionCost cmd = 0"
    by (auto simp: isSubscriptionBilling_def)
  with ev show ?thesis by auto
qed

section \<open>Reserving and releasing are free\<close>

lemma trim_kinds: "trim_space ''reserve'' = ''reserve''" "trim_space ''release'' = ''release''"
  by code_simp+

lemma buildStreamingLifecycleEvent_kind:
  "buildStreamingLifecycleEvent sha now uuid generated ctx kind input = Some ev \<Longrightarrow>
     ev_Kind ev = string_of_kind (kind_of_string kind)"
  by (auto simp: buildStreamingLifecycleEvent_def NewUsageChargeEventWithKind_def Let_def split: option.splits)

lemma not_chargeable_free:
  assumes "\<not> chargeable (normalizeUsageChargeEvent sha ev)"
  shows "db_money (bill_step sha (Deliver env ev) db) = db_money db" and
    "claimed r i (bill_step sha (Deliver env ev) db) = claimed r i db"
  using ApplyUsageCharge_cases [of sha env ev db] assms chargeBody_result(1-3)
  by (metis bill_step.simps(1))+

text \<open>
  The events of a stream's reservation cost nothing: delivering an event that reserve or
  release published changes no balance, subscription, key or account and claims no request,
  whatever the database holds and whichever statements fail, so the charge of the stream can
  still be made.
\<close>

theorem streaming_reservation_free:
  assumes "PublishStreamingReserve sha now uuid generated publisher ctx input = (None, [ev]) \<or>
      PublishStreamingRelease sha now uuid generated publisher ctx input = (None, [ev])"
  shows "db_money (bill_step sha (Deliver env ev) db) = db_money db \<and>
    claimed r i (bill_step sha (Deliver env ev) db) = claimed r i db"
proof -
  have "ev_Kind ev \<in> {''reserve'', ''release''}"
    using assms
    by (auto simp: PublishStreamingReserve_def PublishStreamingRelease_def publishStreamingLifecycleEvent_def publishEvent_def
        kind_of_string_def dest!: buildStreamingLifecycleEvent_kind split: option.splits if_splits)
  then have "\<not> chargeable (normalizeUsageChargeEvent sha ev)"
    by (auto simp: chargeable_def normalizeUsageChargeEvent_def Let_def kind_of_string_def trim_kinds)
  then show ?thesis using not_chargeable_free by blast
qed

theorem streaming_reservation_free_witness:
  "\<exists>ev. PublishStreamingReserve exampleSha 0 ''e'' [] (Some (\<lambda>_. True)) None (Some \<lparr>si_RequestID = ''r1'',
      si_APIKey = Some billedKey, si_User = None, si_Account = Some billedAccount, si_Subscription = None, si_Model = ''m'',
      si_ServiceTier = None, si_ReasoningEffort = None, si_RequestPayloadHash = [], si_OccurredAt = None\<rparr>) = (None, [ev]) \<and>
    db_money (bill_step exampleSha (Deliver (exampleTx CommitOK) ev) exampleDB) = db_money exampleDB"
proof -
  let ?input = "Some \<lparr>si_RequestID = ''r1'',
      si_APIKey = Some billedKey, si_User = None, si_Account = Some billedAccount, si_Subscription = None, si_Model = ''m'',
      si_ServiceTier = None, si_ReasoningEffort = None, si_RequestPayloadHash = [], si_OccurredAt = None\<rparr>"
  have "ak_User billedKey = Some billedUser" by (simp add: billedKey_def)
  then obtain ev where "PublishStreamingReserve exampleSha 0 ''e'' [] (Some (\<lambda>_. True)) None ?input = (None, [ev])"
    by (simp add: PublishStreamingReserve_def publishStreamingLifecycleEvent_def publishEvent_def
        buildStreamingLifecycleEvent_def Let_def)
  with streaming_reservation_free show ?thesis by blast
qed

end
