(* ===== verification/Billing_Consumer.thy ===== *)
theory Billing_Consumer
  imports Billing_Events Billing_Eligibility
begin

text \<open>
  The consumer of billing events (\<open>internal/service/billing_consumer_service.go\<close>): each event is
  applied in one transaction and then carried over to the caches.  The metrics and the polling of
  the stream's status are left out, except for the status snapshot.
\<close>

section \<open>The handler\<close>

text \<open>
  \<open>cs_billingCache\<close> is \<open>None\<close> without a billing cache; the auth cache and the deferred service
  are represented by the calls made to them, newest first.
\<close>

record consumer =
  cs_billingCache :: "billing_service option"
  cs_hasAuth :: bool
  cs_hasDeferred :: bool
  cs_lastApplyOK :: int
  cs_lastApplyErr :: int
  cs_invalidatedKeys :: "gostr list"
  cs_touchedAccounts :: "int64 list"

definition chargesSubscription :: "UsageChargeEvent \<Rightarrow> UsageBillingCommand \<Rightarrow> bool" where
  "chargesSubscription ev cmd = (SubscriptionCost cmd > 0 \<and> SubscriptionID cmd \<noteq> None \<and> ev_GroupID ev > 0)"

definition updateBillingCache :: "cache_env \<Rightarrow> UsageChargeEvent \<Rightarrow> UsageBillingCommand \<Rightarrow> billing_service \<Rightarrow> billing_service" where
  "updateBillingCache env ev cmd s =
     (let s1 = (if chargesSubscription ev cmd
                then QueueUpdateSubscriptionUsage env (UserID cmd) (ev_GroupID ev) (SubscriptionCost cmd) s
                else if BalanceCost cmd > 0 then QueueDeductBalance env (UserID cmd) (BalanceCost cmd) s else s)
      in if APIKeyRateLimitCost cmd > 0 \<and> ev_HasAPIKeyRateLimitUsage ev
         then QueueUpdateAPIKeyRateLimitUsage (APIKeyID cmd) (APIKeyRateLimitCost cmd) s1 else s1)"

definition repairBillingCache :: "cache_env \<Rightarrow> UsageChargeEvent \<Rightarrow> UsageBillingCommand \<Rightarrow> billing_service \<Rightarrow> billing_service" where
  "repairBillingCache env ev cmd s =
     (let s1 = (if chargesSubscription ev cmd then InvalidateSubscription env (UserID cmd) (ev_GroupID ev) s
                else if BalanceCost cmd > 0 then InvalidateUserBalance env (UserID cmd) s else s)
      in if APIKeyRateLimitCost cmd > 0 \<and> ev_HasAPIKeyRateLimitUsage ev
         then InvalidateAPIKeyRateLimit env (APIKeyID cmd) s1 else s1)"

definition recordApplySuccess :: "time \<Rightarrow> consumer \<Rightarrow> consumer" where
  "recordApplySuccess now c = c\<lparr>cs_lastApplyOK := now\<rparr>"

definition recordApplyFailure :: "time \<Rightarrow> consumer \<Rightarrow> consumer" where
  "recordApplyFailure now c = c\<lparr>cs_lastApplyErr := now\<rparr>"

definition afterApply :: "cache_env \<Rightarrow> UsageBillingApplyResult \<Rightarrow> UsageChargeEvent \<Rightarrow> UsageBillingCommand \<Rightarrow> consumer \<Rightarrow> consumer" where
  "afterApply env result ev cmd c =
     (let c1 = (if NeedsAPIKeyAuthCacheInvalidation result \<and> APIKeyAuthCacheKey result \<noteq> [] \<and> cs_hasAuth c
                then c\<lparr>cs_invalidatedKeys := APIKeyAuthCacheKey result # cs_invalidatedKeys c\<rparr> else c);
          c2 = c1\<lparr>cs_billingCache := map_option
                 (if Applied result then updateBillingCache env ev cmd else repairBillingCache env ev cmd) (cs_billingCache c1)\<rparr>;
          c3 = (if cs_hasDeferred c2 then c2\<lparr>cs_touchedAccounts := AccountID cmd # cs_touchedAccounts c2\<rparr> else c2)
      in recordApplySuccess (ce_now env) c3)"

text \<open>The transaction normalizes the event in place, so the caches see the normalized command.\<close>

definition handleEvent ::
    "(gostr \<Rightarrow> gostr) \<Rightarrow> tx_env \<Rightarrow> cache_env \<Rightarrow> UsageChargeEvent option \<Rightarrow> consumer \<times> billing_db
     \<Rightarrow> billing_error option \<times> consumer \<times> billing_db" where
  "handleEvent sha tx env event st =
     (case st of (c, db) \<Rightarrow>
        case event of
          None \<Rightarrow> (None, c, db)
        | Some ev \<Rightarrow>
            (case ev_Command ev of
               None \<Rightarrow> (None, c, db)
             | Some cmd \<Rightarrow>
                 let ev1 = ev\<lparr>ev_Command := Some (Normalize sha cmd)\<rparr>;
                     ev2 = normalizeUsageChargeEvent sha ev1;
                     cmd2 = (case ev_Command ev2 of None \<Rightarrow> cmd | Some c2 \<Rightarrow> c2)
                 in case ApplyUsageCharge sha tx ev1 db of
                      (Inl err, db') \<Rightarrow> (Some err, recordApplyFailure (ce_now env) c, db')
                    | (Inr result, db') \<Rightarrow> (None, afterApply env result ev2 cmd2 c, db')))"

record BillingStatusSnapshot =
  sn_PendingCount :: int
  sn_DLQDepth :: int
  sn_LastApplySuccessAt :: "time option"
  sn_LastApplyFailureAt :: "time option"

text \<open>\<open>status\<close>: the consumer's own status, an error, or no consumer.\<close>

definition StatusSnapshot :: "(unit + int \<times> int) option \<Rightarrow> consumer \<Rightarrow> BillingStatusSnapshot option" where
  "StatusSnapshot status c =
     (let snap = (\<lambda>p d. Some \<lparr>sn_PendingCount = p, sn_DLQDepth = d,
            sn_LastApplySuccessAt = (if cs_lastApplyOK c > 0 then Some (cs_lastApplyOK c) else None),
            sn_LastApplyFailureAt = (if cs_lastApplyErr c > 0 then Some (cs_lastApplyErr c) else None)\<rparr>)
      in case status of None \<Rightarrow> snap 0 0 | Some (Inl e) \<Rightarrow> None | Some (Inr (p, d)) \<Rightarrow> snap p d)"

section \<open>Coherence of the cached balances\<close>

text \<open>
  The system: the consumer with its cache and queue, the database, the clock, and the events whose
  last delivery failed and which the stream will deliver again.
\<close>

record system =
  sy_cache :: billing_service
  sy_db :: billing_db
  sy_now :: time
  sy_pending :: "UsageChargeEvent list"

definition consumerOf :: "billing_service \<Rightarrow> consumer" where
  "consumerOf s = \<lparr>cs_billingCache = Some s, cs_hasAuth = True, cs_hasDeferred = True, cs_lastApplyOK = 0,
     cs_lastApplyErr = 0, cs_invalidatedKeys = [], cs_touchedAccounts = []\<rparr>"

definition theCache :: "consumer \<Rightarrow> billing_service \<Rightarrow> billing_service" where
  "theCache c s = (case cs_billingCache c of None \<Rightarrow> s | Some s' \<Rightarrow> s')"

definition billable :: "UsageChargeEvent \<Rightarrow> bool" where
  "billable ev \<longleftrightarrow> (\<exists>cmd. ev_Command ev = Some cmd \<and> onePayer cmd \<and> on_grid 8 (BalanceCost cmd))"

fun queuedDeducts :: "int64 \<Rightarrow> cacheWriteTask list \<Rightarrow> rat list" where
  "queuedDeducts u [] = []"
| "queuedDeducts u (TaskDeductBalance v c # ts) = (if v = u then c # queuedDeducts u ts else queuedDeducts u ts)"
| "queuedDeducts u (t # ts) = queuedDeducts u ts"

fun queuedFills :: "int64 \<Rightarrow> cacheWriteTask list \<Rightarrow> rat list" where
  "queuedFills u [] = []"
| "queuedFills u (TaskSetBalance v b # ts) = (if v = u then b # queuedFills u ts else queuedFills u ts)"
| "queuedFills u (t # ts) = queuedFills u ts"

text \<open>
  One step: an event is handled (the cache is reachable), a worker finishes any queued task, or
  the balance of a user is read (\<open>GetUserBalance\<close>), where a miss queries the database and queues
  the task that fills the cache.  The two side conditions keep a read and its fill apart from the
  charges of the same user: no charge is handled while a fill of its payer is queued, and no read
  happens while a charge of the user is queued.  The workers take the tasks in any order; without
  the conditions a late fill leaves a stale balance (\<open>late_fill_is_stale\<close> below).
\<close>

definition databaseLoaders :: "billing_db \<Rightarrow> loaders" where
  "databaseLoaders db = \<lparr>lo_balance = (\<lambda>u. balance_of u db), lo_sub = (\<lambda>u g. None), lo_rate = None\<rparr>"

definition noFillOf :: "UsageChargeEvent \<Rightarrow> billing_service \<Rightarrow> bool" where
  "noFillOf ev s \<longleftrightarrow> (case ev_Command ev of None \<Rightarrow> True
     | Some cmd \<Rightarrow> BalanceCost cmd > 0 \<longrightarrow> queuedFills (UserID cmd) (bs_queue s) = [])"

inductive sys_step :: "(gostr \<Rightarrow> gostr) \<Rightarrow> system \<Rightarrow> system \<Rightarrow> bool" for sha where
  handle: "\<lbrakk>ce_up env = (\<lambda>_. True); sy_now s \<le> ce_now env; billable ev; noFillOf ev (sy_cache s);
      handleEvent sha tx env (Some ev) (consumerOf (sy_cache s), sy_db s) = (err, c, db)\<rbrakk> \<Longrightarrow>
    sys_step sha s (s\<lparr>sy_cache := theCache c (sy_cache s), sy_db := db, sy_now := ce_now env,
      sy_pending := (if err = None then removeAll ev (sy_pending s) else ev # sy_pending s)\<rparr>)"
| work: "\<lbrakk>ce_up env = (\<lambda>_. True); sy_now s \<le> ce_now env\<rbrakk> \<Longrightarrow>
    sys_step sha s (s\<lparr>sy_cache := cacheWriteWorker env i (sy_cache s), sy_now := ce_now env\<rparr>)"
| load: "\<lbrakk>ce_up env = (\<lambda>_. True); sy_now s \<le> ce_now env; queuedDeducts u (bs_queue (sy_cache s)) = []\<rbrakk> \<Longrightarrow>
    sys_step sha s (s\<lparr>sy_cache := snd (GetUserBalance env (databaseLoaders (sy_db s)) u (sy_cache s)), sy_now := ce_now env\<rparr>)"

inductive sys_steps :: "(gostr \<Rightarrow> gostr) \<Rightarrow> system \<Rightarrow> system \<Rightarrow> bool" for sha where
  stay: "sys_steps sha s s"
| step: "sys_step sha s s' \<Longrightarrow> sys_steps sha s' s'' \<Longrightarrow> sys_steps sha s s''"

text \<open>A queued fill holds the balance of the database, and no charge of its user is queued.\<close>

definition fillsCurrent :: "int64 \<Rightarrow> billing_service \<Rightarrow> billing_db \<Rightarrow> bool" where
  "fillsCurrent u s db \<longleftrightarrow> (\<forall>b \<in> set (queuedFills u (bs_queue s)). queuedDeducts u (bs_queue s) = [] \<and> balance_of u db = Some b)"

text \<open>What the cache says of a user, with the queued charges still to come.\<close>

definition cachedAfter :: "int64 \<Rightarrow> time \<Rightarrow> billing_service \<Rightarrow> rat option" where
  "cachedAfter u now s =
     map_option (\<lambda>b. b - sum_list (queuedDeducts u (bs_queue s))) (live now (bc_balance (bs_store s) u))"

definition agrees :: "int64 \<Rightarrow> time \<Rightarrow> billing_service \<Rightarrow> billing_db \<Rightarrow> bool" where
  "agrees u now s db \<longleftrightarrow> (\<forall>x bal. cachedAfter u now s = Some x \<and> balance_of u db = Some bal \<longrightarrow> x = bal)"

text \<open>An event that may already have charged a user although its delivery was reported as failed.\<close>

definition culprit :: "(gostr \<Rightarrow> gostr) \<Rightarrow> int64 \<Rightarrow> billing_db \<Rightarrow> UsageChargeEvent \<Rightarrow> bool" where
  "culprit sha u db ev \<longleftrightarrow> chargeable (normalizeUsageChargeEvent sha ev) \<and>
     (\<exists>cmd. ev_Command (normalizeUsageChargeEvent sha ev) = Some cmd \<and> UserID cmd = u \<and> BalanceCost cmd > 0 \<and>
        onePayer cmd \<and> claimed (RequestID cmd) (APIKeyID cmd) db)"

definition coherent :: "(gostr \<Rightarrow> gostr) \<Rightarrow> int64 \<Rightarrow> system \<Rightarrow> bool" where
  "coherent sha u s \<longleftrightarrow> bs_cache (sy_cache s) \<and> fillsCurrent u (sy_cache s) (sy_db s) \<and>
     (\<forall>bal. balance_of u (sy_db s) = Some bal \<longrightarrow> on_grid 8 bal) \<and>
     (agrees u (sy_now s) (sy_cache s) (sy_db s) \<or> (\<exists>ev \<in> set (sy_pending s). culprit sha u (sy_db s) ev))"

section \<open>What each step does to a cached balance\<close>

lemma queuedDeducts_append [simp]: "queuedDeducts u (xs @ ys) = queuedDeducts u xs @ queuedDeducts u ys"
  by (induction u xs rule: queuedDeducts.induct) auto

lemma queuedFills_append [simp]: "queuedFills u (xs @ ys) = queuedFills u xs @ queuedFills u ys"
  by (induction u xs rule: queuedFills.induct) auto

lemma live_later: "live now' e = Some v \<Longrightarrow> now \<le> now' \<Longrightarrow> live now e = Some v"
  by (auto simp: live_def split: option.splits if_splits)

lemma cachedAfter_later: "cachedAfter u now' s = Some x \<Longrightarrow> now \<le> now' \<Longrightarrow> cachedAfter u now s = Some x"
  by (auto simp: cachedAfter_def dest: live_later)

lemma agrees_later: "agrees u now s db \<Longrightarrow> now \<le> now' \<Longrightarrow> agrees u now' s db"
  unfolding agrees_def by (blast dest: cachedAfter_later)

lemma live_deduct:
  "live now (bc_balance (deductBalanceScript now v c ttl st) u) = Some b \<Longrightarrow>
     live now (bc_balance st u) = Some (if v = u then b + c else b)"
  by (auto simp: deductBalanceScript_def live_def split: option.splits if_splits)

lemma enqueue_simps:
  "enqueueCacheWrite t s = (ok, s') \<Longrightarrow> bs_store s' = bs_store s \<and> bs_cache s' = bs_cache s \<and>
     bs_queue s' = (if ok then bs_queue s @ [t] else bs_queue s)"
  by (auto simp: enqueueCacheWrite_def split: if_splits)

lemma QueueDeductBalance_cached:
  assumes "ce_up env = (\<lambda>_. True)" "bs_cache s" "cachedAfter u (ce_now env) (QueueDeductBalance env v c s) = Some x"
  shows "cachedAfter u (ce_now env) s = Some (if v = u then x + c else x)"
proof (cases "enqueueCacheWrite (TaskDeductBalance v c) s")
  case (Pair ok s')
  note e = enqueue_simps [OF Pair]
  show ?thesis
  proof (cases ok)
    case True
    with assms Pair e show ?thesis
      by (auto simp: QueueDeductBalance_def cachedAfter_def algebra_simps)
  next
    case False
    with assms(3) Pair obtain b where
      "live (ce_now env) (bc_balance (bs_store (upd_store (cacheDeductUserBalance env v c) s')) u) = Some b"
      "x = b - sum_list (queuedDeducts u (bs_queue s))"
      using assms(2) e by (auto simp: QueueDeductBalance_def cachedAfter_def upd_store_def)
    moreover from this have "live (ce_now env) (bc_balance (bs_store s) u) = Some (if v = u then b + c else b)"
      using e assms(1,2) live_deduct
      by (simp add: upd_store_def cacheDeductUserBalance_def cacheWrite_def)
    ultimately show ?thesis by (simp add: cachedAfter_def)
  qed
qed

lemma updateSubUsageScript_balance: "bc_balance (updateSubUsageScript now u g c ttl st) = bc_balance st"
  by (simp add: updateSubUsageScript_def split: option.split)

lemma updateRateLimitUsageScript_balance: "bc_balance (updateRateLimitUsageScript now k c ttl st) = bc_balance st"
  by (simp add: updateRateLimitUsageScript_def Let_def split: option.split)

lemma QueueUpdateSubscriptionUsage_cached:
  "cachedAfter u now (QueueUpdateSubscriptionUsage env v g c s) = cachedAfter u now s"
proof (cases "enqueueCacheWrite (TaskUpdateSubscriptionUsage v g c) s")
  case (Pair ok s')
  with enqueue_simps [OF Pair] show ?thesis
    by (cases ok) (simp_all add: QueueUpdateSubscriptionUsage_def cachedAfter_def upd_store_def
        cacheUpdateSubscriptionUsage_def cacheWrite_def updateSubUsageScript_balance)
qed

lemma QueueUpdateAPIKeyRateLimitUsage_cached:
  "cachedAfter u now (QueueUpdateAPIKeyRateLimitUsage k c s) = cachedAfter u now s"
  by (auto simp: QueueUpdateAPIKeyRateLimitUsage_def cachedAfter_def enqueueCacheWrite_def)

lemma Invalidate_cached:
  "cachedAfter u now (InvalidateSubscription env v g s) = cachedAfter u now s"
  "cachedAfter u now (InvalidateAPIKeyRateLimit env k s) = cachedAfter u now s"
  "ce_up env = (\<lambda>_. True) \<Longrightarrow> bs_cache s \<Longrightarrow>
     cachedAfter u now (InvalidateUserBalance env v s) = (if v = u then None else cachedAfter u now s)"
  by (simp_all add: cachedAfter_def InvalidateSubscription_def InvalidateAPIKeyRateLimit_def InvalidateUserBalance_def
      upd_store_def cacheInvalidateSubscriptionCache_def cacheInvalidateAPIKeyRateLimit_def cacheInvalidateUserBalance_def
      cacheWrite_def live_def)

lemma onePayer_balance: "onePayer cmd \<Longrightarrow> BalanceCost cmd > 0 \<Longrightarrow> \<not> chargesSubscription ev cmd"
  by (auto simp: onePayer_def chargesSubscription_def)

lemma updateBillingCache_cached:
  assumes "ce_up env = (\<lambda>_. True)" "bs_cache s" "onePayer cmd"
    and "cachedAfter u (ce_now env) (updateBillingCache env ev cmd s) = Some x"
  shows "cachedAfter u (ce_now env) s = Some (if UserID cmd = u \<and> BalanceCost cmd > 0 then x + BalanceCost cmd else x)"
  using assms onePayer_balance [OF assms(3), of ev] QueueDeductBalance_cached [OF assms(1,2)]
  by (auto simp: updateBillingCache_def Let_def QueueUpdateAPIKeyRateLimitUsage_cached
      QueueUpdateSubscriptionUsage_cached split: if_splits)

lemma repairBillingCache_cached:
  assumes "ce_up env = (\<lambda>_. True)" "bs_cache s" "onePayer cmd"
  shows "cachedAfter u now (repairBillingCache env ev cmd s) =
    (if UserID cmd = u \<and> BalanceCost cmd > 0 then None else cachedAfter u now s)"
  using assms onePayer_balance [OF assms(3), of ev]
  by (auto simp: repairBillingCache_def Let_def Invalidate_cached)

text \<open>What the handler leaves of the queue: no fill is added, and no charge of another user.\<close>

lemma queue_after [simp]:
  "bs_queue (upd_store f s) = bs_queue s" "bs_cache (upd_store f s) = bs_cache s"
  by (simp_all add: upd_store_def)

lemma Queue_queue:
  "bs_queue (QueueDeductBalance env v c s) \<in> {bs_queue s, bs_queue s @ [TaskDeductBalance v c]}"
  "bs_queue (QueueUpdateSubscriptionUsage env v g c s) \<in> {bs_queue s, bs_queue s @ [TaskUpdateSubscriptionUsage v g c]}"
  "bs_queue (QueueUpdateAPIKeyRateLimitUsage k c s) \<in> {bs_queue s, bs_queue s @ [TaskUpdateRateLimitUsage k c]}"
  by (auto simp: QueueDeductBalance_def QueueUpdateSubscriptionUsage_def QueueUpdateAPIKeyRateLimitUsage_def
      enqueueCacheWrite_def)

lemma Queue_cache [simp]:
  "bs_cache (QueueDeductBalance env v c s) = bs_cache s"
  "bs_cache (QueueUpdateSubscriptionUsage env v g c s) = bs_cache s"
  "bs_cache (QueueUpdateAPIKeyRateLimitUsage k c s) = bs_cache s"
  by (auto simp: QueueDeductBalance_def QueueUpdateSubscriptionUsage_def QueueUpdateAPIKeyRateLimitUsage_def
      enqueueCacheWrite_def)

lemma Queue_lists:
  "queuedFills u (bs_queue (QueueDeductBalance env v c s)) = queuedFills u (bs_queue s)"
  "queuedFills u (bs_queue (QueueUpdateSubscriptionUsage env v g c s)) = queuedFills u (bs_queue s)"
  "queuedFills u (bs_queue (QueueUpdateAPIKeyRateLimitUsage k c s)) = queuedFills u (bs_queue s)"
  "v \<noteq> u \<Longrightarrow> queuedDeducts u (bs_queue (QueueDeductBalance env v c s)) = queuedDeducts u (bs_queue s)"
  "queuedDeducts u (bs_queue (QueueUpdateSubscriptionUsage env v g c s)) = queuedDeducts u (bs_queue s)"
  "queuedDeducts u (bs_queue (QueueUpdateAPIKeyRateLimitUsage k c s)) = queuedDeducts u (bs_queue s)"
  using Queue_queue(1) [of env v c s] Queue_queue(2) [of env v g c s] Queue_queue(3) [of k c s] by auto

lemma updateBillingCache_queue:
  "bs_cache (updateBillingCache env ev cmd s) = bs_cache s"
  "queuedFills u (bs_queue (updateBillingCache env ev cmd s)) = queuedFills u (bs_queue s)"
  "\<not> (UserID cmd = u \<and> BalanceCost cmd > 0) \<Longrightarrow>
     queuedDeducts u (bs_queue (updateBillingCache env ev cmd s)) = queuedDeducts u (bs_queue s)"
  by (auto simp: updateBillingCache_def Let_def Queue_lists)

lemma repairBillingCache_queue [simp]:
  "bs_cache (repairBillingCache env ev cmd s) = bs_cache s" "bs_queue (repairBillingCache env ev cmd s) = bs_queue s"
  by (simp_all add: repairBillingCache_def Let_def InvalidateSubscription_def InvalidateUserBalance_def
      InvalidateAPIKeyRateLimit_def)

section \<open>What the handler does\<close>

lemma buildUsageBillingFingerprint_frame:
  "buildUsageBillingFingerprint sha (c\<lparr>RequestFingerprint := x\<rparr>) = buildUsageBillingFingerprint sha c"
  "buildUsageBillingFingerprint sha (c\<lparr>RequestID := x\<rparr>) = buildUsageBillingFingerprint sha c"
  "buildUsageBillingFingerprint sha (c\<lparr>RequestID := x, RequestFingerprint := y\<rparr>) = buildUsageBillingFingerprint sha c"
  by (simp_all add: buildUsageBillingFingerprint_def fingerprintFields_def)

lemma Normalize_idem: "Normalize sha (Normalize sha c) = Normalize sha c"
  by (cases "trim_space (RequestFingerprint c) = []")
    (simp_all add: Normalize_def Let_def buildUsageBillingFingerprint_frame)

lemma normalize_twice:
  "ev_Command ev = Some cmd \<Longrightarrow>
     normalizeUsageChargeEvent sha (ev\<lparr>ev_Command := Some (Normalize sha cmd)\<rparr>) = normalizeUsageChargeEvent sha ev"
  by (simp add: normalizeUsageChargeEvent_def Normalize_idem Let_def)

lemma ApplyUsageCharge_normalize:
  "ev_Command ev = Some cmd \<Longrightarrow>
     ApplyUsageCharge sha tx (ev\<lparr>ev_Command := Some (Normalize sha cmd)\<rparr>) db = ApplyUsageCharge sha tx ev db"
  by (simp add: ApplyUsageCharge_def normalize_twice)

lemma normalized_command:
  "ev_Command ev = Some cmd \<Longrightarrow> \<exists>c. ev_Command (normalizeUsageChargeEvent sha ev) = Some c \<and>
     UserID c = UserID cmd \<and> BalanceCost c = BalanceCost cmd \<and> SubscriptionCost c = SubscriptionCost cmd"
  by (simp add: normalizeUsageChargeEvent_def Let_def)

lemma handleEvent_eq:
  assumes "ev_Command ev = Some cmd0" and "ev_Command (normalizeUsageChargeEvent sha ev) = Some cmd"
  shows "handleEvent sha tx env (Some ev) (c, db) =
    (case ApplyUsageCharge sha tx ev db of
       (Inl err, db') \<Rightarrow> (Some err, recordApplyFailure (ce_now env) c, db')
     | (Inr result, db') \<Rightarrow> (None, afterApply env result (normalizeUsageChargeEvent sha ev) cmd c, db'))"
  using assms unfolding handleEvent_def
  by (simp add: ApplyUsageCharge_normalize normalize_twice Let_def split: prod.split sum.split)

text \<open>What a handled event did: nothing, a charge, or the repair of an earlier one.\<close>

lemma handleEvent_cases:
  assumes "billable ev" and "handleEvent sha tx env (Some ev) (consumerOf s, db) = (err, c, db')"
  obtains cmd where "ev_Command (normalizeUsageChargeEvent sha ev) = Some cmd" and "onePayer cmd" and "on_grid 8 (BalanceCost cmd)"
    and "noFillOf ev s \<Longrightarrow> BalanceCost cmd > 0 \<Longrightarrow> queuedFills (UserID cmd) (bs_queue s) = []"
    and "case err of
        Some e \<Rightarrow> theCache c s = s \<and> (charged sha (Deliver tx ev) db = [] \<or> charged sha (Deliver tx ev) db = [cmd])
      | None \<Rightarrow>
          if chargeable (normalizeUsageChargeEvent sha ev) \<and> \<not> claimed (RequestID cmd) (APIKeyID cmd) db
          then theCache c s = updateBillingCache env (normalizeUsageChargeEvent sha ev) cmd s \<and> charged sha (Deliver tx ev) db = [cmd]
          else theCache c s = repairBillingCache env (normalizeUsageChargeEvent sha ev) cmd s \<and> charged sha (Deliver tx ev) db = []"
    and "db' = bill_step sha (Deliver tx ev) db" and "charged sha (Deliver tx ev) db = [cmd] \<longrightarrow> chargeable (normalizeUsageChargeEvent sha ev)"
proof -
  obtain cmd0 where cmd0: "ev_Command ev = Some cmd0" "onePayer cmd0" "on_grid 8 (BalanceCost cmd0)"
    using assms(1) by (auto simp: billable_def)
  let ?e = "normalizeUsageChargeEvent sha ev"
  obtain cmd where cmd: "ev_Command ?e = Some cmd" "onePayer cmd" "on_grid 8 (BalanceCost cmd)"
    and fills: "noFillOf ev s \<Longrightarrow> BalanceCost cmd > 0 \<Longrightarrow> queuedFills (UserID cmd) (bs_queue s) = []"
    using normalized_command [OF cmd0(1), of sha] cmd0 by (auto simp: onePayer_def noFillOf_def)
  note handle = handleEvent_eq [OF cmd0(1) cmd(1), of tx env "consumerOf s" db]
  have db': "db' = bill_step sha (Deliver tx ev) db"
    using assms(2) unfolding handle by (auto split: prod.splits sum.splits)
  have after: "theCache (afterApply env r ?e cmd (consumerOf s)) s =
      (if Applied r then updateBillingCache env ?e cmd s else repairBillingCache env ?e cmd s)" for r
    by (simp add: afterApply_def consumerOf_def theCache_def recordApplySuccess_def Let_def)
  have ch: "charged sha (Deliver tx ev) db = [] \<or> charged sha (Deliver tx ev) db = [cmd]" using cmd(1) by simp
  have only: "charged sha (Deliver tx ev) db = [cmd] \<longrightarrow> chargeable ?e"
    using not_chargeable_free(2) [of sha ev "RequestID cmd" "APIKeyID cmd" tx db] cmd(1) by auto
  have "case err of
        Some e \<Rightarrow> theCache c s = s \<and> (charged sha (Deliver tx ev) db = [] \<or> charged sha (Deliver tx ev) db = [cmd])
      | None \<Rightarrow>
          if chargeable ?e \<and> \<not> claimed (RequestID cmd) (APIKeyID cmd) db
          then theCache c s = updateBillingCache env ?e cmd s \<and> charged sha (Deliver tx ev) db = [cmd]
          else theCache c s = repairBillingCache env ?e cmd s \<and> charged sha (Deliver tx ev) db = []"
  proof (cases "fst (ApplyUsageCharge sha tx ev db)")
    case (Inl e)
    then have "err = Some e \<and> c = recordApplyFailure (ce_now env) (consumerOf s)"
      using assms(2) unfolding handle by (auto split: prod.splits)
    then show ?thesis using ch by (simp add: recordApplyFailure_def consumerOf_def theCache_def)
  next
    case (Inr r)
    then have res: "err = None" "c = afterApply env r ?e cmd (consumerOf s)" "ApplyUsageCharge sha tx ev db = (Inr r, db')"
      using assms(2) unfolding handle by (auto split: prod.splits)
    then have body: "chargeBody tx ?e cmd db = Inr (r, db')"
      using cmd(1) by (auto simp: ApplyUsageCharge_def run_tx_def Let_def split: if_splits sum.splits commit_outcome.splits)
    from chargeBody_result(1) [OF body] chargeBody_result(2) [OF body, of "RequestID cmd" "APIKeyID cmd"] res cmd(1)
    show ?thesis by (auto simp: after)
  qed
  with cmd fills db' only show thesis by (intro that)
qed

section \<open>Coherence is kept\<close>

lemma on_grid_round_away: "on_grid k (round_away k x)"
proof -
  let ?n = "\<lfloor>\<bar>x\<bar> * 10 ^ k + 1 / 2\<rfloor>"
  have "round_away k x = of_int (if x < 0 then - ?n else if x = 0 then 0 else ?n) / 10 ^ k"
    by (simp add: round_away_def sgn_if)
  then show ?thesis unfolding on_grid_def by blast
qed

lemma on_grid_diff: "on_grid k x \<Longrightarrow> on_grid k y \<Longrightarrow> on_grid k (x - y)"
  by (auto simp: on_grid_def simp flip: diff_divide_distrib of_int_diff)

definition gridBalance :: "int64 \<Rightarrow> billing_db \<Rightarrow> bool" where
  "gridBalance u db \<longleftrightarrow> (\<forall>bal. balance_of u db = Some bal \<longrightarrow> on_grid 8 bal)"

lemma charge_balance_grid:
  "on_grid 8 bal \<Longrightarrow> on_grid 8 (BalanceCost cmd) \<Longrightarrow>
     charge_balance u cmd bal = (if UserID cmd = u \<and> BalanceCost cmd > 0 then bal - BalanceCost cmd else bal)"
  by (simp add: charge_balance_def round_away_on_grid on_grid_diff)

lemma culprit_step: "culprit sha u db ev \<Longrightarrow> culprit sha u (bill_step sha (Deliver tx ev') db) ev"
proof -
  have "claimed r k (bill_step sha (Deliver tx ev') db)" if "claimed r k db" for r k
    using Deliver_step [of r k sha tx ev' db undefined undefined] that by (simp del: bill_step.simps charged.simps)
  then show "culprit sha u db ev \<Longrightarrow> culprit sha u (bill_step sha (Deliver tx ev') db) ev"
    unfolding culprit_def by blast
qed

text \<open>One handled event, for one user.\<close>

lemma handle_coherent:
  assumes up: "ce_up env = (\<lambda>_. True)" and "sy_now s \<le> ce_now env" and "billable ev" and apart: "noFillOf ev (sy_cache s)"
    and h: "handleEvent sha tx env (Some ev) (consumerOf (sy_cache s), sy_db s) = (err, c, db)"
    and coh: "coherent sha u s"
  shows "coherent sha u (s\<lparr>sy_cache := theCache c (sy_cache s), sy_db := db, sy_now := ce_now env,
      sy_pending := (if err = None then removeAll ev (sy_pending s) else ev # sy_pending s)\<rparr>)"
proof -
  let ?e = "normalizeUsageChargeEvent sha ev" and ?s = "sy_cache s" and ?now = "ce_now env"
  define ch where "ch = charged sha (Deliver tx ev) (sy_db s)"
  obtain cmd where cmd: "ev_Command ?e = Some cmd" "onePayer cmd" "on_grid 8 (BalanceCost cmd)"
    and fills: "BalanceCost cmd > 0 \<Longrightarrow> queuedFills (UserID cmd) (bs_queue ?s) = []"
    and what: "case err of
        Some e \<Rightarrow> theCache c ?s = ?s \<and> (ch = [] \<or> ch = [cmd])
      | None \<Rightarrow>
          if chargeable ?e \<and> \<not> claimed (RequestID cmd) (APIKeyID cmd) (sy_db s)
          then theCache c ?s = updateBillingCache env ?e cmd ?s \<and> ch = [cmd]
          else theCache c ?s = repairBillingCache env ?e cmd ?s \<and> ch = []"
    and db: "db = bill_step sha (Deliver tx ev) (sy_db s)" and only: "ch = [cmd] \<longrightarrow> chargeable ?e"
    using handleEvent_cases [OF assms(3) h, folded ch_def] apart by blast
  note step = Deliver_step [where db = "sy_db s" and env = tx and ev = ev and sha = sha, folded db ch_def]
  have grid: "gridBalance u (sy_db s)" and q: "bs_cache ?s" and cur: "fillsCurrent u ?s (sy_db s)"
    and old: "agrees u (sy_now s) ?s (sy_db s) \<or> (\<exists>x \<in> set (sy_pending s). culprit sha u (sy_db s) x)"
    using coh by (auto simp: coherent_def gridBalance_def)
  have bal: "balance_of u db = map_option (fold (charge_balance u) ch) (balance_of u (sy_db s))" using step by blast
  let ?mine = "UserID cmd = u \<and> BalanceCost cmd > 0"
  have bal': "balance_of u db = map_option (\<lambda>b. if ch = [cmd] \<and> ?mine then b - BalanceCost cmd else b) (balance_of u (sy_db s))"
    using bal what grid charge_balance_grid [OF _ cmd(3), of _ u]
    by (cases "balance_of u (sy_db s)") (auto simp: gridBalance_def split: option.splits if_splits)
  have "gridBalance u db"
    using bal' grid cmd(3) by (auto simp: gridBalance_def intro: on_grid_diff split: if_splits)
  moreover have "bs_cache (theCache c ?s)"
    using what q by (auto simp: updateBillingCache_queue(1) split: option.splits if_splits)
  moreover have "fillsCurrent u (theCache c ?s) db"
  proof (cases ?mine)
    case True
    then have "queuedFills u (bs_queue (theCache c ?s)) = []"
      using what fills by (auto simp: updateBillingCache_queue(2) split: option.splits if_splits)
    then show ?thesis by (simp add: fillsCurrent_def)
  next
    case False
    then have "balance_of u db = balance_of u (sy_db s)" unfolding bal' by (auto simp: option.map_ident cong: option.map_cong)
    moreover have "queuedFills u (bs_queue (theCache c ?s)) = queuedFills u (bs_queue ?s)"
      "queuedDeducts u (bs_queue (theCache c ?s)) = queuedDeducts u (bs_queue ?s)"
      using what updateBillingCache_queue(3) [OF False] by (auto simp: updateBillingCache_queue(2) split: option.splits if_splits)
    ultimately show ?thesis using cur by (simp add: fillsCurrent_def)
  qed
  moreover have "agrees u ?now (theCache c ?s) db \<or>
      (\<exists>x \<in> set (if err = None then removeAll ev (sy_pending s) else ev # sy_pending s). culprit sha u db x)"
  proof -
    have keep: "culprit sha u db x" if "culprit sha u (sy_db s) x" for x
      using culprit_step [OF that] db by simp
    have old': "agrees u ?now ?s (sy_db s) \<or> (\<exists>x \<in> set (sy_pending s). culprit sha u (sy_db s) x)"
      using old agrees_later assms(2) by blast
    have now_culprit: "culprit sha u db ev" if "ch = [cmd]" "?mine"
    proof -
      have "(RequestID cmd, APIKeyID cmd) \<in> request_key ` set ch" using that(1) by simp
      then have "claimed (RequestID cmd) (APIKeyID cmd) db"
        using step [of "RequestID cmd" "APIKeyID cmd"] by blast
      then show ?thesis using that only cmd(1,2) unfolding culprit_def by blast
    qed
    have was: "culprit sha u (sy_db s) ev \<longleftrightarrow> chargeable ?e \<and> ?mine \<and> claimed (RequestID cmd) (APIKeyID cmd) (sy_db s)"
      using cmd(1,2) by (auto simp: culprit_def)
    show ?thesis
    proof (cases err)
      case (Some e)
      then have "theCache c ?s = ?s" "ch = [] \<or> ch = [cmd]" using what by simp_all
      note same = this(1)
      show ?thesis
      proof (cases "ch = [cmd] \<and> ?mine")
        case True
        with now_culprit Some show ?thesis by auto
      next
        case False
        then have "balance_of u db = balance_of u (sy_db s)"
          unfolding bal' by (cases "balance_of u (sy_db s)") (simp_all only: option.map if_False simp_thms)
        then have "agrees u ?now ?s db = agrees u ?now ?s (sy_db s)" by (simp add: agrees_def)
        with old' keep same Some show ?thesis by auto
      qed
    next
      case err: None
      show ?thesis
      proof (cases "chargeable ?e \<and> \<not> claimed (RequestID cmd) (APIKeyID cmd) (sy_db s)")
        case True
        with err what have upd: "theCache c ?s = updateBillingCache env ?e cmd ?s" "ch = [cmd]" by simp_all
        have "agrees u ?now (theCache c ?s) db" if "agrees u ?now ?s (sy_db s)"
        proof -
          have "x = bal" if x: "cachedAfter u ?now (theCache c ?s) = Some x" and bal: "balance_of u db = Some bal" for x bal
          proof -
            have "cachedAfter u ?now ?s = Some (if ?mine then x + BalanceCost cmd else x)"
              using updateBillingCache_cached [OF up _ cmd(2), of ?s u ?e x] x upd(1) q by simp
            moreover obtain b0 where "balance_of u (sy_db s) = Some b0" "bal = (if ?mine then b0 - BalanceCost cmd else b0)"
              using bal unfolding bal' by (auto simp: upd(2) split: if_splits)
            ultimately have "(if ?mine then x + BalanceCost cmd else x) = b0"
              "bal = (if ?mine then b0 - BalanceCost cmd else b0)"
              using \<open>agrees u ?now ?s (sy_db s)\<close> unfolding agrees_def by blast+
            then show ?thesis by (cases ?mine) simp_all
          qed
          then show ?thesis unfolding agrees_def by blast
        qed
        then show ?thesis using True err old' keep was by auto
      next
        case False
        with err what have rep: "theCache c ?s = repairBillingCache env ?e cmd ?s" "ch = []" by auto
        have cached: "cachedAfter u ?now (theCache c ?s) = (if ?mine then None else cachedAfter u ?now ?s)"
          using rep repairBillingCache_cached [OF up _ cmd(2)] q by simp
        then show ?thesis
          using rep bal' err old' keep was by (auto simp: agrees_def split: if_splits)
      qed
    qed
  qed
  ultimately show ?thesis by (simp add: coherent_def gridBalance_def)
qed

text \<open>The queue around the task that a worker finishes.\<close>

lemma queue_split:
  assumes "i < length q"
  shows "queuedDeducts u q = queuedDeducts u (take i q) @ queuedDeducts u [q ! i] @ queuedDeducts u (drop (Suc i) q)"
    and "queuedFills u q = queuedFills u (take i q) @ queuedFills u [q ! i] @ queuedFills u (drop (Suc i) q)"
  by (subst id_take_nth_drop [OF assms], simp flip: queuedDeducts_append queuedFills_append)+

lemma runTask_balance:
  assumes "ce_up env = (\<lambda>_. True)" "queuedFills u [t] = []"
    and "live (ce_now env) (bc_balance (runTask env t st) u) = Some b"
  shows "live (ce_now env) (bc_balance st u) = Some (b + sum_list (queuedDeducts u [t]))"
  using assms
  by (cases t) (auto simp: cacheSetSubscriptionCache_def cacheUpdateSubscriptionUsage_def cacheDeductUserBalance_def
      cacheSetUserBalance_def cacheUpdateAPIKeyRateLimitUsage_def cacheWrite_def updateSubUsageScript_balance
      updateRateLimitUsageScript_balance split: if_splits dest: live_deduct)

lemma runTask_fill:
  assumes "ce_up env = (\<lambda>_. True)" "queuedFills u [t] = [b]" "live (ce_now env) (bc_balance (runTask env t st) u) = Some x"
  shows "x = b"
  using assms by (cases t) (auto simp: cacheSetUserBalance_def cacheWrite_def live_def split: if_splits)

lemma work_agrees:
  assumes "ce_up env = (\<lambda>_. True)" "bs_cache s" "fillsCurrent u s db"
    and "agrees u (ce_now env) s db \<or> P"
  shows "agrees u (ce_now env) (cacheWriteWorker env i s) db \<or> P"
    and "fillsCurrent u (cacheWriteWorker env i s) db" and "bs_cache (cacheWriteWorker env i s)"
proof -
  show "bs_cache (cacheWriteWorker env i s)" using assms(2) by (simp add: cacheWriteWorker_def)
  show "fillsCurrent u (cacheWriteWorker env i s) db"
    using assms(3) queue_split [of i "bs_queue s" u] by (auto simp: fillsCurrent_def cacheWriteWorker_def)
  have "agrees u (ce_now env) (cacheWriteWorker env i s) db" if old: "agrees u (ce_now env) s db" "i < length (bs_queue s)"
    "queuedFills u [bs_queue s ! i] = []"
    unfolding agrees_def
  proof (intro allI impI, elim conjE)
    fix x bal assume x: "cachedAfter u (ce_now env) (cacheWriteWorker env i s) = Some x" and bal: "balance_of u db = Some bal"
    from x old(2) assms(2) obtain b where
      b: "live (ce_now env) (bc_balance (runTask env (bs_queue s ! i) (bs_store s)) u) = Some b"
      "x = b - sum_list (queuedDeducts u (take i (bs_queue s) @ drop (Suc i) (bs_queue s)))"
      by (auto simp: cacheWriteWorker_def cachedAfter_def)
    from runTask_balance [OF assms(1) old(3) b(1)] b(2) have "cachedAfter u (ce_now env) s = Some x"
      using queue_split(1) [OF old(2), of u] by (simp add: cachedAfter_def)
    with old(1) bal show "x = bal" unfolding agrees_def by blast
  qed
  moreover have "agrees u (ce_now env) (cacheWriteWorker env i s) db" if i: "i < length (bs_queue s)"
    and filled: "queuedFills u [bs_queue s ! i] \<noteq> []"
  proof -
    obtain b where fill: "queuedFills u [bs_queue s ! i] = [b]"
      using filled by (cases "bs_queue s ! i") (auto split: if_splits)
    have "b \<in> set (queuedFills u (bs_queue s))" using queue_split(2) [OF i, of u] fill by simp
    then have cur: "balance_of u db = Some b" "queuedDeducts u (bs_queue s) = []"
      using assms(3) by (auto simp: fillsCurrent_def)
    have none: "queuedDeducts u (bs_queue (cacheWriteWorker env i s)) = []"
      using i cur(2) queue_split(1) [OF i, of u] by (simp add: cacheWriteWorker_def)
    then show ?thesis
      using runTask_fill [OF assms(1) fill] i assms(2) cur(1)
      by (auto simp: agrees_def cachedAfter_def) (auto simp: cacheWriteWorker_def)
  qed
  moreover have "cacheWriteWorker env i s = s" if "\<not> i < length (bs_queue s)" using that by (simp add: cacheWriteWorker_def)
  ultimately show "agrees u (ce_now env) (cacheWriteWorker env i s) db \<or> P"
    using assms(4) by metis
qed

lemma load_agrees:
  fixes env db v s
  defines "s' \<equiv> snd (GetUserBalance env (databaseLoaders db) v s)"
  assumes "queuedDeducts v (bs_queue s) = []" "fillsCurrent u s db"
  shows "cachedAfter u now s' = cachedAfter u now s" and "fillsCurrent u s' db" and "bs_cache s' = bs_cache s"
proof -
  have "s' = s \<or> (\<exists>b. balance_of v db = Some b \<and> s' = s\<lparr>bs_queue := bs_queue s @ [TaskSetBalance v b]\<rparr>)"
    by (auto simp: s'_def GetUserBalance_def databaseLoaders_def enqueueCacheWrite_def split: sum.split option.split)
  then show "cachedAfter u now s' = cachedAfter u now s" and "fillsCurrent u s' db" and "bs_cache s' = bs_cache s"
    using assms(2,3) by (auto simp: cachedAfter_def fillsCurrent_def split: if_splits)
qed

lemma sys_step_coherent: "sys_step sha s s' \<Longrightarrow> coherent sha u s \<Longrightarrow> coherent sha u s'"
proof (induction rule: sys_step.induct)
  case (handle env s ev tx err c db)
  then show ?case by (intro handle_coherent)
next
  case (work env s i)
  then have "bs_cache (sy_cache s)" "fillsCurrent u (sy_cache s) (sy_db s)"
    "agrees u (ce_now env) (sy_cache s) (sy_db s) \<or> (\<exists>ev \<in> set (sy_pending s). culprit sha u (sy_db s) ev)"
    using agrees_later [OF _ work(2)] by (auto simp: coherent_def)
  from work_agrees [OF work(1) this] work(3) show ?case by (simp add: coherent_def)
next
  case (load env s v)
  note ld = load_agrees [OF load(3), of u "sy_db s"]
  have "fillsCurrent u (sy_cache s) (sy_db s)" using load(4) by (simp add: coherent_def)
  note ld = ld [OF this]
  have "agrees u (ce_now env) (snd (GetUserBalance env (databaseLoaders (sy_db s)) v (sy_cache s))) (sy_db s)"
    if "agrees u (sy_now s) (sy_cache s) (sy_db s)"
    using agrees_later [OF that load(2)] unfolding agrees_def ld(1) .
  with load(4) ld(2,3) show ?case by (auto simp: coherent_def)
qed

lemma sys_steps_coherent: "sys_steps sha s s' \<Longrightarrow> coherent sha u s \<Longrightarrow> coherent sha u s'"
  by (induction rule: sys_steps.induct) (auto intro: sys_step_coherent)

text \<open>
  C21. The cached balance converges to the database.  The setting: every event carries a command
  with one payer whose balance cost has at most 8 decimals, Redis is reachable, the stored balance
  has at most 8 decimals, and the reads of a user's balance do not overlap the charges of that
  user (no charge is handled while a fill of its payer is queued, and none is queued when the
  balance is read).  From a state in which nothing is queued and the cache is empty for a user,
  after any sequence of deliveries (with failing statements and commits of unknown outcome), of
  reads that queue a fill on a miss, and of workers finishing queued tasks in any order: once
  every failed event has been redelivered successfully, a cached balance of the user, less the
  charges still in the queue, is the balance in the database.
\<close>

theorem cached_balance_converges:
  assumes "sys_steps sha s s'" and "bs_cache (sy_cache s)" and "bs_queue (sy_cache s) = []"
    and "bc_balance (bs_store (sy_cache s)) u = None" and "gridBalance u (sy_db s)"
    and "sy_pending s' = []" and "live (sy_now s') (bc_balance (bs_store (sy_cache s')) u) = Some b"
    and "balance_of u (sy_db s') = Some bal"
  shows "b - sum_list (queuedDeducts u (bs_queue (sy_cache s'))) = bal"
proof -
  have "coherent sha u s"
    using assms(2-5) by (simp add: coherent_def fillsCurrent_def gridBalance_def agrees_def cachedAfter_def live_def)
  from sys_steps_coherent [OF assms(1) this] assms(6-8) show ?thesis
    by (simp add: coherent_def agrees_def cachedAfter_def)
qed

definition freshSystem :: system where
  "freshSystem = \<lparr>sy_cache = \<lparr>bs_cache = True, bs_store = \<lparr>bc_balance = Map.empty, bc_sub = Map.empty, bc_rate = Map.empty\<rparr>,
     bs_queue = [], bs_stopped = False, bs_chanOpen = True\<rparr>, sy_db = exampleDB, sy_now = 0, sy_pending = []\<rparr>"

definition reachable :: "time \<Rightarrow> cache_env" where
  "reachable now = \<lparr>ce_now = now, ce_jitter = 0, ce_up = (\<lambda>_. True)\<rparr>"

lemma exampleEvent_billable: "billable exampleEvent"
proof -
  have "on_grid 8 (1 / 4)" unfolding on_grid_def by (rule exI [of _ 25000000]) simp
  then show ?thesis by (auto simp: billable_def onePayer_def) (simp_all add: exampleCmd_def)
qed

theorem cached_balance_converges_witness:
  "\<exists>s'. sys_steps exampleSha freshSystem s' \<and> live (sy_now s') (bc_balance (bs_store (sy_cache s')) 7) = Some (round_away 8 (10 - 1 / 4)) \<and>
     balance_of 7 (sy_db s') = Some (round_away 8 (10 - 1 / 4))"
proof -
  let ?tx = exampleTx and ?ev = exampleEvent and ?c = "consumerOf (sy_cache freshSystem)"
  have cmd: "ev_Command (normalizeUsageChargeEvent exampleSha ?ev) = Some exampleCmd" by (simp add: exampleEvent_normal)
  note eq = handleEvent_eq [OF exampleEvent_simps(1) cmd]
  obtain db1 where apply1: "ApplyUsageCharge exampleSha (?tx CommitUnknown) ?ev exampleDB = (Inl ErrSQL, db1)"
    and row: "db_dedup db1 = [\<lparr>dd_request = ''r1'', dd_key = 3, dd_fingerprint = ''f1'', dd_created = 100\<rparr>]"
    and ledger: "db_ledger db1 = [ledgerRow (?tx CommitUnknown) ?ev exampleCmd]"
    and bal1: "balance_of 7 db1 = Some (round_away 8 (10 - 1 / 4))"
    by (simp add: eval_billing exampleCmd_simps exampleDB_def balance_of_def Let_def)
  have "list_ex (ledgerConflict (kind_of_string (ev_Kind ?ev)) (ledgerRow (?tx CommitOK) ?ev exampleCmd)) (db_ledger db1)"
    by (simp add: ledger ledgerConflict_def ledgerRow_def)
  then have persist: "persistBillingLedger (?tx CommitOK) ?ev db1 = Inr ((), db1)"
    by (simp add: persistBillingLedger_def sql_def exampleTx_def Let_def)
  have "claimUsageBillingKey (?tx CommitOK) exampleCmd db1 = Inr (False, db1)"
    using row by (simp add: eval_billing exampleCmd_simps)
  then have apply2: "ApplyUsageCharge exampleSha (?tx CommitOK) ?ev db1 = (Inr emptyResult, db1)"
    using persist
    by (simp add: ApplyUsageCharge_def exampleEvent_normal run_tx_def chargeBody_def tx_bind_def tx_return_def
        recordUsageLog_def exampleCmd_simps emptyResult_def exampleTx_def Let_def)
  define s1 where "s1 = freshSystem\<lparr>sy_db := db1, sy_now := 1, sy_pending := [?ev]\<rparr>"
  have cached: "theCache (recordApplyFailure t ?c) (sy_cache freshSystem) = sy_cache freshSystem" for t
    by (simp add: theCache_def recordApplyFailure_def consumerOf_def)
  have step1: "sys_step exampleSha freshSystem s1"
    using sys_step.handle [of "reachable 1" freshSystem ?ev exampleSha "?tx CommitUnknown"] exampleEvent_billable apply1 cached
    by (simp add: eq reachable_def s1_def freshSystem_def noFillOf_def split: option.split)
  have repaired: "theCache (afterApply (reachable 2) emptyResult ?ev exampleCmd ?c) (sy_cache freshSystem) = sy_cache freshSystem"
    by (simp add: afterApply_def emptyResult_def consumerOf_def theCache_def recordApplySuccess_def Let_def repairBillingCache_def
        chargesSubscription_def exampleCmd_simps InvalidateUserBalance_def cacheInvalidateUserBalance_def cacheWrite_def
        upd_store_def freshSystem_def)
  define s2 where "s2 = freshSystem\<lparr>sy_db := db1, sy_now := 2, sy_pending := []\<rparr>"
  have step2: "sys_step exampleSha s1 s2"
    using sys_step.handle [of "reachable 2" s1 ?ev exampleSha "?tx CommitOK"] exampleEvent_billable apply2 repaired
    by (simp add: eq exampleEvent_normal reachable_def s1_def s2_def freshSystem_def noFillOf_def split: option.split)
  define s3 where "s3 = s2\<lparr>sy_cache := snd (GetUserBalance (reachable 3) (databaseLoaders db1) 7 (sy_cache s2)), sy_now := 3\<rparr>"
  have step3: "sys_step exampleSha s2 s3"
    using sys_step.load [of "reachable 3" s2 7 exampleSha] by (simp add: reachable_def s2_def s3_def freshSystem_def)
  have queued: "bs_queue (sy_cache s3) = [TaskSetBalance 7 (round_away 8 (10 - 1 / 4))]"
    using bal1
    by (simp add: s3_def s2_def freshSystem_def GetUserBalance_def databaseLoaders_def reachable_def cacheGetUserBalance_def
        live_def enqueueCacheWrite_def cacheWriteBufferSize_def)
  define s4 where "s4 = s3\<lparr>sy_cache := cacheWriteWorker (reachable 4) 0 (sy_cache s3), sy_now := 4\<rparr>"
  have step4: "sys_step exampleSha s3 s4"
    using sys_step.work [of "reachable 4" s3 exampleSha 0] by (simp add: reachable_def s3_def s4_def)
  have run: "sys_steps exampleSha freshSystem s4"
    by (rule sys_steps.step [OF step1 sys_steps.step [OF step2 sys_steps.step [OF step3 sys_steps.step [OF step4 sys_steps.stay]]]])
  have on: "bs_cache (sy_cache s3)"
    by (simp add: s3_def s2_def freshSystem_def GetUserBalance_def enqueueCacheWrite_def split: sum.split option.split)
  have s3: "sy_db s4 = db1" "sy_pending s4 = []" "sy_now s4 = 4" "bs_queue (sy_cache s4) = []"
    using queued by (simp_all add: s4_def s3_def s2_def cacheWriteWorker_def)
  obtain b where b: "live 4 (bc_balance (bs_store (sy_cache s4)) 7) = Some b"
    using queued on
    by (simp add: s4_def cacheWriteWorker_def live_def reachable_def cacheSetUserBalance_def cacheWrite_def
        jitteredTTL_def billingCacheTTL_def billingCacheJitter_def)
  have "on_grid 8 10" unfolding on_grid_def by (rule exI [of _ 1000000000]) simp
  then have grid: "gridBalance 7 (sy_db freshSystem)"
    by (simp add: gridBalance_def freshSystem_def balance_of_def exampleDB_def)
  have "b - sum_list (queuedDeducts 7 (bs_queue (sy_cache s4))) = round_away 8 (10 - 1 / 4)"
    by (rule cached_balance_converges [OF run _ _ _ grid]) (use s3 b bal1 in \<open>simp_all add: freshSystem_def\<close>)
  with run s3 b bal1 show ?thesis by auto
qed

text \<open>
  The side conditions are needed, since the workers take tasks in any order: a user with balance
  10 is read and the fill is queued, a charge of 1/4 is handled, and its deduction (of a missing
  entry) overtakes the fill.  The cache then says 10 while the database says 9.75, until the entry
  expires or is invalidated.
\<close>

lemma late_fill_is_stale:
  fixes now :: time
  defines "env \<equiv> reachable now"
  defines "read \<equiv> snd (GetUserBalance env (databaseLoaders exampleDB) 7 (sy_cache freshSystem))"
  defines "overtaken \<equiv> cacheWriteWorker env 0 (cacheWriteWorker env 1 (QueueDeductBalance env 7 (1 / 4) read))"
  shows "live now (bc_balance (bs_store overtaken) 7) = Some 10" and "bs_queue overtaken = []"
proof -
  have "balance_of 7 exampleDB = Some 10" by (simp add: exampleDB_def balance_of_def)
  then have read: "read = (sy_cache freshSystem)\<lparr>bs_queue := [TaskSetBalance 7 10]\<rparr>"
    by (simp add: read_def env_def freshSystem_def GetUserBalance_def databaseLoaders_def reachable_def cacheGetUserBalance_def
        live_def enqueueCacheWrite_def cacheWriteBufferSize_def)
  show "live now (bc_balance (bs_store overtaken) 7) = Some 10" and "bs_queue overtaken = []"
    by (simp_all add: overtaken_def read env_def freshSystem_def reachable_def QueueDeductBalance_def enqueueCacheWrite_def
        cacheWriteBufferSize_def cacheWriteWorker_def cacheDeductUserBalance_def deductBalanceScript_def cacheWrite_def
        cacheSetUserBalance_def live_def jitteredTTL_def billingCacheTTL_def billingCacheJitter_def)
qed

end
