(* ===== verification/Go_Sort.thy ===== *)
theory Go_Sort
  imports Prelude "HOL-Library.Multiset"
begin

text \<open>
  What the program uses of Go's \<open>sort\<close> and \<open>math/rand\<close> on slices: \<open>sort.SliceStable\<close> (and
  \<open>sort.Slice\<close>, where the order is total) with a \<open>less\<close> function, \<open>rand.Intn\<close> and
  \<open>rand.Shuffle\<close>, and the shuffling of the runs of equal elements of a sorted slice.  The random
  numbers are an argument; what is proved holds for all of them.
\<close>

section \<open>Sorting by a less function\<close>

fun insert_by :: "('a \<Rightarrow> 'a \<Rightarrow> bool) \<Rightarrow> 'a \<Rightarrow> 'a list \<Rightarrow> 'a list" where
  "insert_by lt x [] = [x]"
| "insert_by lt x (y # ys) = (if lt y x then y # insert_by lt x ys else x # y # ys)"

definition sort_by :: "('a \<Rightarrow> 'a \<Rightarrow> bool) \<Rightarrow> 'a list \<Rightarrow> 'a list" where
  "sort_by lt xs = foldr (insert_by lt) xs []"

lemma sort_by_simps [simp]:
  "sort_by lt [] = []"
  "sort_by lt (x # xs) = insert_by lt x (sort_by lt xs)"
  by (simp_all add: sort_by_def)

lemma mset_insert_by [simp]: "mset (insert_by lt x xs) = add_mset x (mset xs)"
  by (induction xs) auto

lemma mset_sort_by [simp]: "mset (sort_by lt xs) = mset xs"
  by (induction xs) auto

lemma set_sort_by [simp]: "set (sort_by lt xs) = set xs"
  by (metis mset_sort_by set_mset_mset)

lemma length_sort_by [simp]: "length (sort_by lt xs) = length xs"
  by (metis mset_sort_by size_mset)

lemma set_insert_by [simp]: "set (insert_by lt x xs) = insert x (set xs)"
  by (induction xs) auto

locale strict_weak =
  fixes lt :: "'a \<Rightarrow> 'a \<Rightarrow> bool"
  assumes asym: "lt x y \<Longrightarrow> \<not> lt y x"
    and split: "lt x y \<Longrightarrow> lt x z \<or> lt z y"
begin

lemma irrefl: "\<not> lt x x"
  using asym by blast

lemma trans: "lt x y \<Longrightarrow> lt y z \<Longrightarrow> lt x z"
  using split asym by blast

lemma not_less_trans: "\<not> lt y x \<Longrightarrow> \<not> lt z y \<Longrightarrow> \<not> lt z x"
  using split by blast

lemma sorted_insert_by:
  "sorted_wrt (\<lambda>x y. \<not> lt y x) xs \<Longrightarrow> sorted_wrt (\<lambda>x y. \<not> lt y x) (insert_by lt z xs)"
proof (induction xs)
  case (Cons y ys)
  show ?case
  proof (cases "lt y z")
    case True
    then have "\<not> lt z y" by (rule asym)
    with Cons True show ?thesis by simp
  next
    case False
    with Cons.prems show ?thesis by simp (meson not_less_trans)
  qed
qed simp

lemma sorted_sort_by: "sorted_wrt (\<lambda>x y. \<not> lt y x) (sort_by lt xs)"
  by (induction xs) (auto intro: sorted_insert_by)

lemma hd_sort_by:
  assumes "sort_by lt xs = y # ys" and "z \<in> set xs"
  shows "\<not> lt z y"
proof -
  have "z \<in> set (y # ys)" using assms set_sort_by [of lt xs] by simp
  moreover have "\<forall>w \<in> set ys. \<not> lt w y" using sorted_sort_by [of xs] assms(1) by simp
  ultimately show ?thesis using irrefl by auto
qed

end

section \<open>Random choice and shuffling\<close>

definition swap_at :: "nat \<Rightarrow> nat \<Rightarrow> 'a list \<Rightarrow> 'a list" where
  "swap_at i j xs = xs[i := xs ! j, j := xs ! i]"

lemma mset_swap_at [simp]: "i < length xs \<Longrightarrow> j < length xs \<Longrightarrow> mset (swap_at i j xs) = mset xs"
  unfolding swap_at_def by (rule mset_swap)

lemma length_swap_at [simp]: "length (swap_at i j xs) = length xs"
  by (simp add: swap_at_def)

fun shuffle_from :: "(nat \<Rightarrow> nat) \<Rightarrow> nat \<Rightarrow> 'a list \<Rightarrow> 'a list" where
  "shuffle_from rnd 0 xs = xs"
| "shuffle_from rnd (Suc i) xs = shuffle_from rnd i (swap_at (Suc i) (rnd (Suc i) mod (Suc i + 1)) xs)"

definition Shuffle :: "(nat \<Rightarrow> nat) \<Rightarrow> 'a list \<Rightarrow> 'a list" where
  "Shuffle rnd xs = shuffle_from rnd (length xs - 1) xs"

lemma mset_shuffle_from [simp]: "i < length xs \<Longrightarrow> mset (shuffle_from rnd i xs) = mset xs"
proof (induction i arbitrary: xs)
  case (Suc i)
  have "rnd (Suc i) mod (Suc i + 1) < Suc i + 1" by simp
  then have "rnd (Suc i) mod (Suc i + 1) < length xs" using Suc.prems by linarith
  with Suc show ?case by simp
qed simp

lemma mset_Shuffle [simp]: "mset (Shuffle rnd xs) = mset xs"
  by (cases xs) (simp_all add: Shuffle_def)

lemma set_Shuffle [simp]: "set (Shuffle rnd xs) = set xs"
  by (metis mset_Shuffle set_mset_mset)

lemma Shuffle_single [simp]: "Shuffle rnd [x] = [x]"
  by (simp add: Shuffle_def)

definition Intn :: "nat \<Rightarrow> nat \<Rightarrow> nat" where
  "Intn draw n = draw mod n"

lemma Intn_less: "0 < n \<Longrightarrow> Intn draw n < n"
  by (simp add: Intn_def)

text \<open>
  The runs of a slice: a maximal block whose elements are all \<open>same\<close> as its first one.  \<open>f\<close>
  rearranges a run, given the index at which it starts.
\<close>

function map_runs :: "(nat \<Rightarrow> 'a list \<Rightarrow> 'a list) \<Rightarrow> ('a \<Rightarrow> 'a \<Rightarrow> bool) \<Rightarrow> nat \<Rightarrow> 'a list \<Rightarrow> 'a list" where
  "map_runs f same i [] = []"
| "map_runs f same i (x # xs) =
     f i (x # takeWhile (same x) xs) @
     map_runs f same (i + Suc (length (takeWhile (same x) xs))) (dropWhile (same x) xs)"
  by pat_completeness auto
termination
  by (relation "measure (\<lambda>(f, same, i, xs). length xs)")
    (simp_all add: length_dropWhile_le le_imp_less_Suc)

lemma mset_map_runs:
  assumes "\<And>i g. mset (f i g) = mset g"
  shows "mset (map_runs f same i xs) = mset xs"
proof (induction xs arbitrary: i rule: length_induct)
  case (1 ys)
  show ?case
  proof (cases ys)
    case (Cons x xs)
    have "length (dropWhile (same x) xs) < length ys"
      by (simp add: Cons length_dropWhile_le le_imp_less_Suc)
    with 1 have rest: "mset (map_runs f same j (dropWhile (same x) xs)) = mset (dropWhile (same x) xs)" for j
      by blast
    have "mset xs = mset (takeWhile (same x) xs) + mset (dropWhile (same x) xs)"
      by (metis mset_append takeWhile_dropWhile_id)
    with rest show ?thesis by (simp add: Cons assms)
  qed simp
qed

lemma set_mset_eq: "mset xs = mset ys \<Longrightarrow> set xs = set ys"
  by (metis set_mset_mset)

text \<open>
  Rearranging runs keeps a slice sorted by any order that does not tell the elements of a run
  apart.
\<close>

lemma sorted_map_runs:
  assumes perm: "\<And>i g. mset (f i g) = mset g"
    and same: "\<And>x y. same x y \<Longrightarrow> k x = k y"
    and "sorted (map k xs)"
  shows "sorted (map k (map_runs f same i xs))"
  using assms(3)
proof (induction xs arbitrary: i rule: length_induct)
  case (1 ys)
  show ?case
  proof (cases ys)
    case (Cons x xs)
    let ?g = "x # takeWhile (same x) xs" and ?r = "dropWhile (same x) xs"
    have ys: "ys = ?g @ ?r" by (simp add: Cons)
    have "length ?r < length ys" by (simp add: Cons length_dropWhile_le le_imp_less_Suc)
    moreover have "sorted (map k ?r)" using 1(2) ys by (metis map_append sorted_append)
    ultimately have rest: "sorted (map k (map_runs f same j ?r))" for j using 1(1) by blast
    have setr: "set (map_runs f same j ?r) = set ?r" for j
      by (rule set_mset_eq) (rule mset_map_runs [OF perm])
    have setg: "set (f i ?g) = set ?g" by (rule set_mset_eq) (rule perm)
    have "k y = k x" if "y \<in> set ?g" for y
    proof -
      from that consider "y = x" | "y \<in> set (takeWhile (same x) xs)" by auto
      then show ?thesis
      proof cases
        case 2
        then have "same x y" by (rule set_takeWhileD [THEN conjunct2])
        then have "k x = k y" by (rule same)
        then show ?thesis ..
      qed (rule arg_cong)
    qed
    then have const: "k y = k x" if "y \<in> set (f i ?g)" for y
      using that unfolding setg by blast
    then have "map k (f i ?g) = replicate (length (f i ?g)) (k x)"
      by (intro replicate_eqI) auto
    then have g: "sorted (map k (f i ?g))" by simp
    have "k x \<le> k z" if "z \<in> set ?r" for z
      using 1(2) that by (auto simp: Cons dest: set_dropWhileD)
    then have "k y \<le> k z" if "y \<in> set (f i ?g)" "z \<in> set (map_runs f same j ?r)" for y z j
      using that const setr by metis
    with rest g show ?thesis by (simp add: Cons sorted_append)
  qed simp
qed

lemma map_runs_cong_set: "(\<And>i g. mset (f i g) = mset g) \<Longrightarrow> set (map_runs f same i xs) = set xs"
  by (rule set_mset_eq) (rule mset_map_runs)

end
