(* ===== verification/Model_Mapping.thy ===== *)
theory Model_Mapping
  imports Account Go_Sort
begin

text \<open>
  Which models an account serves and under which name it asks the upstream for them: the
  \<open>model_mapping\<close> of its credentials with trailing wildcards (\<open>internal/service/account.go\<close>),
  the defaults of Antigravity and Bedrock (\<open>internal/domain/constants.go\<close>,
  \<open>bedrock_request.go\<close>, \<open>mapAntigravityModel\<close>), and the rate limits that a single model has on an
  account (\<open>model_rate_limit.go\<close>, \<open>antigravity_quota_scope.go\<close>).

  A Go map is an association list with distinct keys, in the order in which one \<open>range\<close> loop
  visits it.
\<close>

section \<open>Patterns\<close>

definition matchWildcard :: "gostr \<Rightarrow> gostr \<Rightarrow> bool" where
  "matchWildcard pattern str =
     (if pattern \<noteq> [] \<and> last pattern = CHR ''*'' then has_prefix str (butlast pattern) else pattern = str)"

text \<open>Comparison of strings by their bytes.\<close>

fun str_less :: "gostr \<Rightarrow> gostr \<Rightarrow> bool" where
  "str_less [] [] = False"
| "str_less [] (d # t) = True"
| "str_less (c # s) [] = False"
| "str_less (c # s) (d # t) =
     ((of_char c :: nat) < of_char d \<or> (c = d \<and> str_less s t))"

definition longer_pattern :: "gostr \<times> gostr \<Rightarrow> gostr \<times> gostr \<Rightarrow> bool" where
  "longer_pattern x y =
     (if length (fst x) \<noteq> length (fst y) then length (fst y) < length (fst x) else str_less (fst x) (fst y))"

definition matchWildcardMappingResult :: "(gostr \<times> gostr) list \<Rightarrow> gostr \<Rightarrow> gostr \<times> bool" where
  "matchWildcardMappingResult mapping requestedModel =
     (let matches = filter (\<lambda>(pattern, target). matchWildcard pattern requestedModel) mapping
      in case sort_by longer_pattern matches of
           [] \<Rightarrow> (requestedModel, False)
         | best # _ \<Rightarrow> (snd best, True))"

definition mappingSupportsRequestedModel :: "(gostr \<times> gostr) list \<Rightarrow> gostr \<Rightarrow> bool" where
  "mappingSupportsRequestedModel mapping requestedModel =
     (if requestedModel = [] then False
      else if map_of mapping requestedModel \<noteq> None then True
      else list_ex (\<lambda>(pattern, target). matchWildcard pattern requestedModel) mapping)"

definition resolveRequestedModelInMapping :: "(gostr \<times> gostr) list \<Rightarrow> gostr \<Rightarrow> gostr \<times> bool" where
  "resolveRequestedModelInMapping mapping requestedModel =
     (if requestedModel = [] then ([], False)
      else case map_of mapping requestedModel of
             Some mappedModel \<Rightarrow> (mappedModel, True)
           | None \<Rightarrow> matchWildcardMappingResult mapping requestedModel)"

definition normalizeRequestedModelForLookup :: "gostr \<Rightarrow> gostr \<Rightarrow> gostr" where
  "normalizeRequestedModelForLookup platform requestedModel =
     (let trimmed = trim_space requestedModel
      in if trimmed = [] then []
         else if platform \<noteq> PlatformGemini \<and> platform \<noteq> PlatformAntigravity then trimmed
         else if trimmed = ''gemini-3.1-pro-preview-customtools'' then ''gemini-3.1-pro-preview''
         else trimmed)"

section \<open>The mapping of an account\<close>

definition DefaultAntigravityModelMapping :: "(gostr \<times> gostr) list" where
  "DefaultAntigravityModelMapping =
    [(''claude-opus-4-6-thinking'', ''claude-opus-4-6-thinking''),
     (''claude-opus-4-6'', ''claude-opus-4-6-thinking''),
     (''claude-opus-4-5-thinking'', ''claude-opus-4-6-thinking''),
     (''claude-sonnet-4-6'', ''claude-sonnet-4-6''),
     (''claude-sonnet-4-5'', ''claude-sonnet-4-5''),
     (''claude-sonnet-4-5-thinking'', ''claude-sonnet-4-5-thinking''),
     (''claude-opus-4-5-20251101'', ''claude-opus-4-6-thinking''),
     (''claude-sonnet-4-5-20250929'', ''claude-sonnet-4-5''),
     (''claude-haiku-4-5'', ''claude-sonnet-4-6''),
     (''claude-haiku-4-5-20251001'', ''claude-sonnet-4-6''),
     (''gemini-2.5-flash'', ''gemini-2.5-flash''),
     (''gemini-2.5-flash-image'', ''gemini-2.5-flash-image''),
     (''gemini-2.5-flash-image-preview'', ''gemini-2.5-flash-image''),
     (''gemini-2.5-flash-lite'', ''gemini-2.5-flash-lite''),
     (''gemini-2.5-flash-thinking'', ''gemini-2.5-flash-thinking''),
     (''gemini-2.5-pro'', ''gemini-2.5-pro''),
     (''gemini-3-flash'', ''gemini-3-flash''),
     (''gemini-3-pro-high'', ''gemini-3-pro-high''),
     (''gemini-3-pro-low'', ''gemini-3-pro-low''),
     (''gemini-3-flash-preview'', ''gemini-3-flash''),
     (''gemini-3-pro-preview'', ''gemini-3-pro-high''),
     (''gemini-3.1-pro-high'', ''gemini-3.1-pro-high''),
     (''gemini-3.1-pro-low'', ''gemini-3.1-pro-low''),
     (''gemini-3.1-pro-preview'', ''gemini-3.1-pro-high''),
     (''gemini-3.1-flash-image'', ''gemini-3.1-flash-image''),
     (''gemini-3.1-flash-image-preview'', ''gemini-3.1-flash-image''),
     (''gemini-3-pro-image'', ''gemini-3.1-flash-image''),
     (''gemini-3-pro-image-preview'', ''gemini-3.1-flash-image''),
     (''gpt-oss-120b-medium'', ''gpt-oss-120b-medium''),
     (''tab_flash_lite_preview'', ''tab_flash_lite_preview'')]"

definition ensureAntigravityDefaultPassthrough :: "gostr \<Rightarrow> (gostr \<times> gostr) list \<Rightarrow> (gostr \<times> gostr) list" where
  "ensureAntigravityDefaultPassthrough mdl mapping =
     (if mdl = [] then mapping
      else if map_of mapping mdl \<noteq> None then mapping
      else if list_ex (\<lambda>(pattern, target). matchWildcard pattern mdl) mapping then mapping
      else mapping @ [(mdl, mdl)])"

definition ensureAntigravityDefaultPassthroughs :: "gostr list \<Rightarrow> (gostr \<times> gostr) list \<Rightarrow> (gostr \<times> gostr) list" where
  "ensureAntigravityDefaultPassthroughs mdls mapping = fold ensureAntigravityDefaultPassthrough mdls mapping"

fun string_entries :: "gomap \<Rightarrow> (gostr \<times> gostr) list" where
  "string_entries [] = []"
| "string_entries ((k, v) # m) = (case v of GString s \<Rightarrow> (k, s) # string_entries m | _ \<Rightarrow> string_entries m)"

fun object_of :: "goany option \<Rightarrow> gomap" where
  "object_of (Some (GObject m)) = m"
| "object_of _ = []"

text \<open>A nil map and an empty one serve every model alike.\<close>

definition resolveModelMapping :: "Account \<Rightarrow> gomap \<Rightarrow> (gostr \<times> gostr) list" where
  "resolveModelMapping a rawMapping =
     (let fallback = (if act_Platform a = PlatformAntigravity then DefaultAntigravityModelMapping else [])
      in if act_Credentials a = None then fallback
         else if rawMapping = [] then fallback
         else let result = string_entries rawMapping
              in if result \<noteq> []
                 then if act_Platform a = PlatformAntigravity
                      then ensureAntigravityDefaultPassthroughs
                             [''gemini-3-flash'', ''gemini-3.1-pro-high'', ''gemini-3.1-pro-low''] result
                      else result
                 else fallback)"

definition GetModelMapping :: "Account \<Rightarrow> (gostr \<times> gostr) list" where
  "GetModelMapping a = resolveModelMapping a (object_of (get (act_Credentials a) ''model_mapping''))"

definition IsModelSupported :: "Account \<Rightarrow> gostr \<Rightarrow> bool" where
  "IsModelSupported a requestedModel =
     (let mapping = GetModelMapping a;
          normalized = normalizeRequestedModelForLookup (act_Platform a) requestedModel
      in if mapping = [] then True
         else if mappingSupportsRequestedModel mapping requestedModel then True
         else normalized \<noteq> requestedModel \<and> mappingSupportsRequestedModel mapping normalized)"

definition ResolveMappedModel :: "Account \<Rightarrow> gostr \<Rightarrow> gostr \<times> bool" where
  "ResolveMappedModel a requestedModel =
     (let mapping = GetModelMapping a;
          normalized = normalizeRequestedModelForLookup (act_Platform a) requestedModel
      in if mapping = [] then (requestedModel, False)
         else if snd (resolveRequestedModelInMapping mapping requestedModel)
         then resolveRequestedModelInMapping mapping requestedModel
         else if normalized \<noteq> requestedModel \<and> snd (resolveRequestedModelInMapping mapping normalized)
         then resolveRequestedModelInMapping mapping normalized
         else (requestedModel, False))"

definition GetMappedModel :: "Account \<Rightarrow> gostr \<Rightarrow> gostr" where
  "GetMappedModel a requestedModel = fst (ResolveMappedModel a requestedModel)"

section \<open>Antigravity, Bedrock and the OAuth names\<close>

definition mapAntigravityModel :: "Account option \<Rightarrow> gostr \<Rightarrow> gostr" where
  "mapAntigravityModel acc requestedModel =
     (case acc of
        None \<Rightarrow> []
      | Some a \<Rightarrow>
          if GetModelMapping a = [] then []
          else if GetMappedModel a requestedModel \<noteq> requestedModel then GetMappedModel a requestedModel
          else if IsModelSupported a requestedModel then requestedModel
          else [])"

definition applyThinkingModelSuffix :: "gostr \<Rightarrow> bool \<Rightarrow> gostr" where
  "applyThinkingModelSuffix mappedModel thinkingEnabled =
     (if \<not> thinkingEnabled then mappedModel
      else if mappedModel = ''claude-sonnet-4-5'' then ''claude-sonnet-4-5-thinking''
      else mappedModel)"

definition NormalizeModelID :: "gostr \<Rightarrow> gostr" where
  "NormalizeModelID i =
     (if i = [] then i
      else case map_of [(''claude-sonnet-4-5'', ''claude-sonnet-4-5-20250929''),
                        (''claude-opus-4-5'', ''claude-opus-4-5-20251101''),
                        (''claude-haiku-4-5'', ''claude-haiku-4-5-20251001'')] i of
             Some mapped \<Rightarrow> mapped
           | None \<Rightarrow> i)"

definition defaultBedrockRegion :: gostr where "defaultBedrockRegion = ''us-east-1''"

definition bedrockCrossRegionPrefixes :: "gostr list" where
  "bedrockCrossRegionPrefixes = [''us.'', ''eu.'', ''apac.'', ''jp.'', ''au.'', ''us-gov.'', ''global.'']"

definition BedrockCrossRegionPrefix :: "gostr \<Rightarrow> gostr" where
  "BedrockCrossRegionPrefix region =
     (if has_prefix region ''us-gov'' then ''us-gov''
      else if has_prefix region ''us-'' then ''us''
      else if has_prefix region ''eu-'' then ''eu''
      else if region = ''ap-northeast-1'' then ''jp''
      else if region = ''ap-southeast-2'' then ''au''
      else if has_prefix region ''ap-'' then ''apac''
      else if has_prefix region ''ca-'' then ''us''
      else if has_prefix region ''sa-'' then ''us''
      else ''us'')"

definition AdjustBedrockModelRegionPrefix :: "gostr \<Rightarrow> gostr \<Rightarrow> gostr" where
  "AdjustBedrockModelRegionPrefix modelID region =
     (let targetPrefix = (if region = ''global'' then ''global'' else BedrockCrossRegionPrefix region)
      in case find (\<lambda>p. has_prefix modelID p) bedrockCrossRegionPrefixes of
           None \<Rightarrow> modelID
         | Some p \<Rightarrow>
             if p = targetPrefix @ ''.'' then modelID
             else targetPrefix @ ''.'' @ drop (length p) modelID)"

definition bedrockRuntimeRegion :: "Account option \<Rightarrow> gostr" where
  "bedrockRuntimeRegion acc =
     (case acc of
        None \<Rightarrow> defaultBedrockRegion
      | Some a \<Rightarrow>
          if GetCredential a ''aws_region'' \<noteq> [] then GetCredential a ''aws_region'' else defaultBedrockRegion)"

definition shouldForceBedrockGlobal :: "Account option \<Rightarrow> bool" where
  "shouldForceBedrockGlobal acc =
     (case acc of None \<Rightarrow> False | Some a \<Rightarrow> GetCredential a ''aws_force_global'' = ''true'')"

definition isRegionalBedrockModelID :: "gostr \<Rightarrow> bool" where
  "isRegionalBedrockModelID modelID = list_ex (\<lambda>p. has_prefix modelID p) bedrockCrossRegionPrefixes"

text \<open>\<open>strings.ToLower\<close> of an ASCII name.\<close>

definition isLikelyBedrockModelID :: "gostr \<Rightarrow> bool" where
  "isLikelyBedrockModelID modelID =
     (let low = map ascii_lower (trim_space modelID)
      in if low = [] then False
         else if has_prefix low ''arn:'' then True
         else if list_ex (\<lambda>p. has_prefix low p)
                   [''anthropic.'', ''amazon.'', ''meta.'', ''mistral.'', ''cohere.'', ''ai21.'', ''deepseek.'',
                    ''stability.'', ''writer.'', ''nova.''] then True
         else isRegionalBedrockModelID low)"

definition DefaultBedrockModelMapping :: "(gostr \<times> gostr) list" where
  "DefaultBedrockModelMapping =
    [(''claude-opus-4-6-thinking'', ''us.anthropic.claude-opus-4-6-v1''),
     (''claude-opus-4-6'', ''us.anthropic.claude-opus-4-6-v1''),
     (''claude-opus-4-5-thinking'', ''us.anthropic.claude-opus-4-5-20251101-v1:0''),
     (''claude-opus-4-5-20251101'', ''us.anthropic.claude-opus-4-5-20251101-v1:0''),
     (''claude-opus-4-1'', ''us.anthropic.claude-opus-4-1-20250805-v1:0''),
     (''claude-opus-4-20250514'', ''us.anthropic.claude-opus-4-20250514-v1:0''),
     (''claude-sonnet-4-6-thinking'', ''us.anthropic.claude-sonnet-4-6''),
     (''claude-sonnet-4-6'', ''us.anthropic.claude-sonnet-4-6''),
     (''claude-sonnet-4-5'', ''us.anthropic.claude-sonnet-4-5-20250929-v1:0''),
     (''claude-sonnet-4-5-thinking'', ''us.anthropic.claude-sonnet-4-5-20250929-v1:0''),
     (''claude-sonnet-4-5-20250929'', ''us.anthropic.claude-sonnet-4-5-20250929-v1:0''),
     (''claude-sonnet-4-20250514'', ''us.anthropic.claude-sonnet-4-20250514-v1:0''),
     (''claude-haiku-4-5'', ''us.anthropic.claude-haiku-4-5-20251001-v1:0''),
     (''claude-haiku-4-5-20251001'', ''us.anthropic.claude-haiku-4-5-20251001-v1:0'')]"

definition normalizeBedrockModelID :: "gostr \<Rightarrow> (gostr \<times> bool) option" where
  "normalizeBedrockModelID mdl =
     (let modelID = trim_space mdl
      in if modelID = [] then None
         else case map_of DefaultBedrockModelMapping modelID of
                Some mapped \<Rightarrow> Some (mapped, True)
              | None \<Rightarrow>
                  if isRegionalBedrockModelID modelID then Some (modelID, True)
                  else if isLikelyBedrockModelID modelID then Some (modelID, False)
                  else None)"

definition ResolveBedrockModelID :: "Account option \<Rightarrow> gostr \<Rightarrow> gostr option" where
  "ResolveBedrockModelID acc requestedModel =
     (case acc of
        None \<Rightarrow> None
      | Some a \<Rightarrow>
          (case normalizeBedrockModelID (GetMappedModel a requestedModel) of
             None \<Rightarrow> None
           | Some (modelID, shouldAdjustRegion) \<Rightarrow>
               if shouldAdjustRegion
               then Some (AdjustBedrockModelRegionPrefix modelID
                       (if shouldForceBedrockGlobal acc then ''global'' else bedrockRuntimeRegion acc))
               else Some modelID))"

section \<open>Rate limits of a model on an account\<close>

definition modelRateLimitResetAt :: "Account option \<Rightarrow> gostr \<Rightarrow> time option" where
  "modelRateLimitResetAt acc scope =
     (case acc of
        None \<Rightarrow> None
      | Some a \<Rightarrow>
          if scope = [] then None
          else let raw = asString (map_of (object_of (map_of (object_of (get (act_Extra a) ''model_rate_limits'')) scope))
                                      ''rate_limit_reset_at'')
               in if trim_space raw = [] then None else parse_rfc3339 raw)"

definition isRateLimitActiveForKey :: "time \<Rightarrow> Account \<Rightarrow> gostr \<Rightarrow> bool" where
  "isRateLimitActiveForKey now a key = pending now (modelRateLimitResetAt (Some a) key)"

definition getRateLimitRemainingForKey :: "time \<Rightarrow> Account \<Rightarrow> gostr \<Rightarrow> int" where
  "getRateLimitRemainingForKey now a key =
     (case modelRateLimitResetAt (Some a) key of
        None \<Rightarrow> 0
      | Some resetAt \<Rightarrow> if resetAt - now > 0 then resetAt - now else 0)"

text \<open>\<open>thinking\<close> is \<open>requestmeta.ThinkingEnabledFromContext\<close>.\<close>

definition resolveFinalAntigravityModelKey :: "bool option \<Rightarrow> Account \<Rightarrow> gostr \<Rightarrow> gostr" where
  "resolveFinalAntigravityModelKey thinking a requestedModel =
     (let modelKey = mapAntigravityModel (Some a) requestedModel
      in if modelKey = [] then []
         else case thinking of Some enabled \<Rightarrow> applyThinkingModelSuffix modelKey enabled | None \<Rightarrow> modelKey)"

definition modelLimitKey :: "bool option \<Rightarrow> Account \<Rightarrow> gostr \<Rightarrow> gostr" where
  "modelLimitKey thinking a requestedModel =
     trim_space (if act_Platform a = PlatformAntigravity then resolveFinalAntigravityModelKey thinking a requestedModel
                 else GetMappedModel a requestedModel)"

definition isModelRateLimitedWithContext :: "time \<Rightarrow> bool option \<Rightarrow> Account \<Rightarrow> gostr \<Rightarrow> bool" where
  "isModelRateLimitedWithContext now thinking a requestedModel =
     (let modelKey = modelLimitKey thinking a requestedModel
      in if modelKey = [] then False else isRateLimitActiveForKey now a modelKey)"

definition GetModelRateLimitRemainingTimeWithContext :: "time \<Rightarrow> bool option \<Rightarrow> Account \<Rightarrow> gostr \<Rightarrow> int" where
  "GetModelRateLimitRemainingTimeWithContext now thinking a requestedModel =
     (let modelKey = modelLimitKey thinking a requestedModel
      in if modelKey = [] then 0 else getRateLimitRemainingForKey now a modelKey)"

definition isCreditsExhausted :: "time \<Rightarrow> Account \<Rightarrow> bool" where
  "isCreditsExhausted now a = isRateLimitActiveForKey now a ''AICredits''"

definition IsSchedulableForModelWithContext :: "time \<Rightarrow> bool option \<Rightarrow> Account \<Rightarrow> gostr \<Rightarrow> bool" where
  "IsSchedulableForModelWithContext now thinking a requestedModel =
     (if \<not> IsSchedulable now a then False
      else if isModelRateLimitedWithContext now thinking a requestedModel
      then act_Platform a = PlatformAntigravity \<and> IsOveragesEnabled a \<and> \<not> isCreditsExhausted now a
      else True)"

definition shouldClearStickySession :: "time \<Rightarrow> Account option \<Rightarrow> gostr \<Rightarrow> bool" where
  "shouldClearStickySession now acc requestedModel =
     (case acc of
        None \<Rightarrow> False
      | Some a \<Rightarrow>
          if act_Status a = StatusError \<or> act_Status a = StatusDisabled \<or> \<not> act_Schedulable a then True
          else if pending now (act_TempUnschedulableUntil a) then True
          else GetModelRateLimitRemainingTimeWithContext now None a requestedModel > 0)"

section \<open>Library\<close>

lemma str_less_asym: "str_less s t \<Longrightarrow> \<not> str_less t s"
  by (induction s t rule: str_less.induct) auto

lemma of_char_less_linear: "(of_char c :: nat) < of_char d \<or> c = d \<or> (of_char d :: nat) < of_char c"
  using linorder_less_linear [of "of_char c :: nat" "of_char d"] by (simp only: of_char_eq_iff)

lemma str_less_split: "str_less s t \<Longrightarrow> str_less s u \<or> str_less u t"
proof (induction s t arbitrary: u rule: str_less.induct)
  case (2 d t)
  then show ?case by (cases u) auto
next
  case (4 c s d t)
  show ?case
  proof (cases u)
    case (Cons e v)
    with 4 show ?thesis
      using of_char_less_linear [of c e] of_char_less_linear [of e d] by auto
  qed simp
qed auto

lemma str_less_linear: "str_less s t \<or> s = t \<or> str_less t s"
proof (induction s t rule: str_less.induct)
  case (4 c s d t)
  then show ?case using of_char_less_linear [of c d] by auto
qed auto

interpretation pattern_order: strict_weak longer_pattern
  by unfold_locales
    (auto simp: longer_pattern_def split: if_splits dest: str_less_asym str_less_split)

lemma matchWildcard_self [simp]: "matchWildcard m m"
  by (auto simp: matchWildcard_def has_prefix_def prefixeq_butlast)

lemma matchWildcard_same_length:
  "matchWildcard p m \<Longrightarrow> matchWildcard q m \<Longrightarrow> length p = length q \<Longrightarrow> p \<noteq> m \<Longrightarrow> q \<noteq> m \<Longrightarrow> p = q"
  by (cases p rule: rev_cases; cases q rule: rev_cases)
    (auto simp: matchWildcard_def has_prefix_def prefix_def split: if_splits)

lemma mappingSupports_iff:
  "mappingSupportsRequestedModel mapping m \<longleftrightarrow> m \<noteq> [] \<and> (\<exists>x \<in> set mapping. matchWildcard (fst x) m)"
proof -
  have "map_of mapping m \<noteq> None \<Longrightarrow> \<exists>x \<in> set mapping. matchWildcard (fst x) m"
    by (auto dest!: map_of_SomeD intro: bexI [of _ "(m, _)"])
  then show ?thesis
    by (auto simp: mappingSupportsRequestedModel_def list_ex_iff case_prod_unfold)
qed

text \<open>What a mapping promises for a model: its own entry, else the longest pattern that matches.\<close>

definition best_entry :: "gostr \<Rightarrow> (gostr \<times> gostr) list \<Rightarrow> gostr \<times> gostr \<Rightarrow> bool" where
  "best_entry m mapping x \<longleftrightarrow>
     x \<in> set mapping \<and> matchWildcard (fst x) m \<and>
     (if m \<in> fst ` set mapping then fst x = m
      else \<forall>y \<in> set mapping. matchWildcard (fst y) m \<longrightarrow> y = x \<or> length (fst y) < length (fst x))"

lemma matchWildcardMappingResult_best:
  assumes "distinct (map fst mapping)" "m \<notin> fst ` set mapping" "\<exists>x \<in> set mapping. matchWildcard (fst x) m"
  shows "\<exists>x. best_entry m mapping x \<and> matchWildcardMappingResult mapping m = (snd x, True)"
proof -
  let ?ms = "filter (\<lambda>(pattern, target). matchWildcard pattern m) mapping"
  have "set (sort_by longer_pattern ?ms) \<noteq> {}" using assms(3) by (auto simp: case_prod_unfold)
  then obtain x xs where x: "sort_by longer_pattern ?ms = x # xs"
    by (cases "sort_by longer_pattern ?ms") auto
  then have "x \<in> set ?ms" by (metis list.set_intros(1) set_sort_by)
  then have mem: "x \<in> set mapping" "matchWildcard (fst x) m" by auto
  have "y = x \<or> length (fst y) < length (fst x)" if "y \<in> set mapping" "matchWildcard (fst y) m" for y
  proof (rule ccontr)
    assume neg: "\<not> ?thesis"
    have "y \<in> set ?ms" using that by (auto simp: case_prod_unfold)
    then have "\<not> longer_pattern y x" using pattern_order.hd_sort_by [OF x] by blast
    with neg have "length (fst y) = length (fst x)" by (auto simp: longer_pattern_def split: if_splits)
    moreover have "fst y \<noteq> m" "fst x \<noteq> m" using assms(2) that(1) mem(1) by auto
    ultimately have "fst y = fst x" using matchWildcard_same_length that(2) mem(2) by blast
    with assms(1) that(1) mem(1) neg show False
      by (auto simp: distinct_map inj_on_def)
  qed
  with mem assms(2) have "best_entry m mapping x" by (simp add: best_entry_def)
  with x show ?thesis by (intro exI [of _ x]) (simp add: matchWildcardMappingResult_def)
qed

lemma best_entry_unique:
  assumes "distinct (map fst mapping)" "best_entry m mapping x" "best_entry m mapping y"
  shows "x = y"
proof (cases "m \<in> fst ` set mapping")
  case True
  with assms show ?thesis by (auto simp: best_entry_def distinct_map inj_on_def)
next
  case False
  with assms(2,3) show ?thesis unfolding best_entry_def by (metis less_asym)
qed

section \<open>Properties\<close>

text \<open>
  C9. Model resolution is deterministic although the mapping is a Go map: for a named model the
  entry of exactly that name decides, otherwise the longest pattern that matches, which is
  unique; the model is left alone exactly when nothing matches.
\<close>

theorem model_resolution_exact:
  assumes "distinct (map fst mapping)" and "m \<noteq> []"
  shows "if (\<exists>x \<in> set mapping. matchWildcard (fst x) m)
    then (\<exists>!x. best_entry m mapping x) \<and>
         (\<exists>x. best_entry m mapping x \<and> resolveRequestedModelInMapping mapping m = (snd x, True))
    else resolveRequestedModelInMapping mapping m = (m, False)"
proof (cases "\<exists>x \<in> set mapping. matchWildcard (fst x) m")
  case True
  have "\<exists>x. best_entry m mapping x \<and> resolveRequestedModelInMapping mapping m = (snd x, True)"
  proof (cases "map_of mapping m")
    case None
    then have "m \<notin> fst ` set mapping" by (simp add: map_of_eq_None_iff)
    from matchWildcardMappingResult_best [OF assms(1) this True] None assms(2) show ?thesis
      by (simp add: resolveRequestedModelInMapping_def)
  next
    case (Some t)
    then have "(m, t) \<in> set mapping" by (rule map_of_SomeD)
    with Some assms(2) show ?thesis
      by (intro exI [of _ "(m, t)"]) (force simp: resolveRequestedModelInMapping_def best_entry_def)
  qed
  with True best_entry_unique [OF assms(1)] show ?thesis by auto
next
  case False
  then have "map_of mapping m = None" by (force simp: map_of_eq_None_iff)
  moreover have "filter (\<lambda>(pattern, target). matchWildcard pattern m) mapping = []"
    using False by (auto simp: filter_empty_conv)
  ultimately show ?thesis using False assms(2)
    by (simp add: resolveRequestedModelInMapping_def matchWildcardMappingResult_def)
qed

theorem model_resolution_exact_witness:
  "resolveRequestedModelInMapping [(''claude-*'', ''a''), (''claude-opus-*'', ''b'')] ''claude-opus-4'' = (''b'', True)"
proof -
  let ?mapping = "[(''claude-*'', ''a''), (''claude-opus-*'', ''b'')]"
  have m: "matchWildcard ''claude-*'' ''claude-opus-4''" "matchWildcard ''claude-opus-*'' ''claude-opus-4''"
    by (simp_all add: matchWildcard_def has_prefix_def)
  obtain x where "best_entry ''claude-opus-4'' ?mapping x"
    "resolveRequestedModelInMapping ?mapping ''claude-opus-4'' = (snd x, True)"
    using model_resolution_exact [of ?mapping "''claude-opus-4''"] m by auto
  with m show ?thesis by (auto simp: best_entry_def)
qed

text \<open>
  Scheduling and forwarding agree on what an account serves: a mapping supports a model
  exactly when the resolution that forwarding uses hits an entry, for the name as requested or
  normalised; an account without a mapping supports every model and forwards it unchanged.
\<close>

theorem supported_iff_resolved:
  "IsModelSupported a m = (GetModelMapping a = [] \<or> snd (ResolveMappedModel a m)) \<and>
   (snd (ResolveMappedModel a m) \<or> fst (ResolveMappedModel a m) = m)"
proof -
  have hit: "mappingSupportsRequestedModel mapping k = snd (resolveRequestedModelInMapping mapping k)" for mapping k
  proof (cases "map_of mapping k")
    case None
    let ?ms = "filter (\<lambda>(pattern, target). matchWildcard pattern k) mapping"
    have "sort_by longer_pattern ?ms = [] \<longleftrightarrow> \<not> list_ex (\<lambda>(pattern, target). matchWildcard pattern k) mapping"
      by (metis (no_types, lifting) list_ex_iff filter_empty_conv length_0_conv length_sort_by)
    with None show ?thesis
      by (auto simp: mappingSupportsRequestedModel_def resolveRequestedModelInMapping_def
          matchWildcardMappingResult_def Let_def split: list.split)
  qed (auto simp: mappingSupportsRequestedModel_def resolveRequestedModelInMapping_def)
  show ?thesis by (auto simp: IsModelSupported_def ResolveMappedModel_def Let_def hit)
qed

end
