(* ===== verification/Scheduling_Order.thy ===== *)
theory Scheduling_Order
  imports Model_Mapping Concurrency_Cache
begin

text \<open>
  The orders in which the scheduler considers accounts (\<open>internal/service/gateway_service.go\<close>):
  layered filtering by priority, load rate and last use, the stable sorts of the routed and
  fallback paths, and the shuffles within equal runs.  The random numbers are arguments.
\<close>

section \<open>Layered filtering\<close>

record accountWithLoad =
  al_account :: Account
  al_loadInfo :: AccountLoadInfo

definition al_priority :: "accountWithLoad \<Rightarrow> int" where
  "al_priority x = act_Priority (al_account x)"

definition al_rate :: "accountWithLoad \<Rightarrow> int" where
  "al_rate x = ali_LoadRate (al_loadInfo x)"

definition al_used :: "accountWithLoad \<Rightarrow> time option" where
  "al_used x = act_LastUsedAt (al_account x)"

text \<open>The loop \<open>for _, acc := range accounts[1:] { if f(acc) < m { m = f(acc) } }\<close>.\<close>

definition least_by :: "('a \<Rightarrow> int) \<Rightarrow> 'a \<Rightarrow> 'a list \<Rightarrow> int" where
  "least_by f x xs = foldl (\<lambda>m y. if f y < m then f y else m) (f x) xs"

fun filterByMinPriority :: "accountWithLoad list \<Rightarrow> accountWithLoad list" where
  "filterByMinPriority [] = []"
| "filterByMinPriority (x # xs) = filter (\<lambda>y. al_priority y = least_by al_priority x xs) (x # xs)"

fun filterByMinLoadRate :: "accountWithLoad list \<Rightarrow> accountWithLoad list" where
  "filterByMinLoadRate [] = []"
| "filterByMinLoadRate (x # xs) = filter (\<lambda>y. al_rate y = least_by al_rate x xs) (x # xs)"

definition earliest :: "accountWithLoad list \<Rightarrow> time option" where
  "earliest xs = foldl (\<lambda>m y. case (m, al_used y) of
     (None, t) \<Rightarrow> t | (Some u, Some t) \<Rightarrow> if t < u then Some t else Some u | (Some u, None) \<Rightarrow> Some u) None xs"

definition lruCandidates :: "accountWithLoad list \<Rightarrow> accountWithLoad list" where
  "lruCandidates xs =
     (if list_ex (\<lambda>x. al_used x = None) xs then filter (\<lambda>x. al_used x = None) xs
      else filter (\<lambda>x. al_used x \<noteq> None \<and> al_used x = earliest xs) xs)"

definition selectByLRU :: "nat \<Rightarrow> accountWithLoad list \<Rightarrow> bool \<Rightarrow> accountWithLoad option" where
  "selectByLRU draw xs preferOAuth =
     (case xs of
        [] \<Rightarrow> None
      | [x] \<Rightarrow> Some x
      | _ \<Rightarrow>
          (case lruCandidates xs of
             [c] \<Rightarrow> Some c
           | cs \<Rightarrow>
               let oauth = filter (\<lambda>x. act_Type (al_account x) = AccountTypeOAuth) cs;
                   pool = (if preferOAuth \<and> oauth \<noteq> [] then oauth else cs)
               in Some (pool ! Intn draw (length pool))))"

section \<open>Sorting\<close>

text \<open>The comparison of \<open>LastUsedAt\<close>: an account that was never used comes first.\<close>

fun used_before :: "time option \<Rightarrow> time option \<Rightarrow> bool" where
  "used_before None (Some t) = True"
| "used_before (Some s) (Some t) = (s < t)"
| "used_before _ None = False"

definition less_with_load :: "accountWithLoad \<Rightarrow> accountWithLoad \<Rightarrow> bool" where
  "less_with_load a b =
     (if al_priority a \<noteq> al_priority b then al_priority a < al_priority b
      else if al_rate a \<noteq> al_rate b then al_rate a < al_rate b
      else used_before (al_used a) (al_used b))"

definition less_priority_used :: "bool \<Rightarrow> Account \<Rightarrow> Account \<Rightarrow> bool" where
  "less_priority_used preferOAuth a b =
     (if act_Priority a \<noteq> act_Priority b then act_Priority a < act_Priority b
      else (case (act_LastUsedAt a, act_LastUsedAt b) of
              (None, None) \<Rightarrow> preferOAuth \<and> act_Type a \<noteq> act_Type b \<and> act_Type a = AccountTypeOAuth
            | (s, t) \<Rightarrow> used_before s t))"

definition less_priority_only :: "bool \<Rightarrow> Account \<Rightarrow> Account \<Rightarrow> bool" where
  "less_priority_only preferOAuth a b =
     (if act_Priority a \<noteq> act_Priority b then act_Priority a < act_Priority b
      else preferOAuth \<and> act_Type a \<noteq> act_Type b \<and> act_Type a = AccountTypeOAuth)"

text \<open>\<open>a.Unix() == b.Unix()\<close>: the same second.\<close>

definition sameLastUsedAt :: "time option \<Rightarrow> time option \<Rightarrow> bool" where
  "sameLastUsedAt a b =
     (case (a, b) of
        (None, None) \<Rightarrow> True
      | (Some s, Some t) \<Rightarrow> s div second = t div second
      | _ \<Rightarrow> False)"

definition sameAccountWithLoadGroup :: "accountWithLoad \<Rightarrow> accountWithLoad \<Rightarrow> bool" where
  "sameAccountWithLoadGroup a b =
     (al_priority a = al_priority b \<and> al_rate a = al_rate b \<and> sameLastUsedAt (al_used a) (al_used b))"

definition sameAccountGroup :: "Account \<Rightarrow> Account \<Rightarrow> bool" where
  "sameAccountGroup a b =
     (act_Priority a = act_Priority b \<and> sameLastUsedAt (act_LastUsedAt a) (act_LastUsedAt b))"

definition shuffleWithinSortGroups :: "(nat \<Rightarrow> nat \<Rightarrow> nat) \<Rightarrow> accountWithLoad list \<Rightarrow> accountWithLoad list" where
  "shuffleWithinSortGroups rnd xs = map_runs (\<lambda>i. Shuffle (rnd i)) sameAccountWithLoadGroup 0 xs"

text \<open>With \<open>preferOAuth\<close> the OAuth accounts of a run stay in front and each part is shuffled.\<close>

definition shuffleOAuthFirst :: "(nat \<Rightarrow> nat \<Rightarrow> nat) \<Rightarrow> nat \<Rightarrow> Account list \<Rightarrow> Account list" where
  "shuffleOAuthFirst rnd i g =
     (let oauth = filter (\<lambda>a. act_Type a = AccountTypeOAuth) g;
          others = filter (\<lambda>a. act_Type a \<noteq> AccountTypeOAuth) g
      in Shuffle (rnd i) oauth @ Shuffle (rnd (i + length oauth)) others)"

definition shuffleWithinPriorityAndLastUsed :: "(nat \<Rightarrow> nat \<Rightarrow> nat) \<Rightarrow> bool \<Rightarrow> Account list \<Rightarrow> Account list" where
  "shuffleWithinPriorityAndLastUsed rnd preferOAuth xs =
     map_runs (if preferOAuth then shuffleOAuthFirst rnd else (\<lambda>i. Shuffle (rnd i))) sameAccountGroup 0 xs"

definition sortAccountsByPriorityAndLastUsed :: "(nat \<Rightarrow> nat \<Rightarrow> nat) \<Rightarrow> bool \<Rightarrow> Account list \<Rightarrow> Account list" where
  "sortAccountsByPriorityAndLastUsed rnd preferOAuth xs =
     shuffleWithinPriorityAndLastUsed rnd preferOAuth (sort_by (less_priority_used preferOAuth) xs)"

definition shuffleWithinPriority :: "(nat \<Rightarrow> nat \<Rightarrow> nat) \<Rightarrow> Account list \<Rightarrow> Account list" where
  "shuffleWithinPriority rnd xs =
     map_runs (\<lambda>i. Shuffle (rnd i)) (\<lambda>a b. act_Priority b = act_Priority a) 0 xs"

definition sortCandidatesForFallback :: "(nat \<Rightarrow> nat \<Rightarrow> nat) \<Rightarrow> bool \<Rightarrow> gostr \<Rightarrow> Account list \<Rightarrow> Account list" where
  "sortCandidatesForFallback rnd preferOAuth mode xs =
     (if mode = ''random''
      then shuffleWithinPriority rnd (sort_by (less_priority_only preferOAuth) xs)
      else sortAccountsByPriorityAndLastUsed rnd preferOAuth xs)"

section \<open>Library\<close>

lemma
  least_by_le:
  "least_by f x xs \<le> f x" "y \<in> set xs \<Longrightarrow> least_by f x xs \<le> f y"
  and least_by_attained: "\<exists>z \<in> set (x # xs). f z = least_by f x xs" for f x xs y
proof -
  define g where "g = (\<lambda>m y. if f y < m then f y else m)"
  have le: "foldl g m xs \<le> m" and mem: "y \<in> set xs \<Longrightarrow> foldl g m xs \<le> f y"
    and att: "foldl g m xs = m \<or> (\<exists>z \<in> set xs. f z = foldl g m xs)" for m xs y
  proof (induction xs arbitrary: m)
    case (Cons a as)
    { case 1 show ?case using Cons(1) [of "g m a"] by (auto simp: g_def split: if_splits) }
    { case 2 then show ?case using Cons(1,2) [of "g m a"] by (auto simp: g_def split: if_splits) }
    { case 3 show ?case using Cons(3) [of "g m a"] by (auto simp: g_def split: if_splits) }
  qed simp_all
  show "least_by f x xs \<le> f x" "y \<in> set xs \<Longrightarrow> least_by f x xs \<le> f y"
    "\<exists>z \<in> set (x # xs). f z = least_by f x xs"
    using le [of "f x" xs] mem [of y xs "f x"] att [of "f x" xs] by (auto simp: least_by_def g_def)
qed

lemma filterByMinPriority_iff:
  "x \<in> set (filterByMinPriority xs) \<longleftrightarrow> x \<in> set xs \<and> (\<forall>y \<in> set xs. al_priority x \<le> al_priority y)"
proof (cases xs)
  case (Cons a as)
  show ?thesis
    using least_by_le [where f = al_priority and x = a and xs = as]
      least_by_attained [where f = al_priority and x = a and xs = as]
    by (simp add: Cons) (metis order_antisym)
qed simp

lemma filterByMinLoadRate_iff:
  "x \<in> set (filterByMinLoadRate xs) \<longleftrightarrow> x \<in> set xs \<and> (\<forall>y \<in> set xs. al_rate x \<le> al_rate y)"
proof (cases xs)
  case (Cons a as)
  show ?thesis
    using least_by_le [where f = al_rate and x = a and xs = as]
      least_by_attained [where f = al_rate and x = a and xs = as]
    by (simp add: Cons) (metis order_antisym)
qed simp

lemma used_before_asym: "used_before s t \<Longrightarrow> \<not> used_before t s"
  by (cases s; cases t) auto

lemma used_before_split: "used_before s t \<Longrightarrow> used_before s u \<or> used_before u t"
  by (cases s; cases t; cases u) auto

lemma used_before_linear: "\<not> used_before s t \<Longrightarrow> \<not> used_before t s \<Longrightarrow> s = t"
  by (cases s; cases t) auto

interpretation with_load: strict_weak less_with_load
  by unfold_locales
    (auto simp: less_with_load_def split: if_splits dest: used_before_asym used_before_split)

interpretation priority_used: strict_weak "less_priority_used p" for p
proof
  show "\<not> less_priority_used p y x" if "less_priority_used p x y" for x y
    using that
    by (cases "act_LastUsedAt x"; cases "act_LastUsedAt y") (auto simp: less_priority_used_def split: if_splits)
  show "less_priority_used p x z \<or> less_priority_used p z y" if "less_priority_used p x y" for x y z
    using that
    by (cases "act_LastUsedAt x"; cases "act_LastUsedAt y"; cases "act_LastUsedAt z")
      (auto simp: less_priority_used_def split: if_splits)
qed

interpretation priority_only: strict_weak "less_priority_only p" for p
  by unfold_locales (auto simp: less_priority_only_def split: if_splits)

definition earlier :: "time option \<Rightarrow> accountWithLoad \<Rightarrow> time option" where
  "earlier m y = (case (m, al_used y) of
     (None, t) \<Rightarrow> t | (Some u, Some t) \<Rightarrow> if t < u then Some t else Some u | (Some u, None) \<Rightarrow> Some u)"

lemma earliest_fold: "earliest xs = foldl earlier None xs"
  by (simp add: earliest_def earlier_def [abs_def])

lemma foldl_earlier:
  assumes "\<forall>x \<in> set xs. al_used x \<noteq> None"
  shows "(case foldl earlier m xs of
      None \<Rightarrow> m = None \<and> xs = []
    | Some t \<Rightarrow> (m = Some t \<or> (\<exists>x \<in> set xs. al_used x = Some t)) \<and>
        (\<forall>u. m = Some u \<longrightarrow> t \<le> u) \<and> (\<forall>x \<in> set xs. \<forall>u. al_used x = Some u \<longrightarrow> t \<le> u))"
  using assms
proof (induction xs arbitrary: m)
  case (Cons a as)
  then obtain t where t: "al_used a = Some t" by auto
  have "earlier m a = (case m of None \<Rightarrow> Some t | Some u \<Rightarrow> if t < u then Some t else Some u)"
    using t by (cases m) (auto simp: earlier_def)
  with Cons.IH [of "earlier m a"] Cons.prems t show ?case
    by (cases m) (force split: option.splits if_splits)+
qed (auto split: option.split)

lemma lruCandidates_iff:
  "x \<in> set (lruCandidates xs) \<longleftrightarrow> x \<in> set xs \<and> (\<forall>y \<in> set xs. \<not> used_before (al_used y) (al_used x))"
proof (cases "list_ex (\<lambda>x. al_used x = None) xs")
  case True
  then obtain z where "z \<in> set xs" "al_used z = None" by (auto simp: list_ex_iff)
  then show ?thesis using True
    by (cases "al_used x") (force simp: lruCandidates_def)+
next
  case False
  then have used: "\<forall>x \<in> set xs. al_used x \<noteq> None" by (auto simp: list_ex_iff)
  show ?thesis
  proof (cases "earliest xs")
    case None
    with foldl_earlier [OF used, of None] show ?thesis by (simp add: lruCandidates_def earliest_fold)
  next
    case (Some t)
    with foldl_earlier [OF used, of None]
    have t: "\<exists>x \<in> set xs. al_used x = Some t" "\<forall>x \<in> set xs. \<forall>u. al_used x = Some u \<longrightarrow> t \<le> u"
      by (auto simp: earliest_fold)
    have "x \<in> set (lruCandidates xs) \<longleftrightarrow> x \<in> set xs \<and> al_used x = Some t"
      using False Some by (auto simp: lruCandidates_def)
    moreover have "al_used x = Some t \<longleftrightarrow> (\<forall>y \<in> set xs. \<not> used_before (al_used y) (al_used x))"
      if x: "x \<in> set xs"
    proof
      assume "al_used x = Some t"
      then show "\<forall>y \<in> set xs. \<not> used_before (al_used y) (al_used x)"
        using t(2) used by (metis not_le used_before.simps(2) option.exhaust)
    next
      assume least: "\<forall>y \<in> set xs. \<not> used_before (al_used y) (al_used x)"
      obtain u z where "al_used x = Some u" "z \<in> set xs" "al_used z = Some t" using used x t(1) by blast
      with least t(2) x show "al_used x = Some t"
        by (metis not_le order_antisym used_before.simps(2))
    qed
    ultimately show ?thesis by blast
  qed
qed

lemma selectByLRU_Cons2:
  "selectByLRU draw (a # b # ys) po =
     (case lruCandidates (a # b # ys) of
        [c] \<Rightarrow> Some c
      | cs \<Rightarrow>
          let oauth = filter (\<lambda>x. act_Type (al_account x) = AccountTypeOAuth) cs;
              pool = (if po \<and> oauth \<noteq> [] then oauth else cs)
          in Some (pool ! Intn draw (length pool)))"
  by (simp add: selectByLRU_def)

lemma selectByLRU_iff:
  "selectByLRU draw xs po = None \<longleftrightarrow> xs = []"
  "selectByLRU draw xs po = Some x \<Longrightarrow> x \<in> set xs \<and> (\<forall>y \<in> set xs. \<not> used_before (al_used y) (al_used x))"
proof -
  have pool: "\<exists>c \<in> set (lruCandidates xs). selectByLRU draw xs po = Some c"
    if xs: "xs = a # b # ys" for a b ys
  proof -
    have "\<exists>c. c \<in> set (lruCandidates xs)"
    proof (cases "list_ex (\<lambda>x. al_used x = None) xs")
      case False
      then have used: "\<forall>x \<in> set xs. al_used x \<noteq> None" by (auto simp: list_ex_iff)
      from foldl_earlier [OF this, of None] False xs show ?thesis
        by (cases "earliest xs") (auto simp: lruCandidates_def earliest_fold)
    qed (auto simp: lruCandidates_def list_ex_iff)
    then obtain c cs where cs: "lruCandidates xs = c # cs" by (cases "lruCandidates xs") auto
    show ?thesis
    proof (cases cs)
      case (Cons d ds)
      let ?oauth = "filter (\<lambda>x. act_Type (al_account x) = AccountTypeOAuth) (lruCandidates xs)"
      define q where "q = (if po \<and> ?oauth \<noteq> [] then ?oauth else lruCandidates xs)"
      have "q \<noteq> []" "set q \<subseteq> set (lruCandidates xs)" by (auto simp: q_def cs)
      then have "q ! Intn draw (length q) \<in> set (lruCandidates xs)"
        by (meson Intn_less length_greater_0_conv nth_mem subsetD)
      moreover have "selectByLRU draw xs po = Some (q ! Intn draw (length q))"
        by (simp only: xs selectByLRU_Cons2) (simp add: q_def xs [symmetric] cs Cons Let_def)
      ultimately show ?thesis by blast
    qed (simp add: xs selectByLRU_Cons2, simp add: xs [symmetric] cs)
  qed
  show "selectByLRU draw xs po = None \<longleftrightarrow> xs = []"
    using pool by (cases xs; cases "tl xs") (auto simp: selectByLRU_def)
  show "x \<in> set xs \<and> (\<forall>y \<in> set xs. \<not> used_before (al_used y) (al_used x))"
    if "selectByLRU draw xs po = Some x"
  proof (cases "\<exists>a b ys. xs = a # b # ys")
    case True
    with pool that show ?thesis by (auto simp: lruCandidates_iff)
  next
    case False
    with that show ?thesis
      by (cases xs; cases "tl xs") (auto simp: selectByLRU_def dest: used_before_asym)
  qed
qed

definition layeredPick :: "nat \<Rightarrow> bool \<Rightarrow> accountWithLoad list \<Rightarrow> accountWithLoad option" where
  "layeredPick draw preferOAuth available =
     selectByLRU draw (filterByMinLoadRate (filterByMinPriority available)) preferOAuth"

lemma filterByMin_Nil_iff [simp]:
  "filterByMinPriority xs = [] \<longleftrightarrow> xs = []" "filterByMinLoadRate xs = [] \<longleftrightarrow> xs = []"
  using least_by_attained [where f = al_priority] least_by_attained [where f = al_rate]
  by (cases xs; force simp: filter_empty_conv)+

lemma layeredPick_None [simp]: "layeredPick draw po xs = None \<longleftrightarrow> xs = []"
  by (simp add: layeredPick_def selectByLRU_iff)

lemma layeredPick_least:
  assumes "layeredPick draw po xs = Some x"
  shows "x \<in> set xs \<and> (\<forall>y \<in> set xs. \<not> less_with_load y x)"
proof -
  let ?p = "filterByMinPriority xs"
  let ?r = "filterByMinLoadRate ?p"
  have x: "x \<in> set ?r" "\<And>y. y \<in> set ?r \<Longrightarrow> \<not> used_before (al_used y) (al_used x)"
    using selectByLRU_iff(2) [OF assms [unfolded layeredPick_def]] by auto
  then have xp: "x \<in> set ?p" "\<And>y. y \<in> set ?p \<Longrightarrow> al_rate x \<le> al_rate y"
    by (simp_all add: filterByMinLoadRate_iff)
  then have xs: "x \<in> set xs" "\<And>y. y \<in> set xs \<Longrightarrow> al_priority x \<le> al_priority y"
    by (simp_all add: filterByMinPriority_iff)
  have "\<not> less_with_load y x" if y: "y \<in> set xs" for y
  proof (cases "al_priority y = al_priority x")
    case True
    with y xs have yp: "y \<in> set ?p" by (simp add: filterByMinPriority_iff)
    show ?thesis
    proof (cases "al_rate y = al_rate x")
      case rate: True
      with yp xp have "y \<in> set ?r" by (simp add: filterByMinLoadRate_iff)
      from x(2) [OF this] True rate show ?thesis by (simp add: less_with_load_def)
    qed (use xp(2) [OF yp] True in \<open>simp add: less_with_load_def\<close>)
  qed (use xs(2) [OF y] in \<open>simp add: less_with_load_def\<close>)
  with xs(1) show ?thesis by blast
qed

lemma with_load_equiv:
  "\<not> less_with_load x y \<Longrightarrow> \<not> less_with_load y x \<Longrightarrow>
     al_priority x = al_priority y \<and> al_rate x = al_rate y \<and> al_used x = al_used y"
  by (auto simp: less_with_load_def split: if_splits dest: used_before_linear)

lemma mset_partition: "mset (filter P xs) + mset (filter (\<lambda>x. \<not> P x) xs) = mset xs"
  by (induction xs) auto

lemma mset_shuffleOAuthFirst [simp]: "mset (shuffleOAuthFirst rnd i g) = mset g"
  by (simp add: shuffleOAuthFirst_def Let_def mset_partition)

lemma sorted_by_priority:
  assumes "strict_weak lt" and "\<And>a b. act_Priority a < act_Priority b \<Longrightarrow> lt a b"
  shows "sorted (map act_Priority (sort_by lt xs))"
proof -
  have "sorted_wrt (\<lambda>a b. \<not> lt b a) (sort_by lt xs)" by (rule strict_weak.sorted_sort_by [OF assms(1)])
  then have "sorted_wrt (\<lambda>a b. act_Priority a \<le> act_Priority b) (sort_by lt xs)"
    by (rule sorted_wrt_mono_rel [rotated]) (use assms(2) in \<open>auto simp: not_less [symmetric]\<close>)
  then show ?thesis by (simp add: sorted_wrt_map)
qed

lemma mset_sortAccounts [simp]: "mset (sortAccountsByPriorityAndLastUsed rnd po xs) = mset xs"
  by (simp add: sortAccountsByPriorityAndLastUsed_def shuffleWithinPriorityAndLastUsed_def mset_map_runs)

lemma mset_sortCandidates [simp]: "mset (sortCandidatesForFallback rnd po mode xs) = mset xs"
  by (simp add: sortCandidatesForFallback_def shuffleWithinPriority_def mset_map_runs)

lemma set_sortAccounts [simp]: "set (sortAccountsByPriorityAndLastUsed rnd po xs) = set xs"
  by (rule set_mset_eq) simp

lemma set_sortCandidates [simp]: "set (sortCandidatesForFallback rnd po mode xs) = set xs"
  by (rule set_mset_eq) simp

lemma set_shuffleGroups [simp]: "set (shuffleWithinSortGroups rnd xs) = set xs"
  by (rule set_mset_eq) (simp add: shuffleWithinSortGroups_def mset_map_runs)

section \<open>Properties\<close>

text \<open>
  The layered filtering that picks an account (least priority, then least load rate, then
  least recently used, ties at random) is equivalent to sorting: it picks an account exactly
  when there is one, and that account has the priority, load rate and last use of the head of
  the list sorted by those three.
\<close>

theorem layered_pick_is_sorted_head:
  "map_option (\<lambda>x. (al_priority x, al_rate x, al_used x)) (layeredPick draw po xs) =
   (case sort_by less_with_load xs of [] \<Rightarrow> None | y # _ \<Rightarrow> Some (al_priority y, al_rate y, al_used y))"
proof (cases "sort_by less_with_load xs")
  case Nil
  then have "xs = []" by (metis length_0_conv length_sort_by)
  with Nil show ?thesis by simp
next
  case (Cons y ys)
  then have "y \<in> set xs" by (metis list.set_intros(1) set_sort_by)
  moreover from this obtain x where x: "layeredPick draw po xs = Some x"
    by (cases "layeredPick draw po xs") auto
  ultimately have "\<not> less_with_load x y" "\<not> less_with_load y x"
    using layeredPick_least [OF x] with_load.hd_sort_by [OF Cons] by auto
  from with_load_equiv [OF this] show ?thesis by (simp add: x Cons)
qed

text \<open>
  The queue of last resort, in either mode and for all random numbers, holds exactly the
  candidates, in the order of their priorities: shuffling never lifts an account over one of
  a better priority.
\<close>

theorem fallback_order_keeps_priorities:
  "mset (sortCandidatesForFallback rnd preferOAuth mode accounts) = mset accounts \<and>
   sorted (map act_Priority (sortCandidatesForFallback rnd preferOAuth mode accounts))"
proof -
  have "sorted (map act_Priority (sort_by (less_priority_only preferOAuth) accounts))"
    "sorted (map act_Priority (sort_by (less_priority_used preferOAuth) accounts))"
    by (rule sorted_by_priority [OF priority_only.strict_weak_axioms] sorted_by_priority [OF priority_used.strict_weak_axioms],
        simp add: less_priority_only_def less_priority_used_def)+
  then have "sorted (map act_Priority (map_runs (\<lambda>i. Shuffle (rnd i)) (\<lambda>a b. act_Priority b = act_Priority a) 0
        (sort_by (less_priority_only preferOAuth) accounts)))"
    and "sorted (map act_Priority (map_runs (if preferOAuth then shuffleOAuthFirst rnd else (\<lambda>i. Shuffle (rnd i)))
        sameAccountGroup 0 (sort_by (less_priority_used preferOAuth) accounts)))"
    by (intro sorted_map_runs; simp add: sameAccountGroup_def)+
  then have "sorted (map act_Priority (sortCandidatesForFallback rnd preferOAuth mode accounts))"
    by (simp only: sortCandidatesForFallback_def shuffleWithinPriority_def sortAccountsByPriorityAndLastUsed_def
        shuffleWithinPriorityAndLastUsed_def split: if_split) simp
  then show ?thesis by simp
qed

end
