(* ===== verification/Account_Selection.thy ===== *)
theory Account_Selection
  imports Scheduling_Order Concurrency_Service Session_Limit Entities
begin

text \<open>
  How the gateway chooses the upstream account of a request
  (\<open>internal/service/gateway_service.go\<close>): the group a request falls back to, the checks that an
  account passes, and \<open>SelectAccountWithLoadAwareness\<close> with its layers (model routing, sticky
  session, load, queue), together with the slots and sessions that selecting takes in Redis.

  The environment \<open>sel_env\<close> holds what the code reads from elsewhere: the configuration, the
  clock, window costs and request rates, the hydration of the selected account, random numbers
  and the outcome of each call to Redis.  \<open>ss_calls\<close> counts those calls and so selects the
  outcome and the server's second of the next one.  The clock of the process is read once per
  selection.  The time to live of a sticky binding, the refreshing of cached window costs, logs
  and metrics are left out.
\<close>

section \<open>Environment and state\<close>

datatype sel_error =
    NoAvailableAccounts
  | ChannelRestricted
  | ClaudeCodeOnlyError
  | FallbackCycle
  | GroupLookupFailed
  | ListAccountsFailed
  | HydrationFailed

record sched_config =
  sc_StickySessionMaxWaiting :: int
  sc_StickySessionWaitTimeout :: int
  sc_FallbackWaitTimeout :: int
  sc_FallbackMaxWaiting :: int
  sc_FallbackSelectionMode :: gostr
  sc_LoadBatchEnabled :: bool

record sel_env =
  se_cfg :: sched_config
  se_concurrency :: "concurrencyCache option"
  se_requestIDPrefix :: gostr
  se_sessionLimit :: "int option"
  se_stickyCache :: bool
  se_clock :: time
  se_location :: location
  se_tzdb :: "gostr \<Rightarrow> location option"
  se_thinking :: "bool option"
  se_prefetchedCost :: "int64 \<rightharpoonup> rat"
  se_cachedCost :: "int64 \<rightharpoonup> rat"
  se_windowStats :: "int64 \<Rightarrow> time \<Rightarrow> rat option"
  se_prefetchedRPM :: "int64 \<rightharpoonup> int"
  se_currentRPM :: "int64 \<rightharpoonup> int"
  se_hydrate :: "Account \<Rightarrow> sel_error + Account"
  se_io :: "nat \<Rightarrow> io"
  se_second :: "nat \<Rightarrow> time"
  se_draw :: "nat \<Rightarrow> nat"
  se_shuffle :: "nat \<Rightarrow> nat \<Rightarrow> nat \<Rightarrow> nat"

record 'r sel_state =
  ss_counter :: "64 word"
  ss_redis :: 'r
  ss_sticky :: "int64 \<times> gostr \<rightharpoonup> int64"
  ss_calls :: nat
  ss_errored :: "int64 list"

record AccountWaitPlan =
  wp_AccountID :: int64
  wp_MaxConcurrency :: int
  wp_Timeout :: int
  wp_MaxWaiting :: int

record AccountSelectionResult =
  sr_Account :: Account
  sr_Acquired :: bool
  sr_ReleaseFunc :: release_func
  sr_WaitPlan :: "AccountWaitPlan option"

text \<open>What a stage of the selection yields: a return from the function, or nothing, in which
  case the next stage runs.\<close>

type_synonym 'r stage = "'r sel_state \<Rightarrow> (sel_error + AccountSelectionResult) option \<times> 'r sel_state"

definition derefGroupID :: "int64 option \<Rightarrow> int64" where
  "derefGroupID groupID = (case groupID of None \<Rightarrow> 0 | Some g \<Rightarrow> g)"

section \<open>Groups\<close>

text \<open>
  \<open>groups\<close> is \<open>groupRepo.GetByIDLite\<close> behind the group that the context carries; the fuel bounds
  the loop, which gives \<open>None\<close> when it runs out.
\<close>

fun resolveGatewayGroup ::
    "nat \<Rightarrow> (int64 \<rightharpoonup> Group) \<Rightarrow> bool \<Rightarrow> int64 list \<Rightarrow> int64 \<Rightarrow> (sel_error + Group \<times> int64) option" where
  "resolveGatewayGroup 0 groups claudeCode visited currentID = None"
| "resolveGatewayGroup (Suc n) groups claudeCode visited currentID =
     (if currentID \<in> set visited then Some (Inl FallbackCycle)
      else case groups currentID of
             None \<Rightarrow> Some (Inl GroupLookupFailed)
           | Some g \<Rightarrow>
               if \<not> gr_ClaudeCodeOnly g \<or> claudeCode then Some (Inr (g, currentID))
               else (case gr_FallbackGroupID g of
                       None \<Rightarrow> Some (Inl ClaudeCodeOnlyError)
                     | Some next \<Rightarrow> resolveGatewayGroup n groups claudeCode (currentID # visited) next))"

text \<open>The group and the group identifier that the rest of the selection uses.\<close>

definition checkClaudeCodeRestriction ::
    "nat \<Rightarrow> (int64 \<rightharpoonup> Group) \<Rightarrow> bool \<Rightarrow> gostr \<Rightarrow> int64 option \<Rightarrow> (sel_error + Group option \<times> int64 option) option" where
  "checkClaudeCodeRestriction fuel groups claudeCode forcePlatform groupID =
     (case groupID of
        None \<Rightarrow> Some (Inr (None, None))
      | Some g \<Rightarrow>
          if forcePlatform \<noteq> [] then Some (Inr (None, groupID))
          else (case resolveGatewayGroup fuel groups claudeCode [] g of
                  None \<Rightarrow> None
                | Some (Inl e) \<Rightarrow> Some (Inl e)
                | Some (Inr (grp, resolvedID)) \<Rightarrow> Some (Inr (Some grp, Some resolvedID))))"

definition resolvePlatform ::
    "(int64 \<rightharpoonup> Group) \<Rightarrow> gostr \<Rightarrow> int64 option \<Rightarrow> Group option \<Rightarrow> sel_error + gostr \<times> bool" where
  "resolvePlatform groups forcePlatform groupID grp =
     (if forcePlatform \<noteq> [] then Inr (forcePlatform, True)
      else case grp of
             Some g \<Rightarrow> Inr (gr_Platform g, False)
           | None \<Rightarrow>
               (case groupID of
                  Some i \<Rightarrow> (case groups i of None \<Rightarrow> Inl GroupLookupFailed | Some g \<Rightarrow> Inr (gr_Platform g, False))
                | None \<Rightarrow> Inr (PlatformAnthropic, False)))"

text \<open>
  \<open>listSchedulableAccounts\<close> without a scheduler snapshot.  \<open>repo\<close> answers the four queries of the
  account repository: which platforms, and the accounts of a group, of no group, or all.
\<close>

datatype account_scope = InGroup int64 | Ungrouped | AnyGroup

definition listSchedulableAccounts ::
    "(account_scope \<Rightarrow> gostr list \<Rightarrow> Account list option) \<Rightarrow> bool \<Rightarrow> int64 option \<Rightarrow> gostr \<Rightarrow> bool
     \<Rightarrow> (sel_error + Account list) \<times> bool" where
  "listSchedulableAccounts repo simpleMode groupID platform hasForcePlatform =
     (let useMixed = (platform = PlatformAnthropic \<or> platform = PlatformGemini) \<and> \<not> hasForcePlatform
      in if useMixed
         then (case repo (case groupID of Some g \<Rightarrow> InGroup g | None \<Rightarrow> if simpleMode then AnyGroup else Ungrouped)
                      [platform, PlatformAntigravity] of
                 None \<Rightarrow> (Inl ListAccountsFailed, useMixed)
               | Some accounts \<Rightarrow>
                   (Inr (filter (\<lambda>a. \<not> (act_Platform a = PlatformAntigravity \<and> \<not> IsMixedSchedulingEnabled a)) accounts),
                    useMixed))
         else (case repo (if simpleMode then AnyGroup else case groupID of Some g \<Rightarrow> InGroup g | None \<Rightarrow> Ungrouped)
                      [platform] of
                 None \<Rightarrow> (Inl ListAccountsFailed, useMixed)
               | Some accounts \<Rightarrow> (Inr accounts, useMixed)))"

section \<open>What an account must pass\<close>

definition isAccountAllowedForPlatform :: "Account \<Rightarrow> gostr \<Rightarrow> bool \<Rightarrow> bool" where
  "isAccountAllowedForPlatform a platform useMixed =
     (if useMixed
      then act_Platform a = platform \<or> (act_Platform a = PlatformAntigravity \<and> IsMixedSchedulingEnabled a)
      else act_Platform a = platform)"

definition isAccountInGroup :: "Account \<Rightarrow> int64 option \<Rightarrow> bool" where
  "isAccountInGroup a groupID =
     (case groupID of
        None \<Rightarrow> act_AccountGroups a = []
      | Some g \<Rightarrow> g \<in> set (act_AccountGroups a))"

definition isModelSupportedByAccount :: "Account \<Rightarrow> gostr \<Rightarrow> bool" where
  "isModelSupportedByAccount a requestedModel =
     (if act_Platform a = PlatformAntigravity
      then trim_space requestedModel = [] \<or> mapAntigravityModel (Some a) requestedModel \<noteq> []
      else if IsBedrock a then ResolveBedrockModelID (Some a) requestedModel \<noteq> None
      else if act_Platform a = PlatformAnthropic \<and> act_Type a \<noteq> AccountTypeAPIKey
      then IsModelSupported a (NormalizeModelID requestedModel)
      else IsModelSupported a requestedModel)"

definition isModelSupportedByAccountWithContext :: "bool option \<Rightarrow> Account \<Rightarrow> gostr \<Rightarrow> bool" where
  "isModelSupportedByAccountWithContext thinking a requestedModel =
     (if act_Platform a = PlatformAntigravity
      then if trim_space requestedModel = [] then True
           else let mapped = mapAntigravityModel (Some a) requestedModel
                in if mapped = [] then False
                   else case thinking of
                          Some enabled \<Rightarrow>
                            let finalModel = applyThinkingModelSuffix mapped enabled
                            in if finalModel = mapped then True else IsModelSupported a finalModel
                        | None \<Rightarrow> True
      else isModelSupportedByAccount a requestedModel)"

definition isAccountSchedulableForQuota :: "sel_env \<Rightarrow> Account \<Rightarrow> bool" where
  "isAccountSchedulableForQuota E a =
     (if \<not> IsAPIKeyOrBedrock a then True else \<not> IsQuotaExceeded (se_tzdb E) (se_clock E) a)"

fun allows :: "WindowCostSchedulability \<Rightarrow> bool \<Rightarrow> bool" where
  "allows WindowCostSchedulable isSticky = True"
| "allows WindowCostStickyOnly isSticky = isSticky"
| "allows WindowCostNotSchedulable isSticky = False"

text \<open>The cost of the current window: prefetched, cached, or from the usage log.\<close>

definition currentWindowCost :: "sel_env \<Rightarrow> Account \<Rightarrow> rat option" where
  "currentWindowCost E a =
     (case (if act_ID a \<le> 0 then None else se_prefetchedCost E (act_ID a)) of
        Some c \<Rightarrow> Some c
      | None \<Rightarrow>
          (case se_cachedCost E (act_ID a) of
             Some c \<Rightarrow> Some c
           | None \<Rightarrow> se_windowStats E (act_ID a) (GetCurrentWindowStartTime (se_location E) (se_clock E) a)))"

definition isAccountSchedulableForWindowCost :: "sel_env \<Rightarrow> Account \<Rightarrow> bool \<Rightarrow> bool" where
  "isAccountSchedulableForWindowCost E a isSticky =
     (if \<not> IsAnthropicOAuthOrSetupToken a then True
      else if GetWindowCostLimit a \<le> 0 then True
      else case currentWindowCost E a of
             None \<Rightarrow> True
           | Some currentCost \<Rightarrow> allows (CheckWindowCostSchedulability a currentCost) isSticky)"

definition isAccountSchedulableForRPM :: "sel_env \<Rightarrow> Account \<Rightarrow> bool \<Rightarrow> bool" where
  "isAccountSchedulableForRPM E a isSticky =
     (if \<not> IsAnthropicOAuthOrSetupToken a then True
      else if GetBaseRPM a \<le> 0 then True
      else let currentRPM = (case se_prefetchedRPM E (act_ID a) of
                 Some n \<Rightarrow> n
               | None \<Rightarrow> (case se_currentRPM E (act_ID a) of Some n \<Rightarrow> n | None \<Rightarrow> 0))
           in allows (CheckRPMSchedulability a currentRPM) isSticky)"

text \<open>The checks that the routed candidates, the routed sticky account and Layer 2 share.\<close>

definition modelAndLimits :: "sel_env \<Rightarrow> gostr \<Rightarrow> bool \<Rightarrow> Account \<Rightarrow> bool" where
  "modelAndLimits E requestedModel isSticky a =
     ((requestedModel = [] \<or> isModelSupportedByAccountWithContext (se_thinking E) a requestedModel) \<and>
      IsSchedulableForModelWithContext (se_clock E) (se_thinking E) a requestedModel \<and>
      isAccountSchedulableForQuota E a \<and>
      isAccountSchedulableForWindowCost E a isSticky \<and>
      isAccountSchedulableForRPM E a isSticky)"

definition eligible :: "sel_env \<Rightarrow> gostr \<Rightarrow> bool \<Rightarrow> gostr \<Rightarrow> bool \<Rightarrow> Account \<Rightarrow> bool" where
  "eligible E platform useMixed requestedModel isSticky a =
     (IsSchedulable (se_clock E) a \<and> isAccountAllowedForPlatform a platform useMixed \<and>
      modelAndLimits E requestedModel isSticky a)"

section \<open>Slots, sessions and sticky bindings\<close>

definition tryAcquireAccountSlot ::
    "'r redis_ops \<Rightarrow> sel_env \<Rightarrow> int64 \<Rightarrow> int \<Rightarrow> 'r sel_state \<Rightarrow> (svc_error + AcquireResult) \<times> 'r sel_state" where
  "tryAcquireAccountSlot R E accountID maxConcurrency st =
     (case se_concurrency E of
        None \<Rightarrow> (Inr \<lparr>Acquired = True, ReleaseFunc = NoopRelease\<rparr>, st)
      | Some c \<Rightarrow>
          (case svcAcquireAccountSlot R (Some c) (se_requestIDPrefix E) (se_io E (ss_calls st)) (se_second E (ss_calls st))
                  accountID maxConcurrency (ss_counter st, ss_redis st) of
             (res, counter, r) \<Rightarrow> (res, st\<lparr>ss_counter := counter, ss_redis := r, ss_calls := ss_calls st + 1\<rparr>)))"

definition releaseSlot :: "'r redis_ops \<Rightarrow> sel_env \<Rightarrow> release_func \<Rightarrow> 'r sel_state \<Rightarrow> 'r sel_state" where
  "releaseSlot R E rel st =
     st\<lparr>ss_redis := callRelease R (se_io E (ss_calls st)) rel (ss_redis st), ss_calls := ss_calls st + 1\<rparr>"

definition checkAndRegisterSession ::
    "'r redis_ops \<Rightarrow> sel_env \<Rightarrow> Account \<Rightarrow> gostr \<Rightarrow> 'r sel_state \<Rightarrow> bool \<times> 'r sel_state" where
  "checkAndRegisterSession R E a sessionID st =
     (if \<not> IsAnthropicOAuthOrSetupToken a then (True, st)
      else if GetMaxSessions a \<le> 0 \<or> sessionID = [] then (True, st)
      else case se_sessionLimit E of
             None \<Rightarrow> (True, st)
           | Some defaultIdle \<Rightarrow>
               (case RegisterSession R defaultIdle (se_io E (ss_calls st)) (se_second E (ss_calls st)) (act_ID a) sessionID
                       (GetMaxSessions a) (GetSessionIdleTimeoutMinutes a * minute) (ss_redis st) of
                  (allowed, err, r) \<Rightarrow>
                    (err \<noteq> None \<or> allowed, st\<lparr>ss_redis := r, ss_calls := ss_calls st + 1\<rparr>)))"

definition GetSessionAccountID :: "sel_env \<Rightarrow> int64 \<Rightarrow> gostr \<Rightarrow> 'r sel_state \<Rightarrow> int64 option \<times> 'r sel_state" where
  "GetSessionAccountID E groupID sessionHash st =
     (if se_io E (ss_calls st) = Answered then ss_sticky st (groupID, sessionHash) else None,
      st\<lparr>ss_calls := ss_calls st + 1\<rparr>)"

definition SetSessionAccountID :: "sel_env \<Rightarrow> int64 \<Rightarrow> gostr \<Rightarrow> int64 \<Rightarrow> 'r sel_state \<Rightarrow> 'r sel_state" where
  "SetSessionAccountID E groupID sessionHash accountID st =
     st\<lparr>ss_sticky := (if se_io E (ss_calls st) = Lost then ss_sticky st
                      else (ss_sticky st)((groupID, sessionHash) \<mapsto> accountID)),
        ss_calls := ss_calls st + 1\<rparr>"

definition DeleteSessionAccountID :: "sel_env \<Rightarrow> int64 \<Rightarrow> gostr \<Rightarrow> 'r sel_state \<Rightarrow> 'r sel_state" where
  "DeleteSessionAccountID E groupID sessionHash st =
     st\<lparr>ss_sticky := (if se_io E (ss_calls st) = Lost then ss_sticky st
                      else (ss_sticky st)((groupID, sessionHash) := None)),
        ss_calls := ss_calls st + 1\<rparr>"

definition bindSticky :: "sel_env \<Rightarrow> int64 option \<Rightarrow> gostr \<Rightarrow> int64 \<Rightarrow> 'r sel_state \<Rightarrow> 'r sel_state" where
  "bindSticky E groupID sessionHash accountID st =
     (if sessionHash \<noteq> [] \<and> se_stickyCache E
      then SetSessionAccountID E (derefGroupID groupID) sessionHash accountID st else st)"

definition newSelectionResult ::
    "sel_env \<Rightarrow> Account \<Rightarrow> bool \<Rightarrow> release_func \<Rightarrow> AccountWaitPlan option \<Rightarrow> sel_error + AccountSelectionResult" where
  "newSelectionResult E a acquired release waitPlan =
     (case se_hydrate E a of
        Inl e \<Rightarrow> Inl e
      | Inr hydrated \<Rightarrow>
          Inr \<lparr>sr_Account = hydrated, sr_Acquired = acquired, sr_ReleaseFunc = release, sr_WaitPlan = waitPlan\<rparr>)"

definition waitResult :: "sel_env \<Rightarrow> Account \<Rightarrow> int \<Rightarrow> int \<Rightarrow> sel_error + AccountSelectionResult" where
  "waitResult E a timeout maxWaiting =
     newSelectionResult E a False NoRelease
       (Some \<lparr>wp_AccountID = act_ID a, wp_MaxConcurrency = act_Concurrency a,
              wp_Timeout = timeout, wp_MaxWaiting = maxWaiting\<rparr>)"

section \<open>The layers\<close>

text \<open>
  Try the accounts in order for a slot: a slot whose session is refused is released, a slot that
  is kept binds the session.
\<close>

fun acquireLoop ::
    "'r redis_ops \<Rightarrow> sel_env \<Rightarrow> int64 option \<Rightarrow> gostr \<Rightarrow> Account list \<Rightarrow> 'r stage" where
  "acquireLoop R E groupID sessionHash [] st = (None, st)"
| "acquireLoop R E groupID sessionHash (a # as) st =
     (case tryAcquireAccountSlot R E (act_ID a) (act_Concurrency a) st of
        (Inl e, st1) \<Rightarrow> acquireLoop R E groupID sessionHash as st1
      | (Inr result, st1) \<Rightarrow>
          if Acquired result
          then (case checkAndRegisterSession R E a sessionHash st1 of
                  (True, st2) \<Rightarrow>
                    (Some (newSelectionResult E a True (ReleaseFunc result) None),
                     bindSticky E groupID sessionHash (act_ID a) st2)
                | (False, st2) \<Rightarrow>
                    acquireLoop R E groupID sessionHash as (releaseSlot R E (ReleaseFunc result) st2))
          else acquireLoop R E groupID sessionHash as st1)"

text \<open>The first account whose session limit admits the request, with a wait plan.\<close>

fun waitLoop :: "'r redis_ops \<Rightarrow> sel_env \<Rightarrow> int \<Rightarrow> int \<Rightarrow> gostr \<Rightarrow> Account list \<Rightarrow> 'r stage" where
  "waitLoop R E timeout maxWaiting sessionHash [] st = (None, st)"
| "waitLoop R E timeout maxWaiting sessionHash (a # as) st =
     (case checkAndRegisterSession R E a sessionHash st of
        (True, st1) \<Rightarrow> (Some (waitResult E a timeout maxWaiting), st1)
      | (False, st1) \<Rightarrow> waitLoop R E timeout maxWaiting sessionHash as st1)"

text \<open>A waiting count that cannot be read is 0.\<close>

definition waitingCount :: "'r redis_ops \<Rightarrow> sel_env \<Rightarrow> concurrencyCache \<Rightarrow> int64 \<Rightarrow> 'r sel_state \<Rightarrow> int \<times> 'r sel_state" where
  "waitingCount R E c accountID st =
     (case svcGetAccountWaitingCount R (Some c) (se_io E (ss_calls st)) accountID (ss_redis st) of
        (Inl e, r) \<Rightarrow> (0, st\<lparr>ss_redis := r, ss_calls := ss_calls st + 1\<rparr>)
      | (Inr n, r) \<Rightarrow> (n, st\<lparr>ss_redis := r, ss_calls := ss_calls st + 1\<rparr>))"

definition stickyWait :: "'r redis_ops \<Rightarrow> sel_env \<Rightarrow> concurrencyCache \<Rightarrow> gostr \<Rightarrow> Account \<Rightarrow> 'r stage" where
  "stickyWait R E c sessionHash a st =
     (case waitingCount R E c (act_ID a) st of
        (n, st1) \<Rightarrow>
          if n < sc_StickySessionMaxWaiting (se_cfg E)
          then (case checkAndRegisterSession R E a sessionHash st1 of
                  (True, st2) \<Rightarrow>
                    (Some (waitResult E a (sc_StickySessionWaitTimeout (se_cfg E)) (sc_StickySessionMaxWaiting (se_cfg E))), st2)
                | (False, st2) \<Rightarrow> (None, st2))
          else (None, st1))"

text \<open>
  The account that the session is bound to.  With model routing (\<open>routed\<close>) a refused session ends
  the attempt; without, the wait queue is tried all the same, and a slot refreshes the binding.
\<close>

definition stickySlot :: "'r redis_ops \<Rightarrow> sel_env \<Rightarrow> concurrencyCache \<Rightarrow> bool \<Rightarrow> gostr \<Rightarrow> Account \<Rightarrow> 'r stage" where
  "stickySlot R E c routed sessionHash a st =
     (case tryAcquireAccountSlot R E (act_ID a) (act_Concurrency a) st of
        (Inl e, st1) \<Rightarrow> stickyWait R E c sessionHash a st1
      | (Inr result, st1) \<Rightarrow>
          if Acquired result
          then (case checkAndRegisterSession R E a sessionHash st1 of
                  (True, st2) \<Rightarrow>
                    (Some (newSelectionResult E a True (ReleaseFunc result) None),
                     if \<not> routed \<and> se_stickyCache E then st2\<lparr>ss_calls := ss_calls st2 + 1\<rparr> else st2)
                | (False, st2) \<Rightarrow>
                    let st3 = releaseSlot R E (ReleaseFunc result) st2
                    in if routed then (None, st3) else stickyWait R E c sessionHash a st3)
          else stickyWait R E c sessionHash a st1)"

text \<open>\<open>accountByID\<close>: a later account replaces an earlier one with the same identifier.\<close>

definition accountByID :: "Account list \<Rightarrow> int64 \<Rightarrow> Account option" where
  "accountByID accounts i = find (\<lambda>a. act_ID a = i) (rev accounts)"

definition loadsOf :: "Account list \<Rightarrow> AccountWithConcurrency list" where
  "loadsOf as = map (\<lambda>a. \<lparr>awc_ID = act_ID a, awc_MaxConcurrency = EffectiveLoadFactor (Some a)\<rparr>) as"

definition loadBatch ::
    "'r redis_ops \<Rightarrow> sel_env \<Rightarrow> concurrencyCache \<Rightarrow> Account list \<Rightarrow> 'r sel_state
     \<Rightarrow> (redis_error + (int64 \<rightharpoonup> AccountLoadInfo)) \<times> 'r sel_state" where
  "loadBatch R E c as st =
     (case svcGetAccountsLoadBatch R (Some c) (se_io E (ss_calls st)) (se_io E (ss_calls st + 1))
             (se_second E (ss_calls st)) (loadsOf as) (ss_redis st) of
        (res, r) \<Rightarrow> (res, st\<lparr>ss_redis := r, ss_calls := ss_calls st + 2\<rparr>))"

definition withLoad :: "(int64 \<rightharpoonup> AccountLoadInfo) \<Rightarrow> Account \<Rightarrow> accountWithLoad" where
  "withLoad m a =
     \<lparr>al_account = a,
      al_loadInfo = (case m (act_ID a) of
         Some i \<Rightarrow> i
       | None \<Rightarrow> \<lparr>ali_AccountID = act_ID a, ali_CurrentConcurrency = 0, ali_WaitingCount = 0, ali_LoadRate = 0\<rparr>)\<rparr>"

definition availableOf :: "(int64 \<rightharpoonup> AccountLoadInfo) \<Rightarrow> Account list \<Rightarrow> accountWithLoad list" where
  "availableOf m as = filter (\<lambda>x. al_rate x < 100) (map (withLoad m) as)"

text \<open>Layer 1: the accounts that the group routes the model to.\<close>

definition routingCandidates ::
    "sel_env \<Rightarrow> gostr \<Rightarrow> bool \<Rightarrow> gostr \<Rightarrow> int64 set \<Rightarrow> Account list \<Rightarrow> int64 list \<Rightarrow> Account list" where
  "routingCandidates E platform useMixed requestedModel excluded accounts ids =
     List.map_filter (\<lambda>i.
       if i \<in> excluded then None
       else case accountByID accounts i of
              None \<Rightarrow> None
            | Some a \<Rightarrow> if eligible E platform useMixed requestedModel False a then Some a else None) ids"

definition routedSticky ::
    "'r redis_ops \<Rightarrow> sel_env \<Rightarrow> concurrencyCache \<Rightarrow> int64 option \<Rightarrow> gostr \<Rightarrow> bool \<Rightarrow> gostr \<Rightarrow> gostr \<Rightarrow> int64 set
     \<Rightarrow> int64 \<Rightarrow> Account list \<Rightarrow> int64 list \<Rightarrow> 'r stage" where
  "routedSticky R E c groupID platform useMixed requestedModel sessionHash excluded stickyID accounts ids st =
     (if sessionHash \<noteq> [] \<and> stickyID > 0 \<and> stickyID \<in> set ids \<and> stickyID \<notin> excluded
      then (case accountByID accounts stickyID of
              Some a \<Rightarrow>
                if eligible E platform useMixed requestedModel True a
                then stickySlot R E c True sessionHash a st
                else (None, st)
            | None \<Rightarrow> (None, DeleteSessionAccountID E (derefGroupID groupID) sessionHash st))
      else (None, st))"

definition routedLoad ::
    "'r redis_ops \<Rightarrow> sel_env \<Rightarrow> concurrencyCache \<Rightarrow> int64 option \<Rightarrow> gostr \<Rightarrow> Account list \<Rightarrow> 'r stage" where
  "routedLoad R E c groupID sessionHash candidates st =
     (case loadBatch R E c candidates st of
        (res, st1) \<Rightarrow>
          let m = (case res of Inl e \<Rightarrow> Map.empty | Inr m \<Rightarrow> m);
              items = map al_account (shuffleWithinSortGroups (se_shuffle E (ss_calls st1))
                        (sort_by less_with_load (availableOf m candidates)))
          in if items = [] then (None, st1)
             else (case acquireLoop R E groupID sessionHash items st1 of
                     (Some res, st2) \<Rightarrow> (Some res, st2)
                   | (None, st2) \<Rightarrow>
                       waitLoop R E (sc_StickySessionWaitTimeout (se_cfg E)) (sc_StickySessionMaxWaiting (se_cfg E))
                         sessionHash items st2))"

definition andThenStage :: "'r stage \<Rightarrow> 'r stage \<Rightarrow> 'r stage" where
  "andThenStage f g st = (case f st of (Some res, st1) \<Rightarrow> (Some res, st1) | (None, st1) \<Rightarrow> g st1)"

definition layerRouting ::
    "'r redis_ops \<Rightarrow> sel_env \<Rightarrow> concurrencyCache \<Rightarrow> int64 option \<Rightarrow> gostr \<Rightarrow> bool \<Rightarrow> gostr \<Rightarrow> gostr \<Rightarrow> int64 set
     \<Rightarrow> int64 \<Rightarrow> Account list \<Rightarrow> int64 list \<Rightarrow> 'r stage" where
  "layerRouting R E c groupID platform useMixed requestedModel sessionHash excluded stickyID accounts ids st =
     (if ids = [] then (None, st)
      else let candidates = routingCandidates E platform useMixed requestedModel excluded accounts ids
           in if candidates = [] then (None, st)
              else andThenStage
                     (routedSticky R E c groupID platform useMixed requestedModel sessionHash excluded stickyID accounts ids)
                     (routedLoad R E c groupID sessionHash candidates) st)"

text \<open>Layer 1.5: the account that the session is bound to, without model routing.\<close>

definition layerSticky ::
    "'r redis_ops \<Rightarrow> sel_env \<Rightarrow> concurrencyCache \<Rightarrow> int64 option \<Rightarrow> gostr \<Rightarrow> bool \<Rightarrow> gostr \<Rightarrow> gostr \<Rightarrow> int64 set
     \<Rightarrow> int64 \<Rightarrow> Account list \<Rightarrow> int64 list \<Rightarrow> 'r stage" where
  "layerSticky R E c groupID platform useMixed requestedModel sessionHash excluded stickyID accounts ids st =
     (if ids = [] \<and> sessionHash \<noteq> [] \<and> stickyID > 0 \<and> stickyID \<notin> excluded
      then (case accountByID accounts stickyID of
              None \<Rightarrow> (None, st)
            | Some a \<Rightarrow>
                if shouldClearStickySession (se_clock E) (Some a) requestedModel
                then (None, DeleteSessionAccountID E (derefGroupID groupID) sessionHash st)
                else if isAccountInGroup a groupID \<and> isAccountAllowedForPlatform a platform useMixed \<and>
                        modelAndLimits E requestedModel True a
                then stickySlot R E c False sessionHash a st
                else (None, st))
      else (None, st))"

text \<open>Layer 2: the least loaded account, again and again until one gives a slot.\<close>

definition withoutID :: "int64 \<Rightarrow> accountWithLoad list \<Rightarrow> accountWithLoad list" where
  "withoutID i xs = filter (\<lambda>x. act_ID (al_account x) \<noteq> i) xs"

lemma withoutID_shorter: "x \<in> set xs \<Longrightarrow> length (withoutID (act_ID (al_account x)) xs) < length xs"
  by (simp add: withoutID_def length_filter_less)

function layeredLoop ::
    "'r redis_ops \<Rightarrow> sel_env \<Rightarrow> int64 option \<Rightarrow> gostr \<Rightarrow> bool \<Rightarrow> accountWithLoad list \<Rightarrow> 'r stage" where
  "layeredLoop R E groupID sessionHash preferOAuth available st =
     (case layeredPick (se_draw E (ss_calls st)) preferOAuth available of
        None \<Rightarrow> (None, st)
      | Some selected \<Rightarrow>
          (case acquireLoop R E groupID sessionHash [al_account selected] st of
             (Some res, st1) \<Rightarrow> (Some res, st1)
           | (None, st1) \<Rightarrow>
               layeredLoop R E groupID sessionHash preferOAuth
                 (withoutID (act_ID (al_account selected)) available) st1))"
  by pat_completeness auto
termination
  by (relation "measure (\<lambda>(R, E, groupID, sessionHash, preferOAuth, available, st). length available)")
    (auto dest!: layeredPick_least intro!: withoutID_shorter)

declare layeredLoop.simps [simp del]

definition layer2Candidates ::
    "sel_env \<Rightarrow> gostr \<Rightarrow> bool \<Rightarrow> gostr \<Rightarrow> int64 set \<Rightarrow> Account list \<Rightarrow> Account list" where
  "layer2Candidates E platform useMixed requestedModel excluded accounts =
     filter (\<lambda>a. act_ID a \<notin> excluded \<and> eligible E platform useMixed requestedModel False a) accounts"

definition tryAcquireByLegacyOrder ::
    "'r redis_ops \<Rightarrow> sel_env \<Rightarrow> int64 option \<Rightarrow> gostr \<Rightarrow> bool \<Rightarrow> Account list \<Rightarrow> 'r stage" where
  "tryAcquireByLegacyOrder R E groupID sessionHash preferOAuth candidates st =
     acquireLoop R E groupID sessionHash
       (sortAccountsByPriorityAndLastUsed (se_shuffle E (ss_calls st)) preferOAuth candidates) st"

definition layerLoad ::
    "'r redis_ops \<Rightarrow> sel_env \<Rightarrow> concurrencyCache \<Rightarrow> int64 option \<Rightarrow> gostr \<Rightarrow> bool \<Rightarrow> Account list \<Rightarrow> 'r stage" where
  "layerLoad R E c groupID sessionHash preferOAuth candidates st =
     (case loadBatch R E c candidates st of
        (Inl e, st1) \<Rightarrow> tryAcquireByLegacyOrder R E groupID sessionHash preferOAuth candidates st1
      | (Inr m, st1) \<Rightarrow> layeredLoop R E groupID sessionHash preferOAuth (availableOf m candidates) st1)"

text \<open>Layer 3: a place in the queue of some candidate.\<close>

definition layerQueue ::
    "'r redis_ops \<Rightarrow> sel_env \<Rightarrow> gostr \<Rightarrow> bool \<Rightarrow> Account list \<Rightarrow> 'r stage" where
  "layerQueue R E sessionHash preferOAuth candidates st =
     waitLoop R E (sc_FallbackWaitTimeout (se_cfg E)) (sc_FallbackMaxWaiting (se_cfg E)) sessionHash
       (sortCandidatesForFallback (se_shuffle E (ss_calls st)) preferOAuth
          (sc_FallbackSelectionMode (se_cfg E)) candidates) st"

text \<open>The layers in order, for the accounts that were listed.\<close>

definition selectByLayers ::
    "'r redis_ops \<Rightarrow> sel_env \<Rightarrow> concurrencyCache \<Rightarrow> int64 option \<Rightarrow> gostr \<Rightarrow> bool \<Rightarrow> gostr \<Rightarrow> gostr \<Rightarrow> int64 set
     \<Rightarrow> int64 \<Rightarrow> Account list \<Rightarrow> int64 list \<Rightarrow> 'r sel_state \<Rightarrow> (sel_error + AccountSelectionResult) \<times> 'r sel_state" where
  "selectByLayers R E c groupID platform useMixed requestedModel sessionHash excluded stickyID accounts ids st =
     (let preferOAuth = (platform = PlatformGemini);
          candidates = layer2Candidates E platform useMixed requestedModel excluded accounts
      in case andThenStage
           (layerRouting R E c groupID platform useMixed requestedModel sessionHash excluded stickyID accounts ids)
           (andThenStage
             (layerSticky R E c groupID platform useMixed requestedModel sessionHash excluded stickyID accounts ids)
             (\<lambda>st. if candidates = [] then (Some (Inl NoAvailableAccounts), st)
                   else andThenStage (layerLoad R E c groupID sessionHash preferOAuth candidates)
                          (layerQueue R E sessionHash preferOAuth candidates) st)) st of
           (Some res, st1) \<Rightarrow> (res, st1)
         | (None, st1) \<Rightarrow> (Inl NoAvailableAccounts, st1))"

section \<open>Where a result comes from\<close>

text \<open>A stage returns only what it makes of one of its accounts: a slot or a place in the queue.\<close>

definition offers :: "sel_env \<Rightarrow> Account \<Rightarrow> sel_error + AccountSelectionResult \<Rightarrow> bool" where
  "offers E a res \<longleftrightarrow>
     (\<exists>rel. res = newSelectionResult E a True rel None) \<or> (\<exists>t m. res = waitResult E a t m)"

definition from_accounts :: "sel_env \<Rightarrow> (Account \<Rightarrow> bool) \<Rightarrow> 'r stage \<Rightarrow> bool" where
  "from_accounts E P f \<longleftrightarrow> (\<forall>st res st'. f st = (Some res, st') \<longrightarrow> (\<exists>a. P a \<and> offers E a res))"

lemma from_accountsI:
  "(\<And>st res st'. f st = (Some res, st') \<Longrightarrow> \<exists>a. P a \<and> offers E a res) \<Longrightarrow> from_accounts E P f"
  by (simp add: from_accounts_def)

lemma from_accountsD: "from_accounts E P f \<Longrightarrow> f st = (Some res, st') \<Longrightarrow> \<exists>a. P a \<and> offers E a res"
  unfolding from_accounts_def by blast

lemma from_accounts_mono: "from_accounts E P f \<Longrightarrow> (\<And>a. P a \<Longrightarrow> Q a) \<Longrightarrow> from_accounts E Q f"
  unfolding from_accounts_def by blast

lemma offers_result [simp]:
  "offers E a (newSelectionResult E a True rel None)" "offers E a (waitResult E a t m)"
  by (auto simp: offers_def)

lemma from_acquireLoop: "from_accounts E (\<lambda>a. a \<in> set as) (acquireLoop R E groupID sess as)"
proof (rule from_accountsI)
  show "\<exists>a. a \<in> set as \<and> offers E a res" if "acquireLoop R E groupID sess as st = (Some res, st')" for st res st'
    using that
    by (induction as arbitrary: st) (auto split: prod.splits sum.splits if_splits bool.splits)
qed

lemma from_waitLoop: "from_accounts E (\<lambda>a. a \<in> set as) (waitLoop R E t m sess as)"
proof (rule from_accountsI)
  show "\<exists>a. a \<in> set as \<and> offers E a res" if "waitLoop R E t m sess as st = (Some res, st')" for st res st'
    using that by (induction as arbitrary: st) (auto split: prod.splits bool.splits)
qed

lemma from_stickyWait: "from_accounts E (\<lambda>x. x = a) (stickyWait R E c sess a)"
  by (auto simp: from_accounts_def stickyWait_def split: prod.splits if_splits bool.splits)

lemma from_stickySlot: "from_accounts E (\<lambda>x. x = a) (stickySlot R E c routed sess a)"
  using from_stickyWait [THEN from_accountsD]
  by (auto simp: from_accounts_def stickySlot_def Let_def split: prod.splits sum.splits if_splits bool.splits)

lemma from_andThen:
  "from_accounts E P f \<Longrightarrow> from_accounts E P g \<Longrightarrow> from_accounts E P (andThenStage f g)"
  unfolding from_accounts_def andThenStage_def by (auto split: prod.splits option.splits)

lemma from_layeredLoop:
  "from_accounts E (\<lambda>a. a \<in> al_account ` set xs) (layeredLoop R E groupID sess po xs)"
proof (rule from_accountsI)
  show "\<exists>a. a \<in> al_account ` set xs \<and> offers E a res"
    if "layeredLoop R E groupID sess po xs st = (Some res, st')" for st res st'
    using that
  proof (induction "length xs" arbitrary: xs st rule: less_induct)
    case less
    then obtain x where x: "layeredPick (se_draw E (ss_calls st)) po xs = Some x"
      by (subst (asm) layeredLoop.simps) (auto split: option.splits)
    then have mem: "x \<in> set xs" by (blast dest: layeredPick_least)
    obtain r1 st1 where loop: "acquireLoop R E groupID sess [al_account x] st = (r1, st1)" by fastforce
    show ?case
    proof (cases r1)
      case None
      with less.prems x loop have "layeredLoop R E groupID sess po (withoutID (act_ID (al_account x)) xs) st1 = (Some res, st')"
        by (subst (asm) layeredLoop.simps) (simp del: acquireLoop.simps)
      from less.hyps [OF withoutID_shorter [OF mem] this] show ?thesis by (auto simp: withoutID_def)
    next
      case (Some r)
      with less.prems x loop have "r = res"
        by (subst (asm) layeredLoop.simps) (simp del: acquireLoop.simps)
      with from_accountsD [OF from_acquireLoop loop [unfolded Some]] mem show ?thesis by auto
    qed
  qed
qed

lemma al_account_withLoad [simp]: "al_account (withLoad m a) = a"
  by (simp add: withLoad_def)

lemma set_availableOf: "al_account ` set (availableOf m as) \<subseteq> set as"
  by (auto simp: availableOf_def)

lemma set_map_filter_if:
  "x \<in> set (List.map_filter f xs) \<longleftrightarrow> (\<exists>y \<in> set xs. f y = Some x)"
  by (induction xs) (auto simp: List.map_filter_simps split: option.splits)

lemma accountByID_Some: "accountByID accounts i = Some a \<Longrightarrow> a \<in> set accounts \<and> act_ID a = i"
  by (auto simp: accountByID_def find_Some_iff) (metis nth_mem set_rev length_rev)

lemma routingCandidates_iff:
  assumes "a \<in> set (routingCandidates E platform useMixed m excluded accounts ids)"
  shows "a \<in> set accounts \<and> act_ID a \<notin> excluded \<and> eligible E platform useMixed m False a"
proof -
  obtain i where "(if i \<in> excluded then None
       else case accountByID accounts i of
              None \<Rightarrow> None
            | Some a \<Rightarrow> if eligible E platform useMixed m False a then Some a else None) = Some a"
    using assms by (auto simp only: routingCandidates_def set_map_filter_if)
  then have "i \<notin> excluded" "accountByID accounts i = Some a" "eligible E platform useMixed m False a"
    by (auto split: if_splits option.splits)
  then show ?thesis by (auto dest: accountByID_Some)
qed

text \<open>What the selection promises of the account it returns.\<close>

definition selectable ::
    "sel_env \<Rightarrow> gostr \<Rightarrow> bool \<Rightarrow> gostr \<Rightarrow> int64 set \<Rightarrow> int64 \<Rightarrow> Account list \<Rightarrow> Account \<Rightarrow> bool" where
  "selectable E platform useMixed m excluded stickyID accounts a \<longleftrightarrow>
     a \<in> set accounts \<and> act_ID a \<notin> excluded \<and>
     (eligible E platform useMixed m False a \<or> (act_ID a = stickyID \<and> eligible E platform useMixed m True a))"

lemma from_routedLoad:
  "from_accounts E (\<lambda>a. a \<in> set as) (routedLoad R E c groupID sess as)"
proof (rule from_accountsI)
  show "\<exists>a. a \<in> set as \<and> offers E a res" if "routedLoad R E c groupID sess as st = (Some res, st')" for st res st'
  proof -
    obtain r st1 where 1: "loadBatch R E c as st = (r, st1)" by fastforce
    define m where "m = (case r of Inl e \<Rightarrow> Map.empty | Inr m \<Rightarrow> m)"
    define items where "items = map al_account (shuffleWithinSortGroups (se_shuffle E (ss_calls st1))
                        (sort_by less_with_load (availableOf m as)))"
    have items: "set items \<subseteq> set as" using set_availableOf [of m as] by (simp add: items_def)
    have "andThenStage (acquireLoop R E groupID sess items)
        (waitLoop R E (sc_StickySessionWaitTimeout (se_cfg E)) (sc_StickySessionMaxWaiting (se_cfg E)) sess items) st1
        = (Some res, st')"
      using that by (simp add: routedLoad_def 1 Let_def items_def m_def andThenStage_def split: if_splits)
    from from_accountsD [OF from_andThen [OF from_acquireLoop from_waitLoop] this] items show ?thesis by blast
  qed
qed

lemma from_layers:
  "from_accounts E (selectable E platform useMixed m excluded stickyID accounts)
     (layerRouting R E c groupID platform useMixed m sess excluded stickyID accounts ids)"
  "from_accounts E (selectable E platform useMixed m excluded stickyID accounts)
     (layerSticky R E c groupID platform useMixed m sess excluded stickyID accounts ids)"
proof -
  let ?P = "selectable E platform useMixed m excluded stickyID accounts"
  have sticky: "from_accounts E ?P (routedSticky R E c groupID platform useMixed m sess excluded stickyID accounts ids)"
    by (auto simp: from_accounts_def routedSticky_def selectable_def split: if_splits option.splits
        dest!: accountByID_Some from_stickySlot [THEN from_accountsD])
  have load: "from_accounts E ?P (routedLoad R E c groupID sess (routingCandidates E platform useMixed m excluded accounts ids))"
    by (rule from_accounts_mono [OF from_routedLoad]) (auto simp: selectable_def dest: routingCandidates_iff)
  show "from_accounts E ?P (layerRouting R E c groupID platform useMixed m sess excluded stickyID accounts ids)"
    using from_andThen [OF sticky load]
    by (auto simp: from_accounts_def layerRouting_def Let_def split: if_splits)
  show "from_accounts E ?P (layerSticky R E c groupID platform useMixed m sess excluded stickyID accounts ids)"
    by (auto simp: from_accounts_def layerSticky_def selectable_def eligible_def modelAndLimits_def
        IsSchedulableForModelWithContext_def split: if_splits option.splits
        dest!: accountByID_Some from_stickySlot [THEN from_accountsD])
qed

lemma from_layerLoad:
  "from_accounts E (\<lambda>a. a \<in> set as) (layerLoad R E c groupID sess po as)"
proof (rule from_accountsI)
  show "\<exists>a. a \<in> set as \<and> offers E a res" if "layerLoad R E c groupID sess po as st = (Some res, st')" for st res st'
  proof -
    obtain r st1 where 1: "loadBatch R E c as st = (r, st1)" by fastforce
    show ?thesis
    proof (cases r)
      case (Inl e)
      with that 1 have "acquireLoop R E groupID sess
          (sortAccountsByPriorityAndLastUsed (se_shuffle E (ss_calls st1)) po as) st1 = (Some res, st')"
        by (simp add: layerLoad_def tryAcquireByLegacyOrder_def)
      from from_accountsD [OF from_acquireLoop this] show ?thesis by simp
    next
      case (Inr m)
      with that 1 have "layeredLoop R E groupID sess po (availableOf m as) st1 = (Some res, st')"
        by (simp add: layerLoad_def)
      from from_accountsD [OF from_layeredLoop this] set_availableOf show ?thesis by blast
    qed
  qed
qed

lemma from_layerQueue: "from_accounts E (\<lambda>a. a \<in> set as) (layerQueue R E sess po as)"
proof (rule from_accountsI)
  show "\<exists>a. a \<in> set as \<and> offers E a res" if "layerQueue R E sess po as st = (Some res, st')" for st res st'
    using from_accountsD [OF from_waitLoop that [unfolded layerQueue_def]] by simp
qed

text \<open>The stages of the selection as one stage.\<close>

definition allLayers ::
    "'r redis_ops \<Rightarrow> sel_env \<Rightarrow> concurrencyCache \<Rightarrow> int64 option \<Rightarrow> gostr \<Rightarrow> bool \<Rightarrow> gostr \<Rightarrow> gostr \<Rightarrow> int64 set
     \<Rightarrow> int64 \<Rightarrow> Account list \<Rightarrow> int64 list \<Rightarrow> 'r stage" where
  "allLayers R E c groupID platform useMixed requestedModel sessionHash excluded stickyID accounts ids =
     (let preferOAuth = (platform = PlatformGemini);
          candidates = layer2Candidates E platform useMixed requestedModel excluded accounts
      in andThenStage
           (layerRouting R E c groupID platform useMixed requestedModel sessionHash excluded stickyID accounts ids)
           (andThenStage
             (layerSticky R E c groupID platform useMixed requestedModel sessionHash excluded stickyID accounts ids)
             (\<lambda>st. if candidates = [] then (Some (Inl NoAvailableAccounts), st)
                   else andThenStage (layerLoad R E c groupID sessionHash preferOAuth candidates)
                          (layerQueue R E sessionHash preferOAuth candidates) st)))"

lemma selectByLayers_all:
  "selectByLayers R E c groupID platform useMixed m sess excluded stickyID accounts ids st =
     (case allLayers R E c groupID platform useMixed m sess excluded stickyID accounts ids st of
        (Some res, st1) \<Rightarrow> (res, st1)
      | (None, st1) \<Rightarrow> (Inl NoAvailableAccounts, st1))"
  by (simp add: selectByLayers_def allLayers_def Let_def)

lemma layer2Candidates_selectable:
  "a \<in> set (layer2Candidates E platform useMixed m excluded accounts) \<Longrightarrow>
     selectable E platform useMixed m excluded stickyID accounts a"
  by (auto simp: layer2Candidates_def selectable_def)

lemma from_lastLayers:
  "from_accounts E (selectable E platform useMixed m excluded stickyID accounts)
     (andThenStage (layerLoad R E c groupID sess po (layer2Candidates E platform useMixed m excluded accounts))
        (layerQueue R E sess po (layer2Candidates E platform useMixed m excluded accounts)))"
  by (rule from_accounts_mono [OF from_andThen [OF from_layerLoad from_layerQueue]]) (rule layer2Candidates_selectable)

lemma allLayers_offers:
  assumes "allLayers R E c groupID platform useMixed m sess excluded stickyID accounts ids st = (Some res, st')"
  shows "(\<exists>a. selectable E platform useMixed m excluded stickyID accounts a \<and> offers E a res) \<or>
    (layer2Candidates E platform useMixed m excluded accounts = [] \<and> res = Inl NoAvailableAccounts)"
proof (cases "layer2Candidates E platform useMixed m excluded accounts = []")
  case False
  then have "from_accounts E (selectable E platform useMixed m excluded stickyID accounts)
      (allLayers R E c groupID platform useMixed m sess excluded stickyID accounts ids)"
    by (simp add: allLayers_def Let_def from_andThen from_layers from_lastLayers del: from_accounts_def)
  from from_accountsD [OF this assms] show ?thesis by blast
next
  case True
  let ?P = "selectable E platform useMixed m excluded stickyID accounts"
  have "from_accounts E ?P (andThenStage
      (layerRouting R E c groupID platform useMixed m sess excluded stickyID accounts ids)
      (layerSticky R E c groupID platform useMixed m sess excluded stickyID accounts ids))"
    by (intro from_andThen from_layers)
  from from_accountsD [OF this, of st res st'] assms True show ?thesis
    by (auto simp: allLayers_def Let_def andThenStage_def split: prod.splits option.splits)
qed

lemma selectByLayers_offers:
  assumes "selectByLayers R E c groupID platform useMixed m sess excluded stickyID accounts ids st = (res, st')"
  shows "res = Inl NoAvailableAccounts \<or>
    (\<exists>a. selectable E platform useMixed m excluded stickyID accounts a \<and> offers E a res)"
proof -
  obtain r where r: "allLayers R E c groupID platform useMixed m sess excluded stickyID accounts ids st = (r, st')"
    using assms by (auto simp: selectByLayers_all split: prod.splits option.splits)
  show ?thesis
  proof (cases r)
    case (Some x)
    with allLayers_offers [OF r [unfolded Some]] assms r show ?thesis by (auto simp: selectByLayers_all)
  qed (use assms r in \<open>simp add: selectByLayers_all\<close>)
qed

text \<open>An account whose session limit cannot refuse the request is queued for at the latest.\<close>

definition session_free :: "sel_env \<Rightarrow> gostr \<Rightarrow> Account \<Rightarrow> bool" where
  "session_free E sess a \<longleftrightarrow>
     (\<not> IsAnthropicOAuthOrSetupToken a \<or> GetMaxSessions a \<le> 0 \<or> sess = [] \<or> se_sessionLimit E = None)"

lemma session_free_accepted: "session_free E sess a \<Longrightarrow> checkAndRegisterSession R E a sess st = (True, st)"
  by (auto simp: session_free_def checkAndRegisterSession_def)

lemma waitLoop_not_None:
  "a \<in> set as \<Longrightarrow> session_free E sess a \<Longrightarrow> waitLoop R E t m sess as st \<noteq> (None, st')"
  by (induction as arbitrary: st) (auto simp: session_free_accepted split: prod.splits bool.splits)

lemma allLayers_not_None:
  assumes "a \<in> set (layer2Candidates E platform useMixed m excluded accounts)" "session_free E sess a"
  shows "allLayers R E c groupID platform useMixed m sess excluded stickyID accounts ids st \<noteq> (None, st')"
proof -
  let ?as = "layer2Candidates E platform useMixed m excluded accounts"
  have "layerQueue R E sess po ?as st1 \<noteq> (None, st')" for po st1
    unfolding layerQueue_def by (rule waitLoop_not_None [OF _ assms(2)]) (use assms(1) in simp)
  moreover have "?as \<noteq> []" using assms(1) by auto
  ultimately show ?thesis
    by (auto simp: allLayers_def Let_def andThenStage_def split: prod.splits option.splits)
qed

section \<open>What selecting does to the slots\<close>

definition slots :: "('r \<Rightarrow> gostr \<Rightarrow> gostr \<rightharpoonup> int) \<Rightarrow> 'r sel_state \<Rightarrow> int64 \<Rightarrow> gostr set" where
  "slots zset st b = dom (zset (ss_redis st) (accountSlotKey b))"

fun slot_of :: "release_func \<Rightarrow> int64 \<Rightarrow> gostr set" where
  "slot_of (ReleaseAccount a m) b = (if a = b then {m} else {})"
| "slot_of _ b = {}"

lemma slot_of_none [simp]: "slot_of NoRelease = (\<lambda>b. {})" "slot_of NoopRelease = (\<lambda>b. {})"
  by (simp_all add: fun_eq_iff)


definition answering :: "sel_env \<Rightarrow> bool" where
  "answering E \<longleftrightarrow> (\<forall>n. se_io E n = Answered)"

definition grows_by :: "('r \<Rightarrow> gostr \<Rightarrow> gostr \<rightharpoonup> int) \<Rightarrow> 'r sel_state \<Rightarrow> (int64 \<Rightarrow> gostr set) \<Rightarrow> 'r sel_state \<Rightarrow> bool" where
  "grows_by zset st new st' \<longleftrightarrow>
     (\<forall>b. slots zset st' b \<subseteq> slots zset st b \<union> new b \<and> new b \<subseteq> slots zset st' b)"

abbreviation "shrinks zset st st' \<equiv> grows_by zset st (\<lambda>b. {}) st'"

text \<open>A stage keeps the books: nothing is held afterwards but what it hands over.\<close>

definition outcome ::
    "sel_env \<Rightarrow> ('r \<Rightarrow> gostr \<Rightarrow> gostr \<rightharpoonup> int) \<Rightarrow> 'r sel_state \<Rightarrow> (sel_error + AccountSelectionResult) option
     \<Rightarrow> 'r sel_state \<Rightarrow> bool" where
  "outcome E zset st res st' \<longleftrightarrow>
     (case res of
        None \<Rightarrow> shrinks zset st st'
      | Some (Inl e) \<Rightarrow>
          shrinks zset st st' \<or> (\<exists>a rel. se_hydrate E a = Inl e \<and> grows_by zset st (slot_of rel) st')
      | Some (Inr x) \<Rightarrow> grows_by zset st (slot_of (sr_ReleaseFunc x)) st')"

definition balanced :: "sel_env \<Rightarrow> ('r \<Rightarrow> gostr \<Rightarrow> gostr \<rightharpoonup> int) \<Rightarrow> 'r stage \<Rightarrow> bool" where
  "balanced E zset f \<longleftrightarrow> (\<forall>st res st'. f st = (res, st') \<longrightarrow> outcome E zset st res st')"

lemma outcome_simps [simp]:
  "outcome E zset st None st' = shrinks zset st st'"
  "outcome E zset st (Some (Inr x)) st' = grows_by zset st (slot_of (sr_ReleaseFunc x)) st'"
  by (simp_all add: outcome_def)

lemma grows_by_trans:
  "shrinks zset st st1 \<Longrightarrow> grows_by zset st1 new st' \<Longrightarrow> grows_by zset st new st'"
  by (fastforce simp: grows_by_def)

lemma shrinks_refl [simp]: "shrinks zset st st"
  by (simp add: grows_by_def)

lemma shrinks_redis [simp]: "ss_redis st' = ss_redis st \<Longrightarrow> shrinks zset st st'"
  by (simp add: grows_by_def slots_def)

lemma grows_by_redis: "grows_by zset st new st' \<Longrightarrow> ss_redis st'' = ss_redis st' \<Longrightarrow> grows_by zset st new st''"
  by (simp add: grows_by_def slots_def)

lemma bindSticky_redis [simp]: "ss_redis (bindSticky E g s i st) = ss_redis st"
  by (simp add: bindSticky_def SetSessionAccountID_def)

lemma DeleteSession_redis [simp]: "ss_redis (DeleteSessionAccountID E g s st) = ss_redis st"
  by (simp add: DeleteSessionAccountID_def)

lemma balancedI:
  assumes "\<And>st res st'. f st = (res, st') \<Longrightarrow> outcome E zset st res st'"
  shows "balanced E zset f"
  using assms by (simp add: balanced_def)

lemma balancedD: "balanced E zset f \<Longrightarrow> f st = (res, st') \<Longrightarrow> outcome E zset st res st'"
  unfolding balanced_def by blast

lemma balanced_after:
  assumes "balanced E zset f" "shrinks zset st st1" "f st1 = (res, st')"
  shows "outcome E zset st res st'"
  using balancedD [OF assms(1,3)] grows_by_trans [OF assms(2)]
  by (auto simp: outcome_def split: option.splits sum.splits)

lemma balanced_andThen:
  assumes "balanced E zset f" "balanced E zset g"
  shows "balanced E zset (andThenStage f g)"
proof (rule balancedI)
  fix st res st' assume run: "andThenStage f g st = (res, st')"
  obtain r1 st1 where 1: "f st = (r1, st1)" by fastforce
  show "outcome E zset st res st'"
  proof (cases r1)
    case None
    with run 1 have "g st1 = (res, st')" by (simp add: andThenStage_def)
    with balancedD [OF assms(1) 1] None balanced_after [OF assms(2)] show ?thesis by simp
  next
    case (Some r)
    with run 1 balancedD [OF assms(1) 1] show ?thesis by (auto simp: andThenStage_def)
  qed
qed

lemma new_result_Inr:
  "newSelectionResult E a acq rel wp = Inr x \<Longrightarrow> sr_ReleaseFunc x = rel \<and> sr_Acquired x = acq \<and> sr_WaitPlan x = wp"
  by (auto simp: newSelectionResult_def split: sum.splits)

lemma wait_result_Inr: "waitResult E a t m = Inr x \<Longrightarrow> slot_of (sr_ReleaseFunc x) = (\<lambda>b. {})"
  by (auto simp: waitResult_def dest!: new_result_Inr)

lemma outcome_new:
  "grows_by zset st (slot_of rel) st' \<Longrightarrow> outcome E zset st (Some (newSelectionResult E a acq rel wp)) st'"
  by (auto simp: outcome_def newSelectionResult_def split: sum.splits)

lemma outcome_wait: "shrinks zset st st' \<Longrightarrow> outcome E zset st (Some (waitResult E a t m)) st'"
  by (simp add: waitResult_def outcome_new)

lemma session_key_not_slot_key [simp]: "accountSlotKey b \<noteq> sessionLimitKey a"
  by (simp add: accountSlotKey_def accountSlotKeyPrefix_def sessionLimitKey_def)

lemma user_key_not_slot_key [simp]: "accountSlotKey b \<noteq> userSlotKey a"
  by (simp add: accountSlotKey_def accountSlotKeyPrefix_def userSlotKey_def userSlotKeyPrefix_def)

context redis begin

lemma slots_acquire:
  assumes "answering E" "tryAcquireAccountSlot R E i mx st = (res, st')"
  shows "\<exists>r. res = Inr r \<and> grows_by zset st (slot_of (ReleaseFunc r)) st' \<and>
    (\<not> Acquired r \<longrightarrow> slot_of (ReleaseFunc r) = (\<lambda>b. {}))"
proof (cases "se_concurrency E")
  case None
  with assms(2) show ?thesis by (auto simp: tryAcquireAccountSlot_def)
next
  case (Some c)
  let ?n = "ss_calls st"
  show ?thesis
  proof (cases "mx \<le> 0")
    case True
    with assms(2) Some show ?thesis
      by (auto simp: tryAcquireAccountSlot_def svcAcquireAccountSlot_def)
  next
    case False
    obtain m ctr where m: "generateRequestID (se_requestIDPrefix E) (ss_counter st) = (m, ctr)" by fastforce
    let ?run = "acquireScript R (se_second E ?n) (accountSlotKey i) mx (slotTTLSeconds c) m (ss_redis st)"
    define w where "w = zset (ss_redis st) (accountSlotKey i)"
    have io: "se_io E ?n = Answered" using assms(1) by (simp add: answering_def)
    have script: "AcquireAccountSlot R c (se_io E ?n) (se_second E ?n) i mx m (ss_redis st) = (Inr (fst ?run = 1), snd ?run)"
      by (simp add: io AcquireAccountSlot_def run_io_def split_beta)
    have zs: "zset (snd ?run) = (zset (ss_redis st))(accountSlotKey i := window_admit (se_second E ?n) (slotTTLSeconds c) mx m w)"
      by (simp add: acquireScript_zset w_def)
    have adm: "fst ?run = 1 \<longleftrightarrow> window_admits (se_second E ?n) (slotTTLSeconds c) mx m w"
      by (simp add: acquireScript_result w_def)
    have dom: "dom (window_admit (se_second E ?n) (slotTTLSeconds c) mx m w) \<subseteq>
        dom w \<union> (if fst ?run = 1 then {m} else {})" "fst ?run = 1 \<Longrightarrow> m \<in> dom (window_admit (se_second E ?n) (slotTTLSeconds c) mx m w)"
      using dom_window_live [of "se_second E ?n" "slotTTLSeconds c" w] by (auto simp: window_admit_def adm split: if_splits)
    show ?thesis
    proof (cases "fst ?run = 1")
      case True
      with assms(2) Some False m script have
        "res = Inr \<lparr>Acquired = True, ReleaseFunc = ReleaseAccount i m\<rparr>" "ss_redis st' = snd ?run"
        by (auto simp: tryAcquireAccountSlot_def svcAcquireAccountSlot_def)
      with dom True zs show ?thesis by (auto simp: grows_by_def slots_def w_def)
    next
      case notacq: False
      with assms(2) Some False m script have
        "res = Inr \<lparr>Acquired = False, ReleaseFunc = NoRelease\<rparr>" "ss_redis st' = snd ?run"
        by (auto simp: tryAcquireAccountSlot_def svcAcquireAccountSlot_def)
      with dom notacq zs show ?thesis by (auto simp: grows_by_def slots_def w_def)
    qed
  qed
qed

lemma slots_session:
  assumes "checkAndRegisterSession R E a sess st = (ok, st')"
  shows "slots zset st' b = slots zset st b"
  using assms
  by (auto simp: checkAndRegisterSession_def slots_def RegisterSession_store registerSessionScript_zset
      split: if_splits option.splits prod.splits dest!: arg_cong [where f = "\<lambda>x. snd (snd x)"])

lemma slots_release:
  assumes "answering E"
  shows "slots zset (releaseSlot R E rel st) b \<subseteq> slots zset st b - slot_of rel b"
  using assms
  by (cases rel) (auto simp: releaseSlot_def slots_def answering_def ReleaseAccountSlot_def ReleaseUserSlot_def
      run_io_def zset_zrem split: if_splits)

lemma grows_by_session:
  "grows_by zset st new st1 \<Longrightarrow> checkAndRegisterSession R E a sess st1 = (ok, st2) \<Longrightarrow> grows_by zset st new st2"
  by (simp add: grows_by_def slots_session)

lemma shrinks_release:
  assumes "answering E" "grows_by zset st (slot_of rel) st1"
  shows "shrinks zset st (releaseSlot R E rel st1)"
  using slots_release [OF assms(1), of rel st1] assms(2) by (fastforce simp: grows_by_def)

lemma balanced_acquireLoop:
  assumes ans: "answering E"
  shows "balanced E zset (acquireLoop R E groupID sess as)"
proof (induction as)
  case (Cons a as)
  show ?case
  proof (rule balancedI)
    fix st res st' assume run: "acquireLoop R E groupID sess (a # as) st = (res, st')"
    obtain r st1 where acq: "tryAcquireAccountSlot R E (act_ID a) (act_Concurrency a) st = (Inr r, st1)"
      and grow: "grows_by zset st (slot_of (ReleaseFunc r)) st1"
      and none: "\<not> Acquired r \<Longrightarrow> slot_of (ReleaseFunc r) = (\<lambda>b. {})"
      by (metis surj_pair slots_acquire [OF ans])
    show "outcome E zset st res st'"
    proof (cases "Acquired r")
      case False
      with grow none have "shrinks zset st st1" by simp
      from balanced_after [OF Cons this] run acq False show ?thesis by simp
    next
      case True
      obtain ok st2 where sess: "checkAndRegisterSession R E a sess st1 = (ok, st2)" by fastforce
      have grow2: "grows_by zset st (slot_of (ReleaseFunc r)) st2" by (rule grows_by_session [OF grow sess])
      show ?thesis
      proof (cases ok)
        case False
        from balanced_after [OF Cons shrinks_release [OF ans grow2]] run acq True sess False show ?thesis by simp
      next
        case ok: True
        with run acq True sess have "res = Some (newSelectionResult E a True (ReleaseFunc r) None)"
          "st' = bindSticky E groupID sess (act_ID a) st2" by auto
        with grows_by_redis [OF grow2] show ?thesis by (simp add: outcome_new)
      qed
    qed
  qed
qed (simp add: balanced_def)

lemma balanced_waitLoop: "balanced E zset (waitLoop R E t m sess as)"
proof (induction as)
  case (Cons a as)
  show ?case
  proof (rule balancedI)
    fix st res st' assume run: "waitLoop R E t m sess (a # as) st = (res, st')"
    obtain ok st1 where sess: "checkAndRegisterSession R E a sess st = (ok, st1)" by fastforce
    have shr: "shrinks zset st st1" by (rule grows_by_session [OF shrinks_refl sess])
    show "outcome E zset st res st'"
      using balanced_after [OF Cons shr, of res st'] run sess shr
      by (cases ok) (auto intro: outcome_wait)
  qed
qed (simp add: balanced_def)

lemma waitingCount_redis: "waitingCount R E c i st = (n, st1) \<Longrightarrow> slots zset st1 b = slots zset st b"
  by (auto simp: waitingCount_def svcGetAccountWaitingCount_def GetAccountWaitingCount_def slots_def run_io_def
      split: prod.splits sum.splits io.splits)

lemma balanced_stickyWait: "balanced E zset (stickyWait R E c sess a)"
proof (rule balancedI)
  fix st res st' assume run: "stickyWait R E c sess a st = (res, st')"
  obtain n st1 where w: "waitingCount R E c (act_ID a) st = (n, st1)" by fastforce
  obtain ok st2 where sess: "checkAndRegisterSession R E a sess st1 = (ok, st2)" by fastforce
  have shr: "shrinks zset st st1" using waitingCount_redis [OF w] by (simp add: grows_by_def)
  show "outcome E zset st res st'"
    using run w sess shr grows_by_session [OF shr sess]
    by (cases ok) (auto simp: stickyWait_def split: if_splits intro: outcome_wait)
qed

lemma balanced_stickySlot:
  assumes ans: "answering E"
  shows "balanced E zset (stickySlot R E c routed sess a)"
proof (rule balancedI)
  fix st res st' assume run: "stickySlot R E c routed sess a st = (res, st')"
  obtain r st1 where acq: "tryAcquireAccountSlot R E (act_ID a) (act_Concurrency a) st = (Inr r, st1)"
    and grow: "grows_by zset st (slot_of (ReleaseFunc r)) st1"
    and none: "\<not> Acquired r \<Longrightarrow> slot_of (ReleaseFunc r) = (\<lambda>b. {})"
    by (metis surj_pair slots_acquire [OF ans])
  show "outcome E zset st res st'"
  proof (cases "Acquired r")
    case False
    with grow none have "shrinks zset st st1" by simp
    from balanced_after [OF balanced_stickyWait this] run acq False show ?thesis by (simp add: stickySlot_def)
  next
    case True
    obtain ok st2 where sess: "checkAndRegisterSession R E a sess st1 = (ok, st2)" by fastforce
    have grow2: "grows_by zset st (slot_of (ReleaseFunc r)) st2" by (rule grows_by_session [OF grow sess])
    show ?thesis
    proof (cases ok)
      case False
      have shr: "shrinks zset st (releaseSlot R E (ReleaseFunc r) st2)" by (rule shrinks_release [OF ans grow2])
      show ?thesis
        using balanced_after [OF balanced_stickyWait shr] run acq True sess False shr
        by (cases routed) (auto simp: stickySlot_def Let_def)
    next
      case ok: True
      with run acq True sess have "res = Some (newSelectionResult E a True (ReleaseFunc r) None)"
        "ss_redis st' = ss_redis st2" by (auto simp: stickySlot_def split: if_splits)
      with grows_by_redis [OF grow2] show ?thesis by (simp add: outcome_new)
    qed
  qed
qed

lemma loadBatch_shrinks:
  assumes "loadBatch R E c as st = (r, st1)"
  shows "shrinks zset st st1"
proof -
  have "ss_redis st1 = ss_redis st \<or>
      ss_redis st1 = snd (loadPipeline R accountSlotKeyPrefix accountWaitKeyPrefix
        (se_second E (ss_calls st) - slotTTLSeconds c) (loadsOf as) (Map.empty, ss_redis st))"
    using assms
    by (auto simp: loadBatch_def svcGetAccountsLoadBatch_def GetAccountsLoadBatch_def run_io_def
        split: prod.splits if_splits io.splits)
  moreover have "w k \<noteq> None" if "window_live now ttl w k = Some y" for now ttl w k y
    using dom_window_live [of now ttl w] that by blast
  ultimately show ?thesis
    by (auto simp: grows_by_def slots_def loadPipeline_zset split: if_splits)
qed

lemma balanced_layeredLoop:
  assumes ans: "answering E"
  shows "balanced E zset (layeredLoop R E groupID sess po xs)"
proof (induction "length xs" arbitrary: xs rule: less_induct)
  case less
  show ?case
  proof (rule balancedI)
    fix st res st' assume run: "layeredLoop R E groupID sess po xs st = (res, st')"
    show "outcome E zset st res st'"
    proof (cases "layeredPick (se_draw E (ss_calls st)) po xs")
      case None
      with run show ?thesis by (subst (asm) layeredLoop.simps) auto
    next
      case (Some x)
      then have "x \<in> set xs" by (blast dest: layeredPick_least)
      note IH = less [OF withoutID_shorter [OF this]]
      obtain r1 st1 where loop: "acquireLoop R E groupID sess [al_account x] st = (r1, st1)" by fastforce
      note bal = balancedD [OF balanced_acquireLoop [OF ans] loop]
      show ?thesis
      proof (cases r1)
        case None
        with run Some loop have "layeredLoop R E groupID sess po (withoutID (act_ID (al_account x)) xs) st1 = (res, st')"
          by (subst (asm) layeredLoop.simps) (simp del: acquireLoop.simps)
        with balanced_after [OF IH] bal None show ?thesis by simp
      next
        case r: (Some r)
        with run Some loop have "res = Some r" "st' = st1"
          by (subst (asm) layeredLoop.simps, simp del: acquireLoop.simps)+
        with bal r show ?thesis by simp
      qed
    qed
  qed
qed

lemma balanced_routedLoad:
  assumes ans: "answering E"
  shows "balanced E zset (routedLoad R E c groupID sess as)"
proof (rule balancedI)
  fix st res st' assume run: "routedLoad R E c groupID sess as st = (res, st')"
  obtain r st1 where 1: "loadBatch R E c as st = (r, st1)" by fastforce
  define m where "m = (case r of Inl e \<Rightarrow> Map.empty | Inr m \<Rightarrow> m)"
  define items where "items = map al_account (shuffleWithinSortGroups (se_shuffle E (ss_calls st1))
                        (sort_by less_with_load (availableOf m as)))"
  have "res = None \<and> st' = st1 \<or> andThenStage (acquireLoop R E groupID sess items)
        (waitLoop R E (sc_StickySessionWaitTimeout (se_cfg E)) (sc_StickySessionMaxWaiting (se_cfg E)) sess items) st1
        = (res, st')"
    using run by (simp add: routedLoad_def 1 Let_def items_def m_def andThenStage_def split: if_splits)
  with balanced_after [OF balanced_andThen [OF balanced_acquireLoop [OF ans] balanced_waitLoop] loadBatch_shrinks [OF 1]]
    loadBatch_shrinks [OF 1]
  show "outcome E zset st res st'"
    by auto
qed

lemma balanced_layers:
  assumes ans: "answering E"
  shows "balanced E zset (layerRouting R E c groupID platform useMixed m sess excluded stickyID accounts ids)"
    and "balanced E zset (layerSticky R E c groupID platform useMixed m sess excluded stickyID accounts ids)"
proof -
  have sticky: "balanced E zset (routedSticky R E c groupID platform useMixed m sess excluded stickyID accounts ids)"
    using balanced_stickySlot [OF ans, THEN balancedD]
    by (auto simp: balanced_def routedSticky_def split: if_splits option.splits)
  show "balanced E zset (layerRouting R E c groupID platform useMixed m sess excluded stickyID accounts ids)"
    using balanced_andThen [OF sticky balanced_routedLoad [OF ans], THEN balancedD]
    by (auto simp: balanced_def layerRouting_def Let_def split: if_splits)
  show "balanced E zset (layerSticky R E c groupID platform useMixed m sess excluded stickyID accounts ids)"
    using balanced_stickySlot [OF ans, THEN balancedD]
    by (auto simp: balanced_def layerSticky_def split: if_splits option.splits)
qed

lemma balanced_layerLoad:
  assumes ans: "answering E"
  shows "balanced E zset (layerLoad R E c groupID sess po as)"
proof (rule balancedI)
  fix st res st' assume run: "layerLoad R E c groupID sess po as st = (res, st')"
  obtain r st1 where 1: "loadBatch R E c as st = (r, st1)" by fastforce
  show "outcome E zset st res st'"
  proof (cases r)
    case (Inl e)
    with run 1 balanced_after [OF balanced_acquireLoop [OF ans] loadBatch_shrinks [OF 1]] show ?thesis
      by (simp add: layerLoad_def tryAcquireByLegacyOrder_def)
  next
    case (Inr m)
    with run 1 balanced_after [OF balanced_layeredLoop [OF ans] loadBatch_shrinks [OF 1]] show ?thesis
      by (simp add: layerLoad_def)
  qed
qed

lemma balanced_layerQueue: "balanced E zset (layerQueue R E sess po as)"
  using balanced_waitLoop [THEN balancedD] by (auto simp: balanced_def layerQueue_def)

lemma selectByLayers_balanced:
  assumes ans: "answering E"
    and run: "selectByLayers R E c groupID platform useMixed m sess excluded stickyID accounts ids st = (res, st')"
  shows "outcome E zset st (Some res) st'"
proof -
  have bal: "balanced E zset (allLayers R E c groupID platform useMixed m sess excluded stickyID accounts ids)"
    unfolding allLayers_def Let_def
    by (intro balanced_andThen balanced_layers [OF ans])
      (use balanced_andThen [OF balanced_layerLoad [OF ans] balanced_layerQueue] in
        \<open>auto simp: balanced_def outcome_def\<close>)
  obtain r where r: "allLayers R E c groupID platform useMixed m sess excluded stickyID accounts ids st = (r, st')"
    using run by (auto simp: selectByLayers_all split: prod.splits option.splits)
  with balancedD [OF bal r] run show ?thesis
    by (cases r) (auto simp: selectByLayers_all outcome_def)
qed

end

section \<open>Properties\<close>

definition exampleConfig :: sched_config where
  "exampleConfig = \<lparr>sc_StickySessionMaxWaiting = 3, sc_StickySessionWaitTimeout = 45 * second,
     sc_FallbackWaitTimeout = 30 * second, sc_FallbackMaxWaiting = 100, sc_FallbackSelectionMode = [],
     sc_LoadBatchEnabled = True\<rparr>"

definition exampleEnv :: "(Account \<Rightarrow> sel_error + Account) \<Rightarrow> sel_env" where
  "exampleEnv hydrate = \<lparr>se_cfg = exampleConfig, se_concurrency = Some exampleCache, se_requestIDPrefix = ''p'',
     se_sessionLimit = Some (NewSessionLimitCache 5), se_stickyCache = True, se_clock = 0, se_location = UTC,
     se_tzdb = (\<lambda>_. None), se_thinking = None, se_prefetchedCost = Map.empty, se_cachedCost = Map.empty,
     se_windowStats = (\<lambda>_ _. None), se_prefetchedRPM = Map.empty, se_currentRPM = Map.empty,
     se_hydrate = hydrate, se_io = (\<lambda>_. Answered), se_second = (\<lambda>_. 100), se_draw = (\<lambda>_. 0),
     se_shuffle = (\<lambda>_ _ _. 0)\<rparr>"

definition exampleState :: "mem_redis sel_state" where
  "exampleState = \<lparr>ss_counter = 0, ss_redis = mem_empty, ss_sticky = Map.empty, ss_calls = 0, ss_errored = []\<rparr>"

abbreviation exampleRun :: "(Account \<Rightarrow> sel_error + Account) \<Rightarrow> (sel_error + AccountSelectionResult) \<times> mem_redis sel_state" where
  "exampleRun hydrate \<equiv>
     selectByLayers mem_ops (exampleEnv hydrate) exampleCache None ''openai'' False [] [] {} 0
       [plainAccount 7 ''openai'' ''apikey''] [] exampleState"

lemmas eval_accounts =
  plainAccount_def eligible_def modelAndLimits_def IsSchedulable_def accountIsActive_def StatusActive_def pending_def
  isAccountAllowedForPlatform_def IsSchedulableForModelWithContext_def isModelRateLimitedWithContext_def
  modelLimitKey_def GetMappedModel_def ResolveMappedModel_def GetModelMapping_def resolveModelMapping_def
  normalizeRequestedModelForLookup_def isAccountSchedulableForQuota_def IsAPIKeyOrBedrock_def IsQuotaExceeded_def
  GetQuotaLimit_def GetQuotaDailyLimit_def GetQuotaWeeklyLimit_def getExtraFloat64_def
  isAccountSchedulableForWindowCost_def isAccountSchedulableForRPM_def IsAnthropicOAuthOrSetupToken_def
  platform_defs account_type_defs

lemmas eval_selection =
  selectByLayers_def andThenStage_def layerRouting_def layerSticky_def layer2Candidates_def layerLoad_def
  loadBatch_def loadsOf_def EffectiveLoadFactor_def svcGetAccountsLoadBatch_def GetAccountsLoadBatch_def run_io_def
  availableOf_def withLoad_def al_rate_def loadInfo_def layeredLoop.simps layeredPick_def selectByLRU_def least_by_def
  tryAcquireAccountSlot_def svcAcquireAccountSlot_def generateRequestID_def AcquireAccountSlot_def acquireScript_def
  checkAndRegisterSession_def bindSticky_def newSelectionResult_def exampleEnv_def exampleState_def exampleConfig_def

lemma exampleRun_Inr: "\<exists>x st'. exampleRun Inr = (Inr x, st') \<and> sr_Acquired x"
  by (simp add: eval_selection eval_accounts eval_redis Let_def)

text \<open>
  What each layer owes its account, written out from what the checks are for: \<open>within_limits\<close> with
  the costs and request rates themselves, and in \<open>fit_for\<close> what only one layer asks.
\<close>

datatype answering_layer = RoutingLayer | StickyLayer | LoadLayer

definition answeringLayer ::
    "'r redis_ops \<Rightarrow> sel_env \<Rightarrow> concurrencyCache \<Rightarrow> int64 option \<Rightarrow> gostr \<Rightarrow> bool \<Rightarrow> gostr \<Rightarrow> gostr \<Rightarrow> int64 set
     \<Rightarrow> int64 \<Rightarrow> Account list \<Rightarrow> int64 list \<Rightarrow> 'r sel_state \<Rightarrow> answering_layer" where
  "answeringLayer R E c groupID platform useMixed m sess excluded stickyID accounts ids st =
     (case layerRouting R E c groupID platform useMixed m sess excluded stickyID accounts ids st of
        (Some r, st1) \<Rightarrow> RoutingLayer
      | (None, st1) \<Rightarrow>
          (case layerSticky R E c groupID platform useMixed m sess excluded stickyID accounts ids st1 of
             (Some r, st2) \<Rightarrow> StickyLayer
           | (None, st2) \<Rightarrow> LoadLayer))"

definition requests_this_minute :: "sel_env \<Rightarrow> Account \<Rightarrow> int" where
  "requests_this_minute E a =
     (case se_prefetchedRPM E (act_ID a) of
        Some n \<Rightarrow> n
      | None \<Rightarrow> (case se_currentRPM E (act_ID a) of Some n \<Rightarrow> n | None \<Rightarrow> 0))"

definition within_limits :: "sel_env \<Rightarrow> gostr \<Rightarrow> bool \<Rightarrow> Account \<Rightarrow> bool" where
  "within_limits E m lenient a \<longleftrightarrow>
     (m \<noteq> [] \<longrightarrow> isModelSupportedByAccountWithContext (se_thinking E) a m) \<and>
     IsSchedulableForModelWithContext (se_clock E) (se_thinking E) a m \<and>
     (IsAPIKeyOrBedrock a \<longrightarrow> \<not> IsQuotaExceeded (se_tzdb E) (se_clock E) a) \<and>
     (IsAnthropicOAuthOrSetupToken a \<longrightarrow>
        (\<forall>cost. currentWindowCost E a = Some cost \<and> 0 < GetWindowCostLimit a \<longrightarrow>
           cost < GetWindowCostLimit a \<or> lenient \<and> cost < GetWindowCostLimit a + GetWindowCostStickyReserve a) \<and>
        (0 < GetBaseRPM a \<longrightarrow>
           requests_this_minute E a < GetBaseRPM a \<or>
           lenient \<and> (GetRPMStrategy a = ''sticky_exempt'' \<or>
             requests_this_minute E a < GetBaseRPM a + GetRPMStickyBuffer a)))"

definition fit_for ::
    "sel_env \<Rightarrow> int64 option \<Rightarrow> gostr \<Rightarrow> bool \<Rightarrow> gostr \<Rightarrow> gostr \<Rightarrow> int64 set \<Rightarrow> int64 \<Rightarrow> Account list \<Rightarrow> int64 list
     \<Rightarrow> answering_layer \<Rightarrow> Account \<Rightarrow> bool" where
  "fit_for E groupID platform useMixed m sess excluded stickyID accounts ids layer a \<longleftrightarrow>
     a \<in> set accounts \<and> act_ID a \<notin> excluded \<and> IsSchedulable (se_clock E) a \<and>
     (act_Platform a = platform \<or>
      useMixed \<and> act_Platform a = PlatformAntigravity \<and> IsMixedSchedulingEnabled a) \<and>
     (case layer of
        RoutingLayer \<Rightarrow>
          act_ID a \<in> set ids \<and>
          (within_limits E m False a \<or> sess \<noteq> [] \<and> 0 < stickyID \<and> act_ID a = stickyID \<and> within_limits E m True a)
      | StickyLayer \<Rightarrow>
          ids = [] \<and> sess \<noteq> [] \<and> 0 < stickyID \<and> act_ID a = stickyID \<and> within_limits E m True a \<and>
          (case groupID of None \<Rightarrow> act_AccountGroups a = [] | Some g \<Rightarrow> g \<in> set (act_AccountGroups a)) \<and>
          \<not> shouldClearStickySession (se_clock E) (Some a) m
      | LoadLayer \<Rightarrow> within_limits E m False a)"

lemma allows_cost:
  "isAccountSchedulableForWindowCost E a lenient \<longleftrightarrow>
     (IsAnthropicOAuthOrSetupToken a \<longrightarrow>
        (\<forall>cost. currentWindowCost E a = Some cost \<and> 0 < GetWindowCostLimit a \<longrightarrow>
           cost < GetWindowCostLimit a \<or> lenient \<and> cost < GetWindowCostLimit a + GetWindowCostStickyReserve a))"
  by (auto simp: isAccountSchedulableForWindowCost_def CheckWindowCostSchedulability_def Let_def split: option.splits)

lemma allows_requests:
  "isAccountSchedulableForRPM E a lenient \<longleftrightarrow>
     (IsAnthropicOAuthOrSetupToken a \<longrightarrow> 0 < GetBaseRPM a \<longrightarrow>
        requests_this_minute E a < GetBaseRPM a \<or>
        lenient \<and> (GetRPMStrategy a = ''sticky_exempt'' \<or>
          requests_this_minute E a < GetBaseRPM a + GetRPMStickyBuffer a))"
  by (auto simp: isAccountSchedulableForRPM_def CheckRPMSchedulability_def requests_this_minute_def Let_def
      split: option.splits)

lemma within_limits_iff: "modelAndLimits E m lenient a = within_limits E m lenient a"
  by (auto simp: modelAndLimits_def within_limits_def allows_cost allows_requests isAccountSchedulableForQuota_def)

lemma eligible_iff:
  "eligible E platform useMixed m lenient a \<longleftrightarrow>
     IsSchedulable (se_clock E) a \<and>
     (act_Platform a = platform \<or>
      useMixed \<and> act_Platform a = PlatformAntigravity \<and> IsMixedSchedulingEnabled a) \<and> within_limits E m lenient a"
  by (auto simp: eligible_def isAccountAllowedForPlatform_def within_limits_iff)

lemma within_limits_schedulable: "within_limits E m lenient a \<Longrightarrow> IsSchedulable (se_clock E) a"
  by (auto simp: within_limits_def IsSchedulableForModelWithContext_def split: if_splits)

lemma routingCandidates_routed:
  "a \<in> set (routingCandidates E platform useMixed m excluded accounts ids) \<Longrightarrow> act_ID a \<in> set ids"
  by (auto simp: routingCandidates_def set_map_filter_if split: if_splits option.splits dest: accountByID_Some)

lemma fit_layers:
  "from_accounts E (fit_for E groupID platform useMixed m sess excluded stickyID accounts ids RoutingLayer)
     (layerRouting R E c groupID platform useMixed m sess excluded stickyID accounts ids)"
  "from_accounts E (fit_for E groupID platform useMixed m sess excluded stickyID accounts ids StickyLayer)
     (layerSticky R E c groupID platform useMixed m sess excluded stickyID accounts ids)"
  "from_accounts E (fit_for E groupID platform useMixed m sess excluded stickyID accounts ids LoadLayer)
     (andThenStage (layerLoad R E c groupID sess po (layer2Candidates E platform useMixed m excluded accounts))
        (layerQueue R E sess po (layer2Candidates E platform useMixed m excluded accounts)))"
proof -
  let ?P = "fit_for E groupID platform useMixed m sess excluded stickyID accounts ids"
  have sticky: "from_accounts E (?P RoutingLayer)
      (routedSticky R E c groupID platform useMixed m sess excluded stickyID accounts ids)"
    by (auto simp: from_accounts_def routedSticky_def fit_for_def eligible_iff split: if_splits option.splits
        dest!: accountByID_Some from_stickySlot [THEN from_accountsD])
  have load: "from_accounts E (?P RoutingLayer)
      (routedLoad R E c groupID sess (routingCandidates E platform useMixed m excluded accounts ids))"
    by (rule from_accounts_mono [OF from_routedLoad])
      (auto simp: fit_for_def eligible_iff dest: routingCandidates_iff routingCandidates_routed)
  show "from_accounts E (?P RoutingLayer)
      (layerRouting R E c groupID platform useMixed m sess excluded stickyID accounts ids)"
    using from_andThen [OF sticky load]
    by (auto simp: from_accounts_def layerRouting_def Let_def split: if_splits)
  show "from_accounts E (?P StickyLayer)
      (layerSticky R E c groupID platform useMixed m sess excluded stickyID accounts ids)"
    by (auto simp: from_accounts_def layerSticky_def fit_for_def within_limits_iff isAccountInGroup_def
        isAccountAllowedForPlatform_def split: if_splits option.splits
        dest!: accountByID_Some from_stickySlot [THEN from_accountsD] intro: within_limits_schedulable)
  show "from_accounts E (?P LoadLayer)
      (andThenStage (layerLoad R E c groupID sess po (layer2Candidates E platform useMixed m excluded accounts))
        (layerQueue R E sess po (layer2Candidates E platform useMixed m excluded accounts)))"
    by (rule from_accounts_mono [OF from_andThen [OF from_layerLoad from_layerQueue]])
      (auto simp: layer2Candidates_def fit_for_def eligible_iff)
qed

lemma selectByLayers_fit:
  assumes "selectByLayers R E c groupID platform useMixed m sess excluded stickyID accounts ids st = (Inr x, st')"
  shows "\<exists>a. fit_for E groupID platform useMixed m sess excluded stickyID accounts ids
      (answeringLayer R E c groupID platform useMixed m sess excluded stickyID accounts ids st) a \<and> offers E a (Inr x)"
proof -
  let ?P = "fit_for E groupID platform useMixed m sess excluded stickyID accounts ids"
  let ?routing = "layerRouting R E c groupID platform useMixed m sess excluded stickyID accounts ids"
  let ?sticky = "layerSticky R E c groupID platform useMixed m sess excluded stickyID accounts ids"
  obtain r1 st1 where 1: "?routing st = (r1, st1)" by fastforce
  obtain r2 st2 where 2: "?sticky st1 = (r2, st2)" by fastforce
  show ?thesis
  proof (cases r1)
    case (Some r)
    with assms 1 have "?routing st = (Some (Inr x), st1)" by (simp add: selectByLayers_def andThenStage_def Let_def)
    from from_accountsD [OF fit_layers(1) this] show ?thesis using 1 Some by (simp add: answeringLayer_def)
  next
    case none: None
    show ?thesis
    proof (cases r2)
      case (Some r)
      with assms 1 2 none have "?sticky st1 = (Some (Inr x), st2)"
        by (simp add: selectByLayers_def andThenStage_def Let_def)
      from from_accountsD [OF fit_layers(2) this] show ?thesis using 1 2 none Some by (simp add: answeringLayer_def)
    next
      case None
      let ?cands = "layer2Candidates E platform useMixed m excluded accounts"
      have "andThenStage (layerLoad R E c groupID sess (platform = PlatformGemini) ?cands)
          (layerQueue R E sess (platform = PlatformGemini) ?cands) st2 = (Some (Inr x), st')"
        using assms 1 2 none None
        by (auto simp: selectByLayers_def andThenStage_def Let_def split: if_splits option.splits prod.splits)
      from from_accountsD [OF fit_layers(3) this] show ?thesis using 1 2 none None by (simp add: answeringLayer_def)
    qed
  qed
qed

text \<open>
  C5. The account that the load-aware selection returns passes every check of the layer that answered.
  In every layer it was listed, is not excluded, is schedulable and of an allowed platform, serves
  the model, has its quota left, and is below its limits of window cost and request rate; the
  lenient limits hold only for the account to which the session is bound.  The routing layer returns
  only accounts that the group routes the model to; the sticky layer answers only where nothing is
  routed, with the bound account, which is in the group and need not lose its binding; the load layer
  knows no lenient limits.  The result is either a slot or a wait plan for exactly that account.
\<close>

theorem selected_account_fit:
  assumes "selectByLayers R E c groupID platform useMixed m sess excluded stickyID accounts ids st = (Inr x, st')"
  shows "\<exists>a. fit_for E groupID platform useMixed m sess excluded stickyID accounts ids
      (answeringLayer R E c groupID platform useMixed m sess excluded stickyID accounts ids st) a \<and>
    se_hydrate E a = Inr (sr_Account x) \<and>
    (if sr_Acquired x then sr_WaitPlan x = None
     else sr_ReleaseFunc x = NoRelease \<and>
       (\<exists>p. sr_WaitPlan x = Some p \<and> wp_AccountID p = act_ID a \<and> wp_MaxConcurrency p = act_Concurrency a))"
proof -
  obtain a where a: "fit_for E groupID platform useMixed m sess excluded stickyID accounts ids
      (answeringLayer R E c groupID platform useMixed m sess excluded stickyID accounts ids st) a" "offers E a (Inr x)"
    using selectByLayers_fit [OF assms] by auto
  from a(2) show ?thesis
    by (intro exI [of _ a] conjI a(1); cases "se_hydrate E a")
      (auto simp: offers_def waitResult_def newSelectionResult_def)
qed

theorem selected_account_fit_witness:
  "\<exists>x st'. exampleRun Inr = (Inr x, st') \<and> act_ID (sr_Account x) = 7 \<and> sr_WaitPlan x = None"
proof -
  obtain x st' where x: "exampleRun Inr = (Inr x, st')" "sr_Acquired x" using exampleRun_Inr by blast
  from selected_account_fit [OF x(1)] x(2) have "sr_Account x = plainAccount 7 ''openai'' ''apikey''" "sr_WaitPlan x = None"
    by (auto simp: fit_for_def exampleEnv_def)
  with x(1) show ?thesis by (metis plainAccount_ID)
qed

text \<open>
  C6. Where every call to Redis is answered, selecting keeps the books of the slots: of all the slots
  it takes on the way (in any layer, for any number of accounts and refused sessions) only the one it
  hands to the caller is still held.  A selection that fails holds none, unless it failed because the
  account it had chosen could not be loaded: then at most the one slot taken for it is left behind.
\<close>

theorem selection_keeps_slot_books:
  assumes "redis R zset cnt dl" and "answering E"
    and "selectByLayers R E c groupID platform useMixed m sess excluded stickyID accounts ids st = (res, st')"
  shows "case res of
      Inl e \<Rightarrow> (\<forall>b. slots zset st' b \<subseteq> slots zset st b) \<or>
        (\<exists>a rel. se_hydrate E a = Inl e \<and> (\<forall>b. slots zset st' b \<subseteq> slots zset st b \<union> slot_of rel b))
    | Inr x \<Rightarrow> \<forall>b. slots zset st' b \<subseteq> slots zset st b \<union> slot_of (sr_ReleaseFunc x) b \<and>
                   slot_of (sr_ReleaseFunc x) b \<subseteq> slots zset st' b"
proof (cases res)
  case (Inl e)
  with redis.selectByLayers_balanced [OF assms] show ?thesis by (fastforce simp: outcome_def grows_by_def)
next
  case (Inr x)
  with redis.selectByLayers_balanced [OF assms] show ?thesis by (simp add: grows_by_def)
qed

theorem selection_keeps_slot_books_witness:
  "\<exists>x st'. exampleRun Inr = (Inr x, st') \<and> slots mem_zset st' 7 = slot_of (sr_ReleaseFunc x) 7"
proof -
  obtain x st' where x: "exampleRun Inr = (Inr x, st')" using exampleRun_Inr by blast
  have "slots mem_zset exampleState 7 = {}"
    by (simp add: slots_def exampleState_def mem_empty_def mem_zset_def mem_zl_def)
  with selection_keeps_slot_books [OF mem.redis_axioms _ x] have "slots mem_zset st' 7 = slot_of (sr_ReleaseFunc x) 7"
    by (auto simp: answering_def exampleEnv_def)
  with x show ?thesis by blast
qed



text \<open>When the selected account cannot be loaded, the slot taken for it is never released.\<close>

lemma hydration_failure_leaks_slot:
  "fst (exampleRun (\<lambda>_. Inl HydrationFailed)) = Inl HydrationFailed \<and>
   slots mem_zset (snd (exampleRun (\<lambda>_. Inl HydrationFailed))) 7 \<noteq> {}"
  by (simp add: eval_selection eval_accounts eval_redis Let_def slots_def)

end
