(* ===== verification/Account_Choice.thy ===== *)
theory Account_Choice
  imports Account_Selection
begin

text \<open>
  The rest of account selection in \<open>internal/service/gateway_service.go\<close>: the choice of a single
  account without load information (\<open>selectAccountForModelWithPlatform\<close>,
  \<open>selectAccountWithMixedScheduling\<close>, \<open>SelectAccountForModelWithExclusions\<close>) and the entry point
  \<open>SelectAccountWithLoadAwareness\<close>, which retries that choice when load batches are off and
  otherwise runs the layers.

  \<open>sel_sources\<close> holds what is read from the database and the channel service, \<open>sel_request\<close> the
  request and what its context carries.
\<close>

record sel_sources =
  so_groups :: "int64 \<rightharpoonup> Group"
  so_fullGroup :: "int64 \<rightharpoonup> Group"
  so_repo :: "account_scope \<Rightarrow> gostr list \<Rightarrow> Account list option"
  so_account :: "int64 \<rightharpoonup> Account"
  so_simpleMode :: bool
  so_restricted :: "int64 option \<Rightarrow> gostr \<Rightarrow> bool"
  so_needsUpstreamCheck :: "int64 option \<Rightarrow> bool"
  so_modelRestricted :: "int64 option \<Rightarrow> gostr \<Rightarrow> bool"

record sel_request =
  rq_groupID :: "int64 option"
  rq_sessionHash :: gostr
  rq_model :: gostr
  rq_excluded :: "int64 set"
  rq_forcePlatform :: "gostr option"
  rq_claudeCode :: bool
  rq_prefetchedAccount :: "int64 option"
  rq_prefetchedGroup :: "int64 option"

definition forced :: "sel_request \<Rightarrow> gostr" where
  "forced q = (case rq_forcePlatform q of None \<Rightarrow> [] | Some p \<Rightarrow> p)"

section \<open>One account without load information\<close>

definition resolveAccountUpstreamModel :: "Account \<Rightarrow> gostr \<Rightarrow> gostr" where
  "resolveAccountUpstreamModel a requestedModel =
     (if act_Platform a = PlatformAntigravity then mapAntigravityModel (Some a) requestedModel
      else GetMappedModel a requestedModel)"

definition isUpstreamModelRestrictedByChannel :: "sel_sources \<Rightarrow> int64 option \<Rightarrow> Account \<Rightarrow> gostr \<Rightarrow> bool" where
  "isUpstreamModelRestrictedByChannel S groupID a requestedModel =
     (let upstreamModel = resolveAccountUpstreamModel a requestedModel
      in if upstreamModel = [] then False else so_modelRestricted S groupID upstreamModel)"

definition routingAccountIDsForRequest :: "sel_sources \<Rightarrow> int64 option \<Rightarrow> gostr \<Rightarrow> gostr \<Rightarrow> int64 list" where
  "routingAccountIDsForRequest S groupID requestedModel platform =
     (case groupID of
        None \<Rightarrow> []
      | Some i \<Rightarrow>
          if requestedModel = [] \<or> platform \<noteq> PlatformAnthropic then []
          else (case so_groups S i of
                  None \<Rightarrow> []
                | Some g \<Rightarrow> if gr_Platform g \<noteq> PlatformAnthropic then [] else GetRoutingAccountIDs g requestedModel))"

text \<open>
  The comparison with the account selected so far.  With mixed scheduling the OAuth preference
  only holds between Gemini accounts.
\<close>

definition choiceBetter :: "bool \<Rightarrow> bool \<Rightarrow> Account \<Rightarrow> Account \<Rightarrow> bool" where
  "choiceBetter mixed preferOAuth a selected =
     (if act_Priority a < act_Priority selected then True
      else if act_Priority a = act_Priority selected
      then (case (act_LastUsedAt a, act_LastUsedAt selected) of
              (None, Some t) \<Rightarrow> True
            | (Some t, None) \<Rightarrow> False
            | (None, None) \<Rightarrow>
                preferOAuth \<and>
                (\<not> mixed \<or> act_Platform a = PlatformGemini \<and> act_Platform selected = PlatformGemini) \<and>
                act_Type a \<noteq> act_Type selected \<and> act_Type a = AccountTypeOAuth
            | (Some s, Some t) \<Rightarrow> s < t)
      else False)"

text \<open>
  The loop over the accounts: \<open>considered\<close> are the checks before the privacy check, which marks
  the account with an error in the database, and \<open>fits\<close> those after it.
\<close>

fun choiceLoop ::
    "(Account \<Rightarrow> bool) \<Rightarrow> (Account \<Rightarrow> bool) \<Rightarrow> (Account \<Rightarrow> bool) \<Rightarrow> (Account \<Rightarrow> Account \<Rightarrow> bool)
     \<Rightarrow> Account list \<Rightarrow> Account option \<times> int64 list \<Rightarrow> Account option \<times> int64 list" where
  "choiceLoop considered lacksPrivacy fits better [] acc = acc"
| "choiceLoop considered lacksPrivacy fits better (a # as) (selected, errored) =
     (if \<not> considered a then choiceLoop considered lacksPrivacy fits better as (selected, errored)
      else if lacksPrivacy a then choiceLoop considered lacksPrivacy fits better as (selected, errored @ [act_ID a])
      else if \<not> fits a then choiceLoop considered lacksPrivacy fits better as (selected, errored)
      else (case selected of
              None \<Rightarrow> choiceLoop considered lacksPrivacy fits better as (Some a, errored)
            | Some s \<Rightarrow> choiceLoop considered lacksPrivacy fits better as (if better a s then Some a else Some s, errored)))"

definition lacksPrivacy :: "Group option \<Rightarrow> Account \<Rightarrow> bool" where
  "lacksPrivacy schedGroup a =
     (case schedGroup of None \<Rightarrow> False | Some g \<Rightarrow> gr_RequirePrivacySet g \<and> \<not> IsPrivacySet a)"

definition choiceFits :: "sel_env \<Rightarrow> sel_sources \<Rightarrow> int64 option \<Rightarrow> bool \<Rightarrow> bool \<Rightarrow> gostr \<Rightarrow> Account \<Rightarrow> bool" where
  "choiceFits E S groupID mixed upstreamCheck requestedModel a =
     (\<not> (mixed \<and> act_Platform a = PlatformAntigravity \<and> \<not> IsMixedSchedulingEnabled a) \<and>
      \<not> (upstreamCheck \<and> so_needsUpstreamCheck S groupID \<and>
         isUpstreamModelRestrictedByChannel S groupID a requestedModel) \<and>
      modelAndLimits E requestedModel False a)"

text \<open>The account that the session is bound to, where it may still be used; \<open>allowed\<close> restricts it to the
  accounts of the routing.\<close>

definition choicePlatform :: "bool \<Rightarrow> gostr \<Rightarrow> Account \<Rightarrow> bool" where
  "choicePlatform mixed platform a =
     (act_Platform a = platform \<or> (mixed \<and> act_Platform a = PlatformAntigravity \<and> IsMixedSchedulingEnabled a))"

definition choiceSticky ::
    "sel_env \<Rightarrow> sel_sources \<Rightarrow> bool \<Rightarrow> int64 option \<Rightarrow> gostr \<Rightarrow> gostr \<Rightarrow> gostr \<Rightarrow> int64 set \<Rightarrow> (int64 \<Rightarrow> bool)
     \<Rightarrow> 'r sel_state \<Rightarrow> Account option \<times> 'r sel_state" where
  "choiceSticky E S mixed groupID platform sessionHash requestedModel excluded allowed st =
     (if sessionHash \<noteq> [] \<and> se_stickyCache E
      then (case GetSessionAccountID E (derefGroupID groupID) sessionHash st of
              (Some i, st1) \<Rightarrow>
                if i > 0 \<and> allowed i \<and> i \<notin> excluded
                then (case so_account S i of
                        None \<Rightarrow> (None, st1)
                      | Some a \<Rightarrow>
                          if shouldClearStickySession (se_clock E) (Some a) requestedModel
                          then (None, DeleteSessionAccountID E (derefGroupID groupID) sessionHash st1)
                          else if isAccountInGroup a groupID \<and> choicePlatform mixed platform a \<and>
                                  modelAndLimits E requestedModel True a
                          then (Some a, st1)
                          else (None, st1))
                else (None, st1)
            | (None, st1) \<Rightarrow> (None, st1))
      else (None, st))"

definition noteErrored :: "int64 list \<Rightarrow> 'r sel_state \<Rightarrow> 'r sel_state" where
  "noteErrored ids st = st\<lparr>ss_errored := ss_errored st @ ids\<rparr>"

text \<open>Choose among the accounts of the list; a choice binds the session.\<close>

definition choiceFrom ::
    "sel_env \<Rightarrow> sel_sources \<Rightarrow> bool \<Rightarrow> int64 option \<Rightarrow> gostr \<Rightarrow> gostr \<Rightarrow> gostr \<Rightarrow> int64 set \<Rightarrow> int64 list option
     \<Rightarrow> Account list \<Rightarrow> 'r sel_state \<Rightarrow> Account option \<times> 'r sel_state" where
  "choiceFrom E S mixed groupID platform sessionHash requestedModel excluded routed accounts st =
     (let schedGroup = (case groupID of None \<Rightarrow> None | Some g \<Rightarrow> so_fullGroup S g);
          considered = (\<lambda>a. (case routed of None \<Rightarrow> True | Some ids \<Rightarrow> act_ID a \<in> set ids \<and> act_ID a > 0) \<and>
                            act_ID a \<notin> excluded \<and> IsSchedulable (se_clock E) a)
      in case choiceLoop considered (lacksPrivacy schedGroup)
                (choiceFits E S groupID mixed (routed = None) requestedModel)
                (choiceBetter mixed (platform = PlatformGemini)) accounts (None, []) of
           (None, errored) \<Rightarrow> (None, noteErrored errored st)
         | (Some a, errored) \<Rightarrow> (Some a, bindSticky E groupID sessionHash (act_ID a) (noteErrored errored st)))"

text \<open>
  The body that \<open>selectAccountForModelWithPlatform\<close> (\<open>mixed\<close> false) and
  \<open>selectAccountWithMixedScheduling\<close> (\<open>mixed\<close> true) share.
\<close>

definition chooseAccount ::
    "sel_env \<Rightarrow> sel_sources \<Rightarrow> bool \<Rightarrow> bool \<Rightarrow> int64 option \<Rightarrow> gostr \<Rightarrow> gostr \<Rightarrow> gostr \<Rightarrow> int64 set
     \<Rightarrow> 'r sel_state \<Rightarrow> (sel_error + Account) \<times> 'r sel_state" where
  "chooseAccount E S mixed hasForcePlatform groupID platform sessionHash requestedModel excluded st =
     (let ids = routingAccountIDsForRequest S groupID requestedModel platform;
          listed = fst (listSchedulableAccounts (so_repo S) (so_simpleMode S) groupID platform hasForcePlatform);
          routedStage = (\<lambda>st.
            if ids = [] then (None, st)
            else case choiceSticky E S mixed groupID platform sessionHash requestedModel excluded (\<lambda>i. i \<in> set ids) st of
                   (Some a, st1) \<Rightarrow> (Some (Inr a), st1)
                 | (None, st1) \<Rightarrow>
                     (case listed of
                        Inl e \<Rightarrow> (Some (Inl e), st1)
                      | Inr accounts \<Rightarrow>
                          (case choiceFrom E S mixed groupID platform sessionHash requestedModel excluded (Some ids) accounts st1 of
                             (Some a, st2) \<Rightarrow> (Some (Inr a), st2)
                           | (None, st2) \<Rightarrow> (None, st2))))
      in case routedStage st of
           (Some res, st1) \<Rightarrow> (res, st1)
         | (None, st1) \<Rightarrow>
             (case choiceSticky E S mixed groupID platform sessionHash requestedModel excluded (\<lambda>i. True) st1 of
                (Some a, st2) \<Rightarrow> (Inr a, st2)
              | (None, st2) \<Rightarrow>
                  (case listed of
                     Inl e \<Rightarrow> (Inl e, st2)
                   | Inr accounts \<Rightarrow>
                       (case choiceFrom E S mixed groupID platform sessionHash requestedModel excluded None accounts st2 of
                          (Some a, st3) \<Rightarrow> (Inr a, st3)
                        | (None, st3) \<Rightarrow> (Inl NoAvailableAccounts, st3)))))"

definition selectAccountForModelWithPlatform ::
    "sel_env \<Rightarrow> sel_sources \<Rightarrow> sel_request \<Rightarrow> int64 option \<Rightarrow> gostr \<Rightarrow> 'r sel_state \<Rightarrow> (sel_error + Account) \<times> 'r sel_state" where
  "selectAccountForModelWithPlatform E S q groupID platform st =
     chooseAccount E S False (forced q \<noteq> []) groupID platform (rq_sessionHash q) (rq_model q) (rq_excluded q) st"

definition selectAccountWithMixedScheduling ::
    "sel_env \<Rightarrow> sel_sources \<Rightarrow> sel_request \<Rightarrow> int64 option \<Rightarrow> gostr \<Rightarrow> 'r sel_state \<Rightarrow> (sel_error + Account) \<times> 'r sel_state" where
  "selectAccountWithMixedScheduling E S q groupID nativePlatform st =
     chooseAccount E S True False groupID nativePlatform (rq_sessionHash q) (rq_model q) (rq_excluded q) st"

definition hydrateChosen :: "sel_env \<Rightarrow> (sel_error + Account) \<times> 'r sel_state \<Rightarrow> (sel_error + Account) \<times> 'r sel_state" where
  "hydrateChosen E res = (case res of (Inl e, st) \<Rightarrow> (Inl e, st) | (Inr a, st) \<Rightarrow> (se_hydrate E a, st))"

text \<open>\<open>None\<close>: the fuel of the fallback loop ran out.\<close>

definition SelectAccountForModelWithExclusions ::
    "nat \<Rightarrow> sel_env \<Rightarrow> sel_sources \<Rightarrow> sel_request \<Rightarrow> 'r sel_state \<Rightarrow> ((sel_error + Account) \<times> 'r sel_state) option" where
  "SelectAccountForModelWithExclusions fuel E S q st =
     (case (if forced q \<noteq> [] then Some (Inr (forced q, rq_groupID q))
            else case rq_groupID q of
                   None \<Rightarrow> Some (Inr (PlatformAnthropic, None))
                 | Some g \<Rightarrow>
                     (case resolveGatewayGroup fuel (so_groups S) (rq_claudeCode q) [] g of
                        None \<Rightarrow> None
                      | Some (Inl e) \<Rightarrow> Some (Inl e)
                      | Some (Inr (grp, i)) \<Rightarrow> Some (Inr (gr_Platform grp, Some i)))) of
        None \<Rightarrow> None
      | Some (Inl e) \<Rightarrow> Some (Inl e, st)
      | Some (Inr (platform, groupID)) \<Rightarrow>
          if so_restricted S groupID (rq_model q) then Some (Inl ChannelRestricted, st)
          else if (platform = PlatformAnthropic \<or> platform = PlatformGemini) \<and> rq_forcePlatform q = None
          then Some (hydrateChosen E (selectAccountWithMixedScheduling E S q groupID platform st))
          else Some (hydrateChosen E (selectAccountForModelWithPlatform E S q groupID platform st)))"

section \<open>Without load batches\<close>

text \<open>
  The loop of \<open>SelectAccountWithLoadAwareness\<close> when load batches are off: choose, take a slot or
  a place in the queue, and exclude an account whose session limit refuses.
\<close>

fun choiceRetry ::
    "nat \<Rightarrow> nat \<Rightarrow> 'r redis_ops \<Rightarrow> sel_env \<Rightarrow> sel_sources \<Rightarrow> sel_request \<Rightarrow> int64 \<Rightarrow> 'r sel_state
     \<Rightarrow> ((sel_error + AccountSelectionResult) \<times> 'r sel_state) option" where
  "choiceRetry 0 fuel R E S q stickyID st = None"
| "choiceRetry (Suc n) fuel R E S q stickyID st =
     (case SelectAccountForModelWithExclusions fuel E S q st of
        None \<Rightarrow> None
      | Some (Inl e, st1) \<Rightarrow> Some (Inl e, st1)
      | Some (Inr a, st1) \<Rightarrow>
          let refused = q\<lparr>rq_excluded := insert (act_ID a) (rq_excluded q)\<rparr>;
              queue = (\<lambda>st.
                case checkAndRegisterSession R E a (rq_sessionHash q) st of
                  (False, st1) \<Rightarrow> choiceRetry n fuel R E S refused stickyID st1
                | (True, st1) \<Rightarrow>
                    let fallback = (\<lambda>st. Some (waitResult E a (sc_FallbackWaitTimeout (se_cfg E)) (sc_FallbackMaxWaiting (se_cfg E)), st))
                    in (case se_concurrency E of
                          None \<Rightarrow> fallback st1
                        | Some c \<Rightarrow>
                            if stickyID > 0 \<and> stickyID = act_ID a
                            then (case waitingCount R E c (act_ID a) st1 of
                                    (w, st2) \<Rightarrow>
                                      if w < sc_StickySessionMaxWaiting (se_cfg E)
                                      then Some (waitResult E a (sc_StickySessionWaitTimeout (se_cfg E))
                                                   (sc_StickySessionMaxWaiting (se_cfg E)), st2)
                                      else fallback st2)
                            else fallback st1))
          in (case tryAcquireAccountSlot R E (act_ID a) (act_Concurrency a) st1 of
                (Inl e, st2) \<Rightarrow> queue st2
              | (Inr result, st2) \<Rightarrow>
                  if Acquired result
                  then (case checkAndRegisterSession R E a (rq_sessionHash q) st2 of
                          (False, st3) \<Rightarrow>
                            choiceRetry n fuel R E S refused stickyID (releaseSlot R E (ReleaseFunc result) st3)
                        | (True, st3) \<Rightarrow> Some (newSelectionResult E a True (ReleaseFunc result) None, st3))
                  else queue st2))"

section \<open>The entry point\<close>

definition prefetchedStickyAccountID :: "sel_request \<Rightarrow> int64 option \<Rightarrow> int64" where
  "prefetchedStickyAccountID q groupID =
     (case rq_prefetchedGroup q of
        None \<Rightarrow> 0
      | Some g \<Rightarrow>
          if g \<noteq> derefGroupID groupID then 0
          else (case rq_prefetchedAccount q of Some i \<Rightarrow> if i > 0 then i else 0 | None \<Rightarrow> 0))"

definition stickyAccountID :: "sel_env \<Rightarrow> sel_request \<Rightarrow> int64 option \<Rightarrow> 'r sel_state \<Rightarrow> int64 \<times> 'r sel_state" where
  "stickyAccountID E q groupID st =
     (if prefetchedStickyAccountID q groupID > 0 then (prefetchedStickyAccountID q groupID, st)
      else if rq_sessionHash q \<noteq> [] \<and> se_stickyCache E
      then (case GetSessionAccountID E (derefGroupID groupID) (rq_sessionHash q) st of
              (Some i, st1) \<Rightarrow> (i, st1)
            | (None, st1) \<Rightarrow> (0, st1))
      else (0, st))"

definition SelectAccountWithLoadAwareness ::
    "nat \<Rightarrow> nat \<Rightarrow> 'r redis_ops \<Rightarrow> sel_env \<Rightarrow> sel_sources \<Rightarrow> sel_request \<Rightarrow> 'r sel_state
     \<Rightarrow> ((sel_error + AccountSelectionResult) \<times> 'r sel_state) option" where
  "SelectAccountWithLoadAwareness n fuel R E S q st =
     (case checkClaudeCodeRestriction fuel (so_groups S) (rq_claudeCode q) (forced q) (rq_groupID q) of
        None \<Rightarrow> None
      | Some (Inl e) \<Rightarrow> Some (Inl e, st)
      | Some (Inr (grp, groupID)) \<Rightarrow>
          if so_restricted S groupID (rq_model q) then Some (Inl ChannelRestricted, st)
          else (case stickyAccountID E q groupID st of
            (stickyID, st1) \<Rightarrow>
              (case (if sc_LoadBatchEnabled (se_cfg E) then se_concurrency E else None) of
                 None \<Rightarrow> choiceRetry n fuel R E S (q\<lparr>rq_groupID := groupID\<rparr>) stickyID st1
               | Some c \<Rightarrow>
                   (case resolvePlatform (so_groups S) (forced q) groupID grp of
                      Inl e \<Rightarrow> Some (Inl e, st1)
                    | Inr (platform, hasForcePlatform) \<Rightarrow>
                        (case listSchedulableAccounts (so_repo S) (so_simpleMode S) groupID platform hasForcePlatform of
                           (Inl e, useMixed) \<Rightarrow> Some (Inl e, st1)
                         | (Inr accounts, useMixed) \<Rightarrow>
                             if accounts = [] then Some (Inl NoAvailableAccounts, st1)
                             else let ids = (case grp of
                                        None \<Rightarrow> []
                                      | Some g \<Rightarrow>
                                          if rq_model q \<noteq> [] \<and> gr_Platform g = PlatformAnthropic
                                          then GetRoutingAccountIDs g (rq_model q) else [])
                                  in Some (selectByLayers R E c groupID platform useMixed (rq_model q) (rq_sessionHash q)
                                             (rq_excluded q) stickyID accounts ids st1))))))"

section \<open>Library\<close>

text \<open>One step along the fallback groups.\<close>

definition falls_back :: "(int64 \<rightharpoonup> Group) \<Rightarrow> bool \<Rightarrow> (int64 \<times> int64) set" where
  "falls_back groups claudeCode =
     {(a, b). \<exists>g. groups a = Some g \<and> gr_ClaudeCodeOnly g \<and> \<not> claudeCode \<and> gr_FallbackGroupID g = Some b}"

lemma resolveGatewayGroup_returns:
  assumes "finite (dom groups)" "set visited \<subseteq> dom groups" "distinct visited"
    and "card (dom groups) < n + length visited"
  shows "resolveGatewayGroup n groups cc visited i \<noteq> None"
  using assms(2-4)
proof (induction n arbitrary: visited i)
  case 0
  have "length visited \<le> card (dom groups)"
    using card_mono [OF assms(1) 0(1)] distinct_card [OF 0(2)] by simp
  with 0 show ?case by simp
next
  case (Suc n)
  show ?case
  proof (cases "i \<in> set visited")
    case False
    show ?thesis
    proof (cases "groups i")
      case (Some g)
      have "resolveGatewayGroup n groups cc (i # visited) k \<noteq> None" for k
        using Suc.IH [of "i # visited" k] Suc.prems False Some by auto
      with False Some show ?thesis by (auto split: option.split)
    qed (use False in simp)
  qed simp
qed

lemma resolveGatewayGroup_sound:
  "resolveGatewayGroup n groups cc visited i = Some (Inr (g, j)) \<Longrightarrow>
     groups j = Some g \<and> (\<not> gr_ClaudeCodeOnly g \<or> cc) \<and> (i, j) \<in> (falls_back groups cc)\<^sup>*"
proof (induction n arbitrary: visited i)
  case (Suc n)
  then obtain h where h: "i \<notin> set visited" "groups i = Some h" by (auto split: if_splits option.splits)
  show ?case
  proof (cases "\<not> gr_ClaudeCodeOnly h \<or> cc")
    case False
    with Suc.prems h obtain k where k: "gr_FallbackGroupID h = Some k"
      "resolveGatewayGroup n groups cc (i # visited) k = Some (Inr (g, j))"
      by (auto split: option.splits)
    with h False have "(i, k) \<in> falls_back groups cc" by (simp add: falls_back_def)
    with Suc.IH [OF k(2)] show ?thesis by (meson converse_rtrancl_into_rtrancl)
  qed (use Suc.prems h in auto)
qed simp

lemma choiceLoop_best:
  fixes considered lacks fits ok :: "Account \<Rightarrow> bool"
  assumes asym: "\<And>x y. better x y \<Longrightarrow> \<not> better y x" and trans: "\<And>x y z. better x y \<Longrightarrow> better y z \<Longrightarrow> better x z"
    and ok_def: "ok = (\<lambda>a. considered a \<and> \<not> lacks a \<and> fits a)"
    and run: "fst (choiceLoop considered lacks fits better as (sel, err)) = res"
  shows "(res = None \<longleftrightarrow> sel = None \<and> filter ok as = []) \<and>
    (\<forall>s. res = Some s \<longrightarrow> (s \<in> set as \<and> ok s \<or> sel = Some s) \<and>
       (\<forall>b \<in> set as. ok b \<longrightarrow> \<not> better b s) \<and> (\<forall>b. sel = Some b \<longrightarrow> b = s \<or> better s b))"
  using run
proof (induction as arbitrary: sel err)
  case (Cons a as)
  show ?case
  proof (cases "ok a")
    case False
    then obtain err' where "fst (choiceLoop considered lacks fits better as (sel, err')) = res"
      using Cons.prems by (auto simp: ok_def split: if_splits)
    from Cons.IH [OF this] False show ?thesis by auto
  next
    case True
    define new where "new = (case sel of None \<Rightarrow> a | Some s \<Rightarrow> if better a s then a else s)"
    have "fst (choiceLoop considered lacks fits better as (Some new, err)) = res"
      using Cons.prems True by (auto simp: ok_def new_def split: option.splits)
    note IH = Cons.IH [OF this]
    then obtain s where s: "res = Some s" by auto
    have "\<not> better a s"
    proof
      assume "better a s"
      moreover from IH s have "new = s \<or> better s new" by auto
      ultimately have "better a new" using trans by blast
      then show False using asym by (auto simp: new_def split: option.splits if_splits)
    qed
    moreover have "b = s \<or> better s b" if "sel = Some b" for b
      using IH s that trans by (auto simp: new_def split: if_splits)
    moreover have "s \<in> set (a # as) \<and> ok s \<or> sel = Some s"
      using IH s True by (auto simp: new_def split: option.splits if_splits)
    ultimately show ?thesis using IH s True by auto
  qed
qed (cases sel; auto)

lemma choiceBetter_asym: "choiceBetter mixed po x y \<Longrightarrow> \<not> choiceBetter mixed po y x"
  by (cases "act_LastUsedAt x"; cases "act_LastUsedAt y") (auto simp: choiceBetter_def split: if_splits)

lemma choiceBetter_trans: "choiceBetter mixed po x y \<Longrightarrow> choiceBetter mixed po y z \<Longrightarrow> choiceBetter mixed po x z"
  by (cases "act_LastUsedAt x"; cases "act_LastUsedAt y"; cases "act_LastUsedAt z")
    (auto simp: choiceBetter_def split: if_splits)

text \<open>What the choice demands of an account.\<close>

definition choosable ::
    "sel_env \<Rightarrow> sel_sources \<Rightarrow> bool \<Rightarrow> int64 option \<Rightarrow> gostr \<Rightarrow> int64 set \<Rightarrow> int64 list option \<Rightarrow> Account \<Rightarrow> bool" where
  "choosable E S mixed groupID m excluded routed a \<longleftrightarrow>
     (case routed of None \<Rightarrow> True | Some ids \<Rightarrow> act_ID a \<in> set ids \<and> act_ID a > 0) \<and>
     act_ID a \<notin> excluded \<and> IsSchedulable (se_clock E) a \<and>
     \<not> lacksPrivacy (case groupID of None \<Rightarrow> None | Some g \<Rightarrow> so_fullGroup S g) a \<and>
     choiceFits E S groupID mixed (routed = None) m a"

lemma choiceFrom_best:
  assumes "choiceFrom E S mixed groupID platform sess m excluded routed accounts st = (res, st')"
  shows "(res = None \<longleftrightarrow> filter (choosable E S mixed groupID m excluded routed) accounts = []) \<and>
    (\<forall>a. res = Some a \<longrightarrow> a \<in> set accounts \<and> choosable E S mixed groupID m excluded routed a \<and>
       (\<forall>b \<in> set accounts. choosable E S mixed groupID m excluded routed b \<longrightarrow>
          \<not> choiceBetter mixed (platform = PlatformGemini) b a))"
proof -
  let ?considered = "\<lambda>a. (case routed of None \<Rightarrow> True | Some ids \<Rightarrow> act_ID a \<in> set ids \<and> act_ID a > 0) \<and>
                            act_ID a \<notin> excluded \<and> IsSchedulable (se_clock E) a"
  let ?lacks = "lacksPrivacy (case groupID of None \<Rightarrow> None | Some g \<Rightarrow> so_fullGroup S g)"
  let ?fits = "choiceFits E S groupID mixed (routed = None) m"
  have ok: "choosable E S mixed groupID m excluded routed = (\<lambda>a. ?considered a \<and> \<not> ?lacks a \<and> ?fits a)"
    by (rule ext) (auto simp: choosable_def)
  define L where "L = choiceLoop ?considered ?lacks ?fits (choiceBetter mixed (platform = PlatformGemini)) accounts (None, [])"
  have "choiceFrom E S mixed groupID platform sess m excluded routed accounts st =
      (case L of (None, errored) \<Rightarrow> (None, noteErrored errored st)
         | (Some a, errored) \<Rightarrow> (Some a, bindSticky E groupID sess (act_ID a) (noteErrored errored st)))"
    by (simp only: choiceFrom_def Let_def L_def)
  then have "fst L = res" using assms by (cases L; cases "fst L") auto
  have "(res = None \<longleftrightarrow> None = (None :: Account option) \<and> filter (choosable E S mixed groupID m excluded routed) accounts = []) \<and>
    (\<forall>s. res = Some s \<longrightarrow> (s \<in> set accounts \<and> choosable E S mixed groupID m excluded routed s \<or> None = Some s) \<and>
       (\<forall>b \<in> set accounts. choosable E S mixed groupID m excluded routed b \<longrightarrow>
          \<not> choiceBetter mixed (platform = PlatformGemini) b s) \<and>
       (\<forall>b. None = Some b \<longrightarrow> b = s \<or> choiceBetter mixed (platform = PlatformGemini) s b))"
    by (rule choiceLoop_best [where better = "choiceBetter mixed (platform = PlatformGemini)",
          OF choiceBetter_asym choiceBetter_trans ok \<open>fst L = res\<close> [unfolded L_def]])
  then show ?thesis by simp
qed

text \<open>
  Where the accounts of a request can come from: finitely many identifiers, those of the listed
  accounts and of an account read by its identifier; loading an account keeps its identifier.
\<close>

definition accounts_within :: "int64 set \<Rightarrow> sel_env \<Rightarrow> sel_sources \<Rightarrow> bool" where
  "accounts_within U E S \<longleftrightarrow>
     (\<forall>scope ps as. so_repo S scope ps = Some as \<longrightarrow> act_ID ` set as \<subseteq> U) \<and>
     (\<forall>i a. so_account S i = Some a \<longrightarrow> act_ID a = i \<and> i \<in> U) \<and>
     (\<forall>a h. se_hydrate E a = Inr h \<longrightarrow> act_ID h = act_ID a)"

lemma choiceSticky_within:
  assumes "accounts_within U E S" "choiceSticky E S mixed groupID platform sess m excluded allowed st = (Some a, st')"
  shows "act_ID a \<in> U - excluded"
  using assms by (auto simp: choiceSticky_def accounts_within_def split: if_splits option.splits prod.splits)

lemma listed_within:
  assumes "accounts_within U E S" "fst (listSchedulableAccounts (so_repo S) simple groupID platform force) = Inr as"
  shows "act_ID ` set as \<subseteq> U"
  using assms by (fastforce simp: listSchedulableAccounts_def accounts_within_def Let_def split: if_splits option.splits)

lemma choiceFrom_within:
  assumes "choiceFrom E S mixed groupID platform sess m excluded routed as st = (Some a, st')" "act_ID ` set as \<subseteq> U"
  shows "act_ID a \<in> U - excluded"
  using choiceFrom_best [OF assms(1)] assms(2) by (auto simp: choosable_def)

lemma chooseAccount_within:
  assumes within: "accounts_within U E S"
    and run: "chooseAccount E S mixed force groupID platform sess m excluded st = (Inr a, st')"
  shows "act_ID a \<in> U - excluded"
proof -
  note sticky = choiceSticky_within [OF within]
  define listed where "listed = fst (listSchedulableAccounts (so_repo S) (so_simpleMode S) groupID platform force)"
  have chosen: "act_ID b \<in> U - excluded"
    if "listed = Inr as" "choiceFrom E S mixed groupID platform sess m excluded routed as s = (Some b, s')" for as routed s s' b
    using choiceFrom_within [OF that(2) listed_within [OF within]] that(1) by (simp add: listed_def)
  show ?thesis
    using run unfolding chooseAccount_def Let_def listed_def [symmetric]
    by (auto split: if_splits option.splits prod.splits sum.splits dest: sticky chosen)
qed

lemma SelectAccountForModel_within:
  assumes "accounts_within U E S" "SelectAccountForModelWithExclusions fuel E S q st = Some (Inr a, st')"
  shows "act_ID a \<in> U - rq_excluded q"
proof -
  have hyd: "act_ID h = act_ID b" if "se_hydrate E b = Inr h" for b h
    using assms(1) that by (simp add: accounts_within_def)
  obtain mixed force groupID platform b where
    "chooseAccount E S mixed force groupID platform (rq_sessionHash q) (rq_model q) (rq_excluded q) st = (Inr b, st')"
    "se_hydrate E b = Inr a"
    using assms(2)
    by (auto simp: SelectAccountForModelWithExclusions_def hydrateChosen_def selectAccountWithMixedScheduling_def
        selectAccountForModelWithPlatform_def split: option.splits sum.splits if_splits prod.splits)
  with chooseAccount_within [OF assms(1) this(1)] hyd show ?thesis by metis
qed

lemma SelectAccountForModel_returns:
  assumes "finite (dom (so_groups S))" "card (dom (so_groups S)) < fuel"
  shows "SelectAccountForModelWithExclusions fuel E S q st \<noteq> None"
proof -
  have "\<exists>r. resolveGatewayGroup fuel (so_groups S) (rq_claudeCode q) [] g = Some r" for g
    using resolveGatewayGroup_returns [OF assms(1), of "[]" fuel "rq_claudeCode q" g] assms(2) by auto
  then obtain r where "\<And>g. resolveGatewayGroup fuel (so_groups S) (rq_claudeCode q) [] g = Some (r g)" by metis
  then show ?thesis
    by (simp add: SelectAccountForModelWithExclusions_def split: option.split sum.split)
qed

lemma choiceRetry_returns:
  assumes "finite (dom (so_groups S))" "card (dom (so_groups S)) < fuel" "finite U" "accounts_within U E S"
  shows "card (U - rq_excluded q) < n \<Longrightarrow> choiceRetry n fuel R E S q stickyID st \<noteq> None"
proof (induction n arbitrary: q st)
  case (Suc n)
  obtain r st1 where sel: "SelectAccountForModelWithExclusions fuel E S q st = Some (r, st1)"
    using SelectAccountForModel_returns [OF assms(1,2)] by (metis not_None_eq surj_pair)
  show ?case
  proof (cases r)
    case (Inr a)
    let ?q = "q\<lparr>rq_excluded := insert (act_ID a) (rq_excluded q)\<rparr>"
    have "act_ID a \<in> U - rq_excluded q"
      using SelectAccountForModel_within [OF assms(4)] sel Inr by simp
    then have "card (U - rq_excluded ?q) < card (U - rq_excluded q)"
      using assms(3) by (intro psubset_card_mono) auto
    with Suc.prems have "\<exists>y. choiceRetry n fuel R E S ?q stickyID s = Some y" for s
      using Suc.IH [of ?q s] by auto
    then obtain y where "\<And>s. choiceRetry n fuel R E S ?q stickyID s = Some (y s)" by metis
    then show ?thesis
      by (simp add: sel Inr Let_def split: sum.split prod.split bool.split option.split)
  qed (simp add: sel)
qed simp

section \<open>Examples\<close>

definition privateGroup :: Group where
  "privateGroup = (exampleGroup [])\<lparr>gr_Platform := PlatformAntigravity, gr_RequirePrivacySet := True\<rparr>"

definition exampleSources :: sel_sources where
  "exampleSources = \<lparr>so_groups = [1 \<mapsto> privateGroup], so_fullGroup = [1 \<mapsto> privateGroup],
     so_repo = (\<lambda>_ _. Some [plainAccount 7 PlatformAntigravity AccountTypeOAuth]), so_account = Map.empty, so_simpleMode = False,
     so_restricted = (\<lambda>_ _. False), so_needsUpstreamCheck = (\<lambda>_. False), so_modelRestricted = (\<lambda>_ _. False)\<rparr>"

definition exampleRequest :: sel_request where
  "exampleRequest = \<lparr>rq_groupID = Some 1, rq_sessionHash = [], rq_model = [], rq_excluded = {}, rq_forcePlatform = None,
     rq_claudeCode = False, rq_prefetchedAccount = None, rq_prefetchedGroup = None\<rparr>"

definition withBatch :: "bool \<Rightarrow> sel_env" where
  "withBatch b = (exampleEnv Inr)\<lparr>se_cfg := exampleConfig\<lparr>sc_LoadBatchEnabled := b\<rparr>\<rparr>"

abbreviation exampleSelect :: "bool \<Rightarrow> ((sel_error + AccountSelectionResult) \<times> mem_redis sel_state) option" where
  "exampleSelect b \<equiv> SelectAccountWithLoadAwareness 2 2 mem_ops (withBatch b) exampleSources exampleRequest exampleState"

lemma exampleSources_within: "accounts_within {7} (withBatch b) exampleSources"
  by (auto simp: accounts_within_def exampleSources_def withBatch_def exampleEnv_def)

lemma antigravity_available:
  "eligible (withBatch b) PlatformAntigravity False [] False (plainAccount 7 PlatformAntigravity AccountTypeOAuth)"
  by (simp add: eval_accounts withBatch_def exampleEnv_def Let_def mapAntigravityModel_def
      resolveFinalAntigravityModelKey_def IsModelSupported_def mappingSupportsRequestedModel_def
      resolveRequestedModelInMapping_def DefaultAntigravityModelMapping_def)

text \<open>
  The load-aware selection never looks at \<open>RequirePrivacySet\<close>: it returns the account that the
  selection without load batches refuses and marks with an error.
\<close>

lemma load_aware_ignores_privacy:
  "\<not> IsPrivacySet (plainAccount 7 PlatformAntigravity AccountTypeOAuth) \<and> gr_RequirePrivacySet privateGroup \<and>
   (\<exists>x st'. exampleSelect True = Some (Inr x, st') \<and> act_ID (sr_Account x) = 7) \<and>
   (\<exists>st'. exampleSelect False = Some (Inl NoAvailableAccounts, st') \<and> ss_errored st' = [7])"
proof (intro conjI)
  show "\<not> IsPrivacySet (plainAccount 7 PlatformAntigravity AccountTypeOAuth)"
    by (simp add: IsPrivacySet_def plainAccount_def platform_defs getExtraString_def)
  show "gr_RequirePrivacySet privateGroup" by (simp add: privateGroup_def)
  let ?a = "plainAccount 7 PlatformAntigravity AccountTypeOAuth"
  have layers: "exampleSelect True = Some (selectByLayers mem_ops (withBatch True) exampleCache (Some 1)
      PlatformAntigravity False [] [] {} 0 [?a] [] exampleState)"
    by (simp add: SelectAccountWithLoadAwareness_def exampleRequest_def exampleSources_def checkClaudeCodeRestriction_def
        forced_def numeral_2_eq_2 privateGroup_def exampleGroup_def stickyAccountID_def prefetchedStickyAccountID_def
        withBatch_def exampleEnv_def exampleConfig_def resolvePlatform_def listSchedulableAccounts_def platform_defs)
  have cand: "layer2Candidates (withBatch True) PlatformAntigravity False [] {} [?a] = [?a]"
    by (simp add: layer2Candidates_def antigravity_available)
  obtain x st' where x: "selectByLayers mem_ops (withBatch True) exampleCache (Some 1)
      PlatformAntigravity False [] [] {} 0 [?a] [] exampleState = (Inr x, st')" "sr_Account x = ?a"
  proof -
    obtain r st' where r: "allLayers mem_ops (withBatch True) exampleCache (Some 1)
      PlatformAntigravity False [] [] {} 0 [?a] [] exampleState = (Some r, st')"
      using allLayers_not_None [of ?a "withBatch True" PlatformAntigravity False "[]" "{}" "[?a]" "[]"] cand
      by (metis list.set_intros(1) not_None_eq session_free_def surj_pair)
    from allLayers_offers [OF r] cand have "offers (withBatch True) ?a r"
      by (auto simp: selectable_def)
    then obtain x where "r = Inr x" "sr_Account x = ?a"
      by (auto simp: offers_def waitResult_def newSelectionResult_def withBatch_def exampleEnv_def)
    with r that show ?thesis by (simp add: selectByLayers_all)
  qed
  then show "\<exists>x st'. exampleSelect True = Some (Inr x, st') \<and> act_ID (sr_Account x) = 7"
    by (simp add: layers)
  show "\<exists>st'. exampleSelect False = Some (Inl NoAvailableAccounts, st') \<and> ss_errored st' = [7]"
    by (simp add: SelectAccountWithLoadAwareness_def exampleRequest_def exampleSources_def checkClaudeCodeRestriction_def
        forced_def numeral_2_eq_2 privateGroup_def exampleGroup_def stickyAccountID_def prefetchedStickyAccountID_def
        withBatch_def exampleEnv_def exampleConfig_def SelectAccountForModelWithExclusions_def
        selectAccountForModelWithPlatform_def chooseAccount_def routingAccountIDsForRequest_def choiceSticky_def
        listSchedulableAccounts_def choiceFrom_def eval_accounts lacksPrivacy_def IsPrivacySet_def getExtraString_def
        hydrateChosen_def noteErrored_def exampleState_def)
qed

section \<open>Properties\<close>

text \<open>
  The group that a request falls back to: with finitely many groups and enough fuel for each
  of them once, resolution returns, even when the fallback references form a cycle; a resolved
  group admits the client, and is reached from the requested one only through groups that
  refuse it.
\<close>

theorem fallback_group_resolved:
  assumes "finite (dom groups)" and "card (dom groups) < fuel"
  shows "\<exists>r. resolveGatewayGroup fuel groups claudeCode [] g = Some r \<and>
    (case r of
       Inl e \<Rightarrow> e \<in> {FallbackCycle, GroupLookupFailed, ClaudeCodeOnlyError}
     | Inr (grp, i) \<Rightarrow> groups i = Some grp \<and> (if gr_ClaudeCodeOnly grp then claudeCode else True) \<and>
         (g, i) \<in> (falls_back groups claudeCode)\<^sup>*)"
proof -
  obtain r where r: "resolveGatewayGroup fuel groups claudeCode [] g = Some r"
    using resolveGatewayGroup_returns [OF assms(1), of "[]" fuel claudeCode g] assms(2) by auto
  have "e \<in> {FallbackCycle, GroupLookupFailed, ClaudeCodeOnlyError}"
    if "resolveGatewayGroup n groups claudeCode visited i = Some (Inl e)" for n visited i e
    using that by (induction n arbitrary: visited i) (auto split: if_splits option.splits)
  with r resolveGatewayGroup_sound [of fuel groups claudeCode "[]" g] show ?thesis
    by (cases r) auto
qed

definition exampleGroups :: "int64 \<rightharpoonup> Group" where
  "exampleGroups = [1 \<mapsto> (exampleGroup [])\<lparr>gr_ClaudeCodeOnly := True, gr_FallbackGroupID := Some 2\<rparr>,
                    2 \<mapsto> (exampleGroup [])\<lparr>gr_ClaudeCodeOnly := True, gr_FallbackGroupID := Some 1\<rparr>]"

theorem fallback_group_resolved_witness:
  "resolveGatewayGroup 3 exampleGroups False [] 1 = Some (Inl FallbackCycle)"
proof -
  have "\<exists>r. resolveGatewayGroup 3 exampleGroups False [] 1 = Some r"
    using fallback_group_resolved [of exampleGroups 3 False 1] by (auto simp: exampleGroups_def)
  moreover have "resolveGatewayGroup 3 exampleGroups False [] 1 = Some r \<Longrightarrow> r = Inl FallbackCycle" for r
    by (simp add: exampleGroups_def numeral_3_eq_3)
  ultimately show ?thesis by auto
qed

text \<open>
  C8. Account selection returns: although it retries without bound while session limits refuse,
  each retry excludes one more account, so with finitely many groups and accounts as many
  rounds as there are accounts, plus one, are enough.
\<close>

theorem selection_returns:
  assumes "finite (dom (so_groups S))" and "card (dom (so_groups S)) < fuel"
    and "finite U" and "card U < n" and "accounts_within U E S"
  shows "\<exists>res st'. SelectAccountWithLoadAwareness n fuel R E S q st = Some (res, st')"
proof -
  have "card (U - rq_excluded q) \<le> card U" by (rule card_mono [OF assms(3)]) blast
  with assms(4) have "\<exists>y. choiceRetry n fuel R E S (q\<lparr>rq_groupID := g\<rparr>) stickyID s = Some y" for g stickyID s
    using choiceRetry_returns [OF assms(1-3,5), of "q\<lparr>rq_groupID := g\<rparr>" n R stickyID s] by auto
  then obtain y where y: "\<And>g stickyID s. choiceRetry n fuel R E S (q\<lparr>rq_groupID := g\<rparr>) stickyID s = Some (y g stickyID s)"
    by metis
  have "\<exists>r. resolveGatewayGroup fuel (so_groups S) (rq_claudeCode q) [] g = Some r" for g
    using resolveGatewayGroup_returns [OF assms(1), of "[]" fuel "rq_claudeCode q" g] assms(2) by auto
  then obtain r where r: "\<And>g. resolveGatewayGroup fuel (so_groups S) (rq_claudeCode q) [] g = Some (r g)" by metis
  have "\<exists>c0. checkClaudeCodeRestriction fuel (so_groups S) (rq_claudeCode q) (forced q) g = Some c0" for g
    by (simp add: checkClaudeCodeRestriction_def r split: option.split sum.split)
  then obtain c0 where c0: "checkClaudeCodeRestriction fuel (so_groups S) (rq_claudeCode q) (forced q) (rq_groupID q) = Some c0"
    by blast
  show ?thesis
  proof (cases c0)
    case (Inr gg)
    obtain grp groupID where gg: "gg = (grp, groupID)" by (cases gg)
    obtain stickyID st1 where sticky: "stickyAccountID E q groupID st = (stickyID, st1)" by fastforce
    define batch where "batch = (if sc_LoadBatchEnabled (se_cfg E) then se_concurrency E else None)"
    define listing where "listing p f = listSchedulableAccounts (so_repo S) (so_simpleMode S) groupID p f" for p f
    show ?thesis
      unfolding SelectAccountWithLoadAwareness_def batch_def [symmetric]
      by (cases "so_restricted S groupID (rq_model q)"; cases batch; cases "resolvePlatform (so_groups S) (forced q) groupID grp")
        (auto simp: c0 Inr gg sticky y Let_def simp flip: listing_def split: prod.split sum.split)
  qed (use c0 in \<open>simp add: SelectAccountWithLoadAwareness_def\<close>)
qed

theorem selection_returns_witness:
  "\<exists>res st'. exampleSelect False = Some (res, st')"
  by (rule selection_returns [OF _ _ _ _ exampleSources_within]) (simp_all add: exampleSources_def)

text \<open>
  Without load information the account chosen is fit and best: it is listed, not excluded,
  schedulable, has the privacy setting its group demands, serves the model and is within all
  limits, and no other such account has a better priority or, at the same priority, an earlier
  last use; none is chosen exactly when no listed account is fit.
\<close>

theorem choice_fit_and_best:
  assumes "choiceFrom E S mixed groupID platform sess m excluded routed accounts st = (res, st')"
  shows "case res of
      None \<Rightarrow> filter (choosable E S mixed groupID m excluded routed) accounts = []
    | Some a \<Rightarrow> a \<in> set accounts \<and> choosable E S mixed groupID m excluded routed a \<and>
        filter (\<lambda>b. choosable E S mixed groupID m excluded routed b \<and>
                    choiceBetter mixed (platform = PlatformGemini) b a) accounts = []"
  using choiceFrom_best [OF assms] by (cases res) (simp_all add: filter_empty_conv)

theorem choice_fit_and_best_witness:
  "let a = plainAccount 7 ''openai'' ''apikey''; b = a\<lparr>act_ID := 8, act_Priority := 0\<rparr>
   in fst (choiceFrom (exampleEnv Inr) exampleSources False None ''openai'' [] [] {} None [a, b] exampleState) = Some b \<and>
      choosable (exampleEnv Inr) exampleSources False None [] {} None b"
proof -
  let ?a = "plainAccount 7 ''openai'' ''apikey''"
  let ?b = "?a\<lparr>act_ID := 8, act_Priority := 0\<rparr>"
  obtain st' where run: "choiceFrom (exampleEnv Inr) exampleSources False None ''openai'' [] [] {} None [?a, ?b] exampleState
      = (Some ?b, st')"
    by (simp add: choiceFrom_def Let_def lacksPrivacy_def choiceFits_def choiceBetter_def eval_accounts exampleEnv_def
        bindSticky_def exampleSources_def)
  from choice_fit_and_best [OF run] run show ?thesis by simp
qed

end
