(* ===== verification/Idempotency_Repo.thy ===== *)
theory Idempotency_Repo
  imports Redis_Store
begin

text \<open>
  The table of idempotency records and the statements of
  \<open>internal/repository/idempotency_repo.go\<close> on it.  The unique index is on the scope and the hash
  of the key; identifiers come from a sequence, which a refused insert uses up as well.  The
  times of creation and update, which nothing reads, are left out.  A statement is atomic; its
  caller may get an error before or after it took effect (type \<open>io\<close>).
\<close>

section \<open>Records\<close>

definition IdempotencyStatusProcessing :: gostr where "IdempotencyStatusProcessing = ''processing''"
definition IdempotencyStatusSucceeded :: gostr where "IdempotencyStatusSucceeded = ''succeeded''"
definition IdempotencyStatusFailedRetryable :: gostr where "IdempotencyStatusFailedRetryable = ''failed_retryable''"

lemmas idempotency_status_defs [simp] =
  IdempotencyStatusProcessing_def IdempotencyStatusSucceeded_def IdempotencyStatusFailedRetryable_def

record IdempotencyRecord =
  ir_ID :: int64
  ir_Scope :: gostr
  ir_IdempotencyKeyHash :: gostr
  ir_RequestFingerprint :: gostr
  ir_Status :: gostr
  ir_ResponseStatus :: "int option"
  ir_ResponseBody :: "gostr option"
  ir_ErrorReason :: "gostr option"
  ir_LockedUntil :: "time option"
  ir_ExpiresAt :: time

record idem_db =
  idb_rows :: "IdempotencyRecord list"
  idb_next :: int64

definition ir_key :: "IdempotencyRecord \<Rightarrow> gostr \<times> gostr" where
  "ir_key r = (ir_Scope r, ir_IdempotencyKeyHash r)"

section \<open>Statements\<close>

text \<open>The insert gives the new identifier, or \<open>None\<close> when the key is taken.\<close>

definition CreateProcessing :: "IdempotencyRecord \<Rightarrow> idem_db \<Rightarrow> int64 option \<times> idem_db" where
  "CreateProcessing r db =
     (let db' = db\<lparr>idb_next := idb_next db + 1\<rparr>
      in if ir_key r \<in> ir_key ` set (idb_rows db) then (None, db')
         else (Some (idb_next db),
               db'\<lparr>idb_rows := idb_rows db @
                 [r\<lparr>ir_ID := idb_next db, ir_ResponseStatus := None, ir_ResponseBody := None, ir_ErrorReason := None\<rparr>]\<rparr>))"

definition GetByScopeAndKeyHash :: "gostr \<Rightarrow> gostr \<Rightarrow> idem_db \<Rightarrow> IdempotencyRecord option \<times> idem_db" where
  "GetByScopeAndKeyHash scope keyHash db = (find (\<lambda>r. ir_key r = (scope, keyHash)) (idb_rows db), db)"

text \<open>\<open>UPDATE \<dots> WHERE\<close>: whether a row was affected, and the table.\<close>

definition update_where :: "(IdempotencyRecord \<Rightarrow> bool) \<Rightarrow> (IdempotencyRecord \<Rightarrow> IdempotencyRecord) \<Rightarrow> idem_db \<Rightarrow> bool \<times> idem_db" where
  "update_where P f db =
     (\<exists>r \<in> set (idb_rows db). P r, db\<lparr>idb_rows := map (\<lambda>r. if P r then f r else r) (idb_rows db)\<rparr>)"

definition lock_free :: "time \<Rightarrow> IdempotencyRecord \<Rightarrow> bool" where
  "lock_free now r = (case ir_LockedUntil r of None \<Rightarrow> True | Some t \<Rightarrow> t \<le> now)"

definition TryReclaim :: "int64 \<Rightarrow> gostr \<Rightarrow> time \<Rightarrow> time \<Rightarrow> time \<Rightarrow> idem_db \<Rightarrow> bool \<times> idem_db" where
  "TryReclaim recID fromStatus now newLockedUntil newExpiresAt =
     update_where (\<lambda>r. ir_ID r = recID \<and> ir_Status r = fromStatus \<and> lock_free now r)
       (\<lambda>r. r\<lparr>ir_Status := IdempotencyStatusProcessing, ir_LockedUntil := Some newLockedUntil,
              ir_ErrorReason := None, ir_ExpiresAt := newExpiresAt\<rparr>)"

definition ExtendProcessingLock :: "int64 \<Rightarrow> gostr \<Rightarrow> time \<Rightarrow> time \<Rightarrow> idem_db \<Rightarrow> bool \<times> idem_db" where
  "ExtendProcessingLock recID fingerprint newLockedUntil newExpiresAt =
     update_where (\<lambda>r. ir_ID r = recID \<and> ir_Status r = IdempotencyStatusProcessing \<and> ir_RequestFingerprint r = fingerprint)
       (\<lambda>r. r\<lparr>ir_LockedUntil := Some newLockedUntil, ir_ExpiresAt := newExpiresAt\<rparr>)"

definition MarkSucceeded :: "int64 \<Rightarrow> int \<Rightarrow> gostr \<Rightarrow> time \<Rightarrow> idem_db \<Rightarrow> bool \<times> idem_db" where
  "MarkSucceeded recID responseStatus responseBody expiresAt =
     update_where (\<lambda>r. ir_ID r = recID)
       (\<lambda>r. r\<lparr>ir_Status := IdempotencyStatusSucceeded, ir_ResponseStatus := Some responseStatus,
              ir_ResponseBody := Some responseBody, ir_ErrorReason := None, ir_LockedUntil := None,
              ir_ExpiresAt := expiresAt\<rparr>)"

definition MarkFailedRetryable :: "int64 \<Rightarrow> gostr \<Rightarrow> time \<Rightarrow> time \<Rightarrow> idem_db \<Rightarrow> bool \<times> idem_db" where
  "MarkFailedRetryable recID errorReason lockedUntil expiresAt =
     update_where (\<lambda>r. ir_ID r = recID)
       (\<lambda>r. r\<lparr>ir_Status := IdempotencyStatusFailedRetryable, ir_ErrorReason := Some errorReason,
              ir_LockedUntil := Some lockedUntil, ir_ExpiresAt := expiresAt\<rparr>)"

text \<open>The oldest expired records, at most \<open>limit\<close> of them, are deleted.\<close>

definition victims :: "time \<Rightarrow> int \<Rightarrow> idem_db \<Rightarrow> IdempotencyRecord list" where
  "victims now limit db =
     take (nat (if limit \<le> 0 then 500 else limit))
       (sort_key ir_ExpiresAt (filter (\<lambda>r. ir_ExpiresAt r \<le> now) (idb_rows db)))"

definition DeleteExpired :: "time \<Rightarrow> int \<Rightarrow> idem_db \<Rightarrow> int \<times> idem_db" where
  "DeleteExpired now limit db =
     (let ids = set (map ir_ID (victims now limit db))
      in (int (length (filter (\<lambda>r. ir_ID r \<in> ids) (idb_rows db))),
          db\<lparr>idb_rows := filter (\<lambda>r. ir_ID r \<notin> ids) (idb_rows db)\<rparr>))"

lemma victims_expired: "r \<in> set (victims now limit db) \<Longrightarrow> r \<in> set (idb_rows db) \<and> ir_ExpiresAt r \<le> now"
  by (auto simp: victims_def dest!: in_set_takeD)

section \<open>The table\<close>

text \<open>What the primary key, the unique index and the sequence guarantee.\<close>

definition wf_table :: "idem_db \<Rightarrow> bool" where
  "wf_table db \<longleftrightarrow>
     distinct (map ir_ID (idb_rows db)) \<and> distinct (map ir_key (idb_rows db)) \<and>
     (\<forall>r \<in> set (idb_rows db). 0 < ir_ID r \<and> ir_ID r < idb_next db) \<and> 0 < idb_next db"

text \<open>The row with an identifier.\<close>

definition row_of :: "idem_db \<Rightarrow> int64 \<Rightarrow> IdempotencyRecord option" where
  "row_of db recID = find (\<lambda>r. ir_ID r = recID) (idb_rows db)"

lemma row_of_Some: "row_of db recID = Some r \<Longrightarrow> r \<in> set (idb_rows db) \<and> ir_ID r = recID"
  by (auto simp: row_of_def find_Some_iff)

lemma row_of_unique: "wf_table db \<Longrightarrow> r \<in> set (idb_rows db) \<Longrightarrow> row_of db (ir_ID r) = Some r"
proof -
  assume wf: "wf_table db" and r: "r \<in> set (idb_rows db)"
  then obtain x where x: "row_of db (ir_ID r) = Some x"
    by (cases "row_of db (ir_ID r)") (auto simp: row_of_def find_None_iff)
  moreover have "inj_on ir_ID (set (idb_rows db))" using wf by (simp add: wf_table_def distinct_map)
  ultimately show ?thesis using r row_of_Some [OF x] by (auto dest: inj_onD)
qed

lemma row_of_iff: "wf_table db \<Longrightarrow> row_of db recID = Some r \<longleftrightarrow> r \<in> set (idb_rows db) \<and> ir_ID r = recID"
  using row_of_Some row_of_unique by metis

lemma row_key_unique:
  "wf_table db \<Longrightarrow> r \<in> set (idb_rows db) \<Longrightarrow> r' \<in> set (idb_rows db) \<Longrightarrow> ir_key r = ir_key r' \<Longrightarrow> r = r'"
  by (auto simp: wf_table_def distinct_map dest: inj_onD)

lemma wf_table_create: "wf_table db \<Longrightarrow> wf_table (snd (CreateProcessing r db))"
  by (force simp: wf_table_def CreateProcessing_def Let_def ir_key_def)

lemma wf_table_update:
  assumes "wf_table db" "\<And>r. ir_ID (f r) = ir_ID r \<and> ir_key (f r) = ir_key r"
  shows "wf_table (snd (update_where P f db))"
proof -
  have "map ir_ID (map (\<lambda>r. if P r then f r else r) (idb_rows db)) = map ir_ID (idb_rows db)"
    "map ir_key (map (\<lambda>r. if P r then f r else r) (idb_rows db)) = map ir_key (idb_rows db)"
    using assms(2) by auto
  with assms show ?thesis by (auto simp: wf_table_def update_where_def simp del: map_map)
qed

lemma wf_table_delete: "wf_table db \<Longrightarrow> wf_table (snd (DeleteExpired now limit db))"
  by (auto simp: wf_table_def DeleteExpired_def Let_def distinct_map_filter)

lemma row_of_update:
  assumes "\<And>r. ir_ID (f r) = ir_ID r"
  shows "row_of (snd (update_where P f db)) recID = map_option (\<lambda>r. if P r then f r else r) (row_of db recID)"
proof -
  have "find (\<lambda>r. ir_ID r = recID) (map g rows) = map_option g (find (\<lambda>r. ir_ID r = recID) rows)"
    if "\<And>r. ir_ID (g r) = ir_ID r" for g rows
    using that by (induction rows) auto
  from this [of "\<lambda>r. if P r then f r else r"] assms show ?thesis
    by (simp add: row_of_def update_where_def)
qed

lemma find_append_old: "\<not> P x \<Longrightarrow> find P (xs @ [x]) = find P xs"
  by (induction xs) auto

lemma row_of_create_old: "recID < idb_next db \<Longrightarrow> row_of (snd (CreateProcessing r db)) recID = row_of db recID"
  by (simp add: row_of_def CreateProcessing_def Let_def find_append_old)

lemma update_where_found: "fst (update_where P f db) = (\<exists>r \<in> set (idb_rows db). P r)"
  by (simp add: update_where_def)

lemma next_update [simp]: "idb_next (snd (update_where P f db)) = idb_next db"
  by (simp add: update_where_def)

lemma next_delete [simp]: "idb_next (snd (DeleteExpired now limit db)) = idb_next db"
  by (simp add: DeleteExpired_def Let_def)

lemma next_create [simp]: "idb_next (snd (CreateProcessing r db)) = idb_next db + 1"
  by (simp add: CreateProcessing_def Let_def)

text \<open>A record that has not expired survives the deletion of the expired ones.\<close>

lemma row_of_delete:
  assumes "wf_table db" "row_of db recID = Some r" "now < ir_ExpiresAt r"
  shows "row_of (snd (DeleteExpired now limit db)) recID = Some r"
proof -
  let ?db = "snd (DeleteExpired now limit db)"
  have r: "r \<in> set (idb_rows db)" "ir_ID r = recID" using row_of_Some [OF assms(2)] by auto
  have "x = r" if "x \<in> set (idb_rows db)" "ir_ID x = recID" for x
    using row_of_unique [OF assms(1) that(1)] that(2) assms(2) by simp
  then have "ir_ID r \<notin> ir_ID ` set (victims now limit db)"
    using assms(3) r(2) by (metis imageE victims_expired not_less)
  then have "r \<in> set (idb_rows ?db)" using r(1) by (simp add: DeleteExpired_def Let_def)
  with r(2) wf_table_delete [OF assms(1)] show ?thesis by (auto simp: row_of_iff)
qed

lemma row_of_delete_sub:
  assumes "wf_table db" "row_of (snd (DeleteExpired now limit db)) recID = Some r"
  shows "row_of db recID = Some r"
  using row_of_Some [OF assms(2)] assms(1) by (simp add: row_of_iff DeleteExpired_def Let_def)

end
