(* ===== verification/Idempotency.thy ===== *)
theory Idempotency
  imports Idempotency_Repo Go_Values
begin

text \<open>
  The idempotency coordinator of \<open>internal/service/idempotency.go\<close>: a write request with an
  idempotency key is executed by the first caller that claims the key, and its stored response is
  replayed to the others.

  \<open>Execute\<close> is cut at its calls to the repository and to the executor: \<open>idem_pc\<close> is where a call
  stands and \<open>idem_next\<close> the code from there to the next cut, so that calls of any number of
  processes can be interleaved (\<open>idem_step\<close>).  A crashed process is one that takes no further
  step.  SHA-256, JSON encoding and the redaction of text that is not JSON are functions of the
  environment; metrics and audit logs are left out.
\<close>

section \<open>Configuration, options and errors\<close>

record IdempotencyConfig =
  ic_DefaultTTL :: int
  ic_SystemOperationTTL :: int
  ic_ProcessingTimeout :: int
  ic_FailedRetryBackoff :: int
  ic_MaxStoredResponseLen :: int
  ic_ObserveOnly :: bool

definition DefaultIdempotencyConfig :: IdempotencyConfig where
  "DefaultIdempotencyConfig =
     \<lparr>ic_DefaultTTL = 24 * hour, ic_SystemOperationTTL = hour, ic_ProcessingTimeout = 30 * second,
      ic_FailedRetryBackoff = 5 * second, ic_MaxStoredResponseLen = 64 * 1024, ic_ObserveOnly = True\<rparr>"

record IdempotencyExecuteOptions =
  ix_Scope :: gostr
  ix_ActorScope :: gostr
  ix_Method :: gostr
  ix_Route :: gostr
  ix_IdempotencyKey :: gostr
  ix_Payload :: goany
  ix_TTL :: int
  ix_RequireKey :: bool

record IdempotencyExecuteResult =
  ie_Data :: goany
  ie_Replayed :: bool

text \<open>The two conflicts carry the metadata \<open>retry_after\<close>; \<open>ExecutionFailed\<close> is the executor's own
  error with its reason.\<close>

datatype idem_error =
    ErrIdempotencyExecutorNil
  | ErrIdempotencyScopeRequired
  | ErrIdempotencyKeyRequired
  | ErrIdempotencyKeyInvalid
  | ErrIdempotencyKeyConflict
  | ErrIdempotencyInProgress "int option"
  | ErrIdempotencyRetryBackoff "int option"
  | ErrIdempotencyStoreUnavail
  | ErrIdempotencyInvalidPayload
  | ExecutionFailed gostr

record idem_env =
  ev_cfg :: IdempotencyConfig
  ev_repo :: bool
  ev_sha256 :: "gostr \<Rightarrow> gostr"
  ev_marshal :: "goany \<Rightarrow> gostr option"
  ev_unmarshal :: "gostr \<Rightarrow> goany option"
  ev_valid :: "gostr \<Rightarrow> bool"
  ev_redactPlain :: "gostr \<Rightarrow> gostr"

section \<open>Redaction\<close>

text \<open>\<open>internal/util/logredact/redact.go\<close>\<close>

definition defaultSensitiveKeys :: "gostr list" where
  "defaultSensitiveKeys =
     [''authorization_code'', ''code'', ''code_verifier'', ''access_token'', ''refresh_token'', ''id_token'',
      ''client_secret'', ''password'']"

definition maxRedactDepth :: nat where "maxRedactDepth = 32"

definition normalizeKey :: "gostr \<Rightarrow> gostr" where
  "normalizeKey key = map ascii_lower (trim_space key)"

definition isSensitiveKey :: "gostr \<Rightarrow> bool" where
  "isSensitiveKey key = (normalizeKey key \<in> set defaultSensitiveKeys)"

fun redactValueWithDepth :: "nat \<Rightarrow> goany \<Rightarrow> goany" where
  "redactValueWithDepth depth (GObject v) =
     (if depth > maxRedactDepth then GString ''<depth limit exceeded>''
      else GObject (map (\<lambda>(k, x). (k, if isSensitiveKey k then GString ''***'' else redactValueWithDepth (depth + 1) x)) v))"
| "redactValueWithDepth depth (GList v) =
     (if depth > maxRedactDepth then GString ''<depth limit exceeded>''
      else GList (map (redactValueWithDepth (depth + 1)) v))"
| "redactValueWithDepth depth v = (if depth > maxRedactDepth then GString ''<depth limit exceeded>'' else v)"

definition RedactJSON :: "idem_env \<Rightarrow> gostr \<Rightarrow> gostr" where
  "RedactJSON E raw =
     (if raw = [] then []
      else case ev_unmarshal E raw of
             None \<Rightarrow> ''<non-json payload redacted>''
           | Some v \<Rightarrow> (case ev_marshal E (redactValueWithDepth 0 v) of None \<Rightarrow> ''<redacted>'' | Some s \<Rightarrow> s))"

definition RedactText :: "idem_env \<Rightarrow> gostr \<Rightarrow> gostr" where
  "RedactText E text =
     (let input = trim_space text
      in if input = [] then []
         else if ev_valid E input then RedactJSON E input
         else ev_redactPlain E input)"

section \<open>Keys, fingerprints and stored responses\<close>

definition NormalizeIdempotencyKey :: "gostr \<Rightarrow> idem_error + gostr" where
  "NormalizeIdempotencyKey raw =
     (let key = trim_space raw
      in if key = [] then Inr []
         else if length key > 128 then Inl ErrIdempotencyKeyInvalid
         else if list_ex (\<lambda>c. (of_char c :: nat) < 33 \<or> (of_char c :: nat) > 126) key then Inl ErrIdempotencyKeyInvalid
         else Inr key)"

definition HashIdempotencyKey :: "idem_env \<Rightarrow> gostr \<Rightarrow> gostr" where
  "HashIdempotencyKey E key = ev_sha256 E key"

definition BuildIdempotencyFingerprint :: "idem_env \<Rightarrow> gostr \<Rightarrow> gostr \<Rightarrow> gostr \<Rightarrow> goany \<Rightarrow> gostr option" where
  "BuildIdempotencyFingerprint E meth route actorScope payload =
     (let meth = (if meth = [] then ''POST'' else meth);
          route = (if route = [] then ''/'' else route);
          actorScope = (if actorScope = [] then ''anonymous'' else actorScope)
      in case ev_marshal E payload of
           None \<Rightarrow> None
         | Some raw \<Rightarrow> Some (ev_sha256 E (to_upper meth @ [CHR 0x0A] @ route @ [CHR 0x0A] @ actorScope @ [CHR 0x0A] @ raw)))"

text \<open>Whole seconds of a duration, towards zero, and at least one.\<close>

definition retryAfter :: "time option \<Rightarrow> time \<Rightarrow> int option" where
  "retryAfter lockedUntil now =
     (case lockedUntil of
        None \<Rightarrow> None
      | Some t \<Rightarrow> let sec = (if t < now then - ((now - t) div second) else (t - now) div second)
                  in Some (if sec \<le> 0 then 1 else sec))"

definition marshalStoredResponse :: "idem_env \<Rightarrow> goany \<Rightarrow> gostr option" where
  "marshalStoredResponse E d =
     (case ev_marshal E d of
        None \<Rightarrow> None
      | Some raw \<Rightarrow>
          let redacted = RedactText E raw;
              m = ic_MaxStoredResponseLen (ev_cfg E)
          in Some (if m > 0 \<and> int (length redacted) > m then take (nat m) redacted @ ''...(truncated)'' else redacted))"

definition decodeStoredResponse :: "idem_env \<Rightarrow> gostr option \<Rightarrow> goany option" where
  "decodeStoredResponse E stored =
     (case stored of
        None \<Rightarrow> Some (GObject [])
      | Some s \<Rightarrow> if trim_space s = [] then Some (GObject []) else ev_unmarshal E s)"

section \<open>One call of Execute\<close>

record idem_call =
  cl_scope :: gostr
  cl_keyHash :: gostr
  cl_fingerprint :: gostr
  cl_now :: time
  cl_lockedUntil :: time
  cl_expiresAt :: time

definition cl_key :: "idem_call \<Rightarrow> gostr \<times> gostr" where
  "cl_key c = (cl_scope c, cl_keyHash c)"

type_synonym idem_answer = "idem_error + IdempotencyExecuteResult"

text \<open>Where a call stands: before which repository call, in the executor, or returned.\<close>

datatype idem_pc =
    Creating
  | Loading
  | ReclaimingExpired IdempotencyRecord
  | Reloading
  | ReclaimingFailed IdempotencyRecord
  | Executing int64
  | MarkingFailed int64 gostr time
  | MarkingSucceeded int64 goany gostr
  | Returned idem_answer

text \<open>From the start of \<open>Execute\<close> to its first repository call; without a key the executor runs
  unguarded and the call ends with what it returns.\<close>

datatype idem_start = Refused idem_error | Unguarded | Guarded idem_call

definition startExecute :: "idem_env \<Rightarrow> bool \<Rightarrow> IdempotencyExecuteOptions \<Rightarrow> time \<Rightarrow> idem_start" where
  "startExecute E hasExecutor opts now =
     (if \<not> hasExecutor then Refused ErrIdempotencyExecutorNil
      else case NormalizeIdempotencyKey (ix_IdempotencyKey opts) of
             Inl e \<Rightarrow> Refused e
           | Inr key \<Rightarrow>
               if key = [] then (if ix_RequireKey opts \<and> \<not> ic_ObserveOnly (ev_cfg E) then Refused ErrIdempotencyKeyRequired
                                 else Unguarded)
               else if \<not> ev_repo E then Refused ErrIdempotencyStoreUnavail
               else if ix_Scope opts = [] then Refused ErrIdempotencyScopeRequired
               else case BuildIdempotencyFingerprint E (ix_Method opts) (ix_Route opts) (ix_ActorScope opts) (ix_Payload opts) of
                      None \<Rightarrow> Refused ErrIdempotencyInvalidPayload
                    | Some fingerprint \<Rightarrow>
                        let ttl = (if ix_TTL opts \<le> 0 then ic_DefaultTTL (ev_cfg E) else ix_TTL opts)
                        in Guarded \<lparr>cl_scope = ix_Scope opts, cl_keyHash = HashIdempotencyKey E key,
                                    cl_fingerprint = fingerprint, cl_now = now,
                                    cl_lockedUntil = now + ic_ProcessingTimeout (ev_cfg E), cl_expiresAt = now + ttl\<rparr>)"

definition newRecord :: "idem_call \<Rightarrow> IdempotencyRecord" where
  "newRecord c =
     \<lparr>ir_ID = 0, ir_Scope = cl_scope c, ir_IdempotencyKeyHash = cl_keyHash c, ir_RequestFingerprint = cl_fingerprint c,
      ir_Status = IdempotencyStatusProcessing, ir_ResponseStatus = None, ir_ResponseBody = None, ir_ErrorReason = None,
      ir_LockedUntil = Some (cl_lockedUntil c), ir_ExpiresAt = cl_expiresAt c\<rparr>"

definition storeUnavailable :: idem_pc where
  "storeUnavailable = Returned (Inl ErrIdempotencyStoreUnavail)"

definition claimed_pc :: "int64 \<Rightarrow> idem_pc" where
  "claimed_pc recID = (if recID = 0 then storeUnavailable else Executing recID)"

text \<open>The \<open>switch\<close> on the status of the record that exists.\<close>

definition onExisting :: "idem_env \<Rightarrow> idem_call \<Rightarrow> IdempotencyRecord \<Rightarrow> idem_pc" where
  "onExisting E c existing =
     (if ir_Status existing = IdempotencyStatusSucceeded
      then (case decodeStoredResponse E (ir_ResponseBody existing) of
              None \<Rightarrow> storeUnavailable
            | Some d \<Rightarrow> Returned (Inr \<lparr>ie_Data = d, ie_Replayed = True\<rparr>))
      else if ir_Status existing = IdempotencyStatusProcessing
      then Returned (Inl (ErrIdempotencyInProgress (retryAfter (ir_LockedUntil existing) (cl_now c))))
      else if ir_Status existing = IdempotencyStatusFailedRetryable
      then (if lock_free (cl_now c) existing then ReclaimingFailed existing
            else Returned (Inl (ErrIdempotencyRetryBackoff (retryAfter (ir_LockedUntil existing) (cl_now c)))))
      else Returned (Inl ErrIdempotencyKeyConflict))"

definition onLoaded :: "idem_env \<Rightarrow> idem_call \<Rightarrow> bool \<Rightarrow> IdempotencyRecord option \<Rightarrow> idem_pc" where
  "onLoaded E c again found =
     (case found of
        None \<Rightarrow> storeUnavailable
      | Some existing \<Rightarrow>
          if ir_RequestFingerprint existing \<noteq> cl_fingerprint c then Returned (Inl ErrIdempotencyKeyConflict)
          else if \<not> again \<and> \<not> ir_ExpiresAt existing > cl_now c then ReclaimingExpired existing
          else onExisting E c existing)"

text \<open>A statement gives \<open>None\<close> when its caller gets an error.\<close>

definition sql :: "io \<Rightarrow> ('d \<Rightarrow> 'a \<times> 'd) \<Rightarrow> 'd \<Rightarrow> 'a option \<times> 'd" where
  "sql i f db = (case run_io i f db of (Inl e, db') \<Rightarrow> (None, db') | (Inr a, db') \<Rightarrow> (Some a, db'))"

text \<open>What the executor did: its result (the reason of its error) and when it ended.\<close>

type_synonym idem_execution = "(gostr + goany) \<times> time"

definition idem_next :: "idem_env \<Rightarrow> idem_call \<Rightarrow> io \<Rightarrow> idem_execution \<Rightarrow> idem_pc \<Rightarrow> idem_db \<Rightarrow> idem_pc \<times> idem_db" where
  "idem_next E c i x pc db =
     (case pc of
        Creating \<Rightarrow>
          (case sql i (CreateProcessing (newRecord c)) db of
             (None, db') \<Rightarrow> (storeUnavailable, db')
           | (Some (Some recID), db') \<Rightarrow> (claimed_pc recID, db')
           | (Some None, db') \<Rightarrow> (Loading, db'))
      | Loading \<Rightarrow>
          (case sql i (GetByScopeAndKeyHash (cl_scope c) (cl_keyHash c)) db of
             (None, db') \<Rightarrow> (storeUnavailable, db')
           | (Some found, db') \<Rightarrow> (onLoaded E c False found, db'))
      | ReclaimingExpired existing \<Rightarrow>
          (case sql i (TryReclaim (ir_ID existing) (ir_Status existing) (cl_now c) (cl_lockedUntil c) (cl_expiresAt c)) db of
             (None, db') \<Rightarrow> (storeUnavailable, db')
           | (Some True, db') \<Rightarrow> (claimed_pc (ir_ID existing), db')
           | (Some False, db') \<Rightarrow> (Reloading, db'))
      | Reloading \<Rightarrow>
          (case sql i (GetByScopeAndKeyHash (cl_scope c) (cl_keyHash c)) db of
             (None, db') \<Rightarrow> (storeUnavailable, db')
           | (Some found, db') \<Rightarrow> (onLoaded E c True found, db'))
      | ReclaimingFailed existing \<Rightarrow>
          (case sql i (TryReclaim (ir_ID existing) IdempotencyStatusFailedRetryable (cl_now c) (cl_lockedUntil c) (cl_expiresAt c)) db of
             (None, db') \<Rightarrow> (storeUnavailable, db')
           | (Some True, db') \<Rightarrow> (claimed_pc (ir_ID existing), db')
           | (Some False, db') \<Rightarrow>
               (Returned (Inl (ErrIdempotencyInProgress (retryAfter (ir_LockedUntil existing) (cl_now c)))), db'))
      | Executing recID \<Rightarrow>
          (case x of
             (Inl reason, ended) \<Rightarrow> (MarkingFailed recID reason (ended + ic_FailedRetryBackoff (ev_cfg E)), db)
           | (Inr d, ended) \<Rightarrow>
               (case marshalStoredResponse E d of
                  None \<Rightarrow> (storeUnavailable, db)
                | Some body \<Rightarrow> (MarkingSucceeded recID d body, db)))
      | MarkingFailed recID reason backoffUntil \<Rightarrow>
          (Returned (Inl (ExecutionFailed reason)),
           snd (sql i (MarkFailedRetryable recID (if reason = [] then ''EXECUTION_FAILED'' else reason) backoffUntil
                        (cl_expiresAt c)) db))
      | MarkingSucceeded recID d body \<Rightarrow>
          (case sql i (MarkSucceeded recID 200 body (cl_expiresAt c)) db of
             (None, db') \<Rightarrow> (storeUnavailable, db')
           | (Some _, db') \<Rightarrow> (Returned (Inr \<lparr>ie_Data = d, ie_Replayed = False\<rparr>), db'))
      | Returned r \<Rightarrow> (Returned r, db))"

text \<open>A call run to its end without interruption; \<open>ios k\<close> is the outcome of its \<open>k\<close>-th step.\<close>

fun pc_rank :: "idem_pc \<Rightarrow> nat" where
  "pc_rank Creating = 7"
| "pc_rank Loading = 6"
| "pc_rank (ReclaimingExpired r) = 5"
| "pc_rank Reloading = 4"
| "pc_rank (ReclaimingFailed r) = 3"
| "pc_rank (Executing i) = 2"
| "pc_rank (MarkingFailed i reason t) = 1"
| "pc_rank (MarkingSucceeded i d body) = 1"
| "pc_rank (Returned r) = 0"

lemma claimed_rank: "pc_rank (claimed_pc i) \<le> 2"
  by (simp add: claimed_pc_def storeUnavailable_def)

lemma onExisting_rank: "pc_rank (onExisting E c r) \<le> 3"
  by (auto simp: onExisting_def storeUnavailable_def split: option.split)

lemma onLoaded_rank: "pc_rank (onLoaded E c again found) \<le> (if again then 3 else 5)"
proof -
  have "pc_rank (onExisting E c r) \<le> 5" for r using onExisting_rank [of E c r] by linarith
  then show ?thesis using onExisting_rank [of E c] by (auto simp: onLoaded_def storeUnavailable_def split: option.split)
qed

lemma rank_less [simp]:
  "pc_rank storeUnavailable = 0"
  "pc_rank (claimed_pc i) < 7" "pc_rank (claimed_pc i) < 5" "pc_rank (claimed_pc i) < 3"
  "pc_rank (onLoaded E c False found) < 6" "pc_rank (onLoaded E c True found) < 4"
  using claimed_rank [of i] onLoaded_rank [of E c False found] onLoaded_rank [of E c True found]
  by (simp_all add: storeUnavailable_def)

lemma idem_next_rank: "\<nexists>r. pc = Returned r \<Longrightarrow> pc_rank (fst (idem_next E c i x pc db)) < pc_rank pc"
  by (cases pc) (simp_all add: idem_next_def split: prod.split option.split bool.split sum.split)

lemmas idem_next_ranks =
  idem_next_rank [where pc = Creating, simplified] idem_next_rank [where pc = Loading, simplified]
  idem_next_rank [where pc = "ReclaimingExpired r" for r, simplified] idem_next_rank [where pc = Reloading, simplified]
  idem_next_rank [where pc = "ReclaimingFailed r" for r, simplified] idem_next_rank [where pc = "Executing k" for k, simplified]
  idem_next_rank [where pc = "MarkingFailed k reason b" for k reason b, simplified]
  idem_next_rank [where pc = "MarkingSucceeded k d body" for k d body, simplified]

function runCall :: "idem_env \<Rightarrow> idem_call \<Rightarrow> (nat \<Rightarrow> io) \<Rightarrow> idem_execution \<Rightarrow> nat \<Rightarrow> idem_pc \<Rightarrow> idem_db
    \<Rightarrow> idem_answer \<times> bool \<times> idem_db" where
  "runCall E c ios x k pc db =
     (case pc of
        Returned r \<Rightarrow> (r, False, db)
      | _ \<Rightarrow> (case idem_next E c (ios k) x pc db of
                (pc', db') \<Rightarrow>
                  (case runCall E c ios x (Suc k) pc' db' of
                     (r, executed, db'') \<Rightarrow> (r, executed \<or> (\<exists>i. pc = Executing i), db''))))"
  by pat_completeness auto
termination
  by (relation "measure (\<lambda>(E, c, ios, x, k, pc, db). pc_rank pc)") (auto simp: split_beta idem_next_ranks)

declare runCall.simps [simp del]

text \<open>The answer, whether the executor ran, and the table.\<close>

definition Execute ::
    "idem_env \<Rightarrow> bool \<Rightarrow> IdempotencyExecuteOptions \<Rightarrow> time \<Rightarrow> (nat \<Rightarrow> io) \<Rightarrow> idem_execution \<Rightarrow> idem_db
     \<Rightarrow> idem_answer \<times> bool \<times> idem_db" where
  "Execute E hasExecutor opts now ios x db =
     (case startExecute E hasExecutor opts now of
        Refused e \<Rightarrow> (Inl e, False, db)
      | Unguarded \<Rightarrow>
          (case fst x of
             Inl reason \<Rightarrow> (Inl (ExecutionFailed reason), True, db)
           | Inr d \<Rightarrow> (Inr \<lparr>ie_Data = d, ie_Replayed = False\<rparr>, True, db))
      | Guarded c \<Rightarrow> runCall E c ios x 0 Creating db)"

section \<open>Many calls\<close>

text \<open>
  The processes share one clock, which each call reads when it begins.  \<open>is_log\<close> records what the
  executors returned.
\<close>

record idem_sys =
  is_clock :: time
  is_db :: idem_db
  is_calls :: "(idem_call \<times> idem_pc) list"
  is_log :: "(idem_call \<times> (gostr + goany)) list"

text \<open>A prompt call claims before its lock ends and marks its result before its record expires.\<close>

fun timely :: "time \<Rightarrow> idem_call \<Rightarrow> idem_pc \<Rightarrow> bool" where
  "timely t c Creating = (t < cl_lockedUntil c)"
| "timely t c (ReclaimingExpired r) = (t < cl_lockedUntil c)"
| "timely t c (ReclaimingFailed r) = (t < cl_lockedUntil c)"
| "timely t c (MarkingFailed i reason b) = (t < cl_expiresAt c)"
| "timely t c (MarkingSucceeded i d body) = (t < cl_expiresAt c)"
| "timely t c pc = True"

inductive idem_step :: "bool \<Rightarrow> idem_env \<Rightarrow> idem_sys \<Rightarrow> idem_sys \<Rightarrow> bool" for prompt E where
  wait: "is_clock s \<le> t \<Longrightarrow> idem_step prompt E s (s\<lparr>is_clock := t\<rparr>)"
| start: "startExecute E True opts (is_clock s) = Guarded c \<Longrightarrow>
    idem_step prompt E s (s\<lparr>is_calls := is_calls s @ [(c, Creating)]\<rparr>)"
| call: "p < length (is_calls s) \<Longrightarrow> is_calls s ! p = (c, pc) \<Longrightarrow> (prompt \<Longrightarrow> timely (is_clock s) c pc) \<Longrightarrow>
    idem_next E c i (res, is_clock s) pc (is_db s) = (pc', db') \<Longrightarrow>
    idem_step prompt E s
      (s\<lparr>is_db := db', is_calls := (is_calls s)[p := (c, pc')],
         is_log := is_log s @ (case pc of Executing recID \<Rightarrow> [(c, res)] | _ \<Rightarrow> [])\<rparr>)"
| cleanup: "now \<le> is_clock s \<Longrightarrow>
    idem_step prompt E s (s\<lparr>is_db := snd (sql i (DeleteExpired now limit) (is_db s))\<rparr>)"

inductive_cases idem_stepE: "idem_step prompt E s s'"

inductive idem_run :: "bool \<Rightarrow> idem_env \<Rightarrow> idem_sys \<Rightarrow> bool" for prompt E where
  empty: "idem_run prompt E \<lparr>is_clock = t, is_db = \<lparr>idb_rows = [], idb_next = 1\<rparr>, is_calls = [], is_log = []\<rparr>"
| step: "idem_run prompt E s \<Longrightarrow> idem_step prompt E s s' \<Longrightarrow> idem_run prompt E s'"

section \<open>Which record a call is about\<close>

text \<open>The record that a call has claimed, and the one it is about to reclaim.\<close>

fun holds :: "idem_pc \<Rightarrow> int64 option" where
  "holds (Executing i) = Some i"
| "holds (MarkingFailed i reason b) = Some i"
| "holds (MarkingSucceeded i d body) = Some i"
| "holds pc = None"

fun wants :: "idem_pc \<Rightarrow> IdempotencyRecord option" where
  "wants (ReclaimingExpired r) = Some r"
| "wants (ReclaimingFailed r) = Some r"
| "wants pc = None"

text \<open>An identifier that, while its record exists, belongs to the key and fingerprint of a call.\<close>

definition owns :: "idem_db \<Rightarrow> idem_call \<Rightarrow> int64 \<Rightarrow> bool" where
  "owns db c recID \<longleftrightarrow> recID < idb_next db \<and>
     (\<forall>r. row_of db recID = Some r \<longrightarrow> ir_key r = cl_key c \<and> ir_RequestFingerprint r = cl_fingerprint c)"

lemma owns_update:
  assumes "owns db c recID"
    "\<And>r. ir_ID (f r) = ir_ID r \<and> ir_key (f r) = ir_key r \<and> ir_RequestFingerprint (f r) = ir_RequestFingerprint r"
  shows "owns (snd (update_where P f db)) c recID"
  using assms by (auto simp: owns_def row_of_update)

lemma owns_create: "owns db c recID \<Longrightarrow> owns (snd (CreateProcessing r db)) c recID"
  by (simp add: owns_def row_of_create_old)

lemma owns_delete: "wf_table db \<Longrightarrow> owns db c recID \<Longrightarrow> owns (snd (DeleteExpired now limit db)) c recID"
  by (auto simp: owns_def dest!: row_of_delete_sub)

lemma row_of_created:
  assumes "wf_table db" "CreateProcessing (newRecord c) db = (Some recID, db')"
  shows "row_of db' recID = Some ((newRecord c)\<lparr>ir_ID := recID\<rparr>)" and "recID = idb_next db" and "0 < recID"
    and "recID < idb_next db'"
proof -
  from assms(2) have *: "recID = idb_next db"
    "db' = db\<lparr>idb_next := idb_next db + 1, idb_rows := idb_rows db @ [(newRecord c)\<lparr>ir_ID := recID\<rparr>]\<rparr>"
    by (auto simp: CreateProcessing_def newRecord_def Let_def split: if_splits)
  have "wf_table db'" using wf_table_create [OF assms(1), of "newRecord c"] assms(2) by simp
  with * show "row_of db' recID = Some ((newRecord c)\<lparr>ir_ID := recID\<rparr>)" by (simp add: row_of_iff)
  show "recID = idb_next db" "0 < recID" "recID < idb_next db'" using * assms(1) by (simp_all add: wf_table_def)
qed

lemma newRecord_key [simp]: "ir_key ((newRecord c)\<lparr>ir_ID := i\<rparr>) = cl_key c"
  by (simp add: newRecord_def ir_key_def cl_key_def)

lemma owns_created: "wf_table db \<Longrightarrow> CreateProcessing (newRecord c) db = (Some recID, db') \<Longrightarrow> owns db' c recID"
  using row_of_created [of db c recID db'] by (simp add: owns_def) (simp add: newRecord_def)

lemma owns_found:
  assumes "wf_table db" "GetByScopeAndKeyHash (cl_scope c) (cl_keyHash c) db = (Some r, db')"
    "ir_RequestFingerprint r = cl_fingerprint c"
  shows "owns db c (ir_ID r)" and "r \<in> set (idb_rows db)" and "ir_key r = cl_key c"
proof -
  show r: "r \<in> set (idb_rows db)" "ir_key r = cl_key c"
    using assms(2) by (auto simp: GetByScopeAndKeyHash_def find_Some_iff cl_key_def)
  with assms(1,3) show "owns db c (ir_ID r)"
    by (auto simp: owns_def row_of_unique wf_table_def)
qed

text \<open>Every statement keeps the table well formed and the owners of its identifiers.\<close>

definition table_step :: "idem_db \<Rightarrow> idem_db \<Rightarrow> bool" where
  "table_step db db' \<longleftrightarrow> (wf_table db \<longrightarrow> wf_table db' \<and> (\<forall>c recID. owns db c recID \<longrightarrow> owns db' c recID))"

lemma table_step_refl [simp]: "table_step db db"
  by (simp add: table_step_def)

lemma table_step_update:
  assumes "\<And>r. ir_ID (f r) = ir_ID r \<and> ir_key (f r) = ir_key r \<and> ir_RequestFingerprint (f r) = ir_RequestFingerprint r"
  shows "table_step db (snd (update_where P f db))"
  unfolding table_step_def using wf_table_update owns_update assms by simp

lemma table_steps [simp]:
  "table_step db (snd (CreateProcessing r db))"
  "table_step db (snd (GetByScopeAndKeyHash scope hash db))"
  "table_step db (snd (TryReclaim recID st now l e db))"
  "table_step db (snd (MarkSucceeded recID status body e db))"
  "table_step db (snd (MarkFailedRetryable recID reason l e db))"
  "table_step db (snd (DeleteExpired now limit db))"
proof -
  show "table_step db (snd (CreateProcessing r db))" by (simp add: table_step_def wf_table_create owns_create)
  show "table_step db (snd (DeleteExpired now limit db))" by (simp add: table_step_def wf_table_delete owns_delete)
  show "table_step db (snd (GetByScopeAndKeyHash scope hash db))" by (simp add: GetByScopeAndKeyHash_def)
qed (auto simp: TryReclaim_def MarkSucceeded_def MarkFailedRetryable_def ir_key_def intro!: table_step_update)

lemma snd_sql: "snd (sql i f db) = (if i = Lost then db else snd (f db))"
  using run_io_snd [of i f db] by (auto simp: sql_def split: prod.splits sum.splits)

lemma sql_Some: "sql i f db = (Some a, db') \<longleftrightarrow> i = Answered \<and> f db = (a, db')"
  by (cases i) (auto simp: sql_def run_io_def split: prod.splits)

lemma table_step_sql: "table_step db (snd (f db)) \<Longrightarrow> table_step db (snd (sql i f db))"
  by (simp add: snd_sql)

end
