(* ===== verification/Idempotency_Safety.thy ===== *)
theory Idempotency_Safety
  imports Idempotency
begin

text \<open>
  What idempotent execution promises under any interleaving of calls, lost statements and
  cleanups: a replayed answer is the stored answer of an execution of the same request, and, as
  long as calls are prompt, no two executions of a key are live at the same time.  Then what one
  undisturbed call does, and where the promise ends.
\<close>

section \<open>Owners\<close>

lemma idem_next_table: "table_step db (snd (idem_next E c i x pc db))"
proof -
  have *: "sql i f db = (a, db') \<Longrightarrow> table_step db (snd (f db)) \<Longrightarrow> table_step db db'" for f :: "idem_db \<Rightarrow> 'b \<times> idem_db" and a db'
    using table_step_sql [of db f i] by simp
  show ?thesis
    by (cases pc) (auto simp: idem_next_def table_step_sql split: prod.split option.split bool.split sum.split dest!: *)
qed

lemma no_claim [simp]:
  "holds storeUnavailable = None" "wants storeUnavailable = None"
  "holds (onExisting E c r) = None" "holds (onLoaded E c again found) = None" "wants (claimed_pc k) = None"
  by (auto simp: storeUnavailable_def onExisting_def onLoaded_def claimed_pc_def split: option.split)

lemma holds_claimed [simp]: "holds (claimed_pc k) = (if k = 0 then None else Some k)"
  by (simp add: claimed_pc_def)

lemma wants_onLoaded:
  "wants (onLoaded E c again found) = Some r \<Longrightarrow> found = Some r \<and> ir_RequestFingerprint r = cl_fingerprint c"
  by (auto simp: onLoaded_def onExisting_def storeUnavailable_def split: option.splits if_splits)

definition own_pc :: "idem_db \<Rightarrow> idem_call \<Rightarrow> idem_pc \<Rightarrow> bool" where
  "own_pc db c pc \<longleftrightarrow> (\<forall>k. holds pc = Some k \<longrightarrow> owns db c k) \<and> (\<forall>r. wants pc = Some r \<longrightarrow> owns db c (ir_ID r))"

lemma own_pc_table: "table_step db db' \<Longrightarrow> wf_table db \<Longrightarrow> own_pc db c pc \<Longrightarrow> own_pc db' c pc"
  by (auto simp: own_pc_def table_step_def)

lemma own_pc_none: "holds pc = None \<Longrightarrow> wants pc = None \<Longrightarrow> own_pc db c pc"
  by (simp add: own_pc_def)

lemma own_pc_loaded:
  assumes "wf_table db" "GetByScopeAndKeyHash (cl_scope c) (cl_keyHash c) db = (found, db')"
  shows "own_pc db' c (onLoaded E c again found)"
proof -
  have "db' = db" using assms(2) by (simp add: GetByScopeAndKeyHash_def)
  moreover have "owns db c (ir_ID r)" if "wants (onLoaded E c again found) = Some r" for r
    using wants_onLoaded [OF that] owns_found(1) [OF assms(1)] assms(2) by blast
  ultimately show ?thesis by (simp add: own_pc_def)
qed

lemma own_pc_next:
  assumes wf: "wf_table db" and own: "own_pc db c pc" and nxt: "idem_next E c i x pc db = (pc', db')"
  shows "own_pc db' c pc'"
proof -
  have step: "table_step db db'" using idem_next_table [of db E c i x pc] nxt by simp
  have kept: "own_pc db' c pc" by (rule own_pc_table [OF step wf own])
  show ?thesis
  proof (cases pc)
    case Creating
    then show ?thesis
      using nxt owns_created [OF wf]
      by (auto simp: idem_next_def own_pc_def sql_Some split: prod.splits option.splits if_splits)
  next
    case Loading
    then show ?thesis using nxt own_pc_loaded [OF wf]
      by (auto simp: idem_next_def own_pc_none sql_Some split: prod.splits option.splits)
  next
    case Reloading
    then show ?thesis using nxt own_pc_loaded [OF wf]
      by (auto simp: idem_next_def own_pc_none sql_Some split: prod.splits option.splits)
  qed (use nxt kept in \<open>auto simp: idem_next_def own_pc_def split: prod.splits option.splits bool.splits sum.splits if_splits\<close>)
qed

text \<open>What holds of a run whether or not its calls are prompt.\<close>

definition owned :: "idem_sys \<Rightarrow> bool" where
  "owned s \<longleftrightarrow> wf_table (is_db s) \<and>
     (\<forall>x \<in> set (is_calls s). cl_now (fst x) \<le> is_clock s \<and> own_pc (is_db s) (fst x) (snd x))"

lemma startExecute_Guarded:
  "startExecute E ex opts now = Guarded c \<Longrightarrow>
     cl_now c = now \<and> cl_lockedUntil c = now + ic_ProcessingTimeout (ev_cfg E) \<and>
     (ix_Scope opts = cl_scope c)"
  by (auto simp: startExecute_def Let_def split: if_splits sum.splits option.splits)

lemma owned_step:
  assumes "idem_step prompt E s s'" "owned s"
  shows "owned s'"
  using assms(1)
proof (cases rule: idem_step.cases)
  case (call p c pc i res pc' db')
  have mem: "(c, pc) \<in> set (is_calls s)" using call(2,3) by (metis nth_mem)
  have step: "table_step (is_db s) db'" using idem_next_table [of "is_db s" E c i "(res, is_clock s)" pc] call(5) by simp
  have wf: "wf_table (is_db s)" "wf_table db'" using assms(2) step by (auto simp: owned_def table_step_def)
  have "own_pc db' c pc'" using own_pc_next [OF wf(1) _ call(5)] assms(2) mem by (auto simp: owned_def)
  moreover have "x \<in> set (is_calls s) \<Longrightarrow> own_pc db' (fst x) (snd x)" for x
    using own_pc_table [OF step wf(1)] assms(2) by (simp add: owned_def)
  moreover have "cl_now c \<le> is_clock s" using assms(2) mem by (auto simp: owned_def)
  ultimately show ?thesis
    using assms(2) wf call(1) by (auto simp: owned_def dest!: set_update_subset_insert [THEN subsetD])
next
  case (cleanup now i limit)
  have step: "table_step (is_db s) (snd (sql i (DeleteExpired now limit) (is_db s)))" by (simp add: table_step_sql)
  with assms(2) own_pc_table [OF step] cleanup(1) show ?thesis by (auto simp: owned_def table_step_def)
next
  case (wait t)
  with assms(2) show ?thesis by (fastforce simp: owned_def)
next
  case (start opts c)
  with assms(2) startExecute_Guarded [OF start(2)] show ?thesis by (auto simp: owned_def own_pc_none)
qed

lemma owned_run: "idem_run prompt E s \<Longrightarrow> owned s"
  by (induction rule: idem_run.induct) (auto simp: owned_step, auto simp: owned_def wf_table_def)

section \<open>Replayed answers\<close>

text \<open>The log holds an execution of the key and fingerprint whose stored response is \<open>body\<close>.\<close>

definition executed_as :: "idem_env \<Rightarrow> (idem_call \<times> (gostr + goany)) list \<Rightarrow> gostr \<times> gostr \<Rightarrow> gostr \<Rightarrow> gostr \<Rightarrow> bool" where
  "executed_as E runs key fingerprint body \<longleftrightarrow>
     (\<exists>c d. (c, Inr d) \<in> set runs \<and> cl_key c = key \<and> cl_fingerprint c = fingerprint \<and> marshalStoredResponse E d = Some body)"

definition backed :: "idem_env \<Rightarrow> (idem_call \<times> (gostr + goany)) list \<Rightarrow> IdempotencyRecord \<Rightarrow> bool" where
  "backed E runs r \<longleftrightarrow> ir_Status r \<noteq> IdempotencyStatusSucceeded \<or>
     (\<exists>body. ir_ResponseBody r = Some body \<and> executed_as E runs (ir_key r) (ir_RequestFingerprint r) body)"

fun accounted :: "idem_env \<Rightarrow> (idem_call \<times> (gostr + goany)) list \<Rightarrow> idem_call \<Rightarrow> idem_pc \<Rightarrow> bool" where
  "accounted E runs c (MarkingSucceeded k d body) \<longleftrightarrow> (c, Inr d) \<in> set runs \<and> marshalStoredResponse E d = Some body"
| "accounted E runs c (Returned (Inr res)) \<longleftrightarrow>
     (if ie_Replayed res
      then \<exists>body. executed_as E runs (cl_key c) (cl_fingerprint c) body \<and> decodeStoredResponse E (Some body) = Some (ie_Data res)
      else (c, Inr (ie_Data res)) \<in> set runs)"
| "accounted E runs c pc \<longleftrightarrow> True"

definition recorded :: "idem_env \<Rightarrow> idem_sys \<Rightarrow> bool" where
  "recorded E s \<longleftrightarrow> (\<forall>r \<in> set (idb_rows (is_db s)). backed E (is_log s) r) \<and>
     (\<forall>x \<in> set (is_calls s). accounted E (is_log s) (fst x) (snd x))"

lemma executed_as_mono: "executed_as E runs key fp body \<Longrightarrow> set runs \<subseteq> set runs' \<Longrightarrow> executed_as E runs' key fp body"
  unfolding executed_as_def by blast

lemma backed_mono: "backed E runs r \<Longrightarrow> set runs \<subseteq> set runs' \<Longrightarrow> backed E runs' r"
  unfolding backed_def using executed_as_mono by blast

lemma accounted_mono:
  assumes "accounted E runs c pc" "set runs \<subseteq> set runs'"
  shows "accounted E runs' c pc"
  using assms executed_as_mono [of E runs "cl_key c" "cl_fingerprint c", OF _ assms(2)]
  by (cases "(E, runs, c, pc)" rule: accounted.cases) (auto split: if_splits)

lemma accounted_trivial [simp]: "accounted E runs c storeUnavailable" "accounted E runs c (claimed_pc k)"
  by (simp_all add: storeUnavailable_def claimed_pc_def)

lemma accounted_loaded:
  assumes "GetByScopeAndKeyHash (cl_scope c) (cl_keyHash c) db = (found, db')" "\<forall>r \<in> set (idb_rows db). backed E runs r"
  shows "accounted E runs c (onLoaded E c again found)"
proof -
  have "accounted E runs c (onExisting E c r)" if r: "found = Some r" "ir_RequestFingerprint r = cl_fingerprint c" for r
  proof -
    have "r \<in> set (idb_rows db)" "ir_key r = cl_key c"
      using assms(1) r(1) by (auto simp: GetByScopeAndKeyHash_def find_Some_iff cl_key_def)
    with assms(2) r(2) have "ir_Status r \<noteq> IdempotencyStatusSucceeded \<or>
        (\<exists>body. ir_ResponseBody r = Some body \<and> executed_as E runs (cl_key c) (cl_fingerprint c) body)"
      by (metis backed_def)
    then show ?thesis by (auto simp: onExisting_def split: option.split)
  qed
  then show ?thesis by (auto simp: onLoaded_def split: option.split)
qed

lemma accounted_next:
  assumes "idem_next E c i (res, t) pc db = (pc', db')" "\<forall>r \<in> set (idb_rows db). backed E runs r" "accounted E runs c pc"
  shows "accounted E (runs @ (case pc of Executing k \<Rightarrow> [(c, res)] | _ \<Rightarrow> [])) c pc'"
proof (cases pc)
  case Loading
  with assms(1) accounted_loaded [OF _ assms(2)] show ?thesis
    by (auto simp: idem_next_def sql_Some split: prod.splits option.splits)
next
  case Reloading
  with assms(1) accounted_loaded [OF _ assms(2)] show ?thesis
    by (auto simp: idem_next_def sql_Some split: prod.splits option.splits)
qed (use assms(1,3) in \<open>auto simp: idem_next_def split: prod.splits option.splits bool.splits sum.splits\<close>)

definition all_backed :: "idem_env \<Rightarrow> (idem_call \<times> (gostr + goany)) list \<Rightarrow> idem_db \<Rightarrow> bool" where
  "all_backed E runs db \<longleftrightarrow> (\<forall>r \<in> set (idb_rows db). backed E runs r)"

text \<open>Only marking a success changes what the succeeded rows say.\<close>

lemma backed_update:
  assumes "all_backed E runs db" "\<And>r. r \<in> set (idb_rows db) \<Longrightarrow> P r \<Longrightarrow> backed E runs (f r)"
  shows "all_backed E runs (snd (update_where P f db))"
  using assms by (auto simp: all_backed_def update_where_def)

lemma backed_sql:
  "all_backed E runs db \<Longrightarrow> all_backed E runs (snd (f db)) \<Longrightarrow> all_backed E runs (snd (sql i f db))"
  by (simp add: snd_sql)

lemma backed_statements:
  assumes "all_backed E runs db"
  shows "all_backed E runs (snd (sql i (CreateProcessing (newRecord c)) db))"
    "all_backed E runs (snd (sql i (GetByScopeAndKeyHash scope hash) db))"
    "all_backed E runs (snd (sql i (TryReclaim k st now l e) db))"
    "all_backed E runs (snd (sql i (MarkFailedRetryable k reason l e) db))"
    "all_backed E runs (snd (sql i (DeleteExpired now limit) db))"
proof -
  show "all_backed E runs (snd (sql i (CreateProcessing (newRecord c)) db))"
    by (rule backed_sql [OF assms])
      (use assms in \<open>auto simp: all_backed_def CreateProcessing_def Let_def newRecord_def backed_def\<close>)
  show "all_backed E runs (snd (sql i (TryReclaim k st now l e) db))"
    by (rule backed_sql [OF assms], unfold TryReclaim_def, rule backed_update [OF assms]) (simp add: backed_def)
  show "all_backed E runs (snd (sql i (MarkFailedRetryable k reason l e) db))"
    by (rule backed_sql [OF assms], unfold MarkFailedRetryable_def, rule backed_update [OF assms]) (simp add: backed_def)
qed (use assms in \<open>auto simp: snd_sql all_backed_def GetByScopeAndKeyHash_def DeleteExpired_def Let_def\<close>)

lemma backed_marked:
  assumes "all_backed E runs db" "wf_table db" "owns db c k" "(c, Inr d) \<in> set runs" "marshalStoredResponse E d = Some body"
  shows "all_backed E runs (snd (sql i (MarkSucceeded k 200 body e) db))"
proof (rule backed_sql [OF assms(1)], unfold MarkSucceeded_def, rule backed_update [OF assms(1)])
  fix r assume r: "r \<in> set (idb_rows db)" "ir_ID r = k"
  then have "ir_key r = cl_key c" "ir_RequestFingerprint r = cl_fingerprint c"
    using assms(2,3) by (auto simp: owns_def row_of_unique)
  with assms(4,5) show "backed E runs (r\<lparr>ir_Status := IdempotencyStatusSucceeded, ir_ResponseStatus := Some 200,
      ir_ResponseBody := Some body, ir_ErrorReason := None, ir_LockedUntil := None, ir_ExpiresAt := e\<rparr>)"
    by (auto simp: backed_def executed_as_def ir_key_def)
qed

text \<open>What a step leaves in the table is what its statement leaves.\<close>

lemma idem_next_db:
  "snd (idem_next E c i x pc db) =
     (case pc of
        Creating \<Rightarrow> snd (sql i (CreateProcessing (newRecord c)) db)
      | ReclaimingExpired r \<Rightarrow>
          snd (sql i (TryReclaim (ir_ID r) (ir_Status r) (cl_now c) (cl_lockedUntil c) (cl_expiresAt c)) db)
      | ReclaimingFailed r \<Rightarrow>
          snd (sql i (TryReclaim (ir_ID r) IdempotencyStatusFailedRetryable (cl_now c) (cl_lockedUntil c) (cl_expiresAt c)) db)
      | MarkingFailed k reason b \<Rightarrow>
          snd (sql i (MarkFailedRetryable k (if reason = [] then ''EXECUTION_FAILED'' else reason) b (cl_expiresAt c)) db)
      | MarkingSucceeded k d body \<Rightarrow> snd (sql i (MarkSucceeded k 200 body (cl_expiresAt c)) db)
      | _ \<Rightarrow> db)"
proof -
  have get: "snd (sql i (GetByScopeAndKeyHash scope hash) db) = db" for scope hash
    by (simp add: snd_sql GetByScopeAndKeyHash_def)
  show ?thesis
    by (cases pc) (auto simp: idem_next_def split: prod.split option.split bool.split sum.split dest!: arg_cong [of _ _ snd] simp: get)
qed

lemma backed_next:
  assumes "all_backed E runs db" "wf_table db" "own_pc db c pc" "accounted E runs c pc"
  shows "all_backed E runs (snd (idem_next E c i x pc db))"
  using assms backed_marked [OF assms(1,2)]
  by (cases pc) (auto simp: idem_next_db own_pc_def intro: backed_statements)

lemma recorded_step:
  assumes "idem_step prompt E s s'" "owned s" "recorded E s"
  shows "recorded E s'"
  using assms(1)
proof (cases rule: idem_step.cases)
  case (call p c pc i res pc' db')
  have mem: "(c, pc) \<in> set (is_calls s)" using call(2,3) by (metis nth_mem)
  have ok: "wf_table (is_db s)" "own_pc (is_db s) c pc" "accounted E (is_log s) c pc" "all_backed E (is_log s) (is_db s)"
    using assms(2,3) mem by (auto simp: owned_def recorded_def all_backed_def)
  define runs where "runs = is_log s @ (case pc of Executing k \<Rightarrow> [(c, res)] | _ \<Rightarrow> [])"
  have sub: "set (is_log s) \<subseteq> set runs" by (simp add: runs_def)
  have "all_backed E (is_log s) db'"
    using backed_next [OF ok(4,1,2,3), of i "(res, is_clock s)"] call(5) by simp
  then have "all_backed E runs db'" using backed_mono [OF _ sub] by (simp add: all_backed_def)
  moreover have "accounted E runs c pc'"
    using accounted_next [OF call(5) _ ok(3)] ok(4) by (simp add: runs_def all_backed_def)
  moreover have "\<forall>x \<in> set (is_calls s). accounted E runs (fst x) (snd x)"
    using assms(3) accounted_mono [OF _ sub] by (simp add: recorded_def)
  moreover have "set ((is_calls s)[p := (c, pc')]) \<subseteq> insert (c, pc') (set (is_calls s))"
    by (rule set_update_subset_insert)
  ultimately show ?thesis
    unfolding call(1) recorded_def by (auto simp: all_backed_def simp flip: runs_def)
next
  case (cleanup now i limit)
  with assms(3) backed_statements(5) [of E "is_log s" "is_db s"] show ?thesis
    by (simp add: recorded_def all_backed_def)
qed (use assms(3) in \<open>auto simp: recorded_def\<close>)

lemma recorded_run: "idem_run prompt E s \<Longrightarrow> recorded E s"
  by (induction rule: idem_run.induct) (auto simp: recorded_step owned_run, auto simp: recorded_def)

section \<open>One live execution of a key\<close>

text \<open>A call is live on a record that it has claimed until the expiry it gave it.\<close>

definition live_on :: "time \<Rightarrow> idem_call \<times> idem_pc \<Rightarrow> int64 \<Rightarrow> bool" where
  "live_on t x k \<longleftrightarrow> holds (snd x) = Some k \<and> t < cl_expiresAt (fst x)"

definition held_row :: "idem_db \<Rightarrow> idem_call \<Rightarrow> int64 \<Rightarrow> bool" where
  "held_row db c k \<longleftrightarrow>
     (\<exists>r. row_of db k = Some r \<and> ir_Status r = IdempotencyStatusProcessing \<and>
          ir_LockedUntil r = Some (cl_lockedUntil c) \<and> ir_ExpiresAt r = cl_expiresAt c)"

text \<open>A call about to reclaim an expired record decided so before the lock of any live holder ends.\<close>

fun outwaits :: "idem_call \<times> idem_pc \<Rightarrow> idem_call \<Rightarrow> int64 \<Rightarrow> bool" where
  "outwaits (c, ReclaimingExpired r) holder k \<longleftrightarrow> ir_ID r = k \<longrightarrow> cl_now c < cl_lockedUntil holder"
| "outwaits (c, pc) holder k \<longleftrightarrow> True"

definition exclusive :: "idem_sys \<Rightarrow> bool" where
  "exclusive s \<longleftrightarrow>
     (\<forall>p < length (is_calls s). \<forall>k. live_on (is_clock s) (is_calls s ! p) k \<longrightarrow>
        held_row (is_db s) (fst (is_calls s ! p)) k \<and>
        (\<forall>q < length (is_calls s). q \<noteq> p \<longrightarrow>
           \<not> live_on (is_clock s) (is_calls s ! q) k \<and> outwaits (is_calls s ! q) (fst (is_calls s ! p)) k))"

lemma exclusiveD:
  assumes "exclusive s" "p < length (is_calls s)" "live_on (is_clock s) (is_calls s ! p) k"
  shows "held_row (is_db s) (fst (is_calls s ! p)) k"
    and "q < length (is_calls s) \<Longrightarrow> q \<noteq> p \<Longrightarrow>
      \<not> live_on (is_clock s) (is_calls s ! q) k \<and> outwaits (is_calls s ! q) (fst (is_calls s ! p)) k"
  using assms unfolding exclusive_def by blast+

lemma update_other_row:
  assumes "\<And>r. ir_ID (f r) = ir_ID r" "\<And>r. row_of db k = Some r \<Longrightarrow> \<not> P r"
  shows "row_of (snd (update_where P f db)) k = row_of db k"
  using assms by (cases "row_of db k") (simp_all add: row_of_update)

lemma held_row_sql:
  "held_row db h k \<Longrightarrow> row_of (snd (f db)) k = row_of db k \<Longrightarrow> held_row (snd (sql i f db)) h k"
  by (simp add: held_row_def snd_sql)

text \<open>No other call can touch the record of a live holder.\<close>

lemma reclaim_refused:
  assumes "held_row db h k" "ir_ID r = k \<Longrightarrow> st = IdempotencyStatusProcessing \<Longrightarrow> now < cl_lockedUntil h"
  shows "row_of (snd (TryReclaim (ir_ID r) st now l e db)) k = row_of db k"
  unfolding TryReclaim_def
  by (rule update_other_row) (use assms in \<open>auto simp: held_row_def lock_free_def dest: row_of_Some\<close>)

lemma mark_other:
  assumes "j \<noteq> k"
  shows "row_of (snd (MarkSucceeded j status body e db)) k = row_of db k"
    "row_of (snd (MarkFailedRetryable j reason l e db)) k = row_of db k"
  unfolding MarkSucceeded_def MarkFailedRetryable_def
  by (rule update_other_row; use assms in \<open>auto dest: row_of_Some\<close>)+

lemma held_row_next:
  assumes "held_row db h k" "k < idb_next db" "outwaits (c, pc) h k"
    and "\<And>j. holds pc = Some j \<Longrightarrow> (\<nexists>m. pc = Executing m) \<Longrightarrow> j \<noteq> k"
  shows "held_row (snd (idem_next E c i x pc db)) h k"
proof (cases pc)
  case Creating
  with assms(1,2) show ?thesis by (simp add: idem_next_db held_row_sql row_of_create_old)
next
  case (ReclaimingExpired r)
  with assms(1,3) show ?thesis by (simp add: idem_next_db held_row_sql reclaim_refused)
next
  case (ReclaimingFailed r)
  then show ?thesis by (auto simp: idem_next_db intro!: held_row_sql [OF assms(1)] reclaim_refused [OF assms(1)])
next
  case (MarkingFailed j reason b)
  with assms(1,4) show ?thesis by (simp add: idem_next_db held_row_sql mark_other)
next
  case (MarkingSucceeded j d body)
  with assms(1,4) show ?thesis by (simp add: idem_next_db held_row_sql mark_other)
qed (use assms(1) in \<open>simp_all add: idem_next_db\<close>)

text \<open>A reclaim that took effect found no live holder and leaves the caller's own claim.\<close>

lemma reclaim_taken:
  assumes "wf_table db" "TryReclaim k st now l e db = (True, db')"
  shows "\<exists>r. row_of db k = Some r \<and> ir_Status r = st \<and> lock_free now r \<and>
    row_of db' k = Some (r\<lparr>ir_Status := IdempotencyStatusProcessing, ir_LockedUntil := Some l, ir_ErrorReason := None,
                           ir_ExpiresAt := e\<rparr>)"
proof -
  obtain r where r: "r \<in> set (idb_rows db)" "ir_ID r = k" "ir_Status r = st" "lock_free now r"
    using assms(2) by (auto simp: TryReclaim_def update_where_def)
  then have row: "row_of db k = Some r" using row_of_unique [OF assms(1) r(1)] by simp
  have "row_of (snd (TryReclaim k st now l e db)) k =
      map_option (\<lambda>r. if ir_ID r = k \<and> ir_Status r = st \<and> lock_free now r
        then r\<lparr>ir_Status := IdempotencyStatusProcessing, ir_LockedUntil := Some l, ir_ErrorReason := None, ir_ExpiresAt := e\<rparr>
        else r) (row_of db k)"
    unfolding TryReclaim_def by (rule row_of_update) simp
  with row r assms(2) show ?thesis by simp
qed

text \<open>What it means that a step ends with a claim: it made the claim or already had it.\<close>

lemma claim_step:
  assumes "wf_table db" "idem_next E c i x pc db = (pc', db')" "holds pc' = Some k"
  shows "(pc = Executing k \<and> db' = db) \<or>
    (timely t c pc = (t < cl_lockedUntil c) \<and> held_row db' c k \<and>
     (\<forall>h. held_row db h k \<longrightarrow> k < idb_next db \<longrightarrow> \<not> outwaits (c, pc) h k))"
proof (cases pc)
  case Creating
  with assms(2,3) have "CreateProcessing (newRecord c) db = (Some k, db')"
    by (auto simp: idem_next_def sql_Some split: prod.splits option.splits if_splits)
  from row_of_created [OF assms(1) this] Creating show ?thesis
    by (auto simp: held_row_def newRecord_def)
next
  case (ReclaimingExpired r)
  with assms(2,3) have "TryReclaim (ir_ID r) (ir_Status r) (cl_now c) (cl_lockedUntil c) (cl_expiresAt c) db = (True, db')"
    "k = ir_ID r"
    by (auto simp: idem_next_def sql_Some split: prod.splits option.splits bool.splits if_splits)
  with reclaim_taken [OF assms(1) this(1)] ReclaimingExpired show ?thesis
    by (auto simp: held_row_def lock_free_def)
next
  case (ReclaimingFailed r)
  with assms(2,3) have "TryReclaim (ir_ID r) IdempotencyStatusFailedRetryable (cl_now c) (cl_lockedUntil c) (cl_expiresAt c) db = (True, db')"
    "k = ir_ID r"
    by (auto simp: idem_next_def sql_Some split: prod.splits option.splits bool.splits if_splits)
  with reclaim_taken [OF assms(1) this(1)] ReclaimingFailed show ?thesis
    by (auto simp: held_row_def)
qed (use assms(2,3) in \<open>auto simp: idem_next_def split: prod.splits option.splits sum.splits\<close>)

text \<open>A call that decides to reclaim an expired record saw it expired.\<close>

lemma wants_step:
  assumes "wf_table db" "idem_next E c i x pc db = (ReclaimingExpired r, db')" "held_row db h (ir_ID r)"
  shows "cl_expiresAt h \<le> cl_now c"
proof -
  have "pc = Loading" "onLoaded E c False (Some r) = ReclaimingExpired r" "r \<in> set (idb_rows db)"
    using assms(2)
    by (cases pc; auto simp: idem_next_def sql_Some GetByScopeAndKeyHash_def onLoaded_def onExisting_def
        storeUnavailable_def claimed_pc_def find_Some_iff
        split: prod.splits option.splits if_splits bool.splits sum.splits)+
  then have "\<not> cl_now c < ir_ExpiresAt r"
    by (auto simp: onLoaded_def onExisting_def storeUnavailable_def split: if_splits option.splits)
  moreover have "ir_ExpiresAt r = cl_expiresAt h"
    using assms(3) row_of_unique [OF assms(1) \<open>r \<in> set (idb_rows db)\<close>] by (auto simp: held_row_def)
  ultimately show ?thesis by simp
qed


lemma exclusiveI:
  assumes "\<And>p k. p < length (is_calls s) \<Longrightarrow> live_on (is_clock s) (is_calls s ! p) k \<Longrightarrow>
      held_row (is_db s) (fst (is_calls s ! p)) k"
    and "\<And>p q k. p < length (is_calls s) \<Longrightarrow> q < length (is_calls s) \<Longrightarrow> p \<noteq> q \<Longrightarrow>
      live_on (is_clock s) (is_calls s ! p) k \<Longrightarrow>
      \<not> live_on (is_clock s) (is_calls s ! q) k \<and> outwaits (is_calls s ! q) (fst (is_calls s ! p)) k"
  shows "exclusive s"
  using assms unfolding exclusive_def by blast

lemma live_owned: "owned s \<Longrightarrow> p < length (is_calls s) \<Longrightarrow> live_on t (is_calls s ! p) k \<Longrightarrow> k < idb_next (is_db s)"
  using nth_mem by (fastforce simp: owned_def own_pc_def owns_def live_on_def)

lemma exclusive_call:
  assumes own: "owned s" and exc: "exclusive s"
    and p: "p < length (is_calls s)" "is_calls s ! p = (c, pc)" and time: "timely (is_clock s) c pc"
    and nxt: "idem_next E c i x pc (is_db s) = (pc', db')"
  shows "exclusive (s\<lparr>is_db := db', is_calls := (is_calls s)[p := (c, pc')], is_log := lg\<rparr>)" (is "exclusive ?s")
proof -
  let ?t = "is_clock s" and ?cs = "is_calls s"
  have wf: "wf_table (is_db s)" using own by (simp add: owned_def)
  have now: "cl_now (fst (?cs ! q)) \<le> ?t" if "q < length ?cs" for q using own that nth_mem by (fastforce simp: owned_def)
  have db': "db' = snd (idem_next E c i x pc (is_db s))" using nxt by simp
  \<comment> \<open>the call was live before if its step marks a record\<close>
  have marking: "live_on ?t (c, pc) j" if "holds pc = Some j" "\<nexists>m. pc = Executing m" for j
    using that time by (cases pc) (auto simp: live_on_def)
  have others: "held_row db' (fst (?cs ! q)) k" if "q < length ?cs" "q \<noteq> p" "live_on ?t (?cs ! q) k" for q k
    unfolding db'
  proof (rule held_row_next [OF exclusiveD(1) [OF exc that(1,3)] live_owned [OF own that(1,3)]])
    show "outwaits (c, pc) (fst (?cs ! q)) k" using exclusiveD(2) [OF exc that(1,3) p(1)] that(2) p(2) by simp
    show "j \<noteq> k" if "holds pc = Some j" "\<nexists>m. pc = Executing m" for j
      using marking [OF that] exclusiveD(2) [OF exc \<open>q < length ?cs\<close> \<open>live_on ?t (?cs ! q) k\<close> p(1)] \<open>q \<noteq> p\<close> p(2) by auto
  qed
  have own_claim: "held_row db' c k \<and> (\<forall>q < length ?cs. q \<noteq> p \<longrightarrow> \<not> live_on ?t (?cs ! q) k \<and> outwaits (?cs ! q) c k)"
    if k: "live_on ?t (c, pc') k" for k
  proof -
    from k have "holds pc' = Some k" by (simp add: live_on_def)
    from claim_step [OF wf nxt this, of ?t] show ?thesis
    proof
      assume "pc = Executing k \<and> db' = is_db s"
      with k p have "live_on ?t (?cs ! p) k" "db' = is_db s" by (auto simp: live_on_def)
      with exclusiveD [OF exc p(1) this(1)] p(2) show ?thesis by auto
    next
      assume claim: "timely ?t c pc = (?t < cl_lockedUntil c) \<and> held_row db' c k \<and>
        (\<forall>h. held_row (is_db s) h k \<longrightarrow> k < idb_next (is_db s) \<longrightarrow> \<not> outwaits (c, pc) h k)"
      have "\<not> live_on ?t (?cs ! q) k" if "q < length ?cs" "q \<noteq> p" for q
        using exclusiveD [OF exc that(1), of k] live_owned [OF own that(1), of ?t k] claim p that(2) by metis
      moreover have "outwaits (?cs ! q) c k" if "q < length ?cs" for q
        using claim time now [OF that] by (cases "?cs ! q"; cases "snd (?cs ! q)") auto
      ultimately show ?thesis using claim by blast
    qed
  qed
  have wanting: "outwaits (c, pc') (fst (?cs ! q)) k" if "q < length ?cs" "q \<noteq> p" "live_on ?t (?cs ! q) k" for q k
  proof (cases pc')
    case (ReclaimingExpired r)
    have "cl_expiresAt (fst (?cs ! q)) \<le> cl_now c" if "ir_ID r = k"
      using wants_step [OF wf nxt [unfolded ReclaimingExpired]] exclusiveD(1) [OF exc \<open>q < length ?cs\<close> \<open>live_on ?t (?cs ! q) k\<close>] that
      by simp
    with that(3) now [OF p(1)] p(2) ReclaimingExpired show ?thesis by (auto simp: live_on_def)
  qed simp_all
  show ?thesis
  proof (rule exclusiveI)
    fix r k assume r: "r < length (is_calls ?s)" "live_on (is_clock ?s) (is_calls ?s ! r) k"
    then show "held_row (is_db ?s) (fst (is_calls ?s ! r)) k"
      using others [of r k] own_claim [of k] by (cases "r = p") auto
  next
    fix r q k assume rq: "r < length (is_calls ?s)" "q < length (is_calls ?s)" "r \<noteq> q"
      "live_on (is_clock ?s) (is_calls ?s ! r) k"
    then show "\<not> live_on (is_clock ?s) (is_calls ?s ! q) k \<and> outwaits (is_calls ?s ! q) (fst (is_calls ?s ! r)) k"
      using own_claim [of k] wanting [of r k] exclusiveD(2) [OF exc, of r k q]
      by (cases "r = p"; cases "q = p") auto
  qed
qed

lemma exclusive_step:
  assumes "idem_step True E s s'" "owned s" "exclusive s"
  shows "exclusive s'"
  using assms(1)
proof (cases rule: idem_step.cases)
  case (call p c pc i res pc' db')
  with exclusive_call [OF assms(2,3) call(2,3) _ call(5)] show ?thesis by simp
next
  case (wait t)
  then have "live_on t x k \<Longrightarrow> live_on (is_clock s) x k" for x k by (auto simp: live_on_def)
  with assms(3) wait(1) show ?thesis unfolding exclusive_def by simp blast
next
  case (start opts c)
  have "\<not> live_on t (c, Creating) k" "outwaits (c, Creating) h k" for t k h by (simp_all add: live_on_def)
  with assms(3) start(1) show ?thesis unfolding exclusive_def by (auto simp: nth_append less_Suc_eq)
next
  case (cleanup now i limit)
  have wf: "wf_table (is_db s)" using assms(2) by (simp add: owned_def)
  have "held_row (snd (sql i (DeleteExpired now limit) (is_db s))) (fst (is_calls s ! p)) k"
    if "p < length (is_calls s)" "live_on (is_clock s) (is_calls s ! p) k" for p k
  proof -
    have h: "held_row (is_db s) (fst (is_calls s ! p)) k" by (rule exclusiveD(1) [OF assms(3) that])
    with that(2) cleanup(2) obtain r where "row_of (is_db s) k = Some r" "now < ir_ExpiresAt r"
      by (auto simp: held_row_def live_on_def)
    from row_of_delete [OF wf this] this(1) h show ?thesis by (intro held_row_sql) auto
  qed
  with assms(3) cleanup(1) show ?thesis unfolding exclusive_def by simp
qed

lemma exclusive_run: "idem_run True E s \<Longrightarrow> exclusive s"
  by (induction rule: idem_run.induct) (auto simp: exclusive_step owned_run, simp add: exclusive_def)

section \<open>One undisturbed call\<close>

text \<open>The decision of a call from the record it finds: an answer, or \<open>None\<close> to execute.\<close>

definition verdict :: "idem_env \<Rightarrow> idem_call \<Rightarrow> IdempotencyRecord option \<Rightarrow> idem_answer option" where
  "verdict E c found =
     (case found of
        None \<Rightarrow> None
      | Some r \<Rightarrow>
          if ir_RequestFingerprint r \<noteq> cl_fingerprint c then Some (Inl ErrIdempotencyKeyConflict)
          else if lock_free (cl_now c) r \<and> (ir_ExpiresAt r \<le> cl_now c \<or> ir_Status r = IdempotencyStatusFailedRetryable) then None
          else Some
            (if ir_Status r = IdempotencyStatusSucceeded
             then (case decodeStoredResponse E (ir_ResponseBody r) of
                     None \<Rightarrow> Inl ErrIdempotencyStoreUnavail
                   | Some d \<Rightarrow> Inr \<lparr>ie_Data = d, ie_Replayed = True\<rparr>)
             else if ir_Status r = IdempotencyStatusProcessing
             then Inl (ErrIdempotencyInProgress (retryAfter (ir_LockedUntil r) (cl_now c)))
             else if ir_Status r = IdempotencyStatusFailedRetryable
             then Inl (ErrIdempotencyRetryBackoff (retryAfter (ir_LockedUntil r) (cl_now c)))
             else Inl ErrIdempotencyKeyConflict))"

text \<open>What the executor's result becomes when every statement is answered.\<close>

definition executed_answer :: "idem_env \<Rightarrow> gostr + goany \<Rightarrow> idem_answer" where
  "executed_answer E res =
     (case res of
        Inl reason \<Rightarrow> Inl (ExecutionFailed reason)
      | Inr d \<Rightarrow> (case marshalStoredResponse E d of
                   None \<Rightarrow> Inl ErrIdempotencyStoreUnavail
                 | Some body \<Rightarrow> Inr \<lparr>ie_Data = d, ie_Replayed = False\<rparr>))"

definition found_by :: "idem_call \<Rightarrow> idem_db \<Rightarrow> IdempotencyRecord option" where
  "found_by c db = find (\<lambda>r. ir_key r = cl_key c) (idb_rows db)"

lemma sql_answered [simp]: "sql Answered f db = (Some (fst (f db)), snd (f db))"
  by (simp add: sql_def run_io_def split: prod.split)

lemma run_returned [simp]: "runCall E c ios x k (Returned r) db = (r, False, db)"
  by (simp add: runCall.simps)

lemma run_unavailable [simp]: "runCall E c ios x k storeUnavailable db = (Inl ErrIdempotencyStoreUnavail, False, db)"
  by (simp add: storeUnavailable_def)

text \<open>From a claim to the answer; the row it leaves.\<close>

lemma run_claimed:
  "runCall E c (\<lambda>_. Answered) (res, t) k (Executing recID) db =
     (executed_answer E res, True,
      case res of
        Inl reason \<Rightarrow>
          snd (MarkFailedRetryable recID (if reason = [] then ''EXECUTION_FAILED'' else reason)
                 (t + ic_FailedRetryBackoff (ev_cfg E)) (cl_expiresAt c) db)
      | Inr d \<Rightarrow> (case marshalStoredResponse E d of
                   None \<Rightarrow> db
                 | Some body \<Rightarrow> snd (MarkSucceeded recID 200 body (cl_expiresAt c) db)))"
  by (cases res; cases "marshalStoredResponse E (projr res)")
    (auto simp: runCall.simps [of E c _ _ _ "Executing recID"] runCall.simps [of E c _ _ _ "MarkingFailed recID reason b" for reason b]
      runCall.simps [of E c _ _ _ "MarkingSucceeded recID d body" for d body]
      idem_next_def executed_answer_def storeUnavailable_def)

lemma run_step:
  "\<nexists>r. pc = Returned r \<Longrightarrow> \<nexists>i. pc = Executing i \<Longrightarrow>
     runCall E c ios x k pc db =
       runCall E c ios x (Suc k) (fst (idem_next E c (ios k) x pc db)) (snd (idem_next E c (ios k) x pc db))"
  by (subst runCall.simps) (cases pc; simp add: split_beta)

lemma found_by_get: "GetByScopeAndKeyHash (cl_scope c) (cl_keyHash c) db = (found_by c db, db)"
  by (simp add: GetByScopeAndKeyHash_def found_by_def cl_key_def)

lemma found_by_create:
  "CreateProcessing (newRecord c) db =
     (if found_by c db = None
      then (Some (idb_next db), db\<lparr>idb_next := idb_next db + 1, idb_rows := idb_rows db @ [(newRecord c)\<lparr>ir_ID := idb_next db\<rparr>]\<rparr>)
      else (None, db\<lparr>idb_next := idb_next db + 1\<rparr>))"
proof -
  have "ir_key (newRecord c) = cl_key c" by (simp add: newRecord_def ir_key_def cl_key_def)
  then have "ir_key (newRecord c) \<in> ir_key ` set (idb_rows db) \<longleftrightarrow> found_by c db \<noteq> None"
    by (force simp: found_by_def find_None_iff)
  then show ?thesis by (auto simp: CreateProcessing_def Let_def newRecord_def)
qed

lemma found_by_Some: "found_by c db = Some r \<Longrightarrow> r \<in> set (idb_rows db) \<and> ir_key r = cl_key c"
  by (auto simp: found_by_def find_Some_iff)

lemma newRecord_fingerprint [simp]: "ir_RequestFingerprint (newRecord c) = cl_fingerprint c"
  by (simp add: newRecord_def)

lemma update_where_none:
  assumes "\<forall>r \<in> set (idb_rows db). \<not> P r"
  shows "update_where P f db = (False, db)"
proof -
  have "map (\<lambda>r. if P r then f r else r) (idb_rows db) = idb_rows db" by (rule map_idI) (simp add: assms)
  with assms show ?thesis by (simp add: update_where_def)
qed

text \<open>The call up to its claim: a key that is free or may be reclaimed is claimed, any other call ends.\<close>

lemma reclaim_iff:
  assumes "wf_table db" "r \<in> set (idb_rows db)"
  shows "fst (TryReclaim (ir_ID r) st now l e db) \<longleftrightarrow> ir_Status r = st \<and> lock_free now r"
proof -
  have "x = r" if "x \<in> set (idb_rows db)" "ir_ID x = ir_ID r" for x
    using row_of_unique [OF assms(1) that(1)] row_of_unique [OF assms] unfolding that(2) by simp
  moreover have "fst (TryReclaim (ir_ID r) st now l e db) \<longleftrightarrow>
      (\<exists>x \<in> set (idb_rows db). ir_ID x = ir_ID r \<and> ir_Status x = st \<and> lock_free now x)"
    by (simp add: TryReclaim_def update_where_def)
  ultimately show ?thesis using assms(2) by blast
qed


lemma run_refused:
  assumes "wf_table db" "verdict E c (found_by c db) = Some a"
  shows "runCall E c (\<lambda>_. Answered) x k Creating db = (a, False, db\<lparr>idb_next := idb_next db + 1\<rparr>)"
proof -
  let ?db = "db\<lparr>idb_next := idb_next db + 1\<rparr>"
  obtain r where r: "found_by c db = Some r" using assms(2) by (cases "found_by c db") (auto simp: verdict_def)
  then have found: "found_by c ?db = Some r" by (simp add: found_by_def)
  have mem: "r \<in> set (idb_rows ?db)" using found_by_Some [OF r] by simp
  have wf: "wf_table ?db" using assms(1) by (auto simp: wf_table_def)
  note step = run_step idem_next_def found_by_create r found_by_get found onLoaded_def
  show ?thesis
  proof (cases "ir_RequestFingerprint r = cl_fingerprint c \<and> \<not> cl_now c < ir_ExpiresAt r")
    case False
    with assms(2) r show ?thesis
      by (auto simp: step verdict_def onExisting_def storeUnavailable_def split: option.splits if_splits)
  next
    case True
    with assms(2) r have lock: "\<not> lock_free (cl_now c) r" by (auto simp: verdict_def split: if_splits)
    define taken where "taken = TryReclaim (ir_ID r) (ir_Status r) (cl_now c) (cl_lockedUntil c) (cl_expiresAt c) ?db"
    have "\<not> fst taken" using reclaim_iff [OF wf mem] lock by (simp add: taken_def)
    then have "taken = (False, ?db)"
      unfolding taken_def TryReclaim_def by (intro update_where_none) (simp add: update_where_found)
    with True lock assms(2) r show ?thesis
      by (auto simp: step taken_def verdict_def onExisting_def storeUnavailable_def split: option.splits if_splits)
  qed
qed

lemma run_claims:
  assumes "wf_table db" "verdict E c (found_by c db) = None"
  obtains k recID db' r where
    "runCall E c (\<lambda>_. Answered) x 0 Creating db = runCall E c (\<lambda>_. Answered) x k (Executing recID) db'"
    "wf_table db'" "r \<in> set (idb_rows db')" "ir_ID r = recID" "ir_key r = cl_key c" "ir_RequestFingerprint r = cl_fingerprint c"
proof (cases "found_by c db")
  case None
  then have created: "CreateProcessing (newRecord c) db =
      (Some (idb_next db), db\<lparr>idb_next := idb_next db + 1, idb_rows := idb_rows db @ [(newRecord c)\<lparr>ir_ID := idb_next db\<rparr>]\<rparr>)"
    by (simp add: found_by_create)
  have "idb_next db \<noteq> 0" using assms(1) by (auto simp: wf_table_def)
  with created have run: "runCall E c (\<lambda>_. Answered) x 0 Creating db =
      runCall E c (\<lambda>_. Answered) x 1 (Executing (idb_next db)) (snd (CreateProcessing (newRecord c) db))"
    by (simp add: run_step idem_next_def claimed_pc_def)
  show ?thesis
    by (rule that [OF run wf_table_create [OF assms(1)], where r = "(newRecord c)\<lparr>ir_ID := idb_next db\<rparr>"])
      (simp_all add: created newRecord_key del: newRecord_def)
next
  case (Some r)
  let ?db = "db\<lparr>idb_next := idb_next db + 1\<rparr>"
  let ?claim = "r\<lparr>ir_Status := IdempotencyStatusProcessing, ir_LockedUntil := Some (cl_lockedUntil c), ir_ErrorReason := None,
                  ir_ExpiresAt := cl_expiresAt c\<rparr>"
  have found: "found_by c ?db = Some r" using Some by (simp add: found_by_def)
  have mem: "r \<in> set (idb_rows ?db)" "ir_key r = cl_key c" using found_by_Some [OF Some] by simp_all
  have wf: "wf_table ?db" using assms(1) by (auto simp: wf_table_def)
  have fp: "ir_RequestFingerprint r = cl_fingerprint c" "lock_free (cl_now c) r"
    "ir_ExpiresAt r \<le> cl_now c \<or> ir_Status r = IdempotencyStatusFailedRetryable"
    using assms(2) Some by (auto simp: verdict_def split: if_splits)
  have id: "ir_ID r \<noteq> 0" using wf mem(1) by (auto simp: wf_table_def)
  define taken where "taken = TryReclaim (ir_ID r) (ir_Status r) (cl_now c) (cl_lockedUntil c) (cl_expiresAt c) ?db"
  have yes: "fst taken" using reclaim_iff [OF wf mem(1)] fp by (simp add: taken_def)
  then have t: "taken = (True, snd taken)" by (cases taken) simp
  obtain x0 where x0: "row_of ?db (ir_ID r) = Some x0"
    "row_of (snd taken) (ir_ID r) =
       Some (x0\<lparr>ir_Status := IdempotencyStatusProcessing, ir_LockedUntil := Some (cl_lockedUntil c), ir_ErrorReason := None,
               ir_ExpiresAt := cl_expiresAt c\<rparr>)"
    using reclaim_taken [OF wf t [unfolded taken_def]] unfolding taken_def by blast
  have "x0 = r" using x0(1) row_of_unique [OF wf mem(1)] by simp
  with x0(2) have r': "row_of (snd taken) (ir_ID r) = Some ?claim" "ir_key ?claim = cl_key c"
    "ir_RequestFingerprint ?claim = cl_fingerprint c"
    using mem(2) fp(1) by (simp_all add: ir_key_def)
  have wf': "wf_table (snd taken)" using wf table_steps(3) by (auto simp: taken_def table_step_def)
  note step = run_step idem_next_def found_by_create Some found_by_get found onLoaded_def claimed_pc_def
  show ?thesis
  proof (cases "cl_now c < ir_ExpiresAt r")
    case True
    with fp have st: "ir_Status r = IdempotencyStatusFailedRetryable" by simp
    have "runCall E c (\<lambda>_. Answered) x 0 Creating db = runCall E c (\<lambda>_. Answered) x 3 (Executing (ir_ID r)) (snd taken)"
      using True st fp id yes by (simp add: step onExisting_def taken_def numeral_3_eq_3)
    from that [OF this wf' _ _ r'(2,3)] row_of_Some [OF r'(1)] show ?thesis by blast
  next
    case False
    have "runCall E c (\<lambda>_. Answered) x 0 Creating db = runCall E c (\<lambda>_. Answered) x 3 (Executing (ir_ID r)) (snd taken)"
      using False fp id yes by (simp add: step taken_def numeral_3_eq_3)
    from that [OF this wf' _ _ r'(2,3)] row_of_Some [OF r'(1)] show ?thesis by blast
  qed
qed

lemma runCall_verdict:
  assumes "wf_table db"
  shows "case verdict E c (found_by c db) of
      Some a \<Rightarrow> runCall E c (\<lambda>_. Answered) (res, t) 0 Creating db = (a, False, db\<lparr>idb_next := idb_next db + 1\<rparr>)
    | None \<Rightarrow> \<exists>db'. runCall E c (\<lambda>_. Answered) (res, t) 0 Creating db = (executed_answer E res, True, db') \<and> wf_table db' \<and>
        (\<forall>d body. res = Inr d \<longrightarrow> marshalStoredResponse E d = Some body \<longrightarrow>
           (\<exists>r. found_by c db' = Some r \<and> ir_RequestFingerprint r = cl_fingerprint c \<and> ir_Status r = IdempotencyStatusSucceeded \<and>
                ir_ResponseBody r = Some body \<and> ir_LockedUntil r = None \<and> ir_ExpiresAt r = cl_expiresAt c))"
proof (cases "verdict E c (found_by c db)")
  case (Some a)
  with run_refused [OF assms Some] show ?thesis by simp
next
  case None
  obtain k recID db1 r where run: "runCall E c (\<lambda>_. Answered) (res, t) 0 Creating db =
      runCall E c (\<lambda>_. Answered) (res, t) k (Executing recID) db1"
    and r: "wf_table db1" "r \<in> set (idb_rows db1)" "ir_ID r = recID" "ir_key r = cl_key c"
      "ir_RequestFingerprint r = cl_fingerprint c"
    by (rule run_claims [OF assms None])
  obtain db' where db': "runCall E c (\<lambda>_. Answered) (res, t) 0 Creating db = (executed_answer E res, True, db')"
    by (simp add: run run_claimed)
  have wf: "wf_table db'"
    using db' r(1) table_steps(4,5) by (auto simp: run run_claimed table_step_def split: sum.splits option.splits)
  have "\<exists>r'. found_by c db' = Some r' \<and> ir_RequestFingerprint r' = cl_fingerprint c \<and>
      ir_Status r' = IdempotencyStatusSucceeded \<and> ir_ResponseBody r' = Some body \<and> ir_LockedUntil r' = None \<and>
      ir_ExpiresAt r' = cl_expiresAt c" if "res = Inr d" "marshalStoredResponse E d = Some body" for d body
  proof -
    let ?r = "r\<lparr>ir_Status := IdempotencyStatusSucceeded, ir_ResponseStatus := Some 200, ir_ResponseBody := Some body,
               ir_ErrorReason := None, ir_LockedUntil := None, ir_ExpiresAt := cl_expiresAt c\<rparr>"
    have "db' = snd (MarkSucceeded recID 200 body (cl_expiresAt c) db1)" using db' [unfolded run run_claimed] that by simp
    then have mem: "?r \<in> set (idb_rows db')" using r(2,3) by (force simp: MarkSucceeded_def update_where_def)
    have key: "ir_key ?r = cl_key c" using r(4) by (simp add: ir_key_def)
    then have "found_by c db' \<noteq> None" using mem by (auto simp: found_by_def find_None_iff)
    then obtain x where x: "found_by c db' = Some x" by blast
    with row_key_unique [OF wf _ mem] found_by_Some [OF x] key have "x = ?r" by simp
    with x r(5) show ?thesis by simp
  qed
  with None db' wf show ?thesis by simp
qed

section \<open>Examples\<close>

definition exampleIdem :: idem_env where
  "exampleIdem =
     \<lparr>ev_cfg = DefaultIdempotencyConfig, ev_repo = True, ev_sha256 = (\<lambda>s. s),
      ev_marshal = (\<lambda>d. case d of GString s \<Rightarrow> Some s | _ \<Rightarrow> Some ''{}''), ev_unmarshal = (\<lambda>s. Some (GString s)),
      ev_valid = (\<lambda>s. True), ev_redactPlain = (\<lambda>s. s)\<rparr>"

definition exampleOptions :: "gostr \<Rightarrow> IdempotencyExecuteOptions" where
  "exampleOptions key =
     \<lparr>ix_Scope = ''s'', ix_ActorScope = ''user:1'', ix_Method = ''POST'', ix_Route = ''/r'', ix_IdempotencyKey = key,
      ix_Payload = GString ''p'', ix_TTL = hour, ix_RequireKey = True\<rparr>"

definition examplePrint :: gostr where
  "examplePrint = ''POST'' @ [CHR 0x0A] @ ''/r'' @ [CHR 0x0A] @ ''user:1'' @ [CHR 0x0A] @ ''p''"

definition exampleCall :: "gostr \<Rightarrow> time \<Rightarrow> idem_call" where
  "exampleCall key now =
     \<lparr>cl_scope = ''s'', cl_keyHash = key,
      cl_fingerprint = examplePrint, cl_now = now, cl_lockedUntil = now + 30 * second, cl_expiresAt = now + hour\<rparr>"

lemmas eval_trim = trim_space_def trim_left_def trim_right_def cut_all.simps space_runes_def

lemma exampleCall_starts:
  "startExecute exampleIdem True (exampleOptions ''k'') now = Guarded (exampleCall ''k'' now)"
  "startExecute exampleIdem True (exampleOptions ''l'') now = Guarded (exampleCall ''l'' now)"
  by (simp_all add: startExecute_def exampleOptions_def exampleIdem_def exampleCall_def examplePrint_def NormalizeIdempotencyKey_def
      BuildIdempotencyFingerprint_def HashIdempotencyKey_def DefaultIdempotencyConfig_def to_upper_def ascii_upper_def
      duration_defs eval_trim Let_def)

text \<open>The run that a list of steps makes: the number of a call and what its executor would return.\<close>

definition emptyIdem :: "time \<Rightarrow> idem_sys" where
  "emptyIdem t = \<lparr>is_clock = t, is_db = \<lparr>idb_rows = [], idb_next = 1\<rparr>, is_calls = [], is_log = []\<rparr>"

definition takeStep :: "idem_env \<Rightarrow> nat \<Rightarrow> gostr + goany \<Rightarrow> idem_sys \<Rightarrow> idem_sys" where
  "takeStep E p res s =
     (case is_calls s ! p of
        (c, pc) \<Rightarrow>
          (case idem_next E c Answered (res, is_clock s) pc (is_db s) of
             (pc', db') \<Rightarrow>
               s\<lparr>is_db := db', is_calls := (is_calls s)[p := (c, pc')],
                 is_log := is_log s @ (case pc of Executing recID \<Rightarrow> [(c, res)] | _ \<Rightarrow> [])\<rparr>))"

lemma takeStep_run:
  assumes "idem_run prompt E s" "p < length (is_calls s)" "timely (is_clock s) (fst (is_calls s ! p)) (snd (is_calls s ! p))"
  shows "idem_run prompt E (takeStep E p res s)"
proof -
  obtain c pc where cp: "is_calls s ! p = (c, pc)" by fastforce
  obtain pc' db' where nx: "idem_next E c Answered (res, is_clock s) pc (is_db s) = (pc', db')" by fastforce
  from assms(3) cp have "timely (is_clock s) c pc" by simp
  from idem_run.step [OF assms(1) idem_step.call [OF assms(2) cp this nx]] show ?thesis
    by (simp add: takeStep_def cp nx)
qed

lemma startCall_run:
  "idem_run prompt E s \<Longrightarrow> startExecute E True opts (is_clock s) = Guarded c \<Longrightarrow>
     idem_run prompt E (s\<lparr>is_calls := is_calls s @ [(c, Creating)]\<rparr>)"
  by (blast intro: idem_run.step idem_step.start)

lemma wait_run: "idem_run prompt E s \<Longrightarrow> is_clock s \<le> t \<Longrightarrow> idem_run prompt E (s\<lparr>is_clock := t\<rparr>)"
  by (blast intro: idem_run.step idem_step.wait)

lemma empty_run: "idem_run prompt E (emptyIdem t)"
  by (simp add: emptyIdem_def idem_run.empty)

section \<open>Properties\<close>

text \<open>
  C22. No two executions of an idempotency key are live at the same time: under any interleaving
  of calls of any processes, lost statements, crashes and cleanups, if calls claim before their
  lock ends and mark before their record expires, two calls that hold an unexpired claim are for
  different keys.
\<close>

theorem one_live_execution:
  assumes "idem_run True E s" and "p < length (is_calls s)" and "q < length (is_calls s)" and "p \<noteq> q"
    and "is_calls s ! p = (c, pc)" and "holds pc = Some k" and "is_clock s < cl_expiresAt c"
    and "is_calls s ! q = (c', pc')" and "holds pc' = Some k'" and "is_clock s < cl_expiresAt c'"
  shows "cl_key c \<noteq> cl_key c'"
proof
  assume eq: "cl_key c = cl_key c'"
  note exc = exclusive_run [OF assms(1)] and own = owned_run [OF assms(1)]
  have live: "live_on (is_clock s) (is_calls s ! p) k" "live_on (is_clock s) (is_calls s ! q) k'"
    using assms(5-10) by (simp_all add: live_on_def)
  obtain r r' where r: "row_of (is_db s) k = Some r" "row_of (is_db s) k' = Some r'"
    using exclusiveD(1) [OF exc assms(2) live(1)] exclusiveD(1) [OF exc assms(3) live(2)] by (auto simp: held_row_def)
  have "owns (is_db s) c k" "owns (is_db s) c' k'" "wf_table (is_db s)"
    using own nth_mem [OF assms(2)] nth_mem [OF assms(3)] assms(5,6,8,9) by (auto simp: owned_def own_pc_def)
  with r eq have "r = r'"
    by (intro row_key_unique) (auto simp: owns_def dest: row_of_Some)
  with row_of_Some [OF r(1)] row_of_Some [OF r(2)] have "k = k'" by simp
  with exclusiveD(2) [OF exc assms(2) live(1) assms(3)] live(2) assms(4) show False by simp
qed

definition twoKeys :: idem_sys where
  "twoKeys = takeStep exampleIdem 1 (Inr GNil) (takeStep exampleIdem 0 (Inr GNil)
     (emptyIdem 0\<lparr>is_calls := [(exampleCall ''k'' 0, Creating), (exampleCall ''l'' 0, Creating)]\<rparr>))"

lemma twoKeys_run: "idem_run True exampleIdem twoKeys"
proof -
  have "idem_run True exampleIdem (emptyIdem 0\<lparr>is_calls := [(exampleCall ''k'' 0, Creating)]\<rparr>)"
    using startCall_run [OF empty_run, of exampleIdem "exampleOptions ''k''" 0] exampleCall_starts
    by (simp add: emptyIdem_def)
  from startCall_run [OF this, of "exampleOptions ''l''"] exampleCall_starts
  have "idem_run True exampleIdem
      (emptyIdem 0\<lparr>is_calls := [(exampleCall ''k'' 0, Creating), (exampleCall ''l'' 0, Creating)]\<rparr>)"
    by (simp add: emptyIdem_def)
  then show ?thesis
    unfolding twoKeys_def
    by (intro takeStep_run)
      (simp_all add: takeStep_def idem_next_def emptyIdem_def CreateProcessing_def newRecord_def Let_def exampleCall_def
        duration_defs split: prod.split)
qed

theorem one_live_execution_witness:
  "\<exists>c c' k k'. is_calls twoKeys = [(c, Executing k), (c', Executing k')] \<and> cl_key c \<noteq> cl_key c'"
proof -
  have calls: "is_calls twoKeys = [(exampleCall ''k'' 0, Executing 1), (exampleCall ''l'' 0, Executing 2)]" "is_clock twoKeys = 0"
    by (simp_all add: twoKeys_def takeStep_def idem_next_def emptyIdem_def CreateProcessing_def newRecord_def Let_def
        exampleCall_def ir_key_def claimed_pc_def)
  with one_live_execution [OF twoKeys_run, of 0 1 "exampleCall ''k'' 0" "Executing 1" 1 "exampleCall ''l'' 0" "Executing 2" 2]
  show ?thesis by (auto simp: exampleCall_def hour_def)
qed

text \<open>
  C23. A replayed answer is genuine: whatever calls, failures, crashes and cleanups went before,
  it decodes the stored response of an execution that succeeded for the same scope, key and
  fingerprint, and an answer that is not a replay is what this call's own executor returned.
\<close>

theorem replay_is_genuine:
  assumes "idem_run prompt E s" and "(c, Returned (Inr res)) \<in> set (is_calls s)"
  shows "if ie_Replayed res
    then \<exists>body. executed_as E (is_log s) (cl_key c) (cl_fingerprint c) body \<and>
           decodeStoredResponse E (Some body) = Some (ie_Data res)
    else (c, Inr (ie_Data res)) \<in> set (is_log s)"
  using recorded_run [OF assms(1)] assms(2) by (fastforce simp: recorded_def)

definition replayed :: idem_sys where
  "replayed = takeStep exampleIdem 1 (Inr GNil) (takeStep exampleIdem 1 (Inr GNil)
     (takeStep exampleIdem 0 (Inr GNil) (takeStep exampleIdem 0 (Inr (GString ''ok'')) (takeStep exampleIdem 0 (Inr GNil)
       (emptyIdem 0\<lparr>is_calls := [(exampleCall ''k'' 0, Creating), (exampleCall ''k'' 0, Creating)]\<rparr>)))))"

lemma eval_ok [simp]: "marshalStoredResponse exampleIdem (GString ''ok'') = Some ''ok''"
  by (simp add: marshalStoredResponse_def exampleIdem_def DefaultIdempotencyConfig_def RedactText_def RedactJSON_def
      maxRedactDepth_def eval_trim Let_def)

lemma decode_ok [simp]: "decodeStoredResponse exampleIdem (Some ''ok'') = Some (GString ''ok'')"
  by (simp add: decodeStoredResponse_def exampleIdem_def eval_trim)

lemmas eval_idem = takeStep_def idem_next_def emptyIdem_def CreateProcessing_def newRecord_def Let_def ir_key_def
  exampleCall_def claimed_pc_def GetByScopeAndKeyHash_def onLoaded_def onExisting_def MarkSucceeded_def update_where_def
  TryReclaim_def lock_free_def duration_defs

lemma two_calls_run:
  "idem_run prompt exampleIdem
     (emptyIdem 0\<lparr>is_calls := [(exampleCall ''k'' 0, Creating), (exampleCall ''k'' 0, Creating)]\<rparr>)"
proof -
  have "idem_run prompt exampleIdem (emptyIdem 0\<lparr>is_calls := [(exampleCall ''k'' 0, Creating)]\<rparr>)"
    using startCall_run [OF empty_run, of exampleIdem "exampleOptions ''k''" 0] exampleCall_starts
    by (simp add: emptyIdem_def)
  from startCall_run [OF this, of "exampleOptions ''k''"] exampleCall_starts show ?thesis
    by (simp add: emptyIdem_def)
qed

lemma replayed_calls:
  "idem_run False exampleIdem replayed"
  "(exampleCall ''k'' 0, Returned (Inr \<lparr>ie_Data = GString ''ok'', ie_Replayed = True\<rparr>)) \<in> set (is_calls replayed)"
proof -
  show "idem_run False exampleIdem replayed"
    unfolding replayed_def by (intro takeStep_run two_calls_run) (simp_all add: eval_idem)
  show "(exampleCall ''k'' 0, Returned (Inr \<lparr>ie_Data = GString ''ok'', ie_Replayed = True\<rparr>)) \<in> set (is_calls replayed)"
    by (simp add: replayed_def eval_idem)
qed

theorem replay_is_genuine_witness:
  "executed_as exampleIdem (is_log replayed) (''s'', ''k'') examplePrint ''ok''"
proof -
  obtain body where "executed_as exampleIdem (is_log replayed) (''s'', ''k'') examplePrint body"
    "decodeStoredResponse exampleIdem (Some body) = Some (GString ''ok'')"
    using replay_is_genuine [OF replayed_calls] by (auto simp: exampleCall_def cl_key_def)
  then show ?thesis by (auto simp: decodeStoredResponse_def exampleIdem_def split: if_splits)
qed

text \<open>
  What one undisturbed call does is decided by the record it finds: it runs the executor when
  there is none or its lock is over and it has expired or failed; otherwise it answers without
  running anything: a conflict for another payload, the stored response after a success, a
  refusal with the time to wait while the request is processed or backs off.
\<close>

theorem execute_decides:
  assumes "wf_table db" and "startExecute E True opts now = Guarded c"
  shows "case verdict E c (found_by c db) of
      Some a \<Rightarrow> Execute E True opts now (\<lambda>_. Answered) (res, t) db = (a, False, db\<lparr>idb_next := idb_next db + 1\<rparr>)
    | None \<Rightarrow> \<exists>db'. Execute E True opts now (\<lambda>_. Answered) (res, t) db = (executed_answer E res, True, db') \<and> wf_table db'"
  using runCall_verdict [OF assms(1), of E c res t] assms(2)
  by (auto simp: Execute_def split: option.splits)

theorem execute_decides_witness:
  "fst (Execute exampleIdem True (exampleOptions ''k'') 0 (\<lambda>_. Answered) (Inl ''BAD'', 0) \<lparr>idb_rows = [], idb_next = 1\<rparr>) =
     Inl (ExecutionFailed ''BAD'')"
  using execute_decides [OF _ exampleCall_starts(1), of "\<lparr>idb_rows = [], idb_next = 1\<rparr>" 0 "Inl ''BAD''" 0]
  by (auto simp: wf_table_def found_by_def verdict_def executed_answer_def)

text \<open>
  C24. Executing and repeating is a round trip.  Every statement of both calls is answered, the
  first call finds nothing that refuses it, and its result can be encoded for storing.  Then it
  executes and answers with its result, and the same request within the record's time to live is
  answered without running the executor: with the decoded stored response if it decodes, and with
  store unavailable if it does not, as for a response that was stored cut off (see
  \<open>truncated_response_never_replays\<close>).
\<close>

theorem execute_then_replay:
  assumes "wf_table db" and "startExecute E True opts now = Guarded c" and "startExecute E True opts now' = Guarded c'"
    and "verdict E c (found_by c db) = None" and "now' < cl_expiresAt c" and "marshalStoredResponse E d = Some body"
  shows "case Execute E True opts now (\<lambda>_. Answered) (Inr d, t) db of
      (answer, executed, db') \<Rightarrow>
        answer = Inr \<lparr>ie_Data = d, ie_Replayed = False\<rparr> \<and> executed \<and>
        (case Execute E True opts now' (\<lambda>_. Answered) x db' of
           (answer', executed', _) \<Rightarrow> \<not> executed' \<and>
             answer' = (case decodeStoredResponse E (Some body) of
                Some d' \<Rightarrow> Inr \<lparr>ie_Data = d', ie_Replayed = True\<rparr>
              | None \<Rightarrow> Inl ErrIdempotencyStoreUnavail))"
proof -
  obtain db' r where db': "Execute E True opts now (\<lambda>_. Answered) (Inr d, t) db = (Inr \<lparr>ie_Data = d, ie_Replayed = False\<rparr>, True, db')"
    "wf_table db'" and r: "found_by c db' = Some r" "ir_RequestFingerprint r = cl_fingerprint c"
      "ir_Status r = IdempotencyStatusSucceeded" "ir_ResponseBody r = Some body" "ir_ExpiresAt r = cl_expiresAt c"
    using runCall_verdict [OF assms(1), of E c "Inr d" t] assms(2,4,6) by (auto simp: Execute_def executed_answer_def)
  have same: "cl_scope c' = cl_scope c" "cl_keyHash c' = cl_keyHash c" "cl_fingerprint c' = cl_fingerprint c" "cl_now c' = now'"
    using assms(2,3) by (auto simp: startExecute_def Let_def split: if_splits sum.splits option.splits)
  then have found: "found_by c' db' = Some r" using r(1) by (simp add: found_by_def cl_key_def)
  then have "verdict E c' (found_by c' db') = Some (case decodeStoredResponse E (Some body) of
      Some d' \<Rightarrow> Inr \<lparr>ie_Data = d', ie_Replayed = True\<rparr> | None \<Rightarrow> Inl ErrIdempotencyStoreUnavail)"
    using r same assms(5) by (auto simp: verdict_def split: option.split)
  with run_refused [OF db'(2) this] assms(3) db'(1) show ?thesis by (simp add: Execute_def)
qed

theorem execute_then_replay_witness:
  "case Execute exampleIdem True (exampleOptions ''k'') 0 (\<lambda>_. Answered) (Inr (GString ''ok''), 0) \<lparr>idb_rows = [], idb_next = 1\<rparr> of
     (answer, executed, db') \<Rightarrow> answer = Inr \<lparr>ie_Data = GString ''ok'', ie_Replayed = False\<rparr> \<and> executed \<and>
       (case Execute exampleIdem True (exampleOptions ''k'') 1 (\<lambda>_. Answered) (Inr GNil, 0) db' of
          (answer', executed', _) \<Rightarrow> \<not> executed' \<and> answer' = Inr \<lparr>ie_Data = GString ''ok'', ie_Replayed = True\<rparr>)"
proof -
  have "wf_table \<lparr>idb_rows = [], idb_next = 1\<rparr>" "verdict exampleIdem (exampleCall ''k'' 0) (found_by (exampleCall ''k'' 0) \<lparr>idb_rows = [], idb_next = 1\<rparr>) = None"
    "1 < cl_expiresAt (exampleCall ''k'' 0)"
    by (simp_all add: wf_table_def verdict_def found_by_def exampleCall_def hour_def)
  from execute_then_replay [OF this(1) exampleCall_starts(1) exampleCall_starts(1) [of 1] this(2,3) eval_ok,
      where t = 0 and x = "(Inr GNil, 0)"]
  show ?thesis by simp
qed

section \<open>Where the promise ends\<close>

text \<open>A request whose process died stays refused until its record expires: the end of the processing
  lock is never looked at.\<close>

lemma processing_lock_never_reclaimed:
  assumes "ir_Status r = IdempotencyStatusProcessing" "ir_RequestFingerprint r = cl_fingerprint c" "cl_now c < ir_ExpiresAt r"
    "ir_LockedUntil r = Some l" "l \<le> cl_now c"
  shows "verdict E c (Some r) = Some (Inl (ErrIdempotencyInProgress (Some 1)))"
proof -
  have "(if l < cl_now c then - ((cl_now c - l) div second) else (l - cl_now c) div second) \<le> 0"
    using assms(5) by (simp add: second_def pos_imp_zdiv_nonneg_iff)
  with assms show ?thesis by (simp add: verdict_def retryAfter_def Let_def)
qed

text \<open>A response longer than the limit is stored cut off, so that no replay can decode it.\<close>

lemma truncated_response_never_replays:
  assumes "\<And>s. ev_unmarshal E (s @ ''...(truncated)'') = None" "\<And>s. trim_space (s @ ''...(truncated)'') \<noteq> []"
    and "ev_marshal E d = Some raw" "0 < ic_MaxStoredResponseLen (ev_cfg E)"
    "ic_MaxStoredResponseLen (ev_cfg E) < int (length (RedactText E raw))"
  shows "\<exists>body. marshalStoredResponse E d = Some body \<and> decodeStoredResponse E (Some body) = None"
  using assms by (auto simp: marshalStoredResponse_def decodeStoredResponse_def Let_def)

text \<open>The codes in a stored response are masked, so a repeated request for new redeem codes gets none.\<close>

lemma redeem_codes_masked:
  "redactValueWithDepth 0 (GList [GObject [(''code'', GString c), (''value'', v)]]) =
     GList [GObject [(''code'', GString ''***''), (''value'', redactValueWithDepth 2 v)]]"
  by (simp add: maxRedactDepth_def isSensitiveKey_def normalizeKey_def defaultSensitiveKeys_def ascii_lower_def eval_trim
      numeral_2_eq_2)

text \<open>By default a request without a key is executed although its route requires one.\<close>

lemma missing_key_executes:
  "startExecute (exampleIdem\<lparr>ev_cfg := DefaultIdempotencyConfig\<rparr>) True (exampleOptions []) now = Unguarded"
  by (simp add: startExecute_def exampleOptions_def NormalizeIdempotencyKey_def DefaultIdempotencyConfig_def Let_def)

text \<open>
  The statement that reclaims an expired record does not check that it is still expired.  Two
  prompt calls find the expired record of an earlier success: one reclaims it and succeeds, and
  the other then reclaims the fresh success and executes the request again.
\<close>

lemma exampleCall_sel [simp]:
  "cl_scope (exampleCall k t) = ''s''" "cl_keyHash (exampleCall k t) = k" "cl_now (exampleCall k t) = t"
  "cl_lockedUntil (exampleCall k t) = t + 30 * second" "cl_expiresAt (exampleCall k t) = t + hour"
  "cl_fingerprint (exampleCall k t) = examplePrint"
  by (simp_all add: exampleCall_def)

text \<open>The row after a success that was claimed at \<open>t\<close>.\<close>

definition exampleRow :: "time \<Rightarrow> IdempotencyRecord" where
  "exampleRow t =
     \<lparr>ir_ID = 1, ir_Scope = ''s'', ir_IdempotencyKeyHash = ''k'', ir_RequestFingerprint = examplePrint,
      ir_Status = ''succeeded'', ir_ResponseStatus = Some 200, ir_ResponseBody = Some ''ok'', ir_ErrorReason = None,
      ir_LockedUntil = None, ir_ExpiresAt = t + hour\<rparr>"

abbreviation "executedOK \<equiv> Returned (Inr \<lparr>ie_Data = GString ''ok'', ie_Replayed = False\<rparr>)"
abbreviation "exampleStep p \<equiv> takeStep exampleIdem p (Inr (GString ''ok''))"

lemmas eval_steps = takeStep_def idem_next_def CreateProcessing_def newRecord_def Let_def ir_key_def claimed_pc_def
  GetByScopeAndKeyHash_def onLoaded_def onExisting_def MarkSucceeded_def update_where_def TryReclaim_def lock_free_def

lemma first_success:
  "exampleStep 0 (exampleStep 0 (exampleStep 0 (emptyIdem 0\<lparr>is_calls := [(exampleCall ''k'' 0, Creating)]\<rparr>))) =
     \<lparr>is_clock = 0, is_db = \<lparr>idb_rows = [exampleRow 0], idb_next = 2\<rparr>, is_calls = [(exampleCall ''k'' 0, executedOK)],
      is_log = [(exampleCall ''k'' 0, Inr (GString ''ok''))]\<rparr>"
  by (simp add: eval_steps emptyIdem_def exampleRow_def)

definition lateStart :: idem_sys where
  "lateStart =
     \<lparr>is_clock = hour, is_db = \<lparr>idb_rows = [exampleRow 0], idb_next = 2\<rparr>,
      is_calls = [(exampleCall ''k'' 0, executedOK), (exampleCall ''k'' hour, Creating), (exampleCall ''k'' hour, Creating)],
      is_log = [(exampleCall ''k'' 0, Inr (GString ''ok''))]\<rparr>"

lemma lateStart_run: "idem_run True exampleIdem lateStart"
proof -
  have "idem_run True exampleIdem (emptyIdem 0\<lparr>is_calls := [(exampleCall ''k'' 0, Creating)]\<rparr>)"
    using startCall_run [OF empty_run, of exampleIdem "exampleOptions ''k''" 0] exampleCall_starts by (simp add: emptyIdem_def)
  then have "idem_run True exampleIdem
      (exampleStep 0 (exampleStep 0 (exampleStep 0 (emptyIdem 0\<lparr>is_calls := [(exampleCall ''k'' 0, Creating)]\<rparr>))))"
    by (intro takeStep_run) (simp_all add: eval_steps emptyIdem_def duration_defs)
  from wait_run [OF this [unfolded first_success], of hour]
  have "idem_run True exampleIdem
      \<lparr>is_clock = hour, is_db = \<lparr>idb_rows = [exampleRow 0], idb_next = 2\<rparr>, is_calls = [(exampleCall ''k'' 0, executedOK)],
       is_log = [(exampleCall ''k'' 0, Inr (GString ''ok''))]\<rparr>" (is "idem_run _ _ ?s")
    by (simp add: duration_defs)
  from startCall_run [OF this, of "exampleOptions ''k''"] exampleCall_starts
  have "idem_run True exampleIdem (?s\<lparr>is_calls := is_calls ?s @ [(exampleCall ''k'' hour, Creating)]\<rparr>)" by simp
  from startCall_run [OF this, of "exampleOptions ''k''"] exampleCall_starts show ?thesis
    by (simp add: lateStart_def)
qed

text \<open>Both calls find the expired record.\<close>

lemma both_find_it:
  "fold exampleStep [1, 2, 1, 2] lateStart =
     lateStart\<lparr>is_db := \<lparr>idb_rows = [exampleRow 0], idb_next = 4\<rparr>,
       is_calls := [(exampleCall ''k'' 0, executedOK), (exampleCall ''k'' hour, ReclaimingExpired (exampleRow 0)),
                    (exampleCall ''k'' hour, ReclaimingExpired (exampleRow 0))]\<rparr>"
  by (simp add: lateStart_def eval_steps exampleRow_def)

lemma one_succeeds:
  "fold exampleStep [1, 1, 1] (fold exampleStep [1, 2, 1, 2] lateStart) =
     lateStart\<lparr>is_db := \<lparr>idb_rows = [exampleRow hour], idb_next = 4\<rparr>,
       is_calls := [(exampleCall ''k'' 0, executedOK), (exampleCall ''k'' hour, executedOK),
                    (exampleCall ''k'' hour, ReclaimingExpired (exampleRow 0))],
       is_log := [(exampleCall ''k'' 0, Inr (GString ''ok'')), (exampleCall ''k'' hour, Inr (GString ''ok''))]\<rparr>"
  unfolding both_find_it by (simp add: lateStart_def eval_steps exampleRow_def)

definition twoReclaims :: idem_sys where
  "twoReclaims = fold exampleStep [2, 2] (fold exampleStep [1, 1, 1] (fold exampleStep [1, 2, 1, 2] lateStart))"

lemma twoReclaims_run: "idem_run True exampleIdem twoReclaims"
proof -
  have "idem_run True exampleIdem (fold exampleStep [1, 2, 1, 2] lateStart)"
    by (simp, intro takeStep_run lateStart_run) (simp_all add: lateStart_def eval_steps exampleRow_def second_def)
  then have "idem_run True exampleIdem (fold exampleStep [1, 1, 1] (fold exampleStep [1, 2, 1, 2] lateStart))"
    unfolding both_find_it
    by (simp, intro takeStep_run) (simp_all add: lateStart_def eval_steps exampleRow_def duration_defs)
  then show ?thesis
    unfolding twoReclaims_def one_succeeds
    by (simp, intro takeStep_run) (simp_all add: lateStart_def eval_steps exampleRow_def duration_defs)
qed

lemma fresh_success_executed_again:
  "idem_run True exampleIdem twoReclaims \<and> is_clock twoReclaims = hour \<and>
   is_log twoReclaims =
     [(exampleCall ''k'' 0, Inr (GString ''ok'')), (exampleCall ''k'' hour, Inr (GString ''ok'')),
      (exampleCall ''k'' hour, Inr (GString ''ok''))]"
proof -
  have "is_clock twoReclaims = hour" "is_log twoReclaims =
     [(exampleCall ''k'' 0, Inr (GString ''ok'')), (exampleCall ''k'' hour, Inr (GString ''ok'')),
      (exampleCall ''k'' hour, Inr (GString ''ok''))]"
    unfolding twoReclaims_def one_succeeds by (simp_all add: lateStart_def eval_steps exampleRow_def)
  with twoReclaims_run show ?thesis by simp
qed

end
