(* ===== verification/Go_Json.thy ===== *)
theory Go_Json
  imports Prelude
begin

text \<open>
  JSON texts as \<open>encoding/json\<close> writes them.  A \<open>json.RawMessage\<close> is its bytes (empty when nil);
  an encoded value is a text as well, so that raw messages can be embedded as they are.  Strings
  are escaped as \<open>json.Marshal\<close> does it, with HTML escaping; they are valid UTF-8, because the
  program gets them from \<open>json.Unmarshal\<close>, which replaces invalid bytes.
\<close>

type_synonym RawMessage = gostr

section \<open>Writing\<close>

definition hex_digit :: "nat \<Rightarrow> char" where
  "hex_digit n = (if n < 10 then char_of (48 + n) else char_of (87 + n))"

definition esc_hex :: "nat \<Rightarrow> gostr" where
  "esc_hex n = [CHR 0x5C, CHR ''u'', CHR ''0'', CHR ''0'', hex_digit (n div 16), hex_digit (n mod 16)]"

definition esc_byte :: "char \<Rightarrow> gostr" where
  "esc_byte c =
     (if c = CHR 0x22 \<or> c = CHR 0x5C then [CHR 0x5C, c]
      else if c = CHR 0x08 then [CHR 0x5C, CHR ''b'']
      else if c = CHR 0x0C then [CHR 0x5C, CHR ''f'']
      else if c = CHR 0x0A then [CHR 0x5C, CHR ''n'']
      else if c = CHR 0x0D then [CHR 0x5C, CHR ''r'']
      else if c = CHR 0x09 then [CHR 0x5C, CHR ''t'']
      else if (of_char c :: nat) < 32 \<or> c = CHR ''<'' \<or> c = CHR ''>'' \<or> c = CHR ''&'' then esc_hex (of_char c)
      else [c])"

text \<open>The line separators U+2028 and U+2029 are escaped too.\<close>

definition sep2028 :: gostr where "sep2028 = [CHR 0xE2, CHR 0x80, CHR 0xA8]"
definition sep2029 :: gostr where "sep2029 = [CHR 0xE2, CHR 0x80, CHR 0xA9]"

function esc_body :: "gostr \<Rightarrow> gostr" where
  "esc_body [] = []"
| "esc_body (c # s) =
     (if prefix sep2028 (c # s) then CHR 0x5C # ''u2028'' @ esc_body (drop 2 s)
      else if prefix sep2029 (c # s) then CHR 0x5C # ''u2029'' @ esc_body (drop 2 s)
      else esc_byte c @ esc_body s)"
  by pat_completeness auto
termination by (relation "measure length") auto

definition enc_string :: "gostr \<Rightarrow> RawMessage" where
  "enc_string s = CHR 0x22 # esc_body s @ [CHR 0x22]"

definition enc_bool :: "bool \<Rightarrow> RawMessage" where
  "enc_bool b = (if b then ''true'' else ''false'')"

definition comma_sep :: "gostr list \<Rightarrow> gostr" where
  "comma_sep xs = concat (case xs of [] \<Rightarrow> [] | y # ys \<Rightarrow> y # map (\<lambda>z. CHR '','' # z) ys)"

definition enc_array :: "RawMessage list \<Rightarrow> RawMessage" where
  "enc_array xs = CHR ''['' # comma_sep xs @ '']''"

definition enc_object :: "(gostr \<times> RawMessage) list \<Rightarrow> RawMessage" where
  "enc_object ms = CHR ''{'' # comma_sep (map (\<lambda>(k, v). enc_string k @ CHR '':'' # v) ms) @ ''}''"

end
