(* ===== verification/Api_Types.thy ===== *)
theory Api_Types
  imports Go_Json Complex_Main
begin

text \<open>
  The types of \<open>pkg/apicompat/types.go\<close>: requests, responses and stream events of the Anthropic
  Messages, OpenAI Responses and OpenAI Chat Completions protocols.  A struct is a record in the
  order of its fields; \<open>zero_...\<close> is its zero value, from which composite literals are built.  A
  pointer is an \<open>option\<close>, a \<open>json.RawMessage\<close> its bytes, a \<open>float64\<close> a rational.
\<close>

type_synonym float64 = rat

section \<open>Anthropic Messages\<close>

record AnthropicOutputConfig =
  aoc_Effort :: gostr

record AnthropicThinking =
  ath_Type :: gostr
  ath_BudgetTokens :: int

record AnthropicMessage =
  am_Role :: gostr
  am_Content :: RawMessage

record AnthropicImageSource =
  ai_Type :: gostr
  ai_MediaType :: gostr
  ai_Data :: gostr

record AnthropicContentBlock =
  ab_Type :: gostr
  ab_Text :: gostr
  ab_Thinking :: gostr
  ab_Source :: "AnthropicImageSource option"
  ab_ID :: gostr
  ab_Name :: gostr
  ab_Input :: RawMessage
  ab_ToolUseID :: gostr
  ab_Content :: RawMessage
  ab_IsError :: bool

definition zero_ab :: AnthropicContentBlock where
  "zero_ab = \<lparr>ab_Type = '''', ab_Text = '''', ab_Thinking = '''', ab_Source = None, ab_ID = '''', ab_Name = '''',
     ab_Input = [], ab_ToolUseID = '''', ab_Content = [], ab_IsError = False\<rparr>"

record AnthropicTool =
  atl_Type :: gostr
  atl_Name :: gostr
  atl_Description :: gostr
  atl_InputSchema :: RawMessage

record AnthropicRequest =
  aq_Model :: gostr
  aq_MaxTokens :: int
  aq_System :: RawMessage
  aq_Messages :: "AnthropicMessage list"
  aq_Tools :: "AnthropicTool list"
  aq_Stream :: bool
  aq_Temperature :: "float64 option"
  aq_TopP :: "float64 option"
  aq_StopSeqs :: "gostr list"
  aq_Thinking :: "AnthropicThinking option"
  aq_ToolChoice :: RawMessage
  aq_OutputConfig :: "AnthropicOutputConfig option"

record AnthropicUsage =
  au_InputTokens :: int
  au_OutputTokens :: int
  au_CacheCreationInputTokens :: int
  au_CacheReadInputTokens :: int

definition zero_au :: AnthropicUsage where
  "zero_au = \<lparr>au_InputTokens = 0, au_OutputTokens = 0, au_CacheCreationInputTokens = 0, au_CacheReadInputTokens = 0\<rparr>"

record AnthropicResponse =
  ar_ID :: gostr
  ar_Type :: gostr
  ar_Role :: gostr
  ar_Content :: "AnthropicContentBlock list"
  ar_Model :: gostr
  ar_StopReason :: gostr
  ar_StopSequence :: "gostr option"
  ar_Usage :: AnthropicUsage

definition zero_ar :: AnthropicResponse where
  "zero_ar = \<lparr>ar_ID = '''', ar_Type = '''', ar_Role = '''', ar_Content = [], ar_Model = '''', ar_StopReason = '''',
     ar_StopSequence = None, ar_Usage = zero_au\<rparr>"

record AnthropicDelta =
  ad_Type :: gostr
  ad_Text :: gostr
  ad_PartialJSON :: gostr
  ad_Thinking :: gostr
  ad_Signature :: gostr
  ad_StopReason :: gostr
  ad_StopSequence :: "gostr option"

definition zero_ad :: AnthropicDelta where
  "zero_ad = \<lparr>ad_Type = '''', ad_Text = '''', ad_PartialJSON = '''', ad_Thinking = '''', ad_Signature = '''',
     ad_StopReason = '''', ad_StopSequence = None\<rparr>"

record AnthropicStreamEvent =
  ae_Type :: gostr
  ae_Message :: "AnthropicResponse option"
  ae_Index :: "int option"
  ae_ContentBlock :: "AnthropicContentBlock option"
  ae_Delta :: "AnthropicDelta option"
  ae_Usage :: "AnthropicUsage option"

definition zero_ae :: AnthropicStreamEvent where
  "zero_ae = \<lparr>ae_Type = '''', ae_Message = None, ae_Index = None, ae_ContentBlock = None, ae_Delta = None,
     ae_Usage = None\<rparr>"

section \<open>OpenAI Responses\<close>

record ResponsesReasoning =
  prs_Effort :: gostr
  prs_Summary :: gostr

record ResponsesTool =
  ptl_Type :: gostr
  ptl_Name :: gostr
  ptl_Description :: gostr
  ptl_Parameters :: RawMessage
  ptl_Strict :: "bool option"

record ResponsesInputItem =
  pi_Type :: gostr
  pi_Role :: gostr
  pi_Content :: RawMessage
  pi_CallID :: gostr
  pi_Name :: gostr
  pi_Arguments :: gostr
  pi_ID :: gostr
  pi_Output :: gostr

definition zero_pi :: ResponsesInputItem where
  "zero_pi = \<lparr>pi_Type = '''', pi_Role = '''', pi_Content = [], pi_CallID = '''', pi_Name = '''', pi_Arguments = '''',
     pi_ID = '''', pi_Output = ''''\<rparr>"

record ResponsesContentPart =
  pp_Type :: gostr
  pp_Text :: gostr
  pp_ImageURL :: gostr

definition zero_pp :: ResponsesContentPart where
  "zero_pp = \<lparr>pp_Type = '''', pp_Text = '''', pp_ImageURL = ''''\<rparr>"

record ResponsesRequest =
  pq_Model :: gostr
  pq_Input :: RawMessage
  pq_MaxOutputTokens :: "int option"
  pq_Temperature :: "float64 option"
  pq_TopP :: "float64 option"
  pq_Stream :: bool
  pq_Tools :: "ResponsesTool list"
  pq_Include :: "gostr list"
  pq_Store :: "bool option"
  pq_Reasoning :: "ResponsesReasoning option"
  pq_ToolChoice :: RawMessage
  pq_ServiceTier :: gostr

record WebSearchAction =
  wa_Type :: gostr
  wa_Query :: gostr

record ResponsesSummary =
  psm_Type :: gostr
  psm_Text :: gostr

record ResponsesOutput =
  po_Type :: gostr
  po_ID :: gostr
  po_Role :: gostr
  po_Content :: "ResponsesContentPart list"
  po_Status :: gostr
  po_EncryptedContent :: gostr
  po_Summary :: "ResponsesSummary list"
  po_CallID :: gostr
  po_Name :: gostr
  po_Arguments :: gostr
  po_Action :: "WebSearchAction option"

definition zero_po :: ResponsesOutput where
  "zero_po = \<lparr>po_Type = '''', po_ID = '''', po_Role = '''', po_Content = [], po_Status = '''', po_EncryptedContent = '''',
     po_Summary = [], po_CallID = '''', po_Name = '''', po_Arguments = '''', po_Action = None\<rparr>"

record ResponsesUsage =
  pu_InputTokens :: int
  pu_OutputTokens :: int
  pu_TotalTokens :: int
  pu_InputTokensDetails :: "int option"
  pu_OutputTokensDetails :: "int option"

record ResponsesIncompleteDetails =
  pid_Reason :: gostr

record ResponsesError =
  per_Code :: gostr
  per_Message :: gostr

record ResponsesResponse =
  pr_ID :: gostr
  pr_Object :: gostr
  pr_Model :: gostr
  pr_Status :: gostr
  pr_Output :: "ResponsesOutput list"
  pr_Usage :: "ResponsesUsage option"
  pr_IncompleteDetails :: "ResponsesIncompleteDetails option"
  pr_Error :: "ResponsesError option"

definition zero_pr :: ResponsesResponse where
  "zero_pr = \<lparr>pr_ID = '''', pr_Object = '''', pr_Model = '''', pr_Status = '''', pr_Output = [], pr_Usage = None,
     pr_IncompleteDetails = None, pr_Error = None\<rparr>"

text \<open>
  \<open>InputTokensDetails\<close> and \<open>OutputTokensDetails\<close> point to structs of one field, \<open>CachedTokens\<close> and
  \<open>ReasoningTokens\<close>; the option holds that field.
\<close>

record ResponsesStreamEvent =
  pe_Type :: gostr
  pe_Response :: "ResponsesResponse option"
  pe_Item :: "ResponsesOutput option"
  pe_OutputIndex :: int
  pe_ContentIndex :: int
  pe_Delta :: gostr
  pe_Text :: gostr
  pe_ItemID :: gostr
  pe_CallID :: gostr
  pe_Name :: gostr
  pe_Arguments :: gostr
  pe_SummaryIndex :: int
  pe_Code :: gostr
  pe_Param :: gostr
  pe_SequenceNumber :: int

definition zero_pe :: ResponsesStreamEvent where
  "zero_pe = \<lparr>pe_Type = '''', pe_Response = None, pe_Item = None, pe_OutputIndex = 0, pe_ContentIndex = 0,
     pe_Delta = '''', pe_Text = '''', pe_ItemID = '''', pe_CallID = '''', pe_Name = '''', pe_Arguments = '''',
     pe_SummaryIndex = 0, pe_Code = '''', pe_Param = '''', pe_SequenceNumber = 0\<rparr>"

section \<open>OpenAI Chat Completions\<close>

record ChatFunctionCall =
  hfc_Name :: gostr
  hfc_Arguments :: gostr

record ChatToolCall =
  htc_Index :: "int option"
  htc_ID :: gostr
  htc_Type :: gostr
  htc_Function :: ChatFunctionCall

record ChatMessage =
  hm_Role :: gostr
  hm_Content :: RawMessage
  hm_ReasoningContent :: gostr
  hm_Name :: gostr
  hm_ToolCalls :: "ChatToolCall list"
  hm_ToolCallID :: gostr
  hm_FunctionCall :: "ChatFunctionCall option"

definition zero_hm :: ChatMessage where
  "zero_hm = \<lparr>hm_Role = '''', hm_Content = [], hm_ReasoningContent = '''', hm_Name = '''', hm_ToolCalls = [],
     hm_ToolCallID = '''', hm_FunctionCall = None\<rparr>"

record ChatImageURL =
  hiu_URL :: gostr
  hiu_Detail :: gostr

record ChatContentPart =
  hcp_Type :: gostr
  hcp_Text :: gostr
  hcp_ImageURL :: "ChatImageURL option"

record ChatFunction =
  hfn_Name :: gostr
  hfn_Description :: gostr
  hfn_Parameters :: RawMessage
  hfn_Strict :: "bool option"

record ChatTool =
  htl_Type :: gostr
  htl_Function :: "ChatFunction option"

record ChatCompletionsRequest =
  hq_Model :: gostr
  hq_Messages :: "ChatMessage list"
  hq_MaxTokens :: "int option"
  hq_MaxCompletionTokens :: "int option"
  hq_Temperature :: "float64 option"
  hq_TopP :: "float64 option"
  hq_Stream :: bool
  hq_IncludeUsage :: "bool option"
  hq_Tools :: "ChatTool list"
  hq_ToolChoice :: RawMessage
  hq_ReasoningEffort :: gostr
  hq_ServiceTier :: gostr
  hq_Stop :: RawMessage
  hq_Functions :: "ChatFunction list"
  hq_FunctionCall :: RawMessage

text \<open>\<open>StreamOptions\<close> points to a struct of one field, \<open>IncludeUsage\<close>; the option holds it.\<close>

record ChatUsage =
  hu_PromptTokens :: int
  hu_CompletionTokens :: int
  hu_TotalTokens :: int
  hu_PromptTokensDetails :: "int option"

record ChatChoice =
  hch_Index :: int
  hch_Message :: ChatMessage
  hch_FinishReason :: gostr

record ChatCompletionsResponse =
  hr_ID :: gostr
  hr_Object :: gostr
  hr_Created :: int64
  hr_Model :: gostr
  hr_Choices :: "ChatChoice list"
  hr_Usage :: "ChatUsage option"
  hr_SystemFingerprint :: gostr
  hr_ServiceTier :: gostr

record ChatDelta =
  hdl_Role :: gostr
  hdl_Content :: "gostr option"
  hdl_ReasoningContent :: "gostr option"
  hdl_ToolCalls :: "ChatToolCall list"

definition zero_hdl :: ChatDelta where
  "zero_hdl = \<lparr>hdl_Role = '''', hdl_Content = None, hdl_ReasoningContent = None, hdl_ToolCalls = []\<rparr>"

record ChatChunkChoice =
  hcc_Index :: int
  hcc_Delta :: ChatDelta
  hcc_FinishReason :: "gostr option"

record ChatCompletionsChunk =
  hk_ID :: gostr
  hk_Object :: gostr
  hk_Created :: int64
  hk_Model :: gostr
  hk_Choices :: "ChatChunkChoice list"
  hk_Usage :: "ChatUsage option"
  hk_SystemFingerprint :: gostr
  hk_ServiceTier :: gostr

lemmas zero_defs =
  zero_ab_def zero_au_def zero_ar_def zero_ad_def zero_ae_def zero_pi_def zero_pp_def zero_po_def zero_pr_def
  zero_pe_def zero_hm_def zero_hdl_def

end
