(* ===== verification/Tool_IDs.thy ===== *)
theory Tool_IDs
  imports Api_Types
begin

text \<open>
  The identifiers of tool calls as \<open>pkg/apicompat\<close> rewrites them between the protocols
  (\<open>anthropic_to_responses.go\<close>, \<open>responses_to_anthropic_request.go\<close>).
\<close>

definition toResponsesCallID :: "gostr \<Rightarrow> gostr" where
  "toResponsesCallID i = (if has_prefix i ''fc_'' then i else ''fc_'' @ i)"

definition anthropic_id :: "gostr \<Rightarrow> bool" where
  "anthropic_id i \<longleftrightarrow> has_prefix i ''toolu_'' \<or> has_prefix i ''call_''"

definition fromResponsesCallID :: "gostr \<Rightarrow> gostr" where
  "fromResponsesCallID i =
     (case cut_prefix i ''fc_'' of
        Some after \<Rightarrow> if anthropic_id after then after else i
      | None \<Rightarrow> i)"

definition fromResponsesCallIDToAnthropic :: "gostr \<Rightarrow> gostr" where
  "fromResponsesCallIDToAnthropic i =
     (case cut_prefix i ''fc_'' of
        Some after \<Rightarrow> if anthropic_id after then after else ''toolu_'' @ i
      | None \<Rightarrow> if anthropic_id i then i else ''toolu_'' @ i)"

lemma to_call_id_prefix: "has_prefix (toResponsesCallID i) ''fc_''"
  by (simp add: toResponsesCallID_def has_prefix_def)

lemma anthropic_id_no_fc: "anthropic_id i \<Longrightarrow> \<not> has_prefix i ''fc_''"
  by (auto simp: anthropic_id_def has_prefix_def prefix_def)

lemma cut_fc: "cut_prefix (''fc_'' @ i) ''fc_'' = Some i"
  by (simp add: cut_prefix_def has_prefix_def)

lemma from_to_call_id: "anthropic_id i \<Longrightarrow> fromResponsesCallID (toResponsesCallID i) = i"
  using cut_fc [of i] by (simp add: toResponsesCallID_def fromResponsesCallID_def anthropic_id_no_fc)

lemma from_to_call_id_anthropic: "anthropic_id i \<Longrightarrow> fromResponsesCallIDToAnthropic (toResponsesCallID i) = i"
  using cut_fc [of i] by (simp add: toResponsesCallID_def fromResponsesCallIDToAnthropic_def anthropic_id_no_fc)

lemma to_call_id_inj_on: "inj_on toResponsesCallID {i. \<not> has_prefix i ''fc_''}"
  by (auto simp: inj_on_def toResponsesCallID_def)

end
