(* ===== verification/Stream_Refinement.thy ===== *)
theory Stream_Refinement
  imports Main
begin

text \<open>
  Event streams.  A converter takes an event and a state to the events it emits and the next
  state; a protocol is a partial step on phases, which fails on an event that may not come next.
  The locale \<open>converter\<close> states what it means that a converter serves a client: along every stream
  that the upstream protocol allows, the client's view of what is emitted follows the reference
  reading of the input.  The locale's lemmas lift the law from one event to whole streams.
\<close>

section \<open>Running a converter\<close>

fun run_stream :: "('e \<Rightarrow> 's \<Rightarrow> 'c list \<times> 's) \<Rightarrow> 'e list \<Rightarrow> 's \<Rightarrow> 'c list \<times> 's" where
  "run_stream conv [] s = ([], s)"
| "run_stream conv (e # es) s =
     (let (cs, s1) = conv e s; (ds, s2) = run_stream conv es s1 in (cs @ ds, s2))"

lemma run_stream_append:
  "run_stream conv (es @ fs) s =
     (let (cs, s1) = run_stream conv es s; (ds, s2) = run_stream conv fs s1 in (cs @ ds, s2))"
  by (induction es arbitrary: s) (simp_all add: split_beta Let_def)

lemma run_stream_snoc:
  "run_stream conv (es @ [e]) s =
     (let (cs, s1) = run_stream conv es s; (ds, s2) = conv e s1 in (cs @ ds, s2))"
  by (simp add: run_stream_append split_beta Let_def)

lemma run_stream_invariant:
  assumes "\<And>e s. P s \<Longrightarrow> P (snd (conv e s))" "P s"
  shows "P (snd (run_stream conv es s))"
  using assms(2) by (induction es arbitrary: s) (simp_all add: split_beta Let_def assms(1))

section \<open>Following a protocol\<close>

fun follow :: "('e \<Rightarrow> 'p \<Rightarrow> 'p option) \<Rightarrow> 'e list \<Rightarrow> 'p \<Rightarrow> 'p option" where
  "follow proto [] p = Some p"
| "follow proto (e # es) p = (case proto e p of None \<Rightarrow> None | Some p1 \<Rightarrow> follow proto es p1)"

lemma follow_append:
  "follow proto (es @ fs) p = (case follow proto es p of None \<Rightarrow> None | Some p1 \<Rightarrow> follow proto fs p1)"
  by (induction es arbitrary: p) (auto split: option.split)

lemma follow_prefix: "follow proto (es @ fs) p = Some q \<Longrightarrow> \<exists>p1. follow proto es p = Some p1"
  by (auto simp: follow_append split: option.splits)

section \<open>Converters that serve a client\<close>

locale converter =
  fixes conv :: "'e \<Rightarrow> 's \<Rightarrow> 'c list \<times> 's"
    and proto :: "'e \<Rightarrow> 'p \<Rightarrow> 'p option"
    and client :: "'c \<Rightarrow> 'v \<Rightarrow> 'v"
    and reference :: "'e \<Rightarrow> 'a \<Rightarrow> 'a"
    and sim :: "'p \<Rightarrow> 's \<Rightarrow> 'v \<Rightarrow> 'a \<Rightarrow> bool"
  assumes sim_step:
    "sim p s v a \<Longrightarrow> proto e p = Some p1 \<Longrightarrow> conv e s = (cs, s1) \<Longrightarrow> sim p1 s1 (fold client cs v) (reference e a)"
begin

lemma sim_run:
  "sim p s v a \<Longrightarrow> follow proto es p = Some q \<Longrightarrow> run_stream conv es s = (cs, s1) \<Longrightarrow>
     sim q s1 (fold client cs v) (fold reference es a)"
proof (induction es arbitrary: p s v a cs)
  case (Cons e es)
  obtain p1 where p1: "proto e p = Some p1" "follow proto es p1 = Some q"
    using Cons.prems(2) by (auto split: option.splits)
  obtain c1 t where c1: "conv e s = (c1, t)" by fastforce
  obtain c2 u where c2: "run_stream conv es t = (c2, u)" by fastforce
  have "cs = c1 @ c2" "u = s1" using Cons.prems(3) c1 c2 by auto
  then show ?case using Cons.IH [OF sim_step [OF Cons.prems(1) p1(1) c1] p1(2)] c2 by simp
qed simp

lemma sim_prefix:
  assumes "sim p s v a" "follow proto (es @ fs) p = Some q" "run_stream conv es s = (cs, s1)"
  obtains p1 where "follow proto es p = Some p1" "sim p1 s1 (fold client cs v) (fold reference es a)"
  using assms follow_prefix [OF assms(2)] sim_run by blast

end

end
