(* ===== verification/Chat_Stream.thy ===== *)
theory Chat_Stream
  imports Api_Types Stream_Refinement
begin

text \<open>
  \<open>pkg/apicompat/responses_to_chatcompletions.go\<close>: the conversion of a Responses answer into a
  Chat Completions answer, in one piece and as a stream of chunks, and the accumulator from which
  the buffered path rebuilds an answer.  A handler returns the chunks it emits and the new state;
  the clock and the random identifier are arguments.
\<close>

section \<open>The whole answer\<close>

definition summary_text :: "ResponsesSummary list \<Rightarrow> gostr" where
  "summary_text ss = concat (map psm_Text (filter (\<lambda>s. psm_Type s = ''summary_text'' \<and> psm_Text s \<noteq> '''') ss))"

definition output_text :: "ResponsesContentPart list \<Rightarrow> gostr" where
  "output_text ps = concat (map pp_Text (filter (\<lambda>p. pp_Type p = ''output_text'' \<and> pp_Text p \<noteq> '''') ps))"

definition toolCallOf :: "ResponsesOutput \<Rightarrow> ChatToolCall" where
  "toolCallOf it = \<lparr>htc_Index = None, htc_ID = po_CallID it, htc_Type = ''function'',
     htc_Function = \<lparr>hfc_Name = po_Name it, hfc_Arguments = po_Arguments it\<rparr>\<rparr>"

definition collectItem ::
  "ResponsesOutput \<Rightarrow> gostr \<times> gostr \<times> ChatToolCall list \<Rightarrow> gostr \<times> gostr \<times> ChatToolCall list" where
  "collectItem it = (\<lambda>(contentText, reasoningText, toolCalls).
     if po_Type it = ''message'' then (contentText @ output_text (po_Content it), reasoningText, toolCalls)
     else if po_Type it = ''function_call'' then (contentText, reasoningText, toolCalls @ [toolCallOf it])
     else if po_Type it = ''reasoning'' then (contentText, reasoningText @ summary_text (po_Summary it), toolCalls)
     else (contentText, reasoningText, toolCalls))"

definition responsesStatusToChatFinishReason ::
  "gostr \<Rightarrow> ResponsesIncompleteDetails option \<Rightarrow> ChatToolCall list \<Rightarrow> gostr" where
  "responsesStatusToChatFinishReason status details toolCalls =
     (if status = ''incomplete''
      then (if map_option pid_Reason details = Some ''max_output_tokens'' then ''length'' else ''stop'')
      else if status = ''completed'' then (if toolCalls \<noteq> [] then ''tool_calls'' else ''stop'')
      else ''stop'')"

definition chatUsageOf :: "ResponsesUsage \<Rightarrow> ChatUsage" where
  "chatUsageOf u =
     \<lparr>hu_PromptTokens = pu_InputTokens u, hu_CompletionTokens = pu_OutputTokens u,
      hu_TotalTokens = pu_InputTokens u + pu_OutputTokens u,
      hu_PromptTokensDetails = (case pu_InputTokensDetails u of
         None \<Rightarrow> None | Some cached \<Rightarrow> if cached > 0 then Some cached else None)\<rparr>"

definition ResponsesToChatCompletions ::
  "time \<Rightarrow> gostr \<Rightarrow> ResponsesResponse \<Rightarrow> gostr \<Rightarrow> ChatCompletionsResponse" where
  "ResponsesToChatCompletions now newID resp model =
     (let (contentText, reasoningText, toolCalls) = fold collectItem (pr_Output resp) ('''', '''', []);
          msg = zero_hm\<lparr>hm_Role := ''assistant'', hm_ToolCalls := toolCalls,
                  hm_Content := (if contentText \<noteq> '''' then enc_string contentText else []),
                  hm_ReasoningContent := reasoningText\<rparr>
      in \<lparr>hr_ID = (if pr_ID resp = '''' then newID else pr_ID resp), hr_Object = ''chat.completion'',
          hr_Created = now, hr_Model = model,
          hr_Choices = [\<lparr>hch_Index = 0, hch_Message = msg,
             hch_FinishReason = responsesStatusToChatFinishReason (pr_Status resp) (pr_IncompleteDetails resp) toolCalls\<rparr>],
          hr_Usage = map_option chatUsageOf (pr_Usage resp),
          hr_SystemFingerprint = '''', hr_ServiceTier = ''''\<rparr>)"

section \<open>The stream\<close>

record ResponsesEventToChatState =
  rc_ID :: gostr
  rc_Model :: gostr
  rc_Created :: int64
  rc_SentRole :: bool
  rc_SawToolCall :: bool
  rc_SawText :: bool
  rc_Finalized :: bool
  rc_NextToolCallIndex :: int
  rc_OutputIndexToToolIndex :: "int \<rightharpoonup> int"
  rc_IncludeUsage :: bool
  rc_Usage :: "ChatUsage option"

definition NewResponsesEventToChatState :: "time \<Rightarrow> gostr \<Rightarrow> ResponsesEventToChatState" where
  "NewResponsesEventToChatState now newID =
     \<lparr>rc_ID = newID, rc_Model = '''', rc_Created = now, rc_SentRole = False, rc_SawToolCall = False, rc_SawText = False,
      rc_Finalized = False, rc_NextToolCallIndex = 0, rc_OutputIndexToToolIndex = Map.empty, rc_IncludeUsage = False,
      rc_Usage = None\<rparr>"

definition chunkWith :: "ResponsesEventToChatState \<Rightarrow> ChatChunkChoice list \<Rightarrow> ChatUsage option \<Rightarrow> ChatCompletionsChunk" where
  "chunkWith st choices usage =
     \<lparr>hk_ID = rc_ID st, hk_Object = ''chat.completion.chunk'', hk_Created = rc_Created st, hk_Model = rc_Model st,
      hk_Choices = choices, hk_Usage = usage, hk_SystemFingerprint = '''', hk_ServiceTier = ''''\<rparr>"

definition makeChatDeltaChunk :: "ResponsesEventToChatState \<Rightarrow> ChatDelta \<Rightarrow> ChatCompletionsChunk" where
  "makeChatDeltaChunk st delta = chunkWith st [\<lparr>hcc_Index = 0, hcc_Delta = delta, hcc_FinishReason = None\<rparr>] None"

definition makeChatFinishChunk :: "ResponsesEventToChatState \<Rightarrow> gostr \<Rightarrow> ChatCompletionsChunk" where
  "makeChatFinishChunk st finishReason =
     chunkWith st [\<lparr>hcc_Index = 0, hcc_Delta = zero_hdl\<lparr>hdl_Content := Some ''''\<rparr>, hcc_FinishReason = Some finishReason\<rparr>] None"

definition usageChunk :: "ResponsesEventToChatState \<Rightarrow> ChatCompletionsChunk list" where
  "usageChunk st = (if rc_IncludeUsage st \<and> rc_Usage st \<noteq> None then [chunkWith st [] (rc_Usage st)] else [])"

definition resToChatHandleCreated ::
  "ResponsesStreamEvent \<Rightarrow> ResponsesEventToChatState \<Rightarrow> ChatCompletionsChunk list \<times> ResponsesEventToChatState" where
  "resToChatHandleCreated evt st =
     (let st1 = (case pe_Response evt of
            None \<Rightarrow> st
          | Some r \<Rightarrow> st\<lparr>rc_ID := (if pr_ID r \<noteq> '''' then pr_ID r else rc_ID st),
                         rc_Model := (if rc_Model st = '''' \<and> pr_Model r \<noteq> '''' then pr_Model r else rc_Model st)\<rparr>)
      in if rc_SentRole st1 then ([], st1)
         else let st2 = st1\<lparr>rc_SentRole := True\<rparr>
              in ([makeChatDeltaChunk st2 (zero_hdl\<lparr>hdl_Role := ''assistant''\<rparr>)], st2))"

definition resToChatHandleTextDelta ::
  "ResponsesStreamEvent \<Rightarrow> ResponsesEventToChatState \<Rightarrow> ChatCompletionsChunk list \<times> ResponsesEventToChatState" where
  "resToChatHandleTextDelta evt st =
     (if pe_Delta evt = '''' then ([], st)
      else let st1 = st\<lparr>rc_SawText := True\<rparr>
           in ([makeChatDeltaChunk st1 (zero_hdl\<lparr>hdl_Content := Some (pe_Delta evt)\<rparr>)], st1))"

definition resToChatHandleOutputItemAdded ::
  "ResponsesStreamEvent \<Rightarrow> ResponsesEventToChatState \<Rightarrow> ChatCompletionsChunk list \<times> ResponsesEventToChatState" where
  "resToChatHandleOutputItemAdded evt st =
     (case pe_Item evt of
        None \<Rightarrow> ([], st)
      | Some it \<Rightarrow>
          if po_Type it \<noteq> ''function_call'' then ([], st)
          else let idx = rc_NextToolCallIndex st;
                   st1 = st\<lparr>rc_SawToolCall := True,
                            rc_OutputIndexToToolIndex := (rc_OutputIndexToToolIndex st)(pe_OutputIndex evt \<mapsto> idx),
                            rc_NextToolCallIndex := idx + 1\<rparr>
               in ([makeChatDeltaChunk st1 (zero_hdl\<lparr>hdl_ToolCalls :=
                      [\<lparr>htc_Index = Some idx, htc_ID = po_CallID it, htc_Type = ''function'',
                        htc_Function = \<lparr>hfc_Name = po_Name it, hfc_Arguments = ''''\<rparr>\<rparr>]\<rparr>)], st1))"

definition resToChatHandleFuncArgsDelta ::
  "ResponsesStreamEvent \<Rightarrow> ResponsesEventToChatState \<Rightarrow> ChatCompletionsChunk list \<times> ResponsesEventToChatState" where
  "resToChatHandleFuncArgsDelta evt st =
     (if pe_Delta evt = '''' then ([], st)
      else case rc_OutputIndexToToolIndex st (pe_OutputIndex evt) of
             None \<Rightarrow> ([], st)
           | Some idx \<Rightarrow>
               ([makeChatDeltaChunk st (zero_hdl\<lparr>hdl_ToolCalls :=
                   [\<lparr>htc_Index = Some idx, htc_ID = '''', htc_Type = '''',
                     htc_Function = \<lparr>hfc_Name = '''', hfc_Arguments = pe_Delta evt\<rparr>\<rparr>]\<rparr>)], st))"

definition resToChatHandleReasoningDelta ::
  "ResponsesStreamEvent \<Rightarrow> ResponsesEventToChatState \<Rightarrow> ChatCompletionsChunk list \<times> ResponsesEventToChatState" where
  "resToChatHandleReasoningDelta evt st =
     (if pe_Delta evt = '''' then ([], st)
      else ([makeChatDeltaChunk st (zero_hdl\<lparr>hdl_ReasoningContent := Some (pe_Delta evt)\<rparr>)], st))"

definition completedFinishReason :: "ResponsesStreamEvent \<Rightarrow> bool \<Rightarrow> gostr" where
  "completedFinishReason evt sawToolCall =
     (case pe_Response evt of
        None \<Rightarrow> if sawToolCall then ''tool_calls'' else ''stop''
      | Some r \<Rightarrow>
          if pr_Status r = ''incomplete''
          then (if map_option pid_Reason (pr_IncompleteDetails r) = Some ''max_output_tokens'' then ''length'' else ''stop'')
          else if pr_Status r = ''completed'' then (if sawToolCall then ''tool_calls'' else ''stop'')
          else ''stop'')"

definition resToChatHandleCompleted ::
  "ResponsesStreamEvent \<Rightarrow> ResponsesEventToChatState \<Rightarrow> ChatCompletionsChunk list \<times> ResponsesEventToChatState" where
  "resToChatHandleCompleted evt st =
     (let st1 = st\<lparr>rc_Finalized := True,
                   rc_Usage := (case pe_Response evt of
                       None \<Rightarrow> rc_Usage st
                     | Some r \<Rightarrow> (case pr_Usage r of None \<Rightarrow> rc_Usage st | Some u \<Rightarrow> Some (chatUsageOf u)))\<rparr>
      in (makeChatFinishChunk st1 (completedFinishReason evt (rc_SawToolCall st1)) # usageChunk st1, st1))"

definition terminal_types :: "gostr set" where
  "terminal_types = {''response.completed'', ''response.incomplete'', ''response.failed''}"

definition ResponsesEventToChatChunks ::
  "ResponsesStreamEvent \<Rightarrow> ResponsesEventToChatState \<Rightarrow> ChatCompletionsChunk list \<times> ResponsesEventToChatState" where
  "ResponsesEventToChatChunks evt st =
     (if pe_Type evt = ''response.created'' then resToChatHandleCreated evt st
      else if pe_Type evt = ''response.output_text.delta'' then resToChatHandleTextDelta evt st
      else if pe_Type evt = ''response.output_item.added'' then resToChatHandleOutputItemAdded evt st
      else if pe_Type evt = ''response.function_call_arguments.delta'' then resToChatHandleFuncArgsDelta evt st
      else if pe_Type evt = ''response.reasoning_summary_text.delta'' then resToChatHandleReasoningDelta evt st
      else if pe_Type evt = ''response.reasoning_summary_text.done'' then ([], st)
      else if pe_Type evt \<in> terminal_types then resToChatHandleCompleted evt st
      else ([], st))"

definition FinalizeResponsesChatStream ::
  "ResponsesEventToChatState \<Rightarrow> ChatCompletionsChunk list \<times> ResponsesEventToChatState" where
  "FinalizeResponsesChatStream st =
     (if rc_Finalized st then ([], st)
      else let st1 = st\<lparr>rc_Finalized := True\<rparr>
           in (makeChatFinishChunk st1 (if rc_SawToolCall st1 then ''tool_calls'' else ''stop'') # usageChunk st1, st1))"

section \<open>The accumulator of the buffered path\<close>

record bufferedFuncCall =
  bf_CallID :: gostr
  bf_Name :: gostr
  bf_Args :: gostr

record BufferedResponseAccumulator =
  bra_text :: gostr
  bra_reasoning :: gostr
  bra_funcCalls :: "bufferedFuncCall list"
  bra_outputIndexToFuncIdx :: "int \<rightharpoonup> nat"

definition NewBufferedResponseAccumulator :: BufferedResponseAccumulator where
  "NewBufferedResponseAccumulator =
     \<lparr>bra_text = '''', bra_reasoning = '''', bra_funcCalls = [], bra_outputIndexToFuncIdx = Map.empty\<rparr>"

definition appendArgs :: "gostr \<Rightarrow> nat \<Rightarrow> bufferedFuncCall list \<Rightarrow> bufferedFuncCall list" where
  "appendArgs s i calls = calls[i := (calls ! i)\<lparr>bf_Args := bf_Args (calls ! i) @ s\<rparr>]"

lemma length_appendArgs [simp]: "length (appendArgs s i calls) = length calls"
  by (simp add: appendArgs_def)

lemma appendArgs_Nil [simp]: "appendArgs s i calls = [] \<longleftrightarrow> calls = []"
  by (simp add: appendArgs_def)

text \<open>What an event adds to the content; \<open>ProcessEvent\<close> below does this where it does not panic.\<close>

definition accumulate :: "ResponsesStreamEvent \<Rightarrow> BufferedResponseAccumulator \<Rightarrow> BufferedResponseAccumulator" where
  "accumulate evt a =
     (if pe_Type evt = ''response.output_text.delta'' then a\<lparr>bra_text := bra_text a @ pe_Delta evt\<rparr>
      else if pe_Type evt = ''response.output_item.added'' then
        (case pe_Item evt of
           None \<Rightarrow> a
         | Some it \<Rightarrow>
             if po_Type it = ''function_call''
             then a\<lparr>bra_outputIndexToFuncIdx := (bra_outputIndexToFuncIdx a)(pe_OutputIndex evt \<mapsto> length (bra_funcCalls a)),
                    bra_funcCalls := bra_funcCalls a @ [\<lparr>bf_CallID = po_CallID it, bf_Name = po_Name it, bf_Args = ''''\<rparr>]\<rparr>
             else a)
      else if pe_Type evt = ''response.function_call_arguments.delta'' then
        (if pe_Delta evt = '''' then a
         else case bra_outputIndexToFuncIdx a (pe_OutputIndex evt) of
                None \<Rightarrow> a
              | Some i \<Rightarrow> a\<lparr>bra_funcCalls := appendArgs (pe_Delta evt) i (bra_funcCalls a)\<rparr>)
      else if pe_Type evt = ''response.reasoning_summary_text.delta'' then a\<lparr>bra_reasoning := bra_reasoning a @ pe_Delta evt\<rparr>
      else a)"

text \<open>
  The arguments of a call are a \<open>strings.Builder\<close> that lies by value in the slice of calls.  A builder
  remembers where it lay at its first write, and panics when it is written to elsewhere.  A slice that
  is full moves to a new array when a call is appended, with all its builders.  \<open>am_array\<close> numbers the
  array, \<open>am_cap\<close> is its capacity, and \<open>am_written i\<close> the array in which the builder of call \<open>i\<close> was
  written to first.  How far an array grows is the runtime's choice: \<open>grow\<close>.
\<close>

record accumulator_memory =
  am_array :: nat
  am_cap :: nat
  am_written :: "nat \<rightharpoonup> nat"

definition fresh_memory :: accumulator_memory where
  "fresh_memory = \<lparr>am_array = 0, am_cap = 0, am_written = Map.empty\<rparr>"

definition appendCall :: "(nat \<Rightarrow> nat) \<Rightarrow> nat \<Rightarrow> accumulator_memory \<Rightarrow> accumulator_memory" where
  "appendCall grow len m =
     (if len < am_cap m then m else m\<lparr>am_array := am_array m + 1, am_cap := max (len + 1) (grow len)\<rparr>)"

definition writeBuilder :: "nat \<Rightarrow> accumulator_memory \<Rightarrow> accumulator_memory option" where
  "writeBuilder i m =
     (case am_written m i of
        None \<Rightarrow> Some (m\<lparr>am_written := (am_written m)(i \<mapsto> am_array m)\<rparr>)
      | Some arr \<Rightarrow> if arr = am_array m then Some m else None)"

type_synonym accumulator_state = "BufferedResponseAccumulator \<times> accumulator_memory"

text \<open>\<open>None\<close> is a panic.\<close>

definition ProcessEvent :: "(nat \<Rightarrow> nat) \<Rightarrow> ResponsesStreamEvent \<Rightarrow> accumulator_state \<Rightarrow> accumulator_state option" where
  "ProcessEvent grow evt = (\<lambda>(a, m).
     if pe_Type evt = ''response.output_text.delta''
     then Some (if pe_Delta evt \<noteq> '''' then a\<lparr>bra_text := bra_text a @ pe_Delta evt\<rparr> else a, m)
     else if pe_Type evt = ''response.output_item.added'' then
       (case pe_Item evt of
          None \<Rightarrow> Some (a, m)
        | Some it \<Rightarrow>
            if po_Type it = ''function_call''
            then Some (a\<lparr>bra_outputIndexToFuncIdx := (bra_outputIndexToFuncIdx a)(pe_OutputIndex evt \<mapsto> length (bra_funcCalls a)),
                         bra_funcCalls := bra_funcCalls a @ [\<lparr>bf_CallID = po_CallID it, bf_Name = po_Name it, bf_Args = ''''\<rparr>]\<rparr>,
                       appendCall grow (length (bra_funcCalls a)) m)
            else Some (a, m))
     else if pe_Type evt = ''response.function_call_arguments.delta'' then
       (if pe_Delta evt = '''' then Some (a, m)
        else case bra_outputIndexToFuncIdx a (pe_OutputIndex evt) of
               None \<Rightarrow> Some (a, m)
             | Some i \<Rightarrow>
                 map_option (\<lambda>m1. (a\<lparr>bra_funcCalls := appendArgs (pe_Delta evt) i (bra_funcCalls a)\<rparr>, m1)) (writeBuilder i m))
     else if pe_Type evt = ''response.reasoning_summary_text.delta''
     then Some (if pe_Delta evt \<noteq> '''' then a\<lparr>bra_reasoning := bra_reasoning a @ pe_Delta evt\<rparr> else a, m)
     else Some (a, m))"

fun process_all :: "(nat \<Rightarrow> nat) \<Rightarrow> ResponsesStreamEvent list \<Rightarrow> accumulator_state \<Rightarrow> accumulator_state option" where
  "process_all grow [] am = Some am"
| "process_all grow (e # es) am = Option.bind (ProcessEvent grow e am) (process_all grow es)"

lemma ProcessEvent_accumulates: "ProcessEvent grow evt (a, m) = Some (a1, m1) \<Longrightarrow> a1 = accumulate evt a"
  by (auto simp: ProcessEvent_def accumulate_def split: if_splits option.splits)

lemma process_all_accumulates: "process_all grow es (a, m) = Some (a1, m1) \<Longrightarrow> a1 = fold accumulate es a"
proof (induction es arbitrary: a m)
  case (Cons e es)
  then obtain a2 m2 where "ProcessEvent grow e (a, m) = Some (a2, m2)" "process_all grow es (a2, m2) = Some (a1, m1)"
    by (auto simp: bind_eq_Some_conv)
  with Cons.IH [of a2 m2] ProcessEvent_accumulates show ?case by fastforce
qed simp

text \<open>The arguments of calls come in turn: those of a call after it was added and before the next one is.\<close>

fun calls_in_turn :: "int option \<Rightarrow> ResponsesStreamEvent list \<Rightarrow> bool" where
  "calls_in_turn current [] = True"
| "calls_in_turn current (e # es) =
     (if pe_Type e = ''response.output_item.added'' \<and> map_option po_Type (pe_Item e) = Some ''function_call''
      then calls_in_turn (Some (pe_OutputIndex e)) es
      else (pe_Type e = ''response.function_call_arguments.delta'' \<and> pe_Delta e \<noteq> '''' \<longrightarrow> current = Some (pe_OutputIndex e)) \<and>
           calls_in_turn current es)"

definition last_in_place :: "int option \<Rightarrow> accumulator_state \<Rightarrow> bool" where
  "last_in_place current = (\<lambda>(a, m).
     (\<forall>i. am_written m i \<noteq> None \<longrightarrow> i < length (bra_funcCalls a)) \<and>
     (\<forall>i. current = Some i \<longrightarrow>
        (\<exists>k. length (bra_funcCalls a) = Suc k \<and> bra_outputIndexToFuncIdx a i = Some k \<and>
             (\<forall>arr. am_written m k = Some arr \<longrightarrow> arr = am_array m))))"

lemma appendCall_written [simp]: "am_written (appendCall grow len m) = am_written m"
  by (simp add: appendCall_def)

lemma in_turn_step:
  assumes "last_in_place current (a, m)" "calls_in_turn current (e # es)"
  shows "\<exists>am1 cur. ProcessEvent grow e (a, m) = Some am1 \<and> last_in_place cur am1 \<and> calls_in_turn cur es"
proof (cases "pe_Type e = ''response.output_item.added'' \<and> map_option po_Type (pe_Item e) = Some ''function_call''")
  case True
  have "am_written m i = Some y \<Longrightarrow> i < length (bra_funcCalls a)" for i y
    using assms(1) by (auto simp: last_in_place_def)
  then have "am_written m i = Some y \<Longrightarrow> i < length (bra_funcCalls a)" "am_written m (length (bra_funcCalls a)) = None" for i y
    by (blast, metis less_irrefl not_Some_eq)
  then show ?thesis
    using assms(2) True
    by (auto simp: ProcessEvent_def last_in_place_def less_Suc_eq intro!: exI [of _ "Some (pe_OutputIndex e)"])
next
  case False
  then have turn: "pe_Type e = ''response.function_call_arguments.delta'' \<and> pe_Delta e \<noteq> '''' \<longrightarrow> current = Some (pe_OutputIndex e)"
    and rest: "calls_in_turn current es" using assms(2) by auto
  show ?thesis
  proof (cases "pe_Type e = ''response.function_call_arguments.delta'' \<and> pe_Delta e \<noteq> ''''")
    case True
    then obtain k where k: "length (bra_funcCalls a) = Suc k" "bra_outputIndexToFuncIdx a (pe_OutputIndex e) = Some k"
        "\<forall>arr. am_written m k = Some arr \<longrightarrow> arr = am_array m"
      using turn assms(1) by (auto simp: last_in_place_def)
    then show ?thesis
      using True turn assms(1) rest
      by (intro exI [of _ "the (ProcessEvent grow e (a, m))"] exI [of _ current])
        (auto simp: ProcessEvent_def last_in_place_def writeBuilder_def appendArgs_def split: option.split)
  next
    case other: False
    then show ?thesis
      using False assms(1) rest
      by (intro exI [of _ "the (ProcessEvent grow e (a, m))"] exI [of _ current])
        (auto simp: ProcessEvent_def last_in_place_def split: option.split)
  qed
qed

lemma in_turn_no_panic:
  "last_in_place current (a, m) \<Longrightarrow> calls_in_turn current es \<Longrightarrow>
     \<exists>m1. process_all grow es (a, m) = Some (fold accumulate es a, m1)"
proof (induction es arbitrary: current a m)
  case (Cons e es)
  obtain a1 m1 cur where 1: "ProcessEvent grow e (a, m) = Some (a1, m1)" "last_in_place cur (a1, m1)" "calls_in_turn cur es"
    using in_turn_step [OF Cons.prems] by (metis surj_pair)
  from Cons.IH [OF 1(2,3)] show ?case by (simp add: 1(1) ProcessEvent_accumulates [OF 1(1)])
qed simp

text \<open>Two calls whose arguments alternate: with the second call the slice moves, and the next piece for the first panics.\<close>

definition alternating_calls :: "ResponsesStreamEvent list" where
  "alternating_calls =
     (let call = (\<lambda>i. zero_pe\<lparr>pe_Type := ''response.output_item.added'', pe_OutputIndex := i,
            pe_Item := Some (zero_po\<lparr>po_Type := ''function_call'', po_Name := ''weather''\<rparr>)\<rparr>);
          piece = (\<lambda>i. zero_pe\<lparr>pe_Type := ''response.function_call_arguments.delta'', pe_OutputIndex := i, pe_Delta := ''{''\<rparr>)
      in [call 0, piece 0, call 1, piece 1, piece 0])"

lemma alternating_calls_panic:
  "process_all (\<lambda>n. 2 * n) alternating_calls (NewBufferedResponseAccumulator, fresh_memory) = None"
  by (simp add: alternating_calls_def ProcessEvent_def NewBufferedResponseAccumulator_def fresh_memory_def appendCall_def
      writeBuilder_def zero_pe_def zero_po_def Let_def)

definition HasContent :: "BufferedResponseAccumulator \<Rightarrow> bool" where
  "HasContent a \<longleftrightarrow> bra_text a \<noteq> '''' \<or> bra_funcCalls a \<noteq> [] \<or> bra_reasoning a \<noteq> ''''"

definition BuildOutput :: "BufferedResponseAccumulator \<Rightarrow> ResponsesOutput list" where
  "BuildOutput a =
     (if bra_reasoning a \<noteq> ''''
      then [zero_po\<lparr>po_Type := ''reasoning'', po_Summary := [\<lparr>psm_Type = ''summary_text'', psm_Text = bra_reasoning a\<rparr>]\<rparr>] else []) @
     (if bra_text a \<noteq> ''''
      then [zero_po\<lparr>po_Type := ''message'', po_Role := ''assistant'',
              po_Content := [zero_pp\<lparr>pp_Type := ''output_text'', pp_Text := bra_text a\<rparr>]\<rparr>] else []) @
     map (\<lambda>f. zero_po\<lparr>po_Type := ''function_call'', po_CallID := bf_CallID f, po_Name := bf_Name f, po_Arguments := bf_Args f\<rparr>)
       (bra_funcCalls a)"

definition SupplementResponseOutput :: "BufferedResponseAccumulator \<Rightarrow> ResponsesResponse \<Rightarrow> ResponsesResponse" where
  "SupplementResponseOutput a resp =
     (if pr_Output resp \<noteq> [] then resp else if \<not> HasContent a then resp else resp\<lparr>pr_Output := BuildOutput a\<rparr>)"


section \<open>What a client reassembles\<close>

text \<open>
  The client concatenates the content and reasoning deltas and joins the pieces of a tool call by
  their index; it sees the finish reasons and the usage reports in order.
\<close>

record chat_view =
  cv_text :: gostr
  cv_reasoning :: gostr
  cv_calls :: "bufferedFuncCall list"
  cv_finish :: "gostr list"
  cv_usage :: "ChatUsage list"

definition empty_view :: chat_view where
  "empty_view = \<lparr>cv_text = '''', cv_reasoning = '''', cv_calls = [], cv_finish = [], cv_usage = []\<rparr>"

definition see_call :: "ChatToolCall \<Rightarrow> bufferedFuncCall list \<Rightarrow> bufferedFuncCall list" where
  "see_call tc calls =
     (case htc_Index tc of
        None \<Rightarrow> calls
      | Some i \<Rightarrow>
          if 0 \<le> i \<and> nat i < length calls then appendArgs (hfc_Arguments (htc_Function tc)) (nat i) calls
          else calls @ [\<lparr>bf_CallID = htc_ID tc, bf_Name = hfc_Name (htc_Function tc),
                         bf_Args = hfc_Arguments (htc_Function tc)\<rparr>])"

definition opt_text :: "gostr option \<Rightarrow> gostr" where
  "opt_text x = (case x of None \<Rightarrow> '''' | Some s \<Rightarrow> s)"

lemma opt_text_simps [simp]: "opt_text None = ''''" "opt_text (Some s) = s"
  by (simp_all add: opt_text_def)

definition see_choice :: "ChatChunkChoice \<Rightarrow> chat_view \<Rightarrow> chat_view" where
  "see_choice ch v = v\<lparr>cv_text := cv_text v @ opt_text (hdl_Content (hcc_Delta ch)),
     cv_reasoning := cv_reasoning v @ opt_text (hdl_ReasoningContent (hcc_Delta ch)),
     cv_calls := fold see_call (hdl_ToolCalls (hcc_Delta ch)) (cv_calls v),
     cv_finish := cv_finish v @ (case hcc_FinishReason ch of None \<Rightarrow> [] | Some f \<Rightarrow> [f])\<rparr>"

definition see_chunk :: "ChatCompletionsChunk \<Rightarrow> chat_view \<Rightarrow> chat_view" where
  "see_chunk k v =
     (let v1 = fold see_choice (hk_Choices k) v
      in v1\<lparr>cv_usage := cv_usage v1 @ (case hk_Usage k of None \<Rightarrow> [] | Some u \<Rightarrow> [u])\<rparr>)"

lemmas see_defs = see_chunk_def see_choice_def see_call_def chunkWith_def makeChatDeltaChunk_def
  makeChatFinishChunk_def usageChunk_def zero_hdl_def

text \<open>The state of the converter, the client's view and the accumulator agree.\<close>

definition chat_sim ::
  "unit \<Rightarrow> ResponsesEventToChatState \<Rightarrow> chat_view \<Rightarrow> BufferedResponseAccumulator \<Rightarrow> bool" where
  "chat_sim _ st v a \<longleftrightarrow>
     cv_text v = bra_text a \<and> cv_reasoning v = bra_reasoning a \<and> cv_calls v = bra_funcCalls a \<and>
     rc_NextToolCallIndex st = int (length (bra_funcCalls a)) \<and>
     rc_OutputIndexToToolIndex st = map_option int \<circ> bra_outputIndexToFuncIdx a \<and>
     (\<forall>i k. bra_outputIndexToFuncIdx a i = Some k \<longrightarrow> k < length (bra_funcCalls a)) \<and>
     rc_SawToolCall st = (bra_funcCalls a \<noteq> [])"

lemma usageChunk_view: "fold see_chunk (usageChunk st) v = v\<lparr>cv_usage := cv_usage v @ (case usageChunk st of [] \<Rightarrow> [] | _ \<Rightarrow> [the (rc_Usage st)])\<rparr>"
  by (auto simp: see_defs)

lemma chat_sim_created:
  "chat_sim p st v a \<Longrightarrow> resToChatHandleCreated evt st = (cs, st') \<Longrightarrow> chat_sim q st' (fold see_chunk cs v) a"
  by (auto simp: chat_sim_def resToChatHandleCreated_def see_defs Let_def split: option.splits if_splits)

lemma chat_sim_text:
  "chat_sim p st v a \<Longrightarrow> resToChatHandleTextDelta evt st = (cs, st') \<Longrightarrow>
     chat_sim q st' (fold see_chunk cs v) (a\<lparr>bra_text := bra_text a @ pe_Delta evt\<rparr>)"
  by (auto simp: chat_sim_def resToChatHandleTextDelta_def see_defs Let_def split: if_splits)

lemma chat_sim_reasoning:
  "chat_sim p st v a \<Longrightarrow> resToChatHandleReasoningDelta evt st = (cs, st') \<Longrightarrow>
     chat_sim q st' (fold see_chunk cs v) (a\<lparr>bra_reasoning := bra_reasoning a @ pe_Delta evt\<rparr>)"
  by (auto simp: chat_sim_def resToChatHandleReasoningDelta_def see_defs Let_def split: if_splits)

lemma chat_sim_added:
  "chat_sim p st v a \<Longrightarrow> resToChatHandleOutputItemAdded evt st = (cs, st') \<Longrightarrow>
     pe_Type evt = ''response.output_item.added'' \<Longrightarrow> chat_sim q st' (fold see_chunk cs v) (accumulate evt a)"
  by (auto simp: chat_sim_def resToChatHandleOutputItemAdded_def accumulate_def see_defs Let_def less_Suc_eq fun_eq_iff
      split: if_splits option.splits)

lemma chat_sim_args:
  "chat_sim p st v a \<Longrightarrow> resToChatHandleFuncArgsDelta evt st = (cs, st') \<Longrightarrow>
     pe_Type evt = ''response.function_call_arguments.delta'' \<Longrightarrow> chat_sim q st' (fold see_chunk cs v) (accumulate evt a)"
  by (auto simp: chat_sim_def resToChatHandleFuncArgsDelta_def accumulate_def see_defs Let_def split: if_splits option.splits)

lemma chat_sim_completed:
  "chat_sim p st v a \<Longrightarrow> resToChatHandleCompleted evt st = (cs, st') \<Longrightarrow> chat_sim q st' (fold see_chunk cs v) a"
  by (auto simp: chat_sim_def resToChatHandleCompleted_def usageChunk_view Let_def)
     (auto simp: see_defs)

lemma chat_sim_finalize:
  "chat_sim p st v a \<Longrightarrow> FinalizeResponsesChatStream st = (cs, st') \<Longrightarrow> chat_sim q st' (fold see_chunk cs v) a"
  by (auto simp: chat_sim_def FinalizeResponsesChatStream_def usageChunk_view Let_def split: if_splits)
     (auto simp: see_defs)

lemma chat_sim_step:
  assumes "chat_sim p st v a" "ResponsesEventToChatChunks evt st = (cs, st')"
  shows "chat_sim q st' (fold see_chunk cs v) (accumulate evt a)"
proof -
  let ?t = "pe_Type evt"
  consider "?t = ''response.created''" | "?t = ''response.output_text.delta''" | "?t = ''response.output_item.added''"
    | "?t = ''response.function_call_arguments.delta''" | "?t = ''response.reasoning_summary_text.delta''"
    | "?t \<in> terminal_types"
    | "?t \<notin> {''response.created'', ''response.output_text.delta'', ''response.output_item.added'',
        ''response.function_call_arguments.delta'', ''response.reasoning_summary_text.delta''} \<union> terminal_types"
    by blast
  then show ?thesis
  proof cases
    case 1
    with assms chat_sim_created show ?thesis by (fastforce simp: ResponsesEventToChatChunks_def accumulate_def)
  next
    case 2
    with assms chat_sim_text show ?thesis by (fastforce simp: ResponsesEventToChatChunks_def accumulate_def)
  next
    case 3
    with assms chat_sim_added show ?thesis by (fastforce simp: ResponsesEventToChatChunks_def)
  next
    case 4
    with assms chat_sim_args show ?thesis by (fastforce simp: ResponsesEventToChatChunks_def)
  next
    case 5
    with assms chat_sim_reasoning show ?thesis by (fastforce simp: ResponsesEventToChatChunks_def accumulate_def)
  next
    case 6
    then have "resToChatHandleCompleted evt st = (cs, st')" "accumulate evt a = a"
      using assms(2) by (auto simp: ResponsesEventToChatChunks_def accumulate_def terminal_types_def)
    then show ?thesis using chat_sim_completed [OF assms(1)] by simp
  next
    case 7
    then have "cs = []" "st' = st" "accumulate evt a = a"
      using assms(2) by (auto simp: ResponsesEventToChatChunks_def accumulate_def split: if_splits)
    then show ?thesis using assms(1) by simp
  qed
qed

definition any_event :: "'e \<Rightarrow> unit \<Rightarrow> unit option" where
  "any_event e p = Some ()"

interpretation chat: converter ResponsesEventToChatChunks any_event see_chunk accumulate chat_sim
  by unfold_locales (rule chat_sim_step)

end
