(* ===== verification/Anthropic_Stream.thy ===== *)
theory Anthropic_Stream
  imports Tool_IDs Chat_Stream
begin

text \<open>
  \<open>pkg/apicompat/responses_to_anthropic.go\<close>: the conversion of a Responses answer into an Anthropic
  message, in one piece and as a stream of events.  Then the Anthropic stream protocol, what its
  client reads, and the promise of the converter: an upstream stream that keeps the Responses
  protocol gives a stream that keeps the Anthropic one, with the same content, wherever it is cut.
\<close>

section \<open>The whole answer\<close>

definition empty_results :: RawMessage where
  "empty_results = enc_array []"

definition search_input :: "ResponsesOutput \<Rightarrow> RawMessage" where
  "search_input it = enc_object [(''query'', enc_string (case po_Action it of None \<Rightarrow> '''' | Some act \<Rightarrow> wa_Query act))]"

definition server_tool_use :: "ResponsesOutput \<Rightarrow> AnthropicContentBlock" where
  "server_tool_use it = zero_ab\<lparr>ab_Type := ''server_tool_use'', ab_ID := ''srvtoolu_'' @ po_ID it, ab_Name := ''web_search'',
     ab_Input := search_input it\<rparr>"

definition search_result :: "ResponsesOutput \<Rightarrow> AnthropicContentBlock" where
  "search_result it = zero_ab\<lparr>ab_Type := ''web_search_tool_result'', ab_ToolUseID := ''srvtoolu_'' @ po_ID it,
     ab_Content := empty_results\<rparr>"

definition itemBlocks :: "ResponsesOutput \<Rightarrow> AnthropicContentBlock list" where
  "itemBlocks it =
     (if po_Type it = ''reasoning''
      then (if summary_text (po_Summary it) \<noteq> ''''
            then [zero_ab\<lparr>ab_Type := ''thinking'', ab_Thinking := summary_text (po_Summary it)\<rparr>] else [])
      else if po_Type it = ''message''
      then map (\<lambda>p. zero_ab\<lparr>ab_Type := ''text'', ab_Text := pp_Text p\<rparr>)
             (filter (\<lambda>p. pp_Type p = ''output_text'' \<and> pp_Text p \<noteq> '''') (po_Content it))
      else if po_Type it = ''function_call''
      then [zero_ab\<lparr>ab_Type := ''tool_use'', ab_ID := fromResponsesCallID (po_CallID it), ab_Name := po_Name it,
              ab_Input := po_Arguments it\<rparr>]
      else if po_Type it = ''web_search_call'' then [server_tool_use it, search_result it]
      else [])"

definition responsesStatusToAnthropicStopReason ::
  "gostr \<Rightarrow> ResponsesIncompleteDetails option \<Rightarrow> AnthropicContentBlock list \<Rightarrow> gostr" where
  "responsesStatusToAnthropicStopReason status details blocks =
     (if status = ''incomplete''
      then (if map_option pid_Reason details = Some ''max_output_tokens'' then ''max_tokens'' else ''end_turn'')
      else if status = ''completed''
      then (if blocks \<noteq> [] \<and> ab_Type (last blocks) = ''tool_use'' then ''tool_use'' else ''end_turn'')
      else ''end_turn'')"

definition ResponsesToAnthropic :: "ResponsesResponse \<Rightarrow> gostr \<Rightarrow> AnthropicResponse" where
  "ResponsesToAnthropic resp model =
     (let found = concat (map itemBlocks (pr_Output resp));
          blocks = (if found = [] then [zero_ab\<lparr>ab_Type := ''text'', ab_Text := ''''\<rparr>] else found)
      in zero_ar\<lparr>ar_ID := pr_ID resp, ar_Type := ''message'', ar_Role := ''assistant'', ar_Model := model,
           ar_Content := blocks,
           ar_StopReason := responsesStatusToAnthropicStopReason (pr_Status resp) (pr_IncompleteDetails resp) blocks,
           ar_Usage := (case pr_Usage resp of
              None \<Rightarrow> zero_au
            | Some u \<Rightarrow> zero_au\<lparr>au_InputTokens := pu_InputTokens u, au_OutputTokens := pu_OutputTokens u,
                 au_CacheReadInputTokens := (case pu_InputTokensDetails u of None \<Rightarrow> 0 | Some cached \<Rightarrow> cached)\<rparr>)\<rparr>)"

section \<open>The stream\<close>

record ResponsesEventToAnthropicState =
  ra_MessageStartSent :: bool
  ra_MessageStopSent :: bool
  ra_ContentBlockIndex :: int
  ra_ContentBlockOpen :: bool
  ra_CurrentBlockType :: gostr
  ra_OutputIndexToBlockIdx :: "int \<rightharpoonup> int"
  ra_InputTokens :: int
  ra_OutputTokens :: int
  ra_CacheReadInputTokens :: int
  ra_ResponseID :: gostr
  ra_Model :: gostr
  ra_Created :: int64

definition NewResponsesEventToAnthropicState :: "time \<Rightarrow> ResponsesEventToAnthropicState" where
  "NewResponsesEventToAnthropicState now =
     \<lparr>ra_MessageStartSent = False, ra_MessageStopSent = False, ra_ContentBlockIndex = 0, ra_ContentBlockOpen = False,
      ra_CurrentBlockType = '''', ra_OutputIndexToBlockIdx = Map.empty, ra_InputTokens = 0, ra_OutputTokens = 0,
      ra_CacheReadInputTokens = 0, ra_ResponseID = '''', ra_Model = '''', ra_Created = now\<rparr>"

type_synonym to_anthropic =
  "ResponsesEventToAnthropicState \<Rightarrow> AnthropicStreamEvent list \<times> ResponsesEventToAnthropicState"

definition blockStart :: "int \<Rightarrow> AnthropicContentBlock \<Rightarrow> AnthropicStreamEvent" where
  "blockStart idx b = zero_ae\<lparr>ae_Type := ''content_block_start'', ae_Index := Some idx, ae_ContentBlock := Some b\<rparr>"

definition blockDelta :: "int \<Rightarrow> AnthropicDelta \<Rightarrow> AnthropicStreamEvent" where
  "blockDelta idx d = zero_ae\<lparr>ae_Type := ''content_block_delta'', ae_Index := Some idx, ae_Delta := Some d\<rparr>"

definition blockStop :: "int \<Rightarrow> AnthropicStreamEvent" where
  "blockStop idx = zero_ae\<lparr>ae_Type := ''content_block_stop'', ae_Index := Some idx\<rparr>"

definition closeCurrentBlock :: to_anthropic where
  "closeCurrentBlock st =
     (if \<not> ra_ContentBlockOpen st then ([], st)
      else ([blockStop (ra_ContentBlockIndex st)],
            st\<lparr>ra_ContentBlockOpen := False, ra_ContentBlockIndex := ra_ContentBlockIndex st + 1\<rparr>))"

definition resToAnthHandleCreated :: "ResponsesStreamEvent \<Rightarrow> to_anthropic" where
  "resToAnthHandleCreated evt st =
     (let st1 = (case pe_Response evt of
            None \<Rightarrow> st
          | Some r \<Rightarrow> st\<lparr>ra_ResponseID := pr_ID r, ra_Model := (if ra_Model st = '''' then pr_Model r else ra_Model st)\<rparr>)
      in if ra_MessageStartSent st1 then ([], st1)
         else ([zero_ae\<lparr>ae_Type := ''message_start'', ae_Message := Some (zero_ar\<lparr>ar_ID := ra_ResponseID st1,
                  ar_Type := ''message'', ar_Role := ''assistant'', ar_Model := ra_Model st1\<rparr>)\<rparr>],
               st1\<lparr>ra_MessageStartSent := True\<rparr>))"

definition openItemBlock :: "ResponsesStreamEvent \<Rightarrow> gostr \<Rightarrow> AnthropicContentBlock \<Rightarrow> to_anthropic" where
  "openItemBlock evt typ b st =
     (let (closed, st1) = closeCurrentBlock st;
          idx = ra_ContentBlockIndex st1
      in (closed @ [blockStart idx b],
          st1\<lparr>ra_OutputIndexToBlockIdx := (ra_OutputIndexToBlockIdx st1)(pe_OutputIndex evt \<mapsto> idx),
              ra_ContentBlockOpen := True, ra_CurrentBlockType := typ\<rparr>))"

definition resToAnthHandleOutputItemAdded :: "ResponsesStreamEvent \<Rightarrow> to_anthropic" where
  "resToAnthHandleOutputItemAdded evt st =
     (case pe_Item evt of
        None \<Rightarrow> ([], st)
      | Some it \<Rightarrow>
          if po_Type it = ''function_call''
          then openItemBlock evt ''tool_use'' (zero_ab\<lparr>ab_Type := ''tool_use'', ab_ID := fromResponsesCallID (po_CallID it),
                 ab_Name := po_Name it, ab_Input := ''{}''\<rparr>) st
          else if po_Type it = ''reasoning''
          then openItemBlock evt ''thinking'' (zero_ab\<lparr>ab_Type := ''thinking''\<rparr>) st
          else ([], st))"

definition resToAnthHandleTextDelta :: "ResponsesStreamEvent \<Rightarrow> to_anthropic" where
  "resToAnthHandleTextDelta evt st =
     (if pe_Delta evt = '''' then ([], st)
      else let (opened, st2) =
             (if \<not> ra_ContentBlockOpen st \<or> ra_CurrentBlockType st \<noteq> ''text''
              then let (closed, st1) = closeCurrentBlock st
                   in (closed @ [blockStart (ra_ContentBlockIndex st1) (zero_ab\<lparr>ab_Type := ''text''\<rparr>)],
                       st1\<lparr>ra_ContentBlockOpen := True, ra_CurrentBlockType := ''text''\<rparr>)
              else ([], st))
           in (opened @ [blockDelta (ra_ContentBlockIndex st2) (zero_ad\<lparr>ad_Type := ''text_delta'', ad_Text := pe_Delta evt\<rparr>)], st2))"

definition resToAnthHandleFuncArgsDelta :: "ResponsesStreamEvent \<Rightarrow> to_anthropic" where
  "resToAnthHandleFuncArgsDelta evt st =
     (if pe_Delta evt = '''' then ([], st)
      else case ra_OutputIndexToBlockIdx st (pe_OutputIndex evt) of
             None \<Rightarrow> ([], st)
           | Some idx \<Rightarrow> ([blockDelta idx (zero_ad\<lparr>ad_Type := ''input_json_delta'', ad_PartialJSON := pe_Delta evt\<rparr>)], st))"

definition resToAnthHandleReasoningDelta :: "ResponsesStreamEvent \<Rightarrow> to_anthropic" where
  "resToAnthHandleReasoningDelta evt st =
     (if pe_Delta evt = '''' then ([], st)
      else case ra_OutputIndexToBlockIdx st (pe_OutputIndex evt) of
             None \<Rightarrow> ([], st)
           | Some idx \<Rightarrow> ([blockDelta idx (zero_ad\<lparr>ad_Type := ''thinking_delta'', ad_Thinking := pe_Delta evt\<rparr>)], st))"

definition resToAnthHandleBlockDone :: to_anthropic where
  "resToAnthHandleBlockDone st = (if \<not> ra_ContentBlockOpen st then ([], st) else closeCurrentBlock st)"

definition resToAnthHandleWebSearchDone :: "ResponsesOutput \<Rightarrow> to_anthropic" where
  "resToAnthHandleWebSearchDone it st =
     (let (closed, st1) = closeCurrentBlock st;
          idx = ra_ContentBlockIndex st1
      in (closed @ [blockStart idx (server_tool_use it), blockStop idx,
                    blockStart (idx + 1) (search_result it), blockStop (idx + 1)],
          st1\<lparr>ra_ContentBlockIndex := idx + 2\<rparr>))"

definition resToAnthHandleOutputItemDone :: "ResponsesStreamEvent \<Rightarrow> to_anthropic" where
  "resToAnthHandleOutputItemDone evt st =
     (case pe_Item evt of
        None \<Rightarrow> ([], st)
      | Some it \<Rightarrow>
          if po_Type it = ''web_search_call'' \<and> po_Status it = ''completed'' then resToAnthHandleWebSearchDone it st
          else if ra_ContentBlockOpen st then closeCurrentBlock st else ([], st))"

definition closingEvents :: "gostr \<Rightarrow> ResponsesEventToAnthropicState \<Rightarrow> AnthropicStreamEvent list" where
  "closingEvents stopReason st =
     [zero_ae\<lparr>ae_Type := ''message_delta'', ae_Delta := Some (zero_ad\<lparr>ad_StopReason := stopReason\<rparr>),
        ae_Usage := Some (zero_au\<lparr>au_InputTokens := ra_InputTokens st, au_OutputTokens := ra_OutputTokens st,
          au_CacheReadInputTokens := ra_CacheReadInputTokens st\<rparr>)\<rparr>,
      zero_ae\<lparr>ae_Type := ''message_stop''\<rparr>]"

definition takeStreamUsage :: "ResponsesUsage \<Rightarrow> ResponsesEventToAnthropicState \<Rightarrow> ResponsesEventToAnthropicState" where
  "takeStreamUsage u st = st\<lparr>ra_InputTokens := pu_InputTokens u, ra_OutputTokens := pu_OutputTokens u,
     ra_CacheReadInputTokens := (case pu_InputTokensDetails u of None \<Rightarrow> ra_CacheReadInputTokens st | Some cached \<Rightarrow> cached)\<rparr>"

definition completedStopReason :: "ResponsesResponse option \<Rightarrow> ResponsesEventToAnthropicState \<Rightarrow> gostr" where
  "completedStopReason resp st =
     (case resp of
        None \<Rightarrow> ''end_turn''
      | Some r \<Rightarrow>
          if pr_Status r = ''incomplete''
          then (if map_option pid_Reason (pr_IncompleteDetails r) = Some ''max_output_tokens'' then ''max_tokens'' else ''end_turn'')
          else if pr_Status r = ''completed'' \<and> ra_ContentBlockIndex st > 0 \<and> ra_CurrentBlockType st = ''tool_use''
          then ''tool_use'' else ''end_turn'')"

definition resToAnthHandleCompleted :: "ResponsesStreamEvent \<Rightarrow> to_anthropic" where
  "resToAnthHandleCompleted evt st =
     (if ra_MessageStopSent st then ([], st)
      else let (closed, st1) = closeCurrentBlock st;
               st2 = (case pe_Response evt of
                        None \<Rightarrow> st1
                      | Some r \<Rightarrow> (case pr_Usage r of None \<Rightarrow> st1 | Some u \<Rightarrow> takeStreamUsage u st1))
           in (closed @ closingEvents (completedStopReason (pe_Response evt) st2) st2, st2\<lparr>ra_MessageStopSent := True\<rparr>))"

definition ResponsesEventToAnthropicEvents :: "ResponsesStreamEvent \<Rightarrow> to_anthropic" where
  "ResponsesEventToAnthropicEvents evt st =
     (if pe_Type evt = ''response.created'' then resToAnthHandleCreated evt st
      else if pe_Type evt = ''response.output_item.added'' then resToAnthHandleOutputItemAdded evt st
      else if pe_Type evt = ''response.output_text.delta'' then resToAnthHandleTextDelta evt st
      else if pe_Type evt = ''response.output_text.done'' then resToAnthHandleBlockDone st
      else if pe_Type evt = ''response.function_call_arguments.delta'' then resToAnthHandleFuncArgsDelta evt st
      else if pe_Type evt = ''response.function_call_arguments.done'' then resToAnthHandleBlockDone st
      else if pe_Type evt = ''response.output_item.done'' then resToAnthHandleOutputItemDone evt st
      else if pe_Type evt = ''response.reasoning_summary_text.delta'' then resToAnthHandleReasoningDelta evt st
      else if pe_Type evt = ''response.reasoning_summary_text.done'' then resToAnthHandleBlockDone st
      else if pe_Type evt \<in> terminal_types then resToAnthHandleCompleted evt st
      else ([], st))"

definition FinalizeResponsesAnthropicStream :: to_anthropic where
  "FinalizeResponsesAnthropicStream st =
     (if \<not> ra_MessageStartSent st \<or> ra_MessageStopSent st then ([], st)
      else let (closed, st1) = closeCurrentBlock st
           in (closed @ closingEvents ''end_turn'' st1, st1\<lparr>ra_MessageStopSent := True\<rparr>))"

section \<open>The protocol of an Anthropic stream\<close>

datatype anth_phase = AFresh | ABetween int | AIn int gostr | AEnding | ADone

definition delta_fits :: "gostr \<Rightarrow> gostr \<Rightarrow> bool" where
  "delta_fits block delta \<longleftrightarrow>
     (block = ''text'' \<and> delta = ''text_delta'') \<or>
     (block = ''thinking'' \<and> (delta = ''thinking_delta'' \<or> delta = ''signature_delta'')) \<or>
     (block = ''tool_use'' \<and> delta = ''input_json_delta'')"

text \<open>
  The protocol of what the gateway sends to a Messages client: the message starts, its blocks follow
  one another with consecutive indices, each gets the deltas of its kind while it is open, and the
  message ends with its delta and its stop.  What is accepted from an Anthropic upstream is wider, with
  pings, errors and unknown events anywhere: \<open>anth_upstream_step\<close> of \<open>Responses_Stream_Safety\<close>.
\<close>

definition anth_step :: "AnthropicStreamEvent \<Rightarrow> anth_phase \<Rightarrow> anth_phase option" where
  "anth_step e p =
     (case p of
        AFresh \<Rightarrow> if ae_Type e = ''message_start'' \<and> ae_Message e \<noteq> None then Some (ABetween 0) else None
      | ABetween n \<Rightarrow>
          if ae_Type e = ''content_block_start'' \<and> ae_Index e = Some n \<and> ae_ContentBlock e \<noteq> None
          then Some (AIn n (ab_Type (the (ae_ContentBlock e))))
          else if ae_Type e = ''message_delta'' \<and> ae_Delta e \<noteq> None then Some AEnding else None
      | AIn n t \<Rightarrow>
          if ae_Type e = ''content_block_delta'' \<and> ae_Index e = Some n \<and> ae_Delta e \<noteq> None \<and>
             delta_fits t (ad_Type (the (ae_Delta e))) then Some p
          else if ae_Type e = ''content_block_stop'' \<and> ae_Index e = Some n then Some (ABetween (n + 1)) else None
      | AEnding \<Rightarrow> if ae_Type e = ''message_stop'' then Some ADone else None
      | ADone \<Rightarrow> None)"

section \<open>What an Anthropic client reads\<close>

record block_view =
  bv_Type :: gostr
  bv_ID :: gostr
  bv_Name :: gostr
  bv_Data :: gostr

record anth_view =
  av_phase :: "anth_phase option"
  av_blocks :: "block_view list"

definition fresh_view :: anth_view where
  "fresh_view = \<lparr>av_phase = Some AFresh, av_blocks = []\<rparr>"

definition delta_data :: "AnthropicDelta \<Rightarrow> gostr" where
  "delta_data d =
     (if ad_Type d = ''text_delta'' then ad_Text d
      else if ad_Type d = ''thinking_delta'' then ad_Thinking d
      else if ad_Type d = ''input_json_delta'' then ad_PartialJSON d else '''')"

definition add_data :: "gostr \<Rightarrow> nat \<Rightarrow> block_view list \<Rightarrow> block_view list" where
  "add_data s i bs = bs[i := (bs ! i)\<lparr>bv_Data := bv_Data (bs ! i) @ s\<rparr>]"

definition see_block :: "AnthropicStreamEvent \<Rightarrow> block_view list \<Rightarrow> block_view list" where
  "see_block e bs =
     (if ae_Type e = ''content_block_start''
      then (case ae_ContentBlock e of
              None \<Rightarrow> bs
            | Some b \<Rightarrow> bs @ [\<lparr>bv_Type = ab_Type b, bv_ID = ab_ID b, bv_Name = ab_Name b, bv_Data = ''''\<rparr>])
      else if ae_Type e = ''content_block_delta''
      then (case (ae_Index e, ae_Delta e) of (Some i, Some d) \<Rightarrow> add_data (delta_data d) (nat i) bs | _ \<Rightarrow> bs)
      else bs)"

definition see_anth :: "AnthropicStreamEvent \<Rightarrow> anth_view \<Rightarrow> anth_view" where
  "see_anth e v = \<lparr>av_phase = Option.bind (av_phase v) (anth_step e), av_blocks = see_block e (av_blocks v)\<rparr>"

definition blocks_data :: "gostr \<Rightarrow> block_view list \<Rightarrow> gostr" where
  "blocks_data t bs = concat (map bv_Data (filter (\<lambda>b. bv_Type b = t) bs))"

definition tool_blocks :: "block_view list \<Rightarrow> block_view list" where
  "tool_blocks bs = filter (\<lambda>b. bv_Type b = ''tool_use'') bs"

definition tool_block :: "bufferedFuncCall \<Rightarrow> block_view" where
  "tool_block f = \<lparr>bv_Type = ''tool_use'', bv_ID = fromResponsesCallID (bf_CallID f), bv_Name = bf_Name f, bv_Data = bf_Args f\<rparr>"

end
