(* ===== verification/Anthropic_Stream_Safety.thy ===== *)
theory Anthropic_Stream_Safety
  imports Anthropic_Stream Stream_Refinement
begin

text \<open>
  The promise of the Responses to Anthropic converter, proved as an interpretation of the locale
  \<open>converter\<close>: the upstream keeps \<open>upstream_step\<close>, the client is \<open>see_anth\<close> and the reference
  reading of the upstream stream is \<open>accumulate\<close>.  \<open>resp_step\<close> is the narrow form of the protocol that
  the opposite converter is held to.
\<close>

section \<open>The protocol of a Responses stream\<close>

text \<open>
  As the gateway itself sends one.
  The output items follow one another; \<open>RItem i k live\<close> is the open item at index \<open>i\<close> of kind \<open>k\<close>,
  \<open>live\<close> until its arguments or its (single) summary are done.  Events of other types carry no content.
\<close>

datatype resp_phase = RFresh | RIdle | RItem int gostr bool | RDone

definition content_types :: "gostr set" where
  "content_types = {''response.created'', ''response.output_item.added'', ''response.output_item.done'',
     ''response.output_text.delta'', ''response.output_text.done'',
     ''response.function_call_arguments.delta'', ''response.function_call_arguments.done'',
     ''response.reasoning_summary_text.delta'', ''response.reasoning_summary_text.done''} \<union> terminal_types"

definition item_step :: "ResponsesStreamEvent \<Rightarrow> int \<Rightarrow> gostr \<Rightarrow> bool \<Rightarrow> resp_phase option" where
  "item_step e i k live =
     (if pe_Type e \<in> {''response.output_text.delta'', ''response.output_text.done''}
      then (if k = ''message'' then Some (RItem i k live) else None)
      else if pe_Type e \<in> {''response.function_call_arguments.delta'', ''response.function_call_arguments.done''}
      then (if k = ''function_call'' \<and> live \<and> pe_OutputIndex e = i
            then Some (RItem i k (pe_Type e = ''response.function_call_arguments.delta'')) else None)
      else if pe_Type e \<in> {''response.reasoning_summary_text.delta'', ''response.reasoning_summary_text.done''}
      then (if k = ''reasoning'' \<and> live \<and> pe_OutputIndex e = i
            then Some (RItem i k (pe_Type e = ''response.reasoning_summary_text.delta'')) else None)
      else if pe_Type e = ''response.output_item.done'' \<and> pe_Item e \<noteq> None then Some RIdle
      else None)"

definition resp_step :: "ResponsesStreamEvent \<Rightarrow> resp_phase \<Rightarrow> resp_phase option" where
  "resp_step e p =
     (case p of
        RFresh \<Rightarrow> if pe_Type e = ''response.created'' then Some RIdle else None
      | RDone \<Rightarrow> None
      | RIdle \<Rightarrow>
          if pe_Type e \<notin> content_types then Some RIdle
          else if pe_Type e = ''response.output_item.added''
          then (case pe_Item e of None \<Rightarrow> None | Some it \<Rightarrow> Some (RItem (pe_OutputIndex e) (po_Type it) True))
          else if pe_Type e \<in> terminal_types then Some RDone else None
      | RItem i k live \<Rightarrow> if pe_Type e \<notin> content_types then Some p else item_step e i k live)"

text \<open>
  As an upstream may send one.  Text may come at any time, with or without an item around it; items may
  be announced and ended in any order; the response may complete, fail or break off as incomplete with
  items still open; events without content come anywhere.  Only the pieces of call arguments and of
  reasoning summaries are bound to a place: they belong to the call or the reasoning item that was
  announced last, as long as neither text nor the end of a part or of an item came in between.
\<close>

datatype upstream_phase = UFresh | UOpen | ULive int gostr | UDone

definition live_delta :: "gostr \<Rightarrow> gostr" where
  "live_delta k = (if k = ''function_call'' then ''response.function_call_arguments.delta''
     else ''response.reasoning_summary_text.delta'')"

definition running_step :: "ResponsesStreamEvent \<Rightarrow> upstream_phase \<Rightarrow> upstream_phase option" where
  "running_step e p =
     (if pe_Type e = ''response.created'' then Some p
      else if pe_Type e \<in> terminal_types then Some UDone
      else if pe_Type e = ''response.output_item.added''
      then Some (case pe_Item e of
             None \<Rightarrow> p
           | Some it \<Rightarrow> if po_Type it \<in> {''function_call'', ''reasoning''} then ULive (pe_OutputIndex e) (po_Type it) else p)
      else if pe_Type e = ''response.output_text.delta'' then Some (if pe_Delta e = '''' then p else UOpen)
      else if pe_Type e = ''response.output_item.done'' then Some (if pe_Item e = None then p else UOpen)
      else if pe_Type e \<in> {''response.output_text.done'', ''response.function_call_arguments.done'',
             ''response.reasoning_summary_text.done''} then Some UOpen
      else if pe_Delta e = '''' then Some p
      else (case p of ULive i k \<Rightarrow> if pe_OutputIndex e = i \<and> pe_Type e = live_delta k then Some p else None | _ \<Rightarrow> None))"

definition upstream_step :: "ResponsesStreamEvent \<Rightarrow> upstream_phase \<Rightarrow> upstream_phase option" where
  "upstream_step e p =
     (if pe_Type e \<notin> content_types then Some p
      else case p of
             UFresh \<Rightarrow> if pe_Type e = ''response.created'' then Some UOpen else None
           | UDone \<Rightarrow> if pe_Type e \<in> terminal_types then Some UDone else None
           | _ \<Rightarrow> running_step e p)"

section \<open>Content\<close>

definition same_content :: "block_view list \<Rightarrow> BufferedResponseAccumulator \<Rightarrow> bool" where
  "same_content bs a \<longleftrightarrow> blocks_data ''text'' bs = bra_text a \<and> blocks_data ''thinking'' bs = bra_reasoning a \<and>
     tool_blocks bs = map tool_block (bra_funcCalls a)"

lemma blocks_data_append [simp]: "blocks_data t (bs @ cs) = blocks_data t bs @ blocks_data t cs"
  by (simp add: blocks_data_def)

lemma blocks_data_Cons [simp]: "blocks_data t (b # bs) = (if bv_Type b = t then bv_Data b else []) @ blocks_data t bs"
  by (simp add: blocks_data_def)

lemma blocks_data_Nil [simp]: "blocks_data t [] = []"
  by (simp add: blocks_data_def)

lemma tool_blocks_append [simp]: "tool_blocks (bs @ cs) = tool_blocks bs @ tool_blocks cs"
  by (simp add: tool_blocks_def)

lemma tool_blocks_Cons [simp]: "tool_blocks (b # bs) = (if bv_Type b = ''tool_use'' then [b] else []) @ tool_blocks bs"
  by (simp add: tool_blocks_def)

lemma tool_blocks_Nil [simp]: "tool_blocks [] = []"
  by (simp add: tool_blocks_def)

lemma add_data_last [simp]: "add_data s (length bs) (bs @ [b]) = bs @ [b\<lparr>bv_Data := bv_Data b @ s\<rparr>]"
  by (simp add: add_data_def)

lemma appendArgs_last: "appendArgs s (length fs) (fs @ [f]) = fs @ [f\<lparr>bf_Args := bf_Args f @ s\<rparr>]"
  by (simp add: appendArgs_def)

lemma tool_block_append: "tool_block (f\<lparr>bf_Args := bf_Args f @ s\<rparr>) = (tool_block f)\<lparr>bv_Data := bv_Data (tool_block f) @ s\<rparr>"
  by (simp add: tool_block_def)

section \<open>The simulation\<close>

text \<open>\<open>open_at\<close>: the last block is open, of the given type; \<open>shut\<close>: all blocks are closed.\<close>

definition shut :: "ResponsesEventToAnthropicState \<Rightarrow> anth_view \<Rightarrow> bool" where
  "shut st v \<longleftrightarrow> \<not> ra_ContentBlockOpen st \<and> ra_ContentBlockIndex st = int (length (av_blocks v)) \<and>
     av_phase v = Some (ABetween (ra_ContentBlockIndex st))"

definition open_at :: "gostr \<Rightarrow> ResponsesEventToAnthropicState \<Rightarrow> anth_view \<Rightarrow> bool" where
  "open_at t st v \<longleftrightarrow> ra_ContentBlockOpen st \<and> ra_CurrentBlockType st = t \<and>
     (\<exists>bs b. av_blocks v = bs @ [b] \<and> bv_Type b = t \<and> ra_ContentBlockIndex st = int (length bs)) \<and>
     av_phase v = Some (AIn (ra_ContentBlockIndex st) t)"

definition last_call :: "int \<Rightarrow> anth_view \<Rightarrow> BufferedResponseAccumulator \<Rightarrow> bool" where
  "last_call i v a \<longleftrightarrow> (\<exists>fs f. bra_funcCalls a = fs @ [f] \<and> bra_outputIndexToFuncIdx a i = Some (length fs))"

definition live_ok :: "int \<Rightarrow> gostr \<Rightarrow> ResponsesEventToAnthropicState \<Rightarrow> anth_view \<Rightarrow> BufferedResponseAccumulator \<Rightarrow> bool" where
  "live_ok i k st v a \<longleftrightarrow>
     ra_OutputIndexToBlockIdx st i = Some (ra_ContentBlockIndex st) \<and>
     (k = ''function_call'' \<and> open_at ''tool_use'' st v \<and> last_call i v a \<or> k = ''reasoning'' \<and> open_at ''thinking'' st v)"

definition anth_sim ::
  "upstream_phase \<Rightarrow> ResponsesEventToAnthropicState \<Rightarrow> anth_view \<Rightarrow> BufferedResponseAccumulator \<Rightarrow> bool" where
  "anth_sim p st v a \<longleftrightarrow> same_content (av_blocks v) a \<and>
     ra_MessageStartSent st = (p \<noteq> UFresh) \<and> ra_MessageStopSent st = (p = UDone) \<and>
     (case p of
        UFresh \<Rightarrow> \<not> ra_ContentBlockOpen st \<and> ra_ContentBlockIndex st = 0 \<and> av_blocks v = [] \<and> av_phase v = Some AFresh
      | UOpen \<Rightarrow> shut st v \<or> open_at ''text'' st v
      | ULive i k \<Rightarrow> live_ok i k st v a
      | UDone \<Rightarrow> av_phase v = Some ADone)"

text \<open>While the stream runs, at most one block is open.\<close>

lemma anth_sim_running:
  assumes "anth_sim p st v a" "p \<noteq> UFresh" "p \<noteq> UDone"
  obtains t where "shut st v \<or> open_at t st v" "same_content (av_blocks v) a" "ra_MessageStartSent st" "\<not> ra_MessageStopSent st"
  using assms that by (cases p) (auto simp: anth_sim_def live_ok_def)

lemmas anth_events = see_anth_def see_block_def anth_step_def blockStart_def blockStop_def blockDelta_def
  closingEvents_def zero_ae_def zero_ad_def zero_ab_def

lemma close_run:
  assumes "closeCurrentBlock st = (cs, st1)" "shut st v \<or> open_at t st v"
  shows "shut st1 (fold see_anth cs v)" "av_blocks (fold see_anth cs v) = av_blocks v"
    "ra_MessageStartSent st1 = ra_MessageStartSent st" "ra_MessageStopSent st1 = ra_MessageStopSent st"
    "ra_OutputIndexToBlockIdx st1 = ra_OutputIndexToBlockIdx st"
  using assms by (auto simp: closeCurrentBlock_def shut_def open_at_def anth_events split: if_splits)

lemma start_run:
  assumes "shut st v" "ab_Type b = t"
  shows "open_at t (st\<lparr>ra_OutputIndexToBlockIdx := m, ra_ContentBlockOpen := True, ra_CurrentBlockType := t\<rparr>)
           (see_anth (blockStart (ra_ContentBlockIndex st) b) v)"
    "av_blocks (see_anth (blockStart (ra_ContentBlockIndex st) b) v) =
       av_blocks v @ [\<lparr>bv_Type = t, bv_ID = ab_ID b, bv_Name = ab_Name b, bv_Data = ''''\<rparr>]"
  using assms by (auto simp: shut_def open_at_def anth_events)

lemma delta_run:
  assumes "open_at t st v" "delta_fits t (ad_Type d)"
  shows "open_at t st (see_anth (blockDelta (ra_ContentBlockIndex st) d) v)"
    "\<exists>bs b. av_blocks v = bs @ [b] \<and> bv_Type b = t \<and>
       av_blocks (see_anth (blockDelta (ra_ContentBlockIndex st) d) v) = bs @ [b\<lparr>bv_Data := bv_Data b @ delta_data d\<rparr>]"
  using assms by (auto simp: open_at_def anth_events)

lemma end_run:
  assumes "shut st v"
  shows "av_phase (fold see_anth (closingEvents r st) v) = Some ADone"
    "av_blocks (fold see_anth (closingEvents r st) v) = av_blocks v"
  using assms by (auto simp: shut_def anth_events)


section \<open>One event\<close>

lemma anth_sim_created:
  "anth_sim UFresh st v a \<Longrightarrow> resToAnthHandleCreated evt st = (cs, st1) \<Longrightarrow> anth_sim UOpen st1 (fold see_anth cs v) a"
  by (auto simp: anth_sim_def resToAnthHandleCreated_def shut_def anth_events Let_def split: option.splits)

lemma anth_sim_created_again:
  "anth_sim p st v a \<Longrightarrow> p \<noteq> UFresh \<Longrightarrow> resToAnthHandleCreated evt st = (cs, st1) \<Longrightarrow> anth_sim p st1 (fold see_anth cs v) a"
  by (cases p) (auto simp: anth_sim_def resToAnthHandleCreated_def shut_def open_at_def live_ok_def Let_def split: option.splits)

lemma openItem_run:
  assumes so: "shut st v \<or> open_at t0 st v" and run: "openItemBlock evt t b st = (cs, st1)" "ab_Type b = t"
  shows "open_at t st1 (fold see_anth cs v)"
    "av_blocks (fold see_anth cs v) = av_blocks v @ [\<lparr>bv_Type = t, bv_ID = ab_ID b, bv_Name = ab_Name b, bv_Data = ''''\<rparr>]"
    "ra_OutputIndexToBlockIdx st1 (pe_OutputIndex evt) = Some (ra_ContentBlockIndex st1)"
    "ra_MessageStartSent st1 = ra_MessageStartSent st" "ra_MessageStopSent st1 = ra_MessageStopSent st"
proof -
  obtain c1 st2 where close: "closeCurrentBlock st = (c1, st2)" by fastforce
  note c = close_run [OF close so]
  show "open_at t st1 (fold see_anth cs v)"
    "av_blocks (fold see_anth cs v) = av_blocks v @ [\<lparr>bv_Type = t, bv_ID = ab_ID b, bv_Name = ab_Name b, bv_Data = ''''\<rparr>]"
    "ra_OutputIndexToBlockIdx st1 (pe_OutputIndex evt) = Some (ra_ContentBlockIndex st1)"
    "ra_MessageStartSent st1 = ra_MessageStartSent st" "ra_MessageStopSent st1 = ra_MessageStopSent st"
    using run close c start_run [OF c(1) run(2)] by (auto simp: openItemBlock_def Let_def)
qed

lemma anth_sim_added:
  assumes sim: "anth_sim p st v a" "p \<noteq> UFresh" "p \<noteq> UDone"
    and t: "pe_Type evt = ''response.output_item.added''" and it: "pe_Item evt = Some it"
    and run: "resToAnthHandleOutputItemAdded evt st = (cs, st1)"
  shows "anth_sim (if po_Type it \<in> {''function_call'', ''reasoning''} then ULive (pe_OutputIndex evt) (po_Type it) else p)
    st1 (fold see_anth cs v) (accumulate evt a)"
proof -
  obtain t0 where so: "shut st v \<or> open_at t0 st v" and cont: "same_content (av_blocks v) a"
    and fl: "ra_MessageStartSent st" "\<not> ra_MessageStopSent st"
    using anth_sim_running [OF sim] by metis
  show ?thesis
  proof (cases "po_Type it = ''function_call''")
    case True
    let ?b = "zero_ab\<lparr>ab_Type := ''tool_use'', ab_ID := fromResponsesCallID (po_CallID it), ab_Name := po_Name it, ab_Input := ''{}''\<rparr>"
    have "openItemBlock evt ''tool_use'' ?b st = (cs, st1)" using run it True by (simp add: resToAnthHandleOutputItemAdded_def)
    note o = openItem_run [OF so this]
    have a1: "accumulate evt a =
        a\<lparr>bra_outputIndexToFuncIdx := (bra_outputIndexToFuncIdx a)(pe_OutputIndex evt \<mapsto> length (bra_funcCalls a)),
          bra_funcCalls := bra_funcCalls a @ [\<lparr>bf_CallID = po_CallID it, bf_Name = po_Name it, bf_Args = ''''\<rparr>]\<rparr>"
      using t it True by (simp add: accumulate_def)
    have "same_content (av_blocks (fold see_anth cs v)) (accumulate evt a)"
      using cont o(2) by (simp add: a1 same_content_def tool_block_def zero_ab_def)
    then show ?thesis using o fl True by (auto simp: anth_sim_def live_ok_def last_call_def a1 zero_ab_def)
  next
    case False
    then have a1: "accumulate evt a = a" using t it by (simp add: accumulate_def)
    show ?thesis
    proof (cases "po_Type it = ''reasoning''")
      case True
      have "openItemBlock evt ''thinking'' (zero_ab\<lparr>ab_Type := ''thinking''\<rparr>) st = (cs, st1)"
        using run it True by (simp add: resToAnthHandleOutputItemAdded_def)
      note o = openItem_run [OF so this]
      have "same_content (av_blocks (fold see_anth cs v)) a" using cont o(2) by (simp add: same_content_def zero_ab_def)
      then show ?thesis using o fl True a1 by (auto simp: anth_sim_def live_ok_def zero_ab_def)
    next
      case other: False
      then have "cs = []" "st1 = st" using run it False by (simp_all add: resToAnthHandleOutputItemAdded_def)
      then show ?thesis using sim(1) a1 False other by simp
    qed
  qed
qed

lemma anth_sim_text:
  assumes sim: "anth_sim p st v a" "p \<noteq> UFresh" "p \<noteq> UDone" and t: "pe_Type evt = ''response.output_text.delta''"
    and run: "resToAnthHandleTextDelta evt st = (cs, st1)"
  shows "anth_sim (if pe_Delta evt = '''' then p else UOpen) st1 (fold see_anth cs v) (accumulate evt a)"
proof -
  obtain t0 where so: "shut st v \<or> open_at t0 st v" and cont: "same_content (av_blocks v) a"
    and fl: "ra_MessageStartSent st" "\<not> ra_MessageStopSent st"
    using anth_sim_running [OF sim] by metis
  have a1: "accumulate evt a = a\<lparr>bra_text := bra_text a @ pe_Delta evt\<rparr>" using t by (simp add: accumulate_def)
  let ?d = "zero_ad\<lparr>ad_Type := ''text_delta'', ad_Text := pe_Delta evt\<rparr>"
  have d: "delta_fits ''text'' (ad_Type ?d)" "delta_data ?d = pe_Delta evt" by (simp_all add: delta_fits_def delta_data_def)
  show ?thesis
  proof (cases "pe_Delta evt = ''''")
    case True
    then show ?thesis using run sim a1 by (simp add: resToAnthHandleTextDelta_def)
  next
    case nonempty: False
    show ?thesis
    proof (cases "open_at ''text'' st v")
      case True
      have "st1 = st" "cs = [blockDelta (ra_ContentBlockIndex st) ?d]"
        using run nonempty True by (auto simp: resToAnthHandleTextDelta_def open_at_def)
      then show ?thesis using delta_run [OF True d(1)] cont fl nonempty
        by (auto simp: anth_sim_def a1 same_content_def d(2))
    next
      case False
      obtain c1 st0 where close: "closeCurrentBlock st = (c1, st0)" by fastforce
      note c = close_run [OF close so]
      define st2 where "st2 = st0\<lparr>ra_ContentBlockOpen := True, ra_CurrentBlockType := ''text''\<rparr>"
      define v2 where "v2 = see_anth (blockStart (ra_ContentBlockIndex st0) (zero_ab\<lparr>ab_Type := ''text''\<rparr>)) (fold see_anth c1 v)"
      have o: "open_at ''text'' st2 v2" "av_blocks v2 = av_blocks v @ [\<lparr>bv_Type = ''text'', bv_ID = '''', bv_Name = '''', bv_Data = ''''\<rparr>]"
        using start_run(1) [OF c(1), of "zero_ab\<lparr>ab_Type := ''text''\<rparr>" "''text''" "ra_OutputIndexToBlockIdx st0"]
          start_run(2) [OF c(1), of "zero_ab\<lparr>ab_Type := ''text''\<rparr>" "''text''"] c(2)
        by (simp_all add: st2_def v2_def zero_ab_def)
      have "\<not> ra_ContentBlockOpen st \<or> ra_CurrentBlockType st \<noteq> ''text''"
        using False so by (auto simp: shut_def open_at_def)
      then have "st1 = st2" "fold see_anth cs v = see_anth (blockDelta (ra_ContentBlockIndex st2) ?d) v2"
        using run nonempty close by (auto simp: resToAnthHandleTextDelta_def Let_def st2_def v2_def)
      then show ?thesis using delta_run [OF o(1) d(1)] cont fl o(2) nonempty c(3,4)
        by (auto simp: anth_sim_def a1 same_content_def d(2) st2_def)
    qed
  qed
qed

lemma anth_sim_block_done:
  assumes sim: "anth_sim p st v a" "p \<noteq> UFresh" "p \<noteq> UDone" and run: "resToAnthHandleBlockDone st = (cs, st1)"
  shows "anth_sim UOpen st1 (fold see_anth cs v) a"
proof -
  obtain t where so: "shut st v \<or> open_at t st v" and rest: "same_content (av_blocks v) a" "ra_MessageStartSent st" "\<not> ra_MessageStopSent st"
    using anth_sim_running [OF sim] by metis
  have "closeCurrentBlock st = (cs, st1)" using run by (auto simp: resToAnthHandleBlockDone_def closeCurrentBlock_def split: if_splits)
  note c = close_run [OF this so]
  show ?thesis using c rest by (simp add: anth_sim_def)
qed

lemma anth_sim_args:
  assumes sim: "anth_sim (ULive (pe_OutputIndex evt) ''function_call'') st v a"
    and t: "pe_Type evt = ''response.function_call_arguments.delta''"
    and run: "resToAnthHandleFuncArgsDelta evt st = (cs, st1)"
  shows "anth_sim (ULive (pe_OutputIndex evt) ''function_call'') st1 (fold see_anth cs v) (accumulate evt a)"
proof (cases "pe_Delta evt = ''''")
  case True
  then show ?thesis using run sim t by (simp add: resToAnthHandleFuncArgsDelta_def accumulate_def)
next
  case False
  let ?i = "pe_OutputIndex evt" and ?d = "zero_ad\<lparr>ad_Type := ''input_json_delta'', ad_PartialJSON := pe_Delta evt\<rparr>"
  have o: "open_at ''tool_use'' st v" and m: "ra_OutputIndexToBlockIdx st ?i = Some (ra_ContentBlockIndex st)"
    and l: "last_call ?i v a" and cont: "same_content (av_blocks v) a" and fl: "ra_MessageStartSent st" "\<not> ra_MessageStopSent st"
    using sim by (auto simp: anth_sim_def live_ok_def)
  have d: "delta_fits ''tool_use'' (ad_Type ?d)" "delta_data ?d = pe_Delta evt" by (simp_all add: delta_fits_def delta_data_def)
  have cs: "st1 = st" "cs = [blockDelta (ra_ContentBlockIndex st) ?d]" using run False m by (auto simp: resToAnthHandleFuncArgsDelta_def)
  obtain bs b where b: "av_blocks v = bs @ [b]" "bv_Type b = ''tool_use''"
    "av_blocks (fold see_anth cs v) = bs @ [b\<lparr>bv_Data := bv_Data b @ pe_Delta evt\<rparr>]"
    using delta_run(2) [OF o d(1)] d(2) cs by auto
  obtain fs f where f: "bra_funcCalls a = fs @ [f]" "bra_outputIndexToFuncIdx a ?i = Some (length fs)"
    using l by (auto simp: last_call_def)
  have a1: "accumulate evt a = a\<lparr>bra_funcCalls := fs @ [f\<lparr>bf_Args := bf_Args f @ pe_Delta evt\<rparr>]\<rparr>"
    using t False f by (simp add: accumulate_def appendArgs_last)
  have "tool_blocks bs = map tool_block fs" "b = tool_block f" using cont b f by (auto simp: same_content_def)
  then have "same_content (av_blocks (fold see_anth cs v)) (accumulate evt a)"
    using cont b f by (simp add: a1 same_content_def tool_block_append)
  then show ?thesis using delta_run(1) [OF o d(1)] cs m fl f by (auto simp: anth_sim_def live_ok_def last_call_def a1)
qed

lemma anth_sim_reasoning:
  assumes sim: "anth_sim (ULive (pe_OutputIndex evt) ''reasoning'') st v a"
    and t: "pe_Type evt = ''response.reasoning_summary_text.delta''"
    and run: "resToAnthHandleReasoningDelta evt st = (cs, st1)"
  shows "anth_sim (ULive (pe_OutputIndex evt) ''reasoning'') st1 (fold see_anth cs v) (accumulate evt a)"
proof (cases "pe_Delta evt = ''''")
  case True
  then show ?thesis using run sim t by (simp add: resToAnthHandleReasoningDelta_def accumulate_def)
next
  case False
  let ?d = "zero_ad\<lparr>ad_Type := ''thinking_delta'', ad_Thinking := pe_Delta evt\<rparr>"
  have o: "open_at ''thinking'' st v" and m: "ra_OutputIndexToBlockIdx st (pe_OutputIndex evt) = Some (ra_ContentBlockIndex st)"
    and cont: "same_content (av_blocks v) a" and fl: "ra_MessageStartSent st" "\<not> ra_MessageStopSent st"
    using sim by (auto simp: anth_sim_def live_ok_def)
  have d: "delta_fits ''thinking'' (ad_Type ?d)" "delta_data ?d = pe_Delta evt" by (simp_all add: delta_fits_def delta_data_def)
  have cs: "st1 = st" "cs = [blockDelta (ra_ContentBlockIndex st) ?d]" using run False m by (auto simp: resToAnthHandleReasoningDelta_def)
  have a1: "accumulate evt a = a\<lparr>bra_reasoning := bra_reasoning a @ pe_Delta evt\<rparr>" using t by (simp add: accumulate_def)
  show ?thesis using delta_run [OF o d(1)] cs m fl cont by (auto simp: anth_sim_def live_ok_def a1 same_content_def d(2))
qed

lemma search_run:
  assumes "shut st v" "resToAnthHandleWebSearchDone it st = (cs, st1)"
  shows "shut st1 (fold see_anth cs v)" "same_content (av_blocks (fold see_anth cs v)) a = same_content (av_blocks v) a"
    "ra_MessageStartSent st1 = ra_MessageStartSent st" "ra_MessageStopSent st1 = ra_MessageStopSent st"
  using assms
  by (auto simp: resToAnthHandleWebSearchDone_def closeCurrentBlock_def shut_def anth_events server_tool_use_def search_result_def
      same_content_def Let_def)

lemma search_closes:
  "resToAnthHandleWebSearchDone it st =
     (case closeCurrentBlock st of (cs, st1) \<Rightarrow> case resToAnthHandleWebSearchDone it st1 of (ds, st2) \<Rightarrow> (cs @ ds, st2))"
  by (simp add: resToAnthHandleWebSearchDone_def closeCurrentBlock_def Let_def)

lemma anth_sim_item_done:
  assumes sim: "anth_sim p st v a" "p \<noteq> UFresh" "p \<noteq> UDone" and it: "pe_Item evt = Some it"
    and run: "resToAnthHandleOutputItemDone evt st = (cs, st1)"
  shows "anth_sim UOpen st1 (fold see_anth cs v) a"
proof -
  obtain t where so: "shut st v \<or> open_at t st v" and rest: "same_content (av_blocks v) a" "ra_MessageStartSent st" "\<not> ra_MessageStopSent st"
    using anth_sim_running [OF sim] by metis
  obtain c1 st2 where close: "closeCurrentBlock st = (c1, st2)" by fastforce
  note c = close_run [OF close so]
  show ?thesis
  proof (cases "po_Type it = ''web_search_call'' \<and> po_Status it = ''completed''")
    case True
    obtain c2 st3 where s: "resToAnthHandleWebSearchDone it st2 = (c2, st3)" by fastforce
    have "cs = c1 @ c2" "st1 = st3" using run it True search_closes [of it st] close s by (simp_all add: resToAnthHandleOutputItemDone_def)
    then show ?thesis using search_run [OF c(1) s] c rest by (simp add: anth_sim_def)
  next
    case False
    then have "cs = c1" "st1 = st2" using run it close by (auto simp: resToAnthHandleOutputItemDone_def closeCurrentBlock_def split: if_splits)
    then show ?thesis using c rest by (simp add: anth_sim_def)
  qed
qed

lemma anth_sim_completed:
  assumes sim: "anth_sim p st v a" "p \<noteq> UFresh" "p \<noteq> UDone" and run: "resToAnthHandleCompleted evt st = (cs, st1)"
  shows "anth_sim UDone st1 (fold see_anth cs v) a"
proof -
  obtain t where so: "shut st v \<or> open_at t st v" and rest: "same_content (av_blocks v) a" "ra_MessageStartSent st" "\<not> ra_MessageStopSent st"
    using anth_sim_running [OF sim] by metis
  obtain c1 st0 where close: "closeCurrentBlock st = (c1, st0)" by fastforce
  note c = close_run [OF close so]
  define st2 where "st2 = (case pe_Response evt of None \<Rightarrow> st0 | Some r \<Rightarrow> (case pr_Usage r of None \<Rightarrow> st0 | Some u \<Rightarrow> takeStreamUsage u st0))"
  have "shut st2 (fold see_anth c1 v)" using c(1) by (auto simp: st2_def shut_def takeStreamUsage_def split: option.split)
  note e = end_run [OF this]
  have "cs = c1 @ closingEvents (completedStopReason (pe_Response evt) st2) st2" "st1 = st2\<lparr>ra_MessageStopSent := True\<rparr>"
    using run rest close by (auto simp: resToAnthHandleCompleted_def st2_def Let_def)
  moreover have "ra_MessageStartSent st2" using rest c(3) by (auto simp: st2_def takeStreamUsage_def split: option.split)
  ultimately show ?thesis using e rest c(2) by (simp add: anth_sim_def)
qed

lemma anth_sim_silent:
  "pe_Type evt \<notin> content_types \<Longrightarrow> ResponsesEventToAnthropicEvents evt st = ([], st) \<and> accumulate evt a = a"
  by (auto simp: content_types_def ResponsesEventToAnthropicEvents_def accumulate_def)

lemma content_type_cases:
  assumes "pe_Type e \<in> content_types"
  obtains "pe_Type e = ''response.created''" | "pe_Type e \<in> terminal_types" | "pe_Type e = ''response.output_item.added''"
    | "pe_Type e = ''response.output_text.delta''" | "pe_Type e = ''response.output_item.done''"
    | "pe_Type e \<in> {''response.output_text.done'', ''response.function_call_arguments.done'', ''response.reasoning_summary_text.done''}"
    | "pe_Type e = ''response.function_call_arguments.delta''" | "pe_Type e = ''response.reasoning_summary_text.delta''"
  using assms unfolding content_types_def by blast

lemmas event_types = ResponsesEventToAnthropicEvents_def accumulate_def terminal_types_def

lemma anth_sim_live:
  assumes sim: "anth_sim p st v a" "p \<noteq> UFresh" "p \<noteq> UDone" and p: "running_step evt p = Some p1"
    and t: "pe_Type evt \<in> {''response.function_call_arguments.delta'', ''response.reasoning_summary_text.delta''}"
    and run: "ResponsesEventToAnthropicEvents evt st = (cs, st1)"
  shows "anth_sim p1 st1 (fold see_anth cs v) (accumulate evt a)"
proof (cases "pe_Delta evt = ''''")
  case True
  then have "p1 = p" "cs = []" "st1 = st" "accumulate evt a = a"
    using t p run by (auto simp: running_step_def event_types resToAnthHandleFuncArgsDelta_def resToAnthHandleReasoningDelta_def)
  then show ?thesis using sim by simp
next
  case False
  then obtain k where k: "p = ULive (pe_OutputIndex evt) k" "pe_Type evt = live_delta k" "p1 = p"
    using t p by (cases p) (auto simp: running_step_def terminal_types_def split: if_splits)
  have "k = ''function_call'' \<or> k = ''reasoning''" using sim(1) k(1) by (auto simp: anth_sim_def live_ok_def)
  then show ?thesis
  proof
    assume "k = ''function_call''"
    then show ?thesis using sim(1) run k anth_sim_args by (auto simp: event_types live_delta_def)
  next
    assume "k = ''reasoning''"
    then show ?thesis using sim(1) run k anth_sim_reasoning by (auto simp: event_types live_delta_def)
  qed
qed

lemma anth_sim_runs:
  assumes sim: "anth_sim p st v a" "p \<noteq> UFresh" "p \<noteq> UDone" and p: "running_step evt p = Some p1"
    and c: "pe_Type evt \<in> content_types" and run: "ResponsesEventToAnthropicEvents evt st = (cs, st1)"
  shows "anth_sim p1 st1 (fold see_anth cs v) (accumulate evt a)"
  using c
proof (cases rule: content_type_cases)
  case 1
  then show ?thesis using p run anth_sim_created_again [OF sim(1,2)] by (simp add: running_step_def event_types)
next
  case 2
  then have "resToAnthHandleCompleted evt st = (cs, st1)" "p1 = UDone" "accumulate evt a = a"
    using p run by (auto simp: running_step_def event_types)
  then show ?thesis using anth_sim_completed [OF sim] by simp
next
  case 3
  then have h: "resToAnthHandleOutputItemAdded evt st = (cs, st1)" using run by (simp add: event_types)
  show ?thesis
  proof (cases "pe_Item evt")
    case None
    then show ?thesis using 3 p h sim by (auto simp: running_step_def terminal_types_def resToAnthHandleOutputItemAdded_def accumulate_def)
  next
    case (Some it)
    then show ?thesis using 3 p anth_sim_added [OF sim 3 Some h] by (auto simp: running_step_def terminal_types_def)
  qed
next
  case 4
  then show ?thesis using p run anth_sim_text [OF sim 4] by (auto simp: running_step_def event_types)
next
  case 5
  then have h: "resToAnthHandleOutputItemDone evt st = (cs, st1)" "accumulate evt a = a" using run by (simp_all add: event_types)
  show ?thesis
  proof (cases "pe_Item evt")
    case None
    then show ?thesis using 5 p h sim by (auto simp: running_step_def terminal_types_def resToAnthHandleOutputItemDone_def)
  next
    case (Some it)
    then show ?thesis using 5 p h anth_sim_item_done [OF sim Some h(1)] by (auto simp: running_step_def terminal_types_def)
  qed
next
  case 6
  then have "resToAnthHandleBlockDone st = (cs, st1)" "p1 = UOpen" "accumulate evt a = a"
    using p run by (auto simp: running_step_def event_types)
  then show ?thesis using anth_sim_block_done [OF sim] by simp
next
  case 7
  then show ?thesis using anth_sim_live [OF sim p _ run] by simp
next
  case 8
  then show ?thesis using anth_sim_live [OF sim p _ run] by simp
qed

lemma anth_sim_step:
  assumes sim: "anth_sim p st v a" and p: "upstream_step evt p = Some p1"
    and run: "ResponsesEventToAnthropicEvents evt st = (cs, st1)"
  shows "anth_sim p1 st1 (fold see_anth cs v) (accumulate evt a)"
proof (cases "pe_Type evt \<in> content_types")
  case False
  then show ?thesis using sim p run anth_sim_silent [of evt st a] by (simp add: upstream_step_def)
next
  case known: True
  show ?thesis
  proof (cases p)
    case UFresh
    then show ?thesis using sim p run known anth_sim_created
      by (auto simp: upstream_step_def event_types split: if_splits)
  next
    case UDone
    then have "resToAnthHandleCompleted evt st = (cs, st1)" "p1 = UDone" "accumulate evt a = a"
      using p run known by (auto simp: upstream_step_def event_types split: if_splits)
    then show ?thesis using sim UDone by (simp add: resToAnthHandleCompleted_def anth_sim_def)
  next
    case UOpen
    then show ?thesis using sim p known anth_sim_runs [OF sim _ _ _ known run] by (simp add: upstream_step_def)
  next
    case (ULive i k)
    then show ?thesis using sim p known anth_sim_runs [OF sim _ _ _ known run] by (simp add: upstream_step_def)
  qed
qed

interpretation anth: converter ResponsesEventToAnthropicEvents upstream_step see_anth accumulate anth_sim
  by unfold_locales (rule anth_sim_step)

section \<open>The end of a stream\<close>

definition initialAnthropicState :: "time \<Rightarrow> gostr \<Rightarrow> ResponsesEventToAnthropicState" where
  "initialAnthropicState now originalModel = (NewResponsesEventToAnthropicState now)\<lparr>ra_Model := originalModel\<rparr>"

lemma anth_sim_initial: "anth_sim UFresh (initialAnthropicState now m) fresh_view NewBufferedResponseAccumulator"
  by (simp add: anth_sim_def initialAnthropicState_def NewResponsesEventToAnthropicState_def fresh_view_def
      NewBufferedResponseAccumulator_def same_content_def)

lemma anth_sim_finalize:
  assumes sim: "anth_sim p st v a" and p: "p \<noteq> UFresh" and run: "FinalizeResponsesAnthropicStream st = (cs, st1)"
  shows "anth_sim UDone st1 (fold see_anth cs v) a"
proof (cases "p = UDone")
  case True
  then show ?thesis using sim run by (auto simp: anth_sim_def FinalizeResponsesAnthropicStream_def)
next
  case False
  obtain t where so: "shut st v \<or> open_at t st v" and rest: "same_content (av_blocks v) a" "ra_MessageStartSent st" "\<not> ra_MessageStopSent st"
    using anth_sim_running [OF sim p False] by metis
  obtain c1 st2 where close: "closeCurrentBlock st = (c1, st2)" by fastforce
  note c = close_run [OF close so]
  have "cs = c1 @ closingEvents ''end_turn'' st2" "st1 = st2\<lparr>ra_MessageStopSent := True\<rparr>"
    using run rest close by (auto simp: FinalizeResponsesAnthropicStream_def)
  then show ?thesis using end_run [OF c(1)] c rest by (simp add: anth_sim_def)
qed

lemma anth_sim_run_done:
  assumes "follow upstream_step es UFresh = Some p" "p \<noteq> UFresh"
    and "run_stream ResponsesEventToAnthropicEvents es (initialAnthropicState now model) = (cs, st)"
  shows "anth_sim UDone (snd (FinalizeResponsesAnthropicStream st))
    (fold see_anth (cs @ fst (FinalizeResponsesAnthropicStream st)) fresh_view) (fold accumulate es NewBufferedResponseAccumulator)"
  using anth_sim_finalize [OF anth.sim_run [OF anth_sim_initial assms(1,3)] assms(2)] by simp

definition sample_stream :: "ResponsesStreamEvent list" where
  "sample_stream =
     [zero_pe\<lparr>pe_Type := ''response.created''\<rparr>,
      zero_pe\<lparr>pe_Type := ''response.output_item.added'', pe_Item := Some (zero_po\<lparr>po_Type := ''message''\<rparr>)\<rparr>,
      zero_pe\<lparr>pe_Type := ''response.output_text.delta'', pe_Delta := ''Hi''\<rparr>,
      zero_pe\<lparr>pe_Type := ''response.output_item.done'', pe_Item := Some (zero_po\<lparr>po_Type := ''message''\<rparr>)\<rparr>,
      zero_pe\<lparr>pe_Type := ''response.output_item.added'', pe_OutputIndex := 1,
        pe_Item := Some (zero_po\<lparr>po_Type := ''function_call'', po_CallID := ''fc_call_7'', po_Name := ''weather''\<rparr>)\<rparr>,
      zero_pe\<lparr>pe_Type := ''response.function_call_arguments.delta'', pe_OutputIndex := 1, pe_Delta := ''{}''\<rparr>]"

lemma sample_stream_ok: "follow upstream_step sample_stream UFresh = Some (ULive 1 ''function_call'')"
  by (simp add: sample_stream_def upstream_step_def running_step_def live_delta_def content_types_def terminal_types_def
      zero_pe_def zero_po_def)

text \<open>The streams of the gateway's own tests: a text without an item around it, which fails or is cut off at the token limit.\<close>

definition failing_stream :: "gostr \<Rightarrow> ResponsesStreamEvent list" where
  "failing_stream terminal =
     [zero_pe\<lparr>pe_Type := ''response.created''\<rparr>,
      zero_pe\<lparr>pe_Type := ''response.output_text.delta'', pe_Delta := ''Partial''\<rparr>,
      zero_pe\<lparr>pe_Type := terminal\<rparr>]"

lemma failing_stream_ok:
  "terminal \<in> terminal_types \<Longrightarrow> follow upstream_step (failing_stream terminal) UFresh = Some UDone"
  by (auto simp: failing_stream_def upstream_step_def running_step_def content_types_def terminal_types_def zero_pe_def)

section \<open>Where the promise ends\<close>

text \<open>
  A reasoning item may have several summary parts.  The end of the first part closes the thinking
  block; the text of the next one is sent to the block that is already closed.
\<close>

definition two_part_summary :: "ResponsesStreamEvent list" where
  "two_part_summary =
     [zero_pe\<lparr>pe_Type := ''response.created''\<rparr>,
      zero_pe\<lparr>pe_Type := ''response.output_item.added'', pe_Item := Some (zero_po\<lparr>po_Type := ''reasoning''\<rparr>)\<rparr>,
      zero_pe\<lparr>pe_Type := ''response.reasoning_summary_text.delta'', pe_Delta := ''first''\<rparr>,
      zero_pe\<lparr>pe_Type := ''response.reasoning_summary_text.done''\<rparr>,
      zero_pe\<lparr>pe_Type := ''response.reasoning_summary_text.delta'', pe_SummaryIndex := 1, pe_Delta := ''second''\<rparr>]"

lemma two_part_summary_breaks_protocol:
  "av_phase (fold see_anth (fst (run_stream ResponsesEventToAnthropicEvents two_part_summary (initialAnthropicState 0 ''m''))) fresh_view)
     = None"
  by (simp add: two_part_summary_def ResponsesEventToAnthropicEvents_def resToAnthHandleCreated_def
      resToAnthHandleOutputItemAdded_def openItemBlock_def closeCurrentBlock_def resToAnthHandleReasoningDelta_def
      resToAnthHandleBlockDone_def initialAnthropicState_def NewResponsesEventToAnthropicState_def zero_pe_def zero_po_def
      anth_events fresh_view_def delta_fits_def zero_ar_def zero_au_def)

text \<open>
  The stop reason of a stream looks at the last block that was opened for an item, that of a whole
  answer at the last block: with a web search after a tool call the two differ.
\<close>

definition call_then_search :: "ResponsesOutput list" where
  "call_then_search = [zero_po\<lparr>po_Type := ''function_call'', po_CallID := ''fc_call_7'', po_Name := ''weather''\<rparr>,
     zero_po\<lparr>po_Type := ''web_search_call'', po_ID := ''ws_1'', po_Status := ''completed''\<rparr>]"

definition item_events :: "int \<Rightarrow> ResponsesOutput \<Rightarrow> ResponsesStreamEvent list" where
  "item_events i it = [zero_pe\<lparr>pe_Type := ''response.output_item.added'', pe_OutputIndex := i, pe_Item := Some it\<rparr>,
     zero_pe\<lparr>pe_Type := ''response.output_item.done'', pe_OutputIndex := i, pe_Item := Some it\<rparr>]"

lemma stop_reasons_differ:
  "ar_StopReason (ResponsesToAnthropic (zero_pr\<lparr>pr_Status := ''completed'', pr_Output := call_then_search\<rparr>) ''m'') = ''end_turn''"
  "completedStopReason (Some (zero_pr\<lparr>pr_Status := ''completed''\<rparr>))
     (snd (run_stream ResponsesEventToAnthropicEvents
        (zero_pe\<lparr>pe_Type := ''response.created''\<rparr> # item_events 0 (call_then_search ! 0) @ item_events 1 (call_then_search ! 1))
        (initialAnthropicState 0 ''m''))) = ''tool_use''"
  by (simp_all add: ResponsesToAnthropic_def call_then_search_def itemBlocks_def zero_po_def zero_pr_def zero_ar_def zero_ab_def
      server_tool_use_def search_result_def responsesStatusToAnthropicStopReason_def item_events_def zero_pe_def
      ResponsesEventToAnthropicEvents_def resToAnthHandleCreated_def resToAnthHandleOutputItemAdded_def openItemBlock_def
      closeCurrentBlock_def resToAnthHandleOutputItemDone_def resToAnthHandleWebSearchDone_def completedStopReason_def
      initialAnthropicState_def NewResponsesEventToAnthropicState_def Let_def)

end
