(* ===== verification/Responses_Stream.thy ===== *)
theory Responses_Stream
  imports Anthropic_Stream_Safety
begin

text \<open>
  \<open>pkg/apicompat/anthropic_to_responses_response.go\<close>: the conversion of an Anthropic message into a
  Responses answer, in one piece and as a stream of events.  Random identifiers are arguments: \<open>ids n\<close>
  is the \<open>n\<close>-th that a conversion draws, and an event draws at most one.
\<close>

section \<open>The whole answer\<close>

definition anthropicStopReasonToResponsesStatus :: "gostr \<Rightarrow> gostr" where
  "anthropicStopReasonToResponsesStatus stopReason = (if stopReason = ''max_tokens'' then ''incomplete'' else ''completed'')"

definition textPart :: "gostr \<Rightarrow> ResponsesContentPart" where
  "textPart s = zero_pp\<lparr>pp_Type := ''output_text'', pp_Text := s\<rparr>"

definition convertBlock ::
  "(nat \<Rightarrow> gostr) \<Rightarrow> AnthropicContentBlock \<Rightarrow> ResponsesOutput list \<times> ResponsesContentPart list
     \<Rightarrow> ResponsesOutput list \<times> ResponsesContentPart list" where
  "convertBlock ids b = (\<lambda>(outputs, msgParts).
     if ab_Type b = ''thinking''
     then (if ab_Thinking b = '''' then (outputs, msgParts)
           else (outputs @ [zero_po\<lparr>po_Type := ''reasoning'', po_ID := ids (length outputs),
                   po_Summary := [\<lparr>psm_Type = ''summary_text'', psm_Text = ab_Thinking b\<rparr>]\<rparr>], msgParts))
     else if ab_Type b = ''text''
     then (if ab_Text b = '''' then (outputs, msgParts) else (outputs, msgParts @ [textPart (ab_Text b)]))
     else if ab_Type b = ''tool_use''
     then (outputs @ [zero_po\<lparr>po_Type := ''function_call'', po_ID := ids (length outputs), po_CallID := toResponsesCallID (ab_ID b),
              po_Name := ab_Name b, po_Arguments := (if ab_Input b \<noteq> [] then ab_Input b else ''{}''), po_Status := ''completed''\<rparr>],
           msgParts)
     else (outputs, msgParts))"

definition messageItem :: "gostr \<Rightarrow> ResponsesContentPart list \<Rightarrow> ResponsesOutput" where
  "messageItem i parts = zero_po\<lparr>po_Type := ''message'', po_ID := i, po_Role := ''assistant'', po_Content := parts,
     po_Status := ''completed''\<rparr>"

definition responsesUsageOf :: "int \<Rightarrow> int \<Rightarrow> int \<Rightarrow> ResponsesUsage" where
  "responsesUsageOf input output cached =
     \<lparr>pu_InputTokens = input, pu_OutputTokens = output, pu_TotalTokens = input + output,
      pu_InputTokensDetails = (if cached > 0 then Some cached else None), pu_OutputTokensDetails = None\<rparr>"

definition AnthropicToResponsesResponse :: "gostr \<Rightarrow> (nat \<Rightarrow> gostr) \<Rightarrow> AnthropicResponse \<Rightarrow> ResponsesResponse" where
  "AnthropicToResponsesResponse newID ids resp =
     (let (found, msgParts) = fold (convertBlock ids) (ar_Content resp) ([], []);
          outputs = (if msgParts \<noteq> [] then found @ [messageItem (ids (length found)) msgParts] else found);
          status = anthropicStopReasonToResponsesStatus (ar_StopReason resp);
          u = ar_Usage resp
      in zero_pr\<lparr>pr_ID := (if ar_ID resp = '''' then newID else ar_ID resp), pr_Object := ''response'', pr_Model := ar_Model resp,
           pr_Output := (if outputs = [] then [messageItem (ids 0) [textPart '''']] else outputs),
           pr_Status := status,
           pr_IncompleteDetails := (if status = ''incomplete'' then Some \<lparr>pid_Reason = ''max_output_tokens''\<rparr> else None),
           pr_Usage := Some (responsesUsageOf (au_InputTokens u) (au_OutputTokens u) (au_CacheReadInputTokens u))\<rparr>)"

section \<open>The stream\<close>

record AnthropicEventToResponsesState =
  ars_ResponseID :: gostr
  ars_Model :: gostr
  ars_Created :: int64
  ars_SequenceNumber :: int
  ars_CreatedSent :: bool
  ars_CompletedSent :: bool
  ars_OutputIndex :: int
  ars_CurrentItemID :: gostr
  ars_CurrentItemType :: gostr
  ars_ContentIndex :: int
  ars_CurrentCallID :: gostr
  ars_CurrentName :: gostr
  ars_InputTokens :: int
  ars_OutputTokens :: int
  ars_CacheReadInputTokens :: int

definition NewAnthropicEventToResponsesState :: "time \<Rightarrow> AnthropicEventToResponsesState" where
  "NewAnthropicEventToResponsesState now =
     \<lparr>ars_ResponseID = '''', ars_Model = '''', ars_Created = now, ars_SequenceNumber = 0, ars_CreatedSent = False,
      ars_CompletedSent = False, ars_OutputIndex = 0, ars_CurrentItemID = '''', ars_CurrentItemType = '''', ars_ContentIndex = 0,
      ars_CurrentCallID = '''', ars_CurrentName = '''', ars_InputTokens = 0, ars_OutputTokens = 0, ars_CacheReadInputTokens = 0\<rparr>"

type_synonym to_responses =
  "AnthropicEventToResponsesState \<Rightarrow> ResponsesStreamEvent list \<times> AnthropicEventToResponsesState"

definition numbered :: "ResponsesStreamEvent \<Rightarrow> to_responses" where
  "numbered evt st = ([evt\<lparr>pe_SequenceNumber := ars_SequenceNumber st\<rparr>],
     st\<lparr>ars_SequenceNumber := ars_SequenceNumber st + 1\<rparr>)"

definition makeResponsesEvent :: "gostr \<Rightarrow> ResponsesStreamEvent \<Rightarrow> to_responses" where
  "makeResponsesEvent eventType template = numbered (template\<lparr>pe_Type := eventType\<rparr>)"

definition makeResponsesCreatedEvent :: to_responses where
  "makeResponsesCreatedEvent st = numbered (zero_pe\<lparr>pe_Type := ''response.created'',
     pe_Response := Some (zero_pr\<lparr>pr_ID := ars_ResponseID st, pr_Object := ''response'', pr_Model := ars_Model st,
       pr_Status := ''in_progress''\<rparr>)\<rparr>) st"

definition makeResponsesCompletedEvent :: "gostr \<Rightarrow> ResponsesIncompleteDetails option \<Rightarrow> to_responses" where
  "makeResponsesCompletedEvent status details st = numbered (zero_pe\<lparr>pe_Type := ''response.completed'',
     pe_Response := Some (zero_pr\<lparr>pr_ID := ars_ResponseID st, pr_Object := ''response'', pr_Model := ars_Model st,
       pr_Status := status, pr_IncompleteDetails := details,
       pr_Usage := Some (responsesUsageOf (ars_InputTokens st) (ars_OutputTokens st) (ars_CacheReadInputTokens st))\<rparr>)\<rparr>) st"

definition closeCurrentResponsesItem :: to_responses where
  "closeCurrentResponsesItem st =
     (if ars_CurrentItemType st = '''' then ([], st)
      else makeResponsesEvent ''response.output_item.done''
             (zero_pe\<lparr>pe_OutputIndex := ars_OutputIndex st,
                pe_Item := Some (zero_po\<lparr>po_Type := ars_CurrentItemType st, po_ID := ars_CurrentItemID st, po_Status := ''completed''\<rparr>)\<rparr>)
             (st\<lparr>ars_CurrentItemType := '''', ars_CurrentItemID := '''', ars_CurrentCallID := '''', ars_CurrentName := '''',
                 ars_OutputIndex := ars_OutputIndex st + 1, ars_ContentIndex := 0\<rparr>))"

definition anthToResHandleMessageStart :: "AnthropicStreamEvent \<Rightarrow> to_responses" where
  "anthToResHandleMessageStart evt st =
     (let st1 = (case ae_Message evt of
            None \<Rightarrow> st
          | Some m \<Rightarrow> st\<lparr>ars_ResponseID := ar_ID m, ars_Model := (if ars_Model st = '''' then ar_Model m else ars_Model st),
                         ars_InputTokens := (if au_InputTokens (ar_Usage m) > 0 then au_InputTokens (ar_Usage m)
                                             else ars_InputTokens st)\<rparr>)
      in if ars_CreatedSent st1 then ([], st1) else makeResponsesCreatedEvent (st1\<lparr>ars_CreatedSent := True\<rparr>))"

definition openItem :: "ResponsesOutput \<Rightarrow> to_responses" where
  "openItem it st = makeResponsesEvent ''response.output_item.added''
     (zero_pe\<lparr>pe_OutputIndex := ars_OutputIndex st, pe_Item := Some it\<rparr>) st"

definition anthToResHandleContentBlockStart :: "gostr \<Rightarrow> AnthropicStreamEvent \<Rightarrow> to_responses" where
  "anthToResHandleContentBlockStart newID evt st =
     (case ae_ContentBlock evt of
        None \<Rightarrow> ([], st)
      | Some b \<Rightarrow>
          if ab_Type b = ''thinking''
          then openItem (zero_po\<lparr>po_Type := ''reasoning'', po_ID := newID\<rparr>)
                 (st\<lparr>ars_CurrentItemID := newID, ars_CurrentItemType := ''reasoning'', ars_ContentIndex := 0\<rparr>)
          else if ab_Type b = ''text''
          then (if ars_CurrentItemType st \<noteq> ''message''
                then openItem (zero_po\<lparr>po_Type := ''message'', po_ID := newID, po_Role := ''assistant'', po_Status := ''in_progress''\<rparr>)
                       (st\<lparr>ars_CurrentItemID := newID, ars_CurrentItemType := ''message'', ars_ContentIndex := 0\<rparr>)
                else ([], st))
          else if ab_Type b = ''tool_use''
          then let (closed, st1) = closeCurrentResponsesItem st;
                   callID = toResponsesCallID (ab_ID b);
                   (added, st2) = openItem (zero_po\<lparr>po_Type := ''function_call'', po_ID := newID, po_CallID := callID,
                                              po_Name := ab_Name b, po_Status := ''in_progress''\<rparr>)
                     (st1\<lparr>ars_CurrentItemID := newID, ars_CurrentItemType := ''function_call'', ars_CurrentCallID := callID,
                          ars_CurrentName := ab_Name b\<rparr>)
               in (closed @ added, st2)
          else ([], st))"

definition anthToResHandleContentBlockDelta :: "AnthropicStreamEvent \<Rightarrow> to_responses" where
  "anthToResHandleContentBlockDelta evt st =
     (case ae_Delta evt of
        None \<Rightarrow> ([], st)
      | Some d \<Rightarrow>
          if ad_Type d = ''text_delta''
          then (if ad_Text d = '''' then ([], st)
                else makeResponsesEvent ''response.output_text.delta''
                       (zero_pe\<lparr>pe_OutputIndex := ars_OutputIndex st, pe_ContentIndex := ars_ContentIndex st, pe_Delta := ad_Text d,
                          pe_ItemID := ars_CurrentItemID st\<rparr>) st)
          else if ad_Type d = ''thinking_delta''
          then (if ad_Thinking d = '''' then ([], st)
                else makeResponsesEvent ''response.reasoning_summary_text.delta''
                       (zero_pe\<lparr>pe_OutputIndex := ars_OutputIndex st, pe_SummaryIndex := 0, pe_Delta := ad_Thinking d,
                          pe_ItemID := ars_CurrentItemID st\<rparr>) st)
          else if ad_Type d = ''input_json_delta''
          then (if ad_PartialJSON d = '''' then ([], st)
                else makeResponsesEvent ''response.function_call_arguments.delta''
                       (zero_pe\<lparr>pe_OutputIndex := ars_OutputIndex st, pe_Delta := ad_PartialJSON d,
                          pe_ItemID := ars_CurrentItemID st, pe_CallID := ars_CurrentCallID st, pe_Name := ars_CurrentName st\<rparr>) st)
          else ([], st))"

definition anthToResHandleContentBlockStop :: to_responses where
  "anthToResHandleContentBlockStop st =
     (if ars_CurrentItemType st = ''reasoning''
      then let (ended, st1) = makeResponsesEvent ''response.reasoning_summary_text.done''
                 (zero_pe\<lparr>pe_OutputIndex := ars_OutputIndex st, pe_SummaryIndex := 0, pe_ItemID := ars_CurrentItemID st\<rparr>) st;
               (closed, st2) = closeCurrentResponsesItem st1
           in (ended @ closed, st2)
      else if ars_CurrentItemType st = ''function_call''
      then let (ended, st1) = makeResponsesEvent ''response.function_call_arguments.done''
                 (zero_pe\<lparr>pe_OutputIndex := ars_OutputIndex st, pe_ItemID := ars_CurrentItemID st,
                    pe_CallID := ars_CurrentCallID st, pe_Name := ars_CurrentName st\<rparr>) st;
               (closed, st2) = closeCurrentResponsesItem st1
           in (ended @ closed, st2)
      else if ars_CurrentItemType st = ''message''
      then makeResponsesEvent ''response.output_text.done''
             (zero_pe\<lparr>pe_OutputIndex := ars_OutputIndex st, pe_ContentIndex := ars_ContentIndex st,
                pe_ItemID := ars_CurrentItemID st\<rparr>) st
      else ([], st))"

definition anthToResHandleMessageDelta :: "AnthropicStreamEvent \<Rightarrow> to_responses" where
  "anthToResHandleMessageDelta evt st =
     ([], case ae_Usage evt of
            None \<Rightarrow> st
          | Some u \<Rightarrow> st\<lparr>ars_OutputTokens := au_OutputTokens u,
                         ars_CacheReadInputTokens := (if au_CacheReadInputTokens u > 0 then au_CacheReadInputTokens u
                                                      else ars_CacheReadInputTokens st)\<rparr>)"

definition completeStream :: to_responses where
  "completeStream st =
     (let (closed, st1) = closeCurrentResponsesItem st;
          (completed, st2) = makeResponsesCompletedEvent ''completed'' None st1
      in (closed @ completed, st2\<lparr>ars_CompletedSent := True\<rparr>))"

definition anthToResHandleMessageStop :: to_responses where
  "anthToResHandleMessageStop st = (if ars_CompletedSent st then ([], st) else completeStream st)"

definition AnthropicEventToResponsesEvents :: "gostr \<Rightarrow> AnthropicStreamEvent \<Rightarrow> to_responses" where
  "AnthropicEventToResponsesEvents newID evt st =
     (if ae_Type evt = ''message_start'' then anthToResHandleMessageStart evt st
      else if ae_Type evt = ''content_block_start'' then anthToResHandleContentBlockStart newID evt st
      else if ae_Type evt = ''content_block_delta'' then anthToResHandleContentBlockDelta evt st
      else if ae_Type evt = ''content_block_stop'' then anthToResHandleContentBlockStop st
      else if ae_Type evt = ''message_delta'' then anthToResHandleMessageDelta evt st
      else if ae_Type evt = ''message_stop'' then anthToResHandleMessageStop st
      else ([], st))"

definition FinalizeAnthropicResponsesStream :: to_responses where
  "FinalizeAnthropicResponsesStream st =
     (if \<not> ars_CreatedSent st \<or> ars_CompletedSent st then ([], st) else completeStream st)"

section \<open>Sequence numbers\<close>

fun numbered_from :: "int \<Rightarrow> ResponsesStreamEvent list \<Rightarrow> int \<Rightarrow> bool" where
  "numbered_from n [] m \<longleftrightarrow> m = n"
| "numbered_from n (e # es) m \<longleftrightarrow> pe_SequenceNumber e = n \<and> numbered_from (n + 1) es m"

lemma numbered_from_append: "numbered_from n xs k \<Longrightarrow> numbered_from k ys m \<Longrightarrow> numbered_from n (xs @ ys) m"
  by (induction xs arbitrary: n) auto

lemma numbered_from_nth: "numbered_from n es m \<Longrightarrow> i < length es \<Longrightarrow> pe_SequenceNumber (es ! i) = n + int i"
  by (induction es arbitrary: n i) (auto simp: nth_Cons split: nat.split)

definition seq_ok :: "to_responses \<Rightarrow> bool" where
  "seq_ok f \<longleftrightarrow> (\<forall>st. numbered_from (ars_SequenceNumber st) (fst (f st)) (ars_SequenceNumber (snd (f st))))"

lemma seq_ok_I: "(\<And>st evs st1. f st = (evs, st1) \<Longrightarrow> numbered_from (ars_SequenceNumber st) evs (ars_SequenceNumber st1)) \<Longrightarrow> seq_ok f"
  by (simp add: seq_ok_def)

lemma seq_ok_D: "seq_ok f \<Longrightarrow> f st = (evs, st1) \<Longrightarrow> numbered_from (ars_SequenceNumber st) evs (ars_SequenceNumber st1)"
  by (metis seq_ok_def fst_conv snd_conv)

lemma seq_numbered: "numbered e st = (evs, st1) \<Longrightarrow> numbered_from (ars_SequenceNumber st) evs (ars_SequenceNumber st1)"
  by (auto simp: numbered_def)

lemma seq_close: "seq_ok closeCurrentResponsesItem"
  by (rule seq_ok_I) (auto simp: closeCurrentResponsesItem_def makeResponsesEvent_def numbered_def split: if_splits)

lemma seq_complete: "seq_ok completeStream"
  by (rule seq_ok_I)
     (auto simp: completeStream_def makeResponsesCompletedEvent_def numbered_def Let_def
       dest!: seq_ok_D [OF seq_close] elim!: numbered_from_append split: prod.splits)

lemma seq_start: "seq_ok (anthToResHandleContentBlockStart i evt)"
  by (rule seq_ok_I)
     (auto simp: anthToResHandleContentBlockStart_def openItem_def makeResponsesEvent_def numbered_def Let_def
       dest!: seq_ok_D [OF seq_close] elim!: numbered_from_append split: prod.splits option.splits if_splits)

lemma seq_delta: "seq_ok (anthToResHandleContentBlockDelta evt)"
  by (rule seq_ok_I)
     (auto simp: anthToResHandleContentBlockDelta_def makeResponsesEvent_def numbered_def split: option.splits if_splits)

lemma seq_stop: "seq_ok anthToResHandleContentBlockStop"
  by (rule seq_ok_I)
     (auto simp: anthToResHandleContentBlockStop_def makeResponsesEvent_def numbered_def Let_def
       dest!: seq_ok_D [OF seq_close] split: prod.splits if_splits)

lemma seq_message: "seq_ok (anthToResHandleMessageStart evt)" "seq_ok (anthToResHandleMessageDelta evt)" "seq_ok anthToResHandleMessageStop"
    "seq_ok FinalizeAnthropicResponsesStream"
  by (auto intro!: seq_ok_I simp: anthToResHandleMessageStart_def makeResponsesCreatedEvent_def numbered_def Let_def
      anthToResHandleMessageDelta_def anthToResHandleMessageStop_def FinalizeAnthropicResponsesStream_def
      dest: seq_ok_D [OF seq_complete] split: option.splits if_splits)

lemma seq_event: "seq_ok (AnthropicEventToResponsesEvents i evt)"
  using seq_start [of i evt] seq_delta [of evt] seq_stop seq_message(1,2) [of evt] seq_message(3)
  by (auto simp: AnthropicEventToResponsesEvents_def seq_ok_def)

end
