(* ===== verification/Responses_Stream_Safety.thy ===== *)
theory Responses_Stream_Safety
  imports Responses_Stream
begin

text \<open>
  The promise of the Anthropic to Responses converter, again as an interpretation of \<open>converter\<close>: the
  upstream keeps the Anthropic protocol, the client is the accumulator together with the Responses
  protocol, and the reference is what an Anthropic client reads.  The content always arrives.  The Responses protocol is kept as long as no thinking
  block starts while a message item is open; the flag \<open>tidy\<close> of the phase says so.
\<close>

section \<open>The upstream\<close>

text \<open>
  The protocol as the API documents it: pings, errors and events of unknown types may come anywhere,
  a block may get deltas that carry none of the content (signatures, citations), there may be several
  message deltas, and blocks of other kinds than text, thinking and tool use may come in between; those
  have no text, thinking or argument deltas.
\<close>

definition stream_types :: "gostr set" where
  "stream_types = {''message_start'', ''content_block_start'', ''content_block_delta'', ''content_block_stop'',
     ''message_delta'', ''message_stop''}"

definition data_deltas :: "gostr set" where
  "data_deltas = {''text_delta'', ''thinking_delta'', ''input_json_delta''}"

definition side_delta :: "AnthropicStreamEvent \<Rightarrow> anth_phase \<Rightarrow> bool" where
  "side_delta e p \<longleftrightarrow>
     (case (p, ae_Delta e) of
        (AIn n t, Some d) \<Rightarrow> ae_Type e = ''content_block_delta'' \<and> ae_Index e = Some n \<and> ad_Type d \<notin> data_deltas
      | (AEnding, _) \<Rightarrow> ae_Type e = ''message_delta''
      | _ \<Rightarrow> False)"

definition anth_upstream_step :: "AnthropicStreamEvent \<Rightarrow> anth_phase \<Rightarrow> anth_phase option" where
  "anth_upstream_step e p = (if ae_Type e \<notin> stream_types \<or> side_delta e p then Some p else anth_step e p)"

text \<open>The phase, whether a message item is open, and whether no thinking has cut into one.\<close>

type_synonym tidy_phase = "anth_phase \<times> bool \<times> bool"

definition block_effect :: "gostr \<Rightarrow> bool \<Rightarrow> bool \<Rightarrow> bool \<times> bool" where
  "block_effect t msg tidy =
     (if t = ''text'' then (True, tidy)
      else if t = ''thinking'' then (False, tidy \<and> \<not> msg)
      else if t = ''tool_use'' then (False, tidy)
      else (msg, tidy))"

definition plain_step :: "AnthropicStreamEvent \<times> gostr \<Rightarrow> tidy_phase \<Rightarrow> tidy_phase option" where
  "plain_step ei = (\<lambda>(p, msg, tidy).
     map_option (\<lambda>q. (q, if ae_Type (fst ei) = ''content_block_start''
                          then block_effect (ab_Type (the (ae_ContentBlock (fst ei)))) msg tidy else (msg, tidy)))
       (anth_upstream_step (fst ei) p))"

definition convertEvent ::
  "AnthropicStreamEvent \<times> gostr \<Rightarrow> AnthropicEventToResponsesState \<Rightarrow> ResponsesStreamEvent list \<times> AnthropicEventToResponsesState" where
  "convertEvent ei = AnthropicEventToResponsesEvents (snd ei) (fst ei)"

section \<open>The client\<close>

record resp_view =
  rv_phase :: "resp_phase option"
  rv_acc :: BufferedResponseAccumulator

definition see_resp :: "ResponsesStreamEvent \<Rightarrow> resp_view \<Rightarrow> resp_view" where
  "see_resp e v = \<lparr>rv_phase = Option.bind (rv_phase v) (resp_step e), rv_acc = accumulate e (rv_acc v)\<rparr>"

definition fresh_resp :: resp_view where
  "fresh_resp = \<lparr>rv_phase = Some RFresh, rv_acc = NewBufferedResponseAccumulator\<rparr>"

definition call_block :: "block_view \<Rightarrow> bufferedFuncCall" where
  "call_block b = \<lparr>bf_CallID = toResponsesCallID (bv_ID b), bf_Name = bv_Name b, bf_Args = bv_Data b\<rparr>"

definition read_content :: "BufferedResponseAccumulator \<Rightarrow> block_view list \<Rightarrow> bool" where
  "read_content a bs \<longleftrightarrow> bra_text a = blocks_data ''text'' bs \<and> bra_reasoning a = blocks_data ''thinking'' bs \<and>
     bra_funcCalls a = map call_block (tool_blocks bs)"

definition see_reference :: "AnthropicStreamEvent \<times> gostr \<Rightarrow> block_view list \<Rightarrow> block_view list" where
  "see_reference ei = see_block (fst ei)"

section \<open>The simulation\<close>

definition item_type :: "anth_phase \<Rightarrow> bool \<Rightarrow> gostr" where
  "item_type p msg =
     (case p of
        AFresh \<Rightarrow> ''''
      | ADone \<Rightarrow> ''''
      | AIn n t \<Rightarrow> if t = ''thinking'' then ''reasoning'' else if t = ''tool_use'' then ''function_call''
          else if msg then ''message'' else ''''
      | _ \<Rightarrow> if msg then ''message'' else '''')"

definition resp_phase_of :: "anth_phase \<Rightarrow> bool \<Rightarrow> int \<Rightarrow> resp_phase" where
  "resp_phase_of p msg i =
     (case p of
        AFresh \<Rightarrow> RFresh
      | ADone \<Rightarrow> RDone
      | _ \<Rightarrow> if item_type p msg = '''' then RIdle else RItem i (item_type p msg) True)"

definition blocks_ok :: "anth_phase \<Rightarrow> int \<Rightarrow> BufferedResponseAccumulator \<Rightarrow> block_view list \<Rightarrow> bool" where
  "blocks_ok p i a bs \<longleftrightarrow>
     (case p of
        AIn n t \<Rightarrow> (\<exists>cs b. bs = cs @ [b] \<and> bv_Type b = t \<and> n = int (length cs)) \<and>
          (t = ''tool_use'' \<longrightarrow> (\<exists>k. bra_outputIndexToFuncIdx a i = Some k \<and> Suc k = length (bra_funcCalls a)))
      | ABetween n \<Rightarrow> n = int (length bs)
      | AFresh \<Rightarrow> bs = []
      | _ \<Rightarrow> True)"

definition responses_sim ::
  "tidy_phase \<Rightarrow> AnthropicEventToResponsesState \<Rightarrow> resp_view \<Rightarrow> block_view list \<Rightarrow> bool" where
  "responses_sim ph st v bs = (case ph of (p, msg, tidy) \<Rightarrow>
     read_content (rv_acc v) bs \<and> blocks_ok p (ars_OutputIndex st) (rv_acc v) bs \<and>
     ars_CurrentItemType st = item_type p msg \<and>
     (p = AFresh \<longrightarrow> \<not> msg) \<and> (\<forall>n. p = AIn n ''text'' \<longrightarrow> msg) \<and> (\<forall>n t. p = AIn n t \<longrightarrow> t \<in> {''thinking'', ''tool_use''} \<longrightarrow> \<not> msg) \<and>
     ars_CreatedSent st = (p \<noteq> AFresh) \<and> ars_CompletedSent st = (p = ADone) \<and>
     (tidy \<longrightarrow> rv_phase v = Some (resp_phase_of p msg (ars_OutputIndex st))))"

lemmas resp_events = see_resp_def resp_step_def item_step_def content_types_def terminal_types_def accumulate_def
  makeResponsesEvent_def numbered_def openItem_def zero_pe_def zero_po_def


section \<open>One event\<close>

lemma read_content_step:
  "read_content a bs \<Longrightarrow> read_content (a\<lparr>bra_outputIndexToFuncIdx := m\<rparr>) bs"
  "read_content a bs \<Longrightarrow> bv_Type b \<in> {''text'', ''thinking''} \<Longrightarrow> bv_Data b = '''' \<Longrightarrow> read_content a (bs @ [b])"
  by (auto simp: read_content_def)

lemma close_resp:
  assumes "closeCurrentResponsesItem st = (cs, st1)" "ars_CurrentItemType st \<noteq> ''''"
  shows "ars_CurrentItemType st1 = ''''" "ars_OutputIndex st1 = ars_OutputIndex st + 1"
    "ars_CreatedSent st1 = ars_CreatedSent st" "ars_CompletedSent st1 = ars_CompletedSent st"
    "rv_acc (fold see_resp cs v) = rv_acc v"
    "rv_phase v = Some (RItem i k live) \<Longrightarrow> rv_phase (fold see_resp cs v) = Some RIdle"
  using assms by (auto simp: closeCurrentResponsesItem_def resp_events)

lemma close_none: "ars_CurrentItemType st = '''' \<Longrightarrow> closeCurrentResponsesItem st = ([], st)"
  by (simp add: closeCurrentResponsesItem_def)

lemma resp_sim_message_start:
  assumes "responses_sim (AFresh, msg, tidy) st v bs" "anthToResHandleMessageStart evt st = (cs, st1)"
  shows "responses_sim (ABetween 0, msg, tidy) st1 (fold see_resp cs v) bs"
  using assms
  by (auto simp: responses_sim_def anthToResHandleMessageStart_def makeResponsesCreatedEvent_def blocks_ok_def item_type_def
      resp_phase_of_def resp_events Let_def split: option.splits)

lemma resp_sim_start_text:
  assumes "responses_sim (ABetween n, msg, tidy) st v bs" "anthToResHandleContentBlockStart i evt st = (cs, st1)"
    and "ae_ContentBlock evt = Some b" "ab_Type b = ''text''"
  shows "responses_sim (AIn n ''text'', True, tidy) st1 (fold see_resp cs v)
           (bs @ [\<lparr>bv_Type = ''text'', bv_ID = x, bv_Name = y, bv_Data = ''''\<rparr>])"
  using assms
  by (auto simp: responses_sim_def anthToResHandleContentBlockStart_def blocks_ok_def item_type_def
      resp_phase_of_def resp_events read_content_def split: if_splits)

lemma resp_sim_start_thinking:
  assumes "responses_sim (ABetween n, msg, tidy) st v bs" "anthToResHandleContentBlockStart i evt st = (cs, st1)"
    and "ae_ContentBlock evt = Some b" "ab_Type b = ''thinking''"
  shows "responses_sim (AIn n ''thinking'', False, tidy \<and> \<not> msg) st1 (fold see_resp cs v)
           (bs @ [\<lparr>bv_Type = ''thinking'', bv_ID = x, bv_Name = y, bv_Data = ''''\<rparr>])"
  using assms
  by (auto simp: responses_sim_def anthToResHandleContentBlockStart_def blocks_ok_def item_type_def
      resp_phase_of_def resp_events read_content_def split: if_splits)

lemma resp_sim_start_tool:
  assumes sim: "responses_sim (ABetween n, msg, tidy) st v bs" and run: "anthToResHandleContentBlockStart i evt st = (cs, st1)"
    and b: "ae_ContentBlock evt = Some b" "ab_Type b = ''tool_use''"
  shows "responses_sim (AIn n ''tool_use'', False, tidy) st1 (fold see_resp cs v)
           (bs @ [\<lparr>bv_Type = ''tool_use'', bv_ID = ab_ID b, bv_Name = ab_Name b, bv_Data = ''''\<rparr>])"
proof -
  obtain c1 st2 where close: "closeCurrentResponsesItem st = (c1, st2)" by fastforce
  define v2 where "v2 = fold see_resp c1 v"
  have closed: "ars_CreatedSent st2 = ars_CreatedSent st" "ars_CompletedSent st2 = ars_CompletedSent st" "rv_acc v2 = rv_acc v"
    "tidy \<Longrightarrow> rv_phase v2 = Some RIdle"
    using sim close close_resp(1-4) [OF close] close_resp(5,6) [OF close, of v] close_none [of st]
    by (cases msg; auto simp: v2_def responses_sim_def item_type_def resp_phase_of_def)+
  show ?thesis
    using sim run b close closed
    by (auto simp: responses_sim_def anthToResHandleContentBlockStart_def blocks_ok_def item_type_def v2_def [symmetric]
      resp_phase_of_def resp_events read_content_def call_block_def Let_def)
qed

lemma resp_sim_delta:
  assumes sim: "responses_sim (AIn n t, msg, tidy) st v bs" and run: "anthToResHandleContentBlockDelta evt st = (cs, st1)"
    and d: "ae_Delta evt = Some d" "delta_fits t (ad_Type d)"
  shows "responses_sim (AIn n t, msg, tidy) st1 (fold see_resp cs v) (add_data (delta_data d) (nat n) bs)"
proof -
  obtain ds b where b: "bs = ds @ [b]" "bv_Type b = t" "n = int (length ds)"
    using sim by (auto simp: responses_sim_def blocks_ok_def)
  then have add: "add_data s (nat n) bs = ds @ [b\<lparr>bv_Data := bv_Data b @ s\<rparr>]" for s by simp
  consider "t = ''text''" "ad_Type d = ''text_delta''" | "t = ''thinking''" "ad_Type d = ''thinking_delta''"
    | "t = ''thinking''" "ad_Type d = ''signature_delta''" | "t = ''tool_use''" "ad_Type d = ''input_json_delta''"
    using d(2) by (auto simp: delta_fits_def)
  then show ?thesis
  proof cases
    case 4
    obtain k where k: "bra_outputIndexToFuncIdx (rv_acc v) (ars_OutputIndex st) = Some k" "Suc k = length (bra_funcCalls (rv_acc v))"
      using sim 4 by (auto simp: responses_sim_def blocks_ok_def)
    have f: "bra_funcCalls (rv_acc v) = map call_block (tool_blocks ds) @ [call_block b]"
      using sim b 4 by (simp add: responses_sim_def read_content_def)
    then have "appendArgs s k (bra_funcCalls (rv_acc v)) = map call_block (tool_blocks ds) @ [call_block (b\<lparr>bv_Data := bv_Data b @ s\<rparr>)]" for s
      using k(2) appendArgs_last [of s "map call_block (tool_blocks ds)" "call_block b"] by (simp add: call_block_def)
    then show ?thesis
      using sim run d 4 k b f unfolding add
      by (auto simp: responses_sim_def anthToResHandleContentBlockDelta_def blocks_ok_def item_type_def delta_data_def
        resp_phase_of_def resp_events read_content_def split: if_splits)
  qed (use sim run d b in \<open>auto simp: add responses_sim_def anthToResHandleContentBlockDelta_def blocks_ok_def item_type_def
      delta_data_def resp_phase_of_def resp_events read_content_def split: if_splits\<close>)
qed

lemma resp_sim_start_other:
  assumes "responses_sim (ABetween n, msg, tidy) st v bs" "anthToResHandleContentBlockStart i evt st = (cs, st1)"
    and "ae_ContentBlock evt = Some b" "ab_Type b \<notin> {''text'', ''thinking'', ''tool_use''}"
  shows "responses_sim (AIn n (ab_Type b), msg, tidy) st1 (fold see_resp cs v)
           (bs @ [\<lparr>bv_Type = ab_Type b, bv_ID = x, bv_Name = y, bv_Data = ''''\<rparr>])"
  using assms
  by (auto simp: responses_sim_def anthToResHandleContentBlockStart_def blocks_ok_def item_type_def
      resp_phase_of_def read_content_def split: if_splits)

lemma resp_sim_side_delta:
  assumes sim: "responses_sim (p, msg, tidy) st v bs" and side: "side_delta evt p"
    and run: "AnthropicEventToResponsesEvents i evt st = (cs, st1)"
  shows "responses_sim (p, msg, tidy) st1 (fold see_resp cs v) (see_block evt bs)"
proof (cases p)
  case (AIn n t)
  then obtain d where d: "ae_Delta evt = Some d" "ae_Type evt = ''content_block_delta''" "ae_Index evt = Some n" "ad_Type d \<notin> data_deltas"
    using side by (auto simp: side_delta_def split: option.splits)
  obtain ds b where b: "bs = ds @ [b]" "n = int (length ds)"
    using sim AIn by (auto simp: responses_sim_def blocks_ok_def)
  have "cs = []" "st1 = st" "see_block evt bs = bs"
    using run d b by (auto simp: AnthropicEventToResponsesEvents_def anthToResHandleContentBlockDelta_def data_deltas_def
        see_block_def delta_data_def)
  then show ?thesis using sim by simp
next
  case AEnding
  then have "ae_Type evt = ''message_delta''" using side by (auto simp: side_delta_def)
  then show ?thesis using sim run AEnding
    by (auto simp: AnthropicEventToResponsesEvents_def responses_sim_def anthToResHandleMessageDelta_def blocks_ok_def item_type_def
        resp_phase_of_def see_block_def split: option.splits)
qed (use side in \<open>auto simp: side_delta_def split: option.splits\<close>)

lemma resp_sim_stop:
  assumes sim: "responses_sim (AIn n t, msg, tidy) st v bs" and run: "anthToResHandleContentBlockStop st = (cs, st1)"
  shows "responses_sim (ABetween (n + 1), msg, tidy) st1 (fold see_resp cs v) bs"
proof -
  consider "t = ''text''" "msg" | "t = ''thinking''" "\<not> msg" | "t = ''tool_use''" "\<not> msg"
    | "t \<notin> {''text'', ''thinking'', ''tool_use''}" "msg" | "t \<notin> {''text'', ''thinking'', ''tool_use''}" "\<not> msg"
    using sim by (auto simp: responses_sim_def)
  then show ?thesis
    by cases (use sim run in \<open>auto simp: responses_sim_def anthToResHandleContentBlockStop_def blocks_ok_def item_type_def
      resp_phase_of_def resp_events closeCurrentResponsesItem_def Let_def\<close>)
qed

lemma resp_sim_message_delta:
  assumes "responses_sim (ABetween n, msg, tidy) st v bs" "anthToResHandleMessageDelta evt st = (cs, st1)"
  shows "responses_sim (AEnding, msg, tidy) st1 (fold see_resp cs v) bs"
  using assms
  by (auto simp: responses_sim_def anthToResHandleMessageDelta_def blocks_ok_def item_type_def resp_phase_of_def split: option.splits)

lemma resp_sim_complete:
  assumes sim: "responses_sim (p, msg, tidy) st v bs" and p: "p \<noteq> AFresh" "p \<noteq> ADone" and run: "completeStream st = (cs, st1)"
  shows "responses_sim (ADone, msg, tidy) st1 (fold see_resp cs v) bs"
proof -
  obtain c1 st2 where close: "closeCurrentResponsesItem st = (c1, st2)" by fastforce
  define v2 where "v2 = fold see_resp c1 v"
  have closed: "ars_CreatedSent st2 = ars_CreatedSent st" "ars_CurrentItemType st2 = ''''" "rv_acc v2 = rv_acc v"
    "tidy \<Longrightarrow> rv_phase v2 = Some RIdle"
  proof -
    have item: "ars_CurrentItemType st = item_type p msg"
      and phase: "tidy \<Longrightarrow> rv_phase v = Some (if item_type p msg = '''' then RIdle else RItem (ars_OutputIndex st) (item_type p msg) True)"
      using sim p by (cases p; simp add: responses_sim_def resp_phase_of_def)+
    show "ars_CreatedSent st2 = ars_CreatedSent st" "ars_CurrentItemType st2 = ''''" "rv_acc v2 = rv_acc v"
      "tidy \<Longrightarrow> rv_phase v2 = Some RIdle"
      using close close_resp [OF close] close_none [of st] item phase
      by (cases "item_type p msg = ''''"; simp add: v2_def)+
  qed
  show ?thesis
    using sim p run close closed
    by (auto simp: responses_sim_def completeStream_def makeResponsesCompletedEvent_def blocks_ok_def item_type_def
      v2_def [symmetric] resp_phase_of_def resp_events read_content_def Let_def)
qed


lemma resp_sim_step:
  assumes sim: "responses_sim ph st v bs" and p: "plain_step ei ph = Some ph1" and run: "convertEvent ei st = (cs, st1)"
  shows "responses_sim ph1 st1 (fold see_resp cs v) (see_reference ei bs)"
proof -
  obtain evt i where ei: "ei = (evt, i)" by fastforce
  obtain p msg tidy where ph: "ph = (p, msg, tidy)" by (metis prod_cases3)
  obtain q where q0: "anth_upstream_step evt p = Some q"
    and ph1q: "ph1 = (q, if ae_Type evt = ''content_block_start''
                          then block_effect (ab_Type (the (ae_ContentBlock evt))) msg tidy else (msg, tidy))"
    using p by (auto simp: plain_step_def ei ph)
  have run: "AnthropicEventToResponsesEvents i evt st = (cs, st1)" using run by (simp add: convertEvent_def ei)
  have ref: "see_reference (evt, i) bs = see_block evt bs" by (simp add: see_reference_def)
  show ?thesis
  proof (cases "ae_Type evt \<notin> stream_types \<or> side_delta evt p")
    case True
    then have q: "q = p" using q0 by (simp add: anth_upstream_step_def)
    have ns: "ae_Type evt \<noteq> ''content_block_start''"
      using True by (auto simp: stream_types_def side_delta_def split: anth_phase.splits option.splits)
    then have ph1: "ph1 = (p, msg, tidy)" using ph1q q by simp
    show ?thesis
    proof (cases "side_delta evt p")
      case True
      then show ?thesis using resp_sim_side_delta [OF _ True run] sim ph by (simp add: ph1 ei ref)
    next
      case False
      then have "cs = []" "st1 = st" "see_block evt bs = bs"
        using True run by (auto simp: stream_types_def AnthropicEventToResponsesEvents_def see_block_def)
      then show ?thesis using sim ph by (simp add: ph1 ei ref)
    qed
  next
    case False
    then have q: "anth_step evt p = Some q" using q0 by (simp add: anth_upstream_step_def)
  consider (start) "p = AFresh" "q = ABetween 0" "ae_Type evt = ''message_start''"
    | (block) n b where "p = ABetween n" "q = AIn n (ab_Type b)" "ae_Type evt = ''content_block_start''" "ae_ContentBlock evt = Some b"
    | (ending) n where "p = ABetween n" "q = AEnding" "ae_Type evt = ''message_delta''"
    | (delta) n t d where "p = AIn n t" "q = p" "ae_Type evt = ''content_block_delta''" "ae_Index evt = Some n" "ae_Delta evt = Some d"
        "delta_fits t (ad_Type d)"
    | (stop) n t where "p = AIn n t" "q = ABetween (n + 1)" "ae_Type evt = ''content_block_stop''"
    | (fin) "p = AEnding" "q = ADone" "ae_Type evt = ''message_stop''"
    using q by (cases p) (auto simp: anth_step_def split: if_splits)
  then show ?thesis
  proof cases
    case start
    then show ?thesis using sim ph1q run ph resp_sim_message_start
      by (auto simp: ei ref see_block_def AnthropicEventToResponsesEvents_def)
  next
    case block
    have run: "anthToResHandleContentBlockStart i evt st = (cs, st1)" using run block by (simp add: AnthropicEventToResponsesEvents_def)
    obtain m1 t1 where eff: "block_effect (ab_Type b) msg tidy = (m1, t1)" "ph1 = (q, m1, t1)"
      using block ph1q by (cases "block_effect (ab_Type b) msg tidy") simp
    have ref: "see_reference (evt, i) bs = bs @ [\<lparr>bv_Type = ab_Type b, bv_ID = ab_ID b, bv_Name = ab_Name b, bv_Data = ''''\<rparr>]"
      using block by (simp add: ref see_block_def)
    have sim: "responses_sim (ABetween n, msg, tidy) st v bs" using sim ph block by simp
    have ph1: "ph1 = (AIn n (ab_Type b), m1, t1)" using eff(2) block by simp
    consider "ab_Type b = ''text''" "m1" "t1 = tidy" | "ab_Type b = ''thinking''" "\<not> m1" "t1 = (tidy \<and> \<not> msg)"
      | "ab_Type b = ''tool_use''" "\<not> m1" "t1 = tidy" | "ab_Type b \<notin> {''text'', ''thinking'', ''tool_use''}" "m1 = msg" "t1 = tidy"
      using eff(1) by (auto simp: block_effect_def split: if_splits)
    then show ?thesis
    proof cases
      case 1
      show ?thesis using resp_sim_start_text [OF sim run block(4) 1(1)] 1 by (simp add: ph1 ref ei)
    next
      case 2
      show ?thesis unfolding ph1 ei ref using resp_sim_start_thinking [OF sim run block(4) 2(1)] 2 by simp
    next
      case 3
      show ?thesis using resp_sim_start_tool [OF sim run block(4) 3(1)] 3 by (simp add: ph1 ref ei)
    next
      case 4
      show ?thesis using resp_sim_start_other [OF sim run block(4) 4(1)] 4 by (simp add: ph1 ref ei)
    qed
  next
    case ending
    then show ?thesis using sim ph1q run ph resp_sim_message_delta
      by (auto simp: ei ref see_block_def AnthropicEventToResponsesEvents_def)
  next
    case delta
    then show ?thesis using sim ph1q run ph resp_sim_delta
      by (auto simp: ei ref see_block_def AnthropicEventToResponsesEvents_def)
  next
    case stop
    then show ?thesis using sim ph1q run ph resp_sim_stop
      by (auto simp: ei ref see_block_def AnthropicEventToResponsesEvents_def)
  next
    case fin
    have "anthToResHandleMessageStop st = (cs, st1)" using run fin by (simp add: AnthropicEventToResponsesEvents_def)
    then have "completeStream st = (cs, st1)" using sim fin ph by (simp add: anthToResHandleMessageStop_def responses_sim_def)
    moreover have "ph1 = (ADone, msg, tidy)" "see_reference ei bs = bs"
      using ph1q fin by (simp_all add: ei ref see_block_def)
    ultimately show ?thesis using resp_sim_complete sim fin ph by simp
  qed
  qed
qed

interpretation responses: converter convertEvent plain_step see_resp see_reference responses_sim
  by unfold_locales (rule resp_sim_step)

section \<open>The end of a stream\<close>

definition initialResponsesState :: "time \<Rightarrow> gostr \<Rightarrow> AnthropicEventToResponsesState" where
  "initialResponsesState now originalModel = (NewAnthropicEventToResponsesState now)\<lparr>ars_Model := originalModel\<rparr>"

lemma responses_sim_initial: "responses_sim (AFresh, False, True) (initialResponsesState now m) fresh_resp []"
  by (simp add: responses_sim_def initialResponsesState_def NewAnthropicEventToResponsesState_def fresh_resp_def
      NewBufferedResponseAccumulator_def read_content_def blocks_ok_def item_type_def resp_phase_of_def tool_blocks_def)

lemma responses_sim_finalize:
  assumes sim: "responses_sim (p, msg, tidy) st v bs" and p: "p \<noteq> AFresh" and run: "FinalizeAnthropicResponsesStream st = (cs, st1)"
  shows "responses_sim (ADone, msg, tidy) st1 (fold see_resp cs v) bs"
proof (cases "p = ADone")
  case True
  then show ?thesis using sim run by (auto simp: responses_sim_def FinalizeAnthropicResponsesStream_def)
next
  case False
  then have "completeStream st = (cs, st1)" using sim run p by (auto simp: responses_sim_def FinalizeAnthropicResponsesStream_def)
  then show ?thesis using resp_sim_complete [OF sim p False] by simp
qed

lemma responses_sim_run_done:
  assumes "follow plain_step es (AFresh, False, True) = Some (p, msg, tidy)" "p \<noteq> AFresh"
    and "run_stream convertEvent es (initialResponsesState now model) = (cs, st)"
  shows "responses_sim (ADone, msg, tidy) (snd (FinalizeAnthropicResponsesStream st))
    (fold see_resp (cs @ fst (FinalizeAnthropicResponsesStream st)) fresh_resp) (fold see_reference es [])"
  using responses_sim_finalize [OF responses.sim_run [OF responses_sim_initial assms(1,3)] assms(2)] by simp

lemma see_resp_acc: "rv_acc (fold see_resp cs v) = fold accumulate cs (rv_acc v)"
  by (induction cs arbitrary: v) (simp_all add: see_resp_def)

end
