(* ===== verification/Stream_Driver.thy ===== *)
theory Stream_Driver
  imports Stream_Refinement Prelude
begin

text \<open>
  The loop that the streaming handlers of \<open>service\<close> share: it reads the lines of an upstream
  answer, converts each event and writes what comes out to the client; it ends at the end of the
  input or at the first write that fails, and only in the first case it finishes the stream.  With
  keepalive on, a tick of the timer during silence writes a ping.  The outcome of the \<open>n\<close>-th write
  is \<open>okw n\<close>; reading errors end the input and are logged.
\<close>

datatype 'e feed = Event 'e | Idle

datatype 'c sent = Sent 'c | Ping | DoneMark

section \<open>Lines\<close>

definition data_payload :: "gostr \<Rightarrow> gostr option" where
  "data_payload line = (if has_prefix line ''data: '' \<and> line \<noteq> ''data: [DONE]'' then Some (drop 6 line) else None)"

text \<open>The events of an OpenAI stream: its data lines that parse, in order.\<close>

definition data_events :: "(gostr \<Rightarrow> 'e option) \<Rightarrow> gostr list \<Rightarrow> 'e list" where
  "data_events parse ls = List.map_filter (\<lambda>l. case data_payload l of None \<Rightarrow> None | Some p \<Rightarrow> parse p) ls"

text \<open>
  The events of an Anthropic stream: a data line counts only directly after an event line, and a
  line that follows an event line is used up even if it is not a data line.
\<close>

fun named_events :: "(gostr \<Rightarrow> 'e option) \<Rightarrow> gostr list \<Rightarrow> 'e list" where
  "named_events parse (l # d # ls) =
     (if \<not> has_prefix l ''event: '' then named_events parse (d # ls)
      else if \<not> has_prefix d ''data: '' then named_events parse ls
      else case parse (drop 6 d) of None \<Rightarrow> named_events parse ls | Some e \<Rightarrow> e # named_events parse ls)"
| "named_events parse _ = []"

section \<open>The loop\<close>

fun deliver :: "(nat \<Rightarrow> bool) \<Rightarrow> nat \<Rightarrow> 'c list \<Rightarrow> 'c list \<times> nat \<times> bool" where
  "deliver okw n [] = ([], n, True)"
| "deliver okw n (c # cs) =
     (if okw n then (case deliver okw (n + 1) cs of (ds, m, alive) \<Rightarrow> (c # ds, m, alive)) else ([], n + 1, False))"

fun pump ::
  "(nat \<Rightarrow> bool) \<Rightarrow> ('e \<Rightarrow> 's \<Rightarrow> 'c list \<times> 's) \<Rightarrow> nat \<Rightarrow> 'e feed list \<Rightarrow> 's \<Rightarrow> 'c sent list \<times> nat \<times> 's \<times> bool" where
  "pump okw conv n [] s = ([], n, s, True)"
| "pump okw conv n (Event e # fs) s =
     (case conv e s of (cs, s1) \<Rightarrow> case deliver okw n cs of (ds, n1, alive) \<Rightarrow>
        if \<not> alive then (map Sent ds, n1, s1, False)
        else case pump okw conv n1 fs s1 of (out, rest) \<Rightarrow> (map Sent ds @ out, rest))"
| "pump okw conv n (Idle # fs) s =
     (if \<not> okw n then ([], n + 1, s, False)
      else case pump okw conv (n + 1) fs s of (out, rest) \<Rightarrow> (Ping # out, rest))"

text \<open>The writes at the end of the stream, whose errors are ignored.\<close>

fun write_rest :: "(nat \<Rightarrow> bool) \<Rightarrow> nat \<Rightarrow> 'x list \<Rightarrow> 'x list" where
  "write_rest okw n [] = []"
| "write_rest okw n (x # xs) = (if okw n then x # write_rest okw (n + 1) xs else write_rest okw (n + 1) xs)"

definition drive ::
  "(nat \<Rightarrow> bool) \<Rightarrow> ('e \<Rightarrow> 's \<Rightarrow> 'c list \<times> 's) \<Rightarrow> ('s \<Rightarrow> 'c list) \<Rightarrow> 'c sent list \<Rightarrow> 'e feed list \<Rightarrow> 's \<Rightarrow> 'c sent list \<times> 's" where
  "drive okw conv finish trailer fs s0 =
     (case pump okw conv 0 fs s0 of (out, n, s, alive) \<Rightarrow>
        if alive then (out @ write_rest okw n (map Sent (finish s) @ trailer), s) else (out, s))"

section \<open>What the loop delivers\<close>

definition feed_events :: "'e feed list \<Rightarrow> 'e list" where
  "feed_events fs = concat (map (\<lambda>f. case f of Event e \<Rightarrow> [e] | Idle \<Rightarrow> []) fs)"

definition sent_chunks :: "'c sent list \<Rightarrow> 'c list" where
  "sent_chunks out = concat (map (\<lambda>x. case x of Sent c \<Rightarrow> [c] | _ \<Rightarrow> []) out)"

lemma feed_events_simps [simp]:
  "feed_events [] = []" "feed_events (Event e # fs) = e # feed_events fs" "feed_events (Idle # fs) = feed_events fs"
  by (simp_all add: feed_events_def)

lemma feed_events_Event [simp]: "feed_events (map Event es) = es"
  by (induction es) simp_all

lemma sent_chunks_simps [simp]:
  "sent_chunks [] = []" "sent_chunks (Sent c # out) = c # sent_chunks out" "sent_chunks (Ping # out) = sent_chunks out"
  "sent_chunks (DoneMark # out) = sent_chunks out" "sent_chunks (xs @ ys) = sent_chunks xs @ sent_chunks ys"
  by (simp_all add: sent_chunks_def)

lemma sent_chunks_Sent [simp]: "sent_chunks (map Sent cs) = cs"
  by (induction cs) simp_all

lemma deliver_prefix: "deliver okw n cs = (ds, m, alive) \<Longrightarrow> prefix ds cs \<and> (alive \<longrightarrow> ds = cs)"
  by (induction cs arbitrary: n ds) (auto split: if_splits prod.splits)

text \<open>A client that stays connected.\<close>

abbreviation connected :: "nat \<Rightarrow> bool" where
  "connected \<equiv> (\<lambda>n. True)"

lemma deliver_ok [simp]: "deliver connected n cs = (cs, n + length cs, True)"
  by (induction cs arbitrary: n) auto

text \<open>Whatever the writes do, the client gets a prefix of the converted stream.\<close>

lemma pump_prefix:
  assumes "pump okw conv n fs s = (out, m, s1, alive)"
  shows "prefix (sent_chunks out) (fst (run_stream conv (feed_events fs) s)) \<and>
    (alive \<longrightarrow> sent_chunks out = fst (run_stream conv (feed_events fs) s) \<and> s1 = snd (run_stream conv (feed_events fs) s))"
  using assms
proof (induction okw conv n fs s arbitrary: out rule: pump.induct)
  case (2 okw conv n e fs s)
  obtain cs t where c: "conv e s = (cs, t)" by fastforce
  obtain ds k al where d: "deliver okw n cs = (ds, k, al)" by (metis prod_cases3)
  have p: "prefix ds cs" "al \<Longrightarrow> ds = cs" using deliver_prefix [OF d] by auto
  show ?case
  proof (cases al)
    case True
    then show ?thesis using 2 c d p by (auto split: prod.splits)
  next
    case False
    then show ?thesis using 2 c d p by (auto split: prod.splits simp: prefix_append)
  qed
qed (auto split: if_splits prod.splits)

lemma pump_stopped:
  "pump okw conv n fs s = (out, m, s1, False) \<Longrightarrow> pump okw conv n (fs @ gs) s = (out, m, s1, False)"
proof (induction okw conv n fs s arbitrary: out rule: pump.induct)
  case (2 okw conv n e fs s)
  then show ?case by (cases "conv e s") (fastforce split: prod.splits if_splits)
qed (auto split: if_splits prod.splits)

lemma pump_ok: "\<exists>out m. pump connected conv n fs s = (out, m, snd (run_stream conv (feed_events fs) s), True)"
proof (induction fs arbitrary: n s)
  case (Cons f fs)
  show ?case
  proof (cases f)
    case (Event e)
    obtain cs t where "conv e s = (cs, t)" by fastforce
    then show ?thesis using Event Cons.IH [of "n + length cs" t] by (auto split: prod.splits)
  qed (use Cons.IH [of "n + 1" s] in auto)
qed simp

lemma write_rest_ok [simp]: "write_rest connected n xs = xs"
  by (induction xs arbitrary: n) auto

lemma drive_ok:
  assumes "run_stream conv (feed_events fs) s = (cs, s1)" "sent_chunks trailer = []"
  shows "\<exists>out. drive connected conv finish trailer fs s = (out, s1) \<and> sent_chunks out = cs @ finish s1"
proof -
  obtain out m where p: "pump connected conv 0 fs s = (out, m, s1, True)" using pump_ok [of conv 0 fs s] assms(1) by auto
  moreover have "sent_chunks out = cs" using pump_prefix [OF p] assms(1) by simp
  ultimately show ?thesis by (simp add: drive_def assms(2))
qed

end
