(* ===== verification/Chat_Forward.thy ===== *)
theory Chat_Forward
  imports Chat_Stream Stream_Driver
begin

text \<open>
  \<open>service/openai_gateway_chat_completions.go\<close>: how an OpenAI upstream answer, which is always a
  stream, is returned to a Chat Completions client, as one response or as a stream, with the usage
  that is billed.  An upstream line is its text; \<open>parse\<close> is \<open>json.Unmarshal\<close> into an event.  The
  response headers and logs are left out.
\<close>

record OpenAIUsage =
  ou_InputTokens :: int
  ou_OutputTokens :: int
  ou_CacheCreationInputTokens :: int
  ou_CacheReadInputTokens :: int
  ou_ImageOutputTokens :: int

definition zero_ou :: OpenAIUsage where
  "zero_ou = \<lparr>ou_InputTokens = 0, ou_OutputTokens = 0, ou_CacheCreationInputTokens = 0,
     ou_CacheReadInputTokens = 0, ou_ImageOutputTokens = 0\<rparr>"

definition openAIUsageOf :: "ResponsesUsage \<Rightarrow> OpenAIUsage" where
  "openAIUsageOf u = zero_ou\<lparr>ou_InputTokens := pu_InputTokens u, ou_OutputTokens := pu_OutputTokens u,
     ou_CacheReadInputTokens := (case pu_InputTokensDetails u of None \<Rightarrow> 0 | Some cached \<Rightarrow> cached)\<rparr>"

definition responseUsage :: "ResponsesStreamEvent \<Rightarrow> OpenAIUsage \<Rightarrow> OpenAIUsage" where
  "responseUsage evt usage =
     (case pe_Response evt of
        None \<Rightarrow> usage
      | Some r \<Rightarrow> (case pr_Usage r of None \<Rightarrow> usage | Some u \<Rightarrow> openAIUsageOf u))"

section \<open>One response\<close>

text \<open>\<open>Panicked\<close>: the accumulator panicked, and the handler with it.\<close>

datatype forward_error = UpstreamEnded | Panicked

type_synonym chat_buffer = "ResponsesResponse option \<times> OpenAIUsage \<times> accumulator_state"

definition bufferChatEvent :: "(nat \<Rightarrow> nat) \<Rightarrow> ResponsesStreamEvent \<Rightarrow> chat_buffer \<Rightarrow> chat_buffer option" where
  "bufferChatEvent grow evt = (\<lambda>(final, usage, acc).
     case ProcessEvent grow evt acc of
       None \<Rightarrow> None
     | Some acc1 \<Rightarrow>
         Some (if (pe_Type evt \<in> terminal_types \<or> pe_Type evt = ''response.done'') \<and> pe_Response evt \<noteq> None
               then (pe_Response evt, responseUsage evt usage, acc1)
               else (final, usage, acc1)))"

fun bufferChatEvents :: "(nat \<Rightarrow> nat) \<Rightarrow> ResponsesStreamEvent list \<Rightarrow> chat_buffer \<Rightarrow> chat_buffer option" where
  "bufferChatEvents grow [] b = Some b"
| "bufferChatEvents grow (e # es) b = Option.bind (bufferChatEvent grow e b) (bufferChatEvents grow es)"

definition handleChatBufferedStreamingResponse ::
  "(nat \<Rightarrow> nat) \<Rightarrow> time \<Rightarrow> gostr \<Rightarrow> (gostr \<Rightarrow> ResponsesStreamEvent option) \<Rightarrow> gostr \<Rightarrow> gostr list
     \<Rightarrow> forward_error + ChatCompletionsResponse \<times> OpenAIUsage" where
  "handleChatBufferedStreamingResponse grow now newID parse originalModel ls =
     (case bufferChatEvents grow (data_events parse ls) (None, zero_ou, NewBufferedResponseAccumulator, fresh_memory) of
        None \<Rightarrow> Inl Panicked
      | Some (None, _, _) \<Rightarrow> Inl UpstreamEnded
      | Some (Some final, usage, acc, _) \<Rightarrow>
          Inr (ResponsesToChatCompletions now newID (SupplementResponseOutput acc final) originalModel, usage))"

section \<open>A stream\<close>

definition processDataLine ::
  "(ResponsesStreamEvent \<Rightarrow> 's \<Rightarrow> 'c list \<times> 's) \<Rightarrow> ResponsesStreamEvent \<Rightarrow> 's \<times> OpenAIUsage \<Rightarrow> 'c list \<times> ('s \<times> OpenAIUsage)" where
  "processDataLine conv evt = (\<lambda>(st, usage).
     let usage1 = (if pe_Type evt \<in> terminal_types then responseUsage evt usage else usage);
         (chunks, st1) = conv evt st
     in (chunks, (st1, usage1)))"

definition initialChatState :: "time \<Rightarrow> gostr \<Rightarrow> gostr \<Rightarrow> bool \<Rightarrow> ResponsesEventToChatState" where
  "initialChatState now newID originalModel includeUsage =
     (NewResponsesEventToChatState now newID)\<lparr>rc_Model := originalModel, rc_IncludeUsage := includeUsage\<rparr>"

definition line_feed :: "(gostr \<Rightarrow> 'e option) \<Rightarrow> gostr feed list \<Rightarrow> 'e feed list" where
  "line_feed parse fs = List.map_filter (\<lambda>f. case f of
      Idle \<Rightarrow> Some Idle
    | Event l \<Rightarrow> (case data_payload l of None \<Rightarrow> None | Some p \<Rightarrow> map_option Event (parse p))) fs"

definition handleChatStreamingResponse ::
  "(nat \<Rightarrow> bool) \<Rightarrow> time \<Rightarrow> gostr \<Rightarrow> (gostr \<Rightarrow> ResponsesStreamEvent option) \<Rightarrow> gostr \<Rightarrow> bool \<Rightarrow> gostr feed list
     \<Rightarrow> ChatCompletionsChunk sent list \<times> OpenAIUsage" where
  "handleChatStreamingResponse okw now newID parse originalModel includeUsage ls =
     (case drive okw (processDataLine ResponsesEventToChatChunks) (\<lambda>(st, usage). fst (FinalizeResponsesChatStream st)) [DoneMark]
        (line_feed parse ls) (initialChatState now newID originalModel includeUsage, zero_ou) of
        (out, st, usage) \<Rightarrow> (out, usage))"

lemma line_feed_Event [simp]: "line_feed parse (map Event ls) = map Event (data_events parse ls)"
  by (induction ls) (auto simp: line_feed_def data_events_def map_filter_simps split: option.splits)

lemma line_feed_Idle: "feed_events (line_feed parse fs) = data_events parse (feed_events fs)"
proof (induction fs)
  case (Cons f fs)
  then show ?case
    by (cases f) (auto simp: line_feed_def data_events_def map_filter_simps split: option.splits)
qed (simp add: line_feed_def data_events_def map_filter_simps)

section \<open>Both give the same answer\<close>

lemma run_processDataLine:
  "run_stream (processDataLine conv) es (st, usage) =
     (case run_stream conv es st of (cs, st1) \<Rightarrow>
        (cs, st1, fold (\<lambda>e u. if pe_Type e \<in> terminal_types then responseUsage e u else u) es usage))"
  by (induction es arbitrary: st usage) (auto simp: processDataLine_def Let_def split: prod.splits)

definition quiet :: "ResponsesStreamEvent \<Rightarrow> bool" where
  "quiet e \<longleftrightarrow> pe_Type e \<notin> terminal_types \<and> pe_Type e \<noteq> ''response.done''"

lemma buffer_quiet:
  "\<forall>e\<in>set es. quiet e \<Longrightarrow>
     bufferChatEvents grow es (f, u, am) = map_option (\<lambda>am1. (f, u, am1)) (process_all grow es am)"
proof (induction es arbitrary: am)
  case (Cons e es)
  then show ?case by (cases "ProcessEvent grow e am") (auto simp: bufferChatEvent_def quiet_def)
qed simp

lemma bufferChatEvents_snoc:
  "bufferChatEvents grow (es @ [e]) b = Option.bind (bufferChatEvents grow es b) (bufferChatEvent grow e)"
  by (induction es arbitrary: b) (auto split: bind_split)

lemma usage_quiet:
  "\<forall>e\<in>set es. quiet e \<Longrightarrow> fold (\<lambda>e u. if pe_Type e \<in> terminal_types then responseUsage e u else u) es u = u"
  by (induction es arbitrary: u) (auto simp: quiet_def)

text \<open>The chunks before the end carry neither a finish reason nor usage, and do not finalise.\<close>

lemma chat_quiet_step:
  assumes "quiet e" "ResponsesEventToChatChunks e st = (cs, st1)"
  shows "rc_Finalized st1 = rc_Finalized st" "rc_Usage st1 = rc_Usage st" "rc_IncludeUsage st1 = rc_IncludeUsage st"
    "cv_finish (fold see_chunk cs v) = cv_finish v" "cv_usage (fold see_chunk cs v) = cv_usage v"
  using assms
  by (auto simp: quiet_def ResponsesEventToChatChunks_def resToChatHandleCreated_def resToChatHandleTextDelta_def
      resToChatHandleOutputItemAdded_def resToChatHandleFuncArgsDelta_def resToChatHandleReasoningDelta_def Let_def see_defs
      split: if_splits option.splits)

lemma chat_quiet_run:
  assumes "\<forall>e\<in>set es. quiet e" "run_stream ResponsesEventToChatChunks es st = (cs, st1)"
  shows "rc_Finalized st1 = rc_Finalized st" "rc_Usage st1 = rc_Usage st" "rc_IncludeUsage st1 = rc_IncludeUsage st"
    "cv_finish (fold see_chunk cs v) = cv_finish v" "cv_usage (fold see_chunk cs v) = cv_usage v"
  using assms
  by (induction es arbitrary: st cs v)
    (auto simp: Let_def chat_quiet_step split: prod.splits)

definition call_of :: "bufferedFuncCall \<Rightarrow> ChatToolCall" where
  "call_of f = \<lparr>htc_Index = None, htc_ID = bf_CallID f, htc_Type = ''function'',
     htc_Function = \<lparr>hfc_Name = bf_Name f, hfc_Arguments = bf_Args f\<rparr>\<rparr>"

lemma collect_calls:
  "fold collectItem (map (\<lambda>f. zero_po\<lparr>po_Type := ''function_call'', po_CallID := bf_CallID f, po_Name := bf_Name f,
       po_Arguments := bf_Args f\<rparr>) fs) (c, r, tcs) = (c, r, tcs @ map call_of fs)"
  by (induction fs arbitrary: tcs) (auto simp: collectItem_def toolCallOf_def zero_po_def call_of_def)

lemma collect_texts:
  "s \<noteq> '''' \<Longrightarrow> collectItem (zero_po\<lparr>po_Type := ''reasoning'', po_Summary := [\<lparr>psm_Type = ''summary_text'', psm_Text = s\<rparr>]\<rparr>) (c, r, t)
     = (c, r @ s, t)"
  "s \<noteq> '''' \<Longrightarrow> collectItem (zero_po\<lparr>po_Type := ''message'', po_Role := ro,
      po_Content := [zero_pp\<lparr>pp_Type := ''output_text'', pp_Text := s\<rparr>]\<rparr>) (c, r, t) = (c @ s, r, t)"
  by (simp_all add: collectItem_def zero_po_def zero_pp_def output_text_def summary_text_def)

lemma collect_build: "fold collectItem (BuildOutput a) ('''', '''', []) = (bra_text a, bra_reasoning a, map call_of (bra_funcCalls a))"
  by (simp add: BuildOutput_def collect_calls collect_texts)

text \<open>The output of the terminal event is empty, or it says what the events before it have said.\<close>

definition output_agrees :: "BufferedResponseAccumulator \<Rightarrow> ResponsesResponse \<Rightarrow> bool" where
  "output_agrees a r \<longleftrightarrow>
     pr_Output r = [] \<or>
     fold collectItem (pr_Output r) ('''', '''', []) = (bra_text a, bra_reasoning a, map call_of (bra_funcCalls a))"

lemma collect_supplement:
  "output_agrees a r \<Longrightarrow>
     fold collectItem (pr_Output (SupplementResponseOutput a r)) ('''', '''', []) =
       (bra_text a, bra_reasoning a, map call_of (bra_funcCalls a))"
  by (auto simp: output_agrees_def SupplementResponseOutput_def collect_build HasContent_def)

lemma supplement_same [simp]:
  "pr_ID (SupplementResponseOutput a r) = pr_ID r" "pr_Status (SupplementResponseOutput a r) = pr_Status r"
  "pr_IncompleteDetails (SupplementResponseOutput a r) = pr_IncompleteDetails r"
  "pr_Usage (SupplementResponseOutput a r) = pr_Usage r"
  by (simp_all add: SupplementResponseOutput_def)

text \<open>The message that a client of the stream puts together from its view.\<close>

definition view_message :: "chat_view \<Rightarrow> ChatMessage" where
  "view_message v = zero_hm\<lparr>hm_Role := ''assistant'', hm_ToolCalls := map call_of (cv_calls v),
     hm_Content := (if cv_text v \<noteq> '''' then enc_string (cv_text v) else []), hm_ReasoningContent := cv_reasoning v\<rparr>"

lemma chat_sim_initial: "chat_sim p (initialChatState now i m u) empty_view NewBufferedResponseAccumulator"
  by (simp add: chat_sim_def initialChatState_def NewResponsesEventToChatState_def empty_view_def
      NewBufferedResponseAccumulator_def fun_eq_iff)

lemma completed_finish:
  "pe_Response e = Some r \<Longrightarrow> completedFinishReason e (tcs \<noteq> []) = responsesStatusToChatFinishReason (pr_Status r) (pr_IncompleteDetails r) tcs"
  by (simp add: completedFinishReason_def responsesStatusToChatFinishReason_def)

lemma chat_terminal_step:
  assumes sim: "chat_sim p st v a" and t: "pe_Type e \<in> terminal_types" and r: "pe_Response e = Some r"
    and step: "ResponsesEventToChatChunks e st = (cs, st1)"
    and start: "cv_finish v = []" "cv_usage v = []" "rc_Usage st = None"
  shows "rc_Finalized st1"
    "cv_finish (fold see_chunk cs v) = [responsesStatusToChatFinishReason (pr_Status r) (pr_IncompleteDetails r) (map call_of (bra_funcCalls a))]"
    "cv_usage (fold see_chunk cs v) = (if rc_IncludeUsage st then (case pr_Usage r of None \<Rightarrow> [] | Some u \<Rightarrow> [chatUsageOf u]) else [])"
    "chat_sim p st1 (fold see_chunk cs v) a"
proof -
  have h: "resToChatHandleCompleted e st = (cs, st1)"
    using step t by (auto simp: ResponsesEventToChatChunks_def terminal_types_def)
  have saw: "rc_SawToolCall st = (map call_of (bra_funcCalls a) \<noteq> [])" using sim by (simp add: chat_sim_def)
  show "rc_Finalized st1" using h by (auto simp: resToChatHandleCompleted_def Let_def)
  show "chat_sim p st1 (fold see_chunk cs v) a" by (rule chat_sim_completed [OF sim h])
  show "cv_finish (fold see_chunk cs v) = [responsesStatusToChatFinishReason (pr_Status r) (pr_IncompleteDetails r) (map call_of (bra_funcCalls a))]"
    using h start(1) saw completed_finish [OF r, of "map call_of (bra_funcCalls a)"]
    by (auto simp: resToChatHandleCompleted_def Let_def usageChunk_view) (auto simp: see_defs)
  show "cv_usage (fold see_chunk cs v) = (if rc_IncludeUsage st then (case pr_Usage r of None \<Rightarrow> [] | Some u \<Rightarrow> [chatUsageOf u]) else [])"
    using h start(2,3) r by (auto simp: resToChatHandleCompleted_def Let_def see_defs split: option.splits)
qed


section \<open>Properties\<close>

text \<open>
  C16. Take a stream whose one terminal event is its last and carries a response, with an output that is
  empty or says what the stream has said, and in which the arguments of tool calls come in turn.  Then
  the buffered handler does not panic, however arrays grow, and its answer and the stream of chunks that
  a connected client gets, pings included, have the same message, finish reason and usage; both paths
  bill the same usage.  (Where the arguments of two calls alternate, the buffered handler panics.)
\<close>

theorem streaming_equals_buffered:
  assumes "data_events parse (feed_events fs) = es @ [e]" "\<forall>x\<in>set es. quiet x"
    and "pe_Type e \<in> terminal_types" "pe_Response e = Some r"
    and "output_agrees (fold accumulate es NewBufferedResponseAccumulator) r" "calls_in_turn None es"
  shows "\<exists>resp usage out f. let v = fold see_chunk (sent_chunks out) empty_view in
    handleChatBufferedStreamingResponse grow now newID parse model (feed_events fs) = Inr (resp, usage) \<and>
    handleChatStreamingResponse connected now newID parse model includeUsage fs = (out, usage) \<and>
    hr_Choices resp = [\<lparr>hch_Index = 0, hch_Message = view_message v, hch_FinishReason = f\<rparr>] \<and>
    cv_finish v = [f] \<and>
    cv_usage v = (if includeUsage then (case hr_Usage resp of None \<Rightarrow> [] | Some u \<Rightarrow> [u]) else [])"
proof -
  let ?s0 = "initialChatState now newID model includeUsage"
  let ?a0 = "NewBufferedResponseAccumulator"
  let ?acc = "fold accumulate es ?a0"
  let ?tcs = "map call_of (bra_funcCalls ?acc)"
  let ?f = "responsesStatusToChatFinishReason (pr_Status r) (pr_IncompleteDetails r) ?tcs"
  let ?usage = "responseUsage e zero_ou"
  obtain cs st where run: "run_stream ResponsesEventToChatChunks es ?s0 = (cs, st)" by fastforce
  obtain ds st1 where last: "ResponsesEventToChatChunks e st = (ds, st1)" by fastforce
  define v where "v = fold see_chunk cs empty_view"
  have sim: "chat_sim () st v ?acc"
    unfolding v_def by (rule chat.sim_run [OF chat_sim_initial _ run]) (induction es, simp_all add: any_event_def)
  have start: "cv_finish v = []" "cv_usage v = []" "rc_Usage st = None" "rc_IncludeUsage st = includeUsage"
    using chat_quiet_run [OF assms(2) run] v_def
    by (auto simp: empty_view_def initialChatState_def NewResponsesEventToChatState_def)
  note fin = chat_terminal_step [OF sim assms(3,4) last start(1,2,3)]
  have "run_stream (processDataLine ResponsesEventToChatChunks) (feed_events (line_feed parse fs)) (?s0, zero_ou) = (cs @ ds, st1, ?usage)"
    by (simp add: line_feed_Idle assms(1,3) run_processDataLine run_stream_snoc run last usage_quiet [OF assms(2)] processDataLine_def)
  from drive_ok [OF this, of "[DoneMark]" "\<lambda>(st, usage). fst (FinalizeResponsesChatStream st)"]
  obtain out where out: "handleChatStreamingResponse connected now newID parse model includeUsage fs = (out, ?usage)"
    "sent_chunks out = cs @ ds"
    using fin(1) by (auto simp: handleChatStreamingResponse_def FinalizeResponsesChatStream_def)
  obtain m where m: "process_all grow es (?a0, fresh_memory) = Some (?acc, m)"
    using in_turn_no_panic [OF _ assms(6), of ?a0 fresh_memory grow]
    by (auto simp: last_in_place_def fresh_memory_def)
  have "ProcessEvent grow e (?acc, m) = Some (?acc, m)" using assms(3) by (auto simp: ProcessEvent_def terminal_types_def)
  then have "bufferChatEvents grow (es @ [e]) (None, zero_ou, ?a0, fresh_memory) = Some (Some r, ?usage, ?acc, m)"
    using assms(3,4) by (simp add: bufferChatEvents_snoc buffer_quiet [OF assms(2)] m bufferChatEvent_def)
  then have buf: "handleChatBufferedStreamingResponse grow now newID parse model (feed_events fs) =
      Inr (ResponsesToChatCompletions now newID (SupplementResponseOutput ?acc r) model, ?usage)"
    by (simp add: handleChatBufferedStreamingResponse_def assms(1))
  have view: "fold see_chunk (sent_chunks out) empty_view = fold see_chunk ds v" by (simp add: out(2) v_def)
  have same: "cv_text (fold see_chunk ds v) = bra_text ?acc" "cv_reasoning (fold see_chunk ds v) = bra_reasoning ?acc"
    "cv_calls (fold see_chunk ds v) = bra_funcCalls ?acc"
    using fin(4) by (simp_all add: chat_sim_def)
  show ?thesis
    unfolding Let_def
    by (rule exI [where x = "ResponsesToChatCompletions now newID (SupplementResponseOutput ?acc r) model"],
        rule exI [where x = ?usage], rule exI [where x = out], rule exI [where x = ?f])
      (auto simp: buf out(1) view fin(2,3) start(4) same view_message_def ResponsesToChatCompletions_def
        collect_supplement [OF assms(5)] split: option.splits)
qed


text \<open>A stream with a text, a tool call and a ping, read at a concrete input.\<close>

definition sample_lines :: "gostr feed list" where
  "sample_lines = [Event ''data: 1'', Event '''', Event ''data: 2'', Idle, Event ''data: 3'', Event ''data: 4'', Event ''data: 5'',
     Event ''data: [DONE]'']"

definition sample_call :: ResponsesOutput where
  "sample_call = zero_po\<lparr>po_Type := ''function_call'', po_CallID := ''call_7'', po_Name := ''weather''\<rparr>"

definition sample_end :: ResponsesResponse where
  "sample_end = zero_pr\<lparr>pr_ID := ''resp_1'', pr_Status := ''completed'', pr_Usage :=
     Some \<lparr>pu_InputTokens = 12, pu_OutputTokens = 5, pu_TotalTokens = 17, pu_InputTokensDetails = Some 4, pu_OutputTokensDetails = None\<rparr>\<rparr>"

definition sample_parse :: "gostr \<Rightarrow> ResponsesStreamEvent option" where
  "sample_parse p =
     (if p = ''1'' then Some (zero_pe\<lparr>pe_Type := ''response.created''\<rparr>)
      else if p = ''2'' then Some (zero_pe\<lparr>pe_Type := ''response.output_text.delta'', pe_Delta := ''Hi''\<rparr>)
      else if p = ''3'' then Some (zero_pe\<lparr>pe_Type := ''response.output_item.added'', pe_OutputIndex := 1, pe_Item := Some sample_call\<rparr>)
      else if p = ''4'' then Some (zero_pe\<lparr>pe_Type := ''response.function_call_arguments.delta'', pe_OutputIndex := 1, pe_Delta := ''{}''\<rparr>)
      else if p = ''5'' then Some (zero_pe\<lparr>pe_Type := ''response.completed'', pe_Response := Some sample_end\<rparr>)
      else None)"

lemma sample_quiet:
  "data_events sample_parse (feed_events sample_lines) =
     [the (sample_parse ''1''), the (sample_parse ''2''), the (sample_parse ''3''), the (sample_parse ''4'')] @ [the (sample_parse ''5'')]"
  "\<forall>x\<in>set [the (sample_parse ''1''), the (sample_parse ''2''), the (sample_parse ''3''), the (sample_parse ''4'')]. quiet x"
  "pe_Type (the (sample_parse ''5'')) \<in> terminal_types" "pe_Response (the (sample_parse ''5'')) = Some sample_end"
  "output_agrees a sample_end"
  "calls_in_turn None [the (sample_parse ''1''), the (sample_parse ''2''), the (sample_parse ''3''), the (sample_parse ''4'')]"
  by (simp_all add: output_agrees_def sample_call_def zero_po_def sample_lines_def sample_parse_def data_events_def
      data_payload_def map_filter_simps has_prefix_def zero_pe_def quiet_def terminal_types_def sample_end_def zero_pr_def)

lemma streaming_equals_buffered_witness:
  "\<exists>resp usage out f. let v = fold see_chunk (sent_chunks out) empty_view in
    handleChatBufferedStreamingResponse (\<lambda>n. 2 * n) 7 ''id'' sample_parse ''m'' (feed_events sample_lines) = Inr (resp, usage) \<and>
    handleChatStreamingResponse connected 7 ''id'' sample_parse ''m'' True sample_lines = (out, usage) \<and>
    hr_Choices resp = [\<lparr>hch_Index = 0, hch_Message = view_message v, hch_FinishReason = f\<rparr>] \<and>
    cv_finish v = [f] \<and>
    cv_usage v = (if True then (case hr_Usage resp of None \<Rightarrow> [] | Some u \<Rightarrow> [u]) else [])"
  by (rule streaming_equals_buffered [OF sample_quiet])

section \<open>Where the paths differ\<close>

text \<open>
  The usage of a stream is known only from its terminal event, and the loop ends at the first write
  that fails: when the client leaves before the end, nothing is billed, whatever the upstream did.
  The other streaming handlers of the service go on reading for that reason.
\<close>

lemma pump_stops_quiet:
  assumes "pump okw (processDataLine conv) n fs (st, u) = (out, m, (st1, u1), alive)" "\<forall>e\<in>set (feed_events fs). quiet e"
  shows "u1 = u"
  using assms
proof (induction fs arbitrary: n st u out)
  case (Cons f fs)
  show ?case
  proof (cases f)
    case (Event e)
    then have "snd (snd (processDataLine conv e (st, u))) = u" using Cons.prems(2) by (simp add: processDataLine_def quiet_def split_beta)
    then show ?thesis using Cons.prems Cons.IH Event by (fastforce split: prod.splits if_splits)
  next
    case Idle
    then show ?thesis using Cons.prems Cons.IH by (fastforce split: prod.splits if_splits)
  qed
qed simp

theorem disconnected_client_not_billed:
  assumes "pump okw (processDataLine ResponsesEventToChatChunks) 0 (line_feed parse fs) (initialChatState now newID model includeUsage, zero_ou) = (out, m, s, False)"
    and "\<forall>e\<in>set (data_events parse (feed_events fs)). quiet e"
  shows "snd (handleChatStreamingResponse okw now newID parse model includeUsage (fs @ rest)) = zero_ou"
proof -
  have feed: "line_feed parse (fs @ rest) = line_feed parse fs @ line_feed parse rest"
    by (simp add: line_feed_def map_filter_def)
  obtain st u where s: "s = (st, u)" by fastforce
  have "u = zero_ou" using pump_stops_quiet [OF assms(1) [unfolded s]] assms(2) by (simp add: line_feed_Idle)
  then show ?thesis using pump_stopped [OF assms(1)] s by (simp add: handleChatStreamingResponse_def drive_def feed)
qed

end
