(* ===== verification/Messages_Forward.thy ===== *)
theory Messages_Forward
  imports Chat_Forward Anthropic_Stream_Safety Go_Values
begin

text \<open>
  \<open>service/openai_gateway_messages.go\<close>: how an OpenAI upstream answer is returned to an Anthropic
  Messages client, as one message or as a stream.  The frame is that of \<open>Chat_Forward\<close>.
\<close>

section \<open>One message\<close>

definition bufferMessagesEvent ::
  "ResponsesStreamEvent \<Rightarrow> ResponsesResponse option \<times> OpenAIUsage \<Rightarrow> ResponsesResponse option \<times> OpenAIUsage" where
  "bufferMessagesEvent evt = (\<lambda>(final, usage).
     if pe_Type evt \<in> terminal_types \<and> pe_Response evt \<noteq> None then (pe_Response evt, responseUsage evt usage)
     else (final, usage))"

definition handleAnthropicBufferedStreamingResponse ::
  "(gostr \<Rightarrow> ResponsesStreamEvent option) \<Rightarrow> gostr \<Rightarrow> gostr list \<Rightarrow> forward_error + AnthropicResponse \<times> OpenAIUsage" where
  "handleAnthropicBufferedStreamingResponse parse originalModel ls =
     (case fold bufferMessagesEvent (data_events parse ls) (None, zero_ou) of
        (None, _) \<Rightarrow> Inl UpstreamEnded
      | (Some final, usage) \<Rightarrow> Inr (ResponsesToAnthropic final originalModel, usage))"

section \<open>A stream\<close>

definition processMessagesLine ::
  "ResponsesStreamEvent \<Rightarrow> ResponsesEventToAnthropicState \<times> OpenAIUsage
     \<Rightarrow> AnthropicStreamEvent list \<times> (ResponsesEventToAnthropicState \<times> OpenAIUsage)" where
  "processMessagesLine = processDataLine ResponsesEventToAnthropicEvents"

definition handleAnthropicStreamingResponse ::
  "(nat \<Rightarrow> bool) \<Rightarrow> time \<Rightarrow> (gostr \<Rightarrow> ResponsesStreamEvent option) \<Rightarrow> gostr \<Rightarrow> gostr feed list
     \<Rightarrow> AnthropicStreamEvent sent list \<times> OpenAIUsage" where
  "handleAnthropicStreamingResponse okw now parse originalModel ls =
     (case drive okw processMessagesLine (\<lambda>(st, usage). fst (FinalizeResponsesAnthropicStream st)) []
        (line_feed parse ls) (initialAnthropicState now originalModel, zero_ou) of
        (out, st, usage) \<Rightarrow> (out, usage))"

section \<open>Properties\<close>


text \<open>The sample stream, one event to a line, with a ping in between.\<close>

definition sample_feed :: "gostr feed list" where
  "sample_feed = map Event [''data: 0'', '''', ''data: 1'', ''data: 2''] @ [Idle] @ map Event [''data: 3'', ''data: 4'', ''data: 5'']"

definition sample_event :: "gostr \<Rightarrow> ResponsesStreamEvent option" where
  "sample_event p = (case parse_int p of None \<Rightarrow> None | Some i \<Rightarrow> if 0 \<le> i \<and> i < 6 then Some (sample_stream ! nat i) else None)"

lemma sample_feed_events: "data_events sample_event (feed_events sample_feed) = sample_stream"
  by (simp add: sample_feed_def sample_event_def sample_stream_def data_events_def data_payload_def map_filter_simps has_prefix_def
      parse_int_def is_digit_def digit_val_def dec_value_def)


section \<open>Where the paths differ\<close>

text \<open>
  The buffered Messages path takes the output of the terminal event as it is.  When the upstream
  leaves it empty, which the Chat Completions path makes up for, the client gets an empty text,
  and is billed, although the stream of the same events carries the answer.
\<close>

lemma buffered_message_loses_answer:
  assumes "data_events parse ls = es @ [e]" "\<forall>x\<in>set es. quiet x"
    and "pe_Type e \<in> terminal_types" "pe_Response e = Some r" "pr_Output r = []"
  shows "\<exists>msg. handleAnthropicBufferedStreamingResponse parse model ls = Inr (msg, responseUsage e zero_ou) \<and>
    ar_Content msg = [zero_ab\<lparr>ab_Type := ''text'', ab_Text := ''''\<rparr>]"
proof -
  have "fold bufferMessagesEvent es s = s" for s
    using assms(2) by (induction es arbitrary: s) (auto simp: bufferMessagesEvent_def quiet_def)
  then show ?thesis using assms
    by (simp add: handleAnthropicBufferedStreamingResponse_def bufferMessagesEvent_def ResponsesToAnthropic_def Let_def)
qed

end
