(* ===== verification/Anthropic_Forward.thy ===== *)
theory Anthropic_Forward
  imports Responses_Stream_Safety Messages_Forward
begin

text \<open>
  \<open>service/gateway_forward_as_responses.go\<close> and \<open>gateway_forward_as_chat_completions.go\<close>: how an
  Anthropic upstream stream is returned to a Responses or a Chat Completions client, as one response
  or as a stream, with the usage that is billed.  The Chat Completions paths chain the converters.
  An event carries the random identifier that its conversion may draw.
\<close>

record ClaudeUsage =
  cu_InputTokens :: int
  cu_OutputTokens :: int
  cu_CacheCreationInputTokens :: int
  cu_CacheReadInputTokens :: int
  cu_CacheCreation5mTokens :: int
  cu_CacheCreation1hTokens :: int
  cu_ImageOutputTokens :: int

definition zero_cu :: ClaudeUsage where
  "zero_cu = \<lparr>cu_InputTokens = 0, cu_OutputTokens = 0, cu_CacheCreationInputTokens = 0, cu_CacheReadInputTokens = 0,
     cu_CacheCreation5mTokens = 0, cu_CacheCreation1hTokens = 0, cu_ImageOutputTokens = 0\<rparr>"

definition mergeAnthropicUsage :: "AnthropicUsage \<Rightarrow> ClaudeUsage \<Rightarrow> ClaudeUsage" where
  "mergeAnthropicUsage src dst = dst\<lparr>
     cu_InputTokens := (if au_InputTokens src > 0 then au_InputTokens src else cu_InputTokens dst),
     cu_OutputTokens := (if au_OutputTokens src > 0 then au_OutputTokens src else cu_OutputTokens dst),
     cu_CacheReadInputTokens := (if au_CacheReadInputTokens src > 0 then au_CacheReadInputTokens src else cu_CacheReadInputTokens dst),
     cu_CacheCreationInputTokens :=
       (if au_CacheCreationInputTokens src > 0 then au_CacheCreationInputTokens src else cu_CacheCreationInputTokens dst)\<rparr>"

definition appendRawJSON :: "RawMessage \<Rightarrow> gostr \<Rightarrow> RawMessage" where
  "appendRawJSON existing fragment = (if existing = [] then fragment else existing @ fragment)"

definition eventUsage :: "AnthropicStreamEvent \<Rightarrow> ClaudeUsage \<Rightarrow> ClaudeUsage" where
  "eventUsage evt usage =
     (if ae_Type evt = ''message_start''
      then (case ae_Message evt of None \<Rightarrow> usage | Some m \<Rightarrow> mergeAnthropicUsage (ar_Usage m) usage)
      else if ae_Type evt = ''message_delta''
      then (case ae_Usage evt of None \<Rightarrow> usage | Some u \<Rightarrow> mergeAnthropicUsage u usage)
      else usage)"

section \<open>Streams\<close>

definition processEvent ::
  "AnthropicStreamEvent \<times> gostr \<Rightarrow> AnthropicEventToResponsesState \<times> ClaudeUsage
     \<Rightarrow> ResponsesStreamEvent list \<times> (AnthropicEventToResponsesState \<times> ClaudeUsage)" where
  "processEvent ei = (\<lambda>(st, usage).
     case convertEvent ei st of (events, st1) \<Rightarrow> (events, (st1, eventUsage (fst ei) usage)))"

definition handleResponsesStreamingResponse ::
  "(nat \<Rightarrow> bool) \<Rightarrow> time \<Rightarrow> (gostr \<Rightarrow> (AnthropicStreamEvent \<times> gostr) option) \<Rightarrow> gostr \<Rightarrow> gostr list
     \<Rightarrow> ResponsesStreamEvent sent list \<times> ClaudeUsage" where
  "handleResponsesStreamingResponse okw now parse originalModel ls =
     (case drive okw processEvent (\<lambda>(st, usage). fst (FinalizeAnthropicResponsesStream st)) []
        (map Event (named_events parse ls)) (initialResponsesState now originalModel, zero_cu) of
        (out, st, usage) \<Rightarrow> (out, usage))"

definition processAnthropicEvent ::
  "AnthropicStreamEvent \<times> gostr \<Rightarrow> (AnthropicEventToResponsesState \<times> ResponsesEventToChatState) \<times> ClaudeUsage
     \<Rightarrow> ChatCompletionsChunk list \<times> ((AnthropicEventToResponsesState \<times> ResponsesEventToChatState) \<times> ClaudeUsage)" where
  "processAnthropicEvent ei = (\<lambda>((anthState, ccState), usage).
     let usage1 = eventUsage (fst ei) usage;
         (responsesEvents, anthState1) = convertEvent ei anthState;
         (ccChunks, ccState1) = run_stream ResponsesEventToChatChunks responsesEvents ccState
     in (ccChunks, ((anthState1, ccState1), usage1)))"

definition finalizeBoth :: "AnthropicEventToResponsesState \<times> ResponsesEventToChatState \<Rightarrow> ChatCompletionsChunk list" where
  "finalizeBoth = (\<lambda>(anthState, ccState).
     case run_stream ResponsesEventToChatChunks (fst (FinalizeAnthropicResponsesStream anthState)) ccState of
       (ccChunks, ccState1) \<Rightarrow> ccChunks @ fst (FinalizeResponsesChatStream ccState1))"

definition handleCCStreamingFromAnthropic ::
  "(nat \<Rightarrow> bool) \<Rightarrow> time \<Rightarrow> gostr \<Rightarrow> (gostr \<Rightarrow> (AnthropicStreamEvent \<times> gostr) option) \<Rightarrow> gostr \<Rightarrow> bool \<Rightarrow> gostr list
     \<Rightarrow> ChatCompletionsChunk sent list \<times> ClaudeUsage" where
  "handleCCStreamingFromAnthropic okw now newID parse originalModel includeUsage ls =
     (case drive okw processAnthropicEvent (\<lambda>(sts, usage). finalizeBoth sts) [DoneMark] (map Event (named_events parse ls))
        ((initialResponsesState now originalModel, initialChatState now newID originalModel includeUsage), zero_cu) of
        (out, sts, usage) \<Rightarrow> (out, usage))"

section \<open>One response\<close>

text \<open>A delta for a block that was not started is dropped; a negative index does not occur.\<close>

definition growBlock :: "AnthropicDelta \<Rightarrow> AnthropicContentBlock \<Rightarrow> AnthropicContentBlock" where
  "growBlock d b =
     (if ad_Type d = ''text_delta'' then b\<lparr>ab_Text := ab_Text b @ ad_Text d\<rparr>
      else if ad_Type d = ''thinking_delta'' then b\<lparr>ab_Thinking := ab_Thinking b @ ad_Thinking d\<rparr>
      else if ad_Type d = ''input_json_delta'' then b\<lparr>ab_Input := appendRawJSON (ab_Input b) (ad_PartialJSON d)\<rparr>
      else b)"

definition growContent :: "AnthropicStreamEvent \<Rightarrow> AnthropicContentBlock list \<Rightarrow> AnthropicContentBlock list" where
  "growContent evt blocks =
     (if ae_Type evt = ''content_block_start''
      then (case ae_ContentBlock evt of None \<Rightarrow> blocks | Some b \<Rightarrow> blocks @ [b])
      else if ae_Type evt = ''content_block_delta''
      then (case (ae_Delta evt, ae_Index evt) of
              (Some d, Some idx) \<Rightarrow>
                if idx < int (length blocks) then blocks[nat idx := growBlock d (blocks ! nat idx)] else blocks
            | _ \<Rightarrow> blocks)
      else blocks)"

definition collectEvent ::
  "AnthropicStreamEvent \<Rightarrow> AnthropicResponse option \<times> ClaudeUsage \<Rightarrow> AnthropicResponse option \<times> ClaudeUsage" where
  "collectEvent evt = (\<lambda>(final, usage).
     (if ae_Type evt = ''message_start'' \<and> ae_Message evt \<noteq> None then ae_Message evt
      else map_option (\<lambda>m. m\<lparr>
        ar_StopReason := (case ae_Delta evt of
            Some d \<Rightarrow> if ae_Type evt = ''message_delta'' \<and> ad_StopReason d \<noteq> '''' then ad_StopReason d else ar_StopReason m
          | None \<Rightarrow> ar_StopReason m),
        ar_Content := growContent evt (ar_Content m)\<rparr>) final,
      eventUsage evt usage))"

definition withUsage :: "ClaudeUsage \<Rightarrow> AnthropicResponse \<Rightarrow> AnthropicResponse" where
  "withUsage usage m =
     (if cu_InputTokens usage > 0 \<or> cu_OutputTokens usage > 0
      then m\<lparr>ar_Usage := \<lparr>au_InputTokens = cu_InputTokens usage, au_OutputTokens = cu_OutputTokens usage,
               au_CacheCreationInputTokens = cu_CacheCreationInputTokens usage,
               au_CacheReadInputTokens = cu_CacheReadInputTokens usage\<rparr>\<rparr>
      else m)"

definition collectStream ::
  "(gostr \<Rightarrow> (AnthropicStreamEvent \<times> gostr) option) \<Rightarrow> gostr list \<Rightarrow> forward_error + AnthropicResponse \<times> ClaudeUsage" where
  "collectStream parse ls =
     (case fold (\<lambda>ei. collectEvent (fst ei)) (named_events parse ls) (None, zero_cu) of
        (None, _) \<Rightarrow> Inl UpstreamEnded
      | (Some m, usage) \<Rightarrow> Inr (withUsage usage m, usage))"

definition handleResponsesBufferedStreamingResponse ::
  "gostr \<Rightarrow> (nat \<Rightarrow> gostr) \<Rightarrow> (gostr \<Rightarrow> (AnthropicStreamEvent \<times> gostr) option) \<Rightarrow> gostr \<Rightarrow> gostr list
     \<Rightarrow> forward_error + ResponsesResponse \<times> ClaudeUsage" where
  "handleResponsesBufferedStreamingResponse newID ids parse originalModel ls =
     (case collectStream parse ls of
        Inl e \<Rightarrow> Inl e
      | Inr (m, usage) \<Rightarrow> Inr ((AnthropicToResponsesResponse newID ids m)\<lparr>pr_Model := originalModel\<rparr>, usage))"

definition handleCCBufferedFromAnthropic ::
  "time \<Rightarrow> gostr \<Rightarrow> gostr \<Rightarrow> (nat \<Rightarrow> gostr) \<Rightarrow> (gostr \<Rightarrow> (AnthropicStreamEvent \<times> gostr) option) \<Rightarrow> gostr \<Rightarrow> gostr list
     \<Rightarrow> forward_error + ChatCompletionsResponse \<times> ClaudeUsage" where
  "handleCCBufferedFromAnthropic now newID chatID ids parse originalModel ls =
     (case collectStream parse ls of
        Inl e \<Rightarrow> Inl e
      | Inr (m, usage) \<Rightarrow>
          Inr (ResponsesToChatCompletions now chatID (AnthropicToResponsesResponse newID ids m) originalModel, usage))"

section \<open>A chain of converters\<close>

lemma run_processEvent:
  "run_stream processEvent es (st, usage) =
     (case run_stream convertEvent es st of (cs, st1) \<Rightarrow> (cs, st1, fold (\<lambda>ei. eventUsage (fst ei)) es usage))"
  by (induction es arbitrary: st usage) (auto simp: processEvent_def Let_def split: prod.splits)

lemma run_processAnthropicEvent:
  "run_stream processAnthropicEvent es ((st, cc), usage) =
     (case run_stream convertEvent es st of (rs, st1) \<Rightarrow>
      case run_stream ResponsesEventToChatChunks rs cc of (cs, cc1) \<Rightarrow>
        (cs, (st1, cc1), fold (\<lambda>ei. eventUsage (fst ei)) es usage))"
proof (induction es arbitrary: st cc usage)
  case (Cons e es)
  obtain rs st1 where 1: "convertEvent e st = (rs, st1)" by fastforce
  obtain cs cc1 where 2: "run_stream ResponsesEventToChatChunks rs cc = (cs, cc1)" by fastforce
  have "processAnthropicEvent e ((st, cc), usage) = (cs, ((st1, cc1), eventUsage (fst e) usage))"
    by (simp add: processAnthropicEvent_def 1 2)
  then show ?case using 1 2 Cons.IH by (simp add: run_stream_append split: prod.splits)
qed simp

lemma collect_usage: "snd (fold (\<lambda>ei. collectEvent (fst ei)) es (m, usage)) = fold (\<lambda>ei. eventUsage (fst ei)) es usage"
  by (induction es arbitrary: m usage) (auto simp: collectEvent_def)

end
