(* ===== verification/Anthropic_Forward_Safety.thy ===== *)
theory Anthropic_Forward_Safety
  imports Anthropic_Forward
begin

text \<open>
  What the clients of an Anthropic upstream receive: as a stream of Responses events or of Chat
  Completions chunks, and as one response.
\<close>

section \<open>The events of the first converter\<close>

lemma seq_run:
  "run_stream convertEvent es st = (cs, st1) \<Longrightarrow> numbered_from (ars_SequenceNumber st) cs (ars_SequenceNumber st1)"
proof (induction es arbitrary: st cs)
  case (Cons e es)
  obtain c1 s where 1: "convertEvent e st = (c1, s)" by fastforce
  obtain c2 t where 2: "run_stream convertEvent es s = (c2, t)" by fastforce
  have "numbered_from (ars_SequenceNumber st) c1 (ars_SequenceNumber s)"
    using seq_ok_D [OF seq_event] 1 by (simp add: convertEvent_def)
  then show ?case using Cons 1 2 numbered_from_append by fastforce
qed simp

lemma numbered_map: "numbered_from 0 es m \<Longrightarrow> map pe_SequenceNumber es = map int [0..<length es]"
  by (rule nth_equalityI) (auto simp: numbered_from_nth)

definition ended :: "ResponsesStreamEvent list \<Rightarrow> bool" where
  "ended rs \<longleftrightarrow> (\<exists>ds e r. rs = ds @ [e] \<and> (\<forall>x\<in>set ds. quiet x) \<and> pe_Type e \<in> terminal_types \<and> pe_Response e = Some r \<and>
     pr_Status r = ''completed'')"

lemma ended_append: "\<forall>x\<in>set cs. quiet x \<Longrightarrow> ended ds \<Longrightarrow> ended (cs @ ds)"
proof -
  assume cs: "\<forall>x\<in>set cs. quiet x" and "ended ds"
  then obtain as e r where "ds = as @ [e]" "\<forall>x\<in>set as. quiet x" "pe_Type e \<in> terminal_types" "pe_Response e = Some r"
    "pr_Status r = ''completed''"
    by (auto simp: ended_def)
  then show "ended (cs @ ds)"
    unfolding ended_def using cs by (intro exI [where x = "cs @ as"] exI [where x = e] exI [where x = r]) auto
qed

lemmas quiet_events = quiet_def terminal_types_def makeResponsesEvent_def numbered_def zero_pe_def

lemma close_quiet: "closeCurrentResponsesItem st = (cs, st1) \<Longrightarrow> \<forall>x\<in>set cs. quiet x"
  by (auto simp: closeCurrentResponsesItem_def quiet_events split: if_splits)

lemma complete_ended: "completeStream st = (cs, st1) \<Longrightarrow> ended cs"
proof -
  assume run: "completeStream st = (cs, st1)"
  obtain c1 st2 where close: "closeCurrentResponsesItem st = (c1, st2)" by fastforce
  have "ended (fst (makeResponsesCompletedEvent ''completed'' None st2))"
    by (simp add: ended_def makeResponsesCompletedEvent_def numbered_def terminal_types_def zero_pe_def zero_pr_def)
  then show ?thesis using run close ended_append [OF close_quiet [OF close]]
    by (auto simp: completeStream_def Let_def split: prod.splits)
qed

lemma convert_quiet:
  assumes "convertEvent ei st = (cs, st1)" "ae_Type (fst ei) \<noteq> ''message_stop''"
  shows "\<forall>x\<in>set cs. quiet x"
  using assms
  by (auto simp: convertEvent_def AnthropicEventToResponsesEvents_def anthToResHandleMessageStart_def makeResponsesCreatedEvent_def
      anthToResHandleContentBlockStart_def openItem_def anthToResHandleContentBlockDelta_def anthToResHandleContentBlockStop_def
      anthToResHandleMessageDelta_def quiet_events Let_def dest!: close_quiet split: if_splits option.splits prod.splits)

lemma plain_silent:
  assumes "plain_step ei (ADone, f) = Some (q, g)"
  shows "q = ADone \<and> convertEvent ei st = ([], st)"
proof -
  have "ae_Type (fst ei) \<notin> stream_types"
    using assms by (cases f) (auto simp: plain_step_def anth_upstream_step_def anth_step_def side_delta_def split: if_splits)
  then show ?thesis
    using assms by (cases f)
      (auto simp: plain_step_def anth_upstream_step_def convertEvent_def stream_types_def AnthropicEventToResponsesEvents_def)
qed

lemma plain_stop:
  assumes "plain_step ei (p, f) = Some (q, g)" "p \<noteq> ADone"
  shows "(q = ADone) = (ae_Type (fst ei) = ''message_stop'')"
proof -
  have "anth_upstream_step (fst ei) p = Some q" using assms(1) by (cases f) (auto simp: plain_step_def)
  then show ?thesis using assms(2)
    by (cases p) (auto simp: anth_upstream_step_def anth_step_def side_delta_def stream_types_def split: if_splits option.splits)
qed

lemma run_ended:
  assumes "follow plain_step es (AFresh, False, True) = Some (p, f)"
    and "run_stream convertEvent es (initialResponsesState now model) = (cs, st)"
  shows "if p = ADone then ended cs else \<forall>x\<in>set cs. quiet x"
  using assms
proof (induction es arbitrary: p f cs st rule: rev_induct)
  case (snoc e es)
  obtain q g where q: "follow plain_step es (AFresh, False, True) = Some (q, g)" "plain_step e (q, g) = Some (p, f)"
    using snoc.prems(1) by (fastforce simp: follow_append split: option.splits)
  obtain c1 s where 1: "run_stream convertEvent es (initialResponsesState now model) = (c1, s)" by fastforce
  obtain c2 t where 2: "convertEvent e s = (c2, t)" by fastforce
  have cs: "cs = c1 @ c2" using snoc.prems(2) 1 2 by (simp add: run_stream_snoc)
  show ?case
  proof (cases "q = ADone")
    case True
    then have "p = ADone" "c2 = []" using plain_silent [of e g p f s] q(2) 2 by auto
    then show ?thesis using snoc.IH [OF q(1) 1] True cs by simp
  next
    case q1: False
    have stop: "(p = ADone) = (ae_Type (fst e) = ''message_stop'')" using plain_stop [OF q(2) q1] .
    have quiet: "\<forall>x\<in>set c1. quiet x" using snoc.IH [OF q(1) 1] q1 by simp
    show ?thesis
  proof (cases "p = ADone")
    case True
    obtain msg tidy where g: "g = (msg, tidy)" by fastforce
    have "responses_sim (q, g) s (fold see_resp c1 fresh_resp) (fold see_reference es [])"
      by (rule responses.sim_run [OF responses_sim_initial q(1) 1])
    then have "\<not> ars_CompletedSent s" using q1 by (simp add: responses_sim_def g)
    then have "completeStream s = (c2, t)"
      using 2 True stop by (simp add: convertEvent_def AnthropicEventToResponsesEvents_def anthToResHandleMessageStop_def)
    then show ?thesis using True ended_append [OF quiet complete_ended] cs by simp
  next
    case False
    then show ?thesis using convert_quiet [OF 2] stop quiet cs by auto
  qed
  qed
qed (auto split: if_splits)

text \<open>With what finishes the stream, there is one terminal event, at the end.\<close>

lemma finished_ended:
  assumes "follow plain_step es (AFresh, False, True) = Some (p, msg, tidy)" "p \<noteq> AFresh"
    and "run_stream convertEvent es (initialResponsesState now model) = (cs, st)"
  shows "ended (cs @ fst (FinalizeAnthropicResponsesStream st))"
proof -
  have sim: "responses_sim (p, msg, tidy) st (fold see_resp cs fresh_resp) (fold see_reference es [])"
    by (rule responses.sim_run [OF responses_sim_initial assms(1,3)])
  note p = assms(2)
  show ?thesis
  proof (cases "p = ADone")
    case True
    then show ?thesis using sim run_ended [OF assms(1,3)] by (simp add: FinalizeAnthropicResponsesStream_def responses_sim_def)
  next
    case False
    obtain ds st1 where "completeStream st = (ds, st1)" by fastforce
    then show ?thesis using sim p False run_ended [OF assms(1,3)] ended_append complete_ended
      by (simp add: FinalizeAnthropicResponsesStream_def responses_sim_def)
  qed
qed

section \<open>Through both converters\<close>

lemma chat_over_anthropic:
  assumes "named_events parse ls = es" "p \<noteq> AFresh" "follow plain_step es (AFresh, False, True) = Some (p, msg, tidy)"
  shows "\<exists>out usage. let v = fold see_chunk (sent_chunks out) empty_view; bs = fold see_reference es []
    in handleCCStreamingFromAnthropic connected now newID parse model includeUsage ls = (out, usage) \<and>
       cv_text v = blocks_data ''text'' bs \<and> cv_reasoning v = blocks_data ''thinking'' bs \<and>
       cv_calls v = map call_block (tool_blocks bs) \<and>
       cv_finish v = [if tool_blocks bs = [] then ''stop'' else ''tool_calls'']"
proof -
  let ?cc = "initialChatState now newID model includeUsage"
  obtain rs st where run: "run_stream convertEvent es (initialResponsesState now model) = (rs, st)" by fastforce
  obtain fs st1 where fin: "FinalizeAnthropicResponsesStream st = (fs, st1)" by fastforce
  obtain ds e r where split: "rs @ fs = ds @ [e]" "\<forall>x\<in>set ds. quiet x" "pe_Type e \<in> terminal_types" "pe_Response e = Some r"
    "pr_Status r = ''completed''"
    using finished_ended [OF assms(3,2) run] fin by (auto simp: ended_def)
  obtain xs c1 where c1: "run_stream ResponsesEventToChatChunks ds ?cc = (xs, c1)" by fastforce
  obtain ys c2 where c2: "ResponsesEventToChatChunks e c1 = (ys, c2)" by fastforce
  obtain cs cc where cc: "run_stream ResponsesEventToChatChunks rs ?cc = (cs, cc)" by fastforce
  obtain gs cc1 where gs: "run_stream ResponsesEventToChatChunks fs cc = (gs, cc1)" by fastforce
  have whole: "run_stream ResponsesEventToChatChunks (rs @ fs) ?cc = (xs @ ys, c2)"
    using c1 c2 by (simp add: split(1) run_stream_snoc)
  then have same: "cs @ gs = xs @ ys" "cc1 = c2" using cc gs by (simp_all add: run_stream_append)
  define a where "a = fold accumulate ds NewBufferedResponseAccumulator"
  define v1 where "v1 = fold see_chunk xs empty_view"
  have sim: "chat_sim () c1 v1 a"
    unfolding a_def v1_def by (rule chat.sim_run [OF chat_sim_initial _ c1]) (induction ds, simp_all add: any_event_def)
  have start: "cv_finish v1 = []" "cv_usage v1 = []" "rc_Usage c1 = None"
    using chat_quiet_run [OF split(2) c1] by (auto simp: v1_def empty_view_def initialChatState_def NewResponsesEventToChatState_def)
  note last = chat_terminal_step [OF sim split(3,4) c2 start]
  obtain usage where
    "run_stream processAnthropicEvent (feed_events (map Event es)) ((initialResponsesState now model, ?cc), zero_cu) = (cs, (st, cc), usage)"
    by (simp add: run_processAnthropicEvent run cc)
  from drive_ok [OF this, of "[DoneMark]" "\<lambda>(sts, usage). finalizeBoth sts"]
  obtain out where out: "handleCCStreamingFromAnthropic connected now newID parse model includeUsage ls = (out, usage)"
    "sent_chunks out = xs @ ys"
    using fin gs same last(1)
    by (auto simp: handleCCStreamingFromAnthropic_def assms(1) finalizeBoth_def FinalizeResponsesChatStream_def)
  have "fold accumulate (rs @ fs) NewBufferedResponseAccumulator = a"
    using split(3) by (auto simp: split(1) a_def accumulate_def terminal_types_def)
  then have "read_content a (fold see_reference es [])"
    using responses_sim_run_done [OF assms(3,2) run] fin by (simp add: responses_sim_def see_resp_acc fresh_resp_def)
  then show ?thesis
    using out last(2,4) split(5)
    by (auto simp: Let_def v1_def [symmetric] chat_sim_def read_content_def responsesStatusToChatFinishReason_def)
qed

lemma streamed_usage:
  "snd (handleCCStreamingFromAnthropic connected now newID parse model includeUsage ls) =
     fold (\<lambda>ei. eventUsage (fst ei)) (named_events parse ls) zero_cu"
proof -
  obtain cs sts where "run_stream processAnthropicEvent (feed_events (map Event (named_events parse ls)))
      ((initialResponsesState now model, initialChatState now newID model includeUsage), zero_cu) =
      (cs, sts, fold (\<lambda>ei. eventUsage (fst ei)) (named_events parse ls) zero_cu)"
    by (fastforce simp: run_processAnthropicEvent split: prod.split)
  from drive_ok [OF this, of "[DoneMark]" "\<lambda>(sts, usage). finalizeBoth sts"] show ?thesis
    by (auto simp: handleCCStreamingFromAnthropic_def)
qed

section \<open>A stream as Anthropic sends it\<close>

text \<open>A text with a ping and a tool call that starts with the empty object, as the API documents it; stopped at the token limit.\<close>

definition use_start :: AnthropicContentBlock where
  "use_start = zero_ab\<lparr>ab_Type := ''tool_use'', ab_ID := ''toolu_1'', ab_Name := ''weather'', ab_Input := ''{}''\<rparr>"

definition anthropic_stream :: "AnthropicStreamEvent list" where
  "anthropic_stream =
     [zero_ae\<lparr>ae_Type := ''message_start'', ae_Message := Some (zero_ar\<lparr>ar_ID := ''msg_1'',
        ar_Usage := zero_au\<lparr>au_InputTokens := 9, au_CacheReadInputTokens := 4\<rparr>\<rparr>)\<rparr>,
      blockStart 0 (zero_ab\<lparr>ab_Type := ''text''\<rparr>),
      zero_ae\<lparr>ae_Type := ''ping''\<rparr>,
      blockDelta 0 (zero_ad\<lparr>ad_Type := ''text_delta'', ad_Text := ''Hi''\<rparr>),
      blockStop 0,
      blockStart 1 use_start,
      blockDelta 1 (zero_ad\<lparr>ad_Type := ''input_json_delta'', ad_PartialJSON := ''[1]''\<rparr>),
      blockStop 1,
      zero_ae\<lparr>ae_Type := ''message_delta'', ae_Delta := Some (zero_ad\<lparr>ad_StopReason := ''max_tokens''\<rparr>),
        ae_Usage := Some (zero_au\<lparr>au_OutputTokens := 3\<rparr>)\<rparr>,
      zero_ae\<lparr>ae_Type := ''message_stop''\<rparr>]"

definition anthropic_lines :: "gostr list" where
  "anthropic_lines = concat (map (\<lambda>c. [''event: e'', ''data: '' @ [c], '''']) ''0123456789'')"

definition anthropic_event :: "gostr \<Rightarrow> (AnthropicStreamEvent \<times> gostr) option" where
  "anthropic_event p = (case parse_int p of None \<Rightarrow> None | Some i \<Rightarrow> Some (anthropic_stream ! nat i, ''item''))"

abbreviation sample_pairs :: "(AnthropicStreamEvent \<times> gostr) list" where
  "sample_pairs \<equiv> map (\<lambda>e. (e, ''item'')) anthropic_stream"

lemma anthropic_lines_events: "named_events anthropic_event anthropic_lines = sample_pairs"
  by (simp add: anthropic_lines_def anthropic_event_def has_prefix_def parse_int_def is_digit_def digit_val_def dec_value_def
      anthropic_stream_def)

lemma anthropic_stream_ok:
  "ADone \<noteq> AFresh" "follow plain_step sample_pairs (AFresh, False, True) = Some (ADone, False, True)"
  by (simp_all add: anthropic_stream_def plain_step_def anth_upstream_step_def side_delta_def stream_types_def data_deltas_def anth_step_def block_effect_def blockStart_def blockDelta_def blockStop_def
      delta_fits_def zero_ae_def zero_ab_def zero_ad_def zero_ar_def use_start_def)

section \<open>Properties\<close>





section \<open>Where the promise ends\<close>

text \<open>
  Thinking that starts after a text does not end the open message item: the next item is added under
  the same index, and the message is never completed.
\<close>

definition text_then_thinking :: "AnthropicStreamEvent list" where
  "text_then_thinking =
     [zero_ae\<lparr>ae_Type := ''message_start'', ae_Message := Some zero_ar\<rparr>,
      blockStart 0 (zero_ab\<lparr>ab_Type := ''text''\<rparr>), blockStop 0,
      blockStart 1 (zero_ab\<lparr>ab_Type := ''thinking''\<rparr>)]"

lemma thinking_overwrites_message:
  "map (\<lambda>e. (pe_Type e, pe_OutputIndex e)) (fst (run_stream convertEvent (map (\<lambda>e. (e, ''item'')) text_then_thinking)
       (initialResponsesState 0 ''m''))) =
     [(''response.created'', 0), (''response.output_item.added'', 0), (''response.output_text.done'', 0),
      (''response.output_item.added'', 0)]"
  "rv_phase (fold see_resp (fst (run_stream convertEvent (map (\<lambda>e. (e, ''item'')) text_then_thinking)
       (initialResponsesState 0 ''m''))) fresh_resp) = None"
  by (simp_all add: text_then_thinking_def blockStart_def blockStop_def zero_ae_def zero_ar_def zero_au_def zero_ab_def
      convertEvent_def AnthropicEventToResponsesEvents_def anthToResHandleMessageStart_def makeResponsesCreatedEvent_def numbered_def
      anthToResHandleContentBlockStart_def openItem_def makeResponsesEvent_def anthToResHandleContentBlockStop_def
      initialResponsesState_def NewAnthropicEventToResponsesState_def zero_pe_def zero_po_def fresh_resp_def see_resp_def resp_step_def
      item_step_def content_types_def terminal_types_def)

end
