(* ===== verification/Anthropic_Buffered.thy ===== *)
theory Anthropic_Buffered
  imports Anthropic_Forward_Safety
begin

text \<open>
  The buffered Chat Completions path over an Anthropic upstream, compared with the streaming one: what
  the two answers share, and where they part.
\<close>

section \<open>What the buffered path collects\<close>

definition fresh_start :: "AnthropicStreamEvent \<Rightarrow> bool" where
  "fresh_start e \<longleftrightarrow>
     (\<forall>b. ae_Type e = ''content_block_start'' \<longrightarrow> ae_ContentBlock e = Some b \<longrightarrow> ab_Text b = '''' \<and> ab_Thinking b = '''') \<and>
     (\<forall>m. ae_Type e = ''message_start'' \<longrightarrow> ae_Message e = Some m \<longrightarrow> ar_Content m = [])"

text \<open>The inputs with which the tool calls of a stream start.\<close>

definition start_input :: "AnthropicStreamEvent \<Rightarrow> RawMessage list" where
  "start_input e =
     (case ae_ContentBlock e of
        None \<Rightarrow> []
      | Some b \<Rightarrow> if ae_Type e = ''content_block_start'' \<and> ab_Type b = ''tool_use'' then [ab_Input b] else [])"

definition tool_inputs :: "(AnthropicStreamEvent \<times> gostr) list \<Rightarrow> RawMessage list" where
  "tool_inputs es = concat (map (start_input \<circ> fst) es)"

definition same_block :: "AnthropicContentBlock \<Rightarrow> block_view \<Rightarrow> bool" where
  "same_block c b \<longleftrightarrow> ab_Type c = bv_Type b \<and> ab_ID c = bv_ID b \<and> ab_Name c = bv_Name b \<and>
     (bv_Type b = ''text'' \<longrightarrow> ab_Text c = bv_Data b) \<and> (bv_Type b = ''thinking'' \<longrightarrow> ab_Thinking c = bv_Data b)"

definition tool_uses :: "AnthropicContentBlock list \<Rightarrow> AnthropicContentBlock list" where
  "tool_uses cs = filter (\<lambda>c. ab_Type c = ''tool_use'') cs"

definition built :: "AnthropicContentBlock list \<Rightarrow> block_view list \<Rightarrow> RawMessage list \<Rightarrow> bool" where
  "built cs bs ins \<longleftrightarrow> list_all2 same_block cs bs \<and> length ins = length (tool_blocks bs) \<and>
     map ab_Input (tool_uses cs) = map2 (@) ins (map bv_Data (tool_blocks bs))"

lemma tool_uses_simps [simp]:
  "tool_uses [] = []" "tool_uses (c # cs) = (if ab_Type c = ''tool_use'' then [c] else []) @ tool_uses cs"
  "tool_uses (cs @ ds) = tool_uses cs @ tool_uses ds"
  by (simp_all add: tool_uses_def)

lemma same_block_tools: "list_all2 same_block cs bs \<Longrightarrow> length (tool_uses cs) = length (tool_blocks bs)"
  by (induction rule: list_all2_induct) (auto simp: same_block_def)

lemma built_start:
  assumes "built cs bs ins" "ab_Text b = ''''" "ab_Thinking b = ''''"
  shows "built (cs @ [b]) (bs @ [\<lparr>bv_Type = ab_Type b, bv_ID = ab_ID b, bv_Name = ab_Name b, bv_Data = ''''\<rparr>])
    (ins @ (if ab_Type b = ''tool_use'' then [ab_Input b] else []))"
  using assms by (auto simp: built_def same_block_def list_all2_appendI)

lemma built_delta:
  assumes "built cs (bs @ [b]) ins" "delta_fits (bv_Type b) (ad_Type d)"
  shows "int (length bs) < int (length cs) \<and>
    built (cs[length bs := growBlock d (cs ! length bs)]) (bs @ [b\<lparr>bv_Data := bv_Data b @ delta_data d\<rparr>]) ins"
proof -
  obtain cs1 c where cs: "cs = cs1 @ [c]" "list_all2 same_block cs1 bs" "same_block c b"
    using assms(1) by (auto simp: built_def list_all2_append2 list_all2_Cons2)
  then have len: "length cs1 = length bs" "length (tool_uses cs1) = length (tool_blocks bs)"
    by (simp_all add: list_all2_lengthD same_block_tools)
  show ?thesis
  proof (cases "bv_Type b = ''tool_use''")
    case True
    then obtain i ins1 where ins: "ins = ins1 @ [i]" "length ins1 = length (tool_blocks bs)"
      using assms(1) by (cases ins rule: rev_cases) (auto simp: built_def)
    have d: "ad_Type d = ''input_json_delta''" using assms(2) True by (simp add: delta_fits_def)
    show ?thesis
      using assms(1) cs len True ins d
      by (auto simp: built_def growBlock_def same_block_def delta_data_def appendRawJSON_def nth_append list_update_append list_all2_appendI)
  next
    case False
    then have d: "ad_Type d \<in> {''text_delta'', ''thinking_delta'', ''signature_delta''}"
      "ad_Type d = ''text_delta'' \<longrightarrow> bv_Type b = ''text''" "ad_Type d = ''thinking_delta'' \<longrightarrow> bv_Type b = ''thinking''"
      "ad_Type d = ''signature_delta'' \<longrightarrow> bv_Type b = ''thinking''"
      using assms(2) by (auto simp: delta_fits_def)
    then show ?thesis
      using assms(1) cs len False
      by (auto simp: built_def growBlock_def same_block_def delta_data_def nth_append list_update_append list_all2_appendI)
  qed
qed

definition collected :: "(AnthropicStreamEvent \<times> gostr) list \<Rightarrow> AnthropicResponse option \<times> ClaudeUsage" where
  "collected es = fold (\<lambda>ei. collectEvent (fst ei)) es (None, zero_cu)"

lemma collected_snoc: "collected (es @ [e]) = collectEvent (fst e) (collected es)"
  by (simp add: collected_def)

lemma collectEvent_later:
  "ae_Type evt \<noteq> ''message_start'' \<Longrightarrow>
     \<exists>r. fst (collectEvent evt (Some m, usage)) = Some (m\<lparr>ar_StopReason := r, ar_Content := growContent evt (ar_Content m)\<rparr>)"
  by (auto simp: collectEvent_def)

lemma tool_inputs_snoc [simp]: "tool_inputs (es @ [e]) = tool_inputs es @ start_input (fst e)"
  by (simp add: tool_inputs_def)

text \<open>What carries nothing for the message leaves it as it is.\<close>

lemma side_content:
  assumes "ae_Type evt \<notin> stream_types \<or> side_delta evt q"
  shows "growContent evt bs = bs" "start_input evt = []" "ae_Type evt \<noteq> ''message_start''"
    "q \<noteq> AFresh \<or> ae_Type evt \<notin> stream_types"
proof -
  have "growBlock d c = c" if "ad_Type d \<notin> data_deltas" for d c
    using that by (simp add: growBlock_def data_deltas_def)
  then show "growContent evt bs = bs"
    using assms by (auto simp: growContent_def side_delta_def stream_types_def split: option.split anth_phase.splits option.splits)
  show "start_input evt = []" "ae_Type evt \<noteq> ''message_start''" "q \<noteq> AFresh \<or> ae_Type evt \<notin> stream_types"
    using assms by (auto simp: start_input_def side_delta_def stream_types_def split: option.splits anth_phase.splits)
qed

lemma side_reference:
  assumes "plain_step (evt, i) (q, msg, tidy) = Some ph" "ae_Type evt \<notin> stream_types \<or> side_delta evt q"
    and "responses_sim (q, msg, tidy) st v bs"
  shows "see_block evt bs = bs"
proof (cases "side_delta evt q")
  case True
  then show ?thesis
  proof (cases q)
    case (AIn n t)
    then obtain d ds b where "ae_Delta evt = Some d" "ae_Type evt = ''content_block_delta''" "ae_Index evt = Some n"
        "ad_Type d \<notin> data_deltas" "bs = ds @ [b]" "n = int (length ds)"
      using True assms(3) by (auto simp: side_delta_def responses_sim_def blocks_ok_def split: option.splits)
    then show ?thesis by (simp add: see_block_def delta_data_def data_deltas_def)
  qed (auto simp: side_delta_def see_block_def split: option.splits)
next
  case False
  then show ?thesis using assms(2) by (auto simp: stream_types_def see_block_def)
qed

lemma not_started:
  assumes "follow plain_step es (AFresh, False, True) = Some (AFresh, f)"
  shows "\<forall>e\<in>set es. ae_Type (fst e) \<notin> stream_types" "f = (False, True)"
proof -
  have "(\<forall>e\<in>set es. ae_Type (fst e) \<notin> stream_types) \<and> f = (False, True)"
    using assms
  proof (induction es arbitrary: f rule: rev_induct)
    case (snoc e es)
    obtain q g where q: "follow plain_step es (AFresh, False, True) = Some (q, g)" "plain_step e (q, g) = Some (AFresh, f)"
      using snoc.prems by (fastforce simp: follow_append split: option.splits)
    then have "q = AFresh" "ae_Type (fst e) \<notin> stream_types" "f = g"
      by (cases g; cases q; auto simp: plain_step_def anth_upstream_step_def anth_step_def side_delta_def stream_types_def
        split: if_splits option.splits)+
    then show ?case using snoc.IH [of g] q(1) by simp
  qed simp
  then show "\<forall>e\<in>set es. ae_Type (fst e) \<notin> stream_types" "f = (False, True)" by simp_all
qed

lemma not_started_collects:
  "\<forall>e\<in>set es. ae_Type (fst e) \<notin> stream_types \<Longrightarrow>
     collected es = (None, zero_cu) \<and> fold see_reference es bs = bs \<and> tool_inputs es = []"
  by (induction es arbitrary: bs rule: rev_induct)
    (auto simp: collected_snoc collectEvent_def eventUsage_def see_reference_def see_block_def stream_types_def start_input_def
      collected_def tool_inputs_def split: option.split)

lemma collected_built:
  assumes "follow plain_step es (AFresh, False, True) = Some (p, f)" "p \<noteq> AFresh" "\<forall>e\<in>set es. fresh_start (fst e)"
  shows "\<exists>m. fst (collected es) = Some m \<and> built (ar_Content m) (fold see_reference es []) (tool_inputs es)"
  using assms
proof (induction es arbitrary: p f rule: rev_induct)
  case (snoc e es)
  obtain q g where q: "follow plain_step es (AFresh, False, True) = Some (q, g)" "plain_step e (q, g) = Some (p, f)"
    using snoc.prems(1) by (fastforce simp: follow_append split: option.splits)
  obtain evt i where e: "e = (evt, i)" by fastforce
  have up: "anth_upstream_step evt q = Some p" using q(2) by (cases g) (auto simp: plain_step_def e)
  have fresh: "fresh_start evt" using snoc.prems(3) e by simp
  have ref: "fold see_reference (es @ [e]) [] = see_block evt (fold see_reference es [])" by (simp add: see_reference_def e)
  obtain u v where cu: "collected es = (u, v)" by fastforce
  have col: "fst (collected (es @ [e])) = fst (collectEvent evt (u, v))" by (simp add: collected_snoc cu e)
  show ?case
  proof (cases "q = AFresh")
    case True
    have none: "collected es = (None, zero_cu)" "fold see_reference es [] = []" "tool_inputs es = []"
      using not_started_collects not_started(1) q(1) True by blast+
    have "\<not> (ae_Type evt \<notin> stream_types \<or> side_delta evt q)"
      using up snoc.prems(2) True by (auto simp: anth_upstream_step_def split: if_splits)
    then have "anth_step evt q = Some p" using up by (simp add: anth_upstream_step_def)
    then obtain m where "ae_Type evt = ''message_start''" "ae_Message evt = Some m"
      using True by (auto simp: anth_step_def split: if_splits)
    then show ?thesis using fresh unfolding ref none(2)
      by (auto simp: collected_snoc none collectEvent_def e fresh_start_def built_def start_input_def see_block_def
        split: option.splits)
  next
    case False
    obtain m where m: "u = Some m" "built (ar_Content m) (fold see_reference es []) (tool_inputs es)"
      using snoc.IH [OF q(1) False] snoc.prems(3) cu by auto
    obtain cs st where run: "run_stream convertEvent es (initialResponsesState 0 '''') = (cs, st)" by fastforce
    obtain msg tidy where g: "g = (msg, tidy)" by fastforce
    have sim: "responses_sim (q, msg, tidy) st (fold see_resp cs fresh_resp) (fold see_reference es [])"
      using responses.sim_run [OF responses_sim_initial q(1) run] g by simp
    have goal: ?thesis if later: "ae_Type evt \<noteq> ''message_start''" and "built (growContent evt (ar_Content m)) (see_block evt (fold see_reference es [])) (tool_inputs es @ start_input evt)"
      using that(2) collectEvent_later [OF later, of m v] col m(1) ref by (auto simp: e)
    show ?thesis
    proof (cases "ae_Type evt \<notin> stream_types \<or> side_delta evt q")
      case True
      have "see_block evt (fold see_reference es []) = fold see_reference es []"
        using side_reference [OF q(2) [unfolded e g] True sim] .
      then show ?thesis using side_content [OF True] m(2) by (intro goal) simp_all
    next
      case real: False
      then have step: "anth_step evt q = Some p" using up by (simp add: anth_upstream_step_def)
      have later: "ae_Type evt \<noteq> ''message_start''" using step False by (cases q) (auto simp: anth_step_def split: if_splits)
      show ?thesis
      proof (cases "ae_Type evt = ''content_block_delta''")
        case delta: True
        then obtain n t d where d: "q = AIn n t" "ae_Index evt = Some n" "ae_Delta evt = Some d" "delta_fits t (ad_Type d)"
          using step by (cases q) (auto simp: anth_step_def split: if_splits)
        obtain ds b where b: "fold see_reference es [] = ds @ [b]" "bv_Type b = t" "n = int (length ds)"
          using sim d(1) by (auto simp: responses_sim_def blocks_ok_def)
        have bd: "int (length ds) < int (length (ar_Content m)) \<and>
            built ((ar_Content m)[length ds := growBlock d (ar_Content m ! length ds)]) (ds @ [b\<lparr>bv_Data := bv_Data b @ delta_data d\<rparr>]) (tool_inputs es)"
          using built_delta [of "ar_Content m" ds b "tool_inputs es" d] m(2) b d(4) by simp
        have "start_input evt = []" using delta by (simp add: start_input_def split: option.split)
        then show ?thesis using bd b d delta by (intro goal [OF later]) (simp add: see_block_def growContent_def)
      next
        case other: False
        show ?thesis
        proof (cases "ae_Type evt = ''content_block_start''")
          case True
          then obtain b where b: "ae_ContentBlock evt = Some b" using step by (cases q) (auto simp: anth_step_def split: if_splits)
          then have "ab_Text b = ''''" "ab_Thinking b = ''''" using fresh True by (auto simp: fresh_start_def)
          from built_start [OF m(2) this] show ?thesis
            using b True by (intro goal [OF later]) (simp add: see_block_def growContent_def start_input_def)
        next
          case False
          then have "start_input evt = []" by (simp add: start_input_def split: option.split)
          then show ?thesis using m(2) False other
            by (intro goal [OF later]) (simp add: see_block_def growContent_def)
        qed
      qed
    qed
  qed
qed simp


section \<open>From the message to the answer\<close>

definition texts :: "gostr \<Rightarrow> (AnthropicContentBlock \<Rightarrow> gostr) \<Rightarrow> AnthropicContentBlock list \<Rightarrow> gostr" where
  "texts t field cs = concat (map field (filter (\<lambda>c. ab_Type c = t) cs))"

definition use_call :: "AnthropicContentBlock \<Rightarrow> ChatToolCall" where
  "use_call c = \<lparr>htc_Index = None, htc_ID = toResponsesCallID (ab_ID c), htc_Type = ''function'',
     htc_Function = \<lparr>hfc_Name = ab_Name c, hfc_Arguments = (if ab_Input c \<noteq> [] then ab_Input c else ''{}'')\<rparr>\<rparr>"

lemma texts_Cons [simp]: "texts t f (c # cs) = (if ab_Type c = t then f c else []) @ texts t f cs"
  by (simp add: texts_def)

lemma texts_Nil [simp]: "texts t f [] = []"
  by (simp add: texts_def)

definition thinkingItem :: "gostr \<Rightarrow> AnthropicContentBlock \<Rightarrow> ResponsesOutput" where
  "thinkingItem i b = zero_po\<lparr>po_Type := ''reasoning'', po_ID := i,
     po_Summary := [\<lparr>psm_Type = ''summary_text'', psm_Text = ab_Thinking b\<rparr>]\<rparr>"

definition useItem :: "gostr \<Rightarrow> AnthropicContentBlock \<Rightarrow> ResponsesOutput" where
  "useItem i b = zero_po\<lparr>po_Type := ''function_call'', po_ID := i, po_CallID := toResponsesCallID (ab_ID b), po_Name := ab_Name b,
     po_Arguments := (if ab_Input b \<noteq> [] then ab_Input b else ''{}''), po_Status := ''completed''\<rparr>"

lemma convertBlock_cases:
  "ab_Type c = ''thinking'' \<Longrightarrow> convertBlock ids c (o1, ps) = (if ab_Thinking c = '''' then o1 else o1 @ [thinkingItem (ids (length o1)) c], ps)"
  "ab_Type c = ''text'' \<Longrightarrow> convertBlock ids c (o1, ps) = (o1, if ab_Text c = '''' then ps else ps @ [textPart (ab_Text c)])"
  "ab_Type c = ''tool_use'' \<Longrightarrow> convertBlock ids c (o1, ps) = (o1 @ [useItem (ids (length o1)) c], ps)"
  "ab_Type c \<notin> {''thinking'', ''text'', ''tool_use''} \<Longrightarrow> convertBlock ids c (o1, ps) = (o1, ps)"
  by (simp_all add: convertBlock_def thinkingItem_def useItem_def)

lemma collect_items:
  "ab_Thinking b \<noteq> '''' \<Longrightarrow> collectItem (thinkingItem i b) (c, r, t) = (c, r @ ab_Thinking b, t)"
  "collectItem (useItem i b) (c, r, t) = (c, r, t @ [use_call b])"
  by (simp_all add: collectItem_def thinkingItem_def useItem_def zero_po_def summary_text_def toolCallOf_def use_call_def)

lemma output_text_part: "output_text (ps @ [textPart s]) = output_text ps @ s"
  by (simp add: output_text_def textPart_def zero_pp_def)

lemma convertBlock_collect:
  assumes "fold (convertBlock ids) cs (outs, parts) = (outs1, parts1)"
    and "fold collectItem outs z = ('''', r, tcs)"
  shows "fold collectItem outs1 z = ('''', r @ texts ''thinking'' ab_Thinking cs, tcs @ map use_call (tool_uses cs)) \<and>
    output_text parts1 = output_text parts @ texts ''text'' ab_Text cs"
  using assms
proof (induction cs arbitrary: outs parts r tcs)
  case (Cons c cs)
  consider (thinking) "ab_Type c = ''thinking''" | (words) "ab_Type c = ''text''" | (tool) "ab_Type c = ''tool_use''"
    | (other) "ab_Type c \<notin> {''thinking'', ''text'', ''tool_use''}" by blast
  then show ?case
  proof cases
    case thinking
    then show ?thesis
      using Cons.prems Cons.IH [of "if ab_Thinking c = '''' then outs else outs @ [thinkingItem (ids (length outs)) c]" parts
          "r @ ab_Thinking c" tcs]
      by (simp add: convertBlock_cases(1) collect_items split: if_splits)
  next
    case words
    then show ?thesis
      using Cons.prems Cons.IH [of outs "if ab_Text c = '''' then parts else parts @ [textPart (ab_Text c)]" r tcs]
      by (simp add: convertBlock_cases(2) output_text_part split: if_splits)
  next
    case tool
    then show ?thesis
      using Cons.prems Cons.IH [of "outs @ [useItem (ids (length outs)) c]" parts r "tcs @ [use_call c]"]
      by (simp add: convertBlock_cases(3) collect_items)
  next
    case other
    then show ?thesis using Cons.prems Cons.IH [of outs parts r tcs] by (simp add: convertBlock_cases(4))
  qed
qed simp

lemma collect_message: "collectItem (messageItem i parts) (c, r, t) = (c @ output_text parts, r, t)"
  by (simp add: collectItem_def messageItem_def zero_po_def)

lemma collect_response:
  "fold collectItem (pr_Output (AnthropicToResponsesResponse newID ids m)) ('''', '''', []) =
     (texts ''text'' ab_Text (ar_Content m), texts ''thinking'' ab_Thinking (ar_Content m), map use_call (tool_uses (ar_Content m)))"
proof -
  obtain outs parts where f: "fold (convertBlock ids) (ar_Content m) ([], []) = (outs, parts)" by fastforce
  have nil: "output_text [] = ''''" "output_text [textPart ''''] = ''''"
    by (simp_all add: output_text_def textPart_def zero_pp_def)
  have c: "fold collectItem outs ('''', '''', []) = ('''', texts ''thinking'' ab_Thinking (ar_Content m), map use_call (tool_uses (ar_Content m)))"
    "output_text parts = texts ''text'' ab_Text (ar_Content m)"
    using convertBlock_collect [OF f, of "('''', '''', [])" "''''" "[]"] nil by simp_all
  let ?outs = "if parts \<noteq> [] then outs @ [messageItem (ids (length outs)) parts] else outs"
  have o: "fold collectItem ?outs ('''', '''', []) =
      (texts ''text'' ab_Text (ar_Content m), texts ''thinking'' ab_Thinking (ar_Content m), map use_call (tool_uses (ar_Content m)))"
    using c nil by (cases "parts = []") (simp_all add: collect_message)
  have "pr_Output (AnthropicToResponsesResponse newID ids m) = (if ?outs = [] then [messageItem (ids 0) [textPart '''']] else ?outs)"
    by (simp add: AnthropicToResponsesResponse_def f Let_def)
  then show ?thesis using o nil by (cases "?outs = []") (simp_all only: if_True if_False fold_simps collect_message append_Nil2 append_Nil, auto simp: collect_message)
qed

text \<open>The arguments of a call in the buffered answer: the input that its block started with, then the pieces.\<close>

definition with_input :: "RawMessage \<Rightarrow> bufferedFuncCall \<Rightarrow> ChatToolCall" where
  "with_input i f = call_of (f\<lparr>bf_Args := (if i @ bf_Args f \<noteq> [] then i @ bf_Args f else ''{}'')\<rparr>)"

lemma built_texts:
  "list_all2 same_block cs bs \<Longrightarrow> texts ''text'' ab_Text cs = blocks_data ''text'' bs \<and> texts ''thinking'' ab_Thinking cs = blocks_data ''thinking'' bs"
  by (induction rule: list_all2_induct) (auto simp: same_block_def)

lemma same_block_calls:
  "list_all2 same_block cs bs \<Longrightarrow> list_all2 (\<lambda>c b. ab_ID c = bv_ID b \<and> ab_Name c = bv_Name b) (tool_uses cs) (tool_blocks bs)"
  by (induction rule: list_all2_induct) (auto simp: same_block_def)

lemma built_calls:
  assumes "built cs bs ins"
  shows "map use_call (tool_uses cs) = map2 with_input ins (map call_block (tool_blocks bs))"
proof (rule nth_equalityI)
  have l2: "list_all2 (\<lambda>c b. ab_ID c = bv_ID b \<and> ab_Name c = bv_Name b) (tool_uses cs) (tool_blocks bs)"
    and len: "length ins = length (tool_blocks bs)" and inp: "map ab_Input (tool_uses cs) = map2 (@) ins (map bv_Data (tool_blocks bs))"
    using assms same_block_calls by (auto simp: built_def)
  have ul: "length (tool_uses cs) = length (tool_blocks bs)" using l2 by (rule list_all2_lengthD)
  show "length (map use_call (tool_uses cs)) = length (map2 with_input ins (map call_block (tool_blocks bs)))"
    using ul len by simp
  fix i assume "i < length (map use_call (tool_uses cs))"
  then have i: "i < length (tool_uses cs)" by simp
  have "ab_Input (tool_uses cs ! i) = ins ! i @ bv_Data (tool_blocks bs ! i)"
    using arg_cong [OF inp, of "\<lambda>xs. xs ! i"] i ul len by simp
  then show "map use_call (tool_uses cs) ! i = map2 with_input ins (map call_block (tool_blocks bs)) ! i"
    using list_all2_nthD [OF l2 i] i ul len by (simp add: use_call_def with_input_def call_of_def call_block_def)
qed

lemma response_status:
  "pr_Status (AnthropicToResponsesResponse newID ids m) = anthropicStopReasonToResponsesStatus (ar_StopReason m)"
  "pr_IncompleteDetails (AnthropicToResponsesResponse newID ids m) =
     (if anthropicStopReasonToResponsesStatus (ar_StopReason m) = ''incomplete'' then Some \<lparr>pid_Reason = ''max_output_tokens''\<rparr> else None)"
  by (simp_all add: AnthropicToResponsesResponse_def Let_def split: prod.split)

section \<open>Properties\<close>

text \<open>
  C17. Take a stream that keeps the documented Anthropic protocol (\<open>plain_step\<close>: pings and unknown events
  anywhere, other blocks without content of their own), whose message starts empty and whose blocks
  start without text, and which breaks off anywhere after its message has started.  Both Chat Completions
  answers have the same text and reasoning, bill the same usage and name the same calls; the buffered
  arguments of a call are the input that its block started with, followed by the streamed arguments, and
  the buffered finish reason is \<open>length\<close> if the upstream stopped at its token limit, which the stream
  does not tell, and that of the stream otherwise.
\<close>

theorem buffered_chat_over_anthropic:
  assumes "named_events parse ls = es" "p \<noteq> AFresh" "follow plain_step es (AFresh, False, True) = Some (p, msg, tidy)"
    and "\<forall>e\<in>set es. fresh_start (fst e)"
  shows "\<exists>out usage resp m. let v = fold see_chunk (sent_chunks out) empty_view
    in handleCCStreamingFromAnthropic connected now newID parse model includeUsage ls = (out, usage) \<and>
       handleCCBufferedFromAnthropic now newID chatID ids parse model ls = Inr (resp, usage) \<and>
       fst (collected es) = Some m \<and>
       hr_Choices resp =
         [\<lparr>hch_Index = 0,
           hch_Message = (view_message v)\<lparr>hm_ToolCalls := map2 with_input (tool_inputs es) (cv_calls v)\<rparr>,
           hch_FinishReason = (if ar_StopReason m = ''max_tokens'' then ''length'' else hd (cv_finish v))\<rparr>]"
proof -
  let ?bs = "fold see_reference es []"
  obtain out usage where out: "handleCCStreamingFromAnthropic connected now newID parse model includeUsage ls = (out, usage)"
    and v: "cv_text (fold see_chunk (sent_chunks out) empty_view) = blocks_data ''text'' ?bs"
      "cv_reasoning (fold see_chunk (sent_chunks out) empty_view) = blocks_data ''thinking'' ?bs"
      "cv_calls (fold see_chunk (sent_chunks out) empty_view) = map call_block (tool_blocks ?bs)"
      "cv_finish (fold see_chunk (sent_chunks out) empty_view) = [if tool_blocks ?bs = [] then ''stop'' else ''tool_calls'']"
    using chat_over_anthropic [OF assms(1,2,3), of now newID model includeUsage] by (auto simp: Let_def)
  have u: "usage = fold (\<lambda>ei. eventUsage (fst ei)) es zero_cu"
    using streamed_usage [of now newID parse model includeUsage ls] out assms(1) by simp
  obtain m where m: "fst (collected es) = Some m" and b: "built (ar_Content m) ?bs (tool_inputs es)"
    using collected_built [OF assms(3,2,4)] by blast
  have "collected es = (Some m, usage)"
    using m collect_usage [of es None zero_cu] u by (cases "collected es") (simp add: collected_def)
  then have buf: "handleCCBufferedFromAnthropic now newID chatID ids parse model ls =
      Inr (ResponsesToChatCompletions now chatID (AnthropicToResponsesResponse newID ids (withUsage usage m)) model, usage)"
    by (simp add: handleCCBufferedFromAnthropic_def collectStream_def assms(1) collected_def)
  have kept: "ar_Content (withUsage usage m) = ar_Content m" "ar_StopReason (withUsage usage m) = ar_StopReason m"
    by (simp_all add: withUsage_def)
  have tx: "texts ''text'' ab_Text (ar_Content m) = blocks_data ''text'' ?bs"
    "texts ''thinking'' ab_Thinking (ar_Content m) = blocks_data ''thinking'' ?bs"
    using built_texts b by (auto simp: built_def)
  have none: "map use_call (tool_uses (ar_Content m)) = [] \<longleftrightarrow> tool_blocks ?bs = []"
    using same_block_tools b by (metis built_def length_0_conv map_is_Nil_conv)
  show ?thesis
    unfolding Let_def
    by (rule exI [where x = out], rule exI [where x = usage],
        rule exI [where x = "ResponsesToChatCompletions now chatID (AnthropicToResponsesResponse newID ids (withUsage usage m)) model"],
        rule exI [where x = m])
      (use out v buf m none in \<open>simp add: ResponsesToChatCompletions_def collect_response kept tx built_calls [OF b, symmetric]
         view_message_def responsesStatusToChatFinishReason_def response_status anthropicStopReasonToResponsesStatus_def\<close>)
qed


lemma anthropic_stream_fresh: "\<forall>e\<in>set sample_pairs. fresh_start (fst e)"
  by (simp add: anthropic_stream_def blockStart_def blockDelta_def blockStop_def zero_ae_def zero_ab_def zero_ar_def use_start_def
      fresh_start_def)

lemma buffered_chat_over_anthropic_witness:
  "\<exists>out usage resp m. let v = fold see_chunk (sent_chunks out) empty_view
    in handleCCStreamingFromAnthropic connected 7 ''id'' anthropic_event ''m'' True anthropic_lines = (out, usage) \<and>
       handleCCBufferedFromAnthropic 7 ''id'' ''chat'' (\<lambda>n. ''item'') anthropic_event ''m'' anthropic_lines = Inr (resp, usage) \<and>
       fst (collected sample_pairs) = Some m \<and>
       hr_Choices resp =
         [\<lparr>hch_Index = 0,
           hch_Message = (view_message v)\<lparr>hm_ToolCalls := map2 with_input (tool_inputs sample_pairs) (cv_calls v)\<rparr>,
           hch_FinishReason = (if ar_StopReason m = ''max_tokens'' then ''length'' else hd (cv_finish v))\<rparr>]"
  by (rule buffered_chat_over_anthropic [OF anthropic_lines_events anthropic_stream_ok anthropic_stream_fresh])

section \<open>Where the paths differ\<close>

text \<open>
  The sample stream is one that Anthropic sends: the tool call starts with the empty object, and its
  arguments come in pieces.  The buffered answer puts the two together.
\<close>

lemma buffered_arguments_corrupted:
  "map2 with_input (tool_inputs sample_pairs) (map call_block (tool_blocks (fold see_reference sample_pairs []))) =
     [\<lparr>htc_Index = None, htc_ID = ''fc_toolu_1'', htc_Type = ''function'',
       htc_Function = \<lparr>hfc_Name = ''weather'', hfc_Arguments = ''{}[1]''\<rparr>\<rparr>]"
  "map call_block (tool_blocks (fold see_reference sample_pairs [])) =
     [\<lparr>bf_CallID = ''fc_toolu_1'', bf_Name = ''weather'', bf_Args = ''[1]''\<rparr>]"
  by (simp_all add: anthropic_stream_def see_reference_def see_block_def blockStart_def blockDelta_def blockStop_def zero_ae_def
      zero_ab_def zero_ad_def use_start_def tool_inputs_def start_input_def with_input_def call_of_def call_block_def
      toResponsesCallID_def has_prefix_def add_data_def delta_data_def)

text \<open>The stream never says that an answer is incomplete: its terminal event has the status \<open>completed\<close>.\<close>

lemma truncation_not_streamed:
  assumes "follow plain_step es (AFresh, False, True) = Some (p, msg, tidy)" "p \<noteq> AFresh"
    and "run_stream convertEvent es (initialResponsesState now model) = (cs, st)"
  shows "ended (cs @ fst (FinalizeAnthropicResponsesStream st))"
    "map_option ar_StopReason (fst (collected sample_pairs)) = Some ''max_tokens''"
  using finished_ended [OF assms]
  by (simp_all add: collected_def collectEvent_def anthropic_stream_def blockStart_def blockDelta_def blockStop_def zero_ae_def zero_ad_def)

text \<open>The tokens read from the cache, which Anthropic reports at the start, are billed but not streamed to the client.\<close>

lemma cached_tokens_not_streamed:
  "cu_CacheReadInputTokens (snd (collected sample_pairs)) = 4"
  "ars_CacheReadInputTokens (snd (run_stream convertEvent sample_pairs (initialResponsesState 0 ''m''))) = 0"
  by (simp_all add: collected_def collectEvent_def eventUsage_def mergeAnthropicUsage_def anthropic_stream_def blockStart_def
      blockDelta_def blockStop_def zero_ae_def zero_ar_def zero_au_def zero_cu_def zero_ad_def zero_ab_def use_start_def
      convertEvent_def AnthropicEventToResponsesEvents_def anthToResHandleMessageStart_def makeResponsesCreatedEvent_def numbered_def
      anthToResHandleContentBlockStart_def openItem_def makeResponsesEvent_def anthToResHandleContentBlockDelta_def
      anthToResHandleContentBlockStop_def closeCurrentResponsesItem_def anthToResHandleMessageDelta_def
      anthToResHandleMessageStop_def completeStream_def makeResponsesCompletedEvent_def initialResponsesState_def
      NewAnthropicEventToResponsesState_def Let_def)

end
