(* ===== verification/Channel.thy ===== *)
theory Channel
  imports Go_Strings Go_Sort Complex_Main
begin

text \<open>
  Channels and their prices (\<open>internal/service/channel.go\<close>): a channel gives its groups prices for
  models, by token, by request or by image, flat or in intervals of the number of tokens in the
  context.  The main result is that the validation of intervals accepts exactly the lists of
  well-formed intervals of which no two share a number of tokens, so that the interval found for a
  request does not depend on the order of the list.

  \<open>sort.Slice\<close> leaves the order of intervals with the same lower bound open; \<open>sort_by\<close> keeps it.  No
  result depends on it, because two well-formed intervals with the same lower bound overlap.
\<close>

section \<open>The entities\<close>

definition BillingModeToken :: gostr where "BillingModeToken = ''token''"
definition BillingModePerRequest :: gostr where "BillingModePerRequest = ''per_request''"
definition BillingModeImage :: gostr where "BillingModeImage = ''image''"

definition billingModeIsValid :: "gostr \<Rightarrow> bool" where
  "billingModeIsValid m = (m \<in> {BillingModeToken, BillingModePerRequest, BillingModeImage, ''''})"

definition BillingModelSourceRequested :: gostr where "BillingModelSourceRequested = ''requested''"
definition BillingModelSourceUpstream :: gostr where "BillingModelSourceUpstream = ''upstream''"
definition BillingModelSourceChannelMapped :: gostr where "BillingModelSourceChannelMapped = ''channel_mapped''"

record PricingInterval =
  iv_ID :: int64
  iv_PricingID :: int64
  iv_MinTokens :: int
  iv_MaxTokens :: "int option"
  iv_TierLabel :: gostr
  iv_InputPrice :: "rat option"
  iv_OutputPrice :: "rat option"
  iv_CacheWritePrice :: "rat option"
  iv_CacheReadPrice :: "rat option"
  iv_PerRequestPrice :: "rat option"
  iv_SortOrder :: int

record ChannelModelPricing =
  cp_ID :: int64
  cp_ChannelID :: int64
  cp_Platform :: gostr
  cp_Models :: "gostr list"
  cp_BillingMode :: gostr
  cp_InputPrice :: "rat option"
  cp_OutputPrice :: "rat option"
  cp_CacheWritePrice :: "rat option"
  cp_CacheReadPrice :: "rat option"
  cp_ImageOutputPrice :: "rat option"
  cp_PerRequestPrice :: "rat option"
  cp_Intervals :: "PricingInterval list"

text \<open>A Go map is an association list with distinct keys, in the order in which \<open>range\<close> visits it.\<close>

type_synonym model_mapping = "(gostr \<times> (gostr \<times> gostr) list) list"

record Channel =
  ch_ID :: int64
  ch_Name :: gostr
  ch_Description :: gostr
  ch_Status :: gostr
  ch_BillingModelSource :: gostr
  ch_RestrictModels :: bool
  ch_GroupIDs :: "int64 list"
  ch_ModelPricing :: "ChannelModelPricing list"
  ch_ModelMapping :: model_mapping

definition channelIsActive :: "Channel \<Rightarrow> bool" where
  "channelIsActive c = (ch_Status c = ''active'')"

definition channelGetModelPricing :: "Channel \<Rightarrow> gostr \<Rightarrow> ChannelModelPricing option" where
  "channelGetModelPricing c model =
     find (\<lambda>p. list_ex (\<lambda>m. to_lower m = to_lower model) (cp_Models p)) (ch_ModelPricing c)"

section \<open>Intervals\<close>

definition interval_matches :: "int \<Rightarrow> PricingInterval \<Rightarrow> bool" where
  "interval_matches totalTokens iv =
     (totalTokens > iv_MinTokens iv \<and> (case iv_MaxTokens iv of None \<Rightarrow> True | Some m \<Rightarrow> totalTokens \<le> m))"

definition FindMatchingInterval :: "PricingInterval list \<Rightarrow> int \<Rightarrow> PricingInterval option" where
  "FindMatchingInterval intervals totalTokens = find (interval_matches totalTokens) intervals"

definition GetIntervalForContext :: "ChannelModelPricing \<Rightarrow> int \<Rightarrow> PricingInterval option" where
  "GetIntervalForContext p totalTokens = FindMatchingInterval (cp_Intervals p) totalTokens"

definition GetTierByLabel :: "ChannelModelPricing \<Rightarrow> gostr \<Rightarrow> PricingInterval option" where
  "GetTierByLabel p label = find (\<lambda>iv. to_lower (iv_TierLabel iv) = to_lower label) (cp_Intervals p)"

text \<open>What is wrong with a list of intervals, with the positions that the messages name.\<close>

datatype interval_error =
    MinTokensNegative nat
  | MaxTokensNotPositive nat
  | MaxTokensNotAboveMin nat
  | NegativePrice nat gostr
  | UnboundedNotLast nat
  | IntervalsOverlap nat nat

definition interval_prices :: "PricingInterval \<Rightarrow> (gostr \<times> rat option) list" where
  "interval_prices iv =
     [(''input_price'', iv_InputPrice iv), (''output_price'', iv_OutputPrice iv),
      (''cache_write_price'', iv_CacheWritePrice iv), (''cache_read_price'', iv_CacheReadPrice iv),
      (''per_request_price'', iv_PerRequestPrice iv)]"

definition negative_price :: "gostr \<times> rat option \<Rightarrow> bool" where
  "negative_price f = (case snd f of None \<Rightarrow> False | Some v \<Rightarrow> v < 0)"

definition validateIntervalPrices :: "PricingInterval \<Rightarrow> nat \<Rightarrow> interval_error option" where
  "validateIntervalPrices iv idx =
     map_option (\<lambda>f. NegativePrice (idx + 1) (fst f)) (find negative_price (interval_prices iv))"

definition validateSingleInterval :: "PricingInterval \<Rightarrow> nat \<Rightarrow> interval_error option" where
  "validateSingleInterval iv idx =
     (if iv_MinTokens iv < 0 then Some (MinTokensNegative (idx + 1))
      else case iv_MaxTokens iv of
             None \<Rightarrow> validateIntervalPrices iv idx
           | Some m \<Rightarrow>
               if m \<le> 0 then Some (MaxTokensNotPositive (idx + 1))
               else if m \<le> iv_MinTokens iv then Some (MaxTokensNotAboveMin (idx + 1))
               else validateIntervalPrices iv idx)"

fun first_error :: "(nat \<Rightarrow> 'a \<Rightarrow> 'e option) \<Rightarrow> nat \<Rightarrow> 'a list \<Rightarrow> 'e option" where
  "first_error f i [] = None"
| "first_error f i (x # xs) = (case f i x of Some e \<Rightarrow> Some e | None \<Rightarrow> first_error f (i + 1) xs)"

text \<open>The loop of \<open>validateIntervalOverlap\<close> at position \<open>i\<close> of the sorted list.\<close>

definition overlapAt :: "PricingInterval list \<Rightarrow> nat \<Rightarrow> PricingInterval \<Rightarrow> interval_error option" where
  "overlapAt ivs i iv =
     (if iv_MaxTokens iv = None \<and> i < length ivs - 1 then Some (UnboundedNotLast (i + 1))
      else if i = 0 then None
      else case iv_MaxTokens (ivs ! (i - 1)) of
             None \<Rightarrow> Some (IntervalsOverlap i (i + 1))
           | Some m \<Rightarrow> if m > iv_MinTokens iv then Some (IntervalsOverlap i (i + 1)) else None)"

definition validateIntervalOverlap :: "PricingInterval list \<Rightarrow> interval_error option" where
  "validateIntervalOverlap ivs = first_error (overlapAt ivs) 0 ivs"

definition min_less :: "PricingInterval \<Rightarrow> PricingInterval \<Rightarrow> bool" where
  "min_less x y = (iv_MinTokens x < iv_MinTokens y)"

definition ValidateIntervals :: "PricingInterval list \<Rightarrow> interval_error option" where
  "ValidateIntervals intervals =
     (if intervals = [] then None
      else let ivs = sort_by min_less intervals
           in case first_error (\<lambda>i iv. validateSingleInterval iv i) 0 ivs of
                Some e \<Rightarrow> Some e
              | None \<Rightarrow> validateIntervalOverlap ivs)"

section \<open>What the validation accepts\<close>

definition bounds_ok :: "PricingInterval \<Rightarrow> bool" where
  "bounds_ok iv = (0 \<le> iv_MinTokens iv \<and> (case iv_MaxTokens iv of None \<Rightarrow> True | Some m \<Rightarrow> iv_MinTokens iv < m))"

definition interval_ok :: "PricingInterval \<Rightarrow> bool" where
  "interval_ok iv = (bounds_ok iv \<and> \<not> list_ex negative_price (interval_prices iv))"

definition apart :: "PricingInterval \<Rightarrow> PricingInterval \<Rightarrow> bool" where
  "apart x y = (\<not> (\<exists>t. interval_matches t x \<and> interval_matches t y))"

lemma apart_sym: "apart x y \<longleftrightarrow> apart y x"
  by (auto simp: apart_def)

lemma first_error_None: "first_error f k xs = None \<longleftrightarrow> (\<forall>i < length xs. f (k + i) (xs ! i) = None)"
  by (induction f k xs rule: first_error.induct) (auto simp: All_less_Suc2 split: option.splits)

lemma find_None: "find P xs = None \<longleftrightarrow> \<not> list_ex P xs"
  by (induction xs) auto

lemma validateSingleInterval_None: "validateSingleInterval iv i = None \<longleftrightarrow> interval_ok iv"
  by (auto simp: validateSingleInterval_def validateIntervalPrices_def interval_ok_def bounds_ok_def find_None
      split: option.splits)

definition before :: "PricingInterval \<Rightarrow> PricingInterval \<Rightarrow> bool" where
  "before x y = (bounds_ok y \<and> (case iv_MaxTokens x of None \<Rightarrow> False | Some m \<Rightarrow> m \<le> iv_MinTokens y))"

lemma before_trans: "transp before"
  by (rule transpI) (auto simp: before_def bounds_ok_def split: option.splits)

lemma apart_sorted:
  assumes "bounds_ok x" "bounds_ok y" "iv_MinTokens x \<le> iv_MinTokens y"
  shows "apart x y \<longleftrightarrow> before x y"
proof
  assume a: "apart x y"
  have y: "interval_matches (iv_MinTokens y + 1) y"
    using assms(2) by (auto simp: interval_matches_def bounds_ok_def split: option.splits)
  then have "\<not> interval_matches (iv_MinTokens y + 1) x" using a by (auto simp: apart_def)
  then show "before x y" using assms by (auto simp: interval_matches_def before_def split: option.splits)
next
  assume "before x y"
  then show "apart x y" by (auto simp: apart_def before_def interval_matches_def split: option.splits)
qed

lemma validateIntervalOverlap_None:
  assumes "list_all bounds_ok ivs"
  shows "validateIntervalOverlap ivs = None \<longleftrightarrow> sorted_wrt before ivs"
proof -
  have "overlapAt ivs (Suc i) (ivs ! Suc i) = None \<Longrightarrow> Suc i < length ivs \<Longrightarrow> before (ivs ! i) (ivs ! Suc i)" for i
    using assms by (auto simp: overlapAt_def before_def list_all_length split: option.splits if_splits)
  moreover have "(\<forall>i. Suc i < length ivs \<longrightarrow> before (ivs ! i) (ivs ! Suc i)) \<Longrightarrow> i < length ivs \<Longrightarrow>
      overlapAt ivs i (ivs ! i) = None" for i
  proof -
    assume adj: "\<forall>i. Suc i < length ivs \<longrightarrow> before (ivs ! i) (ivs ! Suc i)" and i: "i < length ivs"
    have last: "iv_MaxTokens (ivs ! i) \<noteq> None" if "i < length ivs - 1"
      using adj that by (auto simp: before_def split: option.splits)
    show ?thesis
    proof (cases i)
      case 0
      with last show ?thesis by (auto simp: overlapAt_def)
    next
      case (Suc j)
      then have "before (ivs ! j) (ivs ! i)" using adj i by auto
      with last Suc show ?thesis by (auto simp: overlapAt_def before_def split: option.splits)
    qed
  qed
  ultimately have "validateIntervalOverlap ivs = None \<longleftrightarrow>
      (\<forall>i. Suc i < length ivs \<longrightarrow> before (ivs ! i) (ivs ! Suc i))"
    by (auto simp: validateIntervalOverlap_def first_error_None)
  then show ?thesis
    by (simp add: sorted_wrt_iff_nth_Suc_transp [OF before_trans])
qed

lemma sorted_wrt_permuted:
  assumes "\<And>x y. P x y \<longleftrightarrow> P y x" and "mset xs = mset ys" and "sorted_wrt P xs"
  shows "sorted_wrt P ys"
  using assms(2,3)
proof (induction xs arbitrary: ys)
  case (Cons x xs)
  then obtain us vs where ys: "ys = us @ x # vs"
    by (metis in_set_conv_decomp list.set_intros(1) mset_eq_setD)
  with Cons.prems(1) have m: "mset xs = mset (us @ vs)" by simp
  with Cons.IH Cons.prems(2) have "sorted_wrt P (us @ vs)" by simp
  moreover have "\<forall>y \<in> set (us @ vs). P x y"
    using Cons.prems(2) mset_eq_setD [OF m] by auto
  ultimately show ?case
    using assms(1) by (auto simp: ys sorted_wrt_append)
qed simp

lemma min_less_strict: "strict_weak min_less"
  by unfold_locales (auto simp: min_less_def)

interpretation mins: strict_weak min_less
  by (rule min_less_strict)

lemma list_all_mset: "mset xs = mset ys \<Longrightarrow> list_all P xs \<longleftrightarrow> list_all P ys"
  by (metis Ball_set mset_eq_setD)

lemma validate_intervals_iff:
  "ValidateIntervals ivs = None \<longleftrightarrow> list_all interval_ok ivs \<and> sorted_wrt apart ivs"
proof (cases "ivs = []")
  case True
  then show ?thesis by (simp add: ValidateIntervals_def)
next
  case False
  define s where "s = sort_by min_less ivs"
  have m: "mset s = mset ivs" by (simp add: s_def)
  have single: "first_error (\<lambda>i iv. validateSingleInterval iv i) 0 s = None \<longleftrightarrow> list_all interval_ok ivs"
    by (simp add: first_error_None validateSingleInterval_None flip: list_all_length list_all_mset [OF m])
  have sort: "sorted_wrt (\<lambda>x y. iv_MinTokens x \<le> iv_MinTokens y) s"
    using mins.sorted_sort_by [of ivs] unfolding s_def
    by (rule sorted_wrt_mono_rel [rotated]) (auto simp: min_less_def)
  have overlap: "validateIntervalOverlap s = None \<longleftrightarrow> sorted_wrt apart ivs" if "list_all interval_ok ivs"
  proof -
    have ok: "list_all bounds_ok s"
      using that mset_eq_setD [OF m] by (simp add: interval_ok_def list_all_iff)
    have "sorted_wrt before s \<longleftrightarrow> sorted_wrt apart s"
      using ok sort by (auto simp: sorted_wrt_iff_nth_less list_all_length apart_sorted)
    also have "\<dots> \<longleftrightarrow> sorted_wrt apart ivs"
      using sorted_wrt_permuted [of apart s ivs] sorted_wrt_permuted [of apart ivs s] m apart_sym by metis
    finally show ?thesis using validateIntervalOverlap_None [OF ok] by simp
  qed
  show ?thesis
    using False single overlap
    by (cases "list_all interval_ok ivs") (auto simp: ValidateIntervals_def Let_def simp flip: s_def split: option.splits)
qed

text \<open>The interval that is found in a validated list is the only one that matches.\<close>

lemma matching_interval_unique:
  assumes "ValidateIntervals ivs = None" and "iv \<in> set ivs" and "interval_matches t iv"
  shows "FindMatchingInterval ivs t = Some iv"
proof -
  have "sorted_wrt apart ivs" using assms(1) by (simp add: validate_intervals_iff)
  then show ?thesis
    using assms(2,3) unfolding FindMatchingInterval_def
    by (induction ivs) (auto simp: apart_def)
qed

lemma matching_interval_permuted:
  assumes "ValidateIntervals ivs = None" and "mset ivs = mset ivs'"
  shows "ValidateIntervals ivs' = None" and "FindMatchingInterval ivs' t = FindMatchingInterval ivs t"
proof -
  show v: "ValidateIntervals ivs' = None"
    using assms sorted_wrt_permuted [of apart ivs ivs'] apart_sym list_all_mset [OF assms(2)]
    by (auto simp: validate_intervals_iff)
  show "FindMatchingInterval ivs' t = FindMatchingInterval ivs t"
  proof (cases "FindMatchingInterval ivs t")
    case None
    then have "FindMatchingInterval ivs' t = None"
      using mset_eq_setD [OF assms(2)] by (simp add: FindMatchingInterval_def find_None_iff)
    with None show ?thesis by simp
  next
    case (Some iv)
    then have "iv \<in> set ivs" "interval_matches t iv"
      by (auto simp: FindMatchingInterval_def find_Some_iff)
    then show ?thesis
      using Some matching_interval_unique [OF v, of iv t] mset_eq_setD [OF assms(2)] by simp
  qed
qed

text \<open>The bounds of an interval are \<open>(min, max]\<close>, where the comments of the struct say \<open>[min, max)\<close>.\<close>

lemma interval_bounds:
  assumes "iv_MaxTokens iv = Some m" and "iv_MinTokens iv < m"
  shows "interval_matches m iv" and "\<not> interval_matches (iv_MinTokens iv) iv"
  using assms by (simp_all add: interval_matches_def)

text \<open>
  C34. The intervals of a price list are accepted exactly if each has sound bounds and prices and no
  number of tokens lies in two of them.  The order of the list does not matter: sorting it for the
  check does not change what is found for a number of tokens.
\<close>

theorem interval_validation_exact:
  "(ValidateIntervals ivs = None \<longleftrightarrow> list_all interval_ok ivs \<and> sorted_wrt apart ivs) \<and>
   (ValidateIntervals ivs = None \<longrightarrow>
      ValidateIntervals (sort_by min_less ivs) = None \<and>
      FindMatchingInterval (sort_by min_less ivs) t = FindMatchingInterval ivs t)"
  using validate_intervals_iff matching_interval_permuted(1) [of ivs "sort_by min_less ivs"]
    matching_interval_permuted(2) [of ivs "sort_by min_less ivs" t] by simp

definition demo_intervals :: "PricingInterval list" where
  "demo_intervals =
     (let iv = \<lparr>iv_ID = 0, iv_PricingID = 0, iv_MinTokens = 100, iv_MaxTokens = None, iv_TierLabel = '''', iv_InputPrice = Some 2,
                iv_OutputPrice = None, iv_CacheWritePrice = None, iv_CacheReadPrice = None, iv_PerRequestPrice = None,
                iv_SortOrder = 0\<rparr>
      in [iv, iv\<lparr>iv_MinTokens := 0, iv_MaxTokens := Some 100, iv_InputPrice := Some 1\<rparr>])"

theorem interval_validation_exact_witness:
  "FindMatchingInterval (sort_by min_less demo_intervals) 100 = FindMatchingInterval demo_intervals 100 \<and>
   map_option iv_InputPrice (FindMatchingInterval demo_intervals 100) = Some (Some 1)"
proof -
  have "ValidateIntervals demo_intervals = None" by code_simp
  moreover have "map_option iv_InputPrice (FindMatchingInterval demo_intervals 100) = Some (Some 1)" by code_simp
  ultimately show ?thesis using interval_validation_exact [of demo_intervals 100] by simp
qed

end
