(* ===== verification/Channel_Index.thy ===== *)
theory Channel_Index
  imports Channel
begin

text \<open>
  The index over all channels that requests are served from, and the checks on a channel's
  configuration (\<open>internal/service/channel_service.go\<close>): patterns of model names and their
  conflicts, the flat maps of \<open>populateChannelCache\<close>, and the lookups in them.  The lemmas show that
  two patterns conflict exactly if some model matches both, and that for configurations without
  conflicts the index answers as a search through the channel itself does, whatever the order in
  which the maps of the mappings are visited.
\<close>

section \<open>Patterns of models\<close>

record modelEntry =
  me_pattern :: gostr
  me_prefix :: gostr
  me_wildcard :: bool

definition conflictsBetween :: "modelEntry \<Rightarrow> modelEntry \<Rightarrow> bool" where
  "conflictsBetween a b =
     (if \<not> me_wildcard a \<and> \<not> me_wildcard b then me_prefix a = me_prefix b
      else if me_wildcard a \<and> \<not> me_wildcard b then has_prefix (me_prefix b) (me_prefix a)
      else if \<not> me_wildcard a \<and> me_wildcard b then has_prefix (me_prefix a) (me_prefix b)
      else has_prefix (me_prefix a) (me_prefix b) \<or> has_prefix (me_prefix b) (me_prefix a))"

definition toModelEntry :: "gostr \<Rightarrow> modelEntry" where
  "toModelEntry pattern =
     (let lower = to_lower pattern; isWild = has_suffix lower ''*''
      in \<lparr>me_pattern = pattern, me_prefix = (if isWild then trim_suffix lower ''*'' else lower), me_wildcard = isWild\<rparr>)"

datatype channel_error =
    ChannelNotFound
  | ChannelExists
  | GroupAlreadyInChannel
  | ModelPatternConflict
  | MappingPatternConflict
  | InvalidPricingIntervals interval_error
  | BillingModeMissingPrice
  | NegativePriceField gostr
  | IntervalMissingPrice
  | ChannelSQLError

text \<open>
  The messages of the errors are left out, so it does not matter in which order the platforms are
  visited.
\<close>

fun detectConflicts :: "modelEntry list \<Rightarrow> bool" where
  "detectConflicts [] = False"
| "detectConflicts (e # es) = (list_ex (conflictsBetween e) es \<or> detectConflicts es)"

definition platform_entries :: "ChannelModelPricing list \<Rightarrow> gostr \<Rightarrow> modelEntry list" where
  "platform_entries pricingList platform =
     concat (map (\<lambda>p. if cp_Platform p = platform then map toModelEntry (cp_Models p) else []) pricingList)"

definition validateNoConflictingModels :: "ChannelModelPricing list \<Rightarrow> channel_error option" where
  "validateNoConflictingModels pricingList =
     (if list_ex (\<lambda>platform. detectConflicts (platform_entries pricingList platform)) (map cp_Platform pricingList)
      then Some ModelPatternConflict else None)"

definition validateNoConflictingMappings :: "model_mapping \<Rightarrow> channel_error option" where
  "validateNoConflictingMappings mapping =
     (if list_ex (\<lambda>(platform, platformMapping). detectConflicts (map (toModelEntry \<circ> fst) platformMapping)) mapping
      then Some MappingPatternConflict else None)"

fun first_some :: "('a \<Rightarrow> 'e option) \<Rightarrow> 'a list \<Rightarrow> 'e option" where
  "first_some f [] = None"
| "first_some f (x # xs) = (case f x of Some e \<Rightarrow> Some e | None \<Rightarrow> first_some f xs)"

definition validatePricingIntervals :: "ChannelModelPricing list \<Rightarrow> channel_error option" where
  "validatePricingIntervals pricingList =
     first_some (\<lambda>p. map_option InvalidPricingIntervals (ValidateIntervals (cp_Intervals p))) pricingList"

definition checkBillingModeRequirements :: "ChannelModelPricing \<Rightarrow> channel_error option" where
  "checkBillingModeRequirements p =
     (if (cp_BillingMode p = BillingModePerRequest \<or> cp_BillingMode p = BillingModeImage) \<and>
         cp_PerRequestPrice p = None \<and> cp_Intervals p = []
      then Some BillingModeMissingPrice else None)"

definition checkPricesNotNegative :: "ChannelModelPricing \<Rightarrow> channel_error option" where
  "checkPricesNotNegative p =
     map_option (NegativePriceField \<circ> fst)
       (find negative_price
          [(''input_price'', cp_InputPrice p), (''output_price'', cp_OutputPrice p),
           (''cache_write_price'', cp_CacheWritePrice p), (''cache_read_price'', cp_CacheReadPrice p),
           (''image_output_price'', cp_ImageOutputPrice p), (''per_request_price'', cp_PerRequestPrice p)])"

definition interval_has_price :: "PricingInterval \<Rightarrow> bool" where
  "interval_has_price iv =
     (iv_InputPrice iv \<noteq> None \<or> iv_OutputPrice iv \<noteq> None \<or> iv_CacheWritePrice iv \<noteq> None \<or>
      iv_CacheReadPrice iv \<noteq> None \<or> iv_PerRequestPrice iv \<noteq> None)"

definition checkIntervalsHavePrices :: "ChannelModelPricing \<Rightarrow> channel_error option" where
  "checkIntervalsHavePrices p =
     (if list_all interval_has_price (cp_Intervals p) then None else Some IntervalMissingPrice)"

definition validatePricingBillingMode :: "ChannelModelPricing list \<Rightarrow> channel_error option" where
  "validatePricingBillingMode pricing =
     first_some (\<lambda>p. case checkBillingModeRequirements p of
         Some e \<Rightarrow> Some e
       | None \<Rightarrow> (case checkPricesNotNegative p of
                    Some e \<Rightarrow> Some e
                  | None \<Rightarrow> checkIntervalsHavePrices p)) pricing"

definition validateChannelConfig :: "ChannelModelPricing list \<Rightarrow> model_mapping \<Rightarrow> channel_error option" where
  "validateChannelConfig pricing mapping =
     (case validateNoConflictingModels pricing of
        Some e \<Rightarrow> Some e
      | None \<Rightarrow> (case validatePricingIntervals pricing of
                   Some e \<Rightarrow> Some e
                 | None \<Rightarrow> (case validateNoConflictingMappings mapping of
                              Some e \<Rightarrow> Some e
                            | None \<Rightarrow> validatePricingBillingMode pricing)))"

section \<open>The index\<close>

record channelCache =
  cc_pricing :: "int64 \<times> gostr \<times> gostr \<Rightarrow> ChannelModelPricing option"
  cc_wildcards :: "int64 \<times> gostr \<Rightarrow> (gostr \<times> ChannelModelPricing) list"
  cc_mapping :: "int64 \<times> gostr \<times> gostr \<Rightarrow> gostr option"
  cc_wildcardMapping :: "int64 \<times> gostr \<Rightarrow> (gostr \<times> gostr) list"
  cc_channelByGroup :: "int64 \<Rightarrow> Channel option"
  cc_groupPlatform :: "int64 \<Rightarrow> gostr option"
  cc_byID :: "int64 \<Rightarrow> Channel option"
  cc_loadedAt :: time

definition newEmptyChannelCache :: "time \<Rightarrow> channelCache" where
  "newEmptyChannelCache loadedAt =
     \<lparr>cc_pricing = (\<lambda>_. None), cc_wildcards = (\<lambda>_. []), cc_mapping = (\<lambda>_. None), cc_wildcardMapping = (\<lambda>_. []),
      cc_channelByGroup = (\<lambda>_. None), cc_groupPlatform = (\<lambda>_. None), cc_byID = (\<lambda>_. None), cc_loadedAt = loadedAt\<rparr>"

definition isPlatformPricingMatch :: "gostr \<Rightarrow> gostr \<Rightarrow> bool" where
  "isPlatformPricingMatch groupPlatform pricingPlatform = (groupPlatform = pricingPlatform)"

definition matchingPlatforms :: "gostr \<Rightarrow> gostr list" where
  "matchingPlatforms groupPlatform = [groupPlatform]"

definition expandModel :: "int64 \<Rightarrow> ChannelModelPricing \<Rightarrow> gostr \<Rightarrow> channelCache \<Rightarrow> channelCache" where
  "expandModel gid pricing model cache =
     (if has_suffix model ''*''
      then cache\<lparr>cc_wildcards := (cc_wildcards cache)((gid, cp_Platform pricing) :=
             cc_wildcards cache (gid, cp_Platform pricing) @ [(to_lower (trim_suffix model ''*''), pricing)])\<rparr>
      else cache\<lparr>cc_pricing := (cc_pricing cache)((gid, cp_Platform pricing, to_lower model) \<mapsto> pricing)\<rparr>)"

definition expandPricingToCache :: "Channel \<Rightarrow> int64 \<Rightarrow> gostr \<Rightarrow> channelCache \<Rightarrow> channelCache" where
  "expandPricingToCache ch gid platform cache =
     fold (\<lambda>pricing c. if \<not> isPlatformPricingMatch platform (cp_Platform pricing) then c
             else fold (expandModel gid pricing) (cp_Models pricing) c)
       (ch_ModelPricing ch) cache"

definition expandMapping :: "int64 \<Rightarrow> gostr \<Rightarrow> gostr \<times> gostr \<Rightarrow> channelCache \<Rightarrow> channelCache" where
  "expandMapping gid platform entry cache =
     (let (src, dst) = entry
      in if has_suffix src ''*''
         then cache\<lparr>cc_wildcardMapping := (cc_wildcardMapping cache)((gid, platform) :=
                cc_wildcardMapping cache (gid, platform) @ [(to_lower (trim_suffix src ''*''), dst)])\<rparr>
         else cache\<lparr>cc_mapping := (cc_mapping cache)((gid, platform, to_lower src) \<mapsto> dst)\<rparr>)"

definition expandMappingToCache :: "Channel \<Rightarrow> int64 \<Rightarrow> gostr \<Rightarrow> channelCache \<Rightarrow> channelCache" where
  "expandMappingToCache ch gid platform cache =
     fold (\<lambda>mappingPlatform c. case map_of (ch_ModelMapping ch) mappingPlatform of
               None \<Rightarrow> c
             | Some platformMapping \<Rightarrow> fold (expandMapping gid mappingPlatform) platformMapping c)
       (matchingPlatforms platform) cache"

text \<open>A missing key of a Go map reads as the zero value.\<close>

definition platform_of :: "(int64 \<Rightarrow> gostr option) \<Rightarrow> int64 \<Rightarrow> gostr" where
  "platform_of groupPlatforms gid = (case groupPlatforms gid of None \<Rightarrow> '''' | Some p \<Rightarrow> p)"

definition addGroup :: "(int64 \<Rightarrow> gostr option) \<Rightarrow> Channel \<Rightarrow> int64 \<Rightarrow> channelCache \<Rightarrow> channelCache" where
  "addGroup groupPlatforms ch gid cache =
     expandMappingToCache ch gid (platform_of groupPlatforms gid)
       (expandPricingToCache ch gid (platform_of groupPlatforms gid)
          (cache\<lparr>cc_channelByGroup := (cc_channelByGroup cache)(gid \<mapsto> ch)\<rparr>))"

definition addChannel :: "(int64 \<Rightarrow> gostr option) \<Rightarrow> Channel \<Rightarrow> channelCache \<Rightarrow> channelCache" where
  "addChannel groupPlatforms ch cache =
     fold (addGroup groupPlatforms ch) (ch_GroupIDs ch) (cache\<lparr>cc_byID := (cc_byID cache)(ch_ID ch \<mapsto> ch)\<rparr>)"

definition populateChannelCache :: "time \<Rightarrow> Channel list \<Rightarrow> (int64 \<Rightarrow> gostr option) \<Rightarrow> channelCache" where
  "populateChannelCache now channels groupPlatforms =
     fold (addChannel groupPlatforms) channels ((newEmptyChannelCache now)\<lparr>cc_groupPlatform := groupPlatforms\<rparr>)"

definition cacheMatchWildcard :: "channelCache \<Rightarrow> int64 \<Rightarrow> gostr \<Rightarrow> gostr \<Rightarrow> ChannelModelPricing option" where
  "cacheMatchWildcard c groupID platform modelLower =
     map_option snd (find (\<lambda>wc. has_prefix modelLower (fst wc)) (cc_wildcards c (groupID, platform)))"

definition matchWildcardMapping :: "channelCache \<Rightarrow> int64 \<Rightarrow> gostr \<Rightarrow> gostr \<Rightarrow> gostr" where
  "matchWildcardMapping c groupID platform modelLower =
     (case find (\<lambda>wc. has_prefix modelLower (fst wc)) (cc_wildcardMapping c (groupID, platform)) of
        None \<Rightarrow> '''' | Some wc \<Rightarrow> snd wc)"

definition lookupPricingAcrossPlatforms :: "channelCache \<Rightarrow> int64 \<Rightarrow> gostr \<Rightarrow> gostr \<Rightarrow> ChannelModelPricing option" where
  "lookupPricingAcrossPlatforms cache groupID groupPlatform modelLower =
     (case first_some (\<lambda>p. cc_pricing cache (groupID, p, modelLower)) (matchingPlatforms groupPlatform) of
        Some pricing \<Rightarrow> Some pricing
      | None \<Rightarrow> first_some (\<lambda>p. cacheMatchWildcard cache groupID p modelLower) (matchingPlatforms groupPlatform))"

definition lookupMappingAcrossPlatforms :: "channelCache \<Rightarrow> int64 \<Rightarrow> gostr \<Rightarrow> gostr \<Rightarrow> gostr" where
  "lookupMappingAcrossPlatforms cache groupID groupPlatform modelLower =
     (case first_some (\<lambda>p. cc_mapping cache (groupID, p, modelLower)) (matchingPlatforms groupPlatform) of
        Some mapped \<Rightarrow> mapped
      | None \<Rightarrow>
          (case first_some (\<lambda>p. let mapped = matchWildcardMapping cache groupID p modelLower
                                in if mapped \<noteq> '''' then Some mapped else None) (matchingPlatforms groupPlatform) of
             Some mapped \<Rightarrow> mapped
           | None \<Rightarrow> ''''))"

section \<open>Conflicts\<close>

definition entry_matches :: "modelEntry \<Rightarrow> gostr \<Rightarrow> bool" where
  "entry_matches e modelLower = (if me_wildcard e then has_prefix modelLower (me_prefix e) else modelLower = me_prefix e)"

abbreviation pattern_matches :: "gostr \<Rightarrow> gostr \<Rightarrow> bool" where
  "pattern_matches pattern \<equiv> entry_matches (toModelEntry pattern)"

lemma conflicts_iff: "conflictsBetween a b \<longleftrightarrow> (\<exists>m. entry_matches a m \<and> entry_matches b m)"
proof
  assume c: "conflictsBetween a b"
  show "\<exists>m. entry_matches a m \<and> entry_matches b m"
  proof (rule exI)
    let ?m = "if length (me_prefix a) \<le> length (me_prefix b) \<and> me_wildcard a then me_prefix b
              else if me_wildcard b then me_prefix a else me_prefix b"
    show "entry_matches a ?m \<and> entry_matches b ?m"
      using c by (auto simp: conflictsBetween_def entry_matches_def has_prefix_def
          dest: prefix_length_le split: if_splits)
        (auto simp: prefix_def)
  qed
next
  assume "\<exists>m. entry_matches a m \<and> entry_matches b m"
  then show "conflictsBetween a b"
    by (auto simp: conflictsBetween_def entry_matches_def has_prefix_def dest: prefix_same_cases)
qed

lemma detectConflicts_iff: "\<not> detectConflicts es \<longleftrightarrow> sorted_wrt (\<lambda>a b. \<not> conflictsBetween a b) es"
  by (induction es) (auto simp: list_ex_iff)

text \<open>Finding in a list of which at most one element satisfies the predicate.\<close>

definition at_most_one :: "('a \<Rightarrow> bool) \<Rightarrow> 'a list \<Rightarrow> bool" where
  "at_most_one P xs = (length (filter P xs) \<le> 1)"

lemma at_most_one_Cons: "at_most_one P (x # xs) \<longleftrightarrow> (if P x then \<not> list_ex P xs else at_most_one P xs)"
  by (auto simp: at_most_one_def filter_empty_conv list_ex_iff)

lemma at_most_one_find:
  "at_most_one P xs \<Longrightarrow> x \<in> set xs \<Longrightarrow> P x \<Longrightarrow> find P xs = Some x"
  by (induction xs) (auto simp: at_most_one_Cons list_ex_iff split: if_splits)

lemma find_rev: "at_most_one P xs \<Longrightarrow> find P (rev xs) = find P xs"
proof (cases "find P xs")
  case None
  then have "find P (rev xs) = None" by (simp add: find_None_iff)
  with None show ?thesis by simp
next
  case (Some x)
  assume "at_most_one P xs"
  then have "at_most_one P (rev xs)" by (simp add: at_most_one_def flip: rev_filter)
  moreover have "x \<in> set (rev xs)" "P x" using Some by (auto simp: find_Some_iff)
  ultimately show ?thesis using Some at_most_one_find [of P "rev xs" x] by simp
qed

lemma at_most_one_weaken:
  assumes "at_most_one P xs" "\<And>x. Q x \<Longrightarrow> P x"
  shows "at_most_one Q xs"
proof -
  have "filter Q xs = filter Q (filter P xs)"
    using assms(2) by (induction xs) auto
  then show ?thesis
    using assms(1) length_filter_le [of Q "filter P xs"] by (simp add: at_most_one_def)
qed

lemma find_split:
  assumes "at_most_one P xs"
  shows "find P xs = (case find (\<lambda>x. P x \<and> Q x) xs of Some x \<Rightarrow> Some x | None \<Rightarrow> find (\<lambda>x. P x \<and> \<not> Q x) xs)"
  using assms
proof (induction xs)
  case (Cons x xs)
  show ?case
  proof (cases "P x")
    case True
    with Cons.prems have "find (\<lambda>x. P x \<and> Q x) xs = None"
      by (auto simp: at_most_one_Cons list_ex_iff find_None_iff)
    with True show ?thesis by simp
  next
    case False
    with Cons show ?thesis by (auto simp: at_most_one_Cons split: option.splits)
  qed
qed (simp add: at_most_one_def)

lemma conflict_free_at_most_one:
  assumes "\<not> detectConflicts (map (\<lambda>x. toModelEntry (f x)) xs)"
  shows "at_most_one (\<lambda>x. pattern_matches (f x) k) xs"
  using assms by (induction xs) (auto simp: at_most_one_Cons list_ex_iff conflicts_iff at_most_one_def)

section \<open>The index answers as the channel does\<close>

definition flat_pricing :: "Channel \<Rightarrow> gostr \<Rightarrow> (gostr \<times> ChannelModelPricing) list" where
  "flat_pricing ch platform =
     concat (map (\<lambda>p. if cp_Platform p = platform then map (\<lambda>m. (m, p)) (cp_Models p) else []) (ch_ModelPricing ch))"

definition flat_mapping :: "Channel \<Rightarrow> gostr \<Rightarrow> (gostr \<times> gostr) list" where
  "flat_mapping ch platform = (case map_of (ch_ModelMapping ch) platform of None \<Rightarrow> [] | Some m \<Rightarrow> m)"

text \<open>The price and the target that the channel itself gives a model.\<close>

definition channel_price :: "Channel \<Rightarrow> gostr \<Rightarrow> gostr \<Rightarrow> ChannelModelPricing option" where
  "channel_price ch platform modelLower =
     find (\<lambda>p. cp_Platform p = platform \<and> list_ex (\<lambda>m. pattern_matches m modelLower) (cp_Models p)) (ch_ModelPricing ch)"

definition channel_target :: "Channel \<Rightarrow> gostr \<Rightarrow> gostr \<Rightarrow> gostr" where
  "channel_target ch platform modelLower =
     (case find (\<lambda>e. pattern_matches (fst e) modelLower) (flat_mapping ch platform) of None \<Rightarrow> '''' | Some e \<Rightarrow> snd e)"

lemma find_append_code: "find P (xs @ ys) = (case find P xs of Some x \<Rightarrow> Some x | None \<Rightarrow> find P ys)"
  by (induction xs) auto

lemma find_map_code: "find P (map f xs) = map_option f (find (P \<circ> f) xs)"
  by (induction xs) auto

lemma channel_price_flat:
  "channel_price ch platform k = map_option snd (find (\<lambda>e. pattern_matches (fst e) k) (flat_pricing ch platform))"
proof -
  have "find (\<lambda>p. cp_Platform p = platform \<and> list_ex (\<lambda>m. pattern_matches m k) (cp_Models p)) ps =
      map_option snd (find (\<lambda>e. pattern_matches (fst e) k)
        (concat (map (\<lambda>p. if cp_Platform p = platform then map (\<lambda>m. (m, p)) (cp_Models p) else []) ps)))" for ps
    by (induction ps) (auto simp: find_append_code find_map_code comp_def find_None_iff list_ex_iff find_Some_iff
        split: option.splits)
  then show ?thesis by (simp add: channel_price_def flat_pricing_def)
qed

lemma toModelEntry_wild: "me_wildcard (toModelEntry m) \<longleftrightarrow> has_suffix m ''*''"
proof -
  have "suffix ''*'' (to_lower m) \<longleftrightarrow> suffix ''*'' m"
  proof (cases m rule: rev_cases)
    case (snoc xs x)
    then show ?thesis using ascii_lower_star [of x] by (auto simp: to_lower_def suffix_def)
  qed simp
  then show ?thesis by (simp add: toModelEntry_def Let_def has_suffix_def)
qed

lemma toModelEntry_prefix:
  "me_prefix (toModelEntry m) = (if has_suffix m ''*'' then to_lower (trim_suffix m ''*'') else to_lower m)"
  using toModelEntry_wild [of m]
  by (auto simp: toModelEntry_def Let_def has_suffix_def trim_suffix_def to_lower_def take_map)

lemma pattern_matches_code:
  "pattern_matches m k =
     (if has_suffix m ''*'' then has_prefix k (to_lower (trim_suffix m ''*'')) else to_lower m = k)"
  by (auto simp: entry_matches_def toModelEntry_wild toModelEntry_prefix)

definition index_view :: "channelCache \<Rightarrow> int64 \<Rightarrow> gostr \<Rightarrow>
    Channel option \<times> (gostr \<Rightarrow> ChannelModelPricing option) \<times> (gostr \<times> ChannelModelPricing) list \<times>
    (gostr \<Rightarrow> gostr option) \<times> (gostr \<times> gostr) list" where
  "index_view c gid pl =
     (cc_channelByGroup c gid, (\<lambda>k. cc_pricing c (gid, pl, k)), cc_wildcards c (gid, pl),
      (\<lambda>k. cc_mapping c (gid, pl, k)), cc_wildcardMapping c (gid, pl))"

definition exact_last :: "(gostr \<times> 'a) list \<Rightarrow> gostr \<Rightarrow> 'a option" where
  "exact_last es k = map_option snd (find (\<lambda>e. \<not> has_suffix (fst e) ''*'' \<and> to_lower (fst e) = k) (rev es))"

definition wild_list :: "(gostr \<times> 'a) list \<Rightarrow> (gostr \<times> 'a) list" where
  "wild_list es = map (\<lambda>e. (to_lower (trim_suffix (fst e) ''*''), snd e)) (filter (\<lambda>e. has_suffix (fst e) ''*'') es)"

definition channel_view :: "Channel \<Rightarrow> gostr \<Rightarrow>
    Channel option \<times> (gostr \<Rightarrow> ChannelModelPricing option) \<times> (gostr \<times> ChannelModelPricing) list \<times>
    (gostr \<Rightarrow> gostr option) \<times> (gostr \<times> gostr) list" where
  "channel_view ch pl =
     (Some ch, exact_last (flat_pricing ch pl), wild_list (flat_pricing ch pl),
      exact_last (flat_mapping ch pl), wild_list (flat_mapping ch pl))"

abbreviation blank_view :: "channelCache \<Rightarrow> int64 \<Rightarrow> gostr \<Rightarrow> bool" where
  "blank_view c gid pl \<equiv> index_view c gid pl = (None, (\<lambda>_. None), [], (\<lambda>_. None), [])"

lemma fold_expandModel_other:
  "g \<noteq> gid \<Longrightarrow> index_view (fold (\<lambda>e. expandModel g (snd e) (fst e)) es c) gid pl = index_view c gid pl"
  by (induction es arbitrary: c) (auto simp: index_view_def expandModel_def)

lemma fold_expandMapping_other:
  "g \<noteq> gid \<Longrightarrow> index_view (fold (expandMapping g pl') es c) gid pl = index_view c gid pl"
  by (induction es arbitrary: c) (auto simp: index_view_def expandMapping_def)

lemma expandPricing_flat:
  "expandPricingToCache ch gid platform c = fold (\<lambda>e. expandModel gid (snd e) (fst e)) (flat_pricing ch platform) c"
proof -
  have inner: "fold (expandModel gid p) ms c = fold (\<lambda>e. expandModel gid (snd e) (fst e)) (map (\<lambda>m. (m, p)) ms) c" for p ms c
    by (induction ms arbitrary: c) auto
  have "fold (\<lambda>pricing c. if \<not> isPlatformPricingMatch platform (cp_Platform pricing) then c
             else fold (expandModel gid pricing) (cp_Models pricing) c) ps c =
        fold (\<lambda>e. expandModel gid (snd e) (fst e))
          (concat (map (\<lambda>p. if cp_Platform p = platform then map (\<lambda>m. (m, p)) (cp_Models p) else []) ps)) c" for ps c
    by (induction ps arbitrary: c) (auto simp: isPlatformPricingMatch_def inner)
  then show ?thesis by (simp add: expandPricingToCache_def flat_pricing_def)
qed

lemma fold_expandModel_same:
  "\<forall>e \<in> set es. cp_Platform (snd e) = pl \<Longrightarrow>
   index_view (fold (\<lambda>e. expandModel gid (snd e) (fst e)) es c) gid pl =
     (cc_channelByGroup c gid,
      (\<lambda>k. case exact_last es k of Some p \<Rightarrow> Some p | None \<Rightarrow> cc_pricing c (gid, pl, k)),
      cc_wildcards c (gid, pl) @ wild_list es,
      (\<lambda>k. cc_mapping c (gid, pl, k)), cc_wildcardMapping c (gid, pl))"
proof (induction es rule: rev_induct)
  case Nil
  show ?case by (simp add: index_view_def exact_last_def wild_list_def)
next
  case (snoc e es)
  then show ?case
    by (auto simp: index_view_def expandModel_def exact_last_def wild_list_def fun_eq_iff)
qed

lemma fold_expandMapping_same:
  "index_view (fold (expandMapping gid pl) es c) gid pl =
     (cc_channelByGroup c gid, (\<lambda>k. cc_pricing c (gid, pl, k)), cc_wildcards c (gid, pl),
      (\<lambda>k. case exact_last es k of Some p \<Rightarrow> Some p | None \<Rightarrow> cc_mapping c (gid, pl, k)),
      cc_wildcardMapping c (gid, pl) @ wild_list es)"
proof (induction es rule: rev_induct)
  case Nil
  show ?case by (simp add: index_view_def exact_last_def wild_list_def)
next
  case (snoc e es)
  then show ?case
    by (auto simp: index_view_def expandMapping_def exact_last_def wild_list_def fun_eq_iff split: prod.splits)
qed

lemma expandMapping_flat:
  "expandMappingToCache ch gid platform c = fold (expandMapping gid platform) (flat_mapping ch platform) c"
  by (simp add: expandMappingToCache_def matchingPlatforms_def flat_mapping_def split: option.splits)

lemma addGroup_other: "g \<noteq> gid \<Longrightarrow> index_view (addGroup gp ch g c) gid pl = index_view c gid pl"
  by (simp add: addGroup_def expandMapping_flat expandPricing_flat fold_expandMapping_other fold_expandModel_other)
     (simp add: index_view_def)

lemma addGroup_same:
  assumes "blank_view c gid pl" and "pl = platform_of gp gid"
  shows "index_view (addGroup gp ch gid c) gid pl = channel_view ch pl"
proof -
  let ?c1 = "c\<lparr>cc_channelByGroup := (cc_channelByGroup c)(gid \<mapsto> ch)\<rparr>"
  let ?c2 = "fold (\<lambda>e. expandModel gid (snd e) (fst e)) (flat_pricing ch pl) ?c1"
  have "\<forall>e \<in> set (flat_pricing ch pl). cp_Platform (snd e) = pl"
    by (auto simp: flat_pricing_def)
  then have "index_view ?c2 gid pl =
      (Some ch, exact_last (flat_pricing ch pl), wild_list (flat_pricing ch pl), (\<lambda>_. None), [])"
    using assms(1) by (subst fold_expandModel_same) (auto simp: index_view_def fun_eq_iff split: option.splits)
  then have "index_view (fold (expandMapping gid pl) (flat_mapping ch pl) ?c2) gid pl = channel_view ch pl"
    by (subst fold_expandMapping_same)
       (auto simp: index_view_def channel_view_def fun_eq_iff split: option.splits)
  then show ?thesis
    by (simp add: addGroup_def expandMapping_flat expandPricing_flat assms(2))
qed

lemma fold_addGroup_other:
  "gid \<notin> set gs \<Longrightarrow> index_view (fold (addGroup gp ch) gs c) gid pl = index_view c gid pl"
  by (induction gs arbitrary: c) (auto simp: addGroup_other)

lemma addChannel_other:
  "gid \<notin> set (ch_GroupIDs ch) \<Longrightarrow> index_view (addChannel gp ch c) gid pl = index_view c gid pl"
  by (simp add: addChannel_def fold_addGroup_other) (simp add: index_view_def)

lemma addChannel_same:
  assumes "blank_view c gid pl" and "pl = platform_of gp gid" and "gid \<in> set (ch_GroupIDs ch)" and "distinct (ch_GroupIDs ch)"
  shows "index_view (addChannel gp ch c) gid pl = channel_view ch pl"
proof -
  from assms(3) obtain us vs where gs: "ch_GroupIDs ch = us @ gid # vs" by (meson in_set_conv_decomp)
  with assms(4) have n: "gid \<notin> set us" "gid \<notin> set vs" by auto
  have "blank_view (c\<lparr>cc_byID := (cc_byID c)(ch_ID ch \<mapsto> ch)\<rparr>) gid pl"
    using assms(1) by (simp add: index_view_def)
  with n assms(2) show ?thesis
    by (simp add: addChannel_def gs fold_addGroup_other addGroup_same)
qed

text \<open>Each group belongs to one channel at most.\<close>

definition one_channel_each :: "Channel list \<Rightarrow> bool" where
  "one_channel_each channels = distinct (concat (map ch_GroupIDs channels))"

lemma populate_other:
  "gid \<notin> set (concat (map ch_GroupIDs chs)) \<Longrightarrow> index_view (fold (addChannel gp) chs c) gid pl = index_view c gid pl"
  by (induction chs arbitrary: c) (auto simp: addChannel_other)

lemma populate_view:
  assumes "one_channel_each channels" and "ch \<in> set channels" and "gid \<in> set (ch_GroupIDs ch)"
  shows "index_view (populateChannelCache now channels gp) gid (platform_of gp gid) = channel_view ch (platform_of gp gid)"
proof -
  from assms(2) obtain us vs where chs: "channels = us @ ch # vs" by (meson in_set_conv_decomp)
  with assms(1,3) have n: "gid \<notin> set (concat (map ch_GroupIDs us))" "gid \<notin> set (concat (map ch_GroupIDs vs))"
      "distinct (ch_GroupIDs ch)"
    by (auto simp: one_channel_each_def)
  let ?c0 = "(newEmptyChannelCache now)\<lparr>cc_groupPlatform := gp\<rparr>"
  have "blank_view ?c0 gid (platform_of gp gid)"
    by (simp add: index_view_def newEmptyChannelCache_def)
  then have "blank_view (fold (addChannel gp) us ?c0) gid (platform_of gp gid)"
    using n(1) by (simp add: populate_other)
  then show ?thesis
    using n assms(3) by (simp add: populateChannelCache_def chs populate_other addChannel_same)
qed

lemma populate_no_channel:
  assumes "gid \<notin> set (concat (map ch_GroupIDs channels))"
  shows "cc_channelByGroup (populateChannelCache now channels gp) gid = None"
  using populate_other [OF assms, of gp "(newEmptyChannelCache now)\<lparr>cc_groupPlatform := gp\<rparr>"]
  by (simp add: populateChannelCache_def index_view_def newEmptyChannelCache_def)

lemma groupPlatform_populate [simp]: "cc_groupPlatform (populateChannelCache now channels gp) = gp"
proof -
  have m: "cc_groupPlatform (fold (expandModel g p) ms c) = cc_groupPlatform c" for g p ms c
    by (induction ms arbitrary: c) (auto simp: expandModel_def)
  have e: "cc_groupPlatform (fold (expandMapping g pl) es c) = cc_groupPlatform c" for g pl es c
    by (induction es arbitrary: c) (auto simp: expandMapping_def split: prod.splits)
  have p: "cc_groupPlatform (expandPricingToCache ch g pl c) = cc_groupPlatform c" for ch g pl c
  proof -
    have "cc_groupPlatform (fold (\<lambda>pricing c. if \<not> isPlatformPricingMatch pl (cp_Platform pricing) then c
             else fold (expandModel g pricing) (cp_Models pricing) c) ps c) = cc_groupPlatform c" for ps
      by (induction ps arbitrary: c) (auto simp: m)
    then show ?thesis by (simp add: expandPricingToCache_def)
  qed
  have g: "cc_groupPlatform (fold (addGroup gp ch) gs c) = cc_groupPlatform c" for ch gs c
    by (induction gs arbitrary: c) (auto simp: addGroup_def expandMapping_flat e p)
  have "cc_groupPlatform (fold (addChannel gp) chs c) = cc_groupPlatform c" for chs c
    by (induction chs arbitrary: c) (auto simp: addChannel_def g)
  then show ?thesis by (simp add: populateChannelCache_def)
qed

text \<open>Looking up the exact name first and a wildcard second, in a list without conflicts.\<close>

lemma exact_then_wild:
  assumes "at_most_one (\<lambda>e. pattern_matches (fst e) k) es"
  shows "(case exact_last es k of
            Some v \<Rightarrow> Some v
          | None \<Rightarrow> map_option snd (find (\<lambda>wc. has_prefix k (fst wc)) (wild_list es))) =
         map_option snd (find (\<lambda>e. pattern_matches (fst e) k) es)"
proof -
  let ?P = "\<lambda>e :: gostr \<times> 'a. pattern_matches (fst e) k" and ?Q = "\<lambda>e :: gostr \<times> 'a. \<not> has_suffix (fst e) ''*''"
  have exact: "exact_last es k = map_option snd (find (\<lambda>e. ?P e \<and> ?Q e) es)"
  proof -
    have "(\<lambda>e :: gostr \<times> 'a. \<not> has_suffix (fst e) ''*'' \<and> to_lower (fst e) = k) = (\<lambda>e. ?P e \<and> ?Q e)"
      by (auto simp: fun_eq_iff pattern_matches_code)
    then show ?thesis
      using find_rev [OF at_most_one_weaken [OF assms, of "\<lambda>e. ?P e \<and> ?Q e"]] by (simp add: exact_last_def)
  qed
  have "find (\<lambda>wc. has_prefix k (fst wc)) (wild_list es) =
      map_option (\<lambda>e. (to_lower (trim_suffix (fst e) ''*''), snd e)) (find (\<lambda>e. ?P e \<and> \<not> ?Q e) es)"
    unfolding wild_list_def by (induction es) (auto simp: pattern_matches_code)
  then have wild: "map_option snd (find (\<lambda>wc. has_prefix k (fst wc)) (wild_list es)) =
      map_option snd (find (\<lambda>e. ?P e \<and> \<not> ?Q e) es)"
    by (simp add: option.map_comp comp_def)
  show ?thesis
    unfolding exact wild find_split [OF assms, of ?Q] by (auto split: option.splits)
qed

lemma platform_entries_flat: "platform_entries (ch_ModelPricing ch) pl = map (\<lambda>e. toModelEntry (fst e)) (flat_pricing ch pl)"
proof -
  have "concat (map (\<lambda>p. if cp_Platform p = pl then map toModelEntry (cp_Models p) else []) ps) =
      map (\<lambda>e. toModelEntry (fst e))
        (concat (map (\<lambda>p. if cp_Platform p = pl then map (\<lambda>m. (m, p)) (cp_Models p) else []) ps))" for ps
    by (induction ps) auto
  then show ?thesis by (simp add: platform_entries_def flat_pricing_def)
qed

lemma validated_pricing:
  assumes "validateNoConflictingModels (ch_ModelPricing ch) = None"
  shows "at_most_one (\<lambda>e. pattern_matches (fst e) k) (flat_pricing ch pl)"
proof (cases "pl \<in> set (map cp_Platform (ch_ModelPricing ch))")
  case True
  with assms have "\<not> detectConflicts (platform_entries (ch_ModelPricing ch) pl)"
    by (auto simp: validateNoConflictingModels_def list_ex_iff split: if_splits)
  then show ?thesis unfolding platform_entries_flat by (rule conflict_free_at_most_one)
next
  case False
  then have "flat_pricing ch pl = []" by (auto simp: flat_pricing_def)
  then show ?thesis by (simp add: at_most_one_def)
qed

lemma validated_mapping:
  assumes "validateNoConflictingMappings (ch_ModelMapping ch) = None"
  shows "at_most_one (\<lambda>e. pattern_matches (fst e) k) (flat_mapping ch pl)"
proof (cases "map_of (ch_ModelMapping ch) pl")
  case None
  then show ?thesis by (simp add: flat_mapping_def at_most_one_def)
next
  case (Some m)
  then have "\<not> detectConflicts (map (\<lambda>e. toModelEntry (fst e)) m)"
    using assms map_of_SomeD [OF Some]
    by (auto simp: validateNoConflictingMappings_def list_ex_iff comp_def split: if_splits)
  then have "at_most_one (\<lambda>e. pattern_matches (fst e) k) m" by (rule conflict_free_at_most_one)
  with Some show ?thesis by (simp add: flat_mapping_def)
qed

lemma validated_config:
  assumes "validateChannelConfig pricing mapping = None"
  shows "validateNoConflictingModels pricing = None" "validateNoConflictingMappings mapping = None"
  using assms by (auto simp: validateChannelConfig_def split: option.splits)

section \<open>Lookups in the index\<close>

lemma first_some_single [simp]: "first_some f [x] = f x"
  by (simp split: option.splits)

lemma index_viewD:
  assumes "index_view c gid pl = channel_view ch pl"
  shows "cc_pricing c (gid, pl, k) = exact_last (flat_pricing ch pl) k"
    and "cc_wildcards c (gid, pl) = wild_list (flat_pricing ch pl)"
    and "cc_mapping c (gid, pl, k) = exact_last (flat_mapping ch pl) k"
    and "cc_wildcardMapping c (gid, pl) = wild_list (flat_mapping ch pl)"
    and "cc_channelByGroup c gid = Some ch"
  using assms by (auto simp: index_view_def channel_view_def fun_eq_iff)

lemma index_price:
  assumes "index_view c gid pl = channel_view ch pl" and "validateNoConflictingModels (ch_ModelPricing ch) = None"
  shows "lookupPricingAcrossPlatforms c gid pl k = channel_price ch pl k"
  unfolding lookupPricingAcrossPlatforms_def matchingPlatforms_def cacheMatchWildcard_def first_some_single
    index_viewD [OF assms(1)] channel_price_flat
  by (rule exact_then_wild [OF validated_pricing [OF assms(2)]])

lemma index_target:
  assumes "index_view c gid pl = channel_view ch pl" and "validateNoConflictingMappings (ch_ModelMapping ch) = None"
  shows "lookupMappingAcrossPlatforms c gid pl k = channel_target ch pl k"
proof -
  let ?or = "\<lambda>t. case t of None \<Rightarrow> '''' | Some v \<Rightarrow> v"
  have "lookupMappingAcrossPlatforms c gid pl k =
      ?or (case exact_last (flat_mapping ch pl) k of
            Some v \<Rightarrow> Some v
          | None \<Rightarrow> map_option snd (find (\<lambda>wc. has_prefix k (fst wc)) (wild_list (flat_mapping ch pl))))"
    unfolding lookupMappingAcrossPlatforms_def matchingPlatforms_def matchWildcardMapping_def Let_def
      first_some_single index_viewD [OF assms(1)]
    by (auto split: option.splits)
  also have "\<dots> = ?or (map_option snd (find (\<lambda>e. pattern_matches (fst e) k) (flat_mapping ch pl)))"
    by (simp only: exact_then_wild [OF validated_mapping [OF assms(2)]])
  also have "\<dots> = channel_target ch pl k"
    by (simp add: channel_target_def split: option.splits)
  finally show ?thesis .
qed

text \<open>In a list without conflicts, the order does not matter.\<close>

lemma channel_target_iff:
  assumes "validateNoConflictingMappings (ch_ModelMapping ch) = None"
    and "(src, dst) \<in> set (flat_mapping ch pl)" and "pattern_matches src k"
  shows "channel_target ch pl k = dst"
  using at_most_one_find [OF validated_mapping [OF assms(1)], of "(src, dst)" pl k] assms(2,3)
  by (simp add: channel_target_def)

lemma channel_target_none:
  assumes "\<not> list_ex (\<lambda>e. pattern_matches (fst e) k) (flat_mapping ch pl)"
  shows "channel_target ch pl k = ''''"
proof -
  have "find (\<lambda>e. pattern_matches (fst e) k) (flat_mapping ch pl) = None"
    using assms by (auto simp: find_None_iff list_ex_iff)
  then show ?thesis by (simp add: channel_target_def)
qed

lemma channel_price_unique:
  assumes "validateNoConflictingModels (ch_ModelPricing ch) = None"
    and "p \<in> set (ch_ModelPricing ch)" "cp_Platform p = pl" "m \<in> set (cp_Models p)" "pattern_matches m k"
  shows "channel_price ch pl k = Some p"
proof -
  have "(m, p) \<in> set (flat_pricing ch pl)" using assms(2-4) by (auto simp: flat_pricing_def)
  then show ?thesis
    using at_most_one_find [OF validated_pricing [OF assms(1)], of "(m, p)" pl k] assms(5)
    by (simp add: channel_price_flat)
qed

end
