(* ===== verification/Channel_Service.thy ===== *)
theory Channel_Service
  imports Channel_Index Usage_Billing Go_Values
begin

text \<open>
  The channel service over its tables (\<open>internal/service/channel_service.go\<close>,
  \<open>internal/repository/channel_repo.go\<close>, \<open>channel_repo_pricing.go\<close>): creating, changing and deleting
  channels, and the cached index that requests read.

  The tables \<open>channels\<close>, \<open>channel_groups\<close>, \<open>channel_model_pricing\<close> and
  \<open>channel_pricing_intervals\<close> are one list of channels in the order of their ids, with the unique
  indexes on names and groups, the foreign key to \<open>groups\<close> and the scales of the price columns.  A
  call of the repository takes effect as a whole or fails (\<open>ce_fault\<close>).  Row ids of prices and
  intervals and timestamps are left out; concurrent loads of the cache are one load
  (\<open>singleflight\<close>).  Invalidations of cached keys and notifications are logged in the world.
\<close>

section \<open>The tables\<close>

record channel_db =
  cdb_channels :: "Channel list"
  cdb_platforms :: "int64 \<Rightarrow> gostr option"
  cdb_next :: int64

definition stored_price :: "nat \<Rightarrow> rat option \<Rightarrow> rat option" where
  "stored_price scale p = map_option (round_away scale) p"

definition createIntervalExec :: "PricingInterval \<Rightarrow> PricingInterval" where
  "createIntervalExec iv =
     iv\<lparr>iv_InputPrice := stored_price 12 (iv_InputPrice iv), iv_OutputPrice := stored_price 12 (iv_OutputPrice iv),
        iv_CacheWritePrice := stored_price 12 (iv_CacheWritePrice iv),
        iv_CacheReadPrice := stored_price 12 (iv_CacheReadPrice iv),
        iv_PerRequestPrice := stored_price 12 (iv_PerRequestPrice iv)\<rparr>"

definition sort_order_less :: "PricingInterval \<Rightarrow> PricingInterval \<Rightarrow> bool" where
  "sort_order_less x y = (iv_SortOrder x < iv_SortOrder y)"

text \<open>What is read back after a row was written: intervals come in the order of \<open>sort_order\<close>.\<close>

definition createModelPricingExec :: "int64 \<Rightarrow> ChannelModelPricing \<Rightarrow> ChannelModelPricing" where
  "createModelPricingExec channelID p =
     p\<lparr>cp_ChannelID := channelID,
       cp_Platform := (if cp_Platform p = '''' then ''anthropic'' else cp_Platform p),
       cp_BillingMode := (if cp_BillingMode p = '''' then BillingModeToken else cp_BillingMode p),
       cp_InputPrice := stored_price 12 (cp_InputPrice p), cp_OutputPrice := stored_price 12 (cp_OutputPrice p),
       cp_CacheWritePrice := stored_price 12 (cp_CacheWritePrice p),
       cp_CacheReadPrice := stored_price 12 (cp_CacheReadPrice p),
       cp_ImageOutputPrice := stored_price 8 (cp_ImageOutputPrice p),
       cp_PerRequestPrice := stored_price 10 (cp_PerRequestPrice p),
       cp_Intervals := sort_by sort_order_less (map createIntervalExec (cp_Intervals p))\<rparr>"

definition stored_channel :: "Channel \<Rightarrow> Channel" where
  "stored_channel c =
     c\<lparr>ch_GroupIDs := sort (ch_GroupIDs c), ch_ModelPricing := map (createModelPricingExec (ch_ID c)) (ch_ModelPricing c)\<rparr>"

definition name_taken :: "channel_db \<Rightarrow> gostr \<Rightarrow> int64 option \<Rightarrow> bool" where
  "name_taken db name except = list_ex (\<lambda>c. ch_Name c = name \<and> Some (ch_ID c) \<noteq> except) (cdb_channels db)"

definition GetGroupsInOtherChannels :: "channel_db \<Rightarrow> int64 \<Rightarrow> int64 list \<Rightarrow> int64 list" where
  "GetGroupsInOtherChannels db channelID groupIDs =
     filter (\<lambda>g. g \<in> set groupIDs)
       (concat (map (\<lambda>c. if ch_ID c \<noteq> channelID then ch_GroupIDs c else []) (cdb_channels db)))"

text \<open>The insertion of a channel's groups succeeds.\<close>

definition setGroupIDsTx :: "channel_db \<Rightarrow> int64 \<Rightarrow> int64 list \<Rightarrow> bool" where
  "setGroupIDsTx db channelID groupIDs =
     (distinct groupIDs \<and> list_all (\<lambda>g. cdb_platforms db g \<noteq> None) groupIDs \<and>
      GetGroupsInOtherChannels db channelID groupIDs = [])"

definition repoCreate :: "Channel \<Rightarrow> channel_db \<Rightarrow> channel_error + int64 \<times> channel_db" where
  "repoCreate channel db =
     (if name_taken db (ch_Name channel) None then Inl ChannelExists
      else if \<not> setGroupIDsTx db (cdb_next db) (ch_GroupIDs channel) then Inl ChannelSQLError
      else Inr (cdb_next db,
             db\<lparr>cdb_channels := cdb_channels db @ [stored_channel (channel\<lparr>ch_ID := cdb_next db\<rparr>)],
                cdb_next := cdb_next db + 1\<rparr>))"

definition repoGetByID :: "int64 \<Rightarrow> channel_db \<Rightarrow> channel_error + Channel" where
  "repoGetByID i db = (case find (\<lambda>c. ch_ID c = i) (cdb_channels db) of None \<Rightarrow> Inl ChannelNotFound | Some c \<Rightarrow> Inr c)"

definition repoUpdate :: "Channel \<Rightarrow> channel_db \<Rightarrow> channel_error + channel_db" where
  "repoUpdate channel db =
     (if name_taken db (ch_Name channel) (Some (ch_ID channel)) then Inl ChannelExists
      else if \<not> list_ex (\<lambda>c. ch_ID c = ch_ID channel) (cdb_channels db) then Inl ChannelNotFound
      else if \<not> setGroupIDsTx db (ch_ID channel) (ch_GroupIDs channel) then Inl ChannelSQLError
      else Inr (db\<lparr>cdb_channels :=
             map (\<lambda>c. if ch_ID c = ch_ID channel then stored_channel channel else c) (cdb_channels db)\<rparr>))"

definition repoDelete :: "int64 \<Rightarrow> channel_db \<Rightarrow> channel_error + channel_db" where
  "repoDelete i db =
     (if \<not> list_ex (\<lambda>c. ch_ID c = i) (cdb_channels db) then Inl ChannelNotFound
      else Inr (db\<lparr>cdb_channels := filter (\<lambda>c. ch_ID c \<noteq> i) (cdb_channels db)\<rparr>))"

section \<open>The cache\<close>

datatype channel_call =
  CallExists | CallConflicts | CallWrite | CallGetBefore | CallGetAfter | CallOldGroups | CallListAll | CallPlatforms

record channel_env =
  ce_now :: time
  ce_fault :: "channel_call \<Rightarrow> bool"
  ce_hasInvalidator :: bool
  ce_hasBus :: bool

record channel_world =
  cw_db :: channel_db
  cw_cache :: "channelCache option"
  cw_invalidated :: "int64 list"
  cw_published :: nat

definition channelCacheTTL :: time where "channelCacheTTL = 10 * minute"
definition channelErrorTTL :: time where "channelErrorTTL = 5 * second"

definition storeErrorCache :: "channel_env \<Rightarrow> channel_world \<Rightarrow> channel_world" where
  "storeErrorCache env w =
     w\<lparr>cw_cache := Some (newEmptyChannelCache (ce_now env - (channelCacheTTL - channelErrorTTL)))\<rparr>"

definition GetGroupPlatforms :: "channel_db \<Rightarrow> int64 list \<Rightarrow> int64 \<Rightarrow> gostr option" where
  "GetGroupPlatforms db groupIDs = (\<lambda>g. if g \<in> set groupIDs then cdb_platforms db g else None)"

definition fetchChannelData ::
    "channel_env \<Rightarrow> channel_world \<Rightarrow> (channel_error + Channel list \<times> (int64 \<Rightarrow> gostr option)) \<times> channel_world" where
  "fetchChannelData env w =
     (if ce_fault env CallListAll then (Inl ChannelSQLError, storeErrorCache env w)
      else let channels = cdb_channels (cw_db w);
               allGroupIDs = concat (map ch_GroupIDs channels)
           in if allGroupIDs = [] then (Inr (channels, \<lambda>_. None), w)
              else if ce_fault env CallPlatforms then (Inl ChannelSQLError, storeErrorCache env w)
              else (Inr (channels, GetGroupPlatforms (cw_db w) allGroupIDs), w))"

definition buildCache :: "channel_env \<Rightarrow> channel_world \<Rightarrow> (channel_error + channelCache) \<times> channel_world" where
  "buildCache env w =
     (case fetchChannelData env w of
        (Inl e, w1) \<Rightarrow> (Inl e, w1)
      | (Inr (channels, groupPlatforms), w1) \<Rightarrow>
          let cache = populateChannelCache (ce_now env) channels groupPlatforms
          in (Inr cache, w1\<lparr>cw_cache := Some cache\<rparr>))"

text \<open>
  A build reads the database and stores the index in two moments, between which other operations can
  run: \<open>loadCache\<close> admits one build at a time (singleflight), but \<open>RefreshCache\<close> forgets that build
  and starts one of its own beside it.  \<open>buildCache\<close> above is the build that nothing overlaps;
  \<open>finishBuild\<close> is its second half, for rows that were read earlier (\<open>stale_build_overwrites\<close>).
\<close>

definition finishBuild :: "channel_env \<Rightarrow> Channel list \<times> (int64 \<Rightarrow> gostr option) \<Rightarrow> channel_world \<Rightarrow> channel_world" where
  "finishBuild env rows w =
     (case rows of (channels, groupPlatforms) \<Rightarrow>
        w\<lparr>cw_cache := Some (populateChannelCache (ce_now env) channels groupPlatforms)\<rparr>)"

lemma buildCache_steps:
  "buildCache env w =
     (case fetchChannelData env w of
        (Inl e, w1) \<Rightarrow> (Inl e, w1)
      | (Inr rows, w1) \<Rightarrow> (Inr (populateChannelCache (ce_now env) (fst rows) (snd rows)), finishBuild env rows w1))"
  by (auto simp: buildCache_def finishBuild_def Let_def split: prod.split sum.split)

definition loadCache :: "channel_env \<Rightarrow> channel_world \<Rightarrow> (channel_error + channelCache) \<times> channel_world" where
  "loadCache env w =
     (case cw_cache w of
        Some cached \<Rightarrow> if ce_now env - cc_loadedAt cached < channelCacheTTL then (Inr cached, w) else buildCache env w
      | None \<Rightarrow> buildCache env w)"

definition RefreshCache :: "channel_env \<Rightarrow> channel_world \<Rightarrow> (channel_error + channelCache) \<times> channel_world" where
  "RefreshCache env w = buildCache env (w\<lparr>cw_cache := None\<rparr>)"

definition invalidateCache :: "channel_env \<Rightarrow> channel_world \<Rightarrow> channel_world" where
  "invalidateCache env w = snd (RefreshCache env w)"

definition notifyChannelsChanged :: "channel_env \<Rightarrow> channel_world \<Rightarrow> channel_world" where
  "notifyChannelsChanged env w = (if ce_hasBus env then w\<lparr>cw_published := cw_published w + 1\<rparr> else w)"

section \<open>What requests ask\<close>

record channelLookup =
  lk_cache :: channelCache
  lk_channel :: Channel
  lk_platform :: gostr

definition lookupGroupChannel ::
    "channel_env \<Rightarrow> int64 \<Rightarrow> channel_world \<Rightarrow> (channel_error + channelLookup option) \<times> channel_world" where
  "lookupGroupChannel env groupID w =
     (case loadCache env w of
        (Inl e, w1) \<Rightarrow> (Inl e, w1)
      | (Inr cache, w1) \<Rightarrow>
          (case cc_channelByGroup cache groupID of
             None \<Rightarrow> (Inr None, w1)
           | Some ch \<Rightarrow>
               if \<not> channelIsActive ch then (Inr None, w1)
               else (Inr (Some \<lparr>lk_cache = cache, lk_channel = ch,
                                lk_platform = platform_of (cc_groupPlatform cache) groupID\<rparr>), w1)))"

definition GetChannelForGroup ::
    "channel_env \<Rightarrow> int64 \<Rightarrow> channel_world \<Rightarrow> (channel_error + Channel option) \<times> channel_world" where
  "GetChannelForGroup env groupID w =
     (case loadCache env w of
        (Inl e, w1) \<Rightarrow> (Inl e, w1)
      | (Inr cache, w1) \<Rightarrow>
          (case cc_channelByGroup cache groupID of
             None \<Rightarrow> (Inr None, w1)
           | Some ch \<Rightarrow> (Inr (if channelIsActive ch then Some ch else None), w1)))"

definition GetChannelModelPricing ::
    "channel_env \<Rightarrow> int64 \<Rightarrow> gostr \<Rightarrow> channel_world \<Rightarrow> ChannelModelPricing option \<times> channel_world" where
  "GetChannelModelPricing env groupID model w =
     (case lookupGroupChannel env groupID w of
        (Inr (Some lk), w1) \<Rightarrow>
          (lookupPricingAcrossPlatforms (lk_cache lk) groupID (lk_platform lk) (to_lower model), w1)
      | (_, w1) \<Rightarrow> (None, w1))"

record ChannelMappingResult =
  mr_MappedModel :: gostr
  mr_ChannelID :: int64
  mr_Mapped :: bool
  mr_BillingModelSource :: gostr

definition unmapped :: "gostr \<Rightarrow> ChannelMappingResult" where
  "unmapped model = \<lparr>mr_MappedModel = model, mr_ChannelID = 0, mr_Mapped = False, mr_BillingModelSource = ''''\<rparr>"

definition resolveMapping :: "channelLookup \<Rightarrow> int64 \<Rightarrow> gostr \<Rightarrow> ChannelMappingResult" where
  "resolveMapping lk groupID model =
     (let result = \<lparr>mr_MappedModel = model, mr_ChannelID = ch_ID (lk_channel lk), mr_Mapped = False,
            mr_BillingModelSource = (if ch_BillingModelSource (lk_channel lk) = '''' then BillingModelSourceChannelMapped
                                     else ch_BillingModelSource (lk_channel lk))\<rparr>;
          mapped = lookupMappingAcrossPlatforms (lk_cache lk) groupID (lk_platform lk) (to_lower model)
      in if mapped \<noteq> '''' then result\<lparr>mr_MappedModel := mapped, mr_Mapped := True\<rparr> else result)"

definition ResolveChannelMapping ::
    "channel_env \<Rightarrow> int64 \<Rightarrow> gostr \<Rightarrow> channel_world \<Rightarrow> ChannelMappingResult \<times> channel_world" where
  "ResolveChannelMapping env groupID model w =
     (case lookupGroupChannel env groupID w of
        (Inr (Some lk), w1) \<Rightarrow> (resolveMapping lk groupID model, w1)
      | (_, w1) \<Rightarrow> (unmapped model, w1))"

definition ResolveChannelMappingAndRestrict ::
    "channel_env \<Rightarrow> int64 option \<Rightarrow> gostr \<Rightarrow> channel_world \<Rightarrow> (ChannelMappingResult \<times> bool) \<times> channel_world" where
  "ResolveChannelMappingAndRestrict env groupID model w =
     (case groupID of
        None \<Rightarrow> ((unmapped model, False), w)
      | Some g \<Rightarrow> (case ResolveChannelMapping env g model w of (r, w1) \<Rightarrow> ((r, False), w1)))"

definition checkRestricted :: "channelLookup \<Rightarrow> int64 \<Rightarrow> gostr \<Rightarrow> bool" where
  "checkRestricted lk groupID model =
     (ch_RestrictModels (lk_channel lk) \<and>
      lookupPricingAcrossPlatforms (lk_cache lk) groupID (lk_platform lk) (to_lower model) = None)"

definition IsModelRestricted :: "channel_env \<Rightarrow> int64 \<Rightarrow> gostr \<Rightarrow> channel_world \<Rightarrow> bool \<times> channel_world" where
  "IsModelRestricted env groupID model w =
     (case lookupGroupChannel env groupID w of
        (Inr (Some lk), w1) \<Rightarrow> (checkRestricted lk groupID model, w1)
      | (_, w1) \<Rightarrow> (False, w1))"

definition arrow :: gostr where "arrow = [CHR 0xE2, CHR 0x86, CHR 0x92]"

definition BuildModelMappingChain :: "ChannelMappingResult \<Rightarrow> gostr \<Rightarrow> gostr \<Rightarrow> gostr" where
  "BuildModelMappingChain r reqModel upstreamModel =
     (if \<not> mr_Mapped r
      then if upstreamModel \<noteq> '''' \<and> upstreamModel \<noteq> reqModel then reqModel @ arrow @ upstreamModel else ''''
      else if upstreamModel \<noteq> '''' \<and> upstreamModel \<noteq> mr_MappedModel r
           then reqModel @ arrow @ mr_MappedModel r @ arrow @ upstreamModel
           else reqModel @ arrow @ mr_MappedModel r)"

record ChannelUsageFields =
  uf_ChannelID :: int64
  uf_OriginalModel :: gostr
  uf_ChannelMappedModel :: gostr
  uf_BillingModelSource :: gostr
  uf_ModelMappingChain :: gostr

definition ToUsageFields :: "ChannelMappingResult \<Rightarrow> gostr \<Rightarrow> gostr \<Rightarrow> ChannelUsageFields" where
  "ToUsageFields r reqModel upstreamModel =
     \<lparr>uf_ChannelID = mr_ChannelID r, uf_OriginalModel = reqModel,
      uf_ChannelMappedModel = (if mr_Mapped r then mr_MappedModel r else reqModel),
      uf_BillingModelSource = mr_BillingModelSource r,
      uf_ModelMappingChain = BuildModelMappingChain r reqModel upstreamModel\<rparr>"

section \<open>Creating, changing and deleting\<close>

record CreateChannelInput =
  ci_Name :: gostr
  ci_Description :: gostr
  ci_GroupIDs :: "int64 list"
  ci_ModelPricing :: "ChannelModelPricing list"
  ci_ModelMapping :: model_mapping
  ci_BillingModelSource :: gostr
  ci_RestrictModels :: bool

record UpdateChannelInput =
  ui_Name :: gostr
  ui_Description :: "gostr option"
  ui_Status :: gostr
  ui_GroupIDs :: "int64 list option"
  ui_ModelPricing :: "ChannelModelPricing list option"
  ui_ModelMapping :: "model_mapping option"
  ui_BillingModelSource :: gostr
  ui_RestrictModels :: "bool option"

definition checkGroupConflicts :: "channel_env \<Rightarrow> channel_db \<Rightarrow> int64 \<Rightarrow> int64 list \<Rightarrow> channel_error option" where
  "checkGroupConflicts env db channelID groupIDs =
     (if groupIDs = [] then None
      else if ce_fault env CallConflicts then Some ChannelSQLError
      else if GetGroupsInOtherChannels db channelID groupIDs \<noteq> [] then Some GroupAlreadyInChannel
      else None)"

definition getAfter :: "channel_env \<Rightarrow> int64 \<Rightarrow> channel_db \<Rightarrow> channel_error + Channel" where
  "getAfter env i db = (if ce_fault env CallGetAfter then Inl ChannelSQLError else repoGetByID i db)"

definition svcCreate :: "channel_env \<Rightarrow> CreateChannelInput \<Rightarrow> channel_world \<Rightarrow> (channel_error + Channel) \<times> channel_world" where
  "svcCreate env inp w =
     (let db = cw_db w in
      if ce_fault env CallExists then (Inl ChannelSQLError, w)
      else if name_taken db (ci_Name inp) None then (Inl ChannelExists, w)
      else case checkGroupConflicts env db 0 (ci_GroupIDs inp) of
        Some e \<Rightarrow> (Inl e, w)
      | None \<Rightarrow>
          let channel = \<lparr>ch_ID = 0, ch_Name = ci_Name inp, ch_Description = ci_Description inp, ch_Status = ''active'',
                ch_BillingModelSource = (if ci_BillingModelSource inp = '''' then BillingModelSourceChannelMapped
                                         else ci_BillingModelSource inp),
                ch_RestrictModels = ci_RestrictModels inp, ch_GroupIDs = ci_GroupIDs inp,
                ch_ModelPricing = ci_ModelPricing inp, ch_ModelMapping = ci_ModelMapping inp\<rparr>
          in case validateChannelConfig (ch_ModelPricing channel) (ch_ModelMapping channel) of
               Some e \<Rightarrow> (Inl e, w)
             | None \<Rightarrow>
                 if ce_fault env CallWrite then (Inl ChannelSQLError, w)
                 else case repoCreate channel db of
                        Inl e \<Rightarrow> (Inl e, w)
                      | Inr (i, db1) \<Rightarrow>
                          let w1 = notifyChannelsChanged env (invalidateCache env (w\<lparr>cw_db := db1\<rparr>))
                          in (getAfter env i (cw_db w1), w1))"

definition or_keep :: "gostr \<Rightarrow> gostr \<Rightarrow> gostr" where
  "or_keep new old = (if new = '''' then old else new)"

definition updatedChannel :: "Channel \<Rightarrow> UpdateChannelInput \<Rightarrow> Channel" where
  "updatedChannel c inp =
     c\<lparr>ch_Name := or_keep (ui_Name inp) (ch_Name c),
        ch_Description := case_option (ch_Description c) id (ui_Description inp),
        ch_Status := or_keep (ui_Status inp) (ch_Status c),
        ch_RestrictModels := case_option (ch_RestrictModels c) id (ui_RestrictModels inp),
        ch_GroupIDs := case_option (ch_GroupIDs c) id (ui_GroupIDs inp),
        ch_ModelPricing := case_option (ch_ModelPricing c) id (ui_ModelPricing inp),
        ch_ModelMapping := case_option (ch_ModelMapping c) id (ui_ModelMapping inp),
        ch_BillingModelSource := or_keep (ui_BillingModelSource inp) (ch_BillingModelSource c)\<rparr>"

definition applyUpdateInput :: "channel_env \<Rightarrow> channel_db \<Rightarrow> Channel \<Rightarrow> UpdateChannelInput \<Rightarrow> channel_error + Channel" where
  "applyUpdateInput env db c inp =
     (if ui_Name inp \<noteq> '''' \<and> ui_Name inp \<noteq> ch_Name c \<and> ce_fault env CallExists then Inl ChannelSQLError
      else if ui_Name inp \<noteq> '''' \<and> ui_Name inp \<noteq> ch_Name c \<and> name_taken db (ui_Name inp) (Some (ch_ID c))
      then Inl ChannelExists
      else case (case ui_GroupIDs inp of None \<Rightarrow> None | Some gs \<Rightarrow> checkGroupConflicts env db (ch_ID c) gs) of
             Some e \<Rightarrow> Inl e
           | None \<Rightarrow> Inr (updatedChannel c inp))"

definition getOldGroupIDs :: "channel_env \<Rightarrow> int64 \<Rightarrow> channel_db \<Rightarrow> int64 list" where
  "getOldGroupIDs env i db =
     (if \<not> ce_hasInvalidator env \<or> ce_fault env CallOldGroups then []
      else case repoGetByID i db of Inl _ \<Rightarrow> [] | Inr c \<Rightarrow> ch_GroupIDs c)"

definition invalidateAuthCacheForGroups :: "channel_env \<Rightarrow> int64 list \<Rightarrow> channel_world \<Rightarrow> channel_world" where
  "invalidateAuthCacheForGroups env groupIDs w =
     (if ce_hasInvalidator env then w\<lparr>cw_invalidated := cw_invalidated w @ rev (remdups (rev groupIDs))\<rparr> else w)"

definition svcUpdate ::
    "channel_env \<Rightarrow> int64 \<Rightarrow> UpdateChannelInput \<Rightarrow> channel_world \<Rightarrow> (channel_error + Channel) \<times> channel_world" where
  "svcUpdate env i inp w =
     (let db = cw_db w in
      if ce_fault env CallGetBefore then (Inl ChannelSQLError, w)
      else case repoGetByID i db of
        Inl e \<Rightarrow> (Inl e, w)
      | Inr c \<Rightarrow>
          (case applyUpdateInput env db c inp of
             Inl e \<Rightarrow> (Inl e, w)
           | Inr channel \<Rightarrow>
               (case validateChannelConfig (ch_ModelPricing channel) (ch_ModelMapping channel) of
                  Some e \<Rightarrow> (Inl e, w)
                | None \<Rightarrow>
                    let old = getOldGroupIDs env i db
                    in if ce_fault env CallWrite then (Inl ChannelSQLError, w)
                       else case repoUpdate channel db of
                         Inl e \<Rightarrow> (Inl e, w)
                       | Inr db1 \<Rightarrow>
                           let w1 = notifyChannelsChanged env
                                 (invalidateAuthCacheForGroups env (old @ ch_GroupIDs channel)
                                   (invalidateCache env (w\<lparr>cw_db := db1\<rparr>)))
                           in (getAfter env i (cw_db w1), w1))))"

definition deletedGroupIDs :: "channel_env \<Rightarrow> int64 \<Rightarrow> channel_db \<Rightarrow> int64 list" where
  "deletedGroupIDs env i db =
     (if ce_fault env CallOldGroups then []
      else case repoGetByID i db of Inl _ \<Rightarrow> [] | Inr c \<Rightarrow> ch_GroupIDs c)"

definition svcDelete :: "channel_env \<Rightarrow> int64 \<Rightarrow> channel_world \<Rightarrow> channel_error option \<times> channel_world" where
  "svcDelete env i w =
     (let groupIDs = deletedGroupIDs env i (cw_db w) in
      if ce_fault env CallWrite then (Some ChannelSQLError, w)
      else case repoDelete i (cw_db w) of
        Inl e \<Rightarrow> (Some e, w)
      | Inr db1 \<Rightarrow>
          (None, notifyChannelsChanged env
                   (invalidateAuthCacheForGroups env groupIDs (invalidateCache env (w\<lparr>cw_db := db1\<rparr>)))))"

section \<open>What is stored stays valid\<close>

lemma round_away_nonneg: "0 \<le> x \<Longrightarrow> 0 \<le> round_away k x"
  by (simp add: round_away_def sgn_if)

lemma stored_price_neg: "\<not> negative_price (n, p) \<Longrightarrow> \<not> negative_price (n, stored_price k p)"
  by (auto simp: negative_price_def stored_price_def not_less round_away_nonneg split: option.splits)

lemma stored_price_None [simp]: "stored_price k p = None \<longleftrightarrow> p = None"
  by (simp add: stored_price_def)

lemma createInterval_ok: "interval_ok iv \<Longrightarrow> interval_ok (createIntervalExec iv)"
  by (auto simp: interval_ok_def bounds_ok_def createIntervalExec_def interval_prices_def dest: stored_price_neg
      split: option.splits)

lemma createInterval_apart: "apart (createIntervalExec x) (createIntervalExec y) = apart x y"
  by (simp add: apart_def interval_matches_def createIntervalExec_def)

lemma createInterval_price [simp]: "interval_has_price (createIntervalExec iv) = interval_has_price iv"
  by (simp add: interval_has_price_def createIntervalExec_def)

lemma stored_intervals_valid:
  assumes "ValidateIntervals ivs = None"
  shows "ValidateIntervals (sort_by sort_order_less (map createIntervalExec ivs)) = None"
proof -
  have "ValidateIntervals (map createIntervalExec ivs) = None"
    using assms by (auto simp: validate_intervals_iff list_all_iff sorted_wrt_map createInterval_apart createInterval_ok)
  then show ?thesis by (rule matching_interval_permuted(1)) simp
qed

lemma sort_by_Nil: "sort_by lt xs = [] \<longleftrightarrow> xs = []"
  by (metis length_0_conv length_sort_by)

lemma first_some_None: "first_some f xs = None \<longleftrightarrow> list_all (\<lambda>x. f x = None) xs"
  by (induction xs) (auto split: option.splits)

lemma case_error_None: "(case x of None \<Rightarrow> y | Some e \<Rightarrow> Some e) = None \<longleftrightarrow> x = None \<and> y = None"
  by (cases x) auto

lemma validateChannelConfig_None:
  "validateChannelConfig ps m = None \<longleftrightarrow>
     validateNoConflictingModels ps = None \<and> validateNoConflictingMappings m = None \<and>
     list_all (\<lambda>p. ValidateIntervals (cp_Intervals p) = None \<and> checkBillingModeRequirements p = None \<and>
                   checkPricesNotNegative p = None \<and> checkIntervalsHavePrices p = None) ps"
  by (auto simp: validateChannelConfig_def validatePricingIntervals_def validatePricingBillingMode_def first_some_None
      case_error_None list_all_iff)

abbreviation platforms_given :: "ChannelModelPricing list \<Rightarrow> bool" where
  "platforms_given ps \<equiv> list_all (\<lambda>p. cp_Platform p \<noteq> '''') ps"

lemma stored_pricing_valid:
  assumes "validateChannelConfig ps m = None" and "platforms_given ps"
  shows "validateChannelConfig (map (createModelPricingExec i) ps) m = None"
    and "platforms_given (map (createModelPricingExec i) ps)"
proof -
  have "cp_Platform p \<noteq> '''' \<Longrightarrow> cp_Platform (createModelPricingExec i p) = cp_Platform p"
    and models: "cp_Models (createModelPricingExec i p) = cp_Models p" for p
    by (simp_all add: createModelPricingExec_def)
  then have platform: "\<forall>p \<in> set ps. cp_Platform (createModelPricingExec i p) = cp_Platform p"
    using assms(2) by (simp add: list_all_iff)
  then have "platform_entries (map (createModelPricingExec i) ps) pl = platform_entries ps pl" for pl
    by (auto simp: platform_entries_def models cong: map_cong intro!: arg_cong [of _ _ concat])
  then have "validateNoConflictingModels (map (createModelPricingExec i) ps) = None"
    using assms(1) platform
    by (auto simp: validateChannelConfig_None validateNoConflictingModels_def list_ex_iff split: if_splits)
  moreover have "checkPricesNotNegative p = None \<Longrightarrow> checkPricesNotNegative (createModelPricingExec i p) = None" for p
    by (simp add: checkPricesNotNegative_def createModelPricingExec_def find_None stored_price_neg del: find.simps)
  moreover have "checkBillingModeRequirements p = None \<Longrightarrow> checkBillingModeRequirements (createModelPricingExec i p) = None" for p
    by (auto simp: checkBillingModeRequirements_def createModelPricingExec_def sort_by_Nil BillingModeToken_def
        BillingModePerRequest_def BillingModeImage_def split: if_splits)
  moreover have "checkIntervalsHavePrices p = None \<Longrightarrow> checkIntervalsHavePrices (createModelPricingExec i p) = None" for p
    by (auto simp: checkIntervalsHavePrices_def createModelPricingExec_def list_all_iff split: if_splits)
  moreover have "ValidateIntervals (cp_Intervals p) = None \<Longrightarrow>
      ValidateIntervals (cp_Intervals (createModelPricingExec i p)) = None" for p
    by (simp add: createModelPricingExec_def stored_intervals_valid)
  ultimately show "validateChannelConfig (map (createModelPricingExec i) ps) m = None"
    using assms(1) by (auto simp: validateChannelConfig_None list_all_iff)
  show "platforms_given (map (createModelPricingExec i) ps)"
    by (simp add: list_all_iff createModelPricingExec_def)
qed

section \<open>The invariant of the tables\<close>

definition config_valid :: "Channel \<Rightarrow> bool" where
  "config_valid c = (validateChannelConfig (ch_ModelPricing c) (ch_ModelMapping c) = None \<and> platforms_given (ch_ModelPricing c))"

definition channels_ok :: "channel_db \<Rightarrow> bool" where
  "channels_ok db =
     (distinct (map ch_ID (cdb_channels db)) \<and> distinct (map ch_Name (cdb_channels db)) \<and>
      one_channel_each (cdb_channels db) \<and> list_all config_valid (cdb_channels db) \<and>
      list_all (\<lambda>c. ch_ID c < cdb_next db) (cdb_channels db) \<and>
      list_all (\<lambda>c. list_all (\<lambda>g. cdb_platforms db g \<noteq> None) (ch_GroupIDs c)) (cdb_channels db))"

lemma stored_channel_simps [simp]:
  "ch_ID (stored_channel c) = ch_ID c" "ch_Name (stored_channel c) = ch_Name c"
  "ch_GroupIDs (stored_channel c) = sort (ch_GroupIDs c)" "ch_Status (stored_channel c) = ch_Status c"
  "ch_RestrictModels (stored_channel c) = ch_RestrictModels c" "ch_ModelMapping (stored_channel c) = ch_ModelMapping c"
  "ch_ModelPricing (stored_channel c) = map (createModelPricingExec (ch_ID c)) (ch_ModelPricing c)"
  by (simp_all add: stored_channel_def)

lemma config_valid_stored:
  assumes "validateChannelConfig (ch_ModelPricing c) (ch_ModelMapping c) = None" "platforms_given (ch_ModelPricing c)"
  shows "config_valid (stored_channel c)"
  using stored_pricing_valid [OF assms] by (simp add: config_valid_def)

lemma GetGroupsInOtherChannels_Nil:
  "GetGroupsInOtherChannels db i gs = [] \<longleftrightarrow>
     (\<forall>c \<in> set (cdb_channels db). ch_ID c \<noteq> i \<longrightarrow> set gs \<inter> set (ch_GroupIDs c) = {})"
  by (auto simp: GetGroupsInOtherChannels_def filter_empty_conv split: if_splits)

lemma repoCreate_ok:
  assumes "channels_ok db" and "repoCreate c db = Inr (i, db')"
    and "validateChannelConfig (ch_ModelPricing c) (ch_ModelMapping c) = None" "platforms_given (ch_ModelPricing c)"
  shows "channels_ok db'"
proof -
  let ?c = "stored_channel (c\<lparr>ch_ID := cdb_next db\<rparr>)"
  have db': "cdb_channels db' = cdb_channels db @ [?c]" "cdb_next db' = cdb_next db + 1"
      "cdb_platforms db' = cdb_platforms db"
    and name: "\<not> name_taken db (ch_Name c) None" and gs: "setGroupIDsTx db (cdb_next db) (ch_GroupIDs c)"
    using assms(2) by (auto simp: repoCreate_def split: if_splits)
  have "config_valid ?c" using assms(3,4) by (intro config_valid_stored) simp_all
  moreover have "ch_Name c \<notin> set (map ch_Name (cdb_channels db))"
    using name by (auto simp: name_taken_def list_ex_iff)
  moreover have "set (ch_GroupIDs c) \<inter> set (concat (map ch_GroupIDs (cdb_channels db))) = {}"
  proof -
    have "ch_ID x \<noteq> cdb_next db" if "x \<in> set (cdb_channels db)" for x
      using assms(1) that by (auto simp: channels_ok_def list_all_iff)
    then show ?thesis using gs by (auto simp: setGroupIDsTx_def GetGroupsInOtherChannels_Nil)
  qed
  ultimately show ?thesis
    using assms(1) gs
    by (auto simp: channels_ok_def db' one_channel_each_def list_all_iff setGroupIDsTx_def)
qed

lemma distinct_concat_replace:
  assumes "distinct (concat (map f xs))" and "distinct (map g xs)" and "distinct (f y)"
    and "\<And>x. x \<in> set xs \<Longrightarrow> g x \<noteq> i \<Longrightarrow> set (f y) \<inter> set (f x) = {}"
  shows "distinct (concat (map f (map (\<lambda>x. if g x = i then y else x) xs)))"
  using assms
proof (induction xs)
  case (Cons x xs)
  let ?r = "\<lambda>x. if g x = i then y else x"
  have IH: "distinct (concat (map f (map ?r xs)))" using Cons by auto
  show ?case
  proof (cases "g x = i")
    case True
    have "map ?r xs = xs" using Cons.prems(2) True by (intro map_idI) (auto simp: image_iff)
    moreover have "set (f y) \<inter> set (concat (map f xs)) = {}"
    proof -
      have "set (f y) \<inter> set (f z) = {}" if "z \<in> set xs" for z
        using Cons.prems(2) True that by (intro Cons.prems(4)) (auto simp: image_iff)
      then show ?thesis by auto
    qed
    ultimately show ?thesis using True IH Cons.prems(3) by simp
  next
    case False
    have "set (f x) \<inter> set (concat (map f (map ?r xs))) = {}"
    proof -
      have "set (f x) \<inter> set (f (?r z)) = {}" if "z \<in> set xs" for z
        using Cons.prems(1) Cons.prems(4) [of x] False that by (cases "g z = i") (auto 0 3)
      then show ?thesis by auto
    qed
    with False IH Cons.prems(1) show ?thesis by simp
  qed
qed simp

lemma repoUpdate_ok:
  assumes "channels_ok db" and "repoUpdate c db = Inr db'"
    and "validateChannelConfig (ch_ModelPricing c) (ch_ModelMapping c) = None" "platforms_given (ch_ModelPricing c)"
  shows "channels_ok db'"
proof -
  let ?r = "\<lambda>x. if ch_ID x = ch_ID c then stored_channel c else x"
  have db': "cdb_channels db' = map ?r (cdb_channels db)" "cdb_next db' = cdb_next db"
      "cdb_platforms db' = cdb_platforms db"
    and name: "\<not> name_taken db (ch_Name c) (Some (ch_ID c))" and gs: "setGroupIDsTx db (ch_ID c) (ch_GroupIDs c)"
    and ex: "\<exists>x \<in> set (cdb_channels db). ch_ID x = ch_ID c"
    using assms(2) by (auto simp: repoUpdate_def list_ex_iff split: if_splits)
  have ids: "map (ch_ID \<circ> ?r) (cdb_channels db) = map ch_ID (cdb_channels db)" by simp
  have ids: "distinct (map (ch_ID \<circ> ?r) (cdb_channels db))"
    unfolding ids using assms(1) by (simp add: channels_ok_def)
  have "distinct (map ch_Name (map ?r (cdb_channels db)))"
    using distinct_concat_replace [of "\<lambda>x. [ch_Name x]" "cdb_channels db" ch_ID "stored_channel c" "ch_ID c"]
      assms(1) name
    by (auto simp: channels_ok_def name_taken_def list_ex_iff concat_map_singleton comp_def)
  moreover have "one_channel_each (map ?r (cdb_channels db))"
    unfolding one_channel_each_def
  proof (rule distinct_concat_replace)
    show "set (ch_GroupIDs (stored_channel c)) \<inter> set (ch_GroupIDs x) = {}"
      if "x \<in> set (cdb_channels db)" "ch_ID x \<noteq> ch_ID c" for x
      using gs that by (auto simp: setGroupIDsTx_def GetGroupsInOtherChannels_Nil)
  qed (use assms(1) gs in \<open>auto simp: channels_ok_def one_channel_each_def setGroupIDsTx_def\<close>)
  ultimately show ?thesis
    using assms(1) gs config_valid_stored [OF assms(3,4)] ids ex
    by (auto simp: channels_ok_def db' list_all_iff setGroupIDsTx_def)
qed

lemma repoDelete_ok:
  assumes "channels_ok db" and "repoDelete i db = Inr db'"
  shows "channels_ok db'"
proof -
  have "distinct (concat (map f (filter P xs)))" if "distinct (concat (map f xs))" for f :: "Channel \<Rightarrow> int64 list" and P xs
    using that by (induction xs) auto
  then show ?thesis
    using assms by (auto simp: channels_ok_def repoDelete_def one_channel_each_def list_all_iff distinct_map_filter
        split: if_splits)
qed

text \<open>Groups come and go and change their platform; the rows of a deleted group go with it.\<close>

definition groupsChanged :: "(int64 \<Rightarrow> gostr option) \<Rightarrow> channel_db \<Rightarrow> channel_db" where
  "groupsChanged platforms db =
     db\<lparr>cdb_platforms := platforms,
        cdb_channels := map (\<lambda>c. c\<lparr>ch_GroupIDs := filter (\<lambda>g. platforms g \<noteq> None) (ch_GroupIDs c)\<rparr>) (cdb_channels db)\<rparr>"

lemma groupsChanged_ok: "channels_ok db \<Longrightarrow> channels_ok (groupsChanged platforms db)"
proof -
  have "distinct (concat (map (\<lambda>c. filter P (ch_GroupIDs c)) xs))" if "distinct (concat (map ch_GroupIDs xs))" for P xs
    using that by (induction xs) auto
  then show "channels_ok db \<Longrightarrow> channels_ok (groupsChanged platforms db)"
    by (auto simp: channels_ok_def groupsChanged_def one_channel_each_def comp_def list_all_iff config_valid_def)
qed

section \<open>Every state of the service\<close>

text \<open>
  The administration's handler gives prices a platform and a mode before they reach the service
  (\<open>internal/handler/admin/channel_handler.go\<close>).
\<close>

definition pricingRequestToService :: "ChannelModelPricing \<Rightarrow> ChannelModelPricing" where
  "pricingRequestToService r =
     r\<lparr>cp_BillingMode := (if cp_BillingMode r = '''' then BillingModeToken else cp_BillingMode r),
       cp_Platform := (if cp_Platform r = '''' then ''anthropic'' else cp_Platform r)\<rparr>"

definition createRequest :: "CreateChannelInput \<Rightarrow> CreateChannelInput" where
  "createRequest inp = inp\<lparr>ci_ModelPricing := map pricingRequestToService (ci_ModelPricing inp)\<rparr>"

definition updateRequest :: "UpdateChannelInput \<Rightarrow> UpdateChannelInput" where
  "updateRequest inp = inp\<lparr>ui_ModelPricing := map_option (map pricingRequestToService) (ui_ModelPricing inp)\<rparr>"

inductive channel_reach :: "channel_world \<Rightarrow> bool" where
  reach_init: "channel_reach \<lparr>cw_db = \<lparr>cdb_channels = [], cdb_platforms = platforms, cdb_next = i\<rparr>, cw_cache = None,
                  cw_invalidated = [], cw_published = 0\<rparr>"
| reach_create: "channel_reach w \<Longrightarrow>
    channel_reach (snd (svcCreate env (createRequest inp) w))"
| reach_update: "channel_reach w \<Longrightarrow>
    channel_reach (snd (svcUpdate env i (updateRequest inp) w))"
| reach_delete: "channel_reach w \<Longrightarrow> channel_reach (snd (svcDelete env i w))"
| reach_groups: "channel_reach w \<Longrightarrow> channel_reach (w\<lparr>cw_db := groupsChanged platforms (cw_db w)\<rparr>)"
| reach_load: "channel_reach w \<Longrightarrow> channel_reach (snd (loadCache env w))"

lemma cw_db_simps [simp]:
  "cw_db (storeErrorCache env w) = cw_db w"
  "cw_db (notifyChannelsChanged env w) = cw_db w"
  "cw_db (invalidateAuthCacheForGroups env gs w) = cw_db w"
  by (simp_all add: storeErrorCache_def notifyChannelsChanged_def invalidateAuthCacheForGroups_def)

lemma cw_db_build [simp]: "cw_db (snd (buildCache env w)) = cw_db w"
  by (auto simp: buildCache_def fetchChannelData_def Let_def split: prod.splits sum.splits if_splits)

lemma cw_db_load [simp]: "cw_db (snd (loadCache env w)) = cw_db w"
  by (simp add: loadCache_def split: option.splits)

lemma cw_db_invalidate [simp]: "cw_db (invalidateCache env w) = cw_db w"
  by (simp add: invalidateCache_def RefreshCache_def)

lemma platforms_given_request: "platforms_given (map pricingRequestToService ps)"
  by (simp add: list_all_iff pricingRequestToService_def)

lemma svcCreate_db:
  "cw_db (snd (svcCreate env inp w)) = cw_db w \<or>
   (\<exists>c i. repoCreate c (cw_db w) = Inr (i, cw_db (snd (svcCreate env inp w))) \<and>
      validateChannelConfig (ch_ModelPricing c) (ch_ModelMapping c) = None \<and> ch_ModelPricing c = ci_ModelPricing inp)"
proof -
  let ?c = "\<lparr>ch_ID = 0, ch_Name = ci_Name inp, ch_Description = ci_Description inp, ch_Status = ''active'',
      ch_BillingModelSource = (if ci_BillingModelSource inp = [] then BillingModelSourceChannelMapped
                               else ci_BillingModelSource inp),
      ch_RestrictModels = ci_RestrictModels inp, ch_GroupIDs = ci_GroupIDs inp,
      ch_ModelPricing = ci_ModelPricing inp, ch_ModelMapping = ci_ModelMapping inp\<rparr>"
  show ?thesis
    by (cases "repoCreate ?c (cw_db w)"; cases "validateChannelConfig (ci_ModelPricing inp) (ci_ModelMapping inp)";
        cases "checkGroupConflicts env (cw_db w) 0 (ci_GroupIDs inp)")
       (auto simp: svcCreate_def Let_def intro!: exI [of _ ?c])
qed

lemma applyUpdate_updated: "applyUpdateInput env db c inp = Inr c' \<Longrightarrow> c' = updatedChannel c inp"
  by (auto simp: applyUpdateInput_def split: if_splits option.splits)

lemma applyUpdate_pricing:
  assumes "applyUpdateInput env db c inp = Inr c'"
  shows "ch_ModelPricing c' = case_option (ch_ModelPricing c) id (ui_ModelPricing inp)" and "ch_ID c' = ch_ID c"
  using applyUpdate_updated [OF assms] by (simp_all add: updatedChannel_def)

lemma svcUpdate_cases:
  assumes "fst (svcUpdate env i inp w) = r"
  shows "(\<exists>e. r = Inl e \<and> snd (svcUpdate env i inp w) = w) \<or>
   (\<exists>c c' db1. repoGetByID i (cw_db w) = Inr c \<and> applyUpdateInput env (cw_db w) c inp = Inr c' \<and>
      validateChannelConfig (ch_ModelPricing c') (ch_ModelMapping c') = None \<and> repoUpdate c' (cw_db w) = Inr db1 \<and>
      r = getAfter env i db1 \<and>
      snd (svcUpdate env i inp w) = notifyChannelsChanged env
        (invalidateAuthCacheForGroups env (getOldGroupIDs env i (cw_db w) @ ch_GroupIDs c')
          (invalidateCache env (w\<lparr>cw_db := db1\<rparr>))))"
proof (cases "repoGetByID i (cw_db w)")
  case (Inl e)
  then show ?thesis using assms by (auto simp: svcUpdate_def Let_def)
next
  case get: (Inr c)
  show ?thesis
  proof (cases "applyUpdateInput env (cw_db w) c inp")
    case (Inl e)
    with get show ?thesis using assms by (auto simp: svcUpdate_def Let_def)
  next
    case (Inr c')
    with get show ?thesis
      using assms
      by (cases "validateChannelConfig (ch_ModelPricing c') (ch_ModelMapping c')"; cases "repoUpdate c' (cw_db w)")
         (auto simp: svcUpdate_def Let_def)
  qed
qed

lemma svcUpdate_db:
  "cw_db (snd (svcUpdate env i inp w)) = cw_db w \<or>
   (\<exists>c c'. repoUpdate c' (cw_db w) = Inr (cw_db (snd (svcUpdate env i inp w))) \<and> repoGetByID i (cw_db w) = Inr c \<and>
      applyUpdateInput env (cw_db w) c inp = Inr c' \<and>
      validateChannelConfig (ch_ModelPricing c') (ch_ModelMapping c') = None)"
  using svcUpdate_cases [OF refl, of env i inp w] by auto

lemma svcDelete_db:
  "cw_db (snd (svcDelete env i w)) = cw_db w \<or> repoDelete i (cw_db w) = Inr (cw_db (snd (svcDelete env i w)))"
  by (auto simp: svcDelete_def Let_def split: sum.splits)

lemma repoGetByID_in:
  assumes "repoGetByID i db = Inr c"
  shows "c \<in> set (cdb_channels db)" and "ch_ID c = i"
  using assms by (auto simp: repoGetByID_def find_Some_iff split: option.splits)

lemma channel_reach_ok: "channel_reach w \<Longrightarrow> channels_ok (cw_db w)"
proof (induction rule: channel_reach.induct)
  case (reach_init platforms i)
  show ?case by (simp add: channels_ok_def one_channel_each_def)
next
  case (reach_create w env inp)
  then show ?case
    using svcCreate_db [of env "createRequest inp" w] repoCreate_ok platforms_given_request
    by (fastforce simp: createRequest_def)
next
  case (reach_update w env i inp)
  let ?inp = "updateRequest inp"
  consider "cw_db (snd (svcUpdate env i ?inp w)) = cw_db w"
    | c c' where "repoUpdate c' (cw_db w) = Inr (cw_db (snd (svcUpdate env i ?inp w)))" "repoGetByID i (cw_db w) = Inr c"
        "applyUpdateInput env (cw_db w) c ?inp = Inr c'"
        "validateChannelConfig (ch_ModelPricing c') (ch_ModelMapping c') = None"
    using svcUpdate_db [of env i ?inp w] by blast
  then show ?case
  proof cases
    case 2
    have "platforms_given (ch_ModelPricing c)"
      using reach_update.IH repoGetByID_in(1) [OF 2(2)] by (auto simp: channels_ok_def config_valid_def list_all_iff)
    then have "platforms_given (ch_ModelPricing c')"
      using applyUpdate_pricing(1) [OF 2(3)] platforms_given_request
      by (cases "ui_ModelPricing inp") (simp_all add: updateRequest_def)
    with 2 reach_update.IH show ?thesis by (auto intro: repoUpdate_ok)
  qed (use reach_update.IH in simp)
next
  case (reach_delete w env i)
  then show ?case using svcDelete_db [of env i w] repoDelete_ok by auto
next
  case (reach_groups w platforms)
  then show ?case by (simp add: groupsChanged_ok)
next
  case (reach_load w env)
  then show ?case by simp
qed

section \<open>What is served from the index\<close>

lemma loadedAt_populate [simp]: "cc_loadedAt (populateChannelCache now channels gp) = now"
proof -
  have m: "cc_loadedAt (fold (expandModel g p) ms c) = cc_loadedAt c" for g p ms c
    by (induction ms arbitrary: c) (auto simp: expandModel_def)
  have e: "cc_loadedAt (fold (expandMapping g pl) es c) = cc_loadedAt c" for g pl es c
    by (induction es arbitrary: c) (auto simp: expandMapping_def split: prod.splits)
  have p: "cc_loadedAt (expandPricingToCache ch g pl c) = cc_loadedAt c" for ch g pl c
  proof -
    have "cc_loadedAt (fold (\<lambda>pricing c. if \<not> isPlatformPricingMatch pl (cp_Platform pricing) then c
             else fold (expandModel g pricing) (cp_Models pricing) c) ps c) = cc_loadedAt c" for ps
      by (induction ps arbitrary: c) (auto simp: m)
    then show ?thesis by (simp add: expandPricingToCache_def)
  qed
  have g: "cc_loadedAt (fold (addGroup gp ch) gs c) = cc_loadedAt c" for ch gs c
    by (induction gs arbitrary: c) (auto simp: addGroup_def expandMapping_flat e p)
  have "cc_loadedAt (fold (addChannel gp) chs c) = cc_loadedAt c" for chs c
    by (induction chs arbitrary: c) (auto simp: addChannel_def g)
  then show ?thesis by (simp add: populateChannelCache_def newEmptyChannelCache_def)
qed

text \<open>The cache holds the channels as they are in the tables.\<close>

definition current_at :: "time \<Rightarrow> channel_world \<Rightarrow> bool" where
  "current_at t w =
     (\<exists>gp. cw_cache w = Some (populateChannelCache t (cdb_channels (cw_db w)) gp) \<and>
           (\<forall>c \<in> set (cdb_channels (cw_db w)). \<forall>g \<in> set (ch_GroupIDs c). gp g = cdb_platforms (cw_db w) g))"

lemma buildCache_current:
  assumes "\<not> ce_fault env CallListAll" "\<not> ce_fault env CallPlatforms"
  shows "current_at (ce_now env) (snd (buildCache env w))"
  using assms
  by (auto simp: current_at_def buildCache_def fetchChannelData_def Let_def GetGroupPlatforms_def
      split: if_splits intro!: exI)

lemma current_lookup:
  assumes "channels_ok (cw_db w)" and "current_at t w" and "ce_now env - t < channelCacheTTL"
    and "ch \<in> set (cdb_channels (cw_db w))" and "g \<in> set (ch_GroupIDs ch)" and "channelIsActive ch"
  shows "\<exists>lk. lookupGroupChannel env g w = (Inr (Some lk), w) \<and> lk_channel lk = ch \<and>
    (\<forall>k. lookupPricingAcrossPlatforms (lk_cache lk) g (lk_platform lk) k =
         channel_price ch (platform_of (cdb_platforms (cw_db w)) g) k) \<and>
    (\<forall>k. lookupMappingAcrossPlatforms (lk_cache lk) g (lk_platform lk) k =
         channel_target ch (platform_of (cdb_platforms (cw_db w)) g) k)"
proof -
  from assms(2) obtain gp where gp: "cw_cache w = Some (populateChannelCache t (cdb_channels (cw_db w)) gp)"
      "gp g = cdb_platforms (cw_db w) g"
    using assms(4,5) by (auto simp: current_at_def)
  let ?c = "populateChannelCache t (cdb_channels (cw_db w)) gp"
  let ?pl = "platform_of (cdb_platforms (cw_db w)) g"
  have pl: "platform_of gp g = ?pl" using gp(2) by (simp add: platform_of_def)
  have view: "index_view ?c g ?pl = channel_view ch ?pl"
    using populate_view [OF _ assms(4,5), of t gp] assms(1) unfolding pl by (simp add: channels_ok_def)
  have valid: "validateChannelConfig (ch_ModelPricing ch) (ch_ModelMapping ch) = None"
    using assms(1,4) by (auto simp: channels_ok_def list_all_iff config_valid_def)
  have "lookupGroupChannel env g w = (Inr (Some \<lparr>lk_cache = ?c, lk_channel = ch, lk_platform = ?pl\<rparr>), w)"
    using assms(3,6) gp(1) index_viewD(5) [OF view] pl by (simp add: lookupGroupChannel_def loadCache_def)
  then show ?thesis
    by (auto simp: index_price [OF view validated_config(1) [OF valid]] index_target [OF view validated_config(2) [OF valid]])
qed

text \<open>What a channel answers about a model.\<close>

definition channel_mapping :: "Channel \<Rightarrow> gostr \<Rightarrow> gostr \<Rightarrow> ChannelMappingResult" where
  "channel_mapping ch platform model =
     (let target = channel_target ch platform (to_lower model)
      in \<lparr>mr_MappedModel = (if target = '''' then model else target), mr_ChannelID = ch_ID ch, mr_Mapped = (target \<noteq> ''''),
          mr_BillingModelSource = (if ch_BillingModelSource ch = '''' then BillingModelSourceChannelMapped
                                   else ch_BillingModelSource ch)\<rparr>)"

lemma current_answers:
  assumes "channels_ok (cw_db w)" and "current_at t w" and "ce_now env - t < channelCacheTTL"
    and "ch \<in> set (cdb_channels (cw_db w))" and "g \<in> set (ch_GroupIDs ch)" and "channelIsActive ch"
  shows "GetChannelModelPricing env g model w =
           (channel_price ch (platform_of (cdb_platforms (cw_db w)) g) (to_lower model), w)"
    and "ResolveChannelMapping env g model w = (channel_mapping ch (platform_of (cdb_platforms (cw_db w)) g) model, w)"
    and "IsModelRestricted env g model w =
           (ch_RestrictModels ch \<and> channel_price ch (platform_of (cdb_platforms (cw_db w)) g) (to_lower model) = None, w)"
proof -
  from assms obtain lk where lk: "lookupGroupChannel env g w = (Inr (Some lk), w)" "lk_channel lk = ch"
    "\<And>k. lookupPricingAcrossPlatforms (lk_cache lk) g (lk_platform lk) k =
         channel_price ch (platform_of (cdb_platforms (cw_db w)) g) k"
    "\<And>k. lookupMappingAcrossPlatforms (lk_cache lk) g (lk_platform lk) k =
         channel_target ch (platform_of (cdb_platforms (cw_db w)) g) k"
    using current_lookup [OF assms] by blast
  then show "GetChannelModelPricing env g model w =
      (channel_price ch (platform_of (cdb_platforms (cw_db w)) g) (to_lower model), w)"
    and "ResolveChannelMapping env g model w = (channel_mapping ch (platform_of (cdb_platforms (cw_db w)) g) model, w)"
    and "IsModelRestricted env g model w =
      (ch_RestrictModels ch \<and> channel_price ch (platform_of (cdb_platforms (cw_db w)) g) (to_lower model) = None, w)"
    by (simp_all add: GetChannelModelPricing_def ResolveChannelMapping_def resolveMapping_def channel_mapping_def
        IsModelRestricted_def checkRestricted_def Let_def)
qed

lemma current_notify [simp]:
  "current_at t (notifyChannelsChanged env w) = current_at t w"
  "current_at t (invalidateAuthCacheForGroups env gs w) = current_at t w"
  by (simp_all add: current_at_def notifyChannelsChanged_def invalidateAuthCacheForGroups_def)

lemma update_current:
  assumes "fst (svcUpdate env i inp w) = Inr ch" and "\<not> ce_fault env CallListAll" "\<not> ce_fault env CallPlatforms"
  shows "current_at (ce_now env) (snd (svcUpdate env i inp w))"
    and "ch \<in> set (cdb_channels (cw_db (snd (svcUpdate env i inp w))))"
  using svcUpdate_cases [OF refl, of env i inp w] assms buildCache_current [OF assms(2,3)] repoGetByID_in(1)
  by (auto simp: invalidateCache_def RefreshCache_def getAfter_def split: if_splits)

text \<open>
  C33. However channels are created, changed and deleted, with every fault of the database and however
  groups come and go, the tables keep distinct ids and names, each group in at most one channel and
  only existing groups, and configurations that pass the validation, after the rounding of the price
  columns too.
\<close>

theorem channel_tables_sound:
  assumes "channel_reach w"
  shows "channels_ok (cw_db w)"
  using channel_reach_ok [OF assms] .


definition demo_env :: channel_env where
  "demo_env = \<lparr>ce_now = 0, ce_fault = (\<lambda>_. False), ce_hasInvalidator = True, ce_hasBus = False\<rparr>"

definition demo_pricing :: ChannelModelPricing where
  "demo_pricing = \<lparr>cp_ID = 0, cp_ChannelID = 0, cp_Platform = ''openai'', cp_Models = [''gpt-5*''], cp_BillingMode = ''token'',
     cp_InputPrice = Some 1, cp_OutputPrice = None, cp_CacheWritePrice = None, cp_CacheReadPrice = None,
     cp_ImageOutputPrice = None, cp_PerRequestPrice = None, cp_Intervals = []\<rparr>"

definition demo_create :: CreateChannelInput where
  "demo_create = \<lparr>ci_Name = ''a'', ci_Description = [], ci_GroupIDs = [7], ci_ModelPricing = [demo_pricing],
     ci_ModelMapping = [(''openai'', [(''fast'', ''gpt-5'')])], ci_BillingModelSource = [], ci_RestrictModels = False\<rparr>"

definition demo_update :: UpdateChannelInput where
  "demo_update = \<lparr>ui_Name = [], ui_Description = None, ui_Status = [], ui_GroupIDs = None, ui_ModelPricing = None,
     ui_ModelMapping = None, ui_BillingModelSource = [], ui_RestrictModels = Some True\<rparr>"

definition demo_world :: channel_world where
  "demo_world = snd (svcCreate demo_env (createRequest demo_create)
     \<lparr>cw_db = \<lparr>cdb_channels = [], cdb_platforms = (\<lambda>_. Some ''openai''), cdb_next = 1\<rparr>, cw_cache = None,
      cw_invalidated = [], cw_published = 0\<rparr>)"

definition demo_changed :: channel_world where
  "demo_changed = snd (svcUpdate demo_env 1 (updateRequest demo_update) demo_world)"

definition demo_channel :: Channel where
  "demo_channel = \<lparr>ch_ID = 1, ch_Name = ''a'', ch_Description = [], ch_Status = ''active'',
     ch_BillingModelSource = ''channel_mapped'', ch_RestrictModels = True, ch_GroupIDs = [7],
     ch_ModelPricing = [demo_pricing\<lparr>cp_ChannelID := 1\<rparr>], ch_ModelMapping = [(''openai'', [(''fast'', ''gpt-5'')])]\<rparr>"

lemma demo_reach: "channel_reach demo_world"
  unfolding demo_world_def by (rule reach_create) (rule reach_init)


theorem channel_tables_sound_witness: "channels_ok (cw_db demo_world) \<and> cdb_channels (cw_db demo_world) \<noteq> []"
proof -
  have "cdb_channels (cw_db demo_world) \<noteq> []" by code_simp
  then show ?thesis using channel_tables_sound [OF demo_reach] by simp
qed

text \<open>
  A failed load puts an empty index in the place of the old one for five seconds: the restriction of
  models, the mapping and the prices of every channel are off for that time, although the database
  may be back at once.
\<close>

lemma failed_load_lifts_restrictions:
  assumes "ce_fault env CallListAll" and "cw_cache w = None"
    and "ce_now env' - ce_now env < channelErrorTTL"
  defines "w' \<equiv> snd (loadCache env w)"
  shows "fst (IsModelRestricted env' g model w') = False" and "fst (GetChannelModelPricing env' g model w') = None"
    and "fst (ResolveChannelMapping env' g model w') = unmapped model"
proof -
  have c: "cw_cache w' = Some (newEmptyChannelCache (ce_now env - (channelCacheTTL - channelErrorTTL)))"
    using assms(1,2) by (simp add: w'_def loadCache_def buildCache_def fetchChannelData_def storeErrorCache_def)
  have "lookupGroupChannel env' g w' = (Inr None, w')"
    using assms(3) by (simp add: lookupGroupChannel_def loadCache_def c newEmptyChannelCache_def channelCacheTTL_def channelErrorTTL_def)
  then show "fst (IsModelRestricted env' g model w') = False" and "fst (GetChannelModelPricing env' g model w') = None"
    and "fst (ResolveChannelMapping env' g model w') = unmapped model"
    by (simp_all add: IsModelRestricted_def GetChannelModelPricing_def ResolveChannelMapping_def)
qed

text \<open>
  A build that read the database before the update and stores its index after it undoes the update
  for the lifetime of the index: the model that the update has just restricted is allowed again.
\<close>

lemma stale_build_overwrites:
  fixes rows
  assumes "fetchChannelData demo_env demo_world = (Inr rows, demo_world)"
  shows "fst (IsModelRestricted demo_env 7 ''o3'' demo_changed)"
    and "\<not> fst (IsModelRestricted demo_env 7 ''o3'' (finishBuild demo_env rows demo_changed))"
proof -
  have "rows = (case fst (fetchChannelData demo_env demo_world) of Inr r \<Rightarrow> r | Inl _ \<Rightarrow> ([], \<lambda>_. None))"
    using assms by simp
  moreover have "\<not> fst (IsModelRestricted demo_env 7 ''o3'' (finishBuild demo_env
      (case fst (fetchChannelData demo_env demo_world) of Inr r \<Rightarrow> r | Inl _ \<Rightarrow> ([], \<lambda>_. None)) demo_changed))"
    by code_simp
  ultimately show "\<not> fst (IsModelRestricted demo_env 7 ''o3'' (finishBuild demo_env rows demo_changed))" by simp
  show "fst (IsModelRestricted demo_env 7 ''o3'' demo_changed)" by code_simp
qed

end
