(* ===== verification/Codex_Models.thy ===== *)
theory Codex_Models
  imports Go_Strings
begin

text \<open>
  The names of OpenAI's models and the ones they are billed as
  (\<open>internal/service/openai_codex_transform.go\<close>): a table of known names, then a list of parts of
  names in the order in which the code tries them.
\<close>

definition codexModelMap :: "(gostr \<times> gostr) list" where
  "codexModelMap =
    [(''gpt-5.4'', ''gpt-5.4''),
     (''gpt-5.4-mini'', ''gpt-5.4-mini''),
     (''gpt-5.4-nano'', ''gpt-5.4-nano''),
     (''gpt-5.4-none'', ''gpt-5.4''),
     (''gpt-5.4-low'', ''gpt-5.4''),
     (''gpt-5.4-medium'', ''gpt-5.4''),
     (''gpt-5.4-high'', ''gpt-5.4''),
     (''gpt-5.4-xhigh'', ''gpt-5.4''),
     (''gpt-5.4-chat-latest'', ''gpt-5.4''),
     (''gpt-5.3'', ''gpt-5.3-codex''),
     (''gpt-5.3-none'', ''gpt-5.3-codex''),
     (''gpt-5.3-low'', ''gpt-5.3-codex''),
     (''gpt-5.3-medium'', ''gpt-5.3-codex''),
     (''gpt-5.3-high'', ''gpt-5.3-codex''),
     (''gpt-5.3-xhigh'', ''gpt-5.3-codex''),
     (''gpt-5.3-codex'', ''gpt-5.3-codex''),
     (''gpt-5.3-codex-spark'', ''gpt-5.3-codex''),
     (''gpt-5.3-codex-spark-low'', ''gpt-5.3-codex''),
     (''gpt-5.3-codex-spark-medium'', ''gpt-5.3-codex''),
     (''gpt-5.3-codex-spark-high'', ''gpt-5.3-codex''),
     (''gpt-5.3-codex-spark-xhigh'', ''gpt-5.3-codex''),
     (''gpt-5.3-codex-low'', ''gpt-5.3-codex''),
     (''gpt-5.3-codex-medium'', ''gpt-5.3-codex''),
     (''gpt-5.3-codex-high'', ''gpt-5.3-codex''),
     (''gpt-5.3-codex-xhigh'', ''gpt-5.3-codex''),
     (''gpt-5.1-codex'', ''gpt-5.1-codex''),
     (''gpt-5.1-codex-low'', ''gpt-5.1-codex''),
     (''gpt-5.1-codex-medium'', ''gpt-5.1-codex''),
     (''gpt-5.1-codex-high'', ''gpt-5.1-codex''),
     (''gpt-5.1-codex-max'', ''gpt-5.1-codex-max''),
     (''gpt-5.1-codex-max-low'', ''gpt-5.1-codex-max''),
     (''gpt-5.1-codex-max-medium'', ''gpt-5.1-codex-max''),
     (''gpt-5.1-codex-max-high'', ''gpt-5.1-codex-max''),
     (''gpt-5.1-codex-max-xhigh'', ''gpt-5.1-codex-max''),
     (''gpt-5.2'', ''gpt-5.2''),
     (''gpt-5.2-none'', ''gpt-5.2''),
     (''gpt-5.2-low'', ''gpt-5.2''),
     (''gpt-5.2-medium'', ''gpt-5.2''),
     (''gpt-5.2-high'', ''gpt-5.2''),
     (''gpt-5.2-xhigh'', ''gpt-5.2''),
     (''gpt-5.2-codex'', ''gpt-5.2-codex''),
     (''gpt-5.2-codex-low'', ''gpt-5.2-codex''),
     (''gpt-5.2-codex-medium'', ''gpt-5.2-codex''),
     (''gpt-5.2-codex-high'', ''gpt-5.2-codex''),
     (''gpt-5.2-codex-xhigh'', ''gpt-5.2-codex''),
     (''gpt-5.1-codex-mini'', ''gpt-5.1-codex-mini''),
     (''gpt-5.1-codex-mini-medium'', ''gpt-5.1-codex-mini''),
     (''gpt-5.1-codex-mini-high'', ''gpt-5.1-codex-mini''),
     (''gpt-5.1'', ''gpt-5.1''),
     (''gpt-5.1-none'', ''gpt-5.1''),
     (''gpt-5.1-low'', ''gpt-5.1''),
     (''gpt-5.1-medium'', ''gpt-5.1''),
     (''gpt-5.1-high'', ''gpt-5.1''),
     (''gpt-5.1-chat-latest'', ''gpt-5.1''),
     (''gpt-5-codex'', ''gpt-5.1-codex''),
     (''codex-mini-latest'', ''gpt-5.1-codex-mini''),
     (''gpt-5-codex-mini'', ''gpt-5.1-codex-mini''),
     (''gpt-5-codex-mini-medium'', ''gpt-5.1-codex-mini''),
     (''gpt-5-codex-mini-high'', ''gpt-5.1-codex-mini''),
     (''gpt-5'', ''gpt-5.1''),
     (''gpt-5-mini'', ''gpt-5.1''),
     (''gpt-5-nano'', ''gpt-5.1'')]"

text \<open>
  The keys of the table are distinct lower-case names, so the loop that compares without regard to
  case has one hit at most.
\<close>

definition getNormalizedCodexModel :: "gostr \<Rightarrow> gostr" where
  "getNormalizedCodexModel modelID =
     (if modelID = '''' then ''''
      else case map_of codexModelMap modelID of
             Some mapped \<Rightarrow> mapped
           | None \<Rightarrow> (case find (\<lambda>e. to_lower (fst e) = to_lower modelID) codexModelMap of
                        Some e \<Rightarrow> snd e | None \<Rightarrow> ''''))"

definition codexParts :: "(gostr list \<times> gostr) list" where
  "codexParts =
    [([''gpt-5.4-mini'', ''gpt 5.4 mini''], ''gpt-5.4-mini''),
     ([''gpt-5.4-nano'', ''gpt 5.4 nano''], ''gpt-5.4-nano''),
     ([''gpt-5.4'', ''gpt 5.4''], ''gpt-5.4''),
     ([''gpt-5.2-codex'', ''gpt 5.2 codex''], ''gpt-5.2-codex''),
     ([''gpt-5.2'', ''gpt 5.2''], ''gpt-5.2''),
     ([''gpt-5.3-codex'', ''gpt 5.3 codex''], ''gpt-5.3-codex''),
     ([''gpt-5.3'', ''gpt 5.3''], ''gpt-5.3-codex''),
     ([''gpt-5.1-codex-max'', ''gpt 5.1 codex max''], ''gpt-5.1-codex-max''),
     ([''gpt-5.1-codex-mini'', ''gpt 5.1 codex mini''], ''gpt-5.1-codex-mini''),
     ([''codex-mini-latest'', ''gpt-5-codex-mini'', ''gpt 5 codex mini''], ''codex-mini-latest''),
     ([''gpt-5.1-codex'', ''gpt 5.1 codex''], ''gpt-5.1-codex''),
     ([''gpt-5.1'', ''gpt 5.1''], ''gpt-5.1''),
     ([''codex''], ''gpt-5.1-codex''),
     ([''gpt-5'', ''gpt 5''], ''gpt-5.1'')]"

definition normalizeCodexModel :: "gostr \<Rightarrow> gostr" where
  "normalizeCodexModel model =
     (if model = '''' then ''gpt-5.1''
      else let modelID = (if contains model ''/'' then last (split_char (CHR ''/'') model) else model);
               mapped = getNormalizedCodexModel modelID
           in if mapped \<noteq> '''' then mapped
              else case find (\<lambda>r. list_ex (contains (to_lower modelID)) (fst r)) codexParts of
                     Some r \<Rightarrow> snd r
                   | None \<Rightarrow> ''gpt-5.1'')"

definition isOpenAIGPT54Model :: "gostr \<Rightarrow> bool" where
  "isOpenAIGPT54Model model = (normalizeCodexModel (trim_space (to_lower model)) = ''gpt-5.4'')"

lemma codexModelMap_keys: "distinct (map fst codexModelMap)"
  by (simp add: codexModelMap_def)

end
