(* ===== verification/Model_Pricing.thy ===== *)
theory Model_Pricing
  imports Codex_Models Go_Values
begin

text \<open>
  Prices of models (\<open>internal/service/pricing_service.go\<close>): how the published price list is read, kept
  up to date and searched for a model whose name it may not hold.

  The list is a Go map.  A lookup reads it by key; the loops that search it visit it in an order that
  is open and may differ from loop to loop, so the orders are arguments (\<open>pv_visit\<close>, \<open>pv_families\<close>).
  Decoded JSON, SHA-256, files and downloads are what the environment of an update returns.
\<close>

section \<open>The price list\<close>

record LiteLLMModelPricing =
  lp_Input :: rat
  lp_InputPriority :: rat
  lp_Output :: rat
  lp_OutputPriority :: rat
  lp_CacheCreation :: rat
  lp_CacheCreationAbove1hr :: rat
  lp_CacheRead :: rat
  lp_CacheReadPriority :: rat
  lp_LongContextThreshold :: int
  lp_LongContextInput :: rat
  lp_LongContextOutput :: rat
  lp_SupportsServiceTier :: bool
  lp_Provider :: gostr
  lp_Mode :: gostr
  lp_SupportsPromptCaching :: bool
  lp_OutputPerImage :: rat
  lp_OutputPerImageToken :: rat

definition zero_lp :: LiteLLMModelPricing where
  "zero_lp = \<lparr>lp_Input = 0, lp_InputPriority = 0, lp_Output = 0, lp_OutputPriority = 0, lp_CacheCreation = 0,
     lp_CacheCreationAbove1hr = 0, lp_CacheRead = 0, lp_CacheReadPriority = 0, lp_LongContextThreshold = 0,
     lp_LongContextInput = 0, lp_LongContextOutput = 0, lp_SupportsServiceTier = False, lp_Provider = '''',
     lp_Mode = '''', lp_SupportsPromptCaching = False, lp_OutputPerImage = 0, lp_OutputPerImageToken = 0\<rparr>"

definition openAIGPT54FallbackPricing :: LiteLLMModelPricing where
  "openAIGPT54FallbackPricing = zero_lp\<lparr>lp_Input := 25 / 10^7, lp_Output := 15 / 10^6, lp_CacheRead := 25 / 10^8,
     lp_LongContextThreshold := 272000, lp_LongContextInput := 2, lp_LongContextOutput := 3 / 2,
     lp_Provider := ''openai'', lp_Mode := ''chat'', lp_SupportsPromptCaching := True\<rparr>"

definition openAIGPT54MiniFallbackPricing :: LiteLLMModelPricing where
  "openAIGPT54MiniFallbackPricing = zero_lp\<lparr>lp_Input := 75 / 10^8, lp_Output := 45 / 10^7, lp_CacheRead := 75 / 10^9,
     lp_Provider := ''openai'', lp_Mode := ''chat'', lp_SupportsPromptCaching := True\<rparr>"

definition openAIGPT54NanoFallbackPricing :: LiteLLMModelPricing where
  "openAIGPT54NanoFallbackPricing = zero_lp\<lparr>lp_Input := 2 / 10^7, lp_Output := 125 / 10^8, lp_CacheRead := 2 / 10^8,
     lp_Provider := ''openai'', lp_Mode := ''chat'', lp_SupportsPromptCaching := True\<rparr>"

record LiteLLMRawEntry =
  le_Input :: "rat option"
  le_InputPriority :: "rat option"
  le_Output :: "rat option"
  le_OutputPriority :: "rat option"
  le_CacheCreation :: "rat option"
  le_CacheCreationAbove1hr :: "rat option"
  le_CacheRead :: "rat option"
  le_CacheReadPriority :: "rat option"
  le_SupportsServiceTier :: bool
  le_Provider :: gostr
  le_Mode :: gostr
  le_SupportsPromptCaching :: bool
  le_OutputPerImage :: "rat option"
  le_OutputPerImageToken :: "rat option"

definition or_zero :: "rat option \<Rightarrow> rat" where
  "or_zero x = (case x of None \<Rightarrow> 0 | Some v \<Rightarrow> v)"

definition pricing_of_entry :: "LiteLLMRawEntry \<Rightarrow> LiteLLMModelPricing" where
  "pricing_of_entry e = zero_lp\<lparr>
     lp_Input := or_zero (le_Input e), lp_InputPriority := or_zero (le_InputPriority e),
     lp_Output := or_zero (le_Output e), lp_OutputPriority := or_zero (le_OutputPriority e),
     lp_CacheCreation := or_zero (le_CacheCreation e),
     lp_CacheCreationAbove1hr := or_zero (le_CacheCreationAbove1hr e),
     lp_CacheRead := or_zero (le_CacheRead e), lp_CacheReadPriority := or_zero (le_CacheReadPriority e),
     lp_SupportsServiceTier := le_SupportsServiceTier e, lp_Provider := le_Provider e, lp_Mode := le_Mode e,
     lp_SupportsPromptCaching := le_SupportsPromptCaching e, lp_OutputPerImage := or_zero (le_OutputPerImage e),
     lp_OutputPerImageToken := or_zero (le_OutputPerImageToken e)\<rparr>"

text \<open>
  The body decoded as a map from names to entries, an entry \<open>None\<close> when it does not decode; the whole
  is \<open>None\<close> when the body is no JSON object.
\<close>

type_synonym raw_data = "(gostr \<times> LiteLLMRawEntry option) list option"
type_synonym pricing_data = "gostr \<Rightarrow> LiteLLMModelPricing option"

definition valid_entry :: "gostr \<times> LiteLLMRawEntry option \<Rightarrow> bool" where
  "valid_entry e =
     (fst e \<noteq> ''sample_spec'' \<and>
      (case snd e of None \<Rightarrow> False | Some r \<Rightarrow> \<not> (le_Input r = None \<and> le_Output r = None)))"

definition parsePricingData :: "raw_data \<Rightarrow> pricing_data option" where
  "parsePricingData raw =
     (case raw of
        None \<Rightarrow> None
      | Some entries \<Rightarrow>
          let kept = filter valid_entry entries
          in if kept = [] then None
             else Some (map_of (map (\<lambda>e. (fst e, pricing_of_entry (the (snd e)))) kept)))"

section \<open>Keeping the list up to date\<close>

text \<open>
  What an update meets: the local file and its age, the fallback file, the remote hash, the remote
  body, and whether the directory and the files can be written.
\<close>

record pricing_remote =
  px_hashURL :: gostr
  px_hashURLValid :: bool
  px_remoteURLValid :: bool
  px_fetchHash :: "gostr option"
  px_fetchBody :: "gostr option"
  px_fallback :: "gostr option"
  px_fileAge :: time
  px_maxAge :: time
  px_now :: time
  px_modTime :: time
  px_dirOK :: bool
  px_writeOK :: bool
  px_writeHashOK :: bool
  px_sha :: "gostr \<Rightarrow> gostr"
  px_decode :: "gostr \<Rightarrow> raw_data"

record pricing_state =
  ps_data :: pricing_data
  ps_lastUpdated :: time
  ps_localHash :: gostr
  ps_file :: "gostr option"
  ps_hashFile :: "gostr option"

definition fetchRemoteHash :: "pricing_remote \<Rightarrow> gostr option" where
  "fetchRemoteHash x =
     (if \<not> px_hashURLValid x then None else map_option trim_space (px_fetchHash x))"

text \<open>The result tells whether it succeeded.\<close>

definition downloadPricingData :: "pricing_remote \<Rightarrow> pricing_state \<Rightarrow> bool \<times> pricing_state" where
  "downloadPricingData x st =
     (if \<not> px_remoteURLValid x then (False, st)
      else let remoteHash = (if trim_space (px_hashURL x) \<noteq> '''' then fetchRemoteHash x else None)
           in case px_fetchBody x of
                None \<Rightarrow> (False, st)
              | Some body \<Rightarrow>
                  (case parsePricingData (px_decode x body) of
                     None \<Rightarrow> (False, st)
                   | Some data \<Rightarrow>
                       let syncHash = (case remoteHash of None \<Rightarrow> px_sha x body | Some h \<Rightarrow> if h \<noteq> '''' then h else px_sha x body);
                           st1 = (if px_dirOK x \<and> px_writeOK x then st\<lparr>ps_file := Some body\<rparr> else st);
                           st2 = (if px_dirOK x \<and> px_writeHashOK x
                                  then st1\<lparr>ps_hashFile := Some (syncHash @ [CHR 0x0A])\<rparr> else st1)
                       in (True, st2\<lparr>ps_data := data, ps_lastUpdated := px_now x, ps_localHash := syncHash\<rparr>)))"

definition loadPricingData :: "pricing_remote \<Rightarrow> gostr option \<Rightarrow> pricing_state \<Rightarrow> bool \<times> pricing_state" where
  "loadPricingData x content st =
     (case content of
        None \<Rightarrow> (False, st)
      | Some data \<Rightarrow>
          (case parsePricingData (px_decode x data) of
             None \<Rightarrow> (False, st)
           | Some d \<Rightarrow> (True, st\<lparr>ps_data := d, ps_localHash := px_sha x data, ps_lastUpdated := px_modTime x\<rparr>)))"

definition checkAndUpdatePricing :: "pricing_remote \<Rightarrow> pricing_state \<Rightarrow> bool \<times> pricing_state" where
  "checkAndUpdatePricing x st =
     (case ps_file st of
        None \<Rightarrow> downloadPricingData x st
      | Some _ \<Rightarrow>
          (case loadPricingData x (ps_file st) st of
             (False, st1) \<Rightarrow> downloadPricingData x st1
           | (True, st1) \<Rightarrow>
               if px_hashURL x \<noteq> ''''
               then (case fetchRemoteHash x of
                       None \<Rightarrow> (True, st1)
                     | Some remoteHash \<Rightarrow>
                         if ps_localHash st1 = '''' \<or> remoteHash \<noteq> ps_localHash st1
                         then (True, snd (downloadPricingData x st1)) else (True, st1))
               else if px_fileAge x > px_maxAge x then (True, snd (downloadPricingData x st1))
               else (True, st1)))"

definition useFallbackPricing :: "pricing_remote \<Rightarrow> pricing_state \<Rightarrow> bool \<times> pricing_state" where
  "useFallbackPricing x st =
     (case px_fallback x of
        None \<Rightarrow> (False, st)
      | Some data \<Rightarrow>
          loadPricingData x (Some data) (if px_dirOK x \<and> px_writeOK x then st\<lparr>ps_file := Some data\<rparr> else st))"

definition LoadPricingData :: "pricing_remote \<Rightarrow> pricing_state \<Rightarrow> bool \<times> pricing_state" where
  "LoadPricingData x st =
     (case checkAndUpdatePricing x st of
        (True, st1) \<Rightarrow> (True, st1)
      | (False, st1) \<Rightarrow> useFallbackPricing x st1)"

definition syncWithRemote :: "pricing_remote \<Rightarrow> pricing_state \<Rightarrow> bool \<times> pricing_state" where
  "syncWithRemote x st =
     (if px_hashURL x \<noteq> ''''
      then (case fetchRemoteHash x of
              None \<Rightarrow> (True, st)
            | Some remoteHash \<Rightarrow>
                if ps_localHash st = '''' \<or> remoteHash \<noteq> ps_localHash st then downloadPricingData x st else (True, st))
      else case ps_file st of
             None \<Rightarrow> downloadPricingData x st
           | Some _ \<Rightarrow> if px_fileAge x > px_maxAge x then downloadPricingData x st else (True, st))"

section \<open>Searching the list\<close>

record pricing_view =
  pv_data :: pricing_data
  pv_visit :: "nat \<Rightarrow> (gostr \<times> LiteLLMModelPricing) list"
  pv_families :: "(gostr \<times> gostr list) list"

text \<open>Each loop visits every entry of the map.\<close>

definition fair_view :: "pricing_view \<Rightarrow> bool" where
  "fair_view v = (\<forall>n. distinct (map fst (pv_visit v n)) \<and> map_of (pv_visit v n) = pv_data v)"

definition lastSegment :: "gostr \<Rightarrow> gostr" where
  "lastSegment model = (case after_last model ''/'' of Some r \<Rightarrow> r | None \<Rightarrow> model)"

definition normalizeModelNameForPricing :: "gostr \<Rightarrow> gostr" where
  "normalizeModelNameForPricing model =
     (let m1 = trim_left_char (CHR ''/'') (trim_space model);
          m2 = trim_prefix (trim_prefix m1 ''models/'') ''publishers/google/models/'';
          m3 = (case after_last m2 ''/publishers/google/models/'' of Some r \<Rightarrow> r | None \<Rightarrow> m2);
          m4 = (case after_last m3 ''/models/'' of Some r \<Rightarrow> r | None \<Rightarrow> m3)
      in trim_left_char (CHR ''/'') m4)"

definition buildModelLookupCandidates :: "gostr \<Rightarrow> gostr list" where
  "buildModelLookupCandidates modelLower =
     (let candidates = [normalizeModelNameForPricing modelLower, modelLower, trim_prefix modelLower ''models/'',
            lastSegment modelLower, lastSegment (trim_prefix modelLower ''models/'')];
          out = rev (remdups (rev (filter (\<lambda>c. c \<noteq> '''') (map trim_space candidates))))
      in if out = [] then [modelLower] else out)"

definition isNumeric :: "gostr \<Rightarrow> bool" where
  "isNumeric s = list_all is_digit s"

definition extractBaseName :: "gostr \<Rightarrow> gostr" where
  "extractBaseName model =
     join_with ''-'' (filter (\<lambda>part. \<not> (length part = 8 \<and> isNumeric part) \<and> \<not> contains part '':'')
       (split_char (CHR ''-'') model))"

definition familyPatterns :: "(gostr \<times> gostr list) list" where
  "familyPatterns =
    [(''opus-4.6'', [''claude-opus-4.6'', ''claude-opus-4-6'']),
     (''opus-4.5'', [''claude-opus-4.5'', ''claude-opus-4-5'']),
     (''opus-4'', [''claude-opus-4'', ''claude-3-opus'']),
     (''sonnet-4.5'', [''claude-sonnet-4.5'', ''claude-sonnet-4-5'']),
     (''sonnet-4'', [''claude-sonnet-4'', ''claude-3-5-sonnet'']),
     (''sonnet-3.5'', [''claude-3-5-sonnet'', ''claude-3.5-sonnet'']),
     (''sonnet-3'', [''claude-3-sonnet'']),
     (''haiku-3.5'', [''claude-3-5-haiku'', ''claude-3.5-haiku'']),
     (''haiku-3'', [''claude-3-haiku''])]"

definition seriesFamily :: "gostr \<Rightarrow> gostr" where
  "seriesFamily model =
     (if contains model ''opus''
      then if contains model ''4.5'' \<or> contains model ''4-5'' then ''opus-4.5'' else ''opus-4''
      else if contains model ''sonnet''
      then if contains model ''4.5'' \<or> contains model ''4-5'' then ''sonnet-4.5''
           else if contains model ''3-5'' \<or> contains model ''3.5'' then ''sonnet-3.5'' else ''sonnet-4''
      else if contains model ''haiku''
      then if contains model ''3-5'' \<or> contains model ''3.5'' then ''haiku-3.5'' else ''haiku-3''
      else '''')"

definition in_family :: "gostr \<Rightarrow> gostr \<times> gostr list \<Rightarrow> bool" where
  "in_family model f =
     list_ex (\<lambda>pattern. contains model pattern \<or> contains model (replace_all pattern ''-'' '''')) (snd f)"

definition matchedFamily :: "(gostr \<times> gostr list) list \<Rightarrow> gostr \<Rightarrow> gostr" where
  "matchedFamily families model =
     (case find (in_family model) families of Some f \<Rightarrow> fst f | None \<Rightarrow> seriesFamily model)"

fun find_pattern :: "(nat \<Rightarrow> (gostr \<times> LiteLLMModelPricing) list) \<Rightarrow> nat \<Rightarrow> gostr list \<Rightarrow> LiteLLMModelPricing option" where
  "find_pattern visit n [] = None"
| "find_pattern visit n (p # ps) =
     (case find (\<lambda>e. contains (to_lower (fst e)) p) (visit n) of
        Some e \<Rightarrow> Some (snd e)
      | None \<Rightarrow> find_pattern visit (n + 1) ps)"

definition matchByModelFamily :: "pricing_view \<Rightarrow> gostr \<Rightarrow> LiteLLMModelPricing option" where
  "matchByModelFamily v model =
     (let family = matchedFamily (pv_families v) model
      in if family = '''' then None
         else case map_of familyPatterns family of
                None \<Rightarrow> None
              | Some patterns \<Rightarrow> find_pattern (pv_visit v) 1 patterns)"

text \<open>The regular expressions for dates at the end and for the base of an OpenAI name.\<close>

definition withoutDate :: "gostr \<Rightarrow> gostr" where
  "withoutDate model =
     (let k = length model - 9
      in if 9 \<le> length model \<and> model ! k = CHR ''-'' \<and> list_all is_digit (drop (k + 1) model)
         then take k model else model)"

definition openAIModelBase :: "gostr \<Rightarrow> gostr option" where
  "openAIModelBase model =
     (case cut_prefix model ''gpt-'' of
        None \<Rightarrow> None
      | Some rest \<Rightarrow>
          let major = takeWhile is_digit rest; after = dropWhile is_digit rest;
              minor = takeWhile is_digit (drop 1 after);
              (base, tail) = (if prefix ''.'' after \<and> minor \<noteq> '''' then (major @ ''.'' @ minor, dropWhile is_digit (drop 1 after))
                              else (major, after))
          in if major \<noteq> '''' \<and> (tail = '''' \<or> prefix ''-'' tail) then Some (''gpt-'' @ base) else None)"

definition generateOpenAIModelVariants :: "gostr \<Rightarrow> gostr list" where
  "generateOpenAIModelVariants model =
     (let d = withoutDate model;
          vs = (if d \<noteq> model then [d] else []) @ case_option [] (\<lambda>b. [b]) (openAIModelBase model)
               @ (if d \<noteq> model then case_option [] (\<lambda>b. [b]) (openAIModelBase d) else [])
      in rev (remdups (rev (filter (\<lambda>w. w \<noteq> model) vs))))"

fun first_priced :: "pricing_data \<Rightarrow> gostr list \<Rightarrow> LiteLLMModelPricing option" where
  "first_priced data [] = None"
| "first_priced data (m # ms) = (case data m of Some p \<Rightarrow> Some p | None \<Rightarrow> first_priced data ms)"

definition matchOpenAIModel :: "pricing_view \<Rightarrow> gostr \<Rightarrow> LiteLLMModelPricing option" where
  "matchOpenAIModel v model =
     (case (if has_prefix model ''gpt-5.3-codex-spark'' then pv_data v ''gpt-5.1-codex'' else None) of
        Some p \<Rightarrow> Some p
      | None \<Rightarrow>
          (case first_priced (pv_data v) (generateOpenAIModelVariants model) of
             Some p \<Rightarrow> Some p
           | None \<Rightarrow>
               (case (if has_prefix model ''gpt-5.3-codex'' then pv_data v ''gpt-5.2-codex'' else None) of
                  Some p \<Rightarrow> Some p
                | None \<Rightarrow>
                    if has_prefix model ''gpt-5.4-mini'' then Some openAIGPT54MiniFallbackPricing
                    else if has_prefix model ''gpt-5.4-nano'' then Some openAIGPT54NanoFallbackPricing
                    else if has_prefix model ''gpt-5.4'' then Some openAIGPT54FallbackPricing
                    else pv_data v ''gpt-5.1-codex'')))"

definition GetModelPricing :: "pricing_view \<Rightarrow> gostr \<Rightarrow> LiteLLMModelPricing option" where
  "GetModelPricing v modelName =
     (if modelName = '''' then None
      else let candidates = buildModelLookupCandidates (to_lower (trim_space modelName));
               first = hd candidates
           in case first_priced (pv_data v) (filter (\<lambda>c. c \<noteq> '''') candidates) of
                Some p \<Rightarrow> Some p
              | None \<Rightarrow>
                  (case first_priced (pv_data v) (map (\<lambda>c. replace_all c ''-4-5-'' ''-4.5-'') candidates) of
                     Some p \<Rightarrow> Some p
                   | None \<Rightarrow>
                       (case find (\<lambda>e. extractBaseName (to_lower (fst e)) = extractBaseName first) (pv_visit v 0) of
                          Some e \<Rightarrow> Some (snd e)
                        | None \<Rightarrow>
                            (case matchByModelFamily v first of
                               Some p \<Rightarrow> Some p
                             | None \<Rightarrow> if has_prefix first ''gpt-'' then matchOpenAIModel v first else None))))"

section \<open>Updates never lose the list\<close>

definition has_prices :: "pricing_state \<Rightarrow> bool" where
  "has_prices st = (ps_data st \<noteq> Map.empty)"

lemma parse_not_empty: "parsePricingData raw = Some d \<Longrightarrow> d \<noteq> Map.empty"
  by (auto simp: parsePricingData_def Let_def split: option.splits if_splits)

lemma download_keeps: "has_prices st \<Longrightarrow> has_prices (snd (downloadPricingData x st))"
  by (auto simp: downloadPricingData_def has_prices_def Let_def dest: parse_not_empty split: option.splits)

lemma download_gives: "fst (downloadPricingData x st) \<Longrightarrow> has_prices (snd (downloadPricingData x st))"
  by (auto simp: downloadPricingData_def has_prices_def Let_def dest: parse_not_empty split: option.splits if_splits)

lemma load_gives: "fst (loadPricingData x c st) \<Longrightarrow> has_prices (snd (loadPricingData x c st))"
  by (auto simp: loadPricingData_def has_prices_def dest: parse_not_empty split: option.splits)

lemma LoadPricingData_gives: "fst (LoadPricingData x st) \<Longrightarrow> has_prices (snd (LoadPricingData x st))"
proof -
  have "fst (checkAndUpdatePricing x st) \<Longrightarrow> has_prices (snd (checkAndUpdatePricing x st))"
    using download_gives download_keeps load_gives [of x "ps_file st" st]
    by (auto simp: checkAndUpdatePricing_def split: option.splits prod.splits bool.splits if_splits)
  moreover have "fst (useFallbackPricing x s) \<Longrightarrow> has_prices (snd (useFallbackPricing x s))" for s
    using load_gives by (auto simp: useFallbackPricing_def split: option.splits)
  ultimately show "fst (LoadPricingData x st) \<Longrightarrow> has_prices (snd (LoadPricingData x st))"
    by (auto simp: LoadPricingData_def split: prod.splits bool.splits)
qed

lemma sync_keeps: "has_prices st \<Longrightarrow> has_prices (snd (syncWithRemote x st))"
  by (auto simp: syncWithRemote_def download_keeps split: option.splits)

text \<open>Any sequence of scheduled and forced updates.\<close>

fun pricing_updates :: "(bool \<times> pricing_remote) list \<Rightarrow> pricing_state \<Rightarrow> pricing_state" where
  "pricing_updates [] st = st"
| "pricing_updates ((forced, x) # xs) st =
     pricing_updates xs (snd (if forced then downloadPricingData x st else syncWithRemote x st))"

lemma updates_keep: "has_prices st \<Longrightarrow> has_prices (pricing_updates xs st)"
  by (induction xs arbitrary: st) (auto simp: download_keeps sync_keeps)

text \<open>A download is not repeated while the remote hash stays the same.\<close>

lemma no_repeated_download:
  assumes "fst (downloadPricingData x st)" and "fetchRemoteHash x = Some h" "h \<noteq> ''''" "trim_space (px_hashURL x) \<noteq> ''''"
    and "fetchRemoteHash y = Some h" "px_hashURL y = px_hashURL x"
  shows "syncWithRemote y (snd (downloadPricingData x st)) = (True, snd (downloadPricingData x st))"
proof -
  have "ps_localHash (snd (downloadPricingData x st)) = h"
    using assms(1-4) by (auto simp: downloadPricingData_def Let_def split: option.splits if_splits)
  moreover have "px_hashURL y \<noteq> ''''" using assms(4,6) by auto
  ultimately show ?thesis using assms(3,5) by (simp add: syncWithRemote_def)
qed

section \<open>Which price a model gets\<close>

lemma after_last_no_slash: "CHR ''/'' \<notin> set m \<Longrightarrow> CHR ''/'' \<in> set p \<Longrightarrow> after_last m p = None"
  by (auto simp: after_last_None contains_iff)

lemma trim_prefix_no_slash: "CHR ''/'' \<notin> set m \<Longrightarrow> CHR ''/'' \<in> set p \<Longrightarrow> trim_prefix m p = m"
  by (auto simp: trim_prefix_def prefix_def)

lemma trim_left_no_slash: "CHR ''/'' \<notin> set m \<Longrightarrow> trim_left_char (CHR ''/'') m = m"
  by (cases m) auto

lemma candidates_plain:
  assumes "CHR ''/'' \<notin> set m" and "trim_space m = m" and "m \<noteq> ''''"
  shows "buildModelLookupCandidates m = [m]"
proof -
  have "normalizeModelNameForPricing m = m"
    using assms by (simp add: normalizeModelNameForPricing_def Let_def after_last_no_slash trim_prefix_no_slash trim_left_no_slash)
  moreover have "lastSegment m = m" using assms(1) by (simp add: lastSegment_def after_last_no_slash)
  ultimately show ?thesis
    using assms by (simp add: buildModelLookupCandidates_def Let_def trim_prefix_no_slash)
qed

text \<open>
  For a plain name (no path in front) the price under the name itself comes first; then the later
  stages, in their order.
\<close>

definition plain_name :: "gostr \<Rightarrow> bool" where
  "plain_name m = (CHR ''/'' \<notin> set m \<and> trim_space m = m \<and> m \<noteq> '''' \<and> to_lower m = m)"

lemma GetModelPricing_plain:
  assumes "plain_name m"
  shows "GetModelPricing v m =
     (case pv_data v m of
        Some p \<Rightarrow> Some p
      | None \<Rightarrow>
          (case pv_data v (replace_all m ''-4-5-'' ''-4.5-'') of
             Some p \<Rightarrow> Some p
           | None \<Rightarrow>
               (case find (\<lambda>e. extractBaseName (to_lower (fst e)) = extractBaseName m) (pv_visit v 0) of
                  Some e \<Rightarrow> Some (snd e)
                | None \<Rightarrow>
                    (case matchByModelFamily v m of
                       Some p \<Rightarrow> Some p
                     | None \<Rightarrow> if has_prefix m ''gpt-'' then matchOpenAIModel v m else None))))"
  using assms by (auto simp: GetModelPricing_def plain_name_def candidates_plain Let_def split: option.splits)

lemma find_in: "find P xs = Some e \<Longrightarrow> (fst e, snd e) \<in> set xs"
  by (auto simp: find_Some_iff)

lemma find_pattern_in:
  "find_pattern visit n ps = Some p \<Longrightarrow> \<exists>i key. (key, p) \<in> set (visit i)"
proof (induction ps arbitrary: n)
  case (Cons q qs)
  show ?case
  proof (cases "find (\<lambda>e. contains (to_lower (fst e)) q) (visit n)")
    case None
    then show ?thesis using Cons by simp
  next
    case (Some e)
    then show ?thesis using Cons.prems find_in [OF Some] by auto
  qed
qed simp

lemma fair_visit: "fair_view v \<Longrightarrow> (key, p) \<in> set (pv_visit v n) \<Longrightarrow> pv_data v key = Some p"
  by (metis fair_view_def map_of_is_SomeI)

lemma first_priced_in: "first_priced data ms = Some p \<Longrightarrow> \<exists>m. data m = Some p"
  by (induction ms) (auto split: option.splits)

lemma matchOpenAIModel_in:
  "matchOpenAIModel v x = Some p \<Longrightarrow> (\<exists>key. pv_data v key = Some p) \<or>
     p \<in> {openAIGPT54FallbackPricing, openAIGPT54MiniFallbackPricing, openAIGPT54NanoFallbackPricing}"
  by (auto simp: matchOpenAIModel_def dest: first_priced_in split: if_splits option.splits)

text \<open>A price that is found is on the list, or one of the three built-in ones for GPT-5.4.\<close>

lemma found_price_is_listed:
  assumes "fair_view v" and "GetModelPricing v m = Some p"
  shows "(\<exists>key. pv_data v key = Some p) \<or>
     p \<in> {openAIGPT54FallbackPricing, openAIGPT54MiniFallbackPricing, openAIGPT54NanoFallbackPricing}"
proof -
  have visit: "\<exists>key. pv_data v key = Some q" if "(key, q) \<in> set (pv_visit v i)" for key q i
    using fair_visit [OF assms(1) that] by blast
  have pattern: "\<exists>key. pv_data v key = Some q" if "find_pattern (pv_visit v) n ps = Some q" for n ps q
    using find_pattern_in [OF that] visit by blast
  have family: "\<exists>key. pv_data v key = Some q" if "matchByModelFamily v x = Some q" for x q
    using that by (auto simp: matchByModelFamily_def Let_def dest: pattern split: if_splits option.splits)
  have base: "\<exists>key. pv_data v key = Some (snd e)" if "find P (pv_visit v 0) = Some e" for P e
    using visit [OF find_in [OF that]] .
  show ?thesis
    using assms(2) matchOpenAIModel_in [of v _ p]
    by (auto simp: GetModelPricing_def Let_def dest: base family first_priced_in split: if_splits option.splits)
qed

text \<open>Every model of the GPT family has a price as long as the default model has one.\<close>

lemma gpt_models_priced:
  assumes "plain_name m" "has_prefix m ''gpt-''" and "pv_data v ''gpt-5.1-codex'' \<noteq> None"
  shows "GetModelPricing v m \<noteq> None"
  using assms by (auto simp: GetModelPricing_plain matchOpenAIModel_def split: option.splits)

text \<open>
  The families are tried in the order of a Go map, and the name of an Opus 4.6 model also contains
  the pattern of Opus 4, so the same list gives it one price or the other.
\<close>

definition opus_prices :: "(gostr \<times> LiteLLMModelPricing) list" where
  "opus_prices = [(''claude-opus-4-1'', zero_lp\<lparr>lp_Input := 15 / 10^6\<rparr>), (''claude-opus-4-6'', zero_lp\<lparr>lp_Input := 5 / 10^6\<rparr>)]"

definition opus_view :: "(gostr \<times> gostr list) list \<Rightarrow> pricing_view" where
  "opus_view families = \<lparr>pv_data = map_of opus_prices, pv_visit = (\<lambda>_. opus_prices), pv_families = families\<rparr>"

lemma opus_price_depends_on_order:
  "fair_view (opus_view familyPatterns) \<and> fair_view (opus_view (rev familyPatterns)) \<and>
   map_option lp_Input (GetModelPricing (opus_view familyPatterns) ''claude-opus-4-6-thinking'') = Some (5 / 10^6) \<and>
   map_option lp_Input (GetModelPricing (opus_view (rev familyPatterns)) ''claude-opus-4-6-thinking'') = Some (15 / 10^6)"
proof -
  have "plain_name ''claude-opus-4-6-thinking''" by code_simp
  note eq = GetModelPricing_plain [OF this]
  have "map_option lp_Input (GetModelPricing (opus_view familyPatterns) ''claude-opus-4-6-thinking'') = Some (5 / 10^6)"
    by code_simp
  moreover have "map_option lp_Input (GetModelPricing (opus_view (rev familyPatterns)) ''claude-opus-4-6-thinking'') =
      Some (15 / 10^6)"
    by code_simp
  moreover have "fair_view (opus_view f)" for f
    by (simp add: fair_view_def opus_view_def opus_prices_def)
  ultimately show ?thesis by simp
qed

text \<open>
  A price that the list gives a model is the price of an entry of the list or one of the three
  built-in prices of GPT-5.4, whatever the order in which the loops visit the entries: no stage of
  the search (candidates, versions, base names, families, OpenAI variants) makes up a price.  A plain
  name that is on the list gets its own price, and every GPT model has one as long as the default
  model is listed.
\<close>

theorem listed_prices_only:
  assumes "fair_view v"
  shows "(GetModelPricing v m = Some p \<longrightarrow>
            (\<exists>key. pv_data v key = Some p) \<or>
            p \<in> {openAIGPT54FallbackPricing, openAIGPT54MiniFallbackPricing, openAIGPT54NanoFallbackPricing}) \<and>
         (plain_name m \<longrightarrow> pv_data v m \<noteq> None \<longrightarrow> GetModelPricing v m = pv_data v m) \<and>
         (plain_name m \<longrightarrow> has_prefix m ''gpt-'' \<longrightarrow> pv_data v ''gpt-5.1-codex'' \<noteq> None \<longrightarrow> GetModelPricing v m \<noteq> None)"
  using found_price_is_listed [OF assms, of m p] gpt_models_priced [of m v] GetModelPricing_plain [of m v]
  by (auto split: option.splits)

theorem listed_prices_only_witness:
  "GetModelPricing (opus_view familyPatterns) ''claude-opus-4-1'' = pv_data (opus_view familyPatterns) ''claude-opus-4-1'' \<and>
   pv_data (opus_view familyPatterns) ''claude-opus-4-1'' \<noteq> None"
proof -
  have "plain_name ''claude-opus-4-1''" by code_simp
  moreover have "pv_data (opus_view familyPatterns) ''claude-opus-4-1'' \<noteq> None"
    by (simp add: opus_view_def opus_prices_def)
  moreover have "fair_view (opus_view familyPatterns)"
    by (simp add: fair_view_def opus_view_def opus_prices_def)
  ultimately show ?thesis
    using listed_prices_only [of "opus_view familyPatterns" "''claude-opus-4-1''"] by blast
qed

end
