(* ===== verification/Pricing_Resolver.thy ===== *)
theory Pricing_Resolver
  imports Channel_Service Model_Pricing Codex_Models Cost
begin

text \<open>
  Which prices a request is charged at: the price table and the cost functions of
  \<open>internal/service/billing_service.go\<close> and the resolver of
  \<open>internal/service/model_pricing_resolver.go\<close>, which puts a channel's prices over those of the list.
  The code passes prices around as pointers and writes through them, so they live in a store here:
  a pointer is an index of \<open>bp_cells\<close>, and the fallback table maps names to pointers.  The main result
  relates the code to a calculation on values and says exactly which entries of the table it changes.
\<close>

section \<open>The store of prices\<close>

record billing_prices =
  bp_cells :: "ModelPricing list"
  bp_fallback :: "(gostr \<times> nat) list"

definition deref :: "billing_prices \<Rightarrow> nat \<Rightarrow> ModelPricing" where
  "deref s i = bp_cells s ! i"

definition alloc :: "ModelPricing \<Rightarrow> billing_prices \<Rightarrow> nat \<times> billing_prices" where
  "alloc p s = (length (bp_cells s), s\<lparr>bp_cells := bp_cells s @ [p]\<rparr>)"

definition assign :: "nat \<Rightarrow> ModelPricing \<Rightarrow> billing_prices \<Rightarrow> billing_prices" where
  "assign i p s = s\<lparr>bp_cells := (bp_cells s)[i := p]\<rparr>"

text \<open>Prices in dollars per million tokens.\<close>

definition claude_price :: "rat \<Rightarrow> rat \<Rightarrow> rat \<Rightarrow> rat \<Rightarrow> ModelPricing" where
  "claude_price i out cw cr = zero_mp\<lparr>mp_Input := i / 10^6, mp_Output := out / 10^6, mp_CacheCreation := cw / 10^6,
     mp_CacheRead := cr / 10^6\<rparr>"

definition openai_price :: "rat \<Rightarrow> rat \<Rightarrow> rat \<Rightarrow> ModelPricing" where
  "openai_price i out cr = zero_mp\<lparr>mp_Input := i / 10^6, mp_InputPriority := 2 * i / 10^6, mp_Output := out / 10^6,
     mp_OutputPriority := 2 * out / 10^6, mp_CacheCreation := i / 10^6, mp_CacheRead := cr / 10^6,
     mp_CacheReadPriority := 2 * cr / 10^6\<rparr>"

definition openAIGPT54LongContextInputThreshold :: int where "openAIGPT54LongContextInputThreshold = 272000"
definition openAIGPT54LongContextInputMultiplier :: rat where "openAIGPT54LongContextInputMultiplier = 2"
definition openAIGPT54LongContextOutputMultiplier :: rat where "openAIGPT54LongContextOutputMultiplier = 3 / 2"

definition fallbackObjects :: "ModelPricing list" where
  "fallbackObjects =
    [claude_price 5 25 (25 / 4) (1 / 2),
     claude_price 3 15 (15 / 4) (3 / 10),
     claude_price 3 15 (15 / 4) (3 / 10),
     claude_price 1 5 (5 / 4) (1 / 10),
     claude_price 15 75 (75 / 4) (3 / 2),
     claude_price (1 / 4) (5 / 4) (3 / 10) (3 / 100),
     claude_price 2 12 2 (1 / 5),
     openai_price (5 / 4) 10 (1 / 8),
     (openai_price (5 / 2) 15 (1 / 4))\<lparr>mp_LongContextThreshold := openAIGPT54LongContextInputThreshold,
       mp_LongContextInput := openAIGPT54LongContextInputMultiplier,
       mp_LongContextOutput := openAIGPT54LongContextOutputMultiplier\<rparr>,
     claude_price (3 / 4) (9 / 2) 0 (3 / 40),
     claude_price (1 / 5) (5 / 4) 0 (1 / 50),
     openai_price (7 / 4) 14 (7 / 40),
     openai_price (3 / 2) 12 (3 / 20),
     openai_price (7 / 4) 14 (7 / 40)]"

definition initFallbackPricing :: billing_prices where
  "initFallbackPricing = \<lparr>bp_cells = fallbackObjects,
     bp_fallback = [(''claude-opus-4.5'', 0), (''claude-sonnet-4'', 1), (''claude-3-5-sonnet'', 2), (''claude-3-5-haiku'', 3),
       (''claude-3-opus'', 4), (''claude-3-haiku'', 5), (''claude-opus-4.6'', 0), (''gemini-3.1-pro'', 6), (''gpt-5.1'', 7),
       (''gpt-5.4'', 8), (''gpt-5.4-mini'', 9), (''gpt-5.4-nano'', 10), (''gpt-5.2'', 11), (''gpt-5.1-codex'', 12),
       (''gpt-5.2-codex'', 13), (''gpt-5.3-codex'', 12)]\<rparr>"

section \<open>The price of a model\<close>

definition openaiFallbackKey :: "gostr \<Rightarrow> gostr option" where
  "openaiFallbackKey normalized =
     (if normalized \<in> {''gpt-5.4-mini'', ''gpt-5.4-nano'', ''gpt-5.4'', ''gpt-5.2'', ''gpt-5.2-codex'', ''gpt-5.3-codex'', ''gpt-5.1''}
      then Some normalized
      else if normalized \<in> {''gpt-5.1-codex'', ''gpt-5.1-codex-max'', ''gpt-5.1-codex-mini'', ''codex-mini-latest''}
      then Some ''gpt-5.1-codex'' else None)"

definition fallbackKey :: "gostr \<Rightarrow> gostr option" where
  "fallbackKey m =
     (if contains m ''opus'' then
        (if contains m ''4.6'' \<or> contains m ''4-6'' then Some ''claude-opus-4.6''
         else if contains m ''4.5'' \<or> contains m ''4-5'' then Some ''claude-opus-4.5''
         else Some ''claude-3-opus'')
      else if contains m ''sonnet'' then
        (if contains m ''4'' \<and> \<not> contains m ''3'' then Some ''claude-sonnet-4'' else Some ''claude-3-5-sonnet'')
      else if contains m ''haiku'' then
        (if contains m ''3-5'' \<or> contains m ''3.5'' then Some ''claude-3-5-haiku'' else Some ''claude-3-haiku'')
      else if contains m ''claude'' then Some ''claude-sonnet-4''
      else if contains m ''gemini-3.1-pro'' \<or> contains m ''gemini-3-1-pro'' then Some ''gemini-3.1-pro''
      else if contains m ''gpt-5'' \<or> contains m ''codex'' then openaiFallbackKey (normalizeCodexModel m)
      else None)"

definition getFallbackPricing :: "billing_prices \<Rightarrow> gostr \<Rightarrow> nat option" where
  "getFallbackPricing s model =
     (case fallbackKey (to_lower model) of None \<Rightarrow> None | Some key \<Rightarrow> map_of (bp_fallback s) key)"

definition liteLLMPricing :: "LiteLLMModelPricing \<Rightarrow> ModelPricing" where
  "liteLLMPricing l =
     (let price5m = lp_CacheCreation l; price1h = lp_CacheCreationAbove1hr l
      in \<lparr>mp_Input = lp_Input l, mp_InputPriority = lp_InputPriority l, mp_Output = lp_Output l,
          mp_OutputPriority = lp_OutputPriority l, mp_CacheCreation = lp_CacheCreation l, mp_CacheRead = lp_CacheRead l,
          mp_CacheReadPriority = lp_CacheReadPriority l, mp_CacheCreation5m = price5m, mp_CacheCreation1h = price1h,
          mp_SupportsCacheBreakdown = (price1h > 0 \<and> price1h > price5m),
          mp_LongContextThreshold = lp_LongContextThreshold l, mp_LongContextInput = lp_LongContextInput l,
          mp_LongContextOutput = lp_LongContextOutput l, mp_ImageOutput = lp_OutputPerImageToken l\<rparr>)"

definition hasLongContextPolicy :: "ModelPricing \<Rightarrow> bool" where
  "hasLongContextPolicy p = (mp_LongContextThreshold p > 0 \<and> mp_LongContextInput p > 0 \<and> mp_LongContextOutput p > 0)"

definition withLongContextPolicy :: "ModelPricing \<Rightarrow> ModelPricing" where
  "withLongContextPolicy p =
     p\<lparr>mp_LongContextThreshold := (if mp_LongContextThreshold p \<le> 0 then openAIGPT54LongContextInputThreshold
                                   else mp_LongContextThreshold p),
       mp_LongContextInput := (if mp_LongContextInput p \<le> 0 then openAIGPT54LongContextInputMultiplier else mp_LongContextInput p),
       mp_LongContextOutput := (if mp_LongContextOutput p \<le> 0 then openAIGPT54LongContextOutputMultiplier
                                else mp_LongContextOutput p)\<rparr>"

definition applyModelSpecificPricingPolicy :: "gostr \<Rightarrow> nat \<Rightarrow> billing_prices \<Rightarrow> nat \<times> billing_prices" where
  "applyModelSpecificPricingPolicy model pricing s =
     (if \<not> isOpenAIGPT54Model model then (pricing, s)
      else if hasLongContextPolicy (deref s pricing) then (pricing, s)
      else alloc (withLongContextPolicy (deref s pricing)) s)"

text \<open>The price list of the pricing service, where the service has one.\<close>

definition listedPrice :: "pricing_view option \<Rightarrow> gostr \<Rightarrow> LiteLLMModelPricing option" where
  "listedPrice pricingService model =
     (case pricingService of None \<Rightarrow> None | Some v \<Rightarrow> GetModelPricing v model)"

definition svcGetModelPricing :: "pricing_view option \<Rightarrow> gostr \<Rightarrow> billing_prices \<Rightarrow> nat option \<times> billing_prices" where
  "svcGetModelPricing pricingService modelName s =
     (let model = to_lower modelName
      in case listedPrice pricingService model of
           Some l \<Rightarrow> (let (p, s1) = alloc (liteLLMPricing l) s; (q, s2) = applyModelSpecificPricingPolicy model p s1
                      in (Some q, s2))
         | None \<Rightarrow>
             (case getFallbackPricing s model of
                Some p \<Rightarrow> (let (q, s1) = applyModelSpecificPricingPolicy model p s in (Some q, s1))
              | None \<Rightarrow> (None, s)))"

text \<open>A channel's prices over others, as two functions of the code write it out.\<close>

definition overridePrices :: "ChannelModelPricing \<Rightarrow> ModelPricing \<Rightarrow> ModelPricing" where
  "overridePrices ch p =
     (let p1 = (case cp_InputPrice ch of None \<Rightarrow> p | Some x \<Rightarrow> p\<lparr>mp_Input := x, mp_InputPriority := x\<rparr>);
          p2 = (case cp_OutputPrice ch of None \<Rightarrow> p1 | Some x \<Rightarrow> p1\<lparr>mp_Output := x, mp_OutputPriority := x\<rparr>);
          p3 = (case cp_CacheWritePrice ch of None \<Rightarrow> p2
                | Some x \<Rightarrow> p2\<lparr>mp_CacheCreation := x, mp_CacheCreation5m := x, mp_CacheCreation1h := x\<rparr>);
          p4 = (case cp_CacheReadPrice ch of None \<Rightarrow> p3 | Some x \<Rightarrow> p3\<lparr>mp_CacheRead := x, mp_CacheReadPriority := x\<rparr>)
      in case cp_ImageOutputPrice ch of None \<Rightarrow> p4 | Some x \<Rightarrow> p4\<lparr>mp_ImageOutput := x\<rparr>)"

definition GetModelPricingWithChannel ::
    "pricing_view option \<Rightarrow> gostr \<Rightarrow> ChannelModelPricing option \<Rightarrow> billing_prices \<Rightarrow> nat option \<times> billing_prices" where
  "GetModelPricingWithChannel pricingService model channelPricing s =
     (case svcGetModelPricing pricingService model s of
        (None, s1) \<Rightarrow> (None, s1)
      | (Some p, s1) \<Rightarrow>
          (Some p, case channelPricing of None \<Rightarrow> s1 | Some ch \<Rightarrow> assign p (overridePrices ch (deref s1 p)) s1))"

section \<open>The resolver\<close>

record ResolvedPricing =
  rp_Mode :: gostr
  rp_BasePricing :: "nat option"
  rp_Intervals :: "PricingInterval list"
  rp_RequestTiers :: "PricingInterval list"
  rp_DefaultPerRequestPrice :: rat
  rp_Source :: gostr
  rp_SupportsCacheBreakdown :: bool

definition PricingSourceChannel :: gostr where "PricingSourceChannel = ''channel''"
definition PricingSourceLiteLLM :: gostr where "PricingSourceLiteLLM = ''litellm''"
definition PricingSourceFallback :: gostr where "PricingSourceFallback = ''fallback''"

text \<open>What the resolver's services answer with, and their state.\<close>

record cost_env =
  xe_pricingService :: "pricing_view option"
  xe_channels :: channel_env

record pricing_world =
  pw_channels :: channel_world
  pw_prices :: billing_prices

definition resolveBasePricing :: "pricing_view option \<Rightarrow> gostr \<Rightarrow> billing_prices \<Rightarrow> (nat option \<times> gostr) \<times> billing_prices" where
  "resolveBasePricing pricingService model s =
     (case svcGetModelPricing pricingService model s of
        (None, s1) \<Rightarrow> ((None, PricingSourceFallback), s1)
      | (Some p, s1) \<Rightarrow> ((Some p, PricingSourceLiteLLM), s1))"

definition filterValidIntervals :: "PricingInterval list \<Rightarrow> PricingInterval list" where
  "filterValidIntervals intervals = filter interval_has_price intervals"

definition applyTokenOverrides :: "ChannelModelPricing \<Rightarrow> ResolvedPricing \<Rightarrow> billing_prices \<Rightarrow> ResolvedPricing \<times> billing_prices" where
  "applyTokenOverrides ch resolved s =
     (let validIntervals = filterValidIntervals (cp_Intervals ch)
      in if validIntervals \<noteq> [] then (resolved\<lparr>rp_Intervals := validIntervals\<rparr>, s)
         else let (p, s1) = (case rp_BasePricing resolved of Some p \<Rightarrow> (p, s) | None \<Rightarrow> alloc zero_mp s)
              in (resolved\<lparr>rp_BasePricing := Some p\<rparr>, assign p (overridePrices ch (deref s1 p)) s1))"

definition applyRequestTierOverrides :: "ChannelModelPricing \<Rightarrow> ResolvedPricing \<Rightarrow> ResolvedPricing" where
  "applyRequestTierOverrides ch resolved =
     (let r = resolved\<lparr>rp_RequestTiers := filterValidIntervals (cp_Intervals ch)\<rparr>
      in case cp_PerRequestPrice ch of None \<Rightarrow> r | Some x \<Rightarrow> r\<lparr>rp_DefaultPerRequestPrice := x\<rparr>)"

definition channelOverride :: "ChannelModelPricing \<Rightarrow> ResolvedPricing \<Rightarrow> billing_prices \<Rightarrow> ResolvedPricing \<times> billing_prices" where
  "channelOverride ch resolved s =
     (let mode = (if cp_BillingMode ch = '''' then BillingModeToken else cp_BillingMode ch);
          r = resolved\<lparr>rp_Source := PricingSourceChannel, rp_Mode := mode\<rparr>
      in if mode = BillingModeToken then applyTokenOverrides ch r s
         else if mode = BillingModePerRequest \<or> mode = BillingModeImage then (applyRequestTierOverrides ch r, s)
         else (r, s))"

definition applyChannelOverrides :: "cost_env \<Rightarrow> int64 \<Rightarrow> gostr \<Rightarrow> ResolvedPricing \<Rightarrow> pricing_world \<Rightarrow> ResolvedPricing \<times> pricing_world" where
  "applyChannelOverrides E groupID model resolved w =
     (case GetChannelModelPricing (xe_channels E) groupID model (pw_channels w) of
        (None, cw) \<Rightarrow> (resolved, w\<lparr>pw_channels := cw\<rparr>)
      | (Some ch, cw) \<Rightarrow>
          (let (r, s) = channelOverride ch resolved (pw_prices w) in (r, \<lparr>pw_channels = cw, pw_prices = s\<rparr>)))"

definition Resolve :: "cost_env \<Rightarrow> int64 option \<Rightarrow> gostr \<Rightarrow> pricing_world \<Rightarrow> ResolvedPricing \<times> pricing_world" where
  "Resolve E groupID model w =
     (let ((basePricing, source), s) = resolveBasePricing (xe_pricingService E) model (pw_prices w);
          resolved = \<lparr>rp_Mode = BillingModeToken, rp_BasePricing = basePricing, rp_Intervals = [], rp_RequestTiers = [],
            rp_DefaultPerRequestPrice = 0, rp_Source = source,
            rp_SupportsCacheBreakdown = (case basePricing of None \<Rightarrow> False | Some p \<Rightarrow> mp_SupportsCacheBreakdown (deref s p))\<rparr>;
          w1 = w\<lparr>pw_prices := s\<rparr>
      in case groupID of None \<Rightarrow> (resolved, w1) | Some g \<Rightarrow> applyChannelOverrides E g model resolved w1)"

definition intervalToModelPricing :: "PricingInterval \<Rightarrow> bool \<Rightarrow> ModelPricing" where
  "intervalToModelPricing iv supportsCacheBreakdown =
     (let p = zero_mp\<lparr>mp_SupportsCacheBreakdown := supportsCacheBreakdown\<rparr>;
          p1 = (case iv_InputPrice iv of None \<Rightarrow> p | Some x \<Rightarrow> p\<lparr>mp_Input := x, mp_InputPriority := x\<rparr>);
          p2 = (case iv_OutputPrice iv of None \<Rightarrow> p1 | Some x \<Rightarrow> p1\<lparr>mp_Output := x, mp_OutputPriority := x\<rparr>);
          p3 = (case iv_CacheWritePrice iv of None \<Rightarrow> p2
                | Some x \<Rightarrow> p2\<lparr>mp_CacheCreation := x, mp_CacheCreation5m := x, mp_CacheCreation1h := x\<rparr>)
      in case iv_CacheReadPrice iv of None \<Rightarrow> p3 | Some x \<Rightarrow> p3\<lparr>mp_CacheRead := x, mp_CacheReadPriority := x\<rparr>)"

definition GetIntervalPricing :: "ResolvedPricing \<Rightarrow> int \<Rightarrow> billing_prices \<Rightarrow> nat option \<times> billing_prices" where
  "GetIntervalPricing resolved totalContextTokens s =
     (if rp_Intervals resolved = [] then (rp_BasePricing resolved, s)
      else case FindMatchingInterval (rp_Intervals resolved) totalContextTokens of
             None \<Rightarrow> (rp_BasePricing resolved, s)
           | Some iv \<Rightarrow>
               (let (p, s1) = alloc (intervalToModelPricing iv (rp_SupportsCacheBreakdown resolved)) s in (Some p, s1)))"

definition GetRequestTierPrice :: "ResolvedPricing \<Rightarrow> gostr \<Rightarrow> rat" where
  "GetRequestTierPrice resolved tierLabel =
     (case find (\<lambda>t. iv_TierLabel t = tierLabel \<and> iv_PerRequestPrice t \<noteq> None) (rp_RequestTiers resolved) of
        None \<Rightarrow> 0 | Some t \<Rightarrow> or_zero (iv_PerRequestPrice t))"

definition GetRequestTierPriceByContext :: "ResolvedPricing \<Rightarrow> int \<Rightarrow> rat" where
  "GetRequestTierPriceByContext resolved totalContextTokens =
     (case FindMatchingInterval (rp_RequestTiers resolved) totalContextTokens of
        None \<Rightarrow> 0 | Some iv \<Rightarrow> or_zero (iv_PerRequestPrice iv))"

section \<open>The cost of a request\<close>

record CostInput =
  ci_Model :: gostr
  ci_GroupID :: "int64 option"
  ci_Tokens :: UsageTokens
  ci_RequestCount :: int
  ci_SizeTier :: gostr
  ci_RateMultiplier :: rat
  ci_ServiceTier :: gostr
  ci_HasResolver :: bool
  ci_Resolved :: "ResolvedPricing option"

definition calculateCostInternal ::
    "pricing_view option \<Rightarrow> gostr \<Rightarrow> UsageTokens \<Rightarrow> rat \<Rightarrow> gostr \<Rightarrow> ChannelModelPricing option \<Rightarrow> billing_prices
     \<Rightarrow> CostBreakdown option \<times> billing_prices" where
  "calculateCostInternal pricingService model tokens rateMultiplier serviceTier channelPricing s =
     (case (case channelPricing of
              None \<Rightarrow> svcGetModelPricing pricingService model s
            | Some _ \<Rightarrow> GetModelPricingWithChannel pricingService model channelPricing s) of
        (None, s1) \<Rightarrow> (None, s1)
      | (Some p, s1) \<Rightarrow> (Some (computeTokenBreakdown (deref s1 p) tokens rateMultiplier serviceTier True), s1))"

definition CalculateCost ::
    "pricing_view option \<Rightarrow> gostr \<Rightarrow> UsageTokens \<Rightarrow> rat \<Rightarrow> billing_prices \<Rightarrow> CostBreakdown option \<times> billing_prices" where
  "CalculateCost pricingService model tokens rateMultiplier s =
     calculateCostInternal pricingService model tokens rateMultiplier '''' None s"

definition CalculateCostWithServiceTier ::
    "pricing_view option \<Rightarrow> gostr \<Rightarrow> UsageTokens \<Rightarrow> rat \<Rightarrow> gostr \<Rightarrow> billing_prices \<Rightarrow> CostBreakdown option \<times> billing_prices" where
  "CalculateCostWithServiceTier pricingService model tokens rateMultiplier serviceTier s =
     calculateCostInternal pricingService model tokens rateMultiplier serviceTier None s"

text \<open>Estimates for display use the configured default rate.\<close>

definition CalculateCostWithConfig ::
    "pricing_view option \<Rightarrow> rat \<Rightarrow> gostr \<Rightarrow> UsageTokens \<Rightarrow> billing_prices \<Rightarrow> CostBreakdown option \<times> billing_prices" where
  "CalculateCostWithConfig pricingService defaultRate model tokens s =
     CalculateCost pricingService model tokens (if defaultRate \<le> 0 then 1 else defaultRate) s"

definition GetEstimatedCost ::
    "pricing_view option \<Rightarrow> rat \<Rightarrow> gostr \<Rightarrow> int \<Rightarrow> int \<Rightarrow> billing_prices \<Rightarrow> rat option \<times> billing_prices" where
  "GetEstimatedCost pricingService defaultRate model inputTokens outputTokens s =
     (let (c, s1) = CalculateCostWithConfig pricingService defaultRate model
                      (zero_tokens\<lparr>ut_Input := inputTokens, ut_Output := outputTokens\<rparr>) s
      in (map_option co_ActualCost c, s1))"

definition ListSupportedModels :: "billing_prices \<Rightarrow> gostr list" where
  "ListSupportedModels s = map fst (bp_fallback s)"

definition IsModelSupported :: "gostr \<Rightarrow> bool" where
  "IsModelSupported model =
     (let m = to_lower model
      in contains m ''claude'' \<or> contains m ''opus'' \<or> contains m ''sonnet'' \<or> contains m ''haiku'')"

definition unifiedTokenCost :: "ResolvedPricing \<Rightarrow> CostInput \<Rightarrow> billing_prices \<Rightarrow> CostBreakdown option \<times> billing_prices" where
  "unifiedTokenCost resolved inp s =
     (let totalContext = ut_Input (ci_Tokens inp) + ut_CacheRead (ci_Tokens inp)
      in case GetIntervalPricing resolved totalContext s of
           (None, s1) \<Rightarrow> (None, s1)
         | (Some p, s1) \<Rightarrow>
             (let (q, s2) = applyModelSpecificPricingPolicy (ci_Model inp) p s1
              in (Some (computeTokenBreakdown (deref s2 q) (ci_Tokens inp) (ci_RateMultiplier inp) (ci_ServiceTier inp)
                          (rp_Intervals resolved = [])), s2)))"

definition calculatePerRequestCost :: "ResolvedPricing \<Rightarrow> CostInput \<Rightarrow> CostBreakdown" where
  "calculatePerRequestCost resolved inp =
     (let count = (if ci_RequestCount inp \<le> 0 then 1 else ci_RequestCount inp);
          byLabel = (if ci_SizeTier inp \<noteq> '''' then GetRequestTierPrice resolved (ci_SizeTier inp) else 0);
          byContext = (if byLabel = 0
                       then GetRequestTierPriceByContext resolved (ut_Input (ci_Tokens inp) + ut_CacheRead (ci_Tokens inp))
                       else byLabel);
          unitPrice = (if byContext = 0 then rp_DefaultPerRequestPrice resolved else byContext);
          totalCost = unitPrice * of_int count
      in zero_cost\<lparr>co_TotalCost := totalCost, co_ActualCost := totalCost * ci_RateMultiplier inp\<rparr>)"

definition CalculateCostUnified :: "cost_env \<Rightarrow> CostInput \<Rightarrow> pricing_world \<Rightarrow> CostBreakdown option \<times> pricing_world" where
  "CalculateCostUnified E input w =
     (if \<not> ci_HasResolver input
      then (let (c, s) = calculateCostInternal (xe_pricingService E) (ci_Model input) (ci_Tokens input)
                           (ci_RateMultiplier input) (ci_ServiceTier input) None (pw_prices w)
            in (c, w\<lparr>pw_prices := s\<rparr>))
      else let (resolved, w1) = (case ci_Resolved input of
                  Some r \<Rightarrow> (r, w)
                | None \<Rightarrow> Resolve E (ci_GroupID input) (ci_Model input) w);
               inp = (if ci_RateMultiplier input \<le> 0 then input\<lparr>ci_RateMultiplier := 1\<rparr> else input);
               (breakdown, s) = (if rp_Mode resolved = BillingModePerRequest \<or> rp_Mode resolved = BillingModeImage
                                 then (Some (calculatePerRequestCost resolved inp), pw_prices w1)
                                 else unifiedTokenCost resolved inp (pw_prices w1))
           in (map_option (\<lambda>c. c\<lparr>co_BillingMode := (if rp_Mode resolved = '''' then BillingModeToken else rp_Mode resolved)\<rparr>)
                 breakdown, w1\<lparr>pw_prices := s\<rparr>))"

text \<open>The part of a request's input within the threshold and the part beyond it; cache reads come first.\<close>

definition splitAtThreshold :: "int \<Rightarrow> UsageTokens \<Rightarrow> UsageTokens \<times> UsageTokens" where
  "splitAtThreshold threshold tokens =
     (let (inCache, inInput, outCache, outInput) =
        (if ut_CacheRead tokens \<ge> threshold then (threshold, 0, ut_CacheRead tokens - threshold, ut_Input tokens)
         else (ut_CacheRead tokens, threshold - ut_CacheRead tokens, 0,
               ut_Input tokens - (threshold - ut_CacheRead tokens)))
      in (tokens\<lparr>ut_Input := inInput, ut_CacheRead := inCache\<rparr>,
          zero_tokens\<lparr>ut_Input := outInput, ut_CacheRead := outCache\<rparr>))"

definition CalculateCostWithLongContext ::
    "pricing_view option \<Rightarrow> gostr \<Rightarrow> UsageTokens \<Rightarrow> rat \<Rightarrow> int \<Rightarrow> rat \<Rightarrow> billing_prices \<Rightarrow> CostBreakdown option \<times> billing_prices" where
  "CalculateCostWithLongContext pricingService model tokens rateMultiplier threshold extraMultiplier s =
     (if threshold \<le> 0 \<or> extraMultiplier \<le> 1 then CalculateCost pricingService model tokens rateMultiplier s
      else if ut_CacheRead tokens + ut_Input tokens \<le> threshold then CalculateCost pricingService model tokens rateMultiplier s
      else let (inRangeTokens, outRangeTokens) = splitAtThreshold threshold tokens
           in case CalculateCost pricingService model inRangeTokens rateMultiplier s of
                (None, s1) \<Rightarrow> (None, s1)
              | (Some inRange, s1) \<Rightarrow>
                  (case CalculateCost pricingService model outRangeTokens (rateMultiplier * extraMultiplier) s1 of
                     (None, s2) \<Rightarrow> (None, s2)
                   | (Some outRange, s2) \<Rightarrow>
                       (Some \<lparr>co_InputCost = co_InputCost inRange + co_InputCost outRange,
                              co_OutputCost = co_OutputCost inRange, co_ImageOutputCost = co_ImageOutputCost inRange,
                              co_CacheCreationCost = co_CacheCreationCost inRange,
                              co_CacheReadCost = co_CacheReadCost inRange + co_CacheReadCost outRange,
                              co_TotalCost = co_TotalCost inRange + co_TotalCost outRange,
                              co_ActualCost = co_ActualCost inRange + co_ActualCost outRange, co_BillingMode = ''''\<rparr>, s2)))"

section \<open>Images\<close>

record ImagePriceConfig =
  ip_Price1K :: "rat option"
  ip_Price2K :: "rat option"
  ip_Price4K :: "rat option"

definition getDefaultImagePrice :: "pricing_view option \<Rightarrow> gostr \<Rightarrow> gostr \<Rightarrow> rat" where
  "getDefaultImagePrice pricingService model imageSize =
     (let listed = (case listedPrice pricingService model of
             Some l \<Rightarrow> if lp_OutputPerImage l > 0 then lp_OutputPerImage l else 0
           | None \<Rightarrow> 0);
          basePrice = (if listed \<le> 0 then 134 / 1000 else listed)
      in if imageSize = ''2K'' then basePrice * (3 / 2)
         else if imageSize = ''4K'' then basePrice * 2 else basePrice)"

definition getImageUnitPrice :: "pricing_view option \<Rightarrow> gostr \<Rightarrow> gostr \<Rightarrow> ImagePriceConfig option \<Rightarrow> rat" where
  "getImageUnitPrice pricingService model imageSize groupConfig =
     (case (case groupConfig of
              None \<Rightarrow> None
            | Some g \<Rightarrow> if imageSize = ''1K'' then ip_Price1K g else if imageSize = ''2K'' then ip_Price2K g
                        else if imageSize = ''4K'' then ip_Price4K g else None) of
        Some x \<Rightarrow> x
      | None \<Rightarrow> getDefaultImagePrice pricingService model imageSize)"

definition CalculateImageCost ::
    "pricing_view option \<Rightarrow> gostr \<Rightarrow> gostr \<Rightarrow> int \<Rightarrow> ImagePriceConfig option \<Rightarrow> rat \<Rightarrow> CostBreakdown" where
  "CalculateImageCost pricingService model imageSize imageCount groupConfig rateMultiplier =
     (if imageCount \<le> 0 then zero_cost
      else let totalCost = getImageUnitPrice pricingService model imageSize groupConfig * of_int imageCount
           in zero_cost\<lparr>co_TotalCost := totalCost, co_ActualCost := totalCost * effectiveRate rateMultiplier,
                co_BillingMode := BillingModeImage\<rparr>)"

section \<open>Pointers\<close>

definition store_ok :: "billing_prices \<Rightarrow> bool" where
  "store_ok s = list_all (\<lambda>e. snd e < length (bp_cells s)) (bp_fallback s)"

text \<open>A step that only adds new cells.\<close>

definition grows :: "billing_prices \<Rightarrow> billing_prices \<Rightarrow> bool" where
  "grows s s' = (bp_fallback s' = bp_fallback s \<and> prefix (bp_cells s) (bp_cells s'))"

lemma grows_refl [simp]: "grows s s"
  by (simp add: grows_def)

lemma grows_trans: "grows s t \<Longrightarrow> grows t u \<Longrightarrow> grows s u"
  by (auto simp: grows_def)

lemma grows_deref: "grows s s' \<Longrightarrow> i < length (bp_cells s) \<Longrightarrow> deref s' i = deref s i"
  by (auto simp: grows_def deref_def prefix_def nth_append)

lemma grows_length: "grows s s' \<Longrightarrow> length (bp_cells s) \<le> length (bp_cells s')"
  by (simp add: grows_def prefix_length_le)

lemma grows_alloc: "alloc p s = (i, s') \<Longrightarrow> grows s s' \<and> i = length (bp_cells s) \<and> i < length (bp_cells s') \<and> deref s' i = p"
  by (auto simp: alloc_def grows_def deref_def)

lemma fallback_pointer: "store_ok s \<Longrightarrow> getFallbackPricing s m = Some i \<Longrightarrow> i < length (bp_cells s)"
  by (auto simp: store_ok_def getFallbackPricing_def list_all_iff dest!: map_of_SomeD split: option.splits)

text \<open>The model's own policy, on values.\<close>

definition policyValue :: "gostr \<Rightarrow> ModelPricing \<Rightarrow> ModelPricing" where
  "policyValue model p = (if isOpenAIGPT54Model model \<and> \<not> hasLongContextPolicy p then withLongContextPolicy p else p)"

lemma policy_reached: "hasLongContextPolicy (withLongContextPolicy p)"
  by (simp add: hasLongContextPolicy_def withLongContextPolicy_def openAIGPT54LongContextInputThreshold_def
      openAIGPT54LongContextInputMultiplier_def openAIGPT54LongContextOutputMultiplier_def)

lemma policy_fixed: "withLongContextPolicy p = p \<longleftrightarrow> hasLongContextPolicy p"
proof
  show "withLongContextPolicy p = p \<Longrightarrow> hasLongContextPolicy p" using policy_reached [of p] by simp
  show "hasLongContextPolicy p \<Longrightarrow> withLongContextPolicy p = p"
    by (simp add: hasLongContextPolicy_def withLongContextPolicy_def)
qed

lemma policy_step:
  assumes "applyModelSpecificPricingPolicy model i s = (j, s')" and "i < length (bp_cells s)"
  shows "grows s s'" and "j < length (bp_cells s')" and "deref s' j = policyValue model (deref s i)"
    and "j < length (bp_cells s) \<longleftrightarrow> policyValue model (deref s i) = deref s i"
    and "j < length (bp_cells s) \<Longrightarrow> j = i"
proof -
  show "grows s s'" and "j < length (bp_cells s')" and "deref s' j = policyValue model (deref s i)"
    using assms grows_alloc [of "withLongContextPolicy (deref s i)" s j s']
    by (auto simp: applyModelSpecificPricingPolicy_def policyValue_def split: if_splits)
  show "j < length (bp_cells s) \<longleftrightarrow> policyValue model (deref s i) = deref s i"
    using assms grows_alloc [of "withLongContextPolicy (deref s i)" s j s'] policy_fixed [of "deref s i"]
    by (auto simp: applyModelSpecificPricingPolicy_def policyValue_def split: if_splits)
  show "j < length (bp_cells s) \<Longrightarrow> j = i"
    using assms grows_alloc [of "withLongContextPolicy (deref s i)" s j s']
    by (auto simp: applyModelSpecificPricingPolicy_def split: if_splits)
qed

text \<open>
  The price of a model as a value, and the pointer into the fallback table that the code hands out
  for it, if it does.
\<close>

definition basePrice :: "pricing_view option \<Rightarrow> billing_prices \<Rightarrow> gostr \<Rightarrow> ModelPricing option" where
  "basePrice pricingService s modelName =
     (let model = to_lower modelName
      in map_option (policyValue model)
           (case listedPrice pricingService model of
              Some l \<Rightarrow> Some (liteLLMPricing l)
            | None \<Rightarrow> map_option (deref s) (getFallbackPricing s model)))"

definition sharedSlot :: "pricing_view option \<Rightarrow> billing_prices \<Rightarrow> gostr \<Rightarrow> nat option" where
  "sharedSlot pricingService s modelName =
     (let model = to_lower modelName
      in case (listedPrice pricingService model, getFallbackPricing s model) of
           (None, Some i) \<Rightarrow> if policyValue model (deref s i) = deref s i then Some i else None
         | _ \<Rightarrow> None)"

lemma svcGetModelPricing_base:
  assumes "svcGetModelPricing pricingService model s = (r, s')" and "store_ok s"
  shows "grows s s'" and "map_option (deref s') r = basePrice pricingService s model"
    and "r = Some i \<Longrightarrow> i < length (bp_cells s')"
    and "(r = Some i \<and> i < length (bp_cells s)) \<longleftrightarrow> sharedSlot pricingService s model = Some i"
proof -
  let ?m = "to_lower model"
  have "grows s s' \<and> map_option (deref s') r = basePrice pricingService s model \<and>
      (\<forall>i. (r = Some i \<longrightarrow> i < length (bp_cells s')) \<and>
           ((r = Some i \<and> i < length (bp_cells s)) \<longleftrightarrow> sharedSlot pricingService s model = Some i))"
  proof (cases "listedPrice pricingService ?m")
    case (Some l)
    obtain p s1 where a: "alloc (liteLLMPricing l) s = (p, s1)" by (cases "alloc (liteLLMPricing l) s") auto
    obtain q s2 where b: "applyModelSpecificPricingPolicy ?m p s1 = (q, s2)"
      by (cases "applyModelSpecificPricingPolicy ?m p s1") auto
    note A = grows_alloc [OF a] and B = policy_step [OF b]
    have "\<not> q < length (bp_cells s)" using A B(5) grows_length [of s s1] by fastforce
    then show ?thesis
      using assms(1) Some a b A B(1-3) grows_trans [of s s1 s2]
      by (auto simp: svcGetModelPricing_def basePrice_def sharedSlot_def Let_def)
  next
    case None
    show ?thesis
    proof (cases "getFallbackPricing s ?m")
      case (Some p)
      obtain q s2 where b: "applyModelSpecificPricingPolicy ?m p s = (q, s2)"
        by (cases "applyModelSpecificPricingPolicy ?m p s") auto
      note B = policy_step [OF b fallback_pointer [OF assms(2) Some]]
      have r: "r = Some q" "s' = s2" using assms(1) None Some b by (simp_all add: svcGetModelPricing_def Let_def)
      have base: "basePrice pricingService s model = Some (deref s2 q)"
        using None Some B(3) by (simp add: basePrice_def Let_def)
      have "sharedSlot pricingService s model = (if q < length (bp_cells s) then Some q else None)"
        using None Some B(4) by (cases "q < length (bp_cells s)") (auto simp: sharedSlot_def Let_def dest: B(5))
      then show ?thesis using r base B(1,2) by auto
    qed (use assms(1) None in \<open>auto simp: svcGetModelPricing_def basePrice_def sharedSlot_def Let_def\<close>)
  qed
  then show "grows s s'" and "map_option (deref s') r = basePrice pricingService s model"
    and "r = Some i \<Longrightarrow> i < length (bp_cells s')"
    and "(r = Some i \<and> i < length (bp_cells s)) \<longleftrightarrow> sharedSlot pricingService s model = Some i"
    by auto
qed

lemma grows_store_ok: "store_ok s \<Longrightarrow> grows s s' \<Longrightarrow> store_ok s'"
  using grows_length [of s s'] by (force simp: store_ok_def grows_def list_all_iff)

lemma grows_fallback:
  assumes "store_ok s" and "grows s s'"
  shows "getFallbackPricing s' m = getFallbackPricing s m"
    and "map_option (deref s') (getFallbackPricing s' m) = map_option (deref s) (getFallbackPricing s m)"
proof -
  show eq: "getFallbackPricing s' m = getFallbackPricing s m"
    using assms(2) by (simp add: getFallbackPricing_def grows_def cong: option.case_cong)
  show "map_option (deref s') (getFallbackPricing s' m) = map_option (deref s) (getFallbackPricing s m)"
    unfolding eq using fallback_pointer [OF assms(1)] grows_deref [OF assms(2)]
    by (cases "getFallbackPricing s m") auto
qed

lemma grows_basePrice:
  "store_ok s \<Longrightarrow> grows s s' \<Longrightarrow> basePrice pricingService s' model = basePrice pricingService s model"
  using grows_fallback(2) [of s s' "to_lower model"]
  by (cases "listedPrice pricingService (to_lower model)") (simp_all add: basePrice_def Let_def)

text \<open>Without a channel the cost is a function of the values.\<close>

lemma calculateCostInternal_base:
  assumes "store_ok s" and "calculateCostInternal pricingService model t r tier None s = (c, s')"
  shows "c = map_option (\<lambda>p. computeTokenBreakdown p t r tier True) (basePrice pricingService s model)" and "grows s s'"
proof -
  obtain q s1 where q: "svcGetModelPricing pricingService model s = (q, s1)"
    by (cases "svcGetModelPricing pricingService model s") auto
  note B = svcGetModelPricing_base [OF q assms(1)]
  show "c = map_option (\<lambda>p. computeTokenBreakdown p t r tier True) (basePrice pricingService s model)"
    using assms(2) q by (cases q) (auto simp: calculateCostInternal_def simp flip: B(2))
  show "grows s s'" using assms(2) q B(1) by (cases q) (auto simp: calculateCostInternal_def)
qed

section \<open>The resolver on values\<close>

text \<open>What a channel's price list, where there is one, makes of a request.\<close>

definition channelMode :: "ChannelModelPricing option \<Rightarrow> gostr" where
  "channelMode chp = (case chp of None \<Rightarrow> BillingModeToken
     | Some ch \<Rightarrow> if cp_BillingMode ch = '''' then BillingModeToken else cp_BillingMode ch)"

definition byRequest :: "ChannelModelPricing option \<Rightarrow> bool" where
  "byRequest chp = (channelMode chp = BillingModePerRequest \<or> channelMode chp = BillingModeImage)"

definition channelIntervals :: "ChannelModelPricing option \<Rightarrow> PricingInterval list" where
  "channelIntervals chp = (case chp of None \<Rightarrow> [] | Some ch \<Rightarrow> filterValidIntervals (cp_Intervals ch))"

definition flatOverride :: "ChannelModelPricing option \<Rightarrow> ChannelModelPricing option" where
  "flatOverride chp = (if channelMode chp = BillingModeToken \<and> channelIntervals chp = [] then chp else None)"

definition tokenBase :: "ModelPricing option \<Rightarrow> ChannelModelPricing option \<Rightarrow> ModelPricing option" where
  "tokenBase base chp =
     (case flatOverride chp of
        None \<Rightarrow> base
      | Some ch \<Rightarrow> Some (overridePrices ch (case base of None \<Rightarrow> zero_mp | Some p \<Rightarrow> p)))"

definition tokenPrice :: "ModelPricing option \<Rightarrow> ChannelModelPricing option \<Rightarrow> int \<Rightarrow> ModelPricing option" where
  "tokenPrice base chp totalContext =
     (case (if channelMode chp = BillingModeToken then FindMatchingInterval (channelIntervals chp) totalContext else None) of
        Some iv \<Rightarrow> Some (intervalToModelPricing iv (case base of None \<Rightarrow> False | Some p \<Rightarrow> mp_SupportsCacheBreakdown p))
      | None \<Rightarrow> tokenBase base chp)"

definition requestPrice :: "ChannelModelPricing option \<Rightarrow> gostr \<Rightarrow> int \<Rightarrow> rat" where
  "requestPrice chp label totalContext =
     (let tiers = channelIntervals chp;
          byLabel = (case find (\<lambda>t. iv_TierLabel t = label \<and> iv_PerRequestPrice t \<noteq> None) tiers of
             Some t \<Rightarrow> if label = '''' then 0 else or_zero (iv_PerRequestPrice t) | None \<Rightarrow> 0);
          byContext = (case FindMatchingInterval tiers totalContext of Some t \<Rightarrow> or_zero (iv_PerRequestPrice t) | None \<Rightarrow> 0)
      in if byLabel \<noteq> 0 then byLabel else if byContext \<noteq> 0 then byContext
         else case chp of None \<Rightarrow> 0 | Some ch \<Rightarrow> or_zero (cp_PerRequestPrice ch))"

definition channelCost :: "ModelPricing option \<Rightarrow> ChannelModelPricing option \<Rightarrow> CostInput \<Rightarrow> CostBreakdown option" where
  "channelCost base chp inp =
     (let totalContext = ut_Input (ci_Tokens inp) + ut_CacheRead (ci_Tokens inp);
          rate = effectiveRate (ci_RateMultiplier inp)
      in map_option (\<lambda>c. c\<lparr>co_BillingMode := channelMode chp\<rparr>)
           (if byRequest chp
            then let total = requestPrice chp (ci_SizeTier inp) totalContext * of_int (max 1 (ci_RequestCount inp))
                 in Some (zero_cost\<lparr>co_TotalCost := total, co_ActualCost := total * rate\<rparr>)
            else map_option (\<lambda>p. computeTokenBreakdown (policyValue (ci_Model inp) p) (ci_Tokens inp) rate (ci_ServiceTier inp)
                                   (channelMode chp \<noteq> BillingModeToken \<or> channelIntervals chp = []))
                   (tokenPrice base chp totalContext)))"

text \<open>The prices in the fallback table, and what an override makes of them.\<close>

definition fallbackPrices :: "billing_prices \<Rightarrow> gostr \<Rightarrow> ModelPricing option" where
  "fallbackPrices s key = map_option (deref s) (map_of (bp_fallback s) key)"

definition pricesAfter :: "billing_prices \<Rightarrow> nat option \<Rightarrow> ChannelModelPricing option \<Rightarrow> gostr \<Rightarrow> ModelPricing option" where
  "pricesAfter s slot override =
     (case (slot, override) of
        (Some i, Some ch) \<Rightarrow>
          (\<lambda>key. if map_of (bp_fallback s) key = Some i then Some (overridePrices ch (deref s i)) else fallbackPrices s key)
      | _ \<Rightarrow> fallbackPrices s)"

lemma grows_fallbackPrices:
  assumes "store_ok s" and "grows s s'"
  shows "fallbackPrices s' = fallbackPrices s"
proof
  fix key
  have "i < length (bp_cells s)" if "map_of (bp_fallback s) key = Some i" for i
    using assms(1) map_of_SomeD [OF that] by (auto simp: store_ok_def list_all_iff)
  then show "fallbackPrices s' key = fallbackPrices s key"
    using assms(2) grows_deref [OF assms(2)]
    by (cases "map_of (bp_fallback s) key") (auto simp: fallbackPrices_def grows_def)
qed

lemma assign_simps [simp]:
  "length (bp_cells (assign i p s)) = length (bp_cells s)" "bp_fallback (assign i p s) = bp_fallback s"
  "i < length (bp_cells s) \<Longrightarrow> deref (assign i p s) j = (if j = i then p else deref s j)"
  by (auto simp: assign_def deref_def nth_list_update)

lemma assign_store_ok: "store_ok (assign i p s) = store_ok s"
  by (simp add: store_ok_def)

lemma assign_fallbackPrices:
  assumes "store_ok s" and "grows s s'" and "i < length (bp_cells s')"
  shows "fallbackPrices (assign i p s') =
    (if i < length (bp_cells s) then (\<lambda>key. if map_of (bp_fallback s) key = Some i then Some p else fallbackPrices s key)
     else fallbackPrices s)"
proof -
  have bound: "map_of (bp_fallback s) key = Some j \<Longrightarrow> j < length (bp_cells s)" for key j
    using assms(1) by (auto simp: store_ok_def list_all_iff dest!: map_of_SomeD)
  have same: "fallbackPrices s' key = fallbackPrices s key" for key
    using grows_fallbackPrices [OF assms(1,2)] by simp
  have table: "bp_fallback s' = bp_fallback s" using assms(2) by (simp add: grows_def)
  have "fallbackPrices (assign i p s') key = (if map_of (bp_fallback s) key = Some i then Some p else fallbackPrices s key)" for key
    using same [of key] assms(3) by (cases "map_of (bp_fallback s) key") (auto simp: fallbackPrices_def table)
  then show ?thesis using bound by (auto simp: fun_eq_iff)
qed

text \<open>The channel's prices that the resolver finds.\<close>

definition channelPriceFor :: "cost_env \<Rightarrow> int64 option \<Rightarrow> gostr \<Rightarrow> pricing_world \<Rightarrow> ChannelModelPricing option" where
  "channelPriceFor E groupID model w =
     (case groupID of None \<Rightarrow> None | Some g \<Rightarrow> fst (GetChannelModelPricing (xe_channels E) g model (pw_channels w)))"

text \<open>A step that leaves all but one cell, given by a pointer, as it is.\<close>

definition resolves_to ::
    "ModelPricing option \<Rightarrow> ChannelModelPricing option \<Rightarrow> billing_prices \<Rightarrow> nat option \<Rightarrow> ResolvedPricing \<Rightarrow> billing_prices \<Rightarrow> bool" where
  "resolves_to base chp s slot r s' =
     (rp_Mode r = channelMode chp \<and>
      rp_Intervals r = (if channelMode chp = BillingModeToken then channelIntervals chp else []) \<and>
      rp_RequestTiers r = (if byRequest chp then channelIntervals chp else []) \<and>
      rp_DefaultPerRequestPrice r = (if byRequest chp then case chp of None \<Rightarrow> 0 | Some ch \<Rightarrow> or_zero (cp_PerRequestPrice ch) else 0) \<and>
      (rp_Source r = PricingSourceChannel \<longleftrightarrow> chp \<noteq> None) \<and>
      rp_SupportsCacheBreakdown r = (case base of None \<Rightarrow> False | Some p \<Rightarrow> mp_SupportsCacheBreakdown p) \<and>
      map_option (deref s') (rp_BasePricing r) = tokenBase base chp \<and>
      (case rp_BasePricing r of None \<Rightarrow> True | Some i \<Rightarrow> i < length (bp_cells s')) \<and>
      store_ok s' \<and> bp_fallback s' = bp_fallback s \<and> fallbackPrices s' = pricesAfter s slot (flatOverride chp))"

lemma mode_constants [simp]:
  "BillingModeToken \<noteq> ''''" "BillingModePerRequest \<noteq> BillingModeToken" "BillingModeImage \<noteq> BillingModeToken"
  "BillingModeToken \<noteq> BillingModePerRequest" "BillingModeToken \<noteq> BillingModeImage"
  "PricingSourceLiteLLM \<noteq> PricingSourceChannel" "PricingSourceFallback \<noteq> PricingSourceChannel"
  by (simp_all add: BillingModeToken_def BillingModePerRequest_def BillingModeImage_def PricingSourceLiteLLM_def
      PricingSourceChannel_def PricingSourceFallback_def)

definition resolvedBase :: "nat option \<Rightarrow> gostr \<Rightarrow> billing_prices \<Rightarrow> ResolvedPricing" where
  "resolvedBase p source s =
     \<lparr>rp_Mode = BillingModeToken, rp_BasePricing = p, rp_Intervals = [], rp_RequestTiers = [],
      rp_DefaultPerRequestPrice = 0, rp_Source = source,
      rp_SupportsCacheBreakdown = (case p of None \<Rightarrow> False | Some i \<Rightarrow> mp_SupportsCacheBreakdown (deref s i))\<rparr>"

lemma supports_base:
  "map_option f p = base \<Longrightarrow> (case p of None \<Rightarrow> False | Some i \<Rightarrow> mp_SupportsCacheBreakdown (f i)) =
     (case base of None \<Rightarrow> False | Some q \<Rightarrow> mp_SupportsCacheBreakdown q)"
  by (cases p) auto

lemma channelOverride_resolves:
  assumes "store_ok s" and "grows s s1" and base: "map_option (deref s1) p = base"
    and bound: "\<And>i. p = Some i \<Longrightarrow> i < length (bp_cells s1)"
    and slot: "\<And>i. (p = Some i \<and> i < length (bp_cells s)) \<longleftrightarrow> slot = Some i"
    and over: "channelOverride ch (resolvedBase p source s1) s1 = (r, s2)"
  shows "resolves_to base (Some ch) s slot r s2"
proof -
  have s1: "store_ok s1" "bp_fallback s1 = bp_fallback s" "fallbackPrices s1 = fallbackPrices s"
    using grows_store_ok [OF assms(1,2)] grows_fallbackPrices [OF assms(1,2)] assms(2) by (simp_all add: grows_def)
  have pointer: "case p of None \<Rightarrow> True | Some i \<Rightarrow> i < length (bp_cells s1)" using bound by (cases p) auto
  note supports = supports_base [OF base]
  consider (flat) "channelMode (Some ch) = BillingModeToken" "filterValidIntervals (cp_Intervals ch) = []"
    | (other) "flatOverride (Some ch) = None"
    by (cases "channelMode (Some ch) = BillingModeToken \<and> filterValidIntervals (cp_Intervals ch) = []")
      (auto simp: flatOverride_def channelIntervals_def)
  then show ?thesis
  proof cases
    case flat
    have token: "(if cp_BillingMode ch = '''' then BillingModeToken else cp_BillingMode ch) = BillingModeToken"
      using flat(1) by (simp add: channelMode_def)
    obtain q s3 where q: "(case p of Some p \<Rightarrow> (p, s1) | None \<Rightarrow> alloc zero_mp s1) = (q, s3)"
      by (cases "case p of Some p \<Rightarrow> (p, s1) | None \<Rightarrow> alloc zero_mp s1") auto
    have s3: "grows s1 s3" "q < length (bp_cells s3)" "deref s3 q = (case base of None \<Rightarrow> zero_mp | Some x \<Rightarrow> x)"
      using q base bound grows_alloc [of zero_mp s1 q s3] by (cases p; auto)+
    have old: "q < length (bp_cells s) \<longleftrightarrow> slot = Some q"
    proof (cases p)
      case None
      then have "\<not> q < length (bp_cells s1)" using q grows_alloc [of zero_mp s1 q s3] by auto
      then show ?thesis using slot [of q] None grows_length [OF assms(2)] by auto
    next
      case (Some i)
      then show ?thesis using slot [of q] q by auto
    qed
    have gs: "grows s s3" using assms(2) s3(1) by (rule grows_trans)
    have r: "r = (resolvedBase p source s1)\<lparr>rp_Source := PricingSourceChannel, rp_Mode := BillingModeToken, rp_BasePricing := Some q\<rparr>"
      and s2: "s2 = assign q (overridePrices ch (deref s3 q)) s3"
      using over token flat(2) q by (auto simp: channelOverride_def applyTokenOverrides_def Let_def resolvedBase_def)
    have "fallbackPrices s2 = pricesAfter s slot (Some ch)"
    proof (cases "q < length (bp_cells s)")
      case True
      then show ?thesis
        using old grows_deref [OF gs True] by (simp add: s2 assign_fallbackPrices [OF assms(1) gs s3(2)] pricesAfter_def)
    next
      case False
      have "slot = None"
      proof (rule ccontr)
        assume "slot \<noteq> None"
        then obtain i where "p = Some i" "i < length (bp_cells s)" using slot by auto
        then show False using q False by simp
      qed
      then show ?thesis using False by (simp add: s2 assign_fallbackPrices [OF assms(1) gs s3(2)] pricesAfter_def)
    qed
    moreover have "store_ok s2" "bp_fallback s2 = bp_fallback s"
      using grows_store_ok [OF assms(1) gs] gs by (simp_all add: s2 assign_store_ok grows_def)
    moreover have "deref s2 q = overridePrices ch (case base of None \<Rightarrow> zero_mp | Some x \<Rightarrow> x)" "q < length (bp_cells s2)"
      using s3 by (simp_all add: s2)
    ultimately show ?thesis
      using flat supports
      by (simp add: resolves_to_def r resolvedBase_def channelIntervals_def byRequest_def flatOverride_def tokenBase_def)
  next
    case other
    have s2: "s2 = s1" and rb: "rp_BasePricing r = p"
      using over other
      by (auto simp: channelOverride_def applyTokenOverrides_def applyRequestTierOverrides_def Let_def flatOverride_def
          channelIntervals_def channelMode_def resolvedBase_def split: if_splits option.splits)
    have "pricesAfter s slot None = fallbackPrices s" by (simp add: pricesAfter_def split: option.splits)
    moreover have "rp_Mode r = channelMode (Some ch) \<and>
       rp_Intervals r = (if channelMode (Some ch) = BillingModeToken then channelIntervals (Some ch) else []) \<and>
       rp_RequestTiers r = (if byRequest (Some ch) then channelIntervals (Some ch) else []) \<and>
       rp_DefaultPerRequestPrice r = (if byRequest (Some ch) then or_zero (cp_PerRequestPrice ch) else 0) \<and>
       rp_Source r = PricingSourceChannel \<and>
       rp_SupportsCacheBreakdown r = (case base of None \<Rightarrow> False | Some q \<Rightarrow> mp_SupportsCacheBreakdown q)"
      using over other supports
      by (cases "cp_PerRequestPrice ch"; auto simp: channelOverride_def applyTokenOverrides_def applyRequestTierOverrides_def
          Let_def flatOverride_def channelIntervals_def channelMode_def resolvedBase_def byRequest_def or_zero_def
          split: if_splits)
    ultimately show ?thesis
      using other s1 base pointer by (simp add: resolves_to_def s2 rb tokenBase_def)
  qed
qed

lemma Resolve_resolves:
  assumes "store_ok (pw_prices w)" and "Resolve E groupID model w = (r, w')"
  shows "resolves_to (basePrice (xe_pricingService E) (pw_prices w) model) (channelPriceFor E groupID model w) (pw_prices w)
     (sharedSlot (xe_pricingService E) (pw_prices w) model) r (pw_prices w')"
proof -
  let ?s = "pw_prices w" and ?L = "xe_pricingService E"
  let ?base = "basePrice ?L ?s model"
  obtain p s1 where q: "svcGetModelPricing ?L model ?s = (p, s1)" by (cases "svcGetModelPricing ?L model ?s") auto
  note B = svcGetModelPricing_base [OF q assms(1)]
  obtain source where src: "resolveBasePricing ?L model ?s = ((p, source), s1)" "source \<noteq> PricingSourceChannel"
    using q by (cases p) (auto simp: resolveBasePricing_def)
  have unfold: "Resolve E groupID model w =
     (case groupID of None \<Rightarrow> (resolvedBase p source s1, w\<lparr>pw_prices := s1\<rparr>)
      | Some g \<Rightarrow> applyChannelOverrides E g model (resolvedBase p source s1) (w\<lparr>pw_prices := s1\<rparr>))"
    using src by (simp add: Resolve_def resolvedBase_def Let_def cong: option.case_cong)
  have plain: "resolves_to ?base None ?s (sharedSlot ?L ?s model) (resolvedBase p source s1) s1"
    using B grows_store_ok [OF assms(1) B(1)] grows_fallbackPrices [OF assms(1) B(1)] src(2) supports_base [OF B(2)]
    by (auto simp: resolves_to_def resolvedBase_def channelMode_def channelIntervals_def byRequest_def flatOverride_def
        tokenBase_def pricesAfter_def grows_def split: option.splits)
  show ?thesis
  proof (cases "channelPriceFor E groupID model w")
    case None
    then have "r = resolvedBase p source s1" "pw_prices w' = s1"
      using assms(2) unfold
      by (auto simp: channelPriceFor_def applyChannelOverrides_def split: option.splits prod.splits)
    then show ?thesis using plain None by simp
  next
    case (Some ch)
    then obtain s2 where "channelOverride ch (resolvedBase p source s1) s1 = (r, s2)" "pw_prices w' = s2"
      using assms(2) unfold
      by (auto simp: channelPriceFor_def applyChannelOverrides_def split: option.splits prod.splits)
    then show ?thesis
      using channelOverride_resolves [OF assms(1) B(1,2) B(3,4)] Some by simp
  qed
qed

section \<open>The code computes the calculation on values\<close>

lemma requestTier_value:
  assumes "resolves_to base chp s slot r s'" and "byRequest chp"
  shows "co_TotalCost (calculatePerRequestCost r inp) =
      requestPrice chp (ci_SizeTier inp) (ut_Input (ci_Tokens inp) + ut_CacheRead (ci_Tokens inp)) *
      of_int (max 1 (ci_RequestCount inp))"
  using assms
  by (auto simp: resolves_to_def calculatePerRequestCost_def requestPrice_def GetRequestTierPrice_def
      GetRequestTierPriceByContext_def Let_def max_def split: option.splits)

lemma tokenPrice_value:
  assumes "resolves_to base chp s slot r s'" and "GetIntervalPricing r n s' = (p, s2)"
  shows "map_option (deref s2) p = tokenPrice base chp n" and "grows s' s2"
    and "\<And>i. p = Some i \<Longrightarrow> i < length (bp_cells s2)"
proof -
  have r: "rp_Intervals r = (if channelMode chp = BillingModeToken then channelIntervals chp else [])"
      "map_option (deref s') (rp_BasePricing r) = tokenBase base chp"
      "\<And>i. rp_BasePricing r = Some i \<Longrightarrow> i < length (bp_cells s')"
      "rp_SupportsCacheBreakdown r = (case base of None \<Rightarrow> False | Some p \<Rightarrow> mp_SupportsCacheBreakdown p)"
    using assms(1) by (auto simp: resolves_to_def)
  have "map_option (deref s2) p = tokenPrice base chp n \<and> grows s' s2 \<and> (\<forall>i. p = Some i \<longrightarrow> i < length (bp_cells s2))"
  proof (cases "if channelMode chp = BillingModeToken then FindMatchingInterval (channelIntervals chp) n else None")
    case None
    then have "FindMatchingInterval (rp_Intervals r) n = None" by (auto simp: r(1) FindMatchingInterval_def)
    then have "p = rp_BasePricing r" "s2 = s'" using assms(2) by (auto simp: GetIntervalPricing_def split: if_splits)
    then show ?thesis using None r(2,3) by (simp add: tokenPrice_def)
  next
    case (Some iv)
    then have m: "channelMode chp = BillingModeToken" "FindMatchingInterval (channelIntervals chp) n = Some iv"
      by (auto split: if_splits)
    then have "rp_Intervals r \<noteq> []" "FindMatchingInterval (rp_Intervals r) n = Some iv"
      by (auto simp: r(1) FindMatchingInterval_def)
    then obtain i where i: "alloc (intervalToModelPricing iv (rp_SupportsCacheBreakdown r)) s' = (i, s2)" "p = Some i"
      using assms(2) by (auto simp: GetIntervalPricing_def split: prod.splits)
    have "deref s2 i = intervalToModelPricing iv (case base of None \<Rightarrow> False | Some p \<Rightarrow> mp_SupportsCacheBreakdown p)"
      using grows_alloc [OF i(1)] r(4) by metis
    then show ?thesis using i(2) grows_alloc [OF i(1)] m by (simp add: tokenPrice_def)
  qed
  then show "map_option (deref s2) p = tokenPrice base chp n" and "grows s' s2"
    and "\<And>i. p = Some i \<Longrightarrow> i < length (bp_cells s2)"
    by auto
qed

lemma unifiedTokenCost_value:
  assumes "resolves_to base chp s slot r s'" and "unifiedTokenCost r inp s' = (c, s2)"
  shows "c = map_option (\<lambda>p. computeTokenBreakdown (policyValue (ci_Model inp) p) (ci_Tokens inp) (ci_RateMultiplier inp)
               (ci_ServiceTier inp) (channelMode chp \<noteq> BillingModeToken \<or> channelIntervals chp = []))
             (tokenPrice base chp (ut_Input (ci_Tokens inp) + ut_CacheRead (ci_Tokens inp)))"
    and "grows s' s2"
proof -
  let ?total = "ut_Input (ci_Tokens inp) + ut_CacheRead (ci_Tokens inp)"
  obtain p s1 where p: "GetIntervalPricing r ?total s' = (p, s1)" by (cases "GetIntervalPricing r ?total s'") auto
  note T = tokenPrice_value [OF assms(1) p]
  have iv: "(rp_Intervals r = []) \<longleftrightarrow> (channelMode chp \<noteq> BillingModeToken \<or> channelIntervals chp = [])"
    using assms(1) by (auto simp: resolves_to_def)
  have "c = map_option (\<lambda>p. computeTokenBreakdown (policyValue (ci_Model inp) p) (ci_Tokens inp) (ci_RateMultiplier inp)
               (ci_ServiceTier inp) (rp_Intervals r = [])) (tokenPrice base chp ?total) \<and> grows s' s2"
  proof (cases p)
    case None
    then show ?thesis using assms(2) p T(1,2) by (auto simp: unifiedTokenCost_def Let_def simp flip: T(1))
  next
    case (Some i)
    obtain q s3 where q: "applyModelSpecificPricingPolicy (ci_Model inp) i s1 = (q, s3)"
      by (cases "applyModelSpecificPricingPolicy (ci_Model inp) i s1") auto
    note P = policy_step [OF q T(3) [OF Some]]
    show ?thesis
      using assms(2) p Some q P(3) grows_trans [OF T(2) P(1)]
      by (auto simp: unifiedTokenCost_def Let_def simp flip: T(1))
  qed
  then show "c = map_option (\<lambda>p. computeTokenBreakdown (policyValue (ci_Model inp) p) (ci_Tokens inp) (ci_RateMultiplier inp)
               (ci_ServiceTier inp) (channelMode chp \<noteq> BillingModeToken \<or> channelIntervals chp = []))
             (tokenPrice base chp ?total)" and "grows s' s2"
    using iv by simp_all
qed

lemma effectiveRate_twice [simp]: "effectiveRate (effectiveRate r) = effectiveRate r"
  by (simp add: effectiveRate_def)

lemma breakdown_effective: "computeTokenBreakdown p t (effectiveRate r) tier l = computeTokenBreakdown p t r tier l"
  by (simp add: computeTokenBreakdown_def)

text \<open>The second half of the unified calculation, after the prices are resolved.\<close>

lemma unified_resolved:
  assumes "resolves_to base chp s slot r (pw_prices w1)"
    and "ci_HasResolver input"
    and "(case ci_Resolved input of Some r \<Rightarrow> (r, w) | None \<Rightarrow> Resolve E (ci_GroupID input) (ci_Model input) w) = (r, w1)"
    and "CalculateCostUnified E input w = (c, w')"
  shows "c = channelCost base chp input" and "grows (pw_prices w1) (pw_prices w')" and "pw_channels w' = pw_channels w1"
proof -
  define inp where "inp = (if ci_RateMultiplier input \<le> 0 then input\<lparr>ci_RateMultiplier := 1\<rparr> else input)"
  have inp: "ci_RateMultiplier inp = effectiveRate (ci_RateMultiplier input)" "ci_Model inp = ci_Model input"
      "ci_Tokens inp = ci_Tokens input" "ci_ServiceTier inp = ci_ServiceTier input" "ci_SizeTier inp = ci_SizeTier input"
      "ci_RequestCount inp = ci_RequestCount input"
    by (simp_all add: inp_def effectiveRate_def)
  obtain b s2 where u: "unifiedTokenCost r inp (pw_prices w1) = (b, s2)" by (cases "unifiedTokenCost r inp (pw_prices w1)") auto
  note T = unifiedTokenCost_value [OF assms(1) u, unfolded inp]
  have mode: "rp_Mode r = channelMode chp" "channelMode chp \<noteq> ''''"
    using assms(1) by (auto simp: resolves_to_def channelMode_def split: option.splits)
  show "c = channelCost base chp input"
  proof (cases "byRequest chp")
    case True
    define p where "p = calculatePerRequestCost r inp"
    have p: "p = zero_cost\<lparr>co_TotalCost := co_TotalCost p, co_ActualCost := co_TotalCost p * ci_RateMultiplier inp\<rparr>"
      by (simp add: p_def calculatePerRequestCost_def Let_def)
    have "c = Some (p\<lparr>co_BillingMode := channelMode chp\<rparr>)"
      using assms(2-4) mode True
      by (auto simp: CalculateCostUnified_def Let_def byRequest_def p_def simp flip: inp_def split: prod.splits)
    then show ?thesis
      using True requestTier_value [OF assms(1) True, of inp, folded p_def]
      by (subst (asm) p) (simp add: channelCost_def Let_def inp)
  next
    case False
    have "c = map_option (\<lambda>c. c\<lparr>co_BillingMode := channelMode chp\<rparr>) b"
      using assms(2-4) mode False u
      by (auto simp: CalculateCostUnified_def Let_def byRequest_def simp flip: inp_def split: prod.splits)
    then show ?thesis using False T(1) by (simp add: channelCost_def Let_def)
  qed
  show "grows (pw_prices w1) (pw_prices w')" and "pw_channels w' = pw_channels w1"
    using assms(2-4) mode u T(2)
    by (auto simp: CalculateCostUnified_def Let_def simp flip: inp_def split: prod.splits if_splits)
qed


text \<open>Group 7 belongs to a channel that prices the GPT-5 models at a dollar for each input token.\<close>

definition demo_cost_env :: cost_env where
  "demo_cost_env = \<lparr>xe_pricingService = None, xe_channels = demo_env\<rparr>"

definition demo_input :: "int64 \<Rightarrow> CostInput" where
  "demo_input g = \<lparr>ci_Model = ''gpt-5-mini'', ci_GroupID = Some g, ci_Tokens = zero_tokens\<lparr>ut_Input := 1\<rparr>, ci_RequestCount = 1,
     ci_SizeTier = '''', ci_RateMultiplier = 1, ci_ServiceTier = '''', ci_HasResolver = True, ci_Resolved = None\<rparr>"

definition demo_pricing_world :: pricing_world where
  "demo_pricing_world = \<lparr>pw_channels = demo_world, pw_prices = initFallbackPricing\<rparr>"

definition demo_after :: pricing_world where
  "demo_after = snd (CalculateCostUnified demo_cost_env (demo_input 7) demo_pricing_world)"

lemma store_ok_init: "store_ok initFallbackPricing"
  by code_simp


text \<open>
  The channel's price then is everybody's: group 8, which belongs to no channel, pays 1.25 dollars for
  a million tokens before the request of group 7 and a dollar for each token after it.
\<close>

lemma channel_price_leaks:
  "map_option co_TotalCost (fst (CalculateCostUnified demo_cost_env (demo_input 8) demo_pricing_world)) = Some (5 / 4 / 10^6)"
  "map_option co_TotalCost (fst (CalculateCostUnified demo_cost_env (demo_input 8) demo_after)) = Some 1"
  by code_simp+

text \<open>
  An interval replaces the model's prices as a whole: a price that it does not set is zero, although
  the comment on \<open>Intervals\<close> says that intervals replace the corresponding fields only.
\<close>

lemma interval_price_unset:
  assumes "iv_OutputPrice iv = None"
  shows "mp_Output (intervalToModelPricing iv b) = 0"
  using assms by (simp add: intervalToModelPricing_def zero_mp_def Let_def split: option.splits)

text \<open>A tier that is priced at zero does not make a request free: the default price is charged.\<close>

lemma free_tier_charged:
  assumes "byRequest (Some ch)" and "filterValidIntervals (cp_Intervals ch) = [t]" and "iv_TierLabel t = label"
    and "iv_PerRequestPrice t = Some 0" and "cp_PerRequestPrice ch = Some x"
  shows "requestPrice (Some ch) label n = x"
  using assms by (auto simp: requestPrice_def channelIntervals_def Let_def FindMatchingInterval_def or_zero_def)

text \<open>A rate of zero, which the administration allows for a group, is charged as one.\<close>

lemma zero_rate_charged: "computeTokenBreakdown p t 0 tier l = computeTokenBreakdown p t 1 tier l"
  by (simp add: computeTokenBreakdown_def effectiveRate_def)

section \<open>Long contexts\<close>

text \<open>The price of the input beyond the threshold, where cache reads come first.\<close>

definition beyondThreshold :: "int \<Rightarrow> UsageTokens \<Rightarrow> ModelPricing \<Rightarrow> rat" where
  "beyondThreshold threshold t p =
     of_int (max 0 (ut_CacheRead t - threshold)) * mp_CacheRead p +
     of_int (min (ut_Input t) (ut_CacheRead t + ut_Input t - threshold)) * mp_Input p"

definition no_session_surcharge :: "ModelPricing \<Rightarrow> bool" where
  "no_session_surcharge p = (mp_LongContextThreshold p \<le> 0)"

lemma no_surcharge: "no_session_surcharge p \<Longrightarrow> \<not> shouldApplySessionLongContextPricing t p"
  by (simp add: no_session_surcharge_def shouldApplySessionLongContextPricing_def)

lemma split_beyond:
  assumes "no_session_surcharge p" and "0 < threshold" and "ut_CacheRead t + ut_Input t > threshold" and "0 \<le> ut_Input t"
    and "splitAtThreshold threshold t = (inside, outside)"
  shows "co_TotalCost (computeTokenBreakdown p outside r '''' True) = beyondThreshold threshold t p"
    and "co_TotalCost (computeTokenBreakdown p inside r '''' True) + beyondThreshold threshold t p =
         co_TotalCost (computeTokenBreakdown p t r' '''' True)"
proof -
  obtain i c where o: "outside = input_part i c"
      "inside = t\<lparr>ut_Input := ut_Input t - i, ut_CacheRead := ut_CacheRead t - c\<rparr>"
      "of_int i * mp_Input p + of_int c * mp_CacheRead p = beyondThreshold threshold t p"
    using assms(3-5)
    by (cases "ut_CacheRead t \<ge> threshold")
      (auto simp: splitAtThreshold_def input_part_def beyondThreshold_def max_def min_def)
  note none = no_surcharge [OF assms(1)]
  show "co_TotalCost (computeTokenBreakdown p outside r '''' True) = beyondThreshold threshold t p"
    using input_part_cost [OF none, of i c r] o(3) by (simp add: o(1) zero_cost_def)
  show "co_TotalCost (computeTokenBreakdown p inside r '''' True) + beyondThreshold threshold t p =
      co_TotalCost (computeTokenBreakdown p t r' '''' True)"
    using breakdown_split [OF none none, of t c i r r'] o(3) by (simp add: o(2))
qed

lemma long_context_costs:
  assumes "store_ok s" and "basePrice pricingService s model = Some p" and "no_session_surcharge p"
    and "0 < threshold" "1 < extra" "0 \<le> ut_Input t" "ut_CacheRead t + ut_Input t > threshold"
    and "CalculateCost pricingService model t rate s = (Some plain, s1)"
    and "CalculateCostWithLongContext pricingService model t rate threshold extra s = (Some long, s2)"
  shows "co_TotalCost long = co_TotalCost plain \<and>
         co_ActualCost long = co_ActualCost plain + (effectiveRate (rate * extra) - effectiveRate rate) * beyondThreshold threshold t p"
proof -
  obtain inside outside where cut: "splitAtThreshold threshold t = (inside, outside)"
    by (cases "splitAtThreshold threshold t") auto
  note S = split_beyond [OF assms(3,4,7,6) cut]
  obtain ci sa where a: "CalculateCost pricingService model inside rate s = (ci, sa)"
    by (cases "CalculateCost pricingService model inside rate s") auto
  obtain co sb where b: "CalculateCost pricingService model outside (rate * extra) sa = (co, sb)"
    by (cases "CalculateCost pricingService model outside (rate * extra) sa") auto
  note A = calculateCostInternal_base [OF assms(1) a [unfolded CalculateCost_def]]
  note B = calculateCostInternal_base [OF grows_store_ok [OF assms(1) A(2)] b [unfolded CalculateCost_def]]
  note C = calculateCostInternal_base [OF assms(1) assms(8) [unfolded CalculateCost_def]]
  have ci: "ci = Some (computeTokenBreakdown p inside rate '''' True)"
    and co: "co = Some (computeTokenBreakdown p outside (rate * extra) '''' True)"
    and plain: "plain = computeTokenBreakdown p t rate '''' True"
    using A(1) B(1) C(1) assms(2) grows_basePrice [OF assms(1) A(2)] by simp_all
  have "co_TotalCost long = co_TotalCost (computeTokenBreakdown p inside rate '''' True) + beyondThreshold threshold t p"
    and "co_ActualCost long = co_TotalCost (computeTokenBreakdown p inside rate '''' True) * effectiveRate rate +
           beyondThreshold threshold t p * effectiveRate (rate * extra)"
    using assms(4,5,7,9) cut a b S(1)
    by (auto simp: CalculateCostWithLongContext_def ci co breakdown_actual)
  moreover have "co_TotalCost plain = co_TotalCost (computeTokenBreakdown p inside rate '''' True) + beyondThreshold threshold t p"
    using S(2) [of rate rate] by (simp add: plain)
  moreover have "co_ActualCost plain = co_TotalCost plain * effectiveRate rate" by (simp add: plain breakdown_actual)
  ultimately show ?thesis by (simp add: algebra_simps)
qed

definition demo_tokens :: UsageTokens where
  "demo_tokens = zero_tokens\<lparr>ut_Input := 100000, ut_CacheRead := 150000, ut_Output := 1000\<rparr>"

lemma cost_defined:
  assumes "store_ok s" and "basePrice pricingService s model = Some p"
  shows "\<exists>c s'. CalculateCost pricingService model t rate s = (Some c, s') \<and> store_ok s' \<and> basePrice pricingService s' model = Some p"
proof -
  obtain c s' where c: "CalculateCost pricingService model t rate s = (c, s')"
    by (cases "CalculateCost pricingService model t rate s") auto
  note A = calculateCostInternal_base [OF assms(1) c [unfolded CalculateCost_def]]
  show ?thesis
    using c A(1) assms(2) grows_store_ok [OF assms(1) A(2)] grows_basePrice [OF assms(1) A(2)] by simp
qed

lemma long_context_defined:
  assumes "store_ok s" and "basePrice pricingService s model = Some p"
  shows "\<exists>c s'. CalculateCostWithLongContext pricingService model t rate threshold extra s = (Some c, s')"
proof -
  obtain inside outside where cut: "splitAtThreshold threshold t = (inside, outside)"
    by (cases "splitAtThreshold threshold t") auto
  obtain c s1 where 1: "CalculateCost pricingService model inside rate s = (Some c, s1)" "store_ok s1"
      "basePrice pricingService s1 model = Some p"
    using cost_defined [OF assms] by blast
  obtain d s2 where 2: "CalculateCost pricingService model outside (rate * extra) s1 = (Some d, s2)"
    using cost_defined [OF 1(2,3)] by blast
  obtain e s3 where 3: "CalculateCost pricingService model t rate s = (Some e, s3)"
    using cost_defined [OF assms] by blast
  show ?thesis using cut 1 2 3 by (simp add: CalculateCostWithLongContext_def)
qed

text \<open>
  C30. Splitting a long context.  The model has a price without a session surcharge of its own, the
  threshold is positive, the extra multiplier above 1, and the input with the cache reads exceeds
  the threshold.  Then both calculations succeed, the total is the same as without the split, and
  what is paid grows by the price of the input beyond the threshold, cache reads first, times the
  difference of the two effective rates (an effective rate is the rate if it is positive and 1
  otherwise): splitting the tokens in two requests loses and duplicates nothing.  For a price with
  its own surcharge on long sessions the split may change the total (\<open>own_surcharge_split\<close>).
\<close>

theorem long_context_split_exact:
  assumes "store_ok s" and "basePrice pricingService s model = Some p" and "no_session_surcharge p"
    and "0 < threshold" "1 < extra" "0 \<le> ut_Input t" "ut_CacheRead t + ut_Input t > threshold"
  shows "\<exists>plain long. fst (CalculateCost pricingService model t rate s) = Some plain \<and>
    fst (CalculateCostWithLongContext pricingService model t rate threshold extra s) = Some long \<and>
    co_TotalCost long = co_TotalCost plain \<and>
    co_ActualCost long = co_ActualCost plain + (effectiveRate (rate * extra) - effectiveRate rate) * beyondThreshold threshold t p"
proof -
  obtain plain s1 where plain: "CalculateCost pricingService model t rate s = (Some plain, s1)"
    using cost_defined [OF assms(1,2)] by blast
  obtain long s2 where "CalculateCostWithLongContext pricingService model t rate threshold extra s = (Some long, s2)"
    using long_context_defined [OF assms(1,2)] by blast
  with plain long_context_costs [OF assms plain this] show ?thesis by simp
qed

theorem long_context_split_exact_witness:
  "\<exists>plain long. fst (CalculateCost None ''gemini-3.1-pro'' demo_tokens 1 initFallbackPricing) = Some plain \<and>
     fst (CalculateCostWithLongContext None ''gemini-3.1-pro'' demo_tokens 1 200000 2 initFallbackPricing) = Some long \<and>
     co_ActualCost long = co_ActualCost plain + 1 / 10"
proof -
  define p where "p = claude_price 2 12 2 (1 / 5)"
  have base: "basePrice None initFallbackPricing ''gemini-3.1-pro'' = Some p"
    unfolding p_def by code_simp
  have noext: "no_session_surcharge p" by (simp add: p_def no_session_surcharge_def claude_price_def zero_mp_def)
  have t: "0 \<le> ut_Input demo_tokens" "ut_CacheRead demo_tokens + ut_Input demo_tokens > 200000"
      "(effectiveRate (1 * 2) - effectiveRate 1) * beyondThreshold 200000 demo_tokens p = 1 / 10"
    by (simp_all add: demo_tokens_def beyondThreshold_def p_def claude_price_def zero_mp_def effectiveRate_def)
  have "(0::int) < 200000" "(1::rat) < 2" by simp_all
  from long_context_split_exact [OF store_ok_init base noext this t(1,2), of 1] show ?thesis
    unfolding t(3) by blast
qed

text \<open>A session surcharge of the price applies to the whole request, and to neither part of the split.\<close>

lemma own_surcharge_split:
  "map_option co_TotalCost (fst (CalculateCostWithLongContext None ''gpt-5.4'' (zero_tokens\<lparr>ut_Input := 300000\<rparr>) 1 200000 2
     initFallbackPricing)) \<noteq>
   map_option co_TotalCost (fst (CalculateCost None ''gpt-5.4'' (zero_tokens\<lparr>ut_Input := 300000\<rparr>) 1 initFallbackPricing))"
  by code_simp

end
