(* ===== verification/Pricing_Bounds.thy ===== *)
theory Pricing_Bounds
  imports Pricing_Resolver
begin

text \<open>
  No price and no cost is ever negative: what the validation of channels, the index of the channel
  service, the price list and the fallback table keep of it, and what the cost functions make of it.
\<close>

section \<open>Channels\<close>

definition price_field_ok :: "rat option \<Rightarrow> bool" where
  "price_field_ok x = (case x of None \<Rightarrow> True | Some v \<Rightarrow> 0 \<le> v)"

definition interval_prices_ok :: "PricingInterval \<Rightarrow> bool" where
  "interval_prices_ok iv = list_all (\<lambda>e. price_field_ok (snd e)) (interval_prices iv)"

definition channel_pricing_ok :: "ChannelModelPricing \<Rightarrow> bool" where
  "channel_pricing_ok p =
     (price_field_ok (cp_InputPrice p) \<and> price_field_ok (cp_OutputPrice p) \<and> price_field_ok (cp_CacheWritePrice p) \<and>
      price_field_ok (cp_CacheReadPrice p) \<and> price_field_ok (cp_ImageOutputPrice p) \<and> price_field_ok (cp_PerRequestPrice p) \<and>
      list_all interval_prices_ok (cp_Intervals p))"

lemma negative_price_iff: "negative_price e \<longleftrightarrow> \<not> price_field_ok (snd e)"
  by (cases e) (auto simp: negative_price_def price_field_ok_def split: option.splits)

lemma config_prices_ok:
  assumes "config_valid c" and "p \<in> set (ch_ModelPricing c)"
  shows "channel_pricing_ok p"
proof -
  have p: "ValidateIntervals (cp_Intervals p) = None" "checkPricesNotNegative p = None"
    using assms by (auto simp: config_valid_def validateChannelConfig_None list_all_iff)
  have "list_all interval_prices_ok (cp_Intervals p)"
    using p(1) by (auto simp: validate_intervals_iff interval_ok_def interval_prices_ok_def list_all_iff list_ex_iff negative_price_iff)
  moreover have "list_all (\<lambda>e. price_field_ok (snd e))
      [(''input_price'', cp_InputPrice p), (''output_price'', cp_OutputPrice p), (''cache_write_price'', cp_CacheWritePrice p),
       (''cache_read_price'', cp_CacheReadPrice p), (''image_output_price'', cp_ImageOutputPrice p),
       (''per_request_price'', cp_PerRequestPrice p)]"
    using p(2) unfolding checkPricesNotNegative_def option.map_disc_iff find_None list_ex_iff list_all_iff negative_price_iff
    by blast
  ultimately show ?thesis by (simp add: channel_pricing_ok_def)
qed

section \<open>The index\<close>

definition index_ok :: "channelCache \<Rightarrow> bool" where
  "index_ok c =
     ((\<forall>k p. cc_pricing c k = Some p \<longrightarrow> channel_pricing_ok p) \<and>
      (\<forall>k. \<forall>e \<in> set (cc_wildcards c k). channel_pricing_ok (snd e)))"

lemma index_empty [simp]: "index_ok (newEmptyChannelCache t)"
  by (simp add: index_ok_def newEmptyChannelCache_def)

lemma index_fold: "(\<And>x c. x \<in> set xs \<Longrightarrow> index_ok c \<Longrightarrow> index_ok (f x c)) \<Longrightarrow> index_ok c \<Longrightarrow> index_ok (fold f xs c)"
  by (induction xs arbitrary: c) auto

lemma index_expandModel: "channel_pricing_ok p \<Longrightarrow> index_ok c \<Longrightarrow> index_ok (expandModel gid p m c)"
  by (auto simp: index_ok_def expandModel_def)

lemma index_expandMapping: "index_ok (expandMapping gid pl e c) = index_ok c"
  by (auto simp: index_ok_def expandMapping_def split: prod.splits)

lemma index_addGroup: "config_valid ch \<Longrightarrow> index_ok c \<Longrightarrow> index_ok (addGroup gp ch g c)"
  unfolding addGroup_def expandMappingToCache_def expandPricingToCache_def
  by (intro index_fold)
    (auto simp: index_expandMapping split: option.splits intro!: index_fold index_expandModel config_prices_ok,
     auto simp: index_ok_def)

lemma index_addChannel: "config_valid ch \<Longrightarrow> index_ok c \<Longrightarrow> index_ok (addChannel gp ch c)"
  unfolding addChannel_def by (rule index_fold) (simp_all add: index_addGroup, simp add: index_ok_def)

lemma index_populate: "list_all config_valid chs \<Longrightarrow> index_ok (populateChannelCache t chs gp)"
  unfolding populateChannelCache_def
  by (rule index_fold) (auto simp: list_all_iff index_addChannel, simp_all add: index_ok_def newEmptyChannelCache_def)

definition cache_ok :: "channel_world \<Rightarrow> bool" where
  "cache_ok w = (case cw_cache w of None \<Rightarrow> True | Some c \<Rightarrow> index_ok c)"

lemma build_cache_ok: "channels_ok (cw_db w) \<Longrightarrow> cache_ok w \<Longrightarrow> cache_ok (snd (buildCache env w))"
  by (auto simp: cache_ok_def buildCache_def fetchChannelData_def storeErrorCache_def Let_def channels_ok_def index_populate)

lemma load_cache_ok: "channels_ok (cw_db w) \<Longrightarrow> cache_ok w \<Longrightarrow> cache_ok (snd (loadCache env w))"
  by (simp add: loadCache_def build_cache_ok split: option.splits)

lemma invalidate_cache_ok: "channels_ok (cw_db w) \<Longrightarrow> cache_ok (invalidateCache env w)"
  unfolding invalidateCache_def RefreshCache_def by (rule build_cache_ok) (simp_all add: cache_ok_def)

lemma cache_ok_simps [simp]:
  "cache_ok (notifyChannelsChanged env w) = cache_ok w"
  "cache_ok (invalidateAuthCacheForGroups env gs w) = cache_ok w"
  "cache_ok (w\<lparr>cw_db := db\<rparr>) = cache_ok w"
  by (simp_all add: cache_ok_def notifyChannelsChanged_def invalidateAuthCacheForGroups_def)

lemma create_cache: "snd (svcCreate env inp w) = w \<or>
   (\<exists>db. snd (svcCreate env inp w) = notifyChannelsChanged env (invalidateCache env (w\<lparr>cw_db := db\<rparr>)))"
proof -
  let ?c = "\<lparr>ch_ID = 0, ch_Name = ci_Name inp, ch_Description = ci_Description inp, ch_Status = ''active'',
      ch_BillingModelSource = (if ci_BillingModelSource inp = [] then BillingModelSourceChannelMapped
                               else ci_BillingModelSource inp),
      ch_RestrictModels = ci_RestrictModels inp, ch_GroupIDs = ci_GroupIDs inp,
      ch_ModelPricing = ci_ModelPricing inp, ch_ModelMapping = ci_ModelMapping inp\<rparr>"
  show ?thesis
    by (cases "repoCreate ?c (cw_db w)"; cases "validateChannelConfig (ci_ModelPricing inp) (ci_ModelMapping inp)";
        cases "checkGroupConflicts env (cw_db w) 0 (ci_GroupIDs inp)")
       (auto simp: svcCreate_def Let_def)
qed

lemma channel_reach_cache_ok: "channel_reach w \<Longrightarrow> cache_ok w"
proof (induction rule: channel_reach.induct)
  case (reach_init platforms i)
  show ?case by (simp add: cache_ok_def)
next
  case (reach_create w env inp)
  have "channels_ok (cw_db (snd (svcCreate env (createRequest inp) w)))"
    by (rule channel_reach_ok [OF channel_reach.reach_create [OF reach_create.hyps]])
  then show ?case
    using create_cache [of env "createRequest inp" w] reach_create.IH invalidate_cache_ok by auto
next
  case (reach_update w env i inp)
  have "channels_ok (cw_db (snd (svcUpdate env i (updateRequest inp) w)))"
    by (rule channel_reach_ok [OF channel_reach.reach_update [OF reach_update.hyps]])
  then show ?case
    using svcUpdate_cases [OF refl, of env i "updateRequest inp" w] reach_update.IH invalidate_cache_ok by auto
next
  case (reach_delete w env i)
  have "channels_ok (cw_db (snd (svcDelete env i w)))"
    by (rule channel_reach_ok [OF channel_reach.reach_delete [OF reach_delete.hyps]])
  then show ?case
    using reach_delete.IH invalidate_cache_ok
    by (auto simp: svcDelete_def Let_def split: sum.splits)
next
  case (reach_groups w platforms)
  then show ?case by simp
next
  case (reach_load w env)
  then show ?case by (simp add: load_cache_ok channel_reach_ok)
qed

text \<open>The prices that a request finds in the index.\<close>

lemma lookup_pricing_ok:
  assumes "index_ok c" and "lookupPricingAcrossPlatforms c g pl m = Some p"
  shows "channel_pricing_ok p"
proof (cases "cc_pricing c (g, pl, m)")
  case None
  then obtain e where e: "find (\<lambda>wc. has_prefix m (fst wc)) (cc_wildcards c (g, pl)) = Some e" "snd e = p"
    using assms(2)
    by (auto simp: lookupPricingAcrossPlatforms_def cacheMatchWildcard_def matchingPlatforms_def split: option.splits)
  have "e \<in> set (cc_wildcards c (g, pl))" using find_in [OF e(1)] by simp
  then show ?thesis using assms(1) e(2) by (auto simp: index_ok_def)
qed (use assms in \<open>auto simp: lookupPricingAcrossPlatforms_def matchingPlatforms_def index_ok_def\<close>)

lemma GetChannelModelPricing_world: "snd (GetChannelModelPricing env g m w) = snd (loadCache env w)"
  by (auto simp: GetChannelModelPricing_def lookupGroupChannel_def split: sum.splits prod.splits option.splits)

lemma loaded_index: "loadCache env w = (Inr c, w') \<Longrightarrow> cw_cache w' = Some c"
  by (auto simp: loadCache_def buildCache_def fetchChannelData_def Let_def split: option.splits prod.splits if_splits)

lemma channel_price_ok:
  assumes "channels_ok (cw_db w)" and "cache_ok w" and "fst (GetChannelModelPricing env g m w) = Some p"
  shows "channel_pricing_ok p"
proof -
  obtain c w' where c: "loadCache env w = (Inr c, w')"
    using assms(3) by (cases "loadCache env w")
      (auto simp: GetChannelModelPricing_def lookupGroupChannel_def split: sum.splits option.splits)
  have "index_ok c"
    using load_cache_ok [OF assms(1,2), of env] loaded_index [OF c] c by (simp add: cache_ok_def)
  then show ?thesis
    using assms(3) c
    by (auto simp: GetChannelModelPricing_def lookupGroupChannel_def split: option.splits if_splits intro: lookup_pricing_ok)
qed

section \<open>The list, the table and the resolver\<close>

definition listed_ok :: "LiteLLMModelPricing \<Rightarrow> bool" where
  "listed_ok l =
     (0 \<le> lp_Input l \<and> 0 \<le> lp_InputPriority l \<and> 0 \<le> lp_Output l \<and> 0 \<le> lp_OutputPriority l \<and> 0 \<le> lp_CacheCreation l \<and>
      0 \<le> lp_CacheCreationAbove1hr l \<and> 0 \<le> lp_CacheRead l \<and> 0 \<le> lp_CacheReadPriority l \<and> 0 \<le> lp_LongContextInput l \<and>
      0 \<le> lp_LongContextOutput l \<and> 0 \<le> lp_OutputPerImage l \<and> 0 \<le> lp_OutputPerImageToken l)"

text \<open>A price list whose entries are not negative, visited fairly.\<close>

definition list_ok :: "pricing_view option \<Rightarrow> bool" where
  "list_ok L = (case L of None \<Rightarrow> True | Some v \<Rightarrow> fair_view v \<and> (\<forall>k l. pv_data v k = Some l \<longrightarrow> listed_ok l))"

lemma listedPrice_ok: "list_ok L \<Longrightarrow> listedPrice L m = Some l \<Longrightarrow> listed_ok l"
proof -
  have builtin: "listed_ok openAIGPT54FallbackPricing" "listed_ok openAIGPT54MiniFallbackPricing"
      "listed_ok openAIGPT54NanoFallbackPricing"
    by (simp_all add: listed_ok_def openAIGPT54FallbackPricing_def openAIGPT54MiniFallbackPricing_def
        openAIGPT54NanoFallbackPricing_def zero_lp_def)
  then show "list_ok L \<Longrightarrow> listedPrice L m = Some l \<Longrightarrow> listed_ok l"
    using found_price_is_listed [of _ m l] by (auto simp: list_ok_def listedPrice_def split: option.splits)
qed

definition prices_ok :: "billing_prices \<Rightarrow> bool" where
  "prices_ok s = (store_ok s \<and> list_all pricing_ok (bp_cells s))"

lemma prices_ok_init: "prices_ok initFallbackPricing"
proof -
  have "list_all pricing_ok (bp_cells initFallbackPricing)" by code_simp
  then show ?thesis by (simp add: prices_ok_def store_ok_init)
qed

lemma liteLLM_ok: "listed_ok l \<Longrightarrow> pricing_ok (liteLLMPricing l)"
  by (simp add: listed_ok_def pricing_ok_def liteLLMPricing_def Let_def)

lemma policy_ok: "pricing_ok p \<Longrightarrow> pricing_ok (policyValue m p)"
  by (simp add: policyValue_def withLongContextPolicy_def pricing_ok_def openAIGPT54LongContextInputMultiplier_def
      openAIGPT54LongContextOutputMultiplier_def)

lemma zero_mp_ok: "pricing_ok zero_mp"
  by (simp add: pricing_ok_def zero_mp_def)

lemma override_ok: "channel_pricing_ok ch \<Longrightarrow> pricing_ok p \<Longrightarrow> pricing_ok (overridePrices ch p)"
  by (auto simp: channel_pricing_ok_def price_field_ok_def overridePrices_def pricing_ok_def Let_def split: option.splits)

lemma interval_pricing_ok: "interval_prices_ok iv \<Longrightarrow> pricing_ok (intervalToModelPricing iv b)"
  by (auto simp: interval_prices_ok_def interval_prices_def price_field_ok_def intervalToModelPricing_def pricing_ok_def
      zero_mp_def Let_def split: option.splits)

lemma deref_ok: "prices_ok s \<Longrightarrow> i < length (bp_cells s) \<Longrightarrow> pricing_ok (deref s i)"
  by (simp add: prices_ok_def deref_def list_all_length)

lemma alloc_ok: "prices_ok s \<Longrightarrow> pricing_ok p \<Longrightarrow> alloc p s = (i, s') \<Longrightarrow> prices_ok s'"
  using grows_alloc [of p s i s'] grows_store_ok [of s s'] by (auto simp: prices_ok_def alloc_def)

lemma assign_ok: "prices_ok s \<Longrightarrow> pricing_ok p \<Longrightarrow> prices_ok (assign i p s)"
proof -
  have "x \<in> insert p (set (bp_cells s))" if "x \<in> set ((bp_cells s)[i := p])" for x
    using that set_update_subset_insert by fast
  then show "prices_ok s \<Longrightarrow> pricing_ok p \<Longrightarrow> prices_ok (assign i p s)"
    by (auto simp: prices_ok_def assign_def store_ok_def list_all_iff)
qed

lemma policy_store_ok:
  assumes "prices_ok s" and "i < length (bp_cells s)" and "applyModelSpecificPricingPolicy m i s = (j, s')"
  shows "prices_ok s'" and "j < length (bp_cells s')"
proof -
  have "pricing_ok (withLongContextPolicy (deref s i))"
    using deref_ok [OF assms(1,2)]
    by (simp add: withLongContextPolicy_def pricing_ok_def openAIGPT54LongContextInputMultiplier_def
        openAIGPT54LongContextOutputMultiplier_def)
  then show "prices_ok s'"
    using assms by (auto simp: applyModelSpecificPricingPolicy_def split: if_splits intro: alloc_ok)
  show "j < length (bp_cells s')" by (rule policy_step(2) [OF assms(3,2)])
qed

lemma svcGetModelPricing_ok:
  assumes "prices_ok s" and "list_ok L" and "svcGetModelPricing L m s = (r, s')"
  shows "prices_ok s'" and "r = Some i \<Longrightarrow> i < length (bp_cells s')"
proof -
  have store: "store_ok s" using assms(1) by (simp add: prices_ok_def)
  show "prices_ok s'"
  proof (cases "listedPrice L (to_lower m)")
    case None
    then show ?thesis
      using assms
      by (auto simp: svcGetModelPricing_def Let_def split: option.splits prod.splits
          intro: policy_store_ok(1) [OF assms(1) fallback_pointer [OF store]])
  next
    case (Some l)
    obtain p s1 where a: "alloc (liteLLMPricing l) s = (p, s1)" by (cases "alloc (liteLLMPricing l) s") auto
    have "prices_ok s1"
      using alloc_ok [OF assms(1) liteLLM_ok [OF listedPrice_ok [OF assms(2) Some]] a] .
    then have "prices_ok s2" if "applyModelSpecificPricingPolicy (to_lower m) p s1 = (q, s2)" for q s2
      using policy_store_ok(1) [OF _ _ that] grows_alloc [OF a] by blast
    then show ?thesis
      using assms(3) Some a by (auto simp: svcGetModelPricing_def Let_def split: prod.splits)
  qed
  show "r = Some i \<Longrightarrow> i < length (bp_cells s')" by (rule svcGetModelPricing_base(3) [OF assms(3) store])
qed

lemma base_ok:
  assumes "prices_ok s" and "list_ok L" and "basePrice L s m = Some p"
  shows "pricing_ok p"
proof -
  obtain r s' where r: "svcGetModelPricing L m s = (r, s')" by (cases "svcGetModelPricing L m s") auto
  have "map_option (deref s') r = Some p"
    using svcGetModelPricing_base(2) [OF r] assms by (simp add: prices_ok_def)
  then show ?thesis using svcGetModelPricing_ok [OF assms(1,2) r] deref_ok by auto
qed

lemma calculateCostInternal_ok:
  assumes "prices_ok s" and "list_ok L" and "tokens_ok t" and "calculateCostInternal L m t r tier None s = (c, s')"
  shows "prices_ok s'" and "c = Some b \<Longrightarrow> cost_ok b"
proof -
  have store: "store_ok s" using assms(1) by (simp add: prices_ok_def)
  show "prices_ok s'"
    using assms(4) svcGetModelPricing_ok [OF assms(1,2)]
    by (auto simp: calculateCostInternal_def split: prod.splits option.splits)
  show "c = Some b \<Longrightarrow> cost_ok b"
    using calculateCostInternal_base(1) [OF store assms(4)] base_ok [OF assms(1,2)] breakdown_ok [OF _ assms(3)] by auto
qed

section \<open>Costs\<close>

definition priced_world_ok :: "pricing_world \<Rightarrow> bool" where
  "priced_world_ok w = (prices_ok (pw_prices w) \<and> channels_ok (cw_db (pw_channels w)) \<and> cache_ok (pw_channels w))"

lemma channelPriceFor_ok: "priced_world_ok w \<Longrightarrow> channelPriceFor E g m w = Some ch \<Longrightarrow> channel_pricing_ok ch"
  by (auto simp: priced_world_ok_def channelPriceFor_def intro: channel_price_ok split: option.splits)

lemma valid_intervals_ok:
  "channel_pricing_ok ch \<Longrightarrow> iv \<in> set (filterValidIntervals (cp_Intervals ch)) \<Longrightarrow> interval_prices_ok iv"
  by (auto simp: channel_pricing_ok_def filterValidIntervals_def list_all_iff)

lemma or_zero_ok: "price_field_ok x \<Longrightarrow> 0 \<le> or_zero x"
  by (auto simp: price_field_ok_def or_zero_def split: option.splits)

lemma find_mem: "find P xs = Some x \<Longrightarrow> x \<in> set xs"
  by (auto simp: find_Some_iff)

lemma tokenPrice_ok:
  assumes "\<And>ch. chp = Some ch \<Longrightarrow> channel_pricing_ok ch" and "\<And>p. base = Some p \<Longrightarrow> pricing_ok p"
    and "tokenPrice base chp n = Some q"
  shows "pricing_ok q"
proof -
  have t: "pricing_ok q" if "tokenBase base chp = Some q" for q
    using that assms(1,2) zero_mp_ok override_ok
    by (auto simp: tokenBase_def flatOverride_def split: option.splits if_splits)
  have i: "interval_prices_ok iv" if "FindMatchingInterval (channelIntervals chp) n = Some iv" for iv
    using find_mem [OF that [unfolded FindMatchingInterval_def]] assms(1) valid_intervals_ok
    by (auto simp: channelIntervals_def split: option.splits)
  show ?thesis
    using assms(3) t i interval_pricing_ok by (auto simp: tokenPrice_def split: option.splits if_splits)
qed

lemma requestPrice_ok:
  assumes "\<And>ch. chp = Some ch \<Longrightarrow> channel_pricing_ok ch"
  shows "0 \<le> requestPrice chp label n"
proof -
  have t: "0 \<le> or_zero (iv_PerRequestPrice iv)" if "iv \<in> set (channelIntervals chp)" for iv
    using that assms valid_intervals_ok or_zero_ok
    by (auto simp: channelIntervals_def interval_prices_ok_def interval_prices_def split: option.splits)
  have "0 \<le> or_zero (iv_PerRequestPrice iv)" if "find P (channelIntervals chp) = Some iv" for P iv
    using that t by (auto simp: find_Some_iff)
  moreover have "0 \<le> or_zero (cp_PerRequestPrice ch)" if "chp = Some ch" for ch
    using assms [OF that] or_zero_ok by (simp add: channel_pricing_ok_def)
  ultimately show ?thesis
    by (auto simp: requestPrice_def FindMatchingInterval_def Let_def split: option.splits)
qed

lemma channelCost_ok:
  assumes "\<And>ch. chp = Some ch \<Longrightarrow> channel_pricing_ok ch" and "\<And>p. base = Some p \<Longrightarrow> pricing_ok p"
    and "tokens_ok (ci_Tokens inp)" and "channelCost base chp inp = Some c"
  shows "cost_ok c"
proof -
  have mode: "cost_ok (x\<lparr>co_BillingMode := m\<rparr>) = cost_ok x" for x m
    by (simp add: cost_ok_def parts_def)
  show ?thesis
  proof (cases "byRequest chp")
    case True
    then show ?thesis
      using assms(4) requestPrice_ok [OF assms(1), of _ "ci_SizeTier inp" "ut_Input (ci_Tokens inp) + ut_CacheRead (ci_Tokens inp)"]
        effectiveRate_pos [of "ci_RateMultiplier inp"]
      by (auto simp: channelCost_def Let_def cost_ok_def parts_def zero_cost_def intro!: mult_nonneg_nonneg)
  next
    case False
    then show ?thesis
      using assms(3,4) tokenPrice_ok [OF assms(1,2)]
      by (auto simp: channelCost_def Let_def mode intro!: breakdown_ok policy_ok)
  qed
qed

lemma channelOverride_ok:
  assumes "prices_ok s" and "channel_pricing_ok ch" and "\<And>i. rp_BasePricing r = Some i \<Longrightarrow> i < length (bp_cells s)"
    and "channelOverride ch r s = (r', s')"
  shows "prices_ok s'"
proof -
  obtain p s1 where p: "(case rp_BasePricing r of Some p \<Rightarrow> (p, s) | None \<Rightarrow> alloc zero_mp s) = (p, s1)"
    by (cases "case rp_BasePricing r of Some p \<Rightarrow> (p, s) | None \<Rightarrow> alloc zero_mp s") auto
  have s1: "prices_ok s1" "p < length (bp_cells s1)"
    using p assms(1,3) alloc_ok [OF assms(1) zero_mp_ok] grows_alloc [of zero_mp s p s1]
    by (auto split: option.splits)
  have "prices_ok (assign p (overridePrices ch (deref s1 p)) s1)"
    by (intro assign_ok override_ok deref_ok assms(2) s1)
  then show ?thesis
    using assms(1,4) p
    by (auto simp: channelOverride_def applyTokenOverrides_def Let_def split: if_splits)
qed

lemma Resolve_ok:
  assumes "priced_world_ok w" and "list_ok (xe_pricingService E)" and "Resolve E g m w = (r, w')"
  shows "priced_world_ok w'"
proof -
  obtain p s1 where q: "svcGetModelPricing (xe_pricingService E) m (pw_prices w) = (p, s1)"
    by (cases "svcGetModelPricing (xe_pricingService E) m (pw_prices w)") auto
  have s0: "prices_ok (pw_prices w)" using assms(1) by (simp add: priced_world_ok_def)
  note S = svcGetModelPricing_ok [OF s0 assms(2) q]
  obtain source where src: "resolveBasePricing (xe_pricingService E) m (pw_prices w) = ((p, source), s1)"
    using q by (cases p) (auto simp: resolveBasePricing_def)
  have w1: "priced_world_ok (w\<lparr>pw_prices := s1\<rparr>)" using assms(1) S(1) by (simp add: priced_world_ok_def)
  show ?thesis
  proof (cases g)
    case None
    then show ?thesis using assms(3) src w1 by (simp add: Resolve_def)
  next
    case (Some gid)
    define rb where "rb = resolvedBase p source s1"
    have run: "applyChannelOverrides E gid m rb (w\<lparr>pw_prices := s1\<rparr>) = (r, w')"
      using assms(3) src Some by (simp add: Resolve_def rb_def resolvedBase_def Let_def)
    have cw: "channels_ok (cw_db (snd (GetChannelModelPricing (xe_channels E) gid m (pw_channels w))))"
        "cache_ok (snd (GetChannelModelPricing (xe_channels E) gid m (pw_channels w)))"
      using assms(1) by (simp_all add: GetChannelModelPricing_world load_cache_ok priced_world_ok_def)
    show ?thesis
    proof (cases "GetChannelModelPricing (xe_channels E) gid m (pw_channels w)")
      case (Pair x cw')
      show ?thesis
      proof (cases x)
        case None
        then show ?thesis using run Pair cw S(1) by (auto simp: applyChannelOverrides_def priced_world_ok_def)
      next
        case (Some ch)
        obtain r2 s2 where over: "channelOverride ch rb s1 = (r2, s2)" by (cases "channelOverride ch rb s1") auto
        have "channel_pricing_ok ch"
          using channel_price_ok [of "pw_channels w" "xe_channels E" gid m ch] Pair Some assms(1) by (simp add: priced_world_ok_def)
        then have "prices_ok s2"
          using channelOverride_ok [OF S(1) _ _ over] S(2) by (auto simp: rb_def resolvedBase_def)
        then show ?thesis using run Pair Some over cw by (auto simp: applyChannelOverrides_def priced_world_ok_def)
      qed
    qed
  qed
qed

lemma unifiedTokenCost_ok:
  assumes "prices_ok s" and "\<And>i. rp_BasePricing r = Some i \<Longrightarrow> i < length (bp_cells s)"
    and "list_all interval_prices_ok (rp_Intervals r)" and "unifiedTokenCost r inp s = (c, s2)"
  shows "prices_ok s2"
proof -
  let ?n = "ut_Input (ci_Tokens inp) + ut_CacheRead (ci_Tokens inp)"
  obtain p s1 where p: "GetIntervalPricing r ?n s = (p, s1)" by (cases "GetIntervalPricing r ?n s") auto
  have "prices_ok s1 \<and> (\<forall>i. p = Some i \<longrightarrow> i < length (bp_cells s1))"
  proof (cases "FindMatchingInterval (rp_Intervals r) ?n")
    case None
    then show ?thesis using p assms(1,2) by (auto simp: GetIntervalPricing_def split: if_splits)
  next
    case (Some iv)
    then have "iv \<in> set (rp_Intervals r)" "rp_Intervals r \<noteq> []" by (auto simp: FindMatchingInterval_def dest: find_mem)
    then obtain i where i: "alloc (intervalToModelPricing iv (rp_SupportsCacheBreakdown r)) s = (i, s1)" "p = Some i"
        "interval_prices_ok iv"
      using p Some assms(3) by (auto simp: GetIntervalPricing_def list_all_iff split: prod.splits)
    then show ?thesis using alloc_ok [OF assms(1) interval_pricing_ok i(1)] grows_alloc [OF i(1)] by simp
  qed
  then show ?thesis
    using assms(4) p by (auto simp: unifiedTokenCost_def Let_def split: prod.splits option.splits intro: policy_store_ok(1))
qed

lemma resolved_intervals_ok:
  assumes "resolves_to base chp s slot r s'" and "\<And>ch. chp = Some ch \<Longrightarrow> channel_pricing_ok ch"
  shows "list_all interval_prices_ok (rp_Intervals r)"
  using assms valid_intervals_ok by (auto simp: resolves_to_def channelIntervals_def list_all_iff split: option.splits)

lemma unified_resolved_ok:
  assumes "priced_world_ok w1" and "resolves_to base chp s slot r (pw_prices w1)"
    and "\<And>ch. chp = Some ch \<Longrightarrow> channel_pricing_ok ch" and "\<And>p. base = Some p \<Longrightarrow> pricing_ok p"
    and "tokens_ok (ci_Tokens input)" and "ci_HasResolver input"
    and "(case ci_Resolved input of Some r \<Rightarrow> (r, w) | None \<Rightarrow> Resolve E (ci_GroupID input) (ci_Model input) w) = (r, w1)"
    and "CalculateCostUnified E input w = (c, w')"
  shows "priced_world_ok w'" and "c = Some b \<Longrightarrow> cost_ok b"
proof -
  note U = unified_resolved [OF assms(2,6,7,8)]
  show "c = Some b \<Longrightarrow> cost_ok b" using channelCost_ok [OF assms(3,4,5)] U(1) by simp
  define inp where "inp = (if ci_RateMultiplier input \<le> 0 then input\<lparr>ci_RateMultiplier := 1\<rparr> else input)"
  obtain d s2 where u: "unifiedTokenCost r inp (pw_prices w1) = (d, s2)" by (cases "unifiedTokenCost r inp (pw_prices w1)") auto
  have "prices_ok (pw_prices w1)" "\<And>i. rp_BasePricing r = Some i \<Longrightarrow> i < length (bp_cells (pw_prices w1))"
    using assms(1,2) by (auto simp: priced_world_ok_def resolves_to_def)
  then have "prices_ok s2" by (rule unifiedTokenCost_ok [OF _ _ resolved_intervals_ok [OF assms(2,3)] u])
  moreover have "pw_prices w' = pw_prices w1 \<or> pw_prices w' = s2"
    using assms(6-8) u by (auto simp: CalculateCostUnified_def Let_def simp flip: inp_def split: prod.splits if_splits)
  ultimately show "priced_world_ok w'" using assms(1) U(3) by (auto simp: priced_world_ok_def)
qed

lemma unified_ok:
  assumes "priced_world_ok w" and "list_ok (xe_pricingService E)" and "tokens_ok (ci_Tokens input)"
    and "ci_Resolved input = None" and "CalculateCostUnified E input w = (c, w')"
  shows "priced_world_ok w'" and "c = Some b \<Longrightarrow> cost_ok b"
proof -
  have s: "prices_ok (pw_prices w)" "store_ok (pw_prices w)" using assms(1) by (simp_all add: priced_world_ok_def prices_ok_def)
  have "priced_world_ok w' \<and> (\<forall>b. c = Some b \<longrightarrow> cost_ok b)"
  proof (cases "ci_HasResolver input")
    case False
    then show ?thesis
      using assms calculateCostInternal_ok [OF s(1) assms(2,3)]
      by (auto simp: CalculateCostUnified_def priced_world_ok_def split: prod.splits)
  next
    case True
    obtain r w1 where r: "Resolve E (ci_GroupID input) (ci_Model input) w = (r, w1)"
      by (cases "Resolve E (ci_GroupID input) (ci_Model input) w") auto
    note R = unified_resolved_ok [OF Resolve_ok [OF assms(1,2) r] Resolve_resolves [OF s(2) r]
        channelPriceFor_ok [OF assms(1)] base_ok [OF s(1) assms(2)] assms(3) True _ assms(5)]
    show ?thesis using R r assms(4) by simp
  qed
  then show "priced_world_ok w'" and "c = Some b \<Longrightarrow> cost_ok b" by auto
qed

lemma long_context_ok:
  assumes "prices_ok s" and "list_ok L" and "tokens_ok t"
    and "CalculateCostWithLongContext L m t r threshold extra s = (c, s')"
  shows "prices_ok s'" and "c = Some b \<Longrightarrow> cost_ok b"
proof -
  have "prices_ok s' \<and> (\<forall>b. c = Some b \<longrightarrow> cost_ok b)"
  proof (cases "threshold \<le> 0 \<or> extra \<le> 1 \<or> ut_CacheRead t + ut_Input t \<le> threshold")
    case True
    then show ?thesis
      using assms(4) calculateCostInternal_ok [OF assms(1-3)]
      by (auto simp: CalculateCostWithLongContext_def CalculateCost_def split: if_splits)
  next
    case False
    obtain inside outside where cut: "splitAtThreshold threshold t = (inside, outside)"
      by (cases "splitAtThreshold threshold t") auto
    have parts_ok: "tokens_ok inside" "tokens_ok outside"
      using cut assms(3) False
      by (auto simp: splitAtThreshold_def tokens_ok_def zero_tokens_def split: if_splits)
    obtain ci sa where a: "CalculateCost L m inside r s = (ci, sa)" by (cases "CalculateCost L m inside r s") auto
    obtain co sb where b: "CalculateCost L m outside (r * extra) sa = (co, sb)"
      by (cases "CalculateCost L m outside (r * extra) sa") auto
    note A = calculateCostInternal_ok [OF assms(1,2) parts_ok(1) a [unfolded CalculateCost_def]]
    note B = calculateCostInternal_ok [OF A(1) assms(2) parts_ok(2) b [unfolded CalculateCost_def]]
    show ?thesis
      using assms(4) False cut a b A B
      by (auto simp: CalculateCostWithLongContext_def cost_ok_def parts_def split: option.splits)
  qed
  then show "prices_ok s'" and "c = Some b \<Longrightarrow> cost_ok b" by auto
qed

definition image_config_ok :: "ImagePriceConfig option \<Rightarrow> bool" where
  "image_config_ok g = (case g of None \<Rightarrow> True
     | Some x \<Rightarrow> price_field_ok (ip_Price1K x) \<and> price_field_ok (ip_Price2K x) \<and> price_field_ok (ip_Price4K x))"

lemma image_cost_ok: "image_config_ok g \<Longrightarrow> cost_ok (CalculateImageCost L m size' n g r)"
proof -
  have default: "0 \<le> getDefaultImagePrice L m size'"
    by (auto simp: getDefaultImagePrice_def Let_def split: option.splits)
  then have "image_config_ok g \<Longrightarrow> 0 \<le> getImageUnitPrice L m size' g"
    by (auto simp: getImageUnitPrice_def image_config_ok_def price_field_ok_def split: option.splits)
  then show "image_config_ok g \<Longrightarrow> cost_ok (CalculateImageCost L m size' n g r)"
    using effectiveRate_pos [of r]
    by (auto simp: CalculateImageCost_def cost_ok_def parts_def zero_cost_def Let_def intro!: mult_nonneg_nonneg)
qed

end
