(* ===== verification/Usage_Cost.thy ===== *)
theory Usage_Cost
  imports Pricing_Bounds Billing_Events Account_Choice
begin

text \<open>
  What a finished request is charged (\<open>recordUsageCore\<close> in \<open>internal/service/gateway_service.go\<close> and
  \<open>RecordUsage\<close> in \<open>internal/service/openai_gateway_service.go\<close>): its token counts are adjusted, the
  rate of the user and the model to bill are chosen, the cost is computed (\<open>Pricing_Resolver\<close>), written
  into the usage log and published as a billing event (\<open>Billing_Events\<close>).  Also the rate resolver with
  its cache (\<open>internal/service/user_group_rate_resolver.go\<close>) and the checks by which a channel
  restricts models.
\<close>

section \<open>Results of forwarding\<close>

record ClaudeUsage =
  cu_InputTokens :: int
  cu_OutputTokens :: int
  cu_CacheCreationInputTokens :: int
  cu_CacheReadInputTokens :: int
  cu_CacheCreation5mTokens :: int
  cu_CacheCreation1hTokens :: int
  cu_ImageOutputTokens :: int

record ForwardResult =
  fr_RequestID :: gostr
  fr_Usage :: ClaudeUsage
  fr_Model :: gostr
  fr_UpstreamModel :: gostr
  fr_Stream :: bool
  fr_DurationMs :: int
  fr_FirstTokenMs :: "int option"
  fr_ReasoningEffort :: "gostr option"
  fr_ImageCount :: int
  fr_ImageSize :: gostr

definition optionalTrimmedStringPtr :: "gostr \<Rightarrow> gostr option" where
  "optionalTrimmedStringPtr raw = (let t = trim_space raw in if t = '''' then None else Some t)"

definition optionalNonEqualStringPtr :: "gostr \<Rightarrow> gostr \<Rightarrow> gostr option" where
  "optionalNonEqualStringPtr v cmp = (if v = '''' \<or> v = cmp then None else Some v)"

definition forwardResultBillingModel :: "gostr \<Rightarrow> gostr \<Rightarrow> gostr" where
  "forwardResultBillingModel requestedModel upstreamModel =
     (if trim_space requestedModel \<noteq> '''' then trim_space requestedModel else trim_space upstreamModel)"

definition optionalInt64Ptr :: "int64 \<Rightarrow> int64 option" where
  "optionalInt64Ptr v = (if v = 0 then None else Some v)"

section \<open>Adjusted token counts\<close>

definition IsCacheTTLOverrideEnabled :: "Account \<Rightarrow> bool" where
  "IsCacheTTLOverrideEnabled a = (IsAnthropicOAuthOrSetupToken a \<and> asBool (get (act_Extra a) ''cache_ttl_override_enabled''))"

definition GetCacheTTLOverrideTarget :: "Account \<Rightarrow> gostr" where
  "GetCacheTTLOverrideTarget a =
     (let target = asString (get (act_Extra a) ''cache_ttl_override_target'')
      in if target = ''5m'' \<or> target = ''1h'' then target else ''5m'')"

text \<open>The result tells whether anything changed.\<close>

definition applyCacheTTLOverride :: "ClaudeUsage \<Rightarrow> gostr \<Rightarrow> bool \<times> ClaudeUsage" where
  "applyCacheTTLOverride usage target =
     (let u = (if cu_CacheCreation5mTokens usage = 0 \<and> cu_CacheCreation1hTokens usage = 0 \<and>
                  cu_CacheCreationInputTokens usage > 0
               then usage\<lparr>cu_CacheCreation5mTokens := cu_CacheCreationInputTokens usage\<rparr> else usage);
          n = cu_CacheCreation5mTokens u + cu_CacheCreation1hTokens u
      in if n = 0 then (False, u)
         else if target = ''1h''
         then if cu_CacheCreation1hTokens u = n then (False, u)
              else (True, u\<lparr>cu_CacheCreation1hTokens := n, cu_CacheCreation5mTokens := 0\<rparr>)
         else if cu_CacheCreation5mTokens u = n then (False, u)
         else (True, u\<lparr>cu_CacheCreation5mTokens := n, cu_CacheCreation1hTokens := 0\<rparr>))"

definition forceCacheBilling :: "bool \<Rightarrow> ClaudeUsage \<Rightarrow> ClaudeUsage" where
  "forceCacheBilling force u =
     (if force \<and> cu_InputTokens u > 0
      then u\<lparr>cu_CacheReadInputTokens := cu_CacheReadInputTokens u + cu_InputTokens u, cu_InputTokens := 0\<rparr> else u)"

text \<open>The counts that are billed and logged, and whether the log says that they were overridden.\<close>

definition billedUsage :: "bool \<Rightarrow> Account \<Rightarrow> ClaudeUsage \<Rightarrow> ClaudeUsage \<times> bool" where
  "billedUsage force a usage =
     (let u = forceCacheBilling force usage
      in if IsCacheTTLOverrideEnabled a
         then (let v = snd (applyCacheTTLOverride u (GetCacheTTLOverrideTarget a))
               in (v, cu_CacheCreation5mTokens v + cu_CacheCreation1hTokens v > 0))
         else (u, False))"

section \<open>The rate of a user in a group\<close>

text \<open>\<open>None\<close> from the repository is an error, \<open>Some None\<close> a user without a rate of their own.\<close>

record rate_env =
  re_now :: time
  re_hasRepo :: bool
  re_repo :: "int64 \<Rightarrow> int64 \<Rightarrow> rat option option"
  re_ttl :: time

type_synonym rate_cache = "int64 \<times> int64 \<Rightarrow> (rat \<times> time) option"

definition rate_cached :: "rate_env \<Rightarrow> rate_cache \<Rightarrow> int64 \<Rightarrow> int64 \<Rightarrow> rat option" where
  "rate_cached R cache userID groupID =
     (case cache (userID, groupID) of None \<Rightarrow> None | Some (m, expires) \<Rightarrow> if re_now R > expires then None else Some m)"

definition defaultUserGroupRateCacheTTL :: time where "defaultUserGroupRateCacheTTL = 30 * second"

definition resolveUserRate :: "rate_env \<Rightarrow> int64 \<Rightarrow> int64 \<Rightarrow> rat \<Rightarrow> rate_cache \<Rightarrow> rat \<times> rate_cache" where
  "resolveUserRate R userID groupID groupDefault cache =
     (if userID \<le> 0 \<or> groupID \<le> 0 then (groupDefault, cache)
      else case rate_cached R cache userID groupID of
             Some m \<Rightarrow> (m, cache)
           | None \<Rightarrow>
               if \<not> re_hasRepo R then (groupDefault, cache)
               else (case re_repo R userID groupID of
                       None \<Rightarrow> (groupDefault, cache)
                     | Some userRate \<Rightarrow>
                         let m = (case userRate of None \<Rightarrow> groupDefault | Some r \<Rightarrow> r);
                             ttl = (if re_ttl R \<le> 0 then defaultUserGroupRateCacheTTL else re_ttl R)
                         in (m, cache((userID, groupID) \<mapsto> (m, re_now R + ttl)))))"

section \<open>The cost of a finished request\<close>

record usage_env =
  ue_cost :: cost_env
  ue_hasResolver :: bool
  ue_defaultRate :: "rat option"
  ue_simpleMode :: bool
  ue_rates :: rate_env
  ue_now :: time
  ue_uuid :: gostr
  ue_generated :: gostr
  ue_sha :: "gostr \<Rightarrow> gostr"
  ue_publisher :: publisher
  ue_ctx :: "reqctx option"

record recordUsageOpts =
  ro_LongContextThreshold :: int
  ro_LongContextMultiplier :: rat

definition resolveChannelPricing ::
    "usage_env \<Rightarrow> gostr \<Rightarrow> APIKey \<Rightarrow> pricing_world \<Rightarrow> ResolvedPricing option \<times> pricing_world" where
  "resolveChannelPricing E billingModel k w =
     (case ak_Group k of
        None \<Rightarrow> (None, w)
      | Some g \<Rightarrow>
          if \<not> ue_hasResolver E then (None, w)
          else (let (r, w1) = Resolve (ue_cost E) (Some (gr_ID g)) billingModel w
                in (if rp_Source r = PricingSourceChannel then Some r else None, w1)))"

text \<open>The input of the unified calculation for prices that are resolved already.\<close>

definition resolvedInput :: "gostr \<Rightarrow> APIKey \<Rightarrow> UsageTokens \<Rightarrow> rat \<Rightarrow> ResolvedPricing \<Rightarrow> CostInput" where
  "resolvedInput billingModel k tokens multiplier r =
     \<lparr>ci_Model = billingModel, ci_GroupID = map_option gr_ID (ak_Group k), ci_Tokens = tokens, ci_RequestCount = 1,
      ci_SizeTier = '''', ci_RateMultiplier = multiplier, ci_ServiceTier = '''', ci_HasResolver = True, ci_Resolved = Some r\<rparr>"

definition calculateImageCost ::
    "usage_env \<Rightarrow> ForwardResult \<Rightarrow> APIKey \<Rightarrow> gostr \<Rightarrow> rat \<Rightarrow> pricing_world \<Rightarrow> CostBreakdown \<times> pricing_world" where
  "calculateImageCost E result k billingModel multiplier w =
     (case resolveChannelPricing E billingModel k w of
        (Some r, w1) \<Rightarrow>
          (let tokens = zero_tokens\<lparr>ut_Input := cu_InputTokens (fr_Usage result), ut_Output := cu_OutputTokens (fr_Usage result),
                 ut_ImageOutput := cu_ImageOutputTokens (fr_Usage result)\<rparr>
           in case CalculateCostUnified (ue_cost E) (resolvedInput billingModel k tokens multiplier r) w1 of
                (None, w2) \<Rightarrow> (zero_cost, w2)
              | (Some c, w2) \<Rightarrow> (c, w2))
      | (None, w1) \<Rightarrow>
          (CalculateImageCost (xe_pricingService (ue_cost E)) billingModel (fr_ImageSize result) (fr_ImageCount result)
             (map_option (\<lambda>g. \<lparr>ip_Price1K = gr_ImagePrice1K g, ip_Price2K = gr_ImagePrice2K g, ip_Price4K = gr_ImagePrice4K g\<rparr>)
                (ak_Group k)) multiplier, w1))"

definition usageTokens :: "ClaudeUsage \<Rightarrow> UsageTokens" where
  "usageTokens u = \<lparr>ut_Input = cu_InputTokens u, ut_Output = cu_OutputTokens u, ut_CacheCreation = cu_CacheCreationInputTokens u,
     ut_CacheRead = cu_CacheReadInputTokens u, ut_CacheCreation5m = cu_CacheCreation5mTokens u,
     ut_CacheCreation1h = cu_CacheCreation1hTokens u, ut_ImageOutput = cu_ImageOutputTokens u\<rparr>"

definition calculateTokenCost ::
    "usage_env \<Rightarrow> ForwardResult \<Rightarrow> APIKey \<Rightarrow> gostr \<Rightarrow> rat \<Rightarrow> recordUsageOpts \<Rightarrow> pricing_world \<Rightarrow> CostBreakdown \<times> pricing_world" where
  "calculateTokenCost E result k billingModel multiplier opts w =
     (let tokens = usageTokens (fr_Usage result);
          (cost, w2) =
            (case resolveChannelPricing E billingModel k w of
               (Some r, w1) \<Rightarrow> CalculateCostUnified (ue_cost E) (resolvedInput billingModel k tokens multiplier r) w1
             | (None, w1) \<Rightarrow>
                 (let (c, s) =
                    (if ro_LongContextThreshold opts > 0
                     then CalculateCostWithLongContext (xe_pricingService (ue_cost E)) billingModel tokens multiplier
                            (ro_LongContextThreshold opts) (ro_LongContextMultiplier opts) (pw_prices w1)
                     else CalculateCost (xe_pricingService (ue_cost E)) billingModel tokens multiplier (pw_prices w1))
                  in (c, w1\<lparr>pw_prices := s\<rparr>)))
      in (case cost of None \<Rightarrow> zero_cost | Some c \<Rightarrow> c, w2))"

definition calculateRecordUsageCost ::
    "usage_env \<Rightarrow> ForwardResult \<Rightarrow> APIKey \<Rightarrow> gostr \<Rightarrow> rat \<Rightarrow> recordUsageOpts \<Rightarrow> pricing_world \<Rightarrow> CostBreakdown \<times> pricing_world" where
  "calculateRecordUsageCost E result k billingModel multiplier opts w =
     (if fr_ImageCount result > 0 then calculateImageCost E result k billingModel multiplier w
      else calculateTokenCost E result k billingModel multiplier opts w)"

section \<open>The usage log\<close>

definition RequestTypeFromLegacy :: "bool \<Rightarrow> bool \<Rightarrow> int" where
  "RequestTypeFromLegacy stream openAIWSMode = (if openAIWSMode then 3 else if stream then 2 else 1)"

definition resolveBillingMode :: "ForwardResult \<Rightarrow> CostBreakdown \<Rightarrow> gostr" where
  "resolveBillingMode result cost =
     (if co_BillingMode cost \<noteq> '''' then co_BillingMode cost
      else if fr_ImageCount result > 0 then BillingModeImage else BillingModeToken)"

record recordUsageInput =
  ru_Result :: ForwardResult
  ru_APIKey :: APIKey
  ru_User :: User
  ru_Account :: Account
  ru_Subscription :: "UserSubscription option"
  ru_Charge :: RecordUsageInput
  ru_InboundEndpoint :: gostr
  ru_UpstreamEndpoint :: gostr
  ru_UserAgent :: gostr
  ru_IPAddress :: gostr
  ru_ForceCacheBilling :: bool
  ru_HasAPIKeyService :: bool
  ru_Channel :: ChannelUsageFields

definition buildRecordUsageLog ::
    "usage_env \<Rightarrow> recordUsageInput \<Rightarrow> ForwardResult \<Rightarrow> gostr \<Rightarrow> rat \<Rightarrow> int \<Rightarrow> bool \<Rightarrow> CostBreakdown \<Rightarrow> UsageLog" where
  "buildRecordUsageLog E input result requestedModel multiplier billingType overridden cost =
     emptyLog\<lparr>ul_UserID := us_ID (ru_User input), ul_APIKeyID := ak_ID (ru_APIKey input),
      ul_AccountID := act_ID (ru_Account input),
      ul_RequestID := resolveUsageBillingRequestID (ue_ctx E) (fr_RequestID result) (ue_generated E),
      ul_Model := fr_Model result, ul_RequestedModel := requestedModel,
      ul_UpstreamModel := optionalNonEqualStringPtr (fr_UpstreamModel result) (fr_Model result),
      ul_ReasoningEffort := fr_ReasoningEffort result,
      ul_InboundEndpoint := optionalTrimmedStringPtr (ru_InboundEndpoint input),
      ul_UpstreamEndpoint := optionalTrimmedStringPtr (ru_UpstreamEndpoint input),
      ul_InputTokens := cu_InputTokens (fr_Usage result), ul_OutputTokens := cu_OutputTokens (fr_Usage result),
      ul_CacheCreationTokens := cu_CacheCreationInputTokens (fr_Usage result),
      ul_CacheReadTokens := cu_CacheReadInputTokens (fr_Usage result),
      ul_CacheCreation5mTokens := cu_CacheCreation5mTokens (fr_Usage result),
      ul_CacheCreation1hTokens := cu_CacheCreation1hTokens (fr_Usage result),
      ul_ImageOutputTokens := cu_ImageOutputTokens (fr_Usage result), ul_RateMultiplier := multiplier,
      ul_AccountRateMultiplier := Some (BillingRateMultiplier (Some (ru_Account input))), ul_BillingType := billingType,
      ul_RequestType := RequestTypeFromLegacy (fr_Stream result) False,
      ul_BillingMode := Some (resolveBillingMode result cost), ul_Stream := fr_Stream result,
      ul_DurationMs := Some (fr_DurationMs result), ul_FirstTokenMs := fr_FirstTokenMs result,
      ul_ImageCount := fr_ImageCount result, ul_ImageSize := optionalTrimmedStringPtr (fr_ImageSize result),
      ul_CacheTTLOverridden := overridden, ul_ChannelID := optionalInt64Ptr (uf_ChannelID (ru_Channel input)),
      ul_ModelMappingChain := optionalTrimmedStringPtr (uf_ModelMappingChain (ru_Channel input)),
      ul_UserAgent := optionalTrimmedStringPtr (ru_UserAgent input), ul_IPAddress := optionalTrimmedStringPtr (ru_IPAddress input),
      ul_GroupID := ak_GroupID (ru_APIKey input), ul_SubscriptionID := map_option sb_ID (ru_Subscription input),
      ul_CreatedAt := Some (ue_now E),
      ul_InputCost := co_InputCost cost, ul_OutputCost := co_OutputCost cost, ul_ImageOutputCost := co_ImageOutputCost cost,
      ul_CacheCreationCost := co_CacheCreationCost cost, ul_CacheReadCost := co_CacheReadCost cost,
      ul_TotalCost := co_TotalCost cost, ul_ActualCost := co_ActualCost cost\<rparr>"

section \<open>Recording the usage of a request\<close>

record usage_world =
  uw_pricing :: pricing_world
  uw_rates :: rate_cache
  uw_logs :: "UsageLog list"

definition userRate :: "usage_env \<Rightarrow> User \<Rightarrow> APIKey \<Rightarrow> rate_cache \<Rightarrow> rat \<times> rate_cache" where
  "userRate E user k cache =
     (case (ak_GroupID k, ak_Group k) of
        (Some gid, Some g) \<Rightarrow> resolveUserRate (ue_rates E) (us_ID user) gid (gr_RateMultiplier g) cache
      | _ \<Rightarrow> (case ue_defaultRate E of None \<Rightarrow> 1 | Some r \<Rightarrow> r, cache))"

definition billingModelOf :: "ForwardResult \<Rightarrow> ChannelUsageFields \<Rightarrow> gostr" where
  "billingModelOf result ch =
     (let m0 = forwardResultBillingModel (fr_Model result) (fr_UpstreamModel result);
          m1 = (if uf_BillingModelSource ch = BillingModelSourceChannelMapped \<and> uf_ChannelMappedModel ch \<noteq> ''''
                then uf_ChannelMappedModel ch else m0)
      in if uf_BillingModelSource ch = BillingModelSourceRequested \<and> uf_OriginalModel ch \<noteq> ''''
         then uf_OriginalModel ch else m1)"

text \<open>The usage log of a request, with the cost that it is charged.\<close>

definition usageLogFor :: "usage_env \<Rightarrow> recordUsageInput \<Rightarrow> recordUsageOpts \<Rightarrow> usage_world \<Rightarrow> UsageLog \<times> CostBreakdown \<times> usage_world" where
  "usageLogFor E input opts w =
     (let k = ru_APIKey input; ch = ru_Channel input;
          (usage, overridden) = billedUsage (ru_ForceCacheBilling input) (ru_Account input) (fr_Usage (ru_Result input));
          result = (ru_Result input)\<lparr>fr_Usage := usage\<rparr>;
          (multiplier, rates) = userRate E (ru_User input) k (uw_rates w);
          requestedModel = (if uf_OriginalModel ch \<noteq> '''' then uf_OriginalModel ch else fr_Model result);
          (cost, pricing) = calculateRecordUsageCost E result k (billingModelOf result ch) multiplier opts (uw_pricing w);
          billingType = (if isSubscriptionBilling k (ru_Subscription input) then 1 else 0)
      in (buildRecordUsageLog E input result requestedModel multiplier billingType overridden cost, cost,
          w\<lparr>uw_pricing := pricing, uw_rates := rates\<rparr>))"

definition recordUsageCore ::
    "usage_env \<Rightarrow> recordUsageInput \<Rightarrow> recordUsageOpts \<Rightarrow> usage_world
     \<Rightarrow> (publish_error option \<times> UsageChargeEvent list) \<times> usage_world" where
  "recordUsageCore E input opts w =
     (let (usageLog, cost, w1) = usageLogFor E input opts w
      in if ue_simpleMode E then ((None, []), w1\<lparr>uw_logs := uw_logs w1 @ [usageLog]\<rparr>)
         else (publishUsageCharge (ue_sha E) (ue_now E) (ue_uuid E) (ue_publisher E) (ue_ctx E) (ru_Charge input)
                 usageLog (Some cost) (ru_User input) (ru_APIKey input)
                 (ru_Account input) (ru_Subscription input) (ru_HasAPIKeyService input), w1))"

definition RecordUsage ::
    "usage_env \<Rightarrow> recordUsageInput \<Rightarrow> usage_world \<Rightarrow> (publish_error option \<times> UsageChargeEvent list) \<times> usage_world" where
  "RecordUsage E input w = recordUsageCore E input \<lparr>ro_LongContextThreshold = 0, ro_LongContextMultiplier = 0\<rparr> w"

definition RecordUsageWithLongContext ::
    "usage_env \<Rightarrow> recordUsageInput \<Rightarrow> int \<Rightarrow> rat \<Rightarrow> usage_world
     \<Rightarrow> (publish_error option \<times> UsageChargeEvent list) \<times> usage_world" where
  "RecordUsageWithLongContext E input threshold multiplier w =
     recordUsageCore E input \<lparr>ro_LongContextThreshold = threshold, ro_LongContextMultiplier = multiplier\<rparr> w"

section \<open>The OpenAI service\<close>

record OpenAIForwardResult =
  of_RequestID :: gostr
  of_InputTokens :: int
  of_OutputTokens :: int
  of_CacheCreationInputTokens :: int
  of_CacheReadInputTokens :: int
  of_ImageOutputTokens :: int
  of_Model :: gostr
  of_BillingModel :: gostr
  of_UpstreamModel :: gostr
  of_ServiceTier :: "gostr option"
  of_ReasoningEffort :: "gostr option"
  of_Stream :: bool
  of_OpenAIWSMode :: bool
  of_DurationMs :: int
  of_FirstTokenMs :: "int option"

record OpenAIRecordUsageInput =
  or_Result :: OpenAIForwardResult
  or_APIKey :: APIKey
  or_User :: User
  or_Account :: Account
  or_Subscription :: "UserSubscription option"
  or_Charge :: RecordUsageInput
  or_InboundEndpoint :: gostr
  or_UpstreamEndpoint :: gostr
  or_UserAgent :: gostr
  or_IPAddress :: gostr
  or_HasAPIKeyService :: bool
  or_Channel :: ChannelUsageFields

definition openAITokens :: "OpenAIForwardResult \<Rightarrow> UsageTokens" where
  "openAITokens r =
     zero_tokens\<lparr>ut_Input := max 0 (of_InputTokens r - of_CacheReadInputTokens r), ut_Output := of_OutputTokens r,
       ut_CacheCreation := of_CacheCreationInputTokens r, ut_CacheRead := of_CacheReadInputTokens r,
       ut_ImageOutput := of_ImageOutputTokens r\<rparr>"

definition openAIBillingModel :: "OpenAIForwardResult \<Rightarrow> ChannelUsageFields \<Rightarrow> gostr" where
  "openAIBillingModel r ch =
     (let m0 = (if of_BillingModel r \<noteq> '''' then trim_space (of_BillingModel r)
                else forwardResultBillingModel (of_Model r) (of_UpstreamModel r));
          m1 = (if uf_BillingModelSource ch = BillingModelSourceChannelMapped \<and> uf_ChannelMappedModel ch \<noteq> '''' \<and>
                   uf_ChannelMappedModel ch \<noteq> uf_OriginalModel ch
                then uf_ChannelMappedModel ch else m0)
      in if uf_BillingModelSource ch = BillingModelSourceRequested \<and> uf_OriginalModel ch \<noteq> ''''
         then uf_OriginalModel ch else m1)"

definition openAICost :: "usage_env \<Rightarrow> OpenAIForwardResult \<Rightarrow> APIKey \<Rightarrow> gostr \<Rightarrow> rat \<Rightarrow> pricing_world \<Rightarrow> CostBreakdown \<times> pricing_world" where
  "openAICost E r k billingModel multiplier w =
     (let tokens = openAITokens r;
          serviceTier = (case of_ServiceTier r of None \<Rightarrow> '''' | Some t \<Rightarrow> trim_space t);
          (cost, w1) =
            (case (ue_hasResolver E, ak_Group k) of
               (True, Some g) \<Rightarrow>
                 CalculateCostUnified (ue_cost E)
                   \<lparr>ci_Model = billingModel, ci_GroupID = Some (gr_ID g), ci_Tokens = tokens, ci_RequestCount = 1, ci_SizeTier = '''',
                    ci_RateMultiplier = multiplier, ci_ServiceTier = serviceTier, ci_HasResolver = True, ci_Resolved = None\<rparr> w
             | _ \<Rightarrow> (let (c, s) = CalculateCostWithServiceTier (xe_pricingService (ue_cost E)) billingModel tokens multiplier
                                   serviceTier (pw_prices w)
                     in (c, w\<lparr>pw_prices := s\<rparr>)))
      in (case cost of None \<Rightarrow> zero_cost | Some c \<Rightarrow> c, w1))"

definition nonEmpty :: "gostr \<Rightarrow> gostr option" where
  "nonEmpty s = (if s = '''' then None else Some s)"

definition openAIUsageLog ::
    "usage_env \<Rightarrow> OpenAIRecordUsageInput \<Rightarrow> rat \<Rightarrow> CostBreakdown \<Rightarrow> UsageLog" where
  "openAIUsageLog E input multiplier cost =
     (let r = or_Result input; t = openAITokens r; ch = or_Channel input;
          r0 = trim_space (ri_BillingRequestID (or_Charge input))
      in emptyLog\<lparr>ul_UserID := us_ID (or_User input), ul_APIKeyID := ak_ID (or_APIKey input),
      ul_AccountID := act_ID (or_Account input),
      ul_RequestID := (if r0 = '''' then resolveUsageBillingRequestID (ue_ctx E) (of_RequestID r) (ue_generated E) else r0),
      ul_Model := of_Model r,
      ul_RequestedModel := (if uf_OriginalModel ch \<noteq> '''' then uf_OriginalModel ch else of_Model r),
      ul_UpstreamModel := optionalNonEqualStringPtr (of_UpstreamModel r) (of_Model r),
      ul_ServiceTier := of_ServiceTier r, ul_ReasoningEffort := of_ReasoningEffort r,
      ul_InboundEndpoint := optionalTrimmedStringPtr (or_InboundEndpoint input),
      ul_UpstreamEndpoint := optionalTrimmedStringPtr (or_UpstreamEndpoint input),
      ul_InputTokens := ut_Input t, ul_OutputTokens := ut_Output t, ul_CacheCreationTokens := ut_CacheCreation t,
      ul_CacheReadTokens := ut_CacheRead t, ul_ImageOutputTokens := ut_ImageOutput t,
      ul_InputCost := co_InputCost cost, ul_OutputCost := co_OutputCost cost, ul_ImageOutputCost := co_ImageOutputCost cost,
      ul_CacheCreationCost := co_CacheCreationCost cost, ul_CacheReadCost := co_CacheReadCost cost,
      ul_TotalCost := co_TotalCost cost, ul_ActualCost := co_ActualCost cost,
      ul_RateMultiplier := multiplier, ul_AccountRateMultiplier := Some (BillingRateMultiplier (Some (or_Account input))),
      ul_BillingType := (if isSubscriptionBilling (or_APIKey input) (or_Subscription input) then 1 else 0),
      ul_RequestType := RequestTypeFromLegacy (of_Stream r) (of_OpenAIWSMode r), ul_Stream := of_Stream r,
      ul_OpenAIWSMode := of_OpenAIWSMode r, ul_DurationMs := Some (of_DurationMs r), ul_FirstTokenMs := of_FirstTokenMs r,
      ul_CreatedAt := Some (ue_now E), ul_ChannelID := optionalInt64Ptr (uf_ChannelID ch),
      ul_ModelMappingChain := optionalTrimmedStringPtr (uf_ModelMappingChain ch),
      ul_BillingMode := Some (if co_BillingMode cost \<noteq> '''' then co_BillingMode cost else BillingModeToken),
      ul_UserAgent := nonEmpty (or_UserAgent input), ul_IPAddress := nonEmpty (or_IPAddress input),
      ul_GroupID := ak_GroupID (or_APIKey input), ul_SubscriptionID := map_option sb_ID (or_Subscription input)\<rparr>)"

definition openAIRecordUsage ::
    "usage_env \<Rightarrow> OpenAIRecordUsageInput \<Rightarrow> usage_world \<Rightarrow> (publish_error option \<times> UsageChargeEvent list) \<times> usage_world" where
  "openAIRecordUsage E input w =
     (let k = or_APIKey input;
          (multiplier, rates) = userRate E (or_User input) k (uw_rates w);
          (cost, pricing) = openAICost E (or_Result input) k (openAIBillingModel (or_Result input) (or_Channel input)) multiplier
                              (uw_pricing w)
      in (publishUsageCharge (ue_sha E) (ue_now E) (ue_uuid E) (ue_publisher E) (ue_ctx E) (or_Charge input)
            (openAIUsageLog E input multiplier cost) (Some cost) (or_User input) k (or_Account input)
            (or_Subscription input) (or_HasAPIKeyService input),
          w\<lparr>uw_pricing := pricing, uw_rates := rates\<rparr>))"

section \<open>Models that a channel restricts\<close>

definition billingModelForRestriction :: "gostr \<Rightarrow> gostr \<Rightarrow> gostr \<Rightarrow> gostr" where
  "billingModelForRestriction source requestedModel channelMappedModel =
     (if source = BillingModelSourceRequested then requestedModel
      else if source = BillingModelSourceUpstream then ''''
      else channelMappedModel)"

definition checkChannelPricingRestriction :: "channel_env \<Rightarrow> int64 option \<Rightarrow> gostr \<Rightarrow> channel_world \<Rightarrow> bool \<times> channel_world" where
  "checkChannelPricingRestriction env groupID requestedModel w =
     (case groupID of
        None \<Rightarrow> (False, w)
      | Some g \<Rightarrow>
          if requestedModel = '''' then (False, w)
          else (let (m, w1) = ResolveChannelMapping env g requestedModel w;
                    billingModel = billingModelForRestriction (mr_BillingModelSource m) requestedModel (mr_MappedModel m)
                in if billingModel = '''' then (False, w1) else IsModelRestricted env g billingModel w1))"

definition needsUpstreamChannelRestrictionCheck :: "channel_env \<Rightarrow> int64 option \<Rightarrow> channel_world \<Rightarrow> bool \<times> channel_world" where
  "needsUpstreamChannelRestrictionCheck env groupID w =
     (case groupID of
        None \<Rightarrow> (False, w)
      | Some g \<Rightarrow>
          (case GetChannelForGroup env g w of
             (Inr (Some ch), w1) \<Rightarrow> (ch_RestrictModels ch \<and> ch_BillingModelSource ch = BillingModelSourceUpstream, w1)
           | (_, w1) \<Rightarrow> (False, w1)))"

definition upstreamModelRestricted :: "channel_env \<Rightarrow> int64 \<Rightarrow> Account \<Rightarrow> gostr \<Rightarrow> channel_world \<Rightarrow> bool \<times> channel_world" where
  "upstreamModelRestricted env groupID a requestedModel w =
     (let upstreamModel = resolveAccountUpstreamModel a requestedModel
      in if upstreamModel = '''' then (False, w) else IsModelRestricted env groupID upstreamModel w)"

end
