(* ===== verification/Usage_Safety.thy ===== *)
theory Usage_Safety
  imports Usage_Cost
begin

text \<open>
  What is charged for finished requests in every state that channels, prices and rates can reach: the
  cost in the usage log is sound and the published charge is that cost, to one payer.
\<close>

section \<open>Adjusted token counts\<close>

definition usage_ok :: "ClaudeUsage \<Rightarrow> bool" where
  "usage_ok u = tokens_ok (usageTokens u)"

definition creationTokens :: "ClaudeUsage \<Rightarrow> int" where
  "creationTokens u =
     (if cu_CacheCreation5mTokens u + cu_CacheCreation1hTokens u = 0 then cu_CacheCreationInputTokens u
      else cu_CacheCreation5mTokens u + cu_CacheCreation1hTokens u)"

lemma usage_ok_fields:
  "usage_ok u \<longleftrightarrow> 0 \<le> cu_InputTokens u \<and> 0 \<le> cu_OutputTokens u \<and> 0 \<le> cu_CacheCreationInputTokens u \<and>
     0 \<le> cu_CacheReadInputTokens u \<and> 0 \<le> cu_CacheCreation5mTokens u \<and> 0 \<le> cu_CacheCreation1hTokens u \<and>
     0 \<le> cu_ImageOutputTokens u"
  by (simp add: usage_ok_def tokens_ok_def usageTokens_def)

lemma force_ok: "usage_ok u \<Longrightarrow> usage_ok (forceCacheBilling f u)"
  by (simp add: usage_ok_fields forceCacheBilling_def)

lemma override_usage:
  assumes "usage_ok u" and "applyCacheTTLOverride u target = (changed, v)"
  shows "v = u\<lparr>cu_CacheCreation5mTokens := (if target = ''1h'' then 0 else creationTokens u),
              cu_CacheCreation1hTokens := (if target = ''1h'' then creationTokens u else 0)\<rparr>"
proof -
  have "0 \<le> cu_CacheCreation5mTokens u" "0 \<le> cu_CacheCreation1hTokens u" "0 \<le> cu_CacheCreationInputTokens u"
    using assms(1) by (simp_all add: usage_ok_fields)
  then show ?thesis
    using assms(2) by (cases u) (auto simp: applyCacheTTLOverride_def creationTokens_def Let_def split: if_splits)
qed

lemma billedUsage_value:
  assumes "usage_ok u" and "billedUsage force a u = (v, flag)"
  shows "v = (if IsCacheTTLOverrideEnabled a
              then (forceCacheBilling force u)\<lparr>
                     cu_CacheCreation5mTokens := (if GetCacheTTLOverrideTarget a = ''1h'' then 0 else creationTokens u),
                     cu_CacheCreation1hTokens := (if GetCacheTTLOverrideTarget a = ''1h'' then creationTokens u else 0)\<rparr>
              else forceCacheBilling force u)"
    and "flag \<longleftrightarrow> IsCacheTTLOverrideEnabled a \<and> creationTokens u > 0"
proof -
  let ?f = "forceCacheBilling force u"
  obtain changed x where x: "applyCacheTTLOverride ?f (GetCacheTTLOverrideTarget a) = (changed, x)"
    by (cases "applyCacheTTLOverride ?f (GetCacheTTLOverrideTarget a)") auto
  have c: "creationTokens ?f = creationTokens u" by (simp add: creationTokens_def forceCacheBilling_def)
  note O = override_usage [OF force_ok [OF assms(1)] x, unfolded c]
  show "v = (if IsCacheTTLOverrideEnabled a
              then (forceCacheBilling force u)\<lparr>
                     cu_CacheCreation5mTokens := (if GetCacheTTLOverrideTarget a = ''1h'' then 0 else creationTokens u),
                     cu_CacheCreation1hTokens := (if GetCacheTTLOverrideTarget a = ''1h'' then creationTokens u else 0)\<rparr>
              else forceCacheBilling force u)"
    using assms(2) x O by (auto simp: billedUsage_def Let_def split: if_splits)
  have "cu_CacheCreation5mTokens x + cu_CacheCreation1hTokens x = creationTokens u" by (simp add: O)
  then show "flag \<longleftrightarrow> IsCacheTTLOverrideEnabled a \<and> creationTokens u > 0"
    using assms(2) x by (auto simp: billedUsage_def Let_def split: if_splits)
qed

lemma creationTokens_nonneg: "usage_ok u \<Longrightarrow> 0 \<le> creationTokens u"
  by (simp add: usage_ok_fields creationTokens_def)

lemma billedUsage_ok:
  assumes "usage_ok u" and "billedUsage force a u = (v, flag)"
  shows "usage_ok v"
proof -
  have "usage_ok (forceCacheBilling force u)" by (rule force_ok [OF assms(1)])
  then show ?thesis
    unfolding billedUsage_value(1) [OF assms]
    using creationTokens_nonneg [OF assms(1)] by (simp add: usage_ok_fields)
qed

text \<open>
  C31. Adjusting the token counts for billing moves tokens and loses none: with forced cache billing the
  whole input counts as cache reads; with an account that fixes the lifetime of caches every cache
  creation token counts under that lifetime, the ones without a lifetime too, and the log says so
  exactly if there are any; otherwise nothing changes.  Recording the same result again adjusts
  nothing more.
\<close>

theorem billed_tokens_exact:
  assumes "usage_ok u" and "billedUsage force a u = (v, flag)"
  shows "cu_InputTokens v + cu_CacheReadInputTokens v = cu_InputTokens u + cu_CacheReadInputTokens u \<and>
    cu_InputTokens v = (if force then 0 else cu_InputTokens u) \<and>
    cu_OutputTokens v = cu_OutputTokens u \<and> cu_ImageOutputTokens v = cu_ImageOutputTokens u \<and>
    cu_CacheCreationInputTokens v = cu_CacheCreationInputTokens u \<and> creationTokens v = creationTokens u \<and>
    (cu_CacheCreation5mTokens v, cu_CacheCreation1hTokens v) =
      (if \<not> IsCacheTTLOverrideEnabled a then (cu_CacheCreation5mTokens u, cu_CacheCreation1hTokens u)
       else if GetCacheTTLOverrideTarget a = ''1h'' then (0, creationTokens u) else (creationTokens u, 0)) \<and>
    flag = (IsCacheTTLOverrideEnabled a \<and> creationTokens u > 0) \<and>
    billedUsage force a v = (v, flag)"
proof -
  note V = billedUsage_value [OF assms]
  have nonneg: "0 \<le> cu_InputTokens u" "0 \<le> cu_CacheCreation5mTokens u" "0 \<le> cu_CacheCreation1hTokens u"
      "0 \<le> cu_CacheCreationInputTokens u"
    using assms(1) by (simp_all add: usage_ok_fields)
  have facts: "cu_InputTokens v = (if force then 0 else cu_InputTokens u)"
      "cu_InputTokens v + cu_CacheReadInputTokens v = cu_InputTokens u + cu_CacheReadInputTokens u"
      "cu_OutputTokens v = cu_OutputTokens u" "cu_ImageOutputTokens v = cu_ImageOutputTokens u"
      "cu_CacheCreationInputTokens v = cu_CacheCreationInputTokens u"
      "(cu_CacheCreation5mTokens v, cu_CacheCreation1hTokens v) =
        (if \<not> IsCacheTTLOverrideEnabled a then (cu_CacheCreation5mTokens u, cu_CacheCreation1hTokens u)
         else if GetCacheTTLOverrideTarget a = ''1h'' then (0, creationTokens u) else (creationTokens u, 0))"
    using nonneg by (auto simp: V(1) forceCacheBilling_def)
  have c: "creationTokens v = creationTokens u"
    using facts(5,6) nonneg by (auto simp: creationTokens_def split: if_splits)
  obtain x fl where x: "billedUsage force a v = (x, fl)" by (cases "billedUsage force a v") auto
  note X = billedUsage_value [OF billedUsage_ok [OF assms] x, unfolded c]
  have still: "forceCacheBilling force v = v" using facts(1) by (simp add: forceCacheBilling_def)
  have "x = v" using X(1) [unfolded still] facts(6) by (cases v) (auto split: if_splits)
  then show ?thesis using facts c V(2) X(2) x by simp
qed

definition demo_usage :: ClaudeUsage where
  "demo_usage = \<lparr>cu_InputTokens = 100, cu_OutputTokens = 20, cu_CacheCreationInputTokens = 50, cu_CacheReadInputTokens = 7,
     cu_CacheCreation5mTokens = 0, cu_CacheCreation1hTokens = 0, cu_ImageOutputTokens = 0\<rparr>"

definition hour_account :: Account where
  "hour_account = (plainAccount 5 ''anthropic'' ''oauth'')\<lparr>act_Extra :=
     Some [(''cache_ttl_override_enabled'', GBool True), (''cache_ttl_override_target'', GString ''1h'')]\<rparr>"

theorem billed_tokens_exact_witness:
  "\<exists>v. billedUsage True hour_account demo_usage = (v, True) \<and> cu_CacheReadInputTokens v = 107 \<and>
       cu_CacheCreation1hTokens v = 50 \<and> billedUsage True hour_account v = (v, True)"
proof -
  obtain v flag where v: "billedUsage True hour_account demo_usage = (v, flag)"
    by (cases "billedUsage True hour_account demo_usage") auto
  have ok: "usage_ok demo_usage" by (simp add: usage_ok_fields demo_usage_def)
  have "IsCacheTTLOverrideEnabled hour_account" "GetCacheTTLOverrideTarget hour_account = ''1h''"
    by code_simp+
  moreover have "creationTokens demo_usage = 50" "cu_InputTokens demo_usage + cu_CacheReadInputTokens demo_usage = 107"
    by (simp_all add: creationTokens_def demo_usage_def)
  ultimately show ?thesis using billed_tokens_exact [OF ok v] v by auto
qed

section \<open>Costs in reachable states\<close>

definition usage_env_ok :: "usage_env \<Rightarrow> bool" where
  "usage_env_ok E = list_ok (xe_pricingService (ue_cost E))"

definition group_prices_ok :: "APIKey \<Rightarrow> bool" where
  "group_prices_ok k =
     (case ak_Group k of None \<Rightarrow> True
      | Some g \<Rightarrow> price_field_ok (gr_ImagePrice1K g) \<and> price_field_ok (gr_ImagePrice2K g) \<and> price_field_ok (gr_ImagePrice4K g))"

definition usage_input_ok :: "recordUsageInput \<Rightarrow> bool" where
  "usage_input_ok input = (usage_ok (fr_Usage (ru_Result input)) \<and> group_prices_ok (ru_APIKey input))"

definition openai_input_ok :: "OpenAIRecordUsageInput \<Rightarrow> bool" where
  "openai_input_ok input =
     (let r = or_Result input
      in 0 \<le> of_OutputTokens r \<and> 0 \<le> of_CacheCreationInputTokens r \<and> 0 \<le> of_CacheReadInputTokens r \<and>
         0 \<le> of_ImageOutputTokens r)"

text \<open>The channels change in every way that their service allows; requests are recorded in between.\<close>

inductive usage_reach :: "usage_world \<Rightarrow> bool" where
  usage_init: "channel_reach cw \<Longrightarrow>
    usage_reach \<lparr>uw_pricing = \<lparr>pw_channels = cw, pw_prices = initFallbackPricing\<rparr>, uw_rates = (\<lambda>_. None), uw_logs = []\<rparr>"
| usage_channels: "usage_reach w \<Longrightarrow> channel_reach cw \<Longrightarrow>
    usage_reach (w\<lparr>uw_pricing := (uw_pricing w)\<lparr>pw_channels := cw\<rparr>\<rparr>)"
| usage_record: "usage_reach w \<Longrightarrow> usage_env_ok E \<Longrightarrow> usage_input_ok input \<Longrightarrow>
    usage_reach (snd (recordUsageCore E input opts w))"
| usage_openai: "usage_reach w \<Longrightarrow> usage_env_ok E \<Longrightarrow> openai_input_ok input \<Longrightarrow>
    usage_reach (snd (openAIRecordUsage E input w))"

lemma resolveChannelPricing_ok:
  assumes "priced_world_ok w" and "list_ok (xe_pricingService (ue_cost E))"
    and "resolveChannelPricing E m k w = (x, w1)"
  shows "priced_world_ok w1"
    and "x = Some r \<Longrightarrow> \<exists>base chp slot. resolves_to base chp (pw_prices w) slot r (pw_prices w1) \<and>
      (\<forall>ch. chp = Some ch \<longrightarrow> channel_pricing_ok ch) \<and> (\<forall>p. base = Some p \<longrightarrow> pricing_ok p)"
proof -
  have s: "prices_ok (pw_prices w)" "store_ok (pw_prices w)"
    using assms(1) by (simp_all add: priced_world_ok_def prices_ok_def)
  have "priced_world_ok w1 \<and> (x = Some r \<longrightarrow> (\<exists>base chp slot. resolves_to base chp (pw_prices w) slot r (pw_prices w1) \<and>
      (\<forall>ch. chp = Some ch \<longrightarrow> channel_pricing_ok ch) \<and> (\<forall>p. base = Some p \<longrightarrow> pricing_ok p)))"
  proof (cases "ue_hasResolver E \<and> ak_Group k \<noteq> None")
    case True
    then obtain g where g: "ak_Group k = Some g" by auto
    obtain q w2 where q: "Resolve (ue_cost E) (Some (gr_ID g)) m w = (q, w2)"
      by (cases "Resolve (ue_cost E) (Some (gr_ID g)) m w") auto
    have "w1 = w2" "x = Some r \<Longrightarrow> q = r"
      using assms(3) True g q by (auto simp: resolveChannelPricing_def split: if_splits)
    moreover have "\<exists>base chp slot. resolves_to base chp (pw_prices w) slot q (pw_prices w2) \<and>
        (\<forall>ch. chp = Some ch \<longrightarrow> channel_pricing_ok ch) \<and> (\<forall>p. base = Some p \<longrightarrow> pricing_ok p)"
      using Resolve_resolves [OF s(2) q] channelPriceFor_ok [OF assms(1)] base_ok [OF s(1) assms(2)] by blast
    ultimately show ?thesis using Resolve_ok [OF assms(1,2) q] by auto
  next
    case False
    then show ?thesis using assms(1,3) by (auto simp: resolveChannelPricing_def split: option.splits)
  qed
  then show "priced_world_ok w1"
    and "x = Some r \<Longrightarrow> \<exists>base chp slot. resolves_to base chp (pw_prices w) slot r (pw_prices w1) \<and>
      (\<forall>ch. chp = Some ch \<longrightarrow> channel_pricing_ok ch) \<and> (\<forall>p. base = Some p \<longrightarrow> pricing_ok p)"
    by auto
qed

lemma unified_of_resolved:
  assumes "priced_world_ok w" and "list_ok (xe_pricingService (ue_cost E))"
    and "resolveChannelPricing E m k w = (Some r, w1)" and "tokens_ok t"
    and "CalculateCostUnified (ue_cost E) (resolvedInput m k t rate r) w1 = (c, w2)"
  shows "priced_world_ok w2" and "c = Some b \<Longrightarrow> cost_ok b"
proof -
  obtain base chp slot where res: "resolves_to base chp (pw_prices w) slot r (pw_prices w1)"
    "\<And>ch. chp = Some ch \<Longrightarrow> channel_pricing_ok ch" "\<And>p. base = Some p \<Longrightarrow> pricing_ok p"
    using resolveChannelPricing_ok(2) [OF assms(1-3) refl] by blast
  have inp: "tokens_ok (ci_Tokens (resolvedInput m k t rate r))" "ci_HasResolver (resolvedInput m k t rate r)"
    "(case ci_Resolved (resolvedInput m k t rate r) of Some r \<Rightarrow> (r, w1)
      | None \<Rightarrow> Resolve (ue_cost E) (ci_GroupID (resolvedInput m k t rate r)) (ci_Model (resolvedInput m k t rate r)) w1) = (r, w1)"
    using assms(4) by (simp_all add: resolvedInput_def)
  note U = unified_resolved_ok [OF resolveChannelPricing_ok(1) [OF assms(1-3)] res inp assms(5)]
  show "priced_world_ok w2" and "c = Some b \<Longrightarrow> cost_ok b" using U by blast+
qed

lemma recordUsageCost_ok:
  assumes "priced_world_ok w" and "list_ok (xe_pricingService (ue_cost E))" and "usage_ok (fr_Usage result)"
    and "group_prices_ok k" and "calculateRecordUsageCost E result k m rate opts w = (c, w')"
  shows "priced_world_ok w'" and "cost_ok c"
proof -
  obtain x w1 where x: "resolveChannelPricing E m k w = (x, w1)" by (cases "resolveChannelPricing E m k w") auto
  note W = resolveChannelPricing_ok(1) [OF assms(1,2) x]
  have "priced_world_ok w' \<and> cost_ok c"
  proof (cases x)
    case (Some r)
    define t where "t = (if fr_ImageCount result > 0
        then zero_tokens\<lparr>ut_Input := cu_InputTokens (fr_Usage result), ut_Output := cu_OutputTokens (fr_Usage result),
               ut_ImageOutput := cu_ImageOutputTokens (fr_Usage result)\<rparr> else usageTokens (fr_Usage result))"
    have t: "tokens_ok t" using assms(3) by (auto simp: t_def usage_ok_def tokens_ok_def usageTokens_def zero_tokens_def)
    obtain d w2 where d: "CalculateCostUnified (ue_cost E) (resolvedInput m k t rate r) w1 = (d, w2)"
      by (cases "CalculateCostUnified (ue_cost E) (resolvedInput m k t rate r) w1") auto
    note U = unified_of_resolved [OF assms(1,2) x [unfolded Some] t d]
    have "w' = w2 \<and> c = (case d of None \<Rightarrow> zero_cost | Some c \<Rightarrow> c)"
      using assms(5) x Some d
      by (cases d) (auto simp: calculateRecordUsageCost_def calculateImageCost_def calculateTokenCost_def t_def Let_def split: if_splits)
    then show ?thesis using U by (cases d) auto
  next
    case None
    show ?thesis
    proof (cases "fr_ImageCount result > 0")
      case True
      have "image_config_ok (map_option (\<lambda>g. \<lparr>ip_Price1K = gr_ImagePrice1K g, ip_Price2K = gr_ImagePrice2K g,
          ip_Price4K = gr_ImagePrice4K g\<rparr>) (ak_Group k))"
        using assms(4) by (auto simp: image_config_ok_def group_prices_ok_def split: option.splits)
      then show ?thesis
        using assms(5) x None True W by (auto simp: calculateRecordUsageCost_def calculateImageCost_def intro: image_cost_ok)
    next
      case False
      let ?t = "usageTokens (fr_Usage result)"
      have s: "prices_ok (pw_prices w1)" and t: "tokens_ok ?t" using W assms(3) by (simp_all add: priced_world_ok_def usage_ok_def)
      note L = long_context_ok [OF s assms(2) t] and C = calculateCostInternal_ok [OF s assms(2) t]
      show ?thesis
        using assms(5) x None False W L C
        by (auto simp: calculateRecordUsageCost_def calculateTokenCost_def CalculateCost_def Let_def priced_world_ok_def
            split: prod.splits option.splits if_splits)
    qed
  qed
  then show "priced_world_ok w'" and "cost_ok c" by auto
qed

lemma openAICost_ok:
  assumes "priced_world_ok w" and "list_ok (xe_pricingService (ue_cost E))" and "tokens_ok (openAITokens r)"
    and "openAICost E r k m rate w = (c, w')"
  shows "priced_world_ok w'" and "cost_ok c"
proof -
  let ?t = "case of_ServiceTier r of None \<Rightarrow> '''' | Some t \<Rightarrow> trim_space t"
  have s: "prices_ok (pw_prices w)" using assms(1) by (simp add: priced_world_ok_def)
  have plain: "priced_world_ok (w\<lparr>pw_prices := s'\<rparr>) \<and> (\<forall>b. d = Some b \<longrightarrow> cost_ok b)"
    if "CalculateCostWithServiceTier (xe_pricingService (ue_cost E)) m (openAITokens r) rate ?t (pw_prices w) = (d, s')" for d s'
    using that calculateCostInternal_ok [OF s assms(2,3)] assms(1)
    by (auto simp: CalculateCostWithServiceTier_def priced_world_ok_def)
  have "priced_world_ok w' \<and> cost_ok c"
  proof (cases "ue_hasResolver E \<and> ak_Group k \<noteq> None")
    case True
    then obtain g where g: "ak_Group k = Some g" by auto
    let ?i = "\<lparr>ci_Model = m, ci_GroupID = Some (gr_ID g), ci_Tokens = openAITokens r, ci_RequestCount = 1, ci_SizeTier = '''',
        ci_RateMultiplier = rate, ci_ServiceTier = ?t, ci_HasResolver = True, ci_Resolved = None\<rparr>"
    obtain d w1 where d: "CalculateCostUnified (ue_cost E) ?i w = (d, w1)" by (cases "CalculateCostUnified (ue_cost E) ?i w") auto
    have "priced_world_ok w1" and "d = Some b \<Longrightarrow> cost_ok b" for b
      using unified_ok [OF assms(1,2) _ _ d] assms(3) by simp_all
    then show ?thesis
      using assms(4) True g d by (cases d) (auto simp: openAICost_def Let_def)
  next
    case False
    obtain d s' where d: "CalculateCostWithServiceTier (xe_pricingService (ue_cost E)) m (openAITokens r) rate ?t (pw_prices w) = (d, s')"
      by (cases "CalculateCostWithServiceTier (xe_pricingService (ue_cost E)) m (openAITokens r) rate ?t (pw_prices w)") auto
    then have "w' = w\<lparr>pw_prices := s'\<rparr> \<and> c = (case d of None \<Rightarrow> zero_cost | Some b \<Rightarrow> b)"
      using assms(4) False
      by (cases "ue_hasResolver E"; cases "ak_Group k"; cases "of_ServiceTier r") (auto simp: openAICost_def Let_def)
    then show ?thesis using plain [OF d] by (cases d) auto
  qed
  then show "priced_world_ok w'" and "cost_ok c" by auto
qed

text \<open>The cost that a usage log shows.\<close>

definition loggedCost :: "UsageLog \<Rightarrow> CostBreakdown" where
  "loggedCost l = zero_cost\<lparr>co_InputCost := ul_InputCost l, co_OutputCost := ul_OutputCost l,
     co_ImageOutputCost := ul_ImageOutputCost l, co_CacheCreationCost := ul_CacheCreationCost l,
     co_CacheReadCost := ul_CacheReadCost l, co_TotalCost := ul_TotalCost l, co_ActualCost := ul_ActualCost l\<rparr>"

lemma cost_ok_mode: "cost_ok (c\<lparr>co_BillingMode := m\<rparr>) = cost_ok c"
  by (simp add: cost_ok_def parts_def)

definition usage_sound :: "usage_world \<Rightarrow> bool" where
  "usage_sound w = (priced_world_ok (uw_pricing w) \<and> list_all (\<lambda>l. cost_ok (loggedCost l)) (uw_logs w))"

lemma usageLogFor_ok:
  assumes "priced_world_ok (uw_pricing w)" and "usage_env_ok E" and "usage_input_ok input"
    and "usageLogFor E input opts w = (log', cost, w1)"
  shows "priced_world_ok (uw_pricing w1)" and "cost_ok cost" and "loggedCost log' = cost\<lparr>co_BillingMode := ''''\<rparr>" and "uw_logs w1 = uw_logs w"
proof -
  let ?k = "ru_APIKey input"
  obtain v flag where v: "billedUsage (ru_ForceCacheBilling input) (ru_Account input) (fr_Usage (ru_Result input)) = (v, flag)"
    by (cases "billedUsage (ru_ForceCacheBilling input) (ru_Account input) (fr_Usage (ru_Result input))") auto
  let ?r = "(ru_Result input)\<lparr>fr_Usage := v\<rparr>"
  obtain rate rates where rate: "userRate E (ru_User input) ?k (uw_rates w) = (rate, rates)"
    by (cases "userRate E (ru_User input) ?k (uw_rates w)") auto
  obtain c p where c: "calculateRecordUsageCost E ?r ?k (billingModelOf ?r (ru_Channel input)) rate opts (uw_pricing w) = (c, p)"
    by (cases "calculateRecordUsageCost E ?r ?k (billingModelOf ?r (ru_Channel input)) rate opts (uw_pricing w)") auto
  have pre: "list_ok (xe_pricingService (ue_cost E))" "usage_ok (fr_Usage ?r)" "group_prices_ok ?k"
    using assms(2,3) billedUsage_ok [OF _ v] by (simp_all add: usage_env_ok_def usage_input_ok_def)
  note C = recordUsageCost_ok [OF assms(1) pre c]
  have "cost = c" "loggedCost log' = c\<lparr>co_BillingMode := ''''\<rparr>" "uw_pricing w1 = p" "uw_logs w1 = uw_logs w"
    using assms(4) v rate c by (auto simp: usageLogFor_def buildRecordUsageLog_def loggedCost_def zero_cost_def Let_def)
  then show "priced_world_ok (uw_pricing w1)" and "cost_ok cost" and "loggedCost log' = cost\<lparr>co_BillingMode := ''''\<rparr>" and "uw_logs w1 = uw_logs w" using C by simp_all
qed

lemma usage_reach_sound: "usage_reach w \<Longrightarrow> usage_sound w"
proof (induction rule: usage_reach.induct)
  case (usage_init cw)
  then show ?case
    by (simp add: usage_sound_def priced_world_ok_def prices_ok_init channel_reach_ok channel_reach_cache_ok)
next
  case (usage_channels w cw)
  then show ?case by (simp add: usage_sound_def priced_world_ok_def channel_reach_ok channel_reach_cache_ok)
next
  case (usage_record w E input opts)
  obtain log' cost w1 where l: "usageLogFor E input opts w = (log', cost, w1)" by (cases "usageLogFor E input opts w") auto
  note L = usageLogFor_ok [OF _ usage_record.hyps(2,3) l]
  show ?case using usage_record.IH L by (simp add: usage_sound_def recordUsageCore_def l cost_ok_mode)
next
  case (usage_openai w E input)
  obtain rate rates where rate: "userRate E (or_User input) (or_APIKey input) (uw_rates w) = (rate, rates)"
    by (cases "userRate E (or_User input) (or_APIKey input) (uw_rates w)") auto
  let ?m = "openAIBillingModel (or_Result input) (or_Channel input)"
  obtain c p where c: "openAICost E (or_Result input) (or_APIKey input) ?m rate (uw_pricing w) = (c, p)"
    by (cases "openAICost E (or_Result input) (or_APIKey input) ?m rate (uw_pricing w)") auto
  have pre: "list_ok (xe_pricingService (ue_cost E))" "tokens_ok (openAITokens (or_Result input))"
    using usage_openai.hyps by (simp_all add: usage_env_ok_def openai_input_ok_def tokens_ok_def openAITokens_def zero_tokens_def Let_def)
  show ?case
    using usage_openai.IH openAICost_ok(1) [OF _ pre c] rate c
    by (simp add: usage_sound_def openAIRecordUsage_def Let_def)
qed

section \<open>Charges\<close>

lemma charge_published:
  assumes "publishUsageCharge sha now uuid publisher ctx input l (Some cost) u k a s service = (None, evs)"
  shows "\<exists>ev. evs = [ev]"
  using assms
  by (auto simp: publishUsageCharge_def buildUsageBillingCommand_def publishEvent_def Let_def split: option.splits if_splits)


definition doubleGroup :: Group where
  "doubleGroup = privateGroup\<lparr>gr_ID := 7, gr_Platform := ''openai'', gr_RateMultiplier := 2, gr_SubscriptionType := ''standard''\<rparr>"

definition demo_rates :: rate_env where
  "demo_rates = \<lparr>re_now = 0, re_hasRepo = False, re_repo = (\<lambda>_ _. None), re_ttl = 0\<rparr>"

definition demo_usage_env :: usage_env where
  "demo_usage_env = \<lparr>ue_cost = demo_cost_env, ue_hasResolver = True, ue_defaultRate = None, ue_simpleMode = False,
     ue_rates = demo_rates, ue_now = 0, ue_uuid = ''e'', ue_generated = ''g'', ue_sha = (\<lambda>s. s),
     ue_publisher = Some (\<lambda>_. True), ue_ctx = None\<rparr>"

definition demo_record :: recordUsageInput where
  "demo_record = \<lparr>ru_Result = \<lparr>fr_RequestID = ''r'', fr_Usage = demo_usage\<lparr>cu_OutputTokens := 0, cu_CacheCreationInputTokens := 0,
       cu_CacheReadInputTokens := 0\<rparr>, fr_Model = ''gpt-5-mini'', fr_UpstreamModel = [], fr_Stream = True, fr_DurationMs = 9,
       fr_FirstTokenMs = None, fr_ReasoningEffort = None, fr_ImageCount = 0, fr_ImageSize = []\<rparr>,
     ru_APIKey = billedKey\<lparr>ak_GroupID := Some 7, ak_Group := Some doubleGroup\<rparr>, ru_User = billedUser, ru_Account = billedAccount,
     ru_Subscription = None, ru_Charge = \<lparr>ri_BillingRequestID = [], ri_BillingEventKind = [], ri_RequestPayloadHash = []\<rparr>,
     ru_InboundEndpoint = [], ru_UpstreamEndpoint = [], ru_UserAgent = [], ru_IPAddress = [], ru_ForceCacheBilling = False,
     ru_HasAPIKeyService = True,
     ru_Channel = \<lparr>uf_ChannelID = 1, uf_OriginalModel = [], uf_ChannelMappedModel = [], uf_BillingModelSource = [],
       uf_ModelMappingChain = []\<rparr>\<rparr>"

definition demo_usage_world :: usage_world where
  "demo_usage_world = \<lparr>uw_pricing = demo_pricing_world, uw_rates = (\<lambda>_. None), uw_logs = []\<rparr>"

definition noLongContext :: recordUsageOpts where
  "noLongContext = \<lparr>ro_LongContextThreshold = 0, ro_LongContextMultiplier = 0\<rparr>"

lemma demo_usage_reach: "usage_reach demo_usage_world"
  unfolding demo_usage_world_def demo_pricing_world_def by (rule usage_init [OF demo_reach])

lemma publishes:
  "publisher = Some (\<lambda>_. True) \<Longrightarrow> fst (publishUsageCharge sha now uuid publisher ctx input l (Some cost) u k a s service) = None"
  by (simp add: publishUsageCharge_def buildUsageBillingCommand_def publishEvent_def Let_def)

lemma record_publishes: "ue_publisher E = Some (\<lambda>_. True) \<Longrightarrow> fst (fst (recordUsageCore E input opts w)) = None"
  by (cases "usageLogFor E input opts w") (simp add: recordUsageCore_def publishes)


section \<open>Where charging falls short\<close>

text \<open>The surcharge on long contexts is in the actual cost only, which a subscription is not charged.\<close>

lemma surcharge_spares_subscriptions:
  assumes "store_ok s" and "basePrice L s model = Some p" and "no_session_surcharge p"
    and "0 < threshold" "1 < extra" "0 \<le> ut_Input t" "ut_CacheRead t + ut_Input t > threshold"
    and "CalculateCost L model t rate s = (Some plain, s1)"
    and "CalculateCostWithLongContext L model t rate threshold extra s = (Some long, s2)"
    and "pp_Subscription q = Some sub" and "pp_IsSubscriptionBill q" and "co_TotalCost plain > 0"
  shows "SubscriptionCost (commandCosts q long k a cmd) = SubscriptionCost (commandCosts q plain k a cmd)"
  using long_context_costs [OF assms(1-9)] assms(10-12) by (simp add: commandCosts_def Let_def)

text \<open>In simple mode the general service publishes nothing; the OpenAI service does not look at the mode.\<close>

lemma simple_mode_differs:
  "ue_simpleMode E \<Longrightarrow> snd (fst (recordUsageCore E input opts w)) = []"
  "openAIRecordUsage (E\<lparr>ue_simpleMode := True\<rparr>) input' w = openAIRecordUsage (E\<lparr>ue_simpleMode := False\<rparr>) input' w"
proof -
  show "ue_simpleMode E \<Longrightarrow> snd (fst (recordUsageCore E input opts w)) = []"
    by (simp add: recordUsageCore_def split: prod.splits)
  show "openAIRecordUsage (E\<lparr>ue_simpleMode := True\<rparr>) input' w = openAIRecordUsage (E\<lparr>ue_simpleMode := False\<rparr>) input' w"
    by (cases E, hypsubst, unfold openAIRecordUsage_def openAICost_def userRate_def openAIUsageLog_def
        usage_env.select_convs usage_env.update_convs, rule refl)
qed

text \<open>A channel that bills by the upstream model is billed by the model of the result instead.\<close>

lemma upstream_source_not_billed:
  "uf_BillingModelSource ch = BillingModelSourceUpstream \<Longrightarrow> trim_space (fr_Model r) \<noteq> [] \<Longrightarrow>
   billingModelOf r ch = trim_space (fr_Model r)"
  by (simp add: billingModelOf_def forwardResultBillingModel_def BillingModelSourceUpstream_def
      BillingModelSourceRequested_def BillingModelSourceChannelMapped_def)

text \<open>With prices of a channel neither the number nor the size of images counts.\<close>

lemma channel_images_uncounted:
  assumes "resolveChannelPricing E m k w = (Some p, w1)"
  shows "calculateImageCost E (r\<lparr>fr_ImageCount := n, fr_ImageSize := size'\<rparr>) k m rate w = calculateImageCost E r k m rate w"
  using assms by (simp add: calculateImageCost_def)

end
