(* ===== verification/Account_State.thy ===== *)
theory Account_State
  imports Account Go_Json
begin

text \<open>
  The stored state of upstream accounts: the statements of \<open>internal/repository/account_repo.go\<close> that
  mark an account as failed, limited, overloaded or paused and that clear such marks, the cache of pauses
  (\<open>internal/repository/temp_unsched_cache.go\<close>) and the counter of stream timeouts
  (\<open>internal/repository/timeout_counter_cache.go\<close>).  A statement that fails has no effect; the rows are
  those of accounts that are not deleted; times keep their nanoseconds.  The copy of an account that the
  scheduler keeps is refreshed from the row and not represented.
\<close>

section \<open>Rows\<close>

record AccountRow =
  row_acc :: Account
  row_ErrorMessage :: gostr
  row_RateLimitedAt :: "time option"
  row_TempReason :: gostr
  row_SessionWindowStatus :: gostr

record TempUnschedState =
  tu_UntilUnix :: int64
  tu_TriggeredAtUnix :: int64
  tu_StatusCode :: int
  tu_MatchedKeyword :: gostr
  tu_RuleIndex :: int
  tu_ErrorMessage :: gostr

definition marshalTempUnschedState :: "TempUnschedState \<Rightarrow> gostr" where
  "marshalTempUnschedState s = enc_object
     [(''until_unix'', format_int (tu_UntilUnix s)), (''triggered_at_unix'', format_int (tu_TriggeredAtUnix s)),
      (''status_code'', format_int (tu_StatusCode s)), (''matched_keyword'', enc_string (tu_MatchedKeyword s)),
      (''rule_index'', format_int (tu_RuleIndex s)), (''error_message'', enc_string (tu_ErrorMessage s))]"

datatype account_call =
    CallGetByID | CallSetError | CallClearError | CallSetRateLimited | CallSetOverloaded | CallSetTempUnsched
  | CallClearTempUnsched | CallClearRateLimit | CallClearQuotaScopes | CallClearModelLimits | CallSessionWindow
  | CallUpdateExtra | CallUpdateCredentials | CallCacheSet | CallCacheGet | CallCacheDelete | CallCount | CallResetCount
  | CallInvalidateToken

text \<open>A cached pause has the instant at which it expires, a counter the end of its window.\<close>

record account_world =
  aw_rows :: "int64 \<Rightarrow> AccountRow option"
  aw_outbox :: "int64 list"
  aw_pauses :: "int64 \<Rightarrow> (TempUnschedState \<times> time) option"
  aw_timeouts :: "int64 \<Rightarrow> (int \<times> time) option"
  aw_tokensDropped :: "int64 list"

type_synonym faults = "account_call \<Rightarrow> bool"

section \<open>Statements on a row\<close>

text \<open>
  \<open>Update().Where(id)\<close> succeeds without a row; the raw statements that count the rows they affect report
  a missing account.  Both put the account into the scheduler's outbox.
\<close>

definition updateRow :: "bool \<Rightarrow> int64 \<Rightarrow> (AccountRow \<Rightarrow> AccountRow) \<Rightarrow> account_world \<Rightarrow> bool \<times> account_world" where
  "updateRow failed i f w =
     (if failed then (False, w)
      else (True, w\<lparr>aw_rows := (aw_rows w)(i := map_option f (aw_rows w i)), aw_outbox := aw_outbox w @ [i]\<rparr>))"

definition updateExisting :: "bool \<Rightarrow> int64 \<Rightarrow> (AccountRow \<Rightarrow> AccountRow) \<Rightarrow> account_world \<Rightarrow> bool \<times> account_world" where
  "updateExisting failed i f w = (if aw_rows w i = None then (False, w) else updateRow failed i f w)"

abbreviation on_account :: "(Account \<Rightarrow> Account) \<Rightarrow> AccountRow \<Rightarrow> AccountRow" where
  "on_account f r \<equiv> r\<lparr>row_acc := f (row_acc r)\<rparr>"

definition getByID :: "faults \<Rightarrow> int64 \<Rightarrow> account_world \<Rightarrow> AccountRow option" where
  "getByID fault i w = (if fault CallGetByID then None else aw_rows w i)"

definition SetError :: "faults \<Rightarrow> int64 \<Rightarrow> gostr \<Rightarrow> account_world \<Rightarrow> bool \<times> account_world" where
  "SetError fault i msg = updateRow (fault CallSetError) i
     (\<lambda>r. (on_account (\<lambda>a. a\<lparr>act_Status := StatusError\<rparr>) r)\<lparr>row_ErrorMessage := msg\<rparr>)"

definition ClearError :: "faults \<Rightarrow> int64 \<Rightarrow> account_world \<Rightarrow> bool \<times> account_world" where
  "ClearError fault i = updateRow (fault CallClearError) i
     (\<lambda>r. (on_account (\<lambda>a. a\<lparr>act_Status := StatusActive\<rparr>) r)\<lparr>row_ErrorMessage := []\<rparr>)"

definition SetRateLimited :: "faults \<Rightarrow> time \<Rightarrow> int64 \<Rightarrow> time \<Rightarrow> account_world \<Rightarrow> bool \<times> account_world" where
  "SetRateLimited fault now i resetAt = updateRow (fault CallSetRateLimited) i
     (\<lambda>r. (on_account (\<lambda>a. a\<lparr>act_RateLimitResetAt := Some resetAt\<rparr>) r)\<lparr>row_RateLimitedAt := Some now\<rparr>)"

definition SetOverloaded :: "faults \<Rightarrow> int64 \<Rightarrow> time \<Rightarrow> account_world \<Rightarrow> bool \<times> account_world" where
  "SetOverloaded fault i until = updateRow (fault CallSetOverloaded) i
     (on_account (\<lambda>a. a\<lparr>act_OverloadUntil := Some until\<rparr>))"

text \<open>A pause is only ever extended.\<close>

definition pauseRow :: "time \<Rightarrow> gostr \<Rightarrow> AccountRow \<Rightarrow> AccountRow" where
  "pauseRow until reason r =
     (case act_TempUnschedulableUntil (row_acc r) of
        Some t \<Rightarrow> if t < until
                  then (on_account (\<lambda>a. a\<lparr>act_TempUnschedulableUntil := Some until\<rparr>) r)\<lparr>row_TempReason := reason\<rparr> else r
      | None \<Rightarrow> (on_account (\<lambda>a. a\<lparr>act_TempUnschedulableUntil := Some until\<rparr>) r)\<lparr>row_TempReason := reason\<rparr>)"

definition SetTempUnschedulable :: "faults \<Rightarrow> int64 \<Rightarrow> time \<Rightarrow> gostr \<Rightarrow> account_world \<Rightarrow> bool \<times> account_world" where
  "SetTempUnschedulable fault i until reason = updateRow (fault CallSetTempUnsched) i (pauseRow until reason)"

definition repoClearTempUnschedulable :: "faults \<Rightarrow> int64 \<Rightarrow> account_world \<Rightarrow> bool \<times> account_world" where
  "repoClearTempUnschedulable fault i = updateRow (fault CallClearTempUnsched) i
     (\<lambda>r. (on_account (\<lambda>a. a\<lparr>act_TempUnschedulableUntil := None\<rparr>) r)\<lparr>row_TempReason := []\<rparr>)"

definition repoClearRateLimit :: "faults \<Rightarrow> int64 \<Rightarrow> account_world \<Rightarrow> bool \<times> account_world" where
  "repoClearRateLimit fault i = updateRow (fault CallClearRateLimit) i
     (\<lambda>r. (on_account (\<lambda>a. a\<lparr>act_RateLimitResetAt := None, act_OverloadUntil := None\<rparr>) r)\<lparr>row_RateLimitedAt := None\<rparr>)"

text \<open>The JSON column \<open>extra\<close>: \<open>||\<close> puts members in, \<open>-\<close> takes one out; no column is an empty object.\<close>

definition mergeExtra :: "gomap \<Rightarrow> gomap option \<Rightarrow> gomap option" where
  "mergeExtra updates extra =
     Some (updates @ filter (\<lambda>(k, _). k \<notin> fst ` set updates) (case extra of None \<Rightarrow> [] | Some m \<Rightarrow> m))"

definition dropExtra :: "gostr \<Rightarrow> gomap option \<Rightarrow> gomap option" where
  "dropExtra key extra = Some (filter (\<lambda>(k, _). k \<noteq> key) (case extra of None \<Rightarrow> [] | Some m \<Rightarrow> m))"

definition ClearAntigravityQuotaScopes :: "faults \<Rightarrow> int64 \<Rightarrow> account_world \<Rightarrow> bool \<times> account_world" where
  "ClearAntigravityQuotaScopes fault i = updateExisting (fault CallClearQuotaScopes) i
     (on_account (\<lambda>a. a\<lparr>act_Extra := dropExtra ''antigravity_quota_scopes'' (act_Extra a)\<rparr>))"

definition ClearModelRateLimits :: "faults \<Rightarrow> int64 \<Rightarrow> account_world \<Rightarrow> bool \<times> account_world" where
  "ClearModelRateLimits fault i = updateExisting (fault CallClearModelLimits) i
     (on_account (\<lambda>a. a\<lparr>act_Extra := dropExtra ''model_rate_limits'' (act_Extra a)\<rparr>))"

definition schedulerNeutralExtraKeys :: "gostr list" where
  "schedulerNeutralExtraKeys = [''codex_usage_updated_at'', ''session_window_utilization'']"

definition schedulerNeutralExtraKeyPrefixes :: "gostr list" where
  "schedulerNeutralExtraKeyPrefixes =
     [''codex_primary_'', ''codex_secondary_'', ''codex_5h_'', ''codex_7d_'', ''passive_usage_'']"

definition isSchedulerNeutralExtraKey :: "gostr \<Rightarrow> bool" where
  "isSchedulerNeutralExtraKey key =
     (trim_space key \<in> set schedulerNeutralExtraKeys \<or>
      list_ex (has_prefix (trim_space key)) schedulerNeutralExtraKeyPrefixes)"

text \<open>Samples of usage do not concern the scheduler.\<close>

definition repoUpdateExtra :: "faults \<Rightarrow> int64 \<Rightarrow> gomap \<Rightarrow> account_world \<Rightarrow> bool \<times> account_world" where
  "repoUpdateExtra fault i updates w =
     (if updates = [] then (True, w)
      else if fault CallUpdateExtra \<or> aw_rows w i = None then (False, w)
      else (True, w\<lparr>aw_rows := (aw_rows w)(i := map_option
                         (on_account (\<lambda>a. a\<lparr>act_Extra := mergeExtra updates (act_Extra a)\<rparr>)) (aw_rows w i)),
                     aw_outbox := aw_outbox w @
                       (if list_all (\<lambda>(k, _). isSchedulerNeutralExtraKey k) updates then [] else [i])\<rparr>))"

definition windowRow :: "time option \<Rightarrow> time option \<Rightarrow> gostr \<Rightarrow> AccountRow \<Rightarrow> AccountRow" where
  "windowRow start end' status r =
     (on_account (\<lambda>a. a\<lparr>act_SessionWindowStart := (case start of None \<Rightarrow> act_SessionWindowStart a | Some t \<Rightarrow> Some t),
                        act_SessionWindowEnd := (case end' of None \<Rightarrow> act_SessionWindowEnd a | Some t \<Rightarrow> Some t)\<rparr>) r)
     \<lparr>row_SessionWindowStatus := status\<rparr>"

definition repoUpdateSessionWindow :: "faults \<Rightarrow> int64 \<Rightarrow> time option \<Rightarrow> time option \<Rightarrow> gostr \<Rightarrow> account_world \<Rightarrow> bool \<times> account_world" where
  "repoUpdateSessionWindow fault i start end' status w =
     (if fault CallSessionWindow then (False, w)
      else (True, w\<lparr>aw_rows := (aw_rows w)(i := map_option (windowRow start end' status) (aw_rows w i)),
                    aw_outbox := aw_outbox w @ (if start \<noteq> None \<or> end' \<noteq> None then [i] else [])\<rparr>))"

text \<open>The credentials are replaced as a whole; there is no outbox entry.\<close>

definition UpdateCredentials :: "faults \<Rightarrow> int64 \<Rightarrow> gomap \<Rightarrow> account_world \<Rightarrow> bool \<times> account_world" where
  "UpdateCredentials fault i credentials w =
     (if fault CallUpdateCredentials then (False, w)
      else case aw_rows w i of
             None \<Rightarrow> (False, w)
           | Some r \<Rightarrow> (True, w\<lparr>aw_rows := (aw_rows w)(i \<mapsto> on_account (\<lambda>a. a\<lparr>act_Credentials := Some credentials\<rparr>) r)\<rparr>))"

section \<open>Pauses and timeouts in Redis\<close>

definition pauseAlive :: "time \<Rightarrow> int64 \<Rightarrow> account_world \<Rightarrow> TempUnschedState option" where
  "pauseAlive now i w =
     (case aw_pauses w i of None \<Rightarrow> None | Some (s, expires) \<Rightarrow> if now < expires then Some s else None)"

text \<open>The script keeps a cached pause that ends later.  Lifetimes are whole seconds.\<close>

definition SetTempUnsched :: "faults \<Rightarrow> time \<Rightarrow> int64 \<Rightarrow> TempUnschedState \<Rightarrow> account_world \<Rightarrow> bool \<times> account_world" where
  "SetTempUnsched fault now i s w =
     (let ttl = tu_UntilUnix s * second - now
      in if ttl \<le> 0 then (True, w)
         else if fault CallCacheSet then (False, w)
         else if (case pauseAlive now i w of None \<Rightarrow> False | Some old \<Rightarrow> tu_UntilUnix s \<le> tu_UntilUnix old) then (True, w)
         else (True, w\<lparr>aw_pauses := (aw_pauses w)(i \<mapsto> (s, now + max 1 (ttl div second) * second))\<rparr>))"

definition GetTempUnsched :: "faults \<Rightarrow> time \<Rightarrow> int64 \<Rightarrow> account_world \<Rightarrow> TempUnschedState option option" where
  "GetTempUnsched fault now i w = (if fault CallCacheGet then None else Some (pauseAlive now i w))"

definition DeleteTempUnsched :: "faults \<Rightarrow> int64 \<Rightarrow> account_world \<Rightarrow> bool \<times> account_world" where
  "DeleteTempUnsched fault i w =
     (if fault CallCacheDelete then (False, w) else (True, w\<lparr>aw_pauses := (aw_pauses w)(i := None)\<rparr>))"

definition timeoutsAlive :: "time \<Rightarrow> int64 \<Rightarrow> account_world \<Rightarrow> (int \<times> time) option" where
  "timeoutsAlive now i w =
     (case aw_timeouts w i of None \<Rightarrow> None | Some (n, expires) \<Rightarrow> if now < expires then Some (n, expires) else None)"

definition IncrementTimeoutCount :: "faults \<Rightarrow> time \<Rightarrow> int64 \<Rightarrow> int \<Rightarrow> account_world \<Rightarrow> int option \<times> account_world" where
  "IncrementTimeoutCount fault now i windowMinutes w =
     (if fault CallCount then (None, w)
      else case timeoutsAlive now i w of
             Some (n, expires) \<Rightarrow> (Some (n + 1), w\<lparr>aw_timeouts := (aw_timeouts w)(i \<mapsto> (n + 1, expires))\<rparr>)
           | None \<Rightarrow> (Some 1, w\<lparr>aw_timeouts := (aw_timeouts w)(i \<mapsto> (1, now + max 60 (windowMinutes * 60) * second))\<rparr>))"

definition GetTimeoutCount :: "faults \<Rightarrow> time \<Rightarrow> int64 \<Rightarrow> account_world \<Rightarrow> int option" where
  "GetTimeoutCount fault now i w =
     (if fault CallCount then None else Some (case timeoutsAlive now i w of None \<Rightarrow> 0 | Some (n, _) \<Rightarrow> n))"

definition ResetTimeoutCount :: "faults \<Rightarrow> int64 \<Rightarrow> account_world \<Rightarrow> bool \<times> account_world" where
  "ResetTimeoutCount fault i w =
     (if fault CallResetCount then (False, w) else (True, w\<lparr>aw_timeouts := (aw_timeouts w)(i := None)\<rparr>))"

section \<open>What the statements change\<close>

text \<open>The row of one account as a function of the row before; other rows never change.\<close>

lemma updateRow_rows:
  "aw_rows (snd (updateRow failed i f w)) = (if failed then aw_rows w else (aw_rows w)(i := map_option f (aw_rows w i)))"
  by (simp add: updateRow_def)

lemma updateRow_ok [simp]: "fst (updateRow failed i f w) = (\<not> failed)"
  by (simp add: updateRow_def)

lemma updateExisting_rows:
  "aw_rows (snd (updateExisting failed i f w)) = (if failed then aw_rows w else (aw_rows w)(i := map_option f (aw_rows w i)))"
  by (auto simp: updateExisting_def updateRow_rows)

lemmas statement_defs = SetError_def ClearError_def SetRateLimited_def SetOverloaded_def SetTempUnschedulable_def
  repoClearTempUnschedulable_def repoClearRateLimit_def ClearAntigravityQuotaScopes_def ClearModelRateLimits_def

lemma cache_rows [simp]:
  "aw_rows (snd (SetTempUnsched fault now i s w)) = aw_rows w"
  "aw_rows (snd (DeleteTempUnsched fault i w)) = aw_rows w"
  "aw_rows (snd (IncrementTimeoutCount fault now i m w)) = aw_rows w"
  "aw_rows (snd (ResetTimeoutCount fault i w)) = aw_rows w"
  by (simp_all add: SetTempUnsched_def DeleteTempUnsched_def IncrementTimeoutCount_def ResetTimeoutCount_def Let_def
      split: option.splits)

lemma repoUpdateExtra_rows:
  "aw_rows (snd (repoUpdateExtra fault i u w)) =
     (if fault CallUpdateExtra \<or> u = [] then aw_rows w
      else (aw_rows w)(i := map_option (on_account (\<lambda>a. a\<lparr>act_Extra := mergeExtra u (act_Extra a)\<rparr>)) (aw_rows w i)))"
  by (auto simp: repoUpdateExtra_def)

end
