(* ===== verification/Upstream_Message.thy ===== *)
theory Upstream_Message
  imports Go_Strings Go_Values
begin

text \<open>
  What the gateway reads out of an upstream's error body: messages and codes (\<open>extractUpstreamErrorMessage\<close>
  and \<open>extractUpstreamErrorCode\<close> in \<open>internal/service/gateway_service.go\<close>), their sanitising, the kind of a
  403 of Antigravity (\<open>internal/service/antigravity_quota_fetcher.go\<close>) and the reset times that Gemini
  announces (\<open>internal/service/gemini_messages_compat_service.go\<close>).  The package \<open>gjson\<close> is not part of the
  repository: \<open>gjson body path\<close> is the string that \<open>gjson.Get(body, path).String()\<close> returns, \<open>gjsonEach\<close>
  the strings at a path in the elements of an array.
\<close>

section \<open>Messages and codes\<close>

definition upto_last :: "char \<Rightarrow> gostr \<Rightarrow> gostr option" where
  "upto_last c s = (if c \<in> set s then Some (rev (dropWhile (\<lambda>d. d \<noteq> c) (rev s))) else None)"

definition extractUpstreamErrorMessage :: "(gostr \<Rightarrow> gostr \<Rightarrow> gostr) \<Rightarrow> gostr \<Rightarrow> gostr" where
  "extractUpstreamErrorMessage gjson body =
     (let m = gjson body ''error.message''
      in if trim_space m \<noteq> ''''
         then (let inner = trim_space m
               in if has_prefix inner ''{'' \<and> trim_space (gjson inner ''error.message'') \<noteq> ''''
                  then gjson inner ''error.message'' else m)
         else if trim_space (gjson body ''detail'') \<noteq> '''' then gjson body ''detail''
         else gjson body ''message'')"

definition extractUpstreamErrorCode :: "(gostr \<Rightarrow> gostr \<Rightarrow> gostr) \<Rightarrow> gostr \<Rightarrow> gostr" where
  "extractUpstreamErrorCode gjson body =
     (let code = trim_space (gjson body ''error.code'')
      in if code \<noteq> '''' then code
         else let inner = trim_space (gjson body ''error.message'')
              in if \<not> has_prefix inner ''{'' then ''''
                 else let code1 = trim_space (gjson inner ''error.code'')
                      in if code1 \<noteq> '''' then code1
                         else (case upto_last (CHR ''}'') inner of
                                 None \<Rightarrow> ''''
                               | Some s \<Rightarrow> trim_space (gjson s ''error.code'')))"

text \<open>The value of a query parameter that holds a secret is replaced by three stars.\<close>

definition value_end :: "char \<Rightarrow> bool" where
  "value_end c = (c \<in> {CHR ''&'', CHR 0x22, CHR '' '', CHR 0x09, CHR 0x0A, CHR 0x0C, CHR 0x0D})"

definition secret_param :: "gostr \<Rightarrow> gostr option" where
  "secret_param s =
     (case s of
        [] \<Rightarrow> None
      | c # t \<Rightarrow>
          if c \<noteq> CHR ''?'' \<and> c \<noteq> CHR ''&'' then None
          else (case find (\<lambda>k. has_prefix (to_lower t) (k @ ''='')) [''key'', ''client_secret'', ''access_token'', ''refresh_token''] of
                  None \<Rightarrow> None
                | Some k \<Rightarrow> (case drop (length k + 1) t of
                               [] \<Rightarrow> None
                             | d # _ \<Rightarrow> if value_end d then None else Some (take (length k + 2) s))))"

function sanitizeUpstreamErrorMessage :: "gostr \<Rightarrow> gostr" where
  "sanitizeUpstreamErrorMessage s =
     (case s of
        [] \<Rightarrow> []
      | c # t \<Rightarrow>
          (case secret_param s of
             None \<Rightarrow> c # sanitizeUpstreamErrorMessage t
           | Some p \<Rightarrow> p @ ''***'' @ sanitizeUpstreamErrorMessage (dropWhile (\<lambda>d. \<not> value_end d) (drop (length p - 1) t))))"
  by pat_completeness auto
termination
proof (relation "measure length", goal_cases)
  case (3 s c t p)
  have "length (dropWhile (\<lambda>d. \<not> value_end d) (drop (length p - 1) t)) \<le> length t"
    using length_dropWhile_le [of "\<lambda>d. \<not> value_end d" "drop (length p - 1) t"] by simp
  with 3 show ?case by simp
qed auto

declare sanitizeUpstreamErrorMessage.simps [simp del]

definition truncateForLog :: "gostr \<Rightarrow> int \<Rightarrow> gostr" where
  "truncateForLog b maxBytes =
     (let n = (if maxBytes \<le> 0 then 2048 else nat maxBytes)
      in concat (map (\<lambda>c. if c = CHR 0x0A then [CHR 0x5C, CHR ''n''] else if c = CHR 0x0D then [CHR 0x5C, CHR ''r''] else [c])
           (take n b)))"

section \<open>The 403 of Antigravity\<close>

definition forbiddenTypeValidation :: gostr where "forbiddenTypeValidation = ''validation''"
definition forbiddenTypeViolation :: gostr where "forbiddenTypeViolation = ''violation''"
definition forbiddenTypeForbidden :: gostr where "forbiddenTypeForbidden = ''forbidden''"

definition classifyForbiddenType :: "gostr \<Rightarrow> gostr" where
  "classifyForbiddenType body =
     (let l = to_lower body
      in if contains l ''validation_required'' \<or> contains l ''verify your account'' \<or> contains l ''validation_url''
         then forbiddenTypeValidation
         else if contains l ''terms of service'' \<or> contains l ''violation'' then forbiddenTypeViolation
         else forbiddenTypeForbidden)"

text \<open>
  The struct \<open>error.details[].metadata\<close> of strings; \<open>None\<close> where the decoder reports a mismatch.  Field
  names are compared without case; the keys of the metadata are exact.
\<close>

definition field_ci :: "gostr \<Rightarrow> gomap \<Rightarrow> goany" where
  "field_ci k m = (case find (\<lambda>(j, _). equal_fold j k) (rev m) of None \<Rightarrow> GNil | Some (_, v) \<Rightarrow> v)"

fun object_of :: "goany \<Rightarrow> gomap option" where
  "object_of GNil = Some []"
| "object_of (GObject m) = Some m"
| "object_of _ = None"

fun list_of_any :: "goany \<Rightarrow> goany list option" where
  "list_of_any GNil = Some []"
| "list_of_any (GList vs) = Some vs"
| "list_of_any _ = None"

fun string_map :: "gomap \<Rightarrow> (gostr \<times> gostr) list option" where
  "string_map [] = Some []"
| "string_map ((k, GString s) # m) = map_option ((#) (k, s)) (string_map m)"
| "string_map ((k, GNil) # m) = map_option ((#) (k, [])) (string_map m)"
| "string_map _ = None"

fun metadata_of :: "goany list \<Rightarrow> (gostr \<times> gostr) list list option" where
  "metadata_of [] = Some []"
| "metadata_of (d # ds) =
     (case object_of d of
        None \<Rightarrow> None
      | Some m \<Rightarrow>
          (case object_of (field_ci ''metadata'' m) of
             None \<Rightarrow> None
           | Some md \<Rightarrow> (case (string_map md, metadata_of ds) of (Some x, Some xs) \<Rightarrow> Some (x # xs) | _ \<Rightarrow> None)))"

definition errorDetails :: "goany option \<Rightarrow> (gostr \<times> gostr) list list option" where
  "errorDetails parsed =
     (case parsed of
        None \<Rightarrow> None
      | Some v \<Rightarrow>
          (case object_of v of
             None \<Rightarrow> None
           | Some m \<Rightarrow>
               (case object_of (field_ci ''error'' m) of
                  None \<Rightarrow> None
                | Some e \<Rightarrow> (case list_of_any (field_ci ''details'' e) of None \<Rightarrow> None | Some ds \<Rightarrow> metadata_of ds))))"

definition string_at :: "(gostr \<times> gostr) list \<Rightarrow> gostr \<Rightarrow> gostr" where
  "string_at m k = (case map_of m k of None \<Rightarrow> [] | Some s \<Rightarrow> s)"

fun firstURL :: "(gostr \<times> gostr) list list \<Rightarrow> gostr" where
  "firstURL [] = []"
| "firstURL (m # ms) =
     (if string_at m ''validation_url'' \<noteq> [] then string_at m ''validation_url''
      else if string_at m ''appeal_url'' \<noteq> [] then string_at m ''appeal_url''
      else firstURL ms)"

definition url_char :: "char \<Rightarrow> bool" where
  "url_char c = (c \<notin> {CHR '' '', CHR 0x09, CHR 0x0A, CHR 0x0C, CHR 0x0D, CHR 0x22, CHR 0x27, CHR 0x5C})"

fun findURL :: "gostr \<Rightarrow> gostr" where
  "findURL [] = []"
| "findURL (c # s) =
     (let rest = drop 8 (c # s)
      in if has_prefix (c # s) ''https://'' \<and> takeWhile url_char rest \<noteq> []
         then ''https://'' @ takeWhile url_char rest else findURL s)"

definition extractValidationURL :: "(gostr \<Rightarrow> goany option) \<Rightarrow> gostr \<Rightarrow> gostr" where
  "extractValidationURL json body =
     (let structured = (case errorDetails (json body) of None \<Rightarrow> [] | Some ms \<Rightarrow> firstURL ms);
          l = to_lower body
      in if structured \<noteq> [] then structured
         else if \<not> contains l ''validation'' \<and> \<not> contains l ''verify'' \<and> \<not> contains l ''appeal'' then []
         else findURL (replace_all (CHR 0x5C # ''u0026'') ''&'' body))"

section \<open>Durations\<close>

text \<open>\<open>time.ParseDuration\<close>: decimal numbers with units, in nanoseconds.\<close>

definition duration_unit :: "gostr \<Rightarrow> int option" where
  "duration_unit u =
     (if u = ''ns'' then Some 1
      else if u \<in> {''us'', [CHR 0xC2, CHR 0xB5, CHR ''s''], [CHR 0xCE, CHR 0xBC, CHR ''s'']} then Some 1000
      else if u = ''ms'' then Some 1000000
      else if u = ''s'' then Some second
      else if u = ''m'' then Some minute
      else if u = ''h'' then Some hour else None)"

function duration_sum :: "gostr \<Rightarrow> int option" where
  "duration_sum s =
     (if s = [] then Some 0
      else let ip = takeWhile is_digit s; r1 = dropWhile is_digit s;
               (fp, r2) = (case r1 of
                   c # t \<Rightarrow> if c = CHR ''.'' then (takeWhile is_digit t, dropWhile is_digit t) else ([], r1)
                 | [] \<Rightarrow> ([], []));
               u = takeWhile (\<lambda>c. c \<noteq> CHR ''.'' \<and> \<not> is_digit c) r2;
               r3 = dropWhile (\<lambda>c. c \<noteq> CHR ''.'' \<and> \<not> is_digit c) r2
           in if (ip = [] \<and> fp = []) \<or> length r3 \<ge> length s then None
              else (case (duration_unit u, duration_sum r3) of
                      (Some n, Some rest) \<Rightarrow> Some (dec_value ip * n + dec_value fp * n div 10 ^ length fp + rest)
                    | _ \<Rightarrow> None))"
  by pat_completeness auto
termination by (relation "measure length") auto

declare duration_sum.simps [simp del]

definition parse_duration :: "gostr \<Rightarrow> int option" where
  "parse_duration s =
     (case split_sign s of (neg, t) \<Rightarrow>
        if t = ''0'' then Some 0 else if t = [] then None
        else (case duration_sum t of
                None \<Rightarrow> None
              | Some d \<Rightarrow> if d < 2 ^ 63 then Some (if neg then - d else d) else if neg \<and> d = 2 ^ 63 then Some (- d) else None))"

definition ceil_seconds :: "int \<Rightarrow> int" where
  "ceil_seconds d = - ((- d) div second)"

section \<open>Reset times of Gemini\<close>

definition geminiDailyWindowStart :: "location \<Rightarrow> time \<Rightarrow> time" where
  "geminiDailyWindowStart pacific now = loc_date pacific (loc_day pacific now) 0"

definition geminiDailyResetTime :: "location \<Rightarrow> time \<Rightarrow> time" where
  "geminiDailyResetTime pacific now =
     (let reset = geminiDailyWindowStart pacific now + 24 * hour
      in if now < reset then reset else reset + 24 * hour)"

definition looksLikeGeminiDailyQuota :: "gostr \<Rightarrow> bool" where
  "looksLikeGeminiDailyQuota message =
     (let m = to_lower message
      in contains m ''per day'' \<or> contains m ''requests per day'' \<or> contains m ''quota'' \<and> contains m ''per day'')"

fun retryIn :: "gostr \<Rightarrow> gostr option" where
  "retryIn [] = None"
| "retryIn (c # s) =
     (let rest = drop 16 (c # s); n = takeWhile (\<lambda>d. is_digit d \<or> d = CHR ''.'') rest
      in if has_prefix (c # s) ''Please retry in '' \<and> n \<noteq> [] \<and> has_prefix (drop (length n) rest) ''s''
         then Some n else retryIn s)"

definition unixSeconds :: "time \<Rightarrow> int" where "unixSeconds t = t div second"

fun firstDelay :: "gostr list \<Rightarrow> int option" where
  "firstDelay [] = None"
| "firstDelay (v # vs) =
     (if v = [] then firstDelay vs
      else case parse_duration v of None \<Rightarrow> firstDelay vs | Some d \<Rightarrow> Some (ceil_seconds d))"

definition ParseGeminiRateLimitResetTime ::
    "location \<Rightarrow> (gostr \<Rightarrow> gostr \<Rightarrow> gostr) \<Rightarrow> (gostr \<Rightarrow> gostr \<Rightarrow> gostr \<Rightarrow> gostr list) \<Rightarrow> time \<Rightarrow> gostr \<Rightarrow> int option" where
  "ParseGeminiRateLimitResetTime pacific gjson gjsonEach now body =
     (if looksLikeGeminiDailyQuota (gjson body ''error.message'') then Some (unixSeconds (geminiDailyResetTime pacific now))
      else case firstDelay (gjsonEach body ''error.details'' ''metadata.quotaResetDelay'') of
             Some d \<Rightarrow> Some (unixSeconds now + d)
           | None \<Rightarrow>
               (case retryIn body of
                  None \<Rightarrow> None
                | Some n \<Rightarrow> (case parse_duration (n @ ''s'') of
                               None \<Rightarrow> None
                             | Some d \<Rightarrow> Some (unixSeconds now + ceil_seconds d))))"

end
