(* ===== verification/Upstream_Errors.thy ===== *)
theory Upstream_Errors
  imports Account_State Upstream_Message
begin

text \<open>
  What happens to an account when its upstream answers with an error or falls silent, and how it recovers
  (\<open>internal/service/ratelimit_service.go\<close>): the policy for custom error codes and pools, pauses by rules of
  the account, failures, rate limits with the reset times that OpenAI, Anthropic and Gemini announce,
  overload, stream timeouts, the session window of successful responses, and recovery.  The local quota
  check for Gemini is in \<open>Gemini_Precheck\<close>.  An account is a row as the caller last read it; the stored row
  may be newer.
\<close>

section \<open>The environment\<close>

record OverloadCooldownSettings =
  oc_Enabled :: bool
  oc_CooldownMinutes :: int

record StreamTimeoutSettings =
  st_Enabled :: bool
  st_Action :: gostr
  st_TempUnschedMinutes :: int
  st_ThresholdCount :: int
  st_ThresholdWindowMinutes :: int

text \<open>
  \<open>None\<close> in a setting is a missing settings service and \<open>Some None\<close> an error of it.  \<open>ue_tempState\<close> is
  \<open>json.Unmarshal\<close> into a \<open>TempUnschedState\<close>, \<open>ue_json\<close> into any value; \<open>ue_header\<close> is \<open>headers.Get\<close>.
\<close>

record upstream_env =
  ue_time :: time
  ue_faults :: faults
  ue_header :: "gostr \<Rightarrow> gostr"
  ue_gjson :: "gostr \<Rightarrow> gostr \<Rightarrow> gostr"
  ue_gjsonEach :: "gostr \<Rightarrow> gostr \<Rightarrow> gostr \<Rightarrow> gostr list"
  ue_json :: "gostr \<Rightarrow> goany option"
  ue_tempState :: "gostr \<Rightarrow> TempUnschedState option"
  ue_format :: "time \<Rightarrow> gostr"
  ue_pacific :: location
  ue_local :: location
  ue_hasTokenInvalidator :: bool
  ue_hasTempCache :: bool
  ue_hasTimeoutCache :: bool
  ue_overload :: "OverloadCooldownSettings option option"
  ue_streamTimeout :: "StreamTimeoutSettings option option"
  ue_overloadMinutes :: int
  ue_oauth401Minutes :: int

definition httpUnauthorized :: int where "httpUnauthorized = 401"

section \<open>Pauses by rules of the account\<close>

definition wasTempUnschedByStatusCode :: "upstream_env \<Rightarrow> gostr \<Rightarrow> int \<Rightarrow> bool" where
  "wasTempUnschedByStatusCode E reason statusCode =
     (if statusCode \<le> 0 \<or> trim_space reason = '''' then False
      else case ue_tempState E (trim_space reason) of None \<Rightarrow> False | Some s \<Rightarrow> tu_StatusCode s = statusCode)"

fun matchTempUnschedKeyword :: "gostr \<Rightarrow> gostr list \<Rightarrow> gostr" where
  "matchTempUnschedKeyword bodyLower [] = ''''"
| "matchTempUnschedKeyword bodyLower (keyword # ks) =
     (if bodyLower = '''' then ''''
      else let k = trim_space keyword
           in if k \<noteq> '''' \<and> contains bodyLower (to_lower k) then k else matchTempUnschedKeyword bodyLower ks)"

definition tempUnschedBodyMaxBytes :: nat where "tempUnschedBodyMaxBytes = 65536"
definition tempUnschedMessageMaxBytes :: nat where "tempUnschedMessageMaxBytes = 2048"

definition truncateTempUnschedMessage :: "gostr \<Rightarrow> nat \<Rightarrow> gostr" where
  "truncateTempUnschedMessage body maxBytes = trim_space (take maxBytes body)"

text \<open>The end of both kinds of pause: the row, and then the cache, whose failure is only logged.\<close>

definition pauseAccount :: "upstream_env \<Rightarrow> int64 \<Rightarrow> time \<Rightarrow> TempUnschedState \<Rightarrow> account_world \<Rightarrow> bool \<times> account_world" where
  "pauseAccount E i until s w =
     (let reason = marshalTempUnschedState s
      in case SetTempUnschedulable (ue_faults E) i until reason w of
           (False, w1) \<Rightarrow> (False, w1)
         | (True, w1) \<Rightarrow> (True, if ue_hasTempCache E then snd (SetTempUnsched (ue_faults E) (ue_time E) i s w1) else w1))"

definition triggerTempUnschedulable ::
    "upstream_env \<Rightarrow> int64 \<Rightarrow> TempUnschedulableRule \<Rightarrow> int \<Rightarrow> int \<Rightarrow> gostr \<Rightarrow> gostr \<Rightarrow> account_world \<Rightarrow> bool \<times> account_world" where
  "triggerTempUnschedulable E i rule ruleIndex statusCode keyword body w =
     (if tr_DurationMinutes rule \<le> 0 then (False, w)
      else let until = ue_time E + tr_DurationMinutes rule * minute
           in pauseAccount E i until
                \<lparr>tu_UntilUnix = unixSeconds until, tu_TriggeredAtUnix = unixSeconds (ue_time E), tu_StatusCode = statusCode,
                 tu_MatchedKeyword = keyword, tu_RuleIndex = ruleIndex,
                 tu_ErrorMessage = truncateTempUnschedMessage body tempUnschedMessageMaxBytes\<rparr> w)"

fun tryRules ::
    "upstream_env \<Rightarrow> int64 \<Rightarrow> int \<Rightarrow> gostr \<Rightarrow> gostr \<Rightarrow> int \<Rightarrow> TempUnschedulableRule list \<Rightarrow> account_world \<Rightarrow> bool \<times> account_world" where
  "tryRules E i statusCode body bodyLower idx [] w = (False, w)"
| "tryRules E i statusCode body bodyLower idx (rule # rules) w =
     (if tr_ErrorCode rule \<noteq> statusCode \<or> tr_Keywords rule = [] \<or> matchTempUnschedKeyword bodyLower (tr_Keywords rule) = ''''
      then tryRules E i statusCode body bodyLower (idx + 1) rules w
      else case triggerTempUnschedulable E i rule idx statusCode (matchTempUnschedKeyword bodyLower (tr_Keywords rule)) body w of
             (True, w1) \<Rightarrow> (True, w1)
           | (False, w1) \<Rightarrow> tryRules E i statusCode body bodyLower (idx + 1) rules w1)"

text \<open>A second 401 is not paused again (Antigravity has rules of its own).\<close>

definition escalates401 :: "upstream_env \<Rightarrow> AccountRow \<Rightarrow> int \<Rightarrow> account_world \<Rightarrow> bool" where
  "escalates401 E r statusCode w =
     (statusCode = httpUnauthorized \<and> act_Platform (row_acc r) \<noteq> PlatformAntigravity \<and>
      wasTempUnschedByStatusCode E
        (if row_TempReason r \<noteq> '''' then row_TempReason r
         else case getByID (ue_faults E) (act_ID (row_acc r)) w of None \<Rightarrow> '''' | Some d \<Rightarrow> row_TempReason d) statusCode)"

definition tryTempUnschedulable :: "upstream_env \<Rightarrow> AccountRow \<Rightarrow> int \<Rightarrow> gostr \<Rightarrow> account_world \<Rightarrow> bool \<times> account_world" where
  "tryTempUnschedulable E r statusCode body w =
     (if \<not> IsTempUnschedulableEnabled (row_acc r) then (False, w)
      else if escalates401 E r statusCode w then (False, w)
      else if GetTempUnschedulableRules (row_acc r) = [] \<or> statusCode \<le> 0 \<or> body = '''' then (False, w)
      else tryRules E (act_ID (row_acc r)) statusCode body (to_lower (take tempUnschedBodyMaxBytes body)) 0
             (GetTempUnschedulableRules (row_acc r)) w)"

definition HandleTempUnschedulable :: "upstream_env \<Rightarrow> AccountRow \<Rightarrow> int \<Rightarrow> gostr \<Rightarrow> account_world \<Rightarrow> bool \<times> account_world" where
  "HandleTempUnschedulable E r statusCode body w =
     (if \<not> ShouldHandleErrorCode (row_acc r) statusCode then (False, w) else tryTempUnschedulable E r statusCode body w)"

datatype ErrorPolicyResult = ErrorPolicyNone | ErrorPolicySkipped | ErrorPolicyMatched | ErrorPolicyTempUnscheduled

definition CheckErrorPolicy :: "upstream_env \<Rightarrow> AccountRow \<Rightarrow> int \<Rightarrow> gostr \<Rightarrow> account_world \<Rightarrow> ErrorPolicyResult \<times> account_world" where
  "CheckErrorPolicy E r statusCode body w =
     (if IsCustomErrorCodesEnabled (row_acc r)
      then (if ShouldHandleErrorCode (row_acc r) statusCode then ErrorPolicyMatched else ErrorPolicySkipped, w)
      else if IsPoolMode (row_acc r) then (ErrorPolicySkipped, w)
      else case tryTempUnschedulable E r statusCode body w of
             (True, w1) \<Rightarrow> (ErrorPolicyTempUnscheduled, w1)
           | (False, w1) \<Rightarrow> (ErrorPolicyNone, w1))"

section \<open>Failures\<close>

definition handleAuthError :: "upstream_env \<Rightarrow> AccountRow \<Rightarrow> gostr \<Rightarrow> account_world \<Rightarrow> account_world" where
  "handleAuthError E r msg w = snd (SetError (ue_faults E) (act_ID (row_acc r)) msg w)"

definition handleCustomErrorCode :: "upstream_env \<Rightarrow> AccountRow \<Rightarrow> int \<Rightarrow> gostr \<Rightarrow> account_world \<Rightarrow> account_world" where
  "handleCustomErrorCode E r statusCode msg w =
     snd (SetError (ue_faults E) (act_ID (row_acc r)) (''Custom error code '' @ format_int statusCode @ '': '' @ msg) w)"

definition withDetail :: "gostr \<Rightarrow> gostr \<Rightarrow> gostr \<Rightarrow> gostr" where
  "withDetail label plain upstreamMsg = (if upstreamMsg \<noteq> '''' then label @ upstreamMsg else plain)"

definition forbiddenMessage :: "upstream_env \<Rightarrow> AccountRow \<Rightarrow> gostr \<Rightarrow> gostr \<Rightarrow> gostr" where
  "forbiddenMessage E r upstreamMsg body =
     (let plain = withDetail ''Access forbidden (403): ''
            ''Access forbidden (403): account may be suspended or lack permissions'' upstreamMsg
      in if act_Platform (row_acc r) \<noteq> PlatformAntigravity then plain
         else if classifyForbiddenType body = forbiddenTypeValidation
         then (let msg = withDetail ''Validation required (403): ''
                     ''Validation required (403): account needs Google verification'' upstreamMsg;
                   url = extractValidationURL (ue_json E) body
               in if url \<noteq> '''' then msg @ '' | validation_url: '' @ url else msg)
         else if classifyForbiddenType body = forbiddenTypeViolation
         then withDetail ''Account violation (403): '' ''Account violation (403): terms of service violation'' upstreamMsg
         else plain)"

definition handle403 :: "upstream_env \<Rightarrow> AccountRow \<Rightarrow> gostr \<Rightarrow> gostr \<Rightarrow> account_world \<Rightarrow> bool \<times> account_world" where
  "handle403 E r upstreamMsg body w = (True, handleAuthError E r (forbiddenMessage E r upstreamMsg body) w)"

text \<open>
  The 401 of an OAuth account: its cached token is dropped, its credentials are stored again with an
  expiry of now, so that the next request refreshes the token, and it is paused.
\<close>

definition setKey :: "gostr \<Rightarrow> goany \<Rightarrow> gomap option \<Rightarrow> gomap" where
  "setKey k v m = (k, v) # filter (\<lambda>(j, _). j \<noteq> k) (case m of None \<Rightarrow> [] | Some xs \<Rightarrow> xs)"

definition handleOAuth401 :: "upstream_env \<Rightarrow> AccountRow \<Rightarrow> gostr \<Rightarrow> account_world \<Rightarrow> account_world" where
  "handleOAuth401 E r upstreamMsg w =
     (let i = act_ID (row_acc r);
          w1 = (if ue_hasTokenInvalidator E \<and> \<not> ue_faults E CallInvalidateToken
                then w\<lparr>aw_tokensDropped := aw_tokensDropped w @ [i]\<rparr> else w);
          credentials = setKey ''expires_at'' (GString (ue_format E (ue_time E))) (act_Credentials (row_acc r));
          w2 = snd (UpdateCredentials (ue_faults E) i credentials w1);
          msg = withDetail ''OAuth 401: '' ''Authentication failed (401): invalid or expired credentials'' upstreamMsg;
          cooldown = (if ue_oauth401Minutes E \<le> 0 then 10 else ue_oauth401Minutes E)
      in snd (SetTempUnschedulable (ue_faults E) i (ue_time E + cooldown * minute) msg w2))"

definition handle401 :: "upstream_env \<Rightarrow> AccountRow \<Rightarrow> gostr \<Rightarrow> gostr \<Rightarrow> account_world \<Rightarrow> account_world" where
  "handle401 E r upstreamMsg body w =
     (let a = row_acc r; code = extractUpstreamErrorCode (ue_gjson E) body
      in if act_Platform a = PlatformOpenAI \<and> (code = ''token_invalidated'' \<or> code = ''token_revoked'')
         then handleAuthError E r (withDetail ''Token revoked (401): ''
                ''Token revoked (401): account authentication permanently revoked'' upstreamMsg) w
         else if act_Platform a = PlatformOpenAI \<and> ue_gjson E body ''detail'' = ''Unauthorized''
         then handleAuthError E r (withDetail ''Unauthorized (401): ''
                ''Unauthorized (401): account authentication failed permanently'' upstreamMsg) w
         else if act_Type a = AccountTypeOAuth \<and> act_Platform a \<noteq> PlatformAntigravity then handleOAuth401 E r upstreamMsg w
         else handleAuthError E r (withDetail ''Authentication failed (401): ''
                ''Authentication failed (401): invalid or expired credentials'' upstreamMsg) w)"

definition handle402 :: "upstream_env \<Rightarrow> AccountRow \<Rightarrow> gostr \<Rightarrow> gostr \<Rightarrow> account_world \<Rightarrow> account_world" where
  "handle402 E r upstreamMsg body w =
     (if act_Platform (row_acc r) = PlatformOpenAI \<and> ue_gjson E body ''detail.code'' = ''deactivated_workspace''
      then handleAuthError E r ''Workspace deactivated (402): workspace has been deactivated'' w
      else handleAuthError E r (withDetail ''Payment required (402): ''
             ''Payment required (402): insufficient balance or billing issue'' upstreamMsg) w)"

section \<open>Rate limits of Codex\<close>

record OpenAICodexUsageSnapshot =
  cs_PrimaryUsedPercent :: "rat option"
  cs_PrimaryResetAfterSeconds :: "int option"
  cs_PrimaryWindowMinutes :: "int option"
  cs_SecondaryUsedPercent :: "rat option"
  cs_SecondaryResetAfterSeconds :: "int option"
  cs_SecondaryWindowMinutes :: "int option"
  cs_PrimaryOverSecondaryPercent :: "rat option"
  cs_UpdatedAt :: gostr

record NormalizedCodexLimits =
  nl_Used5hPercent :: "rat option"
  nl_Reset5hSeconds :: "int option"
  nl_Window5hMinutes :: "int option"
  nl_Used7dPercent :: "rat option"
  nl_Reset7dSeconds :: "int option"
  nl_Window7dMinutes :: "int option"

definition ParseCodexRateLimitHeaders :: "upstream_env \<Rightarrow> OpenAICodexUsageSnapshot option" where
  "ParseCodexRateLimitHeaders E =
     (let parseFloat = (\<lambda>key. if ue_header E key = '''' then None else parse_float (ue_header E key));
          parseInt = (\<lambda>key. if ue_header E key = '''' then None else parse_int (ue_header E key));
          s = \<lparr>cs_PrimaryUsedPercent = parseFloat ''x-codex-primary-used-percent'',
               cs_PrimaryResetAfterSeconds = parseInt ''x-codex-primary-reset-after-seconds'',
               cs_PrimaryWindowMinutes = parseInt ''x-codex-primary-window-minutes'',
               cs_SecondaryUsedPercent = parseFloat ''x-codex-secondary-used-percent'',
               cs_SecondaryResetAfterSeconds = parseInt ''x-codex-secondary-reset-after-seconds'',
               cs_SecondaryWindowMinutes = parseInt ''x-codex-secondary-window-minutes'',
               cs_PrimaryOverSecondaryPercent = parseFloat ''x-codex-primary-over-secondary-limit-percent'',
               cs_UpdatedAt = ue_format E (ue_time E)\<rparr>
      in if cs_PrimaryUsedPercent s = None \<and> cs_PrimaryResetAfterSeconds s = None \<and> cs_PrimaryWindowMinutes s = None \<and>
            cs_SecondaryUsedPercent s = None \<and> cs_SecondaryResetAfterSeconds s = None \<and> cs_SecondaryWindowMinutes s = None \<and>
            cs_PrimaryOverSecondaryPercent s = None
         then None else Some s)"

text \<open>Whether the primary window is the short one.\<close>

definition use5hFromPrimary :: "int option \<Rightarrow> int option \<Rightarrow> bool" where
  "use5hFromPrimary primary secondary =
     (case (primary, secondary) of
        (Some p, Some s) \<Rightarrow> p < s
      | (Some p, None) \<Rightarrow> p \<le> 360
      | (None, Some s) \<Rightarrow> \<not> s \<le> 360
      | (None, None) \<Rightarrow> False)"

definition NormalizeCodex :: "OpenAICodexUsageSnapshot \<Rightarrow> NormalizedCodexLimits" where
  "NormalizeCodex s =
     (if use5hFromPrimary (cs_PrimaryWindowMinutes s) (cs_SecondaryWindowMinutes s)
      then \<lparr>nl_Used5hPercent = cs_PrimaryUsedPercent s, nl_Reset5hSeconds = cs_PrimaryResetAfterSeconds s,
            nl_Window5hMinutes = cs_PrimaryWindowMinutes s, nl_Used7dPercent = cs_SecondaryUsedPercent s,
            nl_Reset7dSeconds = cs_SecondaryResetAfterSeconds s, nl_Window7dMinutes = cs_SecondaryWindowMinutes s\<rparr>
      else \<lparr>nl_Used5hPercent = cs_SecondaryUsedPercent s, nl_Reset5hSeconds = cs_SecondaryResetAfterSeconds s,
            nl_Window5hMinutes = cs_SecondaryWindowMinutes s, nl_Used7dPercent = cs_PrimaryUsedPercent s,
            nl_Reset7dSeconds = cs_PrimaryResetAfterSeconds s, nl_Window7dMinutes = cs_PrimaryWindowMinutes s\<rparr>)"

definition codexSnapshotBaseTime :: "OpenAICodexUsageSnapshot \<Rightarrow> time \<Rightarrow> time" where
  "codexSnapshotBaseTime s fallback =
     (if cs_UpdatedAt s = '''' then fallback
      else case parse_rfc3339 (cs_UpdatedAt s) of None \<Rightarrow> fallback | Some t \<Rightarrow> t)"

definition codexResetAtRFC3339 :: "upstream_env \<Rightarrow> time \<Rightarrow> int option \<Rightarrow> gostr option" where
  "codexResetAtRFC3339 E base resetAfter = map_option (\<lambda>sec. ue_format E (base + max 0 sec * second)) resetAfter"

text \<open>Numbers come back from the JSON column as floats.\<close>

definition put :: "gostr \<Rightarrow> ('a \<Rightarrow> goany) \<Rightarrow> 'a option \<Rightarrow> gomap" where
  "put key f v = (case v of None \<Rightarrow> [] | Some x \<Rightarrow> [(key, f x)])"

definition json_int :: "int \<Rightarrow> goany" where "json_int i = GFloat (of_int i)"

definition buildCodexUsageExtraUpdates :: "upstream_env \<Rightarrow> OpenAICodexUsageSnapshot \<Rightarrow> gomap" where
  "buildCodexUsageExtraUpdates E s =
     (let base = codexSnapshotBaseTime s (ue_time E); n = NormalizeCodex s
      in put ''codex_primary_used_percent'' GFloat (cs_PrimaryUsedPercent s) @
         put ''codex_primary_reset_after_seconds'' json_int (cs_PrimaryResetAfterSeconds s) @
         put ''codex_primary_window_minutes'' json_int (cs_PrimaryWindowMinutes s) @
         put ''codex_secondary_used_percent'' GFloat (cs_SecondaryUsedPercent s) @
         put ''codex_secondary_reset_after_seconds'' json_int (cs_SecondaryResetAfterSeconds s) @
         put ''codex_secondary_window_minutes'' json_int (cs_SecondaryWindowMinutes s) @
         put ''codex_primary_over_secondary_percent'' GFloat (cs_PrimaryOverSecondaryPercent s) @
         [(''codex_usage_updated_at'', GString (ue_format E base))] @
         put ''codex_5h_used_percent'' GFloat (nl_Used5hPercent n) @
         put ''codex_5h_reset_after_seconds'' json_int (nl_Reset5hSeconds n) @
         put ''codex_5h_window_minutes'' json_int (nl_Window5hMinutes n) @
         put ''codex_7d_used_percent'' GFloat (nl_Used7dPercent n) @
         put ''codex_7d_reset_after_seconds'' json_int (nl_Reset7dSeconds n) @
         put ''codex_7d_window_minutes'' json_int (nl_Window7dMinutes n) @
         put ''codex_5h_reset_at'' GString (codexResetAtRFC3339 E base (nl_Reset5hSeconds n)) @
         put ''codex_7d_reset_at'' GString (codexResetAtRFC3339 E base (nl_Reset7dSeconds n)))"

definition persistOpenAICodexSnapshot :: "upstream_env \<Rightarrow> AccountRow \<Rightarrow> account_world \<Rightarrow> account_world" where
  "persistOpenAICodexSnapshot E r w =
     (case ParseCodexRateLimitHeaders E of
        None \<Rightarrow> w
      | Some s \<Rightarrow> snd (repoUpdateExtra (ue_faults E) (act_ID (row_acc r)) (buildCodexUsageExtraUpdates E s) w))"

definition calculateOpenAI429ResetTime :: "upstream_env \<Rightarrow> time option" where
  "calculateOpenAI429ResetTime E =
     (case ParseCodexRateLimitHeaders E of
        None \<Rightarrow> None
      | Some s \<Rightarrow>
          let n = NormalizeCodex s;
              exhausted = (\<lambda>p. case p of None \<Rightarrow> False | Some x \<Rightarrow> x \<ge> 100);
              secs = (\<lambda>r. case r of None \<Rightarrow> 0 | Some x \<Rightarrow> max 0 x);
              longest = max (secs (nl_Reset7dSeconds n)) (secs (nl_Reset5hSeconds n))
          in case (exhausted (nl_Used7dPercent n), nl_Reset7dSeconds n) of
               (True, Some x) \<Rightarrow> Some (ue_time E + x * second)
             | _ \<Rightarrow>
                 (case (exhausted (nl_Used5hPercent n), nl_Reset5hSeconds n) of
                    (True, Some x) \<Rightarrow> Some (ue_time E + x * second)
                  | _ \<Rightarrow> if longest > 0 then Some (ue_time E + longest * second) else None))"

section \<open>Rate limits of Anthropic\<close>

definition unixTime :: "int \<Rightarrow> time" where "unixTime ts = ts * second"

definition isAnthropicWindowExceeded :: "upstream_env \<Rightarrow> gostr \<Rightarrow> bool" where
  "isAnthropicWindowExceeded E window =
     (let pre = ''anthropic-ratelimit-unified-'' @ window @ ''-''; util = ue_header E (pre @ ''utilization'')
      in equal_fold (ue_header E (pre @ ''surpassed-threshold'')) ''true'' \<or>
         (util \<noteq> '''' \<and> (case parse_float util of None \<Rightarrow> False | Some x \<Rightarrow> x \<ge> 1 - 1 / 10 ^ 9)))"

definition pickSooner :: "time option \<Rightarrow> time option \<Rightarrow> time option" where
  "pickSooner a b =
     (case (a, b) of
        (Some x, Some y) \<Rightarrow> Some (if x < y then x else y)
      | (Some x, None) \<Rightarrow> Some x
      | (None, y) \<Rightarrow> y)"

text \<open>The result: when the limit ends, and when the window of five hours does.\<close>

definition calculateAnthropic429ResetTime :: "upstream_env \<Rightarrow> (time \<times> time option) option" where
  "calculateAnthropic429ResetTime E =
     (let s5 = ue_header E ''anthropic-ratelimit-unified-5h-reset''; s7 = ue_header E ''anthropic-ratelimit-unified-7d-reset'';
          reset5h = map_option unixTime (parse_int s5); reset7d = map_option unixTime (parse_int s7);
          exceeded5h = isAnthropicWindowExceeded E ''5h''; exceeded7d = isAnthropicWindowExceeded E ''7d'';
          chosen = (if exceeded5h \<and> exceeded7d then (if reset7d = None then reset5h else reset7d)
                    else if exceeded5h then reset5h
                    else if exceeded7d then reset7d
                    else pickSooner reset5h reset7d)
      in if s5 = '''' \<and> s7 = '''' then None else map_option (\<lambda>t. (t, reset5h)) chosen)"

section \<open>Rate limits in bodies\<close>

text \<open>The error object of a body that decodes to an object.\<close>

definition rateLimitError :: "goany option \<Rightarrow> gomap option" where
  "rateLimitError parsed =
     (case parsed of
        Some (GObject m) \<Rightarrow>
          (case map_of m ''error'' of
             Some (GObject e) \<Rightarrow>
               if asString (map_of e ''type'') = ''usage_limit_reached'' \<or> asString (map_of e ''type'') = ''rate_limit_exceeded''
               then Some e else None
           | _ \<Rightarrow> None)
      | _ \<Rightarrow> None)"

fun number_or_text :: "goany option \<Rightarrow> int option" where
  "number_or_text (Some (GFloat x)) = Some (trunc_rat x)"
| "number_or_text (Some (GString s)) = parse_int s"
| "number_or_text _ = None"

definition parseOpenAIRateLimitResetTime :: "upstream_env \<Rightarrow> gostr \<Rightarrow> int option" where
  "parseOpenAIRateLimitResetTime E body =
     (case rateLimitError (ue_json E body) of
        None \<Rightarrow> None
      | Some e \<Rightarrow>
          (case number_or_text (map_of e ''resets_at'') of
             Some ts \<Rightarrow> Some ts
           | None \<Rightarrow> map_option (\<lambda>sec. unixSeconds (ue_time E) + sec) (number_or_text (map_of e ''resets_in_seconds''))))"

section \<open>429 and 529\<close>

text \<open>The new limit of an account and whether it says when the session window ends.\<close>

datatype limit_decision =
    NoLimit
  | LimitUntil time
  | LimitWithWindow time time

definition fiveHours :: time where "fiveHours = 5 * hour"

definition decide429 :: "upstream_env \<Rightarrow> AccountRow \<Rightarrow> gostr \<Rightarrow> limit_decision" where
  "decide429 E r body =
     (let a = row_acc r; aggregated = ue_header E ''anthropic-ratelimit-unified-reset''; fallback = ue_time E + 5 * minute
      in case (if act_Platform a = PlatformOpenAI then calculateOpenAI429ResetTime E else None) of
           Some t \<Rightarrow> LimitUntil t
         | None \<Rightarrow>
             (case calculateAnthropic429ResetTime E of
                Some (t, fiveHourReset) \<Rightarrow> LimitWithWindow t (case fiveHourReset of None \<Rightarrow> t | Some e \<Rightarrow> e)
              | None \<Rightarrow>
                  if aggregated = ''''
                  then (case (if act_Platform a = PlatformOpenAI then parseOpenAIRateLimitResetTime E body
                              else if act_Platform a = PlatformGemini \<or> act_Platform a = PlatformAntigravity
                              then ParseGeminiRateLimitResetTime (ue_pacific E) (ue_gjson E) (ue_gjsonEach E) (ue_time E) body
                              else None) of
                          Some ts \<Rightarrow> LimitUntil (unixTime ts)
                        | None \<Rightarrow> if act_Platform a = PlatformAnthropic then NoLimit else LimitUntil fallback)
                  else (case parse_int aggregated of
                          None \<Rightarrow> LimitUntil fallback
                        | Some ts \<Rightarrow> LimitWithWindow (unixTime ts) (unixTime ts))))"

definition handle429 :: "upstream_env \<Rightarrow> AccountRow \<Rightarrow> gostr \<Rightarrow> account_world \<Rightarrow> account_world" where
  "handle429 E r body w =
     (let i = act_ID (row_acc r);
          w1 = (if act_Platform (row_acc r) = PlatformOpenAI then persistOpenAICodexSnapshot E r w else w)
      in case decide429 E r body of
           NoLimit \<Rightarrow> w1
         | LimitUntil t \<Rightarrow> snd (SetRateLimited (ue_faults E) (ue_time E) i t w1)
         | LimitWithWindow t windowEnd \<Rightarrow>
             (case SetRateLimited (ue_faults E) (ue_time E) i t w1 of
                (False, w2) \<Rightarrow> w2
              | (True, w2) \<Rightarrow>
                  snd (repoUpdateSessionWindow (ue_faults E) i (Some (windowEnd - fiveHours)) (Some windowEnd) ''rejected'' w2)))"

definition overloadSettings :: "upstream_env \<Rightarrow> OverloadCooldownSettings" where
  "overloadSettings E =
     (case ue_overload E of
        Some (Some s) \<Rightarrow> s
      | _ \<Rightarrow> \<lparr>oc_Enabled = True, oc_CooldownMinutes = (if ue_overloadMinutes E \<le> 0 then 10 else ue_overloadMinutes E)\<rparr>)"

definition handle529 :: "upstream_env \<Rightarrow> AccountRow \<Rightarrow> account_world \<Rightarrow> account_world" where
  "handle529 E r w =
     (let s = overloadSettings E; minutes = (if oc_CooldownMinutes s \<le> 0 then 10 else oc_CooldownMinutes s)
      in if \<not> oc_Enabled s then w
         else snd (SetOverloaded (ue_faults E) (act_ID (row_acc r)) (ue_time E + minutes * minute) w))"

section \<open>Upstream errors\<close>

definition upstreamMessage :: "upstream_env \<Rightarrow> gostr \<Rightarrow> gostr" where
  "upstreamMessage E body =
     (let m = sanitizeUpstreamErrorMessage (trim_space (extractUpstreamErrorMessage (ue_gjson E) body))
      in if m \<noteq> '''' then truncateForLog m 512 else m)"

text \<open>The result is whether the request has to leave the account.\<close>

definition handleStatus :: "upstream_env \<Rightarrow> AccountRow \<Rightarrow> int \<Rightarrow> gostr \<Rightarrow> account_world \<Rightarrow> bool \<times> account_world" where
  "handleStatus E r statusCode body w =
     (let msg = upstreamMessage E body
      in if statusCode = 400
         then (if contains (to_lower msg) ''organization has been disabled''
               then (True, handleAuthError E r (''Organization disabled (400): '' @ msg) w) else (False, w))
         else if statusCode = 401 then (True, handle401 E r msg body w)
         else if statusCode = 402 then (True, handle402 E r msg body w)
         else if statusCode = 403 then handle403 E r msg body w
         else if statusCode = 429 then (False, handle429 E r body w)
         else if statusCode = 529 then (False, handle529 E r w)
         else if IsCustomErrorCodesEnabled (row_acc r)
         then (True, handleCustomErrorCode E r statusCode (if msg \<noteq> '''' then msg else ''Custom error code triggered'') w)
         else (False, w))"

definition HandleUpstreamError :: "upstream_env \<Rightarrow> AccountRow \<Rightarrow> int \<Rightarrow> gostr \<Rightarrow> account_world \<Rightarrow> bool \<times> account_world" where
  "HandleUpstreamError E r statusCode body w =
     (if IsPoolMode (row_acc r) \<and> \<not> IsCustomErrorCodesEnabled (row_acc r) then (False, w)
      else if \<not> ShouldHandleErrorCode (row_acc r) statusCode then (False, w)
      else if statusCode = 401 then handleStatus E r statusCode body w
      else case tryTempUnschedulable E r statusCode body w of
             (True, w1) \<Rightarrow> (True, w1)
           | (False, w1) \<Rightarrow> handleStatus E r statusCode body w1)"

section \<open>Stream timeouts\<close>

definition StreamTimeoutActionTempUnsched :: gostr where "StreamTimeoutActionTempUnsched = ''temp_unsched''"
definition StreamTimeoutActionError :: gostr where "StreamTimeoutActionError = ''error''"
definition StreamTimeoutActionNone :: gostr where "StreamTimeoutActionNone = ''none''"

definition resetTimeouts :: "upstream_env \<Rightarrow> int64 \<Rightarrow> account_world \<Rightarrow> account_world" where
  "resetTimeouts E i w = (if ue_hasTimeoutCache E then snd (ResetTimeoutCount (ue_faults E) i w) else w)"

definition triggerStreamTimeoutTempUnsched ::
    "upstream_env \<Rightarrow> AccountRow \<Rightarrow> StreamTimeoutSettings \<Rightarrow> gostr \<Rightarrow> account_world \<Rightarrow> bool \<times> account_world" where
  "triggerStreamTimeoutTempUnsched E r settings model w =
     (let i = act_ID (row_acc r); until = ue_time E + st_TempUnschedMinutes settings * minute
      in case pauseAccount E i until
                \<lparr>tu_UntilUnix = unixSeconds until, tu_TriggeredAtUnix = unixSeconds (ue_time E), tu_StatusCode = 0,
                 tu_MatchedKeyword = ''stream_timeout'', tu_RuleIndex = -1,
                 tu_ErrorMessage = ''Stream data interval timeout for model: '' @ model\<rparr> w of
           (False, w1) \<Rightarrow> (False, w1)
         | (True, w1) \<Rightarrow> (True, resetTimeouts E i w1))"

definition triggerStreamTimeoutError :: "upstream_env \<Rightarrow> AccountRow \<Rightarrow> gostr \<Rightarrow> account_world \<Rightarrow> bool \<times> account_world" where
  "triggerStreamTimeoutError E r model w =
     (case SetError (ue_faults E) (act_ID (row_acc r))
             (''Stream data interval timeout (repeated failures) for model: '' @ model) w of
        (False, w1) \<Rightarrow> (False, w1)
      | (True, w1) \<Rightarrow> (True, resetTimeouts E (act_ID (row_acc r)) w1))"

definition countTimeout :: "upstream_env \<Rightarrow> int64 \<Rightarrow> int \<Rightarrow> account_world \<Rightarrow> int \<times> account_world" where
  "countTimeout E i windowMinutes w =
     (if \<not> ue_hasTimeoutCache E then (1, w)
      else case IncrementTimeoutCount (ue_faults E) (ue_time E) i windowMinutes w of
             (None, w1) \<Rightarrow> (1, w1)
           | (Some n, w1) \<Rightarrow> (n, w1))"

definition HandleStreamTimeout :: "upstream_env \<Rightarrow> AccountRow \<Rightarrow> gostr \<Rightarrow> account_world \<Rightarrow> bool \<times> account_world" where
  "HandleStreamTimeout E r model w =
     (case ue_streamTimeout E of
        Some (Some settings) \<Rightarrow>
          if \<not> st_Enabled settings \<or> st_Action settings = StreamTimeoutActionNone then (False, w)
          else (case countTimeout E (act_ID (row_acc r)) (st_ThresholdWindowMinutes settings) w of (count, w1) \<Rightarrow>
                  if count < st_ThresholdCount settings then (False, w1)
                  else if st_Action settings = StreamTimeoutActionTempUnsched
                  then triggerStreamTimeoutTempUnsched E r settings model w1
                  else if st_Action settings = StreamTimeoutActionError then triggerStreamTimeoutError E r model w1
                  else (False, w1))
      | _ \<Rightarrow> (False, w))"

section \<open>Session windows of successful responses\<close>

text \<open>A timestamp in milliseconds is taken as such; one that is out of range or unchanged is ignored.\<close>

definition secondsOf :: "int \<Rightarrow> int" where
  "secondsOf ts = (if ts > 10 ^ 11 then ts div 1000 else ts)"

definition windowFromHeader :: "upstream_env \<Rightarrow> Account \<Rightarrow> bool \<Rightarrow> time option" where
  "windowFromHeader E a needInit =
     (case parse_int (ue_header E ''anthropic-ratelimit-unified-5h-reset'') of
        None \<Rightarrow> None
      | Some ts \<Rightarrow>
          let windowEnd = unixTime (secondsOf ts)
          in if windowEnd < ue_time E - fiveHours \<or> windowEnd > ue_time E + 7 * 24 * hour then None
             else if needInit \<or> act_SessionWindowEnd a \<noteq> Some windowEnd then Some windowEnd else None)"

definition startOfHour :: "location \<Rightarrow> time \<Rightarrow> time" where
  "startOfHour tz t = loc_date tz (loc_day tz t) (loc_clock tz t div hour * hour)"

definition newWindowEnd :: "upstream_env \<Rightarrow> Account \<Rightarrow> gostr \<Rightarrow> bool \<Rightarrow> time option" where
  "newWindowEnd E a status needInit =
     (case windowFromHeader E a needInit of
        Some t \<Rightarrow> Some t
      | None \<Rightarrow> if needInit \<and> (status = ''allowed'' \<or> status = ''allowed_warning'')
                then Some (startOfHour (ue_local E) (ue_time E) + fiveHours) else None)"

definition sampledUsage :: "upstream_env \<Rightarrow> gomap" where
  "sampledUsage E =
     (let number = (\<lambda>key. if ue_header E key = '''' then None else parse_float (ue_header E key));
          updates = put ''session_window_utilization'' GFloat (number ''anthropic-ratelimit-unified-5h-utilization'') @
            put ''passive_usage_7d_utilization'' GFloat (number ''anthropic-ratelimit-unified-7d-utilization'') @
            put ''passive_usage_7d_reset'' json_int
              (map_option secondsOf (parse_int (ue_header E ''anthropic-ratelimit-unified-7d-reset'')))
      in if updates = [] then []
         else updates @ [(''passive_usage_sampled_at'', GString (ue_format E (ue_time E)))])"

definition ClearRateLimit :: "upstream_env \<Rightarrow> int64 \<Rightarrow> account_world \<Rightarrow> bool \<times> account_world" where
  "ClearRateLimit E i w =
     (case repoClearRateLimit (ue_faults E) i w of
        (False, w1) \<Rightarrow> (False, w1)
      | (True, w1) \<Rightarrow>
          (case ClearAntigravityQuotaScopes (ue_faults E) i w1 of
             (False, w2) \<Rightarrow> (False, w2)
           | (True, w2) \<Rightarrow>
               (case ClearModelRateLimits (ue_faults E) i w2 of
                  (False, w3) \<Rightarrow> (False, w3)
                | (True, w3) \<Rightarrow>
                    (case repoClearTempUnschedulable (ue_faults E) i w3 of
                       (False, w4) \<Rightarrow> (False, w4)
                     | (True, w4) \<Rightarrow> (True, if ue_hasTempCache E then snd (DeleteTempUnsched (ue_faults E) i w4) else w4)))))"

definition UpdateSessionWindow :: "upstream_env \<Rightarrow> AccountRow \<Rightarrow> account_world \<Rightarrow> account_world" where
  "UpdateSessionWindow E r w =
     (let status = ue_header E ''anthropic-ratelimit-unified-5h-status''; a = row_acc r; i = act_ID a;
          needInit = (case act_SessionWindowEnd a of None \<Rightarrow> True | Some t \<Rightarrow> ue_time E > t);
          windowEnd = newWindowEnd E a status needInit;
          w1 = (if windowEnd \<noteq> None \<and> needInit
                then snd (repoUpdateExtra (ue_faults E) i [(''session_window_utilization'', GNil),
                       (''passive_usage_7d_utilization'', GNil), (''passive_usage_7d_reset'', GNil),
                       (''passive_usage_sampled_at'', GNil)] w)
                else w);
          w2 = snd (repoUpdateSessionWindow (ue_faults E) i (map_option (\<lambda>t. t - fiveHours) windowEnd) windowEnd status w1);
          w3 = snd (repoUpdateExtra (ue_faults E) i (sampledUsage E) w2)
      in if status = '''' then w
         else if status = ''allowed'' \<and> IsRateLimited (ue_time E) a then snd (ClearRateLimit E i w3) else w3)"

section \<open>Recovery\<close>

definition hasNonEmptyMapValue :: "gomap \<Rightarrow> gostr \<Rightarrow> bool" where
  "hasNonEmptyMapValue extra key =
     (case map_of extra key of
        None \<Rightarrow> False
      | Some GNil \<Rightarrow> False
      | Some (GObject m) \<Rightarrow> m \<noteq> []
      | Some (GList vs) \<Rightarrow> vs \<noteq> []
      | Some _ \<Rightarrow> True)"

definition hasRecoverableRuntimeState :: "AccountRow \<Rightarrow> bool" where
  "hasRecoverableRuntimeState r =
     (let a = row_acc r
      in row_RateLimitedAt r \<noteq> None \<or> act_RateLimitResetAt a \<noteq> None \<or> act_OverloadUntil a \<noteq> None \<or>
         act_TempUnschedulableUntil a \<noteq> None \<or>
         (case act_Extra a of
            None \<Rightarrow> False
          | Some m \<Rightarrow> hasNonEmptyMapValue m ''model_rate_limits'' \<or> hasNonEmptyMapValue m ''antigravity_quota_scopes''))"

text \<open>The result: whether an error and whether a limit was cleared.\<close>

definition RecoverAccountState :: "upstream_env \<Rightarrow> bool \<Rightarrow> int64 \<Rightarrow> account_world \<Rightarrow> (bool \<times> bool) option \<times> account_world" where
  "RecoverAccountState E invalidateToken i w =
     (case getByID (ue_faults E) i w of
        None \<Rightarrow> (None, w)
      | Some r \<Rightarrow>
          let failed = (act_Status (row_acc r) = StatusError);
              (ok1, w1) = (if failed then ClearError (ue_faults E) i w else (True, w));
              w2 = (if failed \<and> invalidateToken \<and> ue_hasTokenInvalidator E \<and> IsOAuth (row_acc r) \<and>
                       \<not> ue_faults E CallInvalidateToken
                    then w1\<lparr>aw_tokensDropped := aw_tokensDropped w1 @ [i]\<rparr> else w1)
          in if \<not> ok1 then (None, w1)
             else if hasRecoverableRuntimeState r
             then (case ClearRateLimit E i w2 of (False, w3) \<Rightarrow> (None, w3) | (True, w3) \<Rightarrow> (Some (failed, True), w3))
             else (Some (failed, False), w2))"

definition RecoverAccountAfterSuccessfulTest :: "upstream_env \<Rightarrow> int64 \<Rightarrow> account_world \<Rightarrow> (bool \<times> bool) option \<times> account_world" where
  "RecoverAccountAfterSuccessfulTest E i w = RecoverAccountState E False i w"

definition ClearTempUnschedulable :: "upstream_env \<Rightarrow> int64 \<Rightarrow> account_world \<Rightarrow> bool \<times> account_world" where
  "ClearTempUnschedulable E i w =
     (case repoClearTempUnschedulable (ue_faults E) i w of
        (False, w1) \<Rightarrow> (False, w1)
      | (True, w1) \<Rightarrow>
          (True, snd (ClearModelRateLimits (ue_faults E) i
                   (if ue_hasTempCache E then snd (DeleteTempUnsched (ue_faults E) i w1) else w1))))"

text \<open>The outer option is an error, the inner one the absence of a pause.\<close>

definition pauseOfRow :: "upstream_env \<Rightarrow> AccountRow \<Rightarrow> TempUnschedState option" where
  "pauseOfRow E r =
     (case act_TempUnschedulableUntil (row_acc r) of
        None \<Rightarrow> None
      | Some until \<Rightarrow>
          let plain = \<lparr>tu_UntilUnix = unixSeconds until, tu_TriggeredAtUnix = 0, tu_StatusCode = 0, tu_MatchedKeyword = '''',
                       tu_RuleIndex = 0, tu_ErrorMessage = ''''\<rparr>
          in if unixSeconds until \<le> unixSeconds (ue_time E) then None
             else if row_TempReason r = '''' then Some plain
             else case ue_tempState E (row_TempReason r) of
                    Some s \<Rightarrow> Some (if tu_UntilUnix s = 0 then s\<lparr>tu_UntilUnix := tu_UntilUnix plain\<rparr> else s)
                  | None \<Rightarrow> Some (plain\<lparr>tu_ErrorMessage := row_TempReason r\<rparr>))"

definition GetTempUnschedStatus :: "upstream_env \<Rightarrow> int64 \<Rightarrow> account_world \<Rightarrow> TempUnschedState option option \<times> account_world" where
  "GetTempUnschedStatus E i w =
     (case (if ue_hasTempCache E then GetTempUnsched (ue_faults E) (ue_time E) i w else Some None) of
        None \<Rightarrow> (None, w)
      | Some cached \<Rightarrow>
          (case (case cached of None \<Rightarrow> None | Some s \<Rightarrow> if tu_UntilUnix s > unixSeconds (ue_time E) then Some s else None) of
             Some s \<Rightarrow> (Some (Some s), w)
           | None \<Rightarrow>
               (case getByID (ue_faults E) i w of
                  None \<Rightarrow> (None, w)
                | Some r \<Rightarrow>
                    (case pauseOfRow E r of
                       None \<Rightarrow> (Some None, w)
                     | Some p \<Rightarrow>
                         (Some (Some p), if ue_hasTempCache E then snd (SetTempUnsched (ue_faults E) (ue_time E) i p w) else w)))))"

end
