(* ===== verification/Upstream_Errors_Safety.thy ===== *)
theory Upstream_Errors_Safety
  imports Upstream_Errors
begin

text \<open>
  An upstream error takes exactly the account that it came from out of scheduling, and for as long as it
  says; stream timeouts do so at their threshold; whatever happened to an active account, recovery makes
  it schedulable again.
\<close>

section \<open>What the operations change\<close>

text \<open>Marks on a row never touch what the administration decides; a status only ever becomes a failure.\<close>

definition evolves :: "AccountRow \<Rightarrow> AccountRow \<Rightarrow> bool" where
  "evolves d d' =
     (act_ID (row_acc d') = act_ID (row_acc d) \<and> act_Schedulable (row_acc d') = act_Schedulable (row_acc d) \<and>
      act_ExpiresAt (row_acc d') = act_ExpiresAt (row_acc d) \<and>
      act_AutoPauseOnExpired (row_acc d') = act_AutoPauseOnExpired (row_acc d) \<and>
      (act_Status (row_acc d') = act_Status (row_acc d) \<or> act_Status (row_acc d') = StatusError))"

text \<open>The change of one row, related by \<open>R\<close>; a missing row stays missing.\<close>

definition row_step :: "(AccountRow \<Rightarrow> AccountRow \<Rightarrow> bool) \<Rightarrow> int64 \<Rightarrow> account_world \<Rightarrow> account_world \<Rightarrow> bool" where
  "row_step R i w w' =
     ((\<forall>j. j \<noteq> i \<longrightarrow> aw_rows w' j = aw_rows w j) \<and>
      (case aw_rows w i of None \<Rightarrow> aw_rows w' i = None | Some d \<Rightarrow> (\<exists>d'. aw_rows w' i = Some d' \<and> R d d')))"

lemma evolves_refl [simp]: "evolves d d"
  by (simp add: evolves_def)

lemma evolves_trans: "evolves d e \<Longrightarrow> evolves e f \<Longrightarrow> evolves d f"
  by (auto simp: evolves_def)

lemma row_step_rows: "reflp R \<Longrightarrow> aw_rows w' = aw_rows w \<Longrightarrow> row_step R i w w'"
  by (auto simp: row_step_def reflp_def split: option.splits)

lemma row_step_same: "row_step R i w w1 \<Longrightarrow> aw_rows w' = aw_rows w1 \<Longrightarrow> row_step R i w w'"
  by (cases "aw_rows w i") (auto simp: row_step_def)

lemma row_step_trans: "transp R \<Longrightarrow> row_step R i w w1 \<Longrightarrow> row_step R i w1 w2 \<Longrightarrow> row_step R i w w2"
  by (cases "aw_rows w i") (auto simp: row_step_def, metis transpD)

lemma row_step_update:
  "reflp R \<Longrightarrow> (\<And>d. R d (f d)) \<Longrightarrow> row_step R i w (snd (updateRow failed i f w))"
  by (auto simp: row_step_def updateRow_rows reflp_def split: option.splits)

lemma row_step_existing:
  "reflp R \<Longrightarrow> (\<And>d. R d (f d)) \<Longrightarrow> row_step R i w (snd (updateExisting failed i f w))"
  by (auto simp: row_step_def updateExisting_rows reflp_def split: option.splits)

lemma row_step_mono: "row_step R i w w' \<Longrightarrow> (\<And>d d'. R d d' \<Longrightarrow> S d d') \<Longrightarrow> row_step S i w w'"
  by (cases "aw_rows w i") (auto simp: row_step_def)

text \<open>Rate limits, overload, windows and samples: the status, the pause and the credentials stay.\<close>

definition only_limits :: "AccountRow \<Rightarrow> AccountRow \<Rightarrow> bool" where
  "only_limits d d' =
     (act_ID (row_acc d') = act_ID (row_acc d) \<and> act_Schedulable (row_acc d') = act_Schedulable (row_acc d) \<and>
      act_ExpiresAt (row_acc d') = act_ExpiresAt (row_acc d) \<and>
      act_AutoPauseOnExpired (row_acc d') = act_AutoPauseOnExpired (row_acc d) \<and>
      act_Status (row_acc d') = act_Status (row_acc d) \<and>
      act_TempUnschedulableUntil (row_acc d') = act_TempUnschedulableUntil (row_acc d) \<and>
      act_Credentials (row_acc d') = act_Credentials (row_acc d) \<and> row_ErrorMessage d' = row_ErrorMessage d)"

lemma only_limits_evolves: "only_limits d d' \<Longrightarrow> evolves d d'"
  by (simp add: only_limits_def evolves_def)

lemma preorders [simp]: "reflp evolves" "transp evolves" "reflp only_limits" "transp only_limits"
  by (auto simp: reflp_def transp_def only_limits_def intro: evolves_trans)

lemma row_step_limits:
  "row_step only_limits i w (snd (SetRateLimited fault now i t w))"
  "row_step only_limits i w (snd (SetOverloaded fault i t w))"
  "row_step only_limits i w (snd (repoUpdateSessionWindow fault i s e status w))"
  "row_step only_limits i w (snd (repoUpdateExtra fault i u w))"
proof -
  show "row_step only_limits i w (snd (SetRateLimited fault now i t w))" "row_step only_limits i w (snd (SetOverloaded fault i t w))"
    unfolding statement_defs by (rule row_step_update; simp add: only_limits_def)+
  show "row_step only_limits i w (snd (repoUpdateSessionWindow fault i s e status w))"
    by (auto simp: repoUpdateSessionWindow_def row_step_def only_limits_def windowRow_def split: option.splits)
  show "row_step only_limits i w (snd (repoUpdateExtra fault i u w))"
    by (auto simp: row_step_def repoUpdateExtra_rows only_limits_def split: option.splits)
qed

lemma row_step_marks:
  "row_step evolves i w (snd (SetError fault i msg w))"
  "row_step evolves i w (snd (SetTempUnschedulable fault i until reason w))"
  "row_step evolves i w (snd (UpdateCredentials fault i c w))"
  "row_step evolves i w (snd (ClearAntigravityQuotaScopes fault i w))"
  "row_step evolves i w (snd (ClearModelRateLimits fault i w))"
  "row_step evolves i w (snd (repoClearTempUnschedulable fault i w))"
  "row_step evolves i w (snd (repoClearRateLimit fault i w))"
proof -
  show "row_step evolves i w (snd (SetError fault i msg w))"
    "row_step evolves i w (snd (repoClearTempUnschedulable fault i w))" "row_step evolves i w (snd (repoClearRateLimit fault i w))"
    unfolding statement_defs by (rule row_step_update; simp add: evolves_def)+
  show "row_step evolves i w (snd (SetTempUnschedulable fault i until reason w))"
    unfolding statement_defs by (rule row_step_update) (simp_all add: evolves_def pauseRow_def split: option.splits)
  show "row_step evolves i w (snd (ClearAntigravityQuotaScopes fault i w))" "row_step evolves i w (snd (ClearModelRateLimits fault i w))"
    unfolding statement_defs by (rule row_step_existing; simp add: evolves_def)+
  show "row_step evolves i w (snd (UpdateCredentials fault i c w))"
    by (auto simp: UpdateCredentials_def row_step_def evolves_def split: option.splits)
qed

section \<open>What a pause or failure does\<close>

text \<open>At an instant nothing schedules the account: it has failed or is paused.\<close>

definition stopped :: "time \<Rightarrow> AccountRow \<Rightarrow> bool" where
  "stopped t d = (act_Status (row_acc d) = StatusError \<or> pending t (act_TempUnschedulableUntil (row_acc d)))"

lemma stopped_not_schedulable: "stopped t d \<Longrightarrow> \<not> IsSchedulable t (row_acc d)"
  by (auto simp: stopped_def IsSchedulable_def accountIsActive_def StatusActive_def StatusError_def)

definition row_at :: "int64 \<Rightarrow> account_world \<Rightarrow> (AccountRow \<Rightarrow> bool) \<Rightarrow> bool" where
  "row_at i w P = (case aw_rows w i of None \<Rightarrow> False | Some d \<Rightarrow> P d)"

lemma row_at_update: "\<not> failed \<Longrightarrow> row_at i w (\<lambda>d. P (f d)) \<Longrightarrow> row_at i (snd (updateRow failed i f w)) P"
  by (auto simp: row_at_def updateRow_rows split: option.splits)

lemma row_at_exists: "row_step R i w w' \<Longrightarrow> row_at i w (\<lambda>_. True) \<Longrightarrow> row_at i w' (\<lambda>_. True)"
  by (auto simp: row_step_def row_at_def split: option.splits)

lemma failed_stops:
  "row_at i w (\<lambda>_. True) \<Longrightarrow> row_at i (snd (SetError (\<lambda>_. False) i msg w)) (stopped t)"
  unfolding statement_defs by (rule row_at_update) (simp_all add: stopped_def row_at_def split: option.splits)

lemma paused_stops:
  "t < until \<Longrightarrow> row_at i w (\<lambda>_. True) \<Longrightarrow> row_at i (snd (SetTempUnschedulable (\<lambda>_. False) i until reason w)) (stopped t)"
  unfolding statement_defs
  by (rule row_at_update) (auto simp: stopped_def row_at_def pauseRow_def pending_def split: option.splits)

lemma row_at_cache: "aw_rows w' = aw_rows w \<Longrightarrow> row_at i w' P = row_at i w P"
  by (simp add: row_at_def)

lemma pauseAccount_effect:
  assumes "pauseAccount E i until s w = (ok, w')"
  shows "row_step evolves i w w'" and "\<not> ok \<Longrightarrow> w' = w"
    and "ok \<Longrightarrow> ue_faults E = (\<lambda>_. False) \<Longrightarrow> t < until \<Longrightarrow> row_at i w (\<lambda>_. True) \<Longrightarrow> row_at i w' (stopped t)"
proof -
  let ?reason = "marshalTempUnschedState s"
  obtain b w1 where b: "SetTempUnschedulable (ue_faults E) i until ?reason w = (b, w1)"
    by (cases "SetTempUnschedulable (ue_faults E) i until ?reason w") auto
  have w': "ok = b" "aw_rows w' = aw_rows w1" using assms b by (auto simp: pauseAccount_def split: bool.splits)
  have "row_step evolves i w w1" using row_step_marks(2) [of i w "ue_faults E" until ?reason] b by simp
  then show "row_step evolves i w w'" by (rule row_step_same [OF _ w'(2)])
  show "\<not> ok \<Longrightarrow> w' = w"
    using assms b by (cases b) (simp_all add: pauseAccount_def SetTempUnschedulable_def updateRow_def split: if_splits)
  show "ok \<Longrightarrow> ue_faults E = (\<lambda>_. False) \<Longrightarrow> t < until \<Longrightarrow> row_at i w (\<lambda>_. True) \<Longrightarrow> row_at i w' (stopped t)"
    using paused_stops [of t until i w ?reason] b w'(1) by (simp add: row_at_cache [OF w'(2)])
qed

lemma tryRules_effect:
  "tryRules E i c body low idx rules w = (ok, w') \<Longrightarrow>
   row_step evolves i w w' \<and> (\<not> ok \<longrightarrow> w' = w) \<and>
   (ok \<longrightarrow> ue_faults E = (\<lambda>_. False) \<longrightarrow> t < ue_time E + minute \<longrightarrow> row_at i w (\<lambda>_. True) \<longrightarrow> row_at i w' (stopped t))"
proof (induction rules arbitrary: idx w)
  case Nil
  then show ?case by (simp add: row_step_rows)
next
  case (Cons rule rules)
  let ?k = "matchTempUnschedKeyword low (tr_Keywords rule)"
  show ?case
  proof (cases "tr_ErrorCode rule \<noteq> c \<or> tr_Keywords rule = [] \<or> ?k = ''''")
    case True
    then show ?thesis using Cons by auto
  next
    case False
    obtain b w1 where b: "triggerTempUnschedulable E i rule idx c ?k body w = (b, w1)"
      by (cases "triggerTempUnschedulable E i rule idx c ?k body w") auto
    show ?thesis
    proof (cases "tr_DurationMinutes rule \<le> 0")
      case True
      then have "b = False \<and> w1 = w" using b by (simp add: triggerTempUnschedulable_def)
      then show ?thesis using Cons b False by auto
    next
      case pos: False
      define until where "until = ue_time E + tr_DurationMinutes rule * minute"
      obtain s where s: "pauseAccount E i until s w = (b, w1)"
        using b pos by (auto simp: triggerTempUnschedulable_def Let_def until_def)
      have late: "t < ue_time E + minute \<Longrightarrow> t < until" for t
        using pos by (simp add: until_def minute_def)
      show ?thesis
      proof (cases b)
        case True
        then have "ok" "w' = w1" using Cons.prems b False by auto
        then show ?thesis using pauseAccount_effect(1,3) [OF s] late True by blast
      next
        case False
        then have "w1 = w" using pauseAccount_effect(2) [OF s] by simp
        then show ?thesis using Cons b False \<open>\<not> (tr_ErrorCode rule \<noteq> c \<or> tr_Keywords rule = [] \<or> ?k = '''')\<close> by auto
      qed
    qed
  qed
qed

lemma tryTemp_effect:
  assumes "tryTempUnschedulable E r c body w = (ok, w')"
  shows "row_step evolves (act_ID (row_acc r)) w w'" and "\<not> ok \<Longrightarrow> w' = w"
    and "ok \<Longrightarrow> ue_faults E = (\<lambda>_. False) \<Longrightarrow> t < ue_time E + minute \<Longrightarrow> row_at (act_ID (row_acc r)) w (\<lambda>_. True) \<Longrightarrow>
         row_at (act_ID (row_acc r)) w' (stopped t)"
proof -
  have "row_step evolves (act_ID (row_acc r)) w w' \<and> (\<not> ok \<longrightarrow> w' = w) \<and>
     (ok \<longrightarrow> ue_faults E = (\<lambda>_. False) \<longrightarrow> t < ue_time E + minute \<longrightarrow> row_at (act_ID (row_acc r)) w (\<lambda>_. True) \<longrightarrow>
      row_at (act_ID (row_acc r)) w' (stopped t))"
    using assms tryRules_effect [of E "act_ID (row_acc r)" c body _ 0 "GetTempUnschedulableRules (row_acc r)" w ok w' t]
    by (auto simp: tryTempUnschedulable_def row_step_rows split: if_splits)
  then show "row_step evolves (act_ID (row_acc r)) w w'" and "\<not> ok \<Longrightarrow> w' = w"
    and "ok \<Longrightarrow> ue_faults E = (\<lambda>_. False) \<Longrightarrow> t < ue_time E + minute \<Longrightarrow> row_at (act_ID (row_acc r)) w (\<lambda>_. True) \<Longrightarrow>
         row_at (act_ID (row_acc r)) w' (stopped t)"
    by blast+
qed

section \<open>Upstream errors\<close>

lemma auth_error_effect:
  "row_step evolves (act_ID (row_acc r)) w (handleAuthError E r msg w)"
  "ue_faults E = (\<lambda>_. False) \<Longrightarrow> row_at (act_ID (row_acc r)) w (\<lambda>_. True) \<Longrightarrow>
   row_at (act_ID (row_acc r)) (handleAuthError E r msg w) (stopped t)"
  by (simp_all add: handleAuthError_def row_step_marks failed_stops)

lemma handleOAuth401_effect:
  fixes E r msg w
  defines "i \<equiv> act_ID (row_acc r)"
  shows "row_step evolves i w (handleOAuth401 E r msg w)"
    and "ue_faults E = (\<lambda>_. False) \<Longrightarrow> t < ue_time E + minute \<Longrightarrow> row_at i w (\<lambda>_. True) \<Longrightarrow>
         row_at i (handleOAuth401 E r msg w) (stopped t)"
proof -
  define w1 where "w1 = (if ue_hasTokenInvalidator E \<and> \<not> ue_faults E CallInvalidateToken
                then w\<lparr>aw_tokensDropped := aw_tokensDropped w @ [i]\<rparr> else w)"
  define w2 where "w2 = snd (UpdateCredentials (ue_faults E) i
      (setKey ''expires_at'' (GString (ue_format E (ue_time E))) (act_Credentials (row_acc r))) w1)"
  define until where "until = ue_time E + (if ue_oauth401Minutes E \<le> 0 then 10 else ue_oauth401Minutes E) * minute"
  define m where "m = withDetail ''OAuth 401: '' ''Authentication failed (401): invalid or expired credentials'' msg"
  have h: "handleOAuth401 E r msg w = snd (SetTempUnschedulable (ue_faults E) i until m w2)"
    unfolding handleOAuth401_def w2_def w1_def until_def i_def m_def Let_def by (rule refl)
  have s1: "row_step evolves i w w1" by (rule row_step_rows) (simp_all add: w1_def)
  have s2: "row_step evolves i w1 w2" unfolding w2_def by (rule row_step_marks)
  have s12: "row_step evolves i w w2" by (rule row_step_trans [OF _ s1 s2]) simp
  show "row_step evolves i w (handleOAuth401 E r msg w)"
    unfolding h by (rule row_step_trans [OF _ s12 row_step_marks(2)]) simp
  assume "ue_faults E = (\<lambda>_. False)" "t < ue_time E + minute" "row_at i w (\<lambda>_. True)"
  moreover have "ue_time E + minute \<le> until" by (simp add: until_def minute_def)
  ultimately show "row_at i (handleOAuth401 E r msg w) (stopped t)"
    unfolding h using paused_stops [of t until i w2 m] row_at_exists [OF s12] by simp
qed

lemma handle401_effect:
  "row_step evolves (act_ID (row_acc r)) w (handle401 E r msg body w)"
  "ue_faults E = (\<lambda>_. False) \<Longrightarrow> t < ue_time E + minute \<Longrightarrow> row_at (act_ID (row_acc r)) w (\<lambda>_. True) \<Longrightarrow>
   row_at (act_ID (row_acc r)) (handle401 E r msg body w) (stopped t)"
  by (simp_all add: handle401_def Let_def auth_error_effect handleOAuth401_effect)

lemma handle402_effect:
  "row_step evolves (act_ID (row_acc r)) w (handle402 E r msg body w)"
  "ue_faults E = (\<lambda>_. False) \<Longrightarrow> row_at (act_ID (row_acc r)) w (\<lambda>_. True) \<Longrightarrow>
   row_at (act_ID (row_acc r)) (handle402 E r msg body w) (stopped t)"
  by (simp_all add: handle402_def auth_error_effect)

lemma custom_code_effect:
  "row_step evolves (act_ID (row_acc r)) w (handleCustomErrorCode E r c msg w)"
  "ue_faults E = (\<lambda>_. False) \<Longrightarrow> row_at (act_ID (row_acc r)) w (\<lambda>_. True) \<Longrightarrow>
   row_at (act_ID (row_acc r)) (handleCustomErrorCode E r c msg w) (stopped t)"
  by (simp_all add: handleCustomErrorCode_def row_step_marks failed_stops)

lemma handle429_limits: "row_step only_limits (act_ID (row_acc r)) w (handle429 E r body w)"
proof -
  let ?i = "act_ID (row_acc r)"
  define w1 where "w1 = (if act_Platform (row_acc r) = PlatformOpenAI then persistOpenAICodexSnapshot E r w else w)"
  have s1: "row_step only_limits ?i w w1"
    by (simp add: w1_def persistOpenAICodexSnapshot_def row_step_rows row_step_limits split: option.split)
  note more = row_step_trans [OF preorders(4) s1]
  show ?thesis
  proof (cases "decide429 E r body")
    case NoLimit
    then show ?thesis using s1 by (simp add: handle429_def w1_def)
  next
    case (LimitUntil t)
    have "handle429 E r body w = snd (SetRateLimited (ue_faults E) (ue_time E) ?i t w1)"
      unfolding handle429_def Let_def w1_def [symmetric] LimitUntil by simp
    then show ?thesis by (simp add: more row_step_limits)
  next
    case (LimitWithWindow t e)
    obtain b w2 where b: "SetRateLimited (ue_faults E) (ue_time E) ?i t w1 = (b, w2)"
      by (cases "SetRateLimited (ue_faults E) (ue_time E) ?i t w1") auto
    have s2: "row_step only_limits ?i w w2" using more [OF row_step_limits(1) [of ?i w1 "ue_faults E" "ue_time E" t]] b by simp
    have "handle429 E r body w =
        (if b then snd (repoUpdateSessionWindow (ue_faults E) ?i (Some (e - fiveHours)) (Some e) ''rejected'' w2) else w2)"
      unfolding handle429_def Let_def w1_def [symmetric] LimitWithWindow by (cases b) (simp_all add: b)
    then show ?thesis using s2 row_step_trans [OF preorders(4) s2 row_step_limits(3)] by simp
  qed
qed

lemma handle529_limits: "row_step only_limits (act_ID (row_acc r)) w (handle529 E r w)"
  by (simp add: handle529_def Let_def row_step_rows row_step_limits)

lemma handleStatus_effect:
  assumes "handleStatus E r c body w = (stop, w')"
  shows "row_step evolves (act_ID (row_acc r)) w w'"
    and "\<not> stop \<Longrightarrow> row_step only_limits (act_ID (row_acc r)) w w'"
    and "stop \<Longrightarrow> ue_faults E = (\<lambda>_. False) \<Longrightarrow> t < ue_time E + minute \<Longrightarrow> row_at (act_ID (row_acc r)) w (\<lambda>_. True) \<Longrightarrow>
         row_at (act_ID (row_acc r)) w' (stopped t)"
proof -
  note limits = row_step_mono [OF handle429_limits only_limits_evolves] row_step_mono [OF handle529_limits only_limits_evolves]
  show "row_step evolves (act_ID (row_acc r)) w w'"
    using assms by (auto simp: handleStatus_def Let_def handle403_def auth_error_effect handle401_effect handle402_effect
        custom_code_effect limits row_step_rows split: if_splits)
  show "\<not> stop \<Longrightarrow> row_step only_limits (act_ID (row_acc r)) w w'"
    using assms by (auto simp: handleStatus_def Let_def handle403_def handle429_limits handle529_limits row_step_rows
        split: if_splits)
  show "stop \<Longrightarrow> ue_faults E = (\<lambda>_. False) \<Longrightarrow> t < ue_time E + minute \<Longrightarrow> row_at (act_ID (row_acc r)) w (\<lambda>_. True) \<Longrightarrow>
         row_at (act_ID (row_acc r)) w' (stopped t)"
    using assms by (auto simp: handleStatus_def Let_def handle403_def auth_error_effect handle401_effect handle402_effect
        custom_code_effect split: if_splits)
qed

lemma HandleUpstreamError_effect:
  assumes "HandleUpstreamError E r c body w = (stop, w')"
  shows "row_step evolves (act_ID (row_acc r)) w w'"
    and "\<not> stop \<Longrightarrow> row_step only_limits (act_ID (row_acc r)) w w'"
    and "stop \<Longrightarrow> ue_faults E = (\<lambda>_. False) \<Longrightarrow> t < ue_time E + minute \<Longrightarrow> row_at (act_ID (row_acc r)) w (\<lambda>_. True) \<Longrightarrow>
         row_at (act_ID (row_acc r)) w' (stopped t)"
proof -
  let ?i = "act_ID (row_acc r)"
  consider (ignored) "stop = False" "w' = w" | (paused) "tryTempUnschedulable E r c body w = (True, w')" "stop = True"
    | (status) "handleStatus E r c body w = (stop, w')"
  proof (cases "IsPoolMode (row_acc r) \<and> \<not> IsCustomErrorCodesEnabled (row_acc r) \<or> \<not> ShouldHandleErrorCode (row_acc r) c")
    case True
    then show thesis using assms that(1) by (auto simp: HandleUpstreamError_def split: if_splits)
  next
    case handled: False
    obtain b w1 where b: "tryTempUnschedulable E r c body w = (b, w1)"
      by (cases "tryTempUnschedulable E r c body w") auto
    show thesis
    proof (cases "c = 401")
      case True
      then show thesis using assms handled that(3) by (auto simp: HandleUpstreamError_def split: if_splits)
    next
      case False
      then show thesis
        using assms handled b that(2,3) tryTemp_effect(2) [OF b] by (cases b) (auto simp: HandleUpstreamError_def split: if_splits)
    qed
  qed
  note split = this
  show "row_step evolves ?i w w'"
    by (rule split) (auto intro: row_step_rows tryTemp_effect(1) handleStatus_effect(1))
  show "\<not> stop \<Longrightarrow> row_step only_limits ?i w w'"
    by (rule split) (auto intro: row_step_rows handleStatus_effect(2))
  show "row_at ?i w' (stopped t)" if "stop" "ue_faults E = (\<lambda>_. False)" "t < ue_time E + minute" "row_at ?i w (\<lambda>_. True)"
  proof (rule split)
    show "row_at ?i w' (stopped t)" if "stop = False" "w' = w" using that \<open>stop\<close> by simp
    show "row_at ?i w' (stopped t)" if "tryTempUnschedulable E r c body w = (True, w')" "stop = True"
      using tryTemp_effect(3) [OF that(1)] \<open>ue_faults E = (\<lambda>_. False)\<close> \<open>t < ue_time E + minute\<close> \<open>row_at ?i w (\<lambda>_. True)\<close> by simp
    show "row_at ?i w' (stopped t)" if "handleStatus E r c body w = (stop, w')"
      using handleStatus_effect(3) [OF that] \<open>stop\<close> \<open>ue_faults E = (\<lambda>_. False)\<close> \<open>t < ue_time E + minute\<close>
        \<open>row_at ?i w (\<lambda>_. True)\<close> by simp
  qed
qed

section \<open>Limits that upstreams announce\<close>

text \<open>A window that is used up decides, the longer one first; otherwise the window that ends sooner.\<close>

definition announcedReset :: "upstream_env \<Rightarrow> int \<Rightarrow> int \<Rightarrow> time" where
  "announcedReset E r5 r7 =
     unixTime (if isAnthropicWindowExceeded E ''7d'' then r7
               else if isAnthropicWindowExceeded E ''5h'' then r5 else min r5 r7)"

lemma parse_int_empty: "parse_int '''' = None"
  by (simp add: parse_int_def split_sign.simps)

lemma calculateAnthropic_reset:
  assumes "parse_int (ue_header E ''anthropic-ratelimit-unified-5h-reset'') = Some r5"
    and "parse_int (ue_header E ''anthropic-ratelimit-unified-7d-reset'') = Some r7"
  shows "calculateAnthropic429ResetTime E = Some (announcedReset E r5 r7, Some (unixTime r5))"
proof -
  have "ue_header E ''anthropic-ratelimit-unified-5h-reset'' \<noteq> ''''"
    using assms(1) parse_int_empty by auto
  then show ?thesis
    using assms by (simp add: calculateAnthropic429ResetTime_def announcedReset_def Let_def pickSooner_def unixTime_def
        second_def min_def)
qed

lemma handle429_window:
  assumes "decide429 E r body = LimitWithWindow T e" "act_Platform (row_acc r) \<noteq> PlatformOpenAI"
    and "ue_faults E = (\<lambda>_. False)" "aw_rows w (act_ID (row_acc r)) = Some d"
  shows "\<exists>d'. aw_rows (handle429 E r body w) (act_ID (row_acc r)) = Some d' \<and>
    row_acc d' = (row_acc d)\<lparr>act_RateLimitResetAt := Some T, act_SessionWindowStart := Some (e - fiveHours),
      act_SessionWindowEnd := Some e\<rparr> \<and>
    row_RateLimitedAt d' = Some (ue_time E) \<and> row_SessionWindowStatus d' = ''rejected''"
  using assms by (simp add: handle429_def Let_def SetRateLimited_def updateRow_def repoUpdateSessionWindow_def windowRow_def)

text \<open>
  C35. After \<open>HandleUpstreamError\<close> no account but the one of the error has changed.  The answer that the
  request may stay means that at most limits, windows and samples of the account have: its status, its
  pause, its credentials are as before.  The answer that it has to leave means, if the statements
  succeed, that nothing schedules the account for at least a minute.
\<close>

theorem upstream_error_verdict:
  assumes "HandleUpstreamError E r c body w = (stop, w')"
  defines "i \<equiv> act_ID (row_acc r)"
  shows "(\<forall>j. j \<noteq> i \<longrightarrow> aw_rows w' j = aw_rows w j) \<and>
    (\<not> stop \<longrightarrow> row_step only_limits i w w') \<and>
    (stop \<and> ue_faults E = (\<lambda>_. False) \<and> aw_rows w i \<noteq> None \<longrightarrow>
     (\<exists>d. aw_rows w' i = Some d \<and> (\<forall>t < ue_time E + minute. \<not> IsSchedulable t (row_acc d))))"
proof (intro conjI impI)
  show "\<forall>j. j \<noteq> i \<longrightarrow> aw_rows w' j = aw_rows w j"
    using HandleUpstreamError_effect(1) [OF assms(1)] by (simp add: row_step_def i_def)
  show "row_step only_limits i w w'" if "\<not> stop"
    using HandleUpstreamError_effect(2) [OF assms(1) that] by (simp add: i_def)
  assume *: "stop \<and> ue_faults E = (\<lambda>_. False) \<and> aw_rows w i \<noteq> None"
  have "row_at i w' (stopped t)" if "t < ue_time E + minute" for t
    using HandleUpstreamError_effect(3) [OF assms(1)] * that by (auto simp: row_at_def i_def)
  then have st: "case aw_rows w' i of None \<Rightarrow> False | Some d \<Rightarrow> stopped t d" if "t < ue_time E + minute" for t
    using that by (simp add: row_at_def)
  obtain d where d: "aw_rows w' i = Some d"
    using st [of "ue_time E"] by (auto simp: minute_def second_def split: option.splits)
  show "\<exists>d. aw_rows w' i = Some d \<and> (\<forall>t < ue_time E + minute. \<not> IsSchedulable t (row_acc d))"
    using st d stopped_not_schedulable by auto
qed


section \<open>Stream timeouts\<close>

text \<open>The timeouts of an account at the given instants, with their answers.\<close>

primrec streamTimeouts :: "upstream_env \<Rightarrow> AccountRow \<Rightarrow> gostr \<Rightarrow> time list \<Rightarrow> account_world \<Rightarrow> bool list \<times> account_world" where
  "streamTimeouts E r model [] w = ([], w)"
| "streamTimeouts E r model (t # ts) w =
     (case HandleStreamTimeout (E\<lparr>ue_time := t\<rparr>) r model w of (b, w1) \<Rightarrow>
        case streamTimeouts E r model ts w1 of (bs, w2) \<Rightarrow> (b # bs, w2))"

lemma streamTimeouts_append:
  "streamTimeouts E r model (ts @ us) w =
     (case streamTimeouts E r model ts w of (bs, w1) \<Rightarrow> case streamTimeouts E r model us w1 of (cs, w2) \<Rightarrow> (bs @ cs, w2))"
  by (induction ts arbitrary: w) (auto split: prod.splits)

text \<open>The settings under which timeouts are counted towards an action.\<close>

definition countsTimeouts :: "upstream_env \<Rightarrow> StreamTimeoutSettings \<Rightarrow> bool" where
  "countsTimeouts E s =
     (ue_streamTimeout E = Some (Some s) \<and> st_Enabled s \<and> st_Action s \<in> {StreamTimeoutActionTempUnsched, StreamTimeoutActionError} \<and>
      ue_hasTimeoutCache E \<and> ue_faults E = (\<lambda>_. False))"

text \<open>The number of timeouts in the window that was alive at \<open>t\<close> or starts there.\<close>

definition timeoutsAt :: "time \<Rightarrow> StreamTimeoutSettings \<Rightarrow> int64 \<Rightarrow> account_world \<Rightarrow> int \<times> time" where
  "timeoutsAt t s i w =
     (case timeoutsAlive t i w of
        None \<Rightarrow> (0, t + max 60 (st_ThresholdWindowMinutes s * 60) * second)
      | Some ne \<Rightarrow> ne)"

lemma timeout_counted:
  assumes "countsTimeouts E s" "timeoutsAt t s (act_ID (row_acc r)) w = (n, e)" "n + 1 < st_ThresholdCount s"
  shows "HandleStreamTimeout (E\<lparr>ue_time := t\<rparr>) r model w =
     (False, w\<lparr>aw_timeouts := (aw_timeouts w)(act_ID (row_acc r) \<mapsto> (n + 1, e))\<rparr>)"
  using assms
  by (auto simp: countsTimeouts_def HandleStreamTimeout_def countTimeout_def IncrementTimeoutCount_def timeoutsAt_def
      StreamTimeoutActionNone_def StreamTimeoutActionTempUnsched_def StreamTimeoutActionError_def split: option.splits)

lemma timeouts_counted:
  assumes "countsTimeouts E s"
  shows "timeoutsAt t s (act_ID (row_acc r)) w = (n, e) \<Longrightarrow> n + int (length (t # ts)) < st_ThresholdCount s \<Longrightarrow>
     (\<forall>u\<in>set ts. u < e) \<Longrightarrow>
     streamTimeouts E r model (t # ts) w =
       (replicate (length (t # ts)) False,
        w\<lparr>aw_timeouts := (aw_timeouts w)(act_ID (row_acc r) \<mapsto> (n + int (length (t # ts)), e))\<rparr>)"
proof (induction ts arbitrary: t n w)
  case Nil
  then show ?case using timeout_counted [OF assms Nil(1), of model] by (simp add: fun_upd_def)
next
  case (Cons u us)
  let ?i = "act_ID (row_acc r)"
  define w1 where "w1 = w\<lparr>aw_timeouts := (aw_timeouts w)(?i \<mapsto> (n + 1, e))\<rparr>"
  have h: "HandleStreamTimeout (E\<lparr>ue_time := t\<rparr>) r model w = (False, w1)"
    using timeout_counted [OF assms Cons.prems(1), of model] Cons.prems(2) by (simp add: w1_def)
  have at: "timeoutsAt u s ?i w1 = (n + 1, e)"
    using Cons.prems(3) by (simp add: w1_def timeoutsAt_def timeoutsAlive_def)
  have "streamTimeouts E r model (u # us) w1 = (replicate (length (u # us)) False,
          w1\<lparr>aw_timeouts := (aw_timeouts w1)(?i \<mapsto> (n + 1 + int (length (u # us)), e))\<rparr>)"
    by (rule Cons.IH [OF at]) (use Cons.prems in auto)
  moreover have "w1\<lparr>aw_timeouts := (aw_timeouts w1)(?i \<mapsto> (n + 1 + int (length (u # us)), e))\<rparr> =
      w\<lparr>aw_timeouts := (aw_timeouts w)(?i \<mapsto> (n + int (length (t # u # us)), e))\<rparr>"
    by (rule account_world.equality) (auto simp: w1_def fun_eq_iff)
  ultimately show ?case
    by (simp only: streamTimeouts.simps(2) [of E r model t] h prod.case) (simp del: fun_upd_apply)
qed

lemma triggerTimeout_pauses:
  "\<exists>st. triggerStreamTimeoutTempUnsched E r s model w =
     (case pauseAccount E (act_ID (row_acc r)) (ue_time E + st_TempUnschedMinutes s * minute) st w of
        (False, w1) \<Rightarrow> (False, w1) | (True, w1) \<Rightarrow> (True, resetTimeouts E (act_ID (row_acc r)) w1))"
  unfolding triggerStreamTimeoutTempUnsched_def Let_def by (rule exI) (rule refl)

lemma timeout_fires:
  assumes "countsTimeouts E s" "timeoutsAt t s i w = (n, e)" "st_ThresholdCount s \<le> n + 1"
    and "aw_rows w i = Some d" "i = act_ID (row_acc r)" "HandleStreamTimeout (E\<lparr>ue_time := t\<rparr>) r model w = (b, w')"
  shows "b \<and> aw_timeouts w' i = None \<and>
    (\<exists>d'. aw_rows w' i = Some d' \<and>
      (st_Action s = StreamTimeoutActionError \<longrightarrow> act_Status (row_acc d') = StatusError) \<and>
      (st_Action s = StreamTimeoutActionTempUnsched \<longrightarrow>
       (\<forall>u < t + st_TempUnschedMinutes s * minute. pending u (act_TempUnschedulableUntil (row_acc d')))))"
proof -
  obtain w1 where c: "countTimeout (E\<lparr>ue_time := t\<rparr>) i (st_ThresholdWindowMinutes s) w = (n + 1, w1)" "aw_rows w1 = aw_rows w"
    using assms(1,2) by (auto simp: countsTimeouts_def countTimeout_def IncrementTimeoutCount_def timeoutsAt_def split: option.splits)
  note start = assms(1,3,4,6) c assms(5) [symmetric]
  show ?thesis
  proof (cases "st_Action s = StreamTimeoutActionError")
    case True
    then show ?thesis
      using start by (auto simp: countsTimeouts_def HandleStreamTimeout_def triggerStreamTimeoutError_def SetError_def updateRow_def
          resetTimeouts_def ResetTimeoutCount_def StreamTimeoutActionNone_def StreamTimeoutActionTempUnsched_def
          StreamTimeoutActionError_def)
  next
    case False
    then have a: "st_Action s = StreamTimeoutActionTempUnsched" using assms(1) by (auto simp: countsTimeouts_def)
    define until where "until = t + st_TempUnschedMinutes s * minute"
    obtain st where st: "triggerStreamTimeoutTempUnsched (E\<lparr>ue_time := t\<rparr>) r s model w1 =
        (case pauseAccount (E\<lparr>ue_time := t\<rparr>) i until st w1 of
           (False, w1) \<Rightarrow> (False, w1) | (True, w1) \<Rightarrow> (True, resetTimeouts (E\<lparr>ue_time := t\<rparr>) i w1))"
      using triggerTimeout_pauses [of "E\<lparr>ue_time := t\<rparr>" r s model w1] unfolding until_def assms(5) by auto
    obtain b1 w2 where p: "pauseAccount (E\<lparr>ue_time := t\<rparr>) i until st w1 = (b1, w2)"
      by (cases "pauseAccount (E\<lparr>ue_time := t\<rparr>) i until st w1") auto
    have h: "(b, w') = (case (b1, w2) of (False, w1) \<Rightarrow> (False, w1)
                          | (True, w1) \<Rightarrow> (True, resetTimeouts (E\<lparr>ue_time := t\<rparr>) i w1))"
      using start a by (simp add: countsTimeouts_def HandleStreamTimeout_def st p
          StreamTimeoutActionNone_def StreamTimeoutActionTempUnsched_def)
    have f: "ue_faults E = (\<lambda>_. False)" "ue_hasTimeoutCache E" using assms(1) by (auto simp: countsTimeouts_def)
    have "b1 \<and> aw_rows w2 = (aw_rows w)(i \<mapsto> pauseRow until (marshalTempUnschedState st) d)"
      using p f c(2) assms(4) by (auto simp: pauseAccount_def Let_def SetTempUnschedulable_def updateRow_def)
    then show ?thesis
      using h f a by (auto simp: resetTimeouts_def ResetTimeoutCount_def pauseRow_def pending_def until_def
          StreamTimeoutActionTempUnsched_def StreamTimeoutActionError_def split: option.splits)
  qed
qed

text \<open>
  C37. Of the timeouts of an account within one window, those before the threshold change nothing but the
  count; the one that reaches the threshold stops the account, for good or for the configured minutes, and
  the count starts again.
\<close>

theorem stream_timeouts_exact:
  assumes "countsTimeouts E s" "timeoutsAlive t0 (act_ID (row_acc r)) w = None"
    and "ts = t0 # us" "int (length ts) + 1 = st_ThresholdCount s"
    and "\<forall>u\<in>set (us @ [t]). u < t0 + max 60 (st_ThresholdWindowMinutes s * 60) * second"
    and "aw_rows w (act_ID (row_acc r)) = Some d"
    and "streamTimeouts E r model ts w = (early, w1)" "streamTimeouts E r model (ts @ [t]) w = (answers, w2)"
  shows "early = replicate (length ts) False \<and> aw_rows w1 = aw_rows w \<and> aw_pauses w1 = aw_pauses w \<and>
    answers = early @ [True] \<and> aw_timeouts w2 (act_ID (row_acc r)) = None \<and>
    (\<exists>d'. aw_rows w2 (act_ID (row_acc r)) = Some d' \<and>
      (\<forall>u < t + st_TempUnschedMinutes s * minute. \<not> IsSchedulable u (row_acc d')) \<and>
      (st_Action s = StreamTimeoutActionError \<longrightarrow> (\<forall>u. \<not> IsSchedulable u (row_acc d'))))"
proof -
  let ?i = "act_ID (row_acc r)"
  define e where "e = t0 + max 60 (st_ThresholdWindowMinutes s * 60) * second"
  have at: "timeoutsAt t0 s ?i w = (0, e)" using assms(2) by (simp add: timeoutsAt_def e_def)
  have run: "early = replicate (length ts) False"
      "w1 = w\<lparr>aw_timeouts := (aw_timeouts w)(?i \<mapsto> (int (length ts), e))\<rparr>"
    using timeouts_counted [OF assms(1) at, of us model] assms(3,4,5,7) by (auto simp: e_def)
  have at1: "timeoutsAt t s ?i w1 = (int (length ts), e)"
    using assms(5) by (simp add: run(2) timeoutsAt_def timeoutsAlive_def e_def)
  obtain b where b: "HandleStreamTimeout (E\<lparr>ue_time := t\<rparr>) r model w1 = (b, w2)" "answers = early @ [b]"
    using assms(7,8) by (auto simp: streamTimeouts_append split: prod.splits)
  have row: "aw_rows w1 ?i = Some d" using assms(6) by (simp add: run(2))
  have act: "st_Action s = StreamTimeoutActionError \<or> st_Action s = StreamTimeoutActionTempUnsched"
    using assms(1) by (auto simp: countsTimeouts_def)
  have "st_ThresholdCount s \<le> int (length ts) + 1" using assms(4) by simp
  from timeout_fires [OF assms(1) at1 this row refl b(1)] act show ?thesis
    by (auto simp: run b(2) IsSchedulable_def accountIsActive_def StatusActive_def StatusError_def
        StreamTimeoutActionTempUnsched_def StreamTimeoutActionError_def)
qed

section \<open>Examples\<close>

definition exampleRow :: AccountRow where
  "exampleRow = \<lparr>row_acc = plainAccount 7 PlatformAnthropic AccountTypeAPIKey, row_ErrorMessage = '''',
     row_RateLimitedAt = None, row_TempReason = '''', row_SessionWindowStatus = ''''\<rparr>"

definition exampleWorld :: account_world where
  "exampleWorld = \<lparr>aw_rows = [7 \<mapsto> exampleRow], aw_outbox = [], aw_pauses = Map.empty, aw_timeouts = Map.empty,
     aw_tokensDropped = []\<rparr>"

text \<open>Both windows are announced, and the longer one is used up; two timeouts in ten minutes pause for five.\<close>

definition exampleTimeouts :: StreamTimeoutSettings where
  "exampleTimeouts = \<lparr>st_Enabled = True, st_Action = StreamTimeoutActionTempUnsched, st_TempUnschedMinutes = 5,
     st_ThresholdCount = 2, st_ThresholdWindowMinutes = 10\<rparr>"

definition exampleEnv :: upstream_env where
  "exampleEnv = \<lparr>ue_time = 1000 * second, ue_faults = (\<lambda>_. False),
     ue_header = (\<lambda>k. if k = ''anthropic-ratelimit-unified-5h-reset'' then ''18000''
                      else if k = ''anthropic-ratelimit-unified-7d-reset'' then ''604800''
                      else if k = ''anthropic-ratelimit-unified-7d-surpassed-threshold'' then ''true'' else ''''),
     ue_gjson = (\<lambda>_ _. ''''), ue_gjsonEach = (\<lambda>_ _ _. []), ue_json = (\<lambda>_. None), ue_tempState = (\<lambda>_. None),
     ue_format = (\<lambda>_. ''''), ue_pacific = UTC, ue_local = UTC, ue_hasTokenInvalidator = False, ue_hasTempCache = True,
     ue_hasTimeoutCache = True, ue_overload = None, ue_streamTimeout = Some (Some exampleTimeouts),
     ue_overloadMinutes = 10, ue_oauth401Minutes = 10\<rparr>"

lemmas example_defs = exampleRow_def exampleWorld_def exampleEnv_def exampleTimeouts_def plainAccount_def

lemma example_values [simp]:
  "act_ID (row_acc exampleRow) = 7" "aw_rows exampleWorld 7 = Some exampleRow" "ue_faults exampleEnv = (\<lambda>_. False)"
  "ue_time exampleEnv = 1000 * second" "act_Platform (row_acc exampleRow) = PlatformAnthropic"
  by (simp_all add: example_defs)

lemma example_handled [simp]:
  "\<not> IsTempUnschedulableEnabled (row_acc exampleRow)" "\<not> IsPoolMode (row_acc exampleRow)"
  "ShouldHandleErrorCode (row_acc exampleRow) c" "\<not> IsCustomErrorCodesEnabled (row_acc exampleRow)"
  by (simp_all add: example_defs IsTempUnschedulableEnabled_def IsPoolMode_def ShouldHandleErrorCode_def
      IsCustomErrorCodesEnabled_def get_def)

theorem upstream_error_verdict_witness:
  "fst (HandleUpstreamError exampleEnv exampleRow 403 ''banned'' exampleWorld) \<and>
   (\<exists>d. aw_rows (snd (HandleUpstreamError exampleEnv exampleRow 403 ''banned'' exampleWorld)) 7 = Some d \<and>
        (\<forall>t < 1060 * second. \<not> IsSchedulable t (row_acc d)))"
proof -
  define w where "w = snd (HandleUpstreamError exampleEnv exampleRow 403 ''banned'' exampleWorld)"
  have "HandleUpstreamError exampleEnv exampleRow 403 ''banned'' exampleWorld = (True, w)"
    by (simp add: w_def HandleUpstreamError_def tryTempUnschedulable_def handleStatus_def Let_def handle403_def)
  from upstream_error_verdict [OF this] this show ?thesis
    by (simp add: minute_def second_def)
qed


theorem stream_timeouts_exact_witness:
  "fst (streamTimeouts exampleEnv exampleRow ''m'' [0, second] exampleWorld) = [False, True] \<and>
   (\<exists>d. aw_rows (snd (streamTimeouts exampleEnv exampleRow ''m'' [0, second] exampleWorld)) 7 = Some d \<and>
        (\<forall>u < second + 5 * minute. \<not> IsSchedulable u (row_acc d)))"
proof -
  have 1: "countsTimeouts exampleEnv exampleTimeouts" "timeoutsAlive 0 (act_ID (row_acc exampleRow)) exampleWorld = None"
      "int (length [0]) + 1 = st_ThresholdCount exampleTimeouts" "act_ID (row_acc exampleRow) = 7"
      "aw_rows exampleWorld (act_ID (row_acc exampleRow)) = Some exampleRow" "st_TempUnschedMinutes exampleTimeouts = 5"
      "\<forall>u\<in>set ([] @ [second]). u < 0 + max 60 (st_ThresholdWindowMinutes exampleTimeouts * 60) * second"
    by (simp_all add: countsTimeouts_def timeoutsAlive_def example_defs second_def)
  obtain bs w1 cs w2 where 2: "streamTimeouts exampleEnv exampleRow ''m'' [0] exampleWorld = (bs, w1)"
      "streamTimeouts exampleEnv exampleRow ''m'' ([0] @ [second]) exampleWorld = (cs, w2)"
    by fastforce
  show ?thesis
    using stream_timeouts_exact [OF 1(1,2) refl 1(3) 1(7,5) 2] 2 1(4,6) by auto
qed

end
