(* ===== verification/Upstream_Recovery.thy ===== *)
theory Upstream_Recovery
  imports Upstream_Errors_Safety
begin

text \<open>
  Recovery of an account (\<open>RecoverAccountState\<close> of \<open>internal/service/ratelimit_service.go\<close>) after any
  history of errors, timeouts, successful responses and earlier, possibly failed, recoveries.
\<close>

section \<open>What every operation keeps\<close>

text \<open>Operations at run time leave what the administration decides; a status becomes a failure or active.\<close>

definition managed :: "AccountRow \<Rightarrow> AccountRow \<Rightarrow> bool" where
  "managed d d' =
     (act_ID (row_acc d') = act_ID (row_acc d) \<and> act_Schedulable (row_acc d') = act_Schedulable (row_acc d) \<and>
      act_ExpiresAt (row_acc d') = act_ExpiresAt (row_acc d) \<and>
      act_AutoPauseOnExpired (row_acc d') = act_AutoPauseOnExpired (row_acc d) \<and>
      act_Status (row_acc d') \<in> {act_Status (row_acc d), StatusError, StatusActive})"

lemma managed_preorder [simp]: "reflp managed" "transp managed"
  by (auto simp: reflp_def transp_def managed_def)

lemma evolves_managed: "evolves d d' \<Longrightarrow> managed d d'"
  by (auto simp: evolves_def managed_def)

lemmas managed_step = row_step_mono [OF _ evolves_managed]

lemma row_step_then:
  "transp R \<Longrightarrow> row_step R i w (snd x) \<Longrightarrow> (\<And>w1. row_step R i w1 (snd (f w1))) \<Longrightarrow>
   row_step R i w (snd (case x of (False, w1) \<Rightarrow> (False, w1) | (True, w1) \<Rightarrow> f w1))"
  by (cases x; cases "fst x") (auto intro: row_step_trans)

lemma ClearError_managed: "row_step managed i w (snd (ClearError fault i w))"
  unfolding statement_defs by (rule row_step_update) (simp_all add: managed_def)

lemma ClearRateLimit_evolves: "row_step evolves i w (snd (ClearRateLimit E i w))"
  unfolding ClearRateLimit_def
  by (intro row_step_then preorders row_step_marks) (simp add: row_step_rows)

lemma HandleTempUnschedulable_evolves: "row_step evolves (act_ID (row_acc r)) w (snd (HandleTempUnschedulable E r c body w))"
proof (cases "ShouldHandleErrorCode (row_acc r) c")
  case True
  then show ?thesis
    using tryTemp_effect(1) [of E r c body w] by (cases "tryTempUnschedulable E r c body w") (simp add: HandleTempUnschedulable_def)
qed (simp add: HandleTempUnschedulable_def row_step_rows)

lemma CheckErrorPolicy_evolves: "row_step evolves (act_ID (row_acc r)) w (snd (CheckErrorPolicy E r c body w))"
proof -
  obtain b w1 where b: "tryTempUnschedulable E r c body w = (b, w1)" by (cases "tryTempUnschedulable E r c body w") auto
  show ?thesis
    using tryTemp_effect(1) [OF b] by (cases b) (auto simp: CheckErrorPolicy_def b row_step_rows)
qed

lemma countTimeout_rows: "aw_rows (snd (countTimeout E i m w)) = aw_rows w"
  by (auto simp: countTimeout_def IncrementTimeoutCount_def split: option.splits)

lemma HandleStreamTimeout_evolves: "row_step evolves (act_ID (row_acc r)) w (snd (HandleStreamTimeout E r model w))"
proof (cases "\<exists>s. ue_streamTimeout E = Some (Some s) \<and> st_Enabled s \<and> st_Action s \<noteq> StreamTimeoutActionNone")
  case True
  then obtain s where s: "ue_streamTimeout E = Some (Some s)" "st_Enabled s" "st_Action s \<noteq> StreamTimeoutActionNone" by blast
  let ?i = "act_ID (row_acc r)"
  obtain n w1 where c: "countTimeout E ?i (st_ThresholdWindowMinutes s) w = (n, w1)"
    by (cases "countTimeout E ?i (st_ThresholdWindowMinutes s) w") auto
  then have rows: "aw_rows w1 = aw_rows w"
    using countTimeout_rows [of E ?i "st_ThresholdWindowMinutes s" w] by simp
  have e: "row_step evolves ?i w1 (snd (triggerStreamTimeoutError E r model w1))"
    unfolding triggerStreamTimeoutError_def
    by (intro row_step_then preorders row_step_marks) (simp add: row_step_rows resetTimeouts_def)
  have p: "row_step evolves ?i w1 (snd (triggerStreamTimeoutTempUnsched E r s model w1))"
  proof -
    obtain st where st: "triggerStreamTimeoutTempUnsched E r s model w1 =
       (case pauseAccount E ?i (ue_time E + st_TempUnschedMinutes s * minute) st w1 of
          (False, w1) \<Rightarrow> (False, w1) | (True, w1) \<Rightarrow> (True, resetTimeouts E ?i w1))"
      using triggerTimeout_pauses by blast
    have "row_step evolves ?i w1 (snd (pauseAccount E ?i (ue_time E + st_TempUnschedMinutes s * minute) st w1))"
      by (cases "pauseAccount E ?i (ue_time E + st_TempUnschedMinutes s * minute) st w1") (simp add: pauseAccount_effect(1))
    then show ?thesis
      unfolding st by (intro row_step_then preorders) (simp_all add: row_step_rows resetTimeouts_def)
  qed
  have "row_step evolves ?i w w1" using rows by (simp add: row_step_rows)
  then show ?thesis
    using s c e p by (auto simp: HandleStreamTimeout_def intro: row_step_trans)
qed (auto simp: HandleStreamTimeout_def row_step_rows split: option.splits)

lemma UpdateSessionWindow_evolves: "row_step evolves (act_ID (row_acc r)) w (UpdateSessionWindow E r w)"
proof -
  let ?i = "act_ID (row_acc r)"
  note limits = row_step_mono [OF row_step_limits(3) only_limits_evolves] row_step_mono [OF row_step_limits(4) only_limits_evolves]
  define need where "need = (case act_SessionWindowEnd (row_acc r) of None \<Rightarrow> True | Some t \<Rightarrow> ue_time E > t)"
  define status where "status = ue_header E ''anthropic-ratelimit-unified-5h-status''"
  define e where "e = newWindowEnd E (row_acc r) status need"
  define w1 where "w1 = (if e \<noteq> None \<and> need
      then snd (repoUpdateExtra (ue_faults E) ?i [(''session_window_utilization'', GNil), (''passive_usage_7d_utilization'', GNil),
             (''passive_usage_7d_reset'', GNil), (''passive_usage_sampled_at'', GNil)] w) else w)"
  define w2 where "w2 = snd (repoUpdateSessionWindow (ue_faults E) ?i (map_option (\<lambda>t. t - fiveHours) e) e status w1)"
  define w3 where "w3 = snd (repoUpdateExtra (ue_faults E) ?i (sampledUsage E) w2)"
  have h: "UpdateSessionWindow E r w = (if status = '''' then w
      else if status = ''allowed'' \<and> IsRateLimited (ue_time E) (row_acc r) then snd (ClearRateLimit E ?i w3) else w3)"
    unfolding UpdateSessionWindow_def Let_def need_def status_def e_def w1_def w2_def w3_def by (rule refl)
  have "row_step evolves ?i w w1" by (simp add: w1_def limits row_step_rows)
  then have "row_step evolves ?i w w2" unfolding w2_def using limits(1) by (rule row_step_trans [OF preorders(2)])
  then have w3: "row_step evolves ?i w w3" unfolding w3_def using limits(2) by (rule row_step_trans [OF preorders(2)])
  then show ?thesis
    using row_step_trans [OF preorders(2) w3 ClearRateLimit_evolves] by (simp add: h row_step_rows)
qed

lemma ClearTempUnschedulable_evolves: "row_step evolves i w (snd (ClearTempUnschedulable E i w))"
  unfolding ClearTempUnschedulable_def
  by (intro row_step_then preorders row_step_marks)
    (auto intro: row_step_trans [OF preorders(2) row_step_rows row_step_marks(5)])

text \<open>The end of the result tuple is a world, whatever the recovery reports.\<close>

lemma RecoverAccountState_managed: "row_step managed i w (snd (RecoverAccountState E invalidate i w))"
proof (cases "getByID (ue_faults E) i w")
  case (Some r)
  define failed where "failed = (act_Status (row_acc r) = StatusError)"
  obtain ok w1 where ok: "(if failed then ClearError (ue_faults E) i w else (True, w)) = (ok, w1)"
    by fastforce
  define w2 where "w2 = (if failed \<and> invalidate \<and> ue_hasTokenInvalidator E \<and> IsOAuth (row_acc r) \<and> \<not> ue_faults E CallInvalidateToken
                    then w1\<lparr>aw_tokensDropped := aw_tokensDropped w1 @ [i]\<rparr> else w1)"
  have h: "RecoverAccountState E invalidate i w =
      (if \<not> ok then (None, w1)
       else if hasRecoverableRuntimeState r
       then (case ClearRateLimit E i w2 of (False, w3) \<Rightarrow> (None, w3) | (True, w3) \<Rightarrow> (Some (failed, True), w3))
       else (Some (failed, False), w2))"
    using Some ok by (simp add: RecoverAccountState_def Let_def failed_def [symmetric] w2_def)
  have s1: "row_step managed i w w1"
    using ok ClearError_managed [of i w "ue_faults E"] by (cases failed) (auto simp: row_step_rows)
  have s2: "row_step managed i w w2" by (rule row_step_same [OF s1]) (simp add: w2_def)
  have "row_step managed i w (snd (ClearRateLimit E i w2))"
    by (rule row_step_trans [OF managed_preorder(2) s2 managed_step [OF ClearRateLimit_evolves]])
  then show ?thesis
    using s1 s2 by (cases "ClearRateLimit E i w2"; cases "fst (ClearRateLimit E i w2)") (auto simp: h)
qed (simp add: RecoverAccountState_def row_step_rows)

section \<open>Histories\<close>

text \<open>
  One operation on some account, at any time, with any settings, upstream answer and faults; the account
  as its caller read it may be out of date.
\<close>

inductive account_event :: "account_world \<Rightarrow> account_world \<Rightarrow> bool" where
  "account_event w (snd (HandleUpstreamError E r c body w))"
| "account_event w (snd (CheckErrorPolicy E r c body w))"
| "account_event w (snd (HandleTempUnschedulable E r c body w))"
| "account_event w (snd (HandleStreamTimeout E r model w))"
| "account_event w (UpdateSessionWindow E r w)"
| "account_event w (snd (ClearRateLimit E i w))"
| "account_event w (snd (ClearTempUnschedulable E i w))"
| "account_event w (snd (RecoverAccountState E invalidate i w))"
| "account_event w (snd (GetTempUnschedStatus E i w))"

lemma GetTempUnschedStatus_rows: "aw_rows (snd (GetTempUnschedStatus E i w)) = aw_rows w"
  by (auto simp: GetTempUnschedStatus_def split: option.splits)

lemmas runtime_steps = managed_step [OF CheckErrorPolicy_evolves] managed_step [OF HandleTempUnschedulable_evolves]
  managed_step [OF HandleStreamTimeout_evolves] managed_step [OF UpdateSessionWindow_evolves]
  managed_step [OF ClearRateLimit_evolves] managed_step [OF ClearTempUnschedulable_evolves] RecoverAccountState_managed

lemma event_on_one_account: "account_event w w' \<Longrightarrow> \<exists>i. row_step managed i w w'"
proof (induction rule: account_event.induct)
  case (1 w E r c body)
  have "row_step evolves (act_ID (row_acc r)) w (snd (HandleUpstreamError E r c body w))"
    by (rule HandleUpstreamError_effect(1)) (rule prod.collapse [symmetric])
  then show ?case by (intro exI managed_step)
next
  case (9 w E i)
  then show ?case
    using row_step_rows [OF managed_preorder(1) GetTempUnschedStatus_rows] by (rule exI)
qed (iprover intro: runtime_steps)+

lemma history_managed:
  assumes "account_event\<^sup>*\<^sup>* w0 w" "aw_rows w0 i = Some d0"
  shows "\<exists>d. aw_rows w i = Some d \<and> managed d0 d"
  using assms(1)
proof induction
  case base
  then show ?case using assms(2) by (auto simp: managed_def)
next
  case (step w w')
  then obtain d where d: "aw_rows w i = Some d" "managed d0 d" by blast
  from event_on_one_account [OF step(2)] obtain j where j: "row_step managed j w w'" ..
  show ?case
  proof (cases "i = j")
    case True
    then obtain d' where "aw_rows w' i = Some d'" "managed d d'" using j d(1) by (auto simp: row_step_def)
    then show ?thesis using d(2) transpD [OF managed_preorder(2)] by blast
  next
    case False
    then show ?thesis using j d by (simp add: row_step_def)
  qed
qed

section \<open>Recovery\<close>

text \<open>Without faults the limits of a row are cleared, and nothing else that scheduling looks at changes.\<close>

lemma ClearRateLimit_clears:
  assumes "ue_faults E = (\<lambda>_. False)" "aw_rows w i = Some d"
  obtains w' d' where "ClearRateLimit E i w = (True, w')" "aw_rows w' i = Some d'" "evolves d d'"
    "act_Status (row_acc d') = act_Status (row_acc d)" "act_RateLimitResetAt (row_acc d') = None"
    "act_OverloadUntil (row_acc d') = None" "act_TempUnschedulableUntil (row_acc d') = None"
  using assms
  by (auto simp: ClearRateLimit_def statement_defs updateExisting_def updateRow_def evolves_def DeleteTempUnsched_def)

text \<open>
  C38. After any history of operations on an account that was active or failed, with whatever faults, a
  recovery whose statements succeed reports success, and from then on the account is scheduled exactly
  as its administration says: if it is set to be, and not once it has expired with automatic pause.
\<close>

theorem recovery_restores:
  assumes "account_event\<^sup>*\<^sup>* w0 w" "aw_rows w0 i = Some d0" "act_Status (row_acc d0) \<in> {StatusActive, StatusError}"
    and "ue_faults E = (\<lambda>_. False)" "RecoverAccountState E invalidate i w = (result, w')"
  shows "result \<noteq> None \<and>
    (\<exists>d. aw_rows w' i = Some d \<and>
      (\<forall>t. IsSchedulable t (row_acc d) \<longleftrightarrow>
           act_Schedulable (row_acc d0) \<and>
           \<not> (act_AutoPauseOnExpired (row_acc d0) \<and> (\<exists>e. act_ExpiresAt (row_acc d0) = Some e \<and> e \<le> t))))"
proof -
  obtain r where r: "aw_rows w i = Some r" "managed d0 r" using history_managed [OF assms(1,2)] by blast
  have status: "act_Status (row_acc r) = StatusActive \<or> act_Status (row_acc r) = StatusError"
    using r(2) assms(3) by (auto simp: managed_def)
  define failed where "failed = (act_Status (row_acc r) = StatusError)"
  define w1 where "w1 = (if failed then snd (ClearError (ue_faults E) i w) else w)"
  define w2 where "w2 = (if failed \<and> invalidate \<and> ue_hasTokenInvalidator E \<and> IsOAuth (row_acc r)
                    then w1\<lparr>aw_tokensDropped := aw_tokensDropped w1 @ [i]\<rparr> else w1)"
  have h: "RecoverAccountState E invalidate i w =
      (if hasRecoverableRuntimeState r
       then (case ClearRateLimit E i w2 of (False, w3) \<Rightarrow> (None, w3) | (True, w3) \<Rightarrow> (Some (failed, True), w3))
       else (Some (failed, False), w2))"
    using r(1) assms(4) by (simp add: RecoverAccountState_def Let_def getByID_def failed_def [symmetric] w1_def w2_def
        ClearError_def updateRow_def)
  obtain d1 where d1: "aw_rows w2 i = Some d1" "act_Status (row_acc d1) = StatusActive" "managed r d1"
      "act_RateLimitResetAt (row_acc d1) = act_RateLimitResetAt (row_acc r)"
      "act_OverloadUntil (row_acc d1) = act_OverloadUntil (row_acc r)"
      "act_TempUnschedulableUntil (row_acc d1) = act_TempUnschedulableUntil (row_acc r)"
  proof -
    have "aw_rows w2 = aw_rows w1" by (simp add: w2_def)
    moreover obtain d1 where "aw_rows w1 i = Some d1" "row_acc d1 = (row_acc r)\<lparr>act_Status := StatusActive\<rparr>"
      using r(1) status assms(4)
      by (cases failed) (auto simp: w1_def failed_def ClearError_def updateRow_def StatusActive_def StatusError_def)
    ultimately show thesis using that by (auto simp: managed_def)
  qed
  have final: "IsSchedulable t (row_acc d) \<longleftrightarrow>
           act_Schedulable (row_acc d0) \<and>
           \<not> (act_AutoPauseOnExpired (row_acc d0) \<and> (\<exists>e. act_ExpiresAt (row_acc d0) = Some e \<and> e \<le> t))"
    if "managed r d" "act_Status (row_acc d) = StatusActive" "act_RateLimitResetAt (row_acc d) = None"
      "act_OverloadUntil (row_acc d) = None" "act_TempUnschedulableUntil (row_acc d) = None" for d t
    using that r(2) by (auto simp: managed_def IsSchedulable_def accountIsActive_def pending_def split: option.splits)
  show ?thesis
  proof (cases "hasRecoverableRuntimeState r")
    case False
    then have "act_RateLimitResetAt (row_acc r) = None \<and> act_OverloadUntil (row_acc r) = None \<and>
        act_TempUnschedulableUntil (row_acc r) = None"
      by (simp add: hasRecoverableRuntimeState_def Let_def)
    then show ?thesis using False assms(5) h d1 final [of d1] by auto
  next
    case True
    obtain w3 d where c: "ClearRateLimit E i w2 = (True, w3)" "aw_rows w3 i = Some d" "evolves d1 d"
      "act_Status (row_acc d) = act_Status (row_acc d1)" "act_RateLimitResetAt (row_acc d) = None"
      "act_OverloadUntil (row_acc d) = None" "act_TempUnschedulableUntil (row_acc d) = None"
      by (rule ClearRateLimit_clears [OF assms(4) d1(1)])
    have "managed r d" using transpD [OF managed_preorder(2) d1(3) evolves_managed [OF c(3)]] .
    then show ?thesis using True assms(5) h c d1(2) final [of d] by auto
  qed
qed

text \<open>A revoked account, then a limit; the recovery makes it schedulable.\<close>

theorem recovery_restores_witness:
  "\<exists>w. account_event\<^sup>*\<^sup>* exampleWorld w \<and> (\<exists>d. aw_rows w 7 = Some d \<and> \<not> IsSchedulable 0 (row_acc d)) \<and>
       (\<exists>d. aw_rows (snd (RecoverAccountState exampleEnv False 7 w)) 7 = Some d \<and> IsSchedulable 0 (row_acc d))"
proof -
  define w where "w = snd (HandleUpstreamError exampleEnv exampleRow 403 ''banned'' exampleWorld)"
  have "account_event exampleWorld w" unfolding w_def by (rule account_event.intros(1))
  then have run: "account_event\<^sup>*\<^sup>* exampleWorld w" by blast
  have "HandleUpstreamError exampleEnv exampleRow 403 ''banned'' exampleWorld = (True, w)"
    by (simp add: w_def HandleUpstreamError_def tryTempUnschedulable_def handleStatus_def Let_def handle403_def)
  from HandleUpstreamError_effect(3) [OF this, of 0] have failed: "\<exists>d. aw_rows w 7 = Some d \<and> \<not> IsSchedulable 0 (row_acc d)"
    by (auto simp: row_at_def minute_def second_def stopped_not_schedulable split: option.splits)
  obtain result w' where c: "RecoverAccountState exampleEnv False 7 w = (result, w')"
    by (cases "RecoverAccountState exampleEnv False 7 w") auto
  have "act_Schedulable (row_acc exampleRow)" "\<not> act_AutoPauseOnExpired (row_acc exampleRow)"
      "act_Status (row_acc exampleRow) \<in> {StatusActive, StatusError}"
    by (simp_all add: example_defs)
  then have "\<exists>d. aw_rows w' 7 = Some d \<and> IsSchedulable 0 (row_acc d)"
    using recovery_restores [OF run _ _ _ c, of exampleRow] by auto
  then show ?thesis using run failed c by auto
qed

end
