(* ===== verification/Gemini_Quota.thy ===== *)
theory Gemini_Quota
  imports Upstream_Message Account
begin

text \<open>
  The quotas of Gemini accounts (\<open>internal/service/gemini_quota.go\<close>): tiers and their names of several
  generations (\<open>internal/service/gemini_oauth_service.go\<close>), the built-in policy and the overrides of the
  configuration and of the settings, and the service that keeps the resulting policy for a minute.  A Go map
  of overrides is the list of its entries in the order in which they are visited.
\<close>

section \<open>Tiers\<close>

definition GeminiTierGoogleOneFree :: gostr where "GeminiTierGoogleOneFree = ''google_one_free''"
definition GeminiTierGoogleAIPro :: gostr where "GeminiTierGoogleAIPro = ''google_ai_pro''"
definition GeminiTierGoogleAIUltra :: gostr where "GeminiTierGoogleAIUltra = ''google_ai_ultra''"
definition GeminiTierGCPStandard :: gostr where "GeminiTierGCPStandard = ''gcp_standard''"
definition GeminiTierGCPEnterprise :: gostr where "GeminiTierGCPEnterprise = ''gcp_enterprise''"
definition GeminiTierAIStudioFree :: gostr where "GeminiTierAIStudioFree = ''aistudio_free''"
definition GeminiTierAIStudioPaid :: gostr where "GeminiTierAIStudioPaid = ''aistudio_paid''"
definition GeminiTierGoogleOneUnknown :: gostr where "GeminiTierGoogleOneUnknown = ''google_one_unknown''"

lemmas gemini_tier_defs = GeminiTierGoogleOneFree_def GeminiTierGoogleAIPro_def GeminiTierGoogleAIUltra_def
  GeminiTierGCPStandard_def GeminiTierGCPEnterprise_def GeminiTierAIStudioFree_def GeminiTierAIStudioPaid_def
  GeminiTierGoogleOneUnknown_def

definition legacyTiers :: "(gostr \<times> gostr) list" where
  "legacyTiers =
     [(''AI_PREMIUM'', GeminiTierGoogleAIPro), (''GOOGLE_ONE_UNLIMITED'', GeminiTierGoogleAIUltra),
      (''FREE'', GeminiTierGoogleOneFree), (''GOOGLE_ONE_BASIC'', GeminiTierGoogleOneFree),
      (''GOOGLE_ONE_STANDARD'', GeminiTierGoogleOneFree), (''GOOGLE_ONE_UNKNOWN'', GeminiTierGoogleOneUnknown),
      (''STANDARD'', GeminiTierGCPStandard), (''PRO'', GeminiTierGCPStandard), (''LEGACY'', GeminiTierGCPStandard),
      (''ENTERPRISE'', GeminiTierGCPEnterprise), (''ULTRA'', GeminiTierGCPEnterprise)]"

definition canonicalTiers :: "gostr list" where
  "canonicalTiers = [GeminiTierGoogleOneFree, GeminiTierGoogleAIPro, GeminiTierGoogleAIUltra, GeminiTierGCPStandard,
     GeminiTierGCPEnterprise, GeminiTierAIStudioFree, GeminiTierAIStudioPaid, GeminiTierGoogleOneUnknown]"

definition canonicalGeminiTierID :: "gostr \<Rightarrow> gostr" where
  "canonicalGeminiTierID raw =
     (let s = trim_space raw; lower = to_lower s
      in if s = '''' then ''''
         else if lower \<in> set canonicalTiers then lower
         else case map_of legacyTiers (to_upper s) of
                Some t \<Rightarrow> t
              | None \<Rightarrow> if lower = ''standard-tier'' \<or> lower = ''pro-tier'' then GeminiTierGCPStandard
                        else if lower = ''ultra-tier'' then GeminiTierGCPEnterprise else '''')"

definition canonicalGeminiTierIDForOAuthType :: "gostr \<Rightarrow> gostr \<Rightarrow> gostr" where
  "canonicalGeminiTierIDForOAuthType oauthType tierID =
     (let kind = to_lower (trim_space oauthType); canonical = canonicalGeminiTierID tierID;
          among = (\<lambda>tiers. if canonical \<in> set tiers then canonical else '''')
      in if canonical = '''' then ''''
         else if kind = ''google_one'' then among [GeminiTierGoogleOneFree, GeminiTierGoogleAIPro, GeminiTierGoogleAIUltra]
         else if kind = ''code_assist'' then among [GeminiTierGCPStandard, GeminiTierGCPEnterprise]
         else if kind = ''ai_studio'' then among [GeminiTierAIStudioFree, GeminiTierAIStudioPaid]
         else canonical)"

text \<open>The upper-case names are the canonical ones written differently, so lower case finds them.\<close>

definition olderTierNames :: "(gostr \<times> gostr) list" where
  "olderTierNames =
     [(''AISTUDIO_FREE'', GeminiTierAIStudioFree), (''AISTUDIO_PAID'', GeminiTierAIStudioPaid),
      (''GOOGLE_ONE_FREE'', GeminiTierGoogleOneFree), (''GOOGLE_AI_PRO'', GeminiTierGoogleAIPro),
      (''GOOGLE_AI_ULTRA'', GeminiTierGoogleAIUltra), (''GCP_STANDARD'', GeminiTierGCPStandard),
      (''GCP_ENTERPRISE'', GeminiTierGCPEnterprise)]"

definition normalizeGeminiTierID :: "gostr \<Rightarrow> gostr" where
  "normalizeGeminiTierID tierID =
     (let s = trim_space tierID
      in if s = '''' then ''''
         else if canonicalGeminiTierID s \<noteq> '''' then canonicalGeminiTierID s
         else case map_of olderTierNames (to_upper s) of Some t \<Rightarrow> t | None \<Rightarrow> to_lower s)"

section \<open>The tier of an account\<close>

definition GeminiOAuthType :: "Account \<Rightarrow> gostr" where
  "GeminiOAuthType a =
     (let oauthType = trim_space (GetCredential a ''oauth_type'')
      in if act_Platform a \<noteq> PlatformGemini \<or> act_Type a \<noteq> AccountTypeOAuth then ''''
         else if oauthType = '''' \<and> trim_space (GetCredential a ''project_id'') \<noteq> '''' then ''code_assist''
         else oauthType)"

definition GeminiTierID :: "Account \<Rightarrow> gostr" where
  "GeminiTierID a = trim_space (GetCredential a ''tier_id'')"

definition geminiQuotaTierKeyForAccount :: "Account option \<Rightarrow> gostr" where
  "geminiQuotaTierKeyForAccount acc =
     (case acc of
        None \<Rightarrow> ''''
      | Some a \<Rightarrow>
          let oauthType = to_lower (trim_space (GeminiOAuthType a));
              tierID = canonicalGeminiTierIDForOAuthType oauthType (trim_space (GeminiTierID a))
          in if act_Platform a \<noteq> PlatformGemini then ''''
             else if tierID \<noteq> '''' \<and> tierID \<noteq> GeminiTierGoogleOneUnknown then tierID
             else if oauthType = ''google_one'' then GeminiTierGoogleOneFree
             else if oauthType = ''code_assist'' then GeminiTierGCPStandard
             else GeminiTierAIStudioFree)"

section \<open>Policies\<close>

record GeminiQuota =
  gq_SharedRPD :: int
  gq_SharedRPM :: int
  gq_ProRPD :: int
  gq_ProRPM :: int
  gq_FlashRPD :: int
  gq_FlashRPM :: int

record GeminiTierPolicy =
  gt_Quota :: GeminiQuota
  gt_Cooldown :: time

type_synonym GeminiQuotaPolicy = "gostr \<Rightarrow> GeminiTierPolicy option"

definition perModel :: "int \<Rightarrow> int \<Rightarrow> int \<Rightarrow> int \<Rightarrow> GeminiQuota" where
  "perModel proRPD proRPM flashRPD flashRPM =
     \<lparr>gq_SharedRPD = 0, gq_SharedRPM = 0, gq_ProRPD = proRPD, gq_ProRPM = proRPM, gq_FlashRPD = flashRPD, gq_FlashRPM = flashRPM\<rparr>"

definition shared :: "int \<Rightarrow> int \<Rightarrow> GeminiQuota" where
  "shared rpd rpm =
     \<lparr>gq_SharedRPD = rpd, gq_SharedRPM = rpm, gq_ProRPD = 0, gq_ProRPM = 0, gq_FlashRPD = 0, gq_FlashRPM = 0\<rparr>"

definition tierPolicy :: "GeminiQuota \<Rightarrow> int \<Rightarrow> GeminiTierPolicy" where
  "tierPolicy q minutes = \<lparr>gt_Quota = q, gt_Cooldown = minutes * minute\<rparr>"

definition newGeminiQuotaPolicy :: GeminiQuotaPolicy where
  "newGeminiQuotaPolicy =
     [GeminiTierAIStudioFree \<mapsto> tierPolicy (perModel 50 2 1500 15) 30,
      GeminiTierAIStudioPaid \<mapsto> tierPolicy (perModel (-1) 1000 (-1) 2000) 5,
      GeminiTierGoogleOneFree \<mapsto> tierPolicy (shared 1000 60) 30,
      GeminiTierGoogleAIPro \<mapsto> tierPolicy (shared 1500 120) 5,
      GeminiTierGoogleAIUltra \<mapsto> tierPolicy (shared 2000 120) 5,
      GeminiTierGCPStandard \<mapsto> tierPolicy (shared 1500 120) 5,
      GeminiTierGCPEnterprise \<mapsto> tierPolicy (shared 2000 120) 5]"

definition clampGeminiQuotaInt64WithUnlimited :: "int \<Rightarrow> int" where
  "clampGeminiQuotaInt64WithUnlimited v = (if v < -1 then 0 else v)"

definition clampGeminiQuotaInt :: "int \<Rightarrow> int" where
  "clampGeminiQuotaInt v = (if v < 0 then 0 else v)"

definition clampGeminiQuotaRPM :: "int \<Rightarrow> int" where
  "clampGeminiQuotaRPM v = (if v < 0 then 0 else v)"

record GeminiTierQuotaConfig =
  tq_ProRPD :: "int option"
  tq_FlashRPD :: "int option"
  tq_CooldownMinutes :: "int option"

record geminiModelQuotaOverride =
  mo_RPD :: "int option"
  mo_RPM :: "int option"

record geminiQuotaRuleOverride =
  ro_SharedRPD :: "int option"
  ro_SharedRPM :: "int option"
  ro_GeminiPro :: "geminiModelQuotaOverride option"
  ro_GeminiFlash :: "geminiModelQuotaOverride option"

definition policyOrDefault :: "GeminiQuotaPolicy \<Rightarrow> gostr \<Rightarrow> GeminiTierPolicy" where
  "policyOrDefault p tierID = (case p tierID of Some t \<Rightarrow> t | None \<Rightarrow> tierPolicy (shared 0 0) 5)"

abbreviation on_quota :: "(GeminiQuota \<Rightarrow> GeminiQuota) \<Rightarrow> GeminiTierPolicy \<Rightarrow> GeminiTierPolicy" where
  "on_quota f t \<equiv> t\<lparr>gt_Quota := f (gt_Quota t)\<rparr>"

text \<open>A value that is not given leaves the policy.\<close>

definition given :: "'a option \<Rightarrow> ('a \<Rightarrow> 'b \<Rightarrow> 'b) \<Rightarrow> 'b \<Rightarrow> 'b" where
  "given v f x = (case v of None \<Rightarrow> x | Some y \<Rightarrow> f y x)"

definition overrideTier :: "GeminiTierQuotaConfig \<Rightarrow> GeminiTierPolicy \<Rightarrow> GeminiTierPolicy" where
  "overrideTier c t0 =
     (let t1 = given (tq_ProRPD c) (\<lambda>v. on_quota (\<lambda>q.
                 if gq_SharedRPD q > 0 then q\<lparr>gq_SharedRPD := clampGeminiQuotaInt64WithUnlimited v\<rparr>
                 else q\<lparr>gq_ProRPD := clampGeminiQuotaInt64WithUnlimited v\<rparr>)) t0;
          t2 = given (tq_FlashRPD c) (\<lambda>v. on_quota (\<lambda>q.
                 if gq_SharedRPD q > 0 then q else q\<lparr>gq_FlashRPD := clampGeminiQuotaInt64WithUnlimited v\<rparr>)) t1
      in given (tq_CooldownMinutes c) (\<lambda>v t. t\<lparr>gt_Cooldown := clampGeminiQuotaInt v * minute\<rparr>) t2)"

fun ApplyOverrides :: "(gostr \<times> GeminiTierQuotaConfig) list \<Rightarrow> GeminiQuotaPolicy \<Rightarrow> GeminiQuotaPolicy" where
  "ApplyOverrides [] p = p"
| "ApplyOverrides ((rawID, c) # rest) p =
     (let tierID = normalizeGeminiTierID rawID
      in if tierID = '''' then ApplyOverrides rest p
         else ApplyOverrides rest (p(tierID \<mapsto> overrideTier c (policyOrDefault p tierID))))"

definition overrideRule :: "geminiQuotaRuleOverride \<Rightarrow> GeminiTierPolicy \<Rightarrow> GeminiTierPolicy" where
  "overrideRule r t0 =
     (let day = clampGeminiQuotaInt64WithUnlimited; min' = clampGeminiQuotaRPM;
          t1 = given (ro_SharedRPD r) (\<lambda>v. on_quota (\<lambda>q. q\<lparr>gq_SharedRPD := day v\<rparr>)) t0;
          t2 = given (ro_SharedRPM r) (\<lambda>v. on_quota (\<lambda>q. q\<lparr>gq_SharedRPM := min' v\<rparr>)) t1;
          t3 = given (ro_GeminiPro r) (\<lambda>m t.
                 given (mo_RPM m) (\<lambda>v. on_quota (\<lambda>q. q\<lparr>gq_ProRPM := min' v\<rparr>))
                   (given (mo_RPD m) (\<lambda>v. on_quota (\<lambda>q. q\<lparr>gq_ProRPD := day v\<rparr>)) t)) t2
      in given (ro_GeminiFlash r) (\<lambda>m t.
                 given (mo_RPM m) (\<lambda>v. on_quota (\<lambda>q. q\<lparr>gq_FlashRPM := min' v\<rparr>))
                   (given (mo_RPD m) (\<lambda>v. on_quota (\<lambda>q. q\<lparr>gq_FlashRPD := day v\<rparr>)) t)) t3)"

fun ApplyQuotaRulesOverrides :: "(gostr \<times> geminiQuotaRuleOverride) list \<Rightarrow> GeminiQuotaPolicy \<Rightarrow> GeminiQuotaPolicy" where
  "ApplyQuotaRulesOverrides [] p = p"
| "ApplyQuotaRulesOverrides ((rawID, r) # rest) p =
     (let tierID = normalizeGeminiTierID rawID
      in if tierID = '''' then ApplyQuotaRulesOverrides rest p
         else ApplyQuotaRulesOverrides rest (p(tierID \<mapsto> overrideRule r (policyOrDefault p tierID))))"

definition policyForTier :: "GeminiQuotaPolicy \<Rightarrow> gostr \<Rightarrow> GeminiTierPolicy option" where
  "policyForTier p tierID = p (normalizeGeminiTierID tierID)"

definition QuotaForTier :: "GeminiQuotaPolicy \<Rightarrow> gostr \<Rightarrow> GeminiQuota option" where
  "QuotaForTier p tierID = map_option gt_Quota (policyForTier p tierID)"

definition policyCooldown :: "GeminiQuotaPolicy \<Rightarrow> gostr \<Rightarrow> time" where
  "policyCooldown p tierID =
     (case policyForTier p tierID of
        Some t \<Rightarrow> if gt_Cooldown t > 0 then gt_Cooldown t else 5 * minute
      | None \<Rightarrow> 5 * minute)"

definition geminiCooldownForTier :: "gostr \<Rightarrow> time" where
  "geminiCooldownForTier tierID = policyCooldown newGeminiQuotaPolicy tierID"

section \<open>The quota service\<close>

text \<open>
  \<open>gc_rules\<close> and \<open>gc_tiers\<close> are \<open>json.Unmarshal\<close> into the two forms of overrides, \<open>gc_setting\<close> the answer of
  the settings: \<open>None\<close> for an error or no value, both of which leave the policy.
\<close>

record gemini_config =
  gc_config :: "((gostr \<times> GeminiTierQuotaConfig) list \<times> gostr) option"
  gc_setting :: "gostr option"
  gc_rules :: "gostr \<Rightarrow> (gostr \<times> geminiQuotaRuleOverride) list option"
  gc_tiers :: "gostr \<Rightarrow> (gostr \<times> GeminiTierQuotaConfig) list option"

definition geminiQuotaCacheTTL :: time where "geminiQuotaCacheTTL = minute"

definition applyPolicyText :: "gemini_config \<Rightarrow> gostr \<Rightarrow> GeminiQuotaPolicy \<Rightarrow> GeminiQuotaPolicy" where
  "applyPolicyText C raw p =
     (if trim_space raw = '''' then p
      else case gc_rules C raw of
             Some (r # rs) \<Rightarrow> ApplyQuotaRulesOverrides (r # rs) p
           | _ \<Rightarrow> (case gc_tiers C raw of None \<Rightarrow> p | Some ts \<Rightarrow> ApplyOverrides ts p))"

definition buildPolicy :: "gemini_config \<Rightarrow> GeminiQuotaPolicy" where
  "buildPolicy C =
     (let p1 = (case gc_config C of
                  None \<Rightarrow> newGeminiQuotaPolicy
                | Some (tiers, raw) \<Rightarrow> applyPolicyText C raw (ApplyOverrides tiers newGeminiQuotaPolicy))
      in case gc_setting C of None \<Rightarrow> p1 | Some v \<Rightarrow> applyPolicyText C v p1)"

text \<open>The service is its policy and when that was built.\<close>

type_synonym quota_service = "(GeminiQuotaPolicy \<times> time) option"

definition Policy :: "gemini_config \<Rightarrow> time \<Rightarrow> quota_service \<Rightarrow> GeminiQuotaPolicy \<times> quota_service" where
  "Policy C now s =
     (case s of
        Some (p, cachedAt) \<Rightarrow>
          if now - cachedAt < geminiQuotaCacheTTL then (p, s) else (buildPolicy C, Some (buildPolicy C, now))
      | None \<Rightarrow> (buildPolicy C, Some (buildPolicy C, now)))"

definition QuotaForAccount :: "gemini_config \<Rightarrow> time \<Rightarrow> Account option \<Rightarrow> quota_service \<Rightarrow> GeminiQuota option \<times> quota_service" where
  "QuotaForAccount C now acc s =
     (if geminiQuotaTierKeyForAccount acc = '''' then (None, s)
      else case Policy C now s of (p, s1) \<Rightarrow> (QuotaForTier p (geminiQuotaTierKeyForAccount acc), s1))"

definition CooldownForAccount :: "gemini_config \<Rightarrow> time \<Rightarrow> Account option \<Rightarrow> quota_service \<Rightarrow> time \<times> quota_service" where
  "CooldownForAccount C now acc s =
     (if geminiQuotaTierKeyForAccount acc = '''' then (5 * minute, s)
      else case Policy C now s of (p, s1) \<Rightarrow> (policyCooldown p (geminiQuotaTierKeyForAccount acc), s1))"

section \<open>Policies only change as time goes by\<close>

lemma Policy_again: "Policy C now s = (p, s') \<Longrightarrow> Policy C now s' = (p, s')"
  by (auto simp: Policy_def geminiQuotaCacheTTL_def minute_def second_def split: option.splits if_splits)

end
