(* ===== verification/Gemini_Precheck.thy ===== *)
theory Gemini_Precheck
  imports Gemini_Quota
begin

text \<open>
  The local check of the quotas of Gemini accounts before a request is sent (\<open>PreCheckUsage\<close> and
  \<open>PreCheckUsageBatch\<close> of \<open>internal/service/ratelimit_service.go\<close>) over the usage logs
  (\<open>internal/repository/usage_log_repo.go\<close>), one account at a time or many at once, and that both decide the
  same.  The clock stands still during a check.  A result is whether the account may be used and whether an
  error was reported.
\<close>

section \<open>Usage logs\<close>

text \<open>The columns of \<open>usage_logs\<close> that the queries read.\<close>

record UsageLogRow =
  lg_AccountID :: int64
  lg_Model :: gostr
  lg_RequestedModel :: "gostr option"
  lg_CreatedAt :: time
  lg_InputTokens :: int
  lg_OutputTokens :: int
  lg_CacheCreationTokens :: int
  lg_CacheReadTokens :: int
  lg_TotalCost :: rat
  lg_ActualCost :: rat
  lg_AccountRateMultiplier :: "rat option"

definition rowTokens :: "UsageLogRow \<Rightarrow> int" where
  "rowTokens r = lg_InputTokens r + lg_OutputTokens r + lg_CacheCreationTokens r + lg_CacheReadTokens r"

text \<open>\<open>TRIM\<close> of the database takes off blanks only.\<close>

definition sql_trim :: "gostr \<Rightarrow> gostr" where
  "sql_trim s = rev (dropWhile (\<lambda>c. c = CHR '' '') (rev (dropWhile (\<lambda>c. c = CHR '' '') s)))"

definition requestedModelOf :: "UsageLogRow \<Rightarrow> gostr" where
  "requestedModelOf r =
     (case lg_RequestedModel r of
        None \<Rightarrow> lg_Model r
      | Some m \<Rightarrow> if sql_trim m = '''' then lg_Model r else sql_trim m)"

datatype geminiModelClass = geminiModelPro | geminiModelFlash

definition geminiModelClassFromName :: "gostr \<Rightarrow> geminiModelClass" where
  "geminiModelClassFromName model =
     (let n = to_lower (trim_space model)
      in if contains n ''flash'' \<or> contains n ''lite'' then geminiModelFlash else geminiModelPro)"

record GeminiUsageTotals =
  gu_ProRequests :: int
  gu_FlashRequests :: int
  gu_ProTokens :: int
  gu_FlashTokens :: int
  gu_ProCost :: rat
  gu_FlashCost :: rat

definition zero_totals :: GeminiUsageTotals where
  "zero_totals = \<lparr>gu_ProRequests = 0, gu_FlashRequests = 0, gu_ProTokens = 0, gu_FlashTokens = 0, gu_ProCost = 0, gu_FlashCost = 0\<rparr>"

record ModelStat =
  ms_Model :: gostr
  ms_Requests :: int
  ms_TotalTokens :: int
  ms_ActualCost :: rat

record precheck_env =
  pe_now :: time
  pe_pacific :: location
  pe_config :: gemini_config
  pe_usageRepo :: bool
  pe_quotaService :: bool
  pe_batchReader :: bool
  pe_logs :: "UsageLogRow list"
  pe_fails :: "int64 list \<Rightarrow> time \<Rightarrow> bool"

definition inWindow :: "precheck_env \<Rightarrow> time \<Rightarrow> UsageLogRow \<Rightarrow> bool" where
  "inWindow E start r = (start \<le> lg_CreatedAt r \<and> lg_CreatedAt r < pe_now E)"

text \<open>Grouped by model, most tokens first; the id 0 does not restrict the accounts.\<close>

definition modelStat :: "int64 \<Rightarrow> UsageLogRow list \<Rightarrow> gostr \<Rightarrow> ModelStat" where
  "modelStat accountID rows m =
     (let rs = filter (\<lambda>r. requestedModelOf r = m) rows
      in \<lparr>ms_Model = m, ms_Requests = int (length rs), ms_TotalTokens = sum_list (map rowTokens rs),
          ms_ActualCost = (if accountID > 0
             then sum_list (map (\<lambda>r. lg_TotalCost r * (case lg_AccountRateMultiplier r of None \<Rightarrow> 1 | Some x \<Rightarrow> x)) rs)
             else sum_list (map lg_ActualCost rs))\<rparr>)"

definition GetModelStatsWithFilters :: "precheck_env \<Rightarrow> time \<Rightarrow> int64 \<Rightarrow> ModelStat list option" where
  "GetModelStatsWithFilters E start accountID =
     (let rows = filter (\<lambda>r. inWindow E start r \<and> (accountID > 0 \<longrightarrow> lg_AccountID r = accountID)) (pe_logs E)
      in if pe_fails E [accountID] start then None
         else Some (sort_key (\<lambda>s. - ms_TotalTokens s) (map (modelStat accountID rows) (remdups (map requestedModelOf rows)))))"

definition addStat :: "GeminiUsageTotals \<Rightarrow> ModelStat \<Rightarrow> GeminiUsageTotals" where
  "addStat t s =
     (if geminiModelClassFromName (ms_Model s) = geminiModelFlash
      then t\<lparr>gu_FlashRequests := gu_FlashRequests t + ms_Requests s, gu_FlashTokens := gu_FlashTokens t + ms_TotalTokens s,
             gu_FlashCost := gu_FlashCost t + ms_ActualCost s\<rparr>
      else t\<lparr>gu_ProRequests := gu_ProRequests t + ms_Requests s, gu_ProTokens := gu_ProTokens t + ms_TotalTokens s,
             gu_ProCost := gu_ProCost t + ms_ActualCost s\<rparr>)"

definition geminiAggregateUsage :: "ModelStat list \<Rightarrow> GeminiUsageTotals" where
  "geminiAggregateUsage stats = foldl addStat zero_totals stats"

text \<open>The query for many accounts classifies by the column \<open>model\<close>.\<close>

definition flashColumn :: "UsageLogRow \<Rightarrow> bool" where
  "flashColumn r = (contains (to_lower (lg_Model r)) ''flash'' \<or> contains (to_lower (lg_Model r)) ''lite'')"

definition columnTotals :: "UsageLogRow list \<Rightarrow> GeminiUsageTotals" where
  "columnTotals rows =
     (let flash = filter flashColumn rows; pro = filter (\<lambda>r. \<not> flashColumn r) rows
      in \<lparr>gu_ProRequests = int (length pro), gu_FlashRequests = int (length flash),
          gu_ProTokens = sum_list (map rowTokens pro), gu_FlashTokens = sum_list (map rowTokens flash),
          gu_ProCost = sum_list (map lg_ActualCost pro), gu_FlashCost = sum_list (map lg_ActualCost flash)\<rparr>)"

definition GetGeminiUsageTotalsBatch :: "precheck_env \<Rightarrow> int64 list \<Rightarrow> time \<Rightarrow> (int64 \<Rightarrow> GeminiUsageTotals option) option" where
  "GetGeminiUsageTotalsBatch E ids start =
     (if ids = [] then Some Map.empty
      else if pe_fails E ids start then None
      else Some (\<lambda>i. if i \<notin> set ids then None
                     else Some (columnTotals (filter (\<lambda>r. lg_AccountID r = i \<and> inWindow E start r) (pe_logs E)))))"

section \<open>Limits\<close>

definition geminiDailyLimit :: "GeminiQuota \<Rightarrow> geminiModelClass \<Rightarrow> int" where
  "geminiDailyLimit q c =
     (if gq_SharedRPD q > 0 then gq_SharedRPD q else if c = geminiModelFlash then gq_FlashRPD q else gq_ProRPD q)"

definition geminiMinuteLimit :: "GeminiQuota \<Rightarrow> geminiModelClass \<Rightarrow> int" where
  "geminiMinuteLimit q c =
     (if gq_SharedRPM q > 0 then gq_SharedRPM q else if c = geminiModelFlash then gq_FlashRPM q else gq_ProRPM q)"

definition geminiUsedRequests :: "GeminiQuota \<Rightarrow> geminiModelClass \<Rightarrow> GeminiUsageTotals \<Rightarrow> bool \<Rightarrow> int" where
  "geminiUsedRequests q c t daily =
     (if (if daily then gq_SharedRPD q > 0 else gq_SharedRPM q > 0) then gu_ProRequests t + gu_FlashRequests t
      else if c = geminiModelFlash then gu_FlashRequests t else gu_ProRequests t)"

section \<open>The cache of totals\<close>

record geminiUsageCacheEntry =
  ce_windowStart :: time
  ce_cachedAt :: time
  ce_totals :: GeminiUsageTotals

record precheck_world =
  pc_usage :: "int64 \<Rightarrow> geminiUsageCacheEntry option"
  pc_quota :: quota_service

definition geminiPrecheckCacheTTL :: time where "geminiPrecheckCacheTTL = minute"

definition getGeminiUsageTotals :: "int64 \<Rightarrow> time \<Rightarrow> time \<Rightarrow> precheck_world \<Rightarrow> GeminiUsageTotals option" where
  "getGeminiUsageTotals i windowStart now w =
     (case pc_usage w i of
        None \<Rightarrow> None
      | Some e \<Rightarrow> if ce_windowStart e \<noteq> windowStart then None
                  else if now - ce_cachedAt e \<ge> geminiPrecheckCacheTTL then None
                  else Some (ce_totals e))"

definition setGeminiUsageTotals :: "int64 \<Rightarrow> time \<Rightarrow> time \<Rightarrow> GeminiUsageTotals \<Rightarrow> precheck_world \<Rightarrow> precheck_world" where
  "setGeminiUsageTotals i windowStart now t w =
     w\<lparr>pc_usage := (pc_usage w)(i \<mapsto> \<lparr>ce_windowStart = windowStart, ce_cachedAt = now, ce_totals = t\<rparr>)\<rparr>"

definition dailyStart :: "precheck_env \<Rightarrow> time" where
  "dailyStart E = geminiDailyWindowStart (pe_pacific E) (pe_now E)"

text \<open>\<open>now.Truncate(time.Minute)\<close>.\<close>

definition minuteStart :: "precheck_env \<Rightarrow> time" where
  "minuteStart E = pe_now E div minute * minute"

section \<open>One account\<close>

text \<open>The totals of the day, from the cache or the logs; \<open>None\<close> is an error.\<close>

definition dailyTotals :: "precheck_env \<Rightarrow> int64 \<Rightarrow> precheck_world \<Rightarrow> GeminiUsageTotals option \<times> precheck_world" where
  "dailyTotals E i w =
     (case getGeminiUsageTotals i (dailyStart E) (pe_now E) w of
        Some t \<Rightarrow> (Some t, w)
      | None \<Rightarrow>
          (case GetModelStatsWithFilters E (dailyStart E) i of
             None \<Rightarrow> (None, w)
           | Some stats \<Rightarrow>
               (Some (geminiAggregateUsage stats),
                setGeminiUsageTotals i (dailyStart E) (pe_now E) (geminiAggregateUsage stats) w)))"

definition checkMinute :: "precheck_env \<Rightarrow> int64 \<Rightarrow> GeminiQuota \<Rightarrow> geminiModelClass \<Rightarrow> bool \<times> bool" where
  "checkMinute E i q c =
     (if geminiMinuteLimit q c \<le> 0 then (True, False)
      else case GetModelStatsWithFilters E (minuteStart E) i of
             None \<Rightarrow> (True, True)
           | Some stats \<Rightarrow> (geminiUsedRequests q c (geminiAggregateUsage stats) False < geminiMinuteLimit q c, False))"

definition checkQuota :: "precheck_env \<Rightarrow> int64 \<Rightarrow> GeminiQuota \<Rightarrow> geminiModelClass \<Rightarrow> precheck_world \<Rightarrow> (bool \<times> bool) \<times> precheck_world" where
  "checkQuota E i q c w =
     (if geminiDailyLimit q c \<le> 0 then (checkMinute E i q c, w)
      else case dailyTotals E i w of
             (None, w1) \<Rightarrow> ((True, True), w1)
           | (Some t, w1) \<Rightarrow>
               if geminiUsedRequests q c t True \<ge> geminiDailyLimit q c then ((False, False), w1)
               else (checkMinute E i q c, w1))"

definition PreCheckUsage :: "precheck_env \<Rightarrow> Account option \<Rightarrow> gostr \<Rightarrow> precheck_world \<Rightarrow> (bool \<times> bool) \<times> precheck_world" where
  "PreCheckUsage E acc requestedModel w =
     (case acc of
        None \<Rightarrow> ((True, False), w)
      | Some a \<Rightarrow>
          if act_Platform a \<noteq> PlatformGemini \<or> \<not> pe_usageRepo E \<or> \<not> pe_quotaService E then ((True, False), w)
          else case QuotaForAccount (pe_config E) (pe_now E) (Some a) (pc_quota w) of
                 (None, s) \<Rightarrow> ((True, False), w\<lparr>pc_quota := s\<rparr>)
               | (Some q, s) \<Rightarrow>
                   checkQuota E (act_ID a) q (geminiModelClassFromName requestedModel) (w\<lparr>pc_quota := s\<rparr>))"

section \<open>Many accounts\<close>

fun singleTotals :: "precheck_env \<Rightarrow> time \<Rightarrow> int64 list \<Rightarrow> (int64 \<Rightarrow> GeminiUsageTotals option) \<Rightarrow> (int64 \<Rightarrow> GeminiUsageTotals option) option" where
  "singleTotals E start [] m = Some m"
| "singleTotals E start (i # ids) m =
     (case GetModelStatsWithFilters E start i of
        None \<Rightarrow> None
      | Some stats \<Rightarrow> singleTotals E start ids (m(i \<mapsto> geminiAggregateUsage stats)))"

definition getGeminiUsageTotalsBatch :: "precheck_env \<Rightarrow> int64 list \<Rightarrow> time \<Rightarrow> (int64 \<Rightarrow> GeminiUsageTotals option) option" where
  "getGeminiUsageTotalsBatch E accountIDs start =
     (let ids = rev (remdups (rev (filter (\<lambda>i. i > 0) accountIDs)))
      in if ids = [] then Some Map.empty
         else if pe_batchReader E then GetGeminiUsageTotalsBatch E ids start
         else singleTotals E start ids Map.empty)"

definition totalsFor :: "(int64 \<Rightarrow> GeminiUsageTotals option) \<Rightarrow> int64 \<Rightarrow> GeminiUsageTotals" where
  "totalsFor m i = (case m i of None \<Rightarrow> zero_totals | Some t \<Rightarrow> t)"

fun quotaAccounts :: "precheck_env \<Rightarrow> Account option list \<Rightarrow> quota_service \<Rightarrow> (int64 \<times> GeminiQuota) list \<times> quota_service" where
  "quotaAccounts E [] s = ([], s)"
| "quotaAccounts E (None # accs) s = quotaAccounts E accs s"
| "quotaAccounts E (Some a # accs) s =
     (if act_Platform a \<noteq> PlatformGemini then quotaAccounts E accs s
      else case QuotaForAccount (pe_config E) (pe_now E) (Some a) s of
             (None, s1) \<Rightarrow> quotaAccounts E accs s1
           | (Some q, s1) \<Rightarrow> (case quotaAccounts E accs s1 of (items, s2) \<Rightarrow> ((act_ID a, q) # items, s2)))"

definition allAllowed :: "Account option list \<Rightarrow> int64 \<Rightarrow> bool option" where
  "allAllowed accs = (\<lambda>i. if \<exists>a\<in>set accs. map_option act_ID a = Some i then Some True else None)"

definition refuseDaily ::
    "geminiModelClass \<Rightarrow> (int64 \<Rightarrow> GeminiUsageTotals option) \<Rightarrow> (int64 \<Rightarrow> bool option) \<Rightarrow> int64 \<times> GeminiQuota \<Rightarrow> int64 \<Rightarrow> bool option" where
  "refuseDaily c totals result item =
     (case item of (i, q) \<Rightarrow>
        if geminiDailyLimit q c \<le> 0 then result
        else if geminiUsedRequests q c (totalsFor totals i) True \<ge> geminiDailyLimit q c then result(i \<mapsto> False) else result)"

definition refuseMinute ::
    "geminiModelClass \<Rightarrow> (int64 \<Rightarrow> GeminiUsageTotals option) \<Rightarrow> (int64 \<Rightarrow> bool option) \<Rightarrow> int64 \<times> GeminiQuota \<Rightarrow> int64 \<Rightarrow> bool option" where
  "refuseMinute c totals result item =
     (case item of (i, q) \<Rightarrow>
        if result i \<noteq> Some True \<or> geminiMinuteLimit q c \<le> 0 then result
        else if geminiUsedRequests q c (totalsFor totals i) False \<ge> geminiMinuteLimit q c then result(i \<mapsto> False) else result)"

text \<open>The results after the check of the day, and the check of the minute.\<close>

definition minuteBatch ::
    "precheck_env \<Rightarrow> geminiModelClass \<Rightarrow> (int64 \<times> GeminiQuota) list \<Rightarrow> (int64 \<Rightarrow> bool option) \<Rightarrow> (int64 \<Rightarrow> bool option) \<times> bool" where
  "minuteBatch E c items result =
     (let minuteIDs = map fst (filter (\<lambda>(i, q). result i = Some True \<and> geminiMinuteLimit q c > 0) items)
      in if minuteIDs = [] then (result, False)
         else case getGeminiUsageTotalsBatch E minuteIDs (minuteStart E) of
                None \<Rightarrow> (result, True)
              | Some totals \<Rightarrow> (foldl (refuseMinute c totals) result items, False))"

definition storeDaily :: "precheck_env \<Rightarrow> (int64 \<Rightarrow> GeminiUsageTotals option) \<Rightarrow> precheck_world \<Rightarrow> int64 \<Rightarrow> precheck_world" where
  "storeDaily E totals w i = setGeminiUsageTotals i (dailyStart E) (pe_now E) (totalsFor totals i) w"

text \<open>Totals of the day for every account with a limit: cached ones, and those of one query for the others.\<close>

definition dailyBatch ::
    "precheck_env \<Rightarrow> geminiModelClass \<Rightarrow> (int64 \<times> GeminiQuota) list \<Rightarrow> precheck_world \<Rightarrow> (int64 \<Rightarrow> GeminiUsageTotals option) option \<times> precheck_world" where
  "dailyBatch E c items w =
     (let limited = map fst (filter (\<lambda>(_, q). geminiDailyLimit q c > 0) items);
          cached = (\<lambda>i. getGeminiUsageTotals i (dailyStart E) (pe_now E) w);
          missIDs = filter (\<lambda>i. cached i = None) limited
      in if missIDs = [] then (Some cached, w)
         else case getGeminiUsageTotalsBatch E missIDs (dailyStart E) of
                None \<Rightarrow> (None, w)
              | Some totals \<Rightarrow> (Some (\<lambda>i. if i \<in> set missIDs then Some (totalsFor totals i) else cached i),
                                foldl (storeDaily E totals) w missIDs))"

definition PreCheckUsageBatch ::
    "precheck_env \<Rightarrow> Account option list \<Rightarrow> gostr \<Rightarrow> precheck_world \<Rightarrow> ((int64 \<Rightarrow> bool option) \<times> bool) \<times> precheck_world" where
  "PreCheckUsageBatch E accs requestedModel w =
     (if accs = [] \<or> requestedModel = '''' \<or> \<not> pe_usageRepo E \<or> \<not> pe_quotaService E then ((allAllowed accs, False), w)
      else case quotaAccounts E accs (pc_quota w) of (items, s) \<Rightarrow>
        let w1 = w\<lparr>pc_quota := s\<rparr>; c = geminiModelClassFromName requestedModel
        in if items = [] then ((allAllowed accs, False), w1)
           else case dailyBatch E c items w1 of
                  (None, w2) \<Rightarrow> ((allAllowed accs, True), w2)
                | (Some totals, w2) \<Rightarrow> (minuteBatch E c items (foldl (refuseDaily c totals) (allAllowed accs) items), w2))"

definition GeminiCooldown :: "precheck_env \<Rightarrow> Account option \<Rightarrow> precheck_world \<Rightarrow> time \<times> precheck_world" where
  "GeminiCooldown E acc w =
     (if acc = None \<or> \<not> pe_quotaService E then (5 * minute, w)
      else case CooldownForAccount (pe_config E) (pe_now E) acc (pc_quota w) of (d, s) \<Rightarrow> (d, w\<lparr>pc_quota := s\<rparr>))"

end
