(* ===== verification/Gemini_Precheck_Safety.thy ===== *)
theory Gemini_Precheck_Safety
  imports Gemini_Precheck "HOL-Library.Multiset"
begin

text \<open>
  The check of many Gemini accounts at once decides what the checks of the accounts one after another
  decide over the classes of logged requests that the batch query sees (\<open>batchView\<close>).
\<close>

section \<open>Counting requests\<close>

text \<open>Totals count when they agree on requests; tokens and costs do not decide.\<close>

definition same_requests :: "GeminiUsageTotals \<Rightarrow> GeminiUsageTotals \<Rightarrow> bool" where
  "same_requests t u = (gu_ProRequests t = gu_ProRequests u \<and> gu_FlashRequests t = gu_FlashRequests u)"

lemma same_requests_refl [simp]: "same_requests t t"
  by (simp add: same_requests_def)

lemma same_requests_used: "same_requests t u \<Longrightarrow> geminiUsedRequests q c t daily = geminiUsedRequests q c u daily"
  by (simp add: same_requests_def geminiUsedRequests_def)

lemma foldl_addStat:
  "gu_FlashRequests (foldl addStat t stats) =
     gu_FlashRequests t + sum_list (map (\<lambda>s. if geminiModelClassFromName (ms_Model s) = geminiModelFlash then ms_Requests s else 0) stats)"
  "gu_ProRequests (foldl addStat t stats) =
     gu_ProRequests t + sum_list (map (\<lambda>s. if geminiModelClassFromName (ms_Model s) = geminiModelFlash then 0 else ms_Requests s) stats)"
  by (induction stats arbitrary: t) (auto simp: addStat_def)

text \<open>Counting by groups is counting.\<close>

lemma sum_groups:
  "finite S \<Longrightarrow> f ` set xs \<subseteq> S \<Longrightarrow>
   (\<Sum>m\<in>S. if P m then int (length (filter (\<lambda>x. f x = m) xs)) else 0) = int (length (filter (\<lambda>x. P (f x)) xs))"
proof (induction xs)
  case (Cons x xs)
  have "(\<Sum>m\<in>S. if P m then int (length (filter (\<lambda>x. f x = m) (x # xs))) else 0) =
      (\<Sum>m\<in>S. (if P m then int (length (filter (\<lambda>x. f x = m) xs)) else 0) + (if m = f x then (if P m then 1 else 0) else 0))"
    by (rule sum.cong) auto
  also have "\<dots> = int (length (filter (\<lambda>x. P (f x)) xs)) + (if P (f x) then 1 else 0)"
    using Cons by (simp add: sum.distrib sum.delta)
  finally show ?case by simp
qed (auto intro: sum.neutral)

lemma sum_list_groups:
  "sum_list (map (\<lambda>m. if P m then int (length (filter (\<lambda>x. f x = m) xs)) else 0) (remdups (map f xs))) =
     int (length (filter (\<lambda>x. P (f x)) xs))"
  using sum_groups [of "f ` set xs" f xs P] by (simp add: sum_list_distinct_conv_sum_set)

lemma if_swap: "(if P then 0 else x) = (if \<not> P then x else (0 :: int))"
  by simp

lemma sum_list_sort_key [simp]: "sum_list (map (f :: 'a \<Rightarrow> int) (sort_key k xs)) = sum_list (map f xs)"
  by (metis mset_map mset_sort sum_mset_sum_list)

text \<open>The requests of an account in a window, by the model that was requested.\<close>

definition accountRows :: "precheck_env \<Rightarrow> int64 \<Rightarrow> time \<Rightarrow> UsageLogRow list" where
  "accountRows E i start = filter (\<lambda>r. lg_AccountID r = i \<and> inWindow E start r) (pe_logs E)"

definition isFlash :: "UsageLogRow \<Rightarrow> bool" where
  "isFlash r = (geminiModelClassFromName (requestedModelOf r) = geminiModelFlash)"

definition statTotals :: "precheck_env \<Rightarrow> int64 \<Rightarrow> time \<Rightarrow> GeminiUsageTotals" where
  "statTotals E i start =
     (let rows = accountRows E i start
      in geminiAggregateUsage (sort_key (\<lambda>s. - ms_TotalTokens s) (map (modelStat i rows) (remdups (map requestedModelOf rows)))))"

lemma modelStat_simps [simp]:
  "ms_Model (modelStat i rows m) = m" "ms_Requests (modelStat i rows m) = int (length (filter (\<lambda>r. requestedModelOf r = m) rows))"
  by (simp_all add: modelStat_def Let_def)

lemma statTotals_requests:
  "gu_FlashRequests (statTotals E i start) = int (length (filter isFlash (accountRows E i start)))"
  "gu_ProRequests (statTotals E i start) = int (length (filter (\<lambda>r. \<not> isFlash r) (accountRows E i start)))"
proof -
  let ?rows = "accountRows E i start" and ?flash = "\<lambda>m. geminiModelClassFromName m = geminiModelFlash"
  have "gu_FlashRequests (statTotals E i start) =
      sum_list (map (\<lambda>m. if ?flash m then int (length (filter (\<lambda>r. requestedModelOf r = m) ?rows)) else 0)
        (remdups (map requestedModelOf ?rows)))"
    by (simp add: statTotals_def geminiAggregateUsage_def Let_def foldl_addStat zero_totals_def comp_def cong: if_cong)
  then show "gu_FlashRequests (statTotals E i start) = int (length (filter isFlash ?rows))"
    by (simp only: sum_list_groups isFlash_def [abs_def])
  have "gu_ProRequests (statTotals E i start) =
      sum_list (map (\<lambda>m. if \<not> ?flash m then int (length (filter (\<lambda>r. requestedModelOf r = m) ?rows)) else 0)
        (remdups (map requestedModelOf ?rows)))"
    by (simp add: statTotals_def geminiAggregateUsage_def Let_def foldl_addStat zero_totals_def comp_def
        if_swap cong: if_cong)
  then show "gu_ProRequests (statTotals E i start) = int (length (filter (\<lambda>r. \<not> isFlash r) ?rows))"
    by (simp only: sum_list_groups isFlash_def)
qed

lemma stats_of_account:
  "i > 0 \<Longrightarrow> pe_fails E = (\<lambda>_ _. False) \<Longrightarrow>
   map_option geminiAggregateUsage (GetModelStatsWithFilters E start i) = Some (statTotals E i start)"
  by (simp add: GetModelStatsWithFilters_def statTotals_def accountRows_def Let_def conj_commute)

lemma columnTotals_requests:
  "\<forall>r\<in>set rows. flashColumn r = isFlash r \<Longrightarrow>
   gu_FlashRequests (columnTotals rows) = int (length (filter isFlash rows)) \<and>
   gu_ProRequests (columnTotals rows) = int (length (filter (\<lambda>r. \<not> isFlash r) rows))"
  by (simp add: columnTotals_def Let_def cong: filter_cong)

section \<open>Both checks in closed form\<close>

text \<open>
  The verdict on an account and the state that a check leaves, over any source \<open>S\<close> of totals: what an
  account id and the start of a window are answered.
\<close>

type_synonym totals_source = "int64 \<Rightarrow> time \<Rightarrow> GeminiUsageTotals"

definition quotaFor :: "precheck_env \<Rightarrow> precheck_world \<Rightarrow> Account \<Rightarrow> GeminiQuota option" where
  "quotaFor E w a = fst (QuotaForAccount (pe_config E) (pe_now E) (Some a) (pc_quota w))"

definition todayOf :: "totals_source \<Rightarrow> precheck_env \<Rightarrow> precheck_world \<Rightarrow> int64 \<Rightarrow> GeminiUsageTotals" where
  "todayOf S E w i =
     (case getGeminiUsageTotals i (dailyStart E) (pe_now E) w of None \<Rightarrow> S i (dailyStart E) | Some t \<Rightarrow> t)"

definition refusedDaily :: "totals_source \<Rightarrow> precheck_env \<Rightarrow> geminiModelClass \<Rightarrow> precheck_world \<Rightarrow> int64 \<Rightarrow> GeminiQuota \<Rightarrow> bool" where
  "refusedDaily S E c w i q =
     (0 < geminiDailyLimit q c \<and> geminiDailyLimit q c \<le> geminiUsedRequests q c (todayOf S E w i) True)"

definition refusedMinute :: "totals_source \<Rightarrow> precheck_env \<Rightarrow> geminiModelClass \<Rightarrow> int64 \<Rightarrow> GeminiQuota \<Rightarrow> bool" where
  "refusedMinute S E c i q =
     (0 < geminiMinuteLimit q c \<and> geminiMinuteLimit q c \<le> geminiUsedRequests q c (S i (minuteStart E)) False)"

definition verdict :: "totals_source \<Rightarrow> precheck_env \<Rightarrow> geminiModelClass \<Rightarrow> precheck_world \<Rightarrow> Account \<Rightarrow> bool" where
  "verdict S E c w a =
     (case quotaFor E w a of
        None \<Rightarrow> True
      | Some q \<Rightarrow> \<not> refusedDaily S E c w (act_ID a) q \<and> \<not> refusedMinute S E c (act_ID a) q)"

text \<open>The accounts whose totals of the day are looked up.\<close>

definition looksUp :: "precheck_env \<Rightarrow> geminiModelClass \<Rightarrow> precheck_world \<Rightarrow> Account \<Rightarrow> bool" where
  "looksUp E c w a =
     ((case quotaFor E w a of None \<Rightarrow> False | Some q \<Rightarrow> 0 < geminiDailyLimit q c) \<and>
      getGeminiUsageTotals (act_ID a) (dailyStart E) (pe_now E) w = None)"

definition freshEntry :: "totals_source \<Rightarrow> precheck_env \<Rightarrow> int64 \<Rightarrow> geminiUsageCacheEntry" where
  "freshEntry S E i = \<lparr>ce_windowStart = dailyStart E, ce_cachedAt = pe_now E, ce_totals = S i (dailyStart E)\<rparr>"

definition usageAfter :: "totals_source \<Rightarrow> precheck_env \<Rightarrow> geminiModelClass \<Rightarrow> precheck_world \<Rightarrow> Account set \<Rightarrow> int64 \<Rightarrow> geminiUsageCacheEntry option" where
  "usageAfter S E c w A = (\<lambda>i. if \<exists>a\<in>A. act_ID a = i \<and> looksUp E c w a then Some (freshEntry S E i) else pc_usage w i)"

definition quotaAfter :: "precheck_env \<Rightarrow> precheck_world \<Rightarrow> Account set \<Rightarrow> quota_service" where
  "quotaAfter E w A =
     (if \<exists>a\<in>A. geminiQuotaTierKeyForAccount (Some a) \<noteq> '''' then snd (Policy (pe_config E) (pe_now E) (pc_quota w)) else pc_quota w)"

definition after :: "totals_source \<Rightarrow> precheck_env \<Rightarrow> geminiModelClass \<Rightarrow> precheck_world \<Rightarrow> Account set \<Rightarrow> precheck_world" where
  "after S E c w A = w\<lparr>pc_usage := usageAfter S E c w A, pc_quota := quotaAfter E w A\<rparr>"

lemma not_gemini_no_key: "act_Platform a \<noteq> PlatformGemini \<Longrightarrow> geminiQuotaTierKeyForAccount (Some a) = ''''"
  by (simp add: geminiQuotaTierKeyForAccount_def Let_def)

lemma QuotaForAccount_snd:
  "snd (QuotaForAccount (pe_config E) (pe_now E) (Some a) (pc_quota w)) = quotaAfter E w {a}"
  by (auto simp: QuotaForAccount_def quotaAfter_def split: prod.splits)

text \<open>The state of the quota service never changes an answer within an instant.\<close>

lemma Policy_fst_again: "fst (Policy C now (snd (Policy C now s))) = fst (Policy C now s)"
    "snd (Policy C now (snd (Policy C now s))) = snd (Policy C now s)"
  by (cases "Policy C now s"; simp add: Policy_again)+

lemma quotaFor_after [simp]: "pc_quota w' = quotaAfter E w A \<Longrightarrow> quotaFor E w' a = quotaFor E w a"
  by (auto simp: quotaFor_def quotaAfter_def QuotaForAccount_def Policy_fst_again split_def)

lemma after_fields [simp]:
  "pc_usage (after S E c w A) = usageAfter S E c w A" "pc_quota (after S E c w A) = quotaAfter E w A"
  by (simp_all add: after_def)

section \<open>One account after another\<close>

lemma dailyTotals_closed:
  assumes "i > 0" "pe_fails E = (\<lambda>_ _. False)"
  shows "dailyTotals E i w =
     (Some (todayOf (statTotals E) E w i),
      if getGeminiUsageTotals i (dailyStart E) (pe_now E) w = None
      then w\<lparr>pc_usage := (pc_usage w)(i \<mapsto> freshEntry (statTotals E) E i)\<rparr> else w)"
  using stats_of_account [OF assms, of "dailyStart E"]
  by (auto simp: dailyTotals_def todayOf_def setGeminiUsageTotals_def freshEntry_def split: option.splits)

lemma checkMinute_closed:
  assumes "i > 0" "pe_fails E = (\<lambda>_ _. False)"
  shows "checkMinute E i q c = (\<not> refusedMinute (statTotals E) E c i q, False)"
  using stats_of_account [OF assms, of "minuteStart E"]
  by (auto simp: checkMinute_def refusedMinute_def split: option.splits)

lemma single_closed:
  assumes "pe_usageRepo E" "pe_quotaService E" "pe_fails E = (\<lambda>_ _. False)" "act_ID a > 0"
  shows "PreCheckUsage E (Some a) model w =
     ((verdict (statTotals E) E (geminiModelClassFromName model) w a, False),
      after (statTotals E) E (geminiModelClassFromName model) w {a})"
proof -
  let ?c = "geminiModelClassFromName model" and ?S = "statTotals E"
  obtain qo s where q: "QuotaForAccount (pe_config E) (pe_now E) (Some a) (pc_quota w) = (qo, s)"
    by (cases "QuotaForAccount (pe_config E) (pe_now E) (Some a) (pc_quota w)") auto
  have qf: "quotaFor E w a = qo" and s: "quotaAfter E w {a} = s"
    using q QuotaForAccount_snd [of E a w] by (simp_all add: quotaFor_def)
  have get: "getGeminiUsageTotals i t u (w\<lparr>pc_quota := s\<rparr>) = getGeminiUsageTotals i t u w" for i t u
    by (simp add: getGeminiUsageTotals_def)
  show ?thesis
  proof (cases qo)
    case None
    have "usageAfter ?S E ?c w {a} = pc_usage w" using qf None by (auto simp: usageAfter_def looksUp_def)
    then show ?thesis
      using assms q qf s None not_gemini_no_key [of a]
      by (auto simp: PreCheckUsage_def verdict_def after_def quotaAfter_def)
  next
    case (Some quota)
    have gem: "act_Platform a = PlatformGemini"
      using q Some not_gemini_no_key [of a] by (auto simp: QuotaForAccount_def split: if_splits)
    have "PreCheckUsage E (Some a) model w = checkQuota E (act_ID a) quota ?c (w\<lparr>pc_quota := s\<rparr>)"
      using assms q Some gem by (simp add: PreCheckUsage_def)
    also have "\<dots> = ((verdict ?S E ?c w a, False), after ?S E ?c w {a})"
      using assms(3,4) qf s Some
      by (auto simp: checkQuota_def dailyTotals_closed checkMinute_closed verdict_def refusedDaily_def after_def usageAfter_def
          looksUp_def todayOf_def get fun_eq_iff intro!: precheck_world.equality)
    finally show ?thesis .
  qed
qed

text \<open>The checks of a list of accounts, each in the state that the previous one left.\<close>

primrec precheckEach :: "precheck_env \<Rightarrow> Account list \<Rightarrow> gostr \<Rightarrow> precheck_world \<Rightarrow> (bool \<times> bool) list \<times> precheck_world" where
  "precheckEach E [] model w = ([], w)"
| "precheckEach E (a # accs) model w =
     (case PreCheckUsage E (Some a) model w of (r, w1) \<Rightarrow>
        case precheckEach E accs model w1 of (rs, w2) \<Rightarrow> (r # rs, w2))"

lemma each_closed:
  fixes E :: precheck_env and model :: gostr
  assumes "pe_usageRepo E" "pe_quotaService E" "pe_fails E = (\<lambda>_ _. False)"
  defines "c \<equiv> geminiModelClassFromName model"
  shows "distinct (map act_ID accs) \<Longrightarrow> \<forall>a\<in>set accs. act_ID a > 0 \<Longrightarrow>
     precheckEach E accs model w =
       (map (\<lambda>a. (verdict (statTotals E) E c w a, False)) accs, after (statTotals E) E c w (set accs))"
proof (induction accs arbitrary: w)
  case Nil
  then show ?case by (simp add: after_def usageAfter_def quotaAfter_def)
next
  case (Cons a accs)
  let ?S = "statTotals E"
  define w1 where "w1 = after ?S E c w {a}"
  have one: "PreCheckUsage E (Some a) model w = ((verdict ?S E c w a, False), w1)"
    using single_closed [OF assms(1-3), of a] Cons.prems by (simp add: c_def w1_def)
  have get: "getGeminiUsageTotals (act_ID b) t u w1 = getGeminiUsageTotals (act_ID b) t u w" if "b \<in> set accs" for b t u
    using that Cons.prems by (auto simp: getGeminiUsageTotals_def w1_def usageAfter_def)
  have quota: "quotaFor E w1 b = quotaFor E w b" for b by (simp add: w1_def)
  have v: "verdict ?S E c w1 b = verdict ?S E c w b" and l: "looksUp E c w1 b = looksUp E c w b" if "b \<in> set accs" for b
    using get [OF that] by (simp_all add: verdict_def quota looksUp_def refusedDaily_def todayOf_def cong: option.case_cong)
  have "after ?S E c w1 (set accs) = after ?S E c w (set (a # accs))"
  proof (rule precheck_world.equality)
    show "pc_usage (after ?S E c w1 (set accs)) = pc_usage (after ?S E c w (set (a # accs)))"
      using l by (auto simp: w1_def usageAfter_def fun_eq_iff)
    show "pc_quota (after ?S E c w1 (set accs)) = pc_quota (after ?S E c w (set (a # accs)))"
      by (auto simp: w1_def quotaAfter_def Policy_fst_again)
  qed simp
  then show ?case
    using Cons.IH [of w1] Cons.prems v one by (simp add: w1_def [symmetric])
qed

section \<open>Many accounts at once\<close>

definition batchTotals :: "precheck_env \<Rightarrow> int64 \<Rightarrow> time \<Rightarrow> GeminiUsageTotals" where
  "batchTotals E i start = (if pe_batchReader E then columnTotals (accountRows E i start) else statTotals E i start)"

lemma singleTotals_closed:
  "pe_fails E = (\<lambda>_ _. False) \<Longrightarrow> \<forall>i\<in>set ids. i > 0 \<Longrightarrow>
   singleTotals E start ids m = Some (\<lambda>i. if i \<in> set ids then Some (statTotals E i start) else m i)"
proof (induction ids arbitrary: m)
  case (Cons i ids)
  then obtain stats where "GetModelStatsWithFilters E start i = Some stats" "geminiAggregateUsage stats = statTotals E i start"
    using stats_of_account [of i E start] by auto
  then show ?case using Cons by (auto simp: fun_eq_iff)
qed simp

lemma batch_totals:
  assumes "pe_fails E = (\<lambda>_ _. False)" "\<forall>i\<in>set ids. i > 0"
  obtains m where "getGeminiUsageTotalsBatch E ids start = Some m"
    "\<And>i. i \<in> set ids \<Longrightarrow> totalsFor m i = batchTotals E i start"
proof -
  have "\<forall>i\<in>set (rev (remdups (rev (filter (\<lambda>i. i > 0) ids)))). i > 0" using assms(2) by simp
  note single = singleTotals_closed [OF assms(1) this, of start]
  show thesis
    by (rule that [of "if ids = [] then Map.empty
           else (\<lambda>i. if i \<in> set ids then Some (batchTotals E i start) else None)"])
      (use assms single in \<open>auto simp: getGeminiUsageTotalsBatch_def GetGeminiUsageTotalsBatch_def batchTotals_def
         accountRows_def totalsFor_def Let_def fun_eq_iff filter_empty_conv\<close>)
qed

text \<open>The accounts with a quota.\<close>

definition itemsOf :: "precheck_env \<Rightarrow> precheck_world \<Rightarrow> Account list \<Rightarrow> (int64 \<times> GeminiQuota) list" where
  "itemsOf E w accs = List.map_filter (\<lambda>a. map_option (Pair (act_ID a)) (quotaFor E w a)) accs"

lemma itemsOf_set: "(i, q) \<in> set (itemsOf E w accs) \<longleftrightarrow> (\<exists>a\<in>set accs. act_ID a = i \<and> quotaFor E w a = Some q)"
  by (induction accs) (auto simp: itemsOf_def map_filter_simps split: option.splits)

lemma QuotaForAccount_after:
  "QuotaForAccount (pe_config E) (pe_now E) (Some a) (quotaAfter E w A) = (quotaFor E w a, quotaAfter E w (insert a A))"
  by (auto simp: quotaFor_def quotaAfter_def QuotaForAccount_def Policy_fst_again split_def)

lemma quotaAfter_not_gemini: "act_Platform a \<noteq> PlatformGemini \<Longrightarrow> quotaAfter E w (insert a A) = quotaAfter E w A"
  by (simp add: quotaAfter_def not_gemini_no_key)

lemma quotaFor_not_gemini: "act_Platform a \<noteq> PlatformGemini \<Longrightarrow> quotaFor E w a = None"
  by (simp add: quotaFor_def QuotaForAccount_def not_gemini_no_key)

lemma quotaAccounts_closed:
  "quotaAccounts E (map Some accs) (quotaAfter E w A) = (itemsOf E w accs, quotaAfter E w (A \<union> set accs))"
proof (induction accs arbitrary: A)
  case (Cons a accs)
  then show ?case
    using Cons [of "insert a A"]
    by (cases "act_Platform a = PlatformGemini"; cases "quotaFor E w a")
      (auto simp: QuotaForAccount_after quotaAfter_not_gemini quotaFor_not_gemini itemsOf_def)
qed (simp add: itemsOf_def map_filter_simps)

lemma foldl_refuse:
  "foldl (\<lambda>res (i, q). if P i q then res(i \<mapsto> False) else res) result items =
     (\<lambda>i. if \<exists>q. (i, q) \<in> set items \<and> P i q then Some False else result i)"
  by (induction items arbitrary: result) (auto simp: fun_eq_iff)

lemma foldl_refuse_allowed:
  "foldl (\<lambda>res (i, q). if res i = Some True \<and> P i q then res(i \<mapsto> False) else res) result items =
     (\<lambda>i. if result i = Some True \<and> (\<exists>q. (i, q) \<in> set items \<and> P i q) then Some False else result i)"
  by (induction items arbitrary: result) (auto simp: fun_eq_iff split: if_splits)

lemma refuseDaily_fold:
  "foldl (refuseDaily c m) result items = (\<lambda>i. if \<exists>q. (i, q) \<in> set items \<and> 0 < geminiDailyLimit q c \<and>
       geminiDailyLimit q c \<le> geminiUsedRequests q c (totalsFor m i) True then Some False else result i)"
proof -
  have "refuseDaily c m = (\<lambda>res (i, q). if 0 < geminiDailyLimit q c \<and>
      geminiDailyLimit q c \<le> geminiUsedRequests q c (totalsFor m i) True then res(i \<mapsto> False) else res)"
    by (auto simp: refuseDaily_def fun_eq_iff split: prod.splits)
  then show ?thesis by (simp only: foldl_refuse)
qed

lemma refuseMinute_fold:
  "foldl (refuseMinute c m) result items = (\<lambda>i. if result i = Some True \<and> (\<exists>q. (i, q) \<in> set items \<and> 0 < geminiMinuteLimit q c \<and>
       geminiMinuteLimit q c \<le> geminiUsedRequests q c (totalsFor m i) False) then Some False else result i)"
proof -
  have "refuseMinute c m = (\<lambda>res (i, q). if res i = Some True \<and> 0 < geminiMinuteLimit q c \<and>
      geminiMinuteLimit q c \<le> geminiUsedRequests q c (totalsFor m i) False then res(i \<mapsto> False) else res)"
    by (auto simp: refuseMinute_def fun_eq_iff split: prod.splits)
  then show ?thesis by (simp only: foldl_refuse_allowed)
qed

lemma storeDaily_fold:
  "foldl (storeDaily E m) w ids = w\<lparr>pc_usage := (\<lambda>i. if i \<in> set ids
       then Some \<lparr>ce_windowStart = dailyStart E, ce_cachedAt = pe_now E, ce_totals = totalsFor m i\<rparr> else pc_usage w i)\<rparr>"
  by (induction ids arbitrary: w) (auto simp: storeDaily_def setGeminiUsageTotals_def fun_eq_iff)

lemma dailyBatch_closed:
  assumes "pe_fails E = (\<lambda>_ _. False)" "\<forall>(i, q)\<in>set items. i > 0"
  defines "S \<equiv> batchTotals E"
  obtains totals where "dailyBatch E c items w =
      (Some totals, w\<lparr>pc_usage := (\<lambda>i. if (\<exists>q. (i, q) \<in> set items \<and> 0 < geminiDailyLimit q c) \<and>
          getGeminiUsageTotals i (dailyStart E) (pe_now E) w = None then Some (freshEntry S E i) else pc_usage w i)\<rparr>)"
    "\<And>i q. (i, q) \<in> set items \<Longrightarrow> 0 < geminiDailyLimit q c \<Longrightarrow> totalsFor totals i = todayOf S E w i"
proof -
  let ?cached = "\<lambda>i. getGeminiUsageTotals i (dailyStart E) (pe_now E) w"
  define miss where "miss = filter (\<lambda>i. ?cached i = None) (map fst (filter (\<lambda>(_, q). geminiDailyLimit q c > 0) items))"
  have miss_set: "i \<in> set miss \<longleftrightarrow> (\<exists>q. (i, q) \<in> set items \<and> 0 < geminiDailyLimit q c) \<and> ?cached i = None" for i
    by (force simp: miss_def)
  have "\<forall>i\<in>set miss. i > 0" using assms(2) by (auto simp: miss_set)
  from batch_totals [OF assms(1) this, of "dailyStart E"] obtain m where m:
    "getGeminiUsageTotalsBatch E miss (dailyStart E) = Some m" "\<And>i. i \<in> set miss \<Longrightarrow> totalsFor m i = S i (dailyStart E)"
    by (auto simp: S_def)
  define totals where "totals = (if miss = [] then ?cached else (\<lambda>i. if i \<in> set miss then Some (totalsFor m i) else ?cached i))"
  have d: "dailyBatch E c items w = (Some totals, foldl (storeDaily E m) w miss)"
    using m(1) by (simp add: dailyBatch_def Let_def miss_def [symmetric] totals_def)
  have w2: "foldl (storeDaily E m) w miss = w\<lparr>pc_usage := (\<lambda>i. if (\<exists>q. (i, q) \<in> set items \<and> 0 < geminiDailyLimit q c) \<and>
          getGeminiUsageTotals i (dailyStart E) (pe_now E) w = None then Some (freshEntry S E i) else pc_usage w i)\<rparr>"
    unfolding storeDaily_fold miss_set [symmetric] using m(2) by (auto simp: freshEntry_def fun_eq_iff intro!: precheck_world.equality)
  have "totalsFor totals i = todayOf S E w i" if "(i, q) \<in> set items" "0 < geminiDailyLimit q c" for i q
  proof (cases "?cached i")
    case None
    then have "i \<in> set miss" using that miss_set by blast
    then show ?thesis using m(2) None by (auto simp: totals_def totalsFor_def todayOf_def)
  next
    case (Some t)
    then have "i \<notin> set miss" using miss_set by auto
    then show ?thesis using Some by (auto simp: totals_def totalsFor_def todayOf_def)
  qed
  then show thesis using that d w2 by auto
qed

lemma minuteBatch_closed:
  assumes "pe_fails E = (\<lambda>_ _. False)" "\<forall>(i, q)\<in>set items. i > 0"
  shows "minuteBatch E c items result =
    (\<lambda>i. if result i = Some True \<and> (\<exists>q. (i, q) \<in> set items \<and> refusedMinute (batchTotals E) E c i q) then Some False else result i, False)"
proof -
  define ids where "ids = map fst (filter (\<lambda>(i, q). result i = Some True \<and> geminiMinuteLimit q c > 0) items)"
  have ids_set: "i \<in> set ids \<longleftrightarrow> result i = Some True \<and> (\<exists>q. (i, q) \<in> set items \<and> 0 < geminiMinuteLimit q c)" for i
    by (force simp: ids_def)
  have "\<forall>i\<in>set ids. i > 0" using assms(2) by (auto simp: ids_set)
  from batch_totals [OF assms(1) this, of "minuteStart E"] obtain m where m:
    "getGeminiUsageTotalsBatch E ids (minuteStart E) = Some m" "\<And>i. i \<in> set ids \<Longrightarrow> totalsFor m i = batchTotals E i (minuteStart E)"
    by blast
  have "minuteBatch E c items result = (if ids = [] then (result, False) else (foldl (refuseMinute c m) result items, False))"
    using m(1) by (simp add: minuteBatch_def Let_def ids_def [symmetric])
  moreover have "foldl (refuseMinute c m) result items =
      (\<lambda>i. if result i = Some True \<and> (\<exists>q. (i, q) \<in> set items \<and> refusedMinute (batchTotals E) E c i q) then Some False else result i)"
  proof -
    have "totalsFor m i = batchTotals E i (minuteStart E)"
      if "result i = Some True" "(i, q) \<in> set items" "0 < geminiMinuteLimit q c" for i q
      using m(2) ids_set that by blast
    then have "(result i = Some True \<and> (\<exists>q. (i, q) \<in> set items \<and> 0 < geminiMinuteLimit q c \<and>
          geminiMinuteLimit q c \<le> geminiUsedRequests q c (totalsFor m i) False)) =
        (result i = Some True \<and> (\<exists>q. (i, q) \<in> set items \<and> refusedMinute (batchTotals E) E c i q))" for i
      unfolding refusedMinute_def by (intro conj_cong ex_cong1 refl) auto
    then show ?thesis unfolding refuseMinute_fold by presburger
  qed
  moreover have "\<not> (result i = Some True \<and> (i, q) \<in> set items \<and> refusedMinute (batchTotals E) E c i q)" if "ids = []" for i q
    using that ids_set [of i] by (auto simp: refusedMinute_def)
  ultimately show ?thesis by (auto simp: fun_eq_iff)
qed

lemma batch_closed:
  assumes "pe_usageRepo E" "pe_quotaService E" "pe_fails E = (\<lambda>_ _. False)" "model \<noteq> []"
    and "distinct (map act_ID accs)" "\<forall>a\<in>set accs. act_ID a > 0"
  defines "S \<equiv> batchTotals E" and "c \<equiv> geminiModelClassFromName model"
  obtains allowed where "PreCheckUsageBatch E (map Some accs) model w = ((allowed, False), after S E c w (set accs))"
    "\<And>a. a \<in> set accs \<Longrightarrow> allowed (act_ID a) = Some (verdict S E c w a)"
    "\<And>i. i \<notin> act_ID ` set accs \<Longrightarrow> allowed i = None"
proof -
  define w1 where "w1 = w\<lparr>pc_quota := quotaAfter E w (set accs)\<rparr>"
  define items where "items = itemsOf E w accs"
  define all where "all = allAllowed (map Some accs)"
  have all: "all i = (if i \<in> act_ID ` set accs then Some True else None)" for i
    by (auto simp: all_def allAllowed_def)
  have start: "quotaAfter E w {} = pc_quota w" by (simp add: quotaAfter_def)
  have accounts: "quotaAccounts E (map Some accs) (pc_quota w) = (items, quotaAfter E w (set accs))"
    using quotaAccounts_closed [of E accs w "{}"] by (simp add: start items_def)
  have pos: "\<forall>(i, q)\<in>set items. i > 0" using assms(6) by (auto simp: items_def itemsOf_set)
  have get: "getGeminiUsageTotals i t u w1 = getGeminiUsageTotals i t u w" for i t u
    by (simp add: w1_def getGeminiUsageTotals_def)
  define w2 where "w2 = w1\<lparr>pc_usage := (\<lambda>i. if (\<exists>q. (i, q) \<in> set items \<and> 0 < geminiDailyLimit q c) \<and>
          getGeminiUsageTotals i (dailyStart E) (pe_now E) w1 = None then Some (freshEntry S E i) else pc_usage w1 i)\<rparr>"
  obtain totals where daily: "dailyBatch E c items w1 = (Some totals, w2)"
    and today: "\<And>i q. (i, q) \<in> set items \<Longrightarrow> 0 < geminiDailyLimit q c \<Longrightarrow> totalsFor totals i = todayOf S E w1 i"
  proof (rule dailyBatch_closed [OF assms(3) pos, of c w1, folded S_def, folded w2_def])
    fix totals
    assume "dailyBatch E c items w1 = (Some totals, w2)"
      "\<And>i q. (i, q) \<in> set items \<Longrightarrow> 0 < geminiDailyLimit q c \<Longrightarrow> totalsFor totals i = todayOf S E w1 i"
    then show thesis by (rule that)
  qed
  have today': "todayOf S E w1 i = todayOf S E w i" for i by (simp add: todayOf_def get)
  define d where "d = foldl (refuseDaily c totals) all items"
  define allowed where "allowed = fst (minuteBatch E c items d)"
  have d: "d i = (if \<exists>q. (i, q) \<in> set items \<and> refusedDaily S E c w i q then Some False else all i)" for i
  proof -
    have "(\<exists>q. (i, q) \<in> set items \<and> 0 < geminiDailyLimit q c \<and> geminiDailyLimit q c \<le> geminiUsedRequests q c (totalsFor totals i) True) =
        (\<exists>q. (i, q) \<in> set items \<and> refusedDaily S E c w i q)"
      unfolding refusedDaily_def using today today' by (intro conj_cong ex_cong1 refl) auto
    then show ?thesis unfolding d_def refuseDaily_fold by presburger
  qed
  have minute: "minuteBatch E c items d = (allowed, False)"
    and allowed: "allowed i = (if d i = Some True \<and> (\<exists>q. (i, q) \<in> set items \<and> refusedMinute S E c i q) then Some False else d i)" for i
    unfolding allowed_def minuteBatch_closed [OF assms(3) pos] by (simp_all add: S_def)
  have state: "w2 = after S E c w (set accs)"
    unfolding w2_def get
    by (rule precheck_world.equality)
      (auto simp: w1_def usageAfter_def looksUp_def items_def itemsOf_set fun_eq_iff split: option.splits)
  have run: "PreCheckUsageBatch E (map Some accs) model w = ((allowed, False), w2)"
  proof (cases "accs = [] \<or> items = []")
    case False
    then show ?thesis
      using assms(1,2,4) by (simp add: PreCheckUsageBatch_def accounts Let_def w1_def [symmetric] c_def [symmetric] daily
          all_def [symmetric] d_def [symmetric] minute)
  next
    case True
    then have none: "items = []" by (auto simp: items_def itemsOf_def map_filter_simps)
    then have "allowed = all" "w2 = w1" by (auto simp: fun_eq_iff allowed d w2_def)
    moreover have "w1 = w" if "accs = []" using that by (simp add: w1_def start)
    ultimately show ?thesis
      using assms(1,2,4) none by (auto simp: PreCheckUsageBatch_def accounts Let_def w1_def [symmetric] all_def)
  qed
  have one: "(act_ID a, q) \<in> set items \<longleftrightarrow> quotaFor E w a = Some q" if "a \<in> set accs" for a q
    using that assms(5) by (auto simp: items_def itemsOf_set distinct_map inj_on_def)
  show thesis
  proof (rule that [OF run [unfolded state]])
    show "allowed (act_ID a) = Some (verdict S E c w a)" if "a \<in> set accs" for a
      using that by (auto simp: allowed d all one verdict_def split: option.splits)
    show "allowed i = None" if "i \<notin> act_ID ` set accs" for i
      using that by (auto simp: allowed d all items_def itemsOf_set)
  qed
qed

section \<open>Both decide the same\<close>

lemma batchTotals_same:
  "\<forall>r\<in>set (pe_logs E). flashColumn r = isFlash r \<Longrightarrow> same_requests (batchTotals E i start) (statTotals E i start)"
  using columnTotals_requests [of "accountRows E i start"]
  by (auto simp: batchTotals_def same_requests_def statTotals_requests accountRows_def)

text \<open>
  The batch query classes a request by the model that served it, the query for one account by the
  model that was requested.  \<open>batchView\<close> is the environment in which the second query sees the classes
  that the batch sees: with a batch reader every log is for a model of the class of the served one.
\<close>

definition asServed :: "UsageLogRow \<Rightarrow> UsageLogRow" where
  "asServed r = r\<lparr>lg_RequestedModel := Some (if flashColumn r then ''flash'' else ''pro'')\<rparr>"

definition batchView :: "precheck_env \<Rightarrow> precheck_env" where
  "batchView E = (if pe_batchReader E then E\<lparr>pe_logs := map asServed (pe_logs E)\<rparr> else E)"

lemma batchView_fields [simp]:
  "pe_now (batchView E) = pe_now E" "pe_pacific (batchView E) = pe_pacific E" "pe_config (batchView E) = pe_config E"
  "pe_usageRepo (batchView E) = pe_usageRepo E" "pe_quotaService (batchView E) = pe_quotaService E"
  "pe_batchReader (batchView E) = pe_batchReader E" "pe_fails (batchView E) = pe_fails E"
  by (simp_all add: batchView_def)

lemma isFlash_asServed [simp]: "isFlash (asServed r) = flashColumn r"
proof -
  have "sql_trim ''flash'' = ''flash''" "sql_trim ''pro'' = ''pro''"
    "geminiModelClassFromName ''flash'' = geminiModelFlash" "geminiModelClassFromName ''pro'' = geminiModelPro"
    by code_simp+
  then show ?thesis by (simp add: isFlash_def requestedModelOf_def asServed_def)
qed

lemma accountRows_served:
  "accountRows (E\<lparr>pe_logs := map asServed (pe_logs E)\<rparr>) i start = map asServed (accountRows E i start)"
  by (simp add: accountRows_def filter_map comp_def inWindow_def asServed_def)

lemma batchTotals_view: "same_requests (batchTotals E i start) (statTotals (batchView E) i start)"
proof (cases "pe_batchReader E")
  case True
  then show ?thesis
    by (simp add: batchTotals_def batchView_def same_requests_def statTotals_requests accountRows_served filter_map comp_def
        columnTotals_def Let_def)
qed (simp add: batchTotals_def batchView_def)

lemma view_windows [simp]: "dailyStart (batchView E) = dailyStart E" "minuteStart (batchView E) = minuteStart E"
  by (simp_all add: dailyStart_def minuteStart_def)

lemma view_parts [simp]:
  "quotaFor (batchView E) w a = quotaFor E w a" "refusedDaily S (batchView E) = refusedDaily S E"
  "refusedMinute S (batchView E) = refusedMinute S E" "freshEntry S (batchView E) = freshEntry S E"
  "looksUp (batchView E) = looksUp E" "quotaAfter (batchView E) = quotaAfter E"
  by (simp_all add: fun_eq_iff quotaFor_def refusedDaily_def refusedMinute_def todayOf_def freshEntry_def looksUp_def quotaAfter_def
      split: option.split)

lemma view_closed [simp]:
  "verdict S (batchView E) c w a = verdict S E c w a" "after S (batchView E) c w A = after S E c w A"
  by (simp_all add: verdict_def after_def usageAfter_def cong: if_cong split: option.split)

text \<open>Cached totals that decide alike.\<close>

definition same_entry :: "geminiUsageCacheEntry \<Rightarrow> geminiUsageCacheEntry \<Rightarrow> bool" where
  "same_entry e f = (ce_windowStart e = ce_windowStart f \<and> ce_cachedAt e = ce_cachedAt f \<and> same_requests (ce_totals e) (ce_totals f))"

lemma same_source:
  assumes "\<And>i s. same_requests (S i s) (T i s)"
  shows "verdict S E c w a = verdict T E c w a" and "rel_option same_entry (usageAfter S E c w A i) (usageAfter T E c w A i)"
proof -
  have "same_requests (todayOf S E w i) (todayOf T E w i)" for i
    using assms by (simp add: todayOf_def split: option.split)
  note used = same_requests_used [OF this] same_requests_used [OF assms]
  show "verdict S E c w a = verdict T E c w a"
    by (simp add: verdict_def refusedDaily_def refusedMinute_def used cong: option.case_cong)
  show "rel_option same_entry (usageAfter S E c w A i) (usageAfter T E c w A i)"
    using assms by (auto simp: usageAfter_def freshEntry_def same_entry_def intro: option.rel_refl)
qed

text \<open>
  C39. The check of many Gemini accounts at once, where a usage repository and a quota service are
  configured, no query fails, the model is named and the accounts have distinct positive ids: it
  reports no error, allows exactly the accounts that the checks one after another allow when every
  logged request is classed as Pro or Flash by the model that served it (with a batch reader; without
  one, by the requested model), answers for no other account, and leaves the same policy and a cache
  that decides the same.  Where requested and served models are of the same class in all logs, these
  are the answers of the checks on the logs as they are; elsewhere the two prechecks can differ
  (\<open>prechecks_disagree\<close>).
\<close>

theorem batch_precheck_equals_single:
  assumes "pe_usageRepo E" "pe_quotaService E" "pe_fails E = (\<lambda>_ _. False)" "model \<noteq> []"
    and "distinct (map act_ID accs)" "\<forall>a\<in>set accs. act_ID a > 0"
    and "PreCheckUsageBatch E (map Some accs) model w = ((allowed, failed), w1)"
    and "precheckEach (batchView E) accs model w = (answers, w2)"
  shows "\<not> failed \<and> answers = map (\<lambda>a. (allowed (act_ID a) = Some True, False)) accs \<and> dom allowed = act_ID ` set accs \<and>
    pc_quota w1 = pc_quota w2 \<and> (\<forall>i. rel_option same_entry (pc_usage w1 i) (pc_usage w2 i)) \<and>
    ((\<forall>r\<in>set (pe_logs E). flashColumn r = isFlash r) \<longrightarrow> fst (precheckEach E accs model w) = answers)"
proof -
  let ?c = "geminiModelClassFromName model"
  note same = same_source [of "batchTotals E" "statTotals (batchView E)", OF batchTotals_view]
  obtain m where m: "PreCheckUsageBatch E (map Some accs) model w = ((m, False), after (batchTotals E) E ?c w (set accs))"
    "\<And>a. a \<in> set accs \<Longrightarrow> m (act_ID a) = Some (verdict (batchTotals E) E ?c w a)"
    "\<And>i. i \<notin> act_ID ` set accs \<Longrightarrow> m i = None"
  proof (rule batch_closed [OF assms(1-6), of w])
    fix m
    assume "PreCheckUsageBatch E (map Some accs) model w = ((m, False), after (batchTotals E) E ?c w (set accs))"
      "\<And>a. a \<in> set accs \<Longrightarrow> m (act_ID a) = Some (verdict (batchTotals E) E ?c w a)"
      "\<And>i. i \<notin> act_ID ` set accs \<Longrightarrow> m i = None"
    then show thesis by (rule that)
  qed
  have each: "answers = map (\<lambda>a. (verdict (statTotals (batchView E)) E ?c w a, False)) accs"
    "w2 = after (statTotals (batchView E)) E ?c w (set accs)"
    using each_closed [of "batchView E" accs model w] assms(1-3,5,6,8) by auto
  have eq: "allowed = m" "\<not> failed" "w1 = after (batchTotals E) E ?c w (set accs)" using m(1) assms(7) by auto
  have "dom m = act_ID ` set accs" using m(2,3) by (force simp: dom_def)
  moreover have "rel_option same_entry (pc_usage w1 i) (pc_usage w2 i)" for i
    by (simp add: eq each same(2))
  moreover have "fst (precheckEach E accs model w) = answers" if "\<forall>r\<in>set (pe_logs E). flashColumn r = isFlash r"
    using each_closed [OF assms(1-3,5,6), of model w] each(1) same(1)
      same_source(1) [of "batchTotals E" "statTotals E", OF batchTotals_same [OF that]] by simp
  ultimately show ?thesis using eq each m(2) same(1) by simp
qed

section \<open>Where the two queries part\<close>

text \<open>Two requests for a Pro model that were served, and logged, as Flash.\<close>

definition mappedRow :: UsageLogRow where
  "mappedRow = \<lparr>lg_AccountID = 7, lg_Model = ''gemini-2.5-flash'', lg_RequestedModel = Some ''gemini-2.5-pro'',
     lg_CreatedAt = 10 * second, lg_InputTokens = 1, lg_OutputTokens = 1, lg_CacheCreationTokens = 0, lg_CacheReadTokens = 0,
     lg_TotalCost = 0, lg_ActualCost = 0, lg_AccountRateMultiplier = None\<rparr>"

definition geminiEnv :: "UsageLogRow list \<Rightarrow> precheck_env" where
  "geminiEnv rows = \<lparr>pe_now = 30 * second, pe_pacific = UTC,
     pe_config = \<lparr>gc_config = None, gc_setting = None, gc_rules = (\<lambda>_. None), gc_tiers = (\<lambda>_. None)\<rparr>,
     pe_usageRepo = True, pe_quotaService = True, pe_batchReader = True, pe_logs = rows, pe_fails = (\<lambda>_ _. False)\<rparr>"

definition geminiAccount :: Account where
  "geminiAccount = plainAccount 7 PlatformGemini AccountTypeAPIKey"

definition emptyChecks :: precheck_world where
  "emptyChecks = \<lparr>pc_usage = Map.empty, pc_quota = None\<rparr>"

lemma prechecks_disagree:
  "fst (PreCheckUsage (geminiEnv [mappedRow, mappedRow]) (Some geminiAccount) ''gemini-2.5-pro'' emptyChecks) = (False, False)"
  "fst (fst (PreCheckUsageBatch (geminiEnv [mappedRow, mappedRow]) [Some geminiAccount] ''gemini-2.5-pro'' emptyChecks)) 7 = Some True"
  by code_simp+

text \<open>Two requests for a Flash model in this minute, and a check for a Pro model.\<close>

definition flashRow :: UsageLogRow where
  "flashRow = mappedRow\<lparr>lg_RequestedModel := Some ''gemini-2.5-flash''\<rparr>"

theorem batch_precheck_equals_single_witness:
  "\<exists>allowed w1 w2.
     PreCheckUsageBatch (geminiEnv [flashRow, mappedRow]) [Some geminiAccount] ''gemini-2.5-pro'' emptyChecks = ((allowed, False), w1) \<and>
     precheckEach (batchView (geminiEnv [flashRow, mappedRow])) [geminiAccount] ''gemini-2.5-pro'' emptyChecks =
       ([(allowed 7 = Some True, False)], w2) \<and> dom allowed = {7}"
proof -
  let ?E = "geminiEnv [flashRow, mappedRow]"
  obtain allowed failed w1 where b:
      "PreCheckUsageBatch ?E (map Some [geminiAccount]) ''gemini-2.5-pro'' emptyChecks = ((allowed, failed), w1)"
    by (metis prod.collapse)
  obtain answers w2 where e: "precheckEach (batchView ?E) [geminiAccount] ''gemini-2.5-pro'' emptyChecks = (answers, w2)"
    by (metis prod.collapse)
  have "pe_usageRepo ?E" "pe_quotaService ?E" "pe_fails ?E = (\<lambda>_ _. False)" "''gemini-2.5-pro'' \<noteq> []"
    "distinct (map act_ID [geminiAccount])" "\<forall>a\<in>set [geminiAccount]. act_ID a > 0"
    by (simp_all add: geminiEnv_def geminiAccount_def)
  from batch_precheck_equals_single [OF this b e] show ?thesis using b e by (auto simp: geminiAccount_def)
qed

end
