(* ===== verification/Gemini_Selection.thy ===== *)
theory Gemini_Selection
  imports Account_Choice Gemini_Precheck_Safety
begin

text \<open>
  The choice of an account for a request in Gemini's own protocol and for the endpoints of AI Studio
  (\<open>internal/service/gemini_messages_compat_service.go\<close>), with the local check of quotas, and what
  the chosen account is.  Lifetimes of session bindings are not represented.
\<close>

section \<open>The environment\<close>

text \<open>
  The scheduler's snapshot, where there is one, lists accounts for a group, a platform and whether that
  is forced; \<open>None\<close> is an error.  \<open>ge_account\<close> is the lookup of one account: an error, none, or the account.
\<close>

record gemini_env =
  ge_clock :: time
  ge_thinking :: "bool option"
  ge_forcePlatform :: "gostr option"
  ge_ctxGroup :: "Group option"
  ge_group :: "int64 \<Rightarrow> Group option"
  ge_snapshot :: "(int64 option \<Rightarrow> gostr \<Rightarrow> bool \<Rightarrow> Account list option) option"
  ge_repo :: "account_scope \<Rightarrow> gostr list \<Rightarrow> Account list option"
  ge_account :: "int64 \<Rightarrow> Account option option"
  ge_simpleMode :: bool
  ge_rateLimit :: bool
  ge_precheck :: precheck_env
  ge_cacheFails :: bool

record gemini_world =
  gw_sticky :: "int64 \<times> gostr \<Rightarrow> int64 option"
  gw_checks :: precheck_world

datatype gemini_error = GroupFailed | QueryFailed | NoGeminiAccounts | HydrateFailed

section \<open>Platform and session\<close>

definition resolvePlatformAndSchedulingMode :: "gemini_env \<Rightarrow> int64 option \<Rightarrow> (gostr \<times> bool \<times> bool) option" where
  "resolvePlatformAndSchedulingMode G groupID =
     (case ge_forcePlatform G of
        Some (c # p) \<Rightarrow> Some (c # p, False, True)
      | _ \<Rightarrow>
          (case groupID of
             None \<Rightarrow> Some (PlatformGemini, True, False)
           | Some i \<Rightarrow>
               let ctx = ge_ctxGroup G;
                   group = (if IsGroupContextValid ctx \<and> map_option gr_ID ctx = Some i then ctx else ge_group G i)
               in map_option (\<lambda>g. (gr_Platform g, gr_Platform g = PlatformGemini, False)) group))"

text \<open>A forced platform that is empty counts as not forced.\<close>

definition isAccountValidForPlatform :: "Account \<Rightarrow> gostr \<Rightarrow> bool \<Rightarrow> bool" where
  "isAccountValidForPlatform a platform mixed =
     (if act_Platform a = platform then True
      else if mixed \<and> act_Platform a = PlatformAntigravity \<and> IsMixedSchedulingEnabled a then True
      else False)"

definition geminiModelSupported :: "Account \<Rightarrow> gostr \<Rightarrow> bool" where
  "geminiModelSupported a model =
     (if act_Platform a = PlatformAntigravity
      then if trim_space model = '''' then True else mapAntigravityModel (Some a) model \<noteq> ''''
      else IsModelSupported a model)"

definition passesRateLimitPreCheckWithCache ::
    "gemini_env \<Rightarrow> Account \<Rightarrow> gostr \<Rightarrow> (int64 \<Rightarrow> bool option) option \<Rightarrow> precheck_world \<Rightarrow> bool \<times> precheck_world" where
  "passesRateLimitPreCheckWithCache G a model prechecked w =
     (if \<not> ge_rateLimit G \<or> model = '''' then (True, w)
      else case (case prechecked of None \<Rightarrow> None | Some m \<Rightarrow> m (act_ID a)) of
             Some ok \<Rightarrow> (ok, w)
           | None \<Rightarrow> (case PreCheckUsage (ge_precheck G) (Some a) model w of ((ok, _), w1) \<Rightarrow> (ok, w1)))"

text \<open>The checks that come before the check of the quota.\<close>

definition servesModel :: "gemini_env \<Rightarrow> gostr \<Rightarrow> gostr \<Rightarrow> bool \<Rightarrow> Account \<Rightarrow> bool" where
  "servesModel G model platform mixed a =
     (IsSchedulableForModelWithContext (ge_clock G) (ge_thinking G) a model \<and>
      (model \<noteq> '''' \<longrightarrow> geminiModelSupported a model) \<and>
      isAccountValidForPlatform a platform mixed)"

definition isAccountUsableForRequestWithPrecheck ::
    "gemini_env \<Rightarrow> Account \<Rightarrow> gostr \<Rightarrow> gostr \<Rightarrow> bool \<Rightarrow> (int64 \<Rightarrow> bool option) option \<Rightarrow> precheck_world \<Rightarrow> bool \<times> precheck_world" where
  "isAccountUsableForRequestWithPrecheck G a model platform mixed prechecked w =
     (if \<not> servesModel G model platform mixed a then (False, w)
      else passesRateLimitPreCheckWithCache G a model prechecked w)"

definition geminiStickyKey :: "gostr \<Rightarrow> gostr" where
  "geminiStickyKey sessionHash = ''gemini:'' @ sessionHash"

definition tryStickySessionHit ::
    "gemini_env \<Rightarrow> int64 option \<Rightarrow> gostr \<Rightarrow> gostr \<Rightarrow> int64 set \<Rightarrow> gostr \<Rightarrow> bool \<Rightarrow> gemini_world \<Rightarrow> Account option \<times> gemini_world" where
  "tryStickySessionHit G groupID sessionHash model excluded platform mixed w =
     (let key = (derefGroupID groupID, geminiStickyKey sessionHash)
      in case (if sessionHash = '''' \<or> ge_cacheFails G then None else gw_sticky w key) of
           None \<Rightarrow> (None, w)
         | Some i \<Rightarrow>
             if i \<le> 0 \<or> i \<in> excluded then (None, w)
             else (case ge_account G i of
                     Some (Some a) \<Rightarrow>
                       if shouldClearStickySession (ge_clock G) (Some a) model
                       then (None, w\<lparr>gw_sticky := (gw_sticky w)(key := None)\<rparr>)
                       else (case isAccountUsableForRequestWithPrecheck G a model platform mixed None (gw_checks w) of
                               (ok, c) \<Rightarrow> (if ok then Some a else None, w\<lparr>gw_checks := c\<rparr>))
                   | _ \<Rightarrow> (None, w)))"

section \<open>The best account\<close>

definition isBetterGeminiAccount :: "Account \<Rightarrow> Account \<Rightarrow> bool" where
  "isBetterGeminiAccount candidate current =
     (if act_Priority candidate < act_Priority current then True
      else if act_Priority candidate > act_Priority current then False
      else case (act_LastUsedAt candidate, act_LastUsedAt current) of
             (None, Some _) \<Rightarrow> True
           | (Some _, None) \<Rightarrow> False
           | (None, None) \<Rightarrow> act_Type candidate = AccountTypeOAuth \<and> act_Type current \<noteq> AccountTypeOAuth
           | (Some s, Some t) \<Rightarrow> s < t)"

definition buildPreCheckUsageResultMap ::
    "gemini_env \<Rightarrow> Account list \<Rightarrow> gostr \<Rightarrow> precheck_world \<Rightarrow> (int64 \<Rightarrow> bool option) option \<times> precheck_world" where
  "buildPreCheckUsageResultMap G accounts model w =
     (if \<not> ge_rateLimit G \<or> model = '''' \<or> accounts = [] then (None, w)
      else case PreCheckUsageBatch (ge_precheck G) (map Some accounts) model w of ((m, _), w1) \<Rightarrow> (Some m, w1))"

fun geminiLoop ::
    "gemini_env \<Rightarrow> gostr \<Rightarrow> int64 set \<Rightarrow> gostr \<Rightarrow> bool \<Rightarrow> (int64 \<Rightarrow> bool option) option \<Rightarrow> Account list
     \<Rightarrow> Account option \<Rightarrow> precheck_world \<Rightarrow> Account option \<times> precheck_world" where
  "geminiLoop G model excluded platform mixed prechecked [] selected w = (selected, w)"
| "geminiLoop G model excluded platform mixed prechecked (a # as) selected w =
     (if act_ID a \<in> excluded then geminiLoop G model excluded platform mixed prechecked as selected w
      else case isAccountUsableForRequestWithPrecheck G a model platform mixed prechecked w of
             (False, w1) \<Rightarrow> geminiLoop G model excluded platform mixed prechecked as selected w1
           | (True, w1) \<Rightarrow>
               geminiLoop G model excluded platform mixed prechecked as
                 (case selected of None \<Rightarrow> Some a | Some s \<Rightarrow> if isBetterGeminiAccount a s then Some a else Some s) w1)"

definition selectBestGeminiAccount ::
    "gemini_env \<Rightarrow> Account list \<Rightarrow> gostr \<Rightarrow> int64 set \<Rightarrow> gostr \<Rightarrow> bool \<Rightarrow> precheck_world \<Rightarrow> Account option \<times> precheck_world" where
  "selectBestGeminiAccount G accounts model excluded platform mixed w =
     (case buildPreCheckUsageResultMap G accounts model w of (prechecked, w1) \<Rightarrow>
        geminiLoop G model excluded platform mixed prechecked accounts None w1)"

section \<open>The selection\<close>

definition listSchedulableAccountsOnce :: "gemini_env \<Rightarrow> int64 option \<Rightarrow> gostr \<Rightarrow> bool \<Rightarrow> Account list option" where
  "listSchedulableAccountsOnce G groupID platform hasForcePlatform =
     (case ge_snapshot G of
        Some list \<Rightarrow> list groupID platform hasForcePlatform
      | None \<Rightarrow>
          let platforms = (if platform = PlatformGemini \<and> \<not> hasForcePlatform then [platform, PlatformAntigravity] else [platform])
          in ge_repo G (case groupID of Some g \<Rightarrow> InGroup g | None \<Rightarrow> if ge_simpleMode G then AnyGroup else Ungrouped) platforms)"

definition hydrateSelectedAccount :: "gemini_env \<Rightarrow> Account \<Rightarrow> gemini_error + Account" where
  "hydrateSelectedAccount G a =
     (if ge_snapshot G = None then Inr a
      else case ge_account G (act_ID a) of
             None \<Rightarrow> Inl HydrateFailed
           | Some None \<Rightarrow> Inr a
           | Some (Some h) \<Rightarrow> Inr h)"

definition geminiListing :: "gemini_env \<Rightarrow> int64 option \<Rightarrow> gostr \<Rightarrow> bool \<Rightarrow> Account list option" where
  "geminiListing G groupID platform hasForcePlatform =
     (case listSchedulableAccountsOnce G groupID platform hasForcePlatform of
        Some [] \<Rightarrow> if groupID \<noteq> None \<and> hasForcePlatform then listSchedulableAccountsOnce G None platform hasForcePlatform else Some []
      | listed \<Rightarrow> listed)"

definition geminiSelectAccount ::
    "gemini_env \<Rightarrow> int64 option \<Rightarrow> gostr \<Rightarrow> gostr \<Rightarrow> int64 set \<Rightarrow> gemini_world \<Rightarrow> (gemini_error + Account) \<times> gemini_world" where
  "geminiSelectAccount G groupID sessionHash model excluded w =
     (case resolvePlatformAndSchedulingMode G groupID of
        None \<Rightarrow> (Inl GroupFailed, w)
      | Some (platform, mixed, hasForcePlatform) \<Rightarrow>
          (case tryStickySessionHit G groupID sessionHash model excluded platform mixed w of
             (Some a, w1) \<Rightarrow> (Inr a, w1)
           | (None, w1) \<Rightarrow>
               (case geminiListing G groupID platform hasForcePlatform of
                  None \<Rightarrow> (Inl QueryFailed, w1)
                | Some accounts \<Rightarrow>
                    (case selectBestGeminiAccount G accounts model excluded platform mixed (gw_checks w1) of
                       (None, c) \<Rightarrow> (Inl NoGeminiAccounts, w1\<lparr>gw_checks := c\<rparr>)
                     | (Some a, c) \<Rightarrow>
                         (hydrateSelectedAccount G a,
                          w1\<lparr>gw_checks := c,
                             gw_sticky := (if sessionHash = '''' \<or> ge_cacheFails G then gw_sticky w1
                               else (gw_sticky w1)((derefGroupID groupID, geminiStickyKey sessionHash) \<mapsto> act_ID a))\<rparr>)))))"

definition HasAntigravityAccounts :: "gemini_env \<Rightarrow> int64 option \<Rightarrow> bool option" where
  "HasAntigravityAccounts G groupID =
     map_option (\<lambda>accounts. accounts \<noteq> []) (listSchedulableAccountsOnce G groupID PlatformAntigravity False)"

text \<open>The account for the endpoints of AI Studio, by what its credentials are likely to be allowed.\<close>

definition studioRank :: "Account \<Rightarrow> int" where
  "studioRank a =
     (if act_Type a = AccountTypeAPIKey then if trim_space (GetCredential a ''api_key'') \<noteq> '''' then 0 else 9
      else if act_Type a = AccountTypeOAuth
      then if trim_space (GetCredential a ''project_id'') = '''' then 1
           else if trim_space (GetCredential a ''oauth_type'') = ''ai_studio'' then 2 else 3
      else 10)"

definition studioBetter :: "Account \<Rightarrow> Account \<Rightarrow> bool" where
  "studioBetter a s =
     (if studioRank a < studioRank s then True
      else if studioRank a > studioRank s then False
      else isBetterGeminiAccount a s)"

definition SelectAccountForAIStudioEndpoints :: "gemini_env \<Rightarrow> int64 option \<Rightarrow> gemini_error + Account" where
  "SelectAccountForAIStudioEndpoints G groupID =
     (case listSchedulableAccountsOnce G groupID PlatformGemini True of
        None \<Rightarrow> Inl QueryFailed
      | Some [] \<Rightarrow> Inl NoGeminiAccounts
      | Some (a # as) \<Rightarrow> hydrateSelectedAccount G (foldl (\<lambda>s b. if studioBetter b s then b else s) a as))"

section \<open>The chosen account is the best of the fit ones\<close>

lemma better_is_choiceBetter: "isBetterGeminiAccount = choiceBetter False True"
  by (auto simp: fun_eq_iff isBetterGeminiAccount_def choiceBetter_def split: option.splits)

lemma geminiLoop_choice:
  assumes "\<And>a. a \<in> set as \<Longrightarrow> passesRateLimitPreCheckWithCache G a model prechecked w = (ok a, w)"
  shows "geminiLoop G model excluded platform mixed prechecked as sel w =
    (fst (choiceLoop (\<lambda>a. act_ID a \<notin> excluded) (\<lambda>_. False) (\<lambda>a. servesModel G model platform mixed a \<and> ok a)
            isBetterGeminiAccount as (sel, err)), w)"
  using assms
proof (induction as arbitrary: sel)
  case (Cons a as)
  have "passesRateLimitPreCheckWithCache G a model prechecked w = (ok a, w)" using Cons.prems by simp
  then show ?case
    using Cons by (cases "ok a") (auto simp: isAccountUsableForRequestWithPrecheck_def split: option.splits)
qed simp

text \<open>
  Whether an account may be used, from the state in which the selection starts: \<open>PreCheckUsage\<close> alone
  decides on its quota, where the logs class a request as the batch query does (\<open>batchView\<close>).
\<close>

definition geminiFit :: "gemini_env \<Rightarrow> gostr \<Rightarrow> int64 set \<Rightarrow> gostr \<Rightarrow> bool \<Rightarrow> precheck_world \<Rightarrow> Account \<Rightarrow> bool" where
  "geminiFit G model excluded platform mixed w a =
     (act_ID a \<notin> excluded \<and> servesModel G model platform mixed a \<and>
      (ge_rateLimit G \<and> model \<noteq> '''' \<longrightarrow> fst (fst (PreCheckUsage (batchView (ge_precheck G)) (Some a) model w))))"

text \<open>What the local check needs for the batch to be exact.\<close>

definition exactChecks :: "precheck_env \<Rightarrow> Account list \<Rightarrow> bool" where
  "exactChecks E accounts =
     (pe_usageRepo E \<and> pe_quotaService E \<and> pe_fails E = (\<lambda>_ _. False) \<and> distinct (map act_ID accounts) \<and>
      (\<forall>a\<in>set accounts. act_ID a > 0))"

lemma batch_is_single:
  assumes "exactChecks E accounts" "model \<noteq> []" "a \<in> set accounts" "PreCheckUsageBatch E (map Some accounts) model w = ((m, e), w1)"
  shows "m (act_ID a) = Some (fst (fst (PreCheckUsage (batchView E) (Some a) model w)))"
proof -
  have x: "pe_usageRepo E" "pe_quotaService E" "pe_fails E = (\<lambda>_ _. False)" "distinct (map act_ID accounts)"
    "\<forall>a\<in>set accounts. act_ID a > 0"
    using assms(1) by (auto simp: exactChecks_def)
  have "act_ID a > 0" using x(5) assms(3) by blast
  then have "fst (fst (PreCheckUsage (batchView E) (Some a) model w)) =
      verdict (statTotals (batchView E)) E (geminiModelClassFromName model) w a"
    using x(1-3) by (simp add: single_closed)
  moreover have "m (act_ID a) = Some (verdict (batchTotals E) E (geminiModelClassFromName model) w a)"
  proof (rule batch_closed [OF x(1-3) assms(2) x(4,5), of w])
    fix allowed
    assume "PreCheckUsageBatch E (map Some accounts) model w =
        ((allowed, False), after (batchTotals E) E (geminiModelClassFromName model) w (set accounts))"
      "\<And>a. a \<in> set accounts \<Longrightarrow> allowed (act_ID a) = Some (verdict (batchTotals E) E (geminiModelClassFromName model) w a)"
    then show ?thesis using assms(3,4) by simp
  qed
  ultimately show ?thesis
    using same_source(1) [of "batchTotals E" "statTotals (batchView E)", OF batchTotals_view] by simp
qed

lemma selectBest_exact:
  assumes "ge_rateLimit G \<and> model \<noteq> '''' \<Longrightarrow> exactChecks (ge_precheck G) accounts" "selectBestGeminiAccount G accounts model excluded platform mixed w = (res, w')"
  shows "(res = None \<longleftrightarrow> filter (geminiFit G model excluded platform mixed w) accounts = []) \<and>
    (\<forall>a. res = Some a \<longrightarrow> a \<in> set accounts \<and> geminiFit G model excluded platform mixed w a \<and>
       (\<forall>b\<in>set accounts. geminiFit G model excluded platform mixed w b \<longrightarrow> \<not> isBetterGeminiAccount b a))"
proof -
  let ?ok = "\<lambda>a. ge_rateLimit G \<and> model \<noteq> '''' \<longrightarrow> fst (fst (PreCheckUsage (batchView (ge_precheck G)) (Some a) model w))"
  obtain prechecked w1 where p: "buildPreCheckUsageResultMap G accounts model w = (prechecked, w1)"
    by (cases "buildPreCheckUsageResultMap G accounts model w") auto
  have pass: "passesRateLimitPreCheckWithCache G a model prechecked w1 = (?ok a, w1)" if "a \<in> set accounts" for a
  proof (cases "ge_rateLimit G \<and> model \<noteq> ''''")
    case True
    then have "accounts \<noteq> []" using that by auto
    then obtain m e where m: "PreCheckUsageBatch (ge_precheck G) (map Some accounts) model w = ((m, e), w1)" "prechecked = Some m"
      using p True by (auto simp: buildPreCheckUsageResultMap_def split: prod.splits)
    then show ?thesis
      using True batch_is_single [OF assms(1) [OF True] _ that m(1)] by (simp add: passesRateLimitPreCheckWithCache_def)
  qed (auto simp: passesRateLimitPreCheckWithCache_def)
  define better where "better = isBetterGeminiAccount"
  have asym: "better x y \<Longrightarrow> \<not> better y x" and trans: "better x y \<Longrightarrow> better y z \<Longrightarrow> better x z" for x y z
    unfolding better_def better_is_choiceBetter by (fact choiceBetter_asym, fact choiceBetter_trans)
  have run: "fst (choiceLoop (\<lambda>a. act_ID a \<notin> excluded) (\<lambda>_. False) (\<lambda>a. servesModel G model platform mixed a \<and> ?ok a) better accounts (None, [])) = res"
    using assms(2) geminiLoop_choice [where ok = ?ok and err = "[]", OF pass]
    by (simp add: selectBestGeminiAccount_def p better_def)
  have fit: "geminiFit G model excluded platform mixed w =
      (\<lambda>a. act_ID a \<notin> excluded \<and> \<not> (\<lambda>_. False) a \<and> (servesModel G model platform mixed a \<and> ?ok a))"
    by (auto simp: fun_eq_iff geminiFit_def)
  let ?fit = "geminiFit G model excluded platform mixed w"
  have "(res = None \<longleftrightarrow> (None :: Account option) = None \<and> filter ?fit accounts = []) \<and>
    (\<forall>s. res = Some s \<longrightarrow> (s \<in> set accounts \<and> ?fit s \<or> None = Some s) \<and>
       (\<forall>b \<in> set accounts. ?fit b \<longrightarrow> \<not> better b s) \<and> (\<forall>b. None = Some b \<longrightarrow> b = s \<or> better s b))"
    by (rule choiceLoop_best [OF _ _ fit run]) (fact asym, fact trans)
  then show ?thesis unfolding better_def by blast
qed

text \<open>
  C40. Where the session is bound to no usable account and the accounts could be listed (from the
  scheduler's snapshot or, without one, from the repository), the selection reports that there is no
  account exactly if no listed one is fit, that is, not excluded, schedulable, able to serve the
  model, of the platform and within its quota.  Otherwise it chooses a fit account such that no fit
  one is better and binds the session to it; it returns that account, with a snapshot as it is loaded
  in full, and fails only if this loading fails.  Quotas are only checked with a rate limit service
  and a named model; the check is then exact if its repository and quota service are there, no query
  fails and the listed accounts have distinct positive ids, and it classes logged requests as the
  batch query does (see \<open>batch_precheck_equals_single\<close>).
\<close>

theorem gemini_selection_exact:
  assumes "resolvePlatformAndSchedulingMode G groupID = Some (platform, mixed, force)"
    and "tryStickySessionHit G groupID sessionHash model excluded platform mixed w = (None, w1)"
    and "geminiListing G groupID platform force = Some accounts"
    and "ge_rateLimit G \<and> model \<noteq> '''' \<Longrightarrow> exactChecks (ge_precheck G) accounts"
    and "geminiSelectAccount G groupID sessionHash model excluded w = (result, w')"
  defines "fit \<equiv> geminiFit G model excluded platform mixed (gw_checks w1)"
  shows "if filter fit accounts = [] then result = Inl NoGeminiAccounts
    else \<exists>a \<in> set accounts. fit a \<and> filter (\<lambda>b. fit b \<and> isBetterGeminiAccount b a) accounts = [] \<and>
      (sessionHash \<noteq> '''' \<and> \<not> ge_cacheFails G \<longrightarrow>
         gw_sticky w' (derefGroupID groupID, ''gemini:'' @ sessionHash) = Some (act_ID a)) \<and>
      (case result of
         Inl e \<Rightarrow> e = HydrateFailed \<and> ge_snapshot G \<noteq> None \<and> ge_account G (act_ID a) = None
       | Inr h \<Rightarrow> if ge_snapshot G \<noteq> None \<and> ge_account G (act_ID a) \<noteq> Some None
                  then ge_account G (act_ID a) = Some (Some h) else h = a)"
proof -
  obtain res c where best: "selectBestGeminiAccount G accounts model excluded platform mixed (gw_checks w1) = (res, c)"
    by (cases "selectBestGeminiAccount G accounts model excluded platform mixed (gw_checks w1)") auto
  note exact = selectBest_exact [OF assms(4) best]
  show ?thesis
  proof (cases res)
    case None
    then show ?thesis using assms(1-3,5) best exact by (simp add: geminiSelectAccount_def fit_def)
  next
    case (Some a)
    have a: "a \<in> set accounts" "fit a" "filter (\<lambda>b. fit b \<and> isBetterGeminiAccount b a) accounts = []"
      using exact Some by (auto simp: fit_def filter_empty_conv)
    moreover have "filter fit accounts \<noteq> []" using a by (auto simp: filter_empty_conv)
    moreover have "result = hydrateSelectedAccount G a"
      and "sessionHash \<noteq> '''' \<and> \<not> ge_cacheFails G \<longrightarrow>
         gw_sticky w' (derefGroupID groupID, ''gemini:'' @ sessionHash) = Some (act_ID a)"
      using assms(1-3,5) best Some by (auto simp: geminiSelectAccount_def geminiStickyKey_def)
    ultimately show ?thesis
      by (auto simp: hydrateSelectedAccount_def split: option.split)
  qed
qed

section \<open>Examples\<close>

definition preferredAccount :: Account where
  "preferredAccount = (plainAccount 8 PlatformGemini AccountTypeAPIKey)\<lparr>act_Priority := 0\<rparr>"

text \<open>
  A snapshot with two accounts for requests without a group; group 3 is one of Gemini and has no
  account.  The snapshot leaves out the concurrency of account 8, which loading it shows.
\<close>

definition loadedAccount :: Account where
  "loadedAccount = preferredAccount\<lparr>act_Concurrency := 3\<rparr>"

definition geminiSelEnv :: gemini_env where
  "geminiSelEnv = \<lparr>ge_clock = 30 * second, ge_thinking = None, ge_forcePlatform = None, ge_ctxGroup = None,
     ge_group = (\<lambda>i. if i = 3 then Some (privateGroup\<lparr>gr_ID := 3, gr_Platform := PlatformGemini\<rparr>) else None),
     ge_snapshot = Some (\<lambda>group _ _. Some (if group = None then [geminiAccount, preferredAccount] else [])),
     ge_repo = (\<lambda>_ _. None),
     ge_account = (\<lambda>i. Some (if i = 7 then Some geminiAccount else if i = 8 then Some loadedAccount else None)),
     ge_simpleMode = False, ge_rateLimit = True, ge_precheck = geminiEnv [], ge_cacheFails = False\<rparr>"

definition unboundWorld :: gemini_world where
  "unboundWorld = \<lparr>gw_sticky = Map.empty, gw_checks = emptyChecks\<rparr>"

theorem gemini_selection_exact_witness:
  "\<exists>w'. geminiSelectAccount geminiSelEnv None ''s'' ''gemini-2.5-pro'' {} unboundWorld = (Inr loadedAccount, w') \<and>
     (\<exists>a \<in> {geminiAccount, preferredAccount}. ge_account geminiSelEnv (act_ID a) = Some (Some loadedAccount) \<and>
        gw_sticky w' (0, ''gemini:s'') = Some (act_ID a) \<and>
        filter (\<lambda>b. geminiFit geminiSelEnv ''gemini-2.5-pro'' {} PlatformGemini True emptyChecks b \<and>
          isBetterGeminiAccount b a) [geminiAccount, preferredAccount] = [])"
proof -
  obtain r w' where run: "geminiSelectAccount geminiSelEnv None ''s'' ''gemini-2.5-pro'' {} unboundWorld = (r, w')"
    by (metis prod.collapse)
  have "fst (geminiSelectAccount geminiSelEnv None ''s'' ''gemini-2.5-pro'' {} unboundWorld) = Inr loadedAccount"
    by code_simp
  then have r: "r = Inr loadedAccount" using run by simp
  have h: "resolvePlatformAndSchedulingMode geminiSelEnv None = Some (PlatformGemini, True, False)"
    "tryStickySessionHit geminiSelEnv None ''s'' ''gemini-2.5-pro'' {} PlatformGemini True unboundWorld = (None, unboundWorld)"
    "geminiListing geminiSelEnv None PlatformGemini False = Some [geminiAccount, preferredAccount]"
    "exactChecks (ge_precheck geminiSelEnv) [geminiAccount, preferredAccount]" "\<not> ge_cacheFails geminiSelEnv"
    by (simp_all add: resolvePlatformAndSchedulingMode_def tryStickySessionHit_def geminiListing_def listSchedulableAccountsOnce_def
        geminiSelEnv_def unboundWorld_def exactChecks_def geminiEnv_def geminiAccount_def preferredAccount_def plainAccount_def)
  have known: "ge_snapshot geminiSelEnv \<noteq> None" "gw_checks unboundWorld = emptyChecks"
    "a \<in> set [geminiAccount, preferredAccount] \<Longrightarrow> ge_account geminiSelEnv (act_ID a) \<noteq> Some None" for a
    by (auto simp: geminiSelEnv_def unboundWorld_def geminiAccount_def preferredAccount_def plainAccount_def)
  define accounts where "accounts = [geminiAccount, preferredAccount]"
  note h = h [folded accounts_def]
  from gemini_selection_exact [OF h(1-4) run]
  have "\<exists>a \<in> set accounts. ge_account geminiSelEnv (act_ID a) = Some (Some loadedAccount) \<and>
      gw_sticky w' (0, ''gemini:s'') = Some (act_ID a) \<and>
      filter (\<lambda>b. geminiFit geminiSelEnv ''gemini-2.5-pro'' {} PlatformGemini True emptyChecks b \<and>
        isBetterGeminiAccount b a) accounts = []"
    using h(5) known(1) known(3) [folded accounts_def] unfolding r known(2)
    by (auto simp: derefGroupID_def simp del: filter_empty_conv split: if_splits)
  then show ?thesis using run r unfolding accounts_def by simp
qed

text \<open>A session keeps an account that its group does not have.\<close>

lemma gemini_sticky_ignores_group:
  "isAccountInGroup geminiAccount (Some 3) = False"
  "fst (geminiSelectAccount geminiSelEnv (Some 3) ''s'' ''gemini-2.5-pro'' {}
     (unboundWorld\<lparr>gw_sticky := [(3, ''gemini:s'') \<mapsto> 7]\<rparr>)) = Inr geminiAccount"
  by code_simp+

end
