(* ===== verification/Spec2Isabelle.thy ===== *)
theory Spec2Isabelle
  imports Concurrency_Service Session_Limit Gateway_Loop Billing_Eligibility Billing_Consumer Account_Choice Idempotency_Safety
    Anthropic_Buffered Usage_Safety Upstream_Recovery Gemini_Selection
begin

text \<open>
  Verification of the core of an AI-API gateway, the Go program under \<open>src/backend\<close>.  Clients call
  it with an API key; it admits them, picks an account at an upstream provider for each request,
  forwards the request, and charges the client's balance, subscription or key for it.  Paths below
  are relative to \<open>src/backend/internal\<close>.

  \<^bold>\<open>The path of a request and the theories that model it\<close>

  \<^item> Admission: the API-key middleware (\<open>server/middleware/api_key_auth.go\<close>) with the predicates of
    keys, groups, users and subscriptions (\<open>service/api_key.go\<close>, \<open>group.go\<close>, \<open>user.go\<close>,
    \<open>user_subscription.go\<close>).  Theories \<open>Entities\<close>, \<open>Admission\<close>.
  \<^item> Eligibility: \<open>CheckBillingEligibility\<close> of \<open>service/billing_cache_service.go\<close>, which reads
    balances, subscriptions and rate limits through a cache and is guarded by a circuit breaker.
    Theories \<open>Billing_Cache\<close>, \<open>Circuit_Breaker\<close>, \<open>Billing_Eligibility\<close>.
  \<^item> The handler: the wait queue, the user's slot and the loop that selects, forwards and fails over
    (\<open>handler/gateway_handler_chat_completions.go\<close>, \<open>gatewayruntime/failover/state.go\<close>).
    Theories \<open>Failover\<close>, \<open>Gateway_Loop\<close>.
  \<^item> Account selection (\<open>service/gateway_service.go\<close>, \<open>service/account.go\<close>): which accounts are fit
    for a request, and which of them it gets.  Theories \<open>Account\<close>, \<open>Model_Mapping\<close>,
    \<open>Scheduling_Order\<close>, \<open>Account_Selection\<close>, \<open>Account_Choice\<close>.
  \<^item> Slots and sessions, kept in Redis by Lua scripts (\<open>repository/concurrency_cache.go\<close>,
    \<open>repository/session_limit_cache.go\<close>, \<open>service/concurrency_service.go\<close>).  Theories
    \<open>Slot_Window\<close>, \<open>Concurrency_Cache\<close>, \<open>Concurrency_Service\<close>, \<open>Session_Limit\<close>.
  \<^item> Response writers that hold a response back until its charge is recorded
    (\<open>handler/queue_first_billing.go\<close>, \<open>handler/streaming_billing_v2.go\<close>).  Theory
    \<open>Response_Capture\<close>.
  \<^item> Billing: the event that a finished request publishes (\<open>service/gateway_service.go\<close>,
    \<open>service/billing_lifecycle.go\<close>), the consumer that handles it
    (\<open>service/billing_consumer_service.go\<close>) and the database transaction that applies it
    (\<open>repository/usage_billing_repo.go\<close>).  Theories \<open>Billing_Events\<close>, \<open>Billing_Consumer\<close>,
    \<open>Usage_Billing\<close>; \<open>Key_Accounting\<close> joins charges to admission.
  \<^item> Forwarding with conversion: a client that speaks one protocol (Chat Completions, Messages,
    Responses) served by an upstream that speaks another.  The converters of \<open>pkg/apicompat\<close>
    (\<open>types.go\<close>, \<open>responses_to_chatcompletions.go\<close>, \<open>responses_to_anthropic.go\<close>,
    \<open>anthropic_to_responses_response.go\<close>) are the theories \<open>Api_Types\<close>, \<open>Tool_IDs\<close>, \<open>Chat_Stream\<close>,
    \<open>Anthropic_Stream\<close>, \<open>Responses_Stream\<close> and their \<open>_Safety\<close> companions; the services that
    read an upstream stream and write to the client (\<open>service/openai_gateway_chat_completions.go\<close>,
    \<open>openai_gateway_messages.go\<close>, \<open>gateway_forward_as_responses.go\<close>,
    \<open>gateway_forward_as_chat_completions.go\<close>) are \<open>Chat_Forward\<close>, \<open>Messages_Forward\<close>,
    \<open>Anthropic_Forward\<close>, \<open>Anthropic_Forward_Safety\<close>, \<open>Anthropic_Buffered\<close>.
  \<^item> Channels: the administration's price lists, model mappings and restrictions of groups of users
    (\<open>service/channel.go\<close>, \<open>service/channel_service.go\<close>, \<open>repository/channel_repo.go\<close>,
    \<open>repository/channel_repo_pricing.go\<close>), their tables and the index that requests read.  Theories
    \<open>Channel\<close>, \<open>Channel_Index\<close>, \<open>Channel_Service\<close>.
  \<^item> Prices and costs: the list of model prices with its lookup (\<open>service/pricing_service.go\<close>), the
    calculation of costs (\<open>service/billing_service.go\<close>, \<open>service/model_pricing_resolver.go\<close>) and the
    recording of a finished request, from its adjusted token counts over the rate of its user and the
    model to bill to the usage log and the charge (\<open>RecordUsage\<close> in \<open>service/gateway_service.go\<close> and
    \<open>service/openai_gateway_service.go\<close>).  Theories \<open>Codex_Models\<close>, \<open>Model_Pricing\<close>, \<open>Cost\<close>,
    \<open>Pricing_Resolver\<close>, \<open>Pricing_Bounds\<close>, \<open>Usage_Cost\<close>, \<open>Usage_Safety\<close>.
  \<^item> Accounts after upstream errors: what an error, a timeout or a successful answer of the upstream does
    to the stored account, and how it recovers (\<open>service/ratelimit_service.go\<close>, the statements of
    \<open>repository/account_repo.go\<close>, \<open>repository/temp_unsched_cache.go\<close>,
    \<open>repository/timeout_counter_cache.go\<close>).  Theories \<open>Account_State\<close>, \<open>Upstream_Message\<close>,
    \<open>Upstream_Errors\<close>, \<open>Upstream_Errors_Safety\<close>, \<open>Upstream_Recovery\<close>.
  \<^item> Quotas of Gemini accounts and their local check before a request (\<open>service/gemini_quota.go\<close>,
    \<open>service/ratelimit_service.go\<close>, \<open>repository/usage_log_repo.go\<close>).  Theories \<open>Gemini_Quota\<close>,
    \<open>Gemini_Precheck\<close>, \<open>Gemini_Precheck_Safety\<close>.
  \<^item> The choice of an account for requests in Gemini's own protocol, which uses that check
    (\<open>service/gemini_messages_compat_service.go\<close>).  Theory \<open>Gemini_Selection\<close>.
  \<^item> Idempotency of the administration's requests: the coordinator (\<open>service/idempotency.go\<close>), its
    table (\<open>repository/idempotency_repo.go\<close>) and the redaction of what is stored
    (\<open>util/logredact/redact.go\<close>).  Theories \<open>Idempotency_Repo\<close>, \<open>Idempotency\<close>, \<open>Idempotency_Safety\<close>.

  \<open>Prelude\<close>, \<open>Go_Values\<close>, \<open>Go_Strings\<close>, \<open>Go_Json\<close> and \<open>Go_Sort\<close> hold what the code uses of Go's
  standard library (strings, \<open>strconv\<close>, decoded JSON, times and calendar, sorting, shuffling);
  \<open>Redis_Store\<close> the interface to Redis.

  \<^bold>\<open>How state and effects are represented\<close>

  \<^item> A struct is a record, an error or an early return a value of a sum type, a machine integer that
    can wrap a word, an amount of money a rational number (the database stores decimals with the
    scales given in \<open>Usage_Billing\<close>, and its rounding is modelled).
  \<^item> Redis is the locale \<open>redis\<close> of \<open>Redis_Store\<close>: the commands that the scripts use with their
    documented behaviour, interpreted by an in-memory store.  A script is one atomic step; a call may
    be lost before or after it takes effect (type \<open>io\<close>).
  \<^item> The database of the billing transaction is a record of tables, its statements are functions in a
    state-and-error monad, and a transaction keeps its changes or none of them, with the three
    outcomes of a commit (done, failed, unknown).
  \<^item> A converter is a function from an event and a state to events and a new state; \<open>Stream_Driver\<close>
    has the loops that pump a stream through it, with writes that fail and keepalive pings, and the
    locale \<open>converter\<close> of \<open>Stream_Refinement\<close> the simulation by which a stream that follows one
    protocol becomes one that follows another.  Its three interpretations are the three streaming
    converters.  The parsing of an event's text is a parameter, a random id an argument.
  \<^item> Prices are shared through pointers and the code writes through them, so \<open>Pricing_Resolver\<close> keeps
    a store of price objects in which a pointer is an index; the fallback table maps names to pointers.
    A map that the code ranges over is a list in an arbitrary order.
  \<^item> The rows of accounts are a map with the statements on them as functions; each call may fail
    (type \<open>faults\<close>), and the account in a caller's hands may be older than the row.
  \<^item> Concurrent calls of the idempotency coordinator are step lists over the shared table; a call is a
    machine of program counters with a measure (\<open>pc_rank\<close>), so running it needs no fuel.  JSON and
    SHA-256 are functions of its environment.
  \<^item> What the code reads from elsewhere (clock, configuration, randomness, services that are not
    modelled) is an environment record, an argument of the definitions.

  \<^bold>\<open>What the lemmas show\<close>

  \<^item> Slots and sessions: scripts refine a sliding-window specification (locale in \<open>Slot_Window\<close>), so
    limits hold under every interleaving; wait counters stay in bounds; cleanup is exact.
  \<^item> Selection: what is returned passes the checks of the layer that answers (routing, the session's
    account, the loaded candidates, the wait queue); of the slots taken on the way at most the one of the
    chosen account is kept, also where that account cannot be loaded; a fit account is never missed, and
    every loop ends; orders and model resolution are deterministic up to the random choice among
    equals (strict weak orders, \<open>Go_Sort\<close>).
  \<^item> Handler: the loop ends, and slots, reservations and charges are opened and closed in order.
  \<^item> Writers: what the client receives before and after the charge is recorded.
  \<^item> Billing: at-most-once charging over any history of deliveries, at-least-once under redelivery,
    exact balances, quotas and windows, and convergence of the cached balance where the reads of a
    balance, whose fill is queued, do not overlap the charges of the same user.
  \<^item> Admission and eligibility: exact conditions, for eligibility with the exact error (what the cache
    or the database answers, each limit as an inequality), breaker bounds.
  \<^item> Conversion: whatever prefix of a stream the upstream sends, the client gets a complete
    well-formed one with the same content (protocols as automata, content as a fold).  The automata for
    upstreams are wider than those for clients: \<open>upstream_step\<close> lets a Responses stream fail or stop
    with items open, \<open>anth_upstream_step\<close> allows pings, errors and unknown events anywhere; summaries
    of several parts are excluded (\<open>two_part_summary_breaks_protocol\<close>).  The answers in one piece agree
    with the streamed ones, and exactly where they part is proved too; the accumulator of
    \<open>Chat_Stream\<close> panics where the code's does (\<open>alternating_calls_panic\<close>).
  \<^item> Channels: the tables keep one channel for each group and valid lists only, a change is served
    from the next request on unless an older build of the index overlaps it
    (\<open>stale_build_overwrites\<close>), and the validation of intervals accepts exactly the unambiguous lists.
  \<^item> Costs: the calculation over shared pointers refines one on values, with the exact change of the
    shared table; splitting long contexts is exact for prices without a surcharge of their own; adjusting
    token counts loses none; in every reachable state costs are sound and what the event's log shows is
    what its command charges, once and to one payer.
  \<^item> Upstream errors: each concerns one row (\<open>row_step\<close>), and the verdict that is returned agrees with
    what is stored; limits end when the upstream says; timeouts act at their threshold; after any
    history (\<open>account_event\<close>) recovery restores what the administration has set.
  \<^item> Gemini: the check of many accounts at once decides as the checks one by one do over the classes of
    requests that its query sees (\<open>batchView\<close>), and that these can differ from the logs' own is proved;
    the selection chooses a fit account than which no fit one is better and returns it as the snapshot
    loads it.
  \<^item> Idempotency: one live execution for each key, replays of what was stored where it can be decoded,
    and the limits of both.

  \<^bold>\<open>Bounds and fuel\<close>

  \<^item> \<open>gwLoop\<close> takes fuel; \<open>chat_completions_returns\<close> gives a bound from the switch and retry limits of
    the failover state that is always enough.
  \<^item> \<open>resolveGatewayGroup\<close> needs one unit for each group and one more, because it refuses a group that
    it has visited; \<open>choiceRetry\<close> one for each account and one more, because each round excludes one.
  \<^item> \<open>layeredLoop\<close> needs no fuel: each round drops the account it tried.
  \<^item> Request identifiers use a 64-bit counter; distinctness holds for any \<open>2 ^ 64\<close> consecutive ones.

  \<^bold>\<open>Not modelled\<close>

  \<^item> The rewriting of requests, upstream connections, and the Messages and Gemini handlers; the OpenAI
    scheduler and its WebSocket pool.
  \<^item> The JSON and server-sent-event encoding of converted events; content block indices below zero,
    which no upstream sends.
  \<^item> The other administration services, OAuth and monitoring; the rounding of floating-point costs, for
    which exact rationals stand.
  \<^item> Generated database code (\<open>ent\<close>), configuration, logging, telemetry and the front end, which hold
    no logic of the gateway.
\<close>

end
